(* ===== verification/GoBase.thy ===== *)
theory GoBase
  imports Main "HOL-Library.Sublist" "HOL-Library.AList"
begin

text \<open>
  Shared vocabulary of the development: Go values as HOL values.

  \<^item> Go's \<open>int\<close>, \<open>int64\<close> and \<open>int32\<close> counters and identifiers are \<open>int\<close>
    (none of the modelled operations relies on wrap-around unless its own theory says so).
  \<^item> A Go string is its sequence of bytes, a \<open>string\<close>; \<open>length\<close> is Go's \<open>len\<close>.
  \<^item> A \<open>time.Time\<close> is an \<open>int\<close>, nanoseconds since the Unix epoch, and a
    \<open>time.Duration\<close> is an \<open>int\<close> number of nanoseconds. The clock is an explicit argument.
  \<^item> A Go map whose size or iteration order matters is an association list with distinct
    keys (\<open>AList\<close>); any other map is a partial function.
  \<^item> A Go slice is a list, \<open>nil\<close> and the empty slice both being \<open>[]\<close>; a pointer is an
    \<open>option\<close>.
  \<^item> A \<open>(T, error)\<close> result is a sum, \<open>Inl\<close> the error.
\<close>

text \<open>Rewrite rules that evaluate the Go vocabulary below.\<close>
named_theorems go_simps

section \<open>Time\<close>

type_synonym gotime = int
type_synonym duration = int

definition time_Second :: duration where "time_Second = 1000000000"
definition time_Minute :: duration where "time_Minute = 60 * time_Second"
definition time_Hour :: duration where "time_Hour = 60 * time_Minute"
definition time_Day :: duration where "time_Day = 24 * time_Hour"

lemmas time_defs [go_simps] = time_Second_def time_Minute_def time_Hour_def time_Day_def

text \<open>Go's integer division truncates towards zero.\<close>

definition go_div :: "int \<Rightarrow> int \<Rightarrow> int" where
  "go_div a b = sgn a * sgn b * (\<bar>a\<bar> div \<bar>b\<bar>)"

text \<open>\<open>int(d.Seconds())\<close>: the whole seconds of a duration, truncated towards zero.\<close>

definition whole_seconds :: "duration \<Rightarrow> int" where
  "whole_seconds d = go_div d time_Second"

lemma go_div_pos: "0 \<le> a \<Longrightarrow> 0 < b \<Longrightarrow> go_div a b = a div b"
  by (cases "a = 0") (auto simp: go_div_def)

lemma go_div_nonpos: "a \<le> 0 \<Longrightarrow> 0 < b \<Longrightarrow> go_div a b \<le> 0"
  by (cases "a = 0") (auto simp: go_div_def pos_imp_zdiv_nonneg_iff)

section \<open>Strings\<close>

text \<open>
  \<open>strings.TrimSpace\<close> strips the code points with Unicode's \<open>White_Space\<close> property from both
  ends; these are their UTF-8 encodings.
\<close>

definition ws_runes :: "string list" where
  "ws_runes =
    [[CHR 0x20], [CHR 0x0A], [CHR 0x0D], [CHR 0x09], [CHR 0x0B], [CHR 0x0C],
     [CHR 0xC2, CHR 0x85], [CHR 0xC2, CHR 0xA0], [CHR 0xE1, CHR 0x9A, CHR 0x80],
     [CHR 0xE2, CHR 0x80, CHR 0x80], [CHR 0xE2, CHR 0x80, CHR 0x81], [CHR 0xE2, CHR 0x80, CHR 0x82],
     [CHR 0xE2, CHR 0x80, CHR 0x83], [CHR 0xE2, CHR 0x80, CHR 0x84], [CHR 0xE2, CHR 0x80, CHR 0x85],
     [CHR 0xE2, CHR 0x80, CHR 0x86], [CHR 0xE2, CHR 0x80, CHR 0x87], [CHR 0xE2, CHR 0x80, CHR 0x88],
     [CHR 0xE2, CHR 0x80, CHR 0x89], [CHR 0xE2, CHR 0x80, CHR 0x8A], [CHR 0xE2, CHR 0x80, CHR 0xA8],
     [CHR 0xE2, CHR 0x80, CHR 0xA9], [CHR 0xE2, CHR 0x80, CHR 0xAF], [CHR 0xE2, CHR 0x81, CHR 0x9F],
     [CHR 0xE3, CHR 0x80, CHR 0x80]]"

text \<open>Repeatedly drops the first pattern that is a prefix.\<close>

function strip_pats :: "string list \<Rightarrow> string \<Rightarrow> string" where
  "strip_pats ps s =
     (case find (\<lambda>p. p \<noteq> [] \<and> prefix p s) ps of
        None \<Rightarrow> s
      | Some p \<Rightarrow> strip_pats ps (drop (length p) s))"
  by pat_completeness auto
termination
  by (relation "measure (\<lambda>(ps, s). length s)") (auto simp: find_Some_iff prefix_def)

declare strip_pats.simps [simp del]

definition trim_left :: "string \<Rightarrow> string" where
  "trim_left s = strip_pats ws_runes s"

definition trim_right :: "string \<Rightarrow> string" where
  "trim_right s = rev (strip_pats (map rev ws_runes) (rev s))"

definition TrimSpace :: "string \<Rightarrow> string" where
  "TrimSpace s = trim_right (trim_left s)"

definition no_pat :: "string list \<Rightarrow> string \<Rightarrow> bool" where
  "no_pat ps s \<longleftrightarrow> find (\<lambda>p. p \<noteq> [] \<and> prefix p s) ps = None"

lemma strip_pats_no_pat: "no_pat ps s \<Longrightarrow> strip_pats ps s = s"
  by (subst strip_pats.simps) (simp add: no_pat_def)

lemma no_pat_strip_pats: "no_pat ps (strip_pats ps s)"
proof (induction ps s rule: strip_pats.induct)
  case (1 ps s)
  then show ?case
    by (cases "find (\<lambda>p. p \<noteq> [] \<and> prefix p s) ps")
       (auto simp: strip_pats.simps [of ps s] no_pat_def)
qed

lemma suffix_strip_pats: "suffix (strip_pats ps s) s"
proof (induction ps s rule: strip_pats.induct)
  case (1 ps s)
  then show ?case
    by (cases "find (\<lambda>p. p \<noteq> [] \<and> prefix p s) ps")
       (auto simp: strip_pats.simps [of ps s] intro: suffix_order.trans suffix_drop)
qed

lemma no_pat_prefix: "no_pat ps s \<Longrightarrow> prefix t s \<Longrightarrow> no_pat ps t"
  unfolding no_pat_def find_None_iff by (blast intro: prefix_order.trans)

lemma prefix_trim_right: "prefix (trim_right s) s"
  using suffix_strip_pats [of "map rev ws_runes" "rev s"]
  by (simp add: trim_right_def suffix_to_prefix)

lemma TrimSpace_idem [simp]: "TrimSpace (TrimSpace s) = TrimSpace s"
proof -
  have "no_pat ws_runes (TrimSpace s)"
    unfolding TrimSpace_def trim_left_def
    by (rule no_pat_prefix [OF no_pat_strip_pats prefix_trim_right])
  then have "trim_left (TrimSpace s) = TrimSpace s"
    by (simp add: trim_left_def strip_pats_no_pat)
  moreover have "trim_right (TrimSpace s) = TrimSpace s"
    by (simp add: TrimSpace_def trim_right_def strip_pats_no_pat no_pat_strip_pats)
  ultimately show ?thesis by (simp add: TrimSpace_def)
qed

lemma TrimSpace_Nil [simp]: "TrimSpace [] = []"
  by (simp add: TrimSpace_def trim_left_def trim_right_def strip_pats_no_pat no_pat_def
      find_None_iff)

lemma length_TrimSpace: "length (TrimSpace s) \<le> length s"
proof -
  have "length (trim_right (trim_left s)) \<le> length (trim_left s)"
    by (rule prefix_length_le [OF prefix_trim_right])
  also have "\<dots> \<le> length s"
    unfolding trim_left_def by (rule suffix_length_le [OF suffix_strip_pats])
  finally show ?thesis by (simp add: TrimSpace_def)
qed

text \<open>\<open>strings.HasPrefix\<close> and \<open>strings.CutPrefix\<close>.\<close>

definition HasPrefix :: "string \<Rightarrow> string \<Rightarrow> bool" where
  "HasPrefix s p \<longleftrightarrow> prefix p s"

definition CutPrefix :: "string \<Rightarrow> string \<Rightarrow> string option" where
  "CutPrefix s p = (if prefix p s then Some (drop (length p) s) else None)"

lemma CutPrefix_append [simp]: "CutPrefix (p @ s) p = Some s"
  by (simp add: CutPrefix_def)

text \<open>\<open>strings.Split\<close> with a separator of one character.\<close>

fun Split :: "char \<Rightarrow> string \<Rightarrow> string list" where
  "Split c [] = [[]]"
| "Split c (x # xs) = (if x = c then [] # Split c xs
     else (case Split c xs of [] \<Rightarrow> [[x]] | w # ws \<Rightarrow> (x # w) # ws))"

text \<open>\<open>strings.Join\<close>.\<close>

fun join :: "string \<Rightarrow> string list \<Rightarrow> string" where
  "join sep [] = []"
| "join sep [x] = x"
| "join sep (x # y # ys) = x @ sep @ join sep (y # ys)"

text \<open>\<open>strconv.Itoa\<close>: decimal digits.\<close>

definition digit_char :: "nat \<Rightarrow> char" where
  "digit_char d = char_of (d + 48)"

function itoa_nat :: "nat \<Rightarrow> string" where
  "itoa_nat n = (if n < 10 then [digit_char n] else itoa_nat (n div 10) @ [digit_char (n mod 10)])"
  by pat_completeness auto
termination by (relation "measure id") auto

declare itoa_nat.simps [simp del]

definition itoa :: "int \<Rightarrow> string" where
  "itoa i = (if i < 0 then CHR ''-'' # itoa_nat (nat (- i)) else itoa_nat (nat i))"

text \<open>\<open>strings.ToUpper\<close> on ASCII.\<close>

definition ascii_upper :: "char \<Rightarrow> char" where
  "ascii_upper c = (let n = of_char c :: nat in if 97 \<le> n \<and> n \<le> 122 then char_of (n - 32) else c)"

definition ToUpper :: "string \<Rightarrow> string" where
  "ToUpper s = map ascii_upper s"

text \<open>\<open>strconv.Atoi\<close>: an optional sign and decimal digits, within 64 bits.\<close>

definition is_digit :: "char \<Rightarrow> bool" where
  "is_digit c \<longleftrightarrow> 48 \<le> (of_char c :: nat) \<and> (of_char c :: nat) \<le> 57"

definition parse_digits :: "string \<Rightarrow> int option" where
  "parse_digits ds = (if ds \<noteq> [] \<and> list_all is_digit ds
     then Some (foldl (\<lambda>n c. n * 10 + (int (of_char c) - 48)) 0 ds) else None)"

definition Atoi :: "string \<Rightarrow> int option" where
  "Atoi s =
     (let r = (case s of
          [] \<Rightarrow> None
        | c # cs \<Rightarrow> if c = CHR ''-'' then map_option uminus (parse_digits cs)
                  else if c = CHR ''+'' then parse_digits cs
                  else parse_digits s)
      in case r of
           None \<Rightarrow> None
         | Some n \<Rightarrow> if - (2 ^ 63) \<le> n \<and> n < 2 ^ 63 then Some n else None)"

lemma digit_char_digit: "d < 10 \<Longrightarrow> is_digit (digit_char d) \<and> int (of_char (digit_char d)) = int d + 48"
  by (simp add: is_digit_def digit_char_def of_char_of)

lemma itoa_nat_digits: "itoa_nat n \<noteq> [] \<and> list_all is_digit (itoa_nat n)"
proof (induction n rule: itoa_nat.induct)
  case (1 n)
  then show ?case
    by (cases "n < 10") (simp_all add: itoa_nat.simps [of n] digit_char_digit)
qed

lemma itoa_nat_value: "foldl (\<lambda>n c. n * 10 + (int (of_char c) - 48)) 0 (itoa_nat n) = int n"
proof (induction n rule: itoa_nat.induct)
  case (1 n)
  show ?case
  proof (cases "n < 10")
    case True
    then show ?thesis by (simp add: itoa_nat.simps [of n] digit_char_digit)
  next
    case False
    have "int (n div 10) * 10 + int (n mod 10) = int n" by presburger
    with 1 False show ?thesis by (simp add: itoa_nat.simps [of n] digit_char_digit)
  qed
qed

lemma parse_digits_itoa [simp]: "parse_digits (itoa_nat n) = Some (int n)"
  by (simp add: parse_digits_def itoa_nat_digits itoa_nat_value)

lemma Atoi_itoa: "- (2 ^ 63) \<le> n \<Longrightarrow> n < 2 ^ 63 \<Longrightarrow> Atoi (itoa n) = Some n"
proof (cases "n < 0")
  case False
  obtain c cs where s: "itoa_nat (nat n) = c # cs" using itoa_nat_digits [of "nat n"]
    by (cases "itoa_nat (nat n)") auto
  then have "is_digit c" using itoa_nat_digits [of "nat n"] by simp
  then have "c \<noteq> CHR ''-''" "c \<noteq> CHR ''+''" by (auto simp: is_digit_def)
  moreover assume "- (2 ^ 63) \<le> n" "n < 2 ^ 63"
  ultimately show ?thesis
    using False s parse_digits_itoa [of "nat n"] by (simp add: Atoi_def itoa_def)
qed (simp add: Atoi_def itoa_def)

text \<open>Printable ASCII needs no trimming.\<close>

definition graphic :: "char \<Rightarrow> bool" where
  "graphic c \<longleftrightarrow> 33 \<le> (of_char c :: nat) \<and> (of_char c :: nat) \<le> 126"

lemma no_pat_graphic:
  assumes "list_all graphic s" "list_all (\<lambda>p. p \<noteq> [] \<and> \<not> graphic (hd p)) ps"
  shows "no_pat ps s"
  unfolding no_pat_def find_None_iff
proof
  assume "\<exists>p. p \<in> set ps \<and> p \<noteq> [] \<and> prefix p s"
  then obtain p where p: "p \<in> set ps" "p \<noteq> []" "prefix p s" by blast
  then have "hd p \<in> set s" by (auto simp: prefix_def)
  with assms p(1) show False by (auto simp: list_all_iff)
qed

lemma TrimSpace_graphic:
  assumes "list_all graphic s" shows "TrimSpace s = s"
proof -
  have "list_all (\<lambda>p. p \<noteq> [] \<and> \<not> graphic (hd p)) ws_runes"
    by (simp add: ws_runes_def graphic_def)
  then have "trim_left s = s"
    unfolding trim_left_def by (intro strip_pats_no_pat no_pat_graphic assms)
  moreover have "list_all (\<lambda>p. p \<noteq> [] \<and> \<not> graphic (hd p)) (map rev ws_runes)"
    by (simp add: ws_runes_def graphic_def)
  then have "trim_right s = s"
    unfolding trim_right_def using assms
    by (subst strip_pats_no_pat) (auto intro!: no_pat_graphic)
  ultimately show ?thesis by (simp add: TrimSpace_def)
qed

lemma strip_pats_graphic:
  "list_all (list_all (\<lambda>c. \<not> graphic c)) ps \<Longrightarrow> graphic c \<Longrightarrow> c \<in> set s \<Longrightarrow> c \<in> set (strip_pats ps s)"
proof (induction ps s rule: strip_pats.induct)
  case (1 ps s)
  show ?case
  proof (cases "find (\<lambda>p. p \<noteq> [] \<and> prefix p s) ps")
    case None
    with 1 show ?thesis by (simp add: strip_pats.simps [of ps s])
  next
    case (Some p)
    then have p: "p \<in> set ps" "prefix p s" by (auto simp: find_Some_iff)
    then obtain t where t: "s = p @ t" by (auto simp: prefix_def)
    with 1(2-4) p have "c \<in> set t" by (auto simp: list_all_iff)
    moreover have "strip_pats ps s = strip_pats ps t" using Some t by (subst strip_pats.simps) simp
    ultimately show ?thesis using 1(1) [OF Some 1(2,3)] t by simp
  qed
qed

lemma TrimSpace_keeps_graphic:
  assumes "graphic c" "c \<in> set s" shows "TrimSpace s \<noteq> []"
proof -
  have "list_all (list_all (\<lambda>c. \<not> graphic c)) ws_runes" by (simp add: ws_runes_def graphic_def)
  then have "c \<in> set (trim_left s)" unfolding trim_left_def by (rule strip_pats_graphic [OF _ assms])
  moreover have "list_all (list_all (\<lambda>c. \<not> graphic c)) (map rev ws_runes)"
    by (simp add: ws_runes_def graphic_def)
  ultimately have "c \<in> set (strip_pats (map rev ws_runes) (rev (trim_left s)))"
    by (intro strip_pats_graphic assms) auto
  then show ?thesis by (auto simp: TrimSpace_def trim_right_def)
qed

lemma itoa_graphic: "list_all graphic (itoa n) \<and> itoa n \<noteq> []"
  using itoa_nat_digits [of "nat n"] itoa_nat_digits [of "nat (- n)"]
  by (auto simp: itoa_def list_all_iff is_digit_def graphic_def)

text \<open>ASCII lower case, the byte-wise part of \<open>strings.ToLower\<close> and \<open>strings.EqualFold\<close>.\<close>

definition ascii_lower :: "char \<Rightarrow> char" where
  "ascii_lower c = (let n = of_char c :: nat in if 65 \<le> n \<and> n \<le> 90 then char_of (n + 32) else c)"

definition ToLower :: "string \<Rightarrow> string" where
  "ToLower s = map ascii_lower s"

definition EqualFold :: "string \<Rightarrow> string \<Rightarrow> bool" where
  "EqualFold a b \<longleftrightarrow> ToLower a = ToLower b"

text \<open>
  \<open>json.Marshal\<close> of a string: quotes, with the escapes of \<open>encoding/json\<close> (HTML escaping is on by
  default). The input is taken to be valid UTF-8, whose multi-byte sequences are copied; the two
  line separators U+2028 and U+2029 are escaped.
\<close>

definition hex_digit :: "nat \<Rightarrow> char" where
  "hex_digit d = (if d < 10 then char_of (d + 48) else char_of (d + 87))"

definition json_escape_byte :: "char \<Rightarrow> string" where
  "json_escape_byte c =
     (let n = of_char c :: nat in
      if n = 34 then [CHR 0x5C, CHR 0x22]
      else if n = 92 then [CHR 0x5C, CHR 0x5C]
      else if n = 8 then [CHR 0x5C, CHR ''b'']
      else if n = 12 then [CHR 0x5C, CHR ''f'']
      else if n = 10 then [CHR 0x5C, CHR ''n'']
      else if n = 13 then [CHR 0x5C, CHR ''r'']
      else if n = 9 then [CHR 0x5C, CHR ''t'']
      else if n < 32 \<or> n = 60 \<or> n = 62 \<or> n = 38
        then CHR 0x5C # ''u00'' @ [hex_digit (n div 16), hex_digit (n mod 16)]
      else [c])"

fun json_escape :: "string \<Rightarrow> string" where
  "json_escape [] = []"
| "json_escape (c # cs) =
     (if take 3 (c # cs) = [CHR 0xE2, CHR 0x80, CHR 0xA8]
      then CHR 0x5C # ''u2028'' @ json_escape (drop 2 cs)
      else if take 3 (c # cs) = [CHR 0xE2, CHR 0x80, CHR 0xA9]
      then CHR 0x5C # ''u2029'' @ json_escape (drop 2 cs)
      else json_escape_byte c @ json_escape cs)"

definition json_string :: "string \<Rightarrow> string" where
  "json_string s = CHR 0x22 # json_escape s @ [CHR 0x22]"

lemma json_string_nonempty [simp]: "json_string s \<noteq> []"
  by (simp add: json_string_def)

section \<open>Lists, options and association lists\<close>

text \<open>A run of a step function that emits a list of outputs per input, the stream
  converters' loop.\<close>

fun run_steps :: "('e \<Rightarrow> 's \<Rightarrow> 'o list \<times> 's) \<Rightarrow> 'e list \<Rightarrow> 's \<Rightarrow> 'o list \<times> 's" where
  "run_steps f [] s = ([], s)"
| "run_steps f (e # es) s =
     (let (os, s1) = f e s; (os', s2) = run_steps f es s1 in (os @ os', s2))"

lemma run_steps_append:
  "run_steps f (xs @ ys) s =
     (let (os, s1) = run_steps f xs s; (os', s2) = run_steps f ys s1 in (os @ os', s2))"
  by (induction xs arbitrary: s) (auto simp: Let_def split: prod.splits)

text \<open>Consecutive numbers from a start.\<close>

fun consec :: "int \<Rightarrow> int list \<Rightarrow> bool" where
  "consec n [] \<longleftrightarrow> True"
| "consec n (x # xs) \<longleftrightarrow> x = n \<and> consec (n + 1) xs"

lemma consec_append: "consec n (xs @ ys) \<longleftrightarrow> consec n xs \<and> consec (n + int (length xs)) ys"
  by (induction xs arbitrary: n) (auto simp: algebra_simps)

lemma consec_nth: "consec n xs \<Longrightarrow> k < length xs \<Longrightarrow> xs ! k = n + int k"
  by (induction xs arbitrary: n k) (auto simp: nth_Cons split: nat.splits)

text \<open>
  The contract of a stateful stream converter: \<open>rel s ins outs t\<close> relates a state, the inputs
  consumed from it, the outputs emitted and the state reached; it composes, every step satisfies
  it, and every step keeps the invariant. A whole run then satisfies it.
\<close>

locale stream_contract =
  fixes step :: "'e \<Rightarrow> 's \<Rightarrow> 'o list \<times> 's"
    and inv :: "'s \<Rightarrow> bool"
    and rel :: "'s \<Rightarrow> 'e list \<Rightarrow> 'o list \<Rightarrow> 's \<Rightarrow> bool"
  assumes rel_refl: "inv s \<Longrightarrow> rel s [] [] s"
    and rel_trans: "rel s ins outs s1 \<Longrightarrow> rel s1 ins' outs' s2 \<Longrightarrow> rel s (ins @ ins') (outs @ outs') s2"
    and step_rel: "inv s \<Longrightarrow> step e s = (outs, s1) \<Longrightarrow> rel s [e] outs s1"
    and step_inv: "inv s \<Longrightarrow> step e s = (outs, s1) \<Longrightarrow> inv s1"
begin

lemma run_inv: "inv s \<Longrightarrow> run_steps step es s = (outs, s1) \<Longrightarrow> inv s1"
proof (induction es arbitrary: s outs s1)
  case (Cons e es)
  then show ?case by (auto simp: Let_def split: prod.splits dest: step_inv)
qed simp

lemma run_rel: "inv s \<Longrightarrow> run_steps step es s = (outs, s1) \<Longrightarrow> rel s es outs s1"
proof (induction es arbitrary: s outs s1)
  case Nil
  then show ?case by (auto intro: rel_refl)
next
  case (Cons e es)
  obtain o1 t where e: "step e s = (o1, t)" by fastforce
  obtain o2 u where r: "run_steps step es t = (o2, u)" by fastforce
  from Cons.prems e r have res: "outs = o1 @ o2" "s1 = u" by auto
  have "rel t es o2 u" using Cons.IH [OF step_inv [OF Cons.prems(1) e] r] .
  with step_rel [OF Cons.prems(1) e] have "rel s ([e] @ es) (o1 @ o2) u" by (rule rel_trans)
  with res show ?case by simp
qed

end

lemma distinct_map_fst_update [intro]:
  "distinct (map fst m) \<Longrightarrow> distinct (map fst (AList.update k v m))"
  by (rule distinct_update)

lemma length_update_new:
  "map_of m k = None \<Longrightarrow> length (AList.update k v m) = Suc (length m)"
  by (induction m) (auto split: if_splits)

lemma length_update_old:
  "map_of m k \<noteq> None \<Longrightarrow> length (AList.update k v m) = length m"
  by (induction m) (auto split: if_splits)

lemma length_update_le: "length (AList.update k v m) \<le> Suc (length m)"
  by (cases "map_of m k") (auto simp: length_update_new length_update_old)

lemma length_delete_mem:
  "distinct (map fst m) \<Longrightarrow> k \<in> fst ` set m \<Longrightarrow> Suc (length (AList.delete k m)) = length m"
proof (induction m)
  case (Cons a m)
  show ?case
  proof (cases "fst a = k")
    case True
    with Cons.prems have "k \<notin> fst ` set m" by auto
    then have "AList.delete k m = m" by (rule delete_id)
    with True show ?thesis by (auto simp: AList.delete_eq)
  next
    case False
    with Cons show ?thesis by (auto simp: AList.delete_eq)
  qed
qed simp

end
