(* ===== verification/ApiTypes.thy ===== *)
theory ApiTypes
  imports GoBase
begin

text \<open>
  The wire types of \<open>pkg/apicompat/types.go\<close> that the converters of the next theories read or
  build: Anthropic Messages responses and stream events, OpenAI Responses responses and stream
  events, Chat Completions responses and chunks. Each Go struct is a record with the same fields
  in the same order, prefixed by the struct's initials because Go field names repeat across
  structs; \<open>json.RawMessage\<close> is its bytes; a pointer is an \<open>option\<close>. A constant named
  \<open>zero_\<dots>\<close> is the struct's Go zero value, from which a composite literal sets fields.
\<close>

section \<open>Anthropic Messages\<close>

record AnthropicImageSource =
  ais_Type :: string
  ais_MediaType :: string
  ais_Data :: string

record AnthropicContentBlock =
  acb_Type :: string
  acb_Text :: string
  acb_Thinking :: string
  acb_Source :: "AnthropicImageSource option"
  acb_ID :: string
  acb_Name :: string
  acb_Input :: string
  acb_ToolUseID :: string
  acb_Content :: string
  acb_IsError :: bool

definition zero_acb :: AnthropicContentBlock where
  "zero_acb = \<lparr>acb_Type = [], acb_Text = [], acb_Thinking = [], acb_Source = None, acb_ID = [],
     acb_Name = [], acb_Input = [], acb_ToolUseID = [], acb_Content = [], acb_IsError = False\<rparr>"

record AnthropicUsage =
  au_InputTokens :: int
  au_OutputTokens :: int
  au_CacheCreationInputTokens :: int
  au_CacheReadInputTokens :: int

definition zero_au :: AnthropicUsage where
  "zero_au = \<lparr>au_InputTokens = 0, au_OutputTokens = 0, au_CacheCreationInputTokens = 0,
     au_CacheReadInputTokens = 0\<rparr>"

record AnthropicResponse =
  ar_ID :: string
  ar_Type :: string
  ar_Role :: string
  ar_Content :: "AnthropicContentBlock list"
  ar_Model :: string
  ar_StopReason :: string
  ar_StopSequence :: "string option"
  ar_Usage :: AnthropicUsage

definition zero_ar :: AnthropicResponse where
  "zero_ar = \<lparr>ar_ID = [], ar_Type = [], ar_Role = [], ar_Content = [], ar_Model = [],
     ar_StopReason = [], ar_StopSequence = None, ar_Usage = zero_au\<rparr>"

record AnthropicDelta =
  ad_Type :: string
  ad_Text :: string
  ad_PartialJSON :: string
  ad_Thinking :: string
  ad_Signature :: string
  ad_StopReason :: string
  ad_StopSequence :: "string option"

definition zero_ad :: AnthropicDelta where
  "zero_ad = \<lparr>ad_Type = [], ad_Text = [], ad_PartialJSON = [], ad_Thinking = [],
     ad_Signature = [], ad_StopReason = [], ad_StopSequence = None\<rparr>"

record AnthropicStreamEvent =
  ase_Type :: string
  ase_Message :: "AnthropicResponse option"
  ase_Index :: "int option"
  ase_ContentBlock :: "AnthropicContentBlock option"
  ase_Delta :: "AnthropicDelta option"
  ase_Usage :: "AnthropicUsage option"

definition zero_ase :: AnthropicStreamEvent where
  "zero_ase = \<lparr>ase_Type = [], ase_Message = None, ase_Index = None, ase_ContentBlock = None,
     ase_Delta = None, ase_Usage = None\<rparr>"

section \<open>OpenAI Responses\<close>

record ResponsesContentPart =
  rcp_Type :: string
  rcp_Text :: string
  rcp_ImageURL :: string

definition zero_rcp :: ResponsesContentPart where
  "zero_rcp = \<lparr>rcp_Type = [], rcp_Text = [], rcp_ImageURL = []\<rparr>"

record ResponsesError =
  re_Code :: string
  re_Message :: string

record ResponsesIncompleteDetails =
  rid_Reason :: string

record WebSearchAction =
  wsa_Type :: string
  wsa_Query :: string

record ResponsesSummary =
  rs_Type :: string
  rs_Text :: string

record ResponsesOutput =
  ro_Type :: string
  ro_ID :: string
  ro_Role :: string
  ro_Content :: "ResponsesContentPart list"
  ro_Status :: string
  ro_EncryptedContent :: string
  ro_Summary :: "ResponsesSummary list"
  ro_CallID :: string
  ro_Name :: string
  ro_Arguments :: string
  ro_Action :: "WebSearchAction option"

definition zero_ro :: ResponsesOutput where
  "zero_ro = \<lparr>ro_Type = [], ro_ID = [], ro_Role = [], ro_Content = [], ro_Status = [],
     ro_EncryptedContent = [], ro_Summary = [], ro_CallID = [], ro_Name = [], ro_Arguments = [],
     ro_Action = None\<rparr>"

record ResponsesInputTokensDetails =
  ritd_CachedTokens :: int

record ResponsesOutputTokensDetails =
  rotd_ReasoningTokens :: int

record ResponsesUsage =
  ru_InputTokens :: int
  ru_OutputTokens :: int
  ru_TotalTokens :: int
  ru_InputTokensDetails :: "ResponsesInputTokensDetails option"
  ru_OutputTokensDetails :: "ResponsesOutputTokensDetails option"

record ResponsesResponse =
  rr_ID :: string
  rr_Object :: string
  rr_Model :: string
  rr_Status :: string
  rr_Output :: "ResponsesOutput list"
  rr_Usage :: "ResponsesUsage option"
  rr_IncompleteDetails :: "ResponsesIncompleteDetails option"
  rr_Error :: "ResponsesError option"

definition zero_rr :: ResponsesResponse where
  "zero_rr = \<lparr>rr_ID = [], rr_Object = [], rr_Model = [], rr_Status = [], rr_Output = [],
     rr_Usage = None, rr_IncompleteDetails = None, rr_Error = None\<rparr>"

record ResponsesStreamEvent =
  rse_Type :: string
  rse_Response :: "ResponsesResponse option"
  rse_Item :: "ResponsesOutput option"
  rse_OutputIndex :: int
  rse_ContentIndex :: int
  rse_Delta :: string
  rse_Text :: string
  rse_ItemID :: string
  rse_CallID :: string
  rse_Name :: string
  rse_Arguments :: string
  rse_SummaryIndex :: int
  rse_Code :: string
  rse_Param :: string
  rse_SequenceNumber :: int

definition zero_rse :: ResponsesStreamEvent where
  "zero_rse = \<lparr>rse_Type = [], rse_Response = None, rse_Item = None, rse_OutputIndex = 0,
     rse_ContentIndex = 0, rse_Delta = [], rse_Text = [], rse_ItemID = [], rse_CallID = [],
     rse_Name = [], rse_Arguments = [], rse_SummaryIndex = 0, rse_Code = [], rse_Param = [],
     rse_SequenceNumber = 0\<rparr>"

section \<open>Chat Completions\<close>

record ChatFunctionCall =
  cfc_Name :: string
  cfc_Arguments :: string

record ChatToolCall =
  ctc_Index :: "int option"
  ctc_ID :: string
  ctc_Type :: string
  ctc_Function :: ChatFunctionCall

record ChatMessage =
  cm_Role :: string
  cm_Content :: string
  cm_ReasoningContent :: string
  cm_Name :: string
  cm_ToolCalls :: "ChatToolCall list"
  cm_ToolCallID :: string
  cm_FunctionCall :: "ChatFunctionCall option"

definition zero_cm :: ChatMessage where
  "zero_cm = \<lparr>cm_Role = [], cm_Content = [], cm_ReasoningContent = [], cm_Name = [],
     cm_ToolCalls = [], cm_ToolCallID = [], cm_FunctionCall = None\<rparr>"

record ChatTokenDetails =
  ctd_CachedTokens :: int

record ChatUsage =
  cu_PromptTokens :: int
  cu_CompletionTokens :: int
  cu_TotalTokens :: int
  cu_PromptTokensDetails :: "ChatTokenDetails option"

record ChatChoice =
  cc_Index :: int
  cc_Message :: ChatMessage
  cc_FinishReason :: string

record ChatCompletionsResponse =
  ccr_ID :: string
  ccr_Object :: string
  ccr_Created :: int
  ccr_Model :: string
  ccr_Choices :: "ChatChoice list"
  ccr_Usage :: "ChatUsage option"
  ccr_SystemFingerprint :: string
  ccr_ServiceTier :: string

record ChatDelta =
  cd_Role :: string
  cd_Content :: "string option"
  cd_ReasoningContent :: "string option"
  cd_ToolCalls :: "ChatToolCall list"

definition zero_cd :: ChatDelta where
  "zero_cd = \<lparr>cd_Role = [], cd_Content = None, cd_ReasoningContent = None, cd_ToolCalls = []\<rparr>"

record ChatChunkChoice =
  cch_Index :: int
  cch_Delta :: ChatDelta
  cch_FinishReason :: "string option"

record ChatCompletionsChunk =
  ck_ID :: string
  ck_Object :: string
  ck_Created :: int
  ck_Model :: string
  ck_Choices :: "ChatChunkChoice list"
  ck_Usage :: "ChatUsage option"
  ck_SystemFingerprint :: string
  ck_ServiceTier :: string

lemmas zero_defs [go_simps] = zero_acb_def zero_au_def zero_ar_def zero_ad_def zero_ase_def
  zero_rcp_def zero_ro_def zero_rr_def zero_rse_def zero_cm_def zero_cd_def

section \<open>Tool-call identifiers\<close>

text \<open>
  \<open>toResponsesCallID\<close> adds the prefix \<open>fc_\<close> that the Responses API wants,
  \<open>fromResponsesCallID\<close> strips it again where what remains is an Anthropic or OpenAI tool id.
\<close>

definition toResponsesCallID :: "string \<Rightarrow> string" where
  "toResponsesCallID i = (if HasPrefix i ''fc_'' then i else ''fc_'' @ i)"

definition fromResponsesCallID :: "string \<Rightarrow> string" where
  "fromResponsesCallID i =
     (case CutPrefix i ''fc_'' of
        Some after \<Rightarrow> if HasPrefix after ''toolu_'' \<or> HasPrefix after ''call_'' then after else i
      | None \<Rightarrow> i)"

definition fromResponsesCallIDToAnthropic :: "string \<Rightarrow> string" where
  "fromResponsesCallIDToAnthropic i =
     (case CutPrefix i ''fc_'' of
        Some after \<Rightarrow>
          if HasPrefix after ''toolu_'' \<or> HasPrefix after ''call_'' then after
          else if \<not> HasPrefix i ''toolu_'' \<and> \<not> HasPrefix i ''call_'' then ''toolu_'' @ i else i
      | None \<Rightarrow> if \<not> HasPrefix i ''toolu_'' \<and> \<not> HasPrefix i ''call_'' then ''toolu_'' @ i else i)"

lemma toResponsesCallID_prefix: "HasPrefix (toResponsesCallID i) ''fc_''"
  by (simp add: toResponsesCallID_def HasPrefix_def)

lemma toResponsesCallID_idem: "toResponsesCallID (toResponsesCallID i) = toResponsesCallID i"
  by (simp add: toResponsesCallID_prefix toResponsesCallID_def [of "toResponsesCallID i"])

lemma known_id_no_fc:
  "HasPrefix i ''toolu_'' \<or> HasPrefix i ''call_'' \<Longrightarrow> \<not> HasPrefix i ''fc_''"
  by (auto simp: HasPrefix_def prefix_def)

lemma from_toResponsesCallID:
  assumes "HasPrefix i ''toolu_'' \<or> HasPrefix i ''call_''"
  shows "fromResponsesCallID (toResponsesCallID i) = i"
  using assms known_id_no_fc [OF assms] CutPrefix_append [of "''fc_''" i]
  by (auto simp: toResponsesCallID_def fromResponsesCallID_def)

lemma fromResponsesCallIDToAnthropic_known:
  "HasPrefix (fromResponsesCallIDToAnthropic i) ''toolu_'' \<or>
   HasPrefix (fromResponsesCallIDToAnthropic i) ''call_''"
  by (auto simp: fromResponsesCallIDToAnthropic_def HasPrefix_def split: option.split)

end
