(* ===== verification/ResToAnthropic.thy ===== *)
theory ResToAnthropic
  imports ApiTypes
begin

text \<open>
  \<open>pkg/apicompat/responses_to_anthropic.go\<close>: OpenAI Responses answers as Anthropic Messages.
  The first section is the non-streaming conversion; the second the stateful stream converter,
  whose Go pointer to the state becomes an argument and a second result. The third gives the
  Anthropic content-block protocol as an automaton over the emitted events and shows that the
  converter refines it for every input stream.
\<close>

section \<open>Non-streaming conversion\<close>

definition responsesStatusToAnthropicStopReason ::
    "string \<Rightarrow> ResponsesIncompleteDetails option \<Rightarrow> AnthropicContentBlock list \<Rightarrow> string" where
  "responsesStatusToAnthropicStopReason status details blocks =
     (if status = ''incomplete'' then
        (case details of
           Some d \<Rightarrow> if rid_Reason d = ''max_output_tokens'' then ''max_tokens'' else ''end_turn''
         | None \<Rightarrow> ''end_turn'')
      else if status = ''completed'' then
        (if blocks \<noteq> [] \<and> acb_Type (last blocks) = ''tool_use'' then ''tool_use'' else ''end_turn'')
      else ''end_turn'')"

definition summaryTextOf :: "ResponsesSummary list \<Rightarrow> string" where
  "summaryTextOf ss = concat (map (\<lambda>s. if rs_Type s = ''summary_text'' \<and> rs_Text s \<noteq> []
                                       then rs_Text s else []) ss)"

definition webSearchInput :: "WebSearchAction option \<Rightarrow> string" where
  "webSearchInput act =
     (let query = (case act of Some a \<Rightarrow> wsa_Query a | None \<Rightarrow> [])
      in CHR 0x7B # json_string ''query'' @ [CHR '':''] @ json_string query @ [CHR 0x7D])"

definition outputItemToBlocks :: "ResponsesOutput \<Rightarrow> AnthropicContentBlock list" where
  "outputItemToBlocks item =
     (if ro_Type item = ''reasoning'' then
        (let summaryText = summaryTextOf (ro_Summary item)
         in if summaryText \<noteq> []
            then [zero_acb\<lparr>acb_Type := ''thinking'', acb_Thinking := summaryText\<rparr>] else [])
      else if ro_Type item = ''message'' then
        map (\<lambda>part. zero_acb\<lparr>acb_Type := ''text'', acb_Text := rcp_Text part\<rparr>)
          (filter (\<lambda>part. rcp_Type part = ''output_text'' \<and> rcp_Text part \<noteq> []) (ro_Content item))
      else if ro_Type item = ''function_call'' then
        [zero_acb\<lparr>acb_Type := ''tool_use'', acb_ID := fromResponsesCallID (ro_CallID item),
           acb_Name := ro_Name item, acb_Input := ro_Arguments item\<rparr>]
      else if ro_Type item = ''web_search_call'' then
        (let toolUseID = ''srvtoolu_'' @ ro_ID item in
         [zero_acb\<lparr>acb_Type := ''server_tool_use'', acb_ID := toolUseID, acb_Name := ''web_search'',
            acb_Input := webSearchInput (ro_Action item)\<rparr>,
          zero_acb\<lparr>acb_Type := ''web_search_tool_result'', acb_ToolUseID := toolUseID,
            acb_Content := [CHR 0x5B, CHR 0x5D]\<rparr>])
      else [])"

definition ResponsesToAnthropic :: "ResponsesResponse \<Rightarrow> string \<Rightarrow> AnthropicResponse" where
  "ResponsesToAnthropic resp model =
     (let blocks0 = concat (map outputItemToBlocks (rr_Output resp));
          blocks = (if blocks0 = [] then [zero_acb\<lparr>acb_Type := ''text'', acb_Text := []\<rparr>]
                    else blocks0)
      in zero_ar\<lparr>ar_ID := rr_ID resp, ar_Type := ''message'', ar_Role := ''assistant'',
           ar_Model := model, ar_Content := blocks,
           ar_StopReason :=
             responsesStatusToAnthropicStopReason (rr_Status resp) (rr_IncompleteDetails resp) blocks,
           ar_Usage :=
             (case rr_Usage resp of
                None \<Rightarrow> zero_au
              | Some u \<Rightarrow> zero_au\<lparr>au_InputTokens := ru_InputTokens u,
                  au_OutputTokens := ru_OutputTokens u,
                  au_CacheReadInputTokens :=
                    (case ru_InputTokensDetails u of Some d \<Rightarrow> ritd_CachedTokens d | None \<Rightarrow> 0)\<rparr>)\<rparr>)"

section \<open>The stream converter\<close>

record ResponsesEventToAnthropicState =
  ras_MessageStartSent :: bool
  ras_MessageStopSent :: bool
  ras_ContentBlockIndex :: int
  ras_ContentBlockOpen :: bool
  ras_CurrentBlockType :: string
  ras_OutputIndexToBlockIdx :: "int \<rightharpoonup> int"
  ras_InputTokens :: int
  ras_OutputTokens :: int
  ras_CacheReadInputTokens :: int
  ras_ResponseID :: string
  ras_Model :: string
  ras_Created :: int

definition NewResponsesEventToAnthropicState :: "gotime \<Rightarrow> ResponsesEventToAnthropicState" where
  "NewResponsesEventToAnthropicState now =
     \<lparr>ras_MessageStartSent = False, ras_MessageStopSent = False, ras_ContentBlockIndex = 0,
      ras_ContentBlockOpen = False, ras_CurrentBlockType = [],
      ras_OutputIndexToBlockIdx = Map.empty, ras_InputTokens = 0, ras_OutputTokens = 0,
      ras_CacheReadInputTokens = 0, ras_ResponseID = [], ras_Model = [],
      ras_Created = now div time_Second\<rparr>"

type_synonym anth_out = "AnthropicStreamEvent list \<times> ResponsesEventToAnthropicState"

definition ev_start :: "int \<Rightarrow> AnthropicContentBlock \<Rightarrow> AnthropicStreamEvent" where
  "ev_start i b = zero_ase\<lparr>ase_Type := ''content_block_start'', ase_Index := Some i,
     ase_ContentBlock := Some b\<rparr>"

definition ev_delta :: "int \<Rightarrow> AnthropicDelta \<Rightarrow> AnthropicStreamEvent" where
  "ev_delta i d = zero_ase\<lparr>ase_Type := ''content_block_delta'', ase_Index := Some i,
     ase_Delta := Some d\<rparr>"

definition ev_stop :: "int \<Rightarrow> AnthropicStreamEvent" where
  "ev_stop i = zero_ase\<lparr>ase_Type := ''content_block_stop'', ase_Index := Some i\<rparr>"

definition closeCurrentBlock :: "ResponsesEventToAnthropicState \<Rightarrow> anth_out" where
  "closeCurrentBlock st =
     (if \<not> ras_ContentBlockOpen st then ([], st)
      else ([ev_stop (ras_ContentBlockIndex st)],
            st\<lparr>ras_ContentBlockOpen := False,
               ras_ContentBlockIndex := ras_ContentBlockIndex st + 1\<rparr>))"

definition resToAnthHandleCreated ::
    "ResponsesStreamEvent \<Rightarrow> ResponsesEventToAnthropicState \<Rightarrow> anth_out" where
  "resToAnthHandleCreated evt st =
     (let st1 = (case rse_Response evt of
                   None \<Rightarrow> st
                 | Some r \<Rightarrow> st\<lparr>ras_ResponseID := rr_ID r,
                     ras_Model := (if ras_Model st = [] then rr_Model r else ras_Model st)\<rparr>)
      in if ras_MessageStartSent st1 then ([], st1)
         else ([zero_ase\<lparr>ase_Type := ''message_start'',
                  ase_Message := Some (zero_ar\<lparr>ar_ID := ras_ResponseID st1, ar_Type := ''message'',
                    ar_Role := ''assistant'', ar_Content := [], ar_Model := ras_Model st1,
                    ar_Usage := zero_au\<lparr>au_InputTokens := 0, au_OutputTokens := 0\<rparr>\<rparr>)\<rparr>],
               st1\<lparr>ras_MessageStartSent := True\<rparr>))"

definition resToAnthHandleOutputItemAdded ::
    "ResponsesStreamEvent \<Rightarrow> ResponsesEventToAnthropicState \<Rightarrow> anth_out" where
  "resToAnthHandleOutputItemAdded evt st =
     (case rse_Item evt of
        None \<Rightarrow> ([], st)
      | Some item \<Rightarrow>
          if ro_Type item = ''function_call'' then
            (let (events, st1) = closeCurrentBlock st; idx = ras_ContentBlockIndex st1
             in (events @ [ev_start idx (zero_acb\<lparr>acb_Type := ''tool_use'',
                   acb_ID := fromResponsesCallID (ro_CallID item), acb_Name := ro_Name item,
                   acb_Input := [CHR 0x7B, CHR 0x7D]\<rparr>)],
                 st1\<lparr>ras_OutputIndexToBlockIdx :=
                       (ras_OutputIndexToBlockIdx st1)(rse_OutputIndex evt \<mapsto> idx),
                     ras_ContentBlockOpen := True, ras_CurrentBlockType := ''tool_use''\<rparr>))
          else if ro_Type item = ''reasoning'' then
            (let (events, st1) = closeCurrentBlock st; idx = ras_ContentBlockIndex st1
             in (events @ [ev_start idx (zero_acb\<lparr>acb_Type := ''thinking'', acb_Thinking := []\<rparr>)],
                 st1\<lparr>ras_OutputIndexToBlockIdx :=
                       (ras_OutputIndexToBlockIdx st1)(rse_OutputIndex evt \<mapsto> idx),
                     ras_ContentBlockOpen := True, ras_CurrentBlockType := ''thinking''\<rparr>))
          else ([], st))"

definition resToAnthHandleTextDelta ::
    "ResponsesStreamEvent \<Rightarrow> ResponsesEventToAnthropicState \<Rightarrow> anth_out" where
  "resToAnthHandleTextDelta evt st =
     (if rse_Delta evt = [] then ([], st)
      else
        (let (events, st1) =
           (if \<not> ras_ContentBlockOpen st \<or> ras_CurrentBlockType st \<noteq> ''text'' then
              (let (evs, st0) = closeCurrentBlock st
               in (evs @ [ev_start (ras_ContentBlockIndex st0)
                            (zero_acb\<lparr>acb_Type := ''text'', acb_Text := []\<rparr>)],
                   st0\<lparr>ras_ContentBlockOpen := True, ras_CurrentBlockType := ''text''\<rparr>))
            else ([], st))
         in (events @ [ev_delta (ras_ContentBlockIndex st1)
                         (zero_ad\<lparr>ad_Type := ''text_delta'', ad_Text := rse_Delta evt\<rparr>)], st1)))"

definition resToAnthHandleFuncArgsDelta ::
    "ResponsesStreamEvent \<Rightarrow> ResponsesEventToAnthropicState \<Rightarrow> anth_out" where
  "resToAnthHandleFuncArgsDelta evt st =
     (if rse_Delta evt = [] then ([], st)
      else (case ras_OutputIndexToBlockIdx st (rse_OutputIndex evt) of
              None \<Rightarrow> ([], st)
            | Some blockIdx \<Rightarrow>
                ([ev_delta blockIdx (zero_ad\<lparr>ad_Type := ''input_json_delta'',
                    ad_PartialJSON := rse_Delta evt\<rparr>)], st)))"

definition resToAnthHandleReasoningDelta ::
    "ResponsesStreamEvent \<Rightarrow> ResponsesEventToAnthropicState \<Rightarrow> anth_out" where
  "resToAnthHandleReasoningDelta evt st =
     (if rse_Delta evt = [] then ([], st)
      else (case ras_OutputIndexToBlockIdx st (rse_OutputIndex evt) of
              None \<Rightarrow> ([], st)
            | Some blockIdx \<Rightarrow>
                ([ev_delta blockIdx (zero_ad\<lparr>ad_Type := ''thinking_delta'',
                    ad_Thinking := rse_Delta evt\<rparr>)], st)))"

definition resToAnthHandleBlockDone :: "ResponsesEventToAnthropicState \<Rightarrow> anth_out" where
  "resToAnthHandleBlockDone st =
     (if \<not> ras_ContentBlockOpen st then ([], st) else closeCurrentBlock st)"

definition resToAnthHandleWebSearchDone ::
    "ResponsesOutput \<Rightarrow> ResponsesEventToAnthropicState \<Rightarrow> anth_out" where
  "resToAnthHandleWebSearchDone item st =
     (let (events, st1) = closeCurrentBlock st;
          toolUseID = ''srvtoolu_'' @ ro_ID item;
          idx1 = ras_ContentBlockIndex st1;
          st2 = st1\<lparr>ras_ContentBlockIndex := ras_ContentBlockIndex st1 + 1\<rparr>;
          idx2 = ras_ContentBlockIndex st2;
          st3 = st2\<lparr>ras_ContentBlockIndex := ras_ContentBlockIndex st2 + 1\<rparr>
      in (events @
          [ev_start idx1 (zero_acb\<lparr>acb_Type := ''server_tool_use'', acb_ID := toolUseID,
             acb_Name := ''web_search'', acb_Input := webSearchInput (ro_Action item)\<rparr>),
           ev_stop idx1,
           ev_start idx2 (zero_acb\<lparr>acb_Type := ''web_search_tool_result'',
             acb_ToolUseID := toolUseID, acb_Content := [CHR 0x5B, CHR 0x5D]\<rparr>),
           ev_stop idx2], st3))"

definition resToAnthHandleOutputItemDone ::
    "ResponsesStreamEvent \<Rightarrow> ResponsesEventToAnthropicState \<Rightarrow> anth_out" where
  "resToAnthHandleOutputItemDone evt st =
     (case rse_Item evt of
        None \<Rightarrow> ([], st)
      | Some item \<Rightarrow>
          if ro_Type item = ''web_search_call'' \<and> ro_Status item = ''completed''
          then resToAnthHandleWebSearchDone item st
          else if ras_ContentBlockOpen st then closeCurrentBlock st
          else ([], st))"

definition messageEnd :: "string \<Rightarrow> ResponsesEventToAnthropicState \<Rightarrow> AnthropicStreamEvent list" where
  "messageEnd stopReason st =
     [zero_ase\<lparr>ase_Type := ''message_delta'',
        ase_Delta := Some (zero_ad\<lparr>ad_StopReason := stopReason\<rparr>),
        ase_Usage := Some (zero_au\<lparr>au_InputTokens := ras_InputTokens st,
          au_OutputTokens := ras_OutputTokens st,
          au_CacheReadInputTokens := ras_CacheReadInputTokens st\<rparr>)\<rparr>,
      zero_ase\<lparr>ase_Type := ''message_stop''\<rparr>]"

definition resToAnthHandleCompleted ::
    "ResponsesStreamEvent \<Rightarrow> ResponsesEventToAnthropicState \<Rightarrow> anth_out" where
  "resToAnthHandleCompleted evt st =
     (if ras_MessageStopSent st then ([], st)
      else
        (let (events, st1) = closeCurrentBlock st;
             st2 = (case rse_Response evt of
                      None \<Rightarrow> st1
                    | Some r \<Rightarrow>
                        (case rr_Usage r of
                           None \<Rightarrow> st1
                         | Some u \<Rightarrow> st1\<lparr>ras_InputTokens := ru_InputTokens u,
                             ras_OutputTokens := ru_OutputTokens u,
                             ras_CacheReadInputTokens :=
                               (case ru_InputTokensDetails u of
                                  Some d \<Rightarrow> ritd_CachedTokens d
                                | None \<Rightarrow> ras_CacheReadInputTokens st1)\<rparr>));
             stopReason =
               (case rse_Response evt of
                  None \<Rightarrow> ''end_turn''
                | Some r \<Rightarrow>
                    if rr_Status r = ''incomplete'' then
                      (case rr_IncompleteDetails r of
                         Some d \<Rightarrow> if rid_Reason d = ''max_output_tokens'' then ''max_tokens''
                                   else ''end_turn''
                       | None \<Rightarrow> ''end_turn'')
                    else if rr_Status r = ''completed'' then
                      (if ras_ContentBlockIndex st2 > 0 \<and> ras_CurrentBlockType st2 = ''tool_use''
                       then ''tool_use'' else ''end_turn'')
                    else ''end_turn'')
         in (events @ messageEnd stopReason st2, st2\<lparr>ras_MessageStopSent := True\<rparr>)))"

definition ResponsesEventToAnthropicEvents ::
    "ResponsesStreamEvent \<Rightarrow> ResponsesEventToAnthropicState \<Rightarrow> anth_out" where
  "ResponsesEventToAnthropicEvents evt st =
     (let t = rse_Type evt in
      if t = ''response.created'' then resToAnthHandleCreated evt st
      else if t = ''response.output_item.added'' then resToAnthHandleOutputItemAdded evt st
      else if t = ''response.output_text.delta'' then resToAnthHandleTextDelta evt st
      else if t = ''response.output_text.done'' then resToAnthHandleBlockDone st
      else if t = ''response.function_call_arguments.delta'' then resToAnthHandleFuncArgsDelta evt st
      else if t = ''response.function_call_arguments.done'' then resToAnthHandleBlockDone st
      else if t = ''response.output_item.done'' then resToAnthHandleOutputItemDone evt st
      else if t = ''response.reasoning_summary_text.delta'' then resToAnthHandleReasoningDelta evt st
      else if t = ''response.reasoning_summary_text.done'' then resToAnthHandleBlockDone st
      else if t = ''response.completed'' \<or> t = ''response.incomplete'' \<or> t = ''response.failed''
        then resToAnthHandleCompleted evt st
      else ([], st))"

definition FinalizeResponsesAnthropicStream :: "ResponsesEventToAnthropicState \<Rightarrow> anth_out" where
  "FinalizeResponsesAnthropicStream st =
     (if \<not> ras_MessageStartSent st \<or> ras_MessageStopSent st then ([], st)
      else
        (let (events, st1) = closeCurrentBlock st
         in (events @ messageEnd ''end_turn'' st1, st1\<lparr>ras_MessageStopSent := True\<rparr>)))"

text \<open>The gateway's stream loop: every upstream event through the converter, then the
  finalizer.\<close>

definition ra_stream :: "ResponsesStreamEvent list \<Rightarrow> ResponsesEventToAnthropicState \<Rightarrow> anth_out" where
  "ra_stream es st =
     (let (out, st1) = run_steps ResponsesEventToAnthropicEvents es st;
          (fin, st2) = FinalizeResponsesAnthropicStream st1
      in (out @ fin, st2))"

lemmas handler_defs = resToAnthHandleCreated_def resToAnthHandleOutputItemAdded_def
  resToAnthHandleTextDelta_def resToAnthHandleFuncArgsDelta_def resToAnthHandleReasoningDelta_def
  resToAnthHandleBlockDone_def resToAnthHandleOutputItemDone_def resToAnthHandleWebSearchDone_def
  resToAnthHandleCompleted_def closeCurrentBlock_def messageEnd_def

lemmas ev_defs = ev_start_def ev_delta_def ev_stop_def

section \<open>The content-block protocol\<close>

text \<open>
  What a client of the Anthropic stream relies on: blocks are numbered 0, 1, 2, \<dots>, at most one
  is open, a stop closes the open one, a text delta belongs to the open text block, any other
  delta names a block that has been started, and the message ends with no block open. The
  automaton's state is the number of the next (or open) block and the type of the open one.
\<close>

type_synonym blk = "int \<times> string option"

definition blk_step :: "AnthropicStreamEvent \<Rightarrow> blk \<Rightarrow> blk option" where
  "blk_step e b =
     (case b of (n, opn) \<Rightarrow>
       if ase_Type e = ''content_block_start'' then
         (case ase_ContentBlock e of
            None \<Rightarrow> None
          | Some cb \<Rightarrow> if opn = None \<and> ase_Index e = Some n then Some (n, Some (acb_Type cb)) else None)
       else if ase_Type e = ''content_block_stop'' then
         (if opn \<noteq> None \<and> ase_Index e = Some n then Some (n + 1, None) else None)
       else if ase_Type e = ''content_block_delta'' then
         (case (ase_Index e, ase_Delta e) of
            (Some i, Some d) \<Rightarrow>
              if ad_Type d = ''text_delta'' then (if i = n \<and> opn = Some ''text'' then Some b else None)
              else if 0 \<le> i \<and> (i < n \<or> (i = n \<and> opn \<noteq> None)) then Some b else None
          | _ \<Rightarrow> None)
       else if ase_Type e = ''message_delta'' \<or> ase_Type e = ''message_stop'' then
         (if opn = None then Some b else None)
       else Some b)"

fun blk_run :: "AnthropicStreamEvent list \<Rightarrow> blk \<Rightarrow> blk option" where
  "blk_run [] b = Some b"
| "blk_run (e # es) b = (case blk_step e b of None \<Rightarrow> None | Some b' \<Rightarrow> blk_run es b')"

lemma blk_run_append:
  "blk_run (xs @ ys) b = (case blk_run xs b of None \<Rightarrow> None | Some b' \<Rightarrow> blk_run ys b')"
  by (induction xs arbitrary: b) (auto split: option.split)

text \<open>The abstraction of a converter state, and what the converter keeps true of its map from
  output indexes to block numbers.\<close>

definition blk_abs :: "ResponsesEventToAnthropicState \<Rightarrow> blk" where
  "blk_abs st = (ras_ContentBlockIndex st,
     if ras_ContentBlockOpen st then Some (ras_CurrentBlockType st) else None)"

definition blk_inv :: "ResponsesEventToAnthropicState \<Rightarrow> bool" where
  "blk_inv st \<longleftrightarrow> 0 \<le> ras_ContentBlockIndex st \<and>
     (\<forall>oi i. ras_OutputIndexToBlockIdx st oi = Some i \<longrightarrow>
        0 \<le> i \<and> (i < ras_ContentBlockIndex st \<or>
                  (i = ras_ContentBlockIndex st \<and> ras_ContentBlockOpen st)))"

definition blk_ok :: "ResponsesEventToAnthropicState \<Rightarrow> anth_out \<Rightarrow> bool" where
  "blk_ok st r \<longleftrightarrow> blk_run (fst r) (blk_abs st) = Some (blk_abs (snd r)) \<and> blk_inv (snd r)"

lemmas blk_defs = blk_ok_def blk_inv_def blk_abs_def blk_step_def

lemma blk_inv_new: "blk_inv (NewResponsesEventToAnthropicState now)"
  by (simp add: blk_inv_def NewResponsesEventToAnthropicState_def)

lemma blk_ok_skip: "blk_inv st \<Longrightarrow> blk_ok st ([], st)"
  by (simp add: blk_ok_def)

lemma blk_ok_close: "blk_inv st \<Longrightarrow> blk_ok st (closeCurrentBlock st)"
  by (fastforce simp: blk_defs closeCurrentBlock_def ev_defs zero_ase_def)

lemma blk_ok_created: "blk_inv st \<Longrightarrow> blk_ok st (resToAnthHandleCreated evt st)"
  by (auto simp: blk_defs resToAnthHandleCreated_def Let_def zero_ase_def split: option.splits)

lemma blk_ok_added: "blk_inv st \<Longrightarrow> blk_ok st (resToAnthHandleOutputItemAdded evt st)"
  by (fastforce simp: blk_defs resToAnthHandleOutputItemAdded_def closeCurrentBlock_def Let_def
      ev_defs zero_ase_def zero_acb_def split: option.splits)

lemma blk_ok_text: "blk_inv st \<Longrightarrow> blk_ok st (resToAnthHandleTextDelta evt st)"
  by (fastforce simp: blk_defs resToAnthHandleTextDelta_def closeCurrentBlock_def Let_def
      ev_defs zero_ase_def zero_acb_def zero_ad_def split: option.splits)

lemma blk_ok_args: "blk_inv st \<Longrightarrow> blk_ok st (resToAnthHandleFuncArgsDelta evt st)"
  by (fastforce simp: blk_defs resToAnthHandleFuncArgsDelta_def ev_defs zero_ase_def zero_ad_def
      split: option.splits)

lemma blk_ok_reasoning: "blk_inv st \<Longrightarrow> blk_ok st (resToAnthHandleReasoningDelta evt st)"
  by (fastforce simp: blk_defs resToAnthHandleReasoningDelta_def ev_defs zero_ase_def zero_ad_def
      split: option.splits)

lemma blk_ok_done: "blk_inv st \<Longrightarrow> blk_ok st (resToAnthHandleBlockDone st)"
  by (simp add: resToAnthHandleBlockDone_def blk_ok_skip blk_ok_close)

lemma blk_ok_web: "blk_inv st \<Longrightarrow> blk_ok st (resToAnthHandleWebSearchDone item st)"
  by (fastforce simp: blk_defs resToAnthHandleWebSearchDone_def closeCurrentBlock_def Let_def
      ev_defs zero_ase_def zero_acb_def)

lemma blk_ok_item_done: "blk_inv st \<Longrightarrow> blk_ok st (resToAnthHandleOutputItemDone evt st)"
  by (simp add: resToAnthHandleOutputItemDone_def blk_ok_skip blk_ok_close blk_ok_web
      split: option.splits)

lemma blk_run_messageEnd: "blk_run (messageEnd r st) (n, None) = Some (n, None)"
  by (simp add: messageEnd_def blk_step_def zero_ase_def)

text \<open>The states that agree on the block fields have the same abstraction.\<close>

lemma blk_ok_finish:
  assumes "blk_inv st" "closeCurrentBlock st = (events, st1)"
    and "ras_ContentBlockIndex st2 = ras_ContentBlockIndex st1"
    and "ras_ContentBlockOpen st2 = ras_ContentBlockOpen st1"
    and "ras_OutputIndexToBlockIdx st2 = ras_OutputIndexToBlockIdx st1"
  shows "blk_ok st (events @ messageEnd r st3, st2)"
proof -
  have "blk_ok st (events, st1)" using blk_ok_close [OF assms(1)] assms(2) by simp
  moreover have "\<not> ras_ContentBlockOpen st1"
    using assms(2) by (auto simp: closeCurrentBlock_def split: if_splits)
  ultimately show ?thesis
    using assms(3-5) by (simp add: blk_ok_def blk_run_append blk_abs_def blk_inv_def
        blk_run_messageEnd)
qed

lemma blk_ok_completed: "blk_inv st \<Longrightarrow> blk_ok st (resToAnthHandleCompleted evt st)"
  by (auto simp: resToAnthHandleCompleted_def Let_def blk_ok_skip
      split: prod.split option.splits intro!: blk_ok_finish)

lemma blk_ok_finalize: "blk_inv st \<Longrightarrow> blk_ok st (FinalizeResponsesAnthropicStream st)"
  by (auto simp: FinalizeResponsesAnthropicStream_def blk_ok_skip
      split: prod.split intro!: blk_ok_finish)

lemmas blk_ok_handlers = blk_ok_skip blk_ok_created blk_ok_added blk_ok_text blk_ok_args
  blk_ok_reasoning blk_ok_done blk_ok_item_done blk_ok_completed

lemma blk_ok_event: "blk_inv st \<Longrightarrow> blk_ok st (ResponsesEventToAnthropicEvents evt st)"
  by (simp add: ResponsesEventToAnthropicEvents_def Let_def blk_ok_handlers)

interpretation ra_blocks: stream_contract ResponsesEventToAnthropicEvents blk_inv
    "\<lambda>st ins out st1. blk_run out (blk_abs st) = Some (blk_abs st1)"
proof unfold_locales
  fix st e out st1
  assume "blk_inv st" and e: "ResponsesEventToAnthropicEvents e st = (out, st1)"
  then have "blk_ok st (out, st1)" using blk_ok_event [of st e] by simp
  then show "blk_run out (blk_abs st) = Some (blk_abs st1)" and "blk_inv st1"
    by (simp_all add: blk_ok_def)
qed (simp_all add: blk_run_append)

lemma blk_ok_stream:
  assumes inv: "blk_inv st"
  shows "blk_ok st (ra_stream es st)"
proof -
  obtain out st1 where r: "run_steps ResponsesEventToAnthropicEvents es st = (out, st1)" by fastforce
  have run: "blk_run out (blk_abs st) = Some (blk_abs st1)"
    by (rule ra_blocks.run_rel [OF inv r])
  have "blk_ok st1 (FinalizeResponsesAnthropicStream st1)"
    by (rule blk_ok_finalize [OF ra_blocks.run_inv [OF inv r]])
  with r run show ?thesis
    by (cases "FinalizeResponsesAnthropicStream st1")
       (simp add: ra_stream_def blk_ok_def blk_run_append)
qed

text \<open>(C34) Content-block protocol. Whatever events the OpenAI upstream sends, in whatever order,
  the Anthropic events the gateway emits follow the block protocol: block numbers count up from 0
  without gaps, blocks do not overlap, every stop matches the open block, every text delta is
  inside the open text block, no delta names a block that was never started, and the message
  ends only when no block is open. The automaton's final state is the converter's.\<close>

theorem responses_to_anthropic_block_protocol:
  "case ra_stream es (NewResponsesEventToAnthropicState now) of (out, st) \<Rightarrow>
     blk_run out (0, None) =
       Some (ras_ContentBlockIndex st,
             if ras_ContentBlockOpen st then Some (ras_CurrentBlockType st) else None)"
proof -
  have "blk_ok (NewResponsesEventToAnthropicState now)
      (ra_stream es (NewResponsesEventToAnthropicState now))"
    by (rule blk_ok_stream [OF blk_inv_new])
  moreover have "blk_abs (NewResponsesEventToAnthropicState now) = (0, None)"
    by (simp add: blk_abs_def NewResponsesEventToAnthropicState_def)
  ultimately show ?thesis
    by (cases "ra_stream es (NewResponsesEventToAnthropicState now)")
       (simp add: blk_ok_def blk_abs_def)
qed

section \<open>One message per stream\<close>

text \<open>How often an event type occurs in an output.\<close>

definition ev_count :: "string \<Rightarrow> AnthropicStreamEvent list \<Rightarrow> nat" where
  "ev_count t es = length (filter (\<lambda>e. ase_Type e = t) es)"

lemma ev_count_simps [simp]:
  "ev_count t [] = 0"
  "ev_count t (e # es) = (if ase_Type e = t then Suc (ev_count t es) else ev_count t es)"
  "ev_count t (xs @ ys) = ev_count t xs + ev_count t ys"
  by (auto simp: ev_count_def)

text \<open>What one step adds to the counts of \<open>message_start\<close> and \<open>message_stop\<close> is what it adds
  to the two flags of the state.\<close>

definition msg_ok :: "ResponsesEventToAnthropicState \<Rightarrow> anth_out \<Rightarrow> bool" where
  "msg_ok st r \<longleftrightarrow>
     of_bool (ras_MessageStartSent (snd r)) =
       of_bool (ras_MessageStartSent st) + ev_count ''message_start'' (fst r) \<and>
     of_bool (ras_MessageStopSent (snd r)) =
       of_bool (ras_MessageStopSent st) + ev_count ''message_stop'' (fst r)"

lemma msg_ok_skip: "msg_ok st ([], st)"
  by (simp add: msg_ok_def)

lemma msg_ok_close: "msg_ok st (closeCurrentBlock st)"
  by (simp add: msg_ok_def closeCurrentBlock_def ev_defs zero_ase_def)

lemma msg_ok_created: "msg_ok st (resToAnthHandleCreated evt st)"
  by (simp add: msg_ok_def resToAnthHandleCreated_def zero_ase_def Let_def split: option.splits)

lemma msg_ok_added: "msg_ok st (resToAnthHandleOutputItemAdded evt st)"
  by (simp add: msg_ok_def resToAnthHandleOutputItemAdded_def closeCurrentBlock_def ev_defs
      zero_ase_def Let_def split: option.splits)

lemma msg_ok_text: "msg_ok st (resToAnthHandleTextDelta evt st)"
  by (simp add: msg_ok_def resToAnthHandleTextDelta_def closeCurrentBlock_def ev_defs
      zero_ase_def Let_def)

lemma msg_ok_args: "msg_ok st (resToAnthHandleFuncArgsDelta evt st)"
  by (simp add: msg_ok_def resToAnthHandleFuncArgsDelta_def ev_defs zero_ase_def split: option.splits)

lemma msg_ok_reasoning: "msg_ok st (resToAnthHandleReasoningDelta evt st)"
  by (simp add: msg_ok_def resToAnthHandleReasoningDelta_def ev_defs zero_ase_def split: option.splits)

lemma msg_ok_item_done: "msg_ok st (resToAnthHandleOutputItemDone evt st)"
  by (simp add: msg_ok_def resToAnthHandleOutputItemDone_def resToAnthHandleWebSearchDone_def
      closeCurrentBlock_def ev_defs zero_ase_def Let_def split: option.splits)

lemma msg_ok_completed: "msg_ok st (resToAnthHandleCompleted evt st)"
  by (simp add: msg_ok_def resToAnthHandleCompleted_def closeCurrentBlock_def messageEnd_def ev_defs
      zero_ase_def Let_def split: option.splits)

lemma msg_ok_done: "msg_ok st (resToAnthHandleBlockDone st)"
  by (simp add: resToAnthHandleBlockDone_def msg_ok_skip msg_ok_close)

lemmas msg_ok_handlers = msg_ok_skip msg_ok_created msg_ok_added msg_ok_text msg_ok_args
  msg_ok_reasoning msg_ok_item_done msg_ok_completed msg_ok_done

lemma msg_ok_event: "msg_ok st (ResponsesEventToAnthropicEvents evt st)"
  by (simp add: ResponsesEventToAnthropicEvents_def Let_def msg_ok_handlers)

lemma msg_ok_finalize: "msg_ok st (FinalizeResponsesAnthropicStream st)"
  by (auto simp: msg_ok_def FinalizeResponsesAnthropicStream_def closeCurrentBlock_def
      messageEnd_def ev_defs zero_ase_def)

interpretation ra_messages: stream_contract ResponsesEventToAnthropicEvents "\<lambda>_. True"
    "\<lambda>st ins out st1. msg_ok st (out, st1)"
proof unfold_locales
  fix st e out st1
  assume "ResponsesEventToAnthropicEvents e st = (out, st1)"
  then show "msg_ok st (out, st1)" using msg_ok_event [of st e] by simp
qed (auto simp: msg_ok_def)

lemma msg_ok_stream: "msg_ok st (ra_stream es st)"
proof -
  obtain out st1 where r: "run_steps ResponsesEventToAnthropicEvents es st = (out, st1)" by fastforce
  obtain fin st2 where f: "FinalizeResponsesAnthropicStream st1 = (fin, st2)" by fastforce
  have "msg_ok st (out, st1)" by (rule ra_messages.run_rel [OF TrueI r])
  moreover have "msg_ok st1 (fin, st2)" using msg_ok_finalize [of st1] f by simp
  ultimately show ?thesis using r f by (auto simp: ra_stream_def msg_ok_def)
qed

lemma finalize_stops:
  "ras_MessageStartSent (snd (FinalizeResponsesAnthropicStream st)) = ras_MessageStartSent st"
  "ras_MessageStartSent st \<Longrightarrow> ras_MessageStopSent (snd (FinalizeResponsesAnthropicStream st))"
  by (auto simp: FinalizeResponsesAnthropicStream_def closeCurrentBlock_def)

lemma stream_started_stopped:
  assumes "ras_MessageStartSent (snd (ra_stream es st))"
  shows "ras_MessageStopSent (snd (ra_stream es st))"
proof -
  have "snd (ra_stream es st) = snd (FinalizeResponsesAnthropicStream
      (snd (run_steps ResponsesEventToAnthropicEvents es st)))"
    by (simp add: ra_stream_def split: prod.split)
  with assms show ?thesis by (simp add: finalize_stops)
qed

text \<open>One message per stream. Over a whole upstream stream, however many terminal or
  \<open>response.created\<close> events it holds, the gateway emits at most one \<open>message_start\<close> and at most
  one \<open>message_stop\<close>; and if the message was started, it is stopped exactly once, even when the
  upstream broke off without a terminal event.\<close>

theorem responses_to_anthropic_one_message:
  "let out = fst (ra_stream es (NewResponsesEventToAnthropicState now)) in
     ev_count ''message_start'' out \<le> 1 \<and> ev_count ''message_stop'' out \<le> 1 \<and>
     (ev_count ''message_start'' out = 1 \<longrightarrow> ev_count ''message_stop'' out = 1)"
proof -
  let ?st = "NewResponsesEventToAnthropicState now"
  have fresh: "\<not> ras_MessageStartSent ?st" "\<not> ras_MessageStopSent ?st"
    by (simp_all add: NewResponsesEventToAnthropicState_def)
  have ok: "msg_ok ?st (ra_stream es ?st)" by (rule msg_ok_stream)
  show ?thesis
    using ok fresh stream_started_stopped [of es ?st]
    by (auto simp: msg_ok_def Let_def of_bool_def split: if_splits)
qed

theorem responses_to_anthropic_one_message_witness:
  "ev_count ''message_start'' (fst (ra_stream
       [zero_rse\<lparr>rse_Type := ''response.created''\<rparr>] (NewResponsesEventToAnthropicState 0))) = 1 \<and>
   ev_count ''message_stop'' (fst (ra_stream
       [zero_rse\<lparr>rse_Type := ''response.created''\<rparr>] (NewResponsesEventToAnthropicState 0))) = 1"
proof -
  let ?out = "fst (ra_stream [zero_rse\<lparr>rse_Type := ''response.created''\<rparr>]
      (NewResponsesEventToAnthropicState 0))"
  have "ev_count ''message_start'' ?out = 1" by code_simp
  with responses_to_anthropic_one_message
      [of "[zero_rse\<lparr>rse_Type := ''response.created''\<rparr>]" 0]
  show ?thesis by (simp add: Let_def)
qed

section \<open>Nothing is lost\<close>

text \<open>The text, tool-argument and thinking payloads of an output, and of an input stream.\<close>

definition out_payload :: "string \<Rightarrow> AnthropicStreamEvent list \<Rightarrow> string" where
  "out_payload t es = concat (map (\<lambda>e. case ase_Delta e of
     Some d \<Rightarrow> if ad_Type d = t then ad_Text d @ ad_PartialJSON d @ ad_Thinking d else []
   | None \<Rightarrow> []) es)"

definition in_payload :: "string \<Rightarrow> ResponsesStreamEvent list \<Rightarrow> string" where
  "in_payload t es = concat (map (\<lambda>e. if rse_Type e = t then rse_Delta e else []) es)"

lemma out_payload_append: "out_payload t (xs @ ys) = out_payload t xs @ out_payload t ys"
  by (simp add: out_payload_def)

lemma in_payload_append: "in_payload t (xs @ ys) = in_payload t xs @ in_payload t ys"
  by (simp add: in_payload_def)

lemma no_text_close: "out_payload ''text_delta'' (fst (closeCurrentBlock st)) = []"
  by (simp add: out_payload_def closeCurrentBlock_def ev_defs zero_ase_def)

lemma no_text_created: "out_payload ''text_delta'' (fst (resToAnthHandleCreated evt st)) = []"
  by (simp add: out_payload_def resToAnthHandleCreated_def zero_ase_def Let_def)

lemma no_text_added: "out_payload ''text_delta'' (fst (resToAnthHandleOutputItemAdded evt st)) = []"
  by (simp add: out_payload_def resToAnthHandleOutputItemAdded_def closeCurrentBlock_def ev_defs
      zero_ase_def Let_def split: option.splits)

lemma text_text: "out_payload ''text_delta'' (fst (resToAnthHandleTextDelta evt st)) = rse_Delta evt"
  by (simp add: out_payload_def resToAnthHandleTextDelta_def closeCurrentBlock_def ev_defs
      zero_ase_def zero_ad_def Let_def)

lemma no_text_args: "out_payload ''text_delta'' (fst (resToAnthHandleFuncArgsDelta evt st)) = []"
  by (simp add: out_payload_def resToAnthHandleFuncArgsDelta_def ev_defs zero_ase_def zero_ad_def
      split: option.splits)

lemma no_text_reasoning: "out_payload ''text_delta'' (fst (resToAnthHandleReasoningDelta evt st)) = []"
  by (simp add: out_payload_def resToAnthHandleReasoningDelta_def ev_defs zero_ase_def zero_ad_def
      split: option.splits)

lemma no_text_done: "out_payload ''text_delta'' (fst (resToAnthHandleBlockDone st)) = []"
  by (simp add: resToAnthHandleBlockDone_def no_text_close) (simp add: out_payload_def)

lemma no_text_item_done: "out_payload ''text_delta'' (fst (resToAnthHandleOutputItemDone evt st)) = []"
  by (simp add: out_payload_def resToAnthHandleOutputItemDone_def resToAnthHandleWebSearchDone_def
      closeCurrentBlock_def ev_defs zero_ase_def Let_def split: option.splits)

lemma no_text_completed: "out_payload ''text_delta'' (fst (resToAnthHandleCompleted evt st)) = []"
  by (simp add: out_payload_def resToAnthHandleCompleted_def closeCurrentBlock_def messageEnd_def
      ev_defs zero_ase_def zero_ad_def Let_def)

lemmas text_handlers = no_text_created no_text_added text_text no_text_args no_text_reasoning
  no_text_done no_text_item_done no_text_completed

lemma out_payload_event:
  "out_payload ''text_delta'' (fst (ResponsesEventToAnthropicEvents e st)) =
     in_payload ''response.output_text.delta'' [e]"
  by (simp add: ResponsesEventToAnthropicEvents_def Let_def in_payload_def text_handlers)
     (simp add: out_payload_def)

lemma out_payload_finalize:
  "out_payload ''text_delta'' (fst (FinalizeResponsesAnthropicStream st)) = []"
  by (auto simp: out_payload_def FinalizeResponsesAnthropicStream_def closeCurrentBlock_def
      messageEnd_def ev_defs zero_ase_def zero_ad_def)

interpretation ra_text: stream_contract ResponsesEventToAnthropicEvents "\<lambda>_. True"
    "\<lambda>st ins out st1. out_payload ''text_delta'' out = in_payload ''response.output_text.delta'' ins"
proof unfold_locales
  fix st e out st1
  assume "ResponsesEventToAnthropicEvents e st = (out, st1)"
  then show "out_payload ''text_delta'' out = in_payload ''response.output_text.delta'' [e]"
    using out_payload_event [of e st] by simp
qed (auto simp: out_payload_append in_payload_append, auto simp: out_payload_def in_payload_def)

text \<open>The visible answer survives translation. The concatenated text deltas sent to the
  Anthropic client are the concatenated \<open>response.output_text.delta\<close> payloads of the upstream,
  for every event stream: no text is dropped, repeated or reordered.\<close>

theorem responses_to_anthropic_text_preserved:
  "out_payload ''text_delta'' (fst (ra_stream es st)) =
     in_payload ''response.output_text.delta'' es"
proof -
  obtain out st1 where r: "run_steps ResponsesEventToAnthropicEvents es st = (out, st1)" by fastforce
  obtain fin st2 where f: "FinalizeResponsesAnthropicStream st1 = (fin, st2)" by fastforce
  have "out_payload ''text_delta'' fin = []" using out_payload_finalize [of st1] f by simp
  with ra_text.run_rel [OF TrueI r] r f show ?thesis by (simp add: ra_stream_def out_payload_append)
qed

text \<open>A reasoning item with two summary parts. \<open>response.reasoning_summary_text.done\<close> ends one
  summary part of an item, but the converter closes the item's thinking block on it; the deltas
  of the item's next part are still sent to that block, after its \<open>content_block_stop\<close>. The
  emitted events are these, for every state without an open block.\<close>

theorem responses_to_anthropic_second_summary_part:
  assumes "\<not> ras_ContentBlockOpen st" and "d1 \<noteq> []" and "d2 \<noteq> []"
  shows "fst (run_steps ResponsesEventToAnthropicEvents
           [zero_rse\<lparr>rse_Type := ''response.output_item.added'', rse_OutputIndex := oi,
              rse_Item := Some (zero_ro\<lparr>ro_Type := ''reasoning''\<rparr>)\<rparr>,
            zero_rse\<lparr>rse_Type := ''response.reasoning_summary_text.delta'', rse_OutputIndex := oi,
              rse_SummaryIndex := 0, rse_Delta := d1\<rparr>,
            zero_rse\<lparr>rse_Type := ''response.reasoning_summary_text.done'', rse_OutputIndex := oi,
              rse_SummaryIndex := 0\<rparr>,
            zero_rse\<lparr>rse_Type := ''response.reasoning_summary_text.delta'', rse_OutputIndex := oi,
              rse_SummaryIndex := 1, rse_Delta := d2\<rparr>] st) =
         (let i = ras_ContentBlockIndex st in
          [ev_start i (zero_acb\<lparr>acb_Type := ''thinking''\<rparr>),
           ev_delta i (zero_ad\<lparr>ad_Type := ''thinking_delta'', ad_Thinking := d1\<rparr>),
           ev_stop i,
           ev_delta i (zero_ad\<lparr>ad_Type := ''thinking_delta'', ad_Thinking := d2\<rparr>)])"
  using assms
  by (simp add: ResponsesEventToAnthropicEvents_def resToAnthHandleOutputItemAdded_def
      resToAnthHandleReasoningDelta_def resToAnthHandleBlockDone_def closeCurrentBlock_def Let_def
      zero_rse_def zero_ro_def zero_acb_def)

theorem responses_to_anthropic_second_summary_part_witness:
  "fst (run_steps ResponsesEventToAnthropicEvents
           [zero_rse\<lparr>rse_Type := ''response.output_item.added'', rse_OutputIndex := 0,
              rse_Item := Some (zero_ro\<lparr>ro_Type := ''reasoning''\<rparr>)\<rparr>,
            zero_rse\<lparr>rse_Type := ''response.reasoning_summary_text.delta'', rse_OutputIndex := 0,
              rse_SummaryIndex := 0, rse_Delta := ''a''\<rparr>,
            zero_rse\<lparr>rse_Type := ''response.reasoning_summary_text.done'', rse_OutputIndex := 0,
              rse_SummaryIndex := 0\<rparr>,
            zero_rse\<lparr>rse_Type := ''response.reasoning_summary_text.delta'', rse_OutputIndex := 0,
              rse_SummaryIndex := 1, rse_Delta := ''b''\<rparr>] (NewResponsesEventToAnthropicState 0)) =
   [ev_start 0 (zero_acb\<lparr>acb_Type := ''thinking''\<rparr>),
    ev_delta 0 (zero_ad\<lparr>ad_Type := ''thinking_delta'', ad_Thinking := ''a''\<rparr>),
    ev_stop 0,
    ev_delta 0 (zero_ad\<lparr>ad_Type := ''thinking_delta'', ad_Thinking := ''b''\<rparr>)]"
  using responses_to_anthropic_second_summary_part
    [of "NewResponsesEventToAnthropicState 0" "''a''" "''b''" 0]
  by (simp add: NewResponsesEventToAnthropicState_def Let_def)

end
