(* ===== verification/AnthToResponses.thy ===== *)
theory AnthToResponses
  imports ApiTypes
begin

text \<open>
  \<open>pkg/apicompat/anthropic_to_responses_response.go\<close>: Anthropic Messages answers as OpenAI
  Responses. The identifiers drawn from \<open>crypto/rand\<close> come from a supply \<open>rnd\<close>, the hex text of the
  n-th draw; the state counts the draws. As in the code, every emitted event takes the state's
  sequence number and increments it.
\<close>

section \<open>Non-streaming conversion\<close>

definition generateResponsesID :: "(nat \<Rightarrow> string) \<Rightarrow> nat \<Rightarrow> string" where
  "generateResponsesID rnd n = ''resp_'' @ rnd n"

definition generateItemID :: "(nat \<Rightarrow> string) \<Rightarrow> nat \<Rightarrow> string" where
  "generateItemID rnd n = ''item_'' @ rnd n"

definition anthropicStopReasonToResponsesStatus :: "string \<Rightarrow> AnthropicContentBlock list \<Rightarrow> string" where
  "anthropicStopReasonToResponsesStatus stopReason blocks =
     (if stopReason = ''max_tokens'' then ''incomplete''
      else if stopReason \<in> {''end_turn'', ''tool_use'', ''stop_sequence''} then ''completed''
      else ''completed'')"

text \<open>The loop over \<open>resp.Content\<close>: outputs and message parts so far, and the draws.\<close>

fun contentToOutputs :: "(nat \<Rightarrow> string) \<Rightarrow> nat \<Rightarrow> AnthropicContentBlock list \<Rightarrow>
    ResponsesOutput list \<Rightarrow> ResponsesContentPart list \<Rightarrow>
    ResponsesOutput list \<times> ResponsesContentPart list \<times> nat" where
  "contentToOutputs rnd n [] outputs msgParts = (outputs, msgParts, n)"
| "contentToOutputs rnd n (block # rest) outputs msgParts =
     (if acb_Type block = ''thinking'' then
        (if acb_Thinking block \<noteq> [] then
           contentToOutputs rnd (Suc n) rest
             (outputs @ [zero_ro\<lparr>ro_Type := ''reasoning'', ro_ID := generateItemID rnd n,
                ro_Summary := [\<lparr>rs_Type = ''summary_text'', rs_Text = acb_Thinking block\<rparr>]\<rparr>])
             msgParts
         else contentToOutputs rnd n rest outputs msgParts)
      else if acb_Type block = ''text'' then
        (if acb_Text block \<noteq> [] then
           contentToOutputs rnd n rest outputs
             (msgParts @ [zero_rcp\<lparr>rcp_Type := ''output_text'', rcp_Text := acb_Text block\<rparr>])
         else contentToOutputs rnd n rest outputs msgParts)
      else if acb_Type block = ''tool_use'' then
        contentToOutputs rnd (Suc n) rest
          (outputs @ [zero_ro\<lparr>ro_Type := ''function_call'', ro_ID := generateItemID rnd n,
             ro_CallID := toResponsesCallID (acb_ID block), ro_Name := acb_Name block,
             ro_Arguments := (if acb_Input block \<noteq> [] then acb_Input block
                              else [CHR 0x7B, CHR 0x7D]),
             ro_Status := ''completed''\<rparr>])
          msgParts
      else contentToOutputs rnd n rest outputs msgParts)"

definition assistantMessage :: "string \<Rightarrow> ResponsesContentPart list \<Rightarrow> ResponsesOutput" where
  "assistantMessage i parts = zero_ro\<lparr>ro_Type := ''message'', ro_ID := i, ro_Role := ''assistant'',
     ro_Content := parts, ro_Status := ''completed''\<rparr>"

definition AnthropicToResponsesResponse :: "(nat \<Rightarrow> string) \<Rightarrow> AnthropicResponse \<Rightarrow> ResponsesResponse" where
  "AnthropicToResponsesResponse rnd resp =
     (let (ident, n0) = (if ar_ID resp = [] then (generateResponsesID rnd 0, 1) else (ar_ID resp, 0));
          (outputs0, msgParts, n1) = contentToOutputs rnd n0 (ar_Content resp) [] [];
          (outputs1, n2) =
            (if msgParts \<noteq> [] then (outputs0 @ [assistantMessage (generateItemID rnd n1) msgParts], Suc n1)
             else (outputs0, n1));
          outputs2 =
            (if outputs1 = [] then
               [assistantMessage (generateItemID rnd n2)
                  [zero_rcp\<lparr>rcp_Type := ''output_text'', rcp_Text := []\<rparr>]]
             else outputs1);
          status = anthropicStopReasonToResponsesStatus (ar_StopReason resp) (ar_Content resp);
          u = ar_Usage resp
      in zero_rr\<lparr>rr_ID := ident, rr_Object := ''response'', rr_Model := ar_Model resp,
           rr_Output := outputs2, rr_Status := status,
           rr_IncompleteDetails :=
             (if status = ''incomplete'' then Some \<lparr>rid_Reason = ''max_output_tokens''\<rparr> else None),
           rr_Usage := Some \<lparr>ru_InputTokens = au_InputTokens u, ru_OutputTokens = au_OutputTokens u,
             ru_TotalTokens = au_InputTokens u + au_OutputTokens u,
             ru_InputTokensDetails =
               (if au_CacheReadInputTokens u > 0
                then Some \<lparr>ritd_CachedTokens = au_CacheReadInputTokens u\<rparr> else None),
             ru_OutputTokensDetails = None\<rparr>\<rparr>)"

section \<open>The stream converter\<close>

record AnthropicEventToResponsesState =
  ars_ResponseID :: string
  ars_Model :: string
  ars_Created :: int
  ars_SequenceNumber :: int
  ars_CreatedSent :: bool
  ars_CompletedSent :: bool
  ars_OutputIndex :: int
  ars_CurrentItemID :: string
  ars_CurrentItemType :: string
  ars_ContentIndex :: int
  ars_CurrentCallID :: string
  ars_CurrentName :: string
  ars_InputTokens :: int
  ars_OutputTokens :: int
  ars_CacheReadInputTokens :: int
  ars_draws :: nat

definition NewAnthropicEventToResponsesState :: "gotime \<Rightarrow> AnthropicEventToResponsesState" where
  "NewAnthropicEventToResponsesState now =
     \<lparr>ars_ResponseID = [], ars_Model = [], ars_Created = now div time_Second,
      ars_SequenceNumber = 0, ars_CreatedSent = False, ars_CompletedSent = False,
      ars_OutputIndex = 0, ars_CurrentItemID = [], ars_CurrentItemType = [], ars_ContentIndex = 0,
      ars_CurrentCallID = [], ars_CurrentName = [], ars_InputTokens = 0, ars_OutputTokens = 0,
      ars_CacheReadInputTokens = 0, ars_draws = 0\<rparr>"

type_synonym resp_out = "ResponsesStreamEvent list \<times> AnthropicEventToResponsesState"

definition makeResponsesEvent :: "AnthropicEventToResponsesState \<Rightarrow> string \<Rightarrow>
    ResponsesStreamEvent \<Rightarrow> ResponsesStreamEvent \<times> AnthropicEventToResponsesState" where
  "makeResponsesEvent st eventType tmpl =
     (tmpl\<lparr>rse_Type := eventType, rse_SequenceNumber := ars_SequenceNumber st\<rparr>,
      st\<lparr>ars_SequenceNumber := ars_SequenceNumber st + 1\<rparr>)"

definition makeResponsesCreatedEvent ::
    "AnthropicEventToResponsesState \<Rightarrow> ResponsesStreamEvent \<times> AnthropicEventToResponsesState" where
  "makeResponsesCreatedEvent st =
     (zero_rse\<lparr>rse_Type := ''response.created'', rse_SequenceNumber := ars_SequenceNumber st,
        rse_Response := Some (zero_rr\<lparr>rr_ID := ars_ResponseID st, rr_Object := ''response'',
          rr_Model := ars_Model st, rr_Status := ''in_progress'', rr_Output := []\<rparr>)\<rparr>,
      st\<lparr>ars_SequenceNumber := ars_SequenceNumber st + 1\<rparr>)"

definition makeResponsesCompletedEvent :: "AnthropicEventToResponsesState \<Rightarrow> string \<Rightarrow>
    ResponsesIncompleteDetails option \<Rightarrow> ResponsesStreamEvent \<times> AnthropicEventToResponsesState" where
  "makeResponsesCompletedEvent st status incompleteDetails =
     (zero_rse\<lparr>rse_Type := ''response.completed'', rse_SequenceNumber := ars_SequenceNumber st,
        rse_Response := Some (zero_rr\<lparr>rr_ID := ars_ResponseID st, rr_Object := ''response'',
          rr_Model := ars_Model st, rr_Status := status, rr_Output := [],
          rr_Usage := Some \<lparr>ru_InputTokens = ars_InputTokens st, ru_OutputTokens = ars_OutputTokens st,
            ru_TotalTokens = ars_InputTokens st + ars_OutputTokens st,
            ru_InputTokensDetails =
              (if ars_CacheReadInputTokens st > 0
               then Some \<lparr>ritd_CachedTokens = ars_CacheReadInputTokens st\<rparr> else None),
            ru_OutputTokensDetails = None\<rparr>,
          rr_IncompleteDetails := incompleteDetails\<rparr>)\<rparr>,
      st\<lparr>ars_SequenceNumber := ars_SequenceNumber st + 1\<rparr>)"

definition closeCurrentResponsesItem :: "AnthropicEventToResponsesState \<Rightarrow> resp_out" where
  "closeCurrentResponsesItem st =
     (if ars_CurrentItemType st = [] then ([], st)
      else
        (let itemType = ars_CurrentItemType st; itemID = ars_CurrentItemID st;
             st1 = st\<lparr>ars_CurrentItemType := [], ars_CurrentItemID := [], ars_CurrentCallID := [],
               ars_CurrentName := [], ars_OutputIndex := ars_OutputIndex st + 1,
               ars_ContentIndex := 0\<rparr>;
             (e, st2) = makeResponsesEvent st1 ''response.output_item.done''
               (zero_rse\<lparr>rse_OutputIndex := ars_OutputIndex st1 - 1,
                  rse_Item := Some (zero_ro\<lparr>ro_Type := itemType, ro_ID := itemID,
                    ro_Status := ''completed''\<rparr>)\<rparr>)
         in ([e], st2)))"

definition anthToResHandleMessageStart ::
    "AnthropicStreamEvent \<Rightarrow> AnthropicEventToResponsesState \<Rightarrow> resp_out" where
  "anthToResHandleMessageStart evt st =
     (let st1 = (case ase_Message evt of
                   None \<Rightarrow> st
                 | Some m \<Rightarrow> st\<lparr>ars_ResponseID := ar_ID m,
                     ars_Model := (if ars_Model st = [] then ar_Model m else ars_Model st),
                     ars_InputTokens := (if au_InputTokens (ar_Usage m) > 0
                                         then au_InputTokens (ar_Usage m) else ars_InputTokens st)\<rparr>)
      in if ars_CreatedSent st1 then ([], st1)
         else (let (e, st2) = makeResponsesCreatedEvent (st1\<lparr>ars_CreatedSent := True\<rparr>)
               in ([e], st2)))"

definition anthToResHandleContentBlockStart :: "(nat \<Rightarrow> string) \<Rightarrow>
    AnthropicStreamEvent \<Rightarrow> AnthropicEventToResponsesState \<Rightarrow> resp_out" where
  "anthToResHandleContentBlockStart rnd evt st =
     (case ase_ContentBlock evt of
        None \<Rightarrow> ([], st)
      | Some cb \<Rightarrow>
          if acb_Type cb = ''thinking'' then
            (let st1 = st\<lparr>ars_CurrentItemID := generateItemID rnd (ars_draws st),
                   ars_draws := Suc (ars_draws st), ars_CurrentItemType := ''reasoning'',
                   ars_ContentIndex := 0\<rparr>;
                 (e, st2) = makeResponsesEvent st1 ''response.output_item.added''
                   (zero_rse\<lparr>rse_OutputIndex := ars_OutputIndex st1,
                      rse_Item := Some (zero_ro\<lparr>ro_Type := ''reasoning'',
                        ro_ID := ars_CurrentItemID st1\<rparr>)\<rparr>)
             in ([e], st2))
          else if acb_Type cb = ''text'' then
            (if ars_CurrentItemType st \<noteq> ''message'' then
               (let st1 = st\<lparr>ars_CurrentItemID := generateItemID rnd (ars_draws st),
                      ars_draws := Suc (ars_draws st), ars_CurrentItemType := ''message'',
                      ars_ContentIndex := 0\<rparr>;
                    (e, st2) = makeResponsesEvent st1 ''response.output_item.added''
                      (zero_rse\<lparr>rse_OutputIndex := ars_OutputIndex st1,
                         rse_Item := Some (zero_ro\<lparr>ro_Type := ''message'',
                           ro_ID := ars_CurrentItemID st1, ro_Role := ''assistant'',
                           ro_Status := ''in_progress''\<rparr>)\<rparr>)
                in ([e], st2))
             else ([], st))
          else if acb_Type cb = ''tool_use'' then
            (let (events, st0) = closeCurrentResponsesItem st;
                 st1 = st0\<lparr>ars_CurrentItemID := generateItemID rnd (ars_draws st0),
                   ars_draws := Suc (ars_draws st0), ars_CurrentItemType := ''function_call'',
                   ars_CurrentCallID := toResponsesCallID (acb_ID cb),
                   ars_CurrentName := acb_Name cb\<rparr>;
                 (e, st2) = makeResponsesEvent st1 ''response.output_item.added''
                   (zero_rse\<lparr>rse_OutputIndex := ars_OutputIndex st1,
                      rse_Item := Some (zero_ro\<lparr>ro_Type := ''function_call'',
                        ro_ID := ars_CurrentItemID st1, ro_CallID := ars_CurrentCallID st1,
                        ro_Name := ars_CurrentName st1, ro_Status := ''in_progress''\<rparr>)\<rparr>)
             in (events @ [e], st2))
          else ([], st))"

definition anthToResHandleContentBlockDelta ::
    "AnthropicStreamEvent \<Rightarrow> AnthropicEventToResponsesState \<Rightarrow> resp_out" where
  "anthToResHandleContentBlockDelta evt st =
     (case ase_Delta evt of
        None \<Rightarrow> ([], st)
      | Some d \<Rightarrow>
          if ad_Type d = ''text_delta'' then
            (if ad_Text d = [] then ([], st)
             else (let (e, st1) = makeResponsesEvent st ''response.output_text.delta''
                     (zero_rse\<lparr>rse_OutputIndex := ars_OutputIndex st,
                        rse_ContentIndex := ars_ContentIndex st, rse_Delta := ad_Text d,
                        rse_ItemID := ars_CurrentItemID st\<rparr>)
                   in ([e], st1)))
          else if ad_Type d = ''thinking_delta'' then
            (if ad_Thinking d = [] then ([], st)
             else (let (e, st1) = makeResponsesEvent st ''response.reasoning_summary_text.delta''
                     (zero_rse\<lparr>rse_OutputIndex := ars_OutputIndex st, rse_SummaryIndex := 0,
                        rse_Delta := ad_Thinking d, rse_ItemID := ars_CurrentItemID st\<rparr>)
                   in ([e], st1)))
          else if ad_Type d = ''input_json_delta'' then
            (if ad_PartialJSON d = [] then ([], st)
             else (let (e, st1) = makeResponsesEvent st ''response.function_call_arguments.delta''
                     (zero_rse\<lparr>rse_OutputIndex := ars_OutputIndex st, rse_Delta := ad_PartialJSON d,
                        rse_ItemID := ars_CurrentItemID st, rse_CallID := ars_CurrentCallID st,
                        rse_Name := ars_CurrentName st\<rparr>)
                   in ([e], st1)))
          else ([], st))"

definition anthToResHandleContentBlockStop :: "AnthropicEventToResponsesState \<Rightarrow> resp_out" where
  "anthToResHandleContentBlockStop st =
     (if ars_CurrentItemType st = ''reasoning'' then
        (let (e, st1) = makeResponsesEvent st ''response.reasoning_summary_text.done''
               (zero_rse\<lparr>rse_OutputIndex := ars_OutputIndex st, rse_SummaryIndex := 0,
                  rse_ItemID := ars_CurrentItemID st\<rparr>);
             (events, st2) = closeCurrentResponsesItem st1
         in (e # events, st2))
      else if ars_CurrentItemType st = ''function_call'' then
        (let (e, st1) = makeResponsesEvent st ''response.function_call_arguments.done''
               (zero_rse\<lparr>rse_OutputIndex := ars_OutputIndex st,
                  rse_ItemID := ars_CurrentItemID st, rse_CallID := ars_CurrentCallID st,
                  rse_Name := ars_CurrentName st\<rparr>);
             (events, st2) = closeCurrentResponsesItem st1
         in (e # events, st2))
      else if ars_CurrentItemType st = ''message'' then
        (let (e, st1) = makeResponsesEvent st ''response.output_text.done''
               (zero_rse\<lparr>rse_OutputIndex := ars_OutputIndex st,
                  rse_ContentIndex := ars_ContentIndex st, rse_ItemID := ars_CurrentItemID st\<rparr>)
         in ([e], st1))
      else ([], st))"

definition anthToResHandleMessageDelta ::
    "AnthropicStreamEvent \<Rightarrow> AnthropicEventToResponsesState \<Rightarrow> resp_out" where
  "anthToResHandleMessageDelta evt st =
     ([], case ase_Usage evt of
            None \<Rightarrow> st
          | Some u \<Rightarrow> st\<lparr>ars_OutputTokens := au_OutputTokens u,
              ars_CacheReadInputTokens := (if au_CacheReadInputTokens u > 0
                then au_CacheReadInputTokens u else ars_CacheReadInputTokens st)\<rparr>)"

definition anthToResHandleMessageStop :: "AnthropicEventToResponsesState \<Rightarrow> resp_out" where
  "anthToResHandleMessageStop st =
     (if ars_CompletedSent st then ([], st)
      else (let (events, st1) = closeCurrentResponsesItem st;
                (e, st2) = makeResponsesCompletedEvent st1 ''completed'' None
            in (events @ [e], st2\<lparr>ars_CompletedSent := True\<rparr>)))"

definition AnthropicEventToResponsesEvents :: "(nat \<Rightarrow> string) \<Rightarrow>
    AnthropicStreamEvent \<Rightarrow> AnthropicEventToResponsesState \<Rightarrow> resp_out" where
  "AnthropicEventToResponsesEvents rnd evt st =
     (let t = ase_Type evt in
      if t = ''message_start'' then anthToResHandleMessageStart evt st
      else if t = ''content_block_start'' then anthToResHandleContentBlockStart rnd evt st
      else if t = ''content_block_delta'' then anthToResHandleContentBlockDelta evt st
      else if t = ''content_block_stop'' then anthToResHandleContentBlockStop st
      else if t = ''message_delta'' then anthToResHandleMessageDelta evt st
      else if t = ''message_stop'' then anthToResHandleMessageStop st
      else ([], st))"

definition FinalizeAnthropicResponsesStream :: "AnthropicEventToResponsesState \<Rightarrow> resp_out" where
  "FinalizeAnthropicResponsesStream st =
     (if \<not> ars_CreatedSent st \<or> ars_CompletedSent st then ([], st)
      else (let (events, st1) = closeCurrentResponsesItem st;
                (e, st2) = makeResponsesCompletedEvent st1 ''completed'' None
            in (events @ [e], st2\<lparr>ars_CompletedSent := True\<rparr>)))"

definition ar_stream :: "(nat \<Rightarrow> string) \<Rightarrow> AnthropicStreamEvent list \<Rightarrow>
    AnthropicEventToResponsesState \<Rightarrow> resp_out" where
  "ar_stream rnd es st =
     (let (out, st1) = run_steps (AnthropicEventToResponsesEvents rnd) es st;
          (fin, st2) = FinalizeAnthropicResponsesStream st1
      in (out @ fin, st2))"

section \<open>Numbering, and one response per stream\<close>

text \<open>The events of a type, and the numbers the two kinds of numbered event carry.\<close>

definition rse_count :: "string \<Rightarrow> ResponsesStreamEvent list \<Rightarrow> nat" where
  "rse_count t es = length (filter (\<lambda>e. rse_Type e = t) es)"

definition done_indexes :: "ResponsesStreamEvent list \<Rightarrow> int list" where
  "done_indexes es =
     map rse_OutputIndex (filter (\<lambda>e. rse_Type e = ''response.output_item.done'') es)"

lemma rse_count_simps [simp]:
  "rse_count t [] = 0"
  "rse_count t (e # es) = (if rse_Type e = t then Suc (rse_count t es) else rse_count t es)"
  "rse_count t (xs @ ys) = rse_count t xs + rse_count t ys"
  by (auto simp: rse_count_def)

lemma done_indexes_simps [simp]:
  "done_indexes [] = []"
  "done_indexes (e # es) = (if rse_Type e = ''response.output_item.done''
     then rse_OutputIndex e # done_indexes es else done_indexes es)"
  "done_indexes (xs @ ys) = done_indexes xs @ done_indexes ys"
  by (auto simp: done_indexes_def)

text \<open>
  What a piece of output must satisfy: sequence numbers are the state's, consecutively; the
  \<open>output_item.done\<close> events carry the state's output index, consecutively; and the counts of
  the two framing events are what the flags say.
\<close>

definition num_ok :: "AnthropicEventToResponsesState \<Rightarrow> resp_out \<Rightarrow> bool" where
  "num_ok st r \<longleftrightarrow>
     consec (ars_SequenceNumber st) (map rse_SequenceNumber (fst r)) \<and>
     ars_SequenceNumber (snd r) = ars_SequenceNumber st + int (length (fst r)) \<and>
     consec (ars_OutputIndex st) (done_indexes (fst r)) \<and>
     ars_OutputIndex (snd r) = ars_OutputIndex st + int (length (done_indexes (fst r))) \<and>
     of_bool (ars_CreatedSent (snd r)) =
       of_bool (ars_CreatedSent st) + rse_count ''response.created'' (fst r) \<and>
     of_bool (ars_CompletedSent (snd r)) =
       of_bool (ars_CompletedSent st) + rse_count ''response.completed'' (fst r)"

lemmas make_defs = makeResponsesEvent_def makeResponsesCreatedEvent_def
  makeResponsesCompletedEvent_def closeCurrentResponsesItem_def zero_rse_def Let_def

lemma num_ok_skip: "num_ok st ([], st)"
  by (simp add: num_ok_def)

lemma num_ok_trans: "num_ok st (out, st1) \<Longrightarrow> num_ok st1 (out', st2) \<Longrightarrow> num_ok st (out @ out', st2)"
  by (simp add: num_ok_def consec_append)

text \<open>The four fields that the numbering reads.\<close>

definition same_num :: "AnthropicEventToResponsesState \<Rightarrow> AnthropicEventToResponsesState \<Rightarrow> bool" where
  "same_num st st1 \<longleftrightarrow> ars_SequenceNumber st1 = ars_SequenceNumber st \<and>
     ars_OutputIndex st1 = ars_OutputIndex st \<and> ars_CreatedSent st1 = ars_CreatedSent st \<and>
     ars_CompletedSent st1 = ars_CompletedSent st"

lemma num_ok_same: "same_num st st1 \<Longrightarrow> num_ok st1 r \<Longrightarrow> num_ok st r"
  by (simp add: num_ok_def same_num_def)

lemma num_ok_emit:
  assumes "same_num st st1"
    and "t \<notin> {''response.created'', ''response.completed'', ''response.output_item.done''}"
  shows "num_ok st (case makeResponsesEvent st1 t tm of (e, st2) \<Rightarrow> ([e], st2))"
  using assms by (simp add: num_ok_def same_num_def makeResponsesEvent_def)

lemma num_ok_close: "num_ok st (closeCurrentResponsesItem st)"
  by (simp add: num_ok_def make_defs)

lemma num_ok_start: "num_ok st (anthToResHandleMessageStart evt st)"
  by (simp add: num_ok_def anthToResHandleMessageStart_def make_defs split: option.splits)

lemma num_ok_tool_start:
  assumes "\<And>st0. same_num st0 (upd st0)"
    and "t \<notin> {''response.created'', ''response.completed'', ''response.output_item.done''}"
  shows "num_ok st (case closeCurrentResponsesItem st of (events, st0) \<Rightarrow>
     (case makeResponsesEvent (upd st0) t (tm st0) of (e, st2) \<Rightarrow> (events @ [e], st2)))"
proof -
  obtain events st0 where c: "closeCurrentResponsesItem st = (events, st0)" by fastforce
  obtain e st2 where m: "makeResponsesEvent (upd st0) t (tm st0) = (e, st2)" by fastforce
  have "num_ok st (events, st0)" using num_ok_close [of st] c by simp
  moreover have "num_ok st0 ([e], st2)" using num_ok_emit [OF assms(1,2), of st0 "tm st0"] m by simp
  ultimately show ?thesis using c m by (auto intro: num_ok_trans)
qed

lemma num_ok_block_start: "num_ok st (anthToResHandleContentBlockStart rnd evt st)"
  unfolding anthToResHandleContentBlockStart_def Let_def
  by (auto simp: num_ok_skip same_num_def split: option.split intro!: num_ok_emit num_ok_tool_start)

lemma num_ok_delta: "num_ok st (anthToResHandleContentBlockDelta evt st)"
  unfolding anthToResHandleContentBlockDelta_def Let_def
  by (auto simp: num_ok_skip same_num_def split: option.split intro!: num_ok_emit)

lemma num_ok_emit_close:
  assumes "t \<notin> {''response.created'', ''response.completed'', ''response.output_item.done''}"
  shows "num_ok st (case makeResponsesEvent st t tm of (e, st1) \<Rightarrow>
     (case closeCurrentResponsesItem st1 of (events, st2) \<Rightarrow> (e # events, st2)))"
proof -
  obtain e st1 where m: "makeResponsesEvent st t tm = (e, st1)" by fastforce
  obtain events st2 where c: "closeCurrentResponsesItem st1 = (events, st2)" by fastforce
  have "num_ok st ([e], st1)"
    using num_ok_emit [of st st t tm] assms m by (simp add: same_num_def)
  moreover have "num_ok st1 (events, st2)" using num_ok_close [of st1] c by simp
  ultimately have "num_ok st ([e] @ events, st2)" by (rule num_ok_trans)
  with c m show ?thesis by simp
qed

lemma num_ok_block_stop: "num_ok st (anthToResHandleContentBlockStop st)"
  unfolding anthToResHandleContentBlockStop_def Let_def
  by (auto simp: num_ok_skip same_num_def intro!: num_ok_emit num_ok_emit_close)

lemma num_ok_msg_delta: "num_ok st (anthToResHandleMessageDelta evt st)"
  by (simp add: num_ok_def anthToResHandleMessageDelta_def split: option.splits)

lemma num_ok_complete:
  assumes "\<not> ars_CompletedSent st"
  shows "num_ok st (case closeCurrentResponsesItem st of (events, st1) \<Rightarrow>
     (case makeResponsesCompletedEvent st1 s d of (e, st2) \<Rightarrow>
        (events @ [e], st2\<lparr>ars_CompletedSent := True\<rparr>)))"
proof -
  obtain events st1 where c: "closeCurrentResponsesItem st = (events, st1)" by fastforce
  have ok: "num_ok st (events, st1)" using num_ok_close [of st] c by simp
  have "\<not> ars_CompletedSent st1"
    using c assms by (auto simp: closeCurrentResponsesItem_def makeResponsesEvent_def Let_def
        split: if_splits)
  then have "num_ok st1 (case makeResponsesCompletedEvent st1 s d of (e, st2) \<Rightarrow>
      ([e], st2\<lparr>ars_CompletedSent := True\<rparr>))"
    by (simp add: num_ok_def makeResponsesCompletedEvent_def zero_rse_def)
  with ok c show ?thesis by (auto intro: num_ok_trans split: prod.splits)
qed

lemma num_ok_stop: "num_ok st (anthToResHandleMessageStop st)"
  using num_ok_complete [of st] by (simp add: anthToResHandleMessageStop_def num_ok_skip)

lemma num_ok_finalize: "num_ok st (FinalizeAnthropicResponsesStream st)"
  using num_ok_complete [of st] by (simp add: FinalizeAnthropicResponsesStream_def num_ok_skip)

lemma num_ok_event: "num_ok st (AnthropicEventToResponsesEvents rnd evt st)"
  by (simp add: AnthropicEventToResponsesEvents_def Let_def num_ok_skip num_ok_start
      num_ok_block_start num_ok_delta num_ok_block_stop num_ok_msg_delta num_ok_stop)

interpretation ar_numbers: stream_contract "AnthropicEventToResponsesEvents rnd" "\<lambda>_. True"
    "\<lambda>st ins out st1. num_ok st (out, st1)" for rnd
proof unfold_locales
  fix st e out st1
  assume "AnthropicEventToResponsesEvents rnd e st = (out, st1)"
  then show "num_ok st (out, st1)" using num_ok_event [of st rnd e] by simp
qed (auto simp: num_ok_skip intro: num_ok_trans)

lemma num_ok_stream: "num_ok st (ar_stream rnd es st)"
proof -
  obtain out st1 where r: "run_steps (AnthropicEventToResponsesEvents rnd) es st = (out, st1)"
    by fastforce
  obtain fin st2 where f: "FinalizeAnthropicResponsesStream st1 = (fin, st2)" by fastforce
  have "num_ok st1 (fin, st2)" using num_ok_finalize [of st1] f by simp
  with ar_numbers.run_rel [OF TrueI r] r f show ?thesis
    by (auto simp: ar_stream_def intro: num_ok_trans)
qed

text \<open>Sequence numbers. For every Anthropic stream the emitted Responses events carry the
  sequence numbers 0, 1, 2, \<dots> in emission order, and the k-th finished output item carries output
  index k: the client can order events and items by number.\<close>

theorem anthropic_to_responses_numbering:
  assumes "ar_stream rnd es (NewAnthropicEventToResponsesState now) = (out, st)"
  shows "map rse_SequenceNumber out = map int [0..<length out] \<and>
    done_indexes out = map int [0..<length (done_indexes out)]"
proof -
  have ok: "num_ok (NewAnthropicEventToResponsesState now) (out, st)"
    using num_ok_stream [of "NewAnthropicEventToResponsesState now" rnd es] assms by simp
  then have "consec 0 (map rse_SequenceNumber out)" "consec 0 (done_indexes out)"
    by (simp_all add: num_ok_def NewAnthropicEventToResponsesState_def)
  from this [THEN consec_nth] show ?thesis by (auto intro!: nth_equalityI)
qed

theorem anthropic_to_responses_numbering_witness:
  "\<exists>out st. ar_stream (\<lambda>_. ''00'')
       [zero_ase\<lparr>ase_Type := ''message_start''\<rparr>,
        zero_ase\<lparr>ase_Type := ''content_block_start'',
          ase_ContentBlock := Some (zero_acb\<lparr>acb_Type := ''tool_use''\<rparr>)\<rparr>]
       (NewAnthropicEventToResponsesState 0) = (out, st) \<and>
     map rse_SequenceNumber out = map int [0..<length out] \<and>
     done_indexes out = map int [0..<length (done_indexes out)]"
proof -
  obtain out st where r: "ar_stream (\<lambda>_. ''00'')
       [zero_ase\<lparr>ase_Type := ''message_start''\<rparr>,
        zero_ase\<lparr>ase_Type := ''content_block_start'',
          ase_ContentBlock := Some (zero_acb\<lparr>acb_Type := ''tool_use''\<rparr>)\<rparr>]
       (NewAnthropicEventToResponsesState 0) = (out, st)" by fastforce
  show ?thesis using r anthropic_to_responses_numbering [OF r] by blast
qed

lemma finalize_completes:
  "ars_CreatedSent (snd (FinalizeAnthropicResponsesStream st)) = ars_CreatedSent st"
  "ars_CreatedSent st \<Longrightarrow> ars_CompletedSent (snd (FinalizeAnthropicResponsesStream st))"
  by (auto simp: FinalizeAnthropicResponsesStream_def make_defs)

lemma stream_created_completed:
  assumes "ars_CreatedSent (snd (ar_stream rnd es st))"
  shows "ars_CompletedSent (snd (ar_stream rnd es st))"
proof -
  have "snd (ar_stream rnd es st) = snd (FinalizeAnthropicResponsesStream
      (snd (run_steps (AnthropicEventToResponsesEvents rnd) es st)))"
    by (simp add: ar_stream_def split: prod.split)
  with assms show ?thesis by (simp add: finalize_completes)
qed

text \<open>One response per stream. At most one \<open>response.created\<close> and at most one
  \<open>response.completed\<close> are emitted for any Anthropic stream, and a created response is completed
  exactly once, also when the upstream ended without \<open>message_stop\<close>.\<close>

theorem anthropic_to_responses_one_response:
  "let out = fst (ar_stream rnd es (NewAnthropicEventToResponsesState now)) in
     rse_count ''response.created'' out \<le> 1 \<and> rse_count ''response.completed'' out \<le> 1 \<and>
     (rse_count ''response.created'' out = 1 \<longrightarrow> rse_count ''response.completed'' out = 1)"
proof -
  let ?st = "NewAnthropicEventToResponsesState now"
  have "\<not> ars_CreatedSent ?st" "\<not> ars_CompletedSent ?st"
    by (simp_all add: NewAnthropicEventToResponsesState_def)
  with num_ok_stream [of ?st rnd es] stream_created_completed [of rnd es ?st] show ?thesis
    by (auto simp: num_ok_def Let_def of_bool_def split: if_splits)
qed

theorem anthropic_to_responses_one_response_witness:
  "rse_count ''response.created'' (fst (ar_stream (\<lambda>_. ''00'')
       [zero_ase\<lparr>ase_Type := ''message_start''\<rparr>] (NewAnthropicEventToResponsesState 0))) = 1 \<and>
   rse_count ''response.completed'' (fst (ar_stream (\<lambda>_. ''00'')
       [zero_ase\<lparr>ase_Type := ''message_start''\<rparr>] (NewAnthropicEventToResponsesState 0))) = 1"
proof -
  have "rse_count ''response.created'' (fst (ar_stream (\<lambda>_. ''00'')
       [zero_ase\<lparr>ase_Type := ''message_start''\<rparr>] (NewAnthropicEventToResponsesState 0))) = 1"
    by code_simp
  with anthropic_to_responses_one_response
      [of "\<lambda>_. ''00''" "[zero_ase\<lparr>ase_Type := ''message_start''\<rparr>]" 0]
  show ?thesis by (simp add: Let_def)
qed

section \<open>Text, and what the stream does with the stop reason\<close>

definition rse_payload :: "string \<Rightarrow> ResponsesStreamEvent list \<Rightarrow> string" where
  "rse_payload t es = concat (map (\<lambda>e. if rse_Type e = t then rse_Delta e else []) es)"

definition ase_text :: "AnthropicStreamEvent list \<Rightarrow> string" where
  "ase_text es = concat (map (\<lambda>e. if ase_Type e = ''content_block_delta'' then
     (case ase_Delta e of Some d \<Rightarrow> if ad_Type d = ''text_delta'' then ad_Text d else [] | None \<Rightarrow> [])
     else []) es)"

lemma rse_payload_simps [simp]:
  "rse_payload t [] = []"
  "rse_payload t (e # es) = (if rse_Type e = t then rse_Delta e else []) @ rse_payload t es"
  "rse_payload t (xs @ ys) = rse_payload t xs @ rse_payload t ys"
  by (simp_all add: rse_payload_def)

lemma ase_text_append: "ase_text (xs @ ys) = ase_text xs @ ase_text ys"
  by (simp add: ase_text_def)

abbreviation out_text :: "ResponsesStreamEvent list \<Rightarrow> string" where
  "out_text \<equiv> rse_payload ''response.output_text.delta''"

lemma ar_text_handlers:
  "out_text (fst (anthToResHandleMessageStart evt st)) = []"
  "out_text (fst (anthToResHandleContentBlockStart rnd evt st)) = []"
  "out_text (fst (anthToResHandleContentBlockStop st)) = []"
  "out_text (fst (anthToResHandleMessageDelta evt st)) = []"
  "out_text (fst (anthToResHandleMessageStop st)) = []"
  "out_text (fst (FinalizeAnthropicResponsesStream st)) = []"
  by (simp_all add: anthToResHandleMessageStart_def anthToResHandleContentBlockStart_def
      anthToResHandleContentBlockStop_def anthToResHandleMessageDelta_def
      anthToResHandleMessageStop_def FinalizeAnthropicResponsesStream_def make_defs
      split: option.splits)

lemma ar_text_delta:
  "out_text (fst (anthToResHandleContentBlockDelta evt st)) =
     (case ase_Delta evt of Some d \<Rightarrow> if ad_Type d = ''text_delta'' then ad_Text d else [] | None \<Rightarrow> [])"
  by (simp add: anthToResHandleContentBlockDelta_def make_defs split: option.splits)

lemma ar_text_event: "out_text (fst (AnthropicEventToResponsesEvents rnd e st)) = ase_text [e]"
  by (simp add: AnthropicEventToResponsesEvents_def Let_def ase_text_def ar_text_handlers
      ar_text_delta)

interpretation ar_text: stream_contract "AnthropicEventToResponsesEvents rnd" "\<lambda>_. True"
    "\<lambda>st ins out st1. out_text out = ase_text ins" for rnd
proof unfold_locales
  fix st e out st1
  assume "AnthropicEventToResponsesEvents rnd e st = (out, st1)"
  then show "out_text out = ase_text [e]" using ar_text_event [of rnd e st] by simp
qed (auto simp: ase_text_append, simp add: ase_text_def)

lemma ar_stream_text: "out_text (fst (ar_stream rnd es st)) = ase_text es"
proof -
  obtain out st1 where r: "run_steps (AnthropicEventToResponsesEvents rnd) es st = (out, st1)"
    by fastforce
  obtain fin st2 where f: "FinalizeAnthropicResponsesStream st1 = (fin, st2)" by fastforce
  have "out_text fin = []" using ar_text_handlers(6) [of st1] f by simp
  with ar_text.run_rel [OF TrueI r] r f show ?thesis by (simp add: ar_stream_def)
qed

text \<open>The visible answer survives translation to Responses: the concatenated
  \<open>output_text.delta\<close> payloads are the concatenated text deltas of the Anthropic stream.\<close>

theorem anthropic_to_responses_text_preserved:
  "rse_payload ''response.output_text.delta'' (fst (ar_stream rnd es st)) = ase_text es"
  by (rule ar_stream_text)

text \<open>A truncated answer. The non-streaming conversion reports a \<open>max_tokens\<close> stop as an
  incomplete response; the streaming one ends every started stream as completed with no
  incomplete details, whatever stop reason its \<open>message_delta\<close> carried.\<close>

theorem anthropic_max_tokens_status:
  assumes "ar_StopReason resp = ''max_tokens''" and "ars_CreatedSent st" and "\<not> ars_CompletedSent st"
  shows "rr_Status (AnthropicToResponsesResponse rnd resp) = ''incomplete'' \<and>
        (case last (fst (run_steps (AnthropicEventToResponsesEvents rnd)
           [zero_ase\<lparr>ase_Type := ''message_delta'',
              ase_Delta := Some (zero_ad\<lparr>ad_StopReason := ar_StopReason resp\<rparr>)\<rparr>,
            zero_ase\<lparr>ase_Type := ''message_stop''\<rparr>] st)) of e \<Rightarrow>
         rse_Type e = ''response.completed'' \<and>
         map_option rr_Status (rse_Response e) = Some ''completed'' \<and>
         map_option rr_IncompleteDetails (rse_Response e) = Some None)"
  using assms
  by (simp_all add: AnthropicToResponsesResponse_def anthropicStopReasonToResponsesStatus_def
      Let_def AnthropicEventToResponsesEvents_def anthToResHandleMessageDelta_def zero_ase_def
      anthToResHandleMessageStop_def makeResponsesCompletedEvent_def split: prod.splits)

text \<open>A concrete answer cut off at the token limit.\<close>

definition truncated_answer :: AnthropicResponse where
  "truncated_answer = zero_ar\<lparr>ar_ID := ''msg_1'', ar_StopReason := ''max_tokens'',
     ar_Content := [zero_acb\<lparr>acb_Type := ''text'', acb_Text := ''once upon''\<rparr>]\<rparr>"

theorem anthropic_max_tokens_status_witness:
  "rr_Status (AnthropicToResponsesResponse (\<lambda>_. ''00'') truncated_answer) = ''incomplete'' \<and>
   rse_Type (last (fst (run_steps (AnthropicEventToResponsesEvents (\<lambda>_. ''00''))
           [zero_ase\<lparr>ase_Type := ''message_delta'',
              ase_Delta := Some (zero_ad\<lparr>ad_StopReason := ar_StopReason truncated_answer\<rparr>)\<rparr>,
            zero_ase\<lparr>ase_Type := ''message_stop''\<rparr>]
           ((NewAnthropicEventToResponsesState 0)\<lparr>ars_CreatedSent := True\<rparr>)))) = ''response.completed''"
  using anthropic_max_tokens_status [of truncated_answer
      "(NewAnthropicEventToResponsesState 0)\<lparr>ars_CreatedSent := True\<rparr>" "\<lambda>_. ''00''"]
  by (simp add: truncated_answer_def NewAnthropicEventToResponsesState_def)

text \<open>Text followed by thinking. A text block leaves its message item open for further text,
  and a thinking block started after it does not finish it: the reasoning item is announced under
  the same output index, and no \<open>output_item.done\<close> is ever emitted for the message item.\<close>

theorem anthropic_text_then_thinking_shares_index:
  assumes "ars_CurrentItemType st = []"
  shows "map (\<lambda>e. (rse_Type e, rse_OutputIndex e, map_option ro_Type (rse_Item e)))
     (fst (run_steps (AnthropicEventToResponsesEvents rnd)
        [zero_ase\<lparr>ase_Type := ''content_block_start'', ase_Index := Some 0,
           ase_ContentBlock := Some (zero_acb\<lparr>acb_Type := ''text''\<rparr>)\<rparr>,
         zero_ase\<lparr>ase_Type := ''content_block_stop'', ase_Index := Some 0\<rparr>,
         zero_ase\<lparr>ase_Type := ''content_block_start'', ase_Index := Some 1,
           ase_ContentBlock := Some (zero_acb\<lparr>acb_Type := ''thinking''\<rparr>)\<rparr>,
         zero_ase\<lparr>ase_Type := ''content_block_stop'', ase_Index := Some 1\<rparr>] st)) =
     (let i = ars_OutputIndex st in
      [(''response.output_item.added'', i, Some ''message''),
       (''response.output_text.done'', i, None),
       (''response.output_item.added'', i, Some ''reasoning''),
       (''response.reasoning_summary_text.done'', i, None),
       (''response.output_item.done'', i, Some ''reasoning'')])"
  using assms
  by (simp add: AnthropicEventToResponsesEvents_def anthToResHandleContentBlockStart_def
      anthToResHandleContentBlockStop_def make_defs zero_ase_def zero_acb_def zero_ro_def)

theorem anthropic_text_then_thinking_shares_index_witness:
  "map (\<lambda>e. (rse_Type e, rse_OutputIndex e, map_option ro_Type (rse_Item e)))
     (fst (run_steps (AnthropicEventToResponsesEvents (\<lambda>_. ''00''))
        [zero_ase\<lparr>ase_Type := ''content_block_start'', ase_Index := Some 0,
           ase_ContentBlock := Some (zero_acb\<lparr>acb_Type := ''text''\<rparr>)\<rparr>,
         zero_ase\<lparr>ase_Type := ''content_block_stop'', ase_Index := Some 0\<rparr>,
         zero_ase\<lparr>ase_Type := ''content_block_start'', ase_Index := Some 1,
           ase_ContentBlock := Some (zero_acb\<lparr>acb_Type := ''thinking''\<rparr>)\<rparr>,
         zero_ase\<lparr>ase_Type := ''content_block_stop'', ase_Index := Some 1\<rparr>]
        (NewAnthropicEventToResponsesState 0))) =
      [(''response.output_item.added'', 0, Some ''message''),
       (''response.output_text.done'', 0, None),
       (''response.output_item.added'', 0, Some ''reasoning''),
       (''response.reasoning_summary_text.done'', 0, None),
       (''response.output_item.done'', 0, Some ''reasoning'')]"
  using anthropic_text_then_thinking_shares_index [of "NewAnthropicEventToResponsesState 0" "\<lambda>_. ''00''"]
  by (simp add: NewAnthropicEventToResponsesState_def Let_def)

end
