(* ===== verification/ResToChat.thy ===== *)
theory ResToChat
  imports ApiTypes
begin

text \<open>
  \<open>pkg/apicompat/responses_to_chatcompletions.go\<close>: OpenAI Responses answers as Chat Completions,
  whole and streamed, and the accumulator that rebuilds an answer's output from its deltas when
  the terminal event carries none. Identifiers drawn from \<open>crypto/rand\<close> and the clock are
  arguments of the constructors.
\<close>

section \<open>Non-streaming conversion\<close>

definition generateChatCmplID :: "string \<Rightarrow> string" where
  "generateChatCmplID rnd = ''chatcmpl-'' @ rnd"

definition responsesStatusToChatFinishReason ::
    "string \<Rightarrow> ResponsesIncompleteDetails option \<Rightarrow> ChatToolCall list \<Rightarrow> string" where
  "responsesStatusToChatFinishReason status details toolCalls =
     (if status = ''incomplete'' then
        (case details of
           Some d \<Rightarrow> if rid_Reason d = ''max_output_tokens'' then ''length'' else ''stop''
         | None \<Rightarrow> ''stop'')
      else if status = ''completed'' then (if toolCalls \<noteq> [] then ''tool_calls'' else ''stop'')
      else ''stop'')"

text \<open>The three accumulators of the loop over \<open>resp.Output\<close>.\<close>

definition chatContentText :: "ResponsesOutput list \<Rightarrow> string" where
  "chatContentText items = concat (map (\<lambda>item.
     if ro_Type item = ''message'' then
       concat (map (\<lambda>p. if rcp_Type p = ''output_text'' \<and> rcp_Text p \<noteq> [] then rcp_Text p else [])
         (ro_Content item))
     else []) items)"

definition chatToolCalls :: "ResponsesOutput list \<Rightarrow> ChatToolCall list" where
  "chatToolCalls items =
     map (\<lambda>item. \<lparr>ctc_Index = None, ctc_ID = ro_CallID item, ctc_Type = ''function'',
            ctc_Function = \<lparr>cfc_Name = ro_Name item, cfc_Arguments = ro_Arguments item\<rparr>\<rparr>)
       (filter (\<lambda>item. ro_Type item = ''function_call'') items)"

definition chatReasoningText :: "ResponsesOutput list \<Rightarrow> string" where
  "chatReasoningText items = concat (map (\<lambda>item.
     if ro_Type item = ''reasoning'' then
       concat (map (\<lambda>s. if rs_Type s = ''summary_text'' \<and> rs_Text s \<noteq> [] then rs_Text s else [])
         (ro_Summary item))
     else []) items)"

definition chatUsageOf :: "ResponsesUsage \<Rightarrow> ChatUsage" where
  "chatUsageOf u =
     \<lparr>cu_PromptTokens = ru_InputTokens u, cu_CompletionTokens = ru_OutputTokens u,
      cu_TotalTokens = ru_InputTokens u + ru_OutputTokens u,
      cu_PromptTokensDetails =
        (case ru_InputTokensDetails u of
           Some d \<Rightarrow> if ritd_CachedTokens d > 0
             then Some \<lparr>ctd_CachedTokens = ritd_CachedTokens d\<rparr> else None
         | None \<Rightarrow> None)\<rparr>"

definition ResponsesToChatCompletions ::
    "string \<Rightarrow> gotime \<Rightarrow> ResponsesResponse \<Rightarrow> string \<Rightarrow> ChatCompletionsResponse" where
  "ResponsesToChatCompletions rnd now resp model =
     (let ident = (if rr_ID resp = [] then generateChatCmplID rnd else rr_ID resp);
          contentText = chatContentText (rr_Output resp);
          reasoningText = chatReasoningText (rr_Output resp);
          toolCalls = chatToolCalls (rr_Output resp);
          msg = zero_cm\<lparr>cm_Role := ''assistant'', cm_ToolCalls := toolCalls,
            cm_Content := (if contentText \<noteq> [] then json_string contentText else []),
            cm_ReasoningContent := reasoningText\<rparr>;
          finishReason =
            responsesStatusToChatFinishReason (rr_Status resp) (rr_IncompleteDetails resp) toolCalls
      in \<lparr>ccr_ID = ident, ccr_Object = ''chat.completion'', ccr_Created = now div time_Second,
          ccr_Model = model,
          ccr_Choices = [\<lparr>cc_Index = 0, cc_Message = msg, cc_FinishReason = finishReason\<rparr>],
          ccr_Usage = map_option chatUsageOf (rr_Usage resp),
          ccr_SystemFingerprint = [], ccr_ServiceTier = []\<rparr>)"

section \<open>The stream converter\<close>

record ResponsesEventToChatState =
  rcs_ID :: string
  rcs_Model :: string
  rcs_Created :: int
  rcs_SentRole :: bool
  rcs_SawToolCall :: bool
  rcs_SawText :: bool
  rcs_Finalized :: bool
  rcs_NextToolCallIndex :: int
  rcs_OutputIndexToToolIndex :: "int \<rightharpoonup> int"
  rcs_IncludeUsage :: bool
  rcs_Usage :: "ChatUsage option"

definition NewResponsesEventToChatState :: "string \<Rightarrow> gotime \<Rightarrow> ResponsesEventToChatState" where
  "NewResponsesEventToChatState rnd now =
     \<lparr>rcs_ID = generateChatCmplID rnd, rcs_Model = [], rcs_Created = now div time_Second,
      rcs_SentRole = False, rcs_SawToolCall = False, rcs_SawText = False, rcs_Finalized = False,
      rcs_NextToolCallIndex = 0, rcs_OutputIndexToToolIndex = Map.empty, rcs_IncludeUsage = False,
      rcs_Usage = None\<rparr>"

type_synonym chat_out = "ChatCompletionsChunk list \<times> ResponsesEventToChatState"

definition makeChatDeltaChunk :: "ResponsesEventToChatState \<Rightarrow> ChatDelta \<Rightarrow> ChatCompletionsChunk" where
  "makeChatDeltaChunk st delta =
     \<lparr>ck_ID = rcs_ID st, ck_Object = ''chat.completion.chunk'', ck_Created = rcs_Created st,
      ck_Model = rcs_Model st,
      ck_Choices = [\<lparr>cch_Index = 0, cch_Delta = delta, cch_FinishReason = None\<rparr>],
      ck_Usage = None, ck_SystemFingerprint = [], ck_ServiceTier = []\<rparr>"

definition makeChatFinishChunk :: "ResponsesEventToChatState \<Rightarrow> string \<Rightarrow> ChatCompletionsChunk" where
  "makeChatFinishChunk st finishReason =
     \<lparr>ck_ID = rcs_ID st, ck_Object = ''chat.completion.chunk'', ck_Created = rcs_Created st,
      ck_Model = rcs_Model st,
      ck_Choices = [\<lparr>cch_Index = 0, cch_Delta = zero_cd\<lparr>cd_Content := Some []\<rparr>,
                     cch_FinishReason = Some finishReason\<rparr>],
      ck_Usage = None, ck_SystemFingerprint = [], ck_ServiceTier = []\<rparr>"

definition chatUsageChunk :: "ResponsesEventToChatState \<Rightarrow> ChatCompletionsChunk list" where
  "chatUsageChunk st =
     (if rcs_IncludeUsage st \<and> rcs_Usage st \<noteq> None then
        [\<lparr>ck_ID = rcs_ID st, ck_Object = ''chat.completion.chunk'', ck_Created = rcs_Created st,
          ck_Model = rcs_Model st, ck_Choices = [], ck_Usage = rcs_Usage st,
          ck_SystemFingerprint = [], ck_ServiceTier = []\<rparr>]
      else [])"

definition resToChatHandleCreated ::
    "ResponsesStreamEvent \<Rightarrow> ResponsesEventToChatState \<Rightarrow> chat_out" where
  "resToChatHandleCreated evt st =
     (let st1 = (case rse_Response evt of
                   None \<Rightarrow> st
                 | Some r \<Rightarrow> st\<lparr>rcs_ID := (if rr_ID r \<noteq> [] then rr_ID r else rcs_ID st),
                     rcs_Model := (if rcs_Model st = [] \<and> rr_Model r \<noteq> [] then rr_Model r
                                   else rcs_Model st)\<rparr>)
      in if rcs_SentRole st1 then ([], st1)
         else (let st2 = st1\<lparr>rcs_SentRole := True\<rparr>
               in ([makeChatDeltaChunk st2 (zero_cd\<lparr>cd_Role := ''assistant''\<rparr>)], st2)))"

definition resToChatHandleTextDelta ::
    "ResponsesStreamEvent \<Rightarrow> ResponsesEventToChatState \<Rightarrow> chat_out" where
  "resToChatHandleTextDelta evt st =
     (if rse_Delta evt = [] then ([], st)
      else (let st1 = st\<lparr>rcs_SawText := True\<rparr>
            in ([makeChatDeltaChunk st1 (zero_cd\<lparr>cd_Content := Some (rse_Delta evt)\<rparr>)], st1)))"

definition resToChatHandleOutputItemAdded ::
    "ResponsesStreamEvent \<Rightarrow> ResponsesEventToChatState \<Rightarrow> chat_out" where
  "resToChatHandleOutputItemAdded evt st =
     (case rse_Item evt of
        None \<Rightarrow> ([], st)
      | Some item \<Rightarrow>
          if ro_Type item \<noteq> ''function_call'' then ([], st)
          else
            (let idx = rcs_NextToolCallIndex st;
                 st1 = st\<lparr>rcs_SawToolCall := True,
                   rcs_OutputIndexToToolIndex :=
                     (rcs_OutputIndexToToolIndex st)(rse_OutputIndex evt \<mapsto> idx),
                   rcs_NextToolCallIndex := rcs_NextToolCallIndex st + 1\<rparr>
             in ([makeChatDeltaChunk st1 (zero_cd\<lparr>cd_ToolCalls :=
                    [\<lparr>ctc_Index = Some idx, ctc_ID = ro_CallID item, ctc_Type = ''function'',
                      ctc_Function = \<lparr>cfc_Name = ro_Name item, cfc_Arguments = []\<rparr>\<rparr>]\<rparr>)], st1)))"

definition resToChatHandleFuncArgsDelta ::
    "ResponsesStreamEvent \<Rightarrow> ResponsesEventToChatState \<Rightarrow> chat_out" where
  "resToChatHandleFuncArgsDelta evt st =
     (if rse_Delta evt = [] then ([], st)
      else (case rcs_OutputIndexToToolIndex st (rse_OutputIndex evt) of
              None \<Rightarrow> ([], st)
            | Some idx \<Rightarrow>
                ([makeChatDeltaChunk st (zero_cd\<lparr>cd_ToolCalls :=
                    [\<lparr>ctc_Index = Some idx, ctc_ID = [], ctc_Type = [],
                      ctc_Function = \<lparr>cfc_Name = [], cfc_Arguments = rse_Delta evt\<rparr>\<rparr>]\<rparr>)], st)))"

definition resToChatHandleReasoningDelta ::
    "ResponsesStreamEvent \<Rightarrow> ResponsesEventToChatState \<Rightarrow> chat_out" where
  "resToChatHandleReasoningDelta evt st =
     (if rse_Delta evt = [] then ([], st)
      else ([makeChatDeltaChunk st (zero_cd\<lparr>cd_ReasoningContent := Some (rse_Delta evt)\<rparr>)], st))"

definition resToChatHandleCompleted ::
    "ResponsesStreamEvent \<Rightarrow> ResponsesEventToChatState \<Rightarrow> chat_out" where
  "resToChatHandleCompleted evt st =
     (let st1 = st\<lparr>rcs_Finalized := True\<rparr>;
          st2 = (case rse_Response evt of
                   None \<Rightarrow> st1
                 | Some r \<Rightarrow> (case rr_Usage r of
                       None \<Rightarrow> st1
                     | Some u \<Rightarrow> st1\<lparr>rcs_Usage := Some (chatUsageOf u)\<rparr>));
          finishReason =
            (case rse_Response evt of
               None \<Rightarrow> if rcs_SawToolCall st2 then ''tool_calls'' else ''stop''
             | Some r \<Rightarrow>
                 if rr_Status r = ''incomplete'' then
                   (case rr_IncompleteDetails r of
                      Some d \<Rightarrow> if rid_Reason d = ''max_output_tokens'' then ''length'' else ''stop''
                    | None \<Rightarrow> ''stop'')
                 else if rr_Status r = ''completed'' then
                   (if rcs_SawToolCall st2 then ''tool_calls'' else ''stop'')
                 else ''stop'')
      in (makeChatFinishChunk st2 finishReason # chatUsageChunk st2, st2))"

definition ResponsesEventToChatChunks ::
    "ResponsesStreamEvent \<Rightarrow> ResponsesEventToChatState \<Rightarrow> chat_out" where
  "ResponsesEventToChatChunks evt st =
     (let t = rse_Type evt in
      if t = ''response.created'' then resToChatHandleCreated evt st
      else if t = ''response.output_text.delta'' then resToChatHandleTextDelta evt st
      else if t = ''response.output_item.added'' then resToChatHandleOutputItemAdded evt st
      else if t = ''response.function_call_arguments.delta'' then resToChatHandleFuncArgsDelta evt st
      else if t = ''response.reasoning_summary_text.delta'' then resToChatHandleReasoningDelta evt st
      else if t = ''response.reasoning_summary_text.done'' then ([], st)
      else if t = ''response.completed'' \<or> t = ''response.incomplete'' \<or> t = ''response.failed''
        then resToChatHandleCompleted evt st
      else ([], st))"

definition FinalizeResponsesChatStream :: "ResponsesEventToChatState \<Rightarrow> chat_out" where
  "FinalizeResponsesChatStream st =
     (if rcs_Finalized st then ([], st)
      else
        (let st1 = st\<lparr>rcs_Finalized := True\<rparr>;
             finishReason = (if rcs_SawToolCall st1 then ''tool_calls'' else ''stop'')
         in (makeChatFinishChunk st1 finishReason # chatUsageChunk st1, st1)))"

definition rc_stream :: "ResponsesStreamEvent list \<Rightarrow> ResponsesEventToChatState \<Rightarrow> chat_out" where
  "rc_stream es st =
     (let (out, st1) = run_steps ResponsesEventToChatChunks es st;
          (fin, st2) = FinalizeResponsesChatStream st1
      in (out @ fin, st2))"

section \<open>The buffered accumulator\<close>

text \<open>
  A Go \<open>strings.Builder\<close> remembers where it was when it was first written, and panics when it is written
  after it was copied elsewhere. The builders of the function calls are in the elements of a slice: their
  place is told by the backing array of the slice, and \<open>append\<close> copies them when it needs a larger one.
  The runtime's choice of a new capacity is the argument \<open>grow\<close>; a panic is \<open>None\<close>. The other two
  builders are in the accumulator itself, which is used by reference.
\<close>

record strings_Builder =
  sb_addr :: "nat option"
  sb_buf :: string

definition WriteString :: "nat \<Rightarrow> string \<Rightarrow> strings_Builder \<Rightarrow> strings_Builder option" where
  "WriteString place s b =
     (if sb_addr b = None \<or> sb_addr b = Some place
      then Some (b\<lparr>sb_addr := Some place, sb_buf := sb_buf b @ s\<rparr>) else None)"

record bufferedFuncCall =
  bfc_CallID :: string
  bfc_Name :: string
  bfc_Args :: strings_Builder

record BufferedResponseAccumulator =
  bra_text :: string
  bra_reasoning :: string
  bra_funcCalls :: "bufferedFuncCall list"
  bra_array :: nat
  bra_capacity :: nat
  bra_outputIndexToFuncIdx :: "int \<rightharpoonup> nat"

definition NewBufferedResponseAccumulator :: BufferedResponseAccumulator where
  "NewBufferedResponseAccumulator =
     \<lparr>bra_text = [], bra_reasoning = [], bra_funcCalls = [], bra_array = 0, bra_capacity = 0,
      bra_outputIndexToFuncIdx = Map.empty\<rparr>"

definition append_funcCall ::
    "(nat \<Rightarrow> nat) \<Rightarrow> bufferedFuncCall \<Rightarrow> BufferedResponseAccumulator \<Rightarrow> BufferedResponseAccumulator" where
  "append_funcCall grow c a =
     (let a1 = a\<lparr>bra_funcCalls := bra_funcCalls a @ [c]\<rparr>; n = length (bra_funcCalls a1) in
      if n \<le> bra_capacity a then a1
      else a1\<lparr>bra_array := bra_array a + 1, bra_capacity := max n (grow (bra_capacity a))\<rparr>)"

definition ProcessEvent :: "(nat \<Rightarrow> nat) \<Rightarrow> ResponsesStreamEvent \<Rightarrow> BufferedResponseAccumulator \<Rightarrow>
    BufferedResponseAccumulator option" where
  "ProcessEvent grow event a =
     (let t = rse_Type event in
      if t = ''response.output_text.delta'' then
        Some (if rse_Delta event \<noteq> [] then a\<lparr>bra_text := bra_text a @ rse_Delta event\<rparr> else a)
      else if t = ''response.output_item.added'' then
        (case rse_Item event of
           None \<Rightarrow> Some a
         | Some item \<Rightarrow>
             if ro_Type item = ''function_call'' then
               (let idx = length (bra_funcCalls a) in
                Some (append_funcCall grow
                  \<lparr>bfc_CallID = ro_CallID item, bfc_Name = ro_Name item, bfc_Args = \<lparr>sb_addr = None, sb_buf = []\<rparr>\<rparr>
                  (a\<lparr>bra_outputIndexToFuncIdx :=
                     (bra_outputIndexToFuncIdx a)(rse_OutputIndex event \<mapsto> idx)\<rparr>)))
             else Some a)
      else if t = ''response.function_call_arguments.delta'' then
        (if rse_Delta event \<noteq> [] then
           (case bra_outputIndexToFuncIdx a (rse_OutputIndex event) of
              None \<Rightarrow> Some a
            | Some idx \<Rightarrow>
                if idx < length (bra_funcCalls a) then
                  (case WriteString (bra_array a) (rse_Delta event) (bfc_Args (bra_funcCalls a ! idx)) of
                     None \<Rightarrow> None
                   | Some args \<Rightarrow> Some (a\<lparr>bra_funcCalls :=
                       (bra_funcCalls a)[idx := (bra_funcCalls a ! idx)\<lparr>bfc_Args := args\<rparr>]\<rparr>))
                else None)
         else Some a)
      else if t = ''response.reasoning_summary_text.delta'' then
        Some (if rse_Delta event \<noteq> [] then a\<lparr>bra_reasoning := bra_reasoning a @ rse_Delta event\<rparr> else a)
      else Some a)"

text \<open>The loop of the handlers over the events of an answer.\<close>

fun process_events :: "(nat \<Rightarrow> nat) \<Rightarrow> ResponsesStreamEvent list \<Rightarrow> BufferedResponseAccumulator \<Rightarrow>
    BufferedResponseAccumulator option" where
  "process_events grow [] a = Some a"
| "process_events grow (e # es) a =
     (case ProcessEvent grow e a of None \<Rightarrow> None | Some a1 \<Rightarrow> process_events grow es a1)"

definition HasContent :: "BufferedResponseAccumulator \<Rightarrow> bool" where
  "HasContent a \<longleftrightarrow> length (bra_text a) > 0 \<or> length (bra_funcCalls a) > 0 \<or> length (bra_reasoning a) > 0"

definition BuildOutput :: "BufferedResponseAccumulator \<Rightarrow> ResponsesOutput list" where
  "BuildOutput a =
     (if length (bra_reasoning a) > 0 then
        [zero_ro\<lparr>ro_Type := ''reasoning'',
           ro_Summary := [\<lparr>rs_Type = ''summary_text'', rs_Text = bra_reasoning a\<rparr>]\<rparr>] else []) @
     (if length (bra_text a) > 0 then
        [zero_ro\<lparr>ro_Type := ''message'', ro_Role := ''assistant'',
           ro_Content := [zero_rcp\<lparr>rcp_Type := ''output_text'', rcp_Text := bra_text a\<rparr>]\<rparr>] else []) @
     map (\<lambda>f. zero_ro\<lparr>ro_Type := ''function_call'', ro_CallID := bfc_CallID f, ro_Name := bfc_Name f,
            ro_Arguments := sb_buf (bfc_Args f)\<rparr>) (bra_funcCalls a)"

definition SupplementResponseOutput ::
    "BufferedResponseAccumulator \<Rightarrow> ResponsesResponse option \<Rightarrow> ResponsesResponse option" where
  "SupplementResponseOutput a resp =
     (case resp of
        None \<Rightarrow> None
      | Some r \<Rightarrow>
          if rr_Output r \<noteq> [] then Some r
          else if \<not> HasContent a then Some r
          else Some (r\<lparr>rr_Output := BuildOutput a\<rparr>))"

section \<open>Finish chunks\<close>

text \<open>Chunks that finish the answer, and terminal upstream events.\<close>

definition is_finish :: "ChatCompletionsChunk \<Rightarrow> bool" where
  "is_finish c \<longleftrightarrow> (\<exists>ch \<in> set (ck_Choices c). cch_FinishReason ch \<noteq> None)"

definition is_terminal :: "ResponsesStreamEvent \<Rightarrow> bool" where
  "is_terminal e \<longleftrightarrow>
     rse_Type e \<in> {''response.completed'', ''response.incomplete'', ''response.failed''}"

abbreviation finishes :: "ChatCompletionsChunk list \<Rightarrow> nat" where
  "finishes out \<equiv> length (filter is_finish out)"

lemma is_finish_chunks [simp]:
  "\<not> is_finish (makeChatDeltaChunk st d)"
  "is_finish (makeChatFinishChunk st r)"
  by (simp_all add: is_finish_def makeChatDeltaChunk_def makeChatFinishChunk_def)

lemma finishes_usage [simp]: "filter is_finish (chatUsageChunk st) = []"
  by (simp add: chatUsageChunk_def is_finish_def)

lemma finishes_event:
  "ResponsesEventToChatChunks e st = (out, st1) \<Longrightarrow>
     finishes out = of_bool (is_terminal e) \<and> rcs_Finalized st1 = (rcs_Finalized st \<or> is_terminal e)"
  unfolding ResponsesEventToChatChunks_def Let_def is_terminal_def
  by (auto simp: resToChatHandleCreated_def resToChatHandleTextDelta_def
      resToChatHandleOutputItemAdded_def resToChatHandleFuncArgsDelta_def
      resToChatHandleReasoningDelta_def resToChatHandleCompleted_def Let_def
      split: if_splits option.splits)

interpretation rc_finish: stream_contract ResponsesEventToChatChunks "\<lambda>_. True"
    "\<lambda>st ins out st1. finishes out = length (filter is_terminal ins) \<and>
       rcs_Finalized st1 = (rcs_Finalized st \<or> filter is_terminal ins \<noteq> [])"
proof unfold_locales
  fix st e out st1
  assume "ResponsesEventToChatChunks e st = (out, st1)"
  then show "finishes out = length (filter is_terminal [e]) \<and>
      rcs_Finalized st1 = (rcs_Finalized st \<or> filter is_terminal [e] \<noteq> [])"
    by (auto dest: finishes_event)
qed auto

lemma finishes_finalize:
  "finishes (fst (FinalizeResponsesChatStream st)) = of_bool (\<not> rcs_Finalized st)"
  by (simp add: FinalizeResponsesChatStream_def Let_def)

lemma rc_stream_finishes:
  assumes "\<not> rcs_Finalized st"
  shows "finishes (fst (rc_stream es st)) = max 1 (length (filter is_terminal es))"
proof -
  obtain out st1 where r: "run_steps ResponsesEventToChatChunks es st = (out, st1)" by fastforce
  with assms rc_finish.run_rel [OF TrueI r] finishes_finalize [of st1] show ?thesis
    by (cases "filter is_terminal es") (auto simp: rc_stream_def split: prod.splits)
qed

text \<open>Finish chunks. The number of chunks with a finish reason that a Chat Completions client
  gets is the number of terminal events of the upstream, or one when it sent none: a stream with
  at most one terminal event is finished exactly once, broken streams included.\<close>

theorem responses_to_chat_finish_count:
  "finishes (fst (rc_stream es (NewResponsesEventToChatState rnd now))) =
     max 1 (length (filter is_terminal es))"
  by (rule rc_stream_finishes) (simp add: NewResponsesEventToChatState_def)

section \<open>The streamed and the buffered answer agree\<close>

text \<open>
  A client assembles its answer from the chunks: content and reasoning are appended, a tool-call
  delta whose index is known extends that call's arguments, one with a new index opens a call.
\<close>

record tool_call =
  tlc_ID :: string
  tlc_Name :: string
  tlc_Args :: string

record chat_client =
  cl_text :: string
  cl_reasoning :: string
  cl_tools :: "tool_call list"

definition cl_tool :: "ChatToolCall \<Rightarrow> tool_call list \<Rightarrow> tool_call list" where
  "cl_tool tc ts =
     (case ctc_Index tc of
        None \<Rightarrow> ts
      | Some i \<Rightarrow>
          if nat i < length ts then
            ts[nat i := (ts ! nat i)\<lparr>tlc_Args := tlc_Args (ts ! nat i) @ cfc_Arguments (ctc_Function tc)\<rparr>]
          else ts @ [\<lparr>tlc_ID = ctc_ID tc, tlc_Name = cfc_Name (ctc_Function tc),
                       tlc_Args = cfc_Arguments (ctc_Function tc)\<rparr>])"

definition cl_delta :: "ChatDelta \<Rightarrow> chat_client \<Rightarrow> chat_client" where
  "cl_delta d cl =
     \<lparr>cl_text = cl_text cl @ (case cd_Content d of Some t \<Rightarrow> t | None \<Rightarrow> []),
      cl_reasoning = cl_reasoning cl @ (case cd_ReasoningContent d of Some t \<Rightarrow> t | None \<Rightarrow> []),
      cl_tools = fold cl_tool (cd_ToolCalls d) (cl_tools cl)\<rparr>"

definition cl_chunk :: "ChatCompletionsChunk \<Rightarrow> chat_client \<Rightarrow> chat_client" where
  "cl_chunk c cl = fold (\<lambda>ch. cl_delta (cch_Delta ch)) (ck_Choices c) cl"

text \<open>What an accumulator should collect, without builders and slices.\<close>

record collected =
  co_text :: string
  co_reasoning :: string
  co_tools :: "tool_call list"
  co_index :: "int \<rightharpoonup> nat"

definition nothing_collected :: collected where
  "nothing_collected = \<lparr>co_text = [], co_reasoning = [], co_tools = [], co_index = Map.empty\<rparr>"

definition adds_call :: "ResponsesStreamEvent \<Rightarrow> bool" where
  "adds_call e \<longleftrightarrow> rse_Type e = ''response.output_item.added'' \<and>
     (case rse_Item e of None \<Rightarrow> False | Some item \<Rightarrow> ro_Type item = ''function_call'')"

definition adds_arguments :: "ResponsesStreamEvent \<Rightarrow> bool" where
  "adds_arguments e \<longleftrightarrow> rse_Type e = ''response.function_call_arguments.delta'' \<and> rse_Delta e \<noteq> []"

definition absorb :: "ResponsesStreamEvent \<Rightarrow> collected \<Rightarrow> collected" where
  "absorb e a =
     (if rse_Type e = ''response.output_text.delta'' then a\<lparr>co_text := co_text a @ rse_Delta e\<rparr>
      else if rse_Type e = ''response.reasoning_summary_text.delta'' then a\<lparr>co_reasoning := co_reasoning a @ rse_Delta e\<rparr>
      else if adds_call e then
        a\<lparr>co_index := (co_index a)(rse_OutputIndex e \<mapsto> length (co_tools a)),
          co_tools := co_tools a @ [\<lparr>tlc_ID = ro_CallID (the (rse_Item e)), tlc_Name = ro_Name (the (rse_Item e)), tlc_Args = []\<rparr>]\<rparr>
      else if adds_arguments e then
        (case co_index a (rse_OutputIndex e) of None \<Rightarrow> a
         | Some i \<Rightarrow> a\<lparr>co_tools := (co_tools a)[i := (co_tools a ! i)\<lparr>tlc_Args := tlc_Args (co_tools a ! i) @ rse_Delta e\<rparr>]\<rparr>)
      else a)"

lemmas absorb_defs = absorb_def adds_call_def adds_arguments_def

definition acc_client :: "collected \<Rightarrow> chat_client" where
  "acc_client a = \<lparr>cl_text = co_text a, cl_reasoning = co_reasoning a, cl_tools = co_tools a\<rparr>"

text \<open>Stream converter and collected answer side by side, and the agreement of their index maps.\<close>

definition both_step :: "ResponsesStreamEvent \<Rightarrow>
    ResponsesEventToChatState \<times> collected \<Rightarrow>
    ChatCompletionsChunk list \<times> (ResponsesEventToChatState \<times> collected)" where
  "both_step e sa =
     (case sa of (st, a) \<Rightarrow>
        (case ResponsesEventToChatChunks e st of (out, st1) \<Rightarrow> (out, (st1, absorb e a))))"

definition acc_ok :: "collected \<Rightarrow> bool" where
  "acc_ok a \<longleftrightarrow> (\<forall>oi i. co_index a oi = Some i \<longrightarrow> i < length (co_tools a))"

definition both_inv :: "ResponsesEventToChatState \<times> collected \<Rightarrow> bool" where
  "both_inv sa \<longleftrightarrow> acc_ok (snd sa) \<and>
     rcs_NextToolCallIndex (fst sa) = int (length (co_tools (snd sa))) \<and>
     (\<forall>oi. rcs_OutputIndexToToolIndex (fst sa) oi =
             map_option int (co_index (snd sa) oi))"

lemma cl_chunk_delta [simp]: "cl_chunk (makeChatDeltaChunk st d) cl = cl_delta d cl"
  by (simp add: cl_chunk_def makeChatDeltaChunk_def)

lemma cl_chunk_finish [simp]: "cl_chunk (makeChatFinishChunk st r) cl = cl"
  by (simp add: cl_chunk_def makeChatFinishChunk_def cl_delta_def zero_cd_def)

lemma cl_chunk_usage [simp]: "fold cl_chunk (chatUsageChunk st) cl = cl"
  by (simp add: chatUsageChunk_def cl_chunk_def)

lemma both_created:
  assumes "resToChatHandleCreated e st = (out, st1)"
  shows "fold cl_chunk out cl = cl" "both_inv (st1, a) = both_inv (st, a)"
  using assms by (auto simp: resToChatHandleCreated_def Let_def cl_delta_def zero_cd_def both_inv_def
      split: if_splits option.splits)

lemma both_completed:
  assumes "resToChatHandleCompleted e st = (out, st1)"
  shows "fold cl_chunk out cl = cl" "both_inv (st1, a) = both_inv (st, a)"
  using assms by (auto simp: resToChatHandleCompleted_def Let_def both_inv_def split: option.splits)

lemma both_event:
  assumes inv: "both_inv (st, a)" and e: "ResponsesEventToChatChunks e st = (out, st1)"
  shows "fold cl_chunk out (acc_client a) = acc_client (absorb e a) \<and>
         both_inv (st1, absorb e a)"
proof -
  let ?t = "rse_Type e"
  consider "?t = ''response.created''" | "?t = ''response.output_text.delta''"
    | "?t = ''response.output_item.added''" | "?t = ''response.function_call_arguments.delta''"
    | "?t = ''response.reasoning_summary_text.delta''" | "is_terminal e"
    | "?t \<notin> {''response.created'', ''response.output_text.delta'', ''response.output_item.added'',
        ''response.function_call_arguments.delta'', ''response.reasoning_summary_text.delta''}"
      "\<not> is_terminal e"
    by blast
  then show ?thesis
  proof cases
    case 1
    with e inv both_created [of e st out st1] show ?thesis
      by (simp add: ResponsesEventToChatChunks_def absorb_defs)
  next
    case 2
    with e inv show ?thesis
      by (auto simp: ResponsesEventToChatChunks_def absorb_defs resToChatHandleTextDelta_def
          Let_def acc_client_def cl_delta_def zero_cd_def both_inv_def acc_ok_def split: if_splits)
  next
    case 3
    with e inv show ?thesis
      by (auto simp: ResponsesEventToChatChunks_def absorb_defs
          resToChatHandleOutputItemAdded_def Let_def acc_client_def cl_delta_def cl_tool_def
          zero_cd_def both_inv_def acc_ok_def less_Suc_eq split: option.splits if_splits)
  next
    case 4
    with e inv show ?thesis
      by (auto simp: ResponsesEventToChatChunks_def absorb_defs
          resToChatHandleFuncArgsDelta_def Let_def acc_client_def cl_delta_def cl_tool_def
          zero_cd_def both_inv_def acc_ok_def split: option.splits if_splits)
  next
    case 5
    with e inv show ?thesis
      by (auto simp: ResponsesEventToChatChunks_def absorb_defs
          resToChatHandleReasoningDelta_def Let_def acc_client_def cl_delta_def zero_cd_def
          both_inv_def acc_ok_def split: if_splits)
  next
    case 6
    then have "ResponsesEventToChatChunks e st = resToChatHandleCompleted e st"
      "absorb e a = a"
      by (auto simp: is_terminal_def ResponsesEventToChatChunks_def absorb_defs)
    with e inv both_completed [of e st out st1] show ?thesis by simp
  next
    case 7
    with e inv show ?thesis
      by (auto simp: is_terminal_def ResponsesEventToChatChunks_def absorb_defs Let_def
          split: if_splits)
  qed
qed

interpretation rc_both: stream_contract both_step both_inv
    "\<lambda>sa ins out sa1. fold cl_chunk out (acc_client (snd sa)) = acc_client (snd sa1)"
proof unfold_locales
  fix sa e out sa1
  assume inv: "both_inv sa" and e: "both_step e sa = (out, sa1)"
  obtain st a where sa: "sa = (st, a)" by fastforce
  obtain out' st1 where s: "ResponsesEventToChatChunks e st = (out', st1)" by fastforce
  from e sa s have "out = out'" "sa1 = (st1, absorb e a)" by (simp_all add: both_step_def)
  with both_event [of st a e out' st1] inv sa s
  show "fold cl_chunk out (acc_client (snd sa)) = acc_client (snd sa1)" and "both_inv sa1"
    by simp_all
qed simp_all

lemma run_both:
  "run_steps both_step es (st, a) =
     (case run_steps ResponsesEventToChatChunks es st of
        (out, st1) \<Rightarrow> (out, (st1, fold absorb es a)))"
  by (induction es arbitrary: st a) (auto simp: both_step_def Let_def split: prod.splits)

lemma both_inv_new:
  "both_inv (NewResponsesEventToChatState rnd now, nothing_collected)"
  by (simp add: both_inv_def acc_ok_def NewResponsesEventToChatState_def
      nothing_collected_def)

lemma rc_stream_client:
  assumes inv: "both_inv (st, a)"
  shows "fold cl_chunk (fst (rc_stream es st)) (acc_client a) = acc_client (fold absorb es a)"
proof -
  obtain out st1 where r: "run_steps ResponsesEventToChatChunks es st = (out, st1)" by fastforce
  then have "run_steps both_step es (st, a) = (out, (st1, fold absorb es a))"
    by (simp add: run_both)
  from rc_both.run_rel [OF inv this]
  have "fold cl_chunk out (acc_client a) = acc_client (fold absorb es a)" by simp
  moreover have "fold cl_chunk (fst (FinalizeResponsesChatStream st1)) cl = cl" for cl
    by (simp add: FinalizeResponsesChatStream_def Let_def)
  ultimately show ?thesis
    using r by (cases "FinalizeResponsesChatStream st1") (simp add: rc_stream_def)
qed

abbreviation no_answer :: chat_client where
  "no_answer \<equiv> \<lparr>cl_text = [], cl_reasoning = [], cl_tools = []\<rparr>"

lemma acc_client_new: "acc_client nothing_collected = no_answer"
  by (simp add: acc_client_def nothing_collected_def)

section \<open>The accumulator collects the answer\<close>

definition tool_of :: "bufferedFuncCall \<Rightarrow> tool_call" where
  "tool_of f = \<lparr>tlc_ID = bfc_CallID f, tlc_Name = bfc_Name f, tlc_Args = sb_buf (bfc_Args f)\<rparr>"

definition collected_of :: "BufferedResponseAccumulator \<Rightarrow> collected" where
  "collected_of a = \<lparr>co_text = bra_text a, co_reasoning = bra_reasoning a, co_tools = map tool_of (bra_funcCalls a),
     co_index = bra_outputIndexToFuncIdx a\<rparr>"

lemma collected_of_new: "collected_of NewBufferedResponseAccumulator = nothing_collected"
  by (simp add: collected_of_def NewBufferedResponseAccumulator_def nothing_collected_def)

lemma append_funcCall_sel [simp]:
  "bra_funcCalls (append_funcCall grow c a) = bra_funcCalls a @ [c]"
  "bra_text (append_funcCall grow c a) = bra_text a" "bra_reasoning (append_funcCall grow c a) = bra_reasoning a"
  "bra_outputIndexToFuncIdx (append_funcCall grow c a) = bra_outputIndexToFuncIdx a"
  by (simp_all add: append_funcCall_def Let_def)

lemma WriteString_Some: "WriteString place s b = Some c \<Longrightarrow> sb_buf c = sb_buf b @ s"
  by (auto simp: WriteString_def split: if_splits)

text \<open>An event that does not panic is absorbed.\<close>

lemma process_absorbs:
  assumes "ProcessEvent grow e a = Some b"
  shows "collected_of b = absorb e (collected_of a)"
  using assms by (auto simp: ProcessEvent_def absorb_defs collected_of_def tool_of_def map_update Let_def
      split: if_splits option.splits dest: WriteString_Some)

lemma process_events_absorb:
  "process_events grow es a = Some b \<Longrightarrow> collected_of b = fold absorb es (collected_of a)"
  by (induction es arbitrary: a) (auto split: option.splits simp: process_absorbs)

text \<open>
  The arguments of a call come before the next call: \<open>os\<close> are the output indices of the calls added so far,
  the last one first.
\<close>

fun in_turn :: "int list \<Rightarrow> ResponsesStreamEvent list \<Rightarrow> bool" where
  "in_turn os [] \<longleftrightarrow> True"
| "in_turn os (e # es) \<longleftrightarrow>
     (if adds_call e then in_turn (rse_OutputIndex e # os) es
      else (adds_arguments e \<and> rse_OutputIndex e \<in> set os \<longrightarrow> rse_OutputIndex e = hd os) \<and> in_turn os es)"

text \<open>The builder of the last call was not copied since it was written.\<close>

definition writable :: "int list \<Rightarrow> BufferedResponseAccumulator \<Rightarrow> bool" where
  "writable os a \<longleftrightarrow> dom (bra_outputIndexToFuncIdx a) = set os \<and>
     (os \<noteq> [] \<longrightarrow> bra_funcCalls a \<noteq> [] \<and> bra_outputIndexToFuncIdx a (hd os) = Some (length (bra_funcCalls a) - 1) \<and>
        sb_addr (bfc_Args (last (bra_funcCalls a))) \<in> {None, Some (bra_array a)})"

lemma process_in_turn:
  assumes "writable os a" "in_turn os (e # es)"
  shows "\<exists>b. ProcessEvent grow e a = Some b \<and> (if adds_call e then writable (rse_OutputIndex e # os) b else writable os b)"
proof (cases "adds_call e")
  case True
  then show ?thesis using assms(1) by (auto simp: adds_call_def ProcessEvent_def writable_def Let_def split: option.splits)
next
  case other: False
  show ?thesis
  proof (cases "adds_arguments e \<and> rse_OutputIndex e \<in> set os")
    case True
    then have "rse_OutputIndex e = hd os" "os \<noteq> []" using assms(2) other by auto
    then show ?thesis using assms(1) other True
      by (auto simp: adds_arguments_def ProcessEvent_def writable_def WriteString_def last_conv_nth Let_def)
  next
    case False
    then have "\<exists>b. ProcessEvent grow e a = Some b \<and> bra_funcCalls b = bra_funcCalls a \<and> bra_array b = bra_array a \<and>
        bra_outputIndexToFuncIdx b = bra_outputIndexToFuncIdx a"
      using assms(1) other by (auto simp: adds_call_def adds_arguments_def ProcessEvent_def writable_def Let_def
          split: option.splits)
    then show ?thesis using assms(1) other by (auto simp: writable_def)
  qed
qed

lemma process_events_in_turn:
  "writable os a \<Longrightarrow> in_turn os es \<Longrightarrow> process_events grow es a \<noteq> None"
proof (induction es arbitrary: os a)
  case (Cons e es)
  from process_in_turn [OF Cons.prems, of grow] Cons.prems(2) Cons.IH show ?case
    by (auto split: if_splits)
qed simp

lemma new_writable: "writable [] NewBufferedResponseAccumulator"
  by (simp add: writable_def NewBufferedResponseAccumulator_def)

lemma build_output_content:
  "chatContentText (BuildOutput a) = bra_text a"
  "chatReasoningText (BuildOutput a) = bra_reasoning a"
  "chatToolCalls (BuildOutput a) = map (\<lambda>f. \<lparr>ctc_Index = None, ctc_ID = bfc_CallID f,
     ctc_Type = ''function'', ctc_Function = \<lparr>cfc_Name = bfc_Name f, cfc_Arguments = sb_buf (bfc_Args f)\<rparr>\<rparr>)
     (bra_funcCalls a)"
  by (auto simp: chatContentText_def chatReasoningText_def chatToolCalls_def BuildOutput_def
      zero_ro_def zero_rcp_def filter_map comp_def)

text \<open>What a client of the whole answer gets from an output: its text, its reasoning and its tool calls.\<close>

definition output_client :: "ResponsesOutput list \<Rightarrow> chat_client" where
  "output_client out = \<lparr>cl_text = chatContentText out, cl_reasoning = chatReasoningText out,
     cl_tools = map (\<lambda>tc. \<lparr>tlc_ID = ctc_ID tc, tlc_Name = cfc_Name (ctc_Function tc), tlc_Args = cfc_Arguments (ctc_Function tc)\<rparr>)
       (chatToolCalls out)\<rparr>"

lemma output_client_built: "output_client (BuildOutput a) = acc_client (collected_of a)"
  by (simp add: output_client_def build_output_content acc_client_def collected_of_def tool_of_def comp_def)

text \<open>(C36) Streamed and buffered answers agree. When the accumulator takes all events of a stream, then what a
  client assembles from the streamed chunks (text, reasoning, and every tool call with its name and its
  arguments) is exactly what the output that the accumulator builds says. It panics for no stream
  in which the arguments of a call come before the next call, however the runtime chooses the
  capacities of the slice of calls; only on arguments that come for an earlier call may it panic.\<close>

theorem chat_stream_equals_buffer:
  "case process_events grow es NewBufferedResponseAccumulator of
     None \<Rightarrow> \<not> in_turn [] es
   | Some a \<Rightarrow> fold cl_chunk (fst (rc_stream es (NewResponsesEventToChatState rnd now)))
       \<lparr>cl_text = [], cl_reasoning = [], cl_tools = []\<rparr> = output_client (BuildOutput a)"
proof (cases "process_events grow es NewBufferedResponseAccumulator")
  case None
  then show ?thesis using process_events_in_turn [OF new_writable, of es grow] by auto
next
  case (Some a)
  then show ?thesis using rc_stream_client [OF both_inv_new [of rnd now], of es] process_events_absorb [OF Some]
    by (simp add: output_client_built acc_client_new collected_of_new)
qed

text \<open>
  Arguments that come for an earlier call: the second call makes the slice grow, which copies the builder of
  the first, and its next arguments panic. The stream converter has no such limit.
\<close>

definition call_added :: "int \<Rightarrow> ResponsesStreamEvent" where
  "call_added i = zero_rse\<lparr>rse_Type := ''response.output_item.added'', rse_OutputIndex := i,
     rse_Item := Some (zero_ro\<lparr>ro_Type := ''function_call''\<rparr>)\<rparr>"

definition call_arguments :: "int \<Rightarrow> string \<Rightarrow> ResponsesStreamEvent" where
  "call_arguments i s = zero_rse\<lparr>rse_Type := ''response.function_call_arguments.delta'', rse_OutputIndex := i, rse_Delta := s\<rparr>"

theorem interleaved_arguments_panic:
  assumes "grow 0 \<le> 1" "p \<noteq> []" "q \<noteq> []"
  shows "process_events grow [call_added 0, call_arguments 0 p, call_added 1, call_arguments 0 q]
    NewBufferedResponseAccumulator = None"
  using assms by (simp add: call_added_def call_arguments_def ProcessEvent_def append_funcCall_def WriteString_def
      NewBufferedResponseAccumulator_def zero_ro_def zero_rse_def Let_def)

theorem interleaved_arguments_panic_witness:
  "process_events (\<lambda>n. 2 * n) [call_added 0, call_arguments 0 ''{'', call_added 1, call_arguments 0 ''}'']
    NewBufferedResponseAccumulator = None"
  by (rule interleaved_arguments_panic) simp_all

text \<open>The non-streaming answer built from deltas. When the terminal event carries no output, the
  Chat Completions message made of the supplemented response holds the accumulated text (as a
  JSON string), reasoning and tool calls; a response that already has output is left alone.\<close>

theorem supplemented_chat_message:
  assumes "HasContent a"
    and "SupplementResponseOutput a (Some r) = Some r'"
  shows "(rr_Output r \<noteq> [] \<longrightarrow> r' = r) \<and>
    (rr_Output r = [] \<longrightarrow>
      cc_Message (hd (ccr_Choices (ResponsesToChatCompletions rnd now r' model))) =
        zero_cm\<lparr>cm_Role := ''assistant'',
          cm_Content := (if bra_text a \<noteq> [] then json_string (bra_text a) else []),
          cm_ReasoningContent := bra_reasoning a,
          cm_ToolCalls := chatToolCalls (BuildOutput a)\<rparr>)"
  using assms
  by (auto simp: SupplementResponseOutput_def ResponsesToChatCompletions_def build_output_content
      Let_def split: if_splits)

theorem supplemented_chat_message_witness:
  "cc_Message (hd (ccr_Choices (ResponsesToChatCompletions [] 0
      (zero_rr\<lparr>rr_Output := BuildOutput (NewBufferedResponseAccumulator\<lparr>bra_text := ''hi''\<rparr>)\<rparr>) ''m''))) =
   zero_cm\<lparr>cm_Role := ''assistant'', cm_Content := json_string ''hi''\<rparr>"
proof -
  let ?a = "NewBufferedResponseAccumulator\<lparr>bra_text := ''hi''\<rparr>"
  have "HasContent ?a" by (simp add: HasContent_def)
  moreover from this have "SupplementResponseOutput ?a (Some zero_rr) =
      Some (zero_rr\<lparr>rr_Output := BuildOutput ?a\<rparr>)"
    by (simp add: SupplementResponseOutput_def zero_rr_def)
  ultimately show ?thesis
    using supplemented_chat_message [of ?a zero_rr "zero_rr\<lparr>rr_Output := BuildOutput ?a\<rparr>" "[]" 0 "''m''"]
    by (simp add: zero_rr_def zero_cm_def NewBufferedResponseAccumulator_def build_output_content)
qed

end
