(* ===== verification/AnthToChat.thy ===== *)
theory AnthToChat
  imports AnthToResponses ResToChat Complex_Main
begin

text \<open>
  An Anthropic upstream behind the Chat Completions endpoint:
  \<open>backend/internal/service/gateway_forward_as_chat_completions.go\<close>, with \<open>mergeAnthropicUsage\<close> and
  \<open>appendRawJSON\<close> of \<open>gateway_forward_as_responses.go\<close> and the cache inflation of \<open>group.go\<close>.

  The streaming handler feeds every Anthropic event through the two stream converters of the
  earlier theories; the buffered handler assembles one Anthropic response and converts that. Both
  read the lines of the upstream body; \<open>encoding/json\<close> is the parameter \<open>dec\<close>. The client's
  connection is the parameter \<open>w\<close>: the number of chunks it still accepts, \<open>None\<close> when it stays.
  Headers, flushing, timing and logging have no counterpart.
\<close>

section \<open>Reading the upstream body\<close>

text \<open>The payloads of an SSE body: an \<open>event:\<close> line followed by a \<open>data:\<close> line.\<close>

fun sse_payloads :: "string list \<Rightarrow> string list" where
  "sse_payloads [] = []"
| "sse_payloads [line] = []"
| "sse_payloads (line # dataLine # rest) =
     (if \<not> HasPrefix line ''event: '' then sse_payloads (dataLine # rest)
      else if \<not> HasPrefix dataLine ''data: '' then sse_payloads rest
      else drop 6 dataLine # sse_payloads rest)"

definition sse_events :: "(string \<Rightarrow> AnthropicStreamEvent option) \<Rightarrow> string list \<Rightarrow> AnthropicStreamEvent list" where
  "sse_events dec body = List.map_filter dec (sse_payloads body)"

section \<open>Usage\<close>

record ClaudeUsage =
  us_InputTokens :: int
  us_OutputTokens :: int
  us_CacheCreationInputTokens :: int
  us_CacheReadInputTokens :: int
  us_CacheCreation5mTokens :: int
  us_CacheCreation1hTokens :: int
  us_ImageOutputTokens :: int
  us_OriginalCacheCreationInputTokens :: int

definition zero_us :: ClaudeUsage where
  "zero_us = \<lparr>us_InputTokens = 0, us_OutputTokens = 0, us_CacheCreationInputTokens = 0,
     us_CacheReadInputTokens = 0,
     us_CacheCreation5mTokens = 0, us_CacheCreation1hTokens = 0, us_ImageOutputTokens = 0,
     us_OriginalCacheCreationInputTokens = 0\<rparr>"

definition mergeAnthropicUsage :: "AnthropicUsage \<Rightarrow> ClaudeUsage \<Rightarrow> ClaudeUsage" where
  "mergeAnthropicUsage src dst =
     dst\<lparr>us_InputTokens := (if au_InputTokens src > 0 then au_InputTokens src else us_InputTokens dst),
       us_OutputTokens := (if au_OutputTokens src > 0 then au_OutputTokens src else us_OutputTokens dst),
       us_CacheReadInputTokens := (if au_CacheReadInputTokens src > 0 then au_CacheReadInputTokens src
                                   else us_CacheReadInputTokens dst),
       us_CacheCreationInputTokens := (if au_CacheCreationInputTokens src > 0
         then au_CacheCreationInputTokens src else us_CacheCreationInputTokens dst)\<rparr>"

record Group =
  gr_Platform :: string
  gr_CacheCreationInflatePercent :: rat
  gr_CacheCreationInflateFixed :: rat

definition InflateCacheCreationTokens :: "Group option \<Rightarrow> int \<Rightarrow> int" where
  "InflateCacheCreationTokens g original =
     (case g of
        None \<Rightarrow> original
      | Some g \<Rightarrow>
          if gr_Platform g \<noteq> ''anthropic'' \<or>
             (gr_CacheCreationInflatePercent g = 0 \<and> gr_CacheCreationInflateFixed g = 0) then original
          else if original = 0 \<and> gr_CacheCreationInflateFixed g = 0 then 0
          else
            (let result = of_int original * (1 + gr_CacheCreationInflatePercent g / 100) +
                   gr_CacheCreationInflateFixed g
             in if result < 0 then 0 else \<lfloor>result\<rfloor>))"

definition inflate_usage :: "Group option \<Rightarrow> ClaudeUsage \<Rightarrow> ClaudeUsage" where
  "inflate_usage g u =
     (case g of
        None \<Rightarrow> u
      | Some _ \<Rightarrow>
          (let original = us_CacheCreationInputTokens u;
               u1 = u\<lparr>us_CacheCreationInputTokens := InflateCacheCreationTokens g original\<rparr>
           in if us_CacheCreationInputTokens u1 \<noteq> original
              then u1\<lparr>us_OriginalCacheCreationInputTokens := original\<rparr> else u1))"

text \<open>The usage an event carries, the same in both handlers.\<close>

definition event_usage :: "AnthropicStreamEvent \<Rightarrow> ClaudeUsage \<Rightarrow> ClaudeUsage" where
  "event_usage e u =
     (let u1 = (if ase_Type e = ''message_delta'' then
                  (case ase_Usage e of None \<Rightarrow> u | Some x \<Rightarrow> mergeAnthropicUsage x u) else u)
      in if ase_Type e = ''message_start'' then
           (case ase_Message e of None \<Rightarrow> u1 | Some m \<Rightarrow> mergeAnthropicUsage (ar_Usage m) u1) else u1)"

section \<open>The streaming handler\<close>

type_synonym chain = "AnthropicEventToResponsesState \<times> ResponsesEventToChatState"

text \<open>One event through both converters.\<close>

definition chain_step :: "(nat \<Rightarrow> string) \<Rightarrow> AnthropicStreamEvent \<Rightarrow> chain \<Rightarrow>
    ChatCompletionsChunk list \<times> chain" where
  "chain_step rnd e st =
     (let (responsesEvents, anth) = AnthropicEventToResponsesEvents rnd e (fst st);
          (ccChunks, cc) = run_steps ResponsesEventToChatChunks responsesEvents (snd st)
      in (ccChunks, (anth, cc)))"

definition chain_finish :: "chain \<Rightarrow> ChatCompletionsChunk list" where
  "chain_finish st =
     (let (finalResEvents, anth) = FinalizeAnthropicResponsesStream (fst st);
          (ccChunks, cc) = run_steps ResponsesEventToChatChunks finalResEvents (snd st);
          (finalCCChunks, _) = FinalizeResponsesChatStream cc
      in ccChunks @ finalCCChunks)"

record stream_result =
  sr_chunks :: "ChatCompletionsChunk list"
  sr_done :: bool
  sr_usage :: ClaudeUsage

text \<open>The loop: it returns when a write fails, and finalizes both converters when the body ends. A
  client that goes away during the finalization still lets the handler finish.\<close>

fun stream_loop :: "(nat \<Rightarrow> string) \<Rightarrow> Group option \<Rightarrow> AnthropicStreamEvent list \<Rightarrow> nat option \<Rightarrow>
    chain \<Rightarrow> ClaudeUsage \<Rightarrow> stream_result" where
  "stream_loop rnd g [] w st u =
     (let chunks = chain_finish st in
      \<lparr>sr_chunks = (case w of None \<Rightarrow> chunks | Some n \<Rightarrow> take n chunks), sr_done = True,
       sr_usage = inflate_usage g u\<rparr>)"
| "stream_loop rnd g (e # es) w st u =
     (let u1 = event_usage e u; (chunks, st1) = chain_step rnd e st in
      case w of
        None \<Rightarrow>
          (let r = stream_loop rnd g es None st1 u1 in r\<lparr>sr_chunks := chunks @ sr_chunks r\<rparr>)
      | Some n \<Rightarrow>
          if n < length chunks then \<lparr>sr_chunks = take n chunks, sr_done = False, sr_usage = u1\<rparr>
          else (let r = stream_loop rnd g es (Some (n - length chunks)) st1 u1
                in r\<lparr>sr_chunks := chunks @ sr_chunks r\<rparr>))"

definition new_chain :: "string \<Rightarrow> gotime \<Rightarrow> string \<Rightarrow> bool \<Rightarrow> chain" where
  "new_chain cid now originalModel includeUsage =
     ((NewAnthropicEventToResponsesState now)\<lparr>ars_Model := originalModel\<rparr>,
      (NewResponsesEventToChatState cid now)\<lparr>rcs_Model := originalModel, rcs_IncludeUsage := includeUsage\<rparr>)"

definition handleCCStreamingFromAnthropic :: "(string \<Rightarrow> AnthropicStreamEvent option) \<Rightarrow> (nat \<Rightarrow> string) \<Rightarrow>
    string \<Rightarrow> gotime \<Rightarrow> string \<Rightarrow> bool \<Rightarrow> Group option \<Rightarrow> nat option \<Rightarrow> string list \<Rightarrow> stream_result" where
  "handleCCStreamingFromAnthropic dec rnd cid now originalModel includeUsage g w body =
     stream_loop rnd g (sse_events dec body) w (new_chain cid now originalModel includeUsage) zero_us"

section \<open>The buffered handler\<close>

definition appendRawJSON :: "string \<Rightarrow> string \<Rightarrow> string" where
  "appendRawJSON existing fragment = (if existing = [] then fragment else existing @ fragment)"

text \<open>One event of the assembling loop; \<open>None\<close> when it panics, at a negative block index.\<close>

definition add_delta :: "AnthropicDelta \<Rightarrow> AnthropicContentBlock \<Rightarrow> AnthropicContentBlock" where
  "add_delta d b =
     (if ad_Type d = ''text_delta'' then b\<lparr>acb_Text := acb_Text b @ ad_Text d\<rparr>
      else if ad_Type d = ''thinking_delta'' then b\<lparr>acb_Thinking := acb_Thinking b @ ad_Thinking d\<rparr>
      else if ad_Type d = ''input_json_delta'' then
        b\<lparr>acb_Input := appendRawJSON (acb_Input b) (ad_PartialJSON d)\<rparr>
      else b)"

definition touches_block :: "AnthropicDelta \<Rightarrow> bool" where
  "touches_block d \<longleftrightarrow> ad_Type d \<in> {''text_delta'', ''thinking_delta'', ''input_json_delta''}"

definition assemble_event :: "AnthropicStreamEvent \<Rightarrow> AnthropicResponse option \<Rightarrow> AnthropicResponse option option" where
  "assemble_event e finalResp =
     (let r1 = (if ase_Type e = ''message_start'' \<and> ase_Message e \<noteq> None then ase_Message e else finalResp);
          r2 = (if ase_Type e = ''message_delta'' then
                  (case (ase_Delta e, r1) of
                     (Some d, Some r) \<Rightarrow> if ad_StopReason d \<noteq> [] then Some (r\<lparr>ar_StopReason := ad_StopReason d\<rparr>)
                                         else r1
                   | _ \<Rightarrow> r1)
                else r1);
          r3 = (if ase_Type e = ''content_block_start'' then
                  (case (ase_ContentBlock e, r2) of
                     (Some b, Some r) \<Rightarrow> Some (r\<lparr>ar_Content := ar_Content r @ [b]\<rparr>)
                   | _ \<Rightarrow> r2)
                else r2)
      in if ase_Type e = ''content_block_delta'' then
           (case (ase_Delta e, r3, ase_Index e) of
              (Some d, Some r, Some idx) \<Rightarrow>
                if idx < int (length (ar_Content r)) \<and> touches_block d then
                  (if idx < 0 then None
                   else Some (Some (r\<lparr>ar_Content :=
                          (ar_Content r)[nat idx := add_delta d (ar_Content r ! nat idx)]\<rparr>)))
                else Some r3
            | _ \<Rightarrow> Some r3)
         else Some r3)"

fun assemble :: "AnthropicStreamEvent list \<Rightarrow> AnthropicResponse option \<Rightarrow> ClaudeUsage \<Rightarrow>
    (AnthropicResponse option \<times> ClaudeUsage) option" where
  "assemble [] r u = Some (r, u)"
| "assemble (e # es) r u =
     (case assemble_event e r of
        None \<Rightarrow> None
      | Some r1 \<Rightarrow> assemble es r1 (event_usage e u))"

datatype buffered_result =
    BufferedPanic
  | BufferedNoResponse
  | BufferedOk ChatCompletionsResponse ClaudeUsage

definition handleCCBufferedFromAnthropic :: "(string \<Rightarrow> AnthropicStreamEvent option) \<Rightarrow> (nat \<Rightarrow> string) \<Rightarrow>
    string \<Rightarrow> gotime \<Rightarrow> string \<Rightarrow> Group option \<Rightarrow> string list \<Rightarrow> buffered_result" where
  "handleCCBufferedFromAnthropic dec rnd cid now originalModel g body =
     (case assemble (sse_events dec body) None zero_us of
        None \<Rightarrow> BufferedPanic
      | Some (None, usage) \<Rightarrow> BufferedNoResponse
      | Some (Some finalResp, usage0) \<Rightarrow>
          (let usage = inflate_usage g usage0;
               finalResp = (if us_InputTokens usage > 0 \<or> us_OutputTokens usage > 0 then
                  finalResp\<lparr>ar_Usage := \<lparr>au_InputTokens = us_InputTokens usage,
                    au_OutputTokens = us_OutputTokens usage,
                    au_CacheCreationInputTokens = us_CacheCreationInputTokens usage,
                    au_CacheReadInputTokens = us_CacheReadInputTokens usage\<rparr>\<rparr> else finalResp);
               responsesResp = AnthropicToResponsesResponse rnd finalResp
           in BufferedOk (ResponsesToChatCompletions cid now responsesResp originalModel) usage))"

section \<open>The two converters as one\<close>

lemma chain_run:
  "run_steps (chain_step rnd) es (a, c) =
     (case run_steps (AnthropicEventToResponsesEvents rnd) es a of (mid, a1) \<Rightarrow>
        (case run_steps ResponsesEventToChatChunks mid c of (out, c1) \<Rightarrow> (out, (a1, c1))))"
  by (induction es arbitrary: a c)
     (auto simp: chain_step_def Let_def run_steps_append split: prod.splits)

lemma stream_loop_chunks:
  "sr_chunks (stream_loop rnd g es None st u) =
     (case run_steps (chain_step rnd) es st of (out, st1) \<Rightarrow> out @ chain_finish st1)"
  by (induction es arbitrary: st u) (auto simp: Let_def split: prod.splits)

text \<open>The chunks of a stream are those of the Responses-to-Chat converter on the events of the
  Anthropic-to-Responses converter.\<close>

lemma stream_is_composition:
  "sr_chunks (stream_loop rnd g es None (a, c) u) = fst (rc_stream (fst (ar_stream rnd es a)) c)"
  by (auto simp: stream_loop_chunks chain_run chain_finish_def rc_stream_def ar_stream_def
      run_steps_append Let_def split: prod.splits)

text \<open>A client that goes away has received a prefix of the full stream.\<close>

lemma stream_loop_prefix:
  "sr_chunks (stream_loop rnd g es (Some n) st u) = take n (sr_chunks (stream_loop rnd g es None st u))"
  by (induction es arbitrary: n st u) (auto simp: Let_def split: prod.splits)

text \<open>What the client of a stream assembles.\<close>

definition streamed_answer :: "ChatCompletionsChunk list \<Rightarrow> chat_client" where
  "streamed_answer chunks = fold cl_chunk chunks no_answer"

lemma both_inv_new_chain: "both_inv (snd (new_chain cid now m iu), nothing_collected)"
  by (simp add: new_chain_def both_inv_def acc_ok_def NewResponsesEventToChatState_def
      nothing_collected_def)

lemma streamed_answer_chain:
  "streamed_answer (sr_chunks (handleCCStreamingFromAnthropic dec rnd cid now m iu g None body)) =
     acc_client (fold absorb
       (fst (ar_stream rnd (sse_events dec body) (fst (new_chain cid now m iu))))
       nothing_collected)"
  using stream_is_composition [of rnd g "sse_events dec body" "fst (new_chain cid now m iu)"
      "snd (new_chain cid now m iu)" zero_us]
    rc_stream_client [OF both_inv_new_chain [of cid now m iu]]
  by (simp add: handleCCStreamingFromAnthropic_def streamed_answer_def acc_client_new)

lemma process_text: "co_text (absorb e a) = co_text a @ out_text [e]"
  by (auto simp: absorb_defs Let_def split: option.split)

lemma process_all_text: "co_text (fold absorb es a) = co_text a @ out_text es"
  by (induction es arbitrary: a) (auto simp: process_text)

section \<open>The streamed answer\<close>

text \<open>(C35) End to end text. Whatever lines the Anthropic upstream sends, the text a Chat Completions
  client assembles from the chunks is the concatenation of the text deltas of the decoded events,
  and a client that goes away after n chunks has received exactly the first n of them.\<close>

theorem cc_stream_text:
  "cl_text (streamed_answer
      (sr_chunks (handleCCStreamingFromAnthropic dec rnd cid now m iu g None body))) =
     ase_text (sse_events dec body) \<and>
   sr_chunks (handleCCStreamingFromAnthropic dec rnd cid now m iu g (Some n) body) =
     take n (sr_chunks (handleCCStreamingFromAnthropic dec rnd cid now m iu g None body))"
proof -
  have "cl_text (streamed_answer
      (sr_chunks (handleCCStreamingFromAnthropic dec rnd cid now m iu g None body))) =
     ase_text (sse_events dec body)"
    by (simp add: streamed_answer_chain acc_client_def process_all_text ar_stream_text
        nothing_collected_def)
  moreover have "sr_chunks (handleCCStreamingFromAnthropic dec rnd cid now m iu g (Some n) body) =
     take n (sr_chunks (handleCCStreamingFromAnthropic dec rnd cid now m iu g None body))"
    by (simp only: handleCCStreamingFromAnthropic_def stream_loop_prefix)
  ultimately show ?thesis by (rule conjI)
qed

text \<open>The terminal events between the two converters: only \<open>response.completed\<close>, and always with
  status \<open>completed\<close>.\<close>

definition plain_completed :: "ResponsesStreamEvent \<Rightarrow> bool" where
  "plain_completed e \<longleftrightarrow> (is_terminal e \<longrightarrow> rse_Type e = ''response.completed'' \<and>
     (\<exists>r. rse_Response e = Some r \<and> rr_Status r = ''completed''))"

lemma plain_handlers:
  "list_all plain_completed (fst (anthToResHandleMessageStart evt st))"
  "list_all plain_completed (fst (anthToResHandleContentBlockStart rnd evt st))"
  "list_all plain_completed (fst (anthToResHandleContentBlockDelta evt st))"
  "list_all plain_completed (fst (anthToResHandleContentBlockStop st))"
  "list_all plain_completed (fst (anthToResHandleMessageDelta evt st))"
  "list_all plain_completed (fst (anthToResHandleMessageStop st))"
  "list_all plain_completed (fst (FinalizeAnthropicResponsesStream st))"
  by (simp_all add: anthToResHandleMessageStart_def anthToResHandleContentBlockStart_def
      anthToResHandleContentBlockDelta_def anthToResHandleContentBlockStop_def
      anthToResHandleMessageDelta_def anthToResHandleMessageStop_def
      FinalizeAnthropicResponsesStream_def make_defs plain_completed_def is_terminal_def zero_rr_def
      split: option.splits)

interpretation ar_plain: stream_contract "AnthropicEventToResponsesEvents rnd" "\<lambda>_. True"
    "\<lambda>st ins out st1. list_all plain_completed out" for rnd
proof unfold_locales
  fix st e out st1
  assume "AnthropicEventToResponsesEvents rnd e st = (out, st1)"
  then have "out = fst (AnthropicEventToResponsesEvents rnd e st)" by simp
  then show "list_all plain_completed out"
    by (simp add: AnthropicEventToResponsesEvents_def Let_def plain_handlers)
qed auto

lemma ar_stream_plain: "list_all plain_completed (fst (ar_stream rnd es st))"
proof -
  obtain out st1 where r: "run_steps (AnthropicEventToResponsesEvents rnd) es st = (out, st1)"
    by fastforce
  obtain fin st2 where f: "FinalizeAnthropicResponsesStream st1 = (fin, st2)" by fastforce
  have "list_all plain_completed fin" using plain_handlers(7) [of st1] f by simp
  with ar_plain.run_rel [OF TrueI r] r f show ?thesis by (simp add: ar_stream_def)
qed

lemma terminal_count: "list_all plain_completed es \<Longrightarrow>
    length (filter is_terminal es) = rse_count ''response.completed'' es"
  by (induction es) (auto simp: plain_completed_def is_terminal_def)

text \<open>(C26) One finish per stream. Every stream a Chat Completions client reads to its end from an
  Anthropic upstream has exactly one chunk with a finish reason, whatever the upstream sends, and
  also when it breaks off.\<close>

theorem cc_stream_finished_once:
  "finishes (sr_chunks (handleCCStreamingFromAnthropic dec rnd cid now m iu g None body)) = 1"
proof -
  let ?a = "fst (new_chain cid now m iu)" and ?c = "snd (new_chain cid now m iu)"
  let ?mid = "fst (ar_stream rnd (sse_events dec body) ?a)"
  have fresh: "\<not> rcs_Finalized ?c" "\<not> ars_CompletedSent ?a"
    by (simp_all add: new_chain_def NewResponsesEventToChatState_def
        NewAnthropicEventToResponsesState_def)
  have "rse_count ''response.completed'' ?mid \<le> 1"
    using num_ok_stream [of ?a rnd "sse_events dec body"] fresh(2)
    by (auto simp: num_ok_def of_bool_def split: if_splits)
  moreover have "finishes (fst (rc_stream ?mid ?c)) = max 1 (rse_count ''response.completed'' ?mid)"
    using rc_stream_finishes [OF fresh(1)] terminal_count [OF ar_stream_plain] by simp
  ultimately show ?thesis
    using stream_is_composition [of rnd g "sse_events dec body" ?a ?c zero_us]
    by (simp add: handleCCStreamingFromAnthropic_def)
qed

section \<open>Finish reasons\<close>

definition finish_reasons :: "ChatCompletionsChunk list \<Rightarrow> string list" where
  "finish_reasons out = concat (map (\<lambda>c. List.map_filter cch_FinishReason (ck_Choices c)) out)"

lemma finish_reasons_simps [simp]:
  "finish_reasons [] = []"
  "finish_reasons (xs @ ys) = finish_reasons xs @ finish_reasons ys"
  "finish_reasons (makeChatDeltaChunk st d # cs) = finish_reasons cs"
  "finish_reasons (makeChatFinishChunk st r # cs) = r # finish_reasons cs"
  "finish_reasons (chatUsageChunk st) = []"
  by (simp_all add: finish_reasons_def makeChatDeltaChunk_def makeChatFinishChunk_def
      chatUsageChunk_def map_filter_simps)

lemma plain_event_reasons:
  assumes "plain_completed e"
  shows "''length'' \<notin> set (finish_reasons (fst (ResponsesEventToChatChunks e st)))"
  using assms unfolding ResponsesEventToChatChunks_def Let_def
  by (auto simp: plain_completed_def is_terminal_def resToChatHandleCreated_def
      resToChatHandleTextDelta_def resToChatHandleOutputItemAdded_def
      resToChatHandleFuncArgsDelta_def resToChatHandleReasoningDelta_def
      resToChatHandleCompleted_def Let_def split: option.splits)

lemma plain_stream_reasons:
  "list_all plain_completed es \<Longrightarrow> ''length'' \<notin> set (finish_reasons (fst (rc_stream es st)))"
proof -
  have run: "list_all plain_completed es \<Longrightarrow>
      ''length'' \<notin> set (finish_reasons (fst (run_steps ResponsesEventToChatChunks es st)))" for st
  proof (induction es arbitrary: st)
    case (Cons e es)
    obtain o1 st1 where e: "ResponsesEventToChatChunks e st = (o1, st1)" by fastforce
    from Cons.prems plain_event_reasons [of e st] e
    have "''length'' \<notin> set (finish_reasons o1)" by simp
    moreover from Cons have "''length'' \<notin>
        set (finish_reasons (fst (run_steps ResponsesEventToChatChunks es st1)))" by simp
    ultimately show ?case by (auto simp: e Let_def split: prod.split)
  qed simp
  obtain out st1 where r: "run_steps ResponsesEventToChatChunks es st = (out, st1)" by fastforce
  have fin: "''length'' \<notin> set (finish_reasons (fst (FinalizeResponsesChatStream st1)))"
    by (simp add: FinalizeResponsesChatStream_def Let_def)
  have "fst (rc_stream es st) = out @ fst (FinalizeResponsesChatStream st1)"
    by (simp add: rc_stream_def r split: prod.split)
  then show "list_all plain_completed es \<Longrightarrow>
      ''length'' \<notin> set (finish_reasons (fst (rc_stream es st)))"
    using run [of st] fin by (simp add: r)
qed

lemma converted_length:
  assumes "ar_StopReason r = ''max_tokens''"
  shows "map cc_FinishReason (ccr_Choices (ResponsesToChatCompletions cid now
      (AnthropicToResponsesResponse rnd (if b then r\<lparr>ar_Usage := v\<rparr> else r)) m)) = [''length'']"
proof -
  have "rr_Status (AnthropicToResponsesResponse rnd x) = ''incomplete'' \<and>
      rr_IncompleteDetails (AnthropicToResponsesResponse rnd x) =
        Some \<lparr>rid_Reason = ''max_output_tokens''\<rparr>" if "ar_StopReason x = ''max_tokens''" for x
    using that by (simp add: AnthropicToResponsesResponse_def
        anthropicStopReasonToResponsesStatus_def Let_def split: prod.splits)
  with assms show ?thesis
    by (simp add: ResponsesToChatCompletions_def responsesStatusToChatFinishReason_def Let_def)
qed

text \<open>An answer cut off at the token limit. When the upstream stops with \<open>max_tokens\<close>, the
  buffered endpoint answers with finish reason \<open>length\<close>, but no chunk of the streamed endpoint
  carries it, for the same upstream body: a streaming client cannot see the truncation.\<close>

theorem cc_max_tokens_only_buffered:
  assumes "assemble (sse_events dec body) None zero_us = Some (Some r, u)"
    and "ar_StopReason r = ''max_tokens''"
  shows "''length'' \<notin> set (finish_reasons
      (sr_chunks (handleCCStreamingFromAnthropic dec rnd cid now m iu g None body))) \<and>
    (case handleCCBufferedFromAnthropic dec rnd cid now m g body of
       BufferedOk resp us \<Rightarrow> map cc_FinishReason (ccr_Choices resp) = [''length'']
     | _ \<Rightarrow> False)"
proof -
  have "''length'' \<notin> set (finish_reasons
      (sr_chunks (handleCCStreamingFromAnthropic dec rnd cid now m iu g None body)))"
    using plain_stream_reasons [OF ar_stream_plain] stream_is_composition
    by (simp add: handleCCStreamingFromAnthropic_def new_chain_def)
  moreover have "case handleCCBufferedFromAnthropic dec rnd cid now m g body of
       BufferedOk resp us \<Rightarrow> map cc_FinishReason (ccr_Choices resp) = [''length'']
     | _ \<Rightarrow> False"
    using assms(1) converted_length [OF assms(2)]
    by (simp add: handleCCBufferedFromAnthropic_def Let_def)
  ultimately show ?thesis by (rule conjI)
qed

text \<open>A body of three payloads, and the events they decode to.\<close>

definition demo_dec :: "string \<Rightarrow> AnthropicStreamEvent option" where
  "demo_dec p =
     (if p = ''1'' then Some (zero_ase\<lparr>ase_Type := ''message_start'',
        ase_Message := Some (zero_ar\<lparr>ar_ID := ''msg_1''\<rparr>)\<rparr>)
      else if p = ''2'' then Some (zero_ase\<lparr>ase_Type := ''message_delta'',
        ase_Delta := Some (zero_ad\<lparr>ad_StopReason := ''max_tokens''\<rparr>)\<rparr>)
      else if p = ''3'' then Some (zero_ase\<lparr>ase_Type := ''content_block_delta'', ase_Index := Some 2,
        ase_Delta := Some (zero_ad\<lparr>ad_Type := ''text_delta'', ad_Text := ''x''\<rparr>)\<rparr>)
      else None)"

definition demo_body :: "string list" where
  "demo_body = [''event: a'', ''data: 1'', [], ''event: b'', ''data: 2'', []]"

theorem cc_max_tokens_only_buffered_witness:
  "''length'' \<notin> set (finish_reasons (sr_chunks
     (handleCCStreamingFromAnthropic demo_dec (\<lambda>_. ''00'') ''c'' 0 ''m'' False None None demo_body)))"
proof -
  have "assemble (sse_events demo_dec demo_body) None zero_us =
      Some (Some (zero_ar\<lparr>ar_ID := ''msg_1'', ar_StopReason := ''max_tokens''\<rparr>), zero_us)"
    by code_simp
  from cc_max_tokens_only_buffered [OF this, of "\<lambda>_. ''00''" "''c''" 0 "''m''" False None]
  show ?thesis by (simp add: zero_ar_def)
qed

section \<open>Tool arguments\<close>

text \<open>The JSON text of an empty object, which upstream announces as the input of a tool call before
  it streams the arguments.\<close>

definition announced_input :: string where
  "announced_input = [CHR 0x7B, CHR 0x7D]"

definition json_delta_event :: "string \<Rightarrow> AnthropicStreamEvent" where
  "json_delta_event p = zero_ase\<lparr>ase_Type := ''content_block_delta'', ase_Index := Some 0,
     ase_Delta := Some (zero_ad\<lparr>ad_Type := ''input_json_delta'', ad_PartialJSON := p\<rparr>)\<rparr>"

definition tool_answer :: "AnthropicResponse \<Rightarrow> AnthropicContentBlock \<Rightarrow> string list \<Rightarrow>
    AnthropicStreamEvent list" where
  "tool_answer m b parts =
     [zero_ase\<lparr>ase_Type := ''message_start'', ase_Message := Some m\<rparr>,
      zero_ase\<lparr>ase_Type := ''content_block_start'', ase_Index := Some 0, ase_ContentBlock := Some b\<rparr>] @
     map json_delta_event parts @
     [zero_ase\<lparr>ase_Type := ''content_block_stop'', ase_Index := Some 0\<rparr>,
      zero_ase\<lparr>ase_Type := ''message_stop''\<rparr>]"

lemma zero_ase_sel:
  "ase_Message zero_ase = None" "ase_ContentBlock zero_ase = None" "ase_Delta zero_ase = None"
  "ase_Usage zero_ase = None"
  by (simp_all add: zero_ase_def)

lemma assemble_append:
  "assemble (xs @ ys) r u =
     (case assemble xs r u of None \<Rightarrow> None | Some (r1, u1) \<Rightarrow> assemble ys r1 u1)"
  by (induction xs arbitrary: r u) (auto split: option.split)

lemma assemble_json:
  assumes "ar_Content r = [b]" and "acb_Input b \<noteq> []"
  shows "assemble (map json_delta_event parts) (Some r) u =
     Some (Some (r\<lparr>ar_Content := [b\<lparr>acb_Input := acb_Input b @ concat parts\<rparr>]\<rparr>), u)"
  using assms
proof (induction parts arbitrary: r b)
  case (Cons p ps)
  let ?b = "b\<lparr>acb_Input := acb_Input b @ p\<rparr>" and ?r = "r\<lparr>ar_Content := [b\<lparr>acb_Input := acb_Input b @ p\<rparr>]\<rparr>"
  have "assemble_event (json_delta_event p) (Some r) = Some (Some ?r)"
    using Cons.prems by (simp add: assemble_event_def json_delta_event_def zero_ase_def zero_ad_def
        touches_block_def add_delta_def appendRawJSON_def)
  moreover have "event_usage (json_delta_event p) u = u"
    by (simp add: event_usage_def json_delta_event_def zero_ase_def)
  ultimately show ?case using Cons.IH [of ?r ?b] Cons.prems by simp
qed simp

lemma assemble_tool:
  assumes "ar_Content m = []" and "acb_Input b \<noteq> []"
  shows "\<exists>u. assemble (tool_answer m b parts) None zero_us =
     Some (Some (m\<lparr>ar_Content := [b\<lparr>acb_Input := acb_Input b @ concat parts\<rparr>]\<rparr>), u)"
proof -
  let ?u = "mergeAnthropicUsage (ar_Usage m) zero_us"
  have "assemble (tool_answer m b parts) None zero_us =
      (case assemble (map json_delta_event parts) (Some (m\<lparr>ar_Content := [b]\<rparr>)) ?u of
         None \<Rightarrow> None
       | Some (r1, u1) \<Rightarrow> assemble [zero_ase\<lparr>ase_Type := ''content_block_stop'', ase_Index := Some 0\<rparr>,
           zero_ase\<lparr>ase_Type := ''message_stop''\<rparr>] r1 u1)"
    using assms by (simp add: tool_answer_def assemble_append assemble_event_def event_usage_def
        zero_ase_sel Let_def)
  also have "\<dots> = Some (Some (m\<lparr>ar_Content := [b\<lparr>acb_Input := acb_Input b @ concat parts\<rparr>]\<rparr>), ?u)"
    using assms by (simp add: assemble_json assemble_event_def event_usage_def zero_ase_def)
  finally show ?thesis by blast
qed

lemma json_delta_event_sim:
  assumes "co_index a (ars_OutputIndex st) = Some 0" and "co_tools a = [f]"
    and "AnthropicEventToResponsesEvents rnd (json_delta_event p) st = (out, st1)"
  shows "ars_OutputIndex st1 = ars_OutputIndex st \<and>
    fold absorb out a = a\<lparr>co_tools := [f\<lparr>tlc_Args := tlc_Args f @ p\<rparr>]\<rparr>"
  using assms by (auto simp: AnthropicEventToResponsesEvents_def json_delta_event_def zero_ase_def
      zero_ad_def anthToResHandleContentBlockDelta_def makeResponsesEvent_def zero_rse_def
      absorb_defs Let_def split: if_splits)

lemma json_deltas_sim:
  assumes "co_index a (ars_OutputIndex st) = Some 0" and "co_tools a = [f]"
  shows "fold absorb (fst (run_steps (AnthropicEventToResponsesEvents rnd)
      (map json_delta_event parts) st)) a =
    a\<lparr>co_tools := [f\<lparr>tlc_Args := tlc_Args f @ concat parts\<rparr>]\<rparr>"
  using assms
proof (induction parts arbitrary: a st f)
  case (Cons p ps)
  obtain out st1 where e: "AnthropicEventToResponsesEvents rnd (json_delta_event p) st = (out, st1)"
    by fastforce
  let ?a = "a\<lparr>co_tools := [f\<lparr>tlc_Args := tlc_Args f @ p\<rparr>]\<rparr>"
  from json_delta_event_sim [OF Cons.prems e]
  have s: "ars_OutputIndex st1 = ars_OutputIndex st" "fold absorb out a = ?a" by simp_all
  have "fold absorb (fst (run_steps (AnthropicEventToResponsesEvents rnd)
      (map json_delta_event ps) st1)) ?a =
      ?a\<lparr>co_tools := [f\<lparr>tlc_Args := (tlc_Args f @ p) @ concat ps\<rparr>]\<rparr>"
    using Cons.IH [of ?a st1 "f\<lparr>tlc_Args := tlc_Args f @ p\<rparr>"] Cons.prems s by simp
  then show ?case using s by (auto simp: e split: prod.split)
qed simp

text \<open>Events that neither open a tool call nor extend its arguments.\<close>

definition calm :: "ResponsesStreamEvent \<Rightarrow> bool" where
  "calm e \<longleftrightarrow>
     rse_Type e \<notin> {''response.output_item.added'', ''response.function_call_arguments.delta''}"

lemma calm_keeps: "list_all calm es \<Longrightarrow> co_tools (fold absorb es a) = co_tools a"
  by (induction es arbitrary: a) (auto simp: calm_def absorb_defs Let_def)

lemma calm_handlers:
  "list_all calm (fst (anthToResHandleContentBlockStop st))"
  "list_all calm (fst (anthToResHandleMessageStop st))"
  "list_all calm (fst (FinalizeAnthropicResponsesStream st))"
  by (simp_all add: anthToResHandleContentBlockStop_def anthToResHandleMessageStop_def
      FinalizeAnthropicResponsesStream_def make_defs calm_def)

lemma calm_stop:
  assumes "run_steps (AnthropicEventToResponsesEvents rnd)
     [zero_ase\<lparr>ase_Type := ''content_block_stop'', ase_Index := Some 0\<rparr>,
      zero_ase\<lparr>ase_Type := ''message_stop''\<rparr>] st = (out, st1)"
  shows "list_all calm out"
proof -
  obtain o1 s1 where h: "anthToResHandleContentBlockStop st = (o1, s1)" by fastforce
  obtain o2 s2 where k: "anthToResHandleMessageStop s1 = (o2, s2)" by fastforce
  from assms h k have "out = o1 @ o2" by (simp add: AnthropicEventToResponsesEvents_def)
  with calm_handlers(1) [of st] calm_handlers(2) [of s1] h k show ?thesis by simp
qed

lemma tool_stream_calls:
  assumes "acb_Type b = ''tool_use''"
  shows "map tlc_Args (co_tools (fold absorb
     (fst (ar_stream rnd (tool_answer m b parts) (fst (new_chain cid now mo iu))))
     nothing_collected)) = [concat parts]"
proof -
  let ?st = "fst (new_chain cid now mo iu)"
  let ?start = "[zero_ase\<lparr>ase_Type := ''message_start'', ase_Message := Some m\<rparr>,
      zero_ase\<lparr>ase_Type := ''content_block_start'', ase_Index := Some 0, ase_ContentBlock := Some b\<rparr>]"
  let ?stop = "[zero_ase\<lparr>ase_Type := ''content_block_stop'', ase_Index := Some 0\<rparr>,
      zero_ase\<lparr>ase_Type := ''message_stop''\<rparr>]"
  let ?run = "run_steps (AnthropicEventToResponsesEvents rnd)"
  obtain o1 st1 where r1: "?run ?start ?st = (o1, st1)" by fastforce
  obtain o2 st2 where r2: "?run (map json_delta_event parts) st1 = (o2, st2)" by fastforce
  obtain o3 st3 where r3: "?run ?stop st2 = (o3, st3)" by fastforce
  obtain o4 st4 where r4: "FinalizeAnthropicResponsesStream st3 = (o4, st4)" by fastforce
  define a1 where "a1 = fold absorb o1 nothing_collected"
  have all: "fst (ar_stream rnd (tool_answer m b parts) ?st) = o1 @ o2 @ o3 @ o4"
    by (simp only: ar_stream_def tool_answer_def run_steps_append r1 r2 r3 r4 Let_def split fst_conv
        append_assoc)
  have a1: "\<exists>f. co_index a1 (ars_OutputIndex st1) = Some 0 \<and>
      co_tools a1 = [f] \<and> tlc_Args f = []"
    using r1 assms by (auto simp: a1_def new_chain_def NewAnthropicEventToResponsesState_def
        AnthropicEventToResponsesEvents_def anthToResHandleMessageStart_def make_defs
        anthToResHandleContentBlockStart_def absorb_defs nothing_collected_def
        zero_ase_sel zero_ro_def)
  then have a2: "map tlc_Args (co_tools (fold absorb o2 a1)) = [concat parts]"
    using json_deltas_sim [of a1 st1 _ rnd parts] r2 by auto
  have "list_all calm o3" "list_all calm o4"
    using r3 r4 calm_handlers(3) [of st3] by (auto intro: calm_stop)
  then show ?thesis using a2 by (simp add: all a1_def [symmetric] calm_keeps)
qed

lemma tool_call_args:
  assumes "acb_Type b = ''tool_use''" and "acb_Input b \<noteq> []" and "ar_Content r = [b]"
  shows "map (\<lambda>tc. cfc_Arguments (ctc_Function tc))
      (cm_ToolCalls (cc_Message (hd (ccr_Choices (ResponsesToChatCompletions cid now
         (AnthropicToResponsesResponse rnd r) m))))) = [acb_Input b]"
proof -
  have "chatToolCalls (rr_Output (AnthropicToResponsesResponse rnd r)) =
      chatToolCalls (fst (contentToOutputs rnd (if ar_ID r = [] then 1 else 0) [b] [] []))"
    using assms by (simp add: AnthropicToResponsesResponse_def Let_def zero_rr_def)
  also have "map (\<lambda>tc. cfc_Arguments (ctc_Function tc)) \<dots> = [acb_Input b]"
    using assms by (simp add: chatToolCalls_def zero_ro_def)
  finally show ?thesis by (simp add: ResponsesToChatCompletions_def Let_def)
qed

text \<open>The arguments of a tool call. Upstream announces a tool call with the input \<open>{}\<close> and then
  streams the JSON text of the arguments in parts. The client of the streamed endpoint assembles
  exactly the parts; the buffered endpoint answers with the announced object followed by the parts,
  which is not the JSON text of the arguments.\<close>

theorem cc_tool_arguments:
  assumes "sse_events dec body = tool_answer m b parts" and "ar_Content m = []"
    and "acb_Type b = ''tool_use''" and "acb_Input b = announced_input"
  shows "map tlc_Args (cl_tools (streamed_answer
      (sr_chunks (handleCCStreamingFromAnthropic dec rnd cid now mo iu g None body)))) = [concat parts] \<and>
    (case handleCCBufferedFromAnthropic dec rnd cid now mo g body of
       BufferedOk resp us \<Rightarrow>
         map (\<lambda>tc. cfc_Arguments (ctc_Function tc)) (cm_ToolCalls (cc_Message (hd (ccr_Choices resp)))) =
           [announced_input @ concat parts]
     | _ \<Rightarrow> False)"
proof -
  have ne: "acb_Input b \<noteq> []" using assms(4) by (simp add: announced_input_def)
  obtain u where u: "assemble (sse_events dec body) None zero_us =
      Some (Some (m\<lparr>ar_Content := [b\<lparr>acb_Input := announced_input @ concat parts\<rparr>]\<rparr>), u)"
    using assemble_tool [OF assms(2) ne, of parts] assms(1,4) by auto
  have "map (\<lambda>tc. cfc_Arguments (ctc_Function tc)) (cm_ToolCalls (cc_Message (hd (ccr_Choices
      (ResponsesToChatCompletions cid now (AnthropicToResponsesResponse rnd r) mo))))) =
      [announced_input @ concat parts]"
    if "ar_Content r = [b\<lparr>acb_Input := announced_input @ concat parts\<rparr>]" for r
    using tool_call_args [OF _ _ that] assms(3) by (simp add: announced_input_def)
  then show ?thesis
    using tool_stream_calls [OF assms(3)] assms(1) u
    by (simp add: streamed_answer_chain acc_client_def handleCCBufferedFromAnthropic_def Let_def)
qed

definition demo_tool :: AnthropicContentBlock where
  "demo_tool = zero_acb\<lparr>acb_Type := ''tool_use'', acb_ID := ''toolu_1'', acb_Input := announced_input\<rparr>"

definition demo_tool_dec :: "string \<Rightarrow> AnthropicStreamEvent option" where
  "demo_tool_dec p = Some (tool_answer zero_ar demo_tool [''[1'', '']''] ! length p)"

definition demo_tool_body :: "string list" where
  "demo_tool_body = concat (map (\<lambda>n. [''event: e'', ''data: '' @ replicate n CHR ''x'']) [0..<6])"

theorem cc_tool_arguments_witness:
  "case handleCCBufferedFromAnthropic demo_tool_dec (\<lambda>_. ''00'') ''c'' 0 ''m'' None demo_tool_body of
     BufferedOk resp us \<Rightarrow>
       map (\<lambda>tc. cfc_Arguments (ctc_Function tc)) (cm_ToolCalls (cc_Message (hd (ccr_Choices resp)))) =
         [announced_input @ ''[1]'']
   | _ \<Rightarrow> False"
proof -
  have "sse_events demo_tool_dec demo_tool_body = tool_answer zero_ar demo_tool [''[1'', '']'']"
    by code_simp
  moreover have "concat [''[1'', '']''] = ''[1]''" by simp
  moreover have "ar_Content zero_ar = []" "acb_Type demo_tool = ''tool_use''"
    "acb_Input demo_tool = announced_input"
    by (simp_all add: zero_ar_def demo_tool_def)
  ultimately show ?thesis
    using cc_tool_arguments [of demo_tool_dec demo_tool_body zero_ar demo_tool "[''[1'', '']'']"]
    by metis
qed

section \<open>Block indexes\<close>

lemma assemble_event_total:
  assumes "\<And>i. ase_Index e = Some i \<Longrightarrow> 0 \<le> i"
  shows "assemble_event e r \<noteq> None"
  using assms by (auto simp: assemble_event_def Let_def split: option.splits)

lemma assemble_total:
  "\<forall>e \<in> set es. \<forall>i. ase_Index e = Some i \<longrightarrow> 0 \<le> i \<Longrightarrow> assemble es r u \<noteq> None"
proof (induction es arbitrary: r u)
  case (Cons e es)
  then obtain r1 where "assemble_event e r = Some r1" using assemble_event_total [of e r] by auto
  with Cons show ?case by simp
qed simp

text \<open>The index check has no lower bound: a negative index reaches the slice expression.\<close>

lemma assemble_negative_index:
  assumes "ase_Type e = ''content_block_delta''" "ase_Delta e = Some d" "touches_block d"
    and "ase_Index e = Some i" "i < 0"
  shows "assemble_event e (Some r) = None"
  using assms by (simp add: assemble_event_def)

text \<open>The buffered handler does not panic as long as no event carries a negative block index:
  indexes past the end of the content are skipped.\<close>

theorem cc_buffered_no_panic:
  assumes "\<forall>e \<in> set (sse_events dec body). \<forall>i. ase_Index e = Some i \<longrightarrow> 0 \<le> i"
  shows "handleCCBufferedFromAnthropic dec rnd cid now m g body \<noteq> BufferedPanic"
  using assemble_total [OF assms, of None zero_us]
  by (auto simp: handleCCBufferedFromAnthropic_def Let_def split: option.split prod.split)

theorem cc_buffered_no_panic_witness:
  "handleCCBufferedFromAnthropic demo_dec (\<lambda>_. ''00'') ''c'' 0 ''m'' None
     [''event: a'', ''data: 1'', ''event: b'', ''data: 3''] \<noteq> BufferedPanic"
proof -
  let ?es = "sse_events demo_dec [''event: a'', ''data: 1'', ''event: b'', ''data: 3'']"
  have "map ase_Index ?es = [None, Some 2]" by code_simp
  then have "ase_Index ` set ?es = {None, Some 2}" by (metis list.simps(15) empty_set image_set)
  then have "ase_Index e \<in> {None, Some 2}" if "e \<in> set ?es" for e using that by blast
  then have "\<forall>e \<in> set ?es. \<forall>i. ase_Index e = Some i \<longrightarrow> 0 \<le> i" by fastforce
  then show ?thesis by (rule cc_buffered_no_panic)
qed

end
