(* ===== verification/AppErrors.thy ===== *)
theory AppErrors
  imports GoBase
begin

text \<open>
  Application errors: \<open>backend/internal/pkg/errors\<close> (\<open>errors.go\<close>, \<open>types.go\<close>).

  A Go error value is a datatype: an error that wraps nothing (\<open>errors.New\<close>), one that wraps
  another with a message (\<open>fmt.Errorf("...%w")\<close>), or an \<open>ApplicationError\<close>. \<open>errors.As\<close> walks that
  chain. The functions copy an \<open>ApplicationError\<close> before changing it, so values suffice here:
  the copies share nothing. The lemmas state what the service code relies on: the reason of an
  error survives wrapping, adding a cause and adding metadata.
\<close>

section \<open>The error values\<close>

datatype go_error =
    PlainErr string
  | WrapErr string go_error
  | AppErr ApplicationError
and ApplicationError =
  ApplicationError (ae_Code: int) (ae_Reason: string) (ae_Message: string)
    (ae_Metadata: "(string \<rightharpoonup> string) option") (ae_cause: "go_error option")

definition UnknownCode :: int where "UnknownCode = 500"
definition UnknownReason :: string where "UnknownReason = ''''"
definition UnknownMessage :: string where "UnknownMessage = ''internal error''"

text \<open>\<open>errors.As(err, &se)\<close> for \<open>se\<close> of type \<open>*ApplicationError\<close>: the first one in the chain.\<close>

fun errors_As :: "go_error \<Rightarrow> ApplicationError option" where
  "errors_As (PlainErr m) = None"
| "errors_As (WrapErr m e) = errors_As e"
| "errors_As (AppErr a) = Some a"

section \<open>Building errors\<close>

text \<open>\<open>Code\<close> is stored as an \<open>int32\<close>; the conversion wraps.\<close>

definition int32_of :: "int \<Rightarrow> int" where
  "int32_of n = signed_take_bit 31 n"

definition New :: "int \<Rightarrow> string \<Rightarrow> string \<Rightarrow> ApplicationError" where
  "New code reason message = ApplicationError (int32_of code) reason message None None"

definition Clone :: "ApplicationError \<Rightarrow> ApplicationError" where
  "Clone e = ApplicationError (ae_Code e) (ae_Reason e) (ae_Message e) (ae_Metadata e) (ae_cause e)"

definition WithCause :: "ApplicationError \<Rightarrow> go_error \<Rightarrow> ApplicationError" where
  "WithCause e cause =
     (let err = Clone e in
      ApplicationError (ae_Code err) (ae_Reason err) (ae_Message err) (ae_Metadata err) (Some cause))"

definition WithMetadata :: "ApplicationError \<Rightarrow> (string \<rightharpoonup> string) option \<Rightarrow> ApplicationError" where
  "WithMetadata e md =
     (let err = Clone e in
      ApplicationError (ae_Code err) (ae_Reason err) (ae_Message err) md (ae_cause err))"

definition BadRequest :: "string \<Rightarrow> string \<Rightarrow> ApplicationError" where
  "BadRequest reason message = New 400 reason message"

definition TooManyRequests :: "string \<Rightarrow> string \<Rightarrow> ApplicationError" where
  "TooManyRequests reason message = New 429 reason message"

definition Unauthorized :: "string \<Rightarrow> string \<Rightarrow> ApplicationError" where
  "Unauthorized reason message = New 401 reason message"

definition Forbidden :: "string \<Rightarrow> string \<Rightarrow> ApplicationError" where
  "Forbidden reason message = New 403 reason message"

definition NotFound :: "string \<Rightarrow> string \<Rightarrow> ApplicationError" where
  "NotFound reason message = New 404 reason message"

definition Conflict :: "string \<Rightarrow> string \<Rightarrow> ApplicationError" where
  "Conflict reason message = New 409 reason message"

definition InternalServer :: "string \<Rightarrow> string \<Rightarrow> ApplicationError" where
  "InternalServer reason message = New 500 reason message"

definition ServiceUnavailable :: "string \<Rightarrow> string \<Rightarrow> ApplicationError" where
  "ServiceUnavailable reason message = New 503 reason message"

definition GatewayTimeout :: "string \<Rightarrow> string \<Rightarrow> ApplicationError" where
  "GatewayTimeout reason message = New 504 reason message"

definition ClientClosed :: "string \<Rightarrow> string \<Rightarrow> ApplicationError" where
  "ClientClosed reason message = New 499 reason message"

text \<open>Errors that several services share.\<close>

definition ErrSubscriptionNotFound :: ApplicationError where
  "ErrSubscriptionNotFound = NotFound ''SUBSCRIPTION_NOT_FOUND'' ''subscription not found''"

definition ErrUserNotFound :: ApplicationError where
  "ErrUserNotFound = NotFound ''USER_NOT_FOUND'' ''user not found''"

section \<open>Reading errors\<close>

definition FromError :: "go_error \<Rightarrow> ApplicationError" where
  "FromError err =
     (case errors_As err of
        Some se \<Rightarrow> se
      | None \<Rightarrow> WithCause (New UnknownCode UnknownReason UnknownMessage) err)"

definition Code :: "go_error option \<Rightarrow> int" where
  "Code err = (case err of None \<Rightarrow> 200 | Some e \<Rightarrow> ae_Code (FromError e))"

definition Reason :: "go_error option \<Rightarrow> string" where
  "Reason err = (case err of None \<Rightarrow> UnknownReason | Some e \<Rightarrow> ae_Reason (FromError e))"

definition Message :: "go_error option \<Rightarrow> string" where
  "Message err = (case err of None \<Rightarrow> [] | Some e \<Rightarrow> ae_Message (FromError e))"

text \<open>The method \<open>Is\<close>, the comparison \<open>errors.Is\<close> uses for an application error.\<close>

definition app_Is :: "ApplicationError \<Rightarrow> go_error \<Rightarrow> bool" where
  "app_Is e err =
     (case errors_As err of
        Some se \<Rightarrow> ae_Code se = ae_Code e \<and> ae_Reason se = ae_Reason e
      | None \<Rightarrow> False)"

section \<open>What the services rely on\<close>

lemma int32_of_small [simp]: "-(2 ^ 31) \<le> n \<Longrightarrow> n < 2 ^ 31 \<Longrightarrow> int32_of n = n"
  by (simp add: int32_of_def signed_take_bit_int_eq_self)

lemma New_sel [simp]:
  "ae_Code (New c r m) = int32_of c" "ae_Reason (New c r m) = r" "ae_Message (New c r m) = m"
  "ae_Metadata (New c r m) = None" "ae_cause (New c r m) = None"
  by (simp_all add: New_def)

lemma WithCause_sel [simp]:
  "ae_Code (WithCause e c) = ae_Code e" "ae_Reason (WithCause e c) = ae_Reason e"
  "ae_Message (WithCause e c) = ae_Message e" "ae_Metadata (WithCause e c) = ae_Metadata e"
  "ae_cause (WithCause e c) = Some c"
  by (simp_all add: WithCause_def Clone_def)

lemma WithMetadata_sel [simp]:
  "ae_Code (WithMetadata e md) = ae_Code e" "ae_Reason (WithMetadata e md) = ae_Reason e"
  "ae_Message (WithMetadata e md) = ae_Message e" "ae_Metadata (WithMetadata e md) = md"
  "ae_cause (WithMetadata e md) = ae_cause e"
  by (simp_all add: WithMetadata_def Clone_def)

text \<open>An error wrapped any number of times.\<close>

fun wrap_all :: "string list \<Rightarrow> go_error \<Rightarrow> go_error" where
  "wrap_all [] e = e"
| "wrap_all (m # ms) e = WrapErr m (wrap_all ms e)"

lemma errors_As_wrap [simp]: "errors_As (wrap_all ms e) = errors_As e"
  by (induction ms) auto

text \<open>The identity of an application error, its code and reason, survives every way the
  services pass it on: wrapped by any number of \<open>%w\<close> layers, with a cause and with metadata
  attached. The client's response code and \<open>errors.Is\<close> see the same error; an error that is not
  an application error reads as code 500 with no reason.\<close>

theorem error_identity_survives_wrapping:
  "Code (Some (wrap_all ms (AppErr (WithMetadata (WithCause a c) md)))) = ae_Code a
   \<and> Reason (Some (wrap_all ms (AppErr (WithMetadata (WithCause a c) md)))) = ae_Reason a
   \<and> app_Is a (wrap_all ms (AppErr (WithMetadata (WithCause a c) md)))
   \<and> Code (Some (wrap_all ms (PlainErr m))) = 500
   \<and> Reason (Some (wrap_all ms (PlainErr m))) = []"
  by (simp add: Code_def Reason_def FromError_def app_Is_def UnknownCode_def UnknownReason_def)

end
