(* ===== verification/IdempotencyRepo.thy ===== *)
theory IdempotencyRepo
  imports AppErrors
begin

text \<open>
  The store of idempotency records: the interface \<open>IdempotencyRepository\<close> of
  \<open>backend/internal/service/idempotency.go\<close>, its SQL implementation
  \<open>backend/internal/repository/idempotency_repo.go\<close> and the cleanup service
  \<open>backend/internal/service/idempotency_cleanup_service.go\<close>.

  The table of \<open>migrations/*_idempotency_records.sql\<close> is a list of rows with the sequence that
  numbers them, the database clock (\<open>NOW()\<close>), and a schedule of faults: each statement consumes
  one entry, and an entry that holds an error makes that statement fail without effect. The
  locale \<open>idempotency_store\<close> states what the clients rely on, and is interpreted on the SQL
  implementation at the end.
\<close>

section \<open>Records\<close>

definition IdempotencyStatusProcessing :: string where
  "IdempotencyStatusProcessing = ''processing''"

definition IdempotencyStatusSucceeded :: string where
  "IdempotencyStatusSucceeded = ''succeeded''"

definition IdempotencyStatusFailedRetryable :: string where
  "IdempotencyStatusFailedRetryable = ''failed_retryable''"

lemmas idem_status_defs = IdempotencyStatusProcessing_def IdempotencyStatusSucceeded_def
  IdempotencyStatusFailedRetryable_def

record IdempotencyRecord =
  ir_ID :: int
  ir_Scope :: string
  ir_KeyHash :: string
  ir_Fingerprint :: string
  ir_Status :: string
  ir_ResponseStatus :: "int option"
  ir_ResponseBody :: "string option"
  ir_ErrorReason :: "string option"
  ir_LockedUntil :: "gotime option"
  ir_ExpiresAt :: gotime
  ir_CreatedAt :: gotime
  ir_UpdatedAt :: gotime

definition zero_ir :: IdempotencyRecord where
  "zero_ir = \<lparr>ir_ID = 0, ir_Scope = [], ir_KeyHash = [], ir_Fingerprint = [], ir_Status = [],
     ir_ResponseStatus = None, ir_ResponseBody = None, ir_ErrorReason = None,
     ir_LockedUntil = None, ir_ExpiresAt = 0, ir_CreatedAt = 0, ir_UpdatedAt = 0\<rparr>"

section \<open>The interface\<close>

text \<open>The methods of the interface over the state of an implementation; \<open>CreateProcessing\<close> also
  returns the record, whose id and timestamps it fills in.\<close>

record 'r IdempotencyRepository =
  CreateProcessing :: "IdempotencyRecord \<Rightarrow> 'r \<Rightarrow> (go_error + bool \<times> IdempotencyRecord) \<times> 'r"
  GetByScopeAndKeyHash :: "string \<Rightarrow> string \<Rightarrow> 'r \<Rightarrow> (go_error + IdempotencyRecord option) \<times> 'r"
  TryReclaim :: "int \<Rightarrow> string \<Rightarrow> gotime \<Rightarrow> gotime \<Rightarrow> gotime \<Rightarrow> 'r \<Rightarrow> (go_error + bool) \<times> 'r"
  ExtendProcessingLock :: "int \<Rightarrow> string \<Rightarrow> gotime \<Rightarrow> gotime \<Rightarrow> 'r \<Rightarrow> (go_error + bool) \<times> 'r"
  MarkSucceeded :: "int \<Rightarrow> int \<Rightarrow> string \<Rightarrow> gotime \<Rightarrow> 'r \<Rightarrow> (go_error + unit) \<times> 'r"
  MarkFailedRetryable :: "int \<Rightarrow> string \<Rightarrow> gotime \<Rightarrow> gotime \<Rightarrow> 'r \<Rightarrow> (go_error + unit) \<times> 'r"
  DeleteExpired :: "gotime \<Rightarrow> int \<Rightarrow> 'r \<Rightarrow> (go_error + int) \<times> 'r"

text \<open>Whether \<open>TryReclaim\<close> may take a record over, and what the updates leave in it.\<close>

definition reclaimable :: "string \<Rightarrow> gotime \<Rightarrow> IdempotencyRecord \<Rightarrow> bool" where
  "reclaimable from now r \<longleftrightarrow> ir_Status r = from \<and>
     (case ir_LockedUntil r of None \<Rightarrow> True | Some l \<Rightarrow> l \<le> now)"

definition reclaimed_row :: "gotime \<Rightarrow> gotime \<Rightarrow> gotime \<Rightarrow> IdempotencyRecord \<Rightarrow> IdempotencyRecord" where
  "reclaimed_row newLockedUntil newExpiresAt u r =
     r\<lparr>ir_Status := IdempotencyStatusProcessing, ir_LockedUntil := Some newLockedUntil,
       ir_ErrorReason := None, ir_UpdatedAt := u, ir_ExpiresAt := newExpiresAt\<rparr>"

definition extended_row :: "gotime \<Rightarrow> gotime \<Rightarrow> gotime \<Rightarrow> IdempotencyRecord \<Rightarrow> IdempotencyRecord" where
  "extended_row newLockedUntil newExpiresAt u r =
     r\<lparr>ir_LockedUntil := Some newLockedUntil, ir_ExpiresAt := newExpiresAt, ir_UpdatedAt := u\<rparr>"

definition succeeded_row ::
    "int \<Rightarrow> string \<Rightarrow> gotime \<Rightarrow> gotime \<Rightarrow> IdempotencyRecord \<Rightarrow> IdempotencyRecord" where
  "succeeded_row responseStatus responseBody expiresAt u r =
     r\<lparr>ir_Status := IdempotencyStatusSucceeded, ir_ResponseStatus := Some responseStatus,
       ir_ResponseBody := Some responseBody, ir_ErrorReason := None, ir_LockedUntil := None,
       ir_ExpiresAt := expiresAt, ir_UpdatedAt := u\<rparr>"

definition failed_row ::
    "string \<Rightarrow> gotime \<Rightarrow> gotime \<Rightarrow> gotime \<Rightarrow> IdempotencyRecord \<Rightarrow> IdempotencyRecord" where
  "failed_row errorReason lockedUntil expiresAt u r =
     r\<lparr>ir_Status := IdempotencyStatusFailedRetryable, ir_ErrorReason := Some errorReason,
       ir_LockedUntil := Some lockedUntil, ir_ExpiresAt := expiresAt, ir_UpdatedAt := u\<rparr>"

lemmas row_defs = reclaimed_row_def extended_row_def succeeded_row_def failed_row_def

section \<open>The SQL implementation\<close>

record idem_table =
  it_rows :: "IdempotencyRecord list"
  it_next_id :: int
  it_now :: gotime
  it_faults :: "go_error option list"

text \<open>One statement: it fails when the schedule says so, and runs otherwise.\<close>

definition sql_exec :: "(idem_table \<Rightarrow> (go_error + 'a) \<times> idem_table) \<Rightarrow> idem_table \<Rightarrow>
    (go_error + 'a) \<times> idem_table" where
  "sql_exec stmt t =
     (case it_faults t of
        [] \<Rightarrow> stmt t
      | None # fs \<Rightarrow> stmt (t\<lparr>it_faults := fs\<rparr>)
      | Some e # fs \<Rightarrow> (Inl e, t\<lparr>it_faults := fs\<rparr>))"

text \<open>\<open>VARCHAR(n)\<close>: a value with more than \<open>n\<close> characters (UTF-8 code points) is refused.\<close>

definition utf8_chars :: "string \<Rightarrow> nat" where
  "utf8_chars s = length (filter (\<lambda>c. \<not> (128 \<le> (of_char c :: nat) \<and> (of_char c :: nat) < 192)) s)"

definition value_too_long :: go_error where
  "value_too_long = PlainErr ''pq: value too long for type character varying''"

definition sql_CreateProcessing ::
    "IdempotencyRecord \<Rightarrow> idem_table \<Rightarrow> (go_error + bool \<times> IdempotencyRecord) \<times> idem_table" where
  "sql_CreateProcessing record = sql_exec (\<lambda>t.
     if utf8_chars (ir_Scope record) > 128 \<or> utf8_chars (ir_KeyHash record) > 64 \<or>
        utf8_chars (ir_Fingerprint record) > 64 \<or> utf8_chars (ir_Status record) > 32
     then (Inl value_too_long, t)
     else if \<exists>r \<in> set (it_rows t). ir_Scope r = ir_Scope record \<and> ir_KeyHash r = ir_KeyHash record
     then (Inr (False, record), t\<lparr>it_next_id := it_next_id t + 1\<rparr>)
     else
       let row = zero_ir\<lparr>ir_ID := it_next_id t, ir_Scope := ir_Scope record,
             ir_KeyHash := ir_KeyHash record, ir_Fingerprint := ir_Fingerprint record,
             ir_Status := ir_Status record, ir_LockedUntil := ir_LockedUntil record,
             ir_ExpiresAt := ir_ExpiresAt record, ir_CreatedAt := it_now t, ir_UpdatedAt := it_now t\<rparr>
       in (Inr (True, record\<lparr>ir_ID := it_next_id t, ir_CreatedAt := it_now t, ir_UpdatedAt := it_now t\<rparr>),
           t\<lparr>it_rows := it_rows t @ [row], it_next_id := it_next_id t + 1\<rparr>))"

definition sql_GetByScopeAndKeyHash ::
    "string \<Rightarrow> string \<Rightarrow> idem_table \<Rightarrow> (go_error + IdempotencyRecord option) \<times> idem_table" where
  "sql_GetByScopeAndKeyHash scope keyHash = sql_exec (\<lambda>t.
     (Inr (find (\<lambda>r. ir_Scope r = scope \<and> ir_KeyHash r = keyHash) (it_rows t)), t))"

text \<open>\<open>UPDATE ... WHERE\<close> with the number of affected rows.\<close>

definition sql_update :: "(IdempotencyRecord \<Rightarrow> bool) \<Rightarrow> (gotime \<Rightarrow> IdempotencyRecord \<Rightarrow> IdempotencyRecord) \<Rightarrow>
    idem_table \<Rightarrow> nat \<times> idem_table" where
  "sql_update cond upd t =
     (length (filter cond (it_rows t)),
      t\<lparr>it_rows := map (\<lambda>r. if cond r then upd (it_now t) r else r) (it_rows t)\<rparr>)"

definition sql_TryReclaim :: "int \<Rightarrow> string \<Rightarrow> gotime \<Rightarrow> gotime \<Rightarrow> gotime \<Rightarrow>
    idem_table \<Rightarrow> (go_error + bool) \<times> idem_table" where
  "sql_TryReclaim i fromStatus now newLockedUntil newExpiresAt = sql_exec (\<lambda>t.
     let (affected, t1) = sql_update (\<lambda>r. ir_ID r = i \<and> reclaimable fromStatus now r)
           (reclaimed_row newLockedUntil newExpiresAt) t
     in (Inr (affected > 0), t1))"

definition sql_ExtendProcessingLock :: "int \<Rightarrow> string \<Rightarrow> gotime \<Rightarrow> gotime \<Rightarrow>
    idem_table \<Rightarrow> (go_error + bool) \<times> idem_table" where
  "sql_ExtendProcessingLock i requestFingerprint newLockedUntil newExpiresAt = sql_exec (\<lambda>t.
     let (affected, t1) = sql_update (\<lambda>r. ir_ID r = i \<and> ir_Status r = IdempotencyStatusProcessing \<and>
             ir_Fingerprint r = requestFingerprint)
           (extended_row newLockedUntil newExpiresAt) t
     in (Inr (affected > 0), t1))"

definition sql_MarkSucceeded :: "int \<Rightarrow> int \<Rightarrow> string \<Rightarrow> gotime \<Rightarrow>
    idem_table \<Rightarrow> (go_error + unit) \<times> idem_table" where
  "sql_MarkSucceeded i responseStatus responseBody expiresAt = sql_exec (\<lambda>t.
     (Inr (), snd (sql_update (\<lambda>r. ir_ID r = i) (succeeded_row responseStatus responseBody expiresAt) t)))"

definition sql_MarkFailedRetryable :: "int \<Rightarrow> string \<Rightarrow> gotime \<Rightarrow> gotime \<Rightarrow>
    idem_table \<Rightarrow> (go_error + unit) \<times> idem_table" where
  "sql_MarkFailedRetryable i errorReason lockedUntil expiresAt = sql_exec (\<lambda>t.
     if utf8_chars errorReason > 128 \<and> (\<exists>r \<in> set (it_rows t). ir_ID r = i)
     then (Inl value_too_long, t)
     else (Inr (), snd (sql_update (\<lambda>r. ir_ID r = i) (failed_row errorReason lockedUntil expiresAt) t)))"

text \<open>\<open>ORDER BY expires_at ASC LIMIT n\<close>; rows with equal expiry come in table order.\<close>

definition expired_victims :: "gotime \<Rightarrow> int \<Rightarrow> IdempotencyRecord list \<Rightarrow> int list" where
  "expired_victims now limit rows =
     map ir_ID (take (nat limit) (sort_key ir_ExpiresAt (filter (\<lambda>r. ir_ExpiresAt r \<le> now) rows)))"

definition sql_DeleteExpired :: "gotime \<Rightarrow> int \<Rightarrow> idem_table \<Rightarrow> (go_error + int) \<times> idem_table" where
  "sql_DeleteExpired now limit = sql_exec (\<lambda>t.
     let lim = (if limit \<le> 0 then 500 else limit);
         victims = expired_victims now lim (it_rows t);
         kept = filter (\<lambda>r. ir_ID r \<notin> set victims) (it_rows t)
     in (Inr (int (length (it_rows t)) - int (length kept)), t\<lparr>it_rows := kept\<rparr>))"

definition sql_repo :: "idem_table IdempotencyRepository" where
  "sql_repo = \<lparr>CreateProcessing = sql_CreateProcessing,
     GetByScopeAndKeyHash = sql_GetByScopeAndKeyHash, TryReclaim = sql_TryReclaim,
     ExtendProcessingLock = sql_ExtendProcessingLock, MarkSucceeded = sql_MarkSucceeded,
     MarkFailedRetryable = sql_MarkFailedRetryable, DeleteExpired = sql_DeleteExpired\<rparr>"

section \<open>The contract of the interface\<close>

text \<open>
  \<open>view\<close> reads the record stored for a scope and a key hash, \<open>ok\<close> is the implementation's
  invariant and \<open>up\<close> says that the store answers. Every operation keeps the invariant, an
  operation that fails changes no record, and the updates act on the record with the given id.
\<close>

definition record_fits :: "IdempotencyRecord \<Rightarrow> bool" where
  "record_fits r \<longleftrightarrow> utf8_chars (ir_Scope r) \<le> 128 \<and> utf8_chars (ir_KeyHash r) \<le> 64 \<and>
     utf8_chars (ir_Fingerprint r) \<le> 64 \<and> utf8_chars (ir_Status r) \<le> 32"

definition on_row :: "int \<Rightarrow> (IdempotencyRecord \<Rightarrow> bool) \<Rightarrow> (IdempotencyRecord \<Rightarrow> IdempotencyRecord) \<Rightarrow>
    IdempotencyRecord option \<Rightarrow> IdempotencyRecord option" where
  "on_row i cond upd = map_option (\<lambda>r. if ir_ID r = i \<and> cond r then upd r else r)"

definition has_row :: "int \<Rightarrow> (IdempotencyRecord \<Rightarrow> bool) \<Rightarrow> (string \<times> string \<Rightarrow> IdempotencyRecord option) \<Rightarrow> bool" where
  "has_row i cond v \<longleftrightarrow> (\<exists>k r. v k = Some r \<and> ir_ID r = i \<and> cond r)"

definition same_claim :: "IdempotencyRecord \<Rightarrow> IdempotencyRecord \<Rightarrow> bool" where
  "same_claim r r' \<longleftrightarrow> ir_Fingerprint r = ir_Fingerprint r' \<and> ir_Status r = ir_Status r' \<and>
     ir_LockedUntil r = ir_LockedUntil r' \<and> ir_ExpiresAt r = ir_ExpiresAt r'"

locale idempotency_store =
  fixes R :: "'r IdempotencyRepository"
    and ok :: "'r \<Rightarrow> bool"
    and up :: "'r \<Rightarrow> bool"
    and view :: "'r \<Rightarrow> string \<times> string \<Rightarrow> IdempotencyRecord option"
  assumes view_key: "ok s \<Longrightarrow> view s k = Some r \<Longrightarrow> 0 < ir_ID r \<and> (ir_Scope r, ir_KeyHash r) = k"
    and view_id: "ok s \<Longrightarrow> view s k = Some r \<Longrightarrow> view s k' = Some r' \<Longrightarrow> ir_ID r = ir_ID r' \<Longrightarrow> k = k'"
    and create: "ok s \<Longrightarrow> CreateProcessing R rec s = (Inr (b, rec'), s') \<Longrightarrow> ok s' \<and>
      (if view s (ir_Scope rec, ir_KeyHash rec) = None
       then b \<and> 0 < ir_ID rec' \<and> (\<exists>row. view s' = (view s)((ir_Scope rec, ir_KeyHash rec) \<mapsto> row) \<and>
              ir_ID row = ir_ID rec' \<and> same_claim row rec)
       else \<not> b \<and> view s' = view s)"
    and create_err: "ok s \<Longrightarrow> CreateProcessing R rec s = (Inl e, s') \<Longrightarrow>
      ok s' \<and> view s' = view s \<and> (record_fits rec \<longrightarrow> \<not> up s)"
    and get: "ok s \<Longrightarrow> GetByScopeAndKeyHash R sc kh s = (Inr o1, s') \<Longrightarrow>
      ok s' \<and> view s' = view s \<and> o1 = view s (sc, kh)"
    and get_err: "ok s \<Longrightarrow> GetByScopeAndKeyHash R sc kh s = (Inl e, s') \<Longrightarrow>
      ok s' \<and> view s' = view s \<and> \<not> up s"
    and reclaim: "ok s \<Longrightarrow> TryReclaim R i fs now l x s = (Inr b, s') \<Longrightarrow>
      ok s' \<and> b = has_row i (reclaimable fs now) (view s) \<and>
      (\<exists>u. view s' = on_row i (reclaimable fs now) (reclaimed_row l x u) \<circ> view s)"
    and reclaim_err: "ok s \<Longrightarrow> TryReclaim R i fs now l x s = (Inl e, s') \<Longrightarrow>
      ok s' \<and> view s' = view s \<and> \<not> up s"
    and extend: "ok s \<Longrightarrow> ExtendProcessingLock R i fp l x s = (Inr b, s') \<Longrightarrow>
      ok s' \<and>
      b = has_row i (\<lambda>r. ir_Status r = IdempotencyStatusProcessing \<and> ir_Fingerprint r = fp) (view s) \<and>
      (\<exists>u. view s' = on_row i (\<lambda>r. ir_Status r = IdempotencyStatusProcessing \<and> ir_Fingerprint r = fp)
              (extended_row l x u) \<circ> view s)"
    and extend_err: "ok s \<Longrightarrow> ExtendProcessingLock R i fp l x s = (Inl e, s') \<Longrightarrow>
      ok s' \<and> view s' = view s \<and> \<not> up s"
    and succeed: "ok s \<Longrightarrow> MarkSucceeded R i rs body x s = (Inr v, s') \<Longrightarrow>
      ok s' \<and> (\<exists>u. view s' = on_row i (\<lambda>_. True) (succeeded_row rs body x u) \<circ> view s)"
    and succeed_err: "ok s \<Longrightarrow> MarkSucceeded R i rs body x s = (Inl e, s') \<Longrightarrow>
      ok s' \<and> view s' = view s \<and> \<not> up s"
    and fail: "ok s \<Longrightarrow> MarkFailedRetryable R i why l x s = (Inr v, s') \<Longrightarrow>
      ok s' \<and> (\<exists>u. view s' = on_row i (\<lambda>_. True) (failed_row why l x u) \<circ> view s)"
    and fail_err: "ok s \<Longrightarrow> MarkFailedRetryable R i why l x s = (Inl e, s') \<Longrightarrow>
      ok s' \<and> view s' = view s \<and> (utf8_chars why \<le> 128 \<longrightarrow> \<not> up s)"
    and delete: "ok s \<Longrightarrow> DeleteExpired R now lim s = (res, s') \<Longrightarrow> ok s' \<and>
      (\<forall>k. view s' k = view s k \<or>
           (view s' k = None \<and> (\<exists>r. view s k = Some r \<and> ir_ExpiresAt r \<le> now)))"
    and up_create: "up s \<Longrightarrow> CreateProcessing R rec s = (r1, s') \<Longrightarrow> up s'"
    and up_get: "up s \<Longrightarrow> GetByScopeAndKeyHash R sc kh s = (r2, s') \<Longrightarrow> up s'"
    and up_reclaim: "up s \<Longrightarrow> TryReclaim R i fs now l x s = (r3, s') \<Longrightarrow> up s'"
    and up_succeed: "up s \<Longrightarrow> MarkSucceeded R i rs body x s = (r4, s') \<Longrightarrow> up s'"
    and up_fail: "up s \<Longrightarrow> MarkFailedRetryable R i why l x s = (r5, s') \<Longrightarrow> up s'"
    and up_extend: "up s \<Longrightarrow> ExtendProcessingLock R i fp l x s = (r6, s') \<Longrightarrow> up s'"
begin

lemma on_row_at:
  assumes "ok s" "view s k = Some r" "ir_ID r = i" "cond r"
  shows "on_row i cond upd \<circ> view s = (view s)(k \<mapsto> upd r)"
proof
  fix k'
  show "(on_row i cond upd \<circ> view s) k' = ((view s)(k \<mapsto> upd r)) k'"
  proof (cases "k' = k")
    case True
    with assms show ?thesis by (simp add: on_row_def)
  next
    case False
    then show ?thesis using view_id [OF assms(1,2), of k'] assms(3)
      by (cases "view s k'") (auto simp: on_row_def)
  qed
qed

lemma has_row_at:
  "ok s \<Longrightarrow> view s k = Some r \<Longrightarrow> ir_ID r = i \<Longrightarrow> has_row i cond (view s) = cond r"
  unfolding has_row_def by (metis option.inject view_id)

lemma on_row_not: "\<not> has_row i cond v \<Longrightarrow> on_row i cond upd \<circ> v = v"
  by (rule ext, case_tac "v x") (auto simp: on_row_def has_row_def)

lemma reclaim_at:
  assumes "ok s" "view s k = Some r" "TryReclaim R (ir_ID r) fs now l x s = (Inr b, s')"
  shows "b = reclaimable fs now r \<and> ok s' \<and>
         (\<exists>u. view s' = (if b then (view s)(k \<mapsto> reclaimed_row l x u r) else view s))"
  using reclaim [OF assms(1,3)] has_row_at [OF assms(1,2) refl] on_row_at [OF assms(1,2) refl]
    on_row_not by auto

end

section \<open>The SQL implementation meets it\<close>

definition tbl_ok :: "idem_table \<Rightarrow> bool" where
  "tbl_ok t \<longleftrightarrow> distinct (map ir_ID (it_rows t)) \<and>
     distinct (map (\<lambda>r. (ir_Scope r, ir_KeyHash r)) (it_rows t)) \<and>
     0 < it_next_id t \<and> (\<forall>r \<in> set (it_rows t). 0 < ir_ID r \<and> ir_ID r < it_next_id t)"

definition tbl_up :: "idem_table \<Rightarrow> bool" where
  "tbl_up t \<longleftrightarrow> list_all (\<lambda>f. f = None) (it_faults t)"

definition tbl_view :: "idem_table \<Rightarrow> string \<times> string \<Rightarrow> IdempotencyRecord option" where
  "tbl_view t k = find (\<lambda>r. (ir_Scope r, ir_KeyHash r) = k) (it_rows t)"

lemma tbl_view_Some: "tbl_view t k = Some r \<Longrightarrow> r \<in> set (it_rows t) \<and> (ir_Scope r, ir_KeyHash r) = k"
  by (auto simp: tbl_view_def find_Some_iff)

lemma tbl_view_None: "tbl_view t k = None \<longleftrightarrow> k \<notin> (\<lambda>r. (ir_Scope r, ir_KeyHash r)) ` set (it_rows t)"
  by (auto simp: tbl_view_def find_None_iff)

lemma tbl_view_mem:
  "tbl_ok t \<Longrightarrow> r \<in> set (it_rows t) \<Longrightarrow> tbl_view t (ir_Scope r, ir_KeyHash r) = Some r"
proof -
  assume ok: "tbl_ok t" and r: "r \<in> set (it_rows t)"
  let ?k = "\<lambda>r. (ir_Scope r, ir_KeyHash r)"
  have "tbl_view t (?k r) \<noteq> None" unfolding tbl_view_None using r by blast
  then obtain r' where r': "tbl_view t (?k r) = Some r'" by blast
  have inj: "inj_on ?k (set (it_rows t))" using ok by (simp add: tbl_ok_def distinct_map)
  from tbl_view_Some [OF r'] have "r' \<in> set (it_rows t)" "?k r' = ?k r" by simp_all
  with inj r have "r' = r" by (meson inj_onD)
  with r' show ?thesis by simp
qed

lemma has_row_tbl: "tbl_ok t \<Longrightarrow> has_row i cond (tbl_view t) \<longleftrightarrow> (\<exists>r \<in> set (it_rows t). ir_ID r = i \<and> cond r)"
  unfolding has_row_def using tbl_view_Some [of t] tbl_view_mem [of t] by blast

lemma find_append_last:
  "find P (xs @ [x]) = (case find P xs of Some y \<Rightarrow> Some y | None \<Rightarrow> if P x then Some x else None)"
  by (induction xs) auto

lemma find_map_key: "(\<And>r. P (f r) = P r) \<Longrightarrow> find P (map f xs) = map_option f (find P xs)"
  by (induction xs) auto

lemma sql_exec_cases:
  assumes "sql_exec stmt t = (res, t')"
  obtains (fault) e fs where "res = Inl e" "t' = t\<lparr>it_faults := fs\<rparr>" "\<not> tbl_up t"
  | (run) fs where "stmt (t\<lparr>it_faults := fs\<rparr>) = (res, t')" "tbl_up t \<Longrightarrow> list_all (\<lambda>f. f = None) fs"
proof (cases "it_faults t")
  case Nil
  with assms run [of "[]"] show ?thesis by (cases t) (simp add: sql_exec_def)
next
  case (Cons f fs)
  with assms fault run [of fs] show ?thesis
    by (cases f) (auto simp: sql_exec_def tbl_up_def)
qed

lemma tbl_faults [simp]:
  "tbl_ok (t\<lparr>it_faults := fs\<rparr>) = tbl_ok t" "tbl_view (t\<lparr>it_faults := fs\<rparr>) = tbl_view t"
  "tbl_up (t\<lparr>it_faults := fs\<rparr>) = list_all (\<lambda>f. f = None) fs"
  by (simp_all add: tbl_ok_def tbl_view_def tbl_up_def fun_eq_iff)

text \<open>An update that keeps ids and keys: what it does to the invariant and to the view.\<close>

definition keeps_keys :: "(gotime \<Rightarrow> IdempotencyRecord \<Rightarrow> IdempotencyRecord) \<Rightarrow> bool" where
  "keeps_keys upd \<longleftrightarrow> (\<forall>u r. ir_ID (upd u r) = ir_ID r \<and> ir_Scope (upd u r) = ir_Scope r \<and>
     ir_KeyHash (upd u r) = ir_KeyHash r)"

lemma keeps_keys_rows [simp]:
  "keeps_keys (reclaimed_row l x)" "keeps_keys (extended_row l x)"
  "keeps_keys (succeeded_row st body x)" "keeps_keys (failed_row why l x)"
  by (simp_all add: keeps_keys_def row_defs)

lemma sql_update:
  assumes "keeps_keys upd" "tbl_ok t" "sql_update (\<lambda>r. ir_ID r = i \<and> cond r) upd t = (n, t')"
  shows "tbl_ok t' \<and> (n > 0) = has_row i cond (tbl_view t) \<and>
         (\<exists>u. tbl_view t' = on_row i cond (upd u) \<circ> tbl_view t) \<and> it_faults t' = it_faults t"
proof -
  let ?f = "\<lambda>r. if ir_ID r = i \<and> cond r then upd (it_now t) r else r"
  have t': "t' = t\<lparr>it_rows := map ?f (it_rows t)\<rparr>"
    and n: "n = length (filter (\<lambda>r. ir_ID r = i \<and> cond r) (it_rows t))"
    using assms(3) by (auto simp: sql_update_def)
  have key: "ir_ID (?f r) = ir_ID r" "ir_Scope (?f r) = ir_Scope r" "ir_KeyHash (?f r) = ir_KeyHash r" for r
    using assms(1) by (auto simp: keeps_keys_def)
  have "tbl_ok t'"
    using assms(1,2) key by (auto simp: t' tbl_ok_def comp_def keeps_keys_def)
  moreover have "tbl_view t' k = map_option ?f (tbl_view t k)" for k
    unfolding t' tbl_view_def by (simp add: key find_map_key del: if_split)
  then have "tbl_view t' = on_row i cond (upd (it_now t)) \<circ> tbl_view t"
    by (simp add: on_row_def fun_eq_iff)
  moreover have "(n > 0) = has_row i cond (tbl_view t)"
    unfolding n has_row_tbl [OF assms(2)] by (auto simp: filter_empty_conv)
  ultimately show ?thesis by (auto simp: t')
qed

lemmas sql_op_defs = sql_repo_def sql_CreateProcessing_def sql_GetByScopeAndKeyHash_def
  sql_TryReclaim_def sql_ExtendProcessingLock_def sql_MarkSucceeded_def
  sql_MarkFailedRetryable_def sql_DeleteExpired_def

lemma sql_create:
  assumes ok: "tbl_ok t" and e: "sql_CreateProcessing rec t = (res, t')"
  shows "case res of
      Inl e \<Rightarrow> tbl_ok t' \<and> tbl_view t' = tbl_view t \<and> (record_fits rec \<longrightarrow> \<not> tbl_up t)
    | Inr (b, rec') \<Rightarrow> tbl_ok t' \<and>
        (if tbl_view t (ir_Scope rec, ir_KeyHash rec) = None
         then b \<and> 0 < ir_ID rec' \<and> (\<exists>row. tbl_view t' = (tbl_view t)((ir_Scope rec, ir_KeyHash rec) \<mapsto> row) \<and>
                ir_ID row = ir_ID rec' \<and> same_claim row rec)
         else \<not> b \<and> tbl_view t' = tbl_view t)"
  using e unfolding sql_CreateProcessing_def
proof (cases rule: sql_exec_cases)
  case fault
  with ok show ?thesis by simp
next
  case (run fs)
  let ?k = "(ir_Scope rec, ir_KeyHash rec)"
  let ?row = "zero_ir\<lparr>ir_ID := it_next_id t, ir_Scope := ir_Scope rec,
             ir_KeyHash := ir_KeyHash rec, ir_Fingerprint := ir_Fingerprint rec,
             ir_Status := ir_Status rec, ir_LockedUntil := ir_LockedUntil rec,
             ir_ExpiresAt := ir_ExpiresAt rec, ir_CreatedAt := it_now t, ir_UpdatedAt := it_now t\<rparr>"
  have ex: "(\<exists>r \<in> set (it_rows t). ir_Scope r = ir_Scope rec \<and> ir_KeyHash r = ir_KeyHash rec)
      = (tbl_view t ?k \<noteq> None)" unfolding tbl_view_None by (auto simp: image_iff) metis
  show ?thesis
  proof (cases "record_fits rec")
    case False
    with run ok show ?thesis by (auto simp: record_fits_def)
  next
    case fits: True
    show ?thesis
    proof (cases "tbl_view t ?k = None")
      case False
      with run fits ex have r: "res = Inr (False, rec)"
        "t' = t\<lparr>it_faults := fs, it_next_id := it_next_id t + 1\<rparr>" by (auto simp: record_fits_def)
      have "tbl_ok t'" using ok by (auto simp: r tbl_ok_def)
      moreover have "tbl_view t' = tbl_view t" by (simp add: r tbl_view_def fun_eq_iff)
      ultimately show ?thesis using False by (simp add: r)
    next
      case True
      then have "\<not> (\<exists>r \<in> set (it_rows t). ir_Scope r = ir_Scope rec \<and> ir_KeyHash r = ir_KeyHash rec)"
        using ex by simp
      with run(1) fits have
        r: "res = Inr (True, rec\<lparr>ir_ID := it_next_id t, ir_CreatedAt := it_now t, ir_UpdatedAt := it_now t\<rparr>)"
        and t': "t' = t\<lparr>it_faults := fs, it_rows := it_rows t @ [?row], it_next_id := it_next_id t + 1\<rparr>"
        by (simp_all add: record_fits_def Let_def del: bex_simps ball_simps)
      have "tbl_ok t'" using ok True unfolding tbl_view_None by (force simp: t' tbl_ok_def)
      moreover have "tbl_view t' = (tbl_view t)(?k \<mapsto> ?row)"
      proof
        fix k
        have "tbl_view t' k = (case tbl_view t k of Some y \<Rightarrow> Some y | None \<Rightarrow>
            if (ir_Scope ?row, ir_KeyHash ?row) = k then Some ?row else None)"
          unfolding tbl_view_def t' by (simp add: find_append_last)
        then show "tbl_view t' k = ((tbl_view t)(?k \<mapsto> ?row)) k"
          using True by (auto split: option.split)
      qed
      moreover have "0 < it_next_id t" using ok by (simp add: tbl_ok_def)
      ultimately show ?thesis using True by (auto simp: r same_claim_def intro!: exI [of _ ?row])
    qed
  qed
qed

lemma tbl_filter:
  assumes "tbl_ok t" "t' = t\<lparr>it_faults := fs, it_rows := filter P (it_rows t)\<rparr>"
  shows "tbl_ok t' \<and> (\<forall>k. tbl_view t' k = (case tbl_view t k of Some r \<Rightarrow> if P r then Some r else None | None \<Rightarrow> None))"
proof
  show ok': "tbl_ok t'" using assms by (auto simp: tbl_ok_def distinct_map_filter)
  show "\<forall>k. tbl_view t' k = (case tbl_view t k of Some r \<Rightarrow> if P r then Some r else None | None \<Rightarrow> None)"
  proof
    fix k
    show "tbl_view t' k = (case tbl_view t k of Some r \<Rightarrow> if P r then Some r else None | None \<Rightarrow> None)"
    proof (cases "tbl_view t' k")
      case None
      then show ?thesis using tbl_view_None [of t' k] tbl_view_Some [of t k]
        by (auto simp: assms(2) split: option.split)
    next
      case (Some r)
      from tbl_view_Some [OF this] have "r \<in> set (it_rows t)" "P r" "(ir_Scope r, ir_KeyHash r) = k"
        by (auto simp: assms(2))
      with tbl_view_mem [OF assms(1)] Some show ?thesis by auto
    qed
  qed
qed

lemma expired_victims_expired:
  "tbl_ok t \<Longrightarrow> r \<in> set (it_rows t) \<Longrightarrow> ir_ID r \<in> set (expired_victims now lim (it_rows t)) \<Longrightarrow>
     ir_ExpiresAt r \<le> now"
proof -
  assume ok: "tbl_ok t" and r: "r \<in> set (it_rows t)" and v: "ir_ID r \<in> set (expired_victims now lim (it_rows t))"
  then obtain r' where r': "ir_ID r' = ir_ID r" "r' \<in> set (it_rows t)" "ir_ExpiresAt r' \<le> now"
    by (auto simp: expired_victims_def dest!: in_set_takeD)
  with ok r have "r' = r" by (auto simp: tbl_ok_def distinct_map dest: inj_onD)
  with r' show ?thesis by simp
qed

lemma sql_delete:
  assumes ok: "tbl_ok t" and e: "sql_DeleteExpired now lim t = (res, t')"
  shows "tbl_ok t' \<and> (\<forall>k. tbl_view t' k = tbl_view t k \<or>
           (tbl_view t' k = None \<and> (\<exists>r. tbl_view t k = Some r \<and> ir_ExpiresAt r \<le> now)))"
  using e unfolding sql_DeleteExpired_def
proof (cases rule: sql_exec_cases)
  case (run fs)
  let ?v = "expired_victims now (if lim \<le> 0 then 500 else lim) (it_rows t)"
  from run have "t' = t\<lparr>it_faults := fs, it_rows := filter (\<lambda>r. ir_ID r \<notin> set ?v) (it_rows t)\<rparr>"
    by (auto simp: Let_def)
  from tbl_filter [OF ok this] show ?thesis
    using expired_victims_expired [OF ok] tbl_view_Some [of t]
    by (auto split: option.splits if_splits)
qed (use ok in simp)

text \<open>The two conditional updates and the two marks.\<close>

lemma sql_reclaim:
  assumes ok: "tbl_ok t" and e: "sql_TryReclaim i fs now l x t = (res, t')"
  shows "tbl_ok t' \<and> (case res of
      Inl e \<Rightarrow> tbl_view t' = tbl_view t \<and> \<not> tbl_up t
    | Inr b \<Rightarrow> b = has_row i (reclaimable fs now) (tbl_view t) \<and>
        (\<exists>u. tbl_view t' = on_row i (reclaimable fs now) (reclaimed_row l x u) \<circ> tbl_view t))"
  using e unfolding sql_TryReclaim_def
proof (cases rule: sql_exec_cases)
  case (run fs')
  obtain n t1 where u: "sql_update (\<lambda>r. ir_ID r = i \<and> reclaimable fs now r) (reclaimed_row l x)
      (t\<lparr>it_faults := fs'\<rparr>) = (n, t1)" by fastforce
  with run have "res = Inr (n > 0)" "t' = t1" by auto
  with sql_update [OF _ _ u] ok show ?thesis by simp
qed (use ok in simp)

lemma sql_extend:
  assumes ok: "tbl_ok t" and e: "sql_ExtendProcessingLock i fp l x t = (res, t')"
  shows "tbl_ok t' \<and> (case res of
      Inl e \<Rightarrow> tbl_view t' = tbl_view t \<and> \<not> tbl_up t
    | Inr b \<Rightarrow>
        b = has_row i (\<lambda>r. ir_Status r = IdempotencyStatusProcessing \<and> ir_Fingerprint r = fp) (tbl_view t) \<and>
        (\<exists>u. tbl_view t' = on_row i (\<lambda>r. ir_Status r = IdempotencyStatusProcessing \<and> ir_Fingerprint r = fp)
                (extended_row l x u) \<circ> tbl_view t))"
  using e unfolding sql_ExtendProcessingLock_def
proof (cases rule: sql_exec_cases)
  case (run fs')
  obtain n t1 where u: "sql_update (\<lambda>r. ir_ID r = i \<and> ir_Status r = IdempotencyStatusProcessing \<and>
      ir_Fingerprint r = fp) (extended_row l x) (t\<lparr>it_faults := fs'\<rparr>) = (n, t1)" by fastforce
  with run have "res = Inr (n > 0)" "t' = t1" by auto
  with sql_update [OF _ _ u] ok show ?thesis by simp
qed (use ok in simp)

lemma sql_update_all:
  assumes "keeps_keys upd" "tbl_ok t"
  shows "tbl_ok (snd (sql_update (\<lambda>r. ir_ID r = i) upd t)) \<and>
         (\<exists>u. tbl_view (snd (sql_update (\<lambda>r. ir_ID r = i) upd t)) = on_row i (\<lambda>_. True) (upd u) \<circ> tbl_view t)"
  using sql_update [OF assms, of i "\<lambda>_. True"]
  by (cases "sql_update (\<lambda>r. ir_ID r = i) upd t") auto

lemma sql_succeed:
  assumes ok: "tbl_ok t" and e: "sql_MarkSucceeded i rs body x t = (res, t')"
  shows "tbl_ok t' \<and> (case res of
      Inl e \<Rightarrow> tbl_view t' = tbl_view t \<and> \<not> tbl_up t
    | Inr v \<Rightarrow> (\<exists>u. tbl_view t' = on_row i (\<lambda>_. True) (succeeded_row rs body x u) \<circ> tbl_view t))"
  using e unfolding sql_MarkSucceeded_def
proof (cases rule: sql_exec_cases)
  case (run fs')
  with sql_update_all [of "succeeded_row rs body x" "t\<lparr>it_faults := fs'\<rparr>" i] ok show ?thesis by auto
qed (use ok in simp)

lemma sql_fail:
  assumes ok: "tbl_ok t" and e: "sql_MarkFailedRetryable i why l x t = (res, t')"
  shows "tbl_ok t' \<and> (case res of
      Inl e \<Rightarrow> tbl_view t' = tbl_view t \<and> (utf8_chars why \<le> 128 \<longrightarrow> \<not> tbl_up t)
    | Inr v \<Rightarrow> (\<exists>u. tbl_view t' = on_row i (\<lambda>_. True) (failed_row why l x u) \<circ> tbl_view t))"
  using e unfolding sql_MarkFailedRetryable_def
proof (cases rule: sql_exec_cases)
  case (run fs')
  with sql_update_all [of "failed_row why l x" "t\<lparr>it_faults := fs'\<rparr>" i] ok show ?thesis
    by (auto split: if_splits)
qed (use ok in simp)

lemma sql_get:
  assumes ok: "tbl_ok t" and e: "sql_GetByScopeAndKeyHash sc kh t = (res, t')"
  shows "tbl_ok t' \<and> tbl_view t' = tbl_view t \<and>
    (case res of Inl e \<Rightarrow> \<not> tbl_up t | Inr o1 \<Rightarrow> o1 = tbl_view t (sc, kh))"
  using e unfolding sql_GetByScopeAndKeyHash_def
proof (cases rule: sql_exec_cases)
  case (run fs')
  then have "res = Inr (tbl_view t (sc, kh))" "t' = t\<lparr>it_faults := fs'\<rparr>"
    by (auto simp: tbl_view_def)
  with ok show ?thesis by simp
qed (use ok in simp)

text \<open>No statement brings faults back.\<close>

lemma sql_exec_up:
  assumes "sql_exec stmt t = (res, t')" "tbl_up t" "\<And>t. it_faults (snd (stmt t)) = it_faults t"
  shows "tbl_up t'"
  using assms(1)
proof (cases rule: sql_exec_cases)
  case (run fs)
  with assms(2) assms(3) [of "t\<lparr>it_faults := fs\<rparr>"] show ?thesis by (simp add: tbl_up_def)
qed (use assms(2) in simp)

lemma sql_update_faults: "sql_update cond upd t = (n, t') \<Longrightarrow> it_faults t' = it_faults t"
  by (auto simp: sql_update_def)

interpretation idem_sql: idempotency_store sql_repo tbl_ok tbl_up tbl_view
proof unfold_locales
  fix s k r assume "tbl_ok s" "tbl_view s k = Some r"
  then show "0 < ir_ID r \<and> (ir_Scope r, ir_KeyHash r) = k"
    using tbl_view_Some [of s k r] by (auto simp: tbl_ok_def)
next
  fix s k r k' r' assume "tbl_ok s" "tbl_view s k = Some r" "tbl_view s k' = Some r'" "ir_ID r = ir_ID r'"
  then show "k = k'"
    using tbl_view_Some [of s k r] tbl_view_Some [of s k' r']
    by (auto simp: tbl_ok_def distinct_map dest: inj_onD)
next
  fix s rec b rec' s' assume "tbl_ok s" "CreateProcessing sql_repo rec s = (Inr (b, rec'), s')"
  then show "tbl_ok s' \<and> (if tbl_view s (ir_Scope rec, ir_KeyHash rec) = None
       then b \<and> 0 < ir_ID rec' \<and> (\<exists>row. tbl_view s' = (tbl_view s)((ir_Scope rec, ir_KeyHash rec) \<mapsto> row) \<and>
              ir_ID row = ir_ID rec' \<and> same_claim row rec)
       else \<not> b \<and> tbl_view s' = tbl_view s)"
    using sql_create by (fastforce simp: sql_repo_def)
next
  fix s rec e s' assume "tbl_ok s" "CreateProcessing sql_repo rec s = (Inl e, s')"
  then show "tbl_ok s' \<and> tbl_view s' = tbl_view s \<and> (record_fits rec \<longrightarrow> \<not> tbl_up s)"
    using sql_create by (fastforce simp: sql_repo_def)
next
  fix s i fs now l x b s' assume "tbl_ok s" "TryReclaim sql_repo i fs now l x s = (Inr b, s')"
  then show "tbl_ok s' \<and> b = has_row i (reclaimable fs now) (tbl_view s) \<and>
      (\<exists>u. tbl_view s' = on_row i (reclaimable fs now) (reclaimed_row l x u) \<circ> tbl_view s)"
    using sql_reclaim by (fastforce simp: sql_repo_def)
next
  fix s i fp l x b s' assume "tbl_ok s" "ExtendProcessingLock sql_repo i fp l x s = (Inr b, s')"
  then show "tbl_ok s' \<and>
      b = has_row i (\<lambda>r. ir_Status r = IdempotencyStatusProcessing \<and> ir_Fingerprint r = fp) (tbl_view s) \<and>
      (\<exists>u. tbl_view s' = on_row i (\<lambda>r. ir_Status r = IdempotencyStatusProcessing \<and> ir_Fingerprint r = fp)
              (extended_row l x u) \<circ> tbl_view s)"
    using sql_extend by (fastforce simp: sql_repo_def)
next
  fix s now lim res s' assume "tbl_ok s" "DeleteExpired sql_repo now lim s = (res, s')"
  then show "tbl_ok s' \<and> (\<forall>k. tbl_view s' k = tbl_view s k \<or>
           (tbl_view s' k = None \<and> (\<exists>r. tbl_view s k = Some r \<and> ir_ExpiresAt r \<le> now)))"
    using sql_delete by (simp add: sql_repo_def)
next
  fix s rec r s' assume "tbl_up s" "CreateProcessing sql_repo rec s = (r, s')"
  then show "tbl_up s'"
    by (auto simp: sql_repo_def sql_CreateProcessing_def Let_def elim!: sql_exec_up)
next
  fix s sc kh r s' assume "tbl_up s" "GetByScopeAndKeyHash sql_repo sc kh s = (r, s')"
  then show "tbl_up s'"
    by (auto simp: sql_repo_def sql_GetByScopeAndKeyHash_def elim!: sql_exec_up)
next
  fix s i fs now l x r s' assume "tbl_up s" "TryReclaim sql_repo i fs now l x s = (r, s')"
  then show "tbl_up s'"
    by (auto simp: sql_repo_def sql_TryReclaim_def elim!: sql_exec_up dest: sql_update_faults split: prod.split)
next
  fix s i fp l x r s' assume "tbl_up s" "ExtendProcessingLock sql_repo i fp l x s = (r, s')"
  then show "tbl_up s'"
    by (auto simp: sql_repo_def sql_ExtendProcessingLock_def elim!: sql_exec_up dest: sql_update_faults split: prod.split)
next
  fix s i why l x r s' assume "tbl_up s" "MarkFailedRetryable sql_repo i why l x s = (r, s')"
  then show "tbl_up s'"
    by (auto simp: sql_repo_def sql_MarkFailedRetryable_def sql_update_def elim!: sql_exec_up)
next
  fix s i rs body x r s' assume "tbl_up s" "MarkSucceeded sql_repo i rs body x s = (r, s')"
  then show "tbl_up s'"
    by (auto simp: sql_repo_def sql_MarkSucceeded_def sql_update_def elim!: sql_exec_up)
next
  fix s sc kh o1 s' assume "tbl_ok s" "GetByScopeAndKeyHash sql_repo sc kh s = (Inr o1, s')"
  then show "tbl_ok s' \<and> tbl_view s' = tbl_view s \<and> o1 = tbl_view s (sc, kh)"
    using sql_get by (fastforce simp: sql_repo_def)
next
  fix s sc kh e s' assume "tbl_ok s" "GetByScopeAndKeyHash sql_repo sc kh s = (Inl e, s')"
  then show "tbl_ok s' \<and> tbl_view s' = tbl_view s \<and> \<not> tbl_up s"
    using sql_get by (fastforce simp: sql_repo_def)
next
  fix s i fs now l x e s' assume "tbl_ok s" "TryReclaim sql_repo i fs now l x s = (Inl e, s')"
  then show "tbl_ok s' \<and> tbl_view s' = tbl_view s \<and> \<not> tbl_up s"
    using sql_reclaim by (fastforce simp: sql_repo_def)
next
  fix s i fp l x e s' assume "tbl_ok s" "ExtendProcessingLock sql_repo i fp l x s = (Inl e, s')"
  then show "tbl_ok s' \<and> tbl_view s' = tbl_view s \<and> \<not> tbl_up s"
    using sql_extend by (fastforce simp: sql_repo_def)
next
  fix s i rs body x v s' assume "tbl_ok s" "MarkSucceeded sql_repo i rs body x s = (Inr v, s')"
  then show "tbl_ok s' \<and> (\<exists>u. tbl_view s' = on_row i (\<lambda>_. True) (succeeded_row rs body x u) \<circ> tbl_view s)"
    using sql_succeed by (fastforce simp: sql_repo_def)
next
  fix s i rs body x e s' assume "tbl_ok s" "MarkSucceeded sql_repo i rs body x s = (Inl e, s')"
  then show "tbl_ok s' \<and> tbl_view s' = tbl_view s \<and> \<not> tbl_up s"
    using sql_succeed by (fastforce simp: sql_repo_def)
next
  fix s i why l x v s' assume "tbl_ok s" "MarkFailedRetryable sql_repo i why l x s = (Inr v, s')"
  then show "tbl_ok s' \<and> (\<exists>u. tbl_view s' = on_row i (\<lambda>_. True) (failed_row why l x u) \<circ> tbl_view s)"
    using sql_fail by (fastforce simp: sql_repo_def)
next
  fix s i why l x e s' assume "tbl_ok s" "MarkFailedRetryable sql_repo i why l x s = (Inl e, s')"
  then show "tbl_ok s' \<and> tbl_view s' = tbl_view s \<and> (utf8_chars why \<le> 128 \<longrightarrow> \<not> tbl_up s)"
    using sql_fail by (fastforce simp: sql_repo_def)
qed

section \<open>What the table guarantees\<close>

text \<open>The calls a client can make, and a run of them.\<close>

datatype repo_call =
    CallCreate IdempotencyRecord
  | CallGet string string
  | CallReclaim int string gotime gotime gotime
  | CallExtend int string gotime gotime
  | CallSucceed int int string gotime
  | CallFail int string gotime gotime
  | CallDelete gotime int

definition do_call :: "'r IdempotencyRepository \<Rightarrow> repo_call \<Rightarrow> 'r \<Rightarrow> 'r" where
  "do_call R c s =
     (case c of
        CallCreate rec \<Rightarrow> snd (CreateProcessing R rec s)
      | CallGet sc kh \<Rightarrow> snd (GetByScopeAndKeyHash R sc kh s)
      | CallReclaim i fs now l x \<Rightarrow> snd (TryReclaim R i fs now l x s)
      | CallExtend i fp l x \<Rightarrow> snd (ExtendProcessingLock R i fp l x s)
      | CallSucceed i rs body x \<Rightarrow> snd (MarkSucceeded R i rs body x s)
      | CallFail i why l x \<Rightarrow> snd (MarkFailedRetryable R i why l x s)
      | CallDelete now lim \<Rightarrow> snd (DeleteExpired R now lim s))"

context idempotency_store
begin

lemma do_call_ok:
  assumes "ok s" shows "ok (do_call R c s)"
proof (cases c)
  case (CallCreate rec)
  then show ?thesis using create [OF assms] create_err [OF assms]
    by (cases "CreateProcessing R rec s" rule: prod.exhaust; cases "fst (CreateProcessing R rec s)")
       (auto simp: do_call_def)
next
  case (CallGet sc kh)
  then show ?thesis using get [OF assms] get_err [OF assms]
    by (cases "GetByScopeAndKeyHash R sc kh s"; cases "fst (GetByScopeAndKeyHash R sc kh s)")
       (auto simp: do_call_def)
next
  case (CallReclaim i fs now l x)
  then show ?thesis using reclaim [OF assms] reclaim_err [OF assms]
    by (cases "TryReclaim R i fs now l x s"; cases "fst (TryReclaim R i fs now l x s)")
       (auto simp: do_call_def)
next
  case (CallExtend i fp l x)
  then show ?thesis using extend [OF assms] extend_err [OF assms]
    by (cases "ExtendProcessingLock R i fp l x s"; cases "fst (ExtendProcessingLock R i fp l x s)")
       (auto simp: do_call_def)
next
  case (CallSucceed i rs body x)
  then show ?thesis using succeed [OF assms] succeed_err [OF assms]
    by (cases "MarkSucceeded R i rs body x s"; cases "fst (MarkSucceeded R i rs body x s)")
       (auto simp: do_call_def)
next
  case (CallFail i why l x)
  then show ?thesis using fail [OF assms] fail_err [OF assms]
    by (cases "MarkFailedRetryable R i why l x s"; cases "fst (MarkFailedRetryable R i why l x s)")
       (auto simp: do_call_def)
next
  case (CallDelete now lim)
  then show ?thesis using delete [OF assms]
    by (cases "DeleteExpired R now lim s") (auto simp: do_call_def)
qed

lemma run_calls_ok: "ok s \<Longrightarrow> ok (fold (do_call R) cs s)"
  by (induction cs arbitrary: s) (auto intro: do_call_ok)

end

definition empty_table :: "gotime \<Rightarrow> go_error option list \<Rightarrow> idem_table" where
  "empty_table now faults = \<lparr>it_rows = [], it_next_id = 1, it_now = now, it_faults = faults\<rparr>"

text \<open>The table of idempotency records keeps at most one record per scope and key, and never
  reuses an id: whatever calls are made to the SQL repository, in whatever order and with whatever
  failures, no two rows share a scope and key hash, and no two rows share an id.\<close>

theorem idempotency_table_unique:
  "let rows = it_rows (fold (do_call sql_repo) calls (empty_table now faults)) in
     distinct (map (\<lambda>r. (ir_Scope r, ir_KeyHash r)) rows) \<and> distinct (map ir_ID rows)"
proof -
  have "tbl_ok (empty_table now faults)" by (simp add: tbl_ok_def empty_table_def)
  then have "tbl_ok (fold (do_call sql_repo) calls (empty_table now faults))"
    by (rule idem_sql.run_calls_ok)
  then show ?thesis by (simp add: tbl_ok_def Let_def)
qed

section \<open>The cleanup service\<close>

record CleanupConfig =
  cc_CleanupIntervalSeconds :: int
  cc_CleanupBatchSize :: int

record 'r IdempotencyCleanupService =
  ics_repo :: "'r IdempotencyRepository"
  ics_interval :: duration
  ics_batch :: int

definition NewIdempotencyCleanupService ::
    "'r IdempotencyRepository \<Rightarrow> CleanupConfig option \<Rightarrow> 'r IdempotencyCleanupService" where
  "NewIdempotencyCleanupService repo cfg =
     \<lparr>ics_repo = repo,
      ics_interval = (case cfg of
         Some c \<Rightarrow> if cc_CleanupIntervalSeconds c > 0 then cc_CleanupIntervalSeconds c * time_Second
                   else 60 * time_Second
       | None \<Rightarrow> 60 * time_Second),
      ics_batch = (case cfg of
         Some c \<Rightarrow> if cc_CleanupBatchSize c > 0 then cc_CleanupBatchSize c else 500
       | None \<Rightarrow> 500)\<rparr>"

text \<open>One round of \<open>runLoop\<close>; the result is the number of rows deleted, 0 when the call failed.\<close>

definition cleanupOnce :: "'r IdempotencyCleanupService \<Rightarrow> gotime \<Rightarrow> 'r \<Rightarrow> int \<times> 'r" where
  "cleanupOnce svc now s =
     (case DeleteExpired (ics_repo svc) now (ics_batch svc) s of
        (Inl e, s1) \<Rightarrow> (0, s1)
      | (Inr deleted, s1) \<Rightarrow> (deleted, s1))"

lemma sorted_take_drop:
  "sorted (map f xs) \<Longrightarrow> x \<in> set (take n xs) \<Longrightarrow> y \<in> set (drop n xs) \<Longrightarrow> f x \<le> f y"
proof -
  assume s: "sorted (map f xs)" and x: "x \<in> set (take n xs)" and y: "y \<in> set (drop n xs)"
  have "sorted (map f (take n xs) @ map f (drop n xs))"
    using s by (metis append_take_drop_id map_append)
  with x y show ?thesis by (auto simp: sorted_append)
qed

lemma length_filter_ids:
  "distinct (map g xs) \<Longrightarrow> set vs \<subseteq> g ` set xs \<Longrightarrow> distinct vs \<Longrightarrow>
     length (filter (\<lambda>x. g x \<notin> set vs) xs) + length vs = length xs"
proof -
  assume d: "distinct (map g xs)" and v: "set vs \<subseteq> g ` set xs" and dv: "distinct vs"
  have dx: "distinct (filter P xs)" for P
    using d by (metis distinct_filter distinct_map)
  then have len: "length (filter P xs) = card (set (filter P xs))" for P
    by (metis distinct_card)
  have inj: "inj_on g (set xs)" using d by (simp add: distinct_map)
  have "g ` set (filter (\<lambda>x. g x \<in> set vs) xs) = set vs" using v by auto
  moreover have "inj_on g (set (filter (\<lambda>x. g x \<in> set vs) xs))" by (rule inj_on_subset [OF inj]) auto
  ultimately have "card (set (filter (\<lambda>x. g x \<in> set vs) xs)) = card (set vs)"
    using card_image by metis
  then have "length (filter (\<lambda>x. g x \<in> set vs) xs) = length vs"
    using dv by (simp only: len distinct_card)
  then show ?thesis
    using sum_length_filter_compl [of "\<lambda>x. g x \<in> set vs" xs] by simp
qed

text \<open>A cleanup round removes expired records only, as many as the batch allows, and the oldest
  first: the number it reports is the smaller of the batch size and the number of expired records,
  and no record it removed expires later than an expired record it left behind.\<close>

theorem cleanup_round:
  assumes ok: "tbl_ok t" and faults: "it_faults t = []"
    and run: "cleanupOnce (NewIdempotencyCleanupService sql_repo cfg) now t = (n, t1)"
  shows "let expired = filter (\<lambda>r. ir_ExpiresAt r \<le> now) in
     n = min (ics_batch (NewIdempotencyCleanupService sql_repo cfg)) (int (length (expired (it_rows t)))) \<and>
     set (it_rows t1) \<subseteq> set (it_rows t) \<and>
     (\<forall>r \<in> set (it_rows t) - set (it_rows t1). ir_ExpiresAt r \<le> now \<and>
        (\<forall>r' \<in> set (expired (it_rows t1)). ir_ExpiresAt r \<le> ir_ExpiresAt r'))"
proof -
  let ?b = "ics_batch (NewIdempotencyCleanupService sql_repo cfg)"
  let ?ex = "filter (\<lambda>r. ir_ExpiresAt r \<le> now) (it_rows t)"
  let ?sorted = "sort_key ir_ExpiresAt ?ex"
  let ?v = "expired_victims now ?b (it_rows t)"
  have b: "0 < ?b" by (simp add: NewIdempotencyCleanupService_def split: option.split)
  have v: "?v = map ir_ID (take (nat ?b) ?sorted)" by (simp add: expired_victims_def)
  have d: "distinct (map ir_ID (it_rows t))" using ok by (simp add: tbl_ok_def)
  then have "distinct (map ir_ID ?ex)" by (rule distinct_map_filter)
  then have ds: "distinct (map ir_ID ?sorted)" by (simp add: distinct_map)
  then have dv: "distinct ?v" unfolding v by (metis distinct_take take_map)
  have sub: "set ?v \<subseteq> ir_ID ` set (it_rows t)"
    unfolding v by (auto dest!: in_set_takeD)
  have run': "n = int (length (it_rows t)) - int (length (filter (\<lambda>r. ir_ID r \<notin> set ?v) (it_rows t)))"
    "it_rows t1 = filter (\<lambda>r. ir_ID r \<notin> set ?v) (it_rows t)"
    using run b faults
    by (auto simp: cleanupOnce_def NewIdempotencyCleanupService_def sql_repo_def
        sql_DeleteExpired_def sql_exec_def Let_def)
  have "n = int (length ?v)" using length_filter_ids [OF d sub dv] run'(1) by linarith
  also have "\<dots> = min ?b (int (length ?ex))" using b unfolding v by simp
  finally have n: "n = min ?b (int (length ?ex))" .
  have old: "ir_ExpiresAt r \<le> now \<and> (\<forall>r' \<in> set (it_rows t1). ir_ExpiresAt r' \<le> now \<longrightarrow> ir_ExpiresAt r \<le> ir_ExpiresAt r')"
    if r: "r \<in> set (it_rows t)" "r \<notin> set (it_rows t1)" for r
  proof -
    from r run'(2) have "ir_ID r \<in> set ?v" by simp
    then obtain q where q: "q \<in> set (take (nat ?b) ?sorted)" "ir_ID q = ir_ID r" unfolding v by auto
    from q(1) have "q \<in> set (it_rows t)" by (auto dest!: in_set_takeD)
    with q(2) r(1) d have "q = r" by (auto simp: distinct_map dest: inj_onD)
    with q have rt: "r \<in> set (take (nat ?b) ?sorted)" by simp
    then have "ir_ExpiresAt r \<le> now" by (auto dest!: in_set_takeD)
    moreover have "ir_ExpiresAt r \<le> ir_ExpiresAt r'"
      if r': "r' \<in> set (it_rows t1)" "ir_ExpiresAt r' \<le> now" for r'
    proof -
      from r' run'(2) have m: "r' \<in> set (it_rows t)" "ir_ID r' \<notin> set ?v" by auto
      with r'(2) have "r' \<in> set ?sorted" by simp
      with m(2) have "r' \<in> set (drop (nat ?b) ?sorted)"
        unfolding v by (metis UnE append_take_drop_id imageI list.set_map set_append)
      with rt show ?thesis by (intro sorted_take_drop [where xs = ?sorted]) (simp_all add: sorted_sort_key)
    qed
    ultimately show ?thesis by blast
  qed
  show ?thesis using n old run'(2) by (auto simp: Let_def)
qed

definition demo_row :: "int \<Rightarrow> string \<Rightarrow> gotime \<Rightarrow> IdempotencyRecord" where
  "demo_row i kh x = zero_ir\<lparr>ir_ID := i, ir_Scope := ''s'', ir_KeyHash := kh,
     ir_Status := IdempotencyStatusSucceeded, ir_ExpiresAt := x\<rparr>"

definition demo_table :: idem_table where
  "demo_table = \<lparr>it_rows = [demo_row 1 ''a'' 50, demo_row 2 ''b'' 20, demo_row 3 ''c'' 200],
     it_next_id = 4, it_now = 100, it_faults = []\<rparr>"

lemma demo_table_ok: "tbl_ok demo_table" "it_faults demo_table = []"
  by (simp_all add: tbl_ok_def demo_table_def demo_row_def zero_ir_def)

theorem cleanup_round_witness:
  "\<exists>n t1. cleanupOnce (NewIdempotencyCleanupService sql_repo (Some \<lparr>cc_CleanupIntervalSeconds = 1,
       cc_CleanupBatchSize = 1\<rparr>)) 100 demo_table = (n, t1) \<and> n = 1"
proof -
  let ?svc = "NewIdempotencyCleanupService sql_repo (Some \<lparr>cc_CleanupIntervalSeconds = 1,
       cc_CleanupBatchSize = 1\<rparr>)"
  obtain n t1 where r: "cleanupOnce ?svc 100 demo_table = (n, t1)" by fastforce
  from cleanup_round [OF demo_table_ok r] have "n = 1"
    by (simp add: Let_def NewIdempotencyCleanupService_def demo_table_def demo_row_def zero_ir_def)
  with r show ?thesis by blast
qed

end
