(* ===== verification/Idempotency.thy ===== *)
theory Idempotency
  imports IdempotencyRepo
begin

text \<open>
  The idempotency coordinator of \<open>backend/internal/service/idempotency.go\<close>: \<open>Execute\<close> runs a
  write request at most once per scope and key, and replays its stored answer afterwards.

  The coordinator is a function of the store (a dictionary of the interface's operations and the
  store's state), of the two clock readings it makes (\<open>now\<close> on entry, \<open>later\<close> after the executor),
  and of the executor, a function on the state \<open>'w\<close> of the rest of the program. The values of type
  \<open>any\<close> are a type parameter; \<open>sha256\<close>, \<open>encoding/json\<close> on \<open>any\<close> and the regular-expression
  redaction of \<open>util/logredact\<close> are the operations of the record \<open>codec\<close>. Metrics and audit
  logging have no counterpart. The lemmas about \<open>Execute\<close> are proved once against the contract
  of the store, and the properties instantiate them with the SQL repository.
\<close>

section \<open>Errors, configuration, options\<close>

definition ErrIdempotencyKeyRequired :: ApplicationError where
  "ErrIdempotencyKeyRequired = BadRequest ''IDEMPOTENCY_KEY_REQUIRED'' ''idempotency key is required''"

definition ErrIdempotencyKeyInvalid :: ApplicationError where
  "ErrIdempotencyKeyInvalid = BadRequest ''IDEMPOTENCY_KEY_INVALID'' ''idempotency key is invalid''"

definition ErrIdempotencyKeyConflict :: ApplicationError where
  "ErrIdempotencyKeyConflict =
     Conflict ''IDEMPOTENCY_KEY_CONFLICT'' ''idempotency key reused with different payload''"

definition ErrIdempotencyInProgress :: ApplicationError where
  "ErrIdempotencyInProgress =
     Conflict ''IDEMPOTENCY_IN_PROGRESS'' ''idempotent request is still processing''"

definition ErrIdempotencyRetryBackoff :: ApplicationError where
  "ErrIdempotencyRetryBackoff =
     Conflict ''IDEMPOTENCY_RETRY_BACKOFF'' ''idempotent request is in retry backoff window''"

definition ErrIdempotencyStoreUnavail :: ApplicationError where
  "ErrIdempotencyStoreUnavail =
     ServiceUnavailable ''IDEMPOTENCY_STORE_UNAVAILABLE'' ''idempotency store unavailable''"

definition ErrIdempotencyInvalidPayload :: ApplicationError where
  "ErrIdempotencyInvalidPayload =
     BadRequest ''IDEMPOTENCY_PAYLOAD_INVALID'' ''failed to normalize request payload''"

lemmas idem_err_defs = ErrIdempotencyKeyRequired_def ErrIdempotencyKeyInvalid_def
  ErrIdempotencyKeyConflict_def ErrIdempotencyInProgress_def ErrIdempotencyRetryBackoff_def
  ErrIdempotencyStoreUnavail_def ErrIdempotencyInvalidPayload_def

record IdempotencyConfig =
  cfg_DefaultTTL :: duration
  cfg_SystemOperationTTL :: duration
  cfg_ProcessingTimeout :: duration
  cfg_FailedRetryBackoff :: duration
  cfg_MaxStoredResponseLen :: int
  cfg_ObserveOnly :: bool

definition DefaultIdempotencyConfig :: IdempotencyConfig where
  "DefaultIdempotencyConfig = \<lparr>cfg_DefaultTTL = 24 * time_Hour, cfg_SystemOperationTTL = 1 * time_Hour,
     cfg_ProcessingTimeout = 30 * time_Second, cfg_FailedRetryBackoff = 5 * time_Second,
     cfg_MaxStoredResponseLen = 64 * 1024, cfg_ObserveOnly = True\<rparr>"

record 'd IdempotencyExecuteOptions =
  op_Scope :: string
  op_ActorScope :: string
  op_Method :: string
  op_Route :: string
  op_Key :: string
  op_Payload :: 'd
  op_TTL :: duration
  op_RequireKey :: bool

record 'd IdempotencyExecuteResult =
  res_Data :: 'd
  res_Replayed :: bool

record 'r IdempotencyCoordinator =
  ic_repo :: "'r IdempotencyRepository option"
  ic_cfg :: IdempotencyConfig

text \<open>\<open>DefaultWriteIdempotencyTTL\<close> and its system variant; the argument is the registered default
  coordinator.\<close>

definition DefaultWriteIdempotencyTTL :: "'r IdempotencyCoordinator option \<Rightarrow> duration" where
  "DefaultWriteIdempotencyTTL coordinator =
     (case coordinator of
        Some c \<Rightarrow> if cfg_DefaultTTL (ic_cfg c) > 0 then cfg_DefaultTTL (ic_cfg c)
                  else cfg_DefaultTTL DefaultIdempotencyConfig
      | None \<Rightarrow> cfg_DefaultTTL DefaultIdempotencyConfig)"

definition DefaultSystemOperationIdempotencyTTL :: "'r IdempotencyCoordinator option \<Rightarrow> duration" where
  "DefaultSystemOperationIdempotencyTTL coordinator =
     (case coordinator of
        Some c \<Rightarrow> if cfg_SystemOperationTTL (ic_cfg c) > 0 then cfg_SystemOperationTTL (ic_cfg c)
                  else cfg_SystemOperationTTL DefaultIdempotencyConfig
      | None \<Rightarrow> cfg_SystemOperationTTL DefaultIdempotencyConfig)"

record 'd codec =
  sha256_hex :: "string \<Rightarrow> string"
  json_Marshal :: "'d \<Rightarrow> go_error + string"
  json_Unmarshal :: "string \<Rightarrow> go_error + 'd"
  RedactText :: "string \<Rightarrow> string"
  empty_object :: 'd

section \<open>Keys and fingerprints\<close>

text \<open>The code tests runes; a byte outside ASCII belongs to a rune above 126.\<close>

definition NormalizeIdempotencyKey :: "string \<Rightarrow> ApplicationError + string" where
  "NormalizeIdempotencyKey raw =
     (let key = TrimSpace raw in
      if key = [] then Inr []
      else if length key > 128 then Inl ErrIdempotencyKeyInvalid
      else if list_ex (\<lambda>r. (of_char r :: nat) < 33 \<or> (of_char r :: nat) > 126) key
        then Inl ErrIdempotencyKeyInvalid
      else Inr key)"

definition HashIdempotencyKey :: "'d codec \<Rightarrow> string \<Rightarrow> string" where
  "HashIdempotencyKey cd key = sha256_hex cd key"

definition BuildIdempotencyFingerprint ::
    "'d codec \<Rightarrow> string \<Rightarrow> string \<Rightarrow> string \<Rightarrow> 'd \<Rightarrow> ApplicationError + string" where
  "BuildIdempotencyFingerprint cd method route actorScope payload =
     (let method = (if method = [] then ''POST'' else method);
          route = (if route = [] then ''/'' else route);
          actorScope = (if actorScope = [] then ''anonymous'' else actorScope);
          nl = [CHR 0x0A]
      in case json_Marshal cd payload of
           Inl err \<Rightarrow> Inl (WithCause ErrIdempotencyInvalidPayload err)
         | Inr raw \<Rightarrow> Inr (sha256_hex cd
             (ToUpper method @ nl @ route @ nl @ actorScope @ nl @ raw)))"

section \<open>Answers\<close>

definition RetryAfterSecondsFromError :: "go_error \<Rightarrow> int" where
  "RetryAfterSecondsFromError err =
     (case errors_As err of
        None \<Rightarrow> 0
      | Some appErr \<Rightarrow>
          (case ae_Metadata appErr of
             None \<Rightarrow> 0
           | Some md \<Rightarrow>
               (let v = TrimSpace (case md ''retry_after'' of Some s \<Rightarrow> s | None \<Rightarrow> []) in
                if v = [] then 0
                else case Atoi v of
                       None \<Rightarrow> 0
                     | Some seconds \<Rightarrow> if seconds \<le> 0 then 0 else seconds)))"

definition conflictWithRetryAfter :: "ApplicationError \<Rightarrow> gotime option \<Rightarrow> gotime \<Rightarrow> ApplicationError" where
  "conflictWithRetryAfter base lockedUntil now =
     (case lockedUntil of
        None \<Rightarrow> base
      | Some l \<Rightarrow>
          (let sec = whole_seconds (l - now);
               sec = (if sec \<le> 0 then 1 else sec)
           in WithMetadata base (Some [''retry_after'' \<mapsto> itoa sec])))"

definition marshalStoredResponse :: "'d codec \<Rightarrow> IdempotencyConfig \<Rightarrow> 'd \<Rightarrow> go_error + string" where
  "marshalStoredResponse cd cfg data =
     (case json_Marshal cd data of
        Inl err \<Rightarrow> Inl err
      | Inr raw \<Rightarrow>
          (let redacted = RedactText cd raw in
           Inr (if cfg_MaxStoredResponseLen cfg > 0 \<and>
                   int (length redacted) > cfg_MaxStoredResponseLen cfg
                then take (nat (cfg_MaxStoredResponseLen cfg)) redacted @ ''...(truncated)''
                else redacted)))"

definition decodeStoredResponse :: "'d codec \<Rightarrow> string option \<Rightarrow> go_error + 'd" where
  "decodeStoredResponse cd stored =
     (case stored of
        None \<Rightarrow> Inr (empty_object cd)
      | Some s \<Rightarrow>
          if TrimSpace s = [] then Inr (empty_object cd)
          else case json_Unmarshal cd s of
                 Inl err \<Rightarrow> Inl (WrapErr ''decode stored response'' err)
               | Inr out \<Rightarrow> Inr out)"

section \<open>Execute\<close>

text \<open>
  The part before the executor: \<open>Claimed id\<close> when the caller owns the record and runs, \<open>Answer\<close>
  when \<open>Execute\<close> returns without running. \<open>decide\<close> is the \<open>switch\<close> on the status of an existing
  record.
\<close>

datatype 'd claim =
    Claimed int
  | Answer "go_error + 'd IdempotencyExecuteResult"

definition store_unavail :: "go_error \<Rightarrow> 'd claim" where
  "store_unavail cause = Answer (Inl (AppErr (WithCause ErrIdempotencyStoreUnavail cause)))"

definition decide :: "'d codec \<Rightarrow> 'r IdempotencyRepository \<Rightarrow> gotime \<Rightarrow> gotime \<Rightarrow> gotime \<Rightarrow>
    IdempotencyRecord \<Rightarrow> 'r \<Rightarrow> 'd claim \<times> 'r" where
  "decide cd R now lockedUntil expiresAt existing s =
     (if ir_Status existing = IdempotencyStatusSucceeded then
        (case decodeStoredResponse cd (ir_ResponseBody existing) of
           Inl parseErr \<Rightarrow> (store_unavail parseErr, s)
         | Inr data \<Rightarrow> (Answer (Inr \<lparr>res_Data = data, res_Replayed = True\<rparr>), s))
      else if ir_Status existing = IdempotencyStatusProcessing then
        (Answer (Inl (AppErr (conflictWithRetryAfter ErrIdempotencyInProgress
           (ir_LockedUntil existing) now))), s)
      else if ir_Status existing = IdempotencyStatusFailedRetryable then
        (if (case ir_LockedUntil existing of None \<Rightarrow> False | Some l \<Rightarrow> now < l) then
           (Answer (Inl (AppErr (conflictWithRetryAfter ErrIdempotencyRetryBackoff
              (ir_LockedUntil existing) now))), s)
         else
           (case TryReclaim R (ir_ID existing) IdempotencyStatusFailedRetryable now lockedUntil
                   expiresAt s of
              (Inl reclaimErr, s1) \<Rightarrow> (store_unavail reclaimErr, s1)
            | (Inr False, s1) \<Rightarrow>
                (Answer (Inl (AppErr (conflictWithRetryAfter ErrIdempotencyInProgress
                   (ir_LockedUntil existing) now))), s1)
            | (Inr True, s1) \<Rightarrow> (Claimed (ir_ID existing), s1)))
      else (Answer (Inl (AppErr ErrIdempotencyKeyConflict)), s))"

definition execute_claim :: "'d codec \<Rightarrow> 'r IdempotencyRepository \<Rightarrow> IdempotencyConfig \<Rightarrow>
    string \<Rightarrow> string \<Rightarrow> string \<Rightarrow> gotime \<Rightarrow> gotime \<Rightarrow> 'r \<Rightarrow> 'd claim \<times> 'r" where
  "execute_claim cd R cfg scope keyHash fingerprint now expiresAt s =
     (let lockedUntil = now + cfg_ProcessingTimeout cfg;
          record = zero_ir\<lparr>ir_Scope := scope, ir_KeyHash := keyHash, ir_Fingerprint := fingerprint,
            ir_Status := IdempotencyStatusProcessing, ir_LockedUntil := Some lockedUntil,
            ir_ExpiresAt := expiresAt\<rparr>
      in case CreateProcessing R record s of
           (Inl err, s1) \<Rightarrow> (store_unavail err, s1)
         | (Inr (True, record1), s1) \<Rightarrow> (Claimed (ir_ID record1), s1)
         | (Inr (False, record1), s1) \<Rightarrow>
             (case GetByScopeAndKeyHash R scope keyHash s1 of
                (Inl getErr, s2) \<Rightarrow> (store_unavail getErr, s2)
              | (Inr None, s2) \<Rightarrow> (Answer (Inl (AppErr ErrIdempotencyStoreUnavail)), s2)
              | (Inr (Some existing), s2) \<Rightarrow>
                  if ir_Fingerprint existing \<noteq> fingerprint then
                    (Answer (Inl (AppErr ErrIdempotencyKeyConflict)), s2)
                  else if ir_ExpiresAt existing \<le> now then
                    (case TryReclaim R (ir_ID existing) (ir_Status existing) now lockedUntil
                            expiresAt s2 of
                       (Inl reclaimErr, s3) \<Rightarrow> (store_unavail reclaimErr, s3)
                     | (Inr True, s3) \<Rightarrow> (Claimed (ir_ID existing), s3)
                     | (Inr False, s3) \<Rightarrow>
                         (case GetByScopeAndKeyHash R scope keyHash s3 of
                            (Inl latestErr, s4) \<Rightarrow> (store_unavail latestErr, s4)
                          | (Inr None, s4) \<Rightarrow> (Answer (Inl (AppErr ErrIdempotencyStoreUnavail)), s4)
                          | (Inr (Some latest), s4) \<Rightarrow>
                              if ir_Fingerprint latest \<noteq> fingerprint then
                                (Answer (Inl (AppErr ErrIdempotencyKeyConflict)), s4)
                              else decide cd R now lockedUntil expiresAt latest s4))
                  else decide cd R now lockedUntil expiresAt existing s2))"

text \<open>The part from the executor on, for the owner of the record.\<close>

definition execute_run :: "'d codec \<Rightarrow> 'r IdempotencyRepository \<Rightarrow> IdempotencyConfig \<Rightarrow> int \<Rightarrow>
    gotime \<Rightarrow> gotime \<Rightarrow> ('w \<Rightarrow> (go_error + 'd) \<times> 'w) \<Rightarrow> 'r \<Rightarrow> 'w \<Rightarrow>
    (go_error + 'd IdempotencyExecuteResult) \<times> 'r \<times> 'w" where
  "execute_run cd R cfg recordID expiresAt later execute s w =
     (case execute w of
        (Inl execErr, w1) \<Rightarrow>
          (let backoffUntil = later + cfg_FailedRetryBackoff cfg;
               reason = Reason (Some execErr);
               reason = (if reason = [] then ''EXECUTION_FAILED'' else reason);
               (_, s1) = MarkFailedRetryable R recordID reason backoffUntil expiresAt s
           in (Inl execErr, s1, w1))
      | (Inr data, w1) \<Rightarrow>
          (case marshalStoredResponse cd cfg data of
             Inl marshalErr \<Rightarrow>
               (Inl (AppErr (WithCause ErrIdempotencyStoreUnavail marshalErr)), s, w1)
           | Inr storedBody \<Rightarrow>
               (case MarkSucceeded R recordID 200 storedBody expiresAt s of
                  (Inl markErr, s1) \<Rightarrow>
                    (Inl (AppErr (WithCause ErrIdempotencyStoreUnavail markErr)), s1, w1)
                | (Inr _, s1) \<Rightarrow> (Inr \<lparr>res_Data = data, res_Replayed = False\<rparr>, s1, w1))))"

definition Execute :: "'d codec \<Rightarrow> 'r IdempotencyCoordinator \<Rightarrow> 'd IdempotencyExecuteOptions \<Rightarrow>
    gotime \<Rightarrow> gotime \<Rightarrow> ('w \<Rightarrow> (go_error + 'd) \<times> 'w) option \<Rightarrow> 'r \<Rightarrow> 'w \<Rightarrow>
    (go_error + 'd IdempotencyExecuteResult) \<times> 'r \<times> 'w" where
  "Execute cd c opts now later executor s w =
     (case executor of
        None \<Rightarrow> (Inl (AppErr (InternalServer ''IDEMPOTENCY_EXECUTOR_NIL''
                   ''idempotency executor is nil'')), s, w)
      | Some execute \<Rightarrow>
     (case NormalizeIdempotencyKey (op_Key opts) of
        Inl err \<Rightarrow> (Inl (AppErr err), s, w)
      | Inr key \<Rightarrow>
     if key = [] then
       (if op_RequireKey opts \<and> \<not> cfg_ObserveOnly (ic_cfg c)
        then (Inl (AppErr ErrIdempotencyKeyRequired), s, w)
        else (case execute w of
                (Inl execErr, w1) \<Rightarrow> (Inl execErr, s, w1)
              | (Inr data, w1) \<Rightarrow> (Inr \<lparr>res_Data = data, res_Replayed = False\<rparr>, s, w1)))
     else case ic_repo c of
        None \<Rightarrow> (Inl (AppErr ErrIdempotencyStoreUnavail), s, w)
      | Some R \<Rightarrow>
     if op_Scope opts = [] then
       (Inl (AppErr (BadRequest ''IDEMPOTENCY_SCOPE_REQUIRED'' ''idempotency scope is required'')), s, w)
     else case BuildIdempotencyFingerprint cd (op_Method opts) (op_Route opts) (op_ActorScope opts)
                 (op_Payload opts) of
        Inl err \<Rightarrow> (Inl (AppErr err), s, w)
      | Inr fingerprint \<Rightarrow>
     (let ttl = (if op_TTL opts \<le> 0 then cfg_DefaultTTL (ic_cfg c) else op_TTL opts);
          expiresAt = now + ttl;
          keyHash = HashIdempotencyKey cd key
      in case execute_claim cd R (ic_cfg c) (op_Scope opts) keyHash fingerprint now expiresAt s of
           (Answer r, s1) \<Rightarrow> (r, s1, w)
         | (Claimed recordID, s1) \<Rightarrow>
             if recordID = 0 then (Inl (AppErr ErrIdempotencyStoreUnavail), s1, w)
             else execute_run cd R (ic_cfg c) recordID expiresAt later execute s1 w)))"

section \<open>When a request may run\<close>

text \<open>A record lets a request with fingerprint \<open>fp\<close> run at \<open>now\<close>: there is none, or it is one for the
  same payload whose lock is free and that has expired or failed.\<close>

definition claimable :: "string \<Rightarrow> gotime \<Rightarrow> IdempotencyRecord option \<Rightarrow> bool" where
  "claimable fp now v =
     (case v of
        None \<Rightarrow> True
      | Some r \<Rightarrow> ir_Fingerprint r = fp \<and>
          (case ir_LockedUntil r of None \<Rightarrow> True | Some l \<Rightarrow> l \<le> now) \<and>
          (ir_ExpiresAt r \<le> now \<or> ir_Status r = IdempotencyStatusFailedRetryable))"

definition claim_record :: "IdempotencyConfig \<Rightarrow> string \<Rightarrow> string \<Rightarrow> string \<Rightarrow> gotime \<Rightarrow> gotime \<Rightarrow>
    IdempotencyRecord" where
  "claim_record cfg scope keyHash fingerprint now expiresAt =
     zero_ir\<lparr>ir_Scope := scope, ir_KeyHash := keyHash, ir_Fingerprint := fingerprint,
       ir_Status := IdempotencyStatusProcessing,
       ir_LockedUntil := Some (now + cfg_ProcessingTimeout cfg), ir_ExpiresAt := expiresAt\<rparr>"

lemma claim_record_sel [simp]:
  "ir_Scope (claim_record cfg sc kh fp now x) = sc" "ir_KeyHash (claim_record cfg sc kh fp now x) = kh"
  "ir_Fingerprint (claim_record cfg sc kh fp now x) = fp"
  "ir_Status (claim_record cfg sc kh fp now x) = IdempotencyStatusProcessing"
  "ir_LockedUntil (claim_record cfg sc kh fp now x) = Some (now + cfg_ProcessingTimeout cfg)"
  "ir_ExpiresAt (claim_record cfg sc kh fp now x) = x"
  by (simp_all add: claim_record_def)

text \<open>The answer to a request that may not run, as a function of the record alone.\<close>

definition existing_answer :: "'d codec \<Rightarrow> string \<Rightarrow> gotime \<Rightarrow> IdempotencyRecord \<Rightarrow>
    go_error + 'd IdempotencyExecuteResult" where
  "existing_answer cd fp now r =
     (if ir_Fingerprint r \<noteq> fp then Inl (AppErr ErrIdempotencyKeyConflict)
      else if ir_Status r = IdempotencyStatusSucceeded then
        (case decodeStoredResponse cd (ir_ResponseBody r) of
           Inl e \<Rightarrow> Inl (AppErr (WithCause ErrIdempotencyStoreUnavail e))
         | Inr d \<Rightarrow> Inr \<lparr>res_Data = d, res_Replayed = True\<rparr>)
      else if ir_Status r = IdempotencyStatusProcessing then
        Inl (AppErr (conflictWithRetryAfter ErrIdempotencyInProgress (ir_LockedUntil r) now))
      else if ir_Status r = IdempotencyStatusFailedRetryable then
        Inl (AppErr (conflictWithRetryAfter ErrIdempotencyRetryBackoff (ir_LockedUntil r) now))
      else Inl (AppErr ErrIdempotencyKeyConflict))"

text \<open>A request that reaches the store: its normalised key, its fingerprint, its expiry.\<close>

definition admitted :: "'d codec \<Rightarrow> 'd IdempotencyExecuteOptions \<Rightarrow> string \<Rightarrow> string \<Rightarrow> bool" where
  "admitted cd opts key fp \<longleftrightarrow>
     NormalizeIdempotencyKey (op_Key opts) = Inr key \<and> key \<noteq> [] \<and> op_Scope opts \<noteq> [] \<and>
     BuildIdempotencyFingerprint cd (op_Method opts) (op_Route opts) (op_ActorScope opts)
       (op_Payload opts) = Inr fp \<and>
     utf8_chars (op_Scope opts) \<le> 128 \<and> utf8_chars (HashIdempotencyKey cd key) \<le> 64 \<and>
     utf8_chars fp \<le> 64"

definition record_key :: "'d codec \<Rightarrow> 'd IdempotencyExecuteOptions \<Rightarrow> string \<Rightarrow> string \<times> string" where
  "record_key cd opts key = (op_Scope opts, HashIdempotencyKey cd key)"

definition expiry :: "IdempotencyConfig \<Rightarrow> 'd IdempotencyExecuteOptions \<Rightarrow> gotime \<Rightarrow> gotime" where
  "expiry cfg opts now = now + (if op_TTL opts \<le> 0 then cfg_DefaultTTL cfg else op_TTL opts)"

definition failure_reason :: "go_error \<Rightarrow> string" where
  "failure_reason e = (if Reason (Some e) = [] then ''EXECUTION_FAILED'' else Reason (Some e))"

text \<open>The record after a run, as a function of what the executor returned.\<close>

definition outcome_row :: "'d codec \<Rightarrow> IdempotencyConfig \<Rightarrow> string \<Rightarrow> gotime \<Rightarrow> gotime \<Rightarrow> go_error + 'd \<Rightarrow>
    IdempotencyRecord \<Rightarrow> bool" where
  "outcome_row cd cfg fp x later r row \<longleftrightarrow> ir_Fingerprint row = fp \<and> ir_ExpiresAt row = x \<and>
     (case r of
        Inl e \<Rightarrow> ir_Status row = IdempotencyStatusFailedRetryable \<and>
          ir_LockedUntil row = Some (later + cfg_FailedRetryBackoff cfg) \<and>
          ir_ErrorReason row = Some (failure_reason e)
      | Inr d \<Rightarrow> ir_Status row = IdempotencyStatusSucceeded \<and> ir_LockedUntil row = None \<and>
          (\<exists>body. marshalStoredResponse cd cfg d = Inr body \<and> ir_ResponseBody row = Some body))"

text \<open>What the caller gets from a run whose answer could be stored, and whether it could.\<close>

definition run_answer :: "go_error + 'd \<Rightarrow> go_error + 'd IdempotencyExecuteResult" where
  "run_answer r = map_sum id (\<lambda>d. \<lparr>res_Data = d, res_Replayed = False\<rparr>) r"

definition storable :: "'d codec \<Rightarrow> IdempotencyConfig \<Rightarrow> go_error + 'd \<Rightarrow> bool" where
  "storable cd cfg r = (case r of
     Inl e \<Rightarrow> utf8_chars (failure_reason e) \<le> 128
   | Inr d \<Rightarrow> (case marshalStoredResponse cd cfg d of Inl _ \<Rightarrow> False | Inr _ \<Rightarrow> True))"

context idempotency_store
begin

text \<open>What a claim leaves behind: an owner holds the record of its key, an answer changes nothing.\<close>

definition claim_post :: "IdempotencyConfig \<Rightarrow> string \<Rightarrow> string \<Rightarrow> string \<Rightarrow> gotime \<Rightarrow> gotime \<Rightarrow> 'r \<Rightarrow>
    'd claim \<Rightarrow> 'r \<Rightarrow> bool" where
  "claim_post cfg sc kh fp now x s cl s' \<longleftrightarrow> ok s' \<and>
     (case cl of
        Answer a \<Rightarrow> view s' = view s \<and> (claimable fp now (view s (sc, kh)) \<longrightarrow> \<not> up s)
      | Claimed i \<Rightarrow> 0 < i \<and> claimable fp now (view s (sc, kh)) \<and>
          (\<exists>row. view s' = (view s)((sc, kh) \<mapsto> row) \<and> ir_ID row = i \<and>
             same_claim row (claim_record cfg sc kh fp now x)))"

lemma decide_post:
  assumes "ok s" "view s (sc, kh) = Some r" "ir_Fingerprint r = fp" "now < ir_ExpiresAt r \<or> \<not> claimable fp now (Some r)"
    "decide cd R now (now + cfg_ProcessingTimeout cfg) x r s = (cl, s')"
  shows "claim_post cfg sc kh fp now x s cl s'"
proof -
  note ds = decide_def claimable_def claim_post_def store_unavail_def idem_status_defs
  show ?thesis
  proof (cases "ir_Status r = IdempotencyStatusFailedRetryable \<and>
      (case ir_LockedUntil r of None \<Rightarrow> True | Some l \<Rightarrow> l \<le> now)")
    case False
    with assms show ?thesis
      by (auto simp: ds split: sum.splits option.splits if_splits)
  next
    case True
    then have nl: "\<not> (case ir_LockedUntil r of None \<Rightarrow> False | Some l \<Rightarrow> now < l)"
      by (auto split: option.splits)
    have rc: "reclaimable IdempotencyStatusFailedRetryable now r"
      using True by (simp add: reclaimable_def)
    have cl: "claimable fp now (Some r)" using True assms(3) by (simp add: claimable_def)
    obtain res s1 where t: "TryReclaim R (ir_ID r) IdempotencyStatusFailedRetryable now
        (now + cfg_ProcessingTimeout cfg) x s = (res, s1)" by fastforce
    show ?thesis
    proof (cases res)
      case (Inl e)
      with t assms True nl have "cl = store_unavail e" "s' = s1"
        by (auto simp: decide_def idem_status_defs)
      with reclaim_err [OF assms(1)] t Inl show ?thesis
        by (simp add: claim_post_def store_unavail_def)
    next
      case (Inr b)
      from reclaim_at [OF assms(1,2) t [unfolded Inr]] rc
      obtain u where b and s1: "ok s1" "view s1 = (view s)((sc, kh) \<mapsto>
          reclaimed_row (now + cfg_ProcessingTimeout cfg) x u r)" by auto
      with t Inr assms True nl have "cl = Claimed (ir_ID r)" "s' = s1"
        by (auto simp: decide_def idem_status_defs)
      with s1 cl view_key [OF assms(1,2)] assms(2,3) show ?thesis
        by (auto simp: claim_post_def same_claim_def reclaimed_row_def)
    qed
  qed
qed

lemma claim_post_view: "view s1 = view s \<Longrightarrow> (up s \<longrightarrow> up s1) \<Longrightarrow> claim_post cfg sc kh fp now x s1 cl s' \<Longrightarrow>
    claim_post cfg sc kh fp now x s cl s'"
  by (auto simp: claim_post_def split: claim.splits)

text \<open>The branch for a record that has expired.\<close>

lemma expired_post:
  assumes ok: "ok s" and v: "view s (sc, kh) = Some r" and fp: "ir_Fingerprint r = fp"
    and old: "ir_ExpiresAt r \<le> now"
    and t: "TryReclaim R (ir_ID r) (ir_Status r) now (now + cfg_ProcessingTimeout cfg) x s = (res, s1)"
  shows "case res of
      Inl e \<Rightarrow> claim_post cfg sc kh fp now x s (store_unavail e) s1
    | Inr True \<Rightarrow> claim_post cfg sc kh fp now x s (Claimed (ir_ID r)) s1
    | Inr False \<Rightarrow> ok s1 \<and> view s1 = view s \<and> \<not> claimable fp now (Some r)"
proof (cases res)
  case (Inl e)
  with reclaim_err [OF ok] t show ?thesis by (simp add: claim_post_def store_unavail_def)
next
  case (Inr b)
  have c: "claimable fp now (Some r) \<longleftrightarrow> reclaimable (ir_Status r) now r"
    using fp old by (auto simp: claimable_def reclaimable_def)
  from reclaim_at [OF ok v t [unfolded Inr]] obtain u
    where b: "b = reclaimable (ir_Status r) now r" "ok s1"
      "view s1 = (if b then (view s)((sc, kh) \<mapsto> reclaimed_row (now + cfg_ProcessingTimeout cfg) x u r)
                  else view s)" by blast
  show ?thesis
  proof (cases b)
    case True
    with b c view_key [OF ok v] v fp Inr show ?thesis
      by (auto simp: claim_post_def same_claim_def reclaimed_row_def)
  next
    case False
    with b c Inr show ?thesis by simp
  qed
qed

lemma get_at:
  assumes "ok s" "GetByScopeAndKeyHash R sc kh s = (res, s1)"
  shows "ok s1 \<and> view s1 = view s \<and>
    (case res of Inl e \<Rightarrow> \<not> up s | Inr o1 \<Rightarrow> o1 = view s (sc, kh))"
  using get [OF assms(1)] get_err [OF assms(1)] assms(2) by (cases res) auto

lemma answer_post:
  "ok s1 \<Longrightarrow> view s1 = view s \<Longrightarrow> \<not> claimable fp now (view s (sc, kh)) \<or> \<not> up s \<Longrightarrow>
     claim_post cfg sc kh fp now x s (Answer a) s1"
  by (auto simp: claim_post_def)

lemma unavail_post:
  "ok s1 \<Longrightarrow> view s1 = view s \<Longrightarrow> \<not> up s \<Longrightarrow> claim_post cfg sc kh fp now x s (store_unavail e) s1"
  by (simp add: claim_post_def store_unavail_def)

text \<open>The branch for an existing record.\<close>

lemma existing_post:
  fixes cl :: "'d claim"
  assumes ok: "ok s" and v: "view s (sc, kh) = Some r"
    and e: "(if ir_Fingerprint r \<noteq> fp then (Answer (Inl (AppErr ErrIdempotencyKeyConflict)), s)
       else if ir_ExpiresAt r \<le> now then
         (case TryReclaim R (ir_ID r) (ir_Status r) now (now + cfg_ProcessingTimeout cfg) x s of
            (Inl reclaimErr, s3) \<Rightarrow> (store_unavail reclaimErr, s3)
          | (Inr True, s3) \<Rightarrow> (Claimed (ir_ID r), s3)
          | (Inr False, s3) \<Rightarrow>
              (case GetByScopeAndKeyHash R sc kh s3 of
                 (Inl latestErr, s4) \<Rightarrow> (store_unavail latestErr, s4)
               | (Inr None, s4) \<Rightarrow> (Answer (Inl (AppErr ErrIdempotencyStoreUnavail)), s4)
               | (Inr (Some latest), s4) \<Rightarrow>
                   if ir_Fingerprint latest \<noteq> fp then
                     (Answer (Inl (AppErr ErrIdempotencyKeyConflict)), s4)
                   else decide cd R now (now + cfg_ProcessingTimeout cfg) x latest s4))
       else decide cd R now (now + cfg_ProcessingTimeout cfg) x r s) = (cl, s')"
  shows "claim_post cfg sc kh fp now x s cl s'"
proof -
  consider (conflict) "ir_Fingerprint r \<noteq> fp" | (live) "ir_Fingerprint r = fp" "now < ir_ExpiresAt r"
    | (old) "ir_Fingerprint r = fp" "ir_ExpiresAt r \<le> now" by linarith
  then show ?thesis
  proof cases
    case conflict
    with e ok v show ?thesis by (auto intro!: answer_post simp: claimable_def)
  next
    case live
    with e have "decide cd R now (now + cfg_ProcessingTimeout cfg) x r s = (cl, s')" by simp
    from decide_post [OF ok v live(1) _ this] live(2) show ?thesis by simp
  next
    case old
    obtain res s3 where t: "TryReclaim R (ir_ID r) (ir_Status r) now (now + cfg_ProcessingTimeout cfg) x s
        = (res, s3)" by fastforce
    have post: "case res of
        Inl e \<Rightarrow> claim_post cfg sc kh fp now x s (store_unavail e :: 'd claim) s3
      | Inr True \<Rightarrow> claim_post cfg sc kh fp now x s (Claimed (ir_ID r) :: 'd claim) s3
      | Inr False \<Rightarrow> ok s3 \<and> view s3 = view s \<and> \<not> claimable fp now (Some r)"
      by (rule expired_post [OF ok v old t])
    show ?thesis
    proof (cases res)
      case (Inl e1)
      with post e old t show ?thesis by simp
    next
      case (Inr b)
      show ?thesis
      proof (cases b)
        case True
        with Inr post e old t show ?thesis by simp
      next
        case False
        with Inr post have s3: "ok s3" "view s3 = view s" "\<not> claimable fp now (Some r)" by simp_all
        have ups: "up s \<longrightarrow> up s3" using up_reclaim t by blast
        obtain res' s4 where g: "GetByScopeAndKeyHash R sc kh s3 = (res', s4)" by fastforce
        note gp = get_at [OF s3(1) g]
        show ?thesis
        proof (cases res')
          case (Inl e2)
          with gp s3 ups e old t False Inr g \<open>res = Inr b\<close> show ?thesis
            by (auto intro!: unavail_post)
        next
          case (Inr o1)
          with gp s3 v have o1: "o1 = Some r" "ok s4" "view s4 = view s" by auto
          with e old t False g Inr \<open>res = Inr b\<close>
          have "decide cd R now (now + cfg_ProcessingTimeout cfg) x r s4 = (cl, s')" by simp
          from decide_post [OF o1(2) _ old(1) _ this] o1 v s3(3)
          have "claim_post cfg sc kh fp now x s4 cl s'" by simp
          moreover have "up s \<longrightarrow> up s4" using ups up_get g by blast
          ultimately show ?thesis using claim_post_view o1(3) by blast
        qed
      qed
    qed
  qed
qed

lemma execute_claim_post:
  assumes ok: "ok s" and fits: "record_fits (claim_record cfg sc kh fp now x)"
    and e: "execute_claim cd R cfg sc kh fp now x s = (cl, s')"
  shows "claim_post cfg sc kh fp now x s cl s'"
proof -
  let ?rec = "claim_record cfg sc kh fp now x"
  obtain res s1 where c: "CreateProcessing R ?rec s = (res, s1)" by fastforce
  have e': "(case (res, s1) of
           (Inl err, s1) \<Rightarrow> (store_unavail err, s1)
         | (Inr (True, record1), s1) \<Rightarrow> (Claimed (ir_ID record1), s1)
         | (Inr (False, record1), s1) \<Rightarrow> (cl, s')) = (cl, s')"
    using e c by (auto simp: execute_claim_def claim_record_def Let_def split: sum.splits bool.splits)
  show ?thesis
  proof (cases res)
    case (Inl err)
    with create_err [OF ok] c fits e' show ?thesis by (auto intro!: unavail_post)
  next
    case (Inr p)
    obtain b rec' where p: "p = (b, rec')" by fastforce
    note cp = create [OF ok c [unfolded Inr p]]
    show ?thesis
    proof (cases "view s (sc, kh)")
      case None
      with cp obtain row where "b" "0 < ir_ID rec'" "ok s1" "view s1 = (view s)((sc, kh) \<mapsto> row)"
        "ir_ID row = ir_ID rec'" "same_claim row ?rec" by auto
      with e' Inr p None show ?thesis by (auto simp: claim_post_def claimable_def)
    next
      case (Some r)
      with cp have s1: "ok s1" "view s1 = view s" "\<not> b" by auto
      have ups: "up s \<longrightarrow> up s1" using up_create c by blast
      obtain res' s2 where g: "GetByScopeAndKeyHash R sc kh s1 = (res', s2)" by fastforce
      note gp = get_at [OF s1(1) g]
      show ?thesis
      proof (cases res')
        case (Inl e2)
        with e c g Inr p s1 have "cl = store_unavail e2" "s' = s2"
          by (auto simp: execute_claim_def claim_record_def Let_def \<open>res = Inr p\<close>)
        with gp Inl s1 ups show ?thesis by (auto intro!: unavail_post)
      next
        case (Inr o1)
        with gp s1 Some have o1: "o1 = Some r" "ok s2" "view s2 = view s" by auto
        have "claim_post cfg sc kh fp now x s2 cl s'"
        proof (rule existing_post [OF o1(2)])
          show "view s2 (sc, kh) = Some r" using o1 Some by simp
        qed (use e c g Inr o1 p s1 \<open>res = Inr p\<close> in
            \<open>simp add: execute_claim_def claim_record_def Let_def\<close>)
        moreover have "up s \<longrightarrow> up s2" using ups up_get g by blast
        ultimately show ?thesis using claim_post_view o1(3) by blast
      qed
    qed
  qed
qed

text \<open>What the answer is when the request may not run and the store works.\<close>

lemma decide_answer:
  assumes "\<not> claimable fp now (Some r)" "ir_Fingerprint r = fp"
  shows "fst (decide cd R now l x r s) = Answer (existing_answer cd fp now r)"
  using assms
  by (auto simp: decide_def existing_answer_def claimable_def store_unavail_def idem_status_defs
      split: sum.splits option.splits if_splits)

lemma execute_claim_existing:
  assumes ok: "ok s" and up: "up s" and fits: "record_fits (claim_record cfg sc kh fp now x)"
    and v: "view s (sc, kh) = Some r" and nc: "\<not> claimable fp now (Some r)"
  shows "fst (execute_claim cd R cfg sc kh fp now x s) = Answer (existing_answer cd fp now r)"
proof -
  let ?rec = "claim_record cfg sc kh fp now x"
  obtain res s1 where c: "CreateProcessing R ?rec s = (res, s1)" by fastforce
  have up1: "up s1" using up_create [OF up c] .
  obtain b rec' where cb: "res = Inr (b, rec')"
  proof (cases res)
    case (Inl e)
    with create_err [OF ok c [unfolded Inl]] up fits show ?thesis by simp
  qed (use that in auto)
  from create [OF ok c [unfolded cb]] v cb up1
  have c1: "res = Inr (False, rec')" and s1: "ok s1" "up s1" "view s1 = view s" by simp_all
  obtain res2 s2 where g: "GetByScopeAndKeyHash R sc kh s1 = (res2, s2)" by fastforce
  then have r2: "res2 = Inr (Some r)" and s2: "ok s2" "up s2" "view s2 = view s"
    using get_at [OF s1(1) g] s1 v up_get [OF s1(2) g] by (cases res2; auto)+
  have unf: "execute_claim cd R cfg sc kh fp now x s =
      (if ir_Fingerprint r \<noteq> fp then (Answer (Inl (AppErr ErrIdempotencyKeyConflict)), s2)
       else if ir_ExpiresAt r \<le> now then
         (case TryReclaim R (ir_ID r) (ir_Status r) now (now + cfg_ProcessingTimeout cfg) x s2 of
            (Inl reclaimErr, s3) \<Rightarrow> (store_unavail reclaimErr, s3)
          | (Inr True, s3) \<Rightarrow> (Claimed (ir_ID r), s3)
          | (Inr False, s3) \<Rightarrow>
              (case GetByScopeAndKeyHash R sc kh s3 of
                 (Inl latestErr, s4) \<Rightarrow> (store_unavail latestErr, s4)
               | (Inr None, s4) \<Rightarrow> (Answer (Inl (AppErr ErrIdempotencyStoreUnavail)), s4)
               | (Inr (Some latest), s4) \<Rightarrow>
                   if ir_Fingerprint latest \<noteq> fp then
                     (Answer (Inl (AppErr ErrIdempotencyKeyConflict)), s4)
                   else decide cd R now (now + cfg_ProcessingTimeout cfg) x latest s4))
       else decide cd R now (now + cfg_ProcessingTimeout cfg) x r s2)"
    using c c1 g r2 by (simp add: execute_claim_def claim_record_def Let_def)
  consider (conflict) "ir_Fingerprint r \<noteq> fp" | (live) "ir_Fingerprint r = fp" "\<not> ir_ExpiresAt r \<le> now"
    | (old) "ir_Fingerprint r = fp" "ir_ExpiresAt r \<le> now" by blast
  then show ?thesis
  proof cases
    case conflict
    then show ?thesis unfolding unf by (simp add: existing_answer_def)
  next
    case live
    then show ?thesis unfolding unf using decide_answer [OF nc] by simp
  next
    case old
    obtain res3 s3 where t: "TryReclaim R (ir_ID r) (ir_Status r) now (now + cfg_ProcessingTimeout cfg) x s2
        = (res3, s3)" by fastforce
    have "\<not> reclaimable (ir_Status r) now r"
      using nc old by (auto simp: claimable_def reclaimable_def)
    moreover obtain b3 where b3: "res3 = Inr b3"
    proof (cases res3)
      case (Inl e)
      with reclaim_err [OF s2(1) t [unfolded Inl]] s2 show ?thesis by simp
    qed (use that in auto)
    moreover have v2: "view s2 (sc, kh) = Some r" using s2 v by simp
    ultimately have r3: "res3 = Inr False" and s3: "ok s3" "view s3 = view s"
      using reclaim_at [OF s2(1) v2 t [unfolded b3]] s2 by auto
    obtain res4 s4 where g4: "GetByScopeAndKeyHash R sc kh s3 = (res4, s4)" by fastforce
    then have r4: "res4 = Inr (Some r)"
      using get_at [OF s3(1) g4] s3 v up_reclaim [OF s2(2) t] by (cases res4) auto
    then show ?thesis unfolding unf using old t r3 g4 decide_answer [OF nc old(1)] by simp
  qed
qed

lemma up_decide: "up s \<Longrightarrow> decide cd R now l x r s = (cl, s') \<Longrightarrow> up s'"
  by (auto simp: decide_def split: sum.splits if_splits prod.splits bool.splits option.splits
      dest: up_reclaim)

lemma up_claim: "up s \<Longrightarrow> execute_claim cd R cfg sc kh fp now x s = (cl, s') \<Longrightarrow> up s'"
  unfolding execute_claim_def Let_def
  by (auto split: sum.splits if_splits prod.splits bool.splits option.splits
      dest: up_reclaim [rotated] up_get [rotated] up_create [rotated] up_decide [rotated])
    (meson up_create up_get up_reclaim up_decide)

lemma execute_spec:
  fixes now :: gotime
  assumes ok: "ok s" and up: "up s" and adm: "admitted cd opts key fp" and R: "ic_repo c = Some R"
  defines "k \<equiv> record_key cd opts key" and "x \<equiv> expiry (ic_cfg c) opts now"
  shows "if claimable fp now (view s k) then
       (\<exists>s1 row. ok s1 \<and> up s1 \<and> view s1 = (view s)(k \<mapsto> row) \<and> 0 < ir_ID row \<and>
          same_claim row (claim_record (ic_cfg c) (fst k) (snd k) fp now x) \<and>
          Execute cd c opts now later (Some ex) s w =
            execute_run cd R (ic_cfg c) (ir_ID row) x later ex s1 w)
     else (\<exists>s1. ok s1 \<and> up s1 \<and> view s1 = view s \<and>
          Execute cd c opts now later (Some ex) s w =
            (existing_answer cd fp now (the (view s k)), s1, w))"
proof -
  let ?cfg = "ic_cfg c"
  have fits: "record_fits (claim_record ?cfg (fst k) (snd k) fp now x)"
    using adm by (simp add: record_fits_def admitted_def k_def record_key_def utf8_chars_def
        IdempotencyStatusProcessing_def)
  obtain cl s1 where e: "execute_claim cd R ?cfg (fst k) (snd k) fp now x s = (cl, s1)" by fastforce
  from e up_claim [OF up] have up1: "up s1" by blast
  have E: "Execute cd c opts now later (Some ex) s w = (case cl of Answer r \<Rightarrow> (r, s1, w)
      | Claimed i \<Rightarrow> if i = 0 then (Inl (AppErr ErrIdempotencyStoreUnavail), s1, w)
          else execute_run cd R ?cfg i x later ex s1 w)"
    using adm e R unfolding x_def k_def record_key_def expiry_def
    by (simp add: Execute_def admitted_def Let_def del: if_split)
  have post: "claim_post ?cfg (fst k) (snd k) fp now x s cl s1"
    by (rule execute_claim_post [OF ok fits e])
  show ?thesis
  proof (cases "claimable fp now (view s k)")
    case True
    with post up show ?thesis
      using E up1 by (cases cl) (auto simp: claim_post_def)
  next
    case False
    then obtain r where v: "view s (fst k, snd k) = Some r"
      by (cases "view s k") (auto simp: claimable_def)
    with False execute_claim_existing [OF ok up fits v, where cd = cd] e
    have "cl = Answer (existing_answer cd fp now r)" by simp
    with post up1 v False E show ?thesis by (simp add: claim_post_def)
  qed
qed

lemma execute_run_spec:
  assumes ok: "ok s" and up: "up s" and v: "view s k = Some row" and fpr: "ir_Fingerprint row = fp"
    and st: "storable cd cfg (fst (ex w))"
    and e: "execute_run cd R cfg (ir_ID row) x later ex s w = (res, s', w')"
  shows "ok s' \<and> w' = snd (ex w) \<and> res = run_answer (fst (ex w)) \<and>
     (\<exists>row'. view s' k = Some row' \<and> outcome_row cd cfg fp x later (fst (ex w)) row')"
proof -
  obtain r w1 where ex: "ex w = (r, w1)" by fastforce
  show ?thesis
  proof (cases r)
    case (Inl er)
    obtain mr s1 where m: "MarkFailedRetryable R (ir_ID row) (failure_reason er)
        (later + cfg_FailedRetryBackoff cfg) x s = (mr, s1)" by fastforce
    from st ex Inl have "utf8_chars (failure_reason er) \<le> 128" by (simp add: storable_def)
    with m fail_err [OF ok] up obtain v where mr: "mr = Inr v" by (cases mr) auto
    from fail [OF ok m [unfolded mr]] obtain u where s1: "ok s1"
      "view s1 = on_row (ir_ID row) (\<lambda>_. True)
         (failed_row (failure_reason er) (later + cfg_FailedRetryBackoff cfg) x u) \<circ> view s" by blast
    have "view s1 k = Some (failed_row (failure_reason er) (later + cfg_FailedRetryBackoff cfg) x u row)"
      using s1(2) v by (simp add: on_row_def)
    moreover have "res = Inl er" "s' = s1" "w' = w1"
      using e ex Inl m by (simp_all add: execute_run_def failure_reason_def Let_def)
    ultimately show ?thesis using s1(1) ex Inl fpr
      by (simp add: outcome_row_def failed_row_def run_answer_def)
  next
    case (Inr d)
    with st ex obtain body where b: "marshalStoredResponse cd cfg d = Inr body"
      by (auto simp: storable_def split: sum.splits)
    obtain mr s1 where m: "MarkSucceeded R (ir_ID row) 200 body x s = (mr, s1)" by fastforce
    obtain v where mr: "mr = Inr v"
    proof (cases mr)
      case (Inl e1)
      with succeed_err [OF ok m [unfolded Inl]] up show ?thesis by simp
    qed (use that in auto)
    from succeed [OF ok m [unfolded mr]] obtain u where s1: "ok s1"
      "view s1 = on_row (ir_ID row) (\<lambda>_. True) (succeeded_row 200 body x u) \<circ> view s" by blast
    have "view s1 k = Some (succeeded_row 200 body x u row)" using s1(2) v by (simp add: on_row_def)
    moreover have "res = Inr \<lparr>res_Data = d, res_Replayed = False\<rparr>" "s' = s1" "w' = w1"
      using e ex Inr b m mr by (simp_all add: execute_run_def)
    ultimately show ?thesis using s1(1) ex Inr fpr b
      by (simp add: outcome_row_def succeeded_row_def run_answer_def)
  qed
qed

lemma execute_run_world: "snd (snd (execute_run cd R cfg i x later ex s w)) = snd (ex w)"
  by (auto simp: execute_run_def Let_def split: prod.splits sum.splits)

lemma up_run: "up s \<Longrightarrow> execute_run cd R cfg i x later ex s w = (res, s', w') \<Longrightarrow> up s'"
  by (auto simp: execute_run_def Let_def split: prod.splits sum.splits
      dest: up_fail [rotated] up_succeed [rotated])

text \<open>One call of \<open>Execute\<close>, by what the record of its key was before.\<close>

lemma execute_full:
  fixes now :: gotime
  assumes ok: "ok s" and up: "up s" and adm: "admitted cd opts key fp" and R: "ic_repo c = Some R"
    and e: "Execute cd c opts now later (Some ex) s w = (res, s', w')"
  shows "up s' \<and> (if claimable fp now (view s (record_key cd opts key))
     then w' = snd (ex w) \<and>
       (storable cd (ic_cfg c) (fst (ex w)) \<longrightarrow> ok s' \<and> res = run_answer (fst (ex w)) \<and>
         (\<exists>row. view s' (record_key cd opts key) = Some row \<and>
            outcome_row cd (ic_cfg c) fp (expiry (ic_cfg c) opts now) later (fst (ex w)) row))
     else w' = w \<and> ok s' \<and> view s' = view s \<and>
       res = existing_answer cd fp now (the (view s (record_key cd opts key))))"
proof (cases "claimable fp now (view s (record_key cd opts key))")
  case False
  with execute_spec [OF ok up adm R, of now later ex w] e show ?thesis by auto
next
  case True
  let ?k = "record_key cd opts key" and ?x = "expiry (ic_cfg c) opts now"
  from True execute_spec [OF ok up adm R, of now later ex w] obtain s1 row
    where s1: "ok s1" "up s1" "view s1 = (view s)(?k \<mapsto> row)"
      "same_claim row (claim_record (ic_cfg c) (fst ?k) (snd ?k) fp now ?x)"
    and r: "Execute cd c opts now later (Some ex) s w =
        execute_run cd R (ic_cfg c) (ir_ID row) ?x later ex s1 w" by auto
  from r e have r': "execute_run cd R (ic_cfg c) (ir_ID row) ?x later ex s1 w = (res, s', w')" by simp
  have v: "view s1 ?k = Some row" "ir_Fingerprint row = fp"
    using s1(3,4) by (simp_all add: same_claim_def)
  have "w' = snd (ex w)"
    using execute_run_world [where s = s1 and ex = ex and w = w and cd = cd] r' by (metis snd_conv)
  moreover have "up s'" by (rule up_run [OF s1(2) r'])
  ultimately show ?thesis using True execute_run_spec [OF s1(1,2) v _ r'] by auto
qed

end

section \<open>Properties of the coordinator on the SQL store\<close>

definition sql_coordinator :: "IdempotencyConfig \<Rightarrow> idem_table IdempotencyCoordinator" where
  "sql_coordinator cfg = \<lparr>ic_repo = Some sql_repo, ic_cfg = cfg\<rparr>"

lemma sql_coordinator_sel [simp]:
  "ic_repo (sql_coordinator cfg) = Some sql_repo" "ic_cfg (sql_coordinator cfg) = cfg"
  by (simp_all add: sql_coordinator_def)

text \<open>(C1) \<open>Execute\<close> implements its specification on a working store. When the record of the request's
  key lets it run (no record, or one for the same payload that is unlocked and expired or failed),
  the executor runs once, its answer is returned, and the record holds the outcome: succeeded with
  the stored body, or failed with its backoff. Otherwise the executor does not run, no record
  changes, and the answer is determined by the record: conflict for another payload, the replayed
  body, in progress, or backoff.\<close>

theorem idempotent_execute:
  assumes "tbl_ok t" "tbl_up t" "admitted cd opts key fp"
    and "Execute cd (sql_coordinator cfg) opts now later (Some ex) t w = (res, t', w')"
  shows "if claimable fp now (tbl_view t (record_key cd opts key))
     then w' = snd (ex w) \<and>
       (storable cd cfg (fst (ex w)) \<longrightarrow> tbl_ok t' \<and> res = run_answer (fst (ex w)) \<and>
         (\<exists>row. tbl_view t' (record_key cd opts key) = Some row \<and>
            outcome_row cd cfg fp (expiry cfg opts now) later (fst (ex w)) row))
     else w' = w \<and> tbl_ok t' \<and> tbl_view t' = tbl_view t \<and>
       res = existing_answer cd fp now (the (tbl_view t (record_key cd opts key)))"
  using idem_sql.execute_full [OF assms(1,2,3) sql_coordinator_sel(1) assms(4)]
  unfolding sql_coordinator_sel by (rule conjunct2)

text \<open>A repeated request finds the answer as it was stored.\<close>

lemma replay_stored:
  assumes ok: "tbl_ok t" and up0: "tbl_up t" and adm: "admitted cd opts key fp"
    and first: "Execute cd (sql_coordinator cfg) opts now later (Some ex) t w = (Inr r, t1, w1)"
    and new: "\<not> res_Replayed r" and st: "storable cd cfg (fst (ex w))"
    and live: "now2 < expiry cfg opts now"
    and again: "Execute cd (sql_coordinator cfg) opts now2 later2 (Some ex2) t1 w1 = (res, t2, w2)"
  shows "w2 = w1 \<and> tbl_view t2 = tbl_view t1 \<and>
    (\<exists>d body. fst (ex w) = Inr d \<and> res_Data r = d \<and> marshalStoredResponse cd cfg d = Inr body \<and>
       res = (case decodeStoredResponse cd (Some body) of
                Inl e \<Rightarrow> Inl (AppErr (WithCause ErrIdempotencyStoreUnavail e))
              | Inr d' \<Rightarrow> Inr \<lparr>res_Data = d', res_Replayed = True\<rparr>))"
proof -
  let ?k = "record_key cd opts key"
  have up: "tbl_up t" "tbl_up t1" using up0 idem_sql.execute_full [OF ok up0 adm _ first] by simp_all
  have cl: "claimable fp now (tbl_view t ?k)"
  proof (rule ccontr)
    assume "\<not> claimable fp now (tbl_view t ?k)"
    with idem_sql.execute_full [OF ok up(1) adm _ first]
    have "Inr r = existing_answer cd fp now (the (tbl_view t ?k))" by simp
    with new show False by (auto simp: existing_answer_def split: if_splits sum.splits)
  qed
  with idem_sql.execute_full [OF ok up(1) adm _ first] st obtain row
    where t1: "tbl_ok t1" "Inr r = run_answer (fst (ex w))" "tbl_view t1 ?k = Some row"
      "outcome_row cd cfg fp (expiry cfg opts now) later (fst (ex w)) row" by auto
  from t1(2) obtain d where d: "fst (ex w) = Inr d" "res_Data r = d"
    by (cases "fst (ex w)") (auto simp: run_answer_def)
  with t1(4) obtain body where b: "marshalStoredResponse cd cfg d = Inr body"
    "ir_ResponseBody row = Some body" "ir_Status row = IdempotencyStatusSucceeded"
    "ir_Fingerprint row = fp" "ir_ExpiresAt row = expiry cfg opts now" by (auto simp: outcome_row_def)
  have nc: "\<not> claimable fp now2 (tbl_view t1 ?k)"
    using t1(3) b live by (auto simp: claimable_def idem_status_defs)
  have ea: "existing_answer cd fp now2 row = (case decodeStoredResponse cd (Some body) of
                Inl e \<Rightarrow> Inl (AppErr (WithCause ErrIdempotencyStoreUnavail e))
              | Inr d' \<Rightarrow> Inr \<lparr>res_Data = d', res_Replayed = True\<rparr>)"
    using b by (simp add: existing_answer_def)
  from idem_sql.execute_full [OF t1(1) up(2) adm _ again] nc t1(3)
  have "w2 = w1" "tbl_view t2 = tbl_view t1" "res = existing_answer cd fp now2 row"
    by auto
  with ea d b show ?thesis by auto
qed

text \<open>
  What the stored answers rely on: the JSON of an answer is not blank, also when secrets are taken out of
  it, and a text that ends in the mark of a cut answer is no JSON document.
\<close>

definition json_texts :: "'d codec \<Rightarrow> bool" where
  "json_texts cd \<longleftrightarrow>
     (\<forall>d raw. json_Marshal cd d = Inr raw \<longrightarrow> TrimSpace (RedactText cd raw) \<noteq> []) \<and>
     (\<forall>s. \<exists>e. json_Unmarshal cd (s @ ''...(truncated)'') = Inl e)"

text \<open>
  (C27) Exactly once, then replay. After a run that answered, the same request made again at any time
  before the record expires does not run the executor and changes no record. Its answer is the JSON of
  the first answer, with secrets taken out, read back and marked as replayed; but when that JSON is
  longer than \<open>MaxStoredResponseLen\<close> it was stored cut, and the repeat gets status 503 instead, as it
  does when the JSON cannot be read any more.
\<close>

theorem execute_then_replay:
  assumes ok: "tbl_ok t" and up0: "tbl_up t" and adm: "admitted cd opts key fp" and json: "json_texts cd"
    and first: "Execute cd (sql_coordinator cfg) opts now later (Some ex) t w = (Inr r, t1, w1)"
    and new: "\<not> res_Replayed r" and raw: "fst (ex w) = Inr d" "json_Marshal cd d = Inr raw"
    and live: "now2 < expiry cfg opts now"
    and again: "Execute cd (sql_coordinator cfg) opts now2 later2 (Some ex2) t1 w1 = (res, t2, w2)"
  shows "w2 = w1 \<and> tbl_view t2 = tbl_view t1 \<and> res_Data r = d \<and>
    (if 0 < cfg_MaxStoredResponseLen cfg \<and> cfg_MaxStoredResponseLen cfg < int (length (RedactText cd raw))
     then \<exists>e. res = Inl e \<and> Code (Some e) = 503
     else case json_Unmarshal cd (RedactText cd raw) of
         Inr d' \<Rightarrow> res = Inr \<lparr>res_Data = d', res_Replayed = True\<rparr>
       | Inl _ \<Rightarrow> \<exists>e. res = Inl e \<and> Code (Some e) = 503)"
proof -
  have st: "storable cd cfg (fst (ex w))" using raw by (simp add: storable_def marshalStoredResponse_def Let_def)
  obtain body where b: "w2 = w1" "tbl_view t2 = tbl_view t1" "res_Data r = d" "marshalStoredResponse cd cfg d = Inr body"
    "res = (case decodeStoredResponse cd (Some body) of
        Inl e \<Rightarrow> Inl (AppErr (WithCause ErrIdempotencyStoreUnavail e))
      | Inr d' \<Rightarrow> Inr \<lparr>res_Data = d', res_Replayed = True\<rparr>)"
    using replay_stored [OF ok up0 adm first new st live again] raw(1) by auto
  have code: "Code (Some (AppErr (WithCause ErrIdempotencyStoreUnavail e))) = 503" for e
    by (simp add: Code_def FromError_def ErrIdempotencyStoreUnavail_def ServiceUnavailable_def)
  have cut: "TrimSpace (x @ ''...(truncated)'') \<noteq> []" for x
    by (rule TrimSpace_keeps_graphic [of "CHR '')''"]) (simp_all add: graphic_def)
  show ?thesis
  proof (cases "0 < cfg_MaxStoredResponseLen cfg \<and> cfg_MaxStoredResponseLen cfg < int (length (RedactText cd raw))")
    case True
    then have "body = take (nat (cfg_MaxStoredResponseLen cfg)) (RedactText cd raw) @ ''...(truncated)''"
      using b(4) raw(2) by (simp add: marshalStoredResponse_def Let_def)
    moreover obtain e where "json_Unmarshal cd (take (nat (cfg_MaxStoredResponseLen cfg)) (RedactText cd raw) @ ''...(truncated)'') = Inl e"
      using json unfolding json_texts_def by blast
    ultimately show ?thesis using b True cut code by (simp add: decodeStoredResponse_def)
  next
    case False
    then have "body = RedactText cd raw" using b(4) raw(2) by (auto simp: marshalStoredResponse_def Let_def)
    moreover have "TrimSpace (RedactText cd raw) \<noteq> []" using json raw(2) by (auto simp: json_texts_def)
    ultimately show ?thesis using b False code by (auto simp: decodeStoredResponse_def split: sum.split)
  qed
qed

text \<open>Failed requests back off, then may run again. After a run whose executor failed, the same
  request made before the backoff ends does not run and is told to retry later; made at or after
  its end it runs the executor again, whatever the record's expiry.\<close>

theorem execute_failure_backoff:
  assumes ok: "tbl_ok t" and up0: "tbl_up t" and adm: "admitted cd opts key fp"
    and cl: "claimable fp now (tbl_view t (record_key cd opts key))"
    and bad: "fst (ex w) = Inl err" and st: "utf8_chars (failure_reason err) \<le> 128"
    and first: "Execute cd (sql_coordinator cfg) opts now later (Some ex) t w = (r1, t1, w1)"
    and again: "Execute cd (sql_coordinator cfg) opts now2 later2 (Some ex2) t1 w1 = (res, t2, w2)"
  shows "r1 = Inl err \<and>
     (if now2 < later + cfg_FailedRetryBackoff cfg
      then w2 = w1 \<and> res = Inl (AppErr (conflictWithRetryAfter ErrIdempotencyRetryBackoff
             (Some (later + cfg_FailedRetryBackoff cfg)) now2))
      else w2 = snd (ex2 w1))"
proof -
  let ?k = "record_key cd opts key"
  have up: "tbl_up t" "tbl_up t1" using up0 idem_sql.execute_full [OF ok up0 adm _ first] by simp_all
  from idem_sql.execute_full [OF ok up(1) adm _ first] cl bad st obtain row
    where t1: "tbl_ok t1" "r1 = Inl err" "tbl_view t1 ?k = Some row"
      "outcome_row cd cfg fp (expiry cfg opts now) later (Inl err) row"
    by (auto simp: storable_def run_answer_def)
  then have row: "ir_Status row = IdempotencyStatusFailedRetryable" "ir_Fingerprint row = fp"
    "ir_LockedUntil row = Some (later + cfg_FailedRetryBackoff cfg)" by (auto simp: outcome_row_def)
  have c: "claimable fp now2 (tbl_view t1 ?k) \<longleftrightarrow> \<not> now2 < later + cfg_FailedRetryBackoff cfg"
    using t1(3) row by (auto simp: claimable_def)
  have "existing_answer cd fp now2 row = Inl (AppErr (conflictWithRetryAfter ErrIdempotencyRetryBackoff
             (Some (later + cfg_FailedRetryBackoff cfg)) now2))"
    using row by (simp add: existing_answer_def idem_status_defs)
  with idem_sql.execute_full [OF t1(1) up(2) adm _ again] c t1(2,3) show ?thesis
    by (auto split: if_splits)
qed

text \<open>Retry hints. The \<open>retry_after\<close> of a conflict reads back as the whole seconds until the
  lock is free, at least one, for every lock within the range of an \<open>int\<close>.\<close>

theorem retry_after_readable:
  assumes "whole_seconds (l - now) < 2 ^ 63"
  shows "RetryAfterSecondsFromError (wrap_all ms (AppErr (conflictWithRetryAfter base (Some l) now))) =
     max 1 (whole_seconds (l - now))"
proof -
  let ?sec = "if whole_seconds (l - now) \<le> 0 then 1 else whole_seconds (l - now)"
  have "Atoi (itoa ?sec) = Some ?sec" using assms by (intro Atoi_itoa) auto
  moreover have "TrimSpace (itoa ?sec) = itoa ?sec" "itoa ?sec \<noteq> []"
    using itoa_graphic TrimSpace_graphic by blast+
  ultimately show ?thesis
    by (simp add: RetryAfterSecondsFromError_def conflictWithRetryAfter_def Let_def)
qed

text \<open>A stored answer that is too long is never replayed. When the redacted answer of a run is
  longer than \<open>MaxStoredResponseLen\<close>, the stored body is cut and marked, which is no JSON document:
  the same request made again before the record expires gets status 503 although the operation
  was carried out, and does not run.\<close>

theorem truncated_response_not_replayed:
  assumes ok: "tbl_ok t" and up0: "tbl_up t" and adm: "admitted cd opts key fp"
    and first: "Execute cd (sql_coordinator cfg) opts now later (Some ex) t w = (Inr r, t1, w1)"
    and new: "\<not> res_Replayed r"
    and raw: "fst (ex w) = Inr d" "json_Marshal cd d = Inr raw"
    and len: "0 < cfg_MaxStoredResponseLen cfg"
      "cfg_MaxStoredResponseLen cfg < int (length (RedactText cd raw))"
    and json: "\<And>s. \<exists>e. json_Unmarshal cd (s @ ''...(truncated)'') = Inl e"
    and live: "now2 < expiry cfg opts now"
    and again: "Execute cd (sql_coordinator cfg) opts now2 later2 (Some ex2) t1 w1 = (res, t2, w2)"
  shows "w2 = w1 \<and> (\<exists>e. res = Inl e \<and> Code (Some e) = 503)"
proof -
  let ?body = "take (nat (cfg_MaxStoredResponseLen cfg)) (RedactText cd raw) @ ''...(truncated)''"
  have m: "marshalStoredResponse cd cfg d = Inr ?body"
    using raw len by (simp add: marshalStoredResponse_def Let_def)
  have st: "storable cd cfg (fst (ex w))" using m raw by (simp add: storable_def)
  obtain e where e: "json_Unmarshal cd ?body = Inl e" using json by blast
  let ?k = "record_key cd opts key"
  have up: "tbl_up t" "tbl_up t1" using up0 idem_sql.execute_full [OF ok up0 adm _ first] by simp_all
  have cl: "claimable fp now (tbl_view t ?k)"
  proof (rule ccontr)
    assume "\<not> claimable fp now (tbl_view t ?k)"
    with idem_sql.execute_full [OF ok up(1) adm _ first]
    have "Inr r = existing_answer cd fp now (the (tbl_view t ?k))" by simp
    with new show False by (auto simp: existing_answer_def split: if_splits sum.splits)
  qed
  with idem_sql.execute_full [OF ok up(1) adm _ first] st raw m obtain row
    where t1: "tbl_ok t1" "tbl_view t1 ?k = Some row" "ir_Status row = IdempotencyStatusSucceeded"
      "ir_Fingerprint row = fp" "ir_ResponseBody row = Some ?body"
      "ir_ExpiresAt row = expiry cfg opts now" by (auto simp: outcome_row_def)
  have nc: "\<not> claimable fp now2 (tbl_view t1 ?k)"
    using t1 live by (auto simp: claimable_def idem_status_defs)
  have "TrimSpace ?body \<noteq> []"
    by (rule TrimSpace_keeps_graphic [of "CHR '')''"]) (simp_all add: graphic_def)
  then have "existing_answer cd fp now2 row =
      Inl (AppErr (WithCause ErrIdempotencyStoreUnavail (WrapErr ''decode stored response'' e)))"
    using t1 e by (simp add: existing_answer_def decodeStoredResponse_def)
  moreover from idem_sql.execute_full [OF t1(1) up(2) adm _ again] nc t1(2)
  have "w2 = w1" "res = existing_answer cd fp now2 row" by auto
  moreover have "ae_Code ErrIdempotencyStoreUnavail = 503"
    by (simp add: ErrIdempotencyStoreUnavail_def ServiceUnavailable_def)
  ultimately show ?thesis by (simp add: Code_def FromError_def)
qed

section \<open>A concrete instance\<close>

text \<open>Values are strings, encoded between quotes; the hash and the redaction are identities. The
  executor counts its runs.\<close>

definition demo_codec :: "string codec" where
  "demo_codec = \<lparr>sha256_hex = id, json_Marshal = (\<lambda>d. Inr (CHR 0x22 # d @ [CHR 0x22])),
     json_Unmarshal = (\<lambda>s. if s \<noteq> [] \<and> hd s = CHR 0x22 \<and> last s = CHR 0x22
       then Inr (butlast (tl s)) else Inl (PlainErr ''invalid character'')),
     RedactText = id, empty_object = []\<rparr>"

definition demo_opts :: "string IdempotencyExecuteOptions" where
  "demo_opts = \<lparr>op_Scope = ''s'', op_ActorScope = [], op_Method = [], op_Route = [],
     op_Key = ''k'', op_Payload = ''p'', op_TTL = 1000, op_RequireKey = True\<rparr>"

definition demo_cfg :: "int \<Rightarrow> IdempotencyConfig" where
  "demo_cfg n = DefaultIdempotencyConfig\<lparr>cfg_FailedRetryBackoff := 100, cfg_MaxStoredResponseLen := n\<rparr>"

definition demo_fp :: string where
  "demo_fp = ''POST'' @ [CHR 0x0A] @ ''/'' @ [CHR 0x0A] @ ''anonymous'' @ [CHR 0x0A, CHR 0x22, CHR ''p'', CHR 0x22]"

definition demo_ok :: "nat \<Rightarrow> (go_error + string) \<times> nat" where "demo_ok n = (Inr ''done'', Suc n)"
definition demo_bad :: "nat \<Rightarrow> (go_error + string) \<times> nat" where "demo_bad n = (Inl (PlainErr ''x''), Suc n)"

lemma demo_key: "NormalizeIdempotencyKey ''k'' = Inr ''k''"
proof -
  have "TrimSpace ''k'' = ''k''" by (rule TrimSpace_graphic) (simp add: graphic_def)
  then show ?thesis by (simp add: NormalizeIdempotencyKey_def)
qed

lemma demo_admitted: "admitted demo_codec demo_opts ''k'' demo_fp"
  by (simp add: admitted_def demo_opts_def demo_key BuildIdempotencyFingerprint_def demo_codec_def
      demo_fp_def ToUpper_def ascii_upper_def HashIdempotencyKey_def utf8_chars_def Let_def)

lemma demo_empty: "tbl_ok (empty_table 0 [])" "tbl_up (empty_table 0 [])"
  "tbl_view (empty_table 0 []) k = None"
  by (simp_all add: tbl_ok_def tbl_up_def tbl_view_def empty_table_def)

lemmas demo_run_simps = Execute_def demo_key HashIdempotencyKey_def BuildIdempotencyFingerprint_def
  execute_claim_def execute_run_def sql_repo_def sql_CreateProcessing_def sql_exec_def
  empty_table_def utf8_chars_def ToUpper_def ascii_upper_def Let_def zero_ir_def
  marshalStoredResponse_def sql_MarkSucceeded_def sql_MarkFailedRetryable_def sql_update_def
  demo_codec_def demo_opts_def sql_coordinator_def idem_status_defs demo_cfg_def
  DefaultIdempotencyConfig_def go_simps tbl_up_def

lemma demo_first:
  "\<exists>t1. Execute demo_codec (sql_coordinator (demo_cfg 0)) demo_opts 0 5 (Some demo_ok)
     (empty_table 0 []) 0 = (Inr \<lparr>res_Data = ''done'', res_Replayed = False\<rparr>, t1, 1)"
  by (simp add: demo_run_simps demo_ok_def)

lemma demo_first_cut:
  "\<exists>t1. Execute demo_codec (sql_coordinator (demo_cfg 3)) demo_opts 0 5 (Some demo_ok)
     (empty_table 0 []) 0 = (Inr \<lparr>res_Data = ''done'', res_Replayed = False\<rparr>, t1, 1)"
  by (simp add: demo_run_simps demo_ok_def)

lemma demo_first_bad:
  "\<exists>t1. Execute demo_codec (sql_coordinator (demo_cfg 0)) demo_opts 0 5 (Some demo_bad)
     (empty_table 0 []) 0 = (Inl (PlainErr ''x''), t1, 1)"
  by (simp add: demo_run_simps demo_bad_def Reason_def FromError_def UnknownReason_def)

theorem idempotent_execute_witness:
  "\<exists>res t'. Execute demo_codec (sql_coordinator (demo_cfg 0)) demo_opts 0 5 (Some demo_ok)
     (empty_table 0 []) 0 = (res, t', 1::nat)"
proof -
  obtain res t' w' where e: "Execute demo_codec (sql_coordinator (demo_cfg 0)) demo_opts 0 5 (Some demo_ok)
     (empty_table 0 []) 0 = (res, t', w')" by (metis prod_cases3)
  from idempotent_execute [OF demo_empty(1,2) demo_admitted e] have "w' = 1"
    by (simp add: claimable_def demo_empty demo_ok_def)
  with e show ?thesis by simp
qed

theorem execute_then_replay_witness:
  "\<exists>t1 t2. Execute demo_codec (sql_coordinator (demo_cfg 0)) demo_opts 0 5 (Some demo_ok)
       (empty_table 0 []) 0 = (Inr \<lparr>res_Data = ''done'', res_Replayed = False\<rparr>, t1, 1) \<and>
     Execute demo_codec (sql_coordinator (demo_cfg 0)) demo_opts 500 505 (Some demo_ok) t1 1 =
       (Inr \<lparr>res_Data = ''done'', res_Replayed = True\<rparr>, t2, 1)"
proof -
  obtain t1 where f: "Execute demo_codec (sql_coordinator (demo_cfg 0)) demo_opts 0 5 (Some demo_ok)
       (empty_table 0 []) 0 = (Inr \<lparr>res_Data = ''done'', res_Replayed = False\<rparr>, t1, 1)"
    using demo_first by blast
  obtain res t2 w2 where a: "Execute demo_codec (sql_coordinator (demo_cfg 0)) demo_opts 500 505
       (Some demo_ok) t1 1 = (res, t2, w2)" by (metis prod_cases3)
  have "TrimSpace (CHR 0x22 # d @ [CHR 0x22]) \<noteq> []" for d :: string
    by (rule TrimSpace_keeps_graphic [of "CHR 0x22"]) (simp_all add: graphic_def)
  then have json: "json_texts demo_codec" by (auto simp: json_texts_def demo_codec_def)
  have "fst (demo_ok 0) = Inr ''done''" "json_Marshal demo_codec ''done'' = Inr (CHR 0x22 # ''done'' @ [CHR 0x22])"
    by (simp_all add: demo_ok_def demo_codec_def)
  from execute_then_replay [OF demo_empty(1,2) demo_admitted json f _ this _ a]
  have "w2 = 1 \<and> res = Inr \<lparr>res_Data = ''done'', res_Replayed = True\<rparr>"
    by (simp add: expiry_def demo_opts_def demo_codec_def demo_cfg_def)
  with f a show ?thesis by auto
qed

theorem execute_failure_backoff_witness:
  "\<exists>t1 t2 res. Execute demo_codec (sql_coordinator (demo_cfg 0)) demo_opts 0 5 (Some demo_bad)
       (empty_table 0 []) 0 = (Inl (PlainErr ''x''), t1, 1) \<and>
     Execute demo_codec (sql_coordinator (demo_cfg 0)) demo_opts 105 106 (Some demo_ok) t1 1 =
       (res, t2, 2)"
proof -
  obtain t1 where f: "Execute demo_codec (sql_coordinator (demo_cfg 0)) demo_opts 0 5 (Some demo_bad)
       (empty_table 0 []) 0 = (Inl (PlainErr ''x''), t1, 1)"
    using demo_first_bad by blast
  obtain res t2 w2 where a: "Execute demo_codec (sql_coordinator (demo_cfg 0)) demo_opts 105 106
       (Some demo_ok) t1 1 = (res, t2, w2)" by (metis prod_cases3)
  have "w2 = 2"
    using execute_failure_backoff [OF demo_empty(1,2) demo_admitted _ _ _ f a]
    by (simp add: claimable_def demo_empty demo_bad_def demo_ok_def failure_reason_def Reason_def
        FromError_def UnknownReason_def utf8_chars_def demo_cfg_def)
  with f a show ?thesis by auto
qed

theorem retry_after_readable_witness:
  "RetryAfterSecondsFromError (wrap_all [''w''] (AppErr (conflictWithRetryAfter
     ErrIdempotencyInProgress (Some (7 * time_Second)) 0))) = 7"
  using retry_after_readable [of "7 * time_Second" 0 "[''w'']" ErrIdempotencyInProgress]
  by (simp add: whole_seconds_def go_div_def go_simps)

theorem truncated_response_not_replayed_witness:
  "\<exists>t1 t2 e. Execute demo_codec (sql_coordinator (demo_cfg 3)) demo_opts 0 5 (Some demo_ok)
       (empty_table 0 []) 0 = (Inr \<lparr>res_Data = ''done'', res_Replayed = False\<rparr>, t1, 1) \<and>
     Execute demo_codec (sql_coordinator (demo_cfg 3)) demo_opts 500 505 (Some demo_ok) t1 1 =
       (Inl e, t2, 1) \<and> Code (Some e) = 503"
proof -
  obtain t1 where f: "Execute demo_codec (sql_coordinator (demo_cfg 3)) demo_opts 0 5 (Some demo_ok)
       (empty_table 0 []) 0 = (Inr \<lparr>res_Data = ''done'', res_Replayed = False\<rparr>, t1, 1)"
    using demo_first_cut by blast
  obtain res t2 w2 where a: "Execute demo_codec (sql_coordinator (demo_cfg 3)) demo_opts 500 505
       (Some demo_ok) t1 1 = (res, t2, w2)" by (metis prod_cases3)
  have "w2 = 1 \<and> (\<exists>e. res = Inl e \<and> Code (Some e) = 503)"
    by (rule truncated_response_not_replayed [OF demo_empty(1,2) demo_admitted f _ _ _ _ _ _ _ a,
          where d = "''done''" and raw = "CHR 0x22 # ''done'' @ [CHR 0x22]"])
       (simp_all add: demo_ok_def demo_codec_def demo_cfg_def expiry_def demo_opts_def)
  with f a show ?thesis by auto
qed

end
