(* ===== verification/SystemLock.thy ===== *)
theory SystemLock
  imports Idempotency
begin

text \<open>
  The global lock of system operations (upgrade, rollback, restart):
  \<open>backend/internal/service/system_operation_lock_service.go\<close>. It is one idempotency record, held
  under a lease that a goroutine extends every \<open>renewInterval\<close>.

  A lock is a value with the id of the record and the operation's id. A turn of \<open>renewLoop\<close> on a
  tick is the function \<open>renewTick\<close>, whose first result says whether the loop goes on; the channel
  \<open>stopCh\<close> that ends it is closed by \<open>Release\<close>. The lemmas are proved against the contract of the
  store; the properties instantiate them with the SQL repository.
\<close>

section \<open>The service\<close>

definition systemOperationLockScope :: string where
  "systemOperationLockScope = ''admin.system.operations.global_lock''"

definition systemOperationLockKey :: string where
  "systemOperationLockKey = ''global-system-operation-lock''"

definition ErrSystemOperationBusy :: ApplicationError where
  "ErrSystemOperationBusy = Conflict ''SYSTEM_OPERATION_BUSY'' ''another system operation is in progress''"

record SystemOperationLock =
  lk_recordID :: int
  lk_operationID :: string

definition OperationID :: "SystemOperationLock option \<Rightarrow> string" where
  "OperationID l = (case l of None \<Rightarrow> [] | Some l \<Rightarrow> lk_operationID l)"

record 'r SystemOperationLockService =
  sol_repo :: "'r IdempotencyRepository option"
  sol_lease :: duration
  sol_renewInterval :: duration
  sol_ttl :: duration

definition NewSystemOperationLockService ::
    "'r IdempotencyRepository option \<Rightarrow> IdempotencyConfig \<Rightarrow> 'r SystemOperationLockService" where
  "NewSystemOperationLockService repo cfg =
     (let lease = (if cfg_ProcessingTimeout cfg \<le> 0 then 30 * time_Second else cfg_ProcessingTimeout cfg);
          renewInterval = go_div lease 3;
          renewInterval = (if renewInterval < time_Second then time_Second else renewInterval);
          ttl = (if cfg_SystemOperationTTL cfg \<le> 0 then time_Hour else cfg_SystemOperationTTL cfg)
      in \<lparr>sol_repo = repo, sol_lease = lease, sol_renewInterval = renewInterval, sol_ttl = ttl\<rparr>)"

definition busyError :: "string \<Rightarrow> gotime option \<Rightarrow> gotime \<Rightarrow> ApplicationError" where
  "busyError operationID lockedUntil now =
     (let md = Map.empty;
          md = (if operationID \<noteq> [] then md(''operation_id'' \<mapsto> operationID) else md);
          md = (case lockedUntil of
             None \<Rightarrow> md
           | Some l \<Rightarrow>
               (let sec = whole_seconds (l - now); sec = (if sec \<le> 0 then 1 else sec)
                in md(''retry_after'' \<mapsto> itoa sec)))
      in if operationID = [] \<and> lockedUntil = None then ErrSystemOperationBusy
         else WithMetadata ErrSystemOperationBusy (Some md))"

definition lock_record :: "(string \<Rightarrow> string) \<Rightarrow> 'r SystemOperationLockService \<Rightarrow> string \<Rightarrow> gotime \<Rightarrow>
    IdempotencyRecord" where
  "lock_record hash svc operationID now =
     zero_ir\<lparr>ir_Scope := systemOperationLockScope, ir_KeyHash := hash systemOperationLockKey,
       ir_Fingerprint := operationID, ir_Status := IdempotencyStatusProcessing,
       ir_LockedUntil := Some (now + sol_lease svc), ir_ExpiresAt := now + sol_ttl svc\<rparr>"

definition store_error :: "go_error \<Rightarrow> ApplicationError" where
  "store_error e = WithCause ErrIdempotencyStoreUnavail e"

text \<open>\<open>Acquire\<close>; \<open>hash\<close> is the SHA-256 of \<open>HashIdempotencyKey\<close>.\<close>

definition Acquire :: "(string \<Rightarrow> string) \<Rightarrow> 'r SystemOperationLockService \<Rightarrow> string \<Rightarrow> gotime \<Rightarrow> 'r \<Rightarrow>
    (ApplicationError + SystemOperationLock) \<times> 'r" where
  "Acquire hash svc operationID now s =
     (case sol_repo svc of
        None \<Rightarrow> (Inl ErrIdempotencyStoreUnavail, s)
      | Some R \<Rightarrow>
     if operationID = [] then
       (Inl (BadRequest ''SYSTEM_OPERATION_ID_REQUIRED'' ''operation id is required''), s)
     else
     let expiresAt = now + sol_ttl svc;
         lockedUntil = now + sol_lease svc;
         keyHash = hash systemOperationLockKey;
         grant = (\<lambda>recordID s. if recordID = 0 then (Inl ErrIdempotencyStoreUnavail, s)
            else (Inr \<lparr>lk_recordID = recordID, lk_operationID = operationID\<rparr>, s))
     in case CreateProcessing R (lock_record hash svc operationID now) s of
          (Inl err, s1) \<Rightarrow> (Inl (store_error err), s1)
        | (Inr (True, record), s1) \<Rightarrow> grant (ir_ID record) s1
        | (Inr (False, record), s1) \<Rightarrow>
            (case GetByScopeAndKeyHash R systemOperationLockScope keyHash s1 of
               (Inl getErr, s2) \<Rightarrow> (Inl (store_error getErr), s2)
             | (Inr None, s2) \<Rightarrow> (Inl ErrIdempotencyStoreUnavail, s2)
             | (Inr (Some existing), s2) \<Rightarrow>
                 if ir_Status existing = IdempotencyStatusProcessing \<and>
                    (case ir_LockedUntil existing of None \<Rightarrow> False | Some l \<Rightarrow> now < l) then
                   (Inl (busyError (ir_Fingerprint existing) (ir_LockedUntil existing) now), s2)
                 else
                   (case TryReclaim R (ir_ID existing) (ir_Status existing) now lockedUntil expiresAt s2 of
                      (Inl reclaimErr, s3) \<Rightarrow> (Inl (store_error reclaimErr), s3)
                    | (Inr True, s3) \<Rightarrow> grant (ir_ID existing) s3
                    | (Inr False, s3) \<Rightarrow>
                        (case GetByScopeAndKeyHash R systemOperationLockScope keyHash s3 of
                           (Inr (Some latest), s4) \<Rightarrow>
                             (Inl (busyError (ir_Fingerprint latest) (ir_LockedUntil latest) now), s4)
                         | (_, s4) \<Rightarrow> (Inl ErrSystemOperationBusy, s4)))))"

definition Release :: "'r SystemOperationLockService \<Rightarrow> SystemOperationLock option \<Rightarrow> bool \<Rightarrow> string \<Rightarrow>
    gotime \<Rightarrow> 'r \<Rightarrow> (go_error + unit) \<times> 'r" where
  "Release svc lock succeeded failureReason now s =
     (case (sol_repo svc, lock) of
        (Some R, Some l) \<Rightarrow>
          (let expiresAt = now + sol_ttl svc in
           if succeeded then
             (let q = [CHR 0x22];
                  responseBody = ''{'' @ q @ ''operation_id'' @ q @ '':'' @ q @ lk_operationID l @ q @ '','' @
                    q @ ''released'' @ q @ '':true}''
              in MarkSucceeded R (lk_recordID l) 200 responseBody expiresAt s)
           else
             (let reason = (if failureReason = [] then ''SYSTEM_OPERATION_FAILED'' else failureReason)
              in MarkFailedRetryable R (lk_recordID l) reason now expiresAt s))
      | _ \<Rightarrow> (Inr (), s))"

definition renewTick :: "'r SystemOperationLockService \<Rightarrow> SystemOperationLock \<Rightarrow> gotime \<Rightarrow> 'r \<Rightarrow> bool \<times> 'r" where
  "renewTick svc lock now s =
     (case sol_repo svc of
        None \<Rightarrow> (False, s)
      | Some R \<Rightarrow>
          (case ExtendProcessingLock R (lk_recordID lock) (lk_operationID lock)
                  (now + sol_lease svc) (now + sol_ttl svc) s of
             (Inl err, s1) \<Rightarrow> (True, s1)
           | (Inr ok, s1) \<Rightarrow> (ok, s1)))"

text \<open>\<open>renewLoop\<close> over the times of its ticks until the lock is released: it stops at the first
  tick that finds the ownership lost.\<close>

fun renewLoop :: "'r SystemOperationLockService \<Rightarrow> SystemOperationLock \<Rightarrow> gotime list \<Rightarrow> 'r \<Rightarrow> 'r" where
  "renewLoop svc lock [] s = s"
| "renewLoop svc lock (t # ts) s =
     (case renewTick svc lock t s of
        (True, s1) \<Rightarrow> renewLoop svc lock ts s1
      | (False, s1) \<Rightarrow> s1)"

lemma renew_before_lease_ends:
  "sol_renewInterval (NewSystemOperationLockService R cfg) < sol_lease (NewSystemOperationLockService R cfg)
     \<longleftrightarrow> cfg_ProcessingTimeout cfg \<le> 0 \<or> time_Second < cfg_ProcessingTimeout cfg"
  by (auto simp: NewSystemOperationLockService_def Let_def go_div_pos go_simps)

section \<open>The record of the lock\<close>

definition lock_key :: "(string \<Rightarrow> string) \<Rightarrow> string \<times> string" where
  "lock_key hash = (systemOperationLockScope, hash systemOperationLockKey)"

text \<open>The lock is held when the record is in processing and its lease has not ended.\<close>

definition held :: "gotime \<Rightarrow> IdempotencyRecord option \<Rightarrow> bool" where
  "held now v = (case v of
     None \<Rightarrow> False
   | Some r \<Rightarrow> ir_Status r = IdempotencyStatusProcessing \<and>
       (case ir_LockedUntil r of None \<Rightarrow> False | Some l \<Rightarrow> now < l))"

definition lock_free :: "gotime \<Rightarrow> IdempotencyRecord option \<Rightarrow> bool" where
  "lock_free now v = (case v of
     None \<Rightarrow> True
   | Some r \<Rightarrow> (case ir_LockedUntil r of None \<Rightarrow> True | Some l \<Rightarrow> l \<le> now))"

definition id_fits :: "(string \<Rightarrow> string) \<Rightarrow> string \<Rightarrow> bool" where
  "id_fits hash op \<longleftrightarrow> op \<noteq> [] \<and> utf8_chars op \<le> 64 \<and> utf8_chars (hash systemOperationLockKey) \<le> 64"

lemma lock_record_sel [simp]:
  "(ir_Scope (lock_record hash svc op now), ir_KeyHash (lock_record hash svc op now)) = lock_key hash"
  "ir_Scope (lock_record hash svc op now) = systemOperationLockScope"
  "ir_KeyHash (lock_record hash svc op now) = hash systemOperationLockKey"
  "ir_Fingerprint (lock_record hash svc op now) = op"
  "ir_Status (lock_record hash svc op now) = IdempotencyStatusProcessing"
  "ir_LockedUntil (lock_record hash svc op now) = Some (now + sol_lease svc)"
  "ir_ExpiresAt (lock_record hash svc op now) = now + sol_ttl svc"
  by (simp_all add: lock_record_def lock_key_def)

lemma lock_record_fits: "id_fits hash op \<Longrightarrow> record_fits (lock_record hash svc op now)"
  by (simp add: record_fits_def id_fits_def utf8_chars_def systemOperationLockScope_def
      IdempotencyStatusProcessing_def)

context idempotency_store
begin

text \<open>What \<open>Acquire\<close> leaves: a grant means the lease of the record was free and now belongs to this
  call; the record keeps the fingerprint it had when it existed.\<close>

lemma acquire_new:
  assumes ok: "ok s" and up: "up s" and R: "sol_repo svc = Some R" and fits: "id_fits hash op"
    and v: "view s (lock_key hash) = None"
  obtains row s' where "Acquire hash svc op now s = (Inr \<lparr>lk_recordID = ir_ID row, lk_operationID = op\<rparr>, s')"
    "ok s'" "up s'" "view s' = (view s)(lock_key hash \<mapsto> row)" "same_claim row (lock_record hash svc op now)"
proof -
  let ?rec = "lock_record hash svc op now"
  obtain res s1 where c: "CreateProcessing R ?rec s = (res, s1)" by fastforce
  obtain b rec' where res: "res = Inr (b, rec')"
  proof (cases res)
    case (Inl e)
    with create_err [OF ok c [unfolded Inl]] lock_record_fits [OF fits, where svc = svc and now = now] up show ?thesis by simp
  qed (use that in auto)
  from create [OF ok c [unfolded res]] v obtain row
    where p: b "0 < ir_ID rec'" "ok s1" "view s1 = (view s)(lock_key hash \<mapsto> row)"
      "ir_ID row = ir_ID rec'" "same_claim row ?rec" by (auto simp: lock_key_def)
  moreover have "Acquire hash svc op now s = (Inr \<lparr>lk_recordID = ir_ID row, lk_operationID = op\<rparr>, s1)"
    using R fits c res p by (simp add: Acquire_def id_fits_def Let_def)
  moreover have "up s1" using up_create [OF up c] .
  ultimately show ?thesis using that by blast
qed

lemma acquire_existing:
  assumes ok: "ok s" and up: "up s" and R: "sol_repo svc = Some R" and fits: "id_fits hash op"
    and v: "view s (lock_key hash) = Some r"
  obtains s' u where "ok s'" "up s'"
    "if held now (Some r) then
       Acquire hash svc op now s = (Inl (busyError (ir_Fingerprint r) (ir_LockedUntil r) now), s') \<and>
       view s' = view s
     else if lock_free now (Some r) then
       Acquire hash svc op now s = (Inr \<lparr>lk_recordID = ir_ID r, lk_operationID = op\<rparr>, s') \<and>
       view s' = (view s)(lock_key hash \<mapsto> reclaimed_row (now + sol_lease svc) (now + sol_ttl svc) u r)
     else Acquire hash svc op now s = (Inl (busyError (ir_Fingerprint r) (ir_LockedUntil r) now), s') \<and>
       view s' = view s"
proof -
  let ?rec = "lock_record hash svc op now" and ?k = "lock_key hash"
  obtain res s1 where c: "CreateProcessing R ?rec s = (res, s1)" by fastforce
  obtain b rec' where res: "res = Inr (b, rec')"
  proof (cases res)
    case (Inl e)
    with create_err [OF ok c [unfolded Inl]] lock_record_fits [OF fits, where svc = svc and now = now] up show ?thesis by simp
  qed (use that in auto)
  from create [OF ok c [unfolded res]] v
  have s1: "\<not> b" "ok s1" "view s1 = view s" by (auto simp: lock_key_def)
  have up1: "up s1" using up_create [OF up c] .
  obtain res2 s2 where g: "GetByScopeAndKeyHash R systemOperationLockScope (hash systemOperationLockKey) s1
      = (res2, s2)" by fastforce
  have up2: "up s2" using up_get [OF up1 g] .
  from get_at [OF s1(2) g] s1 v up1 have s2: "ok s2" "view s2 = view s" "res2 = Inr (Some r)"
    by (cases res2; auto simp: lock_key_def)+
  have v2: "view s2 ?k = Some r" using s2 v by simp
  show ?thesis
  proof (cases "held now (Some r)")
    case True
    then have "Acquire hash svc op now s = (Inl (busyError (ir_Fingerprint r) (ir_LockedUntil r) now), s2)"
      using R fits c res s1 g s2 by (simp add: Acquire_def id_fits_def Let_def held_def)
    with True s2 up2 that show ?thesis by auto
  next
    case False
    obtain res3 s3 where t: "TryReclaim R (ir_ID r) (ir_Status r) now (now + sol_lease svc)
        (now + sol_ttl svc) s2 = (res3, s3)" by fastforce
    have up3: "up s3" using up_reclaim [OF up2 t] .
    obtain b3 where b3: "res3 = Inr b3"
    proof (cases res3)
      case (Inl e)
      with reclaim_err [OF s2(1) t [unfolded Inl]] up2 show ?thesis by simp
    qed (use that in auto)
    have rf: "reclaimable (ir_Status r) now r = lock_free now (Some r)"
      by (simp add: reclaimable_def lock_free_def)
    from reclaim_at [OF s2(1) v2 t [unfolded b3]] rf s2 obtain u
      where s3: "b3 = lock_free now (Some r)" "ok s3"
        "view s3 = (if b3 then (view s)(?k \<mapsto> reclaimed_row (now + sol_lease svc) (now + sol_ttl svc) u r)
                    else view s)" by auto
    have nh: "\<not> (ir_Status r = IdempotencyStatusProcessing \<and>
        (case ir_LockedUntil r of None \<Rightarrow> False | Some l \<Rightarrow> now < l))"
      using False by (simp add: held_def)
    have pos: "ir_ID r \<noteq> 0" using view_key [OF ok v] by auto
    show ?thesis
    proof (cases b3)
      case True
      then have "Acquire hash svc op now s = (Inr \<lparr>lk_recordID = ir_ID r, lk_operationID = op\<rparr>, s3)"
        using R fits c res s1 g s2 t b3 nh pos by (simp add: Acquire_def id_fits_def Let_def)
      with True s3 up3 False that [of s3 u] show ?thesis by simp
    next
      case F: False
      obtain res4 s4 where g4: "GetByScopeAndKeyHash R systemOperationLockScope (hash systemOperationLockKey) s3
          = (res4, s4)" by fastforce
      have up4: "up s4" using up_get [OF up3 g4] .
      from get_at [OF s3(2) g4] s3(3) v up3 F have s4: "ok s4" "view s4 = view s" "res4 = Inr (Some r)"
        by (cases res4; auto simp: lock_key_def)+
      have "Acquire hash svc op now s = (Inl (busyError (ir_Fingerprint r) (ir_LockedUntil r) now), s4)"
        using R fits c res s1 g s2 t b3 nh F g4 s4 by (auto simp: Acquire_def id_fits_def Let_def)
      with F s3 s4 up4 False that [of s4 u] show ?thesis by simp
    qed
  qed
qed

text \<open>A tick: it prolongs the lease when the record carries the lock's operation id, and otherwise
  ends the loop.\<close>

lemma renew_at:
  assumes ok: "ok s" and up: "up s" and R: "sol_repo svc = Some R"
    and v: "view s k = Some r" and i: "lk_recordID l = ir_ID r"
  obtains u s' where "ok s'" "up s'"
    "if ir_Status r = IdempotencyStatusProcessing \<and> ir_Fingerprint r = lk_operationID l then
       renewTick svc l now s = (True, s') \<and>
       view s' = (view s)(k \<mapsto> extended_row (now + sol_lease svc) (now + sol_ttl svc) u r)
     else renewTick svc l now s = (False, s') \<and> view s' = view s"
proof -
  let ?cond = "\<lambda>r. ir_Status r = IdempotencyStatusProcessing \<and> ir_Fingerprint r = lk_operationID l"
  obtain res s1 where x: "ExtendProcessingLock R (ir_ID r) (lk_operationID l) (now + sol_lease svc)
      (now + sol_ttl svc) s = (res, s1)" by fastforce
  obtain b where b: "res = Inr b"
  proof (cases res)
    case (Inl e)
    with extend_err [OF ok x [unfolded Inl]] up show ?thesis by simp
  qed (use that in auto)
  from extend [OF ok x [unfolded b]] obtain u where e: "ok s1" "b = has_row (ir_ID r) ?cond (view s)"
    "view s1 = on_row (ir_ID r) ?cond (extended_row (now + sol_lease svc) (now + sol_ttl svc) u) \<circ> view s"
    by blast
  have t: "renewTick svc l now s = (b, s1)" using R x b i by (simp add: renewTick_def)
  have up1: "up s1" by (rule up_extend [OF up x])
  show ?thesis
  proof (cases "?cond r")
    case True
    with e has_row_at [OF ok v refl] on_row_at [OF ok v refl, where cond = ?cond] t up1 that [of s1 u]
    show ?thesis by simp
  next
    case False
    with e has_row_at [OF ok v refl, of ?cond] on_row_not [of "ir_ID r" ?cond "view s"] t up1 that [of s1 u]
    show ?thesis by auto
  qed
qed

lemma renew_loop_lost:
  assumes "ok s" "up s" "sol_repo svc = Some R" "view s k = Some r" "lk_recordID l = ir_ID r"
    "ir_Fingerprint r \<noteq> lk_operationID l"
  shows "view (renewLoop svc l ts s) = view s \<and> ok (renewLoop svc l ts s) \<and> up (renewLoop svc l ts s)"
proof (cases ts)
  case (Cons t ts')
  obtain s' where "ok s'" "up s'" "renewTick svc l t s = (False, s')" "view s' = view s"
    by (rule renew_at [OF assms(1-5), of t]) (use assms(6) in simp)
  with Cons show ?thesis by simp
qed (use assms in simp)

text \<open>A lock whose record carries its operation id keeps its lease up to its last tick.\<close>

lemma renew_loop_kept:
  assumes "sol_repo svc = Some R"
  shows "ok s \<Longrightarrow> up s \<Longrightarrow> view s k = Some r \<Longrightarrow> lk_recordID l = ir_ID r \<Longrightarrow>
    ir_Fingerprint r = lk_operationID l \<Longrightarrow> ir_Status r = IdempotencyStatusProcessing \<Longrightarrow> ts \<noteq> [] \<Longrightarrow>
    ok (renewLoop svc l ts s) \<and> up (renewLoop svc l ts s) \<and>
    (\<exists>r'. view (renewLoop svc l ts s) k = Some r' \<and> ir_Status r' = IdempotencyStatusProcessing \<and>
       ir_Fingerprint r' = lk_operationID l \<and> ir_LockedUntil r' = Some (last ts + sol_lease svc))"
proof (induction ts arbitrary: s r)
  case (Cons t ts)
  obtain u s' where s': "ok s'" "up s'" "renewTick svc l t s = (True, s')"
    "view s' k = Some (extended_row (t + sol_lease svc) (t + sol_ttl svc) u r)"
    by (rule renew_at [OF Cons.prems(1,2) assms Cons.prems(3,4), of t]) (use Cons.prems in simp)
  show ?case
  proof (cases "ts = []")
    case True
    with s' Cons.prems show ?thesis by (simp add: extended_row_def)
  next
    case False
    with Cons.IH [OF s'(1,2,4)] s' Cons.prems show ?thesis by (simp add: extended_row_def)
  qed
qed simp

end

section \<open>Properties on the SQL store\<close>

definition sql_lock_service :: "IdempotencyConfig \<Rightarrow> idem_table SystemOperationLockService" where
  "sql_lock_service cfg = NewSystemOperationLockService (Some sql_repo) cfg"

lemma sql_lock_repo [simp]: "sol_repo (sql_lock_service cfg) = Some sql_repo"
  by (simp add: sql_lock_service_def NewSystemOperationLockService_def Let_def)

lemma lease_pos: "0 < sol_lease (sql_lock_service cfg)"
  by (simp add: sql_lock_service_def NewSystemOperationLockService_def Let_def go_simps)

lemma sql_lock_times:
  "sol_lease (sql_lock_service cfg) = (if cfg_ProcessingTimeout cfg \<le> 0 then 30 * time_Second else cfg_ProcessingTimeout cfg)"
  "sol_ttl (sql_lock_service cfg) = (if cfg_SystemOperationTTL cfg \<le> 0 then time_Hour else cfg_SystemOperationTTL cfg)"
  by (simp_all add: sql_lock_service_def NewSystemOperationLockService_def Let_def)

text \<open>
  (C3) The lease excludes. On a working store, \<open>Acquire\<close> grants the lock exactly when the record's
  lease is free at that moment. A grant leaves the record, under the id that the lock carries, in
  processing until one processing timeout (30 seconds by default) from now, and changes no other record;
  the record is marked with the operation that created it, also when another one takes it over. While the
  record is held, \<open>Acquire\<close> returns the busy error (status 409) with that mark and the end of the
  lease, and changes no record.
\<close>

theorem acquire_iff_free:
  assumes "tbl_ok t" "tbl_up t" "id_fits hash op"
    and "Acquire hash (sql_lock_service cfg) op now t = (res, t')"
  shows "let v = tbl_view t (lock_key hash) in
    (if lock_free now v
     then (\<exists>l r. res = Inr l \<and> lk_operationID l = op \<and> lk_recordID l = ir_ID r \<and>
          tbl_view t' = (tbl_view t)(lock_key hash \<mapsto> r) \<and> ir_Status r = IdempotencyStatusProcessing \<and>
          ir_LockedUntil r = Some (now + (if cfg_ProcessingTimeout cfg \<le> 0 then 30 * time_Second else cfg_ProcessingTimeout cfg)) \<and>
          ir_ExpiresAt r = now + (if cfg_SystemOperationTTL cfg \<le> 0 then time_Hour else cfg_SystemOperationTTL cfg) \<and>
          ir_Fingerprint r = (case v of None \<Rightarrow> op | Some old \<Rightarrow> ir_Fingerprint old)) \<and>
          held now (tbl_view t' (lock_key hash))
     else res = Inl (busyError (ir_Fingerprint (the v)) (ir_LockedUntil (the v)) now) \<and>
          ae_Code (busyError (ir_Fingerprint (the v)) (ir_LockedUntil (the v)) now) = 409 \<and>
          tbl_view t' = tbl_view t)"
proof (cases "tbl_view t (lock_key hash)")
  case None
  obtain row where "res = Inr \<lparr>lk_recordID = ir_ID row, lk_operationID = op\<rparr>"
    "tbl_view t' = (tbl_view t)(lock_key hash \<mapsto> row)"
    "same_claim row (lock_record hash (sql_lock_service cfg) op now)"
    by (rule idem_sql.acquire_new [OF assms(1,2) sql_lock_repo [of cfg] assms(3) None, of now])
       (use assms(4) in auto)
  with None lease_pos [of cfg] show ?thesis
    by (simp add: lock_free_def held_def same_claim_def flip: sql_lock_times) blast
next
  case (Some r)
  let ?svc = "sql_lock_service cfg" and ?k = "lock_key hash"
  let ?busy = "busyError (ir_Fingerprint r) (ir_LockedUntil r) now"
  have b: "ae_Code ?busy = 409"
    by (simp add: busyError_def ErrSystemOperationBusy_def Conflict_def Let_def)
  have hf: "held now (Some r) \<Longrightarrow> \<not> lock_free now (Some r)"
    by (auto simp: held_def lock_free_def split: option.splits)
  obtain u where u: "if lock_free now (Some r) then
      res = Inr \<lparr>lk_recordID = ir_ID r, lk_operationID = op\<rparr> \<and>
      tbl_view t' = (tbl_view t)(?k \<mapsto> reclaimed_row (now + sol_lease ?svc) (now + sol_ttl ?svc) u r)
    else res = Inl ?busy \<and> tbl_view t' = tbl_view t"
    by (rule idem_sql.acquire_existing [OF assms(1,2) sql_lock_repo [of cfg] assms(3) Some, of now])
       (use assms(4) hf in \<open>auto split: if_splits\<close>)
  show ?thesis
  proof (cases "lock_free now (Some r)")
    case True
    let ?r = "reclaimed_row (now + sol_lease ?svc) (now + sol_ttl ?svc) u r"
    have "held now (Some ?r)" using lease_pos [of cfg] by (simp add: held_def reclaimed_row_def)
    moreover have "ir_ID ?r = ir_ID r" "ir_Status ?r = IdempotencyStatusProcessing"
      "ir_LockedUntil ?r = Some (now + sol_lease ?svc)" "ir_ExpiresAt ?r = now + sol_ttl ?svc" "ir_Fingerprint ?r = ir_Fingerprint r"
      by (simp_all add: reclaimed_row_def)
    ultimately show ?thesis using u Some True
      by (simp add: Let_def flip: sql_lock_times del: fun_upd_apply) (intro conjI exI [of _ ?r]; simp)
  next
    case False
    with u Some b show ?thesis by (simp add: Let_def)
  qed
qed

text \<open>A lock on a fresh record is held for as long as it is renewed. After \<open>Acquire\<close> creates the
  record, every renewal succeeds, and up to one lease after the last tick every other \<open>Acquire\<close> is
  refused with the busy error.\<close>

theorem fresh_lock_renewed:
  assumes ok: "tbl_ok t" "tbl_up t" and fits: "id_fits hash op1" "id_fits hash op2"
    and new: "tbl_view t (lock_key hash) = None" and ticks: "ticks \<noteq> []"
    and first: "Acquire hash (sql_lock_service cfg) op1 now t = (Inr l1, t1)"
    and held: "now2 < last ticks + sol_lease (sql_lock_service cfg)"
    and second: "Acquire hash (sql_lock_service cfg) op2 now2
        (renewLoop (sql_lock_service cfg) l1 ticks t1) = (res, t2)"
  shows "res = Inl (busyError op1 (Some (last ticks + sol_lease (sql_lock_service cfg))) now2)"
proof -
  let ?svc = "sql_lock_service cfg" and ?k = "lock_key hash"
  let ?t1' = "renewLoop ?svc l1 ticks t1"
  obtain row where t1: "l1 = \<lparr>lk_recordID = ir_ID row, lk_operationID = op1\<rparr>" "tbl_ok t1" "tbl_up t1"
    "tbl_view t1 ?k = Some row" "same_claim row (lock_record hash ?svc op1 now)"
    by (rule idem_sql.acquire_new [OF ok sql_lock_repo [of cfg] fits(1) new, of now])
       (use first in auto)
  have "lk_recordID l1 = ir_ID row" "ir_Fingerprint row = lk_operationID l1"
    "ir_Status row = IdempotencyStatusProcessing" using t1 by (simp_all add: same_claim_def)
  from idem_sql.renew_loop_kept [OF sql_lock_repo t1(2-4) this ticks, of cfg] t1(1) obtain r'
    where r': "tbl_ok ?t1'" "tbl_up ?t1'" "tbl_view ?t1' ?k = Some r'"
      "ir_Status r' = IdempotencyStatusProcessing" "ir_Fingerprint r' = op1"
      "ir_LockedUntil r' = Some (last ticks + sol_lease ?svc)" by auto
  with held have "held now2 (Some r')" by (simp add: held_def)
  then show ?thesis
    by (rule_tac idem_sql.acquire_existing [OF r'(1,2) sql_lock_repo [of cfg] fits(2) r'(3), of now2])
       (use second r' in auto)
qed

text \<open>A lock taken over from an earlier operation is not renewed. When the record of the lock
  already exists (an operation ended within the TTL) with another operation's id, the new holder's
  first renewal finds a foreign fingerprint, since taking the record over does not write the new
  id: the renewal loop ends and the lease is never prolonged, however many ticks there are. Once
  one lease has passed, another operation gets the lock while the first still runs.\<close>

theorem reclaimed_lock_not_renewed:
  assumes ok: "tbl_ok t" "tbl_up t" and fits: "id_fits hash op1" "id_fits hash op2"
    and old: "tbl_view t (lock_key hash) = Some r" "lock_free now (Some r)" "ir_Fingerprint r \<noteq> op1"
    and first: "Acquire hash (sql_lock_service cfg) op1 now t = (Inr l1, t1)"
    and late: "now + sol_lease (sql_lock_service cfg) \<le> now2"
    and second: "Acquire hash (sql_lock_service cfg) op2 now2
        (renewLoop (sql_lock_service cfg) l1 ticks t1) = (res, t2)"
  shows "\<exists>l2. res = Inr l2 \<and> lk_operationID l2 = op2 \<and> lk_recordID l2 = lk_recordID l1"
proof -
  let ?svc = "sql_lock_service cfg" and ?k = "lock_key hash"
  let ?t1' = "renewLoop ?svc l1 ticks t1"
  have nh: "\<not> held now (Some r)" using old(2) by (auto simp: held_def lock_free_def split: option.splits)
  obtain u where t1: "tbl_ok t1" "tbl_up t1" "l1 = \<lparr>lk_recordID = ir_ID r, lk_operationID = op1\<rparr>"
    "tbl_view t1 ?k = Some (reclaimed_row (now + sol_lease ?svc) (now + sol_ttl ?svc) u r)"
    by (rule idem_sql.acquire_existing [OF ok sql_lock_repo [of cfg] fits(1) old(1), of now])
       (use first nh old(2) in auto)
  let ?r1 = "reclaimed_row (now + sol_lease ?svc) (now + sol_ttl ?svc) u r"
  have lost: "lk_recordID l1 = ir_ID ?r1" "ir_Fingerprint ?r1 \<noteq> lk_operationID l1"
    using t1 old(3) by (simp_all add: reclaimed_row_def)
  have l: "tbl_view ?t1' ?k = Some ?r1" "tbl_ok ?t1'" "tbl_up ?t1'"
    using idem_sql.renew_loop_lost [OF t1(1,2) sql_lock_repo t1(4) lost] t1(4) by simp_all
  have "\<not> held now2 (Some ?r1)" "lock_free now2 (Some ?r1)"
    using late by (simp_all add: held_def lock_free_def reclaimed_row_def)
  then show ?thesis
    by (rule_tac idem_sql.acquire_existing [OF l(2,3) sql_lock_repo [of cfg] fits(2) l(1), of now2])
       (use second t1 in \<open>auto simp: reclaimed_row_def\<close>)
qed

text \<open>Releasing frees the lock: after \<open>Release\<close>, of an operation that succeeded or failed (with a
  reason of at most 128 characters), the next \<open>Acquire\<close> from that moment on is granted.\<close>

theorem release_frees:
  assumes ok: "tbl_ok t" "tbl_up t" and fits: "id_fits hash op2"
    and v: "tbl_view t (lock_key hash) = Some r" "lk_recordID l = ir_ID r"
    and reason: "utf8_chars why \<le> 128"
    and rel: "Release (sql_lock_service cfg) (Some l) succeeded why now t = (rr, t1)"
    and later: "now \<le> now2"
    and acq: "Acquire hash (sql_lock_service cfg) op2 now2 t1 = (res, t2)"
  shows "\<exists>l2. res = Inr l2 \<and> lk_operationID l2 = op2"
proof -
  let ?k = "lock_key hash" and ?x = "now + sol_ttl (sql_lock_service cfg)"
  have "\<exists>r1. tbl_ok t1 \<and> tbl_up t1 \<and> tbl_view t1 ?k = Some r1 \<and> lock_free now2 (Some r1)"
  proof (cases succeeded)
    case True
    obtain body where "MarkSucceeded sql_repo (ir_ID r) 200 body ?x t = (rr, t1)"
      using rel v(2) True by (simp add: Release_def Let_def)
    note m = this idem_sql.up_succeed [OF ok(2) this]
    show ?thesis
    proof (cases rr)
      case (Inl e)
      with idem_sql.succeed_err [OF ok(1)] m ok(2) show ?thesis by blast
    next
      case (Inr u)
      with idem_sql.succeed [OF ok(1)] m(1) obtain u' where "tbl_ok t1"
        "tbl_view t1 = on_row (ir_ID r) (\<lambda>_. True) (succeeded_row 200 body ?x u') \<circ> tbl_view t" by blast
      with v(1) m(2) show ?thesis by (simp add: on_row_def succeeded_row_def lock_free_def)
    qed
  next
    case False
    let ?why = "if why = [] then ''SYSTEM_OPERATION_FAILED'' else why"
    have m: "MarkFailedRetryable sql_repo (ir_ID r) ?why now ?x t = (rr, t1)"
      using rel v(2) False by (simp add: Release_def Let_def)
    have w: "utf8_chars ?why \<le> 128" using reason by (simp add: utf8_chars_def)
    show ?thesis
    proof (cases rr)
      case (Inl e)
      with idem_sql.fail_err [OF ok(1) m [unfolded Inl]] w ok(2) show ?thesis by blast
    next
      case (Inr u)
      from idem_sql.fail [OF ok(1) m [unfolded Inr]] obtain u' where "tbl_ok t1"
        "tbl_view t1 = on_row (ir_ID r) (\<lambda>_. True) (failed_row ?why now ?x u') \<circ> tbl_view t" by blast
      with v(1) idem_sql.up_fail [OF ok(2) m] later show ?thesis
        by (simp add: on_row_def failed_row_def lock_free_def)
    qed
  qed
  then obtain r1 where r1: "tbl_ok t1" "tbl_up t1" "tbl_view t1 ?k = Some r1" "lock_free now2 (Some r1)"
    by blast
  then have "\<not> held now2 (Some r1)" by (auto simp: held_def lock_free_def split: option.splits)
  with r1 show ?thesis
    by (rule_tac idem_sql.acquire_existing [OF r1(1,2) sql_lock_repo [of cfg] fits r1(3), of now2])
       (use acq in auto)
qed

section \<open>A concrete instance\<close>

definition demo_lock_row :: IdempotencyRecord where
  "demo_lock_row = zero_ir\<lparr>ir_ID := 1, ir_Scope := systemOperationLockScope,
     ir_KeyHash := systemOperationLockKey, ir_Fingerprint := ''op0'',
     ir_Status := IdempotencyStatusSucceeded, ir_ExpiresAt := 1000\<rparr>"

definition demo_lock_table :: idem_table where
  "demo_lock_table = \<lparr>it_rows = [demo_lock_row], it_next_id = 2, it_now = 0, it_faults = []\<rparr>"

lemma demo_lock_ok: "tbl_ok demo_lock_table" "tbl_up demo_lock_table"
  "tbl_view demo_lock_table (lock_key id) = Some demo_lock_row"
  by (simp_all add: tbl_ok_def tbl_up_def tbl_view_def demo_lock_table_def demo_lock_row_def
      lock_key_def zero_ir_def)

lemma demo_ids: "id_fits id ''op1''" "id_fits id ''op2''"
  by (simp_all add: id_fits_def utf8_chars_def systemOperationLockKey_def)

lemma demo_lock_free: "lock_free n (Some demo_lock_row)" "ir_Fingerprint demo_lock_row \<noteq> ''op1''"
  by (simp_all add: lock_free_def demo_lock_row_def zero_ir_def)

lemma demo_lease: "sol_lease (sql_lock_service DefaultIdempotencyConfig) = 30000000000"
  by (simp add: sql_lock_service_def NewSystemOperationLockService_def DefaultIdempotencyConfig_def
      Let_def go_simps)

theorem acquire_iff_free_witness:
  "\<exists>l t'. Acquire id (sql_lock_service DefaultIdempotencyConfig) ''op1'' 0 demo_lock_table = (Inr l, t')"
proof -
  obtain res t' where a: "Acquire id (sql_lock_service DefaultIdempotencyConfig) ''op1'' 0 demo_lock_table
      = (res, t')" by fastforce
  with acquire_iff_free [OF demo_lock_ok(1,2) demo_ids(1) a] show ?thesis
    by (auto simp: demo_lock_ok demo_lock_free)
qed

lemma demo_granted:
  "tbl_ok t \<Longrightarrow> tbl_up t \<Longrightarrow> lock_free 0 (tbl_view t (lock_key id)) \<Longrightarrow>
    \<exists>l t1. Acquire id (sql_lock_service cfg) ''op1'' 0 t = (Inr l, t1)"
proof -
  assume t: "tbl_ok t" "tbl_up t" "lock_free 0 (tbl_view t (lock_key id))"
  show ?thesis
  proof (cases "tbl_view t (lock_key id)")
    case None
    then show ?thesis
      by (rule_tac idem_sql.acquire_new [OF t(1,2) sql_lock_repo [of cfg] demo_ids(1), of 0]) auto
  next
    case (Some r)
    then have "\<not> held 0 (Some r)" using t(3) by (auto simp: held_def lock_free_def split: option.splits)
    with Some t(3) show ?thesis
      by (rule_tac idem_sql.acquire_existing [OF t(1,2) sql_lock_repo [of cfg] demo_ids(1) Some, of 0]) auto
  qed
qed

theorem fresh_lock_renewed_witness:
  "\<exists>l1 t1 e t2. Acquire id (sql_lock_service DefaultIdempotencyConfig) ''op1'' 0 (empty_table 0 []) = (Inr l1, t1) \<and>
     Acquire id (sql_lock_service DefaultIdempotencyConfig) ''op2'' 35000000000
       (renewLoop (sql_lock_service DefaultIdempotencyConfig) l1 [10000000000] t1) = (Inl e, t2)"
proof -
  let ?svc = "sql_lock_service DefaultIdempotencyConfig"
  have v: "tbl_view (empty_table 0 []) (lock_key id) = None" by (rule demo_empty)
  then have "lock_free 0 (tbl_view (empty_table 0 []) (lock_key id))" by (simp add: lock_free_def)
  from demo_granted [OF demo_empty(1,2) this] obtain l1 t1
    where a: "Acquire id ?svc ''op1'' 0 (empty_table 0 []) = (Inr l1, t1)" by blast
  obtain res t2 where b: "Acquire id ?svc ''op2'' 35000000000 (renewLoop ?svc l1 [10000000000] t1) = (res, t2)"
    by fastforce
  have "(35000000000::int) < last [10000000000] + sol_lease ?svc" by (simp add: demo_lease)
  from fresh_lock_renewed [OF demo_empty(1,2) demo_ids v _ a this b] a b show ?thesis by auto
qed

theorem reclaimed_lock_not_renewed_witness:
  "\<exists>l1 t1 l2 t2. Acquire id (sql_lock_service DefaultIdempotencyConfig) ''op1'' 0 demo_lock_table = (Inr l1, t1) \<and>
     Acquire id (sql_lock_service DefaultIdempotencyConfig) ''op2'' 30000000000
       (renewLoop (sql_lock_service DefaultIdempotencyConfig) l1 [10000000000, 20000000000] t1) = (Inr l2, t2)"
proof -
  let ?svc = "sql_lock_service DefaultIdempotencyConfig"
  have "lock_free 0 (tbl_view demo_lock_table (lock_key id))"
    by (simp add: demo_lock_ok demo_lock_free)
  from demo_granted [OF demo_lock_ok(1,2) this] obtain l1 t1
    where a: "Acquire id ?svc ''op1'' 0 demo_lock_table = (Inr l1, t1)" by blast
  obtain res t2 where b: "Acquire id ?svc ''op2'' 30000000000
      (renewLoop ?svc l1 [10000000000, 20000000000] t1) = (res, t2)" by fastforce
  have late: "0 + sol_lease ?svc \<le> (30000000000::int)" by (simp add: demo_lease)
  from reclaimed_lock_not_renewed [OF demo_lock_ok(1,2) demo_ids demo_lock_ok(3) demo_lock_free a late b] a b
  show ?thesis by auto
qed

theorem release_frees_witness:
  "\<exists>l2 t2. Acquire id (sql_lock_service DefaultIdempotencyConfig) ''op2'' 5
     (snd (Release (sql_lock_service DefaultIdempotencyConfig)
        (Some \<lparr>lk_recordID = 1, lk_operationID = ''op0''\<rparr>) False ''why'' 3 demo_lock_table)) = (Inr l2, t2)"
proof -
  let ?svc = "sql_lock_service DefaultIdempotencyConfig"
  let ?l = "\<lparr>lk_recordID = 1, lk_operationID = ''op0''\<rparr>"
  obtain rr t1 where r: "Release ?svc (Some ?l) False ''why'' 3 demo_lock_table = (rr, t1)" by fastforce
  obtain res t2 where a: "Acquire id ?svc ''op2'' 5 t1 = (res, t2)" by fastforce
  have i: "lk_recordID ?l = ir_ID demo_lock_row" by (simp add: demo_lock_row_def zero_ir_def)
  have w: "utf8_chars ''why'' \<le> 128" by (simp add: utf8_chars_def)
  have n: "(3::int) \<le> 5" by simp
  from release_frees [OF demo_lock_ok(1,2) demo_ids(2) demo_lock_ok(3) i w r n a] a r show ?thesis by auto
qed

end
