(* ===== verification/Domain.thy ===== *)
theory Domain
  imports Main
begin

text \<open>
  Names that many parts share: \<open>backend/internal/domain/constants.go\<close>.
\<close>

definition StatusActive :: string where "StatusActive = ''active''"
definition StatusDisabled :: string where "StatusDisabled = ''disabled''"
definition StatusError :: string where "StatusError = ''error''"

definition PlatformAnthropic :: string where "PlatformAnthropic = ''anthropic''"
definition PlatformOpenAI :: string where "PlatformOpenAI = ''openai''"
definition PlatformGemini :: string where "PlatformGemini = ''gemini''"
definition PlatformAntigravity :: string where "PlatformAntigravity = ''antigravity''"

definition AccountTypeOAuth :: string where "AccountTypeOAuth = ''oauth''"
definition AccountTypeSetupToken :: string where "AccountTypeSetupToken = ''setup-token''"
definition AccountTypeAPIKey :: string where "AccountTypeAPIKey = ''apikey''"
definition AccountTypeBedrock :: string where "AccountTypeBedrock = ''bedrock''"

end
