(* ===== verification/Failover.thy ===== *)
theory Failover
imports GoBase Domain
begin

text \<open>
  Account failover: \<open>backend/internal/handler/failover_loop.go\<close>, the retry loop of
  \<open>ChatCompletions\<close> in \<open>backend/internal/handler/gateway_handler_chat_completions.go\<close> that drives
  it, and the cooldowns of \<open>backend/internal/service/gateway_service.go\<close> and
  \<open>antigravity_gateway_service.go\<close> it triggers.

  A Go map of account ids to counters is a finite map, the set of failed ids a set. A sleep races
  with the cancellation of the request's context: its outcome is the input \<open>slept\<close>, whether the
  timer fired first. The account selection and the upstream call are the environment: the loop
  reads their answers from a list.
\<close>

section \<open>Upstream errors and cooldowns\<close>

record UpstreamFailoverError =
  fe_StatusCode :: int
  fe_ResponseBody :: string
  fe_ForceCacheBilling :: bool
  fe_RetryableOnSameAccount :: bool

text \<open>The calls of \<open>SetTempUnschedulable\<close>, in order: account, end of the cooldown, reason.\<close>

type_synonym cooldowns = "(int \<times> gotime \<times> string) list"

definition googleConfigErrorCooldown :: duration where "googleConfigErrorCooldown = 1 * time_Minute"
definition emptyResponseCooldown :: duration where "emptyResponseCooldown = 1 * time_Minute"

definition tempUnscheduleGoogleConfigError :: "int \<Rightarrow> gotime \<Rightarrow> cooldowns \<Rightarrow> cooldowns" where
  "tempUnscheduleGoogleConfigError accountID now cs =
     cs @ [(accountID, now + googleConfigErrorCooldown,
            ''400: invalid project resource name (auto temp-unschedule 1m)'')]"

definition tempUnscheduleEmptyResponse :: "int \<Rightarrow> gotime \<Rightarrow> cooldowns \<Rightarrow> cooldowns" where
  "tempUnscheduleEmptyResponse accountID now cs =
     cs @ [(accountID, now + emptyResponseCooldown,
            ''empty stream response (auto temp-unschedule 1m)'')]"

definition TempUnscheduleRetryableError ::
    "int \<Rightarrow> UpstreamFailoverError option \<Rightarrow> gotime \<Rightarrow> cooldowns \<Rightarrow> cooldowns" where
  "TempUnscheduleRetryableError accountID failoverErr now cs =
     (case failoverErr of
        None \<Rightarrow> cs
      | Some e \<Rightarrow>
          if \<not> fe_RetryableOnSameAccount e then cs
          else if fe_StatusCode e = 400 then tempUnscheduleGoogleConfigError accountID now cs
          else if fe_StatusCode e = 502 then tempUnscheduleEmptyResponse accountID now cs
          else cs)"

section \<open>The failover state\<close>

datatype FailoverAction = FailoverContinue | FailoverExhausted | FailoverCanceled

definition maxSameAccountRetries :: int where "maxSameAccountRetries = 3"
definition sameAccountRetryDelay :: duration where "sameAccountRetryDelay = 500000000"
definition singleAccountBackoffDelay :: duration where "singleAccountBackoffDelay = 2 * time_Second"

record FailoverState =
  fs_SwitchCount :: int
  fs_MaxSwitches :: int
  fs_FailedAccountIDs :: "int set"
  fs_SameAccountRetryCount :: "int \<rightharpoonup> int"
  fs_LastFailoverErr :: "UpstreamFailoverError option"
  fs_ForceCacheBilling :: bool
  fs_hasBoundSession :: bool

definition NewFailoverState :: "int \<Rightarrow> bool \<Rightarrow> FailoverState" where
  "NewFailoverState maxSwitches hasBoundSession =
     \<lparr>fs_SwitchCount = 0, fs_MaxSwitches = maxSwitches, fs_FailedAccountIDs = {},
      fs_SameAccountRetryCount = Map.empty, fs_LastFailoverErr = None,
      fs_ForceCacheBilling = False, fs_hasBoundSession = hasBoundSession\<rparr>"

text \<open>Reading a missing key of a Go map gives 0.\<close>

definition retries :: "FailoverState \<Rightarrow> int \<Rightarrow> int" where
  "retries s a = (case fs_SameAccountRetryCount s a of None \<Rightarrow> 0 | Some n \<Rightarrow> n)"

definition needForceCacheBilling :: "bool \<Rightarrow> UpstreamFailoverError option \<Rightarrow> bool" where
  "needForceCacheBilling hasBoundSession failoverErr \<longleftrightarrow>
     hasBoundSession \<or> (case failoverErr of None \<Rightarrow> False | Some e \<Rightarrow> fe_ForceCacheBilling e)"

definition sleepWithContext :: "bool \<Rightarrow> duration \<Rightarrow> bool" where
  "sleepWithContext slept d \<longleftrightarrow> d \<le> 0 \<or> slept"

text \<open>\<open>HandleFailoverError\<close>, with the cooldowns it may set.\<close>

definition HandleFailoverError :: "bool \<Rightarrow> gotime \<Rightarrow> int \<Rightarrow> string \<Rightarrow> UpstreamFailoverError \<Rightarrow>
    FailoverState \<Rightarrow> cooldowns \<Rightarrow> FailoverAction \<times> FailoverState \<times> cooldowns" where
  "HandleFailoverError slept now accountID platform failoverErr s cs =
     (let s = s\<lparr>fs_LastFailoverErr := Some failoverErr\<rparr>;
          s = (if needForceCacheBilling (fs_hasBoundSession s) (Some failoverErr)
               then s\<lparr>fs_ForceCacheBilling := True\<rparr> else s)
      in if fe_RetryableOnSameAccount failoverErr \<and> retries s accountID < maxSameAccountRetries then
           (let s = s\<lparr>fs_SameAccountRetryCount :=
                   (fs_SameAccountRetryCount s)(accountID \<mapsto> retries s accountID + 1)\<rparr>
            in if \<not> sleepWithContext slept sameAccountRetryDelay then (FailoverCanceled, s, cs)
               else (FailoverContinue, s, cs))
         else
           let cs = (if fe_RetryableOnSameAccount failoverErr
                     then TempUnscheduleRetryableError accountID (Some failoverErr) now cs else cs);
               s = s\<lparr>fs_FailedAccountIDs := insert accountID (fs_FailedAccountIDs s)\<rparr>
           in if fs_SwitchCount s \<ge> fs_MaxSwitches s then (FailoverExhausted, s, cs)
              else
                let s = s\<lparr>fs_SwitchCount := fs_SwitchCount s + 1\<rparr>
                in if platform = PlatformAntigravity \<and>
                      \<not> sleepWithContext slept ((fs_SwitchCount s - 1) * time_Second)
                   then (FailoverCanceled, s, cs)
                   else (FailoverContinue, s, cs))"

definition HandleSelectionExhausted :: "bool \<Rightarrow> FailoverState \<Rightarrow> FailoverAction \<times> FailoverState" where
  "HandleSelectionExhausted slept s =
     (if (case fs_LastFailoverErr s of None \<Rightarrow> False | Some e \<Rightarrow> fe_StatusCode e = 503) \<and>
         fs_SwitchCount s \<le> fs_MaxSwitches s then
        (if \<not> sleepWithContext slept singleAccountBackoffDelay then (FailoverCanceled, s)
         else (FailoverContinue, s\<lparr>fs_FailedAccountIDs := {}\<rparr>))
      else (FailoverExhausted, s))"

section \<open>The retry loop of a chat completion\<close>

text \<open>
  The answers of the environment in one turn of the loop. \<open>SelectErr\<close>: no account could be
  selected. \<open>Selected\<close>: an account, and what became of it: no slot and no wait plan, a slot that
  could not be acquired in time, a result, an error that is no failover error, or a failover error,
  with whether the answer to the client had already begun.
\<close>

datatype forward =
    NoWaitPlan
  | SlotErr
  | ForwardOk
  | ForwardErr
  | ForwardFailover UpstreamFailoverError bool

datatype turn =
    SelectErr bool
  | Selected int string forward bool gotime

text \<open>How the handler ends.\<close>

datatype cc_end =
    NoAccounts
  | AllExhausted "UpstreamFailoverError option"
  | ClientGone
  | NoPlanEnd
  | SlotErrEnd
  | Served
  | Failed

definition cc_turn :: "turn \<Rightarrow> FailoverState \<Rightarrow> cooldowns \<Rightarrow> cc_end option \<times> FailoverState \<times> cooldowns" where
  "cc_turn t fs cs =
     (case t of
        SelectErr slept \<Rightarrow>
          if fs_FailedAccountIDs fs = {} then (Some NoAccounts, fs, cs)
          else (case HandleSelectionExhausted slept fs of
                  (FailoverContinue, fs1) \<Rightarrow> (None, fs1, cs)
                | (FailoverCanceled, fs1) \<Rightarrow> (Some ClientGone, fs1, cs)
                | (FailoverExhausted, fs1) \<Rightarrow> (Some (AllExhausted (fs_LastFailoverErr fs1)), fs1, cs))
      | Selected account platform fwd slept now \<Rightarrow>
          (case fwd of
             NoWaitPlan \<Rightarrow> (Some NoPlanEnd, fs, cs)
           | SlotErr \<Rightarrow> (Some SlotErrEnd, fs, cs)
           | ForwardOk \<Rightarrow> (Some Served, fs, cs)
           | ForwardErr \<Rightarrow> (Some Failed, fs, cs)
           | ForwardFailover err wrote \<Rightarrow>
               if wrote then (Some (AllExhausted (Some err)), fs, cs)
               else (case HandleFailoverError slept now account platform err fs cs of
                       (FailoverContinue, fs1, cs1) \<Rightarrow> (None, fs1, cs1)
                     | (FailoverExhausted, fs1, cs1) \<Rightarrow>
                         (Some (AllExhausted (fs_LastFailoverErr fs1)), fs1, cs1)
                     | (FailoverCanceled, fs1, cs1) \<Rightarrow> (Some ClientGone, fs1, cs1))))"

text \<open>The loop over a list of turns; \<open>None\<close> when the turns ran out before the handler ended.\<close>

fun cc_loop :: "turn list \<Rightarrow> FailoverState \<Rightarrow> cooldowns \<Rightarrow> cc_end option \<times> FailoverState \<times> cooldowns" where
  "cc_loop [] fs cs = (None, fs, cs)"
| "cc_loop (t # ts) fs cs =
     (case cc_turn t fs cs of
        (None, fs1, cs1) \<Rightarrow> cc_loop ts fs1 cs1
      | (Some e, fs1, cs1) \<Rightarrow> (Some e, fs1, cs1))"

section \<open>Invariant and bounds\<close>

definition fs_inv :: "FailoverState \<Rightarrow> bool" where
  "fs_inv s \<longleftrightarrow> 0 \<le> fs_SwitchCount s \<and>
     (fs_SwitchCount s \<le> fs_MaxSwitches s \<or> fs_SwitchCount s = 0) \<and>
     (\<forall>a. 0 \<le> retries s a \<and> retries s a \<le> maxSameAccountRetries)"

lemma retries_upd:
  "retries (s\<lparr>fs_SameAccountRetryCount := (fs_SameAccountRetryCount s)(a \<mapsto> n)\<rparr>) b =
     (if b = a then n else retries s b)"
  by (simp add: retries_def)

lemma retries_frame [simp]:
  "retries (s\<lparr>fs_LastFailoverErr := e\<rparr>) = retries s"
  "retries (s\<lparr>fs_ForceCacheBilling := b\<rparr>) = retries s"
  "retries (s\<lparr>fs_FailedAccountIDs := f\<rparr>) = retries s"
  "retries (s\<lparr>fs_SwitchCount := n\<rparr>) = retries s"
  by (simp_all add: retries_def fun_eq_iff)

text \<open>The three ways \<open>HandleFailoverError\<close> changes what the bounds count.\<close>

lemma handle_failover_cases:
  assumes e: "HandleFailoverError slept now a p err s cs = (act, s', cs')"
  obtains (retry) "act \<noteq> FailoverExhausted" "fs_SwitchCount s' = fs_SwitchCount s"
      "fs_FailedAccountIDs s' = fs_FailedAccountIDs s" "retries s a < maxSameAccountRetries"
      "retries s' = (retries s)(a := retries s a + 1)" "cs' = cs" "fs_MaxSwitches s' = fs_MaxSwitches s"
      "fe_RetryableOnSameAccount err" "slept \<Longrightarrow> act = FailoverContinue"
    | (switch) "act \<noteq> FailoverExhausted" "fs_SwitchCount s < fs_MaxSwitches s"
      "fs_SwitchCount s' = fs_SwitchCount s + 1" "retries s' = retries s"
      "fs_FailedAccountIDs s' = insert a (fs_FailedAccountIDs s)" "fs_MaxSwitches s' = fs_MaxSwitches s"
      "cs' = cs \<or> (\<exists>u r. cs' = cs @ [(a, u, r)]) \<and> maxSameAccountRetries \<le> retries s a"
      "fe_RetryableOnSameAccount err \<Longrightarrow> maxSameAccountRetries \<le> retries s a" "cs' = cs \<or> fe_RetryableOnSameAccount err"
      "slept \<Longrightarrow> act = FailoverContinue"
    | (exhausted) "act = FailoverExhausted" "fs_SwitchCount s \<ge> fs_MaxSwitches s"
      "fs_SwitchCount s' = fs_SwitchCount s" "retries s' = retries s"
      "fs_FailedAccountIDs s' = insert a (fs_FailedAccountIDs s)" "fs_MaxSwitches s' = fs_MaxSwitches s"
      "cs' = cs \<or> (\<exists>u r. cs' = cs @ [(a, u, r)]) \<and> maxSameAccountRetries \<le> retries s a"
      "fe_RetryableOnSameAccount err \<Longrightarrow> maxSameAccountRetries \<le> retries s a" "cs' = cs \<or> fe_RetryableOnSameAccount err"
      "fs_LastFailoverErr s' = Some err"
proof -
  let ?again = "fe_RetryableOnSameAccount err \<and> retries s a < maxSameAccountRetries"
  let ?cs = "if fe_RetryableOnSameAccount err
     then TempUnscheduleRetryableError a (Some err) now cs else cs"
  have cool: "?cs = cs \<or> (\<exists>u r. ?cs = cs @ [(a, u, r)]) \<and> maxSameAccountRetries \<le> retries s a"
    if "\<not> ?again"
    using that by (auto simp: TempUnscheduleRetryableError_def tempUnscheduleGoogleConfigError_def
        tempUnscheduleEmptyResponse_def)
  consider (a) ?again | (b) "\<not> ?again" "fs_SwitchCount s \<ge> fs_MaxSwitches s"
    | (c) "\<not> ?again" "fs_SwitchCount s < fs_MaxSwitches s" by linarith
  then show ?thesis
  proof cases
    case a
    with e have "act \<noteq> FailoverExhausted" "cs' = cs"
      "\<exists>b. s' = s\<lparr>fs_LastFailoverErr := Some err, fs_ForceCacheBilling := b,
         fs_SameAccountRetryCount := (fs_SameAccountRetryCount s)(a \<mapsto> retries s a + 1)\<rparr>"
      by (cases s; auto simp: HandleFailoverError_def Let_def retries_def split: if_splits)+
    moreover have "act = FailoverContinue" if slept
      using e a that by (auto simp: HandleFailoverError_def sleepWithContext_def Let_def retries_def split: if_splits)
    ultimately show ?thesis using a
      by (intro retry) (auto simp: retries_def fun_eq_iff)
  next
    case b
    with e have "act = FailoverExhausted" "cs' = ?cs"
      "\<exists>b. s' = s\<lparr>fs_LastFailoverErr := Some err, fs_ForceCacheBilling := b,
         fs_FailedAccountIDs := insert a (fs_FailedAccountIDs s)\<rparr>"
      by (cases s; auto simp: HandleFailoverError_def Let_def retries_def split: if_splits)+
    with b cool show ?thesis
      by (intro exhausted) (auto simp: retries_def fun_eq_iff)
  next
    case c
    with e have "act \<noteq> FailoverExhausted" "cs' = ?cs"
      "\<exists>b. s' = s\<lparr>fs_LastFailoverErr := Some err, fs_ForceCacheBilling := b,
         fs_FailedAccountIDs := insert a (fs_FailedAccountIDs s),
         fs_SwitchCount := fs_SwitchCount s + 1\<rparr>"
      by (cases s; auto simp: HandleFailoverError_def Let_def retries_def split: if_splits)+
    moreover have "act = FailoverContinue" if slept
      using e c that by (auto simp: HandleFailoverError_def sleepWithContext_def Let_def retries_def split: if_splits)
    ultimately show ?thesis using c cool
      by (intro switch) (auto simp: retries_def fun_eq_iff)
  qed
qed

text \<open>A cooled-down account has used its retries.\<close>

definition cooled :: "FailoverState \<Rightarrow> cooldowns \<Rightarrow> bool" where
  "cooled s cs \<longleftrightarrow> (\<forall>x \<in> set cs. retries s (fst x) = maxSameAccountRetries)"

lemma handle_failover_inv:
  assumes "HandleFailoverError slept now a p err s cs = (act, s', cs')" "fs_inv s" "cooled s cs"
  shows "fs_inv s' \<and> cooled s' cs' \<and> fs_MaxSwitches s' = fs_MaxSwitches s"
  using assms(1)
proof (cases rule: handle_failover_cases)
  case retry
  with assms(2,3) show ?thesis by (auto simp: fs_inv_def cooled_def)
next
  case switch
  have "cooled s' cs'"
    using switch(7)
  proof
    assume "cs' = cs"
    with assms(3) switch show ?thesis by (simp add: cooled_def)
  next
    assume c: "(\<exists>u r. cs' = cs @ [(a, u, r)]) \<and> maxSameAccountRetries \<le> retries s a"
    with assms(2) have "retries s a = maxSameAccountRetries" by (simp add: fs_inv_def order_antisym)
    with c assms(3) switch show ?thesis by (auto simp: cooled_def)
  qed
  with assms(2) switch show ?thesis by (auto simp: fs_inv_def)
next
  case exhausted
  have "cooled s' cs'"
    using exhausted(7)
  proof
    assume "cs' = cs"
    with assms(3) exhausted show ?thesis by (simp add: cooled_def)
  next
    assume c: "(\<exists>u r. cs' = cs @ [(a, u, r)]) \<and> maxSameAccountRetries \<le> retries s a"
    with assms(2) have "retries s a = maxSameAccountRetries" by (simp add: fs_inv_def order_antisym)
    with c assms(3) exhausted show ?thesis by (auto simp: cooled_def)
  qed
  with assms(2) exhausted show ?thesis by (auto simp: fs_inv_def)
qed

lemma selection_exhausted_cases:
  assumes "HandleSelectionExhausted slept s = (act, s')"
  shows "fs_SwitchCount s' = fs_SwitchCount s \<and> retries s' = retries s \<and>
    fs_MaxSwitches s' = fs_MaxSwitches s \<and> (act = FailoverContinue \<longrightarrow> fs_FailedAccountIDs s' = {})"
  using assms by (auto simp: HandleSelectionExhausted_def split: if_splits)

lemma cc_turn_inv:
  assumes "cc_turn t s cs = (r, s', cs')" "fs_inv s" "cooled s cs"
  shows "fs_inv s' \<and> cooled s' cs' \<and> fs_MaxSwitches s' = fs_MaxSwitches s"
proof (cases t)
  case (SelectErr slept)
  obtain act s1 where h: "HandleSelectionExhausted slept s = (act, s1)" by fastforce
  have c: "fs_inv s1 \<and> cooled s1 cs \<and> fs_MaxSwitches s1 = fs_MaxSwitches s"
    using selection_exhausted_cases [OF h] assms(2,3) by (simp add: fs_inv_def cooled_def)
  have "cs' = cs \<and> (s' = s \<or> s' = s1)"
    using assms(1) h SelectErr by (cases act) (auto simp: cc_turn_def split: if_splits)
  with c assms(2,3) show ?thesis by auto
next
  case (Selected a p fwd slept now)
  show ?thesis
  proof (cases "\<exists>err. fwd = ForwardFailover err False")
    case True
    then obtain err where fwd: "fwd = ForwardFailover err False" ..
    obtain act s1 cs1 where h: "HandleFailoverError slept now a p err s cs = (act, s1, cs1)"
      by (metis prod_cases3)
    with assms(1) Selected fwd have "s' = s1" "cs' = cs1"
      by (auto simp: cc_turn_def split: FailoverAction.splits)
    with handle_failover_inv [OF h assms(2,3)] show ?thesis by simp
  next
    case False
    with assms Selected show ?thesis
      by (auto simp: cc_turn_def split: forward.splits if_splits)
  qed
qed

lemma cc_loop_inv:
  "cc_loop ts s cs = (r, s', cs') \<Longrightarrow> fs_inv s \<Longrightarrow> cooled s cs \<Longrightarrow>
     fs_inv s' \<and> cooled s' cs' \<and> fs_MaxSwitches s' = fs_MaxSwitches s"
proof (induction ts arbitrary: s cs)
  case (Cons t ts)
  obtain r1 s1 cs1 where t: "cc_turn t s cs = (r1, s1, cs1)" by (metis prod_cases3)
  from cc_turn_inv [OF t Cons.prems(2,3)] Cons.IH [of s1 cs1] Cons.prems(1) t
  show ?case by (cases r1) auto
qed auto

lemma new_fs_inv: "fs_inv (NewFailoverState m b)" "cooled (NewFailoverState m b) []"
  by (simp_all add: fs_inv_def cooled_def NewFailoverState_def retries_def maxSameAccountRetries_def)

section \<open>What the turns say\<close>

text \<open>
  The limits in terms of the turns alone, without the counters of the state. A turn \<open>fails_over\<close> when its
  account answered with a failover error and nothing had been written to the client. The first three
  retryable failures of an account are forgiven; by every other one its account is left.
\<close>

definition fails_over :: "turn \<Rightarrow> (int \<times> UpstreamFailoverError) option" where
  "fails_over t = (case t of Selected a _ (ForwardFailover err wrote) _ _ \<Rightarrow> if wrote then None else Some (a, err) | _ \<Rightarrow> None)"

definition retryable_failures :: "turn list \<Rightarrow> int \<Rightarrow> nat" where
  "retryable_failures ts a = length (filter (\<lambda>t. case fails_over t of
     None \<Rightarrow> False | Some (b, err) \<Rightarrow> b = a \<and> fe_RetryableOnSameAccount err) ts)"

definition leaves :: "turn list \<Rightarrow> turn \<Rightarrow> bool" where
  "leaves before t = (case fails_over t of None \<Rightarrow> False
     | Some (a, err) \<Rightarrow> fe_RetryableOnSameAccount err \<longrightarrow> 3 \<le> retryable_failures before a)"

definition accounts_left :: "turn list \<Rightarrow> nat" where
  "accounts_left ts = length (filter (\<lambda>i. leaves (take i ts) (ts ! i)) [0..<length ts])"

definition account_of :: "turn \<Rightarrow> int set" where
  "account_of t = (case t of SelectErr _ \<Rightarrow> {} | Selected a _ _ _ _ \<Rightarrow> {a})"

definition selects :: "turn \<Rightarrow> bool" where
  "selects t = (case t of SelectErr _ \<Rightarrow> False | Selected _ _ _ _ _ \<Rightarrow> True)"

text \<open>The accounts left since a selection last found none.\<close>

definition left_out :: "turn list \<Rightarrow> int set" where
  "left_out ts = (\<Union>i \<in> {i. i < length ts \<and> leaves (take i ts) (ts ! i) \<and> (\<forall>j \<in> {i<..<length ts}. selects (ts ! j))}.
     account_of (ts ! i))"

lemma retryable_failures_snoc [simp]:
  "retryable_failures [] a = 0"
  "retryable_failures (ts @ [t]) a = retryable_failures ts a +
     (case fails_over t of None \<Rightarrow> 0 | Some (b, err) \<Rightarrow> if b = a \<and> fe_RetryableOnSameAccount err then 1 else 0)"
  by (auto simp: retryable_failures_def split: option.split)

lemma accounts_left_snoc [simp]:
  "accounts_left [] = 0" "accounts_left (ts @ [t]) = accounts_left ts + (if leaves ts t then 1 else 0)"
proof -
  have "filter (\<lambda>i. leaves (take i (ts @ [t])) ((ts @ [t]) ! i)) [0..<length ts] =
      filter (\<lambda>i. leaves (take i ts) (ts ! i)) [0..<length ts]"
    by (rule filter_cong) (auto simp: nth_append)
  then show "accounts_left (ts @ [t]) = accounts_left ts + (if leaves ts t then 1 else 0)"
    by (simp add: accounts_left_def)
qed (simp add: accounts_left_def)

lemma left_out_snoc:
  "left_out [] = {}" "selects t \<Longrightarrow> left_out (ts @ [t]) = left_out ts \<union> (if leaves ts t then account_of t else {})"
  "\<not> selects t \<Longrightarrow> left_out (ts @ [t]) = {}"
proof -
  show "left_out (ts @ [t]) = left_out ts \<union> (if leaves ts t then account_of t else {})" if "selects t"
    using that by (auto simp: left_out_def nth_append less_Suc_eq split: if_splits intro!: exI [of _ "length ts"])
  show "left_out (ts @ [t]) = {}" if n: "\<not> selects t"
  proof -
    have "\<not> leaves (take i (ts @ [t])) ((ts @ [t]) ! i) \<or> (\<exists>j \<in> {i<..<length (ts @ [t])}. \<not> selects ((ts @ [t]) ! j))"
      if "i < length (ts @ [t])" for i
    proof (cases "i = length ts")
      case True
      then show ?thesis using n by (cases t) (simp_all add: selects_def leaves_def fails_over_def)
    next
      case False
      then show ?thesis using that n by (intro disjI2 bexI [of _ "length ts"]) auto
    qed
    then show ?thesis unfolding left_out_def by blast
  qed
qed (simp add: left_out_def)

lemma cc_loop_snoc:
  "cc_loop (ts @ [t]) s cs = (case cc_loop ts s cs of (None, s1, cs1) \<Rightarrow> cc_turn t s1 cs1 | e \<Rightarrow> e)"
  by (induction ts arbitrary: s cs) (auto split: prod.split option.split)

text \<open>The counters of the state say what the turns do.\<close>

definition state_of_turns :: "int \<Rightarrow> turn list \<Rightarrow> FailoverState \<Rightarrow> cooldowns \<Rightarrow> bool" where
  "state_of_turns m ts s cs \<longleftrightarrow> fs_MaxSwitches s = m \<and> (\<forall>a. retries s a = int (min 3 (retryable_failures ts a))) \<and>
     fs_SwitchCount s = int (accounts_left ts) \<and> fs_FailedAccountIDs s = left_out ts \<and>
     accounts_left ts \<le> nat m \<and> (\<forall>x \<in> set cs. 3 < retryable_failures ts (fst x))"

lemma state_of_failure:
  assumes "state_of_turns m ts s cs" "fails_over t = Some (a, err)" "t = Selected a p fwd slept now"
    and h: "HandleFailoverError slept now a p err s cs = (act, s', cs')"
  shows "if leaves ts t \<and> nat m \<le> accounts_left ts
    then act = FailoverExhausted \<and> fs_LastFailoverErr s' = Some err
    else (slept \<longrightarrow> act = FailoverContinue) \<and> act \<noteq> FailoverExhausted \<and> state_of_turns m (ts @ [t]) s' cs'"
  using h
proof (cases rule: handle_failover_cases)
  case retry
  then have "\<not> leaves ts t" using assms(1,2) by (simp add: leaves_def state_of_turns_def maxSameAccountRetries_def)
  then show ?thesis using retry assms(1-3) left_out_snoc(2) [of t ts]
    by (auto simp: state_of_turns_def selects_def maxSameAccountRetries_def)
next
  case switch
  then have "leaves ts t" "\<not> nat m \<le> accounts_left ts"
    using assms(1,2) by (auto simp: leaves_def state_of_turns_def maxSameAccountRetries_def)
  moreover have "\<forall>x \<in> set cs'. 3 < retryable_failures (ts @ [t]) (fst x)"
    using switch(7,8,9) assms(1,2) by (auto simp: state_of_turns_def maxSameAccountRetries_def)
  ultimately show ?thesis using switch assms(1-3) left_out_snoc(2) [of t ts]
    by (auto simp: state_of_turns_def selects_def account_of_def maxSameAccountRetries_def)
next
  case exhausted
  then show ?thesis using assms(1,2) by (auto simp: leaves_def state_of_turns_def maxSameAccountRetries_def)
qed

lemma cc_turn_state:
  assumes "cc_turn t s cs = (None, s', cs')" "state_of_turns m ts s cs"
  shows "state_of_turns m (ts @ [t]) s' cs'"
proof (cases t)
  case (SelectErr slept)
  then have h: "HandleSelectionExhausted slept s = (FailoverContinue, s')" "cs' = cs"
    using assms(1) by (auto simp: cc_turn_def split: if_splits prod.splits FailoverAction.splits)
  then show ?thesis using selection_exhausted_cases [OF h(1)] assms(2) left_out_snoc(3) [of t ts] SelectErr
    by (auto simp: state_of_turns_def fails_over_def leaves_def selects_def)
next
  case (Selected a p fwd slept now)
  then obtain err where err: "fwd = ForwardFailover err False"
      "HandleFailoverError slept now a p err s cs = (FailoverContinue, s', cs')"
    using assms(1) by (auto simp: cc_turn_def split: forward.splits if_splits prod.splits FailoverAction.splits)
  have "fails_over t = Some (a, err)" using Selected err(1) by (simp add: fails_over_def)
  from state_of_failure [OF assms(2) this Selected err(2)] show ?thesis by (simp split: if_splits)
qed

lemma cc_loop_state:
  "cc_loop ts (NewFailoverState m b) [] = (None, s, cs) \<Longrightarrow> state_of_turns m ts s cs"
proof (induction ts arbitrary: s cs rule: rev_induct)
  case Nil
  then show ?case
    by (auto simp: state_of_turns_def NewFailoverState_def retries_def left_out_snoc(1))
next
  case (snoc t ts)
  then show ?case using cc_turn_state by (auto simp: cc_loop_snoc split: prod.splits option.splits)
qed

text \<open>
  (C33) The limits of the failover, told from what the upstreams answered. As long as a chat completion goes on,
  at most \<open>MaxSwitches\<close> failures have made it leave their account: all that were not retryable, and of each
  account all retryable ones after the third. The next failure ends it exactly when it makes it leave its
  account and \<open>MaxSwitches\<close> accounts have been left, with the error of this failure; otherwise there is
  another turn, unless the client is gone. The next selection excludes exactly the accounts left since a
  selection found none, and an account is cooled down only after more than three retryable failures.
  (Which account a turn then runs on is the choice of the selection.)
\<close>

theorem failover_within_limits:
  assumes "cc_loop turns (NewFailoverState maxSwitches bound) [] = (None, s, cs)"
  shows "accounts_left turns \<le> nat maxSwitches \<and> fs_FailedAccountIDs s = left_out turns \<and>
    (\<forall>(a, till, reason) \<in> set cs. 3 < retryable_failures turns a) \<and>
    (\<forall>a p err slept now. let t = Selected a p (ForwardFailover err False) slept now;
        r = fst (cc_loop (turns @ [t]) (NewFailoverState maxSwitches bound) []) in
      if leaves turns t \<and> nat maxSwitches \<le> accounts_left turns then r = Some (AllExhausted (Some err))
      else r = None \<or> \<not> slept \<and> r = Some ClientGone)"
proof -
  note st = cc_loop_state [OF assms]
  have "let t = Selected a p (ForwardFailover err False) slept now;
      r = fst (cc_loop (turns @ [t]) (NewFailoverState maxSwitches bound) []) in
    if leaves turns t \<and> nat maxSwitches \<le> accounts_left turns then r = Some (AllExhausted (Some err))
    else r = None \<or> \<not> slept \<and> r = Some ClientGone" for a p err slept now
  proof -
    let ?t = "Selected a p (ForwardFailover err False) slept now"
    obtain act s' cs' where h: "HandleFailoverError slept now a p err s cs = (act, s', cs')" by (metis prod_cases3)
    have "fails_over ?t = Some (a, err)" by (simp add: fails_over_def)
    from state_of_failure [OF st this refl h] show ?thesis
      using h assms by (cases act) (auto simp: cc_loop_snoc cc_turn_def Let_def split: if_splits)
  qed
  then show ?thesis using st by (auto simp: state_of_turns_def)
qed

text \<open>What is left of the retries of the accounts in \<open>A\<close> and of the switches; selecting again with
  an emptied exclusion list uses up the rest.\<close>

definition budget :: "int set \<Rightarrow> FailoverState \<Rightarrow> int" where
  "budget A s = 2 * ((\<Sum>a\<in>A. maxSameAccountRetries - retries s a) +
     max 0 (fs_MaxSwitches s - fs_SwitchCount s)) + (if fs_FailedAccountIDs s = {} then 0 else 1)"

lemma handle_failover_budget:
  assumes "HandleFailoverError slept now a p err s cs = (act, s', cs')" "act = FailoverContinue"
    "finite A" "a \<in> A"
  shows "budget A s' < budget A s"
  using assms(1)
proof (cases rule: handle_failover_cases)
  case retry
  have "(\<Sum>x\<in>A. maxSameAccountRetries - retries s' x) < (\<Sum>x\<in>A. maxSameAccountRetries - retries s x)"
    by (rule sum_strict_mono_ex1) (use assms(3,4) retry in \<open>auto intro!: bexI [of _ a]\<close>)
  with retry show ?thesis by (simp add: budget_def)
next
  case switch
  then show ?thesis by (simp add: budget_def)
next
  case exhausted
  with assms(2) show ?thesis by simp
qed

lemma cc_turn_budget:
  assumes "cc_turn t s cs = (None, s', cs')" "finite A" "account_of t \<subseteq> A"
  shows "budget A s' < budget A s"
proof (cases t)
  case (SelectErr slept)
  with assms(1) have ne: "fs_FailedAccountIDs s \<noteq> {}"
    and h: "HandleSelectionExhausted slept s = (FailoverContinue, s')"
    by (auto simp: cc_turn_def split: if_splits prod.splits FailoverAction.splits)
  from selection_exhausted_cases [OF h] ne show ?thesis by (simp add: budget_def)
next
  case (Selected a p fwd slept now)
  with assms(1) obtain err where "HandleFailoverError slept now a p err s cs = (FailoverContinue, s', cs')"
    by (auto simp: cc_turn_def split: forward.splits if_splits prod.splits FailoverAction.splits)
  from handle_failover_budget [OF this refl assms(2)] assms(3) Selected show ?thesis
    by (simp add: account_of_def)
qed

lemma budget_nonneg: "fs_inv s \<Longrightarrow> 0 \<le> budget A s"
  by (auto simp: budget_def fs_inv_def intro!: sum_nonneg add_nonneg_nonneg)

lemma cc_loop_ends:
  "finite A \<Longrightarrow> fs_inv s \<Longrightarrow> cooled s cs \<Longrightarrow> (\<forall>t \<in> set ts. account_of t \<subseteq> A) \<Longrightarrow>
     budget A s < int (length ts) \<Longrightarrow> fst (cc_loop ts s cs) \<noteq> None"
proof (induction ts arbitrary: s cs)
  case Nil
  with budget_nonneg [of s A] show ?case by simp
next
  case (Cons t ts)
  obtain r1 s1 cs1 where t: "cc_turn t s cs = (r1, s1, cs1)" by (metis prod_cases3)
  show ?case
  proof (cases r1)
    case None
    from cc_turn_inv [OF t Cons.prems(2,3)] have i: "fs_inv s1" "cooled s1 cs1" by auto
    have "budget A s1 < budget A s"
      by (rule cc_turn_budget [OF t [unfolded None] Cons.prems(1)]) (use Cons.prems(4) in simp)
    with Cons.IH [OF Cons.prems(1) i] Cons.prems t None show ?thesis by simp
  qed (simp add: t)
qed

text \<open>(C38) The retry loop ends. With the selection choosing among the accounts of a finite set \<open>A\<close>, the
  handler ends within \<open>2 * (3 * |A| + MaxSwitches) + 1\<close> turns, whatever the upstreams answer and
  however often the exclusion list is cleared for a single-account backoff.\<close>

theorem failover_loop_ends:
  assumes "finite A" "\<forall>t \<in> set turns. account_of t \<subseteq> A"
    and "2 * (maxSameAccountRetries * int (card A) + max 0 maxSwitches) < int (length turns)"
  shows "fst (cc_loop turns (NewFailoverState maxSwitches bound) []) \<noteq> None"
proof (rule cc_loop_ends [OF assms(1) new_fs_inv assms(2)])
  show "budget A (NewFailoverState maxSwitches bound) < int (length turns)"
    using assms(3) by (simp add: budget_def NewFailoverState_def retries_def mult.commute)
qed

definition demo_503 :: UpstreamFailoverError where
  "demo_503 = \<lparr>fe_StatusCode = 503, fe_ResponseBody = [], fe_ForceCacheBilling = False,
     fe_RetryableOnSameAccount = False\<rparr>"

text \<open>With one switch allowed, a 503 of account 7 leaves it, and after the backoff another one is the last.\<close>

theorem failover_within_limits_witness:
  "\<exists>s cs. cc_loop [Selected 7 [] (ForwardFailover demo_503 False) True 0, SelectErr True] (NewFailoverState 1 False) [] = (None, s, cs) \<and>
     fst (cc_loop [Selected 7 [] (ForwardFailover demo_503 False) True 0, SelectErr True, Selected 7 [] (ForwardFailover demo_503 False) True 0]
       (NewFailoverState 1 False) []) = Some (AllExhausted (Some demo_503))"
proof -
  let ?ts = "[Selected 7 [] (ForwardFailover demo_503 False) True 0, SelectErr True]"
  obtain s cs where l: "cc_loop ?ts (NewFailoverState 1 False) [] = (None, s, cs)"
    by (simp add: cc_turn_def HandleFailoverError_def HandleSelectionExhausted_def NewFailoverState_def needForceCacheBilling_def
        sleepWithContext_def PlatformAntigravity_def demo_503_def retries_def Let_def)
  have "leaves ?ts (Selected 7 [] (ForwardFailover demo_503 False) True 0)" "accounts_left ?ts = 1"
    using accounts_left_snoc(2) [of "[Selected 7 [] (ForwardFailover demo_503 False) True 0]" "SelectErr True"]
      accounts_left_snoc(2) [of "[]" "Selected 7 [] (ForwardFailover demo_503 False) True 0"]
    by (simp_all add: leaves_def fails_over_def demo_503_def)
  then show ?thesis using failover_within_limits [OF l] l by (auto simp: Let_def)
qed

theorem failover_loop_ends_witness:
  "fst (cc_loop (concat (replicate 5 [Selected 7 [] (ForwardFailover demo_503 False) True 0, SelectErr True]))
     (NewFailoverState 1 False) []) \<noteq> None"
  by (rule failover_loop_ends [where A = "{7}"])
     (auto simp: account_of_def maxSameAccountRetries_def numeral_eq_Suc)

end
