(* ===== verification/WsStateStore.thy ===== *)
theory WsStateStore
  imports AppErrors "HOL-Library.Multiset"
begin

text \<open>
  The sticky state of the WebSocket gateway: \<open>backend/internal/service/openai_ws_state_store.go\<close>.

  Four maps with expiring bindings: response to account, response to connection, session to turn
  state, session to connection. A Go map is an association list with distinct keys. The order in
  which \<open>range\<close> visits it is arbitrary: an operation gets it as a function that permutes the keys
  (\<open>range_ok\<close>). Each operation also gets its two clock readings, the one of \<open>maybeCleanup\<close> and the
  one of its own. The mutexes make each operation one step. The Redis cache behind the account
  bindings (\<open>GatewayCache\<close>) is a dictionary of operations on a state of its own, and \<open>sha256\<close> a
  parameter of the cache key.

  The locale \<open>ttl_map\<close> states what a map of bindings promises, and is interpreted on the four maps:
  a lookup finds nothing, or exactly what was last bound.
\<close>

section \<open>Bindings\<close>

type_synonym 'v bindings = "(string \<times> 'v \<times> gotime) list"

definition openAIWSStateStoreCleanupInterval :: duration where
  "openAIWSStateStoreCleanupInterval = time_Minute"

definition openAIWSStateStoreCleanupMaxPerMap :: int where
  "openAIWSStateStoreCleanupMaxPerMap = 512"

definition openAIWSStateStoreMaxEntriesPerMap :: int where
  "openAIWSStateStoreMaxEntriesPerMap = 65536"

definition range_ok :: "(string list \<Rightarrow> string list) \<Rightarrow> bool" where
  "range_ok sh \<longleftrightarrow> (\<forall>ks. mset (sh ks) = mset ks)"

text \<open>The scan that the four \<open>cleanupExpired...Bindings\<close> functions share, one key at a time.\<close>

definition drop_expired :: "gotime \<Rightarrow> string \<Rightarrow> 'v bindings \<Rightarrow> 'v bindings" where
  "drop_expired now key bindings =
     (case map_of bindings key of
        None \<Rightarrow> bindings
      | Some (v, expiresAt) \<Rightarrow> if expiresAt < now then AList.delete key bindings else bindings)"

definition cleanupExpiredBindings :: "(string list \<Rightarrow> string list) \<Rightarrow> 'v bindings \<Rightarrow> gotime \<Rightarrow> int \<Rightarrow>
    'v bindings" where
  "cleanupExpiredBindings sh bindings now maxScan =
     (if bindings = [] \<or> maxScan \<le> 0 then bindings
      else fold (drop_expired now) (take (nat maxScan) (sh (map fst bindings))) bindings)"

definition cleanupExpiredAccountBindings ::
    "(string list \<Rightarrow> string list) \<Rightarrow> int bindings \<Rightarrow> gotime \<Rightarrow> int \<Rightarrow> int bindings" where
  "cleanupExpiredAccountBindings = cleanupExpiredBindings"

definition cleanupExpiredConnBindings ::
    "(string list \<Rightarrow> string list) \<Rightarrow> string bindings \<Rightarrow> gotime \<Rightarrow> int \<Rightarrow> string bindings" where
  "cleanupExpiredConnBindings = cleanupExpiredBindings"

definition cleanupExpiredTurnStateBindings ::
    "(string list \<Rightarrow> string list) \<Rightarrow> string bindings \<Rightarrow> gotime \<Rightarrow> int \<Rightarrow> string bindings" where
  "cleanupExpiredTurnStateBindings = cleanupExpiredBindings"

definition cleanupExpiredSessionConnBindings ::
    "(string list \<Rightarrow> string list) \<Rightarrow> string bindings \<Rightarrow> gotime \<Rightarrow> int \<Rightarrow> string bindings" where
  "cleanupExpiredSessionConnBindings = cleanupExpiredBindings"

lemmas cleanup_defs = cleanupExpiredAccountBindings_def cleanupExpiredConnBindings_def
  cleanupExpiredTurnStateBindings_def cleanupExpiredSessionConnBindings_def

definition ensureBindingCapacity :: "(string list \<Rightarrow> string list) \<Rightarrow> 'v bindings \<Rightarrow> string \<Rightarrow> int \<Rightarrow>
    'v bindings" where
  "ensureBindingCapacity sh bindings incomingKey maxEntries =
     (if int (length bindings) < maxEntries \<or> maxEntries \<le> 0 then bindings
      else if map_of bindings incomingKey \<noteq> None then bindings
      else (case sh (map fst bindings) of
              [] \<Rightarrow> bindings
            | key # _ \<Rightarrow> AList.delete key bindings))"

definition normalizeOpenAIWSResponseID :: "string \<Rightarrow> string" where
  "normalizeOpenAIWSResponseID responseID = TrimSpace responseID"

definition normalizeOpenAIWSTTL :: "duration \<Rightarrow> duration" where
  "normalizeOpenAIWSTTL ttl = (if ttl \<le> 0 then time_Hour else ttl)"

definition openAIWSSessionTurnStateKey :: "int \<Rightarrow> string \<Rightarrow> string" where
  "openAIWSSessionTurnStateKey groupID sessionHash =
     (let hash = TrimSpace sessionHash in
      if hash = [] then [] else itoa groupID @ '':'' @ hash)"

definition openAIWSResponseAccountCacheKey :: "(string \<Rightarrow> string) \<Rightarrow> string \<Rightarrow> string" where
  "openAIWSResponseAccountCacheKey sha256_hex responseID = ''openai:response:'' @ sha256_hex responseID"

section \<open>The store\<close>

record ws_store =
  responseToAccount :: "int bindings"
  responseToConn :: "string bindings"
  sessionToTurnState :: "string bindings"
  sessionToConn :: "string bindings"
  lastCleanup :: gotime

definition NewOpenAIWSStateStore :: "gotime \<Rightarrow> ws_store" where
  "NewOpenAIWSStateStore now = \<lparr>responseToAccount = [], responseToConn = [], sessionToTurnState = [],
     sessionToConn = [], lastCleanup = now\<rparr>"

definition maybeCleanup :: "(string list \<Rightarrow> string list) \<Rightarrow> gotime \<Rightarrow> ws_store \<Rightarrow> ws_store" where
  "maybeCleanup sh now s =
     (if now - lastCleanup s < openAIWSStateStoreCleanupInterval then s
      else let n = openAIWSStateStoreCleanupMaxPerMap in
        \<lparr>responseToAccount = cleanupExpiredAccountBindings sh (responseToAccount s) now n,
         responseToConn = cleanupExpiredConnBindings sh (responseToConn s) now n,
         sessionToTurnState = cleanupExpiredTurnStateBindings sh (sessionToTurnState s) now n,
         sessionToConn = cleanupExpiredSessionConnBindings sh (sessionToConn s) now n,
         lastCleanup = now\<rparr>)"

text \<open>The insertion that the four \<open>Bind\<close> methods share.\<close>

definition bind_entry :: "(string list \<Rightarrow> string list) \<Rightarrow> string \<Rightarrow> 'v \<Rightarrow> gotime \<Rightarrow> 'v bindings \<Rightarrow> 'v bindings" where
  "bind_entry sh key v expiresAt m =
     AList.update key (v, expiresAt) (ensureBindingCapacity sh m key openAIWSStateStoreMaxEntriesPerMap)"

text \<open>The Redis cache.\<close>

record 'c GatewayCache =
  GetSessionAccountID :: "int \<Rightarrow> string \<Rightarrow> 'c \<Rightarrow> (go_error + int) \<times> 'c"
  SetSessionAccountID :: "int \<Rightarrow> string \<Rightarrow> int \<Rightarrow> duration \<Rightarrow> 'c \<Rightarrow> (go_error + unit) \<times> 'c"
  DeleteSessionAccountID :: "int \<Rightarrow> string \<Rightarrow> 'c \<Rightarrow> (go_error + unit) \<times> 'c"

text \<open>What an operation reads from its environment: the order of its \<open>range\<close> loops and its two
  clock readings.\<close>

record env =
  e_range :: "string list \<Rightarrow> string list"
  e_cleanup :: gotime
  e_now :: gotime

definition BindResponseAccount :: "(string \<Rightarrow> string) \<Rightarrow> 'c GatewayCache option \<Rightarrow> env \<Rightarrow> int \<Rightarrow> string \<Rightarrow> int \<Rightarrow>
    duration \<Rightarrow> ws_store \<Rightarrow> 'c \<Rightarrow> (go_error + unit) \<times> ws_store \<times> 'c" where
  "BindResponseAccount sha cache e groupID responseID accountID ttl s c =
     (let i = normalizeOpenAIWSResponseID responseID in
      if i = [] \<or> accountID \<le> 0 then (Inr (), s, c)
      else
        let ttl = normalizeOpenAIWSTTL ttl;
            s = maybeCleanup (e_range e) (e_cleanup e) s;
            expiresAt = e_now e + ttl;
            s = s\<lparr>responseToAccount := bind_entry (e_range e) i accountID expiresAt (responseToAccount s)\<rparr>
        in case cache of
             None \<Rightarrow> (Inr (), s, c)
           | Some C \<Rightarrow>
               (case SetSessionAccountID C groupID (openAIWSResponseAccountCacheKey sha i) accountID ttl c of
                  (r, c1) \<Rightarrow> (r, s, c1)))"

definition GetResponseAccount :: "(string \<Rightarrow> string) \<Rightarrow> 'c GatewayCache option \<Rightarrow> env \<Rightarrow> int \<Rightarrow> string \<Rightarrow>
    ws_store \<Rightarrow> 'c \<Rightarrow> int \<times> ws_store \<times> 'c" where
  "GetResponseAccount sha cache e groupID responseID s c =
     (let i = normalizeOpenAIWSResponseID responseID in
      if i = [] then (0, s, c)
      else
        let s = maybeCleanup (e_range e) (e_cleanup e) s;
            miss = (case cache of
               None \<Rightarrow> (0, s, c)
             | Some C \<Rightarrow>
                 (case GetSessionAccountID C groupID (openAIWSResponseAccountCacheKey sha i) c of
                    (Inl err, c1) \<Rightarrow> (0, s, c1)
                  | (Inr accountID, c1) \<Rightarrow> (if accountID \<le> 0 then 0 else accountID, s, c1)))
        in case map_of (responseToAccount s) i of
             Some (accountID, expiresAt) \<Rightarrow> if e_now e < expiresAt then (accountID, s, c) else miss
           | None \<Rightarrow> miss)"

definition DeleteResponseAccount :: "(string \<Rightarrow> string) \<Rightarrow> 'c GatewayCache option \<Rightarrow> int \<Rightarrow> string \<Rightarrow>
    ws_store \<Rightarrow> 'c \<Rightarrow> (go_error + unit) \<times> ws_store \<times> 'c" where
  "DeleteResponseAccount sha cache groupID responseID s c =
     (let i = normalizeOpenAIWSResponseID responseID in
      if i = [] then (Inr (), s, c)
      else
        let s = s\<lparr>responseToAccount := AList.delete i (responseToAccount s)\<rparr>
        in case cache of
             None \<Rightarrow> (Inr (), s, c)
           | Some C \<Rightarrow>
               (case DeleteSessionAccountID C groupID (openAIWSResponseAccountCacheKey sha i) c of
                  (r, c1) \<Rightarrow> (r, s, c1)))"

definition BindResponseConn :: "env \<Rightarrow> string \<Rightarrow> string \<Rightarrow> duration \<Rightarrow> ws_store \<Rightarrow> ws_store" where
  "BindResponseConn e responseID connID ttl s =
     (let i = normalizeOpenAIWSResponseID responseID; conn = TrimSpace connID in
      if i = [] \<or> conn = [] then s
      else
        let s = maybeCleanup (e_range e) (e_cleanup e) s
        in s\<lparr>responseToConn := bind_entry (e_range e) i conn (e_now e + normalizeOpenAIWSTTL ttl)
               (responseToConn s)\<rparr>)"

text \<open>The tail of the three \<open>Get\<close> methods of connections and turn states: \<open>Some v\<close> for \<open>v, true\<close>.\<close>

definition read_binding :: "gotime \<Rightarrow> string bindings \<Rightarrow> string \<Rightarrow> string option" where
  "read_binding now m key =
     (case map_of m key of
        None \<Rightarrow> None
      | Some (v, expiresAt) \<Rightarrow> if expiresAt < now \<or> TrimSpace v = [] then None else Some v)"

definition GetResponseConn :: "env \<Rightarrow> string \<Rightarrow> ws_store \<Rightarrow> string option \<times> ws_store" where
  "GetResponseConn e responseID s =
     (let i = normalizeOpenAIWSResponseID responseID in
      if i = [] then (None, s)
      else let s = maybeCleanup (e_range e) (e_cleanup e) s
           in (read_binding (e_now e) (responseToConn s) i, s))"

definition DeleteResponseConn :: "string \<Rightarrow> ws_store \<Rightarrow> ws_store" where
  "DeleteResponseConn responseID s =
     (let i = normalizeOpenAIWSResponseID responseID in
      if i = [] then s else s\<lparr>responseToConn := AList.delete i (responseToConn s)\<rparr>)"

definition BindSessionTurnState :: "env \<Rightarrow> int \<Rightarrow> string \<Rightarrow> string \<Rightarrow> duration \<Rightarrow> ws_store \<Rightarrow> ws_store" where
  "BindSessionTurnState e groupID sessionHash turnState ttl s =
     (let key = openAIWSSessionTurnStateKey groupID sessionHash; state = TrimSpace turnState in
      if key = [] \<or> state = [] then s
      else
        let s = maybeCleanup (e_range e) (e_cleanup e) s
        in s\<lparr>sessionToTurnState := bind_entry (e_range e) key state (e_now e + normalizeOpenAIWSTTL ttl)
               (sessionToTurnState s)\<rparr>)"

definition GetSessionTurnState :: "env \<Rightarrow> int \<Rightarrow> string \<Rightarrow> ws_store \<Rightarrow> string option \<times> ws_store" where
  "GetSessionTurnState e groupID sessionHash s =
     (let key = openAIWSSessionTurnStateKey groupID sessionHash in
      if key = [] then (None, s)
      else let s = maybeCleanup (e_range e) (e_cleanup e) s
           in (read_binding (e_now e) (sessionToTurnState s) key, s))"

definition DeleteSessionTurnState :: "int \<Rightarrow> string \<Rightarrow> ws_store \<Rightarrow> ws_store" where
  "DeleteSessionTurnState groupID sessionHash s =
     (let key = openAIWSSessionTurnStateKey groupID sessionHash in
      if key = [] then s else s\<lparr>sessionToTurnState := AList.delete key (sessionToTurnState s)\<rparr>)"

definition BindSessionConn :: "env \<Rightarrow> int \<Rightarrow> string \<Rightarrow> string \<Rightarrow> duration \<Rightarrow> ws_store \<Rightarrow> ws_store" where
  "BindSessionConn e groupID sessionHash connID ttl s =
     (let key = openAIWSSessionTurnStateKey groupID sessionHash; conn = TrimSpace connID in
      if key = [] \<or> conn = [] then s
      else
        let s = maybeCleanup (e_range e) (e_cleanup e) s
        in s\<lparr>sessionToConn := bind_entry (e_range e) key conn (e_now e + normalizeOpenAIWSTTL ttl)
               (sessionToConn s)\<rparr>)"

definition GetSessionConn :: "env \<Rightarrow> int \<Rightarrow> string \<Rightarrow> ws_store \<Rightarrow> string option \<times> ws_store" where
  "GetSessionConn e groupID sessionHash s =
     (let key = openAIWSSessionTurnStateKey groupID sessionHash in
      if key = [] then (None, s)
      else let s = maybeCleanup (e_range e) (e_cleanup e) s
           in (read_binding (e_now e) (sessionToConn s) key, s))"

definition DeleteSessionConn :: "int \<Rightarrow> string \<Rightarrow> ws_store \<Rightarrow> ws_store" where
  "DeleteSessionConn groupID sessionHash s =
     (let key = openAIWSSessionTurnStateKey groupID sessionHash in
      if key = [] then s else s\<lparr>sessionToConn := AList.delete key (sessionToConn s)\<rparr>)"

section \<open>A map of bindings\<close>

text \<open>Every entry of the smaller map is one of the larger, and the keys stay distinct.\<close>

definition sub_bindings :: "'v bindings \<Rightarrow> 'v bindings \<Rightarrow> bool" where
  "sub_bindings m' m \<longleftrightarrow> (distinct (map fst m) \<longrightarrow> distinct (map fst m')) \<and> length m' \<le> length m \<and>
     (\<forall>k. map_of m' k = None \<or> map_of m' k = map_of m k)"

lemma sub_bindings_refl [simp]: "sub_bindings m m" by (simp add: sub_bindings_def)

lemma sub_bindings_trans: "sub_bindings a b \<Longrightarrow> sub_bindings b c \<Longrightarrow> sub_bindings a c"
  unfolding sub_bindings_def by (metis le_trans)

lemma sub_delete [simp]: "sub_bindings (AList.delete k m) m"
  by (auto simp: sub_bindings_def delete_conv' distinct_delete length_delete_le)

lemma sub_drop_expired [simp]: "sub_bindings (drop_expired now k m) m"
  by (auto simp: drop_expired_def split: option.split)

lemma sub_fold_drop: "sub_bindings (fold (drop_expired now) ks m) m"
proof (induction ks arbitrary: m)
  case (Cons k ks)
  show ?case using sub_bindings_trans [OF Cons sub_drop_expired] by simp
qed simp

lemma sub_cleanup [simp]: "sub_bindings (cleanupExpiredBindings sh m now n) m"
  by (simp add: cleanupExpiredBindings_def sub_fold_drop)

lemma sub_capacity [simp]: "sub_bindings (ensureBindingCapacity sh m k n) m"
  by (auto simp: ensureBindingCapacity_def split: list.split)

text \<open>A cleanup never drops a binding that has not expired.\<close>

lemma fold_drop_live:
  "map_of m k = Some (v, x) \<Longrightarrow> now \<le> x \<Longrightarrow> map_of (fold (drop_expired now) ks m) k = Some (v, x)"
proof (induction ks arbitrary: m)
  case (Cons a ks)
  have "map_of (drop_expired now a m) k = Some (v, x)"
    using Cons.prems by (auto simp: drop_expired_def delete_conv' split: option.split)
  with Cons show ?case by simp
qed simp

lemma cleanup_live:
  "map_of m k = Some (v, x) \<Longrightarrow> now \<le> x \<Longrightarrow> map_of (cleanupExpiredBindings sh m now n) k = Some (v, x)"
  by (simp add: cleanupExpiredBindings_def fold_drop_live)

definition bindings_ok :: "'v bindings \<Rightarrow> bool" where
  "bindings_ok m \<longleftrightarrow> distinct (map fst m) \<and> int (length m) \<le> openAIWSStateStoreMaxEntriesPerMap"

lemma bindings_ok_sub: "bindings_ok m \<Longrightarrow> sub_bindings m' m \<Longrightarrow> bindings_ok m'"
  by (auto simp: bindings_ok_def sub_bindings_def)

lemma bindings_ok_delete: "bindings_ok m \<Longrightarrow> bindings_ok (AList.delete k m)"
  by (rule bindings_ok_sub [OF _ sub_delete])

lemma bind_entry_ok:
  assumes "range_ok sh" "bindings_ok m"
  shows "bindings_ok (bind_entry sh k v x m)"
proof -
  let ?c = "ensureBindingCapacity sh m k openAIWSStateStoreMaxEntriesPerMap"
  have c: "bindings_ok ?c" by (rule bindings_ok_sub [OF assms(2)]) simp
  have d: "distinct (map fst m)" and l: "int (length m) \<le> 65536"
    using assms(2) by (simp_all add: bindings_ok_def openAIWSStateStoreMaxEntriesPerMap_def)
  have "int (length (AList.update k (v, x) ?c)) \<le> 65536"
  proof (cases "map_of ?c k")
    case (Some y)
    then have "length (AList.update k (v, x) ?c) = length ?c" by (simp add: length_update_old)
    with c show ?thesis by (simp add: bindings_ok_def openAIWSStateStoreMaxEntriesPerMap_def)
  next
    case None
    then have "length (AList.update k (v, x) ?c) = Suc (length ?c)" by (simp add: length_update_new)
    moreover have "int (length ?c) < 65536"
    proof (cases "int (length m) < 65536")
      case True
      have "sub_bindings ?c m" by simp
      with True show ?thesis by (simp add: sub_bindings_def)
    next
      case False
      have "mset (sh (map fst m)) = mset (map fst m)" using assms(1) by (simp add: range_ok_def)
      moreover from False have "m \<noteq> []" by auto
      ultimately obtain a r where a: "sh (map fst m) = a # r" by (cases "sh (map fst m)") auto
      with assms(1) have "a \<in> set (map fst m)" unfolding range_ok_def by (metis list.set_intros(1) mset_eq_setD)
      moreover have mk: "map_of m k = None"
      proof (rule ccontr)
        assume "map_of m k \<noteq> None"
        then have "?c = m" by (auto simp: ensureBindingCapacity_def)
        with None \<open>map_of m k \<noteq> None\<close> show False by simp
      qed
      ultimately have "Suc (length (AList.delete a m)) = length m"
        using d by (intro length_delete_mem) auto
      moreover have "?c = AList.delete a m"
        using False l a mk by (simp add: ensureBindingCapacity_def openAIWSStateStoreMaxEntriesPerMap_def)
      ultimately show ?thesis using l by simp
    qed
    ultimately show ?thesis by simp
  qed
  with c show ?thesis
    by (auto simp: bind_entry_def bindings_ok_def openAIWSStateStoreMaxEntriesPerMap_def)
qed

lemma bind_entry_same: "map_of (bind_entry sh k v x m) k = Some (v, x)"
  by (simp add: bind_entry_def update_conv')

lemma bind_entry_other:
  "k' \<noteq> k \<Longrightarrow> map_of (bind_entry sh k v x m) k' = None \<or> map_of (bind_entry sh k v x m) k' = map_of m k'"
proof -
  assume "k' \<noteq> k"
  moreover have "sub_bindings (ensureBindingCapacity sh m k openAIWSStateStoreMaxEntriesPerMap) m" by simp
  ultimately show ?thesis by (simp add: bind_entry_def update_conv' sub_bindings_def)
qed

section \<open>Histories of the store\<close>

text \<open>The operations that change the store. The account bindings' cache does not matter for them.\<close>

datatype ws_op =
    WBindAccount string int duration
  | WGetAccount string
  | WDelAccount string
  | WBindConn string string duration
  | WGetConn string
  | WDelConn string
  | WBindTurn int string string duration
  | WGetTurn int string
  | WDelTurn int string
  | WBindSess int string string duration
  | WGetSess int string
  | WDelSess int string

definition ws_step :: "env \<times> ws_op \<Rightarrow> ws_store \<Rightarrow> ws_store" where
  "ws_step eo s =
     (case eo of (e, op) \<Rightarrow>
       (case op of
          WBindAccount r a ttl \<Rightarrow> fst (snd (BindResponseAccount id None e 0 r a ttl s ()))
        | WGetAccount r \<Rightarrow> fst (snd (GetResponseAccount id None e 0 r s ()))
        | WDelAccount r \<Rightarrow> fst (snd (DeleteResponseAccount id None 0 r s ()))
        | WBindConn r conn ttl \<Rightarrow> BindResponseConn e r conn ttl s
        | WGetConn r \<Rightarrow> snd (GetResponseConn e r s)
        | WDelConn r \<Rightarrow> DeleteResponseConn r s
        | WBindTurn g h t ttl \<Rightarrow> BindSessionTurnState e g h t ttl s
        | WGetTurn g h \<Rightarrow> snd (GetSessionTurnState e g h s)
        | WDelTurn g h \<Rightarrow> DeleteSessionTurnState g h s
        | WBindSess g h conn ttl \<Rightarrow> BindSessionConn e g h conn ttl s
        | WGetSess g h \<Rightarrow> snd (GetSessionConn e g h s)
        | WDelSess g h \<Rightarrow> DeleteSessionConn g h s))"

text \<open>What the cache is does not matter to the local maps.\<close>

lemma cache_irrelevant:
  "fst (snd (BindResponseAccount sha cache e g r a ttl s c)) = ws_step (e, WBindAccount r a ttl) s"
  "fst (snd (GetResponseAccount sha cache e g r s c)) = ws_step (e, WGetAccount r) s"
  "fst (snd (DeleteResponseAccount sha cache g r s c)) = ws_step (e, WDelAccount r) s"
  by (auto simp: ws_step_def BindResponseAccount_def GetResponseAccount_def DeleteResponseAccount_def
      Let_def split: option.splits prod.splits sum.splits)

text \<open>The effect that an operation is meant to have on each map: it sets a key to a binding, or
  removes it.\<close>

type_synonym 'v effect = "(string \<times> ('v \<times> gotime) option) option"

definition account_effect :: "env \<times> ws_op \<Rightarrow> int effect" where
  "account_effect eo = (case eo of
     (e, WBindAccount r a ttl) \<Rightarrow> if TrimSpace r = [] \<or> a \<le> 0 then None
        else Some (TrimSpace r, Some (a, e_now e + normalizeOpenAIWSTTL ttl))
   | (e, WDelAccount r) \<Rightarrow> if TrimSpace r = [] then None else Some (TrimSpace r, None)
   | _ \<Rightarrow> None)"

definition conn_effect :: "env \<times> ws_op \<Rightarrow> string effect" where
  "conn_effect eo = (case eo of
     (e, WBindConn r conn ttl) \<Rightarrow> if TrimSpace r = [] \<or> TrimSpace conn = [] then None
        else Some (TrimSpace r, Some (TrimSpace conn, e_now e + normalizeOpenAIWSTTL ttl))
   | (e, WDelConn r) \<Rightarrow> if TrimSpace r = [] then None else Some (TrimSpace r, None)
   | _ \<Rightarrow> None)"

definition turn_effect :: "env \<times> ws_op \<Rightarrow> string effect" where
  "turn_effect eo = (case eo of
     (e, WBindTurn g h t ttl) \<Rightarrow> if openAIWSSessionTurnStateKey g h = [] \<or> TrimSpace t = [] then None
        else Some (openAIWSSessionTurnStateKey g h, Some (TrimSpace t, e_now e + normalizeOpenAIWSTTL ttl))
   | (e, WDelTurn g h) \<Rightarrow> if openAIWSSessionTurnStateKey g h = [] then None
        else Some (openAIWSSessionTurnStateKey g h, None)
   | _ \<Rightarrow> None)"

definition sess_effect :: "env \<times> ws_op \<Rightarrow> string effect" where
  "sess_effect eo = (case eo of
     (e, WBindSess g h conn ttl) \<Rightarrow> if openAIWSSessionTurnStateKey g h = [] \<or> TrimSpace conn = [] then None
        else Some (openAIWSSessionTurnStateKey g h, Some (TrimSpace conn, e_now e + normalizeOpenAIWSTTL ttl))
   | (e, WDelSess g h) \<Rightarrow> if openAIWSSessionTurnStateKey g h = [] then None
        else Some (openAIWSSessionTurnStateKey g h, None)
   | _ \<Rightarrow> None)"

text \<open>The abstract map: every effect applied, nothing evicted or cleaned up.\<close>

definition apply_effect :: "'v effect \<Rightarrow> (string \<rightharpoonup> 'v \<times> gotime) \<Rightarrow> (string \<rightharpoonup> 'v \<times> gotime)" where
  "apply_effect ef m = (case ef of None \<Rightarrow> m | Some (k, b) \<Rightarrow> m(k := b))"

text \<open>The contract of a map of bindings under a history of operations.\<close>

locale ttl_map =
  fixes step :: "'op \<Rightarrow> 's \<Rightarrow> 's"
    and effect :: "'op \<Rightarrow> 'v effect"
    and lookup :: "'s \<Rightarrow> string \<Rightarrow> ('v \<times> gotime) option"
    and empty :: 's
  assumes lookup_empty: "lookup empty k = None"
    and lookup_step: "lookup (step op s) k = None \<or> lookup (step op s) k = apply_effect (effect op) (lookup s) k"
    and lookup_set: "effect op = Some (k, Some b) \<Longrightarrow> lookup (step op s) k = Some b"
begin

text \<open>A lookup refines the abstract map.\<close>

lemma lookup_refines:
  "(\<forall>k b. lookup s k = Some b \<longrightarrow> m k = Some b) \<Longrightarrow>
   lookup (fold step ops s) k = Some b \<Longrightarrow> fold (\<lambda>op. apply_effect (effect op)) ops m k = Some b"
proof (induction ops arbitrary: s m)
  case (Cons op ops)
  have "\<forall>k b. lookup (step op s) k = Some b \<longrightarrow> apply_effect (effect op) m k = Some b"
  proof (intro allI impI)
    fix k b assume l: "lookup (step op s) k = Some b"
    with lookup_step [of op s k] have "apply_effect (effect op) (lookup s) k = Some b" by simp
    with Cons.prems(1) show "apply_effect (effect op) m k = Some b"
      by (cases b) (auto simp: apply_effect_def split: option.splits if_splits)
  qed
  with Cons.IH [of "step op s"] Cons.prems(2) show ?case by simp
qed (cases b, auto)

lemma history_refines:
  "lookup (fold step ops empty) k = Some b \<Longrightarrow>
     fold (\<lambda>op. apply_effect (effect op)) ops Map.empty k = Some b"
  by (rule lookup_refines [of empty]) (simp_all add: lookup_empty)

lemma set_then_lookup: "effect op = Some (k, Some b) \<Longrightarrow> lookup (fold step (ops @ [op]) empty) k = Some b"
  by (simp add: lookup_set)

end

section \<open>The four maps meet the contract\<close>

lemma maybeCleanup_sub:
  "sub_bindings (responseToAccount (maybeCleanup sh now s)) (responseToAccount s)"
  "sub_bindings (responseToConn (maybeCleanup sh now s)) (responseToConn s)"
  "sub_bindings (sessionToTurnState (maybeCleanup sh now s)) (sessionToTurnState s)"
  "sub_bindings (sessionToConn (maybeCleanup sh now s)) (sessionToConn s)"
  by (auto simp: maybeCleanup_def cleanup_defs Let_def)

lemma sub_lookup: "sub_bindings m' m \<Longrightarrow> map_of m' k = None \<or> map_of m' k = map_of m k"
  by (simp add: sub_bindings_def)

lemmas ws_op_defs = BindResponseAccount_def GetResponseAccount_def DeleteResponseAccount_def
  BindResponseConn_def GetResponseConn_def DeleteResponseConn_def BindSessionTurnState_def
  GetSessionTurnState_def DeleteSessionTurnState_def BindSessionConn_def GetSessionConn_def
  DeleteSessionConn_def normalizeOpenAIWSResponseID_def

lemma bind_entry_lookup:
  "map_of (bind_entry sh k v x m') k' = None \<or>
   map_of (bind_entry sh k v x m') k' = (if k' = k then Some (v, x) else map_of m k')"
  if "sub_bindings m' m"
  using bind_entry_other [of k' k sh v x m'] bind_entry_same [of sh k v x m'] sub_lookup [OF that, of k']
  by auto

text \<open>Every operation is one of: an insertion after a cleanup, a deletion, a cleanup, nothing; what
  it does to each map follows its effect there.\<close>

lemma account_step:
  "map_of (responseToAccount (ws_step eo s)) k = None \<or>
   map_of (responseToAccount (ws_step eo s)) k = apply_effect (account_effect eo) (map_of (responseToAccount s)) k"
proof -
  obtain e op where eo: "eo = (e, op)" by fastforce
  note sub = sub_lookup [OF maybeCleanup_sub(1), of "e_range e" "e_cleanup e" s k]
  note be = bind_entry_lookup [OF maybeCleanup_sub(1), of "e_range e" _ _ _ "e_range e" "e_cleanup e" s k]
  show ?thesis
    using sub be
    by (cases op) (auto simp: eo ws_step_def ws_op_defs account_effect_def apply_effect_def Let_def
        delete_conv' split: option.splits if_splits)
qed

lemma conn_step:
  "map_of (responseToConn (ws_step eo s)) k = None \<or>
   map_of (responseToConn (ws_step eo s)) k = apply_effect (conn_effect eo) (map_of (responseToConn s)) k"
proof -
  obtain e op where eo: "eo = (e, op)" by fastforce
  note sub = sub_lookup [OF maybeCleanup_sub(2), of "e_range e" "e_cleanup e" s k]
  note be = bind_entry_lookup [OF maybeCleanup_sub(2), of "e_range e" _ _ _ "e_range e" "e_cleanup e" s k]
  show ?thesis
    using sub be
    by (cases op) (auto simp: eo ws_step_def ws_op_defs conn_effect_def apply_effect_def Let_def
        delete_conv' split: option.splits if_splits)
qed

lemma turn_step:
  "map_of (sessionToTurnState (ws_step eo s)) k = None \<or>
   map_of (sessionToTurnState (ws_step eo s)) k = apply_effect (turn_effect eo) (map_of (sessionToTurnState s)) k"
proof -
  obtain e op where eo: "eo = (e, op)" by fastforce
  note sub = sub_lookup [OF maybeCleanup_sub(3), of "e_range e" "e_cleanup e" s k]
  note be = bind_entry_lookup [OF maybeCleanup_sub(3), of "e_range e" _ _ _ "e_range e" "e_cleanup e" s k]
  show ?thesis
    using sub be
    by (cases op) (auto simp: eo ws_step_def ws_op_defs turn_effect_def apply_effect_def Let_def
        delete_conv' split: option.splits if_splits)
qed

lemma sess_step:
  "map_of (sessionToConn (ws_step eo s)) k = None \<or>
   map_of (sessionToConn (ws_step eo s)) k = apply_effect (sess_effect eo) (map_of (sessionToConn s)) k"
proof -
  obtain e op where eo: "eo = (e, op)" by fastforce
  note sub = sub_lookup [OF maybeCleanup_sub(4), of "e_range e" "e_cleanup e" s k]
  note be = bind_entry_lookup [OF maybeCleanup_sub(4), of "e_range e" _ _ _ "e_range e" "e_cleanup e" s k]
  show ?thesis
    using sub be
    by (cases op) (auto simp: eo ws_step_def ws_op_defs sess_effect_def apply_effect_def Let_def
        delete_conv' split: option.splits if_splits)
qed

lemma ws_step_set:
  "account_effect eo = Some (k, Some b) \<Longrightarrow> map_of (responseToAccount (ws_step eo s)) k = Some b"
  "conn_effect eo = Some (k, Some b') \<Longrightarrow> map_of (responseToConn (ws_step eo s)) k = Some b'"
  "turn_effect eo = Some (k, Some b') \<Longrightarrow> map_of (sessionToTurnState (ws_step eo s)) k = Some b'"
  "sess_effect eo = Some (k, Some b') \<Longrightarrow> map_of (sessionToConn (ws_step eo s)) k = Some b'"
proof -
  obtain e op where eo: "eo = (e, op)" by fastforce
  show "account_effect eo = Some (k, Some b) \<Longrightarrow> map_of (responseToAccount (ws_step eo s)) k = Some b"
    by (cases op; simp add: eo account_effect_def split: if_splits)
       (auto simp: eo ws_step_def BindResponseAccount_def normalizeOpenAIWSResponseID_def Let_def bind_entry_same)
  show "conn_effect eo = Some (k, Some b') \<Longrightarrow> map_of (responseToConn (ws_step eo s)) k = Some b'"
    by (cases op; simp add: eo conn_effect_def split: if_splits)
       (auto simp: eo ws_step_def BindResponseConn_def normalizeOpenAIWSResponseID_def Let_def bind_entry_same)
  show "turn_effect eo = Some (k, Some b') \<Longrightarrow> map_of (sessionToTurnState (ws_step eo s)) k = Some b'"
    by (cases op; simp add: eo turn_effect_def Let_def split: if_splits)
       (auto simp: eo ws_step_def BindSessionTurnState_def Let_def bind_entry_same)
  show "sess_effect eo = Some (k, Some b') \<Longrightarrow> map_of (sessionToConn (ws_step eo s)) k = Some b'"
    by (cases op; simp add: eo sess_effect_def Let_def split: if_splits)
       (auto simp: eo ws_step_def BindSessionConn_def Let_def bind_entry_same)
qed

interpretation account_map: ttl_map ws_step account_effect "\<lambda>s. map_of (responseToAccount s)"
  "NewOpenAIWSStateStore now" for now
  by unfold_locales (auto simp: NewOpenAIWSStateStore_def account_step ws_step_set)

interpretation conn_map: ttl_map ws_step conn_effect "\<lambda>s. map_of (responseToConn s)"
  "NewOpenAIWSStateStore now" for now
  by unfold_locales (auto simp: NewOpenAIWSStateStore_def conn_step ws_step_set)

interpretation turn_map: ttl_map ws_step turn_effect "\<lambda>s. map_of (sessionToTurnState s)"
  "NewOpenAIWSStateStore now" for now
  by unfold_locales (auto simp: NewOpenAIWSStateStore_def turn_step ws_step_set)

interpretation sess_map: ttl_map ws_step sess_effect "\<lambda>s. map_of (sessionToConn s)"
  "NewOpenAIWSStateStore now" for now
  by unfold_locales (auto simp: NewOpenAIWSStateStore_def sess_step ws_step_set)

section \<open>Properties\<close>

definition ws_history :: "(env \<times> ws_op) list \<Rightarrow> gotime \<Rightarrow> ws_store" where
  "ws_history ops now = fold ws_step ops (NewOpenAIWSStateStore now)"

definition abstract_map :: "(env \<times> ws_op \<Rightarrow> 'v effect) \<Rightarrow> (env \<times> ws_op) list \<Rightarrow> (string \<rightharpoonup> 'v \<times> gotime)" where
  "abstract_map eff ops = fold (\<lambda>op. apply_effect (eff op)) ops Map.empty"

definition store_ok :: "ws_store \<Rightarrow> bool" where
  "store_ok s \<longleftrightarrow> bindings_ok (responseToAccount s) \<and> bindings_ok (responseToConn s) \<and>
     bindings_ok (sessionToTurnState s) \<and> bindings_ok (sessionToConn s)"

lemma maybeCleanup_ok: "store_ok s \<Longrightarrow> store_ok (maybeCleanup sh now s)"
  using maybeCleanup_sub [of sh now s] by (auto simp: store_ok_def intro: bindings_ok_sub)

lemma ws_step_ok:
  assumes "store_ok s" "range_ok (e_range (fst eo))" shows "store_ok (ws_step eo s)"
proof -
  obtain e op where eo: "eo = (e, op)" by fastforce
  have c: "store_ok (maybeCleanup (e_range e) (e_cleanup e) s)" by (rule maybeCleanup_ok [OF assms(1)])
  show ?thesis
    using assms c
    by (cases op) (auto simp: eo ws_step_def ws_op_defs Let_def store_ok_def bindings_ok_delete
        bind_entry_ok split: option.splits if_splits)
qed

text \<open>The store is bounded. After any history of operations, with any iteration order of the Go
  maps and any clock readings, each of its four maps has at most 65536 entries and no key twice.\<close>

theorem ws_store_bounded:
  assumes "\<forall>eo \<in> set ops. range_ok (e_range (fst eo))"
  shows "store_ok (ws_history ops now)"
proof -
  have "store_ok s \<Longrightarrow> store_ok (fold ws_step ops s)" for s
    using assms by (induction ops arbitrary: s) (simp_all add: ws_step_ok)
  then show ?thesis
    by (simp add: ws_history_def store_ok_def NewOpenAIWSStateStore_def bindings_ok_def
        openAIWSStateStoreMaxEntriesPerMap_def)
qed

lemma read_binding_refines:
  assumes "\<forall>k b. map_of m k = Some b \<longrightarrow> a k = Some b" "sub_bindings m' m"
    and "read_binding now m' key = Some v"
  shows "\<exists>x. a key = Some (v, x) \<and> now \<le> x"
proof -
  from assms(3) obtain x where x: "map_of m' key = Some (v, x)" "now \<le> x"
    by (auto simp: read_binding_def split: option.splits if_splits)
  with sub_lookup [OF assms(2), of key] have "map_of m key = Some (v, x)" by simp
  with assms(1) x(2) show ?thesis by blast
qed

text \<open>(C32) A lookup never invents or outlives a binding. After any history of operations on the store,
  a lookup of a connection or turn state that finds a value finds the one that was last bound to
  this key and not deleted since, at most its time to live after the binding was made; eviction,
  cleanup and the other maps can only turn it into a miss. (The abstract map applies every binding
  and deletion and nothing else.)\<close>

theorem ws_lookup_refines:
  "(\<forall>v. fst (GetResponseConn e r (ws_history ops now)) = Some v \<longrightarrow>
      (\<exists>x. abstract_map conn_effect ops (TrimSpace r) = Some (v, x) \<and> e_now e \<le> x)) \<and>
   (\<forall>v. fst (GetSessionTurnState e g h (ws_history ops now)) = Some v \<longrightarrow>
      (\<exists>x. abstract_map turn_effect ops (openAIWSSessionTurnStateKey g h) = Some (v, x) \<and> e_now e \<le> x)) \<and>
   (\<forall>v. fst (GetSessionConn e g h (ws_history ops now)) = Some v \<longrightarrow>
      (\<exists>x. abstract_map sess_effect ops (openAIWSSessionTurnStateKey g h) = Some (v, x) \<and> e_now e \<le> x))"
proof (intro conjI allI impI)
  fix v
  let ?s = "ws_history ops now"
  have c: "\<forall>k b. map_of (responseToConn ?s) k = Some b \<longrightarrow> abstract_map conn_effect ops k = Some b"
    using conn_map.history_refines by (simp add: ws_history_def abstract_map_def)
  have t: "\<forall>k b. map_of (sessionToTurnState ?s) k = Some b \<longrightarrow> abstract_map turn_effect ops k = Some b"
    using turn_map.history_refines by (simp add: ws_history_def abstract_map_def)
  have w: "\<forall>k b. map_of (sessionToConn ?s) k = Some b \<longrightarrow> abstract_map sess_effect ops k = Some b"
    using sess_map.history_refines by (simp add: ws_history_def abstract_map_def)
  show "fst (GetResponseConn e r ?s) = Some v \<Longrightarrow>
      \<exists>x. abstract_map conn_effect ops (TrimSpace r) = Some (v, x) \<and> e_now e \<le> x"
    using read_binding_refines [OF c maybeCleanup_sub(2)]
    by (auto simp: GetResponseConn_def Let_def normalizeOpenAIWSResponseID_def split: if_splits)
  show "fst (GetSessionTurnState e g h ?s) = Some v \<Longrightarrow>
      \<exists>x. abstract_map turn_effect ops (openAIWSSessionTurnStateKey g h) = Some (v, x) \<and> e_now e \<le> x"
    using read_binding_refines [OF t maybeCleanup_sub(3)]
    by (auto simp: GetSessionTurnState_def Let_def split: if_splits)
  show "fst (GetSessionConn e g h ?s) = Some v \<Longrightarrow>
      \<exists>x. abstract_map sess_effect ops (openAIWSSessionTurnStateKey g h) = Some (v, x) \<and> e_now e \<le> x"
    using read_binding_refines [OF w maybeCleanup_sub(4)]
    by (auto simp: GetSessionConn_def Let_def split: if_splits)
qed

lemma maybeCleanup_live:
  "map_of (responseToAccount s) k = Some (a, x) \<Longrightarrow> now \<le> x \<Longrightarrow>
     map_of (responseToAccount (maybeCleanup sh now s)) k = Some (a, x)"
  "map_of (sessionToConn s) k = Some (v, x) \<Longrightarrow> now \<le> x \<Longrightarrow>
     map_of (sessionToConn (maybeCleanup sh now s)) k = Some (v, x)"
  by (simp_all add: maybeCleanup_def cleanup_defs cleanup_live Let_def)

text \<open>A session finds its connection. A lookup right after the binding, within its time to live,
  returns the connection that was bound, however full the store is and whatever the cleanup and the
  eviction of the binding chose to drop.\<close>

theorem ws_bind_then_get:
  assumes "openAIWSSessionTurnStateKey g h \<noteq> []" "TrimSpace conn \<noteq> []"
    and "e_cleanup e2 \<le> e_now e1 + normalizeOpenAIWSTTL ttl" "e_now e2 \<le> e_now e1 + normalizeOpenAIWSTTL ttl"
  shows "fst (GetSessionConn e2 g h (BindSessionConn e1 g h conn ttl s)) = Some (TrimSpace conn)"
proof -
  let ?k = "openAIWSSessionTurnStateKey g h" and ?x = "e_now e1 + normalizeOpenAIWSTTL ttl"
  have "map_of (sessionToConn (BindSessionConn e1 g h conn ttl s)) ?k = Some (TrimSpace conn, ?x)"
    using assms(1,2) by (simp add: BindSessionConn_def Let_def bind_entry_same)
  from maybeCleanup_live(2) [OF this assms(3)] assms show ?thesis
    by (simp add: GetSessionConn_def Let_def read_binding_def)
qed

text \<open>The local account binding is not separated by group. The Redis cache keys the binding of a
  response to an account by the group, but the local map by the response alone: until the binding
  expires, a lookup from any other group returns the account that was bound in the first group,
  without asking the cache.\<close>

theorem response_account_ignores_group:
  assumes "TrimSpace r \<noteq> []" "0 < a"
    and "e_cleanup e2 \<le> e_now e1 + normalizeOpenAIWSTTL ttl" "e_now e2 < e_now e1 + normalizeOpenAIWSTTL ttl"
    and "BindResponseAccount sha cache e1 group1 r a ttl s c = (res, s1, c1)"
  shows "\<exists>s2. GetResponseAccount sha cache e2 group2 r s1 c1 = (a, s2, c1)"
proof -
  let ?x = "e_now e1 + normalizeOpenAIWSTTL ttl"
  have "map_of (responseToAccount s1) (TrimSpace r) = Some (a, ?x)"
    using assms(1,2,5) by (auto simp: BindResponseAccount_def normalizeOpenAIWSResponseID_def Let_def
        bind_entry_same split: option.splits prod.splits)
  from maybeCleanup_live(1) [OF this assms(3)] assms(1,4) show ?thesis
    by (simp add: GetResponseAccount_def normalizeOpenAIWSResponseID_def Let_def)
qed

definition demo_env :: "gotime \<Rightarrow> env" where
  "demo_env t = \<lparr>e_range = id, e_cleanup = t, e_now = t\<rparr>"

lemma demo_trim: "TrimSpace ''abc'' = ''abc''" "TrimSpace ''r1'' = ''r1''"
  by (rule TrimSpace_graphic, simp add: graphic_def)+

lemma demo_session_key: "openAIWSSessionTurnStateKey 3 ''abc'' \<noteq> []"
  by (simp add: openAIWSSessionTurnStateKey_def demo_trim Let_def)

theorem ws_store_bounded_witness:
  "store_ok (ws_history [(demo_env 5, WBindConn ''r1'' ''abc'' 10), (demo_env 6, WGetConn ''r1'')] 0)"
  by (rule ws_store_bounded) (simp add: demo_env_def range_ok_def)

theorem ws_bind_then_get_witness:
  "fst (GetSessionConn (demo_env 9) 3 ''abc'' (BindSessionConn (demo_env 5) 3 ''abc'' ''r1'' 10
     (NewOpenAIWSStateStore 0))) = Some ''r1''"
  using ws_bind_then_get [OF demo_session_key, of "''r1''" "demo_env 9" "demo_env 5" 10 "NewOpenAIWSStateStore 0"]
  by (simp add: demo_trim demo_env_def normalizeOpenAIWSTTL_def)

theorem ws_lookup_refines_witness:
  "\<exists>x. abstract_map sess_effect [(demo_env 5, WBindSess 3 ''abc'' ''r1'' 10)]
       (openAIWSSessionTurnStateKey 3 ''abc'') = Some (''r1'', x) \<and> 9 \<le> x"
proof -
  have "fst (GetSessionConn (demo_env 9) 3 ''abc'' (ws_history [(demo_env 5, WBindSess 3 ''abc'' ''r1'' 10)] 0))
      = Some ''r1''"
    by (simp add: ws_history_def ws_step_def GetSessionConn_def BindSessionConn_def demo_session_key demo_trim
        demo_env_def normalizeOpenAIWSTTL_def NewOpenAIWSStateStore_def maybeCleanup_def Let_def
        openAIWSStateStoreCleanupInterval_def go_simps bind_entry_same read_binding_def)
  with ws_lookup_refines [of "demo_env 9" "[]" "[(demo_env 5, WBindSess 3 ''abc'' ''r1'' 10)]" 0 3 "''abc''"]
  show ?thesis by (simp add: demo_env_def)
qed

theorem response_account_ignores_group_witness:
  "\<exists>s1 s2. BindResponseAccount id None (demo_env 5) 1 ''r1'' 42 10 (NewOpenAIWSStateStore 0) () = (Inr (), s1, ())
     \<and> GetResponseAccount id None (demo_env 9) 2 ''r1'' s1 () = (42, s2, ())"
proof -
  obtain res s1 c1 where b: "BindResponseAccount id None (demo_env 5) 1 ''r1'' 42 10 (NewOpenAIWSStateStore 0) ()
      = (res, s1, c1)" by (metis prod_cases3)
  then have "res = Inr ()"
    by (auto simp: BindResponseAccount_def Let_def split: if_splits)
  with response_account_ignores_group [OF _ _ _ _ b, of "demo_env 9" 2] b show ?thesis
    by (simp add: demo_trim demo_env_def normalizeOpenAIWSTTL_def)
qed

end
