(* ===== verification/UsageBilling.thy ===== *)
theory UsageBilling
  imports AppErrors Complex_Main
begin

text \<open>
  Charging a request exactly once: \<open>backend/internal/service/usage_billing.go\<close>,
  \<open>backend/internal/repository/usage_billing_repo.go\<close>, the archiving of the deduplication keys in
  \<open>dashboard_aggregation_repo.go\<close> and the scheduler outbox in \<open>scheduler_outbox_repo.go\<close>.

  The database is a record of tables, each a list of rows; a statement is a function that may fail
  by the database's schedule of faults, before it takes effect or after, when only the answer is lost.
  A transaction runs its statements on the tables and, unless it commits, gives the old tables back; a
  commit whose answer is lost is reported as an error although it took effect. Amounts (\<open>float64\<close> in Go, \<open>numeric\<close> in the tables) are
  rationals: rounding is not modelled. What the SQL takes from PostgreSQL's time zones is a
  parameter: the truncation to a day, and the next fixed reset points of an account. The concurrent
  transactions of one key are serialised by the unique index, so that a transaction is one step.
\<close>

section \<open>The command\<close>

definition ErrUsageBillingRequestIDRequired :: go_error where
  "ErrUsageBillingRequestIDRequired = PlainErr ''usage billing request_id is required''"

definition ErrUsageBillingRequestConflict :: go_error where
  "ErrUsageBillingRequestConflict = PlainErr ''usage billing request fingerprint conflict''"

definition ErrAPIKeyNotFound :: ApplicationError where
  "ErrAPIKeyNotFound = NotFound ''API_KEY_NOT_FOUND'' ''api key not found''"

definition ErrAccountNotFound :: ApplicationError where
  "ErrAccountNotFound = NotFound ''ACCOUNT_NOT_FOUND'' ''account not found''"

record UsageBillingCommand =
  c_RequestID :: string
  c_APIKeyID :: int
  c_RequestFingerprint :: string
  c_RequestPayloadHash :: string
  c_UserID :: int
  c_AccountID :: int
  c_SubscriptionID :: "int option"
  c_AccountType :: string
  c_Model :: string
  c_ServiceTier :: string
  c_ReasoningEffort :: string
  c_BillingType :: int
  c_InputTokens :: int
  c_OutputTokens :: int
  c_CacheCreationTokens :: int
  c_CacheReadTokens :: int
  c_ImageCount :: int
  c_MediaType :: string
  c_BalanceCost :: rat
  c_SubscriptionCost :: rat
  c_APIKeyQuotaCost :: rat
  c_APIKeyRateLimitCost :: rat
  c_AccountQuotaCost :: rat

definition valueOrZero :: "int option \<Rightarrow> int" where
  "valueOrZero v = (case v of None \<Rightarrow> 0 | Some n \<Rightarrow> n)"

text \<open>\<open>%0.10f\<close>: ten decimals, rounded half to even.\<close>

definition round_half_even :: "rat \<Rightarrow> int" where
  "round_half_even x =
     (let f = \<lfloor>x\<rfloor>; d = x - of_int f
      in if d < 1 / 2 then f else if d > 1 / 2 then f + 1 else if even f then f else f + 1)"

definition pad_left :: "nat \<Rightarrow> string \<Rightarrow> string" where
  "pad_left n s = replicate (n - length s) (CHR ''0'') @ s"

definition fmt_f10 :: "rat \<Rightarrow> string" where
  "fmt_f10 x =
     (let n = nat (round_half_even (\<bar>x\<bar> * 10 ^ 10))
      in (if x < 0 then ''-'' else []) @ itoa_nat (n div 10 ^ 10) @ ''.'' @
         pad_left 10 (itoa_nat (n mod 10 ^ 10)))"

definition buildUsageBillingFingerprint :: "(string \<Rightarrow> string) \<Rightarrow> UsageBillingCommand \<Rightarrow> string" where
  "buildUsageBillingFingerprint sha c =
     (let raw = join ''|''
            [itoa (c_UserID c), itoa (c_AccountID c), itoa (c_APIKeyID c),
             TrimSpace (c_AccountType c), TrimSpace (c_Model c), TrimSpace (c_ServiceTier c),
             TrimSpace (c_ReasoningEffort c), itoa (c_BillingType c), itoa (c_InputTokens c),
             itoa (c_OutputTokens c), itoa (c_CacheCreationTokens c), itoa (c_CacheReadTokens c),
             itoa (c_ImageCount c), TrimSpace (c_MediaType c), itoa (valueOrZero (c_SubscriptionID c)),
             fmt_f10 (c_BalanceCost c), fmt_f10 (c_SubscriptionCost c), fmt_f10 (c_APIKeyQuotaCost c),
             fmt_f10 (c_APIKeyRateLimitCost c), fmt_f10 (c_AccountQuotaCost c)];
          payloadHash = TrimSpace (c_RequestPayloadHash c)
      in sha (if payloadHash \<noteq> [] then raw @ ''|'' @ payloadHash else raw))"

definition Normalize :: "(string \<Rightarrow> string) \<Rightarrow> UsageBillingCommand \<Rightarrow> UsageBillingCommand" where
  "Normalize sha c =
     (let c = c\<lparr>c_RequestID := TrimSpace (c_RequestID c)\<rparr>
      in if TrimSpace (c_RequestFingerprint c) = []
         then c\<lparr>c_RequestFingerprint := buildUsageBillingFingerprint sha c\<rparr> else c)"

definition HashUsageRequestPayload :: "(string \<Rightarrow> string) \<Rightarrow> string \<Rightarrow> string" where
  "HashUsageRequestPayload sha payload = (if payload = [] then [] else sha payload)"

record AccountQuotaState =
  qs_TotalUsed :: rat
  qs_TotalLimit :: rat
  qs_DailyUsed :: rat
  qs_DailyLimit :: rat
  qs_WeeklyUsed :: rat
  qs_WeeklyLimit :: rat

record UsageBillingApplyResult =
  ar_Applied :: bool
  ar_APIKeyQuotaExhausted :: bool
  ar_NewBalance :: "rat option"
  ar_QuotaState :: "AccountQuotaState option"

definition zero_apply_result :: UsageBillingApplyResult where
  "zero_apply_result = \<lparr>ar_Applied = False, ar_APIKeyQuotaExhausted = False, ar_NewBalance = None,
     ar_QuotaState = None\<rparr>"

section \<open>The tables\<close>

record dedup_row =
  d_request_id :: string
  d_api_key_id :: int
  d_fingerprint :: string
  d_created_at :: gotime

record user_row =
  u_id :: int
  u_balance :: rat
  u_deleted :: bool

record group_row =
  g_id :: int
  g_deleted :: bool

record sub_row =
  s_id :: int
  s_group_id :: int
  s_daily_usage :: rat
  s_weekly_usage :: rat
  s_monthly_usage :: rat
  s_deleted :: bool

record key_row =
  k_id :: int
  k_quota :: rat
  k_quota_used :: rat
  k_status :: string
  k_usage_5h :: rat
  k_usage_1d :: rat
  k_usage_7d :: rat
  k_window_5h :: "gotime option"
  k_window_1d :: "gotime option"
  k_window_7d :: "gotime option"
  k_deleted :: bool

text \<open>The quota fields of an account's JSON column \<open>extra\<close>; an absent field is \<open>None\<close>.\<close>

record quota_extra =
  x_quota_used :: "rat option"
  x_quota_limit :: "rat option"
  x_daily_used :: "rat option"
  x_daily_limit :: "rat option"
  x_daily_start :: "gotime option"
  x_daily_reset_mode :: "string option"
  x_daily_reset_at :: "gotime option"
  x_weekly_used :: "rat option"
  x_weekly_limit :: "rat option"
  x_weekly_start :: "gotime option"
  x_weekly_reset_mode :: "string option"
  x_weekly_reset_at :: "gotime option"

record account_row =
  a_id :: int
  a_extra :: quota_extra
  a_deleted :: bool

text \<open>A call of the database fails before it takes effect, or its answer does not arrive.\<close>

datatype db_fault = Refused go_error | Unanswered go_error

record billing_db =
  b_dedup :: "dedup_row list"
  b_archive :: "dedup_row list"
  b_users :: "user_row list"
  b_groups :: "group_row list"
  b_subs :: "sub_row list"
  b_keys :: "key_row list"
  b_accounts :: "account_row list"
  b_outbox :: "(string \<times> int \<times> gotime) list"
  b_now :: gotime
  b_faults :: "db_fault option list"

text \<open>PostgreSQL's time zone arithmetic.\<close>

record pg_time =
  t_trunc_day :: "gotime \<Rightarrow> gotime"
  t_next_daily :: "quota_extra \<Rightarrow> gotime \<Rightarrow> gotime"
  t_next_weekly :: "quota_extra \<Rightarrow> gotime \<Rightarrow> gotime"

section \<open>Statements\<close>

type_synonym 'a stmt = "billing_db \<Rightarrow> (go_error + 'a) \<times> billing_db"

definition stmt_fault :: "'a stmt \<Rightarrow> 'a stmt" where
  "stmt_fault st db =
     (case b_faults db of
        [] \<Rightarrow> st db
      | None # fs \<Rightarrow> st (db\<lparr>b_faults := fs\<rparr>)
      | Some (Refused e) # fs \<Rightarrow> (Inl e, db\<lparr>b_faults := fs\<rparr>)
      | Some (Unanswered e) # fs \<Rightarrow> (Inl e, snd (st (db\<lparr>b_faults := fs\<rparr>))))"

text \<open>Sequencing: an error ends the function that runs the statements.\<close>

definition tx_bind :: "'a stmt \<Rightarrow> ('a \<Rightarrow> 'b stmt) \<Rightarrow> 'b stmt" where
  "tx_bind m f db = (case m db of (Inl e, db1) \<Rightarrow> (Inl e, db1) | (Inr x, db1) \<Rightarrow> f x db1)"

definition tx_return :: "'a \<Rightarrow> 'a stmt" where
  "tx_return x db = (Inr x, db)"

definition tx_fail :: "go_error \<Rightarrow> 'a stmt" where
  "tx_fail e db = (Inl e, db)"

definition tx_when :: "bool \<Rightarrow> 'a stmt \<Rightarrow> 'a \<Rightarrow> 'a stmt" where
  "tx_when c m d = (if c then m else tx_return d)"

definition same_key :: "string \<Rightarrow> int \<Rightarrow> dedup_row \<Rightarrow> bool" where
  "same_key rid kid r \<longleftrightarrow> d_request_id r = rid \<and> d_api_key_id r = kid"

text \<open>\<open>INSERT ... ON CONFLICT DO NOTHING RETURNING id\<close>: whether a row was inserted.\<close>

definition insert_dedup :: "UsageBillingCommand \<Rightarrow> bool stmt" where
  "insert_dedup c = stmt_fault (\<lambda>db.
     if list_ex (same_key (c_RequestID c) (c_APIKeyID c)) (b_dedup db) then (Inr False, db)
     else (Inr True, db\<lparr>b_dedup := b_dedup db @
            [\<lparr>d_request_id = c_RequestID c, d_api_key_id = c_APIKeyID c,
              d_fingerprint = c_RequestFingerprint c, d_created_at = b_now db\<rparr>]\<rparr>))"

definition select_dedup :: "UsageBillingCommand \<Rightarrow> string option stmt" where
  "select_dedup c = stmt_fault (\<lambda>db.
     (Inr (map_option d_fingerprint (find (same_key (c_RequestID c) (c_APIKeyID c)) (b_dedup db))), db))"

definition select_archive :: "UsageBillingCommand \<Rightarrow> string option stmt" where
  "select_archive c = stmt_fault (\<lambda>db.
     (Inr (map_option d_fingerprint (find (same_key (c_RequestID c) (c_APIKeyID c)) (b_archive db))), db))"

definition sql_ErrNoRows :: go_error where "sql_ErrNoRows = PlainErr ''sql: no rows in result set''"

definition claimUsageBillingKey :: "UsageBillingCommand \<Rightarrow> bool stmt" where
  "claimUsageBillingKey c =
     tx_bind (insert_dedup c) (\<lambda>inserted.
       if \<not> inserted then
         tx_bind (select_dedup c) (\<lambda>row.
           (case row of
              None \<Rightarrow> tx_fail sql_ErrNoRows
            | Some existing \<Rightarrow>
                if TrimSpace existing \<noteq> TrimSpace (c_RequestFingerprint c)
                then tx_fail ErrUsageBillingRequestConflict else tx_return False))
       else
         tx_bind (select_archive c) (\<lambda>row.
           (case row of
              Some archived \<Rightarrow>
                if TrimSpace archived \<noteq> TrimSpace (c_RequestFingerprint c)
                then tx_fail ErrUsageBillingRequestConflict else tx_return False
            | None \<Rightarrow> tx_return True)))"

definition incrementUsageBillingSubscription :: "int \<Rightarrow> rat \<Rightarrow> unit stmt" where
  "incrementUsageBillingSubscription subscriptionID costUSD = stmt_fault (\<lambda>db.
     let hit = (\<lambda>us. s_id us = subscriptionID \<and> \<not> s_deleted us \<and>
                 list_ex (\<lambda>g. g_id g = s_group_id us \<and> \<not> g_deleted g) (b_groups db))
     in if list_ex hit (b_subs db) then
          (Inr (), db\<lparr>b_subs := map (\<lambda>us. if hit us then
               us\<lparr>s_daily_usage := s_daily_usage us + costUSD,
                  s_weekly_usage := s_weekly_usage us + costUSD,
                  s_monthly_usage := s_monthly_usage us + costUSD\<rparr> else us) (b_subs db)\<rparr>)
        else (Inl (AppErr ErrSubscriptionNotFound), db))"

definition deductUsageBillingBalance :: "int \<Rightarrow> rat \<Rightarrow> rat stmt" where
  "deductUsageBillingBalance userID amount = stmt_fault (\<lambda>db.
     let hit = (\<lambda>u. u_id u = userID \<and> \<not> u_deleted u)
     in case find hit (b_users db) of
          None \<Rightarrow> (Inl (AppErr ErrUserNotFound), db)
        | Some u \<Rightarrow>
            (Inr (u_balance u - amount),
             db\<lparr>b_users := map (\<lambda>u. if hit u then u\<lparr>u_balance := u_balance u - amount\<rparr> else u)
                   (b_users db)\<rparr>))"

definition StatusAPIKeyActive :: string where "StatusAPIKeyActive = ''active''"
definition StatusAPIKeyQuotaExhausted :: string where "StatusAPIKeyQuotaExhausted = ''quota_exhausted''"

definition charge_key :: "rat \<Rightarrow> key_row \<Rightarrow> key_row" where
  "charge_key amount k =
     k\<lparr>k_quota_used := k_quota_used k + amount,
       k_status := (if k_quota k > 0 \<and> k_status k = StatusAPIKeyActive \<and> k_quota_used k < k_quota k \<and>
           k_quota_used k + amount \<ge> k_quota k then StatusAPIKeyQuotaExhausted else k_status k)\<rparr>"

text \<open>The value the statement returns: whether this charge exhausted the quota.\<close>

definition quota_signal :: "rat \<Rightarrow> key_row \<Rightarrow> bool" where
  "quota_signal amount k0 =
     (let k = charge_key amount k0
      in k_quota k > 0 \<and> k_quota_used k \<ge> k_quota k \<and> k_quota_used k - amount < k_quota k)"

definition incrementUsageBillingAPIKeyQuota :: "int \<Rightarrow> rat \<Rightarrow> bool stmt" where
  "incrementUsageBillingAPIKeyQuota apiKeyID amount = stmt_fault (\<lambda>db.
     let hit = (\<lambda>k. k_id k = apiKeyID \<and> \<not> k_deleted k)
     in case find hit (b_keys db) of
          None \<Rightarrow> (Inl (AppErr ErrAPIKeyNotFound), db)
        | Some k0 \<Rightarrow>
            (Inr (quota_signal amount k0),
             db\<lparr>b_keys := map (\<lambda>k. if hit k then charge_key amount k else k) (b_keys db)\<rparr>))"

definition window_over :: "gotime \<Rightarrow> gotime option \<Rightarrow> duration \<Rightarrow> bool" where
  "window_over now start len = (case start of None \<Rightarrow> False | Some t \<Rightarrow> t + len \<le> now)"

definition restart_window :: "gotime \<Rightarrow> gotime option \<Rightarrow> duration \<Rightarrow> gotime \<Rightarrow> gotime option" where
  "restart_window now start len fresh =
     (case start of None \<Rightarrow> Some fresh | Some t \<Rightarrow> if t + len \<le> now then Some fresh else Some t)"

definition rate_key :: "pg_time \<Rightarrow> gotime \<Rightarrow> rat \<Rightarrow> key_row \<Rightarrow> key_row" where
  "rate_key tz now cost k =
     k\<lparr>k_usage_5h := (if window_over now (k_window_5h k) (5 * time_Hour) then cost else k_usage_5h k + cost),
       k_usage_1d := (if window_over now (k_window_1d k) (24 * time_Hour) then cost else k_usage_1d k + cost),
       k_usage_7d := (if window_over now (k_window_7d k) (7 * time_Day) then cost else k_usage_7d k + cost),
       k_window_5h := restart_window now (k_window_5h k) (5 * time_Hour) now,
       k_window_1d := restart_window now (k_window_1d k) (24 * time_Hour) (t_trunc_day tz now),
       k_window_7d := restart_window now (k_window_7d k) (7 * time_Day) (t_trunc_day tz now)\<rparr>"

definition incrementUsageBillingAPIKeyRateLimit :: "pg_time \<Rightarrow> int \<Rightarrow> rat \<Rightarrow> unit stmt" where
  "incrementUsageBillingAPIKeyRateLimit tz apiKeyID cost = stmt_fault (\<lambda>db.
     let hit = (\<lambda>k. k_id k = apiKeyID \<and> \<not> k_deleted k)
     in if list_ex hit (b_keys db) then
          (Inr (), db\<lparr>b_keys := map (\<lambda>k. if hit k then rate_key tz (b_now db) cost k else k) (b_keys db)\<rparr>)
        else (Inl (AppErr ErrAPIKeyNotFound), db))"

definition coalesce :: "'a option \<Rightarrow> 'a \<Rightarrow> 'a" where
  "coalesce v d = (case v of None \<Rightarrow> d | Some x \<Rightarrow> x)"

text \<open>\<open>dailyExpiredExpr\<close> and \<open>weeklyExpiredExpr\<close>; the epoch is time 0.\<close>

definition dailyExpired :: "gotime \<Rightarrow> quota_extra \<Rightarrow> bool" where
  "dailyExpired now x =
     (if coalesce (x_daily_reset_mode x) ''rolling'' = ''fixed''
      then coalesce (x_daily_reset_at x) 0 \<le> now
      else coalesce (x_daily_start x) 0 + 24 * time_Hour \<le> now)"

definition weeklyExpired :: "gotime \<Rightarrow> quota_extra \<Rightarrow> bool" where
  "weeklyExpired now x =
     (if coalesce (x_weekly_reset_mode x) ''rolling'' = ''fixed''
      then coalesce (x_weekly_reset_at x) 0 \<le> now
      else coalesce (x_weekly_start x) 0 + 168 * time_Hour \<le> now)"

definition charge_extra :: "pg_time \<Rightarrow> gotime \<Rightarrow> rat \<Rightarrow> quota_extra \<Rightarrow> quota_extra" where
  "charge_extra tz now amount x =
     (let x1 = x\<lparr>x_quota_used := Some (coalesce (x_quota_used x) 0 + amount)\<rparr>;
          x2 = (if coalesce (x_daily_limit x) 0 > 0 then
                  x1\<lparr>x_daily_used := Some (if dailyExpired now x then amount
                       else coalesce (x_daily_used x) 0 + amount),
                     x_daily_start := Some (if dailyExpired now x then now
                       else coalesce (x_daily_start x) now),
                     x_daily_reset_at :=
                       (if dailyExpired now x \<and> coalesce (x_daily_reset_mode x) ''rolling'' = ''fixed''
                        then Some (t_next_daily tz x now) else x_daily_reset_at x)\<rparr>
                else x1);
          x3 = (if coalesce (x_weekly_limit x) 0 > 0 then
                  x2\<lparr>x_weekly_used := Some (if weeklyExpired now x then amount
                       else coalesce (x_weekly_used x) 0 + amount),
                     x_weekly_start := Some (if weeklyExpired now x then now
                       else coalesce (x_weekly_start x) now),
                     x_weekly_reset_at :=
                       (if weeklyExpired now x \<and> coalesce (x_weekly_reset_mode x) ''rolling'' = ''fixed''
                        then Some (t_next_weekly tz x now) else x_weekly_reset_at x)\<rparr>
                else x2)
      in x3)"

definition quota_state :: "quota_extra \<Rightarrow> AccountQuotaState" where
  "quota_state x =
     \<lparr>qs_TotalUsed = coalesce (x_quota_used x) 0, qs_TotalLimit = coalesce (x_quota_limit x) 0,
      qs_DailyUsed = coalesce (x_daily_used x) 0, qs_DailyLimit = coalesce (x_daily_limit x) 0,
      qs_WeeklyUsed = coalesce (x_weekly_used x) 0, qs_WeeklyLimit = coalesce (x_weekly_limit x) 0\<rparr>"

definition schedulerOutboxDedupWindow :: duration where "schedulerOutboxDedupWindow = time_Second"

text \<open>\<open>enqueueSchedulerOutbox\<close> for \<open>account_changed\<close>, an event that is deduplicated.\<close>

definition enqueueSchedulerOutbox :: "int \<Rightarrow> unit stmt" where
  "enqueueSchedulerOutbox accountID = stmt_fault (\<lambda>db.
     if list_ex (\<lambda>(ev, a, t). ev = ''account_changed'' \<and> a = accountID \<and>
            b_now db - schedulerOutboxDedupWindow \<le> t) (b_outbox db)
     then (Inr (), db)
     else (Inr (), db\<lparr>b_outbox := b_outbox db @ [(''account_changed'', accountID, b_now db)]\<rparr>))"

definition incrementUsageBillingAccountQuota :: "pg_time \<Rightarrow> int \<Rightarrow> rat \<Rightarrow> AccountQuotaState stmt" where
  "incrementUsageBillingAccountQuota tz accountID amount =
     tx_bind
       (stmt_fault (\<lambda>db.
          let hit = (\<lambda>a. a_id a = accountID \<and> \<not> a_deleted a)
          in case find hit (b_accounts db) of
               None \<Rightarrow> (Inl (AppErr ErrAccountNotFound), db)
             | Some a \<Rightarrow>
                 (Inr (quota_state (charge_extra tz (b_now db) amount (a_extra a))),
                  db\<lparr>b_accounts := map (\<lambda>a. if hit a
                       then a\<lparr>a_extra := charge_extra tz (b_now db) amount (a_extra a)\<rparr> else a)
                     (b_accounts db)\<rparr>)))
       (\<lambda>state.
          if qs_TotalLimit state > 0 \<and> qs_TotalUsed state \<ge> qs_TotalLimit state \<and>
             qs_TotalUsed state - amount < qs_TotalLimit state
          then tx_bind (enqueueSchedulerOutbox accountID) (\<lambda>_. tx_return state)
          else tx_return state)"

definition applyUsageBillingEffects :: "pg_time \<Rightarrow> UsageBillingCommand \<Rightarrow> UsageBillingApplyResult \<Rightarrow>
    UsageBillingApplyResult stmt" where
  "applyUsageBillingEffects tz cmd result =
     tx_bind (case c_SubscriptionID cmd of
                Some sid \<Rightarrow> tx_when (c_SubscriptionCost cmd > 0)
                    (incrementUsageBillingSubscription sid (c_SubscriptionCost cmd)) ()
              | None \<Rightarrow> tx_return ()) (\<lambda>_.
     tx_bind (tx_when (c_BalanceCost cmd > 0)
               (tx_bind (deductUsageBillingBalance (c_UserID cmd) (c_BalanceCost cmd))
                  (\<lambda>newBalance. tx_return (result\<lparr>ar_NewBalance := Some newBalance\<rparr>))) result) (\<lambda>result.
     tx_bind (tx_when (c_APIKeyQuotaCost cmd > 0)
               (tx_bind (incrementUsageBillingAPIKeyQuota (c_APIKeyID cmd) (c_APIKeyQuotaCost cmd))
                  (\<lambda>exhausted. tx_return (result\<lparr>ar_APIKeyQuotaExhausted := exhausted\<rparr>))) result) (\<lambda>result.
     tx_bind (tx_when (c_APIKeyRateLimitCost cmd > 0)
               (incrementUsageBillingAPIKeyRateLimit tz (c_APIKeyID cmd) (c_APIKeyRateLimitCost cmd)) ()) (\<lambda>_.
     tx_when (c_AccountQuotaCost cmd > 0 \<and>
              (EqualFold (c_AccountType cmd) ''apikey'' \<or> EqualFold (c_AccountType cmd) ''bedrock''))
       (tx_bind (incrementUsageBillingAccountQuota tz (c_AccountID cmd) (c_AccountQuotaCost cmd))
          (\<lambda>quotaState. tx_return (result\<lparr>ar_QuotaState := Some quotaState\<rparr>))) result))))"

text \<open>
  \<open>Apply\<close>. \<open>BeginTx\<close> and \<open>Commit\<close> may fail; everything but a commit that takes effect gives the old
  tables back.
\<close>

definition rollback :: "billing_db \<Rightarrow> billing_db \<Rightarrow> billing_db" where
  "rollback old db = old\<lparr>b_faults := b_faults db\<rparr>"

definition Commit :: "billing_db \<Rightarrow> unit stmt" where
  "Commit old db =
     (case b_faults db of
        [] \<Rightarrow> (Inr (), db)
      | None # fs \<Rightarrow> (Inr (), db\<lparr>b_faults := fs\<rparr>)
      | Some (Refused e) # fs \<Rightarrow> (Inl e, rollback old (db\<lparr>b_faults := fs\<rparr>))
      | Some (Unanswered e) # fs \<Rightarrow> (Inl e, db\<lparr>b_faults := fs\<rparr>))"

definition Apply :: "pg_time \<Rightarrow> (string \<Rightarrow> string) \<Rightarrow> UsageBillingCommand option \<Rightarrow>
    UsageBillingApplyResult stmt" where
  "Apply tz sha cmd db =
     (case cmd of
        None \<Rightarrow> (Inr zero_apply_result, db)
      | Some cmd \<Rightarrow>
     let cmd = Normalize sha cmd in
     if c_RequestID cmd = [] then (Inl ErrUsageBillingRequestIDRequired, db)
     else case stmt_fault (tx_return ()) db of
            (Inl err, db0) \<Rightarrow> (Inl err, db0)
          | (Inr _, db0) \<Rightarrow>
     (case claimUsageBillingKey cmd db0 of
        (Inl err, db1) \<Rightarrow> (Inl err, rollback db0 db1)
      | (Inr False, db1) \<Rightarrow> (Inr zero_apply_result, rollback db0 db1)
      | (Inr True, db1) \<Rightarrow>
          (case applyUsageBillingEffects tz cmd (zero_apply_result\<lparr>ar_Applied := True\<rparr>) db1 of
             (Inl err, db2) \<Rightarrow> (Inl err, rollback db0 db2)
           | (Inr result, db2) \<Rightarrow>
               (case Commit db0 db2 of
                  (Inl err, db3) \<Rightarrow> (Inl err, db3)
                | (Inr _, db3) \<Rightarrow> (Inr result, db3)))))"

section \<open>Archiving the keys\<close>

text \<open>One statement of \<open>CleanupUsageBillingDedup\<close>: the number of rows moved.\<close>

definition archive_batch :: "gotime \<Rightarrow> nat \<Rightarrow> nat stmt" where
  "archive_batch cutoff limit = stmt_fault (\<lambda>db.
     let old = (\<lambda>r. d_created_at r < cutoff);
         victims = take limit (filter old (b_dedup db));
         keep = (\<lambda>r. \<not> list_ex (same_key (d_request_id r) (d_api_key_id r)) victims);
         fresh = filter (\<lambda>r. \<not> list_ex (same_key (d_request_id r) (d_api_key_id r)) (b_archive db)) victims
     in (Inr (length victims),
         db\<lparr>b_archive := b_archive db @ fresh, b_dedup := filter keep (b_dedup db)\<rparr>))"

definition usageBillingDedupCleanupBatchSize :: nat where "usageBillingDedupCleanupBatchSize = 10000"

text \<open>The loop of \<open>CleanupUsageBillingDedup\<close>: it goes on while a full batch was moved.\<close>

lemma archive_batch_shrinks:
  assumes "archive_batch cutoff limit db = (Inr n, db1)" "limit \<le> n" "0 < limit"
  shows "length (b_dedup db1) < length (b_dedup db)"
proof -
  let ?v = "take limit (filter (\<lambda>r. d_created_at r < cutoff) (b_dedup db))"
  from assms(1) have n: "n = length ?v" and
    d: "b_dedup db1 = filter (\<lambda>r. \<not> list_ex (same_key (d_request_id r) (d_api_key_id r)) ?v) (b_dedup db)"
    by (auto simp: archive_batch_def stmt_fault_def Let_def split: list.splits option.splits db_fault.splits)
  from n assms(2,3) obtain x where x: "x \<in> set ?v" by (cases ?v) auto
  then have "x \<in> set (b_dedup db)" by (auto dest!: in_set_takeD)
  moreover have "list_ex (same_key (d_request_id x) (d_api_key_id x)) ?v"
    using x by (auto simp: list_ex_iff same_key_def)
  ultimately show ?thesis unfolding d by (intro length_filter_less) auto
qed

function CleanupUsageBillingDedup :: "gotime \<Rightarrow> unit stmt" where
  "CleanupUsageBillingDedup cutoff db =
     (case archive_batch cutoff usageBillingDedupCleanupBatchSize db of
        (Inl err, db1) \<Rightarrow> (Inl err, db1)
      | (Inr affected, db1) \<Rightarrow>
          if affected < usageBillingDedupCleanupBatchSize then (Inr (), db1)
          else CleanupUsageBillingDedup cutoff db1)"
  by pat_completeness auto
termination
  by (relation "measure (\<lambda>(cutoff, db). length (b_dedup db))")
     (auto simp: usageBillingDedupCleanupBatchSize_def dest!: sym [of "(Inr _, _)"] archive_batch_shrinks)

declare CleanupUsageBillingDedup.simps [simp del]

section \<open>Statements that leave the keys alone\<close>

definition keeps_claims :: "'a stmt \<Rightarrow> bool" where
  "keeps_claims m \<longleftrightarrow> (\<forall>db. b_dedup (snd (m db)) = b_dedup db \<and> b_archive (snd (m db)) = b_archive db)"

lemma keeps_bind [intro]:
  assumes "keeps_claims m" "\<And>x. keeps_claims (f x)" shows "keeps_claims (tx_bind m f)"
  unfolding keeps_claims_def
proof
  fix db
  obtain r db1 where m: "m db = (r, db1)" by fastforce
  with assms(1) have "b_dedup db1 = b_dedup db \<and> b_archive db1 = b_archive db"
    unfolding keeps_claims_def by (metis snd_conv)
  then show "b_dedup (snd (tx_bind m f db)) = b_dedup db \<and> b_archive (snd (tx_bind m f db)) = b_archive db"
    using m assms(2) by (cases r) (auto simp: tx_bind_def keeps_claims_def)
qed

lemma keeps_simple [intro, simp]:
  "keeps_claims (tx_return x)" "keeps_claims (tx_fail e)"
  "keeps_claims m \<Longrightarrow> keeps_claims (tx_when c m d)"
  by (simp_all add: keeps_claims_def tx_return_def tx_fail_def tx_when_def)

lemma keeps_fault:
  "(\<And>db. b_dedup (snd (st db)) = b_dedup db \<and> b_archive (snd (st db)) = b_archive db) \<Longrightarrow>
     keeps_claims (stmt_fault st)"
  by (auto simp: keeps_claims_def stmt_fault_def split: list.split option.split db_fault.split)

lemma keeps_effects: "keeps_claims (applyUsageBillingEffects tz cmd result)"
proof -
  have s: "keeps_claims (incrementUsageBillingSubscription i c)" for i c
    unfolding incrementUsageBillingSubscription_def by (rule keeps_fault) (simp add: Let_def)
  have b: "keeps_claims (deductUsageBillingBalance i c)" for i c
    unfolding deductUsageBillingBalance_def by (rule keeps_fault) (simp add: Let_def split: option.split)
  have q: "keeps_claims (incrementUsageBillingAPIKeyQuota i c)" for i c
    unfolding incrementUsageBillingAPIKeyQuota_def by (rule keeps_fault) (simp add: Let_def split: option.split)
  have r: "keeps_claims (incrementUsageBillingAPIKeyRateLimit tz i c)" for i c
    unfolding incrementUsageBillingAPIKeyRateLimit_def by (rule keeps_fault) (simp add: Let_def)
  have o1: "keeps_claims (enqueueSchedulerOutbox i)" for i
    unfolding enqueueSchedulerOutbox_def by (rule keeps_fault) simp
  have a: "keeps_claims (incrementUsageBillingAccountQuota tz i c)" for i c
    unfolding incrementUsageBillingAccountQuota_def
    by (intro keeps_bind keeps_fault) (auto simp: Let_def o1 split: option.split)
  show ?thesis
    unfolding applyUsageBillingEffects_def
    by (intro keeps_bind keeps_simple) (auto simp: s b q r a split: option.split)
qed

text \<open>Statements use the schedule of faults from its front.\<close>

definition uses_faults :: "'a stmt \<Rightarrow> bool" where
  "uses_faults m \<longleftrightarrow> (\<forall>db. set (b_faults (snd (m db))) \<subseteq> set (b_faults db))"

lemma uses_bind [intro]:
  assumes "uses_faults m" "\<And>x. uses_faults (f x)" shows "uses_faults (tx_bind m f)"
  unfolding uses_faults_def
proof
  fix db
  obtain r db1 where m: "m db = (r, db1)" by fastforce
  with assms(1) have "set (b_faults db1) \<subseteq> set (b_faults db)" unfolding uses_faults_def by (metis snd_conv)
  then show "set (b_faults (snd (tx_bind m f db))) \<subseteq> set (b_faults db)"
    using m assms(2) by (cases r) (auto simp: tx_bind_def uses_faults_def)
qed

lemma uses_simple [intro, simp]:
  "uses_faults (tx_return x)" "uses_faults (tx_fail e)"
  "uses_faults m \<Longrightarrow> uses_faults (tx_when c m d)"
  by (simp_all add: uses_faults_def tx_return_def tx_fail_def tx_when_def)

lemma uses_fault:
  "(\<And>db. b_faults (snd (st db)) = b_faults db) \<Longrightarrow> uses_faults (stmt_fault st)"
  by (auto simp: uses_faults_def stmt_fault_def split: list.split option.split db_fault.split)

lemma uses_claim: "uses_faults (claimUsageBillingKey c)"
  unfolding claimUsageBillingKey_def insert_dedup_def select_dedup_def select_archive_def
  by (intro uses_bind uses_fault) (auto intro!: uses_bind uses_fault split: option.split)

lemma uses_effects: "uses_faults (applyUsageBillingEffects tz cmd result)"
proof -
  have s: "uses_faults (incrementUsageBillingSubscription i c)" for i c
    unfolding incrementUsageBillingSubscription_def by (rule uses_fault) (simp add: Let_def)
  have b: "uses_faults (deductUsageBillingBalance i c)" for i c
    unfolding deductUsageBillingBalance_def by (rule uses_fault) (simp add: Let_def split: option.split)
  have q: "uses_faults (incrementUsageBillingAPIKeyQuota i c)" for i c
    unfolding incrementUsageBillingAPIKeyQuota_def by (rule uses_fault) (simp add: Let_def split: option.split)
  have r: "uses_faults (incrementUsageBillingAPIKeyRateLimit tz i c)" for i c
    unfolding incrementUsageBillingAPIKeyRateLimit_def by (rule uses_fault) (simp add: Let_def)
  have o1: "uses_faults (enqueueSchedulerOutbox i)" for i
    unfolding enqueueSchedulerOutbox_def by (rule uses_fault) simp
  have a: "uses_faults (incrementUsageBillingAccountQuota tz i c)" for i c
    unfolding incrementUsageBillingAccountQuota_def
    by (intro uses_bind uses_fault) (auto simp: Let_def o1 split: option.split)
  show ?thesis
    unfolding applyUsageBillingEffects_def
    by (intro uses_bind uses_simple) (auto simp: s b q r a split: option.split)
qed

section \<open>Charged at most once\<close>

definition claimed :: "string \<Rightarrow> int \<Rightarrow> billing_db \<Rightarrow> bool" where
  "claimed rid kid db \<longleftrightarrow>
     list_ex (same_key rid kid) (b_dedup db) \<or> list_ex (same_key rid kid) (b_archive db)"

lemma stmt_fault_cases:
  assumes "stmt_fault st db = (res, db')"
  obtains (fault) e fs where "res = Inl e" "db' = db\<lparr>b_faults := fs\<rparr>"
  | (run) fs where "st (db\<lparr>b_faults := fs\<rparr>) = (res, db')"
  | (unanswered) e r fs where "res = Inl e" "st (db\<lparr>b_faults := fs\<rparr>) = (r, db')"
proof (cases "b_faults db")
  case Nil
  with assms run [of "[]"] show ?thesis by (cases db) (simp add: stmt_fault_def)
next
  case (Cons f fs)
  with assms fault run [of fs] unanswered [of _ fs] show ?thesis
    by (cases f; cases "st (db\<lparr>b_faults := fs\<rparr>)") (auto simp: stmt_fault_def split: db_fault.splits)
qed

lemma commit_cases:
  assumes "Commit old db = (res, db')"
  obtains (committed) "db' = db\<lparr>b_faults := b_faults db'\<rparr>" "res = Inr ()"
  | (refused) e where "db' = rollback old db'" "res = Inl e"
  | (lost) e where "db' = db\<lparr>b_faults := b_faults db'\<rparr>" "res = Inl e" "Some (Unanswered e) \<in> set (b_faults db)"
proof (cases "b_faults db")
  case Nil
  with assms committed show ?thesis by (cases db) (auto simp: Commit_def)
next
  case (Cons f fs)
  with assms committed refused lost show ?thesis
    by (cases f; cases db) (auto simp: Commit_def rollback_def split: db_fault.splits)
qed

lemma claimed_faults [simp]: "claimed rid kid (db\<lparr>b_faults := fs\<rparr>) = claimed rid kid db"
  by (simp add: claimed_def)

lemma begin_tx:
  assumes "stmt_fault (tx_return ()) db = (res, db')"
  shows "db' = db\<lparr>b_faults := b_faults db'\<rparr>" "set (b_faults db') \<subseteq> set (b_faults db)"
  using assms by (auto simp: tx_return_def stmt_fault_def split: list.splits option.splits db_fault.splits)

text \<open>A claim that finds its key taken fails or reports a duplicate.\<close>

lemma claim_taken:
  assumes "claimUsageBillingKey c db = (Inr b, db')" "claimed (c_RequestID c) (c_APIKeyID c) db"
  shows "\<not> b"
proof
  assume b
  obtain r1 db1 where i: "insert_dedup c db = (r1, db1)" by fastforce
  from assms(1) i \<open>b\<close> have "r1 = Inr True"
    by (auto simp: claimUsageBillingKey_def tx_bind_def tx_return_def tx_fail_def
        split: sum.splits if_splits option.splits prod.splits)
  with i have "\<not> list_ex (same_key (c_RequestID c) (c_APIKeyID c)) (b_dedup db)" "b_archive db1 = b_archive db"
    by (auto simp: insert_dedup_def elim!: stmt_fault_cases split: if_splits)
  moreover from assms(1) i \<open>r1 = Inr True\<close> \<open>b\<close>
  have "find (same_key (c_RequestID c) (c_APIKeyID c)) (b_archive db1) = None"
    by (auto simp: claimUsageBillingKey_def tx_bind_def tx_return_def tx_fail_def select_archive_def
        elim!: stmt_fault_cases split: sum.splits if_splits option.splits prod.splits)
  ultimately show False
    using assms(2) by (auto simp: claimed_def list_ex_iff find_None_iff)
qed

lemma claim_won:
  assumes "claimUsageBillingKey c db = (Inr True, db')"
  shows "claimed (c_RequestID c) (c_APIKeyID c) db'"
proof -
  obtain r1 db1 where i: "insert_dedup c db = (r1, db1)" by fastforce
  from assms i have "r1 = Inr True"
    by (auto simp: claimUsageBillingKey_def tx_bind_def tx_return_def tx_fail_def
        split: sum.splits if_splits option.splits prod.splits)
  with i have "list_ex (same_key (c_RequestID c) (c_APIKeyID c)) (b_dedup db1)"
    by (auto simp: insert_dedup_def same_key_def elim!: stmt_fault_cases split: if_splits)
  moreover from assms i \<open>r1 = Inr True\<close> have "b_dedup db' = b_dedup db1"
    by (auto simp: claimUsageBillingKey_def tx_bind_def tx_return_def tx_fail_def select_archive_def
        elim!: stmt_fault_cases split: sum.splits if_splits option.splits prod.splits)
  ultimately show ?thesis by (simp add: claimed_def)
qed

text \<open>\<open>Apply\<close> either leaves every table as it was, or claims the key and commits its effects.\<close>

lemma apply_cases:
  assumes "Apply tz sha (Some cmd0) db = (res, db')"
  obtains (unchanged) "db' = db\<lparr>b_faults := b_faults db'\<rparr>"
      "(\<exists>e. res = Inl e) \<or> res = Inr zero_apply_result"
  | (charged) db0 db1 db2 r where "db0 = db\<lparr>b_faults := b_faults db0\<rparr>"
      "claimUsageBillingKey (Normalize sha cmd0) db0 = (Inr True, db1)"
      "applyUsageBillingEffects tz (Normalize sha cmd0) (zero_apply_result\<lparr>ar_Applied := True\<rparr>) db1 = (Inr r, db2)"
      "db' = db2\<lparr>b_faults := b_faults db'\<rparr>"
      "res = Inr r \<or> (\<exists>e. res = Inl e \<and> Some (Unanswered e) \<in> set (b_faults db))"
proof -
  let ?c = "Normalize sha cmd0"
  obtain r0 db0 where b: "stmt_fault (tx_return ()) db = (r0, db0)" by fastforce
  obtain r1 db1 where cl: "claimUsageBillingKey ?c db0 = (r1, db1)" by fastforce
  obtain r2 db2 where ef: "applyUsageBillingEffects tz ?c (zero_apply_result\<lparr>ar_Applied := True\<rparr>) db1 = (r2, db2)"
    by fastforce
  obtain r3 db3 where co: "Commit db0 db2 = (r3, db3)" by fastforce
  note b0 = begin_tx [OF b]
  have rb: "rollback db0 x = db\<lparr>b_faults := b_faults (rollback db0 x)\<rparr>" for x
    using b0 by (cases db; cases db0) (simp add: rollback_def)
  show ?thesis
  proof (cases "c_RequestID ?c = [] \<or> (\<exists>e. r0 = Inl e) \<or> (\<exists>e. r1 = Inl e) \<or> r1 = Inr False \<or> (\<exists>e. r2 = Inl e)")
    case True
    then have "db' = db\<lparr>b_faults := b_faults db'\<rparr> \<and> ((\<exists>e. res = Inl e) \<or> res = Inr zero_apply_result)"
      using assms b b0 cl ef rb
      by (auto simp: Apply_def Let_def split: if_splits sum.splits bool.splits prod.splits)
    then show ?thesis using unchanged by blast
  next
    case False
    then obtain u r where ok: "r0 = Inr u" "r1 = Inr True" "r2 = Inr r" "c_RequestID ?c \<noteq> []"
      by (cases r0; cases r1; cases r2) auto
    with assms b cl ef co have res: "res = (case r3 of Inl e \<Rightarrow> Inl e | Inr _ \<Rightarrow> Inr r)" "db' = db3"
      by (auto simp: Apply_def Let_def split: sum.splits)
    note charge = charged [OF b0(1) cl [unfolded ok(2)] ef [unfolded ok(3)]]
    have "set (b_faults db2) \<subseteq> set (b_faults db)"
      using b0(2) uses_claim [of ?c] uses_effects [of tz ?c] cl ef unfolding uses_faults_def
      by (metis snd_conv subset_trans)
    from co show ?thesis
    proof (cases rule: commit_cases)
      case (refused e)
      then show ?thesis using unchanged rb [of db3] res by auto
    qed (use charge res \<open>set (b_faults db2) \<subseteq> _\<close> in auto)
  qed
qed

lemma normalize_key [simp]:
  "c_RequestID (Normalize sha c) = TrimSpace (c_RequestID c)"
  "c_APIKeyID (Normalize sha c) = c_APIKeyID c"
  by (simp_all add: Normalize_def Let_def)

lemma apply_claims:
  assumes "Apply tz sha (Some cmd) db = (Inr r, db')" "ar_Applied r"
  shows "claimed (TrimSpace (c_RequestID cmd)) (c_APIKeyID cmd) db'"
  using assms(1)
proof (cases rule: apply_cases)
  case unchanged
  with assms(2) show ?thesis by (auto simp: zero_apply_result_def)
next
  case (charged db0 db1 db2 r)
  from claim_won [OF charged(2)] have "claimed (TrimSpace (c_RequestID cmd)) (c_APIKeyID cmd) db1" by simp
  moreover have "b_dedup db2 = b_dedup db1" "b_archive db2 = b_archive db1"
    using keeps_effects charged(3) unfolding keeps_claims_def by (metis snd_conv)+
  ultimately show ?thesis using charged(4)
    by (cases db'; cases db2) (simp add: claimed_def)
qed

lemma apply_duplicate:
  assumes "Apply tz sha (Some cmd) db = (res, db')"
    "claimed (TrimSpace (c_RequestID cmd)) (c_APIKeyID cmd) db"
  shows "db' = db\<lparr>b_faults := b_faults db'\<rparr> \<and> (\<forall>r. res = Inr r \<longrightarrow> \<not> ar_Applied r)"
  using assms(1)
proof (cases rule: apply_cases)
  case unchanged
  then show ?thesis by (auto simp: zero_apply_result_def)
next
  case (charged db0 db1 db2 r)
  have "claimed (TrimSpace (c_RequestID cmd)) (c_APIKeyID cmd) db0"
    using assms(2) charged(1) by (cases db0; cases db) (simp add: claimed_def)
  with claim_taken [OF charged(2)] show ?thesis by simp
qed

lemma effects_applied:
  "applyUsageBillingEffects tz c r0 db = (Inr r, db') \<Longrightarrow> ar_Applied r = ar_Applied r0"
  by (auto simp: applyUsageBillingEffects_def tx_bind_def tx_when_def tx_return_def split: prod.splits sum.splits if_splits option.splits)

text \<open>A command that is neither refused nor applied finds its key taken.\<close>

lemma claim_not_won:
  assumes "claimUsageBillingKey c db = (Inr False, db')"
  shows "claimed (c_RequestID c) (c_APIKeyID c) db"
  using assms
  by (auto simp: claimUsageBillingKey_def tx_bind_def tx_return_def tx_fail_def select_archive_def
      insert_dedup_def claimed_def list_ex_iff find_Some_iff
      elim!: stmt_fault_cases split: sum.splits if_splits option.splits prod.splits)

lemma apply_unclaimed:
  assumes "Apply tz sha (Some cmd) db = (Inr r, db')" "\<not> ar_Applied r"
  shows "claimed (TrimSpace (c_RequestID cmd)) (c_APIKeyID cmd) db"
proof -
  obtain r0 db0 where b: "stmt_fault (tx_return ()) db = (r0, db0)" by fastforce
  obtain r1 db1 where cl: "claimUsageBillingKey (Normalize sha cmd) db0 = (r1, db1)" by fastforce
  have "r1 = Inr False"
    using assms b cl effects_applied
    by (auto simp: Apply_def Let_def split: if_splits sum.splits bool.splits prod.splits)
  with claim_not_won cl have "claimed (TrimSpace (c_RequestID cmd)) (c_APIKeyID cmd) db0" by fastforce
  then show ?thesis using begin_tx(1) [OF b] by (metis claimed_faults)
qed

text \<open>What else happens to the database: other commands, the archiving of old keys, and any change
  to the other tables, the clock and the faults.\<close>

datatype billing_op =
    BApply "UsageBillingCommand option"
  | BCleanup gotime
  | BOther "billing_db \<Rightarrow> billing_db"

definition billing_step :: "pg_time \<Rightarrow> (string \<Rightarrow> string) \<Rightarrow> billing_op \<Rightarrow> billing_db \<Rightarrow> billing_db" where
  "billing_step tz sha op db =
     (case op of
        BApply cmd \<Rightarrow> snd (Apply tz sha cmd db)
      | BCleanup cutoff \<Rightarrow> snd (CleanupUsageBillingDedup cutoff db)
      | BOther f \<Rightarrow> (f db)\<lparr>b_dedup := b_dedup db, b_archive := b_archive db\<rparr>)"

lemma claim_monotone:
  "claimUsageBillingKey c db = (res, db') \<Longrightarrow> claimed rid kid db \<Longrightarrow> claimed rid kid db'"
  by (auto simp: claimUsageBillingKey_def tx_bind_def tx_return_def tx_fail_def select_archive_def
      select_dedup_def insert_dedup_def claimed_def
      elim!: stmt_fault_cases split: sum.splits if_splits option.splits prod.splits)

lemma archive_monotone:
  assumes "archive_batch cutoff limit db = (res, db')" "claimed rid kid db"
  shows "claimed rid kid db'"
proof (cases "b_dedup db' = b_dedup db \<and> b_archive db' = b_archive db")
  case True
  with assms(2) show ?thesis by (simp add: claimed_def)
next
  case moved: False
  let ?v = "take limit (filter (\<lambda>r. d_created_at r < cutoff) (b_dedup db))"
  have d: "b_dedup db' = filter (\<lambda>r. \<not> list_ex (same_key (d_request_id r) (d_api_key_id r)) ?v) (b_dedup db)"
    and a: "b_archive db' = b_archive db @ filter (\<lambda>r. \<not> list_ex (same_key (d_request_id r) (d_api_key_id r)) (b_archive db)) ?v"
    using assms(1) moved by (auto simp: archive_batch_def Let_def elim!: stmt_fault_cases)
  show ?thesis
  proof (cases "list_ex (same_key rid kid) (b_archive db)")
    case True
    then show ?thesis by (simp add: claimed_def a)
  next
    case False
    with assms(2) obtain x where x: "x \<in> set (b_dedup db)" "same_key rid kid x"
      by (auto simp: claimed_def list_ex_iff)
    show ?thesis
    proof (cases "list_ex (same_key rid kid) ?v")
      case True
      then obtain y where "y \<in> set ?v" "same_key rid kid y" by (auto simp: list_ex_iff)
      with False show ?thesis by (auto simp: claimed_def a list_ex_iff same_key_def)
    next
      case F: False
      with x show ?thesis by (auto simp: claimed_def d list_ex_iff same_key_def)
    qed
  qed
qed

lemma cleanup_monotone: "claimed rid kid db \<Longrightarrow> claimed rid kid (snd (CleanupUsageBillingDedup cutoff db))"
proof (induction cutoff db rule: CleanupUsageBillingDedup.induct)
  case (1 cutoff db)
  obtain res db1 where a: "archive_batch cutoff usageBillingDedupCleanupBatchSize db = (res, db1)" by fastforce
  from archive_monotone [OF a 1(2)] 1(1) a show ?case
    by (cases res) (auto simp: CleanupUsageBillingDedup.simps [of cutoff db])
qed

lemma billing_step_monotone: "claimed rid kid db \<Longrightarrow> claimed rid kid (billing_step tz sha op db)"
proof (cases op)
  case (BApply cmd)
  assume c: "claimed rid kid db"
  show ?thesis
  proof (cases cmd)
    case None
    with BApply c show ?thesis by (simp add: billing_step_def Apply_def)
  next
    case (Some cmd0)
    obtain res db' where ap: "Apply tz sha (Some cmd0) db = (res, db')" by fastforce
    then have "claimed rid kid db'"
    proof (cases rule: apply_cases)
      case unchanged
      with c show ?thesis by (metis claimed_faults)
    next
      case (charged db0 db1 db2 r)
      have "claimed rid kid db0" using c charged(1) by (metis claimed_faults)
      from claim_monotone [OF charged(2) this] have "claimed rid kid db1" .
      moreover have "b_dedup db2 = b_dedup db1" "b_archive db2 = b_archive db1"
        using keeps_effects charged(3) unfolding keeps_claims_def by (metis snd_conv)+
      ultimately have "claimed rid kid db2" by (simp add: claimed_def)
      with charged(4) show ?thesis by (metis claimed_faults)
    qed
    with BApply Some ap show ?thesis by (simp add: billing_step_def)
  qed
next
  case (BCleanup cutoff)
  assume "claimed rid kid db"
  with BCleanup show ?thesis by (simp add: billing_step_def cleanup_monotone)
qed (simp add: billing_step_def claimed_def)

lemma claimed_kept: "claimed rid kid db \<Longrightarrow> claimed rid kid (fold (billing_step tz sha) ops db)"
  by (induction ops arbitrary: db) (auto intro: billing_step_monotone)

text \<open>(C2) A request is charged at most once. After a command was applied, no command with the same
  request id and API key is ever applied again, however much later: other commands, faults,
  changes to the other tables, and the archiving of old keys in between do not matter. The
  duplicate leaves every table unchanged.\<close>

theorem charged_at_most_once:
  assumes "Apply tz sha (Some cmd) db = (Inr r, db1)" "ar_Applied r"
    and "TrimSpace (c_RequestID cmd2) = TrimSpace (c_RequestID cmd)" "c_APIKeyID cmd2 = c_APIKeyID cmd"
    and "Apply tz sha (Some cmd2) (fold (billing_step tz sha) ops db1) = (res, db3)"
  shows "db3 = (fold (billing_step tz sha) ops db1)\<lparr>b_faults := b_faults db3\<rparr> \<and>
    (\<forall>r2. res = Inr r2 \<longrightarrow> \<not> ar_Applied r2)"
proof -
  have "claimed (TrimSpace (c_RequestID cmd)) (c_APIKeyID cmd) (fold (billing_step tz sha) ops db1)"
    by (rule claimed_kept) (rule apply_claims [OF assms(1,2)])
  with apply_duplicate [OF assms(5)] assms(3,4) show ?thesis by simp
qed

section \<open>What a charge does\<close>

text \<open>The charge of one row of each table.\<close>

definition user_charge :: "UsageBillingCommand \<Rightarrow> user_row \<Rightarrow> user_row" where
  "user_charge c u =
     (if c_BalanceCost c > 0 \<and> u_id u = c_UserID c \<and> \<not> u_deleted u
      then u\<lparr>u_balance := u_balance u - c_BalanceCost c\<rparr> else u)"

definition sub_charge :: "UsageBillingCommand \<Rightarrow> group_row list \<Rightarrow> sub_row \<Rightarrow> sub_row" where
  "sub_charge c groups us =
     (if c_SubscriptionCost c > 0 \<and> c_SubscriptionID c = Some (s_id us) \<and> \<not> s_deleted us \<and>
         list_ex (\<lambda>g. g_id g = s_group_id us \<and> \<not> g_deleted g) groups
      then us\<lparr>s_daily_usage := s_daily_usage us + c_SubscriptionCost c,
              s_weekly_usage := s_weekly_usage us + c_SubscriptionCost c,
              s_monthly_usage := s_monthly_usage us + c_SubscriptionCost c\<rparr>
      else us)"

definition key_charge :: "pg_time \<Rightarrow> gotime \<Rightarrow> UsageBillingCommand \<Rightarrow> key_row \<Rightarrow> key_row" where
  "key_charge tz now c k =
     (if k_id k = c_APIKeyID c \<and> \<not> k_deleted k then
        (let k1 = (if c_APIKeyQuotaCost c > 0 then charge_key (c_APIKeyQuotaCost c) k else k)
         in if c_APIKeyRateLimitCost c > 0 then rate_key tz now (c_APIKeyRateLimitCost c) k1 else k1)
      else k)"

definition account_charge :: "pg_time \<Rightarrow> gotime \<Rightarrow> UsageBillingCommand \<Rightarrow> account_row \<Rightarrow> account_row" where
  "account_charge tz now c a =
     (if c_AccountQuotaCost c > 0 \<and>
         (EqualFold (c_AccountType c) ''apikey'' \<or> EqualFold (c_AccountType c) ''bedrock'') \<and>
         a_id a = c_AccountID c \<and> \<not> a_deleted a
      then a\<lparr>a_extra := charge_extra tz now (c_AccountQuotaCost c) (a_extra a)\<rparr> else a)"

lemma tx_bind_Inr:
  assumes "tx_bind m f db = (Inr y, db')"
  obtains x db1 where "m db = (Inr x, db1)" "f x db1 = (Inr y, db')"
  using assms by (auto simp: tx_bind_def split: prod.splits sum.splits)

text \<open>The tables that a charge reads and writes.\<close>

definition tables :: "billing_db \<Rightarrow>
    user_row list \<times> group_row list \<times> sub_row list \<times> key_row list \<times> account_row list \<times> gotime" where
  "tables db = (b_users db, b_groups db, b_subs db, b_keys db, b_accounts db, b_now db)"

lemma tables_faults [simp]: "tables (db\<lparr>b_faults := fs\<rparr>) = tables db"
  by (simp add: tables_def)

lemma sub_effect:
  assumes "(case c_SubscriptionID c of
        Some sid \<Rightarrow> tx_when (c_SubscriptionCost c > 0)
            (incrementUsageBillingSubscription sid (c_SubscriptionCost c)) ()
      | None \<Rightarrow> tx_return ()) db = (Inr u, db')"
  shows "tables db' = (b_users db, b_groups db, map (sub_charge c (b_groups db)) (b_subs db), b_keys db,
    b_accounts db, b_now db)"
  using assms
  by (auto simp: tx_when_def tx_return_def incrementUsageBillingSubscription_def tables_def
      sub_charge_def Let_def elim!: stmt_fault_cases split: option.splits if_splits intro!: map_idI [symmetric])

lemma balance_effect:
  assumes "tx_when (c_BalanceCost c > 0)
      (tx_bind (deductUsageBillingBalance (c_UserID c) (c_BalanceCost c))
         (\<lambda>newBalance. tx_return (result\<lparr>ar_NewBalance := Some newBalance\<rparr>))) result db = (Inr r, db')"
  shows "tables db' = (map (user_charge c) (b_users db), b_groups db, b_subs db, b_keys db, b_accounts db, b_now db)"
    "c_BalanceCost c > 0 \<longrightarrow> (\<exists>u \<in> set (b_users db). u_id u = c_UserID c \<and> \<not> u_deleted u \<and>
       ar_NewBalance r = Some (u_balance u - c_BalanceCost c))"
  using assms
  by (auto simp: tx_when_def tx_return_def deductUsageBillingBalance_def tables_def find_Some_iff
      user_charge_def Let_def elim!: stmt_fault_cases tx_bind_Inr split: option.splits if_splits
      intro!: map_idI [symmetric]) (metis nth_mem)

lemma quota_effect:
  assumes "tx_when (c_APIKeyQuotaCost c > 0)
      (tx_bind (incrementUsageBillingAPIKeyQuota (c_APIKeyID c) (c_APIKeyQuotaCost c))
         (\<lambda>exhausted. tx_return (result\<lparr>ar_APIKeyQuotaExhausted := exhausted\<rparr>))) result db = (Inr r, db')"
  shows "tables db' = (b_users db, b_groups db, b_subs db,
      map (\<lambda>k. if k_id k = c_APIKeyID c \<and> \<not> k_deleted k \<and> c_APIKeyQuotaCost c > 0
               then charge_key (c_APIKeyQuotaCost c) k else k) (b_keys db), b_accounts db, b_now db) \<and>
    ar_NewBalance r = ar_NewBalance result"
  using assms
  by (auto simp: tx_when_def tx_return_def incrementUsageBillingAPIKeyQuota_def tables_def
      Let_def elim!: stmt_fault_cases tx_bind_Inr split: option.splits if_splits intro!: map_idI)

lemma rate_effect:
  assumes "tx_when (c_APIKeyRateLimitCost c > 0)
      (incrementUsageBillingAPIKeyRateLimit tz (c_APIKeyID c) (c_APIKeyRateLimitCost c)) () db = (Inr u, db')"
  shows "tables db' = (b_users db, b_groups db, b_subs db,
      map (\<lambda>k. if k_id k = c_APIKeyID c \<and> \<not> k_deleted k \<and> c_APIKeyRateLimitCost c > 0
               then rate_key tz (b_now db) (c_APIKeyRateLimitCost c) k else k) (b_keys db),
      b_accounts db, b_now db)"
  using assms
  by (auto simp: tx_when_def tx_return_def incrementUsageBillingAPIKeyRateLimit_def tables_def
      Let_def elim!: stmt_fault_cases split: if_splits intro!: map_idI)

lemma outbox_effect: "enqueueSchedulerOutbox i db = (r, db') \<Longrightarrow> tables db' = tables db"
  by (auto simp: enqueueSchedulerOutbox_def tables_def elim!: stmt_fault_cases split: if_splits)

lemma account_effect:
  assumes "tx_when (c_AccountQuotaCost c > 0 \<and>
              (EqualFold (c_AccountType c) ''apikey'' \<or> EqualFold (c_AccountType c) ''bedrock''))
       (tx_bind (incrementUsageBillingAccountQuota tz (c_AccountID c) (c_AccountQuotaCost c))
          (\<lambda>quotaState. tx_return (result\<lparr>ar_QuotaState := Some quotaState\<rparr>))) result db = (Inr r, db')"
  shows "tables db' = (b_users db, b_groups db, b_subs db, b_keys db,
      map (account_charge tz (b_now db) c) (b_accounts db), b_now db) \<and> ar_NewBalance r = ar_NewBalance result"
proof (cases "c_AccountQuotaCost c > 0 \<and>
      (EqualFold (c_AccountType c) ''apikey'' \<or> EqualFold (c_AccountType c) ''bedrock'')")
  case False
  with assms have "db' = db" "r = result" by (auto simp: tx_when_def tx_return_def)
  moreover from False have "account_charge tz now c = id" for now
    unfolding account_charge_def id_def by auto
  ultimately show ?thesis by (simp add: tables_def)
next
  case True
  with assms have "tx_bind (incrementUsageBillingAccountQuota tz (c_AccountID c) (c_AccountQuotaCost c))
      (\<lambda>quotaState. tx_return (result\<lparr>ar_QuotaState := Some quotaState\<rparr>)) db = (Inr r, db')"
    by (auto simp: tx_when_def)
  then obtain q where q: "incrementUsageBillingAccountQuota tz (c_AccountID c) (c_AccountQuotaCost c) db = (Inr q, db')"
    and r: "r = result\<lparr>ar_QuotaState := Some q\<rparr>" by (auto elim!: tx_bind_Inr simp: tx_return_def)
  have ac: "account_charge tz now c = (\<lambda>a. if a_id a = c_AccountID c \<and> \<not> a_deleted a
      then a\<lparr>a_extra := charge_extra tz now (c_AccountQuotaCost c) (a_extra a)\<rparr> else a)" for now
    using True unfolding account_charge_def by auto
  from q have "tables db' = (b_users db, b_groups db, b_subs db, b_keys db,
      map (account_charge tz (b_now db) c) (b_accounts db), b_now db)"
    unfolding incrementUsageBillingAccountQuota_def ac
    by (auto elim!: tx_bind_Inr stmt_fault_cases simp: tx_return_def tables_def Let_def
        dest!: outbox_effect split: option.splits if_splits)
  with r show ?thesis by simp
qed

lemma effects_tables:
  assumes "applyUsageBillingEffects tz c result db = (Inr r, db')"
  shows "tables db' = (map (user_charge c) (b_users db), b_groups db, map (sub_charge c (b_groups db)) (b_subs db),
      map (key_charge tz (b_now db) c) (b_keys db), map (account_charge tz (b_now db) c) (b_accounts db), b_now db)
    \<and> (c_BalanceCost c > 0 \<longrightarrow> (\<exists>u \<in> set (b_users db). u_id u = c_UserID c \<and> \<not> u_deleted u \<and>
       ar_NewBalance r = Some (u_balance u - c_BalanceCost c)))"
proof -
  from assms obtain u1 d1 r2 d2 r3 d3 u4 d4 where
    s1: "(case c_SubscriptionID c of
        Some sid \<Rightarrow> tx_when (c_SubscriptionCost c > 0)
            (incrementUsageBillingSubscription sid (c_SubscriptionCost c)) ()
      | None \<Rightarrow> tx_return ()) db = (Inr u1, d1)" and
    s2: "tx_when (c_BalanceCost c > 0)
      (tx_bind (deductUsageBillingBalance (c_UserID c) (c_BalanceCost c))
         (\<lambda>newBalance. tx_return (result\<lparr>ar_NewBalance := Some newBalance\<rparr>))) result d1 = (Inr r2, d2)" and
    s3: "tx_when (c_APIKeyQuotaCost c > 0)
      (tx_bind (incrementUsageBillingAPIKeyQuota (c_APIKeyID c) (c_APIKeyQuotaCost c))
         (\<lambda>exhausted. tx_return (r2\<lparr>ar_APIKeyQuotaExhausted := exhausted\<rparr>))) r2 d2 = (Inr r3, d3)" and
    s4: "tx_when (c_APIKeyRateLimitCost c > 0)
      (incrementUsageBillingAPIKeyRateLimit tz (c_APIKeyID c) (c_APIKeyRateLimitCost c)) () d3 = (Inr u4, d4)" and
    s5: "tx_when (c_AccountQuotaCost c > 0 \<and>
              (EqualFold (c_AccountType c) ''apikey'' \<or> EqualFold (c_AccountType c) ''bedrock''))
       (tx_bind (incrementUsageBillingAccountQuota tz (c_AccountID c) (c_AccountQuotaCost c))
          (\<lambda>quotaState. tx_return (r3\<lparr>ar_QuotaState := Some quotaState\<rparr>))) r3 d4 = (Inr r, db')"
    unfolding applyUsageBillingEffects_def by (elim tx_bind_Inr) blast
  note t = sub_effect [OF s1] balance_effect(1) [OF s2] quota_effect [OF s3] rate_effect [OF s4]
    account_effect [OF s5]
  have "ar_NewBalance r = ar_NewBalance r2" using t by simp
  moreover have "b_users d1 = b_users db" using t(1) by (simp add: tables_def)
  moreover have "map (\<lambda>k. if k_id k = c_APIKeyID c \<and> \<not> k_deleted k \<and> c_APIKeyRateLimitCost c > 0
        then rate_key tz now (c_APIKeyRateLimitCost c) k else k)
      (map (\<lambda>k. if k_id k = c_APIKeyID c \<and> \<not> k_deleted k \<and> c_APIKeyQuotaCost c > 0
         then charge_key (c_APIKeyQuotaCost c) k else k) ks) = map (key_charge tz now c) ks" for now ks
    by (auto simp: key_charge_def charge_key_def Let_def)
  ultimately show ?thesis using t balance_effect(2) [OF s2] by (simp add: tables_def)
qed

lemma claim_tables: "claimUsageBillingKey c db = (res, db') \<Longrightarrow> tables db' = tables db"
  by (auto simp: claimUsageBillingKey_def tx_bind_def tx_return_def tx_fail_def select_archive_def
      select_dedup_def insert_dedup_def tables_def
      elim!: stmt_fault_cases split: sum.splits if_splits option.splits prod.splits)

definition charged_tables :: "pg_time \<Rightarrow> UsageBillingCommand \<Rightarrow> billing_db \<Rightarrow>
    user_row list \<times> group_row list \<times> sub_row list \<times> key_row list \<times> account_row list \<times> gotime" where
  "charged_tables tz c db =
     (map (user_charge c) (b_users db), b_groups db, map (sub_charge c (b_groups db)) (b_subs db),
      map (key_charge tz (b_now db) c) (b_keys db), map (account_charge tz (b_now db) c) (b_accounts db), b_now db)"

lemma claimed_charge:
  assumes "db0 = db\<lparr>b_faults := b_faults db0\<rparr>" "claimUsageBillingKey c db0 = (Inr True, db1)"
    "applyUsageBillingEffects tz c r0 db1 = (Inr r, db2)" "db' = db2\<lparr>b_faults := b_faults db'\<rparr>"
  shows "tables db' = charged_tables tz c db"
    "c_BalanceCost c > 0 \<longrightarrow> (\<exists>u \<in> set (b_users db). u_id u = c_UserID c \<and> \<not> u_deleted u \<and>
       ar_NewBalance r = Some (u_balance u - c_BalanceCost c))"
    "claimed (c_RequestID c) (c_APIKeyID c) db'"
proof -
  have t: "tables db1 = tables db" using claim_tables [OF assms(2)] assms(1) by (metis tables_faults)
  have t': "tables db' = tables db2" using assms(4) by (metis tables_faults)
  show "tables db' = charged_tables tz c db"
    "c_BalanceCost c > 0 \<longrightarrow> (\<exists>u \<in> set (b_users db). u_id u = c_UserID c \<and> \<not> u_deleted u \<and>
       ar_NewBalance r = Some (u_balance u - c_BalanceCost c))"
    using effects_tables [OF assms(3)] t t' by (simp_all add: tables_def charged_tables_def)
  have "b_dedup db2 = b_dedup db1" "b_archive db2 = b_archive db1"
    using keeps_effects assms(3) unfolding keeps_claims_def by (metis snd_conv)+
  then show "claimed (c_RequestID c) (c_APIKeyID c) db'"
    using claim_won [OF assms(2)] assms(4) by (cases db'; cases db2) (simp add: claimed_def)
qed

text \<open>\<open>Apply\<close> charges and claims, or it changes no table; an error with a charge is a lost answer.\<close>

lemma apply_effect:
  assumes "Apply tz sha (Some cmd) db = (res, db')"
  obtains (kept) "db' = db\<lparr>b_faults := b_faults db'\<rparr>" "(\<exists>e. res = Inl e) \<or> res = Inr zero_apply_result"
  | (charge) "tables db' = charged_tables tz (Normalize sha cmd) db"
      "claimed (TrimSpace (c_RequestID cmd)) (c_APIKeyID cmd) db'"
      "(\<exists>r. res = Inr r \<and> ar_Applied r \<and> (c_BalanceCost (Normalize sha cmd) > 0 \<longrightarrow>
          (\<exists>u \<in> set (b_users db). u_id u = c_UserID (Normalize sha cmd) \<and> \<not> u_deleted u \<and>
             ar_NewBalance r = Some (u_balance u - c_BalanceCost (Normalize sha cmd))))) \<or>
        (\<exists>e. res = Inl e \<and> Some (Unanswered e) \<in> set (b_faults db))"
  using assms
proof (cases rule: apply_cases)
  case unchanged
  then show thesis by (rule kept)
next
  case (charged db0 db1 db2 r)
  show thesis
    by (rule charge) (use claimed_charge [OF charged(1-4)] charged(5) effects_applied [OF charged(3)] in auto)
qed

lemma apply_tables:
  assumes "Apply tz sha (Some cmd) db = (Inr r, db')" "ar_Applied r"
  shows "let c = Normalize sha cmd in
    tables db' = (map (user_charge c) (b_users db), b_groups db, map (sub_charge c (b_groups db)) (b_subs db),
      map (key_charge tz (b_now db) c) (b_keys db), map (account_charge tz (b_now db) c) (b_accounts db), b_now db)
    \<and> (c_BalanceCost c > 0 \<longrightarrow> (\<exists>u \<in> set (b_users db). u_id u = c_UserID c \<and> \<not> u_deleted u \<and>
       ar_NewBalance r = Some (u_balance u - c_BalanceCost c)))"
  using assms(1)
proof (cases rule: apply_effect)
  case kept
  with assms(2) show ?thesis by (auto simp: zero_apply_result_def)
next
  case charge
  then show ?thesis by (simp add: charged_tables_def Let_def)
qed

text \<open>
  (C28) A charge is all or nothing, also when it fails. When \<open>Apply\<close> reports an error (a user, key,
  subscription or account is missing, a statement fails, the commit fails), then either no table has
  changed: not the balance, not the quotas, and not the key, so that the request can be charged by a
  retry; or the error is a lost answer, and then every part of the charge is in the tables, and the key
  is taken: a retry, however much later, charges nothing more.
\<close>

theorem failed_charge_all_or_nothing:
  assumes "Apply tz sha (Some cmd) db = (Inl e, db')"
  shows "db' = db\<lparr>b_faults := b_faults db'\<rparr> \<or>
    Some (Unanswered e) \<in> set (b_faults db) \<and> tables db' = charged_tables tz (Normalize sha cmd) db \<and>
    (\<forall>ops cmd2. TrimSpace (c_RequestID cmd2) = TrimSpace (c_RequestID cmd) \<and> c_APIKeyID cmd2 = c_APIKeyID cmd \<longrightarrow>
       (let db2 = fold (billing_step tz sha) ops db'; (res, db3) = Apply tz sha (Some cmd2) db2
        in db3 = db2\<lparr>b_faults := b_faults db3\<rparr> \<and> (\<forall>r. res = Inr r \<longrightarrow> \<not> ar_Applied r)))"
  using assms
proof (cases rule: apply_effect)
  case charge
  have "db3 = db2\<lparr>b_faults := b_faults db3\<rparr> \<and> (\<forall>r. res = Inr r \<longrightarrow> \<not> ar_Applied r)"
    if "TrimSpace (c_RequestID cmd2) = TrimSpace (c_RequestID cmd)" "c_APIKeyID cmd2 = c_APIKeyID cmd"
      "db2 = fold (billing_step tz sha) ops db'" "Apply tz sha (Some cmd2) db2 = (res, db3)" for ops cmd2 db2 res db3
    using apply_duplicate [OF that(4)] claimed_kept [OF charge(2)] that(1-3) by simp
  with charge(1,3) show ?thesis by (auto simp: Let_def split: prod.splits)
qed simp

text \<open>(C31) A charge commits all its parts together, and nothing else. When \<open>Apply\<close> reports the command
  as applied, the user's balance is reduced by the balance cost, the subscription's three usage
  counters and the API key's quota and rate windows are increased, and the account's quota is
  increased if it is of a type with quota, each exactly once; every other row is as before. The
  balance it reports is the user's new balance.\<close>

theorem charge_commits_all:
  assumes "Apply tz sha (Some cmd) db = (Inr r, db')" "ar_Applied r"
  shows "let c = Normalize sha cmd in
    tables db' = (map (user_charge c) (b_users db), b_groups db, map (sub_charge c (b_groups db)) (b_subs db),
      map (key_charge tz (b_now db) c) (b_keys db), map (account_charge tz (b_now db) c) (b_accounts db), b_now db)
    \<and> (c_BalanceCost c > 0 \<longrightarrow> (\<exists>u \<in> set (b_users db). u_id u = c_UserID c \<and> \<not> u_deleted u \<and>
       ar_NewBalance r = Some (u_balance u - c_BalanceCost c)))"
  by (rule apply_tables [OF assms])

text \<open>The signals of a sequence of charges to one key: what \<open>incrementUsageBillingAPIKeyQuota\<close>
  returns for each.\<close>

fun quota_signals :: "rat list \<Rightarrow> key_row \<Rightarrow> bool list" where
  "quota_signals [] k = []"
| "quota_signals (a # as) k = quota_signal a k # quota_signals as (charge_key a k)"

lemma quota_signals_over:
  "\<forall>a \<in> set as. 0 < a \<Longrightarrow> k_quota k \<le> k_quota_used k \<Longrightarrow> filter (\<lambda>b. b) (quota_signals as k) = []"
  by (induction as arbitrary: k) (auto simp: quota_signal_def charge_key_def Let_def)

text \<open>Exhausting an API key's quota is signalled exactly once. Over any sequence of positive
  charges to an active key that is below its quota, the quota is reported as exhausted at most
  once, and it is reported, with the key's status set to exhausted, exactly when the charges reach
  the quota.\<close>

theorem quota_exhausted_once:
  assumes "\<forall>a \<in> set amounts. 0 < a" "0 < k_quota k" "k_quota_used k < k_quota k"
    "k_status k = StatusAPIKeyActive"
  shows "length (filter (\<lambda>b. b) (quota_signals amounts k)) =
      (if k_quota k \<le> k_quota_used k + sum_list amounts then 1 else 0) \<and>
    k_status (fold charge_key amounts k) =
      (if k_quota k \<le> k_quota_used k + sum_list amounts then StatusAPIKeyQuotaExhausted
       else StatusAPIKeyActive)"
  using assms
proof (induction amounts arbitrary: k)
  case (Cons a as)
  show ?case
  proof (cases "k_quota k \<le> k_quota_used k + a")
    case True
    have st: "k_status (fold charge_key as k') = StatusAPIKeyQuotaExhausted"
      if "k_status k' = StatusAPIKeyQuotaExhausted" for k'
      using that by (induction as arbitrary: k')
        (auto simp: charge_key_def StatusAPIKeyQuotaExhausted_def StatusAPIKeyActive_def)
    have "filter (\<lambda>b. b) (quota_signals as (charge_key a k)) = []"
      by (rule quota_signals_over) (use Cons.prems True in \<open>auto simp: charge_key_def\<close>)
    moreover have "quota_signal a k" using Cons.prems True by (simp add: quota_signal_def charge_key_def Let_def)
    moreover have "k_status (charge_key a k) = StatusAPIKeyQuotaExhausted"
      using Cons.prems True by (simp add: charge_key_def)
    moreover have "0 \<le> sum_list as" using Cons.prems(1) by (intro sum_list_nonneg) auto
    ultimately show ?thesis using True by (simp add: st)
  next
    case False
    then have "\<not> quota_signal a k" by (auto simp: quota_signal_def charge_key_def Let_def)
    moreover have "k_quota (charge_key a k) = k_quota k" "k_quota_used (charge_key a k) = k_quota_used k + a"
      "k_status (charge_key a k) = StatusAPIKeyActive"
      using Cons.prems False by (simp_all add: charge_key_def)
    ultimately show ?thesis using Cons.IH [of "charge_key a k"] Cons.prems False
      by (simp add: add.assoc)
  qed
qed simp

section \<open>A concrete instance\<close>

definition demo_tz :: pg_time where
  "demo_tz = \<lparr>t_trunc_day = id, t_next_daily = (\<lambda>_ t. t), t_next_weekly = (\<lambda>_ t. t)\<rparr>"

definition demo_cmd :: "int \<Rightarrow> UsageBillingCommand" where
  "demo_cmd user = \<lparr>c_RequestID = ''r'', c_APIKeyID = 2, c_RequestFingerprint = ''f'', c_RequestPayloadHash = [],
     c_UserID = user, c_AccountID = 3, c_SubscriptionID = None, c_AccountType = [], c_Model = [],
     c_ServiceTier = [], c_ReasoningEffort = [], c_BillingType = 0, c_InputTokens = 1, c_OutputTokens = 1,
     c_CacheCreationTokens = 0, c_CacheReadTokens = 0, c_ImageCount = 0, c_MediaType = [],
     c_BalanceCost = 5, c_SubscriptionCost = 0, c_APIKeyQuotaCost = 0, c_APIKeyRateLimitCost = 0,
     c_AccountQuotaCost = 0\<rparr>"

definition demo_billing :: billing_db where
  "demo_billing = \<lparr>b_dedup = [], b_archive = [], b_users = [\<lparr>u_id = 1, u_balance = 20, u_deleted = False\<rparr>],
     b_groups = [], b_subs = [], b_keys = [], b_accounts = [], b_outbox = [], b_now = 100, b_faults = []\<rparr>"

lemma demo_normal: "Normalize id (demo_cmd u) = demo_cmd u" "TrimSpace ''r'' = ''r''"
proof -
  show r: "TrimSpace ''r'' = ''r''" by (rule TrimSpace_graphic) (simp add: graphic_def)
  have "TrimSpace ''f'' = ''f''" by (rule TrimSpace_graphic) (simp add: graphic_def)
  with r show "Normalize id (demo_cmd u) = demo_cmd u" by (simp add: Normalize_def demo_cmd_def)
qed

lemmas demo_apply_simps = Apply_def demo_normal stmt_fault_def tx_return_def claimUsageBillingKey_def
  tx_bind_def insert_dedup_def select_archive_def applyUsageBillingEffects_def tx_when_def
  deductUsageBillingBalance_def demo_cmd_def demo_billing_def Let_def zero_apply_result_def rollback_def Commit_def

lemma demo_applied:
  "\<exists>db1. Apply demo_tz id (Some (demo_cmd 1)) demo_billing =
     (Inr (zero_apply_result\<lparr>ar_Applied := True, ar_NewBalance := Some 15\<rparr>), db1)"
  using demo_normal by (simp add: demo_apply_simps)

theorem charged_at_most_once_witness:
  "\<exists>r db1 db2 r2 db3. Apply demo_tz id (Some (demo_cmd 1)) demo_billing = (Inr r, db1) \<and> ar_Applied r \<and>
     billing_step demo_tz id (BCleanup 200) db1 = db2 \<and>
     Apply demo_tz id (Some (demo_cmd 1)) db2 = (r2, db3) \<and> db3 = db2\<lparr>b_faults := b_faults db3\<rparr>"
proof -
  obtain db1 where a: "Apply demo_tz id (Some (demo_cmd 1)) demo_billing =
      (Inr (zero_apply_result\<lparr>ar_Applied := True, ar_NewBalance := Some 15\<rparr>), db1)" using demo_applied by blast
  obtain r2 db3 where b: "Apply demo_tz id (Some (demo_cmd 1))
      (fold (billing_step demo_tz id) [BCleanup 200] db1) = (r2, db3)" by fastforce
  from charged_at_most_once [OF a _ refl refl b] a b show ?thesis by (fastforce simp: zero_apply_result_def)
qed

lemma users_faults: "b_users (db\<lparr>b_faults := fs\<rparr>) = b_users db" by simp

lemma demo_users: "b_users (demo_billing\<lparr>b_faults := fs\<rparr>\<lparr>b_faults := gs\<rparr>) \<noteq> [\<lparr>u_id = 1, u_balance = 15, u_deleted = False\<rparr>]"
  by (simp add: demo_billing_def)

text \<open>A commit whose answer is lost: everything is charged, and a retry finds the key taken.\<close>

theorem failed_charge_all_or_nothing_witness:
  "\<exists>e db' r db2. Apply demo_tz id (Some (demo_cmd 1)) (demo_billing\<lparr>b_faults := [None, None, None, None, Some (Unanswered sql_ErrNoRows)]\<rparr>) =
       (Inl e, db') \<and> b_users db' = [\<lparr>u_id = 1, u_balance = 15, u_deleted = False\<rparr>] \<and>
     Apply demo_tz id (Some (demo_cmd 1)) db' = (r, db2) \<and> b_users db2 = b_users db'"
proof -
  let ?db = "demo_billing\<lparr>b_faults := [None, None, None, None, Some (Unanswered sql_ErrNoRows)]\<rparr>"
  obtain e db' where a: "Apply demo_tz id (Some (demo_cmd 1)) ?db = (Inl e, db')"
    "b_users db' = [\<lparr>u_id = 1, u_balance = 15, u_deleted = False\<rparr>]"
    using demo_normal by (simp add: demo_apply_simps)
  then have "db' \<noteq> ?db\<lparr>b_faults := b_faults db'\<rparr>" by (metis demo_users)
  obtain r db2 where b: "Apply demo_tz id (Some (demo_cmd 1)) db' = (r, db2)" by fastforce
  from failed_charge_all_or_nothing [OF a(1)] \<open>db' \<noteq> _\<close> have "db2 = db'\<lparr>b_faults := b_faults db2\<rparr>"
    by (elim disjE conjE allE [of _ "[]"] allE [of _ "demo_cmd 1"]) (auto simp: b)
  then have "b_users db2 = b_users db'" by (metis users_faults)
  with a b show ?thesis by blast
qed

theorem charge_commits_all_witness:
  "\<exists>r db1. Apply demo_tz id (Some (demo_cmd 1)) demo_billing = (Inr r, db1) \<and>
     b_users db1 = [\<lparr>u_id = 1, u_balance = 15, u_deleted = False\<rparr>]"
proof -
  obtain db1 where a: "Apply demo_tz id (Some (demo_cmd 1)) demo_billing =
      (Inr (zero_apply_result\<lparr>ar_Applied := True, ar_NewBalance := Some 15\<rparr>), db1)" using demo_applied by blast
  have "ar_Applied (zero_apply_result\<lparr>ar_Applied := True, ar_NewBalance := Some (15::rat)\<rparr>)" by simp
  from charge_commits_all [OF a this] have "b_users db1 = [\<lparr>u_id = 1, u_balance = 15, u_deleted = False\<rparr>]"
    unfolding demo_normal(1) by (simp add: tables_def demo_billing_def user_charge_def demo_cmd_def Let_def)
  with a show ?thesis by blast
qed

definition demo_quota_key :: key_row where
  "demo_quota_key = \<lparr>k_id = 2, k_quota = 10, k_quota_used = 1, k_status = StatusAPIKeyActive, k_usage_5h = 0,
     k_usage_1d = 0, k_usage_7d = 0, k_window_5h = None, k_window_1d = None, k_window_7d = None,
     k_deleted = False\<rparr>"

theorem quota_exhausted_once_witness:
  "length (filter (\<lambda>b. b) (quota_signals [4, 6, 3] demo_quota_key)) = 1"
  using quota_exhausted_once [of "[4, 6, 3]" demo_quota_key] by (simp add: demo_quota_key_def)

end
