(* ===== verification/Prog.thy ===== *)
theory Prog
  imports Main
begin

text \<open>
  Programs whose atomic actions interleave.

  A handler of the services is a sequence of database statements with Go code in between. Each
  statement is atomic, what other goroutines do between two statements is not. A program is
  therefore a tree: \<open>Return\<close> ends it, \<open>Step\<close> performs one atomic action on the shared state and
  says how to go on. \<open>exec\<close> runs a program alone; \<open>sched\<close> interleaves any number of programs, which
  are started, advanced and lost (a crashed process) at any time. \<open>guards\<close> is the proof obligation
  of one program: every action of its own keeps to the guarantee and its result satisfies \<open>Q\<close>,
  whatever steps within the rely come in between. The locale \<open>interference\<close> turns the obligations
  of all handlers into a theorem about every interleaving.
\<close>

section \<open>Programs\<close>

datatype ('s, 'a) prog =
    Return 'a
  | Step "'s \<Rightarrow> ('s, 'a) prog \<times> 's"

lemma prog_induct [case_names Return Step]:
  assumes "\<And>a. P (Return a)" and "\<And>f. (\<And>s. P (fst (f s))) \<Longrightarrow> P (Step f)"
  shows "P p"
proof (induction p)
  case (Step f)
  show ?case
  proof (rule assms(2))
    show "P (fst (f s))" for s by (cases "f s") (auto intro!: Step [of "f s"])
  qed
qed (rule assms(1))

text \<open>Sequencing.\<close>

primrec bind :: "('s, 'a) prog \<Rightarrow> ('a \<Rightarrow> ('s, 'b) prog) \<Rightarrow> ('s, 'b) prog" where
  "bind (Return a) k = k a"
| "bind (Step f) k = Step (\<lambda>s. map_prod (\<lambda>p. bind p k) (\<lambda>t. t) (f s))"

text \<open>Running a program with nobody else around.\<close>

primrec exec :: "('s, 'a) prog \<Rightarrow> 's \<Rightarrow> 'a \<times> 's" where
  "exec (Return a) = (\<lambda>s. (a, s))"
| "exec (Step f) = (\<lambda>s. case map_prod exec (\<lambda>t. t) (f s) of (e, t) \<Rightarrow> e t)"

lemma exec_Step [simp]: "exec (Step f) s = exec (fst (f s)) (snd (f s))"
  by (cases "f s") simp

declare exec.simps(2) [simp del]

lemma exec_bind [simp]: "exec (bind p k) s = (case exec p s of (a, t) \<Rightarrow> exec (k a) t)"
proof (induction p arbitrary: s rule: prog_induct)
  case (Step f)
  then show ?case by (cases "f s") (simp, metis fst_conv)
qed simp

lemma bind_Return [simp]: "bind p Return = p"
proof (induction p rule: prog_induct)
  case (Step f)
  have "map_prod (\<lambda>p. bind p Return) (\<lambda>t. t) (f s) = f s" for s
    using Step [of s] by (cases "f s") auto
  then show ?case by simp
qed simp

lemma bind_assoc: "bind (bind p k) h = bind p (\<lambda>a. bind (k a) h)"
proof (induction p rule: prog_induct)
  case (Step f)
  have "map_prod (\<lambda>p. bind p h) (\<lambda>t. t) (map_prod (\<lambda>p. bind p k) (\<lambda>t. t) (f s))
      = map_prod (\<lambda>p. bind p (\<lambda>a. bind (k a) h)) (\<lambda>t. t) (f s)" for s
    using Step [of s] by (cases "f s") auto
  then show ?case by simp
qed simp

text \<open>One atomic action followed by a continuation; reading the state; a loop over a list.\<close>

definition atomically :: "('s \<Rightarrow> 'b \<times> 's) \<Rightarrow> ('b \<Rightarrow> ('s, 'a) prog) \<Rightarrow> ('s, 'a) prog" where
  "atomically f k = Step (\<lambda>s. case f s of (b, t) \<Rightarrow> (k b, t))"

definition reading :: "('s \<Rightarrow> 'b) \<Rightarrow> ('b \<Rightarrow> ('s, 'a) prog) \<Rightarrow> ('s, 'a) prog" where
  "reading f k = atomically (\<lambda>s. (f s, s)) k"

primrec foreach :: "'x list \<Rightarrow> ('x \<Rightarrow> 'b \<Rightarrow> ('s, 'b) prog) \<Rightarrow> 'b \<Rightarrow> ('s, 'b) prog" where
  "foreach [] body b = Return b"
| "foreach (x # xs) body b = bind (body x b) (\<lambda>b1. foreach xs body b1)"

lemma exec_atomically [simp]:
  "exec (atomically f k) s = exec (k (fst (f s))) (snd (f s))"
  by (cases "f s") (simp add: atomically_def)

lemma exec_reading [simp]: "exec (reading f k) s = exec (k (f s)) s"
  by (simp add: reading_def)

lemma bind_atomically [simp]: "bind (atomically f k) h = atomically f (\<lambda>b. bind (k b) h)"
proof -
  have "map_prod (\<lambda>p. bind p h) (\<lambda>t. t) (case f s of (b, t) \<Rightarrow> (k b, t))
      = (case f s of (b, t) \<Rightarrow> (bind (k b) h, t))" for s
    by (cases "f s") simp
  then show ?thesis by (simp add: atomically_def)
qed

lemma bind_reading [simp]: "bind (reading f k) h = reading f (\<lambda>b. bind (k b) h)"
  by (simp add: reading_def)

section \<open>Interleaving\<close>

text \<open>
  A configuration is the list of running programs and the shared state. The environment may change
  the state within \<open>E\<close>, a program of \<open>H\<close> may start, a running one may perform its next action, and
  one may be lost.
\<close>

inductive sched :: "('s \<Rightarrow> 's \<Rightarrow> bool) \<Rightarrow> ('s, 'a) prog set \<Rightarrow>
    ('s, 'a) prog list \<times> 's \<Rightarrow> ('s, 'a) prog list \<times> 's \<Rightarrow> bool"
  for E H where
  sched_start: "p \<in> H \<Longrightarrow> sched E H (ps, s) (ps @ [p], s)"
| sched_act: "f s = (p, t) \<Longrightarrow> sched E H (ps @ Step f # qs, s) (ps @ p # qs, t)"
| sched_lost: "sched E H (ps @ p # qs, s) (ps @ qs, s)"
| sched_env: "E s t \<Longrightarrow> sched E H (ps, s) (ps, t)"

definition reachable :: "('s \<Rightarrow> 's \<Rightarrow> bool) \<Rightarrow> ('s, 'a) prog set \<Rightarrow> 's \<Rightarrow>
    ('s, 'a) prog list \<times> 's \<Rightarrow> bool" where
  "reachable E H s c \<longleftrightarrow> (sched E H)\<^sup>*\<^sup>* ([], s) c"

text \<open>A program started and run to its end without interference is one of the interleavings.\<close>

lemma sched_exec: "(sched E H)\<^sup>*\<^sup>* ([p], s) ([Return (fst (exec p s))], snd (exec p s))"
proof (induction p arbitrary: s rule: prog_induct)
  case (Step f)
  obtain p t where ft: "f s = (p, t)" by (cases "f s")
  have "sched E H ([] @ Step f # [], s) ([] @ p # [], t)"
    using ft by (rule sched_act)
  moreover have "(sched E H)\<^sup>*\<^sup>* ([p], t) ([Return (fst (exec p t))], snd (exec p t))"
    using Step [of s t] by (simp add: ft)
  ultimately show ?case by (simp add: ft converse_rtranclp_into_rtranclp)
qed simp

text \<open>The same among other programs.\<close>

lemma sched_exec_in:
  "(sched E H)\<^sup>*\<^sup>* (ps @ p # qs, s) (ps @ Return (fst (exec p s)) # qs, snd (exec p s))"
proof (induction p arbitrary: s rule: prog_induct)
  case (Step f)
  obtain p t where ft: "f s = (p, t)" by (cases "f s")
  have "sched E H (ps @ Step f # qs, s) (ps @ p # qs, t)" using ft by (rule sched_act)
  moreover have "(sched E H)\<^sup>*\<^sup>* (ps @ p # qs, t) (ps @ Return (fst (exec p t)) # qs, snd (exec p t))"
    using Step [of s t] by (simp add: ft)
  ultimately show ?case by (simp add: ft converse_rtranclp_into_rtranclp)
qed simp

lemma reachable_exec:
  assumes "p \<in> H"
  shows "reachable E H s ([Return (fst (exec p s))], snd (exec p s))"
proof -
  have "sched E H ([], s) ([] @ [p], s)" by (rule sched_start [OF assms])
  then show ?thesis
    unfolding reachable_def using sched_exec [of E H p s] by (simp add: converse_rtranclp_into_rtranclp)
qed

text \<open>
  A given interleaving, for examples: the numbers say which program performs its next action.
\<close>

definition advance :: "nat \<Rightarrow> ('s, 'a) prog list \<times> 's \<Rightarrow> ('s, 'a) prog list \<times> 's" where
  "advance i c = (case c of (ps, s) \<Rightarrow>
     if i < length ps
     then (case ps ! i of Return a \<Rightarrow> (ps, s) | Step f \<Rightarrow> (case f s of (p, t) \<Rightarrow> (ps[i := p], t)))
     else (ps, s))"

definition interleave :: "nat list \<Rightarrow> ('s, 'a) prog list \<times> 's \<Rightarrow> ('s, 'a) prog list \<times> 's" where
  "interleave is c = fold advance is c"

lemma advance_0 [simp]:
  "advance 0 (atomically f k # ps, s) = (k (fst (f s)) # ps, snd (f s))"
  "advance 0 (reading g k # ps, s) = (k (g s) # ps, s)"
  "advance 0 (Return a # ps, s) = (Return a # ps, s)"
  by (simp_all add: advance_def atomically_def reading_def case_prod_unfold)

lemma advance_Suc [simp]:
  "advance (Suc i) (p # ps, s) = (p # fst (advance i (ps, s)), snd (advance i (ps, s)))"
  by (simp add: advance_def split: prog.split prod.split)

lemma sched_advance: "(sched E H)\<^sup>*\<^sup>* c (advance i c)"
proof -
  obtain ps s where c: "c = (ps, s)" by (cases c)
  show ?thesis
  proof (cases "i < length ps")
    case True
    show ?thesis
    proof (cases "ps ! i")
      case (Step f)
      obtain p t where ft: "f s = (p, t)" by (cases "f s")
      have "sched E H (take i ps @ Step f # drop (Suc i) ps, s) (take i ps @ p # drop (Suc i) ps, t)"
        using ft by (rule sched_act)
      moreover have "take i ps @ Step f # drop (Suc i) ps = ps"
        using id_take_nth_drop [OF True] Step by simp
      moreover have "take i ps @ p # drop (Suc i) ps = ps[i := p]"
        using True by (simp add: upd_conv_take_nth_drop)
      ultimately have "sched E H (ps, s) (ps[i := p], t)" by simp
      moreover have "advance i c = (ps[i := p], t)"
        using True Step ft by (simp add: c advance_def)
      ultimately show ?thesis by (simp add: c r_into_rtranclp)
    qed (simp add: c advance_def True)
  qed (simp add: c advance_def)
qed

lemma sched_interleave: "(sched E H)\<^sup>*\<^sup>* c (interleave is c)"
proof (induction "is" arbitrary: c)
  case (Cons i js)
  have "interleave (i # js) c = interleave js (advance i c)" by (simp add: interleave_def)
  then show ?case using sched_advance [of E H c i] Cons.IH [of "advance i c"] by simp
qed (simp add: interleave_def)

lemma sched_start_all: "set ps \<subseteq> H \<Longrightarrow> (sched E H)\<^sup>*\<^sup>* ([], s) (ps, s)"
proof (induction ps rule: rev_induct)
  case (snoc p ps)
  then have "(sched E H)\<^sup>*\<^sup>* ([], s) (ps, s)" "sched E H (ps, s) (ps @ [p], s)"
    by (auto intro: sched_start)
  then show ?case by (rule rtranclp.rtrancl_into_rtrancl)
qed simp

lemma reachable_interleave: "set ps \<subseteq> H \<Longrightarrow> reachable E H s (interleave is (ps, s))"
  unfolding reachable_def by (rule rtranclp_trans [OF sched_start_all sched_interleave])

section \<open>Rely and guarantee\<close>

primrec guards :: "('s \<Rightarrow> 's \<Rightarrow> bool) \<Rightarrow> ('s \<Rightarrow> 's \<Rightarrow> bool) \<Rightarrow> ('a \<Rightarrow> 's \<Rightarrow> bool) \<Rightarrow>
    ('s, 'a) prog \<Rightarrow> 's \<Rightarrow> bool" where
  "guards R G Q (Return a) = (\<lambda>s. \<forall>t. R s t \<longrightarrow> Q a t)"
| "guards R G Q (Step f) = (\<lambda>s. \<forall>t. R s t \<longrightarrow> G t (snd (f t)) \<and>
     (case map_prod (guards R G Q) (\<lambda>u. u) (f t) of (P, u) \<Rightarrow> P u))"

lemma guards_Step [simp]:
  "guards R G Q (Step f) s \<longleftrightarrow>
     (\<forall>t. R s t \<longrightarrow> G t (snd (f t)) \<and> guards R G Q (fst (f t)) (snd (f t)))"
  by (auto simp: case_prod_unfold)

declare guards.simps(2) [simp del]

lemma guards_atomically:
  "guards R G Q (atomically f k) s \<longleftrightarrow>
     (\<forall>t. R s t \<longrightarrow> G t (snd (f t)) \<and> guards R G Q (k (fst (f t))) (snd (f t)))"
  by (simp add: atomically_def case_prod_unfold)

lemma guards_reading:
  "guards R G Q (reading f k) s \<longleftrightarrow> (\<forall>t. R s t \<longrightarrow> G t t \<and> guards R G Q (k (f t)) t)"
  by (simp add: reading_def guards_atomically)

locale interference =
  fixes R :: "'s \<Rightarrow> 's \<Rightarrow> bool" and G :: "'s \<Rightarrow> 's \<Rightarrow> bool"
  assumes rely_refl: "R s s"
    and rely_trans: "R s t \<Longrightarrow> R t u \<Longrightarrow> R s u"
    and guar_rely: "G s t \<Longrightarrow> R s t"
begin

lemma guards_later: "guards R G Q p s \<Longrightarrow> R s t \<Longrightarrow> guards R G Q p t"
  by (cases p) (auto intro: rely_trans)

lemma guards_result: "guards R G Q (Return a) s \<Longrightarrow> Q a s"
  by (simp add: rely_refl)

lemma guards_weaken:
  "guards R G Q p s \<Longrightarrow> (\<And>a t. Q a t \<Longrightarrow> Q' a t) \<Longrightarrow> guards R G Q' p s"
proof (induction p arbitrary: s rule: prog_induct)
  case (Step f)
  have "guards R G Q' (fst (f t)) (snd (f t))" if "R s t" for t
    by (rule Step.IH) (use Step.prems that in auto)
  with Step.prems show ?case by simp
qed auto

lemma guards_bind:
  "guards R G (\<lambda>a t. guards R G Q (k a) t) p s \<Longrightarrow> guards R G Q (bind p k) s"
proof (induction p arbitrary: s rule: prog_induct)
  case (Return a)
  then show ?case using rely_refl by simp
next
  case (Step f)
  have "guards R G Q (bind (fst (f t)) k) (snd (f t))" if "R s t" for t
    by (rule Step.IH) (use Step.prems that in auto)
  with Step.prems show ?case by simp
qed

lemma guards_track:
  "guards R G Q p s \<Longrightarrow> R r s \<Longrightarrow> guards R G (\<lambda>a t. Q a t \<and> R r t) p s"
proof (induction p arbitrary: s rule: prog_induct)
  case (Return a)
  then show ?case by (auto intro: rely_trans)
next
  case (Step f)
  have "guards R G (\<lambda>a t. Q a t \<and> R r t) (fst (f t)) (snd (f t))" if "R s t" for t
  proof (rule Step.IH)
    have "R r t" using Step.prems(2) that by (rule rely_trans)
    moreover have "R t (snd (f t))" using Step.prems(1) that by (auto intro: guar_rely)
    ultimately show "R r (snd (f t))" by (rule rely_trans)
  qed (use Step.prems that in auto)
  with Step.prems show ?case by simp
qed

lemma guards_foreach:
  assumes "\<And>x b t. x \<in> set xs \<Longrightarrow> R s t \<Longrightarrow> guards R G (\<lambda>_ _. True) (body x b) t"
    and "R s t"
  shows "guards R G (\<lambda>_ _. True) (foreach xs body b) t"
  using assms
proof (induction xs arbitrary: b t)
  case (Cons x xs)
  have "guards R G (\<lambda>_ _. True) (body x b) t" by (rule Cons.prems) (simp_all add: Cons.prems)
  then have "guards R G (\<lambda>a u. True \<and> R s u) (body x b) t"
    by (rule guards_track) (rule Cons.prems)
  then have "guards R G (\<lambda>a u. guards R G (\<lambda>_ _. True) (foreach xs body a) u) (body x b) t"
    by (rule guards_weaken) (rule Cons.IH, auto intro: Cons.prems(1))
  then show ?case by (auto intro: guards_bind)
qed simp

lemma guards_exec: "guards R G Q p s \<Longrightarrow> R s (snd (exec p s)) \<and> Q (fst (exec p s)) (snd (exec p s))"
proof (induction p arbitrary: s rule: prog_induct)
  case (Step f)
  have g: "G s (snd (f s))" and p: "guards R G Q (fst (f s)) (snd (f s))"
    using Step.prems rely_refl [of s] by auto
  show ?case using Step.IH [OF p] guar_rely [OF g] by (auto intro: rely_trans)
qed (auto intro: rely_refl)

text \<open>
  The theorem: from a state where every handler meets its obligation, every interleaving keeps the
  running programs within theirs, and the shared state moves within the rely.
\<close>

lemma sched_sound:
  assumes "sched E H c d" and "\<And>s t. E s t \<Longrightarrow> R s t"
    and "\<And>p t. p \<in> H \<Longrightarrow> R s0 t \<Longrightarrow> guards R G Q p t"
    and "R s0 (snd c)" and "\<forall>p \<in> set (fst c). guards R G Q p (snd c)"
  shows "R s0 (snd d) \<and> (\<forall>p \<in> set (fst d). guards R G Q p (snd d))"
  using assms
proof (cases rule: sched.cases)
  case (sched_act f s p t ps qs)
  have g: "G s t" and p: "guards R G Q p t"
    using sched_act assms(5) rely_refl [of s] by auto
  have "R s t" using g by (rule guar_rely)
  then show ?thesis
    using sched_act assms(4,5) p by (auto intro: rely_trans guards_later)
qed (auto intro: rely_trans guards_later)

lemma reachable_sound:
  assumes "reachable E H s0 c" and "\<And>s t. E s t \<Longrightarrow> R s t"
    and "\<And>p t. p \<in> H \<Longrightarrow> R s0 t \<Longrightarrow> guards R G Q p t"
  shows "R s0 (snd c) \<and> (\<forall>p \<in> set (fst c). guards R G Q p (snd c))"
  using assms(1) unfolding reachable_def
proof (induction rule: rtranclp_induct)
  case base
  then show ?case by (simp add: rely_refl)
next
  case (step c d)
  show ?case
    by (rule sched_sound [OF step.hyps(2)]) (use assms(2,3) step.IH in auto)
qed

lemma reachable_guarantee:
  assumes "reachable E H s0 (ps @ Step f # qs, s)" and "f s = (p, t)"
    and "\<And>s t. E s t \<Longrightarrow> R s t"
    and "\<And>p t. p \<in> H \<Longrightarrow> R s0 t \<Longrightarrow> guards R G Q p t"
  shows "G s t"
  using reachable_sound [OF assms(1,3,4)] assms(2) rely_refl [of s] by auto

end

section \<open>Invariants of the shared state\<close>

text \<open>
  The special case in which rely and guarantee say that a property of the state is kept: it is enough
  that every single action keeps it.
\<close>

locale state_invariant =
  fixes I :: "'s \<Rightarrow> bool"
begin

definition later :: "'s \<Rightarrow> 's \<Rightarrow> bool" where
  "later s t \<longleftrightarrow> (I s \<longrightarrow> I t)"

definition keeps_op :: "('s \<Rightarrow> 'r \<times> 's) \<Rightarrow> bool" where
  "keeps_op f \<longleftrightarrow> (\<forall>s. I s \<longrightarrow> I (snd (f s)))"

definition kept :: "('s, 'a) prog \<Rightarrow> bool" where
  "kept p \<longleftrightarrow> (\<forall>s. I s \<longrightarrow> guards later later (\<lambda>_ _. True) p s)"

end

sublocale state_invariant \<subseteq> interference later later
  by unfold_locales (auto simp: later_def)

context state_invariant
begin

lemma kept_Return [simp]: "kept (Return x)"
  by (simp add: kept_def)

lemma kept_atomically_when:
  "(\<And>s. I s \<Longrightarrow> I (snd (f s)) \<and> kept (k (fst (f s)))) \<Longrightarrow> kept (atomically f k)"
  by (auto simp: kept_def guards_atomically later_def)

lemma kept_atomically: "keeps_op f \<Longrightarrow> (\<And>b. kept (k b)) \<Longrightarrow> kept (atomically f k)"
  by (rule kept_atomically_when) (simp add: keeps_op_def)

lemma kept_reading: "(\<And>s. I s \<Longrightarrow> kept (k (f s))) \<Longrightarrow> kept (reading f k)"
  unfolding reading_def by (rule kept_atomically_when) simp

lemma kept_bind: "kept p \<Longrightarrow> (\<And>a. kept (k a)) \<Longrightarrow> kept (bind p k)"
  unfolding kept_def
proof (intro allI impI guards_bind)
  fix s assume p: "\<forall>s. I s \<longrightarrow> guards later later (\<lambda>_ _. True) p s" and s: "I s"
    and k: "\<And>a. \<forall>s. I s \<longrightarrow> guards later later (\<lambda>_ _. True) (k a) s"
  have "guards later later (\<lambda>_ t. True \<and> later s t) p s"
    by (rule guards_track) (use p s in \<open>simp_all add: later_def\<close>)
  then show "guards later later (\<lambda>a t. guards later later (\<lambda>_ _. True) (k a) t) p s"
    by (rule guards_weaken) (use k s in \<open>auto simp: later_def\<close>)
qed

lemma kept_foreach: "(\<And>x b. x \<in> set xs \<Longrightarrow> kept (body x b)) \<Longrightarrow> kept (foreach xs body b)"
  by (induction xs arbitrary: b) (auto intro: kept_bind)

lemma kept_case_sum: "(\<And>e. kept (h e)) \<Longrightarrow> (\<And>x. kept (k x)) \<Longrightarrow> kept (case r of Inl e \<Rightarrow> h e | Inr x \<Rightarrow> k x)"
  by (cases r) simp_all

lemma kept_case_option: "kept h \<Longrightarrow> (\<And>x. kept (k x)) \<Longrightarrow> kept (case r of None \<Rightarrow> h | Some x \<Rightarrow> k x)"
  by (cases r) simp_all

lemma kept_case_bool: "kept p \<Longrightarrow> kept q \<Longrightarrow> kept (case b of True \<Rightarrow> p | False \<Rightarrow> q)"
  by (cases b) simp_all

lemma kept_case_prod: "(\<And>x y. kept (k x y)) \<Longrightarrow> kept (case r of (x, y) \<Rightarrow> k x y)"
  by (cases r) simp

lemma kept_if: "(b \<Longrightarrow> kept p) \<Longrightarrow> (\<not> b \<Longrightarrow> kept q) \<Longrightarrow> kept (if b then p else q)"
  by simp

text \<open>What all programs and the environment keep, every interleaving keeps.\<close>

lemma reachable_keeps:
  assumes "reachable E H s c" "I s" and "\<And>s t. E s t \<Longrightarrow> I s \<Longrightarrow> I t" and "\<And>p. p \<in> H \<Longrightarrow> kept p"
  shows "I (snd c)"
proof -
  have "later s (snd c) \<and> (\<forall>p \<in> set (fst c). guards later later (\<lambda>_ _. True) p (snd c))"
    by (rule reachable_sound [OF assms(1)]) (use assms(2-4) in \<open>auto simp: later_def kept_def\<close>)
  then show ?thesis using assms(2) by (simp add: later_def)
qed

lemma exec_keeps: "kept p \<Longrightarrow> I s \<Longrightarrow> I (snd (exec p s))"
  using guards_exec [of "\<lambda>_ _. True" p s] by (auto simp: kept_def later_def)

end

end
