(* ===== verification/BusinessDb.thy ===== *)
theory BusinessDb
  imports Prog AppErrors Complex_Main "HOL-Library.Word"
begin

text \<open>
  The tables that subscriptions, redeem codes and payments share
  (\<open>backend/ent/schema/{user,group,user_subscription,redeem_code,payment_order}.go\<close> and
  \<open>service/{user,group,user_subscription,redeem_code}.go\<close>), and how a statement acts on them.

  A table is a list of rows. A statement is one atomic action of a program (\<open>Prog\<close>) on the \<open>world\<close>:
  the tables, the clock, Redis keys, the round-robin counter of the process, and the outcomes that the database has in store for the next
  statements. A statement works, fails without effect, or is executed although an error is reported
  (the acknowledgement was lost). A transaction is one atomic action, because PostgreSQL's row locks
  serialise the transactions modelled here; if it fails the tables are those from before. Amounts
  of money are rationals. Columns that only carry text for display are left out, and so is the
  JSON detail of an audit entry.
\<close>

section \<open>Rows\<close>

record User =
  usr_ID :: int
  usr_Balance :: rat
  usr_TotalRecharged :: rat
  usr_Concurrency :: int
  usr_Status :: string
  usr_deleted :: bool

record group_rec =
  grp_ID :: int
  grp_Name :: string
  grp_Status :: string
  grp_SubscriptionType :: string
  grp_DailyLimitUSD :: "rat option"
  grp_WeeklyLimitUSD :: "rat option"
  grp_MonthlyLimitUSD :: "rat option"
  grp_deleted :: bool

record UserSubscription =
  sub_ID :: int
  sub_UserID :: int
  sub_GroupID :: int
  sub_StartsAt :: gotime
  sub_ExpiresAt :: gotime
  sub_Status :: string
  sub_DailyWindowStart :: "gotime option"
  sub_WeeklyWindowStart :: "gotime option"
  sub_MonthlyWindowStart :: "gotime option"
  sub_DailyUsageUSD :: rat
  sub_WeeklyUsageUSD :: rat
  sub_MonthlyUsageUSD :: rat
  sub_AssignedBy :: "int option"
  sub_AssignedAt :: gotime
  sub_Notes :: string
  sub_CreatedAt :: gotime
  sub_deleted :: bool

record RedeemCode =
  rc_ID :: int
  rc_Code :: string
  rc_Type :: string
  rc_Value :: rat
  rc_Status :: string
  rc_UsedBy :: "int option"
  rc_UsedAt :: "gotime option"
  rc_Notes :: string
  rc_GroupID :: "int option"
  rc_ValidityDays :: int

record PaymentOrder =
  po_ID :: int
  po_UserID :: int
  po_Amount :: rat
  po_PayAmount :: rat
  po_FeeRate :: rat
  po_RechargeCode :: string
  po_OutTradeNo :: string
  po_PaymentType :: string
  po_PaymentTradeNo :: string
  po_OrderType :: string
  po_PlanID :: "int option"
  po_SubscriptionGroupID :: "int option"
  po_SubscriptionDays :: "int option"
  po_ProviderInstanceID :: "string option"
  po_Status :: string
  po_RefundAmount :: rat
  po_RefundReason :: "string option"
  po_RefundAt :: "gotime option"
  po_ForceRefund :: bool
  po_RefundRequestedAt :: "gotime option"
  po_RefundRequestReason :: "string option"
  po_RefundRequestedBy :: "string option"
  po_ExpiresAt :: gotime
  po_PaidAt :: "gotime option"
  po_CompletedAt :: "gotime option"
  po_FailedAt :: "gotime option"
  po_FailedReason :: "string option"
  po_CreatedAt :: gotime
  po_UpdatedAt :: gotime

record PaymentAuditLog =
  al_OrderID :: int
  al_Action :: string
  al_Operator :: string
  al_CreatedAt :: gotime

record ProviderInstance =
  pi_ID :: int
  pi_ProviderKey :: string
  pi_SupportedTypes :: string
  pi_Limits :: string
  pi_Enabled :: bool
  pi_SortOrder :: int
  pi_PaymentMode :: string
  pi_RefundEnabled :: bool
  pi_AllowUserRefund :: bool

record business_db =
  db_users :: "User list"
  db_groups :: "group_rec list"
  db_subs :: "UserSubscription list"
  db_codes :: "RedeemCode list"
  db_orders :: "PaymentOrder list"
  db_audit :: "PaymentAuditLog list"
  db_instances :: "ProviderInstance list"

section \<open>The world\<close>

datatype outcome = Works | Fails | Unacked

record world =
  w_db :: business_db
  w_base :: "business_db option"
  w_now :: gotime
  w_faults :: "outcome list"
  w_attempts :: "int \<Rightarrow> (int \<times> gotime) option"
  w_locks :: "string \<Rightarrow> gotime option"
  w_counter :: "64 word"

definition ErrDatabase :: go_error where "ErrDatabase = PlainErr ''database error''"
definition ErrEntNotFound :: go_error where "ErrEntNotFound = PlainErr ''ent: not found''"
definition ErrEntNotSingular :: go_error where "ErrEntNotSingular = PlainErr ''ent: not singular''"
definition ErrUnique :: go_error where "ErrUnique = PlainErr ''unique constraint''"

definition next_outcome :: "world \<Rightarrow> outcome \<times> world" where
  "next_outcome w = (case w_faults w of [] \<Rightarrow> (Works, w) | f # fs \<Rightarrow> (f, w\<lparr>w_faults := fs\<rparr>))"

type_synonym 'r query = "gotime \<Rightarrow> business_db \<Rightarrow> (go_error + 'r) \<times> business_db"
type_synonym 'r handler = "(world, go_error + 'r) prog"

definition statement :: "'r query \<Rightarrow> world \<Rightarrow> (go_error + 'r) \<times> world" where
  "statement f w =
     (case next_outcome w of (oc, w1) \<Rightarrow>
        (case f (w_now w1) (w_db w1) of (r, db1) \<Rightarrow>
           (case oc of
              Works \<Rightarrow> (r, w1\<lparr>w_db := db1\<rparr>)
            | Fails \<Rightarrow> (Inl ErrDatabase, w1)
            | Unacked \<Rightarrow> (Inl ErrDatabase, w1\<lparr>w_db := db1\<rparr>))))"

definition stmt :: "'r query \<Rightarrow> (go_error + 'r \<Rightarrow> (world, 'a) prog) \<Rightarrow> (world, 'a) prog" where
  "stmt f k = atomically (statement f) k"

definition time_Now :: "(gotime \<Rightarrow> (world, 'a) prog) \<Rightarrow> (world, 'a) prog" where
  "time_Now k = reading w_now k"

text \<open>\<open>if err != nil { return ..., f(err) }\<close> after a call.\<close>

definition on_error :: "(go_error \<Rightarrow> 'b handler) \<Rightarrow> ('r \<Rightarrow> 'b handler) \<Rightarrow> go_error + 'r \<Rightarrow> 'b handler" where
  "on_error h k r = (case r of Inl e \<Rightarrow> h e | Inr x \<Rightarrow> k x)"

definition fail :: "go_error \<Rightarrow> 'b handler" where "fail e = Return (Inl e)"
definition succeed :: "'b \<Rightarrow> 'b handler" where "succeed x = Return (Inr x)"
definition wrap :: "string \<Rightarrow> go_error \<Rightarrow> 'b handler" where "wrap m e = Return (Inl (WrapErr m e))"

text \<open>
  A transaction. While it is open, \<open>w_base\<close> holds the committed tables and \<open>w_db\<close> what the
  transaction sees. A transaction that a repository opens by itself on another connection while one
  is open commits on its own: what it wrote (subscriptions, which the outer one has not touched)
  stays when the outer one is rolled back.
\<close>

definition tx_abort :: "world \<Rightarrow> world" where
  "tx_abort w = (case w_base w of None \<Rightarrow> w | Some db \<Rightarrow> w\<lparr>w_db := db, w_base := None\<rparr>)"

definition transaction :: "'r handler \<Rightarrow> world \<Rightarrow> (go_error + 'r) \<times> world" where
  "transaction p w =
     (case next_outcome w of (oc, w1) \<Rightarrow>
        if oc \<noteq> Works then (Inl ErrDatabase, w1)
        else (case exec p (w1\<lparr>w_base := Some (w_db w1)\<rparr>) of
            (Inl e, w2) \<Rightarrow> (Inl e, tx_abort w2)
          | (Inr x, w2) \<Rightarrow>
              (case next_outcome w2 of
                 (Works, w3) \<Rightarrow> (Inr x, w3\<lparr>w_base := None\<rparr>)
               | (Fails, w3) \<Rightarrow> (Inl ErrDatabase, tx_abort w3)
               | (Unacked, w3) \<Rightarrow> (Inl ErrDatabase, w3\<lparr>w_base := None\<rparr>))))"

definition separate_transaction :: "'r handler \<Rightarrow> world \<Rightarrow> (go_error + 'r) \<times> world" where
  "separate_transaction p w =
     (case w_base w of
        None \<Rightarrow> transaction p w
      | Some db \<Rightarrow>
          (case transaction p (w\<lparr>w_db := db, w_base := None\<rparr>) of (r, w1) \<Rightarrow>
             (r, w1\<lparr>w_db := (w_db w)\<lparr>db_subs := db_subs (w_db w1)\<rparr>, w_base := Some (w_db w1)\<rparr>)))"

section \<open>Statements on a table\<close>

text \<open>\<open>Query().Where(p).Only(ctx)\<close> and \<open>Update().Where(p)...Save(ctx)\<close> (the number of rows).\<close>

definition only :: "('x \<Rightarrow> bool) \<Rightarrow> 'x list \<Rightarrow> go_error + 'x" where
  "only p rows = (case filter p rows of [] \<Rightarrow> Inl ErrEntNotFound | [x] \<Rightarrow> Inr x
     | _ \<Rightarrow> Inl ErrEntNotSingular)"

definition change :: "('x \<Rightarrow> bool) \<Rightarrow> ('x \<Rightarrow> 'x) \<Rightarrow> 'x list \<Rightarrow> 'x list" where
  "change p f rows = map (\<lambda>x. if p x then f x else x) rows"

definition matches :: "('x \<Rightarrow> bool) \<Rightarrow> 'x list \<Rightarrow> nat" where
  "matches p rows = length (filter p rows)"

text \<open>A generated key: larger than every key of the table.\<close>

definition fresh_id :: "int list \<Rightarrow> int" where
  "fresh_id ids = foldr max ids 0 + 1"

lemma fresh_id_gt: "i \<in> set ids \<Longrightarrow> i < fresh_id ids"
proof -
  assume "i \<in> set ids"
  then have "i \<le> foldr max ids (0::int)" by (induction ids) auto
  then show ?thesis by (simp add: fresh_id_def)
qed

lemma fresh_id_neq: "x \<in> set xs \<Longrightarrow> fresh_id (map f xs) \<noteq> f x"
  using fresh_id_gt [of "f x" "map f xs"] by auto

lemma fresh_id_pos: "0 < fresh_id ids"
proof -
  have "0 \<le> foldr max ids (0::int)" by (induction ids) auto
  then show ?thesis by (simp add: fresh_id_def)
qed

lemma change_Nil [simp]: "change p f [] = []"
  and change_Cons: "change p f (x # xs) = (if p x then f x else x) # change p f xs"
  by (simp_all add: change_def)

lemma set_change: "set (change p f rows) = (\<lambda>x. if p x then f x else x) ` set rows"
  by (simp add: change_def)

lemma map_change: "(\<And>x. p x \<Longrightarrow> g (f x) = g x) \<Longrightarrow> map g (change p f rows) = map g rows"
  by (simp add: change_def)

lemma map_change_key:
  "key b = k \<Longrightarrow> map key (change (\<lambda>x. key x = k) (\<lambda>_. b) rows) = map key rows"
  by (simp add: change_def)

lemma only_Inr: "only p rows = Inr x \<Longrightarrow> x \<in> set rows \<and> p x"
  unfolding only_def by (cases "filter p rows") (auto split: list.splits dest!: filter_eq_ConsD)

lemma distinct_filter_key:
  "distinct (map key rows) \<Longrightarrow> x \<in> set rows \<Longrightarrow> filter (\<lambda>y. key y = key x) rows = [x]"
  by (induction rows) (auto simp: filter_empty_conv, metis imageI)

lemma only_key:
  assumes "distinct (map key rows)" "x \<in> set rows" "key x = k"
  shows "only (\<lambda>y. key y = k) rows = Inr x"
  using distinct_filter_key [OF assms(1,2)] assms(3) by (simp add: only_def)

section \<open>What a statement can do\<close>

lemma next_outcome_db [simp]:
  "w_db (snd (next_outcome w)) = w_db w" "w_now (snd (next_outcome w)) = w_now w"
  "w_base (snd (next_outcome w)) = w_base w"
  "w_attempts (snd (next_outcome w)) = w_attempts w" "w_locks (snd (next_outcome w)) = w_locks w"
  by (simp_all add: next_outcome_def split: list.split)

lemma next_outcome_none [simp]: "w_faults w = [] \<Longrightarrow> next_outcome w = (Works, w)"
  by (simp add: next_outcome_def)

lemma statement_none:
  "w_faults w = [] \<Longrightarrow> statement f w =
     (case f (w_now w) (w_db w) of (r, db) \<Rightarrow> (r, w\<lparr>w_db := db\<rparr>))"
  by (simp add: statement_def split: prod.split)

text \<open>Whatever its outcome, a statement leaves the tables alone or acts as its query does.\<close>

lemma statement_db:
  "w_db (snd (statement f w)) \<in> {w_db w, snd (f (w_now w) (w_db w))}"
proof -
  obtain oc w1 where n: "next_outcome w = (oc, w1)" by (cases "next_outcome w")
  have "w_db w1 = w_db w" "w_now w1 = w_now w"
    using next_outcome_db [of w] by (simp_all add: n)
  then show ?thesis
    by (cases "f (w_now w) (w_db w)"; cases oc) (simp_all add: statement_def n)
qed

lemma statement_ok:
  "fst (statement f w) = Inr x \<Longrightarrow>
     fst (f (w_now w) (w_db w)) = Inr x \<and> w_db (snd (statement f w)) = snd (f (w_now w) (w_db w))"
proof -
  assume r: "fst (statement f w) = Inr x"
  obtain oc w1 where n: "next_outcome w = (oc, w1)" by (cases "next_outcome w")
  have "w_db w1 = w_db w" "w_now w1 = w_now w"
    using next_outcome_db [of w] by (simp_all add: n)
  then show ?thesis
    using r by (cases "f (w_now w) (w_db w)"; cases oc) (simp_all add: statement_def n)
qed

lemma statement_other [simp]:
  "w_now (snd (statement f w)) = w_now w" "w_base (snd (statement f w)) = w_base w"
  "w_attempts (snd (statement f w)) = w_attempts w" "w_locks (snd (statement f w)) = w_locks w"
proof -
  obtain oc w1 where n: "next_outcome w = (oc, w1)" by (cases "next_outcome w")
  have "w_now w1 = w_now w" "w_base w1 = w_base w" "w_attempts w1 = w_attempts w" "w_locks w1 = w_locks w"
    using next_outcome_db [of w] by (simp_all add: n)
  then show "w_now (snd (statement f w)) = w_now w" "w_base (snd (statement f w)) = w_base w"
    "w_attempts (snd (statement f w)) = w_attempts w" "w_locks (snd (statement f w)) = w_locks w"
    by (cases "f (w_now w1) (w_db w1)"; cases oc; simp add: statement_def n)+
qed

section \<open>Programs that keep a relation on the tables\<close>

text \<open>
  The rely and the guarantee of all handlers are one relation \<open>D\<close> on the tables, which a statement
  by anybody maintains.
\<close>

definition moves :: "(business_db \<Rightarrow> business_db \<Rightarrow> bool) \<Rightarrow> world \<Rightarrow> world \<Rightarrow> bool" where
  "moves D w w1 \<longleftrightarrow> rel_option D (w_base w) (w_base w1) \<and> D (w_db w) (w_db w1)"

locale db_rely =
  fixes D :: "business_db \<Rightarrow> business_db \<Rightarrow> bool"
  assumes D_refl: "D db db"
    and D_trans: "D db1 db2 \<Longrightarrow> D db2 db3 \<Longrightarrow> D db1 db3"
begin

lemma rel_option_D_refl: "rel_option D b b"
  by (cases b) (simp_all add: D_refl)

lemma rel_option_D_trans: "rel_option D a b \<Longrightarrow> rel_option D b c \<Longrightarrow> rel_option D a c"
  by (cases a; cases b; cases c) (auto intro: D_trans)

lemma moves_refl: "moves D w w"
  by (simp add: moves_def D_refl rel_option_D_refl)

lemma moves_trans: "moves D u v \<Longrightarrow> moves D v w \<Longrightarrow> moves D u w"
  unfolding moves_def by (blast intro: D_trans rel_option_D_trans)

end

sublocale db_rely \<subseteq> interference "moves D" "moves D"
  by unfold_locales (auto intro: moves_refl moves_trans)

context db_rely
begin

lemma guards_time_Now:
  "(\<And>t w1. moves D w w1 \<Longrightarrow> guards (moves D) (moves D) Q (k t) w1) \<Longrightarrow>
     guards (moves D) (moves D) Q (time_Now k) w"
  by (simp add: time_Now_def guards_reading moves_refl)

lemma guards_stmt:
  assumes "\<And>now db. D (w_db w) db \<Longrightarrow> D db (snd (q now db))"
    and "\<And>e w1. moves D w w1 \<Longrightarrow> guards (moves D) (moves D) Q (k (Inl e)) w1"
    and "\<And>now db x w1. D (w_db w) db \<Longrightarrow> fst (q now db) = Inr x \<Longrightarrow> w_db w1 = snd (q now db) \<Longrightarrow>
           moves D w w1 \<Longrightarrow> guards (moves D) (moves D) Q (k (Inr x)) w1"
  shows "guards (moves D) (moves D) Q (stmt q k) w"
  unfolding stmt_def guards_atomically
proof (intro allI impI conjI)
  fix t assume t: "moves D w t"
  have D: "D (w_db w) (w_db t)" using t by (simp add: moves_def)
  show g: "moves D t (snd (statement q t))"
    using statement_db [of q t] assms(1) [OF D, of "w_now t"]
    by (auto simp: moves_def D_refl rel_option_D_refl)
  have w: "moves D w (snd (statement q t))" using t g by (rule moves_trans)
  show "guards (moves D) (moves D) Q (k (fst (statement q t))) (snd (statement q t))"
  proof (cases "fst (statement q t)")
    case (Inl e)
    then show ?thesis using assms(2) [OF w] by simp
  next
    case (Inr x)
    from statement_ok [OF Inr] show ?thesis
      using assms(3) [OF D, of "w_now t" x "snd (statement q t)"] w Inr by simp
  qed
qed

lemma guards_fail [simp]: "guards (moves D) (moves D) (\<lambda>_ _. True) (fail e) w"
  and guards_succeed [simp]: "guards (moves D) (moves D) (\<lambda>_ _. True) (succeed x) w"
  and guards_wrap [simp]: "guards (moves D) (moves D) (\<lambda>_ _. True) (wrap m e) w"
  by (simp_all add: fail_def succeed_def wrap_def)

lemma guards_True_Return [simp]: "guards (moves D) (moves D) (\<lambda>_ _. True) (Return x) w"
  by simp

text \<open>A whole transaction: rolled back, or committed with what its body guarantees.\<close>

lemma transaction_exec:
  assumes base: "w_base w = None"
    and body: "\<And>w1. w_db w1 = w_db w \<Longrightarrow> w_base w1 = Some (w_db w) \<Longrightarrow>
      moves D w1 (snd (exec p w1)) \<and> Q (fst (exec p w1)) (snd (exec p w1))"
  shows "moves D w (snd (transaction p w)) \<and> w_base (snd (transaction p w)) = None \<and>
    (\<forall>x. fst (transaction p w) = Inr x \<longrightarrow>
      (\<exists>w2. Q (Inr x) w2 \<and> w_db w2 = w_db (snd (transaction p w))))"
proof -
  obtain oc w1 where n: "next_outcome w = (oc, w1)" by (cases "next_outcome w")
  have w1: "w_db w1 = w_db w" "w_base w1 = None"
    using next_outcome_db [of w] base by (simp_all add: n)
  show ?thesis
  proof (cases "oc = Works")
    case False
    then show ?thesis by (simp add: transaction_def n w1 moves_def D_refl base)
  next
    case True
    obtain r w2 where e: "exec p (w1\<lparr>w_base := Some (w_db w1)\<rparr>) = (r, w2)"
      by (cases "exec p (w1\<lparr>w_base := Some (w_db w1)\<rparr>)")
    have g: "moves D (w1\<lparr>w_base := Some (w_db w1)\<rparr>) w2 \<and> Q r w2"
      using body [of "w1\<lparr>w_base := Some (w_db w1)\<rparr>"] e by (simp add: w1)
    then obtain b where b: "w_base w2 = Some b" "D (w_db w) b" "D (w_db w) (w_db w2)"
      by (cases "w_base w2") (auto simp: moves_def w1)
    show ?thesis
    proof (cases r)
      case (Inl err)
      then show ?thesis
        using b by (simp add: transaction_def n True e tx_abort_def moves_def base)
    next
      case (Inr x)
      obtain oc2 w3 where n2: "next_outcome w2 = (oc2, w3)" by (cases "next_outcome w2")
      have "w_db w3 = w_db w2" "w_base w3 = Some b"
        using next_outcome_db [of w2] b by (simp_all add: n2)
      then show ?thesis
        using b g Inr
        by (cases oc2) (auto simp: transaction_def n True e n2 tx_abort_def moves_def base)
    qed
  qed
qed

lemma transaction_moves:
  assumes "w_base w = None"
    and "\<And>w1. w_db w1 = w_db w \<Longrightarrow> w_base w1 = Some (w_db w) \<Longrightarrow> guards (moves D) (moves D) Q p w1"
  shows "moves D w (snd (transaction p w)) \<and> w_base (snd (transaction p w)) = None \<and>
    (\<forall>x. fst (transaction p w) = Inr x \<longrightarrow>
      (\<exists>w2. Q (Inr x) w2 \<and> w_db w2 = w_db (snd (transaction p w))))"
  by (rule transaction_exec [OF assms(1)], rule guards_exec [OF assms(2)])

text \<open>The same rules for handlers of which only the guarantee matters, to be chained.\<close>

lemma guards_stmt_any:
  "(\<And>now db. D (w_db w) db \<Longrightarrow> D db (snd (q now db))) \<Longrightarrow>
   (\<And>r w1. moves D w w1 \<Longrightarrow> guards (moves D) (moves D) Q (k r) w1) \<Longrightarrow>
   guards (moves D) (moves D) Q (stmt q k) w"
  by (rule guards_stmt) auto

lemma guards_on_error:
  "(\<And>e. r = Inl e \<Longrightarrow> guards (moves D) (moves D) Q (h e) w) \<Longrightarrow>
   (\<And>x. r = Inr x \<Longrightarrow> guards (moves D) (moves D) Q (k x) w) \<Longrightarrow>
   guards (moves D) (moves D) Q (on_error h k r) w"
  by (cases r) (simp_all add: on_error_def)

lemma guards_if:
  "(b \<Longrightarrow> guards (moves D) (moves D) Q p w) \<Longrightarrow> (\<not> b \<Longrightarrow> guards (moves D) (moves D) Q q w) \<Longrightarrow>
   guards (moves D) (moves D) Q (if b then p else q) w"
  by simp

lemma guards_bind_any:
  "guards (moves D) (moves D) (\<lambda>_ _. True) p w \<Longrightarrow>
   (\<And>r w1. moves D w w1 \<Longrightarrow> guards (moves D) (moves D) Q (k r) w1) \<Longrightarrow>
   guards (moves D) (moves D) Q (bind p k) w"
  by (rule guards_bind, rule guards_weaken [OF guards_track [OF _ rely_refl]]) auto

lemma guards_transaction_exec:
  assumes base: "w_base w = None"
    and body: "\<And>w1. moves D w1 (snd (exec p w1))"
    and k: "\<And>r w1. moves D w w1 \<Longrightarrow> w_base w1 = None \<Longrightarrow> guards (moves D) (moves D) Q (k r) w1"
  shows "guards (moves D) (moves D) Q (atomically (transaction p) k) w"
  unfolding guards_atomically
proof (intro allI impI)
  fix t assume t: "moves D w t"
  then have b: "w_base t = None" using base by (simp add: moves_def)
  have m: "moves D t (snd (transaction p t)) \<and> w_base (snd (transaction p t)) = None"
    using transaction_exec [where w = t and p = p and Q = "\<lambda>_ _. True"] b body by blast
  then have "moves D w (snd (transaction p t))" using t rely_trans by blast
  then show "moves D t (snd (transaction p t)) \<and>
      guards (moves D) (moves D) Q (k (fst (transaction p t))) (snd (transaction p t))"
    using m k by blast
qed

lemma guards_transaction:
  assumes "w_base w = None"
    and "\<And>w1. guards (moves D) (moves D) (\<lambda>_ _. True) p w1"
    and "\<And>r w1. moves D w w1 \<Longrightarrow> w_base w1 = None \<Longrightarrow> guards (moves D) (moves D) Q (k r) w1"
  shows "guards (moves D) (moves D) Q (atomically (transaction p) k) w"
  by (rule guards_transaction_exec [OF assms(1)]) (use guards_exec [OF assms(2)] assms(3) in blast)+

lemma guards_separate:
  assumes base: "w_base w = None"
    and body: "\<And>w1. guards (moves D) (moves D) (\<lambda>_ _. True) p w1"
    and k: "\<And>r w1. moves D w w1 \<Longrightarrow> w_base w1 = None \<Longrightarrow> guards (moves D) (moves D) Q (k r) w1"
  shows "guards (moves D) (moves D) Q (atomically (separate_transaction p) k) w"
proof -
  have "w_base t = None" if "moves D w t" for t
    using that base by (simp add: moves_def)
  moreover have "guards (moves D) (moves D) Q (atomically (transaction p) k) w"
    by (rule guards_transaction) (use assms in auto)
  ultimately show ?thesis by (simp add: guards_atomically separate_transaction_def)
qed

text \<open>
  The same inside another transaction, for a relation that does not look at subscriptions.
\<close>

lemma separate_moves:
  assumes blind: "\<And>db ss. D db (db\<lparr>db_subs := ss\<rparr>)"
    and body: "\<And>w1. guards (moves D) (moves D) (\<lambda>_ _. True) p w1"
  shows "moves D w (snd (separate_transaction p w))"
proof (cases "w_base w")
  case None
  then show ?thesis
    using transaction_moves [where w = w and p = p and Q = "\<lambda>_ _. True"] body
    by (simp add: separate_transaction_def)
next
  case (Some db)
  let ?w = "w\<lparr>w_db := db, w_base := None\<rparr>"
  obtain r w1 where t: "transaction p ?w = (r, w1)" by (cases "transaction p ?w")
  have "moves D ?w w1"
    using transaction_moves [where w = ?w and p = p and Q = "\<lambda>_ _. True"] body t by simp
  then have "D db (w_db w1)" by (simp add: moves_def)
  then show ?thesis
    using Some by (simp add: separate_transaction_def t moves_def blind)
qed

lemma guards_separate_any:
  assumes "\<And>db ss. D db (db\<lparr>db_subs := ss\<rparr>)"
    and "\<And>w1. guards (moves D) (moves D) (\<lambda>_ _. True) p w1"
    and "\<And>r w1. moves D w w1 \<Longrightarrow> guards (moves D) (moves D) Q (k r) w1"
  shows "guards (moves D) (moves D) Q (atomically (separate_transaction p) k) w"
  unfolding guards_atomically
  using separate_moves [OF assms(1,2)] assms(3) rely_trans by blast

lemma guards_case_sum:
  "(\<And>e. r = Inl e \<Longrightarrow> guards (moves D) (moves D) Q (h e) w) \<Longrightarrow>
   (\<And>x. r = Inr x \<Longrightarrow> guards (moves D) (moves D) Q (k x) w) \<Longrightarrow>
   guards (moves D) (moves D) Q (case r of Inl e \<Rightarrow> h e | Inr x \<Rightarrow> k x) w"
  by (cases r) simp_all

lemma guards_case_option:
  "(r = None \<Longrightarrow> guards (moves D) (moves D) Q p w) \<Longrightarrow>
   (\<And>x. r = Some x \<Longrightarrow> guards (moves D) (moves D) Q (k x) w) \<Longrightarrow>
   guards (moves D) (moves D) Q (case r of None \<Rightarrow> p | Some x \<Rightarrow> k x) w"
  by (cases r) simp_all

lemma guards_case_prod:
  "(\<And>a b. r = (a, b) \<Longrightarrow> guards (moves D) (moves D) Q (k a b) w) \<Longrightarrow>
   guards (moves D) (moves D) Q (case r of (a, b) \<Rightarrow> k a b) w"
  by (cases r) simp

lemmas guards_intros = guards_stmt_any guards_on_error guards_if guards_case_sum guards_case_option
  guards_case_prod guards_time_Now guards_bind_any

end

section \<open>Running without faults\<close>

lemma exec_stmt: "exec (stmt q k) w = exec (k (fst (statement q w))) (snd (statement q w))"
  by (simp add: stmt_def)

lemma exec_stmt_none [simp]:
  "w_faults w = [] \<Longrightarrow> exec (stmt q k) w =
     (case q (w_now w) (w_db w) of (r, db) \<Rightarrow> exec (k r) (w\<lparr>w_db := db\<rparr>))"
  by (simp add: stmt_def statement_none split: prod.split)

lemma exec_time_Now [simp]: "exec (time_Now k) w = exec (k (w_now w)) w"
  by (simp add: time_Now_def)

lemma exec_stmt_works [simp]:
  "w_faults w = Works # fs \<Longrightarrow> exec (stmt q k) w =
     (case q (w_now w) (w_db w) of (r, db) \<Rightarrow> exec (k r) (w\<lparr>w_faults := fs, w_db := db\<rparr>))"
  by (simp add: stmt_def statement_def next_outcome_def split: prod.split)

lemma exec_ends [simp]:
  "exec (fail e) w = (Inl e, w)" "exec (succeed x) w = (Inr x, w)" "exec (wrap m e) w = (Inl (WrapErr m e), w)"
  by (simp_all add: fail_def succeed_def wrap_def)

lemma on_error_simps [simp]: "on_error h k (Inl e) = h e" "on_error h k (Inr x) = k x"
  by (simp_all add: on_error_def)

lemma bind_stmt [simp]: "bind (stmt q k) h = stmt q (\<lambda>r. bind (k r) h)"
  by (simp add: stmt_def)

lemma bind_time_Now [simp]: "bind (time_Now k) h = time_Now (\<lambda>t. bind (k t) h)"
  by (simp add: time_Now_def)

lemma advance_stmt [simp]:
  "w_faults w = [] \<Longrightarrow> advance 0 (stmt q k # ps, w) =
     (case q (w_now w) (w_db w) of (r, db) \<Rightarrow> (k r # ps, w\<lparr>w_db := db\<rparr>))"
  "advance 0 (time_Now h # ps, w) = (h (w_now w) # ps, w)"
  by (simp_all add: stmt_def time_Now_def statement_none split: prod.split)

lemma transaction_none:
  assumes "w_faults w = []" "exec p (w\<lparr>w_base := Some (w_db w)\<rparr>) = (r, w2)" "w_faults w2 = []"
  shows "transaction p w = (case r of Inl e \<Rightarrow> (Inl e, tx_abort w2) | Inr x \<Rightarrow> (Inr x, w2\<lparr>w_base := None\<rparr>))"
  using assms by (simp add: transaction_def split: sum.split)

end
