(* ===== verification/Subscription.thy ===== *)
theory Subscription
  imports Domain BusinessDb
begin

text \<open>
  Subscriptions: \<open>backend/internal/service/subscription_service.go\<close>, \<open>user_subscription.go\<close>,
  \<open>subscription_expiry_service.go\<close> and \<open>repository/user_subscription_repo.go\<close>.

  A subscription gives a user access to a group until it expires, within limits on what is used per
  day, week and month. Rows are deleted softly: queries skip a deleted row, an update by key does
  not. The L1 cache in front of \<open>GetActiveSubscription\<close> belongs to a third-party package; what it
  returns is an argument. Days have 24 hours and start at a fixed offset from UTC (a location
  without daylight saving).
\<close>

section \<open>Constants\<close>

definition MaxExpiresAt :: gotime where "MaxExpiresAt = 4102444799 * time_Second"
definition MaxValidityDays :: int where "MaxValidityDays = 36500"
definition time_Zero :: gotime where "time_Zero = -62135596800 * time_Second"

definition SubscriptionStatusActive :: string where "SubscriptionStatusActive = ''active''"
definition SubscriptionStatusExpired :: string where "SubscriptionStatusExpired = ''expired''"
definition SubscriptionStatusSuspended :: string where "SubscriptionStatusSuspended = ''suspended''"
definition SubscriptionTypeSubscription :: string where
  "SubscriptionTypeSubscription = ''subscription''"

lemmas status_defs = SubscriptionStatusActive_def SubscriptionStatusExpired_def
  SubscriptionStatusSuspended_def

definition ErrGroupNotFound :: ApplicationError where
  "ErrGroupNotFound = NotFound ''GROUP_NOT_FOUND'' ''group not found''"
definition ErrSubscriptionExpired :: ApplicationError where
  "ErrSubscriptionExpired = Forbidden ''SUBSCRIPTION_EXPIRED'' ''subscription has expired''"
definition ErrSubscriptionSuspended :: ApplicationError where
  "ErrSubscriptionSuspended = Forbidden ''SUBSCRIPTION_SUSPENDED'' ''subscription is suspended''"
definition ErrSubscriptionAlreadyExists :: ApplicationError where
  "ErrSubscriptionAlreadyExists =
     Conflict ''SUBSCRIPTION_ALREADY_EXISTS'' ''subscription already exists for this user and group''"
definition ErrSubscriptionAssignConflict :: ApplicationError where
  "ErrSubscriptionAssignConflict = Conflict ''SUBSCRIPTION_ASSIGN_CONFLICT''
     ''subscription exists but request conflicts with existing assignment semantics''"
definition ErrGroupNotSubscriptionType :: ApplicationError where
  "ErrGroupNotSubscriptionType =
     BadRequest ''GROUP_NOT_SUBSCRIPTION_TYPE'' ''group is not a subscription type''"
definition ErrInvalidInput :: ApplicationError where
  "ErrInvalidInput = BadRequest ''INVALID_INPUT''
     ''at least one of resetDaily, resetWeekly, or resetMonthly must be true''"
definition ErrDailyLimitExceeded :: ApplicationError where
  "ErrDailyLimitExceeded = TooManyRequests ''DAILY_LIMIT_EXCEEDED'' ''daily usage limit exceeded''"
definition ErrWeeklyLimitExceeded :: ApplicationError where
  "ErrWeeklyLimitExceeded = TooManyRequests ''WEEKLY_LIMIT_EXCEEDED'' ''weekly usage limit exceeded''"
definition ErrMonthlyLimitExceeded :: ApplicationError where
  "ErrMonthlyLimitExceeded =
     TooManyRequests ''MONTHLY_LIMIT_EXCEEDED'' ''monthly usage limit exceeded''"
definition ErrAdjustWouldExpire :: ApplicationError where
  "ErrAdjustWouldExpire = BadRequest ''ADJUST_WOULD_EXPIRE''
     ''adjustment would result in expired subscription (remaining days must be > 0)''"

section \<open>Error translation\<close>

definition translatePersistenceError ::
  "go_error \<Rightarrow> ApplicationError option \<Rightarrow> ApplicationError option \<Rightarrow> go_error" where
  "translatePersistenceError err notFound conflict =
     (case notFound of
        Some a \<Rightarrow> if err = ErrEntNotFound then AppErr (WithCause a err)
          else (case conflict of Some c \<Rightarrow> if err = ErrUnique then AppErr (WithCause c err) else err
                | None \<Rightarrow> err)
      | None \<Rightarrow> (case conflict of Some c \<Rightarrow> if err = ErrUnique then AppErr (WithCause c err) else err
                | None \<Rightarrow> err))"

definition translated :: "ApplicationError option \<Rightarrow> ApplicationError option \<Rightarrow> go_error + 'r \<Rightarrow> go_error + 'r" where
  "translated nf cf r = (case r of Inl e \<Rightarrow> Inl (translatePersistenceError e nf cf) | Inr x \<Rightarrow> Inr x)"

section \<open>The subscription's own methods\<close>

definition IsActive :: "gotime \<Rightarrow> UserSubscription \<Rightarrow> bool" where
  "IsActive now s \<longleftrightarrow> sub_Status s = SubscriptionStatusActive \<and> now < sub_ExpiresAt s"

definition IsExpired :: "gotime \<Rightarrow> UserSubscription \<Rightarrow> bool" where
  "IsExpired now s \<longleftrightarrow> sub_ExpiresAt s < now"

definition DaysRemaining :: "gotime \<Rightarrow> UserSubscription \<Rightarrow> int" where
  "DaysRemaining now s = (if IsExpired now s then 0 else go_div (sub_ExpiresAt s - now) time_Day)"

definition IsWindowActivated :: "UserSubscription \<Rightarrow> bool" where
  "IsWindowActivated s \<longleftrightarrow> sub_DailyWindowStart s \<noteq> None \<or> sub_WeeklyWindowStart s \<noteq> None \<or>
     sub_MonthlyWindowStart s \<noteq> None"

definition window_elapsed :: "duration \<Rightarrow> gotime \<Rightarrow> gotime option \<Rightarrow> bool" where
  "window_elapsed d now start = (case start of None \<Rightarrow> False | Some t \<Rightarrow> d \<le> now - t)"

definition NeedsDailyReset :: "gotime \<Rightarrow> UserSubscription \<Rightarrow> bool" where
  "NeedsDailyReset now s = window_elapsed (24 * time_Hour) now (sub_DailyWindowStart s)"

definition NeedsWeeklyReset :: "gotime \<Rightarrow> UserSubscription \<Rightarrow> bool" where
  "NeedsWeeklyReset now s = window_elapsed (7 * 24 * time_Hour) now (sub_WeeklyWindowStart s)"

definition NeedsMonthlyReset :: "gotime \<Rightarrow> UserSubscription \<Rightarrow> bool" where
  "NeedsMonthlyReset now s = window_elapsed (30 * 24 * time_Hour) now (sub_MonthlyWindowStart s)"

definition DailyResetTime :: "UserSubscription \<Rightarrow> gotime option" where
  "DailyResetTime s = map_option (\<lambda>t. t + 24 * time_Hour) (sub_DailyWindowStart s)"

definition WeeklyResetTime :: "UserSubscription \<Rightarrow> gotime option" where
  "WeeklyResetTime s = map_option (\<lambda>t. t + 7 * 24 * time_Hour) (sub_WeeklyWindowStart s)"

definition MonthlyResetTime :: "UserSubscription \<Rightarrow> gotime option" where
  "MonthlyResetTime s = map_option (\<lambda>t. t + 30 * 24 * time_Hour) (sub_MonthlyWindowStart s)"

text \<open>\<open>HasDailyLimit\<close>, \<open>HasWeeklyLimit\<close> and \<open>HasMonthlyLimit\<close> of a group.\<close>

definition has_limit :: "rat option \<Rightarrow> bool" where
  "has_limit l = (case l of None \<Rightarrow> False | Some x \<Rightarrow> 0 < x)"

definition HasDailyLimit :: "group_rec \<Rightarrow> bool" where "HasDailyLimit g = has_limit (grp_DailyLimitUSD g)"
definition HasWeeklyLimit :: "group_rec \<Rightarrow> bool" where "HasWeeklyLimit g = has_limit (grp_WeeklyLimitUSD g)"
definition HasMonthlyLimit :: "group_rec \<Rightarrow> bool" where "HasMonthlyLimit g = has_limit (grp_MonthlyLimitUSD g)"
definition IsSubscriptionType :: "group_rec \<Rightarrow> bool" where
  "IsSubscriptionType g \<longleftrightarrow> grp_SubscriptionType g = SubscriptionTypeSubscription"

definition CheckDailyLimit :: "UserSubscription \<Rightarrow> group_rec \<Rightarrow> rat \<Rightarrow> bool" where
  "CheckDailyLimit s g cost \<longleftrightarrow>
     \<not> HasDailyLimit g \<or> sub_DailyUsageUSD s + cost \<le> the (grp_DailyLimitUSD g)"

definition CheckWeeklyLimit :: "UserSubscription \<Rightarrow> group_rec \<Rightarrow> rat \<Rightarrow> bool" where
  "CheckWeeklyLimit s g cost \<longleftrightarrow>
     \<not> HasWeeklyLimit g \<or> sub_WeeklyUsageUSD s + cost \<le> the (grp_WeeklyLimitUSD g)"

definition CheckMonthlyLimit :: "UserSubscription \<Rightarrow> group_rec \<Rightarrow> rat \<Rightarrow> bool" where
  "CheckMonthlyLimit s g cost \<longleftrightarrow>
     \<not> HasMonthlyLimit g \<or> sub_MonthlyUsageUSD s + cost \<le> the (grp_MonthlyLimitUSD g)"

definition CheckAllLimits :: "UserSubscription \<Rightarrow> group_rec \<Rightarrow> rat \<Rightarrow> bool \<times> bool \<times> bool" where
  "CheckAllLimits s g cost =
     (CheckDailyLimit s g cost, CheckWeeklyLimit s g cost, CheckMonthlyLimit s g cost)"

section \<open>The repository\<close>

text \<open>Of the statements of \<open>user_subscription_repo.go\<close>: the live rows, and a row by its key.\<close>

definition live_sub :: "int \<Rightarrow> int \<Rightarrow> UserSubscription \<Rightarrow> bool" where
  "live_sub u g s \<longleftrightarrow> sub_UserID s = u \<and> sub_GroupID s = g \<and> \<not> sub_deleted s"

definition active_at :: "gotime \<Rightarrow> UserSubscription \<Rightarrow> bool" where
  "active_at now s \<longleftrightarrow> sub_Status s = SubscriptionStatusActive \<and> now < sub_ExpiresAt s \<and> \<not> sub_deleted s"

definition sub_Create :: "UserSubscription \<Rightarrow> UserSubscription query" where
  "sub_Create s now db =
     (let row = s\<lparr>sub_ID := fresh_id (map sub_ID (db_subs db)),
            sub_StartsAt := (if sub_StartsAt s = time_Zero then now else sub_StartsAt s),
            sub_Status := (if sub_Status s \<noteq> [] then sub_Status s else SubscriptionStatusActive),
            sub_AssignedAt := (if sub_AssignedAt s \<noteq> time_Zero then sub_AssignedAt s else now),
            sub_CreatedAt := now, sub_deleted := False\<rparr>
      in if list_ex (live_sub (sub_UserID s) (sub_GroupID s)) (db_subs db)
         then (Inl (translatePersistenceError ErrUnique None (Some ErrSubscriptionAlreadyExists)), db)
         else (Inr row, db\<lparr>db_subs := db_subs db @ [row]\<rparr>))"

definition sub_GetByID :: "int \<Rightarrow> UserSubscription query" where
  "sub_GetByID i now db = (translated (Some ErrSubscriptionNotFound) None
     (only (\<lambda>s. sub_ID s = i \<and> \<not> sub_deleted s) (db_subs db)), db)"

definition sub_GetByUserIDAndGroupID :: "int \<Rightarrow> int \<Rightarrow> UserSubscription query" where
  "sub_GetByUserIDAndGroupID u g now db = (translated (Some ErrSubscriptionNotFound) None
     (only (live_sub u g) (db_subs db)), db)"

definition sub_GetActiveByUserIDAndGroupID :: "int \<Rightarrow> int \<Rightarrow> UserSubscription query" where
  "sub_GetActiveByUserIDAndGroupID u g now db = (translated (Some ErrSubscriptionNotFound) None
     (only (\<lambda>s. live_sub u g s \<and> active_at now s) (db_subs db)), db)"

definition sub_ExistsByUserIDAndGroupID :: "int \<Rightarrow> int \<Rightarrow> bool query" where
  "sub_ExistsByUserIDAndGroupID u g now db = (Inr (list_ex (live_sub u g) (db_subs db)), db)"

definition newest_first :: "UserSubscription list \<Rightarrow> UserSubscription list" where
  "newest_first ss = sort_key (\<lambda>s. - sub_CreatedAt s) ss"

definition sub_ListByUserID :: "int \<Rightarrow> UserSubscription list query" where
  "sub_ListByUserID u now db =
     (Inr (newest_first (filter (\<lambda>s. sub_UserID s = u \<and> \<not> sub_deleted s) (db_subs db))), db)"

definition sub_ListActiveByUserID :: "int \<Rightarrow> UserSubscription list query" where
  "sub_ListActiveByUserID u now db =
     (Inr (newest_first (filter (\<lambda>s. sub_UserID s = u \<and> active_at now s) (db_subs db))), db)"

text \<open>\<open>UpdateOneID(id)\<close> with its setters: the row of the key, deleted or not.\<close>

definition sub_update :: "int \<Rightarrow> (UserSubscription \<Rightarrow> UserSubscription) \<Rightarrow> unit query" where
  "sub_update i f now db =
     (if list_ex (\<lambda>s. sub_ID s = i) (db_subs db)
      then (Inr (), db\<lparr>db_subs := change (\<lambda>s. sub_ID s = i) f (db_subs db)\<rparr>)
      else (Inl (translatePersistenceError ErrEntNotFound (Some ErrSubscriptionNotFound) None), db))"

definition ExtendExpiry :: "int \<Rightarrow> gotime \<Rightarrow> unit query" where
  "ExtendExpiry i t = sub_update i (sub_ExpiresAt_update (\<lambda>_. t))"

definition UpdateStatus :: "int \<Rightarrow> string \<Rightarrow> unit query" where
  "UpdateStatus i st = sub_update i (sub_Status_update (\<lambda>_. st))"

definition UpdateNotes :: "int \<Rightarrow> string \<Rightarrow> unit query" where
  "UpdateNotes i n = sub_update i (sub_Notes_update (\<lambda>_. n))"

definition ActivateWindows :: "int \<Rightarrow> gotime \<Rightarrow> unit query" where
  "ActivateWindows i t = sub_update i (\<lambda>s. s\<lparr>sub_DailyWindowStart := Some t,
     sub_WeeklyWindowStart := Some t, sub_MonthlyWindowStart := Some t\<rparr>)"

definition ResetDailyUsage :: "int \<Rightarrow> gotime \<Rightarrow> unit query" where
  "ResetDailyUsage i t =
     sub_update i (\<lambda>s. s\<lparr>sub_DailyUsageUSD := 0, sub_DailyWindowStart := Some t\<rparr>)"

definition ResetWeeklyUsage :: "int \<Rightarrow> gotime \<Rightarrow> unit query" where
  "ResetWeeklyUsage i t =
     sub_update i (\<lambda>s. s\<lparr>sub_WeeklyUsageUSD := 0, sub_WeeklyWindowStart := Some t\<rparr>)"

definition ResetMonthlyUsage :: "int \<Rightarrow> gotime \<Rightarrow> unit query" where
  "ResetMonthlyUsage i t =
     sub_update i (\<lambda>s. s\<lparr>sub_MonthlyUsageUSD := 0, sub_MonthlyWindowStart := Some t\<rparr>)"

definition IncrementUsage :: "int \<Rightarrow> rat \<Rightarrow> unit query" where
  "IncrementUsage i cost now db =
     (let p = (\<lambda>s. sub_ID s = i \<and> \<not> sub_deleted s \<and>
                list_ex (\<lambda>g. grp_ID g = sub_GroupID s \<and> \<not> grp_deleted g) (db_groups db))
      in if 0 < matches p (db_subs db)
         then (Inr (), db\<lparr>db_subs := change p (\<lambda>s. s\<lparr>sub_DailyUsageUSD := sub_DailyUsageUSD s + cost,
                  sub_WeeklyUsageUSD := sub_WeeklyUsageUSD s + cost,
                  sub_MonthlyUsageUSD := sub_MonthlyUsageUSD s + cost\<rparr>) (db_subs db)\<rparr>)
         else (Inl (AppErr ErrSubscriptionNotFound), db))"

definition sub_Delete :: "int \<Rightarrow> unit query" where
  "sub_Delete i now db = (Inr (), db\<lparr>db_subs :=
     change (\<lambda>s. sub_ID s = i \<and> \<not> sub_deleted s) (sub_deleted_update (\<lambda>_. True)) (db_subs db)\<rparr>)"

definition DeleteByGroupID :: "int \<Rightarrow> nat query" where
  "DeleteByGroupID g now db =
     (let p = (\<lambda>s. sub_GroupID s = g \<and> \<not> sub_deleted s)
      in (Inr (matches p (db_subs db)),
          db\<lparr>db_subs := change p (sub_deleted_update (\<lambda>_. True)) (db_subs db)\<rparr>))"

definition BatchUpdateExpiredStatus :: "nat query" where
  "BatchUpdateExpiredStatus now db =
     (let p = (\<lambda>s. sub_Status s = SubscriptionStatusActive \<and> sub_ExpiresAt s \<le> now)
      in (Inr (matches p (db_subs db)), db\<lparr>db_subs :=
            change p (sub_Status_update (\<lambda>_. SubscriptionStatusExpired)) (db_subs db)\<rparr>))"

definition group_GetByID :: "int \<Rightarrow> group_rec query" where
  "group_GetByID g now db = (translated (Some ErrGroupNotFound) None
     (only (\<lambda>r. grp_ID r = g \<and> \<not> grp_deleted r) (db_groups db)), db)"

section \<open>Assigning and extending\<close>

record AssignSubscriptionInput =
  as_UserID :: int
  as_GroupID :: int
  as_ValidityDays :: int
  as_AssignedBy :: int
  as_Notes :: string

definition AddDays :: "gotime \<Rightarrow> int \<Rightarrow> gotime" where
  "AddDays t n = t + n * time_Day"

definition capped :: "gotime \<Rightarrow> gotime" where
  "capped t = (if MaxExpiresAt < t then MaxExpiresAt else t)"

definition normalizeAssignValidityDays :: "int \<Rightarrow> int" where
  "normalizeAssignValidityDays days =
     (let d = (if days \<le> 0 then 30 else days) in if MaxValidityDays < d then MaxValidityDays else d)"

definition createSubscription :: "AssignSubscriptionInput \<Rightarrow> UserSubscription handler" where
  "createSubscription inp =
     time_Now (\<lambda>now.
       let sub = \<lparr>sub_ID = 0, sub_UserID = as_UserID inp, sub_GroupID = as_GroupID inp,
             sub_StartsAt = now,
             sub_ExpiresAt = capped (AddDays now (normalizeAssignValidityDays (as_ValidityDays inp))),
             sub_Status = SubscriptionStatusActive, sub_DailyWindowStart = None,
             sub_WeeklyWindowStart = None, sub_MonthlyWindowStart = None, sub_DailyUsageUSD = 0,
             sub_WeeklyUsageUSD = 0, sub_MonthlyUsageUSD = 0,
             sub_AssignedBy = (if 0 < as_AssignedBy inp then Some (as_AssignedBy inp) else None),
             sub_AssignedAt = now, sub_Notes = as_Notes inp, sub_CreatedAt = now, sub_deleted = False\<rparr>
       in stmt (sub_Create sub) (on_error fail (\<lambda>created.
            stmt (sub_GetByID (sub_ID created)) Return)))"

text \<open>The renewal's transaction: expiry, status and notes.\<close>

definition append_notes :: "string \<Rightarrow> string \<Rightarrow> string" where
  "append_notes old new = (if old \<noteq> [] then old @ [CHR 0x0A] else old) @ new"

definition extend_tx :: "UserSubscription \<Rightarrow> gotime \<Rightarrow> string \<Rightarrow> unit handler" where
  "extend_tx sub newExpiresAt notes =
     stmt (ExtendExpiry (sub_ID sub) newExpiresAt) (on_error (wrap ''extend subscription'') (\<lambda>_.
       let note = (if notes \<noteq> []
             then stmt (UpdateNotes (sub_ID sub) (append_notes (sub_Notes sub) notes))
                    (on_error (wrap ''update subscription notes'') succeed)
             else succeed ())
       in if sub_Status sub \<noteq> SubscriptionStatusActive
          then stmt (UpdateStatus (sub_ID sub) SubscriptionStatusActive)
                 (on_error (wrap ''update subscription status'') (\<lambda>_. note))
          else note))"

definition renewed_expiry :: "gotime \<Rightarrow> UserSubscription \<Rightarrow> int \<Rightarrow> gotime" where
  "renewed_expiry now sub days =
     capped (if now < sub_ExpiresAt sub then AddDays (sub_ExpiresAt sub) days else AddDays now days)"

definition AssignOrExtendSubscription :: "AssignSubscriptionInput \<Rightarrow> (UserSubscription \<times> bool) handler" where
  "AssignOrExtendSubscription inp =
     stmt (group_GetByID (as_GroupID inp)) (on_error (wrap ''group not found'') (\<lambda>group.
       if \<not> IsSubscriptionType group then fail (AppErr ErrGroupNotSubscriptionType)
       else stmt (sub_GetByUserIDAndGroupID (as_UserID inp) (as_GroupID inp)) (\<lambda>existing.
         case existing of
           Inr sub \<Rightarrow>
             time_Now (\<lambda>now.
               atomically (separate_transaction (extend_tx sub
                   (renewed_expiry now sub (normalizeAssignValidityDays (as_ValidityDays inp)))
                   (as_Notes inp)))
                 (on_error fail (\<lambda>_.
                   stmt (sub_GetByID (sub_ID sub)) (on_error fail (\<lambda>s. succeed (s, True))))))
         | Inl _ \<Rightarrow>
             bind (createSubscription inp) (on_error fail (\<lambda>s. succeed (s, False))))))"

definition detectAssignSemanticConflict ::
  "UserSubscription \<Rightarrow> AssignSubscriptionInput \<Rightarrow> string option" where
  "detectAssignSemanticConflict existing inp =
     (if sub_StartsAt existing \<noteq> time_Zero \<and>
         sub_ExpiresAt existing \<noteq>
           capped (AddDays (sub_StartsAt existing) (normalizeAssignValidityDays (as_ValidityDays inp)))
      then Some ''validity_days_mismatch''
      else if TrimSpace (sub_Notes existing) \<noteq> TrimSpace (as_Notes inp) then Some ''notes_mismatch''
      else None)"

definition assignSubscriptionWithReuse ::
  "AssignSubscriptionInput \<Rightarrow> (UserSubscription \<times> bool) handler" where
  "assignSubscriptionWithReuse inp =
     stmt (group_GetByID (as_GroupID inp)) (on_error (wrap ''group not found'') (\<lambda>group.
       if \<not> IsSubscriptionType group then fail (AppErr ErrGroupNotSubscriptionType)
       else stmt (sub_ExistsByUserIDAndGroupID (as_UserID inp) (as_GroupID inp)) (on_error fail (\<lambda>exists.
         if exists then
           stmt (sub_GetByUserIDAndGroupID (as_UserID inp) (as_GroupID inp)) (on_error fail (\<lambda>sub.
             case detectAssignSemanticConflict sub inp of
               Some reason \<Rightarrow> fail (AppErr (WithMetadata ErrSubscriptionAssignConflict
                   (Some [''conflict_reason'' \<mapsto> reason])))
             | None \<Rightarrow> succeed (sub, True)))
         else bind (createSubscription inp) (on_error fail (\<lambda>s. succeed (s, False)))))))"

definition AssignSubscription :: "AssignSubscriptionInput \<Rightarrow> UserSubscription handler" where
  "AssignSubscription inp =
     bind (assignSubscriptionWithReuse inp) (on_error fail (\<lambda>(s, _). succeed s))"

record BulkAssignResult =
  br_SuccessCount :: nat
  br_CreatedCount :: nat
  br_ReusedCount :: nat
  br_FailedCount :: nat
  br_Subscriptions :: "UserSubscription list"
  br_Statuses :: "int \<Rightarrow> string option"

definition bulk_step :: "int \<Rightarrow> go_error + (UserSubscription \<times> bool) \<Rightarrow> BulkAssignResult \<Rightarrow> BulkAssignResult" where
  "bulk_step u r b =
     (case r of
        Inl e \<Rightarrow> b\<lparr>br_FailedCount := br_FailedCount b + 1,
                   br_Statuses := (br_Statuses b)(u \<mapsto> ''failed'')\<rparr>
      | Inr (s, reused) \<Rightarrow>
          (let b1 = b\<lparr>br_SuccessCount := br_SuccessCount b + 1,
                      br_Subscriptions := br_Subscriptions b @ [s]\<rparr>
           in if reused then b1\<lparr>br_ReusedCount := br_ReusedCount b1 + 1,
                                br_Statuses := (br_Statuses b1)(u \<mapsto> ''reused'')\<rparr>
              else b1\<lparr>br_CreatedCount := br_CreatedCount b1 + 1,
                      br_Statuses := (br_Statuses b1)(u \<mapsto> ''created'')\<rparr>))"

definition BulkAssignSubscription :: "int list \<Rightarrow> AssignSubscriptionInput \<Rightarrow> (world, BulkAssignResult) prog" where
  "BulkAssignSubscription users inp =
     foreach users (\<lambda>u b. bind (assignSubscriptionWithReuse (inp\<lparr>as_UserID := u\<rparr>))
         (\<lambda>r. Return (bulk_step u r b)))
       \<lparr>br_SuccessCount = 0, br_CreatedCount = 0, br_ReusedCount = 0, br_FailedCount = 0,
        br_Subscriptions = [], br_Statuses = Map.empty\<rparr>"

definition RevokeSubscription :: "int \<Rightarrow> unit handler" where
  "RevokeSubscription i =
     stmt (sub_GetByID i) (on_error fail (\<lambda>_. stmt (sub_Delete i) (on_error fail succeed)))"

definition ExtendSubscription :: "int \<Rightarrow> int \<Rightarrow> UserSubscription handler" where
  "ExtendSubscription i days =
     stmt (sub_GetByID i) (on_error (\<lambda>_. fail (AppErr ErrSubscriptionNotFound)) (\<lambda>sub.
       let days = (if MaxValidityDays < days then MaxValidityDays
                   else if days < - MaxValidityDays then - MaxValidityDays else days)
       in time_Now (\<lambda>now.
            let isExpired = (\<not> now < sub_ExpiresAt sub);
                newExpiresAt = capped (if isExpired then AddDays now days else AddDays (sub_ExpiresAt sub) days)
            in if isExpired \<and> days < 0
               then fail (AppErr (BadRequest ''CANNOT_SHORTEN_EXPIRED'' ''cannot shorten an expired subscription''))
               else if \<not> now < newExpiresAt then fail (AppErr ErrAdjustWouldExpire)
               else stmt (ExtendExpiry i newExpiresAt) (on_error fail (\<lambda>_.
                 if sub_Status sub = SubscriptionStatusExpired
                 then stmt (UpdateStatus i SubscriptionStatusActive) (on_error fail (\<lambda>_.
                        stmt (sub_GetByID i) Return))
                 else stmt (sub_GetByID i) Return)))))"

text \<open>\<open>GetActiveSubscription\<close>: the cached copy, if the L1 cache has one.\<close>

definition GetActiveSubscription :: "(int \<Rightarrow> int \<Rightarrow> UserSubscription option) \<Rightarrow> int \<Rightarrow> int \<Rightarrow>
    UserSubscription handler" where
  "GetActiveSubscription l1 u g =
     (case l1 u g of
        Some cp \<Rightarrow> succeed cp
      | None \<Rightarrow> stmt (sub_GetActiveByUserIDAndGroupID u g) Return)"

section \<open>Usage windows\<close>

definition startOfDay :: "duration \<Rightarrow> gotime \<Rightarrow> gotime" where
  "startOfDay offset t = t - (t + offset) mod time_Day"

definition CheckAndActivateWindow :: "duration \<Rightarrow> UserSubscription \<Rightarrow> unit handler" where
  "CheckAndActivateWindow loc sub =
     (if IsWindowActivated sub then succeed ()
      else time_Now (\<lambda>now. stmt (ActivateWindows (sub_ID sub) (startOfDay loc now)) Return))"

definition when_ok :: "bool \<Rightarrow> unit query \<Rightarrow> 'b handler \<Rightarrow> 'b handler" where
  "when_ok c q k = (if c then stmt q (on_error fail (\<lambda>_. k)) else k)"

definition AdminResetQuota :: "duration \<Rightarrow> int \<Rightarrow> bool \<Rightarrow> bool \<Rightarrow> bool \<Rightarrow> UserSubscription handler" where
  "AdminResetQuota loc i resetDaily resetWeekly resetMonthly =
     (if \<not> resetDaily \<and> \<not> resetWeekly \<and> \<not> resetMonthly then fail (AppErr ErrInvalidInput)
      else stmt (sub_GetByID i) (on_error fail (\<lambda>sub. time_Now (\<lambda>now.
        when_ok resetDaily (ResetDailyUsage (sub_ID sub) (startOfDay loc now))
          (when_ok resetWeekly (ResetWeeklyUsage (sub_ID sub) (startOfDay loc now))
            (when_ok resetMonthly (ResetMonthlyUsage (sub_ID sub) (startOfDay loc now))
              (stmt (sub_GetByID i) Return)))))))"

text \<open>The caller's subscription is changed too; the result is what it then is.\<close>

definition CheckAndResetWindows :: "duration \<Rightarrow> UserSubscription \<Rightarrow> UserSubscription handler" where
  "CheckAndResetWindows loc sub0 =
     time_Now (\<lambda>t. let windowStart = startOfDay loc t in
     time_Now (\<lambda>t1. let d = NeedsDailyReset t1 sub0;
         sub1 = (if d then sub0\<lparr>sub_DailyWindowStart := Some windowStart, sub_DailyUsageUSD := 0\<rparr> else sub0)
       in when_ok d (ResetDailyUsage (sub_ID sub0) windowStart)
     (time_Now (\<lambda>t2. let w = NeedsWeeklyReset t2 sub1;
         sub2 = (if w then sub1\<lparr>sub_WeeklyWindowStart := Some windowStart, sub_WeeklyUsageUSD := 0\<rparr> else sub1)
       in when_ok w (ResetWeeklyUsage (sub_ID sub0) windowStart)
     (time_Now (\<lambda>t3. let m = NeedsMonthlyReset t3 sub2;
         sub3 = (if m then sub2\<lparr>sub_MonthlyWindowStart := Some windowStart, sub_MonthlyUsageUSD := 0\<rparr> else sub2)
       in when_ok m (ResetMonthlyUsage (sub_ID sub0) windowStart) (succeed sub3)))))))"

text \<open>\<open>doWindowMaintenance\<close> logs errors and goes on.\<close>

definition doWindowMaintenance :: "duration \<Rightarrow> UserSubscription \<Rightarrow> (world, unit) prog" where
  "doWindowMaintenance loc sub =
     bind (if \<not> IsWindowActivated sub then CheckAndActivateWindow loc sub else succeed ())
       (\<lambda>_. bind (CheckAndResetWindows loc sub) (\<lambda>_. Return ()))"

definition CheckUsageLimits :: "UserSubscription \<Rightarrow> group_rec \<Rightarrow> rat \<Rightarrow> go_error option" where
  "CheckUsageLimits sub g cost =
     (if \<not> CheckDailyLimit sub g cost then Some (AppErr ErrDailyLimitExceeded)
      else if \<not> CheckWeeklyLimit sub g cost then Some (AppErr ErrWeeklyLimitExceeded)
      else if \<not> CheckMonthlyLimit sub g cost then Some (AppErr ErrMonthlyLimitExceeded)
      else None)"

definition ValidateAndCheckLimits :: "gotime \<Rightarrow> UserSubscription \<Rightarrow> group_rec \<Rightarrow>
    (bool \<times> go_error option) \<times> UserSubscription" where
  "ValidateAndCheckLimits now sub g =
     (if sub_Status sub = SubscriptionStatusExpired then ((False, Some (AppErr ErrSubscriptionExpired)), sub)
      else if sub_Status sub = SubscriptionStatusSuspended
        then ((False, Some (AppErr ErrSubscriptionSuspended)), sub)
      else if IsExpired now sub then ((False, Some (AppErr ErrSubscriptionExpired)), sub)
      else
        (let d = NeedsDailyReset now sub; w = NeedsWeeklyReset now sub; m = NeedsMonthlyReset now sub;
             sub1 = (if d then sub\<lparr>sub_DailyUsageUSD := 0\<rparr> else sub);
             sub2 = (if w then sub1\<lparr>sub_WeeklyUsageUSD := 0\<rparr> else sub1);
             sub3 = (if m then sub2\<lparr>sub_MonthlyUsageUSD := 0\<rparr> else sub2);
             needs = (d \<or> w \<or> m \<or> \<not> IsWindowActivated sub3)
         in if \<not> CheckDailyLimit sub3 g 0 then ((needs, Some (AppErr ErrDailyLimitExceeded)), sub3)
            else if \<not> CheckWeeklyLimit sub3 g 0 then ((needs, Some (AppErr ErrWeeklyLimitExceeded)), sub3)
            else if \<not> CheckMonthlyLimit sub3 g 0 then ((needs, Some (AppErr ErrMonthlyLimitExceeded)), sub3)
            else ((needs, None), sub3)))"

definition ValidateSubscription :: "UserSubscription \<Rightarrow> (world, go_error option) prog" where
  "ValidateSubscription sub =
     (if sub_Status sub = SubscriptionStatusExpired then Return (Some (AppErr ErrSubscriptionExpired))
      else if sub_Status sub = SubscriptionStatusSuspended
        then Return (Some (AppErr ErrSubscriptionSuspended))
      else time_Now (\<lambda>now.
        if IsExpired now sub
        then stmt (UpdateStatus (sub_ID sub) SubscriptionStatusExpired)
               (\<lambda>_. Return (Some (AppErr ErrSubscriptionExpired)))
        else Return None))"

definition RecordUsage :: "int \<Rightarrow> rat \<Rightarrow> unit handler" where
  "RecordUsage i cost = stmt (IncrementUsage i cost) Return"

section \<open>What is shown\<close>

definition normalized_windows :: "gotime \<Rightarrow> UserSubscription \<Rightarrow> UserSubscription" where
  "normalized_windows now s =
     (let s1 = (if NeedsDailyReset now s then s\<lparr>sub_DailyWindowStart := None, sub_DailyUsageUSD := 0\<rparr> else s);
          s2 = (if NeedsWeeklyReset now s1 then s1\<lparr>sub_WeeklyWindowStart := None, sub_WeeklyUsageUSD := 0\<rparr> else s1)
      in (if NeedsMonthlyReset now s2 then s2\<lparr>sub_MonthlyWindowStart := None, sub_MonthlyUsageUSD := 0\<rparr> else s2))"

definition normalizeExpiredWindows :: "gotime \<Rightarrow> UserSubscription list \<Rightarrow> UserSubscription list" where
  "normalizeExpiredWindows now subs = map (normalized_windows now) subs"

definition normalizeSubscriptionStatus :: "gotime \<Rightarrow> UserSubscription list \<Rightarrow> UserSubscription list" where
  "normalizeSubscriptionStatus now subs =
     map (\<lambda>s. if sub_Status s = SubscriptionStatusActive \<and> \<not> now < sub_ExpiresAt s
              then s\<lparr>sub_Status := SubscriptionStatusExpired\<rparr> else s) subs"

definition ListUserSubscriptions :: "int \<Rightarrow> UserSubscription list handler" where
  "ListUserSubscriptions u =
     stmt (sub_ListByUserID u) (on_error fail (\<lambda>subs.
       time_Now (\<lambda>t. time_Now (\<lambda>t1.
         succeed (normalizeSubscriptionStatus t1 (normalizeExpiredWindows t subs))))))"

definition ListActiveUserSubscriptions :: "int \<Rightarrow> UserSubscription list handler" where
  "ListActiveUserSubscriptions u =
     stmt (sub_ListActiveByUserID u) (on_error fail (\<lambda>subs.
       time_Now (\<lambda>t. succeed (normalizeExpiredWindows t subs))))"

record UsageWindowProgress =
  uw_LimitUSD :: rat
  uw_UsedUSD :: rat
  uw_RemainingUSD :: rat
  uw_Percentage :: rat
  uw_WindowStart :: gotime
  uw_ResetsAt :: gotime
  uw_ResetsInSeconds :: int

record SubscriptionProgress =
  sp_ID :: int
  sp_GroupName :: string
  sp_ExpiresAt :: gotime
  sp_ExpiresInDays :: int
  sp_Daily :: "UsageWindowProgress option"
  sp_Weekly :: "UsageWindowProgress option"
  sp_Monthly :: "UsageWindowProgress option"

definition window_progress :: "gotime \<Rightarrow> duration \<Rightarrow> rat option \<Rightarrow> rat \<Rightarrow> gotime option \<Rightarrow>
    UsageWindowProgress option" where
  "window_progress now d limit used start =
     (case start of
        Some t \<Rightarrow>
          if has_limit limit then
            (let l = the limit; resetsAt = t + d; remaining = l - used; pct = used / l * 100;
                 secs = whole_seconds (resetsAt - now)
             in Some \<lparr>uw_LimitUSD = l, uw_UsedUSD = used,
                  uw_RemainingUSD = (if remaining < 0 then 0 else remaining),
                  uw_Percentage = (if 100 < pct then 100 else pct), uw_WindowStart = t,
                  uw_ResetsAt = resetsAt, uw_ResetsInSeconds = (if secs < 0 then 0 else secs)\<rparr>)
          else None
      | None \<Rightarrow> None)"

definition calculateProgress :: "gotime \<Rightarrow> UserSubscription \<Rightarrow> group_rec \<Rightarrow> SubscriptionProgress" where
  "calculateProgress now sub g =
     \<lparr>sp_ID = sub_ID sub, sp_GroupName = grp_Name g, sp_ExpiresAt = sub_ExpiresAt sub,
      sp_ExpiresInDays = DaysRemaining now sub,
      sp_Daily = window_progress now (24 * time_Hour) (grp_DailyLimitUSD g) (sub_DailyUsageUSD sub)
        (sub_DailyWindowStart sub),
      sp_Weekly = window_progress now (7 * 24 * time_Hour) (grp_WeeklyLimitUSD g) (sub_WeeklyUsageUSD sub)
        (sub_WeeklyWindowStart sub),
      sp_Monthly = window_progress now (30 * 24 * time_Hour) (grp_MonthlyLimitUSD g)
        (sub_MonthlyUsageUSD sub) (sub_MonthlyWindowStart sub)\<rparr>"

definition GetSubscriptionProgress :: "int \<Rightarrow> SubscriptionProgress handler" where
  "GetSubscriptionProgress i =
     stmt (sub_GetByID i) (on_error (\<lambda>_. fail (AppErr ErrSubscriptionNotFound)) (\<lambda>sub.
       stmt (group_GetByID (sub_GroupID sub)) (on_error fail (\<lambda>g.
         time_Now (\<lambda>now. succeed (calculateProgress now sub g))))))"

end
