(* ===== verification/SubscriptionProps.thy ===== *)
theory SubscriptionProps
  imports Subscription
begin

text \<open>
  What subscriptions guarantee: the tables stay well formed under every interleaving of the
  service's calls with faults and lost processes; renewing, shortening and the usage windows
  work as intended when a call runs alone; and two places where concurrent calls lose an effect.
\<close>

section \<open>Well-formed tables\<close>

text \<open>
  Keys are unique, a user has at most one live subscription per group (the partial unique index),
  and no subscription lasts beyond \<open>MaxExpiresAt\<close>.
\<close>

definition sub_key :: "UserSubscription \<Rightarrow> int \<times> int" where
  "sub_key s = (sub_UserID s, sub_GroupID s)"

definition live_subs :: "UserSubscription list \<Rightarrow> UserSubscription list" where
  "live_subs ss = filter (\<lambda>s. \<not> sub_deleted s) ss"

definition subs_wf :: "business_db \<Rightarrow> bool" where
  "subs_wf db \<longleftrightarrow> distinct (map sub_ID (db_subs db)) \<and>
     distinct (map sub_key (live_subs (db_subs db))) \<and>
     (\<forall>s \<in> set (db_subs db). sub_ExpiresAt s \<le> MaxExpiresAt)"

definition keeps_wf :: "business_db \<Rightarrow> business_db \<Rightarrow> bool" where
  "keeps_wf db db1 \<longleftrightarrow> (subs_wf db \<longrightarrow> subs_wf db1)"

lemma capped_le [simp]: "capped t \<le> MaxExpiresAt"
  by (simp add: capped_def)

lemma live_subs_change:
  "(\<And>s. sub_deleted (f s) = sub_deleted s) \<Longrightarrow> live_subs (change p f ss) = change p f (live_subs ss)"
  by (induction ss) (simp_all add: live_subs_def change_def)

lemma live_subs_delete:
  "live_subs (change p (sub_deleted_update (\<lambda>_. True)) ss) = filter (\<lambda>s. \<not> p s) (live_subs ss)"
  by (induction ss) (simp_all add: live_subs_def change_def)

lemma keeps_wf_change:
  assumes "\<And>s. sub_ID (f s) = sub_ID s" "\<And>s. sub_key (f s) = sub_key s"
    "\<And>s. sub_deleted (f s) = sub_deleted s"
    "\<And>s. sub_ExpiresAt s \<le> MaxExpiresAt \<Longrightarrow> sub_ExpiresAt (f s) \<le> MaxExpiresAt"
  shows "keeps_wf db (db\<lparr>db_subs := change p f (db_subs db)\<rparr>)"
  using assms by (auto simp: keeps_wf_def subs_wf_def map_change live_subs_change set_change)

lemma keeps_wf_delete:
  "keeps_wf db (db\<lparr>db_subs := change p (sub_deleted_update (\<lambda>_. True)) (db_subs db)\<rparr>)"
  by (auto simp: keeps_wf_def subs_wf_def map_change live_subs_delete set_change distinct_map_filter)

lemma keeps_wf_refl [simp]: "keeps_wf db db"
  by (simp add: keeps_wf_def)

lemma keeps_wf_update:
  assumes "\<And>s. sub_ID (f s) = sub_ID s" "\<And>s. sub_key (f s) = sub_key s"
    "\<And>s. sub_deleted (f s) = sub_deleted s"
    "\<And>s. sub_ExpiresAt s \<le> MaxExpiresAt \<Longrightarrow> sub_ExpiresAt (f s) \<le> MaxExpiresAt"
  shows "keeps_wf db (snd (sub_update i f now db))"
  using keeps_wf_change [OF assms] by (simp add: sub_update_def)

lemma keeps_wf_create:
  assumes "sub_ExpiresAt s \<le> MaxExpiresAt"
  shows "keeps_wf db (snd (sub_Create s now db))"
proof (cases "list_ex (live_sub (sub_UserID s) (sub_GroupID s)) (db_subs db)")
  case False
  then have "sub_key s \<notin> sub_key ` set (live_subs (db_subs db))"
    by (auto simp: list_ex_iff live_sub_def sub_key_def live_subs_def)
  then show ?thesis
    using assms False
    by (auto simp: sub_Create_def Let_def keeps_wf_def subs_wf_def live_subs_def sub_key_def
        dest: fresh_id_neq)
qed (simp add: sub_Create_def Let_def)

text \<open>Every statement of the repository, as the service uses it.\<close>

lemma keeps_wf_statements [simp]:
  "keeps_wf db (snd (sub_GetByID i now db))"
  "keeps_wf db (snd (sub_GetByUserIDAndGroupID u g now db))"
  "keeps_wf db (snd (sub_GetActiveByUserIDAndGroupID u g now db))"
  "keeps_wf db (snd (sub_ExistsByUserIDAndGroupID u g now db))"
  "keeps_wf db (snd (sub_ListByUserID u now db))"
  "keeps_wf db (snd (sub_ListActiveByUserID u now db))"
  "keeps_wf db (snd (group_GetByID g now db))"
  "keeps_wf db (snd (UpdateStatus i st now db))"
  "keeps_wf db (snd (UpdateNotes i n now db))"
  "keeps_wf db (snd (ActivateWindows i t now db))"
  "keeps_wf db (snd (ResetDailyUsage i t now db))"
  "keeps_wf db (snd (ResetWeeklyUsage i t now db))"
  "keeps_wf db (snd (ResetMonthlyUsage i t now db))"
  "keeps_wf db (snd (IncrementUsage i cost now db))"
  "keeps_wf db (snd (sub_Delete i now db))"
  "keeps_wf db (snd (DeleteByGroupID g now db))"
  "keeps_wf db (snd (BatchUpdateExpiredStatus now db))"
  by (simp_all add: sub_GetByID_def sub_GetByUserIDAndGroupID_def sub_GetActiveByUserIDAndGroupID_def
      sub_ExistsByUserIDAndGroupID_def sub_ListByUserID_def sub_ListActiveByUserID_def
      group_GetByID_def UpdateStatus_def UpdateNotes_def ActivateWindows_def ResetDailyUsage_def
      ResetWeeklyUsage_def ResetMonthlyUsage_def keeps_wf_update sub_key_def IncrementUsage_def
      Let_def keeps_wf_change sub_Delete_def keeps_wf_delete DeleteByGroupID_def
      BatchUpdateExpiredStatus_def)

lemma keeps_wf_ExtendExpiry: "t \<le> MaxExpiresAt \<Longrightarrow> keeps_wf db (snd (ExtendExpiry i t now db))"
  by (simp add: ExtendExpiry_def keeps_wf_update sub_key_def)

interpretation subs: db_rely keeps_wf
  by unfold_locales (auto simp: keeps_wf_def)

section \<open>Every interleaving\<close>

text \<open>The calls of the service, as the handlers, the jobs and the middleware make them.\<close>

datatype subscription_call =
    CallAssignOrExtend AssignSubscriptionInput
  | CallAssign AssignSubscriptionInput
  | CallBulkAssign "int list" AssignSubscriptionInput
  | CallRevoke int
  | CallExtend int int
  | CallAdminReset int bool bool bool
  | CallMaintenance UserSubscription
  | CallValidate UserSubscription
  | CallRecordUsage int rat
  | CallExpiryJob

definition discard :: "(world, 'a) prog \<Rightarrow> (world, unit) prog" where
  "discard p = bind p (\<lambda>_. Return ())"

primrec serve :: "duration \<Rightarrow> subscription_call \<Rightarrow> (world, unit) prog" where
  "serve loc (CallAssignOrExtend inp) = discard (AssignOrExtendSubscription inp)"
| "serve loc (CallAssign inp) = discard (AssignSubscription inp)"
| "serve loc (CallBulkAssign us inp) = discard (BulkAssignSubscription us inp)"
| "serve loc (CallRevoke i) = discard (RevokeSubscription i)"
| "serve loc (CallExtend i days) = discard (ExtendSubscription i days)"
| "serve loc (CallAdminReset i d w m) = discard (AdminResetQuota loc i d w m)"
| "serve loc (CallMaintenance sub) = doWindowMaintenance loc sub"
| "serve loc (CallValidate sub) = discard (ValidateSubscription sub)"
| "serve loc (CallRecordUsage i cost) = discard (RecordUsage i cost)"
| "serve loc CallExpiryJob = stmt BatchUpdateExpiredStatus (\<lambda>_. Return ())"

text \<open>Between the calls the clock moves on and the database has new faults in store.\<close>

definition tick :: "world \<Rightarrow> world \<Rightarrow> bool" where
  "tick w w1 \<longleftrightarrow> w_db w1 = w_db w \<and> w_base w1 = w_base w \<and> w_now w \<le> w_now w1"

abbreviation good :: "(world, 'a) prog \<Rightarrow> world \<Rightarrow> bool" where
  "good p w \<equiv> guards (moves keeps_wf) (moves keeps_wf) (\<lambda>_ _. True) p w"

lemma good_createSubscription: "good (createSubscription inp) w"
  unfolding createSubscription_def Let_def
  by (intro subs.guards_time_Now subs.guards_stmt_any subs.guards_on_error keeps_wf_create) simp_all

lemma good_extend_tx: "t \<le> MaxExpiresAt \<Longrightarrow> good (extend_tx sub t notes) w"
  unfolding extend_tx_def Let_def
  by (intro subs.guards_stmt_any subs.guards_on_error subs.guards_if keeps_wf_ExtendExpiry) simp_all

lemma renewed_expiry_le: "renewed_expiry now sub d \<le> MaxExpiresAt"
  by (simp add: renewed_expiry_def)

lemma moves_base: "moves D w w1 \<Longrightarrow> w_base w = None \<Longrightarrow> w_base w1 = None"
  by (simp add: moves_def)

lemma good_AssignOrExtend: "w_base w = None \<Longrightarrow> good (AssignOrExtendSubscription inp) w"
  unfolding AssignOrExtendSubscription_def
  by (intro subs.guards_intros subs.guards_separate good_createSubscription good_extend_tx
      renewed_expiry_le) (auto dest: moves_base)

lemma good_assignSubscriptionWithReuse: "good (assignSubscriptionWithReuse inp) w"
  unfolding assignSubscriptionWithReuse_def
  by (intro subs.guards_intros good_createSubscription) simp_all

lemma good_AssignSubscription: "good (AssignSubscription inp) w"
  unfolding AssignSubscription_def
  by (intro subs.guards_intros good_assignSubscriptionWithReuse) simp_all

lemma good_BulkAssignSubscription: "good (BulkAssignSubscription us inp) w"
  unfolding BulkAssignSubscription_def
  by (rule subs.guards_foreach [where s = w])
     (intro subs.guards_intros good_assignSubscriptionWithReuse, simp_all add: subs.rely_refl)

lemma good_RevokeSubscription: "good (RevokeSubscription i) w"
  unfolding RevokeSubscription_def by (intro subs.guards_intros) simp_all

lemma good_ExtendSubscription: "good (ExtendSubscription i d) w"
  unfolding ExtendSubscription_def Let_def
  by (intro subs.guards_intros keeps_wf_ExtendExpiry) simp_all

lemma good_when_ok:
  "(\<And>now db. keeps_wf db (snd (q now db))) \<Longrightarrow> (\<And>w1. good k w1) \<Longrightarrow> good (when_ok c q k) w"
  unfolding when_ok_def by (intro subs.guards_intros) simp_all

lemma good_AdminResetQuota: "good (AdminResetQuota loc i d wk m) w"
  unfolding AdminResetQuota_def by (intro subs.guards_intros good_when_ok) simp_all

lemma good_CheckAndActivateWindow: "good (CheckAndActivateWindow loc sub) w"
  unfolding CheckAndActivateWindow_def by (intro subs.guards_intros) simp_all

lemma good_CheckAndResetWindows: "good (CheckAndResetWindows loc sub) w"
  unfolding CheckAndResetWindows_def Let_def by (intro subs.guards_intros good_when_ok) simp_all

lemma good_doWindowMaintenance: "good (doWindowMaintenance loc sub) w"
  unfolding doWindowMaintenance_def
  by (intro subs.guards_intros good_CheckAndActivateWindow good_CheckAndResetWindows) simp_all

lemma good_ValidateSubscription: "good (ValidateSubscription sub) w"
  unfolding ValidateSubscription_def by (intro subs.guards_intros) simp_all

lemma good_discard: "good p w \<Longrightarrow> good (discard p) w"
  unfolding discard_def by (intro subs.guards_intros) simp_all

lemma good_serve: "w_base w = None \<Longrightarrow> good (serve loc call) w"
  by (cases call)
     (auto simp: RecordUsage_def intro!: good_discard good_AssignOrExtend good_AssignSubscription
       good_BulkAssignSubscription good_RevokeSubscription good_ExtendSubscription
       good_AdminResetQuota good_doWindowMaintenance good_ValidateSubscription subs.guards_stmt_any)

text \<open>
  (C18) Whatever calls of the subscription service run, however their statements interleave, whichever
  statements fail and whichever process is lost in the middle of a call: keys stay unique, no user
  ever has two live subscriptions to one group, and none lasts beyond the year 2099.
\<close>

theorem subscription_tables_wf:
  assumes "reachable tick (range (serve loc)) w c" "w_base w = None" "subs_wf (w_db w)"
  shows "subs_wf (w_db (snd c))"
proof -
  have "moves keeps_wf w (snd c) \<and> (\<forall>p \<in> set (fst c). good p (snd c))"
  proof (rule subs.reachable_sound [OF assms(1)])
    show "moves keeps_wf v u" if "tick v u" for v u
      using that by (cases "w_base v") (auto simp: tick_def moves_def)
    show "good p v" if "p \<in> range (serve loc)" "moves keeps_wf w v" for p v
      using that assms(2) good_serve moves_base by blast
  qed
  then show ?thesis using assms(3) by (simp add: moves_def keeps_wf_def)
qed

text \<open>An example: one subscription group, one user of it, and a second one to come.\<close>

definition demo_group :: group_rec where
  "demo_group = \<lparr>grp_ID = 1, grp_Name = ''pro'', grp_Status = ''active'',
     grp_SubscriptionType = ''subscription'', grp_DailyLimitUSD = Some 10, grp_WeeklyLimitUSD = None,
     grp_MonthlyLimitUSD = Some 200, grp_deleted = False\<rparr>"

definition demo_sub :: UserSubscription where
  "demo_sub = \<lparr>sub_ID = 1, sub_UserID = 7, sub_GroupID = 1, sub_StartsAt = 0,
     sub_ExpiresAt = 5 * time_Day, sub_Status = ''active'', sub_DailyWindowStart = Some 0,
     sub_WeeklyWindowStart = Some 0, sub_MonthlyWindowStart = Some 0, sub_DailyUsageUSD = 9,
     sub_WeeklyUsageUSD = 9, sub_MonthlyUsageUSD = 9, sub_AssignedBy = None, sub_AssignedAt = 0,
     sub_Notes = [], sub_CreatedAt = 0, sub_deleted = False\<rparr>"

definition demo_db :: business_db where
  "demo_db = \<lparr>db_users = [], db_groups = [demo_group], db_subs = [demo_sub], db_codes = [],
     db_orders = [], db_audit = [], db_instances = []\<rparr>"

definition demo_world :: "gotime \<Rightarrow> world" where
  "demo_world now = \<lparr>w_db = demo_db, w_base = None, w_now = now, w_faults = [],
     w_attempts = Map.empty, w_locks = Map.empty, w_counter = 0\<rparr>"

definition plain_input :: "int \<Rightarrow> int \<Rightarrow> int \<Rightarrow> AssignSubscriptionInput" where
  "plain_input u gid days = \<lparr>as_UserID = u, as_GroupID = gid, as_ValidityDays = days, as_AssignedBy = 0,
     as_Notes = []\<rparr>"

lemmas demo_defs = demo_world_def demo_db_def demo_sub_def demo_group_def plain_input_def

lemma demo_wf: "w_base (demo_world t) = None" "w_faults (demo_world t) = []" "subs_wf (w_db (demo_world t))"
  by (simp_all add: demo_defs subs_wf_def live_subs_def MaxExpiresAt_def go_simps)

theorem subscription_tables_wf_witness:
  "subs_wf (w_db (snd (exec (serve 0 (CallAssignOrExtend (plain_input 8 1 30))) (demo_world 0))))
   \<and> subs_wf (w_db (snd (interleave [0, 1, 0, 1, 0, 1]
        ([serve 0 (CallAssign (plain_input 8 1 30)), serve 0 (CallAssign (plain_input 8 1 31))], demo_world 0))))"
proof
  show "subs_wf (w_db (snd (exec (serve 0 (CallAssignOrExtend (plain_input 8 1 30))) (demo_world 0))))"
    using subscription_tables_wf [OF reachable_exec [OF rangeI] demo_wf(1) demo_wf(3)]
    unfolding snd_conv .
  have "reachable tick (range (serve 0)) (demo_world 0)
     (interleave [0, 1, 0, 1, 0, 1]
        ([serve 0 (CallAssign (plain_input 8 1 30)), serve 0 (CallAssign (plain_input 8 1 31))], demo_world 0))"
    by (rule reachable_interleave) (auto simp del: serve.simps)
  then show "subs_wf (w_db (snd (interleave [0, 1, 0, 1, 0, 1]
        ([serve 0 (CallAssign (plain_input 8 1 30)), serve 0 (CallAssign (plain_input 8 1 31))], demo_world 0))))"
    by (rule subscription_tables_wf [OF _ demo_wf(1) demo_wf(3)])
qed

section \<open>Assigning and renewing alone\<close>

lemma change_change:
  "(\<And>x. p x \<Longrightarrow> p (g x)) \<Longrightarrow> change p f (change p g rows) = change p (\<lambda>x. f (g x)) rows"
  by (induction rows) (simp_all add: change_Cons)

lemma list_ex_change: "(\<And>x. p x \<Longrightarrow> p (f x)) \<Longrightarrow> list_ex p (change p f rows) = list_ex p rows"
  by (induction rows) (simp_all add: change_Cons)

lemma only_changed:
  assumes "distinct (map sub_ID ss)" "s \<in> set ss" "sub_ID s = i" "\<not> sub_deleted (f s)" "\<And>x. sub_ID x = i \<Longrightarrow> sub_ID (f x) = i"
  shows "only (\<lambda>s. sub_ID s = i \<and> \<not> sub_deleted s) (change (\<lambda>s. sub_ID s = i) f ss) = Inr (f s)"
  using assms(1-4)
proof (induction ss)
  case (Cons a ss)
  have rest: "sub_ID x = i \<Longrightarrow> x \<in> set ss \<Longrightarrow> False" if "sub_ID a = i" for x
    using Cons.prems(1) that by auto
  show ?case
  proof (cases "sub_ID a = i")
    case True
    then have "s = a" using Cons.prems(2,3) rest [OF True, of s] by auto
    moreover have "filter (\<lambda>s. sub_ID s = i \<and> \<not> sub_deleted s) (change (\<lambda>s. sub_ID s = i) f ss) = []"
      using rest [OF True] by (auto simp: filter_empty_conv set_change assms(5) split: if_splits)
    ultimately show ?thesis using Cons.prems True by (simp add: change_Cons only_def assms(5))
  next
    case False
    then have "s \<in> set ss" using Cons.prems(2,3) by auto
    then show ?thesis using Cons False by (simp add: change_Cons only_def)
  qed
qed simp

lemma sub_update_hit:
  "s \<in> set (db_subs db) \<Longrightarrow> sub_ID s = i \<Longrightarrow> sub_update i f now db =
     (Inr (), db\<lparr>db_subs := change (\<lambda>s. sub_ID s = i) f (db_subs db)\<rparr>)"
  by (auto simp: sub_update_def list_ex_iff)

lemma only_appended:
  "only (\<lambda>s. sub_ID s = fresh_id (map sub_ID ss) \<and> \<not> sub_deleted s) (ss @ [s]) =
     (if sub_ID s = fresh_id (map sub_ID ss) \<and> \<not> sub_deleted s then Inr s else Inl ErrEntNotFound)"
proof -
  have "filter (\<lambda>s. sub_ID s = fresh_id (map sub_ID ss) \<and> \<not> sub_deleted s) ss = []"
    by (metis (mono_tags, lifting) filter_False fresh_id_neq)
  then show ?thesis by (simp add: only_def)
qed

lemma only_live:
  assumes "subs_wf db" "filter (live_sub u g) (db_subs db) = s # ss"
  shows "ss = []"
proof -
  have "filter (live_sub u g) (db_subs db) = filter (\<lambda>s. sub_key s = (u, g)) (live_subs (db_subs db))"
    by (auto simp: live_subs_def live_sub_def sub_key_def intro: filter_cong)
  moreover have "s \<in> set (live_subs (db_subs db))" "sub_key s = (u, g)"
    using assms(2) by (auto simp: live_subs_def live_sub_def sub_key_def dest: filter_eq_ConsD)
  ultimately show ?thesis
    using distinct_filter_key [of sub_key "live_subs (db_subs db)" s] assms by (simp add: subs_wf_def)
qed

text \<open>
  What a renewal makes of a row.
\<close>

definition renewed :: "gotime \<Rightarrow> AssignSubscriptionInput \<Rightarrow> UserSubscription \<Rightarrow> UserSubscription" where
  "renewed now inp s =
     s\<lparr>sub_ExpiresAt := renewed_expiry now s (normalizeAssignValidityDays (as_ValidityDays inp)),
       sub_Status := SubscriptionStatusActive,
       sub_Notes := (if as_Notes inp \<noteq> [] then append_notes (sub_Notes s) (as_Notes inp) else sub_Notes s)\<rparr>"

lemma renewed_key [simp]:
  "sub_ID (renewed now inp s) = sub_ID s" "sub_deleted (renewed now inp s) = sub_deleted s"
  by (simp_all add: renewed_def)

lemma change_cong: "(\<And>x. x \<in> set rows \<Longrightarrow> p x \<Longrightarrow> f x = g x) \<Longrightarrow> change p f rows = change p g rows"
  by (simp add: change_def)

lemma change_pred_cong: "(\<And>x. x \<in> set rows \<Longrightarrow> p x = q x) \<Longrightarrow> change p f rows = change q f rows"
  by (simp add: change_def)

lemma filter_change:
  "(\<And>x. p (f x) = p x) \<Longrightarrow> filter p (change p f rows) = map f (filter p rows)"
  by (induction rows) (simp_all add: change_Cons)

lemma change_key:
  "distinct (map key rows) \<Longrightarrow> x \<in> set rows \<Longrightarrow> f x = g x \<Longrightarrow>
     change (\<lambda>y. key y = key x) f rows = change (\<lambda>y. key y = key x) g rows"
  by (rule change_cong) (metis (no_types, lifting) distinct_map inj_on_def)

definition prolonged_row :: "UserSubscription \<Rightarrow> gotime \<Rightarrow> string \<Rightarrow> UserSubscription \<Rightarrow> UserSubscription" where
  "prolonged_row s t n x = x\<lparr>sub_ExpiresAt := t,
     sub_Status := (if sub_Status s \<noteq> SubscriptionStatusActive then SubscriptionStatusActive else sub_Status x),
     sub_Notes := (if n \<noteq> [] then append_notes (sub_Notes s) n else sub_Notes x)\<rparr>"

lemma exec_extend_tx:
  assumes "w_faults w = []" "list_ex (\<lambda>x. sub_ID x = sub_ID s) (db_subs (w_db w))"
  shows "exec (extend_tx s t n) w = (Inr (), w\<lparr>w_db := (w_db w)\<lparr>db_subs :=
     change (\<lambda>x. sub_ID x = sub_ID s) (prolonged_row s t n) (db_subs (w_db w))\<rparr>\<rparr>)"
proof -
  have key: "(\<And>x. f x = g x) \<Longrightarrow>
      w\<lparr>w_db := (w_db w)\<lparr>db_subs := change (\<lambda>x. sub_ID x = sub_ID s) f (db_subs (w_db w))\<rparr>\<rparr> =
      w\<lparr>w_db := (w_db w)\<lparr>db_subs := change (\<lambda>x. sub_ID x = sub_ID s) g (db_subs (w_db w))\<rparr>\<rparr>" for f g
    by (auto intro!: arg_cong [where f = "\<lambda>ss. w\<lparr>w_db := (w_db w)\<lparr>db_subs := ss\<rparr>\<rparr>"] change_cong)
  show ?thesis
    using assms
    by (auto simp: extend_tx_def Let_def ExtendExpiry_def UpdateStatus_def UpdateNotes_def sub_update_def
        list_ex_change change_change prolonged_row_def intro!: key)
qed

text \<open>The renewal's transaction, alone on its connection.\<close>

lemma renewal_tx:
  assumes "w_faults w = []" "w_base w = None" "list_ex (\<lambda>x. sub_ID x = sub_ID s) (db_subs (w_db w))"
  shows "separate_transaction (extend_tx s t n) w =
     (Inr (), w\<lparr>w_db := (w_db w)\<lparr>db_subs := change (\<lambda>x. sub_ID x = sub_ID s)
        (prolonged_row s t n) (db_subs (w_db w))\<rparr>\<rparr>)"
  using assms exec_extend_tx [of "w\<lparr>w_base := Some (w_db w)\<rparr>" s t n]
  by (simp add: transaction_none separate_transaction_def)

text \<open>
  (C19) A purchase that runs alone. If the user has a live subscription of the group, exactly that row
  changes: it is active again and lasts the bought days (30 if none are given, at most 36500)
  longer, counted from its expiry or, if that is past, from now, and never beyond 2099. Otherwise
  one row is added that starts now. Both return the row as it is in the table.
\<close>

theorem assign_or_extend_alone:
  assumes "w_faults w = []" "w_base w = None" "subs_wf (w_db w)"
    "only (\<lambda>r. grp_ID r = as_GroupID inp \<and> \<not> grp_deleted r) (db_groups (w_db w)) = Inr g"
    "IsSubscriptionType g"
  shows "case filter (live_sub (as_UserID inp) (as_GroupID inp)) (db_subs (w_db w)) of
      s # _ \<Rightarrow> exec (AssignOrExtendSubscription inp) w =
        (Inr (renewed (w_now w) inp s, True), w\<lparr>w_db := (w_db w)\<lparr>db_subs :=
           change (\<lambda>x. sub_ID x = sub_ID s) (\<lambda>_. renewed (w_now w) inp s) (db_subs (w_db w))\<rparr>\<rparr>)
    | [] \<Rightarrow> \<exists>s. exec (AssignOrExtendSubscription inp) w =
        (Inr (s, False), w\<lparr>w_db := (w_db w)\<lparr>db_subs := db_subs (w_db w) @ [s]\<rparr>\<rparr>) \<and>
        live_sub (as_UserID inp) (as_GroupID inp) s \<and> sub_StartsAt s = w_now w \<and>
        sub_Status s = SubscriptionStatusActive \<and>
        sub_ExpiresAt s = capped (AddDays (w_now w) (normalizeAssignValidityDays (as_ValidityDays inp)))"
proof -
  have ids: "distinct (map sub_ID (db_subs (w_db w)))" using assms(3) by (simp add: subs_wf_def)
  have grp: "group_GetByID (as_GroupID inp) (w_now w) (w_db w) = (Inr g, w_db w)"
    by (simp add: group_GetByID_def assms(4) translated_def)
  show ?thesis
  proof (cases "filter (live_sub (as_UserID inp) (as_GroupID inp)) (db_subs (w_db w))")
    case Nil
    then have "\<not> list_ex (live_sub (as_UserID inp) (as_GroupID inp)) (db_subs (w_db w))"
      by (auto simp: filter_empty_conv list_ex_iff)
    moreover have "only (live_sub (as_UserID inp) (as_GroupID inp)) (db_subs (w_db w)) = Inl ErrEntNotFound"
      by (simp add: only_def Nil)
    ultimately show ?thesis
      using Nil assms(1,5)
      by (simp add: AssignOrExtendSubscription_def grp sub_GetByUserIDAndGroupID_def translated_def
          createSubscription_def Let_def sub_Create_def sub_GetByID_def only_appended live_sub_def)
  next
    case (Cons s ss)
    have s: "s \<in> set (db_subs (w_db w))" "live_sub (as_UserID inp) (as_GroupID inp) s"
      using Cons by (auto dest: filter_eq_ConsD)
    have "ss = []"
      using only_live [OF assms(3)] Cons by blast
    then have "only (live_sub (as_UserID inp) (as_GroupID inp)) (db_subs (w_db w)) = Inr s"
      by (simp add: only_def Cons)
    moreover have "list_ex (\<lambda>x. sub_ID x = sub_ID s) (db_subs (w_db w))"
      using s(1) by (auto simp: list_ex_iff)
    moreover have "change (\<lambda>x. sub_ID x = sub_ID s) (prolonged_row s (renewed_expiry (w_now w) s
          (normalizeAssignValidityDays (as_ValidityDays inp))) (as_Notes inp)) (db_subs (w_db w)) =
        change (\<lambda>x. sub_ID x = sub_ID s) (\<lambda>_. renewed (w_now w) inp s) (db_subs (w_db w))"
      by (rule change_key [OF ids s(1)]) (simp add: prolonged_row_def renewed_def)
    ultimately show ?thesis
      using Cons s assms(1,2,5)
      by (simp add: AssignOrExtendSubscription_def grp sub_GetByUserIDAndGroupID_def translated_def
          renewal_tx sub_GetByID_def only_changed [OF ids s(1)] live_sub_def)
  qed
qed

theorem assign_or_extend_alone_witness:
  "exec (AssignOrExtendSubscription (plain_input 7 1 30)) (demo_world 0) =
     (Inr (demo_sub\<lparr>sub_ExpiresAt := 35 * time_Day\<rparr>, True),
      (demo_world 0)\<lparr>w_db := demo_db\<lparr>db_subs := [demo_sub\<lparr>sub_ExpiresAt := 35 * time_Day\<rparr>]\<rparr>\<rparr>)"
proof -
  have g: "only (\<lambda>r. grp_ID r = as_GroupID (plain_input 7 1 30) \<and> \<not> grp_deleted r)
      (db_groups (w_db (demo_world 0))) = Inr demo_group"
    by (simp add: demo_defs only_def)
  have t: "IsSubscriptionType demo_group"
    by (simp add: demo_group_def IsSubscriptionType_def SubscriptionTypeSubscription_def)
  have f: "filter (live_sub (as_UserID (plain_input 7 1 30)) (as_GroupID (plain_input 7 1 30)))
      (db_subs (w_db (demo_world 0))) = [demo_sub]"
    by (simp add: demo_defs live_sub_def)
  have r: "renewed 0 (plain_input 7 1 30) demo_sub =
      demo_sub\<lparr>sub_ExpiresAt := 35 * time_Day\<rparr>"
    by (simp add: demo_defs renewed_def renewed_expiry_def normalizeAssignValidityDays_def AddDays_def
        MaxValidityDays_def capped_def MaxExpiresAt_def go_simps SubscriptionStatusActive_def)
  show ?thesis
    using assign_or_extend_alone [OF demo_wf(2,1,3) g t]
    unfolding f by (simp add: demo_world_def demo_db_def change_Cons r)
qed

text \<open>
  Two renewals at once: both read the row before either writes it, both report success, and the
  days of the one that commits first are lost, because a renewal writes the expiry it computed
  from what it read outside its transaction.
\<close>

theorem concurrent_renewal_lost:
  assumes "w_faults w = []" "w_base w = None" "subs_wf (w_db w)"
    "only (\<lambda>r. grp_ID r = gid \<and> \<not> grp_deleted r) (db_groups (w_db w)) = Inr g" "IsSubscriptionType g"
    "only (live_sub u gid) (db_subs (w_db w)) = Inr s" "w_now w < sub_ExpiresAt s"
    "0 < d1" "d1 \<le> MaxValidityDays" "0 < d2" "d2 \<le> MaxValidityDays"
  shows "\<exists>s1 s2. interleave [0, 0, 0, 1, 1, 1, 0, 0, 1, 1]
      ([AssignOrExtendSubscription (plain_input u gid d1), AssignOrExtendSubscription (plain_input u gid d2)], w) =
      ([Return (Inr (s1, True)), Return (Inr (s2, True))],
       w\<lparr>w_db := (w_db w)\<lparr>db_subs := change (\<lambda>x. sub_ID x = sub_ID s) (\<lambda>_. s2) (db_subs (w_db w))\<rparr>\<rparr>)
      \<and> sub_ExpiresAt s1 = capped (AddDays (sub_ExpiresAt s) d1)
      \<and> sub_ExpiresAt s2 = capped (AddDays (sub_ExpiresAt s) d2)"
proof -
  have s: "s \<in> set (db_subs (w_db w))" "live_sub u gid s"
    using only_Inr [OF assms(6)] by auto
  have ids: "distinct (map sub_ID (db_subs (w_db w)))" using assms(3) by (simp add: subs_wf_def)
  have hit: "list_ex (\<lambda>x. sub_ID x = sub_ID s) (db_subs (w_db w))"
    using s(1) by (auto simp: list_ex_iff)
  define e where "e d = s\<lparr>sub_ExpiresAt := capped (AddDays (sub_ExpiresAt s) d),
      sub_Status := SubscriptionStatusActive\<rparr>" for d
  have exp: "renewed_expiry (w_now w) s (normalizeAssignValidityDays d) = capped (AddDays (sub_ExpiresAt s) d)"
    if "0 < d" "d \<le> MaxValidityDays" for d
    using that assms(7) by (simp add: renewed_expiry_def normalizeAssignValidityDays_def)
  have first: "change (\<lambda>x. sub_ID x = sub_ID s) (prolonged_row s (capped (AddDays (sub_ExpiresAt s) d1)) [])
      (db_subs (w_db w)) = change (\<lambda>x. sub_ID x = sub_ID s) (\<lambda>_. e d1) (db_subs (w_db w))"
    by (rule change_key [OF ids s(1)]) (simp add: prolonged_row_def e_def)
  have again: "change (\<lambda>x. sub_ID x = sub_ID s) (prolonged_row s (capped (AddDays (sub_ExpiresAt s) d2)) [])
      (change (\<lambda>x. sub_ID x = sub_ID s) (\<lambda>_. e d1) (db_subs (w_db w)))
      = change (\<lambda>x. sub_ID x = sub_ID s) (\<lambda>_. e d2) (db_subs (w_db w))"
    by (simp add: change_change e_def prolonged_row_def)
  have row: "only (\<lambda>x. sub_ID x = sub_ID s \<and> \<not> sub_deleted x)
      (change (\<lambda>x. sub_ID x = sub_ID s) (\<lambda>_. e d) (db_subs (w_db w))) = Inr (e d)" for d
    using only_changed [OF ids s(1) refl, of "\<lambda>_. e d"] s(2) by (simp add: e_def live_sub_def)
  have hit1: "list_ex (\<lambda>x. sub_ID x = sub_ID s)
      (change (\<lambda>x. sub_ID x = sub_ID s) (\<lambda>_. e d) (db_subs (w_db w)))" for d
    using hit by (simp add: list_ex_change e_def)
  have "interleave [0, 0, 0, 1, 1, 1, 0, 0, 1, 1]
      ([AssignOrExtendSubscription (plain_input u gid d1), AssignOrExtendSubscription (plain_input u gid d2)], w) =
      ([Return (Inr (e d1, True)), Return (Inr (e d2, True))],
       w\<lparr>w_db := (w_db w)\<lparr>db_subs := change (\<lambda>x. sub_ID x = sub_ID s) (\<lambda>_. e d2) (db_subs (w_db w))\<rparr>\<rparr>)"
    using assms(1,2,5) hit hit1
    by (simp add: interleave_def AssignOrExtendSubscription_def plain_input_def group_GetByID_def
        assms(4,6) translated_def sub_GetByUserIDAndGroupID_def exp [OF assms(8,9)] exp [OF assms(10,11)]
        renewal_tx first again row sub_GetByID_def e_def [symmetric] succeed_def)
  then show ?thesis by (auto simp: e_def)
qed

theorem concurrent_renewal_lost_witness:
  "\<exists>s1 s2. interleave [0, 0, 0, 1, 1, 1, 0, 0, 1, 1]
      ([AssignOrExtendSubscription (plain_input 7 1 30), AssignOrExtendSubscription (plain_input 7 1 90)], demo_world 0) =
      ([Return (Inr (s1, True)), Return (Inr (s2, True))],
       (demo_world 0)\<lparr>w_db := (w_db (demo_world 0))\<lparr>db_subs :=
          change (\<lambda>x. sub_ID x = sub_ID demo_sub) (\<lambda>_. s2) (db_subs (w_db (demo_world 0)))\<rparr>\<rparr>)
      \<and> sub_ExpiresAt s1 = capped (AddDays (sub_ExpiresAt demo_sub) 30)
      \<and> sub_ExpiresAt s2 = capped (AddDays (sub_ExpiresAt demo_sub) 90)"
  by (rule concurrent_renewal_lost [OF demo_wf(2,1,3), where g = demo_group])
     (simp_all add: demo_defs only_def live_sub_def IsSubscriptionType_def
       SubscriptionTypeSubscription_def MaxValidityDays_def go_simps)

lemma change_id [simp]: "change p (\<lambda>x. x) rows = rows"
  by (simp add: change_def map_idI)

section \<open>Shortening and lengthening\<close>

text \<open>
  What a refund takes from a live subscription, a rollback gives back: shortening by some days and
  lengthening by as many restores the tables exactly, provided the subscription outlives the
  shortening.
\<close>

theorem shorten_then_extend:
  assumes "w_faults w = []" "subs_wf (w_db w)" "s \<in> set (db_subs (w_db w))" "\<not> sub_deleted s"
    "sub_Status s \<noteq> SubscriptionStatusExpired" "0 < d" "d \<le> MaxValidityDays"
    "w_now w < AddDays (sub_ExpiresAt s) (- d)"
  shows "\<exists>s1 s2. exec (bind (ExtendSubscription (sub_ID s) (- d)) (\<lambda>r1.
      bind (ExtendSubscription (sub_ID s) d) (\<lambda>r2. Return (r1, r2)))) w = ((Inr s1, Inr s2), w)
    \<and> sub_ExpiresAt s1 = AddDays (sub_ExpiresAt s) (- d) \<and> s2 = s"
proof -
  have ids: "distinct (map sub_ID (db_subs (w_db w)))" using assms(2) by (simp add: subs_wf_def)
  have hit: "list_ex (\<lambda>x. sub_ID x = sub_ID s) (db_subs (w_db w))"
    using assms(3) by (auto simp: list_ex_iff)
  have max: "sub_ExpiresAt s \<le> MaxExpiresAt" using assms(2,3) by (simp add: subs_wf_def)
  have days: "0 < d * time_Day" using assms(6) by (simp add: go_simps)
  have row: "only (\<lambda>x. sub_ID x = sub_ID s \<and> \<not> sub_deleted x) (db_subs (w_db w)) = Inr s"
    using only_changed [OF ids assms(3) refl, of "\<lambda>x. x"] assms(4) by simp
  have row1: "only (\<lambda>x. sub_ID x = sub_ID s \<and> \<not> sub_deleted x)
      (change (\<lambda>x. sub_ID x = sub_ID s) (sub_ExpiresAt_update (\<lambda>_. t)) (db_subs (w_db w))) =
      Inr (s\<lparr>sub_ExpiresAt := t\<rparr>)" for t
    using only_changed [OF ids assms(3) refl, of "sub_ExpiresAt_update (\<lambda>_. t)"] assms(4) by simp
  have restored: "change (\<lambda>x. sub_ID x = sub_ID s) (sub_ExpiresAt_update (\<lambda>_. sub_ExpiresAt s)) (db_subs (w_db w))
      = db_subs (w_db w)"
    using change_key [OF ids assms(3), of "sub_ExpiresAt_update (\<lambda>_. sub_ExpiresAt s)" "\<lambda>x. x"] by simp
  have now: "w_now w < sub_ExpiresAt s" "w_now w < sub_ExpiresAt s - d * time_Day"
    using assms(8) days by (simp_all add: AddDays_def)
  have bounds: "\<not> MaxValidityDays < - d" "\<not> - d < - MaxValidityDays" "\<not> MaxValidityDays < d"
    "\<not> d < - MaxValidityDays"
    using assms(6,7) by (simp_all add: MaxValidityDays_def)
  show ?thesis
    using assms(1,5) max days now bounds
    by (simp add: ExtendSubscription_def Let_def sub_GetByID_def row row1 translated_def AddDays_def
        capped_def ExtendExpiry_def sub_update_def hit list_ex_change change_change restored)
qed

theorem shorten_then_extend_witness:
  "\<exists>s1 s2. exec (bind (ExtendSubscription 1 (- 3)) (\<lambda>r1.
      bind (ExtendSubscription 1 3) (\<lambda>r2. Return (r1, r2)))) (demo_world 0) = ((Inr s1, Inr s2), demo_world 0)
    \<and> sub_ExpiresAt s1 = 2 * time_Day \<and> s2 = demo_sub"
proof -
  have h: "demo_sub \<in> set (db_subs (w_db (demo_world 0)))" "\<not> sub_deleted demo_sub"
    "sub_Status demo_sub \<noteq> SubscriptionStatusExpired" "(0::int) < 3" "3 \<le> MaxValidityDays"
    "w_now (demo_world 0) < AddDays (sub_ExpiresAt demo_sub) (- 3)"
    by (simp_all add: demo_defs SubscriptionStatusExpired_def MaxValidityDays_def AddDays_def go_simps)
  have id: "sub_ID demo_sub = 1" and exp: "AddDays (sub_ExpiresAt demo_sub) (- 3) = 2 * time_Day"
    by (simp_all add: demo_sub_def AddDays_def)
  show ?thesis using shorten_then_extend [OF demo_wf(2,3) h] unfolding id exp .
qed

section \<open>Usage windows\<close>

lemma normalized_windows_usage:
  "sub_DailyUsageUSD (normalized_windows now s) = (if NeedsDailyReset now s then 0 else sub_DailyUsageUSD s)"
  "sub_WeeklyUsageUSD (normalized_windows now s) = (if NeedsWeeklyReset now s then 0 else sub_WeeklyUsageUSD s)"
  "sub_MonthlyUsageUSD (normalized_windows now s) = (if NeedsMonthlyReset now s then 0 else sub_MonthlyUsageUSD s)"
  by (simp_all add: normalized_windows_def Let_def NeedsDailyReset_def NeedsWeeklyReset_def
      NeedsMonthlyReset_def)

text \<open>
  The check of the hot path is the slow one done in memory: it refuses exactly when
  \<open>ValidateSubscription\<close> does, with the same error, and otherwise compares the limits with the usage
  that is shown to the user, in which a window that is over counts for nothing. Maintenance is asked
  for exactly when a window is over or none has started.
\<close>

theorem hot_path_check:
  "fst (ValidateAndCheckLimits (w_now w) s g) =
     (case fst (exec (ValidateSubscription s) w) of
        Some e \<Rightarrow> (False, Some e)
      | None \<Rightarrow> (NeedsDailyReset (w_now w) s \<or> NeedsWeeklyReset (w_now w) s \<or> NeedsMonthlyReset (w_now w) s
                  \<or> \<not> IsWindowActivated s,
                CheckUsageLimits (normalized_windows (w_now w) s) g 0))"
  by (cases "NeedsDailyReset (w_now w) s"; cases "NeedsWeeklyReset (w_now w) s";
      cases "NeedsMonthlyReset (w_now w) s")
     (simp_all add: ValidateAndCheckLimits_def ValidateSubscription_def Let_def exec_stmt
        CheckUsageLimits_def CheckDailyLimit_def CheckWeeklyLimit_def CheckMonthlyLimit_def
        normalized_windows_usage IsWindowActivated_def)

theorem hot_path_check_witness:
  "fst (ValidateAndCheckLimits time_Day demo_sub demo_group) = (True, None)"
proof -
  have w: "w_now (demo_world time_Day) = time_Day" by (simp add: demo_world_def)
  have v: "fst (exec (ValidateSubscription demo_sub) (demo_world time_Day)) = None"
    by (simp add: ValidateSubscription_def demo_sub_def SubscriptionStatusExpired_def SubscriptionStatusSuspended_def
        IsExpired_def demo_world_def go_simps)
  have n: "NeedsDailyReset time_Day demo_sub" "CheckUsageLimits (normalized_windows time_Day demo_sub) demo_group 0 = None"
    by (simp_all add: demo_sub_def demo_group_def NeedsDailyReset_def NeedsWeeklyReset_def NeedsMonthlyReset_def window_elapsed_def
        go_simps CheckUsageLimits_def CheckDailyLimit_def CheckWeeklyLimit_def CheckMonthlyLimit_def
        normalized_windows_def Let_def HasDailyLimit_def HasWeeklyLimit_def HasMonthlyLimit_def has_limit_def)
  show ?thesis using hot_path_check [of "demo_world time_Day" demo_sub demo_group] by (simp add: w v n)
qed

lemma hot_path_facts:
  "fst (fst (ValidateAndCheckLimits now s g)) \<longrightarrow>
     NeedsDailyReset now s \<or> NeedsWeeklyReset now s \<or> NeedsMonthlyReset now s \<or> \<not> IsWindowActivated s"
  by (auto simp: ValidateAndCheckLimits_def Let_def)

text \<open>What the resets of a maintenance run make of a row, and of the caller's copy.\<close>

definition reset_windows :: "duration \<Rightarrow> gotime \<Rightarrow> UserSubscription \<Rightarrow> UserSubscription \<Rightarrow> UserSubscription" where
  "reset_windows loc now s r =
     (let r1 = (if NeedsDailyReset now s then r\<lparr>sub_DailyUsageUSD := 0,
                  sub_DailyWindowStart := Some (startOfDay loc now)\<rparr> else r);
          r2 = (if NeedsWeeklyReset now s then r1\<lparr>sub_WeeklyUsageUSD := 0,
                  sub_WeeklyWindowStart := Some (startOfDay loc now)\<rparr> else r1)
      in (if NeedsMonthlyReset now s then r2\<lparr>sub_MonthlyUsageUSD := 0,
                  sub_MonthlyWindowStart := Some (startOfDay loc now)\<rparr> else r2))"

lemma startOfDay_fresh: "now - startOfDay loc now < time_Day" "startOfDay loc now \<le> now"
  by (simp_all add: startOfDay_def go_simps)

lemma reset_windows_fresh:
  "\<not> NeedsDailyReset now (reset_windows loc now s s)"
  "\<not> NeedsWeeklyReset now (reset_windows loc now s s)"
  "\<not> NeedsMonthlyReset now (reset_windows loc now s s)"
  using startOfDay_fresh(1) [of now loc]
  by (simp_all add: reset_windows_def Let_def NeedsDailyReset_def NeedsWeeklyReset_def
      NeedsMonthlyReset_def window_elapsed_def go_simps)

lemma exec_when_ok:
  assumes "w_faults w = []" "list_ex (\<lambda>x. sub_ID x = i) (db_subs (w_db w))"
  shows "exec (when_ok c (sub_update i f) k) w =
     exec k (if c then w\<lparr>w_db := (w_db w)\<lparr>db_subs := change (\<lambda>x. sub_ID x = i) f (db_subs (w_db w))\<rparr>\<rparr> else w)"
  using assms by (simp add: when_ok_def sub_update_def)

lemma exec_CheckAndResetWindows:
  assumes "w_faults w = []" "list_ex (\<lambda>x. sub_ID x = sub_ID s) (db_subs (w_db w))"
  shows "exec (CheckAndResetWindows loc s) w =
     (Inr (reset_windows loc (w_now w) s s), w\<lparr>w_db := (w_db w)\<lparr>db_subs :=
        change (\<lambda>x. sub_ID x = sub_ID s) (reset_windows loc (w_now w) s) (db_subs (w_db w))\<rparr>\<rparr>)"
  using assms
  by (cases "NeedsDailyReset (w_now w) s"; cases "NeedsWeeklyReset (w_now w) s";
      cases "NeedsMonthlyReset (w_now w) s")
     (simp_all add: CheckAndResetWindows_def Let_def ResetDailyUsage_def ResetWeeklyUsage_def
        ResetMonthlyUsage_def exec_when_ok list_ex_change change_change reset_windows_def [abs_def]
        NeedsWeeklyReset_def NeedsMonthlyReset_def)

lemma exec_doWindowMaintenance:
  assumes "w_faults w = []" "list_ex (\<lambda>x. sub_ID x = sub_ID s) (db_subs (w_db w))" "IsWindowActivated s"
  shows "exec (doWindowMaintenance loc s) w = ((), w\<lparr>w_db := (w_db w)\<lparr>db_subs :=
     change (\<lambda>x. sub_ID x = sub_ID s) (reset_windows loc (w_now w) s) (db_subs (w_db w))\<rparr>\<rparr>)"
  using exec_CheckAndResetWindows [OF assms(1,2), of loc] assms(3)
  by (simp add: doWindowMaintenance_def succeed_def)

lemma reset_windows_key [simp]:
  "sub_ID (reset_windows loc now s r) = sub_ID r" "sub_GroupID (reset_windows loc now s r) = sub_GroupID r"
  "sub_deleted (reset_windows loc now s r) = sub_deleted r"
  by (simp_all add: reset_windows_def Let_def)

text \<open>
  Maintenance of a subscription whose windows have started, run alone: in the table and in the
  caller's copy exactly the windows that are over restart at the beginning of the day with no
  usage, and afterwards none of them is over.
\<close>

theorem maintenance_restarts_windows:
  assumes "w_faults w = []" "s \<in> set (db_subs (w_db w))" "IsWindowActivated s"
    "distinct (map sub_ID (db_subs (w_db w)))"
  shows "exec (doWindowMaintenance loc s) w = ((), w\<lparr>w_db := (w_db w)\<lparr>db_subs :=
        change (\<lambda>x. sub_ID x = sub_ID s) (\<lambda>_. reset_windows loc (w_now w) s s) (db_subs (w_db w))\<rparr>\<rparr>)
    \<and> fst (exec (CheckAndResetWindows loc s) w) = Inr (reset_windows loc (w_now w) s s)
    \<and> fst (fst (ValidateAndCheckLimits (w_now w) (reset_windows loc (w_now w) s s) g)) = False"
proof -
  have hit: "list_ex (\<lambda>x. sub_ID x = sub_ID s) (db_subs (w_db w))"
    using assms(2) by (auto simp: list_ex_iff)
  have row: "change (\<lambda>x. sub_ID x = sub_ID s) (reset_windows loc (w_now w) s) (db_subs (w_db w)) =
      change (\<lambda>x. sub_ID x = sub_ID s) (\<lambda>_. reset_windows loc (w_now w) s s) (db_subs (w_db w))"
    by (rule change_key [OF assms(4,2)]) simp
  have act: "IsWindowActivated (reset_windows loc (w_now w) s s)"
    using assms(3) by (simp add: IsWindowActivated_def reset_windows_def Let_def)
  have "fst (fst (ValidateAndCheckLimits (w_now w) (reset_windows loc (w_now w) s s) g)) = False"
    using hot_path_facts [of "w_now w" "reset_windows loc (w_now w) s s" g] act
    by (simp add: reset_windows_fresh)
  then show ?thesis
    using exec_CheckAndResetWindows [OF assms(1) hit, of loc]
      exec_doWindowMaintenance [OF assms(1) hit assms(3), of loc]
    by (simp add: row)
qed

text \<open>
  Maintenance is not idempotent: a second run for a copy of the subscription that was read before
  the first one restarts the windows once more, and what was charged in between is forgotten.
\<close>

theorem stale_maintenance_forgets_usage:
  assumes "w_faults w = []" "s \<in> set (db_subs (w_db w))" "\<not> sub_deleted s"
    "distinct (map sub_ID (db_subs (w_db w)))" "NeedsDailyReset (w_now w) s"
    "list_ex (\<lambda>g. grp_ID g = sub_GroupID s \<and> \<not> grp_deleted g) (db_groups (w_db w))"
  shows "let m = doWindowMaintenance loc s; charge = RecordUsage (sub_ID s) cost;
        once = snd (exec (bind m (\<lambda>_. charge)) w); twice = snd (exec (bind m (\<lambda>_. bind charge (\<lambda>_. m))) w)
      in fst (exec (bind m (\<lambda>_. charge)) w) = Inr ()
       \<and> map sub_DailyUsageUSD (filter (\<lambda>r. sub_ID r = sub_ID s) (db_subs (w_db once))) = [cost]
       \<and> map sub_DailyUsageUSD (filter (\<lambda>r. sub_ID r = sub_ID s) (db_subs (w_db twice))) = [0]"
proof -
  define i where "i = sub_ID s"
  define f where "f = reset_windows loc (w_now w) s"
  define c where "c = (\<lambda>r :: UserSubscription. r\<lparr>sub_DailyUsageUSD := sub_DailyUsageUSD r + cost,
      sub_WeeklyUsageUSD := sub_WeeklyUsageUSD r + cost, sub_MonthlyUsageUSD := sub_MonthlyUsageUSD r + cost\<rparr>)"
  let ?T = "db_subs (w_db w)"
  have act: "IsWindowActivated s"
    using assms(5) by (auto simp: NeedsDailyReset_def window_elapsed_def IsWindowActivated_def)
  have hit: "list_ex (\<lambda>x. sub_ID x = i) ?T" using assms(2) by (auto simp: list_ex_iff i_def)
  have one: "filter (\<lambda>x. sub_ID x = i) (change (\<lambda>x. sub_ID x = i) h ?T) = [h s]"
    if "\<And>x. sub_ID (h x) = sub_ID x" for h
    using distinct_filter_key [OF assms(4,2)] that by (simp add: filter_change i_def)
  have charge: "IncrementUsage i cost now ((w_db w)\<lparr>db_subs := change (\<lambda>x. sub_ID x = i) f ?T\<rparr>) =
      (Inr (), (w_db w)\<lparr>db_subs := change (\<lambda>x. sub_ID x = i) (\<lambda>x. c (f x)) ?T\<rparr>)" for now
  proof -
    let ?p = "\<lambda>x. sub_ID x = i \<and> \<not> sub_deleted x \<and>
        list_ex (\<lambda>g. grp_ID g = sub_GroupID x \<and> \<not> grp_deleted g) (db_groups (w_db w))"
    have p: "?p x \<longleftrightarrow> sub_ID x = i" if "x \<in> set (change (\<lambda>x. sub_ID x = i) f ?T)" for x
    proof -
      have "sub_ID y = i \<Longrightarrow> y = s" if "y \<in> set ?T" for y
        using that assms(2,4) by (metis distinct_map i_def inj_on_def)
      then show ?thesis using that assms(3,6) by (auto simp: set_change f_def split: if_splits)
    qed
    have "filter ?p (change (\<lambda>x. sub_ID x = i) f ?T) = [f s]"
    proof -
      have "filter ?p (change (\<lambda>x. sub_ID x = i) f ?T) =
          filter (\<lambda>x. sub_ID x = i) (change (\<lambda>x. sub_ID x = i) f ?T)"
        by (rule filter_cong [OF refl]) (rule p)
      then show ?thesis using one [of f] by (simp add: f_def)
    qed
    moreover have "change ?p c (change (\<lambda>x. sub_ID x = i) f ?T) =
        change (\<lambda>x. sub_ID x = i) c (change (\<lambda>x. sub_ID x = i) f ?T)"
      using p by (intro change_pred_cong)
    ultimately show ?thesis
      by (simp add: IncrementUsage_def Let_def matches_def change_change f_def c_def)
  qed
  have daily: "sub_DailyUsageUSD (f x) = 0" for x
    using assms(5) by (simp add: f_def reset_windows_def Let_def)
  have keys: "sub_ID (f x) = sub_ID x" "sub_ID (c x) = sub_ID x" "sub_DailyUsageUSD (c x) = sub_DailyUsageUSD x + cost" for x
    by (simp_all add: f_def c_def)
  have m: "exec (doWindowMaintenance loc s) (w\<lparr>w_db := (w_db w)\<lparr>db_subs := T\<rparr>\<rparr>) =
      ((), w\<lparr>w_db := (w_db w)\<lparr>db_subs := change (\<lambda>x. sub_ID x = i) f T\<rparr>\<rparr>)"
    if "list_ex (\<lambda>x. sub_ID x = i) T" for T
    using exec_doWindowMaintenance [of "w\<lparr>w_db := (w_db w)\<lparr>db_subs := T\<rparr>\<rparr>" s loc] that assms(1) act
    by (simp add: i_def f_def)
  show ?thesis
    using m [of ?T] m [of "change (\<lambda>x. sub_ID x = i) (\<lambda>x. c (f x)) ?T"] assms(1) hit
    by (simp add: Let_def i_def [symmetric] RecordUsage_def charge keys list_ex_change change_change one daily)
qed

theorem maintenance_restarts_windows_witness:
  "exec (doWindowMaintenance 0 demo_sub) (demo_world (time_Day + 5)) = ((), (demo_world (time_Day + 5))\<lparr>w_db :=
      demo_db\<lparr>db_subs := [demo_sub\<lparr>sub_DailyUsageUSD := 0, sub_DailyWindowStart := Some time_Day\<rparr>]\<rparr>\<rparr>)
    \<and> \<not> fst (fst (ValidateAndCheckLimits (time_Day + 5)
        (demo_sub\<lparr>sub_DailyUsageUSD := 0, sub_DailyWindowStart := Some time_Day\<rparr>) demo_group))"
proof -
  have r: "reset_windows 0 (time_Day + 5) demo_sub demo_sub =
      demo_sub\<lparr>sub_DailyUsageUSD := 0, sub_DailyWindowStart := Some time_Day\<rparr>"
    by (simp add: reset_windows_def NeedsDailyReset_def NeedsWeeklyReset_def NeedsMonthlyReset_def
        window_elapsed_def demo_sub_def startOfDay_def go_simps)
  have "demo_sub \<in> set (db_subs (w_db (demo_world (time_Day + 5))))" "IsWindowActivated demo_sub"
    "distinct (map sub_ID (db_subs (w_db (demo_world (time_Day + 5)))))"
    by (simp_all add: demo_defs IsWindowActivated_def)
  from maintenance_restarts_windows [OF demo_wf(2) this, of 0 demo_group]
  show ?thesis by (simp add: demo_world_def demo_db_def change_Cons r)
qed

theorem stale_maintenance_forgets_usage_witness:
  "map sub_DailyUsageUSD (filter (\<lambda>r. sub_ID r = 1) (db_subs (w_db (snd (exec
      (bind (doWindowMaintenance 0 demo_sub) (\<lambda>_. RecordUsage 1 4)) (demo_world time_Day)))))) = [4]
   \<and> map sub_DailyUsageUSD (filter (\<lambda>r. sub_ID r = 1) (db_subs (w_db (snd (exec
      (bind (doWindowMaintenance 0 demo_sub) (\<lambda>_. bind (RecordUsage 1 4)
         (\<lambda>_. doWindowMaintenance 0 demo_sub))) (demo_world time_Day)))))) = [0]"
proof -
  have "demo_sub \<in> set (db_subs (w_db (demo_world time_Day)))" "\<not> sub_deleted demo_sub"
    "distinct (map sub_ID (db_subs (w_db (demo_world time_Day))))"
    "NeedsDailyReset (w_now (demo_world time_Day)) demo_sub"
    "list_ex (\<lambda>g. grp_ID g = sub_GroupID demo_sub \<and> \<not> grp_deleted g) (db_groups (w_db (demo_world time_Day)))"
    by (simp_all add: demo_defs NeedsDailyReset_def window_elapsed_def go_simps)
  from stale_maintenance_forgets_usage [OF demo_wf(2) this, of 0 4]
  show ?thesis by (simp add: Let_def demo_sub_def del: exec_bind)
qed

end
