(* ===== verification/Redeem.thy ===== *)
theory Redeem
  imports Subscription
begin

text \<open>
  Redeem codes: \<open>backend/internal/service/redeem_service.go\<close>, \<open>redeem_code.go\<close>,
  \<open>repository/redeem_code_repo.go\<close>, \<open>repository/redeem_cache.go\<close> and the balance statements of
  \<open>repository/user_repo.go\<close>.

  A code is worth money, concurrency or days of a subscription, and is used once. Redeeming marks
  it used and grants its worth in one transaction. A Redis lock and a Redis counter of failed
  attempts come before that; both are optional (the service may have no cache) and ignored when
  Redis fails. Random bytes are an argument; cache invalidation has no effect on the tables.
\<close>

section \<open>Constants\<close>

definition StatusUnused :: string where "StatusUnused = ''unused''"
definition StatusUsed :: string where "StatusUsed = ''used''"
definition RedeemTypeBalance :: string where "RedeemTypeBalance = ''balance''"
definition RedeemTypeConcurrency :: string where "RedeemTypeConcurrency = ''concurrency''"
definition RedeemTypeSubscription :: string where "RedeemTypeSubscription = ''subscription''"
definition RedeemTypeInvitation :: string where "RedeemTypeInvitation = ''invitation''"

lemmas code_status_defs = StatusUnused_def StatusUsed_def
lemmas redeem_type_defs = RedeemTypeBalance_def RedeemTypeConcurrency_def
  RedeemTypeSubscription_def RedeemTypeInvitation_def

definition ErrRedeemCodeNotFound :: ApplicationError where
  "ErrRedeemCodeNotFound = NotFound ''REDEEM_CODE_NOT_FOUND'' ''redeem code not found''"
definition ErrRedeemCodeUsed :: ApplicationError where
  "ErrRedeemCodeUsed = Conflict ''REDEEM_CODE_USED'' ''redeem code already used''"
definition ErrRedeemRateLimited :: ApplicationError where
  "ErrRedeemRateLimited =
     TooManyRequests ''REDEEM_RATE_LIMITED'' ''too many failed attempts, please try again later''"
definition ErrRedeemCodeLocked :: ApplicationError where
  "ErrRedeemCodeLocked =
     Conflict ''REDEEM_CODE_LOCKED'' ''redeem code is being processed, please try again''"

definition redeemMaxErrorsPerHour :: int where "redeemMaxErrorsPerHour = 20"
definition redeemLockDuration :: duration where "redeemLockDuration = 10 * time_Second"

text \<open>The expiry that the cache gives the counter of attempts.\<close>

definition cache_redeemRateLimitDuration :: duration where
  "cache_redeemRateLimitDuration = 24 * time_Hour"

definition IsUsed :: "RedeemCode \<Rightarrow> bool" where "IsUsed c \<longleftrightarrow> rc_Status c = StatusUsed"
definition CanUse :: "RedeemCode \<Rightarrow> bool" where "CanUse c \<longleftrightarrow> rc_Status c = StatusUnused"

section \<open>Statements on users\<close>

definition user_GetByID :: "int \<Rightarrow> User query" where
  "user_GetByID i now db = (translated (Some ErrUserNotFound) None
     (only (\<lambda>u. usr_ID u = i \<and> \<not> usr_deleted u) (db_users db)), db)"

text \<open>An update of one user by key: no row, no success.\<close>

definition user_update :: "int \<Rightarrow> (User \<Rightarrow> User) \<Rightarrow> unit query" where
  "user_update i f now db =
     (if matches (\<lambda>u. usr_ID u = i) (db_users db) = 0 then (Inl (AppErr ErrUserNotFound), db)
      else (Inr (), db\<lparr>db_users := change (\<lambda>u. usr_ID u = i) f (db_users db)\<rparr>))"

definition UpdateBalance :: "int \<Rightarrow> rat \<Rightarrow> unit query" where
  "UpdateBalance i amount = user_update i (\<lambda>u. u\<lparr>usr_Balance := usr_Balance u + amount,
     usr_TotalRecharged := (if 0 < amount then usr_TotalRecharged u + amount else usr_TotalRecharged u)\<rparr>)"

definition DeductBalance :: "int \<Rightarrow> rat \<Rightarrow> unit query" where
  "DeductBalance i amount = user_update i (\<lambda>u. u\<lparr>usr_Balance := usr_Balance u - amount\<rparr>)"

definition UpdateConcurrency :: "int \<Rightarrow> int \<Rightarrow> unit query" where
  "UpdateConcurrency i amount = user_update i (\<lambda>u. u\<lparr>usr_Concurrency := usr_Concurrency u + amount\<rparr>)"

section \<open>Statements on codes\<close>

text \<open>
  The schema's validators run before an insert: a code has between 1 and 32 characters, type and
  status at most 20. The column is unique.
\<close>

definition valid_code :: "RedeemCode \<Rightarrow> bool" where
  "valid_code c \<longleftrightarrow> rc_Code c \<noteq> [] \<and> length (rc_Code c) \<le> 32 \<and> length (rc_Type c) \<le> 20 \<and>
     length (rc_Status c) \<le> 20"

definition ErrValidation :: go_error where "ErrValidation = PlainErr ''ent: validator failed''"

definition code_Create :: "RedeemCode \<Rightarrow> RedeemCode query" where
  "code_Create c now db =
     (if \<not> valid_code c then (Inl ErrValidation, db)
      else if list_ex (\<lambda>r. rc_Code r = rc_Code c) (db_codes db) then (Inl ErrUnique, db)
      else (let row = c\<lparr>rc_ID := fresh_id (map rc_ID (db_codes db))\<rparr>
            in (Inr row, db\<lparr>db_codes := db_codes db @ [row]\<rparr>)))"

definition code_CreateBatch :: "RedeemCode list \<Rightarrow> unit query" where
  "code_CreateBatch cs now db =
     (if cs = [] then (Inr (), db)
      else if \<not> list_all valid_code cs then (Inl ErrValidation, db)
      else if \<not> distinct (map rc_Code (db_codes db @ cs)) then (Inl ErrUnique, db)
      else (Inr (), db\<lparr>db_codes := foldl (\<lambda>rows c. rows @ [c\<lparr>rc_ID := fresh_id (map rc_ID rows)\<rparr>])
                                 (db_codes db) cs\<rparr>))"

definition code_result :: "go_error + RedeemCode \<Rightarrow> go_error + RedeemCode" where
  "code_result r = (case r of
       Inl e \<Rightarrow> Inl (if e = ErrEntNotFound then AppErr ErrRedeemCodeNotFound else e)
     | Inr c \<Rightarrow> Inr c)"

definition code_GetByID :: "int \<Rightarrow> RedeemCode query" where
  "code_GetByID i now db = (code_result (only (\<lambda>c. rc_ID c = i) (db_codes db)), db)"

definition code_GetByCode :: "string \<Rightarrow> RedeemCode query" where
  "code_GetByCode code now db = (code_result (only (\<lambda>c. rc_Code c = code) (db_codes db)), db)"

definition code_Delete :: "int \<Rightarrow> unit query" where
  "code_Delete i now db = (Inr (), db\<lparr>db_codes := filter (\<lambda>c. rc_ID c \<noteq> i) (db_codes db)\<rparr>)"

definition code_Use :: "int \<Rightarrow> int \<Rightarrow> unit query" where
  "code_Use i u now db =
     (let p = (\<lambda>c. rc_ID c = i \<and> rc_Status c = StatusUnused)
      in if matches p (db_codes db) = 0 then (Inl (AppErr ErrRedeemCodeUsed), db)
         else (Inr (), db\<lparr>db_codes := change p (\<lambda>c. c\<lparr>rc_Status := StatusUsed, rc_UsedBy := Some u,
                  rc_UsedAt := Some now\<rparr>) (db_codes db)\<rparr>))"

section \<open>The Redis cache\<close>

definition redis :: "(world \<Rightarrow> 'r \<times> world) \<Rightarrow> (go_error + 'r \<Rightarrow> (world, 'a) prog) \<Rightarrow> (world, 'a) prog" where
  "redis f k = atomically (\<lambda>w. case next_outcome w of (oc, w1) \<Rightarrow>
     (case oc of
        Works \<Rightarrow> (case f w1 of (r, w2) \<Rightarrow> (Inr r, w2))
      | Fails \<Rightarrow> (Inl (PlainErr ''redis error''), w1)
      | Unacked \<Rightarrow> (Inl (PlainErr ''redis error''), snd (f w1)))) k"

definition GetRedeemAttemptCount :: "int \<Rightarrow> world \<Rightarrow> int \<times> world" where
  "GetRedeemAttemptCount u w =
     (case w_attempts w u of
        Some (n, until) \<Rightarrow> if w_now w < until then n else 0
      | None \<Rightarrow> 0, w)"

definition IncrementRedeemAttemptCount :: "int \<Rightarrow> world \<Rightarrow> unit \<times> world" where
  "IncrementRedeemAttemptCount u w =
     ((), w\<lparr>w_attempts := (w_attempts w)(u \<mapsto>
        (fst (GetRedeemAttemptCount u w) + 1, w_now w + cache_redeemRateLimitDuration))\<rparr>)"

definition AcquireRedeemLock :: "string \<Rightarrow> duration \<Rightarrow> world \<Rightarrow> bool \<times> world" where
  "AcquireRedeemLock code ttl w =
     (case w_locks w code of
        Some until \<Rightarrow> if w_now w < until then (False, w)
                    else (True, w\<lparr>w_locks := (w_locks w)(code \<mapsto> w_now w + ttl)\<rparr>)
      | None \<Rightarrow> (True, w\<lparr>w_locks := (w_locks w)(code \<mapsto> w_now w + ttl)\<rparr>))"

definition ReleaseRedeemLock :: "string \<Rightarrow> world \<Rightarrow> unit \<times> world" where
  "ReleaseRedeemLock code w = ((), w\<lparr>w_locks := (w_locks w)(code := None)\<rparr>)"

section \<open>The service\<close>

definition checkRedeemRateLimit :: "bool \<Rightarrow> int \<Rightarrow> unit handler" where
  "checkRedeemRateLimit cache u =
     (if \<not> cache then succeed ()
      else redis (GetRedeemAttemptCount u) (\<lambda>r. case r of
          Inl _ \<Rightarrow> succeed ()
        | Inr n \<Rightarrow> if redeemMaxErrorsPerHour \<le> n then fail (AppErr ErrRedeemRateLimited) else succeed ()))"

definition incrementRedeemErrorCount :: "bool \<Rightarrow> int \<Rightarrow> (world, 'a) prog \<Rightarrow> (world, 'a) prog" where
  "incrementRedeemErrorCount cache u k =
     (if cache then redis (IncrementRedeemAttemptCount u) (\<lambda>_. k) else k)"

definition acquireRedeemLock :: "bool \<Rightarrow> string \<Rightarrow> (bool \<Rightarrow> (world, 'a) prog) \<Rightarrow> (world, 'a) prog" where
  "acquireRedeemLock cache code k =
     (if \<not> cache then k True
      else redis (AcquireRedeemLock code redeemLockDuration) (\<lambda>r. case r of Inl _ \<Rightarrow> k True | Inr ok \<Rightarrow> k ok))"

definition releaseRedeemLock :: "bool \<Rightarrow> string \<Rightarrow> (world, 'a) prog \<Rightarrow> (world, 'a) prog" where
  "releaseRedeemLock cache code k = (if cache then redis (ReleaseRedeemLock code) (\<lambda>_. k) else k)"

text \<open>The notes that end up in the subscription (UTF-8).\<close>

definition redeem_note :: "string \<Rightarrow> string" where
  "redeem_note code = [CHR 0xE9, CHR 0x80, CHR 0x9A, CHR 0xE8, CHR 0xBF, CHR 0x87, CHR 0xE5, CHR 0x85, CHR 0x91, CHR 0xE6, CHR 0x8D, CHR 0xA2, CHR 0xE7, CHR 0xA0, CHR 0x81, CHR 0x20] @ code @
     [CHR 0x20, CHR 0xE5, CHR 0x85, CHR 0x91, CHR 0xE6, CHR 0x8D, CHR 0xA2]"

definition refund_note :: "string \<Rightarrow> int \<Rightarrow> string" where
  "refund_note code days = [CHR 0xE9, CHR 0x80, CHR 0x9A, CHR 0xE8, CHR 0xBF, CHR 0x87, CHR 0xE5, CHR 0x85, CHR 0x91, CHR 0xE6, CHR 0x8D, CHR 0xA2, CHR 0xE7, CHR 0xA0, CHR 0x81, CHR 0x20] @ code @
     [CHR 0x20, CHR 0xE9, CHR 0x80, CHR 0x80, CHR 0xE6, CHR 0xAC, CHR 0xBE, CHR 0xE6, CHR 0x89, CHR 0xA3, CHR 0xE5, CHR 0x87, CHR 0x8F, CHR 0x20] @ itoa days @
     [CHR 0x20, CHR 0xE5, CHR 0xA4, CHR 0xA9]"

definition reduceOrCancelSubscription :: "int \<Rightarrow> int \<Rightarrow> int \<Rightarrow> string \<Rightarrow> unit handler" where
  "reduceOrCancelSubscription u g reduceDays code =
     stmt (sub_GetByUserIDAndGroupID u g) (on_error (\<lambda>_. fail (AppErr ErrSubscriptionNotFound)) (\<lambda>sub.
       time_Now (\<lambda>now.
         let remaining = max 0 (go_div (sub_ExpiresAt sub - now) time_Day);
             notes = stmt (UpdateNotes (sub_ID sub) (append_notes (sub_Notes sub) (refund_note code reduceDays)))
                       (on_error (wrap ''update subscription notes'') succeed)
         in if remaining \<le> reduceDays
            then stmt (UpdateStatus (sub_ID sub) SubscriptionStatusExpired)
                   (on_error (wrap ''cancel subscription'') (\<lambda>_.
                     stmt (ExtendExpiry (sub_ID sub) now)
                       (on_error (wrap ''set subscription expiry'') (\<lambda>_. notes))))
            else stmt (ExtendExpiry (sub_ID sub) (AddDays (sub_ExpiresAt sub) (- reduceDays)))
                   (on_error (wrap ''reduce subscription'') (\<lambda>_. notes)))))"

text \<open>\<open>int(redeemCode.Value)\<close> truncates towards zero.\<close>

definition rat_trunc :: "rat \<Rightarrow> int" where
  "rat_trunc x = (if x < 0 then \<lceil>x\<rceil> else \<lfloor>x\<rfloor>)"

text \<open>What the code is worth, granted inside the transaction.\<close>

definition grant :: "User \<Rightarrow> RedeemCode \<Rightarrow> unit handler" where
  "grant user rc =
     (let u = usr_ID user; gid = (case rc_GroupID rc of None \<Rightarrow> 0 | Some g \<Rightarrow> g) in
      if rc_Type rc = RedeemTypeBalance then
        (let amount = (if rc_Value rc < 0 \<and> usr_Balance user + rc_Value rc < 0
                       then - usr_Balance user else rc_Value rc)
         in stmt (UpdateBalance u amount) (on_error (wrap ''update user balance'') succeed))
      else if rc_Type rc = RedeemTypeConcurrency then
        (let v = rat_trunc (rc_Value rc);
             delta = (if v < 0 \<and> usr_Concurrency user + v < 0 then - usr_Concurrency user else v)
         in stmt (UpdateConcurrency u delta) (on_error (wrap ''update user concurrency'') succeed))
      else if rc_Type rc = RedeemTypeSubscription then
        (if rc_ValidityDays rc < 0 then
           bind (reduceOrCancelSubscription u gid (- rc_ValidityDays rc) (rc_Code rc))
             (on_error (wrap ''reduce or cancel subscription'') succeed)
         else
           bind (AssignOrExtendSubscription \<lparr>as_UserID = u, as_GroupID = gid,
                   as_ValidityDays = (if rc_ValidityDays rc = 0 then 30 else rc_ValidityDays rc),
                   as_AssignedBy = 0, as_Notes = redeem_note (rc_Code rc)\<rparr>)
             (on_error (wrap ''assign or extend subscription'') (\<lambda>_. succeed ())))
      else fail (PlainErr (''unsupported redeem type: '' @ rc_Type rc)))"

definition redeem_tx :: "User \<Rightarrow> RedeemCode \<Rightarrow> unit handler" where
  "redeem_tx user rc =
     stmt (code_Use (rc_ID rc) (usr_ID user)) (on_error
       (\<lambda>e. if app_Is ErrRedeemCodeNotFound e \<or> app_Is ErrRedeemCodeUsed e
             then fail (AppErr ErrRedeemCodeUsed) else wrap ''mark code as used'' e)
       (\<lambda>_. grant user rc))"

definition redeem_locked :: "bool \<Rightarrow> int \<Rightarrow> string \<Rightarrow> RedeemCode handler" where
  "redeem_locked cache u code =
     stmt (code_GetByCode code) (on_error
       (\<lambda>e. if app_Is ErrRedeemCodeNotFound e
             then incrementRedeemErrorCount cache u (fail (AppErr ErrRedeemCodeNotFound))
             else wrap ''get redeem code'' e)
       (\<lambda>rc.
         if \<not> CanUse rc then incrementRedeemErrorCount cache u (fail (AppErr ErrRedeemCodeUsed))
         else if rc_Type rc = RedeemTypeSubscription \<and> rc_GroupID rc = None
         then fail (AppErr (BadRequest ''REDEEM_CODE_INVALID''
                ''invalid subscription redeem code: missing group_id''))
         else stmt (user_GetByID u) (on_error (wrap ''get user'') (\<lambda>user.
           atomically (transaction (redeem_tx user rc)) (on_error fail (\<lambda>_.
             stmt (code_GetByID (rc_ID rc)) (on_error (wrap ''get updated redeem code'') succeed))))))) "

definition Redeem :: "bool \<Rightarrow> int \<Rightarrow> string \<Rightarrow> RedeemCode handler" where
  "Redeem cache u code =
     bind (checkRedeemRateLimit cache u) (on_error fail (\<lambda>_.
       acquireRedeemLock cache code (\<lambda>ok.
         if \<not> ok then fail (AppErr ErrRedeemCodeLocked)
         else bind (redeem_locked cache u code) (\<lambda>r. releaseRedeemLock cache code (Return r)))))"

definition CreateCode :: "RedeemCode \<Rightarrow> RedeemCode handler" where
  "CreateCode c =
     (let c = c\<lparr>rc_Code := TrimSpace (rc_Code c)\<rparr>;
          c1 = (if rc_Type c = [] then c\<lparr>rc_Type := RedeemTypeBalance\<rparr> else c);
          c2 = (if rc_Status c1 = [] then c1\<lparr>rc_Status := StatusUnused\<rparr> else c1)
      in if rc_Code c = [] then fail (PlainErr ''code is required'')
         else if rc_Type c1 \<noteq> RedeemTypeInvitation \<and> rc_Value c1 = 0
         then fail (PlainErr ''value must not be zero'')
         else stmt (code_Create c2) (on_error (wrap ''create redeem code'') succeed))"

definition GetByCode :: "string \<Rightarrow> RedeemCode handler" where
  "GetByCode code = stmt (code_GetByCode code) (on_error (wrap ''get redeem code'') succeed)"

definition DeleteCode :: "int \<Rightarrow> unit handler" where
  "DeleteCode i =
     stmt (code_GetByID i) (on_error (wrap ''get redeem code'') (\<lambda>c.
       if IsUsed c
       then fail (AppErr (Conflict ''REDEEM_CODE_DELETE_USED'' ''cannot delete used redeem code''))
       else stmt (code_Delete i) (on_error (wrap ''delete redeem code'') succeed)))"

text \<open>Sixteen random bytes as four groups of eight upper-case hexadecimal digits.\<close>

definition EncodeToString :: "nat list \<Rightarrow> string" where
  "EncodeToString bs = concat (map (\<lambda>b. [hex_digit (b div 16), hex_digit (b mod 16)]) bs)"

definition GenerateRandomCode :: "nat list \<Rightarrow> string" where
  "GenerateRandomCode bytes =
     (let code = EncodeToString bytes; part = (\<lambda>i. ToUpper (take 8 (drop (8 * i) code)))
      in part 0 @ ''-'' @ part 1 @ ''-'' @ part 2 @ ''-'' @ part 3)"

definition GenerateCodes :: "(nat \<Rightarrow> nat list) \<Rightarrow> int \<Rightarrow> rat \<Rightarrow> string \<Rightarrow> RedeemCode list handler" where
  "GenerateCodes rnd count val ty =
     (if count \<le> 0 then fail (PlainErr ''count must be greater than 0'')
      else if ty \<noteq> RedeemTypeInvitation \<and> val = 0 then fail (PlainErr ''value must not be zero'')
      else if 1000 < count then fail (PlainErr ''cannot generate more than 1000 codes at once'')
      else
        (let ty1 = (if ty = [] then RedeemTypeBalance else ty);
             val1 = (if ty1 = RedeemTypeInvitation then 0 else val);
             codes = map (\<lambda>i. \<lparr>rc_ID = 0, rc_Code = GenerateRandomCode (rnd i), rc_Type = ty1,
                 rc_Value = val1, rc_Status = StatusUnused, rc_UsedBy = None, rc_UsedAt = None,
                 rc_Notes = [], rc_GroupID = None, rc_ValidityDays = 0\<rparr>) [0..<nat count]
         in stmt (code_CreateBatch codes) (on_error (wrap ''create batch codes'') (\<lambda>_. succeed codes))))"

end
