(* ===== verification/RedeemProps.thy ===== *)
theory RedeemProps
  imports Redeem SubscriptionProps
begin

text \<open>
  What redeeming a code guarantees: a code is used and its worth granted together or not at all,
  once, whatever fails; and three places where the code does something else than it means to.
\<close>

section \<open>The transaction as a whole\<close>

text \<open>The tables after a code was used and its worth granted; a subscription is granted elsewhere.\<close>

definition granted :: "gotime \<Rightarrow> User \<Rightarrow> RedeemCode \<Rightarrow> business_db \<Rightarrow> business_db" where
  "granted now user rc db =
     (let db1 = snd (code_Use (rc_ID rc) (usr_ID user) now db) in
      if rc_Type rc = RedeemTypeBalance
      then snd (UpdateBalance (usr_ID user) (if rc_Value rc < 0 \<and> usr_Balance user + rc_Value rc < 0
             then - usr_Balance user else rc_Value rc) now db1)
      else if rc_Type rc = RedeemTypeConcurrency
      then snd (UpdateConcurrency (usr_ID user) (let v = rat_trunc (rc_Value rc)
             in if v < 0 \<and> usr_Concurrency user + v < 0 then - usr_Concurrency user else v) now db1)
      else db1)"

definition subs_only :: "business_db \<Rightarrow> business_db \<Rightarrow> bool" where
  "subs_only db db1 \<longleftrightarrow> db1 = db\<lparr>db_subs := db_subs db1\<rparr>"

interpretation frame: db_rely subs_only
proof
  show "subs_only db db" for db by (simp add: subs_only_def)
  show "subs_only db1 db3" if "subs_only db1 db2" "subs_only db2 db3" for db1 db2 db3
    using that unfolding subs_only_def by (metis business_db.select_convs(3) business_db.surjective business_db.update_convs(3))
qed

lemma subs_only_statements [simp]:
  "subs_only db (snd (sub_GetByID i now db))"
  "subs_only db (snd (sub_GetByUserIDAndGroupID u g now db))"
  "subs_only db (snd (group_GetByID g now db))"
  "subs_only db (snd (UpdateStatus i st now db))"
  "subs_only db (snd (UpdateNotes i n now db))"
  "subs_only db (snd (ExtendExpiry i t now db))"
  "subs_only db (snd (sub_Create s now db))"
  "subs_only db (db\<lparr>db_subs := ss\<rparr>)"
  by (simp_all add: subs_only_def sub_GetByID_def sub_GetByUserIDAndGroupID_def group_GetByID_def
      UpdateStatus_def UpdateNotes_def ExtendExpiry_def sub_update_def sub_Create_def Let_def)

abbreviation framed :: "(world, 'a) prog \<Rightarrow> world \<Rightarrow> bool" where
  "framed p w \<equiv> guards (moves subs_only) (moves subs_only) (\<lambda>_ _. True) p w"

lemma framed_createSubscription: "framed (createSubscription inp) w"
  unfolding createSubscription_def Let_def by (intro frame.guards_intros) simp_all

lemma framed_extend_tx: "framed (extend_tx sub t notes) w"
  unfolding extend_tx_def Let_def by (intro frame.guards_intros) simp_all

lemma framed_AssignOrExtend: "framed (AssignOrExtendSubscription inp) w"
  unfolding AssignOrExtendSubscription_def
  by (intro frame.guards_intros frame.guards_separate_any framed_createSubscription framed_extend_tx)
     simp_all

lemma framed_reduceOrCancel: "framed (reduceOrCancelSubscription u g d code) w"
  unfolding reduceOrCancelSubscription_def Let_def by (intro frame.guards_intros) simp_all

lemma exec_framed: "framed p w \<Longrightarrow> moves subs_only w (snd (exec p w))"
  using frame.guards_exec by blast

lemma framed_grant_subscription:
  "rc_Type rc \<noteq> RedeemTypeBalance \<Longrightarrow> rc_Type rc \<noteq> RedeemTypeConcurrency \<Longrightarrow> framed (grant user rc) w"
  unfolding grant_def Let_def
  by (simp only: if_False simp_thms)
     (intro frame.guards_intros framed_AssignOrExtend framed_reduceOrCancel; simp)

lemma moves_subs_only:
  "moves subs_only w w1 \<Longrightarrow> \<exists>ss. w_db w1 = (w_db w)\<lparr>db_subs := ss\<rparr>"
  "moves subs_only w w1 \<Longrightarrow> w_base w = Some b \<Longrightarrow> \<exists>ss. w_base w1 = Some (b\<lparr>db_subs := ss\<rparr>)"
proof -
  show "moves subs_only w w1 \<Longrightarrow> \<exists>ss. w_db w1 = (w_db w)\<lparr>db_subs := ss\<rparr>"
    unfolding moves_def subs_only_def by blast
  show "\<exists>ss. w_base w1 = Some (b\<lparr>db_subs := ss\<rparr>)" if m: "moves subs_only w w1" "w_base w = Some b"
  proof -
    obtain c where "w_base w1 = Some c" "subs_only b c"
      using m by (cases "w_base w1") (auto simp: moves_def)
    then show ?thesis unfolding subs_only_def by metis
  qed
qed

definition grantable :: "gotime \<Rightarrow> User \<Rightarrow> RedeemCode \<Rightarrow> business_db \<Rightarrow> bool" where
  "grantable now user rc db \<longleftrightarrow>
     fst (code_Use (rc_ID rc) (usr_ID user) now db) = Inr () \<and>
     (rc_Type rc = RedeemTypeBalance \<longrightarrow> matches (\<lambda>u. usr_ID u = usr_ID user) (db_users db) \<noteq> 0)"

lemma code_Use_frame [simp]:
  "db_users (snd (code_Use i u now db)) = db_users db" "db_orders (snd (code_Use i u now db)) = db_orders db"
  "db_subs (snd (code_Use i u now db)) = db_subs db" "db_audit (snd (code_Use i u now db)) = db_audit db"
  by (simp_all add: code_Use_def Let_def)

lemma statement_base: "w_base (snd (statement q w)) = w_base w"
  by simp

lemma grant_result:
  assumes b: "w_base w = Some b" and n: "w_now w = now"
    and db: "w_db w = snd (code_Use (rc_ID rc) (usr_ID user) now db)"
    and e: "exec (grant user rc) w = (r, w1)"
  shows "(\<exists>ss. w_base w1 = Some (b\<lparr>db_subs := ss\<rparr>)) \<and>
    (r = Inr () \<longrightarrow> (\<exists>ss. w_db w1 = (granted now user rc db)\<lparr>db_subs := ss\<rparr>) \<and>
       (rc_Type rc = RedeemTypeBalance \<longrightarrow> matches (\<lambda>u. usr_ID u = usr_ID user) (db_users db) \<noteq> 0)) \<and>
    (rc_Type rc \<noteq> RedeemTypeSubscription \<longrightarrow> w_base w1 = Some b \<and>
       (r = Inr () \<longrightarrow> w_db w1 = granted now user rc db))"
proof -
  have self: "\<exists>ss. d = d\<lparr>db_subs := ss\<rparr>" for d :: business_db
    by (rule exI [of _ "db_subs d"]) simp
  consider (bal) "rc_Type rc = RedeemTypeBalance" | (con) "rc_Type rc = RedeemTypeConcurrency"
    | (sub) "rc_Type rc = RedeemTypeSubscription"
    | (oth) "rc_Type rc \<noteq> RedeemTypeBalance" "rc_Type rc \<noteq> RedeemTypeConcurrency"
        "rc_Type rc \<noteq> RedeemTypeSubscription"
    by blast
  then show ?thesis
  proof cases
    case bal
    let ?q = "UpdateBalance (usr_ID user) (if rc_Value rc < 0 \<and> usr_Balance user + rc_Value rc < 0
        then - usr_Balance user else rc_Value rc)"
    have e1: "exec (stmt ?q (on_error (wrap ''update user balance'') succeed)) w = (r, w1)"
      using e bal by (simp only: grant_def Let_def if_True simp_thms)
    show ?thesis
    proof (cases "fst (statement ?q w)")
      case (Inl err)
      then show ?thesis using e1 b self [of b] bal by (auto simp: exec_stmt redeem_type_defs)
    next
      case (Inr u)
      then have "fst (?q now (w_db w)) = Inr u \<and> w_db (snd (statement ?q w)) = snd (?q now (w_db w))"
        using statement_ok [OF Inr] n by simp
      moreover have "w1 = snd (statement ?q w)" using e1 Inr by (auto simp: exec_stmt)
      moreover have "matches (\<lambda>u. usr_ID u = usr_ID user) (db_users db) \<noteq> 0"
        using calculation(1) by (auto simp: db UpdateBalance_def user_update_def split: if_splits)
      ultimately show ?thesis using b bal self [of b] self [of "granted now user rc db"]
        by (auto simp: granted_def Let_def db)
    qed
  next
    case con
    let ?q = "UpdateConcurrency (usr_ID user) (let v = rat_trunc (rc_Value rc)
             in if v < 0 \<and> usr_Concurrency user + v < 0 then - usr_Concurrency user else v)"
    have nb: "RedeemTypeConcurrency \<noteq> RedeemTypeBalance" by (simp add: redeem_type_defs)
    have e1: "exec (stmt ?q (on_error (wrap ''update user concurrency'') succeed)) w = (r, w1)"
      using e con nb by (simp only: grant_def Let_def if_True if_False simp_thms)
    show ?thesis
    proof (cases "fst (statement ?q w)")
      case (Inl err)
      then show ?thesis using e1 b self [of b] con nb by (auto simp: exec_stmt)
    next
      case (Inr u)
      then have "w_db (snd (statement ?q w)) = snd (?q now (w_db w))"
        using statement_ok [OF Inr] n by simp
      moreover have "w1 = snd (statement ?q w)" using e1 Inr by (auto simp: exec_stmt)
      ultimately show ?thesis using b con nb self [of b] self [of "granted now user rc db"]
        by (auto simp: granted_def db)
    qed
  next
    case sub
    then have t: "rc_Type rc \<noteq> RedeemTypeBalance" "rc_Type rc \<noteq> RedeemTypeConcurrency"
      by (simp_all add: redeem_type_defs)
    have "moves subs_only w w1"
      using exec_framed [where w = w, OF framed_grant_subscription [where user = user, OF t]] e by simp
    from moves_subs_only(1) [OF this] moves_subs_only(2) [OF this b] show ?thesis
      using t sub by (auto simp: granted_def db Let_def)
  next
    case oth
    then have "exec (fail (PlainErr (''unsupported redeem type: '' @ rc_Type rc))) w = (r, w1)"
      using e by (simp only: grant_def Let_def if_False simp_thms)
    then show ?thesis using b self [of b] by auto
  qed
qed

lemma redeem_tx_result:
  assumes b: "w_base w = Some (w_db w)" and e: "exec (redeem_tx user rc) w = (r, w1)"
  shows "(\<exists>ss. w_base w1 = Some ((w_db w)\<lparr>db_subs := ss\<rparr>)) \<and>
    (r = Inr () \<longrightarrow> grantable (w_now w) user rc (w_db w) \<and>
       (\<exists>ss. w_db w1 = (granted (w_now w) user rc (w_db w))\<lparr>db_subs := ss\<rparr>)) \<and>
    (rc_Type rc \<noteq> RedeemTypeSubscription \<longrightarrow> w_base w1 = Some (w_db w) \<and>
       (r = Inr () \<longrightarrow> w_db w1 = granted (w_now w) user rc (w_db w)))"
proof (cases "fst (statement (code_Use (rc_ID rc) (usr_ID user)) w)")
  case (Inl err)
  have "exec (if c then fail e1 else wrap m e2) v = (r, w1) \<Longrightarrow> w1 = v \<and> r \<noteq> Inr ()"
    for c m v and e1 e2 :: go_error
    by (auto split: if_splits)
  with e Inl b have "w_base w1 = Some (w_db w)" "r \<noteq> Inr ()"
    by (force simp: redeem_tx_def exec_stmt)+
  then show ?thesis by (metis business_db.surjective business_db.update_convs(3))
next
  case (Inr u)
  let ?v = "snd (statement (code_Use (rc_ID rc) (usr_ID user)) w)"
  have use: "fst (code_Use (rc_ID rc) (usr_ID user) (w_now w) (w_db w)) = Inr ()"
    "w_db ?v = snd (code_Use (rc_ID rc) (usr_ID user) (w_now w) (w_db w))"
    using statement_ok [OF Inr] by simp_all
  have "exec (grant user rc) ?v = (r, w1)"
    using e Inr by (simp add: redeem_tx_def exec_stmt)
  from grant_result [OF _ refl _ this, of "w_db w" "w_db w"] b use show ?thesis
    by (simp add: grantable_def)
qed

text \<open>Whatever fails: nothing but subscriptions changed, or the code is used and its worth granted.\<close>

lemma redeem_transaction:
  assumes b: "w_base w = None" and t: "transaction (redeem_tx user rc) w = (r, w1)"
  shows "w_base w1 = None \<and>
    ((\<exists>ss. w_db w1 = (w_db w)\<lparr>db_subs := ss\<rparr>) \<and> r \<noteq> Inr () \<or>
     grantable (w_now w) user rc (w_db w) \<and>
       (\<exists>ss. w_db w1 = (granted (w_now w) user rc (w_db w))\<lparr>db_subs := ss\<rparr>)) \<and>
    (rc_Type rc \<noteq> RedeemTypeSubscription \<longrightarrow>
       w_db w1 = w_db w \<and> r \<noteq> Inr () \<or>
       grantable (w_now w) user rc (w_db w) \<and> w_db w1 = granted (w_now w) user rc (w_db w))"
proof -
  have self: "\<exists>ss. d = d\<lparr>db_subs := ss\<rparr>" for d :: business_db
    by (rule exI [of _ "db_subs d"]) simp
  obtain oc v where n: "next_outcome w = (oc, v)" by (cases "next_outcome w")
  have v: "w_db v = w_db w" "w_base v = None" "w_now v = w_now w"
    using next_outcome_db [of w] b by (simp_all add: n)
  show ?thesis
  proof (cases "oc = Works")
    case False
    then show ?thesis using t n v self [of "w_db w"] by (auto simp: transaction_def)
  next
    case True
    let ?v = "v\<lparr>w_base := Some (w_db v)\<rparr>"
    obtain r2 w2 where e: "exec (redeem_tx user rc) ?v = (r2, w2)"
      by (cases "exec (redeem_tx user rc) ?v")
    have "w_base ?v = Some (w_db ?v)" and vs: "w_db ?v = w_db w" "w_now ?v = w_now w"
      by (simp_all add: v)
    then have R: "(\<exists>ss. w_base w2 = Some ((w_db w)\<lparr>db_subs := ss\<rparr>)) \<and>
      (r2 = Inr () \<longrightarrow> grantable (w_now w) user rc (w_db w) \<and>
         (\<exists>ss. w_db w2 = (granted (w_now w) user rc (w_db w))\<lparr>db_subs := ss\<rparr>)) \<and>
      (rc_Type rc \<noteq> RedeemTypeSubscription \<longrightarrow> w_base w2 = Some (w_db w) \<and>
         (r2 = Inr () \<longrightarrow> w_db w2 = granted (w_now w) user rc (w_db w)))"
      using redeem_tx_result [OF _ e] unfolding vs by blast
    show ?thesis
    proof (cases r2)
      case (Inl err)
      then have "r = Inl err" "w1 = tx_abort w2" using t n True e by (simp_all add: transaction_def)
      then show ?thesis using R by (auto simp: tx_abort_def)
    next
      case (Inr u)
      obtain oc2 w3 where n2: "next_outcome w2 = (oc2, w3)" by (cases "next_outcome w2")
      have w3: "w_db w3 = w_db w2" "w_base w3 = w_base w2"
        using next_outcome_db [of w2] by (simp_all add: n2)
      have rw: "(r, w1) = (case oc2 of Works \<Rightarrow> (Inr u, w3\<lparr>w_base := None\<rparr>)
          | Fails \<Rightarrow> (Inl ErrDatabase, tx_abort w3) | Unacked \<Rightarrow> (Inl ErrDatabase, w3\<lparr>w_base := None\<rparr>))"
        using t n True e Inr n2 by (cases oc2) (simp_all add: transaction_def)
      show ?thesis
        using R Inr w3 rw by (cases oc2) (auto simp: tx_abort_def)
    qed
  qed
qed

section \<open>Redeeming alone, whatever fails\<close>

text \<open>The Redis commands do not touch the tables.\<close>

definition tables_kept :: "world \<Rightarrow> world \<Rightarrow> bool" where
  "tables_kept w w1 \<longleftrightarrow> w_db w1 = w_db w \<and> w_base w1 = w_base w \<and> w_now w1 = w_now w"

lemma exec_redis:
  assumes "\<And>v. tables_kept v (snd (f v))"
  shows "\<exists>r w1. exec (redis f k) w = exec (k r) w1 \<and> tables_kept w w1"
proof -
  obtain oc v where n: "next_outcome w = (oc, v)" by (cases "next_outcome w")
  have v: "tables_kept w v" using next_outcome_db [of w] by (simp add: n tables_kept_def)
  then have "tables_kept w (snd (f v))" using assms [of v] by (simp add: tables_kept_def)
  with n v show ?thesis
    by (cases oc) (auto simp: redis_def case_prod_unfold)
qed

lemma cache_commands_kept [simp]:
  "tables_kept v (snd (GetRedeemAttemptCount u v))"
  "tables_kept v (snd (IncrementRedeemAttemptCount u v))"
  "tables_kept v (snd (AcquireRedeemLock code ttl v))"
  "tables_kept v (snd (ReleaseRedeemLock code v))"
  by (simp_all add: tables_kept_def GetRedeemAttemptCount_def IncrementRedeemAttemptCount_def
      AcquireRedeemLock_def ReleaseRedeemLock_def split: option.split)

lemma tables_kept_refl [simp]: "tables_kept w w"
  by (simp add: tables_kept_def)

lemma exec_check:
  "\<exists>r w1. exec (checkRedeemRateLimit cache u) w = (r, w1) \<and> tables_kept w w1"
proof (cases cache)
  case True
  define k :: "go_error + int \<Rightarrow> unit handler" where "k = (\<lambda>r. case r of Inl _ \<Rightarrow> succeed ()
      | Inr n \<Rightarrow> if redeemMaxErrorsPerHour \<le> n then fail (AppErr ErrRedeemRateLimited) else succeed ())"
  have "checkRedeemRateLimit cache u = redis (GetRedeemAttemptCount u) k"
    using True by (simp add: checkRedeemRateLimit_def k_def)
  moreover obtain r w1 where "exec (redis (GetRedeemAttemptCount u) k) w = exec (k r) w1" "tables_kept w w1"
    using exec_redis [where f = "GetRedeemAttemptCount u" and k = k and w = w] by auto
  moreover have "exec (k r) w1 = (fst (exec (k r) w1), w1)"
    by (cases r) (simp_all add: k_def)
  ultimately show ?thesis by metis
qed (simp add: checkRedeemRateLimit_def)

lemma exec_increment:
  "\<exists>w1. exec (incrementRedeemErrorCount cache u (fail e)) w = (Inl e, w1) \<and> tables_kept w w1"
  using exec_redis [of "IncrementRedeemAttemptCount u" "\<lambda>_. fail e" w]
  by (auto simp: incrementRedeemErrorCount_def)

lemma exec_incrementD:
  fixes r :: "go_error + 'b"
  assumes "exec (incrementRedeemErrorCount cache u (fail e)) w = (r, w1)"
  shows "tables_kept w w1 \<and> r = Inl e"
proof -
  from exec_increment obtain w2 where
    "exec (incrementRedeemErrorCount cache u (fail e :: 'b handler)) w = (Inl e, w2) \<and> tables_kept w w2" ..
  with assms show ?thesis by simp
qed

lemma exec_release:
  "\<exists>w1. exec (releaseRedeemLock cache code (Return r)) w = (r, w1) \<and> tables_kept w w1"
  using exec_redis [of "ReleaseRedeemLock code" "\<lambda>_. Return r" w]
  by (auto simp: releaseRedeemLock_def)

lemma exec_acquire:
  "\<exists>ok w1. exec (acquireRedeemLock cache code k) w = exec (k ok) w1 \<and> tables_kept w w1"
proof (cases cache)
  case True
  define h where "h = (\<lambda>r :: go_error + bool. case r of Inl _ \<Rightarrow> k True | Inr ok \<Rightarrow> k ok)"
  have "acquireRedeemLock cache code k = redis (AcquireRedeemLock code redeemLockDuration) h"
    using True by (simp add: acquireRedeemLock_def h_def)
  moreover obtain r w1 where "exec (redis (AcquireRedeemLock code redeemLockDuration) h) w = exec (h r) w1"
      "tables_kept w w1"
    using exec_redis [where f = "AcquireRedeemLock code redeemLockDuration" and k = h and w = w] by auto
  moreover have "h r = k (case r of Inl _ \<Rightarrow> True | Inr ok \<Rightarrow> ok)"
    by (cases r) (simp_all add: h_def)
  ultimately show ?thesis by metis
next
  case False
  have "acquireRedeemLock cache code k = k True" using False by (simp add: acquireRedeemLock_def)
  then show ?thesis by (metis tables_kept_refl)
qed

text \<open>A query that only reads.\<close>

lemma statement_read:
  assumes "\<And>now db. snd (q now db) = db"
  shows "tables_kept w (snd (statement q w))"
  using statement_db [of q w] assms by (auto simp: tables_kept_def)

lemma reads [simp]:
  "snd (code_GetByCode code now db) = db" "snd (code_GetByID i now db) = db" "snd (user_GetByID u now db) = db"
  by (simp_all add: code_GetByCode_def code_GetByID_def user_GetByID_def)

lemma code_GetByCode_ok: "fst (code_GetByCode code now db) = Inr rc \<longleftrightarrow> only (\<lambda>c. rc_Code c = code) (db_codes db) = Inr rc"
  by (cases "only (\<lambda>c. rc_Code c = code) (db_codes db)") (simp_all add: code_GetByCode_def code_result_def)

lemma user_GetByID_ok: "fst (user_GetByID u now db) = Inr user \<Longrightarrow> user \<in> set (db_users db) \<and> usr_ID user = u"
  by (cases "only (\<lambda>x. usr_ID x = u \<and> \<not> usr_deleted x) (db_users db)")
     (auto simp: user_GetByID_def translated_def dest: only_Inr)

lemma tables_kept_trans: "tables_kept u v \<Longrightarrow> tables_kept v w \<Longrightarrow> tables_kept u w"
  by (simp add: tables_kept_def)

text \<open>The effect of redeeming on the tables, in one relation.\<close>

definition redeem_effect :: "int \<Rightarrow> string \<Rightarrow> world \<Rightarrow> bool \<Rightarrow> business_db \<Rightarrow> bool" where
  "redeem_effect u code w ok db1 \<longleftrightarrow>
     (let db = w_db w in
      (\<exists>ss. db1 = db\<lparr>db_subs := ss\<rparr>) \<and> \<not> ok \<and>
        (db1 = db \<or> (\<exists>rc. only (\<lambda>c. rc_Code c = code) (db_codes db) = Inr rc \<and> rc_Type rc = RedeemTypeSubscription)) \<or>
      (\<exists>rc user ss. only (\<lambda>c. rc_Code c = code) (db_codes db) = Inr rc \<and> CanUse rc \<and>
         user \<in> set (db_users db) \<and> usr_ID user = u \<and> grantable (w_now w) user rc db \<and>
         db1 = (granted (w_now w) user rc db)\<lparr>db_subs := ss\<rparr> \<and>
         (rc_Type rc \<noteq> RedeemTypeSubscription \<longrightarrow> db1 = granted (w_now w) user rc db)))"

lemma redeem_effect_none: "redeem_effect u code w False (w_db w)"
proof -
  have "w_db w = (w_db w)\<lparr>db_subs := db_subs (w_db w)\<rparr>" by simp
  then show ?thesis unfolding redeem_effect_def Let_def by blast
qed

lemma redeem_effect_kept: "tables_kept w v \<Longrightarrow> redeem_effect u code v = redeem_effect u code w"
  by (simp add: redeem_effect_def tables_kept_def fun_eq_iff)

lemma exec_redeem_locked:
  assumes b: "w_base w = None" and e: "exec (redeem_locked cache u code) w = (r, w1)"
  shows "w_base w1 = None \<and> redeem_effect u code w (\<exists>c. r = Inr c) (w_db w1)"
proof -
  have stop: ?thesis if "tables_kept w w1" "\<forall>c. r \<noteq> Inr c"
    using that b redeem_effect_none [of u code w] by (auto simp: tables_kept_def)
  let ?v = "snd (statement (code_GetByCode code) w)"
  have k: "tables_kept w ?v" by (rule statement_read) simp
  show ?thesis
  proof (cases "fst (statement (code_GetByCode code) w)")
    case (Inl err)
    then have x: "exec (if app_Is ErrRedeemCodeNotFound err
        then incrementRedeemErrorCount cache u (fail (AppErr ErrRedeemCodeNotFound))
        else wrap ''get redeem code'' err) ?v = (r, w1)"
      using e by (simp add: redeem_locked_def exec_stmt)
    show ?thesis
    proof (rule stop)
      show "tables_kept w w1" "\<forall>c. r \<noteq> Inr c"
        using x k by (auto split: if_splits dest!: exec_incrementD intro: tables_kept_trans)
    qed
  next
    case (Inr rc)
    have row: "only (\<lambda>c. rc_Code c = code) (db_codes (w_db w)) = Inr rc"
      using statement_ok [OF Inr] by (simp add: code_GetByCode_ok)
    let ?user = "\<lambda>user. atomically (transaction (redeem_tx user rc)) (on_error fail (\<lambda>_.
        stmt (code_GetByID (rc_ID rc)) (on_error (wrap ''get updated redeem code'') succeed)))"
    consider (used) "\<not> CanUse rc" | (invalid) "CanUse rc" "rc_Type rc = RedeemTypeSubscription \<and> rc_GroupID rc = None"
      | (go) "CanUse rc" "\<not> (rc_Type rc = RedeemTypeSubscription \<and> rc_GroupID rc = None)"
      by blast
    then show ?thesis
    proof cases
      case used
      then have "exec (incrementRedeemErrorCount cache u (fail (AppErr ErrRedeemCodeUsed))) ?v = (r, w1)"
        using e Inr by (simp add: redeem_locked_def exec_stmt)
      from exec_incrementD [OF this] show ?thesis
        using tables_kept_trans [OF k] by (intro stop) auto
    next
      case invalid
      then have "r \<noteq> Inr c \<and> w1 = ?v" for c
        using e Inr by (auto simp: redeem_locked_def exec_stmt)
      then show ?thesis using k by (intro stop) auto
    next
      case go
      have x: "exec (stmt (user_GetByID u) (on_error (wrap ''get user'') ?user)) ?v = (r, w1)"
        using e Inr go by (simp add: redeem_locked_def exec_stmt [of "code_GetByCode code"])
      let ?z = "snd (statement (user_GetByID u) ?v)"
      have kz: "tables_kept w ?z" by (rule tables_kept_trans [OF k]) (rule statement_read, simp)
      show ?thesis
      proof (cases "fst (statement (user_GetByID u) ?v)")
        case (Inl err)
        then show ?thesis using x kz by (intro stop) (auto simp: exec_stmt)
      next
        case (Inr user)
        have user: "user \<in> set (db_users (w_db w))" "usr_ID user = u"
          using statement_ok [OF Inr] user_GetByID_ok k by (auto simp: tables_kept_def)
        obtain r2 w2 where tr: "transaction (redeem_tx user rc) ?z = (r2, w2)"
          by (cases "transaction (redeem_tx user rc) ?z")
        have y: "exec (on_error fail (\<lambda>_. stmt (code_GetByID (rc_ID rc))
            (on_error (wrap ''get updated redeem code'') succeed)) r2) w2 = (r, w1)"
          using x Inr tr by (simp add: exec_stmt [of "user_GetByID u"])
        have "w_base ?z = None" "w_db ?z = w_db w" "w_now ?z = w_now w"
          using kz b by (simp_all add: tables_kept_def)
        note T = redeem_transaction [OF this(1) tr, unfolded this(2,3)]
        have kept: "tables_kept w2 w1"
        proof (cases r2)
          case (Inr x)
          have "tables_kept w2 (snd (statement (code_GetByID (rc_ID rc)) w2))"
            by (rule statement_read) simp
          with y Inr show ?thesis
            by (cases "fst (statement (code_GetByID (rc_ID rc)) w2)") (auto simp: exec_stmt)
        qed (use y in auto)
        have err: "r2 \<noteq> Inr () \<Longrightarrow> \<forall>c. r \<noteq> Inr c" using y by (cases r2) auto
        have same: "w_db w1 = w_db w2" "w_base w1 = w_base w2" using kept by (simp_all add: tables_kept_def)
        have self: "\<exists>ss. d = d\<lparr>db_subs := ss\<rparr>" for d :: business_db
          by (rule exI [of _ "db_subs d"]) simp
        let ?g = "granted (w_now w) user rc (w_db w)"
        show ?thesis
        proof (cases "grantable (w_now w) user rc (w_db w) \<and> (\<exists>ss. w_db w2 = ?g\<lparr>db_subs := ss\<rparr>) \<and>
            (rc_Type rc \<noteq> RedeemTypeSubscription \<longrightarrow> w_db w2 = ?g)")
          case True
          then obtain ss where "w_db w2 = ?g\<lparr>db_subs := ss\<rparr>" by blast
          with True same T row go(1) user show ?thesis
            unfolding redeem_effect_def Let_def by metis
        next
          case False
          then have "(\<exists>ss. w_db w2 = (w_db w)\<lparr>db_subs := ss\<rparr>)" "r2 \<noteq> Inr ()"
            "rc_Type rc \<noteq> RedeemTypeSubscription \<longrightarrow> w_db w2 = w_db w"
            using T self [of ?g] self [of "w_db w"] by metis+
          with same err row T show ?thesis
            unfolding redeem_effect_def Let_def by metis
        qed
      qed
    qed
  qed
qed

lemma exec_Redeem:
  assumes b: "w_base w = None" and e: "exec (Redeem cache u code) w = (r, w1)"
  shows "w_base w1 = None \<and> redeem_effect u code w (\<exists>c. r = Inr c) (w_db w1)"
proof -
  have stop: ?thesis if "tables_kept w w1" "\<forall>c. r \<noteq> Inr c"
    using that b redeem_effect_none [of u code w] by (auto simp: tables_kept_def)
  define k where "k = (\<lambda>ok. if \<not> ok then fail (AppErr ErrRedeemCodeLocked)
      else bind (redeem_locked cache u code) (\<lambda>r. releaseRedeemLock cache code (Return r)))"
  obtain c v where c: "exec (checkRedeemRateLimit cache u) w = (c, v)" "tables_kept w v"
    using exec_check by blast
  have x: "exec (on_error fail (\<lambda>_. acquireRedeemLock cache code k) c) v = (r, w1)"
    using e c by (simp add: Redeem_def k_def)
  show ?thesis
  proof (cases c)
    case (Inl err)
    then show ?thesis using x c(2) by (intro stop) auto
  next
    case (Inr un)
    obtain ok v1 where a: "exec (acquireRedeemLock cache code k) v = exec (k ok) v1" "tables_kept v v1"
      using exec_acquire by blast
    have v1: "tables_kept w v1" using c(2) a(2) by (rule tables_kept_trans)
    have y: "exec (k ok) v1 = (r, w1)" using x Inr a(1) by simp
    show ?thesis
    proof (cases ok)
      case False
      then show ?thesis using y v1 by (intro stop) (auto simp: k_def)
    next
      case True
      obtain r2 w2 where l: "exec (redeem_locked cache u code) v1 = (r2, w2)"
        by (cases "exec (redeem_locked cache u code) v1")
      obtain w3 where rel: "exec (releaseRedeemLock cache code (Return r2)) w2 = (r2, w3)" "tables_kept w2 w3"
        using exec_release [of cache code r2 w2] by auto
      have "r = r2" "w1 = w3" using y True l rel by (simp_all add: k_def)
      moreover have "w_base v1 = None" using v1 b by (simp add: tables_kept_def)
      ultimately show ?thesis
        using exec_redeem_locked [OF _ l] rel(2) redeem_effect_kept [OF v1, of u code]
        by (simp add: tables_kept_def)
    qed
  qed
qed

text \<open>
  (C22) Redeeming a code of money or concurrency, with any schedule of failing statements, lost
  acknowledgements and Redis errors: either the tables are as before and an error is returned, or
  the code was unused, is now used by this user, and its worth was granted to this user in full
  (a negative one down to zero). A used code is always refused without effect.
\<close>

theorem redeem_all_or_nothing:
  assumes "w_base w = None" "only (\<lambda>c. rc_Code c = code) (db_codes (w_db w)) = Inr rc"
    "rc_Type rc \<noteq> RedeemTypeSubscription"
  shows "case exec (Redeem cache u code) w of (r, w1) \<Rightarrow>
      w_db w1 = w_db w \<and> (\<forall>c. r \<noteq> Inr c) \<or>
      rc_Status rc = StatusUnused \<and>
      (\<exists>user \<in> set (db_users (w_db w)). usr_ID user = u \<and>
         w_db w1 = granted (w_now w) user rc (w_db w))"
proof -
  obtain r w1 where e: "exec (Redeem cache u code) w = (r, w1)" by (cases "exec (Redeem cache u code) w")
  from exec_Redeem [OF assms(1) e] show ?thesis
    using assms(2,3) unfolding e redeem_effect_def Let_def CanUse_def by auto
qed

text \<open>An example: a user, an unused code of 5 and an unused code of 30 days.\<close>

definition demo_user :: User where
  "demo_user = \<lparr>usr_ID = 7, usr_Balance = 1, usr_TotalRecharged = 0, usr_Concurrency = 3,
     usr_Status = ''active'', usr_deleted = False\<rparr>"

definition demo_code :: "int \<Rightarrow> string \<Rightarrow> string \<Rightarrow> RedeemCode" where
  "demo_code i code ty = \<lparr>rc_ID = i, rc_Code = code, rc_Type = ty, rc_Value = 5, rc_Status = ''unused'',
     rc_UsedBy = None, rc_UsedAt = None, rc_Notes = [], rc_GroupID = Some 1, rc_ValidityDays = 30\<rparr>"

definition redeem_world :: "outcome list \<Rightarrow> world" where
  "redeem_world fs = (demo_world 0)\<lparr>w_db := demo_db\<lparr>db_users := [demo_user],
     db_codes := [demo_code 1 ''A'' ''balance'', demo_code 2 ''B'' ''subscription'']\<rparr>, w_faults := fs\<rparr>"

lemma redeem_world_code:
  "only (\<lambda>c. rc_Code c = ''A'') (db_codes (w_db (redeem_world fs))) = Inr (demo_code 1 ''A'' ''balance'')"
  "only (\<lambda>c. rc_Code c = ''B'') (db_codes (w_db (redeem_world fs))) = Inr (demo_code 2 ''B'' ''subscription'')"
  by (simp_all add: redeem_world_def demo_code_def only_def)

text \<open>With the commit failing, and with its acknowledgement lost.\<close>

theorem redeem_all_or_nothing_witness:
  "(let w = redeem_world [Works, Works, Works, Works, Works, Fails] in case exec (Redeem False 7 ''A'') w of
      (r, w1) \<Rightarrow> w_db w1 = w_db w \<and> (\<forall>c. r \<noteq> Inr c) \<or>
        rc_Status (demo_code 1 ''A'' ''balance'') = StatusUnused \<and>
        (\<exists>user \<in> set (db_users (w_db w)). usr_ID user = 7 \<and>
          w_db w1 = granted (w_now w) user (demo_code 1 ''A'' ''balance'') (w_db w)))
   \<and> (let w = redeem_world [Works, Works, Works, Works, Works, Unacked] in case exec (Redeem False 7 ''A'') w of
      (r, w1) \<Rightarrow> w_db w1 = w_db w \<and> (\<forall>c. r \<noteq> Inr c) \<or>
        rc_Status (demo_code 1 ''A'' ''balance'') = StatusUnused \<and>
        (\<exists>user \<in> set (db_users (w_db w)). usr_ID user = 7 \<and>
          w_db w1 = granted (w_now w) user (demo_code 1 ''A'' ''balance'') (w_db w)))"
proof -
  have b: "w_base (redeem_world fs) = None" for fs by (simp add: redeem_world_def demo_world_def)
  have t: "rc_Type (demo_code 1 ''A'' ''balance'') \<noteq> RedeemTypeSubscription"
    by (simp add: demo_code_def redeem_type_defs)
  show ?thesis
    unfolding Let_def
    by (intro conjI redeem_all_or_nothing [OF b redeem_world_code(1) t])
qed

section \<open>Where the code does something else\<close>

text \<open>
  Redeeming a subscription code is not atomic: the renewal commits in a transaction of its own, so
  when the commit of the surrounding one fails, the code stays unused, the user gets an error, and
  the subscription has been extended all the same. The code can be redeemed again.
\<close>

theorem failed_redeem_keeps_renewal:
  assumes "w_faults w = replicate 11 Works @ [Fails]" "w_base w = None" "subs_wf (w_db w)"
    "only (\<lambda>c. rc_Code c = code) (db_codes (w_db w)) = Inr rc" "rc_Status rc = StatusUnused"
    "rc_Type rc = RedeemTypeSubscription" "rc_GroupID rc = Some gid" "0 < rc_ValidityDays rc"
    "only (\<lambda>x. usr_ID x = u \<and> \<not> usr_deleted x) (db_users (w_db w)) = Inr user"
    "only (\<lambda>r. grp_ID r = gid \<and> \<not> grp_deleted r) (db_groups (w_db w)) = Inr g" "IsSubscriptionType g"
    "only (live_sub u gid) (db_subs (w_db w)) = Inr s" "sub_Status s = SubscriptionStatusActive"
  shows "\<exists>s1. exec (Redeem False u code) w = (Inl ErrDatabase, w\<lparr>w_faults := [], w_db := (w_db w)\<lparr>db_subs :=
      change (\<lambda>x. sub_ID x = sub_ID s) (\<lambda>_. s1) (db_subs (w_db w))\<rparr>\<rparr>)
    \<and> sub_ExpiresAt s1 = renewed_expiry (w_now w) s (normalizeAssignValidityDays (rc_ValidityDays rc))"
proof -
  have s: "s \<in> set (db_subs (w_db w))" "live_sub u gid s" using only_Inr [OF assms(12)] by auto
  have hit: "list_ex (\<lambda>x. sub_ID x = sub_ID s) (db_subs (w_db w))"
    using s(1) by (auto simp: list_ex_iff)
  have ids: "distinct (map sub_ID (db_subs (w_db w)))" using assms(3) by (simp add: subs_wf_def)
  have faults: "w_faults w = [Works, Works, Works, Works, Works, Works, Works, Works, Works, Works, Works, Fails]"
    using assms(1) by (simp add: numeral_eq_Suc)
  have user: "usr_ID user = u" using only_Inr [OF assms(9)] by simp
  have rc: "rc \<in> set (db_codes (w_db w))" "rc_Code rc = code" using only_Inr [OF assms(4)] by auto
  have unused: "filter (\<lambda>c. rc_ID c = rc_ID rc \<and> rc_Status c = StatusUnused) (db_codes (w_db w)) \<noteq> []"
    using rc(1) assms(5) by (auto simp: filter_empty_conv)
  have worded: "redeem_note c \<noteq> []" for c by (simp add: redeem_note_def)
  define s1 where "s1 = s\<lparr>sub_ExpiresAt := renewed_expiry (w_now w) s (normalizeAssignValidityDays (rc_ValidityDays rc)),
      sub_Notes := append_notes (sub_Notes s) (redeem_note (rc_Code rc))\<rparr>"
  have row: "only (\<lambda>x. sub_ID x = sub_ID s \<and> \<not> sub_deleted x)
      (change (\<lambda>x. sub_ID x = sub_ID s) (\<lambda>_. s1) (db_subs (w_db w))) = Inr s1"
    using only_changed [OF ids s(1) refl, of "\<lambda>_. s1"] s(2) by (simp add: s1_def live_sub_def)
  have upd: "change (\<lambda>x. sub_ID x = sub_ID s) (\<lambda>x. x\<lparr>sub_ExpiresAt := renewed_expiry (w_now w) s
        (normalizeAssignValidityDays (rc_ValidityDays rc)),
      sub_Notes := append_notes (sub_Notes s) (redeem_note (rc_Code rc))\<rparr>) (db_subs (w_db w)) =
      change (\<lambda>x. sub_ID x = sub_ID s) (\<lambda>_. s1) (db_subs (w_db w))"
    by (rule change_key [OF ids s(1)]) (simp add: s1_def)
  have "exec (Redeem False u code) w = (Inl ErrDatabase, w\<lparr>w_faults := [], w_db := (w_db w)\<lparr>db_subs :=
      change (\<lambda>x. sub_ID x = sub_ID s) (\<lambda>_. s1) (db_subs (w_db w))\<rparr>\<rparr>)"
    using assms(2,5,6,7,8,10,11,12,13) faults user unused worded hit
    by (simp add: Redeem_def checkRedeemRateLimit_def acquireRedeemLock_def redeem_locked_def
        code_GetByCode_def code_result_def assms(4) user_GetByID_def assms(9) translated_def CanUse_def
        releaseRedeemLock_def transaction_def next_outcome_def redeem_tx_def code_Use_def Let_def matches_def
        grant_def redeem_type_defs AssignOrExtendSubscription_def group_GetByID_def
        sub_GetByUserIDAndGroupID_def separate_transaction_def extend_tx_def ExtendExpiry_def
        UpdateNotes_def sub_update_def list_ex_change change_change upd sub_GetByID_def row tx_abort_def)
  then show ?thesis by (auto simp: s1_def)
qed

theorem failed_redeem_keeps_renewal_witness:
  "\<exists>s1. exec (Redeem False 7 ''B'') (redeem_world (replicate 11 Works @ [Fails])) =
      (Inl ErrDatabase, (redeem_world (replicate 11 Works @ [Fails]))\<lparr>w_faults := [],
        w_db := (w_db (redeem_world (replicate 11 Works @ [Fails])))\<lparr>db_subs := change (\<lambda>x. sub_ID x = sub_ID demo_sub)
          (\<lambda>_. s1) (db_subs (w_db (redeem_world (replicate 11 Works @ [Fails]))))\<rparr>\<rparr>)
    \<and> sub_ExpiresAt s1 = 35 * time_Day"
proof -
  let ?w = "redeem_world (replicate 11 Works @ [Fails])"
  have h: "w_faults ?w = replicate 11 Works @ [Fails]" "w_base ?w = None" "subs_wf (w_db ?w)"
    using demo_wf(3) by (simp_all add: redeem_world_def demo_world_def subs_wf_def)
  have c: "rc_Status (demo_code 2 ''B'' ''subscription'') = StatusUnused"
    "rc_Type (demo_code 2 ''B'' ''subscription'') = RedeemTypeSubscription"
    "rc_GroupID (demo_code 2 ''B'' ''subscription'') = Some 1"
    "0 < rc_ValidityDays (demo_code 2 ''B'' ''subscription'')"
    by (simp_all add: demo_code_def code_status_defs redeem_type_defs)
  have u: "only (\<lambda>x. usr_ID x = 7 \<and> \<not> usr_deleted x) (db_users (w_db ?w)) = Inr demo_user"
    "only (\<lambda>r. grp_ID r = 1 \<and> \<not> grp_deleted r) (db_groups (w_db ?w)) = Inr demo_group"
    "IsSubscriptionType demo_group" "only (live_sub 7 1) (db_subs (w_db ?w)) = Inr demo_sub"
    "sub_Status demo_sub = SubscriptionStatusActive"
    by (simp_all add: redeem_world_def demo_defs demo_user_def only_def live_sub_def
        IsSubscriptionType_def SubscriptionTypeSubscription_def SubscriptionStatusActive_def)
  have e: "renewed_expiry (w_now ?w) demo_sub (normalizeAssignValidityDays
      (rc_ValidityDays (demo_code 2 ''B'' ''subscription''))) = 35 * time_Day"
    by (simp add: redeem_world_def demo_world_def demo_code_def demo_sub_def renewed_expiry_def
        normalizeAssignValidityDays_def MaxValidityDays_def AddDays_def capped_def MaxExpiresAt_def go_simps)
  show ?thesis
    using failed_redeem_keeps_renewal [OF h redeem_world_code(2) c u] unfolding e .
qed

lemma length_EncodeToString: "length (EncodeToString bs) = 2 * length bs"
  by (induction bs) (simp_all add: EncodeToString_def)

lemma length_GenerateRandomCode: "length bs = 16 \<Longrightarrow> length (GenerateRandomCode bs) = 35"
  by (simp add: GenerateRandomCode_def Let_def ToUpper_def length_EncodeToString)

text \<open>
  \<open>GenerateCodes\<close> never succeeds: a code of four groups of eight digits with dashes has 35
  characters, and the column admits 32.
\<close>

theorem generated_codes_rejected:
  assumes "\<And>i. length (rnd i) = 16"
  shows "\<exists>e w1. exec (GenerateCodes rnd count val ty) w = (Inl e, w1) \<and> w_db w1 = w_db w"
proof -
  define ty1 where "ty1 = (if ty = [] then RedeemTypeBalance else ty)"
  define codes where "codes = map (\<lambda>i. \<lparr>rc_ID = 0, rc_Code = GenerateRandomCode (rnd i), rc_Type = ty1,
      rc_Value = (if ty1 = RedeemTypeInvitation then 0 else val), rc_Status = StatusUnused,
      rc_UsedBy = None, rc_UsedAt = None, rc_Notes = [], rc_GroupID = None, rc_ValidityDays = 0\<rparr>) [0..<nat count]"
  have batch: "code_CreateBatch codes now db = (Inl ErrValidation, db)" if "0 < count" for now db
  proof -
    have "codes \<noteq> []" "\<forall>c \<in> set codes. \<not> valid_code c"
      using that assms by (auto simp: codes_def valid_code_def length_GenerateRandomCode)
    then have "\<not> list_all valid_code codes" by (cases codes) auto
    with \<open>codes \<noteq> []\<close> show ?thesis by (simp add: code_CreateBatch_def)
  qed
  show ?thesis
  proof (cases "count \<le> 0 \<or> ty \<noteq> RedeemTypeInvitation \<and> val = 0 \<or> 1000 < count")
    case True
    then show ?thesis by (auto simp: GenerateCodes_def)
  next
    case False
    let ?q = "code_CreateBatch codes"
    have "exec (GenerateCodes rnd count val ty) w =
        exec (stmt ?q (on_error (wrap ''create batch codes'') (\<lambda>_. succeed codes))) w"
    proof -
      have "(count \<le> 0) = False" "(ty \<noteq> RedeemTypeInvitation \<and> val = 0) = False" "(1000 < count) = False"
        using False by auto
      then show ?thesis by (simp only: GenerateCodes_def Let_def codes_def ty1_def if_False)
    qed
    moreover have "tables_kept w (snd (statement ?q w))"
      using statement_db [of ?q w] batch False by (auto simp: tables_kept_def)
    moreover have "\<exists>e. fst (statement ?q w) = Inl e"
      using statement_ok [of ?q w] batch [of "w_now w" "w_db w"] False
      by (cases "fst (statement ?q w)") auto
    ultimately show ?thesis by (auto simp: exec_stmt tables_kept_def)
  qed
qed

theorem generated_codes_rejected_witness:
  "\<exists>e w1. exec (GenerateCodes (\<lambda>i. replicate 16 i) 3 10 ''balance'') (redeem_world []) = (Inl e, w1)
     \<and> w_db w1 = w_db (redeem_world [])"
  by (rule generated_codes_rejected) simp

section \<open>Redeeming without faults\<close>

definition may_redeem :: "bool \<Rightarrow> int \<Rightarrow> string \<Rightarrow> world \<Rightarrow> bool" where
  "may_redeem cache u code w \<longleftrightarrow> cache \<longrightarrow>
     fst (GetRedeemAttemptCount u w) < redeemMaxErrorsPerHour \<and>
     (case w_locks w code of None \<Rightarrow> True | Some t \<Rightarrow> t \<le> w_now w)"

lemma exec_redis_none [simp]:
  "w_faults w = [] \<Longrightarrow> exec (redis f k) w = exec (k (Inr (fst (f w)))) (snd (f w))"
  by (simp add: redis_def next_outcome_def case_prod_unfold)

lemma redeem_locked_balance:
  assumes "w_faults w = []" "w_base w = None"
    "only (\<lambda>c. rc_Code c = code) (db_codes (w_db w)) = Inr rc" "rc_Status rc = StatusUnused"
    "rc_Type rc = RedeemTypeBalance" "0 \<le> rc_Value rc" "distinct (map rc_ID (db_codes (w_db w)))"
    "only (\<lambda>x. usr_ID x = u \<and> \<not> usr_deleted x) (db_users (w_db w)) = Inr user"
  shows "\<exists>c. exec (redeem_locked cache u code) w = (Inr c, w\<lparr>w_db := (w_db w)\<lparr>
       db_codes := change (\<lambda>c. rc_ID c = rc_ID rc) (\<lambda>_. rc\<lparr>rc_Status := StatusUsed, rc_UsedBy := Some u,
          rc_UsedAt := Some (w_now w)\<rparr>) (db_codes (w_db w)),
       db_users := change (\<lambda>x. usr_ID x = u) (\<lambda>x. x\<lparr>usr_Balance := usr_Balance x + rc_Value rc,
          usr_TotalRecharged := (if 0 < rc_Value rc then usr_TotalRecharged x + rc_Value rc
             else usr_TotalRecharged x)\<rparr>) (db_users (w_db w))\<rparr>\<rparr>)"
proof -
  have rc: "rc \<in> set (db_codes (w_db w))" using only_Inr [OF assms(3)] by auto
  have user: "user \<in> set (db_users (w_db w))" "usr_ID user = u" using only_Inr [OF assms(8)] by auto
  have same: "c = rc" if "c \<in> set (db_codes (w_db w))" "rc_ID c = rc_ID rc" for c
    using assms(7) rc that by (metis distinct_map inj_on_def)
  define used where "used = rc\<lparr>rc_Status := StatusUsed, rc_UsedBy := Some u, rc_UsedAt := Some (w_now w)\<rparr>"
  define codes where "codes = change (\<lambda>c. rc_ID c = rc_ID rc) (\<lambda>_. used) (db_codes (w_db w))"
  have p: "(rc_ID c = rc_ID rc \<and> rc_Status c = StatusUnused) = (rc_ID c = rc_ID rc)"
    if "c \<in> set (db_codes (w_db w))" for c
    using same [OF that] assms(4) by auto
  have use: "code_Use (rc_ID rc) u (w_now w) (w_db w) = (Inr (), (w_db w)\<lparr>db_codes := codes\<rparr>)"
  proof -
    have "change (\<lambda>c. rc_ID c = rc_ID rc \<and> rc_Status c = StatusUnused)
        (\<lambda>c. c\<lparr>rc_Status := StatusUsed, rc_UsedBy := Some u, rc_UsedAt := Some (w_now w)\<rparr>) (db_codes (w_db w)) =
        change (\<lambda>c. rc_ID c = rc_ID rc)
        (\<lambda>c. c\<lparr>rc_Status := StatusUsed, rc_UsedBy := Some u, rc_UsedAt := Some (w_now w)\<rparr>) (db_codes (w_db w))"
      using p by (rule change_pred_cong)
    also have "\<dots> = codes"
      unfolding codes_def by (rule change_key [OF assms(7) rc]) (simp add: used_def)
    moreover have "filter (\<lambda>c. rc_ID c = rc_ID rc \<and> rc_Status c = StatusUnused) (db_codes (w_db w)) \<noteq> []"
      using rc assms(4) by (auto simp: filter_empty_conv)
    ultimately show ?thesis by (simp add: code_Use_def Let_def matches_def)
  qed
  have row: "only (\<lambda>c. rc_ID c = rc_ID rc) codes = Inr used"
  proof (rule only_key)
    show "distinct (map rc_ID codes)"
      using assms(7) by (simp add: codes_def map_change_key used_def)
    show "used \<in> set codes" using rc by (auto simp: codes_def set_change)
  qed (simp add: used_def)
  have some: "matches (\<lambda>x. usr_ID x = u) (db_users (w_db w)) \<noteq> 0"
    using user by (auto simp: matches_def filter_empty_conv)
  show ?thesis
    using assms(1,2,4,5,6) user(2) some
    by (simp add: redeem_locked_def code_GetByCode_def code_result_def assms(3) CanUse_def redeem_type_defs
        user_GetByID_def assms(8) translated_def transaction_def redeem_tx_def use grant_def Let_def
        UpdateBalance_def user_update_def code_GetByID_def row codes_def [symmetric] used_def [symmetric])
qed

text \<open>Redeeming an unused balance code of a live user succeeds and credits its value.\<close>

lemma redeem_balance:
  assumes "w_faults w = []" "w_base w = None" "may_redeem cache u code w"
    "only (\<lambda>c. rc_Code c = code) (db_codes (w_db w)) = Inr rc" "rc_Status rc = StatusUnused"
    "rc_Type rc = RedeemTypeBalance" "0 \<le> rc_Value rc" "distinct (map rc_ID (db_codes (w_db w)))"
    "only (\<lambda>x. usr_ID x = u \<and> \<not> usr_deleted x) (db_users (w_db w)) = Inr user"
  shows "\<exists>c w1. exec (Redeem cache u code) w = (Inr c, w1) \<and> w_faults w1 = [] \<and> w_base w1 = None \<and>
     w_now w1 = w_now w \<and> w_db w1 = (w_db w)\<lparr>
       db_codes := change (\<lambda>c. rc_ID c = rc_ID rc) (\<lambda>_. rc\<lparr>rc_Status := StatusUsed, rc_UsedBy := Some u,
          rc_UsedAt := Some (w_now w)\<rparr>) (db_codes (w_db w)),
       db_users := change (\<lambda>x. usr_ID x = u) (\<lambda>x. x\<lparr>usr_Balance := usr_Balance x + rc_Value rc,
          usr_TotalRecharged := (if 0 < rc_Value rc then usr_TotalRecharged x + rc_Value rc
             else usr_TotalRecharged x)\<rparr>) (db_users (w_db w))\<rparr>"
proof (cases cache)
  case False
  then show ?thesis
    using redeem_locked_balance [OF assms(1,2,4-9), of cache] assms(1,2)
    by (auto simp: Redeem_def checkRedeemRateLimit_def acquireRedeemLock_def releaseRedeemLock_def)
next
  case True
  let ?w = "w\<lparr>w_locks := (w_locks w)(code \<mapsto> w_now w + redeemLockDuration)\<rparr>"
  have a: "fst (GetRedeemAttemptCount u w) < redeemMaxErrorsPerHour" "snd (GetRedeemAttemptCount u w) = w"
    "AcquireRedeemLock code redeemLockDuration w = (True, ?w)"
    using assms(3) True
    by (auto simp: may_redeem_def GetRedeemAttemptCount_def AcquireRedeemLock_def split: option.splits)
  obtain c where "exec (redeem_locked cache u code) ?w = (Inr c, ?w\<lparr>w_db := (w_db w)\<lparr>
       db_codes := change (\<lambda>c. rc_ID c = rc_ID rc) (\<lambda>_. rc\<lparr>rc_Status := StatusUsed, rc_UsedBy := Some u,
          rc_UsedAt := Some (w_now w)\<rparr>) (db_codes (w_db w)),
       db_users := change (\<lambda>x. usr_ID x = u) (\<lambda>x. x\<lparr>usr_Balance := usr_Balance x + rc_Value rc,
          usr_TotalRecharged := (if 0 < rc_Value rc then usr_TotalRecharged x + rc_Value rc
             else usr_TotalRecharged x)\<rparr>) (db_users (w_db w))\<rparr>\<rparr>)"
    using redeem_locked_balance [of ?w code rc u user cache] assms by auto
  then show ?thesis
    using True assms(1,2) a
    by (simp add: Redeem_def checkRedeemRateLimit_def acquireRedeemLock_def releaseRedeemLock_def
        ReleaseRedeemLock_def)
qed

end
