(* ===== verification/PaymentProviders.thy ===== *)
theory PaymentProviders
  imports BusinessDb
begin

text \<open>
  Payment providers: \<open>backend/internal/payment/registry.go\<close>, \<open>load_balancer.go\<close>, the selection of
  an instance, and \<open>service/payment_config_limits.go\<close>, the limits shown to users.

  An instance is a configured merchant account of a provider. An order is given to an enabled
  instance that supports its payment type and whose limits allow the amount, in turn or to the one
  used least today. The limits of an instance are JSON, decoded by an argument; the configuration is
  decrypted by an argument. A provider is what its client library answers.
\<close>

section \<open>Providers and their registry\<close>

text \<open>What a \<open>float64\<close> from outside may be.\<close>

datatype go_float = Finite rat | NaN | PosInf | NegInf

record QueryOrderResponse =
  qr_Status :: string
  qr_Amount :: go_float

record CreatePaymentResponse =
  cp_TradeNo :: string
  cp_PayURL :: string
  cp_QRCode :: string

record CreatePaymentRequest =
  cq_OrderID :: string
  cq_Amount :: rat
  cq_PaymentType :: string
  cq_Subject :: string
  cq_InstanceSubMethods :: string

record RefundRequest =
  rq_TradeNo :: string
  rq_OrderID :: string
  rq_Amount :: rat
  rq_Reason :: string

text \<open>A provider answers at a time; its answers are arbitrary.\<close>

record Provider =
  pv_ProviderKey :: string
  pv_SupportedTypes :: "string list"
  pv_CreatePayment :: "gotime \<Rightarrow> CreatePaymentRequest \<Rightarrow> go_error + CreatePaymentResponse"
  pv_QueryOrder :: "gotime \<Rightarrow> string \<Rightarrow> go_error + QueryOrderResponse"
  pv_Refund :: "gotime \<Rightarrow> RefundRequest \<Rightarrow> go_error option"

type_synonym registry = "string \<rightharpoonup> Provider"
type_synonym provider_config = "string \<rightharpoonup> string"

definition ErrProviderNotFound :: ApplicationError where
  "ErrProviderNotFound = NotFound ''PROVIDER_NOT_FOUND'' ''payment provider not registered''"

definition Register :: "Provider \<Rightarrow> registry \<Rightarrow> registry" where
  "Register p r = fold (\<lambda>t r. r(t \<mapsto> p)) (pv_SupportedTypes p) r"

definition GetProvider :: "registry \<Rightarrow> string \<Rightarrow> go_error + Provider" where
  "GetProvider r t = (case r t of Some p \<Rightarrow> Inr p | None \<Rightarrow> Inl (AppErr ErrProviderNotFound))"

definition GetProviderKey :: "registry \<Rightarrow> string \<Rightarrow> string" where
  "GetProviderKey r t = (case r t of Some p \<Rightarrow> pv_ProviderKey p | None \<Rightarrow> [])"

text \<open>A Go map is visited in any order; \<open>order\<close> lists its keys.\<close>

definition GetProviderByKey :: "string list \<Rightarrow> registry \<Rightarrow> string \<Rightarrow> go_error + Provider" where
  "GetProviderByKey order r key =
     (case find (\<lambda>p. pv_ProviderKey p = key) (List.map_filter r order) of
        Some p \<Rightarrow> Inr p | None \<Rightarrow> Inl (AppErr ErrProviderNotFound))"

section \<open>Supported types\<close>

definition TypeStripe :: string where "TypeStripe = ''stripe''"

definition comma :: char where "comma = CHR 0x2C"

definition InstanceSupportsType :: "string \<Rightarrow> string \<Rightarrow> bool" where
  "InstanceSupportsType supported target \<longleftrightarrow>
     supported = [] \<or> list_ex (\<lambda>t. TrimSpace t = target) (Split comma supported)"

definition splitTypes :: "string \<Rightarrow> string list" where
  "splitTypes s =
     (if s = [] then [] else filter (\<lambda>p. p \<noteq> []) (map TrimSpace (Split comma s)))"

section \<open>Selecting an instance\<close>

definition StrategyLeastAmount :: string where "StrategyLeastAmount = ''least-amount''"

record ChannelLimits =
  cl_DailyLimit :: rat
  cl_SingleMin :: rat
  cl_SingleMax :: rat

definition no_limits :: ChannelLimits where
  "no_limits = \<lparr>cl_DailyLimit = 0, cl_SingleMin = 0, cl_SingleMax = 0\<rparr>"

text \<open>\<open>json.Unmarshal\<close> of the limits, or None if it fails.\<close>

type_synonym limits_json = "string \<Rightarrow> (string \<rightharpoonup> ChannelLimits) option"

record instanceCandidate =
  ic_inst :: ProviderInstance
  ic_dailyUsed :: rat

record InstanceSelection =
  is_InstanceID :: string
  is_ProviderKey :: string
  is_Config :: provider_config
  is_SupportedTypes :: string
  is_PaymentMode :: string

definition enabled_instances :: "string \<Rightarrow> ProviderInstance list query" where
  "enabled_instances providerKey now db =
     (Inr (sort_key pi_SortOrder (filter (\<lambda>i. pi_Enabled i \<and>
         (providerKey \<noteq> [] \<longrightarrow> pi_ProviderKey i = providerKey)) (db_instances db))), db)"

definition type_matches :: "string \<Rightarrow> ProviderInstance \<Rightarrow> bool" where
  "type_matches paymentType i =
     (if paymentType = TypeStripe then pi_ProviderKey i = TypeStripe
      else InstanceSupportsType (pi_SupportedTypes i) paymentType)"

definition queryEnabledInstances :: "string \<Rightarrow> string \<Rightarrow> ProviderInstance list handler" where
  "queryEnabledInstances providerKey paymentType =
     stmt (enabled_instances providerKey) (on_error (wrap ''query provider instances'') (\<lambda>insts.
       let matched = filter (type_matches paymentType) insts
       in if matched = [] then fail (PlainErr (''no enabled instance for payment type '' @ paymentType))
          else succeed matched))"

definition counted_statuses :: "string list" where
  "counted_statuses = [''PENDING'', ''PAID'', ''COMPLETED'', ''RECHARGING'']"

definition paid_through :: "string \<Rightarrow> gotime \<Rightarrow> PaymentOrder list \<Rightarrow> rat" where
  "paid_through inst since orders = sum_list (map po_PayAmount (filter (\<lambda>x.
     po_ProviderInstanceID x = Some inst \<and> po_Status x \<in> set counted_statuses \<and> since \<le> po_CreatedAt x) orders))"

definition daily_usage :: "gotime \<Rightarrow> (string \<Rightarrow> rat) query" where
  "daily_usage since now db = (Inr (\<lambda>inst. paid_through inst since (db_orders db)), db)"

definition start_of_day :: "duration \<Rightarrow> gotime \<Rightarrow> gotime" where
  "start_of_day offset t = t - (t + offset) mod time_Day"

text \<open>A usage query that fails counts as no usage.\<close>

definition attachDailyUsage :: "duration \<Rightarrow> ProviderInstance list \<Rightarrow>
    (instanceCandidate list \<Rightarrow> (world, 'a) prog) \<Rightarrow> (world, 'a) prog" where
  "attachDailyUsage loc insts k =
     time_Now (\<lambda>now. stmt (daily_usage (start_of_day loc now)) (\<lambda>r.
       let usage = (case r of Inl _ \<Rightarrow> (\<lambda>_. 0) | Inr m \<Rightarrow> m)
       in k (map (\<lambda>i. \<lparr>ic_inst = i, ic_dailyUsed = usage (itoa (pi_ID i))\<rparr>) insts)))"

definition getInstanceChannelLimits :: "limits_json \<Rightarrow> ProviderInstance \<Rightarrow> string \<Rightarrow> ChannelLimits" where
  "getInstanceChannelLimits dec i paymentType =
     (if pi_Limits i = [] then no_limits
      else (case dec (pi_Limits i) of
          None \<Rightarrow> no_limits
        | Some limits \<Rightarrow>
            (case limits (if pi_ProviderKey i = ''stripe'' then ''stripe'' else paymentType) of
               Some cl \<Rightarrow> cl | None \<Rightarrow> no_limits)))"

definition fits :: "limits_json \<Rightarrow> string \<Rightarrow> rat \<Rightarrow> instanceCandidate \<Rightarrow> bool" where
  "fits dec paymentType amount c \<longleftrightarrow>
     (let cl = getInstanceChannelLimits dec (ic_inst c) paymentType in
      \<not> (0 < cl_SingleMin cl \<and> amount < cl_SingleMin cl) \<and>
      \<not> (0 < cl_SingleMax cl \<and> cl_SingleMax cl < amount) \<and>
      \<not> (0 < cl_DailyLimit cl \<and> cl_DailyLimit cl < ic_dailyUsed c + amount))"

definition filterByLimits :: "limits_json \<Rightarrow> instanceCandidate list \<Rightarrow> string \<Rightarrow> rat \<Rightarrow>
    instanceCandidate list" where
  "filterByLimits dec cs paymentType amount = filter (fits dec paymentType amount) cs"

definition pickLeastAmount :: "instanceCandidate list \<Rightarrow> instanceCandidate" where
  "pickLeastAmount cs =
     fold (\<lambda>c best. if ic_dailyUsed c < ic_dailyUsed best then c else best) (tl cs) (hd cs)"

text \<open>The atomic counter advances by one with every selection in turn.\<close>

definition next_counter :: "world \<Rightarrow> 64 word \<times> world" where
  "next_counter w = (w_counter w + 1, w\<lparr>w_counter := w_counter w + 1\<rparr>)"

definition round_robin :: "64 word \<Rightarrow> nat \<Rightarrow> nat" where
  "round_robin counter n = unat (counter mod of_nat n)"

definition pickByStrategy :: "instanceCandidate list \<Rightarrow> string \<Rightarrow>
    (instanceCandidate \<Rightarrow> (world, 'a) prog) \<Rightarrow> (world, 'a) prog" where
  "pickByStrategy cs strategy k =
     (if strategy = StrategyLeastAmount \<and> 1 < length cs then k (pickLeastAmount cs)
      else atomically next_counter (\<lambda>c. k (cs ! round_robin c (length cs))))"

definition buildSelection :: "(ProviderInstance \<Rightarrow> go_error + provider_config) \<Rightarrow> ProviderInstance \<Rightarrow>
    InstanceSelection handler" where
  "buildSelection decrypt i =
     (case decrypt i of
        Inl e \<Rightarrow> wrap (''decrypt instance '' @ itoa (pi_ID i) @ '' config'') e
      | Inr cfg \<Rightarrow> succeed \<lparr>is_InstanceID = itoa (pi_ID i), is_ProviderKey = pi_ProviderKey i,
          is_Config = (if pi_PaymentMode i \<noteq> [] then cfg(''paymentMode'' \<mapsto> pi_PaymentMode i) else cfg),
          is_SupportedTypes = pi_SupportedTypes i, is_PaymentMode = pi_PaymentMode i\<rparr>)"

definition SelectInstance :: "limits_json \<Rightarrow> (ProviderInstance \<Rightarrow> go_error + provider_config) \<Rightarrow>
    duration \<Rightarrow> string \<Rightarrow> string \<Rightarrow> string \<Rightarrow> rat \<Rightarrow> InstanceSelection handler" where
  "SelectInstance dec decrypt loc providerKey paymentType strategy amount =
     bind (queryEnabledInstances providerKey paymentType) (on_error fail (\<lambda>insts.
       attachDailyUsage loc insts (\<lambda>cs.
         let fit = filterByLimits dec cs paymentType amount;
             available = (if fit = [] then cs else fit)
         in pickByStrategy available strategy (\<lambda>c. buildSelection decrypt (ic_inst c)))))"

section \<open>Limits shown to users\<close>

record MethodLimits =
  ml_PaymentType :: string
  ml_DailyLimit :: rat
  ml_SingleMin :: rat
  ml_SingleMax :: rat

text \<open>Instances by the type a user sees, each instance once per type, in the order of the list.\<close>

definition add_instance :: "string \<Rightarrow> ProviderInstance \<Rightarrow> (string \<rightharpoonup> ProviderInstance list) \<Rightarrow>
    (string \<rightharpoonup> ProviderInstance list)" where
  "add_instance key i m =
     (let l = (case m key of None \<Rightarrow> [] | Some l \<Rightarrow> l)
      in if pi_ID i \<in> pi_ID ` set l then m else m(key \<mapsto> l @ [i]))"

definition pcGroupByPaymentType :: "ProviderInstance list \<Rightarrow> (string \<rightharpoonup> ProviderInstance list)" where
  "pcGroupByPaymentType insts = fold (\<lambda>i m.
     if pi_ProviderKey i = TypeStripe then add_instance TypeStripe i m
     else fold (\<lambda>t. add_instance t i) (splitTypes (pi_SupportedTypes i)) m) insts Map.empty"

definition pcInstanceTypeLimits :: "limits_json \<Rightarrow> ProviderInstance \<Rightarrow> string \<Rightarrow> ChannelLimits option" where
  "pcInstanceTypeLimits dec i pt =
     (if pi_Limits i = [] then None
      else (case dec (pi_Limits i) of None \<Rightarrow> None | Some limits \<Rightarrow> limits pt))"

definition unionFloat :: "rat \<Rightarrow> bool \<Rightarrow> rat \<Rightarrow> bool \<Rightarrow> rat \<times> bool" where
  "unionFloat agg limited val wantMin =
     (if val = 0 then (agg, False)
      else if \<not> limited then (agg, False)
      else if agg = 0 then (val, True)
      else if wantMin \<and> val < agg then (val, True)
      else if \<not> wantMin \<and> agg < val then (val, True)
      else (agg, True))"

definition union_step :: "(rat \<times> bool) \<times> (rat \<times> bool) \<times> (rat \<times> bool) \<Rightarrow> ChannelLimits \<Rightarrow>
    (rat \<times> bool) \<times> (rat \<times> bool) \<times> (rat \<times> bool)" where
  "union_step a cl = (case a of ((mn, ml), (mx, xl), (dl, yl)) \<Rightarrow>
     (unionFloat mn ml (cl_SingleMin cl) True, unionFloat mx xl (cl_SingleMax cl) False,
      unionFloat dl yl (cl_DailyLimit cl) False))"

definition still_limited :: "rat \<times> bool \<Rightarrow> rat" where
  "still_limited a = (if snd a then fst a else 0)"

definition pcAggregateMethodLimits :: "limits_json \<Rightarrow> string \<Rightarrow> ProviderInstance list \<Rightarrow> MethodLimits" where
  "pcAggregateMethodLimits dec pt insts =
     (let cls = map (\<lambda>i. pcInstanceTypeLimits dec i pt) insts in
      if None \<in> set cls
      then \<lparr>ml_PaymentType = pt, ml_DailyLimit = 0, ml_SingleMin = 0, ml_SingleMax = 0\<rparr>
      else (case foldl union_step ((0, True), (0, True), (0, True)) (map the cls) of (mn, mx, dl) \<Rightarrow>
        \<lparr>ml_PaymentType = pt, ml_DailyLimit = still_limited dl, ml_SingleMin = still_limited mn,
         ml_SingleMax = still_limited mx\<rparr>))"

text \<open>Over all methods, in the order the map is visited.\<close>

definition pcComputeGlobalRange :: "MethodLimits list \<Rightarrow> rat \<times> rat" where
  "pcComputeGlobalRange mls =
     (let a = foldl (\<lambda>(mn, mx) m. (unionFloat (fst mn) (snd mn) (ml_SingleMin m) True,
               unionFloat (fst mx) (snd mx) (ml_SingleMax m) False)) ((0, True), (0, True)) mls
      in (still_limited (fst a), still_limited (snd a)))"

definition GetMethodLimits :: "limits_json \<Rightarrow> string list \<Rightarrow> MethodLimits list handler" where
  "GetMethodLimits dec types =
     stmt (\<lambda>now db. (Inr (filter pi_Enabled (db_instances db)), db))
       (on_error (wrap ''query provider instances'') (\<lambda>insts.
         succeed (map (\<lambda>pt. pcAggregateMethodLimits dec pt
           (filter (\<lambda>i. InstanceSupportsType (pi_SupportedTypes i) pt) insts)) types)))"

section \<open>An instance within its limits\<close>

lemma fold_least:
  "let b = fold (\<lambda>c best. if ic_dailyUsed c < ic_dailyUsed best then c else best) cs x
   in b \<in> insert x (set cs) \<and> (\<forall>c \<in> insert x (set cs). ic_dailyUsed b \<le> ic_dailyUsed c)"
proof (induction cs arbitrary: x)
  case (Cons c cs)
  show ?case
  proof (cases "ic_dailyUsed c < ic_dailyUsed x")
    case True
    then show ?thesis using Cons.IH [of c] by (auto simp: Let_def)
  next
    case False
    then show ?thesis using Cons.IH [of x] by (auto simp: Let_def)
  qed
qed simp

lemma pickLeastAmount_least:
  assumes "cs \<noteq> []"
  shows "pickLeastAmount cs \<in> set cs" and "c \<in> set cs \<Longrightarrow> ic_dailyUsed (pickLeastAmount cs) \<le> ic_dailyUsed c"
proof -
  have "set cs = insert (hd cs) (set (tl cs))" using assms by (cases cs) auto
  then show "pickLeastAmount cs \<in> set cs"
    and "c \<in> set cs \<Longrightarrow> ic_dailyUsed (pickLeastAmount cs) \<le> ic_dailyUsed c"
    using fold_least [of "tl cs" "hd cs"] unfolding pickLeastAmount_def Let_def by blast+
qed

lemma round_robin_less:
  assumes "0 < n" "n < 2 ^ 64"
  shows "round_robin counter n < n"
  using assms by (simp add: round_robin_def unat_mod_distrib unat_of_nat take_bit_nat_eq_self)

text \<open>The choice from a list of candidates: one of them, and the least used one when asked to.\<close>

lemma exec_pickByStrategy:
  assumes "cs \<noteq> []" "length cs < 2 ^ 64"
  shows "\<exists>c \<in> set cs. \<exists>w1. exec (pickByStrategy cs strategy k) w = exec (k c) w1 \<and> w_faults w1 = w_faults w \<and>
     w_db w1 = w_db w \<and> (strategy = StrategyLeastAmount \<longrightarrow> (\<forall>d \<in> set cs. ic_dailyUsed c \<le> ic_dailyUsed d))"
proof (cases "strategy = StrategyLeastAmount \<and> 1 < length cs")
  case True
  then show ?thesis
    using pickLeastAmount_least [OF assms(1)] by (auto simp: pickByStrategy_def)
next
  case False
  let ?c = "cs ! round_robin (w_counter w + 1) (length cs)"
  have c: "?c \<in> set cs" using round_robin_less assms by simp
  have "\<forall>d \<in> set cs. ic_dailyUsed ?c \<le> ic_dailyUsed d" if "strategy = StrategyLeastAmount"
  proof -
    have "length cs = 1" using False that assms(1) by (cases cs) auto
    then have "set cs = {?c}" using c by (cases cs) auto
    then show ?thesis by simp
  qed
  moreover have "exec (pickByStrategy cs strategy k) w = exec (k ?c) (w\<lparr>w_counter := w_counter w + 1\<rparr>)"
    unfolding pickByStrategy_def using False by (simp only: if_False exec_atomically next_counter_def fst_conv snd_conv)
  ultimately show ?thesis using c by fastforce
qed

definition candidate_at :: "duration \<Rightarrow> world \<Rightarrow> ProviderInstance \<Rightarrow> instanceCandidate" where
  "candidate_at loc w i = \<lparr>ic_inst = i,
     ic_dailyUsed = paid_through (itoa (pi_ID i)) (start_of_day loc (w_now w)) (db_orders (w_db w))\<rparr>"

definition may_take :: "string \<Rightarrow> string \<Rightarrow> world \<Rightarrow> ProviderInstance \<Rightarrow> bool" where
  "may_take providerKey paymentType w i \<longleftrightarrow> i \<in> set (db_instances (w_db w)) \<and> pi_Enabled i \<and>
     (providerKey \<noteq> [] \<longrightarrow> pi_ProviderKey i = providerKey) \<and> type_matches paymentType i"

text \<open>The instances that match, in their order.\<close>

definition matching :: "string \<Rightarrow> string \<Rightarrow> world \<Rightarrow> ProviderInstance list" where
  "matching providerKey paymentType w = filter (type_matches paymentType) (sort_key pi_SortOrder
    (filter (\<lambda>i. pi_Enabled i \<and> (providerKey \<noteq> [] \<longrightarrow> pi_ProviderKey i = providerKey)) (db_instances (w_db w))))"

definition able :: "limits_json \<Rightarrow> string \<Rightarrow> rat \<Rightarrow> instanceCandidate list \<Rightarrow> instanceCandidate list" where
  "able dec paymentType amount cs =
     (if filterByLimits dec cs paymentType amount = [] then cs else filterByLimits dec cs paymentType amount)"

lemma exec_SelectInstance:
  assumes "w_faults w = []"
  shows "exec (SelectInstance dec decrypt loc pk t st a) w =
    (if matching pk t w = [] then (Inl (PlainErr (''no enabled instance for payment type '' @ t)), w)
     else exec (pickByStrategy (able dec t a (map (candidate_at loc w) (matching pk t w))) st
       (\<lambda>c. buildSelection decrypt (ic_inst c))) w)"
proof -
  have c: "(\<lambda>i. \<lparr>ic_inst = i, ic_dailyUsed = paid_through (itoa (pi_ID i)) (start_of_day loc (w_now w))
      (db_orders (w_db w))\<rparr>) = candidate_at loc w"
    by (simp add: candidate_at_def [abs_def])
  show ?thesis
    using assms
    by (simp add: SelectInstance_def queryEnabledInstances_def enabled_instances_def matching_def [symmetric]
        attachDailyUsage_def daily_usage_def Let_def c able_def)
qed
text \<open>
  (C23) When the load balancer selects an instance (no statement failing), it is an enabled instance
  of the requested provider that supports the payment type; if any such instance has room for the
  amount under its own limits today, the selected one has; and under the least-amount strategy it
  is one of those used least today. Only if none has room is an instance over its limits selected.
\<close>

theorem select_instance_within_limits:
  assumes "w_faults w = []" "length (db_instances (w_db w)) < 2 ^ 64"
    "fst (exec (SelectInstance dec decrypt loc providerKey paymentType strategy amount) w) = Inr sel"
  shows "\<exists>i. may_take providerKey paymentType w i \<and> is_InstanceID sel = itoa (pi_ID i) \<and>
    is_ProviderKey sel = pi_ProviderKey i \<and>
    (let room = (\<lambda>j. may_take providerKey paymentType w j \<and> fits dec paymentType amount (candidate_at loc w j)) in
     ((\<exists>j. room j) \<longrightarrow> room i) \<and>
     (strategy = StrategyLeastAmount \<longrightarrow> (\<forall>j. (if \<exists>j. room j then room j else may_take providerKey paymentType w j)
        \<longrightarrow> ic_dailyUsed (candidate_at loc w i) \<le> ic_dailyUsed (candidate_at loc w j))))"
proof -
  define insts where "insts = matching providerKey paymentType w"
  define cs where "cs = map (candidate_at loc w) insts"
  define fit where "fit = filterByLimits dec cs paymentType amount"
  define available where "available = (if fit = [] then cs else fit)"
  have insts: "i \<in> set insts \<longleftrightarrow> may_take providerKey paymentType w i" for i
    by (auto simp: insts_def matching_def may_take_def)
  have len: "length insts \<le> length (db_instances (w_db w))"
    unfolding insts_def matching_def by (rule order_trans [OF length_filter_le]) simp
  have some: "insts \<noteq> []" and run: "exec (pickByStrategy available strategy
      (\<lambda>c. buildSelection decrypt (ic_inst c))) w = exec (SelectInstance dec decrypt loc providerKey paymentType strategy amount) w"
    using assms(1,3)
    by (auto simp: exec_SelectInstance insts_def available_def able_def fit_def cs_def split: if_splits)
  have "available \<noteq> []" "length available < 2 ^ 64"
  proof -
    have "length available \<le> length insts"
      by (simp add: available_def fit_def filterByLimits_def cs_def)
    then show "length available < 2 ^ 64" using len assms(2) by linarith
    show "available \<noteq> []" using some by (auto simp: available_def cs_def)
  qed
  from exec_pickByStrategy [OF this, of strategy "\<lambda>c. buildSelection decrypt (ic_inst c)" w]
  obtain c w1 where c: "c \<in> set available"
      and w1: "exec (SelectInstance dec decrypt loc providerKey paymentType strategy amount) w
        = exec (buildSelection decrypt (ic_inst c)) w1"
      and least: "strategy = StrategyLeastAmount \<Longrightarrow> \<forall>d \<in> set available. ic_dailyUsed c \<le> ic_dailyUsed d"
    using run by auto
  obtain i where i: "i \<in> set insts" "c = candidate_at loc w i"
    using c by (auto simp: available_def fit_def filterByLimits_def cs_def split: if_splits)
  have inst: "ic_inst c = i" using i by (simp add: candidate_at_def)
  have sel: "is_InstanceID sel = itoa (pi_ID i)" "is_ProviderKey sel = pi_ProviderKey i"
    using assms(3) unfolding w1 inst by (auto simp: buildSelection_def split: sum.splits)
  let ?room = "\<lambda>j. may_take providerKey paymentType w j \<and> fits dec paymentType amount (candidate_at loc w j)"
  have fits: "candidate_at loc w j \<in> set fit" if "?room j" for j
    using that insts by (simp add: fit_def filterByLimits_def cs_def)
  have room: "fit = [] \<longleftrightarrow> (\<nexists>j. ?room j)"
    using fits insts by (auto simp: fit_def filterByLimits_def cs_def filter_empty_conv)
  have "?room i" if "\<exists>j. ?room j"
    using that room c i insts by (auto simp: available_def fit_def filterByLimits_def cs_def)
  moreover have "ic_dailyUsed (candidate_at loc w i) \<le> ic_dailyUsed (candidate_at loc w j)"
    if "strategy = StrategyLeastAmount" "if \<exists>j. ?room j then ?room j else may_take providerKey paymentType w j" for j
  proof -
    have "candidate_at loc w j \<in> set available"
      using that(2) room fits insts by (auto simp: available_def cs_def split: if_splits)
    then show ?thesis using least [OF that(1)] i by simp
  qed
  ultimately show ?thesis using i(1) sel unfolding insts Let_def by blast
qed

text \<open>An example: two accounts, of which the first has used up its day.\<close>

definition demo_instance :: "int \<Rightarrow> string \<Rightarrow> ProviderInstance" where
  "demo_instance i limits = \<lparr>pi_ID = i, pi_ProviderKey = ''easypay'', pi_SupportedTypes = ''alipay, wxpay'',
     pi_Limits = limits, pi_Enabled = True, pi_SortOrder = i, pi_PaymentMode = [], pi_RefundEnabled = True,
     pi_AllowUserRefund = True\<rparr>"

definition demo_limits :: limits_json where
  "demo_limits s = (if s = ''small'' then Some [''alipay'' \<mapsto>
       \<lparr>cl_DailyLimit = 100, cl_SingleMin = 1, cl_SingleMax = 50\<rparr>] else None)"

definition instance_world :: world where
  "instance_world = \<lparr>w_db = \<lparr>db_users = [], db_groups = [], db_subs = [], db_codes = [], db_orders = [],
     db_audit = [], db_instances = [demo_instance 1 ''small'', demo_instance 2 []]\<rparr>, w_base = None,
     w_now = 0, w_faults = [], w_attempts = Map.empty, w_locks = Map.empty, w_counter = 0\<rparr>"

lemma itoa_small: "itoa 1 = ''1''" "itoa 2 = ''2''"
  by code_simp+

theorem select_instance_within_limits_witness:
  "\<exists>i. may_take [] ''alipay'' instance_world i \<and> itoa (pi_ID i) = ''2'' \<and> ''easypay'' = pi_ProviderKey i \<and>
    (let room = (\<lambda>j. may_take [] ''alipay'' instance_world j \<and>
         fits demo_limits ''alipay'' 80 (candidate_at 0 instance_world j)) in
     ((\<exists>j. room j) \<longrightarrow> room i) \<and>
     (''round-robin'' = StrategyLeastAmount \<longrightarrow> (\<forall>j. (if \<exists>j. room j then room j else may_take [] ''alipay'' instance_world j)
        \<longrightarrow> ic_dailyUsed (candidate_at 0 instance_world i) \<le> ic_dailyUsed (candidate_at 0 instance_world j))))"
proof -
  let ?cfg = "\<lambda>_. Inr Map.empty :: go_error + provider_config"
  have trim: "TrimSpace ''alipay'' = ''alipay''" "TrimSpace '' wxpay'' = ''wxpay''" by code_simp+
  have m: "matching [] ''alipay'' instance_world = [demo_instance 1 ''small'', demo_instance 2 []]"
    by (simp add: matching_def instance_world_def demo_instance_def type_matches_def TypeStripe_def
        InstanceSupportsType_def comma_def trim)
  have z: "ic_dailyUsed (candidate_at 0 instance_world i) = 0" "ic_inst (candidate_at 0 instance_world i) = i" for i
    by (simp_all add: candidate_at_def paid_through_def instance_world_def)
  have f: "\<not> fits demo_limits ''alipay'' 80 (candidate_at 0 instance_world (demo_instance 1 ''small''))"
    "fits demo_limits ''alipay'' 80 (candidate_at 0 instance_world (demo_instance 2 []))"
    by (simp_all add: fits_def z Let_def getInstanceChannelLimits_def demo_instance_def demo_limits_def no_limits_def
        TypeStripe_def)
  have r: "fst (exec (SelectInstance demo_limits ?cfg 0 [] ''alipay'' ''round-robin'' 80) instance_world) = Inr
     \<lparr>is_InstanceID = ''2'', is_ProviderKey = ''easypay'', is_Config = Map.empty,
      is_SupportedTypes = ''alipay, wxpay'', is_PaymentMode = []\<rparr>"
  proof -
    have "able demo_limits ''alipay'' 80 (map (candidate_at 0 instance_world) [demo_instance 1 ''small'', demo_instance 2 []])
        = [candidate_at 0 instance_world (demo_instance 2 [])]"
      by (simp add: able_def filterByLimits_def f)
    moreover have "w_faults instance_world = []" by (simp add: instance_world_def)
    ultimately show ?thesis
      by (simp add: exec_SelectInstance m pickByStrategy_def StrategyLeastAmount_def next_counter_def round_robin_def
          buildSelection_def z del: list.map) (simp add: demo_instance_def itoa_small)
  qed
  have "w_faults instance_world = []" "length (db_instances (w_db instance_world)) < 2 ^ 64"
    by (simp_all add: instance_world_def)
  from select_instance_within_limits [OF this r] show ?thesis
    by (elim exE conjE, intro exI conjI) (simp_all only: InstanceSelection.select_convs)
qed

section \<open>Instances in turn\<close>

text \<open>The candidate that each of a row of selections takes, with one list of candidates.\<close>

definition turns :: "64 word \<Rightarrow> nat \<Rightarrow> nat \<Rightarrow> nat list" where
  "turns counter n k = map (\<lambda>i. round_robin (counter + 1 + of_nat i) n) [0..<k]"

lemma round_robin_mod:
  assumes "0 < n" "n < 2 ^ 64" "unat counter + 1 + i < 2 ^ 64"
  shows "round_robin (counter + 1 + of_nat i) n = (unat counter + 1 + i) mod n"
proof -
  have "counter + 1 + of_nat i = (of_nat (unat counter + 1 + i) :: 64 word)" by simp
  then show ?thesis
    using assms(2,3)
    by (simp only: round_robin_def unat_mod_distrib unat_of_nat) (simp add: take_bit_nat_eq_self)
qed

text \<open>
  With \<open>n\<close> instances to choose from, \<open>n\<close> selections in a row take every instance exactly once,
  as long as the 64-bit counter does not wrap around meanwhile.
\<close>

theorem round_robin_fair:
  assumes "0 < n" "unat counter + n < 2 ^ 64"
  shows "distinct (turns counter n n) \<and> set (turns counter n n) = {..<n}"
proof -
  have t: "turns counter n n = map (\<lambda>i. (unat counter + 1 + i) mod n) [0..<n]"
    unfolding turns_def by (rule map_cong [OF refl]) (use assms in \<open>simp add: round_robin_mod\<close>)
  have inj: "inj_on (\<lambda>i. (unat counter + 1 + i) mod n) {..<n}"
  proof (rule inj_onI)
    fix i j assume ij: "i \<in> {..<n}" "j \<in> {..<n}" "(unat counter + 1 + i) mod n = (unat counter + 1 + j) mod n"
    have "i = j" if "i \<le> j" "j < n" "(unat counter + 1 + j) mod n = (unat counter + 1 + i) mod n" for i j
    proof -
      have "n dvd j - i"
        using that(1,3) mod_eq_dvd_iff_nat [of "unat counter + 1 + i" "unat counter + 1 + j" n] by simp
      then show ?thesis using that(1,2) by (auto dest: dvd_imp_le)
    qed
    from this [of i j] this [of j i] show "i = j" using ij by (cases "i \<le> j") auto
  qed
  have d: "distinct (turns counter n n)"
    using inj by (simp add: t distinct_map atLeast0LessThan)
  have "set (turns counter n n) \<subseteq> {..<n}" using assms(1) by (auto simp: t)
  moreover have "card (set (turns counter n n)) = card {..<n}"
    using distinct_card [OF d] by (simp add: t)
  ultimately show ?thesis using d by (simp add: card_subset_eq)
qed

theorem round_robin_fair_witness:
  "distinct (turns 41 3 3) \<and> set (turns 41 3 3) = {..<3}"
  by (rule round_robin_fair) simp_all

section \<open>Advertised limits\<close>

definition union_all :: "bool \<Rightarrow> rat \<times> bool \<Rightarrow> rat list \<Rightarrow> rat \<times> bool" where
  "union_all wantMin a vs = foldl (\<lambda>a v. unionFloat (fst a) (snd a) v wantMin) a vs"

lemma union_all_snd: "snd (union_all wantMin a vs) \<longleftrightarrow> snd a \<and> 0 \<notin> set vs"
  by (induction vs arbitrary: a) (auto simp: union_all_def unionFloat_def)

lemma union_all_fst:
  assumes "\<forall>v \<in> set vs. 0 < v" "0 < a"
  shows "fst (union_all wantMin (a, True) vs) = (if wantMin then Min (insert a (set vs)) else Max (insert a (set vs)))"
  using assms
proof (induction vs arbitrary: a)
  case (Cons v vs)
  have step: "union_all wantMin (a, True) (v # vs) =
      union_all wantMin (if wantMin then min a v else max a v, True) vs"
    using Cons.prems by (auto simp: union_all_def unionFloat_def min_def max_def)
  have "0 < (if wantMin then min a v else max a v)" using Cons.prems by auto
  then have "fst (union_all wantMin (a, True) (v # vs)) = (if wantMin then Min (insert (min a v) (set vs))
      else Max (insert (max a v) (set vs)))"
    using Cons.IH [of "if wantMin then min a v else max a v"] Cons.prems unfolding step
    by (cases wantMin) simp_all
  then show ?case by (cases "vs = []") (simp_all add: insert_commute min.assoc max.assoc)
qed (simp add: union_all_def)

text \<open>The union of lower (upper) bounds: zero if any is zero, otherwise the least (greatest).\<close>

lemma union_all_bound:
  assumes "\<forall>v \<in> set vs. 0 \<le> v" "vs \<noteq> []"
  shows "still_limited (union_all wantMin (0, True) vs) =
    (if 0 \<in> set vs then 0 else if wantMin then Min (set vs) else Max (set vs))"
proof (cases "0 \<in> set vs")
  case True
  then show ?thesis by (simp add: still_limited_def union_all_snd)
next
  case False
  obtain v us where vs: "vs = v # us" using assms(2) by (cases vs) auto
  have pos: "\<forall>v \<in> set vs. 0 < v" using assms(1) False by (metis order_le_less)
  have "union_all wantMin (0, True) vs = union_all wantMin (v, True) us"
    using pos by (simp add: vs union_all_def unionFloat_def)
  then show ?thesis
    using False union_all_fst [of us v wantMin] union_all_snd [of wantMin "(0, True)" vs] pos
    by (simp add: still_limited_def vs)
qed

lemma foldl_union_step:
  "foldl union_step (a, b, c) cls = (union_all True a (map cl_SingleMin cls),
     union_all False b (map cl_SingleMax cls), union_all False c (map cl_DailyLimit cls))"
proof (induction cls arbitrary: a b c)
  case (Cons cl cls)
  have "union_step (a, b, c) cl = (unionFloat (fst a) (snd a) (cl_SingleMin cl) True,
      unionFloat (fst b) (snd b) (cl_SingleMax cl) False, unionFloat (fst c) (snd c) (cl_DailyLimit cl) False)"
    by (cases a; cases b; cases c) (simp add: union_step_def)
  then show ?case by (simp add: Cons.IH union_all_def)
qed (simp add: union_all_def)

lemma the_image: "None \<notin> S \<Longrightarrow> c \<in> the ` S \<longleftrightarrow> Some c \<in> S"
  by (auto simp: image_iff) (metis option.collapse, metis option.sel)

definition single_ok :: "rat \<Rightarrow> rat \<Rightarrow> rat \<Rightarrow> bool" where
  "single_ok mn mx x \<longleftrightarrow> \<not> (0 < mn \<and> x < mn) \<and> \<not> (0 < mx \<and> mx < x)"

text \<open>
  The limits shown for a payment type are the union of the limits of its instances: an amount
  that some instance accepts is within the limits shown, and a minimum or maximum that is shown is
  the one of some instance. (No limit is negative.)
\<close>

theorem advertised_limits_are_union:
  assumes "\<forall>i \<in> set insts. \<forall>cl. pcInstanceTypeLimits dec i pt = Some cl \<longrightarrow>
      0 \<le> cl_SingleMin cl \<and> 0 \<le> cl_SingleMax cl"
    and "i \<in> set insts"
    and "case pcInstanceTypeLimits dec i pt of None \<Rightarrow> True
      | Some cl \<Rightarrow> single_ok (cl_SingleMin cl) (cl_SingleMax cl) x"
  shows "let m = pcAggregateMethodLimits dec pt insts; lim = (\<lambda>j. pcInstanceTypeLimits dec j pt) in
    single_ok (ml_SingleMin m) (ml_SingleMax m) x \<and>
    (ml_SingleMin m \<noteq> 0 \<longrightarrow> ml_SingleMin m \<in> {cl_SingleMin cl |cl. Some cl \<in> lim ` set insts}) \<and>
    (ml_SingleMax m \<noteq> 0 \<longrightarrow> ml_SingleMax m \<in> {cl_SingleMax cl |cl. Some cl \<in> lim ` set insts})"
proof (cases "None \<in> (\<lambda>j. pcInstanceTypeLimits dec j pt) ` set insts")
  case True
  then show ?thesis by (simp add: pcAggregateMethodLimits_def Let_def single_ok_def)
next
  case False
  let ?cls = "map the (map (\<lambda>j. pcInstanceTypeLimits dec j pt) insts)"
  have some: "Some cl \<in> (\<lambda>j. pcInstanceTypeLimits dec j pt) ` set insts \<longleftrightarrow> cl \<in> set ?cls" for cl
    using the_image [OF False, of cl] by (simp only: set_map)
  let ?mins = "map cl_SingleMin ?cls" and ?maxs = "map cl_SingleMax ?cls"
  have nn: "\<forall>v \<in> set ?mins. 0 \<le> v" "\<forall>v \<in> set ?maxs. 0 \<le> v"
    using assms(1) False by (force simp: image_iff)+
  have ne: "?mins \<noteq> []" "?maxs \<noteq> []" using assms(2) by auto
  have m: "ml_SingleMin (pcAggregateMethodLimits dec pt insts) = (if 0 \<in> set ?mins then 0 else Min (set ?mins))"
    "ml_SingleMax (pcAggregateMethodLimits dec pt insts) = (if 0 \<in> set ?maxs then 0 else Max (set ?maxs))"
  proof -
    have "None \<notin> set (map (\<lambda>j. pcInstanceTypeLimits dec j pt) insts)" using False by simp
    then have agg: "pcAggregateMethodLimits dec pt insts = \<lparr>ml_PaymentType = pt,
        ml_DailyLimit = still_limited (union_all False (0, True) (map cl_DailyLimit ?cls)),
        ml_SingleMin = still_limited (union_all True (0, True) ?mins),
        ml_SingleMax = still_limited (union_all False (0, True) ?maxs)\<rparr>"
      unfolding pcAggregateMethodLimits_def Let_def foldl_union_step by (simp only: if_False prod.case)
    then show "ml_SingleMin (pcAggregateMethodLimits dec pt insts) = (if 0 \<in> set ?mins then 0 else Min (set ?mins))"
      "ml_SingleMax (pcAggregateMethodLimits dec pt insts) = (if 0 \<in> set ?maxs then 0 else Max (set ?maxs))"
      using union_all_bound [OF nn(1) ne(1), of True] union_all_bound [OF nn(2) ne(2), of False]
      by (simp_all only: MethodLimits.select_convs if_True if_False)
  qed
  obtain cl where cl: "pcInstanceTypeLimits dec i pt = Some cl" "cl \<in> set ?cls"
    using assms(2) False by (force simp: image_iff)
  have x: "single_ok (cl_SingleMin cl) (cl_SingleMax cl) x" using assms(3) cl(1) by simp
  have in_mins: "cl_SingleMin cl \<in> set ?mins" and in_maxs: "cl_SingleMax cl \<in> set ?maxs"
    using cl(2) by auto
  have "Min (set ?mins) \<le> cl_SingleMin cl" "cl_SingleMax cl \<le> Max (set ?maxs)"
    using in_mins in_maxs by (auto intro: Min_le Max_ge)
  moreover have "0 \<le> cl_SingleMin cl" "0 \<le> cl_SingleMax cl" using nn in_mins in_maxs by blast+
  moreover have "cl_SingleMin cl = 0 \<Longrightarrow> 0 \<in> set ?mins" "cl_SingleMax cl = 0 \<Longrightarrow> 0 \<in> set ?maxs"
    using in_mins in_maxs by metis+
  ultimately have "single_ok (ml_SingleMin (pcAggregateMethodLimits dec pt insts))
      (ml_SingleMax (pcAggregateMethodLimits dec pt insts)) x"
    using x unfolding m single_ok_def by (auto simp del: set_map)
  moreover have "Min (set ?mins) \<in> set ?mins" "Max (set ?maxs) \<in> set ?maxs"
    using ne by (intro Min_in Max_in; force)+
  ultimately show ?thesis unfolding Let_def some m by auto
qed

theorem advertised_limits_are_union_witness:
  "let m = pcAggregateMethodLimits demo_limits ''alipay'' [demo_instance 1 ''small'']; lim = (\<lambda>j. pcInstanceTypeLimits demo_limits j ''alipay'') in
    single_ok (ml_SingleMin m) (ml_SingleMax m) 20 \<and>
    (ml_SingleMin m \<noteq> 0 \<longrightarrow> ml_SingleMin m \<in> {cl_SingleMin cl |cl. Some cl \<in> lim ` set [demo_instance 1 ''small'']}) \<and>
    (ml_SingleMax m \<noteq> 0 \<longrightarrow> ml_SingleMax m \<in> {cl_SingleMax cl |cl. Some cl \<in> lim ` set [demo_instance 1 ''small'']})"
  by (rule advertised_limits_are_union [where i = "demo_instance 1 ''small''"])
     (simp_all add: demo_instance_def pcInstanceTypeLimits_def demo_limits_def single_ok_def)

end
