(* ===== verification/Payment.thy ===== *)
theory Payment
  imports Redeem PaymentProviders
begin

text \<open>
  Payments, part one: the life of an order after it was created
  (\<open>backend/internal/service/payment_fulfillment.go\<close>, \<open>payment_order_lifecycle.go\<close>,
  \<open>payment_order_expiry_service.go\<close>, helpers of \<open>payment_service.go\<close>, constants of
  \<open>payment/types.go\<close>).

  A notification of the payment provider moves an order to PAID and fulfils it: a balance order
  creates a redeem code and redeems it for the user, a subscription order assigns or extends a
  subscription. Orders that are not paid are cancelled or expire. Every handler is a program of
  single statements; nothing but the conditions in the statements keeps two handlers of one order
  apart. The providers are arguments.
\<close>

section \<open>Constants\<close>

definition OrderStatusPending :: string where "OrderStatusPending = ''PENDING''"
definition OrderStatusPaid :: string where "OrderStatusPaid = ''PAID''"
definition OrderStatusRecharging :: string where "OrderStatusRecharging = ''RECHARGING''"
definition OrderStatusCompleted :: string where "OrderStatusCompleted = ''COMPLETED''"
definition OrderStatusExpired :: string where "OrderStatusExpired = ''EXPIRED''"
definition OrderStatusCancelled :: string where "OrderStatusCancelled = ''CANCELLED''"
definition OrderStatusFailed :: string where "OrderStatusFailed = ''FAILED''"
definition OrderStatusRefundRequested :: string where "OrderStatusRefundRequested = ''REFUND_REQUESTED''"
definition OrderStatusRefunding :: string where "OrderStatusRefunding = ''REFUNDING''"
definition OrderStatusPartiallyRefunded :: string where
  "OrderStatusPartiallyRefunded = ''PARTIALLY_REFUNDED''"
definition OrderStatusRefunded :: string where "OrderStatusRefunded = ''REFUNDED''"
definition OrderStatusRefundFailed :: string where "OrderStatusRefundFailed = ''REFUND_FAILED''"

lemmas order_status_defs = OrderStatusPending_def OrderStatusPaid_def OrderStatusRecharging_def
  OrderStatusCompleted_def OrderStatusExpired_def OrderStatusCancelled_def OrderStatusFailed_def
  OrderStatusRefundRequested_def OrderStatusRefunding_def OrderStatusPartiallyRefunded_def
  OrderStatusRefunded_def OrderStatusRefundFailed_def

definition OrderTypeBalance :: string where "OrderTypeBalance = ''balance''"
definition OrderTypeSubscription :: string where "OrderTypeSubscription = ''subscription''"
definition EntityStatusActive :: string where "EntityStatusActive = ''active''"
definition NotificationStatusSuccess :: string where "NotificationStatusSuccess = ''success''"
definition ProviderStatusPaid :: string where "ProviderStatusPaid = ''paid''"
definition ProviderStatusSuccess :: string where "ProviderStatusSuccess = ''success''"

definition paymentGraceMinutes :: int where "paymentGraceMinutes = 5"
definition amountToleranceCNY :: rat where "amountToleranceCNY = 1 / 100"
definition orderIDPrefix :: string where "orderIDPrefix = ''sub2_''"

definition checkPaidResultAlreadyPaid :: string where "checkPaidResultAlreadyPaid = ''already_paid''"
definition checkPaidResultCancelled :: string where "checkPaidResultCancelled = ''cancelled''"

definition err_not_found :: go_error where
  "err_not_found = AppErr (NotFound ''NOT_FOUND'' ''order not found'')"
definition err_status :: "string \<Rightarrow> go_error" where
  "err_status m = AppErr (BadRequest ''INVALID_STATUS'' m)"

section \<open>The providers\<close>

text \<open>
  What the handlers take from outside: whether redeeming has a Redis cache, the L1 cache of
  subscriptions, the decryption of a configuration, \<open>provider.CreateProvider\<close> (a provider key, an
  instance and its configuration), whether the registry has been filled and with what, and the text
  of an error.
\<close>

record payment_env =
  pe_cache :: bool
  pe_l1 :: "int \<Rightarrow> int \<Rightarrow> UserSubscription option"
  pe_decrypt :: "ProviderInstance \<Rightarrow> go_error + provider_config"
  pe_create :: "string \<Rightarrow> string \<Rightarrow> provider_config \<Rightarrow> go_error + Provider"
  pe_loaded :: bool
  pe_registry :: registry
  pe_errtext :: "go_error \<Rightarrow> string"

definition instance_Get :: "int \<Rightarrow> ProviderInstance query" where
  "instance_Get i now db = (only (\<lambda>x. pi_ID x = i) (db_instances db), db)"

definition GetInstanceConfig :: "payment_env \<Rightarrow> int \<Rightarrow> provider_config handler" where
  "GetInstanceConfig env i =
     stmt (instance_Get i) (on_error (wrap (''get instance '' @ itoa i)) (\<lambda>x. Return (pe_decrypt env x)))"

text \<open>\<open>loadProviders\<close>: the enabled instances that can be created, registered one after the other.\<close>

definition loadProviders :: "payment_env \<Rightarrow> ProviderInstance list \<Rightarrow> registry \<Rightarrow> registry" where
  "loadProviders env insts r = fold (\<lambda>i r.
     case pe_decrypt env i of
       Inl _ \<Rightarrow> r
     | Inr cfg \<Rightarrow>
         (case pe_create env (pi_ProviderKey i) (itoa (pi_ID i))
                 (if pi_PaymentMode i \<noteq> [] then cfg(''paymentMode'' \<mapsto> pi_PaymentMode i) else cfg) of
            Inl _ \<Rightarrow> r | Inr p \<Rightarrow> Register p r)) (filter pi_Enabled insts) r"

text \<open>
  The provider of an order: the instance that created it, under the key that the registry has for
  the payment type, or else the registered provider.
\<close>

definition getOrderProvider :: "payment_env \<Rightarrow> PaymentOrder \<Rightarrow> Provider handler" where
  "getOrderProvider env o1 =
     (let registered = Return (GetProvider (pe_registry env) (po_PaymentType o1)) in
      case po_ProviderInstanceID o1 of
        None \<Rightarrow> registered
      | Some inst \<Rightarrow>
          (case (if inst = [] then None else Atoi inst) of
             None \<Rightarrow> registered
           | Some i \<Rightarrow>
               bind (GetInstanceConfig env i) (\<lambda>r. case r of
                   Inl _ \<Rightarrow> registered
                 | Inr cfg \<Rightarrow>
                     (let known = GetProviderKey (if pe_loaded env then pe_registry env else Map.empty)
                                    (po_PaymentType o1);
                          key = (if known = [] then po_PaymentType o1 else known)
                      in case pe_create env key inst cfg of
                           Inl _ \<Rightarrow> registered
                         | Inr p \<Rightarrow> succeed p))))"

section \<open>Statements on orders\<close>

definition order_Get :: "int \<Rightarrow> PaymentOrder query" where
  "order_Get oid now db = (only (\<lambda>o1. po_ID o1 = oid) (db_orders db), db)"

definition order_ByOutTradeNo :: "string \<Rightarrow> PaymentOrder query" where
  "order_ByOutTradeNo no now db = (only (\<lambda>o1. po_OutTradeNo o1 = no) (db_orders db), db)"

text \<open>\<open>Update().Where(p).Set...\<close>; every update sets \<open>updated_at\<close>.\<close>

definition order_Update :: "(PaymentOrder \<Rightarrow> bool) \<Rightarrow> (PaymentOrder \<Rightarrow> PaymentOrder) \<Rightarrow> nat query" where
  "order_Update p f now db = (Inr (matches p (db_orders db)),
     db\<lparr>db_orders := change p (\<lambda>o1. (f o1)\<lparr>po_UpdatedAt := now\<rparr>) (db_orders db)\<rparr>)"

definition order_UpdateOneID :: "int \<Rightarrow> (PaymentOrder \<Rightarrow> PaymentOrder) \<Rightarrow> unit query" where
  "order_UpdateOneID oid f now db =
     (if matches (\<lambda>o1. po_ID o1 = oid) (db_orders db) = 0 then (Inl ErrEntNotFound, db)
      else (Inr (), db\<lparr>db_orders :=
              change (\<lambda>o1. po_ID o1 = oid) (\<lambda>o1. (f o1)\<lparr>po_UpdatedAt := now\<rparr>) (db_orders db)\<rparr>))"

definition has_status :: "int \<Rightarrow> string list \<Rightarrow> PaymentOrder \<Rightarrow> bool" where
  "has_status oid sts o1 \<longleftrightarrow> po_ID o1 = oid \<and> po_Status o1 \<in> set sts"

definition audit_insert :: "int \<Rightarrow> string \<Rightarrow> string \<Rightarrow> unit query" where
  "audit_insert oid action op now db = (Inr (), db\<lparr>db_audit := db_audit db @
     [\<lparr>al_OrderID = oid, al_Action = action, al_Operator = op, al_CreatedAt = now\<rparr>]\<rparr>)"

definition audit_exists :: "int \<Rightarrow> string \<Rightarrow> bool query" where
  "audit_exists oid action now db =
     (Inr (list_ex (\<lambda>a. al_OrderID a = oid \<and> al_Action a = action) (db_audit db)), db)"

text \<open>An audit entry that cannot be written is logged and forgotten.\<close>

definition writeAuditLog :: "int \<Rightarrow> string \<Rightarrow> string \<Rightarrow> (world, 'a) prog \<Rightarrow> (world, 'a) prog" where
  "writeAuditLog oid action op k = stmt (audit_insert oid action op) (\<lambda>_. k)"

text \<open>A failing query counts as no entry.\<close>

definition hasAuditLog :: "int \<Rightarrow> string \<Rightarrow> (bool \<Rightarrow> (world, 'a) prog) \<Rightarrow> (world, 'a) prog" where
  "hasAuditLog oid action k =
     stmt (audit_exists oid action) (\<lambda>r. k (case r of Inl _ \<Rightarrow> False | Inr b \<Rightarrow> b))"

definition psIsRefundStatus :: "string \<Rightarrow> bool" where
  "psIsRefundStatus st \<longleftrightarrow> st \<in> {OrderStatusRefundRequested, OrderStatusRefunding,
     OrderStatusPartiallyRefunded, OrderStatusRefunded, OrderStatusRefundFailed}"

section \<open>Fulfilment\<close>

definition markCompleted :: "PaymentOrder \<Rightarrow> string \<Rightarrow> unit handler" where
  "markCompleted o1 auditAction =
     time_Now (\<lambda>now.
       stmt (order_Update (has_status (po_ID o1) [OrderStatusRecharging])
              (\<lambda>x. x\<lparr>po_Status := OrderStatusCompleted, po_CompletedAt := Some now\<rparr>))
         (on_error (wrap ''mark completed'') (\<lambda>_.
           writeAuditLog (po_ID o1) auditAction ''system'' (succeed ()))))"

definition markFailed :: "payment_env \<Rightarrow> int \<Rightarrow> go_error \<Rightarrow> (world, 'a) prog \<Rightarrow> (world, 'a) prog" where
  "markFailed env oid cause k =
     time_Now (\<lambda>now.
       stmt (order_Update (has_status oid [OrderStatusRecharging])
              (\<lambda>x. x\<lparr>po_Status := OrderStatusFailed, po_FailedAt := Some now,
                     po_FailedReason := Some (pe_errtext env cause)\<rparr>))
         (\<lambda>c. case c of
             Inl _ \<Rightarrow> k
           | Inr n \<Rightarrow> if 0 < n then writeAuditLog oid ''FULFILLMENT_FAILED'' ''system'' k else k))"

datatype redeemAction = redeemActionCreate | redeemActionRedeem | redeemActionSkipCompleted

definition resolveRedeemAction :: "go_error + RedeemCode \<Rightarrow> redeemAction" where
  "resolveRedeemAction existing =
     (case existing of
        Inl _ \<Rightarrow> redeemActionCreate
      | Inr c \<Rightarrow> if IsUsed c then redeemActionSkipCompleted else redeemActionRedeem)"

definition order_code :: "PaymentOrder \<Rightarrow> RedeemCode" where
  "order_code o1 = \<lparr>rc_ID = 0, rc_Code = po_RechargeCode o1, rc_Type = RedeemTypeBalance,
     rc_Value = po_Amount o1, rc_Status = StatusUnused, rc_UsedBy = None, rc_UsedAt = None,
     rc_Notes = [], rc_GroupID = None, rc_ValidityDays = 0\<rparr>"

definition doBalance :: "payment_env \<Rightarrow> PaymentOrder \<Rightarrow> unit handler" where
  "doBalance env o1 =
     (let redeem = bind (Redeem (pe_cache env) (po_UserID o1) (po_RechargeCode o1))
            (on_error (wrap ''redeem balance'') (\<lambda>_. markCompleted o1 ''RECHARGE_SUCCESS''))
      in bind (GetByCode (po_RechargeCode o1)) (\<lambda>existing.
           case resolveRedeemAction existing of
             redeemActionSkipCompleted \<Rightarrow> markCompleted o1 ''RECHARGE_SUCCESS''
           | redeemActionCreate \<Rightarrow>
               bind (CreateCode (order_code o1)) (on_error (wrap ''create redeem code'') (\<lambda>_. redeem))
           | redeemActionRedeem \<Rightarrow> redeem))"

definition order_note :: "int \<Rightarrow> string" where
  "order_note oid = ''payment order '' @ itoa oid"

definition doSub :: "PaymentOrder \<Rightarrow> unit handler" where
  "doSub o1 =
     (case (po_SubscriptionGroupID o1, po_SubscriptionDays o1) of
        (Some gid, Some days) \<Rightarrow>
          stmt (group_GetByID gid) (\<lambda>g.
            let inactive = fail (PlainErr (''group '' @ itoa gid @ '' no longer exists or inactive'')) in
            case g of
              Inl _ \<Rightarrow> inactive
            | Inr g1 \<Rightarrow>
                if grp_Status g1 \<noteq> EntityStatusActive then inactive
                else hasAuditLog (po_ID o1) ''SUBSCRIPTION_SUCCESS'' (\<lambda>done.
                  if done then markCompleted o1 ''SUBSCRIPTION_SUCCESS''
                  else bind (AssignOrExtendSubscription \<lparr>as_UserID = po_UserID o1, as_GroupID = gid,
                              as_ValidityDays = days, as_AssignedBy = 0, as_Notes = order_note (po_ID o1)\<rparr>)
                         (on_error (wrap ''assign subscription'') (\<lambda>_.
                           markCompleted o1 ''SUBSCRIPTION_SUCCESS''))))
      | _ \<Rightarrow> fail (PlainErr ''nil pointer dereference''))"

text \<open>
  Both fulfilments check the order, take it over by moving it to RECHARGING if it still is PAID or
  FAILED, and mark it FAILED when something goes wrong.
\<close>

definition execute_order :: "payment_env \<Rightarrow> (PaymentOrder \<Rightarrow> go_error option) \<Rightarrow>
    (PaymentOrder \<Rightarrow> unit handler) \<Rightarrow> int \<Rightarrow> unit handler" where
  "execute_order env precondition fulfil oid =
     stmt (order_Get oid) (on_error (\<lambda>_. fail err_not_found) (\<lambda>o1.
       if po_Status o1 = OrderStatusCompleted then succeed ()
       else if psIsRefundStatus (po_Status o1) then fail (err_status ''refund-related order cannot fulfill'')
       else if po_Status o1 \<noteq> OrderStatusPaid \<and> po_Status o1 \<noteq> OrderStatusFailed
       then fail (err_status (''order cannot fulfill in status '' @ po_Status o1))
       else (case precondition o1 of
           Some e \<Rightarrow> fail e
         | None \<Rightarrow>
             stmt (order_Update (has_status oid [OrderStatusPaid, OrderStatusFailed])
                    (\<lambda>x. x\<lparr>po_Status := OrderStatusRecharging\<rparr>))
               (on_error (wrap ''lock'') (\<lambda>c.
                 if c = 0 then succeed ()
                 else bind (fulfil o1) (\<lambda>r. case r of
                     Inl e \<Rightarrow> markFailed env oid e (fail e)
                   | Inr _ \<Rightarrow> succeed ()))))))"

definition ExecuteBalanceFulfillment :: "payment_env \<Rightarrow> int \<Rightarrow> unit handler" where
  "ExecuteBalanceFulfillment env oid = execute_order env (\<lambda>_. None) (doBalance env) oid"

definition ExecuteSubscriptionFulfillment :: "payment_env \<Rightarrow> int \<Rightarrow> unit handler" where
  "ExecuteSubscriptionFulfillment env oid =
     execute_order env (\<lambda>o1. if po_SubscriptionGroupID o1 = None \<or> po_SubscriptionDays o1 = None
         then Some (err_status ''missing subscription info'') else None) doSub oid"

definition executeFulfillment :: "payment_env \<Rightarrow> int \<Rightarrow> unit handler" where
  "executeFulfillment env oid =
     stmt (order_Get oid) (on_error (wrap ''get order'') (\<lambda>o1.
       if po_OrderType o1 = OrderTypeSubscription then ExecuteSubscriptionFulfillment env oid
       else ExecuteBalanceFulfillment env oid))"

definition alreadyProcessed :: "payment_env \<Rightarrow> PaymentOrder \<Rightarrow> unit handler" where
  "alreadyProcessed env o1 =
     stmt (order_Get (po_ID o1)) (on_error (\<lambda>_. succeed ()) (\<lambda>cur.
       if po_Status cur = OrderStatusCompleted \<or> po_Status cur = OrderStatusRefunded then succeed ()
       else if po_Status cur = OrderStatusFailed then executeFulfillment env (po_ID o1)
       else if po_Status cur = OrderStatusPaid \<or> po_Status cur = OrderStatusRecharging
       then fail (PlainErr (''order '' @ itoa (po_ID o1) @ '' is being processed''))
       else if po_Status cur = OrderStatusExpired
       then writeAuditLog (po_ID o1) ''PAYMENT_AFTER_EXPIRY'' ''system'' (succeed ())
       else succeed ()))"

text \<open>Who may still be paid: a pending or cancelled order, and one that expired a moment ago.\<close>

definition payable :: "int \<Rightarrow> gotime \<Rightarrow> PaymentOrder \<Rightarrow> bool" where
  "payable oid grace x \<longleftrightarrow> po_ID x = oid \<and>
     (po_Status x = OrderStatusPending \<or> po_Status x = OrderStatusCancelled \<or>
      po_Status x = OrderStatusExpired \<and> grace \<le> po_UpdatedAt x)"

definition toPaid :: "payment_env \<Rightarrow> PaymentOrder \<Rightarrow> string \<Rightarrow> rat \<Rightarrow> string \<Rightarrow> unit handler" where
  "toPaid env o1 tradeNo paid pk =
     time_Now (\<lambda>now.
       stmt (order_Update (payable (po_ID o1) (now - paymentGraceMinutes * time_Minute))
              (\<lambda>x. x\<lparr>po_Status := OrderStatusPaid, po_PayAmount := paid, po_PaymentTradeNo := tradeNo,
                     po_PaidAt := Some now, po_FailedAt := None, po_FailedReason := None\<rparr>))
         (on_error (wrap ''update to PAID'') (\<lambda>c.
           let rest = writeAuditLog (po_ID o1) ''ORDER_PAID'' pk (executeFulfillment env (po_ID o1))
           in if c = 0 then alreadyProcessed env o1
              else if po_Status o1 = OrderStatusCancelled \<or> po_Status o1 = OrderStatusExpired
              then writeAuditLog (po_ID o1) ''ORDER_RECOVERED'' pk rest
              else rest)))"

text \<open>The amount is compared when the provider reports a positive number.\<close>

definition confirmPayment :: "payment_env \<Rightarrow> int \<Rightarrow> string \<Rightarrow> go_float \<Rightarrow> string \<Rightarrow> unit handler" where
  "confirmPayment env oid tradeNo paid pk =
     stmt (order_Get oid) (on_error (\<lambda>_. succeed ()) (\<lambda>o1.
       case paid of
         Finite x \<Rightarrow>
           if 0 < x \<and> \<bar>x - po_PayAmount o1\<bar> > amountToleranceCNY
           then writeAuditLog (po_ID o1) ''PAYMENT_AMOUNT_MISMATCH'' pk (fail (PlainErr ''amount mismatch''))
           else toPaid env o1 tradeNo (if x \<le> 0 then po_PayAmount o1 else x) pk
       | _ \<Rightarrow> toPaid env o1 tradeNo (po_PayAmount o1) pk))"

record PaymentNotification =
  pn_TradeNo :: string
  pn_OrderID :: string
  pn_Amount :: go_float
  pn_Status :: string

definition TrimPrefix :: "string \<Rightarrow> string \<Rightarrow> string" where
  "TrimPrefix s p = (case CutPrefix s p of Some r \<Rightarrow> r | None \<Rightarrow> s)"

definition HandlePaymentNotification :: "payment_env \<Rightarrow> PaymentNotification \<Rightarrow> string \<Rightarrow> unit handler" where
  "HandlePaymentNotification env n pk =
     (if pn_Status n \<noteq> NotificationStatusSuccess then succeed ()
      else stmt (order_ByOutTradeNo (pn_OrderID n)) (on_error
        (\<lambda>_. case Atoi (TrimPrefix (pn_OrderID n) orderIDPrefix) of
            Some oid \<Rightarrow> confirmPayment env oid (pn_TradeNo n) (pn_Amount n) pk
          | None \<Rightarrow> fail (PlainErr (''order not found for out_trade_no: '' @ pn_OrderID n)))
        (\<lambda>o1. confirmPayment env (po_ID o1) (pn_TradeNo n) (pn_Amount n) pk)))"

definition RetryFulfillment :: "payment_env \<Rightarrow> int \<Rightarrow> unit handler" where
  "RetryFulfillment env oid =
     stmt (order_Get oid) (on_error (\<lambda>_. fail err_not_found) (\<lambda>o1.
       if po_PaidAt o1 = None then fail (err_status ''order is not paid'')
       else if psIsRefundStatus (po_Status o1) then fail (err_status ''refund-related order cannot retry'')
       else if po_Status o1 = OrderStatusRecharging
       then fail (AppErr (Conflict ''CONFLICT'' ''order is being processed''))
       else if po_Status o1 = OrderStatusCompleted then fail (err_status ''order already completed'')
       else if po_Status o1 \<noteq> OrderStatusFailed \<and> po_Status o1 \<noteq> OrderStatusPaid
       then fail (err_status ''only paid and failed orders can retry'')
       else stmt (order_Update (has_status oid [OrderStatusFailed, OrderStatusPaid])
                   (\<lambda>x. x\<lparr>po_Status := OrderStatusPaid, po_FailedAt := None, po_FailedReason := None\<rparr>))
              (on_error (wrap ''reset for retry'') (\<lambda>_.
                writeAuditLog oid ''RECHARGE_RETRY'' ''admin'' (executeFulfillment env oid)))))"

section \<open>Cancelling and expiring\<close>

definition checkPaid :: "payment_env \<Rightarrow> PaymentOrder \<Rightarrow> (string \<Rightarrow> (world, 'a) prog) \<Rightarrow> (world, 'a) prog" where
  "checkPaid env o1 k =
     bind (getOrderProvider env o1) (\<lambda>r. case r of
        Inl _ \<Rightarrow> k []
      | Inr prov \<Rightarrow>
          time_Now (\<lambda>now.
            case pv_QueryOrder prov now
                   (if po_PaymentTradeNo o1 = [] then po_OutTradeNo o1 else po_PaymentTradeNo o1) of
              Inl _ \<Rightarrow> k []
            | Inr resp \<Rightarrow>
                if qr_Status resp = ProviderStatusPaid
                then bind (HandlePaymentNotification env
                       \<lparr>pn_TradeNo = po_PaymentTradeNo o1, pn_OrderID = po_OutTradeNo o1,
                        pn_Amount = qr_Amount resp, pn_Status = ProviderStatusSuccess\<rparr>
                       (pv_ProviderKey prov)) (\<lambda>_. k checkPaidResultAlreadyPaid)
                else k []))"

definition cancelCore :: "payment_env \<Rightarrow> PaymentOrder \<Rightarrow> string \<Rightarrow> string \<Rightarrow> string handler" where
  "cancelCore env o1 fs op =
     (let rest = stmt (order_Update (has_status (po_ID o1) [OrderStatusPending]) (\<lambda>x. x\<lparr>po_Status := fs\<rparr>))
            (on_error (wrap ''update order status'') (\<lambda>c.
              if 0 < c then writeAuditLog (po_ID o1)
                  (if fs = OrderStatusExpired then ''ORDER_EXPIRED'' else ''ORDER_CANCELLED'') op
                  (succeed checkPaidResultCancelled)
              else succeed checkPaidResultCancelled))
      in if po_PaymentTradeNo o1 \<noteq> [] \<or> po_PaymentType o1 \<noteq> []
         then checkPaid env o1 (\<lambda>res. if res = checkPaidResultAlreadyPaid
                then succeed checkPaidResultAlreadyPaid else rest)
         else rest)"

definition CancelOrder :: "payment_env \<Rightarrow> int \<Rightarrow> int \<Rightarrow> string handler" where
  "CancelOrder env oid uid =
     stmt (order_Get oid) (on_error (\<lambda>_. fail err_not_found) (\<lambda>o1.
       if po_UserID o1 \<noteq> uid then fail (AppErr (Forbidden ''FORBIDDEN'' ''no permission for this order''))
       else if po_Status o1 \<noteq> OrderStatusPending
       then fail (err_status ''order cannot be cancelled in current status'')
       else cancelCore env o1 OrderStatusCancelled (''user:'' @ itoa uid)))"

definition AdminCancelOrder :: "payment_env \<Rightarrow> int \<Rightarrow> string handler" where
  "AdminCancelOrder env oid =
     stmt (order_Get oid) (on_error (\<lambda>_. fail err_not_found) (\<lambda>o1.
       if po_Status o1 \<noteq> OrderStatusPending
       then fail (err_status ''order cannot be cancelled in current status'')
       else cancelCore env o1 OrderStatusCancelled ''admin''))"

definition reload_if_paid :: "payment_env \<Rightarrow> PaymentOrder \<Rightarrow> PaymentOrder handler" where
  "reload_if_paid env o1 =
     (if po_Status o1 = OrderStatusPending \<or> po_Status o1 = OrderStatusExpired
      then checkPaid env o1 (\<lambda>res. if res = checkPaidResultAlreadyPaid
             then stmt (order_Get (po_ID o1)) (on_error (wrap ''reload order'') succeed) else succeed o1)
      else succeed o1)"

definition VerifyOrderByOutTradeNo :: "payment_env \<Rightarrow> string \<Rightarrow> int \<Rightarrow> PaymentOrder handler" where
  "VerifyOrderByOutTradeNo env no uid =
     stmt (order_ByOutTradeNo no) (on_error (\<lambda>_. fail err_not_found) (\<lambda>o1.
       if po_UserID o1 \<noteq> uid then fail (AppErr (Forbidden ''FORBIDDEN'' ''no permission for this order''))
       else reload_if_paid env o1))"

definition VerifyOrderPublic :: "payment_env \<Rightarrow> string \<Rightarrow> PaymentOrder handler" where
  "VerifyOrderPublic env no =
     stmt (order_ByOutTradeNo no) (on_error (\<lambda>_. fail err_not_found) (reload_if_paid env))"

definition orders_timed_out :: "PaymentOrder list query" where
  "orders_timed_out now db =
     (Inr (filter (\<lambda>o1. po_Status o1 = OrderStatusPending \<and> po_ExpiresAt o1 \<le> now) (db_orders db)), db)"

definition ExpireTimedOutOrders :: "payment_env \<Rightarrow> nat handler" where
  "ExpireTimedOutOrders env =
     stmt orders_timed_out (on_error (wrap ''query expired'') (\<lambda>orders.
       bind (foreach orders (\<lambda>o1 n. bind (cancelCore env o1 OrderStatusExpired ''system'') (\<lambda>r.
               Return (case r of
                   Inl _ \<Rightarrow> n
                 | Inr outcome \<Rightarrow> if outcome = checkPaidResultAlreadyPaid then n
                                  else if outcome \<noteq> [] then n + 1 else n))) 0)
         succeed))"

end
