(* ===== verification/PaymentRefund.thy ===== *)
theory PaymentRefund
  imports Payment
begin

text \<open>
  Payments, part three: refunds (\<open>backend/internal/service/payment_refund.go\<close>,
  \<open>payment_amounts.go\<close>).

  A refund is prepared (what to pay back, what to take from the user), then executed: the order is
  locked by moving it to REFUNDING, balance or days are deducted, the provider is asked to pay the
  money back, and the order is marked. When the provider refuses, the deduction is returned.
  Decimal arithmetic belongs to a third-party package and is an argument.
\<close>

section \<open>Amounts\<close>

text \<open>
  What the code uses of \<open>shopspring/decimal\<close>: \<open>Round(2)\<close>, \<open>RoundUp(2)\<close>, \<open>StringFixed(2)\<close>,
  \<open>Div\<close> and \<open>IntPart\<close>.
\<close>

record decimal_lib =
  dl_Round2 :: "rat \<Rightarrow> rat"
  dl_RoundUp2 :: "rat \<Rightarrow> rat"
  dl_Fixed2 :: "rat \<Rightarrow> rat"
  dl_Div :: "rat \<Rightarrow> rat \<Rightarrow> rat"
  dl_IntPart :: "rat \<Rightarrow> int"

definition defaultBalanceRechargeMultiplier :: rat where "defaultBalanceRechargeMultiplier = 1"

definition normalizeBalanceRechargeMultiplier :: "go_float \<Rightarrow> rat" where
  "normalizeBalanceRechargeMultiplier m =
     (case m of Finite x \<Rightarrow> if x \<le> 0 then defaultBalanceRechargeMultiplier else x
      | _ \<Rightarrow> defaultBalanceRechargeMultiplier)"

definition calculateCreditedBalance :: "decimal_lib \<Rightarrow> rat \<Rightarrow> go_float \<Rightarrow> rat" where
  "calculateCreditedBalance dl paymentAmount multiplier =
     dl_Round2 dl (paymentAmount * normalizeBalanceRechargeMultiplier multiplier)"

definition calculateGatewayRefundAmount :: "decimal_lib \<Rightarrow> rat \<Rightarrow> rat \<Rightarrow> rat \<Rightarrow> rat" where
  "calculateGatewayRefundAmount dl orderAmount payAmount refundAmount =
     (if orderAmount \<le> 0 \<or> payAmount \<le> 0 \<or> refundAmount \<le> 0 then 0
      else if \<bar>refundAmount - orderAmount\<bar> \<le> amountToleranceCNY then dl_Round2 dl payAmount
      else dl_Round2 dl (dl_Div dl (payAmount * refundAmount) orderAmount))"

text \<open>The amount to pay, in yuan with two decimals, and an amount in yuan as fen.\<close>

definition CalculatePayAmount :: "decimal_lib \<Rightarrow> rat \<Rightarrow> rat \<Rightarrow> rat" where
  "CalculatePayAmount dl rechargeAmount feeRate =
     (if feeRate \<le> 0 then dl_Fixed2 dl rechargeAmount
      else dl_Fixed2 dl (rechargeAmount + dl_RoundUp2 dl (dl_Div dl (rechargeAmount * feeRate) 100)))"

definition YuanToFen :: "decimal_lib \<Rightarrow> rat \<Rightarrow> int" where
  "YuanToFen dl yuan = dl_IntPart dl (yuan * 100)"

definition FenToYuan :: "decimal_lib \<Rightarrow> int \<Rightarrow> rat" where
  "FenToYuan dl fen = dl_Div dl (of_int fen) 100"

section \<open>Requesting a refund\<close>

definition DeductionTypeBalance :: string where "DeductionTypeBalance = ''balance''"
definition DeductionTypeSubscription :: string where "DeductionTypeSubscription = ''subscription''"
definition DeductionTypeNone :: string where "DeductionTypeNone = ''none''"

lemmas deduction_type_defs = DeductionTypeBalance_def DeductionTypeSubscription_def DeductionTypeNone_def

text \<open>None for an order without an instance.\<close>

definition getOrderProviderInstance :: "PaymentOrder \<Rightarrow> ProviderInstance option handler" where
  "getOrderProviderInstance o1 =
     (case po_ProviderInstanceID o1 of
        None \<Rightarrow> succeed None
      | Some inst \<Rightarrow>
          if inst = [] then succeed None
          else (case Atoi inst of
              None \<Rightarrow> succeed None
            | Some i \<Rightarrow> stmt (instance_Get i) (on_error fail (\<lambda>x. succeed (Some x)))))"

definition err_refund_disabled :: "string \<Rightarrow> string \<Rightarrow> go_error" where
  "err_refund_disabled reason msg = AppErr (Forbidden reason msg)"

definition validateRefundRequest :: "int \<Rightarrow> int \<Rightarrow> PaymentOrder handler" where
  "validateRefundRequest oid uid =
     stmt (order_Get oid) (on_error (\<lambda>_. fail err_not_found) (\<lambda>o1.
       if po_UserID o1 \<noteq> uid then fail (AppErr (Forbidden ''FORBIDDEN'' ''no permission''))
       else if po_OrderType o1 \<noteq> OrderTypeBalance
       then fail (AppErr (BadRequest ''INVALID_ORDER_TYPE'' ''only balance orders can request refund''))
       else if po_Status o1 \<noteq> OrderStatusCompleted
       then fail (err_status ''only completed orders can request refund'')
       else bind (getOrderProviderInstance o1) (\<lambda>r.
         let refused = fail (err_refund_disabled ''USER_REFUND_DISABLED'' ''refund is not available for this order'')
         in case r of
              Inl _ \<Rightarrow> refused
            | Inr None \<Rightarrow> refused
            | Inr (Some inst) \<Rightarrow>
                if pi_AllowUserRefund inst then succeed o1
                else fail (err_refund_disabled ''USER_REFUND_DISABLED''
                       ''user refund is not enabled for this provider''))))"

definition may_request :: "int \<Rightarrow> int \<Rightarrow> PaymentOrder \<Rightarrow> bool" where
  "may_request oid uid x \<longleftrightarrow> po_ID x = oid \<and> po_UserID x = uid \<and> po_Status x = OrderStatusCompleted \<and>
     po_OrderType x = OrderTypeBalance"

definition RequestRefund :: "int \<Rightarrow> int \<Rightarrow> string \<Rightarrow> unit handler" where
  "RequestRefund oid uid reason =
     bind (validateRefundRequest oid uid) (on_error fail (\<lambda>o1.
       stmt (user_GetByID (po_UserID o1)) (on_error (wrap ''get user'') (\<lambda>u.
         if usr_Balance u < po_Amount o1
         then fail (AppErr (BadRequest ''BALANCE_NOT_ENOUGH'' ''refund amount exceeds balance''))
         else time_Now (\<lambda>now.
           stmt (order_Update (may_request oid uid) (\<lambda>x. x\<lparr>po_Status := OrderStatusRefundRequested,
                   po_RefundRequestedAt := Some now, po_RefundRequestReason := Some (TrimSpace reason),
                   po_RefundRequestedBy := Some (itoa uid), po_RefundAmount := po_Amount o1\<rparr>))
             (on_error (wrap ''update'') (\<lambda>c.
               if c = 0 then fail (AppErr (Conflict ''CONFLICT'' ''order status changed''))
               else writeAuditLog oid ''REFUND_REQUESTED'' (''user:'' @ itoa uid) (succeed ()))))))))"

section \<open>Preparing a refund\<close>

record RefundPlan =
  rp_OrderID :: int
  rp_Order :: PaymentOrder
  rp_RefundAmount :: rat
  rp_GatewayAmount :: rat
  rp_Reason :: string
  rp_Force :: bool
  rp_DeductBalance :: bool
  rp_DeductionType :: string
  rp_BalanceToDeduct :: rat
  rp_SubDaysToDeduct :: int
  rp_SubscriptionID :: int

record RefundResult =
  rr_Success :: bool
  rr_Warning :: string
  rr_RequireForce :: bool
  rr_BalanceDeducted :: rat
  rr_SubDaysDeducted :: int

definition needs_force :: "string \<Rightarrow> RefundResult" where
  "needs_force m = \<lparr>rr_Success = False, rr_Warning = m, rr_RequireForce = True, rr_BalanceDeducted = 0,
     rr_SubDaysDeducted = 0\<rparr>"

text \<open>The completed plan, or the answer that the deduction has to be forced.\<close>

definition prepDeduct :: "payment_env \<Rightarrow> PaymentOrder \<Rightarrow> RefundPlan \<Rightarrow> bool \<Rightarrow>
    (world, RefundResult + RefundPlan) prog" where
  "prepDeduct env o1 p force =
     (if po_OrderType o1 = OrderTypeSubscription then
        (let p1 = p\<lparr>rp_DeductionType := DeductionTypeSubscription\<rparr> in
         case (po_SubscriptionGroupID o1, po_SubscriptionDays o1) of
           (Some gid, Some days) \<Rightarrow>
             (let p2 = p1\<lparr>rp_SubDaysToDeduct := days\<rparr> in
              bind (GetActiveSubscription (pe_l1 env) (po_UserID o1) gid) (\<lambda>r. case r of
                  Inr sub \<Rightarrow> Return (Inr (p2\<lparr>rp_SubscriptionID := sub_ID sub\<rparr>))
                | Inl _ \<Rightarrow> if force then Return (Inr p2)
                    else Return (Inl (needs_force ''cannot find active subscription for deduction, use force''))))
         | _ \<Rightarrow> Return (Inr p1))
      else stmt (user_GetByID (po_UserID o1)) (\<lambda>r. case r of
          Inl _ \<Rightarrow> if force then Return (Inr p)
              else Return (Inl (needs_force ''cannot fetch user balance, use force''))
        | Inr u \<Rightarrow> Return (Inr (p\<lparr>rp_DeductionType := DeductionTypeBalance,
              rp_BalanceToDeduct := min (rp_RefundAmount p) (usr_Balance u)\<rparr>))))"

definition refundable_statuses :: "string list" where
  "refundable_statuses = [OrderStatusCompleted, OrderStatusRefundRequested, OrderStatusRefundFailed]"

definition refund_reason :: "PaymentOrder \<Rightarrow> string \<Rightarrow> string" where
  "refund_reason o1 reason =
     (let r = TrimSpace reason;
          r1 = (if r = [] then (case po_RefundRequestReason o1 of Some s \<Rightarrow> s | None \<Rightarrow> r) else r)
      in if r1 = [] then ''refund order:'' @ itoa (po_ID o1) else r1)"

definition PrepareRefund :: "payment_env \<Rightarrow> decimal_lib \<Rightarrow> int \<Rightarrow> go_float \<Rightarrow> string \<Rightarrow> bool \<Rightarrow> bool \<Rightarrow>
    (RefundResult + RefundPlan) handler" where
  "PrepareRefund env dl oid amt reason force deduct =
     stmt (order_Get oid) (on_error (\<lambda>_. fail err_not_found) (\<lambda>o1.
       if po_Status o1 \<notin> set refundable_statuses then fail (err_status ''order status does not allow refund'')
       else bind (getOrderProviderInstance o1) (on_error
         (\<lambda>_. fail (AppErr (InternalServer ''PROVIDER_LOOKUP_FAILED''
                 ''failed to look up payment provider for this order'')))
         (\<lambda>inst. case inst of
            None \<Rightarrow> fail (err_refund_disabled ''REFUND_DISABLED'' ''refund is not available for this order'')
          | Some i \<Rightarrow>
              if \<not> pi_RefundEnabled i
              then fail (err_refund_disabled ''REFUND_DISABLED'' ''refund is not enabled for this provider'')
              else (case amt of
                  Finite x \<Rightarrow>
                    (let a = (if x \<le> 0 then po_Amount o1 else x) in
                     if amountToleranceCNY < a - po_Amount o1
                     then fail (AppErr (BadRequest ''REFUND_AMOUNT_EXCEEDED'' ''refund amount exceeds recharge''))
                     else
                       (let p = \<lparr>rp_OrderID = oid, rp_Order = o1, rp_RefundAmount = a,
                              rp_GatewayAmount = calculateGatewayRefundAmount dl (po_Amount o1) (po_PayAmount o1) a,
                              rp_Reason = refund_reason o1 reason, rp_Force = force, rp_DeductBalance = deduct,
                              rp_DeductionType = DeductionTypeNone, rp_BalanceToDeduct = 0,
                              rp_SubDaysToDeduct = 0, rp_SubscriptionID = 0\<rparr>
                        in if deduct then bind (prepDeduct env o1 p force) succeed else succeed (Inr p)))
                | _ \<Rightarrow> fail (AppErr (BadRequest ''INVALID_AMOUNT'' ''invalid refund amount''))))))) "

section \<open>Executing a refund\<close>

text \<open>An update whose outcome is ignored.\<close>

definition set_status :: "int \<Rightarrow> (PaymentOrder \<Rightarrow> PaymentOrder) \<Rightarrow> (world, 'a) prog \<Rightarrow> (world, 'a) prog" where
  "set_status oid f k = stmt (order_UpdateOneID oid f) (\<lambda>_. k)"

definition restored_status :: "PaymentOrder \<Rightarrow> string" where
  "restored_status o1 = (if po_Status o1 = OrderStatusRefundRequested then OrderStatusRefundRequested
     else OrderStatusCompleted)"

definition restoreStatus :: "RefundPlan \<Rightarrow> (world, 'a) prog \<Rightarrow> (world, 'a) prog" where
  "restoreStatus p k =
     set_status (rp_OrderID p) (\<lambda>x. x\<lparr>po_Status := restored_status (rp_Order p)\<rparr>) k"

definition gwRefund :: "payment_env \<Rightarrow> RefundPlan \<Rightarrow> unit handler" where
  "gwRefund env p =
     (if po_PaymentTradeNo (rp_Order p) = []
      then writeAuditLog (po_ID (rp_Order p)) ''REFUND_NO_TRADE_NO'' ''admin'' (succeed ())
      else bind (getOrderProvider env (rp_Order p)) (on_error (wrap ''get refund provider'') (\<lambda>prov.
        time_Now (\<lambda>now.
          case pv_Refund prov now \<lparr>rq_TradeNo = po_PaymentTradeNo (rp_Order p),
                 rq_OrderID = po_OutTradeNo (rp_Order p), rq_Amount = rp_GatewayAmount p,
                 rq_Reason = rp_Reason p\<rparr> of
            Some e \<Rightarrow> fail e
          | None \<Rightarrow> succeed ()))))"

text \<open>Returning what was deducted; True when there is nothing left to return.\<close>

definition RollbackRefund :: "RefundPlan \<Rightarrow> (bool \<Rightarrow> (world, 'a) prog) \<Rightarrow> (world, 'a) prog" where
  "RollbackRefund p k =
     (let failed = writeAuditLog (rp_OrderID p) ''REFUND_ROLLBACK_FAILED'' ''admin'' (k False);
          days = (if rp_DeductionType p = DeductionTypeSubscription \<and> 0 < rp_SubDaysToDeduct p \<and> 0 < rp_SubscriptionID p
                  then bind (ExtendSubscription (rp_SubscriptionID p) (rp_SubDaysToDeduct p)) (\<lambda>r.
                         case r of Inl _ \<Rightarrow> failed | Inr _ \<Rightarrow> k True)
                  else k True)
      in if rp_DeductionType p = DeductionTypeBalance \<and> 0 < rp_BalanceToDeduct p
         then stmt (UpdateBalance (po_UserID (rp_Order p)) (rp_BalanceToDeduct p)) (\<lambda>r.
                case r of Inl _ \<Rightarrow> failed | Inr _ \<Rightarrow> days)
         else days)"

definition handleGwFail :: "payment_env \<Rightarrow> RefundPlan \<Rightarrow> go_error \<Rightarrow> RefundResult handler" where
  "handleGwFail env p gErr =
     RollbackRefund p (\<lambda>ok.
       if ok then restoreStatus p (writeAuditLog (rp_OrderID p) ''REFUND_GATEWAY_FAILED'' ''admin''
           (succeed \<lparr>rr_Success = False, rr_Warning = ''gateway failed: '' @ pe_errtext env gErr @ '', rolled back'',
              rr_RequireForce = False, rr_BalanceDeducted = 0, rr_SubDaysDeducted = 0\<rparr>))
       else time_Now (\<lambda>now.
         set_status (rp_OrderID p) (\<lambda>x. x\<lparr>po_Status := OrderStatusRefundFailed, po_FailedAt := Some now,
             po_FailedReason := Some (pe_errtext env gErr)\<rparr>)
           (writeAuditLog (rp_OrderID p) ''REFUND_FAILED'' ''admin''
             (fail (AppErr (InternalServer ''REFUND_FAILED'' (pe_errtext env gErr)))))))"

definition markRefundOk :: "RefundPlan \<Rightarrow> RefundResult handler" where
  "markRefundOk p =
     time_Now (\<lambda>now.
       stmt (order_UpdateOneID (rp_OrderID p) (\<lambda>x. x\<lparr>
               po_Status := (if rp_RefundAmount p < po_Amount (rp_Order p) then OrderStatusPartiallyRefunded
                             else OrderStatusRefunded),
               po_RefundAmount := rp_RefundAmount p, po_RefundReason := Some (rp_Reason p),
               po_RefundAt := Some now, po_ForceRefund := rp_Force p\<rparr>))
         (on_error (wrap ''mark refund'') (\<lambda>_.
           writeAuditLog (rp_OrderID p) ''REFUND_SUCCESS'' ''admin''
             (succeed \<lparr>rr_Success = True, rr_Warning = [], rr_RequireForce = False,
                rr_BalanceDeducted = rp_BalanceToDeduct p, rr_SubDaysDeducted = rp_SubDaysToDeduct p\<rparr>))))"

text \<open>
  The deduction, skipped when an earlier attempt has deducted and could not return it. The result
  is the plan with what this attempt has really taken.
\<close>

definition deduct_balance :: "RefundPlan \<Rightarrow> RefundPlan handler" where
  "deduct_balance p =
     (if rp_DeductionType p = DeductionTypeBalance \<and> 0 < rp_BalanceToDeduct p
      then hasAuditLog (rp_OrderID p) ''REFUND_ROLLBACK_FAILED'' (\<lambda>done.
        if done then succeed (p\<lparr>rp_BalanceToDeduct := 0\<rparr>)
        else stmt (DeductBalance (po_UserID (rp_Order p)) (rp_BalanceToDeduct p)) (on_error
          (\<lambda>e. restoreStatus p (wrap ''deduction'' e)) (\<lambda>_. succeed p)))
      else succeed p)"

definition deduct_days :: "RefundPlan \<Rightarrow> RefundPlan handler" where
  "deduct_days p =
     (if rp_DeductionType p = DeductionTypeSubscription \<and> 0 < rp_SubDaysToDeduct p \<and> 0 < rp_SubscriptionID p
      then hasAuditLog (rp_OrderID p) ''REFUND_ROLLBACK_FAILED'' (\<lambda>done.
        if done then succeed (p\<lparr>rp_SubDaysToDeduct := 0\<rparr>)
        else bind (ExtendSubscription (rp_SubscriptionID p) (- rp_SubDaysToDeduct p)) (on_error
          (\<lambda>e. if app_Is ErrAdjustWouldExpire e
                then bind (RevokeSubscription (rp_SubscriptionID p)) (on_error
                       (\<lambda>e1. restoreStatus p (wrap ''revoke subscription'' e1)) (\<lambda>_. succeed p))
                else restoreStatus p (wrap ''deduct subscription days'' e))
          (\<lambda>_. succeed p)))
      else succeed p)"

definition ExecuteRefund :: "payment_env \<Rightarrow> RefundPlan \<Rightarrow> RefundResult handler" where
  "ExecuteRefund env p =
     stmt (order_Update (has_status (rp_OrderID p) refundable_statuses)
             (\<lambda>x. x\<lparr>po_Status := OrderStatusRefunding\<rparr>))
       (on_error (wrap ''lock'') (\<lambda>c.
         if c = 0 then fail (AppErr (Conflict ''CONFLICT'' ''order status changed''))
         else bind (deduct_balance p) (on_error fail (\<lambda>p1.
           bind (deduct_days p1) (on_error fail (\<lambda>p2.
             bind (gwRefund env p2) (\<lambda>g. case g of
                 Inl e \<Rightarrow> handleGwFail env p2 e
               | Inr _ \<Rightarrow> markRefundOk p2)))))))"

end
