(* ===== verification/PaymentCreate.thy ===== *)
theory PaymentCreate
  imports PaymentRefund
begin

text \<open>
  Payments, part two: creating an order (\<open>backend/internal/service/payment_order.go\<close>, the cancel rate
  limit of \<open>payment_order_lifecycle.go\<close>, \<open>payment_config_plans.go\<close>, helpers of \<open>payment_service.go\<close>).

  A request is checked against the configuration, the plan, the user and the user's other orders; an
  order is inserted as PENDING, and a provider is asked for a payment page. The configuration, the
  plans and random strings are arguments. The transaction of the insert does not lock the orders
  that its limits were checked against (READ COMMITTED), so the checks are statements before it.
\<close>

section \<open>Helpers\<close>

definition defaultMaxPendingOrders :: int where "defaultMaxPendingOrders = 3"
definition defaultOrderTimeoutMin :: int where "defaultOrderTimeoutMin = 30"
definition defaultPageSize :: int where "defaultPageSize = 20"
definition maxPageSize :: int where "maxPageSize = 100"

definition psComputeValidityDays :: "int \<Rightarrow> string \<Rightarrow> int" where
  "psComputeValidityDays days unit =
     (if unit = ''week'' then days * 7 else if unit = ''month'' then days * 30 else days)"

definition psStartOfDayUTC :: "gotime \<Rightarrow> gotime" where
  "psStartOfDayUTC t = t - t mod time_Day"

definition applyPagination :: "int \<Rightarrow> int \<Rightarrow> int \<times> int" where
  "applyPagination pageSize page =
     (let size = (if pageSize \<le> 0 then defaultPageSize else pageSize)
      in (if maxPageSize < size then maxPageSize else size, if page < 1 then 1 else page))"

definition psNilIfEmpty :: "string \<Rightarrow> string option" where
  "psNilIfEmpty s = (if s = [] then None else Some s)"

section \<open>Configuration, plans and requests\<close>

record PaymentConfig =
  pc_Enabled :: bool
  pc_MinAmount :: rat
  pc_MaxAmount :: rat
  pc_DailyLimit :: rat
  pc_OrderTimeoutMin :: int
  pc_MaxPendingOrders :: int
  pc_BalanceDisabled :: bool
  pc_BalanceRechargeMultiplier :: go_float
  pc_RechargeFeeRate :: rat
  pc_LoadBalanceStrategy :: string
  pc_ProductNamePrefix :: string
  pc_ProductNameSuffix :: string
  pc_CancelRateLimitEnabled :: bool
  pc_CancelRateLimitMax :: int
  pc_CancelRateLimitWindow :: int
  pc_CancelRateLimitUnit :: string
  pc_CancelRateLimitMode :: string

record SubscriptionPlan =
  sn_ID :: int
  sn_GroupID :: int
  sn_Name :: string
  sn_Price :: rat
  sn_ValidityDays :: int
  sn_ValidityUnit :: string
  sn_ProductName :: string
  sn_ForSale :: bool

record CreateOrderRequest =
  cr_UserID :: int
  cr_Amount :: go_float
  cr_PaymentType :: string
  cr_OrderType :: string
  cr_PlanID :: int

record CreateOrderResponse =
  co_OrderID :: int
  co_Amount :: rat
  co_PayAmount :: rat
  co_FeeRate :: rat
  co_Status :: string
  co_PayURL :: string
  co_QRCode :: string
  co_ExpiresAt :: gotime
  co_PaymentMode :: string

text \<open>
  The arguments of creation: \<open>GetPaymentConfig\<close> and the plans at a time, the limits decoder, the
  offset of the local time zone, \<open>generateOutTradeNo\<close>, and how amounts are printed.
\<close>

record create_env =
  ce_config :: "gotime \<Rightarrow> go_error + PaymentConfig"
  ce_plans :: "gotime \<Rightarrow> int \<Rightarrow> go_error + SubscriptionPlan"
  ce_limits :: limits_json
  ce_loc :: duration
  ce_outTradeNo :: "gotime \<Rightarrow> string"
  ce_show2 :: "rat \<Rightarrow> string"

text \<open>\<open>validatePlanRequired\<close>: what an administrator may offer for sale.\<close>

definition validatePlanRequired :: "string \<Rightarrow> int \<Rightarrow> rat \<Rightarrow> int \<Rightarrow> string \<Rightarrow> rat option \<Rightarrow> go_error option" where
  "validatePlanRequired name groupID price days unit originalPrice =
     (if TrimSpace name = [] then Some (AppErr (BadRequest ''PLAN_NAME_REQUIRED'' ''plan name is required''))
      else if groupID \<le> 0 then Some (AppErr (BadRequest ''PLAN_GROUP_REQUIRED'' ''group is required''))
      else if price \<le> 0 then Some (AppErr (BadRequest ''PLAN_PRICE_INVALID'' ''price must be > 0''))
      else if days \<le> 0
      then Some (AppErr (BadRequest ''PLAN_VALIDITY_REQUIRED'' ''validity days must be > 0''))
      else if TrimSpace unit = []
      then Some (AppErr (BadRequest ''PLAN_VALIDITY_UNIT_REQUIRED'' ''validity unit is required''))
      else (case originalPrice of
          Some x \<Rightarrow> if x < 0
            then Some (AppErr (BadRequest ''PLAN_ORIGINAL_PRICE_INVALID'' ''original price must be >= 0''))
            else None
        | None \<Rightarrow> None))"

section \<open>Checks\<close>

definition GetPlan :: "create_env \<Rightarrow> int \<Rightarrow> SubscriptionPlan handler" where
  "GetPlan ce i = time_Now (\<lambda>now. case ce_plans ce now i of
       Inl _ \<Rightarrow> fail (AppErr (NotFound ''PLAN_NOT_FOUND'' ''subscription plan not found''))
     | Inr p \<Rightarrow> succeed p)"

definition validateSubOrder :: "create_env \<Rightarrow> CreateOrderRequest \<Rightarrow> SubscriptionPlan handler" where
  "validateSubOrder ce req =
     (if cr_PlanID req = 0
      then fail (AppErr (BadRequest ''INVALID_INPUT'' ''subscription order requires a plan''))
      else bind (GetPlan ce (cr_PlanID req)) (\<lambda>r.
        let na = fail (AppErr (NotFound ''PLAN_NOT_AVAILABLE'' ''plan not found or not for sale'')) in
        case r of
          Inl _ \<Rightarrow> na
        | Inr plan \<Rightarrow>
            if \<not> sn_ForSale plan then na
            else stmt (group_GetByID (sn_GroupID plan)) (\<lambda>g.
              let gone = fail (AppErr (NotFound ''GROUP_NOT_FOUND''
                     ''subscription group is no longer available'')) in
              case g of
                Inl _ \<Rightarrow> gone
              | Inr grp \<Rightarrow>
                  if grp_Status grp \<noteq> EntityStatusActive then gone
                  else if \<not> IsSubscriptionType grp
                  then fail (AppErr (BadRequest ''GROUP_TYPE_MISMATCH'' ''group is not a subscription type''))
                  else succeed plan)))"

definition validateOrderInput :: "create_env \<Rightarrow> PaymentConfig \<Rightarrow> CreateOrderRequest \<Rightarrow>
    SubscriptionPlan option handler" where
  "validateOrderInput ce cfg req =
     (if cr_OrderType req = OrderTypeBalance \<and> pc_BalanceDisabled cfg
      then fail (AppErr (Forbidden ''BALANCE_PAYMENT_DISABLED'' ''balance recharge has been disabled''))
      else if cr_OrderType req = OrderTypeSubscription
      then bind (validateSubOrder ce req) (on_error fail (\<lambda>p. succeed (Some p)))
      else
        (let bad = fail (AppErr (BadRequest ''INVALID_AMOUNT'' ''amount must be a positive number'')) in
         case cr_Amount req of
           Finite x \<Rightarrow>
             if x \<le> 0 then bad
             else if 0 < pc_MinAmount cfg \<and> x < pc_MinAmount cfg \<or> 0 < pc_MaxAmount cfg \<and> pc_MaxAmount cfg < x
             then fail (AppErr (WithMetadata (BadRequest ''INVALID_AMOUNT'' ''amount out of range'')
                    (Some [''min'' \<mapsto> ce_show2 ce (pc_MinAmount cfg), ''max'' \<mapsto> ce_show2 ce (pc_MaxAmount cfg)])))
             else succeed None
         | _ \<Rightarrow> bad))"

text \<open>\<open>Truncate\<close> counts from the year one, whose first minute and hour are those of the epoch.\<close>

definition cancelRateLimitWindowStart :: "duration \<Rightarrow> PaymentConfig \<Rightarrow> gotime \<Rightarrow> gotime" where
  "cancelRateLimitWindowStart loc cfg now =
     (let w = (if pc_CancelRateLimitWindow cfg \<le> 0 then 1 else pc_CancelRateLimitWindow cfg);
          unit = (if pc_CancelRateLimitUnit cfg = [] then ''day'' else pc_CancelRateLimitUnit cfg)
      in if pc_CancelRateLimitMode cfg = ''fixed'' then
           (if unit = ''minute'' then now - now mod time_Minute - (w - 1) * time_Minute
            else if unit = ''day'' then AddDays (start_of_day loc now) (- (w - 1))
            else now - now mod time_Hour - (w - 1) * time_Hour)
         else if unit = ''minute'' then now - w * time_Minute
         else if unit = ''day'' then AddDays now (- w)
         else now - w * time_Hour)"

definition count_cancelled :: "string \<Rightarrow> gotime \<Rightarrow> nat query" where
  "count_cancelled op since now db = (Inr (matches (\<lambda>a. al_Action a = ''ORDER_CANCELLED'' \<and>
     al_Operator a = op \<and> since \<le> al_CreatedAt a) (db_audit db)), db)"

definition checkCancelRateLimit :: "create_env \<Rightarrow> int \<Rightarrow> PaymentConfig \<Rightarrow> unit handler" where
  "checkCancelRateLimit ce uid cfg =
     (if \<not> pc_CancelRateLimitEnabled cfg \<or> pc_CancelRateLimitMax cfg \<le> 0 then succeed ()
      else time_Now (\<lambda>now.
        stmt (count_cancelled (''user:'' @ itoa uid) (cancelRateLimitWindowStart (ce_loc ce) cfg now)) (\<lambda>r.
          case r of
            Inl _ \<Rightarrow> succeed ()
          | Inr n \<Rightarrow>
              if pc_CancelRateLimitMax cfg \<le> int n
              then fail (AppErr (WithMetadata (TooManyRequests ''CANCEL_RATE_LIMITED'' ''cancel rate limited'')
                     (Some [''max'' \<mapsto> itoa (pc_CancelRateLimitMax cfg),
                            ''window'' \<mapsto> itoa (pc_CancelRateLimitWindow cfg),
                            ''unit'' \<mapsto> pc_CancelRateLimitUnit cfg])))
              else succeed ())))"

definition count_pending :: "int \<Rightarrow> nat query" where
  "count_pending uid now db = (Inr (matches (\<lambda>x. po_UserID x = uid \<and> po_Status x = OrderStatusPending)
     (db_orders db)), db)"

definition checkPendingLimit :: "int \<Rightarrow> int \<Rightarrow> unit handler" where
  "checkPendingLimit uid maxp =
     (let m = (if maxp \<le> 0 then defaultMaxPendingOrders else maxp) in
      stmt (count_pending uid) (on_error (wrap ''count pending orders'') (\<lambda>c.
        if m \<le> int c
        then fail (AppErr (WithMetadata (TooManyRequests ''TOO_MANY_PENDING''
               (''too many pending orders (max '' @ itoa m @ '')'')) (Some [''max'' \<mapsto> itoa m])))
        else succeed ())))"

definition paid_since :: "int \<Rightarrow> gotime \<Rightarrow> PaymentOrder list query" where
  "paid_since uid ts now db = (Inr (filter (\<lambda>x. po_UserID x = uid \<and>
     po_Status x \<in> {OrderStatusPaid, OrderStatusRecharging, OrderStatusCompleted} \<and>
     (case po_PaidAt x of Some t \<Rightarrow> ts \<le> t | None \<Rightarrow> False)) (db_orders db)), db)"

definition used_today :: "PaymentOrder list \<Rightarrow> rat" where
  "used_today orders = sum_list (map (\<lambda>x. if po_OrderType x = OrderTypeBalance then po_PayAmount x
     else po_Amount x) orders)"

definition checkDailyLimit :: "create_env \<Rightarrow> int \<Rightarrow> rat \<Rightarrow> rat \<Rightarrow> unit handler" where
  "checkDailyLimit ce uid amount limit =
     (if limit \<le> 0 then succeed ()
      else time_Now (\<lambda>now.
        stmt (paid_since uid (psStartOfDayUTC now)) (on_error (wrap ''query daily usage'') (\<lambda>orders.
          if limit < used_today orders + amount
          then fail (AppErr (TooManyRequests ''DAILY_LIMIT_EXCEEDED''
                 (''daily recharge limit reached, remaining: '' @ ce_show2 ce (max 0 (limit - used_today orders)))))
          else succeed ()))))"

section \<open>Creating the order\<close>

definition order_Create :: "PaymentOrder \<Rightarrow> PaymentOrder query" where
  "order_Create x now db =
     (let row = x\<lparr>po_ID := fresh_id (map po_ID (db_orders db)), po_CreatedAt := now, po_UpdatedAt := now\<rparr>
      in (Inr row, db\<lparr>db_orders := db_orders db @ [row]\<rparr>))"

definition recharge_code :: "int \<Rightarrow> gotime \<Rightarrow> string" where
  "recharge_code oid now = ''PAY-'' @ itoa oid @ ''-'' @ itoa (now mod 100000)"

definition new_order :: "CreateOrderRequest \<Rightarrow> SubscriptionPlan option \<Rightarrow> rat \<Rightarrow> rat \<Rightarrow> rat \<Rightarrow> string \<Rightarrow>
    gotime \<Rightarrow> PaymentOrder" where
  "new_order req plan orderAmount payAmount feeRate outTradeNo expires =
     \<lparr>po_ID = 0, po_UserID = cr_UserID req, po_Amount = orderAmount, po_PayAmount = payAmount,
      po_FeeRate = feeRate, po_RechargeCode = [], po_OutTradeNo = outTradeNo,
      po_PaymentType = cr_PaymentType req, po_PaymentTradeNo = [], po_OrderType = cr_OrderType req,
      po_PlanID = map_option sn_ID plan, po_SubscriptionGroupID = map_option sn_GroupID plan,
      po_SubscriptionDays = map_option (\<lambda>p. psComputeValidityDays (sn_ValidityDays p) (sn_ValidityUnit p)) plan,
      po_ProviderInstanceID = None, po_Status = OrderStatusPending, po_RefundAmount = 0,
      po_RefundReason = None, po_RefundAt = None, po_ForceRefund = False, po_RefundRequestedAt = None,
      po_RefundRequestReason = None, po_RefundRequestedBy = None, po_ExpiresAt = expires,
      po_PaidAt = None, po_CompletedAt = None, po_FailedAt = None, po_FailedReason = None,
      po_CreatedAt = 0, po_UpdatedAt = 0\<rparr>"

definition insert_order :: "PaymentOrder \<Rightarrow> PaymentOrder handler" where
  "insert_order x =
     stmt (order_Create x) (on_error (wrap ''create order'') (\<lambda>row.
       time_Now (\<lambda>now.
         stmt (order_UpdateOneID (po_ID row) (\<lambda>y. y\<lparr>po_RechargeCode := recharge_code (po_ID row) now\<rparr>))
           (on_error (wrap ''set recharge code'') (\<lambda>_.
             succeed (row\<lparr>po_RechargeCode := recharge_code (po_ID row) now, po_UpdatedAt := now\<rparr>))))))"

definition createOrderInTx :: "create_env \<Rightarrow> CreateOrderRequest \<Rightarrow> SubscriptionPlan option \<Rightarrow> PaymentConfig \<Rightarrow>
    rat \<Rightarrow> rat \<Rightarrow> rat \<Rightarrow> rat \<Rightarrow> PaymentOrder handler" where
  "createOrderInTx ce req plan cfg orderAmount limitAmount feeRate payAmount =
     bind (checkPendingLimit (cr_UserID req) (pc_MaxPendingOrders cfg)) (on_error fail (\<lambda>_.
       bind (checkDailyLimit ce (cr_UserID req) limitAmount (pc_DailyLimit cfg)) (on_error fail (\<lambda>_.
         time_Now (\<lambda>now.
           let tm = (if pc_OrderTimeoutMin cfg \<le> 0 then defaultOrderTimeoutMin else pc_OrderTimeoutMin cfg) in
           atomically (transaction (insert_order (new_order req plan orderAmount payAmount feeRate
               (ce_outTradeNo ce now) (now + tm * time_Minute)))) Return)))))"

section \<open>Asking the provider\<close>

definition buildPaymentSubject :: "create_env \<Rightarrow> SubscriptionPlan option \<Rightarrow> rat \<Rightarrow> PaymentConfig \<Rightarrow> string" where
  "buildPaymentSubject ce plan limitAmount cfg =
     (case plan of
        Some p \<Rightarrow> if sn_ProductName p \<noteq> [] then sn_ProductName p else ''Sub2API Subscription '' @ sn_Name p
      | None \<Rightarrow>
          (let amount = ce_show2 ce limitAmount; pf = TrimSpace (pc_ProductNamePrefix cfg);
               sf = TrimSpace (pc_ProductNameSuffix cfg)
           in if pf \<noteq> [] \<or> sf \<noteq> [] then TrimSpace (pf @ '' '' @ amount @ '' '' @ sf)
              else ''Sub2API '' @ amount @ '' CNY''))"

definition gateway_error :: "string \<Rightarrow> go_error" where
  "gateway_error m = AppErr (ServiceUnavailable ''PAYMENT_GATEWAY_ERROR'' m)"

text \<open>A nil string leaves the column as it is.\<close>

definition payment_details :: "CreatePaymentResponse \<Rightarrow> string \<Rightarrow> PaymentOrder \<Rightarrow> PaymentOrder" where
  "payment_details pr inst x = x\<lparr>
     po_PaymentTradeNo := (case psNilIfEmpty (cp_TradeNo pr) of Some t \<Rightarrow> t | None \<Rightarrow> po_PaymentTradeNo x),
     po_ProviderInstanceID := (case psNilIfEmpty inst of Some i \<Rightarrow> Some i | None \<Rightarrow> po_ProviderInstanceID x)\<rparr>"

definition invokeProvider :: "payment_env \<Rightarrow> create_env \<Rightarrow> PaymentOrder \<Rightarrow> CreateOrderRequest \<Rightarrow> PaymentConfig \<Rightarrow>
    rat \<Rightarrow> rat \<Rightarrow> SubscriptionPlan option \<Rightarrow> CreateOrderResponse handler" where
  "invokeProvider env ce o1 req cfg limitAmount payAmount plan =
     bind (SelectInstance (ce_limits ce) (pe_decrypt env) (ce_loc ce) [] (cr_PaymentType req)
             (pc_LoadBalanceStrategy cfg) payAmount)
       (on_error (\<lambda>_. fail (gateway_error (''payment method ('' @ cr_PaymentType req @ '') is not configured''))) (\<lambda>sel.
         case pe_create env (is_ProviderKey sel) (is_InstanceID sel) (is_Config sel) of
           Inl _ \<Rightarrow> fail (gateway_error ''payment method is temporarily unavailable'')
         | Inr prov \<Rightarrow>
             time_Now (\<lambda>now.
               case pv_CreatePayment prov now \<lparr>cq_OrderID = po_OutTradeNo o1, cq_Amount = payAmount,
                      cq_PaymentType = cr_PaymentType req, cq_Subject = buildPaymentSubject ce plan limitAmount cfg,
                      cq_InstanceSubMethods = is_SupportedTypes sel\<rparr> of
                 Inl e \<Rightarrow> fail (gateway_error (''payment gateway error: '' @ pe_errtext env e))
               | Inr pr \<Rightarrow>
                   stmt (order_UpdateOneID (po_ID o1) (payment_details pr (is_InstanceID sel)))
                     (on_error (wrap ''update order with payment details'') (\<lambda>_.
                       writeAuditLog (po_ID o1) ''ORDER_CREATED'' (''user:'' @ itoa (cr_UserID req))
                         (succeed \<lparr>co_OrderID = po_ID o1, co_Amount = po_Amount o1, co_PayAmount = payAmount,
                            co_FeeRate = po_FeeRate o1, co_Status = OrderStatusPending, co_PayURL = cp_PayURL pr,
                            co_QRCode = cp_QRCode pr, co_ExpiresAt = po_ExpiresAt o1,
                            co_PaymentMode = is_PaymentMode sel\<rparr>))))))"

text \<open>\<open>Finite\<close> is the only amount that passes the checks when it is used.\<close>

definition finite_amount :: "go_float \<Rightarrow> rat" where
  "finite_amount x = (case x of Finite r \<Rightarrow> r | _ \<Rightarrow> 0)"

definition CreateOrder :: "payment_env \<Rightarrow> create_env \<Rightarrow> decimal_lib \<Rightarrow> CreateOrderRequest \<Rightarrow>
    CreateOrderResponse handler" where
  "CreateOrder env ce dl req0 =
     (let req = (if cr_OrderType req0 = [] then req0\<lparr>cr_OrderType := OrderTypeBalance\<rparr> else req0) in
      time_Now (\<lambda>t. case ce_config ce t of
          Inl e \<Rightarrow> wrap ''get payment config'' e
        | Inr cfg \<Rightarrow>
            if \<not> pc_Enabled cfg then fail (AppErr (Forbidden ''PAYMENT_DISABLED'' ''payment system is disabled''))
            else bind (validateOrderInput ce cfg req) (on_error fail (\<lambda>plan.
              bind (checkCancelRateLimit ce (cr_UserID req) cfg) (on_error fail (\<lambda>_.
                stmt (user_GetByID (cr_UserID req)) (on_error (wrap ''get user'') (\<lambda>user.
                  if usr_Status user \<noteq> EntityStatusActive
                  then fail (AppErr (Forbidden ''USER_INACTIVE'' ''user account is disabled''))
                  else
                    (let limitAmount = (case plan of Some p \<Rightarrow> sn_Price p | None \<Rightarrow> finite_amount (cr_Amount req));
                         orderAmount = (case plan of Some p \<Rightarrow> sn_Price p
                           | None \<Rightarrow> if cr_OrderType req = OrderTypeBalance
                               then calculateCreditedBalance dl (finite_amount (cr_Amount req))
                                      (pc_BalanceRechargeMultiplier cfg)
                               else finite_amount (cr_Amount req));
                         payAmount = CalculatePayAmount dl limitAmount (pc_RechargeFeeRate cfg)
                     in bind (createOrderInTx ce req plan cfg orderAmount limitAmount (pc_RechargeFeeRate cfg) payAmount)
                          (on_error fail (\<lambda>o1.
                            bind (invokeProvider env ce o1 req cfg limitAmount payAmount plan) (on_error
                              (\<lambda>e. set_status (po_ID o1) (\<lambda>x. x\<lparr>po_Status := OrderStatusFailed\<rparr>) (fail e))
                              succeed))))))))))))"

section \<open>Queries\<close>

definition GetOrder :: "int \<Rightarrow> int \<Rightarrow> PaymentOrder handler" where
  "GetOrder oid uid =
     stmt (order_Get oid) (on_error (\<lambda>_. fail err_not_found) (\<lambda>o1.
       if po_UserID o1 \<noteq> uid then fail (AppErr (Forbidden ''FORBIDDEN'' ''no permission for this order''))
       else succeed o1))"

definition GetOrderByID :: "int \<Rightarrow> PaymentOrder handler" where
  "GetOrderByID oid = stmt (order_Get oid) (on_error (\<lambda>_. fail err_not_found) succeed)"

record OrderListParams =
  lp_Page :: int
  lp_PageSize :: int
  lp_Status :: string
  lp_OrderType :: string
  lp_PaymentType :: string

definition listed :: "int \<Rightarrow> OrderListParams \<Rightarrow> PaymentOrder \<Rightarrow> bool" where
  "listed uid p x \<longleftrightarrow> po_UserID x = uid \<and> (lp_Status p \<noteq> [] \<longrightarrow> po_Status x = lp_Status p) \<and>
     (lp_OrderType p \<noteq> [] \<longrightarrow> po_OrderType x = lp_OrderType p) \<and>
     (lp_PaymentType p \<noteq> [] \<longrightarrow> po_PaymentType x = lp_PaymentType p)"

definition count_listed :: "int \<Rightarrow> OrderListParams \<Rightarrow> nat query" where
  "count_listed uid p now db = (Inr (matches (listed uid p) (db_orders db)), db)"

definition page_listed :: "int \<Rightarrow> OrderListParams \<Rightarrow> PaymentOrder list query" where
  "page_listed uid p now db =
     (let (ps, pg) = applyPagination (lp_PageSize p) (lp_Page p);
          rows = sort_key (\<lambda>x. - po_CreatedAt x) (filter (listed uid p) (db_orders db))
      in (Inr (take (nat ps) (drop (nat ((pg - 1) * ps)) rows)), db))"

definition GetUserOrders :: "int \<Rightarrow> OrderListParams \<Rightarrow> (PaymentOrder list \<times> nat) handler" where
  "GetUserOrders uid p =
     stmt (count_listed uid p) (on_error (wrap ''count user orders'') (\<lambda>total.
       stmt (page_listed uid p) (on_error (wrap ''query user orders'') (\<lambda>orders. succeed (orders, total)))))"

end
