(* ===== verification/PaymentProps.thy ===== *)
theory PaymentProps
  imports PaymentCreate RedeemProps
begin

text \<open>
  What the payment handlers guarantee together, in any interleaving and with any faults: no balance
  is credited without a code being used for it, an order that is completed has had its code used,
  what was agreed in an order stays as it is, and its status follows the life cycle. All of it is
  one relation on the tables, maintained by every statement of every handler.
\<close>

section \<open>The relation\<close>

text \<open>
  The life of an order. The call that creates an order sets it to FAILED when its provider fails, whatever
  the status has become in the meantime; so this is part of the life of new orders only. The relation
  is therefore about a set of orders, those that are there at the beginning.
\<close>

definition order_edges :: "(string \<times> string) set" where
  "order_edges = {(OrderStatusPending, OrderStatusPaid), (OrderStatusCancelled, OrderStatusPaid),
     (OrderStatusExpired, OrderStatusPaid), (OrderStatusPending, OrderStatusCancelled),
     (OrderStatusPending, OrderStatusExpired), (OrderStatusPaid, OrderStatusRecharging),
     (OrderStatusFailed, OrderStatusRecharging), (OrderStatusFailed, OrderStatusPaid),
     (OrderStatusRecharging, OrderStatusCompleted), (OrderStatusRecharging, OrderStatusFailed),
     (OrderStatusCompleted, OrderStatusRefundRequested)}"

definition edges_of :: "int set \<Rightarrow> int \<Rightarrow> (string \<times> string) set" where
  "edges_of I i = (if i \<in> I then order_edges else order_edges \<union> UNIV \<times> {OrderStatusFailed})"

definition order_evolves :: "int set \<Rightarrow> PaymentOrder \<Rightarrow> PaymentOrder \<Rightarrow> bool" where
  "order_evolves I x y \<longleftrightarrow> po_ID y = po_ID x \<and> po_UserID y = po_UserID x \<and> po_Amount y = po_Amount x \<and>
     po_OrderType y = po_OrderType x \<and>
     (po_RechargeCode x = [] \<or> po_RechargeCode y = po_RechargeCode x) \<and>
     (po_Status x, po_Status y) \<in> (edges_of I (po_ID x))\<^sup>*"

definition code_evolves :: "RedeemCode \<Rightarrow> RedeemCode \<Rightarrow> bool" where
  "code_evolves c d \<longleftrightarrow> rc_ID d = rc_ID c \<and> rc_Code d = rc_Code c \<and> rc_Type d = rc_Type c \<and>
     rc_Value d = rc_Value c \<and> (IsUsed c \<longrightarrow> d = c)"

definition code_used :: "string \<Rightarrow> business_db \<Rightarrow> bool" where
  "code_used code db \<longleftrightarrow> (\<exists>c \<in> set (db_codes db). rc_Code c = code \<and> IsUsed c)"

definition credited_status :: "string \<Rightarrow> bool" where
  "credited_status st \<longleftrightarrow> st = OrderStatusCompleted \<or> st = OrderStatusRefundRequested"

text \<open>An order that is settled has had its code used, unless it bought a subscription.\<close>

definition settled :: "business_db \<Rightarrow> PaymentOrder \<Rightarrow> bool" where
  "settled db x \<longleftrightarrow> (credited_status (po_Status x) \<and> po_OrderType x \<noteq> OrderTypeSubscription \<longrightarrow>
     code_used (po_RechargeCode x) db)"

definition payments_wf :: "business_db \<Rightarrow> bool" where
  "payments_wf db \<longleftrightarrow> distinct (map rc_ID (db_codes db)) \<and> distinct (map rc_Code (db_codes db)) \<and>
     distinct (map usr_ID (db_users db)) \<and> distinct (map po_ID (db_orders db)) \<and>
     (\<forall>c \<in> set (db_codes db). rc_Code c \<noteq> [] \<and> (rc_Type c = RedeemTypeBalance \<longrightarrow> 0 \<le> rc_Value c)) \<and>
     (\<forall>x \<in> set (db_orders db). 0 \<le> po_Amount x \<and> settled db x)"

text \<open>What a user has, less what was granted by the codes the user has used.\<close>

definition balance_of :: "int \<Rightarrow> User list \<Rightarrow> rat" where
  "balance_of u users = sum_list (map usr_Balance (filter (\<lambda>x. usr_ID x = u) users))"

definition redeemed_by :: "int \<Rightarrow> RedeemCode list \<Rightarrow> rat" where
  "redeemed_by u codes = sum_list (map (\<lambda>c. if IsUsed c \<and> rc_UsedBy c = Some u \<and> rc_Type c = RedeemTypeBalance
     then rc_Value c else 0) codes)"

definition own_balance :: "int \<Rightarrow> business_db \<Rightarrow> rat" where
  "own_balance u db = balance_of u (db_users db) - redeemed_by u (db_codes db)"

definition orders_kept :: "int set \<Rightarrow> business_db \<Rightarrow> business_db \<Rightarrow> bool" where
  "orders_kept I db db1 \<longleftrightarrow> (\<forall>x \<in> set (db_orders db). \<exists>y \<in> set (db_orders db1). order_evolves I x y)"

definition codes_kept :: "business_db \<Rightarrow> business_db \<Rightarrow> bool" where
  "codes_kept db db1 \<longleftrightarrow> (\<forall>c \<in> set (db_codes db). \<exists>d \<in> set (db_codes db1). code_evolves c d)"

definition payments_move :: "int set \<Rightarrow> business_db \<Rightarrow> business_db \<Rightarrow> bool" where
  "payments_move I db db1 \<longleftrightarrow> (payments_wf db \<longrightarrow> payments_wf db1 \<and> orders_kept I db db1 \<and> codes_kept db db1 \<and>
     (\<forall>u. own_balance u db1 = own_balance u db))"

lemma order_evolves_refl [simp]: "order_evolves I x x"
  by (simp add: order_evolves_def)

lemma order_evolves_trans: "order_evolves I x y \<Longrightarrow> order_evolves I y z \<Longrightarrow> order_evolves I x z"
  unfolding order_evolves_def by auto

lemma code_evolves_refl [simp]: "code_evolves c c"
  by (simp add: code_evolves_def)

lemma code_evolves_trans: "code_evolves c d \<Longrightarrow> code_evolves d e \<Longrightarrow> code_evolves c e"
  unfolding code_evolves_def by auto

lemma kept_rows:
  "set (db_orders db) \<subseteq> set (db_orders db1) \<Longrightarrow> orders_kept I db db1"
  "set (db_codes db) \<subseteq> set (db_codes db1) \<Longrightarrow> codes_kept db db1"
  unfolding orders_kept_def codes_kept_def by (metis subsetD order_evolves_refl, metis subsetD code_evolves_refl)

lemma payments_move_refl [simp]: "payments_move I db db"
  unfolding payments_move_def orders_kept_def codes_kept_def
  using order_evolves_refl code_evolves_refl by blast

lemma kept_trans:
  "orders_kept I a b \<Longrightarrow> orders_kept I b c \<Longrightarrow> orders_kept I a c"
  "codes_kept a b \<Longrightarrow> codes_kept b c \<Longrightarrow> codes_kept a c"
  unfolding orders_kept_def codes_kept_def by (meson order_evolves_trans, meson code_evolves_trans)

lemma payments_move_trans: "payments_move I a b \<Longrightarrow> payments_move I b c \<Longrightarrow> payments_move I a c"
  unfolding payments_move_def by (auto intro: kept_trans)

interpretation pay: db_rely "payments_move I" for I
  by unfold_locales (auto intro: payments_move_trans)

lemma orders_kept_ids: "orders_kept I db db1 \<Longrightarrow> po_ID ` set (db_orders db) \<subseteq> po_ID ` set (db_orders db1)"
  by (auto simp: orders_kept_def order_evolves_def) (metis image_eqI)

lemma payments_moveD:
  assumes "payments_move I db db1" "payments_wf db"
  shows "payments_wf db1" "orders_kept I db db1" "codes_kept db db1" "own_balance u db1 = own_balance u db"
  using assms unfolding payments_move_def by blast+

lemma code_used_later: "payments_move I db db1 \<Longrightarrow> payments_wf db \<Longrightarrow> code_used k db \<Longrightarrow> code_used k db1"
  using payments_moveD(3) [of I db db1] unfolding code_used_def codes_kept_def code_evolves_def by metis

text \<open>The row that an order read before has become.\<close>

lemma order_later:
  assumes "payments_move I db db1" "payments_wf db" "x \<in> set (db_orders db)"
    "y \<in> set (db_orders db1)" "po_ID y = po_ID x"
  shows "order_evolves I x y"
proof -
  obtain z where z: "z \<in> set (db_orders db1)" "order_evolves I x z"
    using payments_moveD(2) [OF assms(1,2)] assms(3) by (auto simp: orders_kept_def)
  have "distinct (map po_ID (db_orders db1))"
    using payments_moveD(1) [OF assms(1,2)] by (simp add: payments_wf_def)
  then have "y = z" using z assms(4,5) by (auto simp: order_evolves_def distinct_map inj_on_def)
  then show ?thesis using z by simp
qed

section \<open>Statements\<close>

text \<open>Tables that the relation does not look at.\<close>

lemma payments_move_blind [simp]:
  "payments_move I db (db\<lparr>db_subs := ss\<rparr>)" "payments_move I db (db\<lparr>db_audit := al\<rparr>)"
  "payments_move I db1 (db2\<lparr>db_subs := ss\<rparr>) = payments_move I db1 db2"
proof -
  have b: "payments_wf (db\<lparr>db_subs := ss\<rparr>) = payments_wf db" "payments_wf (db\<lparr>db_audit := al\<rparr>) = payments_wf db"
    for db ss al
    by (simp_all add: payments_wf_def settled_def code_used_def)
  have k: "orders_kept I db1 (db\<lparr>db_subs := ss\<rparr>) = orders_kept I db1 db" "codes_kept db1 (db\<lparr>db_subs := ss\<rparr>) = codes_kept db1 db"
    "own_balance u (db\<lparr>db_subs := ss\<rparr>) = own_balance u db" for db db1 ss u
    by (simp_all add: orders_kept_def codes_kept_def own_balance_def)
  have r: "orders_kept I db db" "codes_kept db db" for db
    unfolding orders_kept_def codes_kept_def using order_evolves_refl code_evolves_refl by blast+
  show "payments_move I db1 (db2\<lparr>db_subs := ss\<rparr>) = payments_move I db1 db2"
    by (simp add: payments_move_def b k)
  then show "payments_move I db (db\<lparr>db_subs := ss\<rparr>)"
    by (simp add: payments_move_def b k r)
  show "payments_move I db (db\<lparr>db_audit := al\<rparr>)"
    using r [of db] by (simp add: payments_move_def b) (simp add: orders_kept_def codes_kept_def own_balance_def)
qed

lemma payments_move_reads [simp]:
  "payments_move I db (snd (order_Get oid now db))" "payments_move I db (snd (order_ByOutTradeNo no now db))"
  "payments_move I db (snd (audit_insert oid a op now db))" "payments_move I db (snd (audit_exists oid a now db))"
  "payments_move I db (snd (instance_Get i now db))" "payments_move I db (snd (user_GetByID u now db))"
  "payments_move I db (snd (code_GetByCode code now db))" "payments_move I db (snd (code_GetByID i now db))"
  "payments_move I db (snd (group_GetByID g now db))" "payments_move I db (snd (orders_timed_out now db))"
  "payments_move I db (snd (count_pending u now db))" "payments_move I db (snd (paid_since u ts now db))"
  "payments_move I db (snd (count_cancelled op ts now db))" "payments_move I db (snd (enabled_instances key now db))"
  "payments_move I db (snd (daily_usage ts now db))" "payments_move I db (snd (sub_GetByID i now db))"
  "payments_move I db (snd (sub_GetByUserIDAndGroupID u g now db))"
  "payments_move I db (snd (sub_GetActiveByUserIDAndGroupID u g now db))"
  "payments_move I db (snd (UpdateStatus i st now db))" "payments_move I db (snd (UpdateNotes i n now db))"
  "payments_move I db (snd (ExtendExpiry i t now db))" "payments_move I db (snd (sub_Create s now db))"
  by (simp_all add: order_Get_def order_ByOutTradeNo_def audit_insert_def audit_exists_def instance_Get_def
      user_GetByID_def group_GetByID_def orders_timed_out_def count_pending_def paid_since_def count_cancelled_def
      enabled_instances_def daily_usage_def sub_GetByID_def sub_GetByUserIDAndGroupID_def
      sub_GetActiveByUserIDAndGroupID_def UpdateStatus_def UpdateNotes_def ExtendExpiry_def sub_update_def
      sub_Create_def Let_def)

text \<open>An update of orders: every changed row evolves and is settled if it is credited.\<close>

lemma payments_move_orders:
  assumes "\<And>x. payments_wf db \<Longrightarrow> x \<in> set (db_orders db) \<Longrightarrow> p x \<Longrightarrow> order_evolves I x (g x) \<and> settled db (g x)"
  shows "payments_move I db (db\<lparr>db_orders := change p g (db_orders db)\<rparr>)"
  unfolding payments_move_def
proof (intro impI conjI allI)
  let ?db = "db\<lparr>db_orders := change p g (db_orders db)\<rparr>"
  assume wf: "payments_wf db"
  note ev = assms [OF wf]
  have "map po_ID (change p g (db_orders db)) = map po_ID (db_orders db)"
    using ev by (auto simp: change_def order_evolves_def)
  moreover have "settled ?db x = settled db x" for x by (simp add: settled_def code_used_def)
  ultimately show "payments_wf ?db"
    using wf ev unfolding payments_wf_def by (auto simp: set_change order_evolves_def)
  have "\<exists>y \<in> set (change p g (db_orders db)). order_evolves I x y" if "x \<in> set (db_orders db)" for x
  proof (cases "p x")
    case True
    then show ?thesis using ev [OF that True] that by (auto simp: set_change image_iff)
  next
    case False
    then show ?thesis using that by (auto simp: set_change image_iff intro!: bexI [of _ x])
  qed
  then show "orders_kept I db ?db" by (simp add: orders_kept_def)
  show "codes_kept db ?db" by (rule kept_rows) simp
  show "own_balance u ?db = own_balance u db" for u by (simp add: own_balance_def)
qed

lemma touched [simp]:
  "order_evolves I x (y\<lparr>po_UpdatedAt := t\<rparr>) = order_evolves I x y" "settled db (y\<lparr>po_UpdatedAt := t\<rparr>) = settled db y"
  by (simp_all add: order_evolves_def settled_def)

lemma payments_move_Update:
  assumes "\<And>x. payments_wf db \<Longrightarrow> x \<in> set (db_orders db) \<Longrightarrow> p x \<Longrightarrow> order_evolves I x (f x) \<and> settled db (f x)"
  shows "payments_move I db (snd (order_Update p f now db))"
  unfolding order_Update_def snd_conv by (rule payments_move_orders) (simp add: assms)

lemma payments_move_UpdateOneID:
  assumes "\<And>x. payments_wf db \<Longrightarrow> x \<in> set (db_orders db) \<Longrightarrow> po_ID x = oid \<Longrightarrow> order_evolves I x (f x) \<and> settled db (f x)"
  shows "payments_move I db (snd (order_UpdateOneID oid f now db))"
proof -
  have "payments_move I db (db\<lparr>db_orders := change (\<lambda>o1. po_ID o1 = oid) (\<lambda>o1. (f o1)\<lparr>po_UpdatedAt := now\<rparr>) (db_orders db)\<rparr>)"
    by (rule payments_move_orders) (simp add: assms)
  then show ?thesis by (simp add: order_UpdateOneID_def)
qed

lemma edge: "(a, b) \<in> order_edges \<Longrightarrow> (a, b) \<in> (edges_of I i)\<^sup>*"
  by (rule r_into_rtrancl) (simp add: edges_of_def)

lemma not_credited [simp]:
  "\<not> credited_status OrderStatusPaid" "\<not> credited_status OrderStatusRecharging" "\<not> credited_status OrderStatusFailed"
  "\<not> credited_status OrderStatusCancelled" "\<not> credited_status OrderStatusExpired" "\<not> credited_status OrderStatusPending"
  "credited_status OrderStatusCompleted" "credited_status OrderStatusRefundRequested"
  by (simp_all add: credited_status_def order_status_defs)

lemma settled_uncredited [simp]: "\<not> credited_status (po_Status x) \<Longrightarrow> settled db x"
  by (simp add: settled_def)

text \<open>Each transition of the handlers.\<close>

lemma move_lock: "payments_move I db (snd (order_Update (has_status oid [OrderStatusPaid, OrderStatusFailed])
    (\<lambda>x. x\<lparr>po_Status := OrderStatusRecharging\<rparr>) now db))"
  by (rule payments_move_Update) (auto simp: has_status_def order_evolves_def order_edges_def intro!: edge)

lemma move_retry: "payments_move I db (snd (order_Update (has_status oid [OrderStatusFailed, OrderStatusPaid])
    (\<lambda>x. x\<lparr>po_Status := OrderStatusPaid, po_FailedAt := None, po_FailedReason := None\<rparr>) now db))"
  by (rule payments_move_Update) (auto simp: has_status_def order_evolves_def order_edges_def intro: edge)

lemma move_failed: "payments_move I db (snd (order_Update (has_status oid [OrderStatusRecharging])
    (\<lambda>x. x\<lparr>po_Status := OrderStatusFailed, po_FailedAt := t, po_FailedReason := r\<rparr>) now db))"
  by (rule payments_move_Update) (auto simp: has_status_def order_evolves_def order_edges_def intro!: edge)

lemma move_paid: "payments_move I db (snd (order_Update (payable oid grace)
    (\<lambda>x. x\<lparr>po_Status := OrderStatusPaid, po_PayAmount := a, po_PaymentTradeNo := n, po_PaidAt := t,
           po_FailedAt := None, po_FailedReason := None\<rparr>) now db))"
  by (rule payments_move_Update) (auto simp: payable_def order_evolves_def order_edges_def intro!: edge)

lemma move_cancel:
  assumes "fs = OrderStatusCancelled \<or> fs = OrderStatusExpired"
  shows "payments_move I db (snd (order_Update (has_status oid [OrderStatusPending]) (\<lambda>x. x\<lparr>po_Status := fs\<rparr>) now db))"
  by (rule payments_move_Update)
     (use assms in \<open>auto simp: has_status_def order_evolves_def order_edges_def intro!: edge\<close>)

lemma move_request: "payments_move I db (snd (order_Update (may_request oid uid)
    (\<lambda>x. x\<lparr>po_Status := OrderStatusRefundRequested, po_RefundRequestedAt := t, po_RefundRequestReason := r,
           po_RefundRequestedBy := b, po_RefundAmount := a\<rparr>) now db))"
proof (rule payments_move_Update, intro conjI)
  fix x assume x: "payments_wf db" "x \<in> set (db_orders db)" "may_request oid uid x"
  then have "settled db x" by (simp add: payments_wf_def)
  with x show "settled db (x\<lparr>po_Status := OrderStatusRefundRequested, po_RefundRequestedAt := t,
      po_RefundRequestReason := r, po_RefundRequestedBy := b, po_RefundAmount := a\<rparr>)"
    by (simp add: settled_def may_request_def)
qed (auto simp: may_request_def order_evolves_def order_edges_def intro!: edge)

lemma move_creation_failed:
  assumes "oid \<notin> I"
  shows
  "payments_move I db (snd (order_UpdateOneID oid (\<lambda>x. x\<lparr>po_Status := OrderStatusFailed\<rparr>) now db))"
  by (rule payments_move_UpdateOneID) (use assms in \<open>auto simp: order_evolves_def edges_of_def\<close>)

lemma move_details: "payments_move I db (snd (order_UpdateOneID oid (payment_details pr inst) now db))"
  by (rule payments_move_UpdateOneID)
     (auto simp: payments_wf_def order_evolves_def settled_def payment_details_def)

lemma move_recharge_code:
  "(\<And>x. x \<in> set (db_orders db) \<Longrightarrow> po_ID x = oid \<Longrightarrow> po_RechargeCode x = [] \<and> po_Status x = OrderStatusPending) \<Longrightarrow>
   payments_move I db (snd (order_UpdateOneID oid (\<lambda>x. x\<lparr>po_RechargeCode := code\<rparr>) now db))"
  by (rule payments_move_UpdateOneID) (auto simp: order_evolves_def)

text \<open>Completing an order whose code has been used, or which bought a subscription.\<close>

lemma move_completed:
  assumes "payments_move I db0 db" "payments_wf db0" "o1 \<in> set (db_orders db0)"
    "po_OrderType o1 = OrderTypeSubscription \<or> code_used (po_RechargeCode o1) db"
  shows "payments_move I db (snd (order_Update (has_status (po_ID o1) [OrderStatusRecharging])
    (\<lambda>x. x\<lparr>po_Status := OrderStatusCompleted, po_CompletedAt := t\<rparr>) now db))"
proof (rule payments_move_Update, intro conjI)
  fix x assume wf: "payments_wf db" and x: "x \<in> set (db_orders db)"
    and st: "has_status (po_ID o1) [OrderStatusRecharging] x"
  have ev: "order_evolves I o1 x"
    using order_later [OF assms(1,2,3) x] st by (simp add: has_status_def)
  have "po_RechargeCode o1 \<noteq> []" if "code_used (po_RechargeCode o1) db"
    using that wf by (auto simp: code_used_def payments_wf_def)
  then show "settled db (x\<lparr>po_Status := OrderStatusCompleted, po_CompletedAt := t\<rparr>)"
    using ev assms(4) by (auto simp: settled_def order_evolves_def)
  show "order_evolves I x (x\<lparr>po_Status := OrderStatusCompleted, po_CompletedAt := t\<rparr>)"
    using st by (auto simp: has_status_def order_evolves_def order_edges_def intro!: edge)
qed

text \<open>A new order and a new code.\<close>

lemma sum_list_append1: "sum_list (map f (xs @ [x])) = sum_list (map f xs) + (f x :: rat)"
  by simp

lemma move_order_Create:
  assumes "po_RechargeCode x = []" "po_Status x = OrderStatusPending" "0 \<le> po_Amount x"
  shows "payments_move I db (snd (order_Create x now db))"
  unfolding payments_move_def
proof (intro impI conjI allI)
  let ?row = "x\<lparr>po_ID := fresh_id (map po_ID (db_orders db)), po_CreatedAt := now, po_UpdatedAt := now\<rparr>"
  have db: "snd (order_Create x now db) = db\<lparr>db_orders := db_orders db @ [?row]\<rparr>"
    by (simp add: order_Create_def Let_def)
  assume wf: "payments_wf db"
  have "settled (db\<lparr>db_orders := ys\<rparr>) y = settled db y" for ys y by (simp add: settled_def code_used_def)
  moreover have "fresh_id (map po_ID (db_orders db)) \<notin> po_ID ` set (db_orders db)"
    using fresh_id_neq [of _ "db_orders db" po_ID] by (metis imageE)
  ultimately show "payments_wf (snd (order_Create x now db))"
    using wf assms unfolding db payments_wf_def by auto
  show "orders_kept I db (snd (order_Create x now db))" "codes_kept db (snd (order_Create x now db))"
    "own_balance u (snd (order_Create x now db)) = own_balance u db" for u
    unfolding db by (auto intro: kept_rows simp: own_balance_def)
qed

lemma move_code_Create:
  assumes "rc_Type c = RedeemTypeBalance \<longrightarrow> payments_wf db \<longrightarrow> 0 \<le> rc_Value c" "\<not> IsUsed c"
  shows "payments_move I db (snd (code_Create c now db))"
proof (cases "\<exists>row. code_Create c now db = (Inr row, db\<lparr>db_codes := db_codes db @ [row]\<rparr>)")
  case False
  then have "snd (code_Create c now db) = db"
    by (auto simp: code_Create_def Let_def split: if_splits)
  then show ?thesis by simp
next
  case True
  let ?row = "c\<lparr>rc_ID := fresh_id (map rc_ID (db_codes db))\<rparr>"
  from True have c: "valid_code c" "\<not> list_ex (\<lambda>r. rc_Code r = rc_Code c) (db_codes db)"
      and db: "snd (code_Create c now db) = db\<lparr>db_codes := db_codes db @ [?row]\<rparr>"
    by (auto simp: code_Create_def Let_def split: if_splits)
  show ?thesis
    unfolding payments_move_def
  proof (intro impI conjI allI)
    assume wf: "payments_wf db"
    have "code_used k (db\<lparr>db_codes := db_codes db @ [?row]\<rparr>) = code_used k db" for k
      using assms(2) by (auto simp: code_used_def IsUsed_def)
    then have "settled (db\<lparr>db_codes := db_codes db @ [?row]\<rparr>) x = settled db x" for x
      by (simp add: settled_def)
    moreover have "fresh_id (map rc_ID (db_codes db)) \<notin> rc_ID ` set (db_codes db)"
      using fresh_id_neq [of _ "db_codes db" rc_ID] by (metis imageE)
    moreover have "rc_Code c \<notin> rc_Code ` set (db_codes db)" "rc_Code c \<noteq> []"
      using c by (auto simp: list_ex_iff valid_code_def)
    ultimately show "payments_wf (snd (code_Create c now db))"
      using wf assms(1) unfolding db payments_wf_def by auto
    show "orders_kept I db (snd (code_Create c now db))" "codes_kept db (snd (code_Create c now db))"
      unfolding db by (auto intro: kept_rows)
    show "own_balance u (snd (code_Create c now db)) = own_balance u db" for u
      using assms(2) unfolding db own_balance_def by (simp add: redeemed_by_def IsUsed_def)
  qed
qed

section \<open>Granting\<close>

lemma sum_change_key:
  fixes h :: "'x \<Rightarrow> rat"
  assumes "distinct (map key rows)" "x \<in> set rows"
  shows "sum_list (map h (change (\<lambda>y. key y = key x) f rows)) = sum_list (map h rows) - h x + h (f x)"
  using assms
proof (induction rows)
  case (Cons y rows)
  have "change (\<lambda>y. key y = key x) f rows = rows" if "key x \<notin> key ` set rows"
    using that by (auto simp: change_def image_iff intro!: map_idI)
  with Cons show ?case by (cases "y = x") (auto simp: change_Cons)
qed simp

definition balance_in :: "int \<Rightarrow> User \<Rightarrow> rat" where
  "balance_in u x = (if usr_ID x = u then usr_Balance x else 0)"

lemma balance_of_sum: "balance_of u users = sum_list (map (balance_in u) users)"
  unfolding balance_of_def by (induction users) (simp_all add: balance_in_def)

lemma balance_of_change:
  assumes "distinct (map usr_ID users)" "matches (\<lambda>x. usr_ID x = v) users \<noteq> 0"
    "\<And>x. usr_ID (f x) = usr_ID x" "\<And>x. usr_Balance (f x) = usr_Balance x + a"
  shows "balance_of u (change (\<lambda>x. usr_ID x = v) f users) = balance_of u users + (if u = v then a else 0)"
proof -
  obtain x where x: "x \<in> set users" "usr_ID x = v"
    using assms(2) by (auto simp: matches_def filter_empty_conv)
  show ?thesis
    using sum_change_key [OF assms(1) x(1), of "balance_in u" f] x assms(3,4)
    by (simp add: balance_of_sum) (simp add: balance_in_def)
qed

lemma balance_of_same:
  "(\<And>x. usr_ID (f x) = usr_ID x \<and> usr_Balance (f x) = usr_Balance x) \<Longrightarrow>
     balance_of u (change p f users) = balance_of u users"
proof -
  assume f: "\<And>x. usr_ID (f x) = usr_ID x \<and> usr_Balance (f x) = usr_Balance x"
  then have "balance_in u (if p x then f x else x) = balance_in u x" for x by (simp add: balance_in_def)
  then show ?thesis by (simp add: balance_of_sum change_def comp_def)
qed

definition use_row :: "int \<Rightarrow> gotime \<Rightarrow> RedeemCode \<Rightarrow> RedeemCode" where
  "use_row u now c = c\<lparr>rc_Status := StatusUsed, rc_UsedBy := Some u, rc_UsedAt := Some now\<rparr>"

text \<open>A code that was read and can still be used: its row is the one that is marked.\<close>

lemma code_Use_row:
  assumes "payments_wf db" "c \<in> set (db_codes db)" "rc_ID c = i" "fst (code_Use i u now db) = Inr ()"
  shows "\<not> IsUsed c \<and> snd (code_Use i u now db) =
    db\<lparr>db_codes := change (\<lambda>d. rc_ID d = rc_ID c) (use_row u now) (db_codes db)\<rparr>"
proof -
  let ?p = "\<lambda>d. rc_ID d = i \<and> rc_Status d = StatusUnused"
  have "matches ?p (db_codes db) \<noteq> 0"
    using assms(4) by (simp add: code_Use_def Let_def split: if_splits)
  then obtain d where "d \<in> set (db_codes db)" "?p d" by (auto simp: matches_def filter_empty_conv)
  moreover have uniq: "d = c" if "d \<in> set (db_codes db)" "rc_ID d = i" for d
    using assms(1,2,3) that by (auto simp: payments_wf_def distinct_map inj_on_def)
  ultimately have unused: "rc_Status c = StatusUnused" by metis
  then have "change ?p (use_row u now) (db_codes db) = change (\<lambda>d. rc_ID d = rc_ID c) (use_row u now) (db_codes db)"
    using uniq assms(3) by (intro change_pred_cong) auto
  with assms(4) unused show ?thesis
    by (auto simp: code_Use_def Let_def IsUsed_def code_status_defs use_row_def [abs_def])
qed

lemma codes_after_use:
  fixes u :: int and now :: gotime
  assumes "payments_wf db" "c \<in> set (db_codes db)" "\<not> IsUsed c"
  defines "rows \<equiv> change (\<lambda>d. rc_ID d = rc_ID c) (use_row u now) (db_codes db)"
  shows "map rc_ID rows = map rc_ID (db_codes db)" "map rc_Code rows = map rc_Code (db_codes db)"
    "map rc_Value rows = map rc_Value (db_codes db)" "map rc_Type rows = map rc_Type (db_codes db)"
    "\<forall>d \<in> set (db_codes db). \<exists>e \<in> set rows. code_evolves d e"
    "\<exists>d \<in> set rows. rc_Code d = rc_Code c \<and> IsUsed d"
    "redeemed_by v rows = redeemed_by v (db_codes db) +
       (if v = u \<and> rc_Type c = RedeemTypeBalance then rc_Value c else 0)"
proof -
  show "map rc_ID rows = map rc_ID (db_codes db)" "map rc_Code rows = map rc_Code (db_codes db)"
    "map rc_Value rows = map rc_Value (db_codes db)" "map rc_Type rows = map rc_Type (db_codes db)"
    by (simp_all add: rows_def map_change use_row_def)
  have d: "distinct (map rc_ID (db_codes db))" using assms(1) by (simp add: payments_wf_def)
  have ev: "code_evolves d (if rc_ID d = rc_ID c then use_row u now d else d)" if "d \<in> set (db_codes db)" for d
  proof (cases "rc_ID d = rc_ID c")
    case True
    then have "d = c" using d assms(2) that by (auto simp: distinct_map inj_on_def)
    then show ?thesis using assms(3) by (simp add: code_evolves_def use_row_def)
  qed simp
  show "\<forall>d \<in> set (db_codes db). \<exists>e \<in> set rows. code_evolves d e"
  proof
    fix d assume d: "d \<in> set (db_codes db)"
    then have "(if rc_ID d = rc_ID c then use_row u now d else d) \<in> set rows"
      by (simp add: rows_def set_change image_iff) blast
    with ev [OF d] show "\<exists>e \<in> set rows. code_evolves d e" by blast
  qed
  show "\<exists>d \<in> set rows. rc_Code d = rc_Code c \<and> IsUsed d"
  proof -
    have "use_row u now c \<in> set rows"
      using assms(2) by (auto simp: rows_def set_change image_iff intro!: bexI [of _ c])
    then show ?thesis by (intro bexI [of _ "use_row u now c"]) (simp_all add: use_row_def IsUsed_def)
  qed
  show "redeemed_by v rows = redeemed_by v (db_codes db) +
       (if v = u \<and> rc_Type c = RedeemTypeBalance then rc_Value c else 0)"
    using assms(3) unfolding redeemed_by_def rows_def
    by (subst sum_change_key [OF d assms(2)]) (auto simp: use_row_def IsUsed_def)
qed

lemma payments_wf_codes:
  assumes "payments_wf db" "map rc_ID rows = map rc_ID (db_codes db)" "map rc_Code rows = map rc_Code (db_codes db)"
    "map rc_Value rows = map rc_Value (db_codes db)" "map rc_Type rows = map rc_Type (db_codes db)"
    "\<forall>d \<in> set (db_codes db). \<exists>e \<in> set rows. code_evolves d e"
    "map usr_ID us = map usr_ID (db_users db)"
  shows "payments_wf (db\<lparr>db_codes := rows, db_users := us\<rparr>)"
proof -
  have "code_used k (db\<lparr>db_codes := rows, db_users := us\<rparr>)" if "code_used k db" for k
    using that assms(6) unfolding code_used_def code_evolves_def by fastforce
  then have "settled (db\<lparr>db_codes := rows, db_users := us\<rparr>) x" if "settled db x" for x
    using that by (auto simp: settled_def)
  moreover have "rc_Code c \<noteq> [] \<and> (rc_Type c = RedeemTypeBalance \<longrightarrow> 0 \<le> rc_Value c)" if "c \<in> set rows" for c
  proof -
    obtain i where i: "i < length rows" "c = rows ! i" using \<open>c \<in> set rows\<close> by (metis in_set_conv_nth)
    have l: "length rows = length (db_codes db)" using assms(2) by (metis length_map)
    have "rc_Code c = rc_Code (db_codes db ! i)" "rc_Value c = rc_Value (db_codes db ! i)"
      "rc_Type c = rc_Type (db_codes db ! i)"
      using i l assms(3-5) by (metis nth_map)+
    moreover have "db_codes db ! i \<in> set (db_codes db)" using i l by simp
    ultimately show ?thesis using assms(1) by (simp add: payments_wf_def)
  qed
  ultimately show ?thesis using assms(1,2,3,7) by (simp add: payments_wf_def)
qed

text \<open>The whole grant keeps the relation and leaves the code used.\<close>

lemma move_granted:
  assumes m: "payments_move I db0 db" "payments_wf db0" and rc: "rc \<in> set (db_codes db0)"
    and g: "grantable now user rc db"
  shows "payments_move I db (granted now user rc db) \<and> code_used (rc_Code rc) (granted now user rc db)"
proof -
  have wf: "payments_wf db" using payments_moveD(1) [OF m] .
  obtain c where c: "c \<in> set (db_codes db)" "code_evolves rc c"
    using payments_moveD(3) [OF m] rc by (auto simp: codes_kept_def)
  have same: "rc_ID c = rc_ID rc" "rc_Code c = rc_Code rc" "rc_Type c = rc_Type rc" "rc_Value c = rc_Value rc"
    using c(2) by (simp_all add: code_evolves_def)
  let ?u = "usr_ID user"
  have "fst (code_Use (rc_ID rc) ?u now db) = Inr ()" using g by (simp add: grantable_def)
  from code_Use_row [OF wf c(1) same(1) this] have un: "\<not> IsUsed c"
    and use: "snd (code_Use (rc_ID rc) ?u now db) =
      db\<lparr>db_codes := change (\<lambda>d. rc_ID d = rc_ID c) (use_row ?u now) (db_codes db)\<rparr>"
    by auto
  let ?rows = "change (\<lambda>d. rc_ID d = rc_ID c) (use_row ?u now) (db_codes db)"
  note C = codes_after_use [OF wf c(1) un, where u = ?u and now = now]
  have nn: "0 \<le> rc_Value rc" if "rc_Type rc = RedeemTypeBalance"
    using rc m(2) that by (auto simp: payments_wf_def)
  obtain us where gr: "granted now user rc db = db\<lparr>db_codes := ?rows, db_users := us\<rparr>"
    and ids: "map usr_ID us = map usr_ID (db_users db)"
    and bal: "\<And>v. balance_of v us = balance_of v (db_users db) +
        (if v = ?u \<and> rc_Type c = RedeemTypeBalance then rc_Value c else 0)"
  proof -
    have du: "distinct (map usr_ID (db_users db))" using wf by (simp add: payments_wf_def)
    consider (bal) "rc_Type rc = RedeemTypeBalance" | (con) "rc_Type rc = RedeemTypeConcurrency" "rc_Type rc \<noteq> RedeemTypeBalance"
      | (oth) "rc_Type rc \<noteq> RedeemTypeBalance" "rc_Type rc \<noteq> RedeemTypeConcurrency" by blast
    then show ?thesis
    proof cases
      case bal
      let ?f = "\<lambda>x. x\<lparr>usr_Balance := usr_Balance x + rc_Value rc,
          usr_TotalRecharged := if 0 < rc_Value rc then usr_TotalRecharged x + rc_Value rc else usr_TotalRecharged x\<rparr>"
      have some: "matches (\<lambda>x. usr_ID x = ?u) (db_users db) \<noteq> 0" using g bal by (simp add: grantable_def)
      show ?thesis
        by (rule that [of "change (\<lambda>x. usr_ID x = ?u) ?f (db_users db)"])
           (use bal nn some du same in \<open>simp_all add: granted_def Let_def use UpdateBalance_def user_update_def
              map_change balance_of_change\<close>)
    next
      case con
      show ?thesis
      proof (cases "matches (\<lambda>x. usr_ID x = ?u) (db_users db) = 0")
        case True
        show ?thesis
          by (rule that [of "db_users db"])
             (use con True same in \<open>simp_all add: granted_def Let_def use UpdateConcurrency_def user_update_def\<close>)
      next
        case False
        let ?d = "let v = rat_trunc (rc_Value rc)
             in if v < 0 \<and> usr_Concurrency user + v < 0 then - usr_Concurrency user else v"
        show ?thesis
          by (rule that [of "change (\<lambda>x. usr_ID x = ?u) (\<lambda>x. x\<lparr>usr_Concurrency := usr_Concurrency x + ?d\<rparr>) (db_users db)"])
             (use con False same in \<open>simp_all add: granted_def Let_def use UpdateConcurrency_def user_update_def
                map_change balance_of_same\<close>)
      qed
    next
      case oth
      show ?thesis
        by (rule that [of "db_users db"]) (use oth same in \<open>simp_all add: granted_def Let_def use\<close>)
    qed
  qed
  have "payments_wf (granted now user rc db)"
    unfolding gr by (rule payments_wf_codes [OF wf C(1-5) ids])
  moreover have "own_balance v (granted now user rc db) = own_balance v db" for v
    using C(7) [where v = v] bal [of v] unfolding gr by (simp add: own_balance_def)
  ultimately show ?thesis
    using C(5,6) same unfolding gr payments_move_def code_used_def
    by (auto simp: codes_kept_def intro: kept_rows)
qed

section \<open>Every handler keeps the relation\<close>

abbreviation paying :: "int set \<Rightarrow> (go_error + 'a \<Rightarrow> world \<Rightarrow> bool) \<Rightarrow> 'a handler \<Rightarrow> world \<Rightarrow> bool" where
  "paying I Q p w \<equiv> guards (moves (payments_move I)) (moves (payments_move I)) Q p w"

abbreviation safe :: "int set \<Rightarrow> (world, 'a) prog \<Rightarrow> world \<Rightarrow> bool" where
  "safe I p w \<equiv> guards (moves (payments_move I)) (moves (payments_move I)) (\<lambda>_ _. True) p w"

definition calm :: "int set \<Rightarrow> world \<Rightarrow> bool" where
  "calm I w \<longleftrightarrow> w_base w = None \<and> payments_wf (w_db w) \<and> I \<subseteq> po_ID ` set (db_orders (w_db w))"

lemma calm_later: "calm I w \<Longrightarrow> moves (payments_move I) w w1 \<Longrightarrow> calm I w1"
  using payments_moveD(1,2) orders_kept_ids by (auto simp: calm_def moves_def) (meson subsetD)

lemma moves_db: "moves D w w1 \<Longrightarrow> D (w_db w) (w_db w1)"
  by (simp add: moves_def)

context db_rely
begin

lemma guards_redis:
  assumes "\<And>v. tables_kept v (snd (f v))" and k: "\<And>r w1. moves D w w1 \<Longrightarrow> guards (moves D) (moves D) Q (k r) w1"
  shows "guards (moves D) (moves D) Q (redis f k) w"
  unfolding redis_def guards_atomically
proof (intro allI impI)
  fix t assume t: "moves D w t"
  obtain oc v where n: "next_outcome t = (oc, v)" by (cases "next_outcome t")
  have v: "tables_kept t v" using next_outcome_db [of t] by (simp add: n tables_kept_def)
  have s: "moves D t s" if "tables_kept t s" for s
    using that by (simp add: tables_kept_def moves_def D_refl rel_option_D_refl)
  let ?a = "\<lambda>w. case next_outcome w of (oc, w1) \<Rightarrow> (case oc of Works \<Rightarrow> (case f w1 of (r, w2) \<Rightarrow> (Inr r, w2))
      | Fails \<Rightarrow> (Inl (PlainErr ''redis error''), w1) | Unacked \<Rightarrow> (Inl (PlainErr ''redis error''), snd (f w1)))"
  have "tables_kept t (snd (?a t))"
    using v assms(1) [of v] by (cases oc) (auto simp: n case_prod_unfold intro: tables_kept_trans)
  from s [OF this] k [OF moves_trans [OF t s [OF this]]]
  show "moves D t (snd (?a t)) \<and> guards (moves D) (moves D) Q (k (fst (?a t))) (snd (?a t))" by blast
qed

lemma guards_acquire:
  "(\<And>ok w1. moves D w w1 \<Longrightarrow> guards (moves D) (moves D) Q (k ok) w1) \<Longrightarrow>
   guards (moves D) (moves D) Q (acquireRedeemLock cache code k) w"
  unfolding acquireRedeemLock_def
  by (auto intro!: guards_redis moves_refl split: sum.split)

lemma guards_release:
  "(\<And>w1. moves D w w1 \<Longrightarrow> guards (moves D) (moves D) Q k w1) \<Longrightarrow>
   guards (moves D) (moves D) Q (releaseRedeemLock cache code k) w"
  unfolding releaseRedeemLock_def by (auto intro!: guards_redis moves_refl)

lemma guards_increment:
  "(\<And>w1. moves D w w1 \<Longrightarrow> guards (moves D) (moves D) Q k w1) \<Longrightarrow>
   guards (moves D) (moves D) Q (incrementRedeemErrorCount cache u k) w"
  unfolding incrementRedeemErrorCount_def by (auto intro!: guards_redis moves_refl)

lemma guards_check: "guards (moves D) (moves D) (\<lambda>_ _. True) (checkRedeemRateLimit cache u) w"
  unfolding checkRedeemRateLimit_def
  by (auto intro!: guards_redis simp: fail_def succeed_def split: sum.split)

lemma guards_error_result:
  "(\<And>e w1. Q (Inl e) w1) \<Longrightarrow> guards (moves D) (moves D) Q (fail e) w"
  "(\<And>e w1. Q (Inl e) w1) \<Longrightarrow> guards (moves D) (moves D) Q (wrap m e) w"
  by (simp_all add: fail_def wrap_def)

end

lemma order_Get_ok: "fst (order_Get oid now db) = Inr o1 \<Longrightarrow> o1 \<in> set (db_orders db) \<and> po_ID o1 = oid"
  by (auto simp: order_Get_def dest: only_Inr)

lemma order_ByOutTradeNo_ok: "fst (order_ByOutTradeNo no now db) = Inr o1 \<Longrightarrow> o1 \<in> set (db_orders db)"
  by (auto simp: order_ByOutTradeNo_def dest: only_Inr)

text \<open>Redeeming: on success the code is used.\<close>

lemma redeem_locked_safe:
  assumes c: "calm I w"
  shows "paying I (\<lambda>r v. (\<exists>c. r = Inr c) \<longrightarrow> code_used code (w_db v)) (redeem_locked cache u code) w"
  unfolding redeem_locked_def
proof (rule pay.guards_stmt)
  let ?Q = "\<lambda>(r :: go_error + RedeemCode) v. (\<exists>c. r = Inr c) \<longrightarrow> code_used code (w_db v)"
  have stop: "paying I ?Q (incrementRedeemErrorCount cache u (fail e)) v" for e v
    by (rule pay.guards_increment) (simp add: pay.guards_error_result)
  fix now db rc w1
  assume rc: "fst (code_GetByCode code now db) = Inr rc" "w_db w1 = snd (code_GetByCode code now db)"
    and w1: "moves (payments_move I) w w1"
  have row: "rc \<in> set (db_codes (w_db w1))" "rc_Code rc = code"
    using rc by (auto simp: code_GetByCode_ok dest: only_Inr)
  have c1: "calm I w1" using c w1 by (rule calm_later)
  have tx: "paying I ?Q (atomically (transaction (redeem_tx user rc)) (on_error fail (\<lambda>_.
      stmt (code_GetByID (rc_ID rc)) (on_error (wrap ''get updated redeem code'') succeed)))) w2"
    if w2: "moves (payments_move I) w1 w2" for user w2
    unfolding guards_atomically
  proof (intro allI impI)
    fix t assume "moves (payments_move I) w2 t"
    then have t: "moves (payments_move I) w1 t" using w2 pay.moves_trans by blast
    have ct: "calm I t" using c1 t by (rule calm_later)
    obtain r3 w3 where tr: "transaction (redeem_tx user rc) t = (r3, w3)" by (cases "transaction (redeem_tx user rc) t")
    have wf1: "payments_wf (w_db w1)" using c1 by (simp add: calm_def)
    note G = move_granted [OF moves_db [OF t] wf1 row(1)]
    have res: "w_base w3 = None \<and> payments_move I (w_db t) (w_db w3) \<and> (r3 = Inr () \<longrightarrow> code_used code (w_db w3))"
      using redeem_transaction [OF _ tr] ct G row(2) by (auto simp: calm_def code_used_def)
    then have m3: "moves (payments_move I) t w3" using ct by (simp add: moves_def calm_def)
    have c3: "calm I w3" using ct m3 by (rule calm_later)
    have "paying I ?Q (on_error fail (\<lambda>_. stmt (code_GetByID (rc_ID rc))
        (on_error (wrap ''get updated redeem code'') succeed)) r3) w3"
    proof (cases r3)
      case (Inr x)
      then have used: "code_used code (w_db w3)" using res by simp
      have later: "code_used code (w_db v)" if "moves (payments_move I) w3 v" for v
        using code_used_later [OF moves_db [OF that] _ used] c3 by (simp add: calm_def)
      show ?thesis
        unfolding Inr on_error_simps
        by (rule pay.guards_stmt_any) (auto simp: on_error_def wrap_def succeed_def later pay.moves_trans
            intro: later pay.moves_trans split: sum.split)
    qed (simp add: pay.guards_error_result)
    then show "moves (payments_move I) t (snd (transaction (redeem_tx user rc) t)) \<and>
        paying I ?Q (on_error fail (\<lambda>_. stmt (code_GetByID (rc_ID rc))
          (on_error (wrap ''get updated redeem code'') succeed)) (fst (transaction (redeem_tx user rc) t)))
          (snd (transaction (redeem_tx user rc) t))"
      using m3 by (simp add: tr)
  qed
  have user: "paying I ?Q (stmt (user_GetByID u) (on_error (wrap ''get user'') (\<lambda>user.
      atomically (transaction (redeem_tx user rc)) (on_error fail (\<lambda>_.
        stmt (code_GetByID (rc_ID rc)) (on_error (wrap ''get updated redeem code'') succeed)))))) w1"
  proof (rule pay.guards_stmt_any)
    fix r w2 assume w2: "moves (payments_move I) w1 w2"
    show "paying I ?Q (on_error (wrap ''get user'') (\<lambda>user. atomically (transaction (redeem_tx user rc)) (on_error fail (\<lambda>_.
        stmt (code_GetByID (rc_ID rc)) (on_error (wrap ''get updated redeem code'') succeed)))) r) w2"
      by (cases r) (simp_all add: tx [OF w2] pay.guards_error_result)
  qed simp
  show "paying I ?Q (on_error (\<lambda>e. if app_Is ErrRedeemCodeNotFound e
             then incrementRedeemErrorCount cache u (fail (AppErr ErrRedeemCodeNotFound))
             else wrap ''get redeem code'' e)
       (\<lambda>rc.
         if \<not> CanUse rc then incrementRedeemErrorCount cache u (fail (AppErr ErrRedeemCodeUsed))
         else if rc_Type rc = RedeemTypeSubscription \<and> rc_GroupID rc = None
         then fail (AppErr (BadRequest ''REDEEM_CODE_INVALID''
                ''invalid subscription redeem code: missing group_id''))
         else stmt (user_GetByID u) (on_error (wrap ''get user'') (\<lambda>user.
           atomically (transaction (redeem_tx user rc)) (on_error fail (\<lambda>_.
             stmt (code_GetByID (rc_ID rc)) (on_error (wrap ''get updated redeem code'') succeed)))))) (Inr rc)) w1"
    using user stop by (simp add: pay.guards_error_result)
next
  fix e w1
  show "paying I (\<lambda>r v. (\<exists>c. r = Inr c) \<longrightarrow> code_used code (w_db v)) (on_error (\<lambda>e. if app_Is ErrRedeemCodeNotFound e
             then incrementRedeemErrorCount cache u (fail (AppErr ErrRedeemCodeNotFound))
             else wrap ''get redeem code'' e)
       (\<lambda>rc.
         if \<not> CanUse rc then incrementRedeemErrorCount cache u (fail (AppErr ErrRedeemCodeUsed))
         else if rc_Type rc = RedeemTypeSubscription \<and> rc_GroupID rc = None
         then fail (AppErr (BadRequest ''REDEEM_CODE_INVALID''
                ''invalid subscription redeem code: missing group_id''))
         else stmt (user_GetByID u) (on_error (wrap ''get user'') (\<lambda>user.
           atomically (transaction (redeem_tx user rc)) (on_error fail (\<lambda>_.
             stmt (code_GetByID (rc_ID rc)) (on_error (wrap ''get updated redeem code'') succeed)))))) (Inl e)) w1"
    by (simp add: pay.guards_error_result pay.guards_increment)
qed simp

lemma Redeem_safe:
  assumes c: "calm I w"
  shows "paying I (\<lambda>r v. (\<exists>c. r = Inr c) \<longrightarrow> code_used code (w_db v)) (Redeem cache u code) w"
  unfolding Redeem_def
proof (rule pay.guards_bind_any [OF pay.guards_check], rule pay.guards_on_error)
  let ?Q = "\<lambda>(r :: go_error + RedeemCode) v. (\<exists>c. r = Inr c) \<longrightarrow> code_used code (w_db v)"
  fix w1 assume w1: "moves (payments_move I) w w1"
  show "paying I ?Q (acquireRedeemLock cache code (\<lambda>ok. if \<not> ok then fail (AppErr ErrRedeemCodeLocked)
      else bind (redeem_locked cache u code) (\<lambda>r. releaseRedeemLock cache code (Return r)))) w1"
  proof (rule pay.guards_acquire, rule pay.guards_if)
    fix w2 assume w2: "moves (payments_move I) w1 w2"
    have c2: "calm I w2" by (rule calm_later [OF calm_later [OF c w1] w2])
    have "paying I (\<lambda>r v. ?Q r v \<and> moves (payments_move I) w2 v) (redeem_locked cache u code) w2"
      by (rule pay.guards_track [OF redeem_locked_safe [OF c2] pay.moves_refl])
    then have "paying I (\<lambda>r v. paying I ?Q (releaseRedeemLock cache code (Return r)) v) (redeem_locked cache u code) w2"
    proof (rule pay.guards_weaken)
      fix r v assume v: "?Q r v \<and> moves (payments_move I) w2 v"
      show "paying I ?Q (releaseRedeemLock cache code (Return r)) v"
      proof (rule pay.guards_release, unfold guards.simps(1), intro allI impI)
        fix v1 v2 assume m: "moves (payments_move I) v v1" "moves (payments_move I) v1 v2" and r: "\<exists>c. r = Inr c"
        have "calm I v" using c2 v calm_later by blast
        moreover have "code_used code (w_db v)" using v r by blast
        ultimately show "code_used code (w_db v2)"
          using code_used_later [OF moves_db [OF pay.moves_trans [OF m]]] by (simp add: calm_def)
      qed
    qed
    then show "paying I ?Q (bind (redeem_locked cache u code) (\<lambda>r. releaseRedeemLock cache code (Return r))) w2"
      by (rule pay.guards_bind)
  qed (simp add: pay.guards_error_result)
qed (simp add: pay.guards_error_result)

lemma safe_returns [simp]: "safe I (fail e) w" "safe I (succeed x) w" "safe I (wrap m e) w" "safe I (Return y) w"
  by (simp_all add: fail_def succeed_def wrap_def)

lemma safe_writeAuditLog: "(\<And>w1. moves (payments_move I) w w1 \<Longrightarrow> safe I k w1) \<Longrightarrow> safe I (writeAuditLog oid a op k) w"
  unfolding writeAuditLog_def by (rule pay.guards_stmt_any) simp_all

lemma safe_hasAuditLog: "(\<And>b w1. moves (payments_move I) w w1 \<Longrightarrow> safe I (k b) w1) \<Longrightarrow> safe I (hasAuditLog oid a k) w"
  unfolding hasAuditLog_def by (rule pay.guards_stmt_any) simp_all

lemma safe_AssignOrExtend: "safe I (AssignOrExtendSubscription inp) w"
proof -
  have "safe I (extend_tx sub t nt) w" for sub t nt w
    unfolding extend_tx_def Let_def by (intro pay.guards_intros) simp_all
  moreover have "safe I (createSubscription inp) w" for w
    unfolding createSubscription_def Let_def by (intro pay.guards_intros) simp_all
  ultimately show ?thesis
    unfolding AssignOrExtendSubscription_def
    by (intro pay.guards_intros pay.guards_separate_any) simp_all
qed

lemma safe_GetByCode:
  assumes c: "calm I w"
  shows "paying I (\<lambda>r v. \<forall>c. r = Inr c \<and> IsUsed c \<longrightarrow> code_used code (w_db v)) (GetByCode code) w"
  unfolding GetByCode_def
proof (rule pay.guards_stmt)
  fix now db rc w1
  assume rc: "fst (code_GetByCode code now db) = Inr rc" "w_db w1 = snd (code_GetByCode code now db)"
    and w1: "moves (payments_move I) w w1"
  have row: "IsUsed rc \<Longrightarrow> code_used code (w_db w1)"
    using rc by (auto simp: code_GetByCode_ok code_used_def dest: only_Inr)
  have "payments_wf (w_db w1)" using calm_later [OF c w1] by (simp add: calm_def)
  then have "IsUsed rc \<Longrightarrow> moves (payments_move I) w1 v \<Longrightarrow> code_used code (w_db v)" for v
    using code_used_later [of I "w_db w1" "w_db v" code] row by (simp add: moves_def)
  then show "paying I (\<lambda>r v. \<forall>c. r = Inr c \<and> IsUsed c \<longrightarrow> code_used code (w_db v))
      (on_error (wrap ''get redeem code'') succeed (Inr rc)) w1"
    by (simp add: succeed_def)
qed (simp_all add: pay.guards_error_result)

text \<open>An order that a handler has read.\<close>

definition knows :: "int set \<Rightarrow> PaymentOrder \<Rightarrow> world \<Rightarrow> bool" where
  "knows I o1 w \<longleftrightarrow> calm I w \<and> (\<exists>db0. payments_wf db0 \<and> o1 \<in> set (db_orders db0) \<and> payments_move I db0 (w_db w))"

lemma knows_later: "knows I o1 w \<Longrightarrow> moves (payments_move I) w w1 \<Longrightarrow> knows I o1 w1"
  unfolding knows_def using calm_later payments_move_trans moves_db by blast

lemma knows_calm: "knows I o1 w \<Longrightarrow> calm I w"
  by (simp add: knows_def)

lemma knows_read:
  assumes "calm I w" "moves (payments_move I) w w1" "w_db w1 = snd (q now db)" "snd (q now db) = db" "o1 \<in> set (db_orders db)"
  shows "knows I o1 w1"
  using calm_later [OF assms(1,2)] assms(3-5) payments_move_refl unfolding knows_def calm_def by auto

lemma safe_order_Get:
  assumes c: "calm I w" and e: "\<And>e w1. moves (payments_move I) w w1 \<Longrightarrow> safe I (k (Inl e)) w1"
    and k: "\<And>o1 w1. moves (payments_move I) w w1 \<Longrightarrow> knows I o1 w1 \<Longrightarrow> po_ID o1 = oid \<Longrightarrow> safe I (k (Inr o1)) w1"
  shows "safe I (stmt (order_Get oid) k) w"
proof (rule pay.guards_stmt)
  fix now db o1 w1
  assume "fst (order_Get oid now db) = Inr o1" "w_db w1 = snd (order_Get oid now db)" "moves (payments_move I) w w1"
  then show "safe I (k (Inr o1)) w1"
    using order_Get_ok [of oid now db o1] knows_read [OF c, of w1 "order_Get oid" now db o1] k [of w1 o1]
    by (auto simp: order_Get_def)
qed (simp_all add: e)

lemma safe_order_ByOutTradeNo:
  assumes c: "calm I w" and e: "\<And>e w1. moves (payments_move I) w w1 \<Longrightarrow> safe I (k (Inl e)) w1"
    and k: "\<And>o1 w1. moves (payments_move I) w w1 \<Longrightarrow> knows I o1 w1 \<Longrightarrow> safe I (k (Inr o1)) w1"
  shows "safe I (stmt (order_ByOutTradeNo no) k) w"
proof (rule pay.guards_stmt)
  fix now db o1 w1
  assume "fst (order_ByOutTradeNo no now db) = Inr o1" "w_db w1 = snd (order_ByOutTradeNo no now db)"
    "moves (payments_move I) w w1"
  then show "safe I (k (Inr o1)) w1"
    using order_ByOutTradeNo_ok [of no now db o1] knows_read [OF c, of w1 "order_ByOutTradeNo no" now db o1] k [of w1 o1]
    by (auto simp: order_ByOutTradeNo_def)
qed (simp_all add: e)

text \<open>Fulfilment.\<close>

lemma safe_markCompleted:
  assumes o1: "knows I o1 w" and paid: "po_OrderType o1 = OrderTypeSubscription \<or> code_used (po_RechargeCode o1) (w_db w)"
  shows "safe I (markCompleted o1 a) w"
  unfolding markCompleted_def
proof (rule pay.guards_time_Now, rule pay.guards_stmt_any)
  fix t w1 now db assume w1: "moves (payments_move I) w w1" and db: "payments_move I (w_db w1) db"
  obtain db0 where db0: "payments_wf db0" "o1 \<in> set (db_orders db0)" "payments_move I db0 (w_db w)"
    using o1 by (auto simp: knows_def)
  have m: "payments_move I (w_db w) db" using moves_db [OF w1] db by (rule payments_move_trans)
  have "po_OrderType o1 = OrderTypeSubscription \<or> code_used (po_RechargeCode o1) db"
    using paid code_used_later [OF m] knows_calm [OF o1] by (auto simp: calm_def)
  from move_completed [OF payments_move_trans [OF db0(3) m] db0(1,2) this]
  show "payments_move I db (snd (order_Update (has_status (po_ID o1) [OrderStatusRecharging])
      (\<lambda>x. x\<lparr>po_Status := OrderStatusCompleted, po_CompletedAt := Some t\<rparr>) now db))" .
next
  fix t w1 r w2
  show "safe I (on_error (wrap ''mark completed'') (\<lambda>_. writeAuditLog (po_ID o1) a ''system'' (succeed ())) r) w2"
    by (rule pay.guards_on_error) (simp_all add: safe_writeAuditLog)
qed

lemma safe_markFailed:
  "(\<And>w1. moves (payments_move I) w w1 \<Longrightarrow> safe I k w1) \<Longrightarrow> safe I (markFailed env oid e k) w"
  unfolding markFailed_def
  by (intro pay.guards_time_Now pay.guards_stmt_any pay.guards_case_sum pay.guards_if safe_writeAuditLog move_failed)
     (auto intro: pay.moves_trans)

lemma safe_CreateCode:
  assumes "knows I o1 w"
  shows "safe I (CreateCode (order_code o1)) w"
proof -
  obtain db0 where db0: "payments_wf db0" "o1 \<in> set (db_orders db0)" using assms by (auto simp: knows_def)
  have "0 \<le> po_Amount o1" using db0 by (simp add: payments_wf_def)
  then have "payments_move I db (snd (code_Create (order_code o1\<lparr>rc_Code := c\<rparr>) now db))" for c now db
    by (intro move_code_Create) (simp_all add: order_code_def IsUsed_def code_status_defs)
  moreover have "order_code o1\<lparr>rc_Code := c, rc_Status := StatusUnused\<rparr> = order_code o1\<lparr>rc_Code := c\<rparr>"
    "rc_Type (order_code o1) = RedeemTypeBalance" "rc_Status (order_code o1) = StatusUnused" for c
    by (simp_all add: order_code_def)
  ultimately show ?thesis
    unfolding CreateCode_def Let_def
    by (intro pay.guards_intros) (simp_all add: redeem_type_defs code_status_defs)
qed

lemma safe_doBalance:
  assumes o1: "knows I o1 w"
  shows "safe I (doBalance env o1) w"
  unfolding doBalance_def Let_def
proof -
  let ?redeem = "bind (Redeem (pe_cache env) (po_UserID o1) (po_RechargeCode o1))
      (on_error (wrap ''redeem balance'') (\<lambda>_. markCompleted o1 ''RECHARGE_SUCCESS''))"
  have redeem: "safe I ?redeem v" if v: "knows I o1 v" for v
  proof (rule pay.guards_bind, rule pay.guards_weaken
      [OF pay.guards_track [OF Redeem_safe [OF knows_calm [OF v]] pay.moves_refl]])
    fix r :: "go_error + RedeemCode" and t
    assume t: "((\<exists>c. r = Inr c) \<longrightarrow> code_used (po_RechargeCode o1) (w_db t)) \<and> moves (payments_move I) v t"
    have "knows I o1 t" using v t knows_later by blast
    then show "safe I (on_error (wrap ''redeem balance'') (\<lambda>_. markCompleted o1 ''RECHARGE_SUCCESS'') r) t"
      using t by (cases r) (auto intro: safe_markCompleted)
  qed
  show "safe I (bind (GetByCode (po_RechargeCode o1)) (\<lambda>existing.
           case resolveRedeemAction existing of
             redeemActionCreate \<Rightarrow>
               bind (CreateCode (order_code o1)) (on_error (wrap ''create redeem code'') (\<lambda>_. ?redeem))
           | redeemActionRedeem \<Rightarrow> ?redeem
           | redeemActionSkipCompleted \<Rightarrow> markCompleted o1 ''RECHARGE_SUCCESS'')) w"
  proof (rule pay.guards_bind, rule pay.guards_weaken
      [OF pay.guards_track [OF safe_GetByCode [OF knows_calm [OF o1]] pay.moves_refl]])
    fix existing :: "go_error + RedeemCode" and v
    assume v: "(\<forall>c. existing = Inr c \<and> IsUsed c \<longrightarrow> code_used (po_RechargeCode o1) (w_db v)) \<and> moves (payments_move I) w v"
    have kv: "knows I o1 v" using o1 v knows_later by blast
    have create: "safe I (bind (CreateCode (order_code o1)) (on_error (wrap ''create redeem code'') (\<lambda>_. ?redeem))) v"
    proof (rule pay.guards_bind_any [OF safe_CreateCode [OF kv]], rule pay.guards_on_error)
      show "safe I ?redeem w1" if "moves (payments_move I) v w1" for w1
        by (rule redeem [OF knows_later [OF kv that]])
    qed simp
    show "safe I (case resolveRedeemAction existing of
             redeemActionCreate \<Rightarrow>
               bind (CreateCode (order_code o1)) (on_error (wrap ''create redeem code'') (\<lambda>_. ?redeem))
           | redeemActionRedeem \<Rightarrow> ?redeem
           | redeemActionSkipCompleted \<Rightarrow> markCompleted o1 ''RECHARGE_SUCCESS'') v"
      using create redeem [OF kv] safe_markCompleted [OF kv] v
      by (auto simp: resolveRedeemAction_def split: sum.split)
  qed
qed

lemma safe_doSub:
  assumes o1: "knows I o1 w" and sub: "po_OrderType o1 = OrderTypeSubscription"
  shows "safe I (doSub o1) w"
proof -
  have compl: "safe I (markCompleted o1 a) v" if "knows I o1 v" for a v
    using safe_markCompleted [OF that] sub by simp
  show ?thesis
    unfolding doSub_def Let_def
    by (intro pay.guards_intros pay.guards_case_option pay.guards_case_prod safe_hasAuditLog safe_AssignOrExtend compl)
       (auto intro: knows_later [OF o1] pay.moves_trans)
qed

lemma safe_execute_order:
  assumes c: "calm I w"
    and f: "\<And>o1 w1. moves (payments_move I) w w1 \<Longrightarrow> knows I o1 w1 \<Longrightarrow> po_ID o1 = oid \<Longrightarrow> safe I (fulfil o1) w1"
  shows "safe I (execute_order env precondition fulfil oid) w"
  unfolding execute_order_def
proof (rule safe_order_Get [OF c], simp, unfold on_error_simps)
  fix o1 w1 assume w1: "moves (payments_move I) w w1" and o1: "knows I o1 w1" "po_ID o1 = oid"
  have run: "safe I (bind (fulfil o1) (\<lambda>r. case r of Inl e \<Rightarrow> markFailed env oid e (fail e) | Inr _ \<Rightarrow> succeed ())) w2"
    if w2: "moves (payments_move I) w1 w2" for w2
    by (rule pay.guards_bind_any [OF f], rule pay.moves_trans [OF w1 w2], rule knows_later [OF o1(1) w2], rule o1)
       (auto intro!: pay.guards_case_sum safe_markFailed)
  show "safe I (if po_Status o1 = OrderStatusCompleted then succeed ()
       else if psIsRefundStatus (po_Status o1) then fail (err_status ''refund-related order cannot fulfill'')
       else if po_Status o1 \<noteq> OrderStatusPaid \<and> po_Status o1 \<noteq> OrderStatusFailed
       then fail (err_status (''order cannot fulfill in status '' @ po_Status o1))
       else (case precondition o1 of
           None \<Rightarrow>
             stmt (order_Update (has_status oid [OrderStatusPaid, OrderStatusFailed])
                    (\<lambda>x. x\<lparr>po_Status := OrderStatusRecharging\<rparr>))
               (on_error (wrap ''lock'') (\<lambda>c.
                 if c = 0 then succeed ()
                 else bind (fulfil o1) (\<lambda>r. case r of
                     Inl e \<Rightarrow> markFailed env oid e (fail e)
                   | Inr _ \<Rightarrow> succeed ())))
         | Some e \<Rightarrow> fail e)) w1"
    by (intro pay.guards_if pay.guards_case_option pay.guards_stmt_any pay.guards_on_error run move_lock) simp_all
qed

lemma safe_executeFulfillment:
  assumes c: "calm I w"
  shows "safe I (executeFulfillment env oid) w"
  unfolding executeFulfillment_def
proof (rule safe_order_Get [OF c], simp, unfold on_error_simps, rule pay.guards_if)
  fix o1 w1 assume w1: "moves (payments_move I) w w1" and o1: "knows I o1 w1" "po_ID o1 = oid"
    and sub: "po_OrderType o1 = OrderTypeSubscription"
  show "safe I (ExecuteSubscriptionFulfillment env oid) w1"
    unfolding ExecuteSubscriptionFulfillment_def
  proof (rule safe_execute_order [OF knows_calm [OF o1(1)]], rule safe_doSub)
    fix o2 w2 assume w2: "moves (payments_move I) w1 w2" and o2: "knows I o2 w2" "po_ID o2 = oid"
    show "knows I o2 w2" by fact
    have k1: "knows I o1 w2" by (rule knows_later [OF o1(1) w2])
    obtain a where a: "payments_wf a" "o1 \<in> set (db_orders a)" "payments_move I a (w_db w2)" using k1 by (auto simp: knows_def)
    obtain b where b: "payments_wf b" "o2 \<in> set (db_orders b)" "payments_move I b (w_db w2)" using o2 by (auto simp: knows_def)
    obtain x where x: "x \<in> set (db_orders (w_db w2))" "order_evolves I o1 x"
      using payments_moveD(2) [OF a(3,1)] a(2) by (auto simp: orders_kept_def)
    obtain y where y: "y \<in> set (db_orders (w_db w2))" "order_evolves I o2 y"
      using payments_moveD(2) [OF b(3,1)] b(2) by (auto simp: orders_kept_def)
    have "x = y"
      using x y o1(2) o2(2) knows_calm [OF o2(1)]
      by (auto simp: order_evolves_def calm_def payments_wf_def distinct_map inj_on_def)
    then show "po_OrderType o2 = OrderTypeSubscription"
      using x(2) y(2) sub by (simp add: order_evolves_def)
  qed
next
  fix o1 w1 assume "knows I o1 w1"
  then show "safe I (ExecuteBalanceFulfillment env oid) w1"
    unfolding ExecuteBalanceFulfillment_def
    by (intro safe_execute_order knows_calm safe_doBalance) auto
qed

text \<open>Notifications, retries, cancelling.\<close>

lemma safe_alreadyProcessed: "knows I o1 w \<Longrightarrow> safe I (alreadyProcessed env o1) w"
  unfolding alreadyProcessed_def
  by (rule safe_order_Get [OF knows_calm])
     (auto intro!: pay.guards_if safe_executeFulfillment safe_writeAuditLog intro: knows_calm)

lemma safe_toPaid:
  assumes o1: "knows I o1 w"
  shows "safe I (toPaid env o1 tradeNo paid pk) w"
  unfolding toPaid_def Let_def
proof (rule pay.guards_time_Now, rule pay.guards_stmt_any, rule move_paid, rule pay.guards_on_error)
  fix t w1 r x w2 assume m: "moves (payments_move I) w w1" "moves (payments_move I) w1 w2"
  have k: "knows I o1 v" if "moves (payments_move I) w2 v" for v
    by (rule knows_later [OF knows_later [OF knows_later [OF o1 m(1)] m(2)] that])
  have ex: "safe I (writeAuditLog (po_ID o1) ''ORDER_PAID'' pk (executeFulfillment env (po_ID o1))) v"
    if "moves (payments_move I) w2 v" for v
    by (rule safe_writeAuditLog, rule safe_executeFulfillment, rule knows_calm, rule knows_later [OF k [OF that]])
  show "safe I (if x = 0 then alreadyProcessed env o1
              else if po_Status o1 = OrderStatusCancelled \<or> po_Status o1 = OrderStatusExpired
              then writeAuditLog (po_ID o1) ''ORDER_RECOVERED'' pk
                (writeAuditLog (po_ID o1) ''ORDER_PAID'' pk (executeFulfillment env (po_ID o1)))
              else writeAuditLog (po_ID o1) ''ORDER_PAID'' pk (executeFulfillment env (po_ID o1))) w2"
    by (intro pay.guards_if safe_alreadyProcessed safe_writeAuditLog [where op = pk and a = "''ORDER_RECOVERED''"]
        ex k pay.moves_refl) auto
qed simp

lemma safe_confirmPayment:
  assumes c: "calm I w"
  shows "safe I (confirmPayment env oid tradeNo paid pk) w"
  unfolding confirmPayment_def
proof (rule safe_order_Get [OF c], simp, unfold on_error_simps)
  fix o1 w1 assume "knows I o1 w1"
  then have t: "safe I (toPaid env o1 tradeNo a pk) w1" for a by (rule safe_toPaid)
  show "safe I (case paid of Finite x \<Rightarrow>
           if 0 < x \<and> \<bar>x - po_PayAmount o1\<bar> > amountToleranceCNY
           then writeAuditLog (po_ID o1) ''PAYMENT_AMOUNT_MISMATCH'' pk (fail (PlainErr ''amount mismatch''))
           else toPaid env o1 tradeNo (if x \<le> 0 then po_PayAmount o1 else x) pk
       | _ \<Rightarrow> toPaid env o1 tradeNo (po_PayAmount o1) pk) w1"
    using t by (cases paid) (auto intro: safe_writeAuditLog)
qed

lemma safe_HandlePaymentNotification:
  assumes c: "calm I w"
  shows "safe I (HandlePaymentNotification env n pk) w"
  unfolding HandlePaymentNotification_def
proof (rule pay.guards_if)
  show "safe I (stmt (order_ByOutTradeNo (pn_OrderID n)) (on_error
        (\<lambda>_. case Atoi (TrimPrefix (pn_OrderID n) orderIDPrefix) of
            None \<Rightarrow> fail (PlainErr (''order not found for out_trade_no: '' @ pn_OrderID n))
          | Some oid \<Rightarrow> confirmPayment env oid (pn_TradeNo n) (pn_Amount n) pk)
        (\<lambda>o1. confirmPayment env (po_ID o1) (pn_TradeNo n) (pn_Amount n) pk))) w"
    by (rule safe_order_ByOutTradeNo [OF c])
       (auto intro!: pay.guards_case_option safe_confirmPayment intro: calm_later [OF c] knows_calm)
qed simp

lemma safe_RetryFulfillment:
  assumes c: "calm I w"
  shows "safe I (RetryFulfillment env oid) w"
  unfolding RetryFulfillment_def
proof (rule safe_order_Get [OF c], simp, unfold on_error_simps)
  fix o1 w1 assume "knows I o1 w1"
  then have c1: "calm I w1" by (rule knows_calm)
  have run: "safe I (writeAuditLog oid ''RECHARGE_RETRY'' ''admin'' (executeFulfillment env oid)) w2"
    if "moves (payments_move I) w1 w2" for w2
    by (rule safe_writeAuditLog, rule safe_executeFulfillment) (rule calm_later [OF calm_later [OF c1 that]])
  show "safe I (if po_PaidAt o1 = None then fail (err_status ''order is not paid'')
       else if psIsRefundStatus (po_Status o1) then fail (err_status ''refund-related order cannot retry'')
       else if po_Status o1 = OrderStatusRecharging
       then fail (AppErr (Conflict ''CONFLICT'' ''order is being processed''))
       else if po_Status o1 = OrderStatusCompleted then fail (err_status ''order already completed'')
       else if po_Status o1 \<noteq> OrderStatusFailed \<and> po_Status o1 \<noteq> OrderStatusPaid
       then fail (err_status ''only paid and failed orders can retry'')
       else stmt (order_Update (has_status oid [OrderStatusFailed, OrderStatusPaid])
                   (\<lambda>x. x\<lparr>po_Status := OrderStatusPaid, po_FailedAt := None, po_FailedReason := None\<rparr>))
              (on_error (wrap ''reset for retry'') (\<lambda>_.
                writeAuditLog oid ''RECHARGE_RETRY'' ''admin'' (executeFulfillment env oid)))) w1"
    by (intro pay.guards_if pay.guards_stmt_any pay.guards_on_error run move_retry) simp_all
qed

lemma safe_getOrderProvider: "safe I (getOrderProvider env o1) w"
proof -
  have "safe I (GetInstanceConfig env i) w" for i w
    unfolding GetInstanceConfig_def by (intro pay.guards_intros) simp_all
  then show ?thesis
    unfolding getOrderProvider_def Let_def by (intro pay.guards_intros pay.guards_if) simp_all
qed

lemma safe_checkPaid:
  assumes c: "calm I w" and k: "\<And>res w1. moves (payments_move I) w w1 \<Longrightarrow> safe I (k res) w1"
  shows "safe I (checkPaid env o1 k) w"
  unfolding checkPaid_def
proof (rule pay.guards_bind_any [OF safe_getOrderProvider], rule pay.guards_case_sum)
  fix w1 r prov assume w1: "moves (payments_move I) w w1"
  show "safe I (time_Now (\<lambda>now. case pv_QueryOrder prov now
                   (if po_PaymentTradeNo o1 = [] then po_OutTradeNo o1 else po_PaymentTradeNo o1) of
              Inl _ \<Rightarrow> k []
            | Inr resp \<Rightarrow>
                if qr_Status resp = ProviderStatusPaid
                then bind (HandlePaymentNotification env
                       \<lparr>pn_TradeNo = po_PaymentTradeNo o1, pn_OrderID = po_OutTradeNo o1,
                        pn_Amount = qr_Amount resp, pn_Status = ProviderStatusSuccess\<rparr>
                       (pv_ProviderKey prov)) (\<lambda>_. k checkPaidResultAlreadyPaid)
                else k [])) w1"
    by (intro pay.guards_time_Now pay.guards_case_sum pay.guards_if pay.guards_bind_any
          safe_HandlePaymentNotification k)
       (auto intro: calm_later [OF c] w1 pay.moves_trans)
qed (simp add: k)

lemma safe_cancelCore:
  assumes c: "calm I w" and fs: "fs = OrderStatusCancelled \<or> fs = OrderStatusExpired"
  shows "safe I (cancelCore env o1 fs op) w"
proof -
  have rest: "safe I (stmt (order_Update (has_status (po_ID o1) [OrderStatusPending]) (\<lambda>x. x\<lparr>po_Status := fs\<rparr>))
            (on_error (wrap ''update order status'') (\<lambda>c.
              if 0 < c then writeAuditLog (po_ID o1)
                  (if fs = OrderStatusExpired then ''ORDER_EXPIRED'' else ''ORDER_CANCELLED'') op
                  (succeed checkPaidResultCancelled)
              else succeed checkPaidResultCancelled))) v" for v
    by (intro pay.guards_stmt_any pay.guards_on_error pay.guards_if safe_writeAuditLog move_cancel fs) simp_all
  show ?thesis
    unfolding cancelCore_def Let_def
    by (intro pay.guards_if safe_checkPaid c rest) simp_all
qed

lemma safe_cancel:
  assumes c: "calm I w"
  shows "safe I (CancelOrder env oid uid) w" "safe I (AdminCancelOrder env oid) w"
  unfolding CancelOrder_def AdminCancelOrder_def
  by (rule safe_order_Get [OF c]; auto intro!: pay.guards_if safe_cancelCore intro: knows_calm)+

lemma safe_reload: "calm I w \<Longrightarrow> safe I (reload_if_paid env o1) w"
  unfolding reload_if_paid_def
  by (intro pay.guards_if safe_checkPaid pay.guards_stmt_any pay.guards_on_error) simp_all

lemma safe_verify:
  assumes c: "calm I w"
  shows "safe I (VerifyOrderByOutTradeNo env no uid) w" "safe I (VerifyOrderPublic env no) w"
  unfolding VerifyOrderByOutTradeNo_def VerifyOrderPublic_def
  by (rule safe_order_ByOutTradeNo [OF c]; auto intro!: pay.guards_if safe_reload intro: knows_calm)+

lemma safe_ExpireTimedOutOrders:
  assumes c: "calm I w"
  shows "safe I (ExpireTimedOutOrders env) w"
  unfolding ExpireTimedOutOrders_def
proof (rule pay.guards_stmt_any, simp, rule pay.guards_on_error, simp, rule pay.guards_bind_any)
  fix r orders w1 assume w1: "moves (payments_move I) w w1"
  have step: "safe I (bind (cancelCore env o1 OrderStatusExpired ''system'') (\<lambda>r.
               Return (case r of Inl _ \<Rightarrow> n | Inr outcome \<Rightarrow>
                   if outcome = checkPaidResultAlreadyPaid then n else if outcome \<noteq> [] then n + 1 else n))) t"
    if "moves (payments_move I) w1 t" for o1 t and n :: nat
    by (rule pay.guards_bind_any [OF safe_cancelCore [OF calm_later [OF calm_later [OF c w1] that]]]) simp_all
  show "safe I (foreach orders (\<lambda>o1 n. bind (cancelCore env o1 OrderStatusExpired ''system'') (\<lambda>r.
               Return (case r of Inl _ \<Rightarrow> n | Inr outcome \<Rightarrow>
                   if outcome = checkPaidResultAlreadyPaid then n else if outcome \<noteq> [] then n + 1 else n))) (0::nat)) w1"
    by (rule pay.guards_foreach [OF _ pay.moves_refl]) (rule step)
qed simp_all

lemma safe_RequestRefund:
  assumes c: "calm I w"
  shows "safe I (RequestRefund oid uid reason) w"
proof -
  have inst: "safe I (getOrderProviderInstance o1) v" for o1 v
    unfolding getOrderProviderInstance_def by (intro pay.guards_intros) simp_all
  have "safe I (validateRefundRequest oid uid) w"
    unfolding validateRefundRequest_def Let_def
    by (intro pay.guards_intros inst) simp_all
  then show ?thesis
    unfolding RequestRefund_def
    by (intro pay.guards_intros safe_writeAuditLog move_request) simp_all
qed

text \<open>Creating an order. Plans have a price of at least zero, and rounding keeps that.\<close>

definition sane_env :: "create_env \<Rightarrow> decimal_lib \<Rightarrow> bool" where
  "sane_env ce dl \<longleftrightarrow> (\<forall>t i p. ce_plans ce t i = Inr p \<longrightarrow> 0 \<le> sn_Price p) \<and> (\<forall>x. 0 \<le> x \<longrightarrow> 0 \<le> dl_Round2 dl x)"

lemma statement_moves:
  "(\<And>now db. payments_move I db (snd (q now db))) \<Longrightarrow> moves (payments_move I) w (snd (statement q w))"
  using statement_db [of q w] by (auto simp: moves_def pay.rel_option_D_refl)

lemma exec_insert_order:
  assumes x: "po_RechargeCode x = []" "po_Status x = OrderStatusPending" "0 \<le> po_Amount x"
  shows "moves (payments_move I) w (snd (exec (insert_order x) w))"
proof -
  let ?v = "snd (statement (order_Create x) w)"
  have v: "moves (payments_move I) w ?v" by (rule statement_moves) (rule move_order_Create [OF x])
  show ?thesis
  proof (cases "fst (statement (order_Create x) w)")
    case (Inl e)
    then show ?thesis using v by (simp add: insert_order_def exec_stmt)
  next
    case (Inr row)
    have fresh: "po_ID y \<noteq> fresh_id (map po_ID (db_orders (w_db w)))" if "y \<in> set (db_orders (w_db w))" for y
      using fresh_id_neq [OF that, of po_ID] by (rule not_sym)
    have new: "po_RechargeCode y = [] \<and> po_Status y = OrderStatusPending"
      if "y \<in> set (db_orders (w_db ?v))" "po_ID y = po_ID row" for y
      using statement_ok [OF Inr] that x fresh by (auto simp: order_Create_def Let_def)
    let ?q = "order_UpdateOneID (po_ID row) (\<lambda>y. y\<lparr>po_RechargeCode := recharge_code (po_ID row) (w_now ?v)\<rparr>)"
    have "payments_move I (w_db ?v) (snd (?q (w_now ?v) (w_db ?v)))"
      by (rule move_recharge_code) (rule new)
    then have u: "moves (payments_move I) ?v (snd (statement ?q ?v))"
      using statement_db [of ?q ?v] by (auto simp: moves_def pay.rel_option_D_refl)
    have "snd (exec (insert_order x) w) = snd (statement ?q ?v)"
      by (cases "fst (statement ?q ?v)") (simp_all add: insert_order_def exec_stmt Inr)
    then show ?thesis using pay.moves_trans [OF v u] by simp
  qed
qed

text \<open>The order that a creation returns was not there before.\<close>

lemma insert_order_new:
  assumes "fst (exec (insert_order x) w) = Inr o1"
  shows "po_ID o1 \<notin> po_ID ` set (db_orders (w_db w))"
proof (cases "fst (statement (order_Create x) w)")
  case (Inl e)
  with assms show ?thesis by (simp add: insert_order_def exec_stmt)
next
  case (Inr row)
  then have "po_ID row = fresh_id (map po_ID (db_orders (w_db w)))"
    using statement_ok [OF Inr] by (auto simp: order_Create_def Let_def)
  moreover have "po_ID o1 = po_ID row"
    using assms by (auto simp: insert_order_def exec_stmt Inr succeed_def wrap_def on_error_def split: sum.splits)
  moreover have "fresh_id (map po_ID (db_orders (w_db w))) \<notin> po_ID ` set (db_orders (w_db w))"
    using fresh_id_neq [of _ "db_orders (w_db w)" po_ID] by (metis imageE)
  ultimately show ?thesis by simp
qed

lemma transaction_order_new:
  assumes "fst (transaction (insert_order x) w) = Inr o1"
  shows "po_ID o1 \<notin> po_ID ` set (db_orders (w_db w))"
proof -
  obtain oc w1 where n: "next_outcome w = (oc, w1)" "w_db w1 = w_db w"
    using next_outcome_db(1) [of w] by (cases "next_outcome w") simp
  then have "fst (exec (insert_order x) (w1\<lparr>w_base := Some (w_db w1)\<rparr>)) = Inr o1"
    using assms by (auto simp: transaction_def split: if_splits prod.splits sum.splits outcome.splits)
  from insert_order_new [OF this] n(2) show ?thesis by simp
qed

lemma safe_createOrderInTx:
  assumes c: "calm I w" and a: "0 \<le> orderAmount"
  shows "paying I (\<lambda>r v. \<forall>o1. r = Inr o1 \<longrightarrow> po_ID o1 \<notin> I)
    (createOrderInTx ce req plan cfg orderAmount limitAmount feeRate payAmount) w"
proof -
  let ?Q = "\<lambda>r v. \<forall>o1. r = Inr o1 \<longrightarrow> po_ID o1 \<notin> I"
  have pending: "safe I (checkPendingLimit u m) v" for u m v
    unfolding checkPendingLimit_def Let_def by (intro pay.guards_intros) simp_all
  have daily: "safe I (checkDailyLimit ce u am l) v" for u am l v
    unfolding checkDailyLimit_def by (intro pay.guards_intros) simp_all
  have tx: "paying I ?Q (atomically (transaction (insert_order (new_order req plan orderAmount payAmount feeRate n t))) Return) v"
    if v: "calm I v" for n t v
    unfolding guards_atomically
  proof (intro allI impI conjI)
    let ?p = "insert_order (new_order req plan orderAmount payAmount feeRate n t)"
    fix u assume u: "moves (payments_move I) v u"
    then have cu: "calm I u" using v calm_later by blast
    have "safe I (atomically (transaction ?p) Return) v"
      by (rule pay.guards_transaction_exec)
         (use v a in \<open>auto simp: calm_def new_order_def intro!: exec_insert_order\<close>)
    with u show "moves (payments_move I) u (snd (transaction ?p u))" by (simp add: guards_atomically)
    show "paying I ?Q (Return (fst (transaction ?p u))) (snd (transaction ?p u))"
      using transaction_order_new [of _ u] cu by (auto simp: calm_def) blast
  qed
  show ?thesis
    unfolding createOrderInTx_def Let_def
    by (intro pay.guards_bind_any pay.guards_on_error pay.guards_time_Now pending daily tx)
       (auto intro: calm_later c pay.moves_trans simp: fail_def)
qed

lemma safe_SelectInstance: "safe I (SelectInstance dec decrypt loc key ty st amount) w"
proof -
  have "safe I (queryEnabledInstances key ty) v" for v
    unfolding queryEnabledInstances_def Let_def by (intro pay.guards_intros) simp_all
  moreover have "safe I (buildSelection decrypt i) v" for i v
    unfolding buildSelection_def by (intro pay.guards_case_sum) simp_all
  then have "safe I (pickByStrategy cs st (\<lambda>c. buildSelection decrypt (ic_inst c))) v" for cs v
    unfolding pickByStrategy_def
    by (auto simp: guards_atomically next_counter_def moves_def pay.rel_option_D_refl)
  ultimately show ?thesis
    unfolding SelectInstance_def attachDailyUsage_def Let_def
    by (intro pay.guards_bind_any pay.guards_on_error pay.guards_time_Now pay.guards_stmt_any) simp_all
qed

lemma safe_invokeProvider: "safe I (invokeProvider env ce o1 req cfg limitAmount payAmount plan) w"
  unfolding invokeProvider_def
  by (intro pay.guards_bind_any pay.guards_on_error pay.guards_time_Now pay.guards_stmt_any pay.guards_case_sum
        safe_SelectInstance safe_writeAuditLog move_details) simp_all

text \<open>The amounts that pass the checks are not negative.\<close>

definition amount_checked :: "CreateOrderRequest \<Rightarrow> SubscriptionPlan option \<Rightarrow> bool" where
  "amount_checked req plan \<longleftrightarrow> (case plan of Some p \<Rightarrow> 0 \<le> sn_Price p | None \<Rightarrow> 0 \<le> finite_amount (cr_Amount req))"

lemma validateSubOrder_price:
  assumes "sane_env ce dl"
  shows "paying I (\<lambda>r v. \<forall>p. r = Inr p \<longrightarrow> 0 \<le> sn_Price p) (validateSubOrder ce rq) w"
  unfolding validateSubOrder_def GetPlan_def bind_time_Now
proof (rule pay.guards_if, simp add: pay.guards_error_result, rule pay.guards_time_Now)
  fix t w1
  let ?h = "\<lambda>r. let na = fail (AppErr (NotFound ''PLAN_NOT_AVAILABLE'' ''plan not found or not for sale'')) in
        case r of
          Inl _ \<Rightarrow> na
        | Inr plan \<Rightarrow>
            if \<not> sn_ForSale plan then na
            else stmt (group_GetByID (sn_GroupID plan)) (\<lambda>g.
              let gone = fail (AppErr (NotFound ''GROUP_NOT_FOUND''
                     ''subscription group is no longer available'')) in
              case g of
                Inl _ \<Rightarrow> gone
              | Inr grp \<Rightarrow>
                  if grp_Status grp \<noteq> EntityStatusActive then gone
                  else if \<not> IsSubscriptionType grp
                  then fail (AppErr (BadRequest ''GROUP_TYPE_MISMATCH'' ''group is not a subscription type''))
                  else succeed plan)"
  show "paying I (\<lambda>r v. \<forall>p. r = Inr p \<longrightarrow> 0 \<le> sn_Price p)
      (bind (case ce_plans ce t (cr_PlanID rq) of
         Inl _ \<Rightarrow> fail (AppErr (NotFound ''PLAN_NOT_FOUND'' ''subscription plan not found''))
       | Inr p \<Rightarrow> succeed p) ?h) w1"
  proof (cases "ce_plans ce t (cr_PlanID rq)")
    case (Inr p)
    then have p: "0 \<le> sn_Price p" using assms by (auto simp: sane_env_def)
    have "paying I (\<lambda>r v. \<forall>p. r = Inr p \<longrightarrow> 0 \<le> sn_Price p) (?h (Inr p)) w1"
      unfolding Let_def sum.case
      by (intro pay.guards_if pay.guards_stmt_any pay.guards_case_sum) (simp_all add: fail_def succeed_def p)
    then show ?thesis by (simp add: Inr succeed_def)
  qed (simp add: fail_def)
qed

lemma validateOrderInput_amount:
  assumes s: "sane_env ce dl"
  shows "paying I (\<lambda>r v. \<forall>plan. r = Inr plan \<longrightarrow> amount_checked req plan) (validateOrderInput ce cfg req) w"
  unfolding validateOrderInput_def Let_def
proof (intro pay.guards_if)
  show "paying I (\<lambda>r v. \<forall>plan. r = Inr plan \<longrightarrow> amount_checked req plan)
      (bind (validateSubOrder ce req) (on_error fail (\<lambda>p. succeed (Some p)))) w"
  proof (rule pay.guards_bind, rule pay.guards_weaken [OF validateSubOrder_price [OF s]])
    fix r :: "go_error + SubscriptionPlan" and v
    assume "\<forall>p. r = Inr p \<longrightarrow> 0 \<le> sn_Price p"
    then show "paying I (\<lambda>r v. \<forall>plan. r = Inr plan \<longrightarrow> amount_checked req plan)
        (on_error fail (\<lambda>p. succeed (Some p)) r) v"
      by (cases r) (simp_all add: fail_def succeed_def amount_checked_def)
  qed
qed (auto simp: fail_def succeed_def amount_checked_def finite_amount_def split: go_float.split)

lemma calculateCreditedBalance_nonneg:
  "sane_env ce dl \<Longrightarrow> 0 \<le> x \<Longrightarrow> 0 \<le> calculateCreditedBalance dl x m"
  by (auto simp: calculateCreditedBalance_def sane_env_def normalizeBalanceRechargeMultiplier_def
      defaultBalanceRechargeMultiplier_def split: go_float.split)

lemma safe_place_order:
  assumes c: "calm I w" and a: "0 \<le> orderAmount"
  shows "safe I (bind (createOrderInTx ce req plan cfg orderAmount limitAmount feeRate payAmount)
    (on_error fail (\<lambda>o1. bind (invokeProvider env ce o1 req cfg limitAmount payAmount plan) (on_error
       (\<lambda>e. set_status (po_ID o1) (\<lambda>x. x\<lparr>po_Status := OrderStatusFailed\<rparr>) (fail e)) succeed)))) w"
proof (rule pay.guards_bind, rule pay.guards_weaken [OF safe_createOrderInTx [OF c a]])
  fix r :: "go_error + PaymentOrder" and v
  assume new: "\<forall>o1. r = Inr o1 \<longrightarrow> po_ID o1 \<notin> I"
  show "safe I (on_error fail (\<lambda>o1. bind (invokeProvider env ce o1 req cfg limitAmount payAmount plan) (on_error
       (\<lambda>e. set_status (po_ID o1) (\<lambda>x. x\<lparr>po_Status := OrderStatusFailed\<rparr>) (fail e)) succeed)) r) v"
    unfolding set_status_def
    by (intro pay.guards_bind_any pay.guards_on_error pay.guards_stmt_any safe_invokeProvider move_creation_failed)
      (use new in auto)
qed

lemma safe_CreateOrder:
  assumes c: "calm I w" and s: "sane_env ce dl"
  shows "safe I (CreateOrder env ce dl req0) w"
proof -
  have cancel: "safe I (checkCancelRateLimit ce u cfg) v" for u cfg v
    unfolding checkCancelRateLimit_def by (intro pay.guards_intros) simp_all
  define req where "req = (if cr_OrderType req0 = [] then req0\<lparr>cr_OrderType := OrderTypeBalance\<rparr> else req0)"
  have rest: "safe I (bind (checkCancelRateLimit ce (cr_UserID req) cfg) (on_error fail (\<lambda>_.
      stmt (user_GetByID (cr_UserID req)) (on_error (wrap ''get user'') (\<lambda>user.
        if usr_Status user \<noteq> EntityStatusActive
        then fail (AppErr (Forbidden ''USER_INACTIVE'' ''user account is disabled''))
        else
          (let limitAmount = (case plan of Some p \<Rightarrow> sn_Price p | None \<Rightarrow> finite_amount (cr_Amount req));
               orderAmount = (case plan of Some p \<Rightarrow> sn_Price p
                 | None \<Rightarrow> if cr_OrderType req = OrderTypeBalance
                     then calculateCreditedBalance dl (finite_amount (cr_Amount req))
                            (pc_BalanceRechargeMultiplier cfg)
                     else finite_amount (cr_Amount req));
               payAmount = CalculatePayAmount dl limitAmount (pc_RechargeFeeRate cfg)
           in bind (createOrderInTx ce req plan cfg orderAmount limitAmount (pc_RechargeFeeRate cfg) payAmount)
                (on_error fail (\<lambda>o1.
                  bind (invokeProvider env ce o1 req cfg limitAmount payAmount plan) (on_error
                    (\<lambda>e. set_status (po_ID o1) (\<lambda>x. x\<lparr>po_Status := OrderStatusFailed\<rparr>) (fail e))
                    succeed))))))))) v"
    if v: "calm I v" and ok: "amount_checked req plan" for cfg plan v
    unfolding Let_def
    by (intro pay.guards_bind_any pay.guards_on_error pay.guards_stmt_any pay.guards_if cancel safe_place_order)
       (use ok calculateCreditedBalance_nonneg [OF s] in
         \<open>auto simp: amount_checked_def split: option.split intro: calm_later v pay.moves_trans\<close>)
  show ?thesis
    unfolding CreateOrder_def req_def [symmetric] Let_def [of req]
  proof (rule pay.guards_time_Now, rule pay.guards_case_sum, simp, rule pay.guards_if, simp,
      rule pay.guards_bind, rule pay.guards_weaken [OF pay.guards_track [OF validateOrderInput_amount [OF s] pay.moves_refl]],
      rule pay.guards_on_error, simp, rule rest)
    fix t w1 cfg r v plan
    assume "moves (payments_move I) w w1" "(\<forall>plan. r = Inr plan \<longrightarrow> amount_checked req plan) \<and> moves (payments_move I) w1 v"
      "r = Inr plan"
    then show "calm I v" "amount_checked req plan" using c calm_later by blast+
  qed
qed

end
