(* ===== verification/PaymentGuarantees.thy ===== *)
theory PaymentGuarantees
  imports PaymentProps
begin

text \<open>
  The properties of payments. First what a call achieves that runs alone without faults: a paid order
  is fulfilled. Then what holds for any number of concurrent calls with any faults (\<open>PaymentProps\<close>):
  credits, completed orders, the life cycle of an order.
\<close>

section \<open>A paid order is fulfilled\<close>

lemma exec_writeAuditLog:
  "w_faults w = [] \<Longrightarrow> exec (writeAuditLog oid a op k) w = exec k (w\<lparr>w_db := snd (audit_insert oid a op (w_now w) (w_db w))\<rparr>)"
  by (simp add: writeAuditLog_def audit_insert_def)

lemma order_Get_row:
  "payments_wf db \<Longrightarrow> x \<in> set (db_orders db) \<Longrightarrow> order_Get (po_ID x) now db = (Inr x, db)"
  by (simp add: order_Get_def payments_wf_def only_key)

definition with_status :: "int \<Rightarrow> (PaymentOrder \<Rightarrow> PaymentOrder) \<Rightarrow> gotime \<Rightarrow> PaymentOrder list \<Rightarrow> PaymentOrder list" where
  "with_status oid f now rows = change (\<lambda>x. po_ID x = oid) (\<lambda>x. (f x)\<lparr>po_UpdatedAt := now\<rparr>) rows"

text \<open>A conditional update of a row that satisfies the condition.\<close>

lemma order_Update_row:
  assumes "distinct (map po_ID (db_orders db))" "x \<in> set (db_orders db)" "po_Status x \<in> set sts"
  shows "\<exists>n. order_Update (has_status (po_ID x) sts) f now db =
    (Inr (Suc n), db\<lparr>db_orders := with_status (po_ID x) f now (db_orders db)\<rparr>)"
proof -
  have "y = x" if "y \<in> set (db_orders db)" "po_ID y = po_ID x" for y
    using assms(1,2) that by (auto simp: distinct_map inj_on_def)
  then have "change (has_status (po_ID x) sts) (\<lambda>o1. (f o1)\<lparr>po_UpdatedAt := now\<rparr>) (db_orders db) =
      with_status (po_ID x) f now (db_orders db)"
    unfolding with_status_def using assms(3) by (intro change_pred_cong) (auto simp: has_status_def)
  moreover have "filter (has_status (po_ID x) sts) (db_orders db) \<noteq> []"
    using assms(2,3) by (auto simp: filter_empty_conv has_status_def)
  then obtain n where "matches (has_status (po_ID x) sts) (db_orders db) = Suc n"
    by (cases "filter (has_status (po_ID x) sts) (db_orders db)") (simp_all add: matches_def)
  ultimately show ?thesis by (simp add: order_Update_def)
qed

lemma with_status_row:
  assumes "x \<in> set rows" "po_ID x = oid"
  shows "(f x)\<lparr>po_UpdatedAt := now\<rparr> \<in> set (with_status oid f now rows)"
  using assms by (auto simp: with_status_def set_change image_iff intro!: bexI [of _ x])

lemma map_with_status: "(\<And>x. po_ID (f x) = po_ID x) \<Longrightarrow> map po_ID (with_status oid f now rows) = map po_ID rows"
  by (simp add: with_status_def map_change)

text \<open>What an earlier attempt may have left behind: no code, or the code of this order.\<close>

definition own_code :: "PaymentOrder \<Rightarrow> business_db \<Rightarrow> bool" where
  "own_code x db \<longleftrightarrow> (\<forall>c \<in> set (db_codes db). rc_Code c = po_RechargeCode x \<longrightarrow>
     rc_Type c = RedeemTypeBalance \<and> rc_Value c = po_Amount x \<and> (rc_Status c = StatusUnused \<or> rc_Status c = StatusUsed))"

definition alone :: "world \<Rightarrow> bool" where
  "alone w \<longleftrightarrow> w_faults w = [] \<and> w_base w = None"

lemma only_none: "\<forall>x \<in> set rows. \<not> p x \<Longrightarrow> only p rows = Inl ErrEntNotFound"
  by (simp add: only_def filter_False)

lemma credited_to:
  assumes "distinct (map usr_ID users)" "user \<in> set users"
  shows "balance_of v (change (\<lambda>x. usr_ID x = usr_ID user) (\<lambda>x. x\<lparr>usr_Balance := usr_Balance x + a,
      usr_TotalRecharged := g x\<rparr>) users) = balance_of v users + (if v = usr_ID user then a else 0)"
proof -
  have "matches (\<lambda>x. usr_ID x = usr_ID user) users \<noteq> 0"
    using assms(2) by (auto simp: matches_def filter_empty_conv)
  from balance_of_change [OF assms(1) this, of "\<lambda>x. x\<lparr>usr_Balance := usr_Balance x + a, usr_TotalRecharged := g x\<rparr>" a v]
  show ?thesis by simp
qed


lemma may_redeem_tables [simp]: "may_redeem c u k (w\<lparr>w_db := db\<rparr>) = may_redeem c u k w"
  by (simp add: may_redeem_def GetRedeemAttemptCount_def split: option.split)

lemma live_user:
  assumes "distinct (map usr_ID users)" "user \<in> set users" "\<not> usr_deleted user"
  shows "only (\<lambda>x. usr_ID x = usr_ID user \<and> \<not> usr_deleted x) users = Inr user"
proof -
  have "filter (\<lambda>x. usr_ID x = usr_ID user \<and> \<not> usr_deleted x) users =
      filter (\<lambda>x. \<not> usr_deleted x) (filter (\<lambda>x. usr_ID x = usr_ID user) users)"
    by (simp add: conj_commute)
  also have "\<dots> = [user]" using distinct_filter_key [OF assms(1,2)] assms(3) by simp
  finally show ?thesis by (simp add: only_def)
qed

lemma exec_Redeem_own:
  assumes a: "alone w" and wf: "payments_wf (w_db w)" and c: "c \<in> set (db_codes (w_db w))"
    and un: "rc_Status c = StatusUnused" "rc_Type c = RedeemTypeBalance"
    and user: "user \<in> set (db_users (w_db w))" "\<not> usr_deleted user"
    and may: "may_redeem cache (usr_ID user) (rc_Code c) w"
  shows "\<exists>r w1. exec (Redeem cache (usr_ID user) (rc_Code c)) w = (Inr r, w1) \<and> alone w1 \<and>
     db_orders (w_db w1) = db_orders (w_db w) \<and>
     balance_of v (db_users (w_db w1)) = balance_of v (db_users (w_db w)) + (if v = usr_ID user then rc_Value c else 0)"
proof -
  have f: "w_faults w = []" "w_base w = None" using a by (simp_all add: alone_def)
  have d: "distinct (map rc_Code (db_codes (w_db w)))" "distinct (map rc_ID (db_codes (w_db w)))"
    "distinct (map usr_ID (db_users (w_db w)))" "0 \<le> rc_Value c"
    using wf c un(2) by (auto simp: payments_wf_def)
  show ?thesis
    using redeem_balance [OF f may only_key [OF d(1) c refl] un d(4,2) live_user [OF d(3) user]]
    by (auto simp: alone_def credited_to [OF d(3) user(1)])
qed

lemma exec_markCompleted:
  assumes a: "alone w" and d: "distinct (map po_ID (db_orders (w_db w)))"
    and x: "y \<in> set (db_orders (w_db w))" "po_ID y = po_ID o1" "po_Status y = OrderStatusRecharging"
  shows "\<exists>w1. exec (markCompleted o1 act) w = (Inr (), w1) \<and> alone w1 \<and>
     db_users (w_db w1) = db_users (w_db w) \<and> db_subs (w_db w1) = db_subs (w_db w) \<and>
     db_orders (w_db w1) = with_status (po_ID o1) (\<lambda>x. x\<lparr>po_Status := OrderStatusCompleted,
       po_CompletedAt := Some (w_now w)\<rparr>) (w_now w) (db_orders (w_db w))"
proof -
  have s: "po_Status y \<in> set [OrderStatusRecharging]" using x by simp
  from order_Update_row [OF d x(1) s] obtain n where
    "order_Update (has_status (po_ID o1) [OrderStatusRecharging]) (\<lambda>x. x\<lparr>po_Status := OrderStatusCompleted,
       po_CompletedAt := Some (w_now w)\<rparr>) (w_now w) (w_db w) = (Inr (Suc n), (w_db w)\<lparr>db_orders :=
       with_status (po_ID o1) (\<lambda>x. x\<lparr>po_Status := OrderStatusCompleted, po_CompletedAt := Some (w_now w)\<rparr>)
         (w_now w) (db_orders (w_db w))\<rparr>)"
    unfolding x(2) by blast
  then show ?thesis using a by (simp add: markCompleted_def alone_def exec_writeAuditLog audit_insert_def)
qed


text \<open>The code can be inserted as it is.\<close>

definition plain_code :: "string \<Rightarrow> bool" where
  "plain_code code \<longleftrightarrow> TrimSpace code = code \<and> code \<noteq> [] \<and> length code \<le> 32"

lemma exec_redeem_and_complete:
  assumes a: "alone w" and wf: "payments_wf (w_db w)" and c: "c \<in> set (db_codes (w_db w))"
    and un: "rc_Code c = po_RechargeCode o1" "rc_Status c = StatusUnused" "rc_Type c = RedeemTypeBalance"
    and user: "user \<in> set (db_users (w_db w))" "usr_ID user = po_UserID o1" "\<not> usr_deleted user"
    and may: "may_redeem (pe_cache env) (po_UserID o1) (po_RechargeCode o1) w"
    and y: "y \<in> set (db_orders (w_db w))" "po_ID y = po_ID o1" "po_Status y = OrderStatusRecharging"
  shows "\<exists>w1. exec (bind (Redeem (pe_cache env) (po_UserID o1) (po_RechargeCode o1))
        (on_error (wrap ''redeem balance'') (\<lambda>_. markCompleted o1 act))) w = (Inr (), w1) \<and> alone w1 \<and>
     (\<exists>z \<in> set (db_orders (w_db w1)). po_ID z = po_ID o1 \<and> po_Status z = OrderStatusCompleted) \<and>
     balance_of v (db_users (w_db w1)) = balance_of v (db_users (w_db w)) + (if v = po_UserID o1 then rc_Value c else 0)"
proof -
  obtain r w1 where r: "exec (Redeem (pe_cache env) (po_UserID o1) (po_RechargeCode o1)) w = (Inr r, w1)" "alone w1"
    "db_orders (w_db w1) = db_orders (w_db w)"
    "balance_of v (db_users (w_db w1)) = balance_of v (db_users (w_db w)) + (if v = po_UserID o1 then rc_Value c else 0)"
    using exec_Redeem_own [OF a wf c un(2,3) user(1,3), of "pe_cache env" v] may unfolding user(2) un(1) by blast
  have d: "distinct (map po_ID (db_orders (w_db w1)))" using wf r(3) by (simp add: payments_wf_def)
  obtain w2 where m: "exec (markCompleted o1 act) w1 = (Inr (), w2)" "alone w2"
    "db_users (w_db w2) = db_users (w_db w1)"
    "db_orders (w_db w2) = with_status (po_ID o1) (\<lambda>x. x\<lparr>po_Status := OrderStatusCompleted,
       po_CompletedAt := Some (w_now w1)\<rparr>) (w_now w1) (db_orders (w_db w1))"
    using exec_markCompleted [OF r(2) d, of y o1 act] y r(3) by auto
  have "\<exists>z \<in> set (db_orders (w_db w2)). po_ID z = po_ID o1 \<and> po_Status z = OrderStatusCompleted"
    unfolding m(4) r(3) by (rule bexI [OF _ with_status_row [OF y(1,2)]]) (simp add: y)
  then show ?thesis using r(1,4) m(1-3) by simp
qed

lemma exec_doBalance:
  assumes a: "alone w" and wf: "payments_wf (w_db w)" and own: "own_code o1 (w_db w)"
    and code: "plain_code (po_RechargeCode o1)" "0 < po_Amount o1"
    and user: "user \<in> set (db_users (w_db w))" "usr_ID user = po_UserID o1" "\<not> usr_deleted user"
    and may: "may_redeem (pe_cache env) (po_UserID o1) (po_RechargeCode o1) w"
    and y: "y \<in> set (db_orders (w_db w))" "po_ID y = po_ID o1" "po_Status y = OrderStatusRecharging"
  shows "\<exists>w1. exec (doBalance env o1) w = (Inr (), w1) \<and> alone w1 \<and>
     (\<exists>z \<in> set (db_orders (w_db w1)). po_ID z = po_ID o1 \<and> po_Status z = OrderStatusCompleted) \<and>
     balance_of v (db_users (w_db w1)) = balance_of v (db_users (w_db w)) +
       (if v = po_UserID o1 \<and> \<not> code_used (po_RechargeCode o1) (w_db w) then po_Amount o1 else 0)"
proof -
  have f: "w_faults w = []" using a by (simp add: alone_def)
  have d: "distinct (map rc_Code (db_codes (w_db w)))" "distinct (map po_ID (db_orders (w_db w)))"
    using wf by (simp_all add: payments_wf_def)
  show ?thesis
  proof (cases "\<exists>c \<in> set (db_codes (w_db w)). rc_Code c = po_RechargeCode o1")
    case True
    then obtain c where c: "c \<in> set (db_codes (w_db w))" "rc_Code c = po_RechargeCode o1" by blast
    have g: "exec (GetByCode (po_RechargeCode o1)) w = (Inr c, w)"
      using f only_key [OF d(1) c] by (simp add: GetByCode_def code_GetByCode_def code_result_def)
    have k: "rc_Type c = RedeemTypeBalance" "rc_Value c = po_Amount o1" using own c by (auto simp: own_code_def)
    have used: "code_used (po_RechargeCode o1) (w_db w) \<longleftrightarrow> IsUsed c"
      using c d(1) by (auto simp: code_used_def distinct_map inj_on_def)
    show ?thesis
    proof (cases "IsUsed c")
      case True
      obtain w1 where m: "exec (markCompleted o1 ''RECHARGE_SUCCESS'') w = (Inr (), w1)" "alone w1"
        "db_users (w_db w1) = db_users (w_db w)"
        "db_orders (w_db w1) = with_status (po_ID o1) (\<lambda>x. x\<lparr>po_Status := OrderStatusCompleted,
           po_CompletedAt := Some (w_now w)\<rparr>) (w_now w) (db_orders (w_db w))"
        using exec_markCompleted [OF a d(2) y] by auto
      have "\<exists>z \<in> set (db_orders (w_db w1)). po_ID z = po_ID o1 \<and> po_Status z = OrderStatusCompleted"
        unfolding m(4) by (rule bexI [OF _ with_status_row [OF y(1,2)]]) (simp add: y)
      then show ?thesis using m used True g by (simp add: doBalance_def Let_def resolveRedeemAction_def)
    next
      case False
      have un: "rc_Status c = StatusUnused" using own c False by (auto simp: own_code_def IsUsed_def)
      show ?thesis
        using exec_redeem_and_complete [OF a wf c un k(1) user may y, of "''RECHARGE_SUCCESS''" v] used False g k(2)
        by (cases "v = po_UserID o1") (simp_all add: doBalance_def Let_def resolveRedeemAction_def)
    qed
  next
    case False
    let ?row = "order_code o1\<lparr>rc_ID := fresh_id (map rc_ID (db_codes (w_db w)))\<rparr>"
    let ?w = "w\<lparr>w_db := (w_db w)\<lparr>db_codes := db_codes (w_db w) @ [?row]\<rparr>\<rparr>"
    have g: "\<exists>e. exec (GetByCode (po_RechargeCode o1)) w = (Inl e, w)"
      using f False by (simp add: GetByCode_def code_GetByCode_def code_result_def only_none wrap_def)
    have create: "code_Create (order_code o1) (w_now w) (w_db w) = (Inr ?row, w_db ?w)"
      using False code by (auto simp: code_Create_def Let_def valid_code_def order_code_def plain_code_def list_ex_iff
          redeem_type_defs code_status_defs)
    have "exec (CreateCode (order_code o1)) w = (Inr ?row, ?w)"
      using f create code by (simp add: CreateCode_def Let_def plain_code_def) (simp add: order_code_def
          redeem_type_defs code_status_defs)
    moreover have "payments_move I (w_db w) (w_db ?w)"
      using move_code_Create [of "order_code o1" "w_db w" _ "w_now w"] create code(2)
      by (simp add: order_code_def IsUsed_def code_status_defs)
    then have wf1: "payments_wf (w_db ?w)" using wf payments_moveD(1) by blast
    have row: "?row \<in> set (db_codes (w_db ?w))" "rc_Code ?row = po_RechargeCode o1" "rc_Status ?row = StatusUnused"
      "rc_Type ?row = RedeemTypeBalance" "rc_Value ?row = po_Amount o1"
      by (simp_all add: order_code_def)
    have a1: "alone ?w" and may1: "may_redeem (pe_cache env) (po_UserID o1) (po_RechargeCode o1) ?w"
      using a may by (simp_all add: alone_def)
    have "\<not> code_used (po_RechargeCode o1) (w_db w)" using False by (auto simp: code_used_def)
    moreover note exec_redeem_and_complete [OF a1 wf1 row(1-4) _ user(2,3) may1 _ y(2,3), of "''RECHARGE_SUCCESS''" v]
    ultimately show ?thesis
      using g user(1) y(1) row(5) by (auto simp: doBalance_def Let_def resolveRedeemAction_def)
  qed
qed


text \<open>The state after an order was taken over, seen by what follows.\<close>

lemma payments_wf_orders:
  assumes "payments_wf db" "map po_ID rows = map po_ID (db_orders db)" "\<forall>x \<in> set rows. 0 \<le> po_Amount x \<and> settled db x"
  shows "payments_wf (db\<lparr>db_orders := rows, db_audit := al\<rparr>)"
proof -
  have "settled (db\<lparr>db_orders := rows, db_audit := al\<rparr>) x = settled db x" for x by (simp add: settled_def code_used_def)
  then show ?thesis using assms by (simp add: payments_wf_def)
qed

lemma payments_wf_with_status:
  assumes "payments_wf db" "\<And>x. po_ID (f x) = po_ID x" "\<And>x. po_Amount (f x) = po_Amount x"
    "\<And>x. \<not> credited_status (po_Status (f x))"
  shows "payments_wf (db\<lparr>db_orders := with_status oid f now (db_orders db), db_audit := al\<rparr>)"
proof (rule payments_wf_orders [OF assms(1) map_with_status [OF assms(2)]])
  have "\<forall>x \<in> set (db_orders db). 0 \<le> po_Amount x \<and> settled db x" using assms(1) by (simp add: payments_wf_def)
  then show "\<forall>x \<in> set (with_status oid f now (db_orders db)). 0 \<le> po_Amount x \<and> settled db x"
    using assms(3,4) by (auto simp: with_status_def set_change)
qed

lemma exec_ExecuteBalance:
  assumes a: "alone w" and wf: "payments_wf (w_db w)" and own: "own_code x (w_db w)"
    and code: "plain_code (po_RechargeCode x)" "0 < po_Amount x"
    and user: "user \<in> set (db_users (w_db w))" "usr_ID user = po_UserID x" "\<not> usr_deleted user"
    and may: "may_redeem (pe_cache env) (po_UserID x) (po_RechargeCode x) w"
    and x: "x \<in> set (db_orders (w_db w))" "po_Status x = OrderStatusPaid \<or> po_Status x = OrderStatusFailed"
  shows "\<exists>w1. exec (ExecuteBalanceFulfillment env (po_ID x)) w = (Inr (), w1) \<and> alone w1 \<and>
     (\<exists>z \<in> set (db_orders (w_db w1)). po_ID z = po_ID x \<and> po_Status z = OrderStatusCompleted) \<and>
     balance_of v (db_users (w_db w1)) = balance_of v (db_users (w_db w)) +
       (if v = po_UserID x \<and> \<not> code_used (po_RechargeCode x) (w_db w) then po_Amount x else 0)"
proof -
  let ?f = "\<lambda>x. x\<lparr>po_Status := OrderStatusRecharging\<rparr>"
  let ?rows = "with_status (po_ID x) ?f (w_now w) (db_orders (w_db w))"
  let ?w = "w\<lparr>w_db := (w_db w)\<lparr>db_orders := ?rows\<rparr>\<rparr>"
  have f: "w_faults w = []" using a by (simp add: alone_def)
  have d: "distinct (map po_ID (db_orders (w_db w)))" using wf by (simp add: payments_wf_def)
  have s: "po_Status x \<in> set [OrderStatusPaid, OrderStatusFailed]" using x(2) by simp
  obtain n where u: "order_Update (has_status (po_ID x) [OrderStatusPaid, OrderStatusFailed]) ?f (w_now w) (w_db w)
      = (Inr (Suc n), w_db ?w)"
    using order_Update_row [OF d x(1) s, of ?f "w_now w"] by auto
  have "payments_wf (w_db w\<lparr>db_orders := ?rows, db_audit := db_audit (w_db w)\<rparr>)"
    by (rule payments_wf_with_status [OF wf]) simp_all
  then have wf1: "payments_wf (w_db ?w)" by simp
  have own1: "own_code x (w_db ?w)" "code_used k (w_db ?w) = code_used k (w_db w)" for k
    using own by (simp_all add: own_code_def code_used_def)
  have a1: "alone ?w" and may1: "may_redeem (pe_cache env) (po_UserID x) (po_RechargeCode x) ?w"
    using a may by (simp_all add: alone_def)
  have y: "(?f x)\<lparr>po_UpdatedAt := w_now w\<rparr> \<in> set (db_orders (w_db ?w))"
    using with_status_row [OF x(1) refl, where f = ?f and now = "w_now w"] by simp
  obtain w1 where "exec (doBalance env x) ?w = (Inr (), w1) \<and> alone w1 \<and>
     (\<exists>z \<in> set (db_orders (w_db w1)). po_ID z = po_ID x \<and> po_Status z = OrderStatusCompleted) \<and>
     balance_of v (db_users (w_db w1)) = balance_of v (db_users (w_db w)) +
       (if v = po_UserID x \<and> \<not> code_used (po_RechargeCode x) (w_db w) then po_Amount x else 0)"
    using exec_doBalance [OF a1 wf1 own1(1) code _ user(2,3) may1 y, of v] user(1) own1(2) by auto
  then show ?thesis
    using f u x order_Get_row [OF wf x(1)]
    by (auto simp: ExecuteBalanceFulfillment_def execute_order_def psIsRefundStatus_def order_status_defs)
qed

lemma exec_executeFulfillment:
  assumes "alone w" "payments_wf (w_db w)" "x \<in> set (db_orders (w_db w))"
  shows "exec (executeFulfillment env (po_ID x)) w =
    exec (if po_OrderType x = OrderTypeSubscription then ExecuteSubscriptionFulfillment env (po_ID x)
      else ExecuteBalanceFulfillment env (po_ID x)) w"
  using assms by (simp add: executeFulfillment_def alone_def order_Get_row)

lemma exec_RetryFulfillment:
  assumes "w_faults w = []" "w_base w = None" "payments_wf (w_db w)" "x \<in> set (db_orders (w_db w))"
    "po_Status x \<in> {OrderStatusPaid, OrderStatusFailed}" "po_PaidAt x \<noteq> None"
    "po_OrderType x \<noteq> OrderTypeSubscription" "0 < po_Amount x" "plain_code (po_RechargeCode x)" "own_code x (w_db w)"
    "user \<in> set (db_users (w_db w))" "usr_ID user = po_UserID x" "\<not> usr_deleted user"
    "may_redeem (pe_cache env) (po_UserID x) (po_RechargeCode x) w"
  shows "\<exists>w1. exec (RetryFulfillment env (po_ID x)) w = (Inr (), w1) \<and> alone w1 \<and>
     (\<exists>z \<in> set (db_orders (w_db w1)). po_ID z = po_ID x \<and> po_Status z = OrderStatusCompleted) \<and>
     balance_of v (db_users (w_db w1)) = balance_of v (db_users (w_db w)) +
       (if v = po_UserID x \<and> \<not> code_used (po_RechargeCode x) (w_db w) then po_Amount x else 0)"
proof -
  let ?f = "\<lambda>x. x\<lparr>po_Status := OrderStatusPaid, po_FailedAt := None, po_FailedReason := None\<rparr>"
  let ?rows = "with_status (po_ID x) ?f (w_now w) (db_orders (w_db w))"
  let ?log = "db_audit (w_db w) @ [\<lparr>al_OrderID = po_ID x, al_Action = ''RECHARGE_RETRY'', al_Operator = ''admin'',
      al_CreatedAt = w_now w\<rparr>]"
  let ?w = "w\<lparr>w_db := (w_db w)\<lparr>db_orders := ?rows, db_audit := ?log\<rparr>\<rparr>"
  let ?x = "(?f x)\<lparr>po_UpdatedAt := w_now w\<rparr>"
  have d: "distinct (map po_ID (db_orders (w_db w)))" using assms(3) by (simp add: payments_wf_def)
  have s: "po_Status x \<in> set [OrderStatusFailed, OrderStatusPaid]" using assms(5) by auto
  obtain n where u: "order_Update (has_status (po_ID x) [OrderStatusFailed, OrderStatusPaid]) ?f (w_now w) (w_db w)
      = (Inr (Suc n), (w_db w)\<lparr>db_orders := ?rows\<rparr>)"
    using order_Update_row [OF d assms(4) s, of ?f "w_now w"] by auto
  have wf1: "payments_wf (w_db ?w)"
    using payments_wf_with_status [OF assms(3), where f = ?f and oid = "po_ID x" and now = "w_now w" and al = ?log]
    by simp
  have own1: "own_code ?x (w_db ?w)" "code_used k (w_db ?w) = code_used k (w_db w)" for k
    using assms(10) by (simp_all add: own_code_def code_used_def)
  have a1: "alone ?w" and may1: "may_redeem (pe_cache env) (po_UserID ?x) (po_RechargeCode ?x) ?w"
    using assms(1,2,14) by (simp_all add: alone_def)
  have y: "?x \<in> set (db_orders (w_db ?w))" using with_status_row [OF assms(4) refl, where f = ?f and now = "w_now w"] by simp
  have run: "exec (RetryFulfillment env (po_ID x)) w = exec (ExecuteBalanceFulfillment env (po_ID ?x)) ?w"
  proof -
    have "exec (RetryFulfillment env (po_ID x)) w = exec (executeFulfillment env (po_ID x)) ?w"
      using assms(1,5,6) u order_Get_row [OF assms(3,4)]
      by (auto simp: RetryFulfillment_def psIsRefundStatus_def order_status_defs exec_writeAuditLog audit_insert_def)
    then show ?thesis using exec_executeFulfillment [OF a1 wf1 y, of env] assms(7) by simp
  qed
  show ?thesis
    using exec_ExecuteBalance [OF a1 wf1 own1(1) _ _ _ _ assms(13) may1 y, of v] assms(8,9,11,12) own1(2)
    unfolding run by (simp split del: if_split cong del: if_weak_cong)
qed


text \<open>
  (C17) A retry completes an order that was paid for balance. When an administrator retries an order that
  is marked as paid, or as failed after it was paid, then, if nothing fails and nobody else acts, the
  user exists, may redeem (neither locked out by wrong codes nor locked by a running redemption), and the
  recharge code, if it is in the table, is the one of this order: the order is completed, and its user is
  credited the full amount, unless an earlier attempt has credited it already. Nobody else's balance
  changes. Whether earlier attempts have left no code, an unused code or a used one, one call is enough.
\<close>

theorem retry_completes_paid_order:
  assumes "w_faults w = []" "w_base w = None" "payments_wf (w_db w)" "x \<in> set (db_orders (w_db w))"
    "po_Status x \<in> {OrderStatusPaid, OrderStatusFailed}" "po_PaidAt x \<noteq> None"
    "po_OrderType x \<noteq> OrderTypeSubscription" "0 < po_Amount x" "plain_code (po_RechargeCode x)" "own_code x (w_db w)"
    "user \<in> set (db_users (w_db w))" "usr_ID user = po_UserID x" "\<not> usr_deleted user"
    "may_redeem (pe_cache env) (po_UserID x) (po_RechargeCode x) w"
  shows "\<exists>w1. exec (RetryFulfillment env (po_ID x)) w = (Inr (), w1) \<and>
     (\<exists>z \<in> set (db_orders (w_db w1)). po_ID z = po_ID x \<and> po_Status z = OrderStatusCompleted) \<and>
     (\<forall>v. balance_of v (db_users (w_db w1)) = balance_of v (db_users (w_db w)) +
       (if v = po_UserID x \<and> \<not> code_used (po_RechargeCode x) (w_db w) then po_Amount x else 0))"
  using exec_RetryFulfillment [OF assms] by (metis Pair_inject)

text \<open>An example: an order of 5 for the user of \<open>redeem_world\<close>.\<close>

definition demo_order :: "string \<Rightarrow> PaymentOrder" where
  "demo_order st = \<lparr>po_ID = 1, po_UserID = 7, po_Amount = 5, po_PayAmount = 5, po_FeeRate = 0,
     po_RechargeCode = ''PAY-1-1'', po_OutTradeNo = ''sub2_1'', po_PaymentType = ''alipay'', po_PaymentTradeNo = ''T1'',
     po_OrderType = ''balance'', po_PlanID = None, po_SubscriptionGroupID = None, po_SubscriptionDays = None,
     po_ProviderInstanceID = Some ''1'', po_Status = st, po_RefundAmount = 0, po_RefundReason = None, po_RefundAt = None,
     po_ForceRefund = False, po_RefundRequestedAt = None, po_RefundRequestReason = None, po_RefundRequestedBy = None,
     po_ExpiresAt = 100, po_PaidAt = Some 0, po_CompletedAt = None, po_FailedAt = None, po_FailedReason = None,
     po_CreatedAt = 0, po_UpdatedAt = 0\<rparr>"

definition pay_world :: "string \<Rightarrow> world" where
  "pay_world st = (demo_world 0)\<lparr>w_db := demo_db\<lparr>db_users := [demo_user], db_orders := [demo_order st]\<rparr>\<rparr>"

definition demo_env :: payment_env where
  "demo_env = \<lparr>pe_cache = True, pe_l1 = (\<lambda>_ _. None), pe_decrypt = (\<lambda>_. Inl ErrDatabase),
     pe_create = (\<lambda>_ _ _. Inl ErrDatabase), pe_loaded = False, pe_registry = Map.empty, pe_errtext = (\<lambda>_. ''error'')\<rparr>"

lemmas pay_demo_defs = pay_world_def demo_order_def demo_user_def demo_defs demo_env_def

lemma plain_demo_code: "plain_code ''PAY-1-1''"
  by code_simp

lemma pay_world_ok:
  assumes "st = OrderStatusPaid \<or> st = OrderStatusFailed"
  shows "w_faults (pay_world st) = []" "w_base (pay_world st) = None" "payments_wf (w_db (pay_world st))"
    "demo_order st \<in> set (db_orders (w_db (pay_world st)))" "own_code (demo_order st) (w_db (pay_world st))"
    "po_OrderType (demo_order st) \<noteq> OrderTypeSubscription" "0 < po_Amount (demo_order st)"
    "plain_code (po_RechargeCode (demo_order st))" "demo_user \<in> set (db_users (w_db (pay_world st)))"
    "usr_ID demo_user = po_UserID (demo_order st)" "\<not> usr_deleted demo_user"
    "may_redeem (pe_cache demo_env) (po_UserID (demo_order st)) (po_RechargeCode (demo_order st)) (pay_world st)"
    "po_PaidAt (demo_order st) \<noteq> None" "po_Status (demo_order st) = st"
    "\<not> code_used (po_RechargeCode (demo_order st)) (w_db (pay_world st))"
  using assms
  by (auto simp: pay_demo_defs payments_wf_def settled_def credited_status_def order_status_defs own_code_def
      OrderTypeSubscription_def plain_demo_code may_redeem_def GetRedeemAttemptCount_def
      redeemMaxErrorsPerHour_def code_used_def)

theorem retry_completes_paid_order_witness:
  "\<exists>w1. exec (RetryFulfillment demo_env 1) (pay_world OrderStatusFailed) = (Inr (), w1) \<and>
     (\<exists>z \<in> set (db_orders (w_db w1)). po_ID z = 1 \<and> po_Status z = OrderStatusCompleted) \<and>
     balance_of 7 (db_users (w_db w1)) = 6"
proof -
  note ok = pay_world_ok [OF disjI2, of OrderStatusFailed, OF refl]
  have "\<exists>w1. exec (RetryFulfillment demo_env (po_ID (demo_order OrderStatusFailed))) (pay_world OrderStatusFailed) = (Inr (), w1) \<and>
     (\<exists>z \<in> set (db_orders (w_db w1)). po_ID z = po_ID (demo_order OrderStatusFailed) \<and> po_Status z = OrderStatusCompleted) \<and>
     (\<forall>v. balance_of v (db_users (w_db w1)) = balance_of v (db_users (w_db (pay_world OrderStatusFailed))) +
       (if v = po_UserID (demo_order OrderStatusFailed) \<and>
           \<not> code_used (po_RechargeCode (demo_order OrderStatusFailed)) (w_db (pay_world OrderStatusFailed))
        then po_Amount (demo_order OrderStatusFailed) else 0))"
    by (rule retry_completes_paid_order [OF ok(1-4) _ ok(13) ok(6-8) ok(5) ok(9-12)]) (simp add: ok(14))
  moreover have "po_ID (demo_order OrderStatusFailed) = 1" "po_UserID (demo_order OrderStatusFailed) = 7"
    "po_Amount (demo_order OrderStatusFailed) = 5" "balance_of 7 (db_users (w_db (pay_world OrderStatusFailed))) = 1"
    by (simp_all add: pay_demo_defs balance_of_def)
  ultimately show ?thesis using ok(15) by auto
qed

section \<open>Every interleaving\<close>

text \<open>
  The calls of the handlers, the webhooks and the jobs on orders, and users that redeem codes
  themselves. Every call brings its own environment: what providers, caches and the configuration
  answer may change from call to call.
\<close>

datatype payment_call =
    CallCreateOrder create_env decimal_lib CreateOrderRequest
  | CallNotification PaymentNotification string
  | CallRetry int
  | CallCancel int int
  | CallAdminCancel int
  | CallVerify string int
  | CallVerifyPublic string
  | CallExpireOrders
  | CallRequestRefund int int string
  | CallRedeem int string

primrec serve_payment :: "payment_env \<Rightarrow> payment_call \<Rightarrow> (world, unit) prog" where
  "serve_payment env (CallCreateOrder ce dl req) = discard (CreateOrder env ce dl req)"
| "serve_payment env (CallNotification n pk) = discard (HandlePaymentNotification env n pk)"
| "serve_payment env (CallRetry oid) = discard (RetryFulfillment env oid)"
| "serve_payment env (CallCancel oid uid) = discard (CancelOrder env oid uid)"
| "serve_payment env (CallAdminCancel oid) = discard (AdminCancelOrder env oid)"
| "serve_payment env (CallVerify no uid) = discard (VerifyOrderByOutTradeNo env no uid)"
| "serve_payment env (CallVerifyPublic no) = discard (VerifyOrderPublic env no)"
| "serve_payment env CallExpireOrders = discard (ExpireTimedOutOrders env)"
| "serve_payment env (CallRequestRefund oid uid reason) = discard (RequestRefund oid uid reason)"
| "serve_payment env (CallRedeem u code) = discard (Redeem (pe_cache env) u code)"

definition sane_call :: "payment_call \<Rightarrow> bool" where
  "sane_call call \<longleftrightarrow> (case call of CallCreateOrder ce dl _ \<Rightarrow> sane_env ce dl | _ \<Rightarrow> True)"

definition payment_programs :: "(world, unit) prog set" where
  "payment_programs = {serve_payment env call | env call. sane_call call}"

lemma safe_discard: "safe I p w \<Longrightarrow> safe I (discard p) w"
  unfolding discard_def by (intro pay.guards_bind_any) simp_all

lemma safe_Redeem: "calm I w \<Longrightarrow> safe I (Redeem cache u code) w"
  by (rule pay.guards_weaken [OF Redeem_safe]) simp_all

lemma safe_serve: "calm I w \<Longrightarrow> sane_call call \<Longrightarrow> safe I (serve_payment env call) w"
  by (cases call) (auto simp: sane_call_def intro!: safe_discard safe_CreateOrder safe_HandlePaymentNotification
      safe_RetryFulfillment safe_cancel safe_verify safe_ExpireTimedOutOrders safe_RequestRefund safe_Redeem)

text \<open>The orders that are there at the beginning.\<close>

abbreviation orders_at :: "world \<Rightarrow> int set" where
  "orders_at w \<equiv> po_ID ` set (db_orders (w_db w))"

lemma payments_reachable:
  assumes "reachable tick payment_programs w c" "w_base w = None" "payments_wf (w_db w)"
  shows "payments_move (orders_at w) (w_db w) (w_db (snd c))"
proof -
  let ?I = "orders_at w"
  have calm: "calm ?I w" using assms(2,3) by (simp add: calm_def)
  have "moves (payments_move ?I) w (snd c) \<and> (\<forall>p \<in> set (fst c). safe ?I p (snd c))"
  proof (rule pay.reachable_sound [OF assms(1)])
    show "moves (payments_move ?I) v u" if "tick v u" for v u
      using that by (cases "w_base v") (auto simp: tick_def moves_def)
    show "safe ?I p v" if "p \<in> payment_programs" "moves (payments_move ?I) w v" for p v
      using that safe_serve calm_later [OF calm that(2)] by (auto simp: payment_programs_def)
  qed
  then show ?thesis by (simp add: moves_def)
qed

text \<open>
  (C4) Money is credited exactly once. Whatever users, payment providers, jobs and administrators do with
  orders and codes (the calls listed above: orders are created, paid, retried, cancelled, checked and
  expired, refunds are requested, codes are redeemed), however the calls interleave, whichever statements
  fail or lose their acknowledgement and whichever process dies between two statements: what a user has,
  less the value of the balance codes this user has used, never changes. Every credit is matched by a
  code that became used in the same transaction, and no code is used without its credit. Balance codes
  and plans have a value of at least zero here; refunds that are carried out, the deletion of codes and charges
  for usage, which move money otherwise, are not among the calls.
\<close>

theorem recharges_credit_once:
  assumes "reachable tick payment_programs w c" "w_base w = None" "payments_wf (w_db w)"
  shows "own_balance u (w_db (snd c)) = own_balance u (w_db w)"
  by (rule payments_moveD(4) [OF payments_reachable [OF assms] assms(3)])

lemma demo_call: "serve_payment env (CallRetry i) \<in> payment_programs" "serve_payment env (CallRedeem u k) \<in> payment_programs"
proof -
  have "sane_call (CallRetry i)" "sane_call (CallRedeem u k)" by (simp_all add: sane_call_def)
  then show "serve_payment env (CallRetry i) \<in> payment_programs" "serve_payment env (CallRedeem u k) \<in> payment_programs"
    unfolding payment_programs_def by blast+
qed

text \<open>Two retries of the order and the user redeeming its code, statement by statement.\<close>

definition demo_race :: "nat list \<Rightarrow> (world, unit) prog list \<times> world" where
  "demo_race is = interleave is ([serve_payment demo_env (CallRetry 1), serve_payment demo_env (CallRetry 1),
     serve_payment demo_env (CallRedeem 7 ''PAY-1-1'')], pay_world OrderStatusPaid)"

lemma demo_race: "reachable tick payment_programs (pay_world OrderStatusPaid) (demo_race is)"
  unfolding demo_race_def by (rule reachable_interleave) (simp add: demo_call del: serve_payment.simps)

theorem recharges_credit_once_witness:
  "own_balance 7 (w_db (snd (demo_race [0, 1, 0, 1, 0, 0, 1, 1, 0, 0, 2, 0, 2, 1, 0, 2]))) = 1"
proof -
  note ok = pay_world_ok [OF disjI1, of OrderStatusPaid, OF refl]
  have "own_balance 7 (w_db (pay_world OrderStatusPaid)) = 1"
    by (simp add: pay_demo_defs own_balance_def balance_of_def redeemed_by_def)
  then show ?thesis using recharges_credit_once [OF demo_race ok(2,3), of 7] by simp
qed

text \<open>
  (C5) An order is never completed without its money: in every state that these calls reach (refunds
  that are carried out and the deletion of codes are not among them), the recharge code of each
  completed order that does not buy a subscription, and of each whose refund is requested, has been
  used. There is only one such code, as codes stay unique, and so do the keys of orders.
\<close>

theorem completed_orders_are_credited:
  assumes "reachable tick payment_programs w c" "w_base w = None" "payments_wf (w_db w)"
    "x \<in> set (db_orders (w_db (snd c)))" "po_Status x \<in> {OrderStatusCompleted, OrderStatusRefundRequested}"
    "po_OrderType x \<noteq> OrderTypeSubscription"
  shows "(\<exists>!k. k \<in> set (db_codes (w_db (snd c))) \<and> rc_Code k = po_RechargeCode x \<and> rc_Status k = StatusUsed) \<and>
    distinct (map rc_Code (db_codes (w_db (snd c)))) \<and> distinct (map rc_ID (db_codes (w_db (snd c)))) \<and>
    distinct (map po_ID (db_orders (w_db (snd c))))"
proof -
  have wf: "payments_wf (w_db (snd c))"
    by (rule payments_moveD(1) [OF payments_reachable [OF assms(1-3)] assms(3)])
  then have "settled (w_db (snd c)) x" using assms(4) by (simp add: payments_wf_def)
  then have "code_used (po_RechargeCode x) (w_db (snd c))"
    using assms(5,6) by (auto simp: settled_def credited_status_def)
  moreover have "inj_on rc_Code (set (db_codes (w_db (snd c))))"
    using wf by (simp add: payments_wf_def distinct_map)
  ultimately show ?thesis using wf by (auto simp: code_used_def IsUsed_def inj_on_def payments_wf_def)
qed

theorem completed_orders_are_credited_witness:
  "\<exists>z \<in> set (db_orders (w_db (snd (exec (serve_payment demo_env (CallRetry 1)) (pay_world OrderStatusPaid))))).
     po_Status z = OrderStatusCompleted \<and>
     (\<exists>!k. k \<in> set (db_codes (w_db (snd (exec (serve_payment demo_env (CallRetry 1)) (pay_world OrderStatusPaid))))) \<and>
       rc_Code k = po_RechargeCode z \<and> rc_Status k = StatusUsed)"
proof -
  note ok = pay_world_ok [OF disjI1, of OrderStatusPaid, OF refl]
  let ?w = "pay_world OrderStatusPaid" and ?p = "serve_payment demo_env (CallRetry 1)"
  note r = reachable_exec [OF demo_call(1) [of demo_env 1], where E = tick and s = ?w]
  have i: "po_ID (demo_order OrderStatusPaid) = 1" by (simp add: demo_order_def)
  obtain w1 where w1: "exec (RetryFulfillment demo_env 1) ?w = (Inr (), w1)"
    "\<exists>z \<in> set (db_orders (w_db w1)). po_ID z = 1 \<and> po_Status z = OrderStatusCompleted"
    using exec_RetryFulfillment [OF ok(1-4) _ ok(13) ok(6-8) ok(5) ok(9-12), of 7] ok(14) i by auto
  then obtain z where z: "z \<in> set (db_orders (w_db (snd (exec ?p ?w))))" "po_ID z = 1" "po_Status z = OrderStatusCompleted"
    by (auto simp: discard_def)
  have "order_evolves (orders_at ?w) (demo_order OrderStatusPaid) z"
    using order_later [OF payments_reachable [OF r ok(2,3), unfolded snd_conv] ok(3,4) z(1)] z(2) i by simp
  then have "po_OrderType z \<noteq> OrderTypeSubscription" using ok(6) by (simp add: order_evolves_def)
  then show ?thesis using completed_orders_are_credited [OF r ok(2,3), unfolded snd_conv, OF z(1)] z by auto
qed




end
