(* ===== verification/Concurrency.thy ===== *)
theory Concurrency
  imports BusinessDb "HOL-Library.AList"
begin

text \<open>
  Concurrency slots: \<open>backend/internal/repository/concurrency_cache.go\<close>,
  \<open>service/concurrency_service.go\<close>, and how a request waits for its slots and gives them back
  (\<open>handler/gateway_helper.go\<close>, \<open>gateway_handler_chat_completions.go\<close>).

  The state is Redis: a sorted set of request ids for each account and user, scored with the second in
  which the slot was taken, and counters of waiting requests. Every Lua script is one atomic action
  (\<open>Prog\<close>), every command of a pipeline is one by itself. A call to Redis may fail, or be executed
  although an error is reported. Redis's time is in milliseconds, \<open>TIME\<close> gives the whole seconds.
\<close>

section \<open>Redis\<close>

record zset =
  zs_members :: "(string \<times> int) list"
  zs_deadline :: "int option"

record counter =
  ctr_value :: int
  ctr_deadline :: "int option"

record cworld =
  cw_now :: int
  cw_zsets :: "(string \<times> zset) list"
  cw_counts :: "(string \<times> counter) list"
  cw_faults :: "outcome list"
  cw_seq :: "string \<Rightarrow> 64 word"

type_synonym 'a cprog = "(cworld, 'a) prog"

text \<open>A key whose time is up is gone, and so is a set without members.\<close>

definition in_time :: "int \<Rightarrow> int option \<Rightarrow> bool" where
  "in_time now d \<longleftrightarrow> (case d of None \<Rightarrow> True | Some t \<Rightarrow> now < t)"

definition zset_of :: "string \<Rightarrow> cworld \<Rightarrow> zset" where
  "zset_of k s =
     (case map_of (cw_zsets s) k of
        Some z \<Rightarrow> if in_time (cw_now s) (zs_deadline z) then z else \<lparr>zs_members = [], zs_deadline = None\<rparr>
      | None \<Rightarrow> \<lparr>zs_members = [], zs_deadline = None\<rparr>)"

definition put_zset :: "string \<Rightarrow> zset \<Rightarrow> cworld \<Rightarrow> cworld" where
  "put_zset k z s = s\<lparr>cw_zsets := (if zs_members z = [] then AList.delete k (cw_zsets s)
     else AList.update k z (cw_zsets s))\<rparr>"

definition change_members :: "((string \<times> int) list \<Rightarrow> (string \<times> int) list) \<Rightarrow> string \<Rightarrow> cworld \<Rightarrow> cworld" where
  "change_members f k s = put_zset k ((zset_of k s)\<lparr>zs_members := f (zs_members (zset_of k s))\<rparr>) s"

definition ZREMRANGEBYSCORE :: "string \<Rightarrow> int \<Rightarrow> cworld \<Rightarrow> cworld" where
  "ZREMRANGEBYSCORE k x = change_members (filter (\<lambda>m. x < snd m)) k"

definition ZADD :: "string \<Rightarrow> int \<Rightarrow> string \<Rightarrow> cworld \<Rightarrow> cworld" where
  "ZADD k score m = change_members (AList.update m score) k"

definition ZREM :: "string \<Rightarrow> string \<Rightarrow> cworld \<Rightarrow> cworld" where
  "ZREM k m = change_members (AList.delete m) k"

definition ZSCORE :: "string \<Rightarrow> string \<Rightarrow> cworld \<Rightarrow> int option" where
  "ZSCORE k m s = map_of (zs_members (zset_of k s)) m"

definition ZCARD :: "string \<Rightarrow> cworld \<Rightarrow> int" where
  "ZCARD k s = int (length (zs_members (zset_of k s)))"

definition EXPIRE :: "string \<Rightarrow> int \<Rightarrow> cworld \<Rightarrow> cworld" where
  "EXPIRE k ttl s = put_zset k ((zset_of k s)\<lparr>zs_deadline := Some (cw_now s + ttl * 1000)\<rparr>) s"

definition TIME :: "cworld \<Rightarrow> int" where
  "TIME s = cw_now s div 1000"

definition GET :: "string \<Rightarrow> cworld \<Rightarrow> counter option" where
  "GET k s = (case map_of (cw_counts s) k of
     Some c \<Rightarrow> if in_time (cw_now s) (ctr_deadline c) then Some c else None | None \<Rightarrow> None)"

definition count_at :: "string \<Rightarrow> cworld \<Rightarrow> int" where
  "count_at k s = (case GET k s of Some c \<Rightarrow> ctr_value c | None \<Rightarrow> 0)"

section \<open>The scripts\<close>

definition acquireScript :: "string \<Rightarrow> int \<Rightarrow> int \<Rightarrow> string \<Rightarrow> cworld \<Rightarrow> bool \<times> cworld" where
  "acquireScript k maxConcurrency ttl requestID s =
     (let now = TIME s;
          s1 = ZREMRANGEBYSCORE k (now - ttl) s
      in if ZSCORE k requestID s1 \<noteq> None then (True, EXPIRE k ttl (ZADD k now requestID s1))
         else if ZCARD k s1 < maxConcurrency then (True, EXPIRE k ttl (ZADD k now requestID s1))
         else (False, s1))"

definition getCountScript :: "string \<Rightarrow> int \<Rightarrow> cworld \<Rightarrow> int \<times> cworld" where
  "getCountScript k ttl s = (let s1 = ZREMRANGEBYSCORE k (TIME s - ttl) s in (ZCARD k s1, s1))"

definition incrementWaitScript :: "string \<Rightarrow> int \<Rightarrow> int \<Rightarrow> cworld \<Rightarrow> bool \<times> cworld" where
  "incrementWaitScript k maxWait ttl s =
     (if maxWait \<le> count_at k s then (False, s)
      else (True, s\<lparr>cw_counts := AList.update k
              \<lparr>ctr_value = count_at k s + 1, ctr_deadline = Some (cw_now s + ttl * 1000)\<rparr> (cw_counts s)\<rparr>))"

definition decrementWaitScript :: "string \<Rightarrow> cworld \<Rightarrow> unit \<times> cworld" where
  "decrementWaitScript k s =
     ((), case GET k s of
        Some c \<Rightarrow> if 0 < ctr_value c
          then s\<lparr>cw_counts := AList.update k (c\<lparr>ctr_value := ctr_value c - 1\<rparr>) (cw_counts s)\<rparr> else s
      | None \<Rightarrow> s)"

definition cleanupExpiredSlotsScript :: "string \<Rightarrow> int \<Rightarrow> cworld \<Rightarrow> unit \<times> cworld" where
  "cleanupExpiredSlotsScript k ttl s =
     (let s1 = ZREMRANGEBYSCORE k (TIME s - ttl) s
      in ((), if ZCARD k s1 = 0 then put_zset k \<lparr>zs_members = [], zs_deadline = None\<rparr> s1 else EXPIRE k ttl s1))"

definition has_prefix :: "string \<Rightarrow> string \<Rightarrow> bool" where
  "has_prefix p m \<longleftrightarrow> take (length p) m = p"

definition cleanup_key :: "string \<Rightarrow> int \<Rightarrow> string \<Rightarrow> cworld \<Rightarrow> cworld" where
  "cleanup_key activePrefix ttl k s =
     (let s1 = change_members (filter (\<lambda>m. has_prefix activePrefix (fst m))) k s
      in if ZCARD k s1 = 0 then put_zset k \<lparr>zs_members = [], zs_deadline = None\<rparr> s1 else EXPIRE k ttl s1)"

definition startupCleanupScript :: "string list \<Rightarrow> string \<Rightarrow> int \<Rightarrow> cworld \<Rightarrow> unit \<times> cworld" where
  "startupCleanupScript ks activePrefix ttl s = ((), fold (cleanup_key activePrefix ttl) ks s)"

section \<open>The cache\<close>

record concurrencyCache =
  cc_slotTTLSeconds :: int
  cc_waitQueueTTLSeconds :: int

definition defaultSlotTTLMinutes :: int where "defaultSlotTTLMinutes = 15"

definition NewConcurrencyCache :: "int \<Rightarrow> int \<Rightarrow> concurrencyCache" where
  "NewConcurrencyCache slotTTLMinutes waitQueueTTLSeconds =
     (let m = (if slotTTLMinutes \<le> 0 then defaultSlotTTLMinutes else slotTTLMinutes)
      in \<lparr>cc_slotTTLSeconds = m * 60,
          cc_waitQueueTTLSeconds = (if waitQueueTTLSeconds \<le> 0 then m * 60 else waitQueueTTLSeconds)\<rparr>)"

definition accountSlotKeyPrefix :: string where "accountSlotKeyPrefix = ''concurrency:account:''"
definition userSlotKeyPrefix :: string where "userSlotKeyPrefix = ''concurrency:user:''"
definition waitQueueKeyPrefix :: string where "waitQueueKeyPrefix = ''concurrency:wait:''"
definition accountWaitKeyPrefix :: string where "accountWaitKeyPrefix = ''wait:account:''"

definition accountSlotKey :: "int \<Rightarrow> string" where "accountSlotKey i = accountSlotKeyPrefix @ itoa i"
definition userSlotKey :: "int \<Rightarrow> string" where "userSlotKey i = userSlotKeyPrefix @ itoa i"
definition waitQueueKey :: "int \<Rightarrow> string" where "waitQueueKey i = waitQueueKeyPrefix @ itoa i"
definition accountWaitKey :: "int \<Rightarrow> string" where "accountWaitKey i = accountWaitKeyPrefix @ itoa i"

text \<open>One call to Redis.\<close>

definition next_fault :: "cworld \<Rightarrow> outcome \<times> cworld" where
  "next_fault s = (case cw_faults s of [] \<Rightarrow> (Works, s) | f # fs \<Rightarrow> (f, s\<lparr>cw_faults := fs\<rparr>))"

definition ErrRedis :: go_error where "ErrRedis = PlainErr ''redis error''"

definition send :: "(cworld \<Rightarrow> 'r \<times> cworld) \<Rightarrow> cworld \<Rightarrow> (go_error + 'r) \<times> cworld" where
  "send f s =
     (case next_fault s of (oc, s1) \<Rightarrow>
        (case oc of
           Works \<Rightarrow> (Inr (fst (f s1)), snd (f s1))
         | Fails \<Rightarrow> (Inl ErrRedis, s1)
         | Unacked \<Rightarrow> (Inl ErrRedis, snd (f s1))))"

definition call :: "(cworld \<Rightarrow> 'r \<times> cworld) \<Rightarrow> (go_error + 'r \<Rightarrow> 'a cprog) \<Rightarrow> 'a cprog" where
  "call f k = atomically (send f) k"

definition only_effect :: "(cworld \<Rightarrow> cworld) \<Rightarrow> cworld \<Rightarrow> unit \<times> cworld" where
  "only_effect f s = ((), f s)"

definition only_value :: "(cworld \<Rightarrow> 'r) \<Rightarrow> cworld \<Rightarrow> 'r \<times> cworld" where
  "only_value f s = (f s, s)"

text \<open>
  The methods of the cache. Slots of accounts and of users differ only in the key.
\<close>

definition cache_AcquireSlot :: "concurrencyCache \<Rightarrow> string \<Rightarrow> int \<Rightarrow> string \<Rightarrow>
    (go_error + bool \<Rightarrow> 'a cprog) \<Rightarrow> 'a cprog" where
  "cache_AcquireSlot c k maxConcurrency requestID =
     call (acquireScript k maxConcurrency (cc_slotTTLSeconds c) requestID)"

definition cache_ReleaseSlot :: "string \<Rightarrow> string \<Rightarrow> 'a cprog \<Rightarrow> 'a cprog" where
  "cache_ReleaseSlot k requestID next = call (only_effect (ZREM k requestID)) (\<lambda>_. next)"

definition GetConcurrency :: "concurrencyCache \<Rightarrow> string \<Rightarrow> (go_error + int \<Rightarrow> 'a cprog) \<Rightarrow> 'a cprog" where
  "GetConcurrency c k = call (getCountScript k (cc_slotTTLSeconds c))"

definition cache_IncrementWaitCount :: "concurrencyCache \<Rightarrow> string \<Rightarrow> int \<Rightarrow>
    (go_error + bool \<Rightarrow> 'a cprog) \<Rightarrow> 'a cprog" where
  "cache_IncrementWaitCount c k maxWait = call (incrementWaitScript k maxWait (cc_waitQueueTTLSeconds c))"

definition cache_DecrementWaitCount :: "string \<Rightarrow> 'a cprog \<Rightarrow> 'a cprog" where
  "cache_DecrementWaitCount k next = call (decrementWaitScript k) (\<lambda>_. next)"

definition CleanupExpiredAccountSlots :: "concurrencyCache \<Rightarrow> int \<Rightarrow> 'a cprog \<Rightarrow> 'a cprog" where
  "CleanupExpiredAccountSlots c i next =
     call (cleanupExpiredSlotsScript (accountSlotKey i) (cc_slotTTLSeconds c)) (\<lambda>_. next)"

text \<open>
  The load of a batch: the time is asked first, then a pipeline removes what has expired and reads
  the number of slots and of waiting requests, account by account.
\<close>

record LoadInfo =
  li_ID :: int
  li_CurrentConcurrency :: int
  li_WaitingCount :: int
  li_LoadRate :: int

definition load_info :: "int \<times> int \<Rightarrow> int \<Rightarrow> int \<Rightarrow> LoadInfo" where
  "load_info a current waiting = \<lparr>li_ID = fst a, li_CurrentConcurrency = current, li_WaitingCount = waiting,
     li_LoadRate = (if 0 < snd a then go_div ((current + waiting) * 100) (snd a) else 0)\<rparr>"

definition pipe_read :: "string \<Rightarrow> string \<Rightarrow> int \<Rightarrow> (int \<Rightarrow> int \<Rightarrow> 'a cprog) \<Rightarrow> 'a cprog" where
  "pipe_read slotKey waitKey cutoff k =
     atomically (only_effect (ZREMRANGEBYSCORE slotKey cutoff)) (\<lambda>_.
       atomically (only_value (ZCARD slotKey)) (\<lambda>n.
         atomically (only_value (count_at waitKey)) (\<lambda>w. k n w)))"

definition GetLoadBatch :: "concurrencyCache \<Rightarrow> (int \<Rightarrow> string) \<Rightarrow> (int \<Rightarrow> string) \<Rightarrow> (int \<times> int) list \<Rightarrow>
    (cworld, go_error + LoadInfo list) prog" where
  "GetLoadBatch c slotKey waitKey accounts =
     (if accounts = [] then Return (Inr [])
      else call (only_value TIME) (\<lambda>t. case t of
          Inl e \<Rightarrow> Return (Inl (WrapErr ''redis TIME'' e))
        | Inr now \<Rightarrow>
            call (only_value (\<lambda>_. ())) (\<lambda>p. case p of
                Inl e \<Rightarrow> Return (Inl (WrapErr ''pipeline exec'' e))
              | Inr _ \<Rightarrow>
                  bind (foreach accounts (\<lambda>a infos.
                      pipe_read (slotKey (fst a)) (waitKey (fst a)) (now - cc_slotTTLSeconds c)
                        (\<lambda>n w. Return (infos @ [load_info a n w]))) [])
                    (\<lambda>infos. Return (Inr infos)))))"

definition GetAccountsLoadBatch :: "concurrencyCache \<Rightarrow> (int \<times> int) list \<Rightarrow> (cworld, go_error + LoadInfo list) prog" where
  "GetAccountsLoadBatch c = GetLoadBatch c accountSlotKey accountWaitKey"

definition GetUsersLoadBatch :: "concurrencyCache \<Rightarrow> (int \<times> int) list \<Rightarrow> (cworld, go_error + LoadInfo list) prog" where
  "GetUsersLoadBatch c = GetLoadBatch c userSlotKey waitQueueKey"

text \<open>
  The cleanup at the start of a process. \<open>SCAN\<close> is modelled as one reading of the keys, which are
  then worked off in batches.
\<close>

definition scanCount :: nat where "scanCount = 200"

function batches :: "nat \<Rightarrow> 'x list \<Rightarrow> 'x list list" where
  "batches n xs = (if n = 0 \<or> xs = [] then [] else take n xs # batches n (drop n xs))"
  by auto
termination by (relation "measure (\<lambda>(n, xs). length xs)") auto

declare batches.simps [simp del]

definition slot_keys :: "string \<Rightarrow> cworld \<Rightarrow> string list" where
  "slot_keys p s = filter (has_prefix p) (remdups (map fst (cw_zsets s)))"

definition wait_keys :: "string \<Rightarrow> cworld \<Rightarrow> string list" where
  "wait_keys p s = filter (has_prefix p) (remdups (map fst (cw_counts s)))"

definition DEL_counts :: "string list \<Rightarrow> cworld \<Rightarrow> cworld" where
  "DEL_counts ks s = s\<lparr>cw_counts := filter (\<lambda>c. fst c \<notin> set ks) (cw_counts s)\<rparr>"

definition for_batches :: "(cworld \<Rightarrow> string list) \<Rightarrow> (string list \<Rightarrow> cworld \<Rightarrow> unit \<times> cworld) \<Rightarrow>
    (cworld, go_error + unit) prog" where
  "for_batches scan f =
     call (only_value scan) (\<lambda>r. case r of
         Inl e \<Rightarrow> Return (Inl e)
       | Inr ks \<Rightarrow> foreach (batches scanCount ks) (\<lambda>b r. case r of
             Inl e \<Rightarrow> Return (Inl e)
           | Inr _ \<Rightarrow> call (f b) Return) (Inr ()))"

definition cleanupSlotsByPattern :: "concurrencyCache \<Rightarrow> string \<Rightarrow> string \<Rightarrow> (cworld, go_error + unit) prog" where
  "cleanupSlotsByPattern c p activePrefix =
     for_batches (slot_keys p) (\<lambda>b. startupCleanupScript b activePrefix (cc_slotTTLSeconds c))"

definition deleteKeysByPattern :: "string \<Rightarrow> (cworld, go_error + unit) prog" where
  "deleteKeysByPattern p = for_batches (wait_keys p) (\<lambda>b. only_effect (DEL_counts b))"

definition on_ok :: "(cworld, go_error + unit) prog \<Rightarrow> (cworld, go_error + unit) prog \<Rightarrow> (cworld, go_error + unit) prog" where
  "on_ok p q = bind p (\<lambda>r. case r of Inl e \<Rightarrow> Return (Inl e) | Inr _ \<Rightarrow> q)"

definition CleanupStaleProcessSlots :: "concurrencyCache \<Rightarrow> string \<Rightarrow> (cworld, go_error + unit) prog" where
  "CleanupStaleProcessSlots c activeRequestPrefix =
     (if activeRequestPrefix = [] then Return (Inr ())
      else on_ok (cleanupSlotsByPattern c accountSlotKeyPrefix activeRequestPrefix)
        (on_ok (cleanupSlotsByPattern c userSlotKeyPrefix activeRequestPrefix)
          (on_ok (deleteKeysByPattern accountWaitKeyPrefix) (deleteKeysByPattern waitQueueKeyPrefix))))"

section \<open>The service\<close>

text \<open>\<open>strconv.FormatUint(n, 36)\<close>.\<close>

definition digit36 :: "nat \<Rightarrow> char" where
  "digit36 d = (if d < 10 then char_of (d + 48) else char_of (d + 87))"

function FormatUint36 :: "nat \<Rightarrow> string" where
  "FormatUint36 n = (if n < 36 then [digit36 n] else FormatUint36 (n div 36) @ [digit36 (n mod 36)])"
  by auto
termination by (relation "measure id") auto

declare FormatUint36.simps [simp del]

text \<open>A process is known by its prefix: \<open>r\<close> and a number, of eight random bytes or, without them, of the time and the process id.\<close>

definition initRequestIDPrefix :: "64 word \<Rightarrow> string" where
  "initRequestIDPrefix rnd = ''r'' @ FormatUint36 (unat rnd)"

definition request_id :: "string \<Rightarrow> 64 word \<Rightarrow> string" where
  "request_id pfx seq = pfx @ ''-'' @ FormatUint36 (unat seq)"

definition generateRequestID :: "string \<Rightarrow> (string \<Rightarrow> 'a cprog) \<Rightarrow> 'a cprog" where
  "generateRequestID pfx k =
     atomically (\<lambda>s. (cw_seq s pfx + 1, s\<lparr>cw_seq := (cw_seq s)(pfx := cw_seq s pfx + 1)\<rparr>))
       (\<lambda>seq. k (request_id pfx seq))"

text \<open>
  What has to be released: nothing when there is no limit, else the member of a key. The result of
  an attempt is an error, no slot, or a slot.
\<close>

datatype slot = NoSlot | Slot string string

definition AcquireSlot :: "concurrencyCache \<Rightarrow> string \<Rightarrow> string \<Rightarrow> int \<Rightarrow> (go_error + slot option \<Rightarrow> 'a cprog) \<Rightarrow> 'a cprog" where
  "AcquireSlot c pfx key maxConcurrency k =
     (if maxConcurrency \<le> 0 then k (Inr (Some NoSlot))
      else generateRequestID pfx (\<lambda>requestID.
        cache_AcquireSlot c key maxConcurrency requestID (\<lambda>r. case r of
            Inl e \<Rightarrow> k (Inl e)
          | Inr acquired \<Rightarrow> k (Inr (if acquired then Some (Slot key requestID) else None)))))"

definition AcquireAccountSlot :: "concurrencyCache \<Rightarrow> string \<Rightarrow> int \<Rightarrow> int \<Rightarrow> (go_error + slot option \<Rightarrow> 'a cprog) \<Rightarrow> 'a cprog" where
  "AcquireAccountSlot c pfx accountID = AcquireSlot c pfx (accountSlotKey accountID)"

definition AcquireUserSlot :: "concurrencyCache \<Rightarrow> string \<Rightarrow> int \<Rightarrow> int \<Rightarrow> (go_error + slot option \<Rightarrow> 'a cprog) \<Rightarrow> 'a cprog" where
  "AcquireUserSlot c pfx userID = AcquireSlot c pfx (userSlotKey userID)"

definition ReleaseFunc :: "slot \<Rightarrow> 'a cprog \<Rightarrow> 'a cprog" where
  "ReleaseFunc sl next = (case sl of NoSlot \<Rightarrow> next | Slot k requestID \<Rightarrow> cache_ReleaseSlot k requestID next)"

text \<open>Waiting counters fail open; the cache is there whenever the service is used.\<close>

definition IncrementWaitCount :: "concurrencyCache \<Rightarrow> string \<Rightarrow> int \<Rightarrow> (bool \<Rightarrow> 'a cprog) \<Rightarrow> 'a cprog" where
  "IncrementWaitCount c key maxWait k =
     cache_IncrementWaitCount c key maxWait (\<lambda>r. case r of Inl _ \<Rightarrow> k True | Inr ok \<Rightarrow> k ok)"

definition DecrementWaitCount :: "string \<Rightarrow> 'a cprog \<Rightarrow> 'a cprog" where
  "DecrementWaitCount key next = cache_DecrementWaitCount key next"

definition defaultExtraWaitSlots :: int where "defaultExtraWaitSlots = 20"

definition CalculateMaxWait :: "int \<Rightarrow> int" where
  "CalculateMaxWait userConcurrency =
     (if userConcurrency \<le> 0 then 1 else userConcurrency) + defaultExtraWaitSlots"

definition runCleanup :: "concurrencyCache \<Rightarrow> int list \<Rightarrow> (cworld, unit) prog" where
  "runCleanup c accounts = foreach accounts (\<lambda>i _. CleanupExpiredAccountSlots c i (Return ())) ()"

section \<open>Waiting\<close>

definition maxConcurrencyWait :: duration where "maxConcurrencyWait = 30 * time_Second"
definition time_Millisecond :: duration where "time_Millisecond = 1000000"

definition initialBackoff :: duration where "initialBackoff = 100 * time_Millisecond"
definition backoffMultiplier :: rat where "backoffMultiplier = 3 / 2"
definition maxBackoff :: duration where "maxBackoff = 2 * time_Second"

text \<open>The random number is between 0 and 1; durations are truncated.\<close>

definition nextBackoff :: "rat \<Rightarrow> duration \<Rightarrow> duration" where
  "nextBackoff rnd current =
     (let grown = \<lfloor>rat_of_int current * backoffMultiplier\<rfloor>;
          capped_next = (if maxBackoff < grown then maxBackoff else grown);
          jittered = \<lfloor>rat_of_int capped_next * (8 / 10 + rnd * (4 / 10))\<rfloor>
      in if jittered < initialBackoff then initialBackoff
         else if maxBackoff < jittered then maxBackoff else jittered)"

text \<open>
  The channels of the select, in the order in which they become ready: the timer (with the random
  number of the next backoff), the ping ticker (and whether the ping can be written). When no more
  come, the context is done.
\<close>

datatype wake = TimerFires rat | PingFires bool

definition timeout_error :: "string \<Rightarrow> go_error" where
  "timeout_error slotType = PlainErr (''timeout waiting for '' @ slotType @ '' concurrency slot'')"

fun wait_loop :: "concurrencyCache \<Rightarrow> string \<Rightarrow> string \<Rightarrow> string \<Rightarrow> int \<Rightarrow> wake list \<Rightarrow> duration \<Rightarrow> bool \<Rightarrow>
    (go_error + slot \<Rightarrow> bool \<Rightarrow> 'a cprog) \<Rightarrow> 'a cprog" where
  "wait_loop c pfx slotType key maxConcurrency [] backoff streamStarted k =
     k (Inl (timeout_error slotType)) streamStarted"
| "wait_loop c pfx slotType key maxConcurrency (PingFires written # ws) backoff streamStarted k =
     (if written then wait_loop c pfx slotType key maxConcurrency ws backoff True k
      else k (Inl (PlainErr ''write error'')) True)"
| "wait_loop c pfx slotType key maxConcurrency (TimerFires rnd # ws) backoff streamStarted k =
     AcquireSlot c pfx key maxConcurrency (\<lambda>r. case r of
         Inl e \<Rightarrow> k (Inl e) streamStarted
       | Inr (Some sl) \<Rightarrow> k (Inr sl) streamStarted
       | Inr None \<Rightarrow> wait_loop c pfx slotType key maxConcurrency ws (nextBackoff rnd backoff) streamStarted k)"

text \<open>Without streaming, or for a client without pings, the ticker does not exist.\<close>

definition without_pings :: "wake list \<Rightarrow> wake list" where
  "without_pings ws = filter (\<lambda>w. case w of TimerFires _ \<Rightarrow> True | PingFires _ \<Rightarrow> False) ws"

record wait_env =
  we_isStream :: bool
  we_pingFormat :: string
  we_wakes :: "wake list"

definition waitForSlotWithPingTimeout :: "concurrencyCache \<Rightarrow> string \<Rightarrow> string \<Rightarrow> string \<Rightarrow> int \<Rightarrow> wait_env \<Rightarrow> bool \<Rightarrow> bool \<Rightarrow>
    (go_error + slot \<Rightarrow> bool \<Rightarrow> 'a cprog) \<Rightarrow> 'a cprog" where
  "waitForSlotWithPingTimeout c pfx slotType key maxConcurrency we streamStarted tryImmediate k =
     (let wait = wait_loop c pfx slotType key maxConcurrency
            (if we_isStream we \<and> we_pingFormat we \<noteq> [] then we_wakes we else without_pings (we_wakes we))
            initialBackoff streamStarted k
      in if tryImmediate then AcquireSlot c pfx key maxConcurrency (\<lambda>r. case r of
             Inl e \<Rightarrow> k (Inl e) streamStarted
           | Inr (Some sl) \<Rightarrow> k (Inr sl) streamStarted
           | Inr None \<Rightarrow> wait)
         else wait)"

definition AcquireUserSlotWithWait :: "concurrencyCache \<Rightarrow> string \<Rightarrow> int \<Rightarrow> int \<Rightarrow> wait_env \<Rightarrow> bool \<Rightarrow>
    (go_error + slot \<Rightarrow> bool \<Rightarrow> 'a cprog) \<Rightarrow> 'a cprog" where
  "AcquireUserSlotWithWait c pfx userID maxConcurrency we streamStarted k =
     AcquireUserSlot c pfx userID maxConcurrency (\<lambda>r. case r of
         Inl e \<Rightarrow> k (Inl e) streamStarted
       | Inr (Some sl) \<Rightarrow> k (Inr sl) streamStarted
       | Inr None \<Rightarrow> waitForSlotWithPingTimeout c pfx ''user'' (userSlotKey userID) maxConcurrency we
           streamStarted False k)"

definition AcquireAccountSlotWithWaitTimeout :: "concurrencyCache \<Rightarrow> string \<Rightarrow> int \<Rightarrow> int \<Rightarrow> wait_env \<Rightarrow> bool \<Rightarrow>
    (go_error + slot \<Rightarrow> bool \<Rightarrow> 'a cprog) \<Rightarrow> 'a cprog" where
  "AcquireAccountSlotWithWaitTimeout c pfx accountID maxConcurrency we streamStarted k =
     waitForSlotWithPingTimeout c pfx ''account'' (accountSlotKey accountID) maxConcurrency we streamStarted True k"

section \<open>A request\<close>

text \<open>
  The slots of a chat completion: a place in the user's queue, the user's slot, one account slot after
  the other until an attempt is not to be repeated (the account, its limit, how it waits, and
  whether another account is tried afterwards), and everything is given back. The result says how
  many attempts were forwarded.
\<close>

record attempt =
  at_account :: int
  at_maxConcurrency :: int
  at_wait :: wait_env
  at_again :: bool

fun account_attempts :: "concurrencyCache \<Rightarrow> string \<Rightarrow> attempt list \<Rightarrow> bool \<Rightarrow> nat \<Rightarrow>
    (go_error + nat \<Rightarrow> 'a cprog) \<Rightarrow> 'a cprog" where
  "account_attempts c pfx [] streamStarted n k = k (Inr n)"
| "account_attempts c pfx (a # as) streamStarted n k =
     AcquireAccountSlotWithWaitTimeout c pfx (at_account a) (at_maxConcurrency a) (at_wait a) streamStarted
       (\<lambda>r started. case r of
           Inl e \<Rightarrow> k (Inl e)
         | Inr sl \<Rightarrow> ReleaseFunc sl
             (if at_again a then account_attempts c pfx as started (n + 1) k else k (Inr (n + 1))))"

definition tooManyPending :: go_error where
  "tooManyPending = PlainErr ''Too many pending requests, please retry later''"

definition ChatCompletions_slots :: "concurrencyCache \<Rightarrow> string \<Rightarrow> int \<Rightarrow> int \<Rightarrow> wait_env \<Rightarrow> attempt list \<Rightarrow>
    (cworld, go_error + nat) prog" where
  "ChatCompletions_slots c pfx userID concurrency we attempts =
     IncrementWaitCount c (waitQueueKey userID) (CalculateMaxWait concurrency) (\<lambda>canWait.
       if \<not> canWait then Return (Inl tooManyPending)
       else AcquireUserSlotWithWait c pfx userID concurrency we False (\<lambda>r started.
         DecrementWaitCount (waitQueueKey userID)
           (case r of
              Inl e \<Rightarrow> Return (Inl e)
            | Inr sl \<Rightarrow> account_attempts c pfx attempts started 0 (\<lambda>res. ReleaseFunc sl (Return res)))))"

end
