(* ===== verification/ConcurrencyProps.thy ===== *)
theory ConcurrencyProps
  imports Concurrency
begin

text \<open>
  What the concurrency slots guarantee, whatever is going on at the same time (\<open>Concurrency\<close>).

  The sorted set of a key implements a set of holders that never grows beyond its limit. The locale
  \<open>cache_invariant\<close> is the interface between the scripts and the programs that use them: an invariant
  of Redis that every script keeps is kept by every interleaving of requests, load queries, cleanups
  and starting processes. It is interpreted for the slots of a key and for the length of a queue.
\<close>

section \<open>Sorted sets\<close>

lemma map_of_put [simp]:
  "map_of (cw_zsets (put_zset k z s)) k' =
     (if k' = k then if zs_members z = [] then None else Some z else map_of (cw_zsets s) k')"
  by (simp add: put_zset_def AList.delete_conv' AList.update_conv')

lemma put_zset_other [simp]:
  "cw_now (put_zset k z s) = cw_now s" "cw_counts (put_zset k z s) = cw_counts s"
  "cw_faults (put_zset k z s) = cw_faults s" "cw_seq (put_zset k z s) = cw_seq s"
  by (simp_all add: put_zset_def)

lemma in_time_None [simp]: "in_time now None"
  by (simp add: in_time_def)

lemma zset_of_in_time [simp]: "in_time (cw_now s) (zs_deadline (zset_of k s))"
  by (simp add: zset_of_def split: option.split)

lemma zset_of_put:
  "in_time (cw_now s) (zs_deadline z) \<Longrightarrow> zs_members z \<noteq> [] \<Longrightarrow> zset_of k (put_zset k z s) = z"
  "zs_members z = [] \<Longrightarrow> zset_of k (put_zset k z s) = \<lparr>zs_members = [], zs_deadline = None\<rparr>"
  "k' \<noteq> k \<Longrightarrow> zset_of k' (put_zset k z s) = zset_of k' s"
  by (simp_all add: zset_of_def split: option.split)

lemma members_change [simp]:
  "zs_members (zset_of k' (change_members f k s)) =
     (if k' = k then f (zs_members (zset_of k s)) else zs_members (zset_of k' s))"
  by (cases "f (zs_members (zset_of k s)) = []") (simp_all add: change_members_def zset_of_put)

lemma change_members_other [simp]:
  "cw_now (change_members f k s) = cw_now s" "cw_counts (change_members f k s) = cw_counts s"
  "cw_faults (change_members f k s) = cw_faults s" "cw_seq (change_members f k s) = cw_seq s"
  by (simp_all add: change_members_def)

lemma members_EXPIRE [simp]:
  "0 < ttl \<Longrightarrow> zs_members (zset_of k' (EXPIRE k ttl s)) = zs_members (zset_of k' s)"
proof (cases "k' = k")
  case True
  assume "0 < ttl"
  then show ?thesis
    using True by (cases "zs_members (zset_of k s) = []") (simp_all add: EXPIRE_def zset_of_put in_time_def)
qed (simp add: EXPIRE_def zset_of_put)

lemma EXPIRE_other [simp]:
  "cw_now (EXPIRE k ttl s) = cw_now s" "cw_counts (EXPIRE k ttl s) = cw_counts s"
  "cw_faults (EXPIRE k ttl s) = cw_faults s" "cw_seq (EXPIRE k ttl s) = cw_seq s"
  by (simp_all add: EXPIRE_def)

lemma cw_now_scripts [simp]:
  "cw_now (snd (acquireScript k n ttl r s)) = cw_now s"
  "cw_now (snd (incrementWaitScript k n ttl s)) = cw_now s"
  "cw_now (snd (decrementWaitScript k s)) = cw_now s"
  by (simp_all add: acquireScript_def incrementWaitScript_def decrementWaitScript_def Let_def ZREMRANGEBYSCORE_def
      ZADD_def split: option.split)

lemma TIME_simps [simp]:
  "TIME (put_zset k z s) = TIME s" "TIME (change_members f k s) = TIME s" "TIME (EXPIRE k ttl s) = TIME s"
  by (simp_all add: TIME_def)

section \<open>The slots of a key\<close>

text \<open>
  A slot is live for \<open>ttl\<close> seconds. The state of a key is well-formed when no member is there twice, no
  score is in the future, and the deadline of the key lies behind the last of its slots.
\<close>

definition live :: "int \<Rightarrow> string \<Rightarrow> cworld \<Rightarrow> string set" where
  "live ttl k s = fst ` {m \<in> set (zs_members (zset_of k s)). TIME s - ttl < snd m}"

definition slots_wf :: "int \<Rightarrow> string \<Rightarrow> cworld \<Rightarrow> bool" where
  "slots_wf ttl k s \<longleftrightarrow> distinct (map fst (zs_members (zset_of k s))) \<and>
     (\<forall>m \<in> set (zs_members (zset_of k s)). snd m \<le> TIME s \<and>
        (case zs_deadline (zset_of k s) of None \<Rightarrow> True | Some t \<Rightarrow> (snd m + ttl) * 1000 \<le> t))"

lemma finite_live [simp]: "finite (live ttl k s)"
  by (simp add: live_def)

lemma live_cong:
  "zs_members (zset_of k s) = zs_members (zset_of k t) \<Longrightarrow> TIME s = TIME t \<Longrightarrow> live ttl k s = live ttl k t"
  by (simp add: live_def)

lemma live_EXPIRE [simp]: "0 < ttl \<Longrightarrow> live ttl k' (EXPIRE k ttl s) = live ttl k' s"
  by (rule live_cong) simp_all

lemma live_other [simp]: "k' \<noteq> k \<Longrightarrow> live ttl k' (change_members f k s) = live ttl k' s"
  by (rule live_cong) simp_all

lemma live_cleared [simp]:
  "live ttl k' (put_zset k \<lparr>zs_members = [], zs_deadline = None\<rparr> s) = (if k' = k then {} else live ttl k' s)"
  by (auto simp: live_def zset_of_put)

lemma live_filter:
  "live ttl k (change_members (filter (\<lambda>m. P (fst m))) k s) = {m \<in> live ttl k s. P m}"
  by (auto simp: live_def)

lemma live_trim [simp]: "live ttl k (ZREMRANGEBYSCORE k' (TIME s - ttl) s) = live ttl k s"
  by (cases "k' = k") (auto simp: live_def ZREMRANGEBYSCORE_def)

lemma live_release: "live ttl k (ZREM k r s) = live ttl k s - {r}"
  by (auto simp: live_def ZREM_def AList.delete_eq)

lemma filter_eq_self: "\<forall>x \<in> set xs. P x \<Longrightarrow> filter P xs = xs"
  by simp

text \<open>After the expired members are gone, the live ones are all there are.\<close>

lemma trimmed:
  assumes "slots_wf ttl k s"
  defines "t \<equiv> ZREMRANGEBYSCORE k (TIME s - ttl) s"
  shows "ZCARD k t = int (card (live ttl k s))" "ZSCORE k r t \<noteq> None \<longleftrightarrow> r \<in> live ttl k s"
proof -
  let ?ms = "filter (\<lambda>m. TIME s - ttl < snd m) (zs_members (zset_of k s))"
  have ms: "zs_members (zset_of k t) = ?ms" by (simp add: t_def ZREMRANGEBYSCORE_def)
  have l: "live ttl k s = set (map fst ?ms)" by (auto simp: live_def)
  have "distinct (map fst ?ms)" using assms(1) by (simp add: slots_wf_def distinct_map_filter)
  then have "card (set (map fst ?ms)) = length ?ms" by (metis distinct_card length_map)
  then show "ZCARD k t = int (card (live ttl k s))" by (simp add: ZCARD_def ms l)
  show "ZSCORE k r t \<noteq> None \<longleftrightarrow> r \<in> live ttl k s" by (simp add: ZSCORE_def ms l map_of_eq_None_iff)
qed

lemma live_ZADD:
  assumes "slots_wf ttl k s" and ttl: "0 < ttl"
  shows "live ttl k (ZADD k (TIME s) r s) = insert r (live ttl k s)"
proof -
  let ?ms = "zs_members (zset_of k s)"
  have d: "distinct (map fst ?ms)" "distinct (map fst (AList.update r (TIME s) ?ms))"
    using assms(1) by (simp_all add: slots_wf_def distinct_update)
  have mem: "m \<in> live ttl k t \<longleftrightarrow> (\<exists>sc. map_of (zs_members (zset_of k t)) m = Some sc \<and> TIME t - ttl < sc)"
    if "distinct (map fst (zs_members (zset_of k t)))" for m t
    using that by (force simp: live_def dest: map_of_SomeD)
  have "m \<in> live ttl k (ZADD k (TIME s) r s) \<longleftrightarrow> m \<in> insert r (live ttl k s)" for m
    using d ttl by (auto simp: mem ZADD_def AList.update_conv')
  then show "live ttl k (ZADD k (TIME s) r s) = insert r (live ttl k s)" by blast
qed

section \<open>Well-formedness\<close>

lemma slots_wf_cong:
  "zset_of k s = zset_of k t \<Longrightarrow> TIME s = TIME t \<Longrightarrow> slots_wf ttl k s = slots_wf ttl k t"
  by (simp add: slots_wf_def)

lemma zset_of_change:
  "zset_of k' (change_members f k s) = (if k' = k then if f (zs_members (zset_of k s)) = []
     then \<lparr>zs_members = [], zs_deadline = None\<rparr> else (zset_of k s)\<lparr>zs_members := f (zs_members (zset_of k s))\<rparr>
   else zset_of k' s)"
  by (simp add: change_members_def zset_of_put)

lemma slots_wf_filter: "slots_wf ttl k s \<Longrightarrow> slots_wf ttl k (change_members (filter P) k' s)"
  by (auto simp: slots_wf_def zset_of_change distinct_map_filter)

lemma slots_wf_trim: "slots_wf ttl k s \<Longrightarrow> slots_wf ttl k (ZREMRANGEBYSCORE k' x s)"
  by (simp add: ZREMRANGEBYSCORE_def slots_wf_filter)

lemma slots_wf_ZREM: "slots_wf ttl k s \<Longrightarrow> slots_wf ttl k (ZREM k' r s)"
  by (simp add: ZREM_def AList.delete_eq [abs_def] slots_wf_filter)

lemma slots_wf_cleared: "slots_wf ttl k s \<Longrightarrow> slots_wf ttl k (put_zset k' \<lparr>zs_members = [], zs_deadline = None\<rparr> s)"
  by (cases "k' = k") (simp_all add: slots_wf_def zset_of_put)

text \<open>Setting the deadline makes up for a deadline that was too early for a new member.\<close>

definition members_wf :: "int \<Rightarrow> string \<Rightarrow> cworld \<Rightarrow> bool" where
  "members_wf ttl k s \<longleftrightarrow> distinct (map fst (zs_members (zset_of k s))) \<and>
     (\<forall>m \<in> set (zs_members (zset_of k s)). snd m \<le> TIME s)"

lemma slots_wf_EXPIRE:
  assumes "0 < ttl" "k' = k \<longrightarrow> members_wf ttl k s" "slots_wf ttl k s \<or> k' = k"
  shows "slots_wf ttl k (EXPIRE k' ttl s)"
proof (cases "k' = k")
  case True
  have z: "zset_of k (EXPIRE k ttl s) = (if zs_members (zset_of k s) = [] then \<lparr>zs_members = [], zs_deadline = None\<rparr>
      else (zset_of k s)\<lparr>zs_deadline := Some (cw_now s + ttl * 1000)\<rparr>)"
    using assms(1) by (simp add: EXPIRE_def zset_of_put in_time_def)
  have "(sc + ttl) * 1000 \<le> cw_now s + ttl * 1000" if "sc \<le> TIME s" for sc
  proof -
    have "sc * 1000 \<le> TIME s * 1000" using that by simp
    also have "\<dots> \<le> cw_now s" by (simp add: TIME_def)
    finally show ?thesis by (simp add: algebra_simps)
  qed
  then show ?thesis using True assms(2) by (auto simp: slots_wf_def members_wf_def z)
next
  case False
  then show ?thesis
    using assms(3) slots_wf_cong [of k "EXPIRE k' ttl s" s ttl] by (simp add: EXPIRE_def zset_of_put)
qed

lemma members_wf_ZADD:
  assumes "slots_wf ttl k s"
  shows "members_wf ttl k (ZADD k' (TIME s) r s)"
proof (cases "k' = k")
  case True
  let ?ms = "zs_members (zset_of k s)"
  have d: "distinct (map fst (AList.update r (TIME s) ?ms))" using assms by (simp add: slots_wf_def distinct_update)
  have "snd m \<le> TIME s" if m: "m \<in> set (AList.update r (TIME s) ?ms)" for m
  proof -
    have "map_of (AList.update r (TIME s) ?ms) (fst m) = Some (snd m)" using m d by (simp add: map_of_is_SomeI)
    then show ?thesis
      using assms by (auto simp: AList.update_conv' slots_wf_def split: if_splits dest!: map_of_SomeD)
  qed
  then show ?thesis using d True by (simp add: members_wf_def ZADD_def)
next
  case False
  then show ?thesis using assms by (simp add: members_wf_def slots_wf_def ZADD_def)
qed

section \<open>A slot set is a counting semaphore\<close>

text \<open>The specification: a set of holders.\<close>

definition sem_acquire :: "int \<Rightarrow> string \<Rightarrow> string set \<Rightarrow> bool \<times> string set" where
  "sem_acquire n r L = (if r \<in> L \<or> int (card L) < n then (True, insert r L) else (False, L))"

lemma acquire_semaphore:
  assumes "slots_wf ttl k s" "0 < ttl"
  shows "map_prod id (live ttl k) (acquireScript k n ttl r s) = sem_acquire n r (live ttl k s)"
proof -
  let ?t = "ZREMRANGEBYSCORE k (TIME s - ttl) s"
  have wf: "slots_wf ttl k ?t" using assms(1) by (rule slots_wf_trim)
  have T: "TIME ?t = TIME s" by (simp add: ZREMRANGEBYSCORE_def)
  have "live ttl k (ZADD k (TIME s) r ?t) = insert r (live ttl k s)"
    using live_ZADD [OF wf assms(2)] unfolding T by simp
  then have "live ttl k (EXPIRE k ttl (ZADD k (TIME s) r ?t)) = insert r (live ttl k s)"
    using assms(2) by simp
  then show ?thesis
    using trimmed(1) [OF assms(1)] trimmed(2) [OF assms(1), of r] by (simp add: acquireScript_def Let_def sem_acquire_def)
qed

lemma acquire_others:
  assumes "0 < ttl" "k' \<noteq> k"
  shows "live ttl k' (snd (acquireScript k n ttl r s)) = live ttl k' s"
  using assms by (simp add: acquireScript_def Let_def ZREMRANGEBYSCORE_def ZADD_def)

lemma slots_wf_acquire:
  assumes "slots_wf ttl k s" "0 < ttl"
  shows "slots_wf ttl k (snd (acquireScript k' n ttl r s))"
proof -
  let ?t = "ZREMRANGEBYSCORE k' (TIME s - ttl) s"
  have wf: "slots_wf ttl k ?t" using assms(1) by (rule slots_wf_trim)
  have T: "TIME ?t = TIME s" by (simp add: ZREMRANGEBYSCORE_def)
  have "slots_wf ttl k (EXPIRE k' ttl (ZADD k' (TIME s) r ?t))"
  proof (rule slots_wf_EXPIRE [OF assms(2)])
    show "k' = k \<longrightarrow> members_wf ttl k (ZADD k' (TIME s) r ?t)"
      using members_wf_ZADD [OF wf, of k' r] T by auto
    show "slots_wf ttl k (ZADD k' (TIME s) r ?t) \<or> k' = k"
    proof (cases "k' = k")
      case False
      then have "zset_of k (ZADD k' (TIME s) r ?t) = zset_of k ?t" by (simp add: ZADD_def zset_of_change)
      then show ?thesis using wf by (simp add: slots_wf_def ZADD_def)
    qed simp
  qed
  then show ?thesis using wf by (simp add: acquireScript_def Let_def)
qed

section \<open>Invariants of the cache\<close>

text \<open>
  What every call keeps, whatever the others do: an invariant of the state that each script keeps.
  \<open>limit_ok\<close> and \<open>wait_ok\<close> say with which limits a key may be used.
\<close>

locale cache_invariant = state_invariant I for I :: "cworld \<Rightarrow> bool" +
  fixes c :: concurrencyCache
    and limit_ok :: "string \<Rightarrow> int \<Rightarrow> bool" and wait_ok :: "string \<Rightarrow> int \<Rightarrow> bool"
  assumes keeps_faults: "I s \<Longrightarrow> I (s\<lparr>cw_faults := fs\<rparr>)"
    and keeps_seq: "I s \<Longrightarrow> I (s\<lparr>cw_seq := q\<rparr>)"
    and keeps_acquire: "I s \<Longrightarrow> limit_ok k n \<Longrightarrow> I (snd (acquireScript k n (cc_slotTTLSeconds c) r s))"
    and keeps_remove: "I s \<Longrightarrow> I (change_members (filter P) k s)"
    and keeps_clear: "I s \<Longrightarrow> I (put_zset k \<lparr>zs_members = [], zs_deadline = None\<rparr> s)"
    and keeps_expire: "I s \<Longrightarrow> I (EXPIRE k (cc_slotTTLSeconds c) s)"
    and keeps_increment: "I s \<Longrightarrow> wait_ok k n \<Longrightarrow> I (snd (incrementWaitScript k n (cc_waitQueueTTLSeconds c) s))"
    and keeps_decrement: "I s \<Longrightarrow> I (snd (decrementWaitScript k s))"
    and keeps_delete: "I s \<Longrightarrow> I (DEL_counts ks s)"
begin

lemma keeps_op_send: "keeps_op f \<Longrightarrow> keeps_op (send f)"
proof -
  assume f: "keeps_op f"
  have "I (snd (send f s))" if "I s" for s
  proof -
    obtain oc t where n: "next_fault s = (oc, t)" by (cases "next_fault s")
    have "I t" using n that keeps_faults [OF that] by (auto simp: next_fault_def split: list.splits)
    then show ?thesis using f by (cases oc) (simp_all add: send_def n keeps_op_def)
  qed
  then show ?thesis by (simp add: keeps_op_def)
qed

lemma kept_call: "keeps_op f \<Longrightarrow> (\<And>r. kept (k r)) \<Longrightarrow> kept (call f k)"
  unfolding call_def by (rule kept_atomically [OF keeps_op_send])

lemma keeps_acquire_op: "limit_ok k n \<Longrightarrow> keeps_op (acquireScript k n (cc_slotTTLSeconds c) r)"
  by (simp add: keeps_op_def keeps_acquire)

lemma keeps_increment_op: "wait_ok k n \<Longrightarrow> keeps_op (incrementWaitScript k n (cc_waitQueueTTLSeconds c))"
  by (simp add: keeps_op_def keeps_increment)

lemma keeps_ops:
  "keeps_op (decrementWaitScript k)"
  "keeps_op (only_effect (ZREM k r))"
  "keeps_op (only_effect (ZREMRANGEBYSCORE k x))"
  "keeps_op (getCountScript k ttl)"
  "keeps_op (cleanupExpiredSlotsScript k (cc_slotTTLSeconds c))"
  "keeps_op (only_value g)"
  "keeps_op (only_effect (DEL_counts ks))"
  using keeps_remove keeps_clear keeps_expire keeps_decrement keeps_delete
  by (simp_all add: keeps_op_def only_effect_def only_value_def getCountScript_def cleanupExpiredSlotsScript_def
      ZREM_def AList.delete_eq [abs_def] ZREMRANGEBYSCORE_def Let_def DEL_counts_def)

lemma keeps_cleanup_key: "I s \<Longrightarrow> I (cleanup_key p (cc_slotTTLSeconds c) k s)"
  using keeps_remove keeps_clear keeps_expire by (simp_all add: cleanup_key_def Let_def)

lemma keeps_startup: "keeps_op (startupCleanupScript ks p (cc_slotTTLSeconds c))"
proof -
  have "I s \<Longrightarrow> I (fold (cleanup_key p (cc_slotTTLSeconds c)) ks s)" for s
    by (induction ks arbitrary: s) (simp_all add: keeps_cleanup_key)
  then show ?thesis by (simp add: keeps_op_def startupCleanupScript_def)
qed

lemmas kept_ops = keeps_acquire_op keeps_increment_op keeps_ops keeps_startup

text \<open>The programs.\<close>

lemma kept_generateRequestID: "(\<And>r. kept (k r)) \<Longrightarrow> kept (generateRequestID pfx k)"
  unfolding generateRequestID_def by (rule kept_atomically) (auto simp: keeps_op_def keeps_seq)

lemma kept_AcquireSlot:
  "(0 < n \<Longrightarrow> limit_ok key n) \<Longrightarrow> (\<And>r. kept (k r)) \<Longrightarrow> kept (AcquireSlot c pfx key n k)"
  unfolding AcquireSlot_def cache_AcquireSlot_def
  by (intro kept_if kept_generateRequestID kept_call kept_case_sum kept_ops) auto

lemma kept_ReleaseFunc: "kept next \<Longrightarrow> kept (ReleaseFunc sl next)"
  unfolding ReleaseFunc_def cache_ReleaseSlot_def by (cases sl) (auto intro!: kept_call kept_ops)

lemma kept_result:
  "(\<And>e. kept (h e)) \<Longrightarrow> (\<And>sl. kept (f sl)) \<Longrightarrow> kept g \<Longrightarrow>
    kept (case r of Inl e \<Rightarrow> h e | Inr None \<Rightarrow> g | Inr (Some sl) \<Rightarrow> f sl)"
  by (cases r) (auto split: option.split)

lemma kept_wait_loop:
  "(0 < n \<Longrightarrow> limit_ok key n) \<Longrightarrow> (\<And>r b. kept (k r b)) \<Longrightarrow> kept (wait_loop c pfx ty key n ws backoff st k)"
proof (induction ws arbitrary: backoff st)
  case (Cons w ws)
  show ?case
  proof (cases w)
    case (TimerFires rnd)
    show ?thesis
      unfolding TimerFires wait_loop.simps by (intro kept_AcquireSlot kept_result) (use Cons in auto)
  qed (use Cons in auto)
qed simp

lemma kept_wait:
  "(0 < n \<Longrightarrow> limit_ok key n) \<Longrightarrow> (\<And>r b. kept (k r b)) \<Longrightarrow>
    kept (waitForSlotWithPingTimeout c pfx ty key n we st im k)"
  unfolding waitForSlotWithPingTimeout_def Let_def
  by (intro kept_if kept_AcquireSlot kept_result kept_wait_loop) auto

lemma kept_user_wait:
  "(0 < n \<Longrightarrow> limit_ok (userSlotKey i) n) \<Longrightarrow> (\<And>r b. kept (k r b)) \<Longrightarrow>
    kept (AcquireUserSlotWithWait c pfx i n we st k)"
  unfolding AcquireUserSlotWithWait_def AcquireUserSlot_def by (intro kept_AcquireSlot kept_result kept_wait) auto

lemma kept_attempts:
  "(\<And>a. a \<in> set as \<Longrightarrow> 0 < at_maxConcurrency a \<Longrightarrow> limit_ok (accountSlotKey (at_account a)) (at_maxConcurrency a)) \<Longrightarrow>
    (\<And>r. kept (k r)) \<Longrightarrow> kept (account_attempts c pfx as st n k)"
proof (induction as arbitrary: st n)
  case (Cons a as)
  show ?case
    unfolding account_attempts.simps AcquireAccountSlotWithWaitTimeout_def
    by (intro kept_wait kept_case_sum kept_ReleaseFunc kept_if) (use Cons in auto)
qed simp

lemma kept_ChatCompletions:
  assumes "wait_ok (waitQueueKey i) (CalculateMaxWait n)" "0 < n \<Longrightarrow> limit_ok (userSlotKey i) n"
    "\<And>a. a \<in> set as \<Longrightarrow> 0 < at_maxConcurrency a \<Longrightarrow> limit_ok (accountSlotKey (at_account a)) (at_maxConcurrency a)"
  shows "kept (ChatCompletions_slots c pfx i n we as)"
  unfolding ChatCompletions_slots_def IncrementWaitCount_def cache_IncrementWaitCount_def DecrementWaitCount_def
    cache_DecrementWaitCount_def
  by (intro kept_call kept_if kept_case_sum kept_user_wait kept_attempts kept_ReleaseFunc kept_ops kept_Return assms)

lemma kept_load: "kept (GetLoadBatch c sk wk xs)"
  unfolding GetLoadBatch_def pipe_read_def
  by (intro kept_call kept_if kept_case_sum kept_bind kept_foreach kept_atomically kept_ops kept_Return)

lemma kept_runCleanup: "kept (runCleanup c is)"
  unfolding runCleanup_def CleanupExpiredAccountSlots_def by (intro kept_foreach kept_call kept_ops kept_Return)

lemma kept_batches: "(\<And>b. keeps_op (f b)) \<Longrightarrow> kept (for_batches scan f)"
  unfolding for_batches_def by (intro kept_call kept_case_sum kept_foreach kept_ops kept_Return) auto

lemma kept_on_ok: "kept p \<Longrightarrow> kept q \<Longrightarrow> kept (on_ok p q)"
  unfolding on_ok_def by (intro kept_bind kept_case_sum kept_Return) auto

lemma kept_startup: "kept (CleanupStaleProcessSlots c p)"
  unfolding CleanupStaleProcessSlots_def cleanupSlotsByPattern_def deleteKeysByPattern_def
  by (intro kept_if kept_on_ok kept_batches kept_ops kept_Return)

end

section \<open>The running system\<close>

text \<open>What may happen between two actions: time passes, and calls to Redis may fail from now on.\<close>

definition time_passes :: "cworld \<Rightarrow> cworld \<Rightarrow> bool" where
  "time_passes s t \<longleftrightarrow> (\<exists>now fs. cw_now s \<le> now \<and> t = s\<lparr>cw_now := now, cw_faults := fs\<rparr>)"

datatype cache_call =
    CallChat int int wait_env "attempt list"
  | CallAccountsLoad "(int \<times> int) list"
  | CallUsersLoad "(int \<times> int) list"
  | CallCleanup "int list"
  | CallStartup

definition ignore :: "(cworld, 'a) prog \<Rightarrow> (cworld, unit) prog" where
  "ignore p = bind p (\<lambda>_. Return ())"

primrec serve_cache :: "concurrencyCache \<Rightarrow> string \<Rightarrow> cache_call \<Rightarrow> (cworld, unit) prog" where
  "serve_cache c pfx (CallChat i n we as) = ignore (ChatCompletions_slots c pfx i n we as)"
| "serve_cache c pfx (CallAccountsLoad xs) = ignore (GetAccountsLoadBatch c xs)"
| "serve_cache c pfx (CallUsersLoad xs) = ignore (GetUsersLoadBatch c xs)"
| "serve_cache c pfx (CallCleanup is) = runCleanup c is"
| "serve_cache c pfx CallStartup = ignore (CleanupStaleProcessSlots c pfx)"

text \<open>The limits with which a call uses the slots of a key, and the places in a queue.\<close>

primrec slot_limits :: "string \<Rightarrow> cache_call \<Rightarrow> int set" where
  "slot_limits k (CallChat i n we as) = {m. (k, m) \<in> insert (userSlotKey i, n)
     (set (map (\<lambda>a. (accountSlotKey (at_account a), at_maxConcurrency a)) as))}"
| "slot_limits k (CallAccountsLoad xs) = {}"
| "slot_limits k (CallUsersLoad xs) = {}"
| "slot_limits k (CallCleanup is) = {}"
| "slot_limits k CallStartup = {}"

primrec wait_limits :: "string \<Rightarrow> cache_call \<Rightarrow> int set" where
  "wait_limits k (CallChat i n we as) = (if k = waitQueueKey i then {CalculateMaxWait n} else {})"
| "wait_limits k (CallAccountsLoad xs) = {}"
| "wait_limits k (CallUsersLoad xs) = {}"
| "wait_limits k (CallCleanup is) = {}"
| "wait_limits k CallStartup = {}"

definition cache_programs :: "concurrencyCache \<Rightarrow> (cache_call \<Rightarrow> bool) \<Rightarrow> (cworld, unit) prog set" where
  "cache_programs c ok = {serve_cache c pfx cl | pfx cl. ok cl}"

context cache_invariant
begin

lemma kept_ignore: "kept p \<Longrightarrow> kept (ignore p)"
  unfolding ignore_def by (intro kept_bind kept_Return)

lemma kept_serve:
  assumes "\<And>k n. n \<in> slot_limits k cl \<Longrightarrow> 0 < n \<Longrightarrow> limit_ok k n"
    and "\<And>k n. n \<in> wait_limits k cl \<Longrightarrow> wait_ok k n"
  shows "kept (serve_cache c pfx cl)"
proof (cases cl)
  case (CallChat i n we as)
  show ?thesis
    unfolding CallChat serve_cache.simps
  proof (intro kept_ignore kept_ChatCompletions)
    show "wait_ok (waitQueueKey i) (CalculateMaxWait n)" using assms(2) by (simp add: CallChat)
    show "0 < n \<Longrightarrow> limit_ok (userSlotKey i) n" using assms(1) by (simp add: CallChat)
    show "limit_ok (accountSlotKey (at_account a)) (at_maxConcurrency a)"
      if "a \<in> set as" "0 < at_maxConcurrency a" for a
      using assms(1) that by (force simp: CallChat)
  qed
qed (simp_all add: GetAccountsLoadBatch_def GetUsersLoadBatch_def kept_ignore kept_load kept_runCleanup kept_startup)

text \<open>What all scripts and the passing of time keep, every interleaving keeps.\<close>

lemma reachable_cache_keeps:
  assumes "reachable time_passes (cache_programs c ok) s d" "I s"
    and "\<And>s t. time_passes s t \<Longrightarrow> I s \<Longrightarrow> I t"
    and "\<And>cl k n. ok cl \<Longrightarrow> n \<in> slot_limits k cl \<Longrightarrow> 0 < n \<Longrightarrow> limit_ok k n"
    and "\<And>cl k n. ok cl \<Longrightarrow> n \<in> wait_limits k cl \<Longrightarrow> wait_ok k n"
  shows "I (snd d)"
proof (rule reachable_keeps [OF assms(1-3)])
  show "kept p" if "p \<in> cache_programs c ok" for p
    using that kept_serve assms(4,5) unfolding cache_programs_def by blast
qed

end

section \<open>Slots never exceed the limit\<close>

definition slots_bounded :: "concurrencyCache \<Rightarrow> string \<Rightarrow> int \<Rightarrow> cworld \<Rightarrow> bool" where
  "slots_bounded c k M s \<longleftrightarrow> 0 < cc_slotTTLSeconds c \<and> slots_wf (cc_slotTTLSeconds c) k s \<and>
     int (card (live (cc_slotTTLSeconds c) k s)) \<le> M"

lemma slots_bounded_mono:
  "slots_bounded c k M s \<Longrightarrow> slots_wf (cc_slotTTLSeconds c) k t \<Longrightarrow>
    live (cc_slotTTLSeconds c) k t \<subseteq> live (cc_slotTTLSeconds c) k s \<Longrightarrow> slots_bounded c k M t"
  unfolding slots_bounded_def using card_mono [of "live (cc_slotTTLSeconds c) k s" "live (cc_slotTTLSeconds c) k t"]
  by force

lemma live_filter_subset: "live ttl k (change_members (filter P) k' s) \<subseteq> live ttl k s"
  by (cases "k' = k") (auto simp: live_def)

lemma slots_same:
  assumes "cw_zsets t = cw_zsets s" "cw_now t = cw_now s"
  shows "live ttl k t = live ttl k s" "slots_wf ttl k t = slots_wf ttl k s"
proof -
  have z: "zset_of k t = zset_of k s" by (simp only: zset_of_def assms)
  have T: "TIME t = TIME s" using assms by (simp add: TIME_def)
  show "live ttl k t = live ttl k s" by (rule live_cong) (simp_all add: z T)
  show "slots_wf ttl k t = slots_wf ttl k s" by (rule slots_wf_cong) (simp_all add: z T)
qed

lemma scripts_zsets [simp]:
  "cw_zsets (snd (incrementWaitScript k n ttl s)) = cw_zsets s"
  "cw_zsets (snd (decrementWaitScript k s)) = cw_zsets s"
  "cw_zsets (DEL_counts ks s) = cw_zsets s" "cw_now (DEL_counts ks s) = cw_now s"
  by (simp_all add: incrementWaitScript_def decrementWaitScript_def DEL_counts_def split: option.split)

lemma members_wfI: "slots_wf ttl k s \<Longrightarrow> members_wf ttl k s"
  by (simp add: slots_wf_def members_wf_def)

lemma slots_bounded_same:
  "slots_bounded c k M s \<Longrightarrow> cw_zsets t = cw_zsets s \<Longrightarrow> cw_now t = cw_now s \<Longrightarrow> slots_bounded c k M t"
  using slots_same [of t s "cc_slotTTLSeconds c" k] by (simp add: slots_bounded_def)

lemma card_sem_acquire: "finite L \<Longrightarrow> int (card L) \<le> M \<Longrightarrow> n \<le> M \<Longrightarrow> int (card (snd (sem_acquire n r L))) \<le> M"
  by (cases "r \<in> L"; cases "int (card L) < n") (simp_all add: sem_acquire_def card_insert_if)

lemma slots_bounded_acquire:
  assumes "slots_bounded c k M s" "k' = k \<longrightarrow> n \<le> M"
  shows "slots_bounded c k M (snd (acquireScript k' n (cc_slotTTLSeconds c) r s))"
proof -
  let ?ttl = "cc_slotTTLSeconds c"
  have b: "0 < ?ttl" "slots_wf ?ttl k s" "int (card (live ?ttl k s)) \<le> M"
    using assms(1) by (simp_all add: slots_bounded_def)
  have "int (card (live ?ttl k (snd (acquireScript k' n ?ttl r s)))) \<le> M"
  proof (cases "k' = k")
    case True
    have "live ?ttl k (snd (acquireScript k n ?ttl r s)) = snd (sem_acquire n r (live ?ttl k s))"
      using arg_cong [OF acquire_semaphore [OF b(2,1), of n r], of snd] by (simp only: snd_map_prod)
    then show ?thesis using True assms(2) b(3) by (simp add: card_sem_acquire)
  next
    case False
    then show ?thesis using b by (simp add: acquire_others)
  qed
  then show ?thesis using b by (simp add: slots_bounded_def slots_wf_acquire)
qed

interpretation slots: cache_invariant "slots_bounded c k M" c "\<lambda>k' n. k' = k \<longrightarrow> n \<le> M" "\<lambda>_ _. True"
  for c k M
proof
  show "slots_bounded c k M (change_members (filter P) k' s)" if "slots_bounded c k M s" for P k' s
    using that by (rule slots_bounded_mono)
      (use that in \<open>auto simp: slots_bounded_def slots_wf_filter dest: live_filter_subset [THEN subsetD]\<close>)
  show "slots_bounded c k M (put_zset k' \<lparr>zs_members = [], zs_deadline = None\<rparr> s)"
    if "slots_bounded c k M s" for k' s
    using that by (rule slots_bounded_mono) (use that in \<open>simp_all add: slots_bounded_def slots_wf_cleared\<close>)
  show "slots_bounded c k M (EXPIRE k' (cc_slotTTLSeconds c) s)" if "slots_bounded c k M s" for k' s
    using that by (auto simp: slots_bounded_def intro!: slots_wf_EXPIRE members_wfI)
qed (auto intro: slots_bounded_same slots_bounded_acquire)

lemma in_time_later: "in_time now d \<Longrightarrow> before \<le> now \<Longrightarrow> in_time before d"
  by (simp add: in_time_def split: option.splits)

text \<open>
  Time only takes away, and exactly what is older than the time to live: the deadline of the key
  never comes before that of a slot.
\<close>

lemma time_passes_members:
  assumes "time_passes s t"
  shows "zset_of k t = zset_of k s \<or> zset_of k t = \<lparr>zs_members = [], zs_deadline = None\<rparr>" "TIME s \<le> TIME t"
proof -
  have z: "cw_zsets t = cw_zsets s" and n: "cw_now s \<le> cw_now t"
    using assms by (auto simp: time_passes_def)
  show "zset_of k t = zset_of k s \<or> zset_of k t = \<lparr>zs_members = [], zs_deadline = None\<rparr>"
    using in_time_later n by (auto simp: zset_of_def z split: option.splits)
  show "TIME s \<le> TIME t" using n by (simp add: TIME_def zdiv_mono1)
qed

lemma slots_wf_time: "time_passes s t \<Longrightarrow> slots_wf ttl k s \<Longrightarrow> slots_wf ttl k t"
  using time_passes_members(1) [of s t k] time_passes_members(2) [of s t] by (force simp: slots_wf_def)

lemma live_time: "time_passes s t \<Longrightarrow> live ttl k t \<subseteq> live ttl k s"
  using time_passes_members(1) [of s t k] time_passes_members(2) [of s t] by (auto simp: live_def)

lemma live_time_exact:
  assumes "time_passes s t" "slots_wf ttl k s"
  shows "live ttl k t = fst ` {m \<in> set (zs_members (zset_of k s)). TIME t - ttl < snd m}"
proof (cases "zset_of k t = zset_of k s")
  case True
  then show ?thesis by (simp add: live_def)
next
  case False
  then have e: "zset_of k t = \<lparr>zs_members = [], zs_deadline = None\<rparr>"
    using time_passes_members(1) [OF assms(1), of k] by blast
  have z: "cw_zsets t = cw_zsets s"
    using assms(1) by (auto simp: time_passes_def)
  obtain d where d: "zs_deadline (zset_of k s) = Some d" "d \<le> cw_now t"
    using False e by (auto simp: zset_of_def z in_time_def split: option.splits if_splits)
  have "snd m \<le> TIME t - ttl" if "m \<in> set (zs_members (zset_of k s))" for m
  proof -
    have "(snd m + ttl) * 1000 \<le> cw_now t" using assms(2) that d by (force simp: slots_wf_def)
    then have "(snd m + ttl) * 1000 div 1000 \<le> cw_now t div 1000" by (rule zdiv_mono1) simp
    then show ?thesis by (simp add: TIME_def)
  qed
  then show ?thesis by (force simp: live_def e)
qed

text \<open>A slot that is held longer than the time to live is lost, for nothing renews it.\<close>

lemma slots_expire:
  assumes "time_passes s t" "slots_wf ttl k s" "TIME s + ttl \<le> TIME t"
  shows "live ttl k t = {}"
  using assms(2,3) by (force simp: live_time_exact [OF assms(1,2)] slots_wf_def)

text \<open>
  (C6) The limit is never exceeded. However requests, load queries, cleanups and starts of further
  processes interleave, whichever calls to Redis fail or lose their answer, and whichever process dies
  while it holds slots: as long as nobody uses a key with a limit above \<open>M\<close>, it never has more than \<open>M\<close>
  live slots.
\<close>

theorem slots_never_exceed_limit:
  assumes "reachable time_passes (cache_programs c (\<lambda>cl. \<forall>n \<in> slot_limits k cl. n \<le> M)) s d"
    "0 < cc_slotTTLSeconds c" "slots_wf (cc_slotTTLSeconds c) k s"
    "int (card (live (cc_slotTTLSeconds c) k s)) \<le> M"
  shows "int (card (live (cc_slotTTLSeconds c) k (snd d))) \<le> M"
proof -
  have "slots_bounded c k M (snd d)"
  proof (rule slots.reachable_cache_keeps [OF assms(1)])
    show "slots_bounded c k M u" if "time_passes v u" "slots_bounded c k M v" for v u
      using that(2) by (rule slots_bounded_mono)
        (use that in \<open>auto simp: slots_bounded_def intro: slots_wf_time dest: live_time [THEN subsetD]\<close>)
  qed (use assms(2-4) in \<open>auto simp: slots_bounded_def\<close>)
  then show ?thesis by (simp add: slots_bounded_def)
qed

section \<open>Refinement\<close>

text \<open>
  The specification of a key: the set of its holders. What the code answers to an operation on its
  sorted set is what the specification answers, and the live slots afterwards are its holders.
\<close>

datatype slot_op = OpAcquire int string | OpRelease string | OpCount | OpCleanup | OpStartup string

primrec spec_op :: "slot_op \<Rightarrow> string set \<Rightarrow> int \<times> string set" where
  "spec_op (OpAcquire n r) L = map_prod of_bool id (sem_acquire n r L)"
| "spec_op (OpRelease r) L = (0, L - {r})"
| "spec_op OpCount L = (int (card L), L)"
| "spec_op OpCleanup L = (0, L)"
| "spec_op (OpStartup p) L = (0, {r \<in> L. has_prefix p r})"

primrec perform :: "int \<Rightarrow> string \<Rightarrow> slot_op \<Rightarrow> cworld \<Rightarrow> int \<times> cworld" where
  "perform ttl k (OpAcquire n r) s = map_prod of_bool id (acquireScript k n ttl r s)"
| "perform ttl k (OpRelease r) s = (0, ZREM k r s)"
| "perform ttl k OpCount s = getCountScript k ttl s"
| "perform ttl k OpCleanup s = map_prod (\<lambda>_. 0) id (cleanupExpiredSlotsScript k ttl s)"
| "perform ttl k (OpStartup p) s = map_prod (\<lambda>_. 0) id (startupCleanupScript [k] p ttl s)"

lemma emptied:
  assumes "ZCARD k s = 0"
  shows "live ttl k s = {}"
  using assms by (simp add: live_def ZCARD_def)

lemma live_cleanup_key: "0 < ttl \<Longrightarrow> live ttl k (cleanup_key p ttl k s) = {r \<in> live ttl k s. has_prefix p r}"
proof -
  let ?t = "change_members (filter (\<lambda>m. has_prefix p (fst m))) k s"
  assume "0 < ttl"
  then show ?thesis
    using emptied [of k ?t ttl] live_filter [of ttl k "has_prefix p" s] by (simp add: cleanup_key_def Let_def)
qed

lemma slots_wf_cleanup_key: "0 < ttl \<Longrightarrow> slots_wf ttl k s \<Longrightarrow> slots_wf ttl k (cleanup_key p ttl k' s)"
  unfolding cleanup_key_def Let_def
  by (auto intro!: slots_wf_cleared slots_wf_EXPIRE slots_wf_filter intro: members_wfI slots_wf_filter)

text \<open>
  (C14) The sorted set of a key implements the set of holders, operation by operation.
\<close>

theorem slots_refine_semaphore:
  assumes "slots_wf ttl k s" "0 < ttl"
  shows "map_prod id (live ttl k) (perform ttl k op s) = spec_op op (live ttl k s) \<and>
    slots_wf ttl k (snd (perform ttl k op s))"
proof (cases op)
  case (OpAcquire n r)
  have "map_prod id (live ttl k) (map_prod of_bool id (acquireScript k n ttl r s)) =
      map_prod of_bool id (map_prod id (live ttl k) (acquireScript k n ttl r s))"
    by (simp add: prod.map_comp)
  then show ?thesis using OpAcquire acquire_semaphore [OF assms, of n r] slots_wf_acquire [OF assms] by simp
next
  case OpCount
  then show ?thesis
    using trimmed(1) [OF assms(1)] slots_wf_trim [OF assms(1)] by (simp add: getCountScript_def Let_def)
next
  case OpCleanup
  let ?t = "ZREMRANGEBYSCORE k (TIME s - ttl) s"
  have wf: "slots_wf ttl k ?t" by (rule slots_wf_trim [OF assms(1)])
  have "live ttl k ?t = {}" if "ZCARD k ?t = 0" using that by (rule emptied)
  then show ?thesis
    using OpCleanup assms(2) wf slots_wf_EXPIRE [OF assms(2), of k k ?t] members_wfI [OF wf]
    by (auto simp: cleanupExpiredSlotsScript_def Let_def slots_wf_cleared)
next
  case (OpStartup p)
  then show ?thesis using assms by (simp add: startupCleanupScript_def live_cleanup_key slots_wf_cleanup_key)
qed (use assms in \<open>simp_all add: live_release slots_wf_ZREM\<close>)

section \<open>Queues\<close>

lemma count_at_cong: "cw_counts s = cw_counts t \<Longrightarrow> cw_now s = cw_now t \<Longrightarrow> GET k s = GET k t"
  by (simp only: GET_def)

definition queue_bounded :: "string \<Rightarrow> int \<Rightarrow> cworld \<Rightarrow> bool" where
  "queue_bounded k M s \<longleftrightarrow> 0 \<le> M \<and> (\<forall>c. GET k s = Some c \<longrightarrow> 0 \<le> ctr_value c \<and> ctr_value c \<le> M)"

lemma queue_bounded_same:
  "queue_bounded k M s \<Longrightarrow> cw_counts t = cw_counts s \<Longrightarrow> cw_now t = cw_now s \<Longrightarrow> queue_bounded k M t"
  using count_at_cong [of t s k] by (simp add: queue_bounded_def)

lemma scripts_counts [simp]:
  "cw_counts (snd (acquireScript k n ttl r s)) = cw_counts s"
  by (simp add: acquireScript_def Let_def ZREMRANGEBYSCORE_def ZADD_def)

lemma GET_increment:
  "GET k' (snd (incrementWaitScript k n ttl s)) =
     (if count_at k s < n \<and> k' = k then if 0 < ttl then
        Some \<lparr>ctr_value = count_at k s + 1, ctr_deadline = Some (cw_now s + ttl * 1000)\<rparr> else None
      else GET k' s)"
  by (simp add: incrementWaitScript_def GET_def AList.update_conv' in_time_def cong: option.case_cong)

lemma GET_decrement:
  "GET k' (snd (decrementWaitScript k s)) =
     (if k' = k then map_option (\<lambda>c. if 0 < ctr_value c then c\<lparr>ctr_value := ctr_value c - 1\<rparr> else c) (GET k s)
      else GET k' s)"
  by (auto simp: decrementWaitScript_def GET_def AList.update_conv' split: option.split)

lemma map_of_without: "map_of (filter (\<lambda>c. fst c \<notin> A) xs) k = (if k \<in> A then None else map_of xs k)"
  by (induction xs) auto

lemma GET_delete: "GET k (DEL_counts ks s) = (if k \<in> set ks then None else GET k s)"
  by (simp add: GET_def DEL_counts_def map_of_without cong: option.case_cong)

interpretation queue: cache_invariant "queue_bounded k M" c "\<lambda>_ _. True" "\<lambda>k' n. k' = k \<longrightarrow> n \<le> M"
  for c k M
proof
  show "queue_bounded k M (snd (incrementWaitScript k' n (cc_waitQueueTTLSeconds c) s))"
    if "queue_bounded k M s" "k' = k \<longrightarrow> n \<le> M" for k' n s
    using that by (auto simp: queue_bounded_def GET_increment count_at_def split: option.splits)
  show "queue_bounded k M (snd (decrementWaitScript k' s))" if "queue_bounded k M s" for k' s
    using that by (auto simp: queue_bounded_def GET_decrement)
  show "queue_bounded k M (DEL_counts ks s)" if "queue_bounded k M s" for ks s
    using that by (auto simp: queue_bounded_def GET_delete)
qed (auto intro: queue_bounded_same)

lemma GET_time: "time_passes s t \<Longrightarrow> GET k t = Some c \<Longrightarrow> GET k s = Some c"
  using in_time_later by (auto simp: time_passes_def GET_def split: option.splits if_splits)

text \<open>
  However everything interleaves and fails, no queue is longer than the places its requests allow,
  and none has a negative length.
\<close>

theorem queues_stay_bounded:
  assumes "reachable time_passes (cache_programs c (\<lambda>cl. \<forall>n \<in> wait_limits k cl. n \<le> M)) s d"
    "0 \<le> M" "GET k s = None"
  shows "0 \<le> count_at k (snd d) \<and> count_at k (snd d) \<le> M"
proof -
  have "queue_bounded k M (snd d)"
  proof (rule queue.reachable_cache_keeps [OF assms(1)])
    show "queue_bounded k M u" if "time_passes v u" "queue_bounded k M v" for v u
      using that GET_time by (auto simp: queue_bounded_def)
  qed (use assms(2,3) in \<open>auto simp: queue_bounded_def\<close>)
  then show ?thesis by (auto simp: queue_bounded_def count_at_def split: option.split)
qed

section \<open>Request ids\<close>

lemma digit36_inj: "d < 36 \<Longrightarrow> e < 36 \<Longrightarrow> digit36 d = digit36 e \<Longrightarrow> d = e"
  by (auto simp: digit36_def of_char_of split: if_splits dest!: arg_cong [where f = "of_char :: char \<Rightarrow> nat"])

lemma FormatUint36_ne [simp]: "FormatUint36 n \<noteq> []" "[] \<noteq> FormatUint36 n"
  using FormatUint36.simps [of n] by (simp_all split: if_splits)

lemma FormatUint36_inj: "FormatUint36 m = FormatUint36 n \<Longrightarrow> m = n"
proof (induction m arbitrary: n rule: FormatUint36.induct)
  case (1 m)
  have *: "FormatUint36 j = (if j < 36 then [digit36 j] else FormatUint36 (j div 36) @ [digit36 (j mod 36)])" for j
    by (rule FormatUint36.simps)
  have "m mod 36 = n mod 36 \<and> (m < 36 \<longleftrightarrow> n < 36) \<and> (m < 36 \<or> m div 36 = n div 36)"
    using 1 * [of m] * [of n] digit36_inj by (auto split: if_splits dest: digit36_inj)
  then show ?case by (metis div_less mod_div_decomp)
qed

lemma request_id_inj: "request_id pfx m = request_id pfx n \<Longrightarrow> m = n"
  by (auto simp: request_id_def word_unat_eq_iff dest!: FormatUint36_inj)

lemma FormatUint36_digits: "ch \<in> set (FormatUint36 n) \<Longrightarrow> \<exists>d<36. ch = digit36 d"
proof (induction n rule: FormatUint36.induct)
  case (1 n)
  then show ?case by (subst (asm) FormatUint36.simps) (auto split: if_splits intro: exI [of _ "n mod 36"])
qed

lemma digit36_dash: "d < 36 \<Longrightarrow> digit36 d \<noteq> CHR ''-''"
  by (auto simp: digit36_def dest!: arg_cong [where f = "of_char :: char \<Rightarrow> nat"] split: if_splits)

text \<open>
  Two processes with different random numbers never use the same request id, and neither does one
  process use an id twice before its counter of 64 bits wraps around.
\<close>

theorem request_ids_distinct:
  "request_id (initRequestIDPrefix a) m = request_id (initRequestIDPrefix b) n \<longleftrightarrow> a = b \<and> m = n"
proof
  assume eq: "request_id (initRequestIDPrefix a) m = request_id (initRequestIDPrefix b) n"
  have dash: "CHR ''-'' \<notin> set (FormatUint36 j)" for j using FormatUint36_digits [of "CHR ''-''" j] digit36_dash by metis
  have "takeWhile (\<lambda>ch. ch \<noteq> CHR ''-'') (tl (request_id (initRequestIDPrefix x) j)) = FormatUint36 (unat x)" for x j
    by (simp add: request_id_def initRequestIDPrefix_def)
      (subst takeWhile_append2, use dash in auto)
  then have "FormatUint36 (unat a) = FormatUint36 (unat b)" using eq by metis
  then have "a = b" by (auto simp: word_unat_eq_iff dest!: FormatUint36_inj)
  then show "a = b \<and> m = n" using eq request_id_inj by blast
qed simp

lemma has_prefix_append [simp]: "has_prefix p (p @ xs)"
  by (simp add: has_prefix_def)

lemma key_of_other_kind [simp]:
  "\<not> has_prefix userSlotKeyPrefix (accountSlotKey i)" "\<not> has_prefix accountSlotKeyPrefix (userSlotKey i)"
  "\<not> has_prefix waitQueueKeyPrefix (accountWaitKey i)" "\<not> has_prefix accountWaitKeyPrefix (waitQueueKey i)"
  "has_prefix accountSlotKeyPrefix (accountSlotKey i)" "has_prefix userSlotKeyPrefix (userSlotKey i)"
  "has_prefix accountWaitKeyPrefix (accountWaitKey i)" "has_prefix waitQueueKeyPrefix (waitQueueKey i)"
  by (simp_all add: accountSlotKey_def userSlotKey_def waitQueueKey_def accountWaitKey_def)
    (simp_all add: has_prefix_def accountSlotKeyPrefix_def userSlotKeyPrefix_def waitQueueKeyPrefix_def accountWaitKeyPrefix_def)

section \<open>Examples\<close>

definition demo_cache :: concurrencyCache where
  "demo_cache = NewConcurrencyCache 0 120"

definition demo_wait :: wait_env where
  "demo_wait = \<lparr>we_isStream = True, we_pingFormat = '':'', we_wakes = [TimerFires (1 / 2), PingFires True, TimerFires (1 / 4)]\<rparr>"

definition demo_attempt :: attempt where
  "demo_attempt = \<lparr>at_account = 3, at_maxConcurrency = 2, at_wait = demo_wait, at_again = False\<rparr>"

definition demo_redis :: "outcome list \<Rightarrow> (string \<times> counter) list \<Rightarrow> cworld" where
  "demo_redis fs cs = \<lparr>cw_now = 1700000000000, cw_zsets = [], cw_counts = cs, cw_faults = fs, cw_seq = \<lambda>_. 0\<rparr>"

definition demo_chat :: cache_call where
  "demo_chat = CallChat 7 1 demo_wait [demo_attempt]"

definition queue_of_two :: "(string \<times> counter) list" where
  "queue_of_two = [(waitQueueKey 7, \<lparr>ctr_value = 2, ctr_deadline = None\<rparr>)]"

lemma demo_ttl: "0 < cc_slotTTLSeconds demo_cache" "0 < cc_waitQueueTTLSeconds demo_cache"
  by (simp_all add: demo_cache_def NewConcurrencyCache_def defaultSlotTTLMinutes_def Let_def)

lemma demo_zset [simp]: "zset_of k (demo_redis fs cs) = \<lparr>zs_members = [], zs_deadline = None\<rparr>"
  by (simp add: demo_redis_def zset_of_def)

lemma demo_live: "live ttl k (demo_redis fs cs) = {}" "slots_wf ttl k (demo_redis fs cs)"
  by (simp_all add: live_def slots_wf_def)

lemma demo_counts:
  "count_at (waitQueueKey 7) (demo_redis fs queue_of_two) = 2"
  "count_at (waitQueueKey 7) (demo_redis fs []) = 0" "GET k (demo_redis fs []) = None"
  by (simp_all add: count_at_def GET_def demo_redis_def queue_of_two_def)

text \<open>Two requests of the same user and a starting process, action by action.\<close>

definition cache_race :: "nat list \<Rightarrow> (cworld, unit) prog list \<times> cworld" where
  "cache_race is = interleave is ([serve_cache demo_cache ''ra'' demo_chat, serve_cache demo_cache ''rb'' demo_chat,
     serve_cache demo_cache ''rc'' CallStartup], demo_redis [Works, Unacked, Works, Fails] [])"

lemma cache_race:
  assumes "ok demo_chat" "ok CallStartup"
  shows "reachable time_passes (cache_programs demo_cache ok) (demo_redis [Works, Unacked, Works, Fails] []) (cache_race is)"
proof -
  have "serve_cache demo_cache pfx demo_chat \<in> cache_programs demo_cache ok"
    "serve_cache demo_cache pfx CallStartup \<in> cache_programs demo_cache ok" for pfx
    unfolding cache_programs_def using assms by blast+
  then show ?thesis
    unfolding cache_race_def by (intro reachable_interleave) simp
qed

lemma keys_differ: "userSlotKey i \<noteq> accountSlotKey j"
  using key_of_other_kind(1) [of j] key_of_other_kind(6) [of i] by metis

lemma CalculateMaxWait_1: "CalculateMaxWait 1 = 21"
  by (simp add: CalculateMaxWait_def defaultExtraWaitSlots_def)

theorem slots_never_exceed_limit_witness:
  "int (card (live (cc_slotTTLSeconds demo_cache) (userSlotKey 7) (snd (cache_race [0, 1, 0, 1, 2, 0, 1, 2, 1])))) \<le> 1"
proof (rule slots_never_exceed_limit [OF cache_race demo_ttl(1)])
  show "\<forall>n \<in> slot_limits (userSlotKey 7) demo_chat. n \<le> 1"
    by (simp add: demo_chat_def demo_attempt_def keys_differ)
qed (simp_all add: demo_live)

theorem queues_stay_bounded_witness:
  "0 \<le> count_at (waitQueueKey 7) (snd (cache_race [0, 1, 0, 1, 2, 0])) \<and>
    count_at (waitQueueKey 7) (snd (cache_race [0, 1, 0, 1, 2, 0])) \<le> 21"
proof (rule queues_stay_bounded [OF cache_race])
  show "\<forall>n \<in> wait_limits (waitQueueKey 7) demo_chat. n \<le> 21" by (simp add: demo_chat_def CalculateMaxWait_1)
qed (simp_all add: demo_counts)

theorem slots_refine_semaphore_witness:
  "map_prod id (live 900 (userSlotKey 7)) (perform 900 (userSlotKey 7) (OpAcquire 1 ''ra-1'') (demo_redis [] [])) =
    (1, {''ra-1''})"
  using slots_refine_semaphore [OF demo_live(2), of 900 "userSlotKey 7" "OpAcquire 1 ''ra-1''" "[]" "[]"]
  by (simp add: demo_live sem_acquire_def)

end
