(* ===== verification/ConcurrencyRequests.thy ===== *)
theory ConcurrencyRequests
  imports ConcurrencyProps
begin

text \<open>
  A request from its place in the queue to the release of its slots, run while Redis answers and
  nobody else acts (\<open>Concurrency\<close>): it leaves no trace, it is served when there is room. Further, what
  the start of a process does to the slots of the others, and what a load query reports.
\<close>

section \<open>A request alone\<close>

lemma exec_call [simp]:
  "cw_faults s = [] \<Longrightarrow> exec (call f k) s = exec (k (Inr (fst (f s)))) (snd (f s))"
  by (simp add: call_def send_def next_fault_def)

lemma scripts_keep [simp]:
  "cw_faults (snd (acquireScript k n ttl r s)) = cw_faults s"
  "cw_seq (snd (acquireScript k n ttl r s)) = cw_seq s"
  "cw_faults (snd (incrementWaitScript k n ttl s)) = cw_faults s"
  "cw_seq (snd (incrementWaitScript k n ttl s)) = cw_seq s"
  "cw_faults (snd (decrementWaitScript k s)) = cw_faults s"
  "cw_seq (snd (decrementWaitScript k s)) = cw_seq s"
  "cw_faults (ZREM k r s) = cw_faults s" "cw_seq (ZREM k r s) = cw_seq s"
  "cw_counts (ZREM k r s) = cw_counts s" "cw_now (ZREM k r s) = cw_now s"
  by (simp_all add: acquireScript_def incrementWaitScript_def decrementWaitScript_def Let_def ZREMRANGEBYSCORE_def
      ZADD_def ZREM_def split: option.split)

text \<open>
  Redis answers, the sorted sets are well-formed, and no live slot has an id that this process has
  still to give: it may give \<open>b\<close> more.
\<close>

definition ready :: "concurrencyCache \<Rightarrow> string \<Rightarrow> nat \<Rightarrow> cworld \<Rightarrow> bool" where
  "ready c pfx b s \<longleftrightarrow> cw_faults s = [] \<and> (\<forall>k. slots_wf (cc_slotTTLSeconds c) k s) \<and>
     unat (cw_seq s pfx) + b < 2 ^ 64 \<and>
     (\<forall>k m. request_id pfx m \<in> live (cc_slotTTLSeconds c) k s \<longrightarrow> m \<le> cw_seq s pfx)"

definition same_slots :: "int \<Rightarrow> cworld \<Rightarrow> cworld \<Rightarrow> bool" where
  "same_slots ttl s t \<longleftrightarrow> (\<forall>k. live ttl k t = live ttl k s)"

definition same_queues :: "cworld \<Rightarrow> cworld \<Rightarrow> bool" where
  "same_queues s t \<longleftrightarrow> (\<forall>k. GET k t = GET k s)"

definition holds_slot :: "int \<Rightarrow> string \<Rightarrow> slot \<Rightarrow> cworld \<Rightarrow> cworld \<Rightarrow> bool" where
  "holds_slot ttl key sl s t \<longleftrightarrow> (case sl of NoSlot \<Rightarrow> same_slots ttl s t
     | Slot key' r \<Rightarrow> key' = key \<and> r \<notin> live ttl key s \<and>
         (\<forall>k. live ttl k t = (if k = key then insert r (live ttl k s) else live ttl k s)))"

definition takes_slot :: "int \<Rightarrow> string \<Rightarrow> 'e + slot \<Rightarrow> cworld \<Rightarrow> cworld \<Rightarrow> bool" where
  "takes_slot ttl key r s t \<longleftrightarrow> (case r of Inl _ \<Rightarrow> same_slots ttl s t | Inr sl \<Rightarrow> holds_slot ttl key sl s t)"

lemma same_refl [simp]: "same_slots ttl s s" "same_queues s s"
  by (simp_all add: same_slots_def same_queues_def)

lemma same_trans:
  "same_slots ttl s t \<Longrightarrow> same_slots ttl t u \<Longrightarrow> same_slots ttl s u"
  "same_queues s t \<Longrightarrow> same_queues t u \<Longrightarrow> same_queues s u"
  "same_slots ttl s t \<Longrightarrow> takes_slot ttl key r t u \<Longrightarrow> takes_slot ttl key r s u"
  "holds_slot ttl key sl s t \<Longrightarrow> same_slots ttl t u \<Longrightarrow> holds_slot ttl key sl s u"
  by (simp_all add: same_slots_def same_queues_def takes_slot_def holds_slot_def split: sum.splits slot.splits)

lemma same_slotsI: "cw_zsets t = cw_zsets s \<Longrightarrow> cw_now t = cw_now s \<Longrightarrow> same_slots ttl s t"
  using slots_same(1) [of t s] by (simp add: same_slots_def)

lemma same_queuesI: "cw_counts t = cw_counts s \<Longrightarrow> cw_now t = cw_now s \<Longrightarrow> same_queues s t"
  using count_at_cong [of t s] by (simp add: same_queues_def)

lemma ready_less: "ready c pfx b s \<Longrightarrow> b' \<le> b \<Longrightarrow> ready c pfx b' s"
  by (simp add: ready_def)

lemma ready_same:
  assumes "ready c pfx b s" "cw_zsets t = cw_zsets s" "cw_now t = cw_now s" "cw_faults t = []"
    "cw_seq t pfx = cw_seq s pfx"
  shows "ready c pfx b t"
  using assms slots_same [OF assms(2,3)] by (simp add: ready_def)

lemma acquire_live:
  assumes "slots_wf ttl k s" "0 < ttl"
  shows "live ttl k' (snd (acquireScript k n ttl r s)) =
    (if k' = k then snd (sem_acquire n r (live ttl k s)) else live ttl k' s)"
    "fst (acquireScript k n ttl r s) = fst (sem_acquire n r (live ttl k s))"
  using arg_cong [OF acquire_semaphore [OF assms, of n r], of snd] acquire_others [OF assms(2), of k' k]
    arg_cong [OF acquire_semaphore [OF assms, of n r], of fst]
  by (simp_all only: snd_map_prod fst_map_prod id_apply split: if_split) simp_all

lemma acquire_alone:
  assumes "ready c pfx (Suc b) s" "0 < cc_slotTTLSeconds c"
  obtains res t where "exec (AcquireSlot c pfx key n k) s = exec (k (Inr res)) t" "ready c pfx b t" "same_queues s t"
    "case res of None \<Rightarrow> same_slots (cc_slotTTLSeconds c) s t \<and> 0 < n \<and> n \<le> int (card (live (cc_slotTTLSeconds c) key s))
      | Some sl \<Rightarrow> holds_slot (cc_slotTTLSeconds c) key sl s t"
proof (cases "n \<le> 0")
  case True
  show thesis
    by (rule that [of "Some NoSlot" s])
      (use True assms ready_less in \<open>auto simp: AcquireSlot_def holds_slot_def\<close>)
next
  case False
  let ?ttl = "cc_slotTTLSeconds c"
  let ?s1 = "s\<lparr>cw_seq := (cw_seq s)(pfx := cw_seq s pfx + 1)\<rparr>"
  define r where "r = request_id pfx (cw_seq s pfx + 1)"
  define t where "t = snd (acquireScript key n ?ttl r ?s1)"
  define got where "got = fst (acquireScript key n ?ttl r ?s1)"
  have nf: "cw_faults s = []" and wf: "slots_wf ?ttl k' s" for k' using assms(1) by (simp_all add: ready_def)
  have l1: "live ?ttl k' ?s1 = live ?ttl k' s" "slots_wf ?ttl k' ?s1" for k'
    using slots_same [of ?s1 s ?ttl k'] wf by simp_all
  have u: "unat (cw_seq s pfx + 1) = Suc (unat (cw_seq s pfx))"
    using assms(1) by (simp add: ready_def unat_word_ariths)
  then have lt: "cw_seq s pfx < cw_seq s pfx + 1" by (simp add: word_less_nat_alt)
  have fresh: "r \<notin> live ?ttl k' s" for k'
    using assms(1) lt by (auto simp: ready_def r_def dest: leD)
  have t: "live ?ttl k' t = (if k' = key then snd (sem_acquire n r (live ?ttl key s)) else live ?ttl k' s)" for k'
    using acquire_live(1) [OF l1(2) assms(2), of k' key n r] l1(1) by (simp add: t_def)
  have got: "got = (int (card (live ?ttl key s)) < n)"
    using acquire_live(2) [OF l1(2) assms(2), of key n r] fresh l1(1) by (simp add: got_def sem_acquire_def)
  have seq: "cw_seq t pfx = cw_seq s pfx + 1" by (simp add: t_def)
  show thesis
  proof (rule that [of "if got then Some (Slot key r) else None" t])
    show "exec (AcquireSlot c pfx key n k) s = exec (k (Inr (if got then Some (Slot key r) else None))) t"
      using False nf by (simp add: AcquireSlot_def generateRequestID_def cache_AcquireSlot_def t_def got_def r_def)
    have "m \<le> cw_seq t pfx" if "request_id pfx m \<in> live ?ttl k' t" for k' m
    proof -
      have "request_id pfx m \<in> live ?ttl k' s \<or> request_id pfx m = r"
        using that by (auto simp: t sem_acquire_def split: if_splits)
      then have "m \<le> cw_seq s pfx \<or> m = cw_seq s pfx + 1"
        using assms(1) by (auto simp: ready_def r_def dest: request_id_inj)
      then show ?thesis using order.trans [OF _ less_imp_le [OF lt]] by (auto simp: seq)
    qed
    moreover have "slots_wf ?ttl k' t" for k' using slots_wf_acquire [OF l1(2) assms(2)] by (simp add: t_def)
    ultimately show "ready c pfx b t"
      using assms(1) nf u by (simp add: ready_def seq) (simp add: t_def)
    show "same_queues s t" by (rule same_queuesI) (simp_all add: t_def)
    show "case if got then Some (Slot key r) else None of
        None \<Rightarrow> same_slots ?ttl s t \<and> 0 < n \<and> n \<le> int (card (live ?ttl key s))
      | Some sl \<Rightarrow> holds_slot ?ttl key sl s t"
      using False fresh by (auto simp: holds_slot_def same_slots_def t got sem_acquire_def)
  qed
qed

lemma release_alone:
  assumes "ready c pfx b t" "holds_slot (cc_slotTTLSeconds c) key sl s t"
  obtains u where "exec (ReleaseFunc sl next) t = exec next u" "ready c pfx b u" "same_queues t u"
    "same_slots (cc_slotTTLSeconds c) s u"
proof (cases sl)
  case NoSlot
  show thesis by (rule that [of t]) (use assms NoSlot in \<open>simp_all add: ReleaseFunc_def holds_slot_def\<close>)
next
  case (Slot key' r)
  have key: "key' = key" using assms(2) by (simp add: Slot holds_slot_def)
  let ?ttl = "cc_slotTTLSeconds c" and ?u = "ZREM key r t"
  have l: "live ?ttl k ?u = (if k = key then live ?ttl k t - {r} else live ?ttl k t)" for k
    using live_release live_other by (simp add: ZREM_def)
  show thesis
  proof (rule that [of ?u])
    show "exec (ReleaseFunc sl next) t = exec next ?u"
      using assms(1) by (simp add: Slot key ReleaseFunc_def cache_ReleaseSlot_def ready_def only_effect_def)
    show "ready c pfx b ?u"
      using assms(1) by (auto simp: ready_def l slots_wf_ZREM split: if_splits)
    show "same_queues t ?u" by (rule same_queuesI) simp_all
    show "same_slots ?ttl s ?u" using assms(2) by (auto simp: same_slots_def l holds_slot_def Slot)
  qed
qed

text \<open>The calls to Redis that a list of wakes can cause, and those of a request.\<close>

definition wait_tries :: "wait_env \<Rightarrow> nat" where
  "wait_tries we = Suc (length (we_wakes we))"

definition request_tries :: "wait_env \<Rightarrow> attempt list \<Rightarrow> nat" where
  "request_tries we as = wait_tries we + sum_list (map (\<lambda>a. wait_tries (at_wait a)) as)"

lemma try_alone:
  assumes "ready c pfx (Suc b) s" "0 < cc_slotTTLSeconds c"
  obtains res t where "exec (AcquireSlot c pfx key n (\<lambda>r. case r of Inl e \<Rightarrow> h e | Inr None \<Rightarrow> g | Inr (Some sl) \<Rightarrow> f sl)) s =
      exec (case res of None \<Rightarrow> g | Some sl \<Rightarrow> f sl) t" "ready c pfx b t" "same_queues s t"
    "case res of None \<Rightarrow> same_slots (cc_slotTTLSeconds c) s t \<and> 0 < n \<and> n \<le> int (card (live (cc_slotTTLSeconds c) key s))
      | Some sl \<Rightarrow> holds_slot (cc_slotTTLSeconds c) key sl s t"
  by (rule acquire_alone [OF assms, where key = key and n = n and
    k = "\<lambda>r. case r of Inl e \<Rightarrow> h e | Inr None \<Rightarrow> g | Inr (Some sl) \<Rightarrow> f sl"]) (simp only: sum.case)

lemma wait_loop_alone:
  assumes "ready c pfx (b + length ws) s" "0 < cc_slotTTLSeconds c"
  shows "\<exists>res st' t. exec (wait_loop c pfx ty key n ws backoff st k) s = exec (k res st') t \<and> ready c pfx b t \<and>
    same_queues s t \<and> takes_slot (cc_slotTTLSeconds c) key res s t"
  using assms(1)
proof (induction ws arbitrary: s backoff st)
  case Nil
  show ?case
    by (rule exI [of _ "Inl (timeout_error ty)"], rule exI [of _ st], rule exI [of _ s])
      (use Nil in \<open>simp add: takes_slot_def\<close>)
next
  case (Cons w ws)
  show ?case
  proof (cases w)
    case (PingFires ok)
    show ?thesis
    proof (cases ok)
      case True
      show ?thesis using Cons.IH [of s backoff True] ready_less [OF Cons.prems] by (simp add: PingFires True)
    next
      case False
      show ?thesis
        by (rule exI [of _ "Inl (PlainErr ''write error'')"], rule exI [of _ True], rule exI [of _ s])
          (use ready_less [OF Cons.prems] in \<open>simp add: PingFires False takes_slot_def\<close>)
    qed
  next
    case (TimerFires rnd)
    have r: "ready c pfx (Suc (b + length ws)) s" using Cons.prems by simp
    obtain res t where t: "exec (wait_loop c pfx ty key n (w # ws) backoff st k) s = exec (case res of
          Some sl \<Rightarrow> k (Inr sl) st | None \<Rightarrow> wait_loop c pfx ty key n ws (nextBackoff rnd backoff) st k) t"
      "ready c pfx (b + length ws) t" "same_queues s t"
      "case res of None \<Rightarrow> same_slots (cc_slotTTLSeconds c) s t \<and> 0 < n \<and> n \<le> int (card (live (cc_slotTTLSeconds c) key s))
        | Some sl \<Rightarrow> holds_slot (cc_slotTTLSeconds c) key sl s t"
      unfolding TimerFires wait_loop.simps by (rule try_alone [OF r assms(2)])
    show ?thesis
    proof (cases res)
      case None
      obtain res' st' u where u: "exec (wait_loop c pfx ty key n ws (nextBackoff rnd backoff) st k) t = exec (k res' st') u"
        "ready c pfx b u" "same_queues t u" "takes_slot (cc_slotTTLSeconds c) key res' t u"
        using Cons.IH [OF t(2), of "nextBackoff rnd backoff" st] by blast
      have "takes_slot (cc_slotTTLSeconds c) key res' s u" "same_queues s u"
        using t(3,4) None u(3,4) by (auto intro: same_trans)
      then show ?thesis using u(1,2) t(1) None by (intro exI [of _ res'] exI [of _ st'] exI [of _ u]) simp
    next
      case (Some sl)
      then show ?thesis
        using t ready_less [OF t(2)] by (intro exI [of _ "Inr sl"] exI [of _ st] exI [of _ t]) (simp add: takes_slot_def)
    qed
  qed
qed

lemma without_pings_length: "length (without_pings ws) \<le> length ws"
  by (simp add: without_pings_def)

lemma wait_alone:
  assumes "ready c pfx (b + length (we_wakes we)) s" "0 < cc_slotTTLSeconds c"
  shows "\<exists>res st' t. exec (waitForSlotWithPingTimeout c pfx ty key n we st False k) s = exec (k res st') t \<and>
    ready c pfx b t \<and> same_queues s t \<and> takes_slot (cc_slotTTLSeconds c) key res s t"
proof -
  let ?ws = "if we_isStream we \<and> we_pingFormat we \<noteq> [] then we_wakes we else without_pings (we_wakes we)"
  have "ready c pfx (b + length ?ws) s"
    using assms(1) by (rule ready_less) (simp add: without_pings_length)
  then show ?thesis
    using wait_loop_alone [OF _ assms(2), of pfx b ?ws s ty key n initialBackoff st k]
    unfolding waitForSlotWithPingTimeout_def Let_def if_False by blast
qed

text \<open>The first attempt succeeds at once when there is room.\<close>

lemma try_then_wait:
  assumes "ready c pfx (b + wait_tries we) s" "0 < cc_slotTTLSeconds c"
    and p: "p = AcquireSlot c pfx key n (\<lambda>r. case r of Inl e \<Rightarrow> k (Inl e) st | Inr (Some sl) \<Rightarrow> k (Inr sl) st
      | Inr None \<Rightarrow> waitForSlotWithPingTimeout c pfx ty key n we st False k)"
  shows "\<exists>res st' t. exec p s = exec (k res st') t \<and> ready c pfx b t \<and> same_queues s t \<and>
    takes_slot (cc_slotTTLSeconds c) key res s t \<and>
    (n \<le> 0 \<or> int (card (live (cc_slotTTLSeconds c) key s)) < n \<longrightarrow> (\<exists>sl. res = Inr sl))"
proof -
  let ?ttl = "cc_slotTTLSeconds c"
  have r: "ready c pfx (Suc (b + length (we_wakes we))) s" using assms(1) by (simp add: wait_tries_def)
  obtain res t where t: "exec p s = exec (case res of Some sl \<Rightarrow> k (Inr sl) st
        | None \<Rightarrow> waitForSlotWithPingTimeout c pfx ty key n we st False k) t"
    "ready c pfx (b + length (we_wakes we)) t" "same_queues s t"
    "case res of None \<Rightarrow> same_slots ?ttl s t \<and> 0 < n \<and> n \<le> int (card (live ?ttl key s))
      | Some sl \<Rightarrow> holds_slot ?ttl key sl s t"
    unfolding p by (rule try_alone [OF r assms(2)])
  show ?thesis
  proof (cases res)
    case None
    obtain res' st' u where u: "exec (waitForSlotWithPingTimeout c pfx ty key n we st False k) t = exec (k res' st') u"
      "ready c pfx b u" "same_queues t u" "takes_slot ?ttl key res' t u"
      using wait_alone [OF t(2) assms(2), of ty key n st k] by blast
    have "takes_slot ?ttl key res' s u" "same_queues s u"
      using t(3,4) None u(3,4) by (auto intro: same_trans)
    then show ?thesis using u(1,2) t(1,4) None by (intro exI [of _ res'] exI [of _ st'] exI [of _ u]) simp
  next
    case (Some sl)
    then show ?thesis
      using t ready_less [OF t(2)] by (intro exI [of _ "Inr sl"] exI [of _ st] exI [of _ t]) (simp add: takes_slot_def)
  qed
qed

lemma account_wait:
  "AcquireAccountSlotWithWaitTimeout c pfx i n we st k = AcquireSlot c pfx (accountSlotKey i) n (\<lambda>r. case r of
      Inl e \<Rightarrow> k (Inl e) st | Inr (Some sl) \<Rightarrow> k (Inr sl) st
    | Inr None \<Rightarrow> waitForSlotWithPingTimeout c pfx ''account'' (accountSlotKey i) n we st False k)"
  unfolding AcquireAccountSlotWithWaitTimeout_def waitForSlotWithPingTimeout_def Let_def if_True if_False by (rule refl)

lemma attempts_alone:
  assumes "ready c pfx (b + sum_list (map (\<lambda>a. wait_tries (at_wait a)) as)) s" "0 < cc_slotTTLSeconds c"
  shows "\<exists>res t. exec (account_attempts c pfx as st m k) s = exec (k res) t \<and> ready c pfx b t \<and> same_queues s t \<and>
    same_slots (cc_slotTTLSeconds c) s t \<and>
    (\<forall>a as'. as = a # as' \<and> \<not> at_again a \<and> (at_maxConcurrency a \<le> 0 \<or>
        int (card (live (cc_slotTTLSeconds c) (accountSlotKey (at_account a)) s)) < at_maxConcurrency a) \<longrightarrow>
      res = Inr (m + 1))"
  using assms(1)
proof (induction as arbitrary: s st m)
  case Nil
  then show ?case by (intro exI [of _ "Inr m"] exI [of _ s]) simp
next
  case (Cons a as)
  let ?ttl = "cc_slotTTLSeconds c" and ?b = "b + sum_list (map (\<lambda>a. wait_tries (at_wait a)) as)"
  let ?k = "\<lambda>r started. case r of Inl e \<Rightarrow> k (Inl e) | Inr sl \<Rightarrow> ReleaseFunc sl
    (if at_again a then account_attempts c pfx as started (m + 1) k else k (Inr (m + 1)))"
  have r: "ready c pfx (?b + wait_tries (at_wait a)) s" using Cons.prems by (simp add: ac_simps)
  obtain res st' t where t: "exec (account_attempts c pfx (a # as) st m k) s = exec (?k res st') t"
    "ready c pfx ?b t" "same_queues s t" "takes_slot ?ttl (accountSlotKey (at_account a)) res s t"
    "at_maxConcurrency a \<le> 0 \<or> int (card (live ?ttl (accountSlotKey (at_account a)) s)) < at_maxConcurrency a
      \<longrightarrow> (\<exists>sl. res = Inr sl)"
    using try_then_wait [OF r assms(2) account_wait [of c pfx "at_account a" "at_maxConcurrency a" "at_wait a" st ?k]]
    unfolding account_attempts.simps by blast
  show ?case
  proof (cases res)
    case (Inl e)
    then show ?thesis
      using t ready_less [OF t(2)] by (intro exI [of _ "Inl e"] exI [of _ t]) (simp add: takes_slot_def)
  next
    case (Inr sl)
    then obtain u where u: "exec (?k res st') t = exec (if at_again a then account_attempts c pfx as st' (m + 1) k
        else k (Inr (m + 1))) u" "ready c pfx ?b u" "same_queues t u" "same_slots ?ttl s u"
      using release_alone [OF t(2), of "accountSlotKey (at_account a)" sl s] t(4) by (auto simp: takes_slot_def)
    show ?thesis
    proof (cases "at_again a")
      case True
      then show ?thesis
        using Cons.IH [OF u(2), of st' "m + 1"] t(1,3) u same_trans(1,2) by simp (metis (full_types))
    next
      case False
      then show ?thesis
        using t(1,3) u ready_less [OF u(2)] same_trans(2)
        by (intro exI [of _ "Inr (m + 1)"] exI [of _ u]) auto
    qed
  qed
qed

lemma user_wait:
  "AcquireUserSlotWithWait c pfx i n we st k = AcquireSlot c pfx (userSlotKey i) n (\<lambda>r. case r of
      Inl e \<Rightarrow> k (Inl e) st | Inr (Some sl) \<Rightarrow> k (Inr sl) st
    | Inr None \<Rightarrow> waitForSlotWithPingTimeout c pfx ''user'' (userSlotKey i) n we st False k)"
  unfolding AcquireUserSlotWithWait_def AcquireUserSlot_def by (rule refl)

lemma live_account: "holds_slot ttl (userSlotKey i) sl s t \<Longrightarrow> live ttl (accountSlotKey j) t = live ttl (accountSlotKey j) s"
  by (auto simp: holds_slot_def same_slots_def userSlotKey_def accountSlotKey_def userSlotKeyPrefix_def
      accountSlotKeyPrefix_def split: slot.splits)

text \<open>From the user's slot on: the slots are as before, and the user has left the queue.\<close>

definition served :: "concurrencyCache \<Rightarrow> string \<Rightarrow> int \<Rightarrow> int \<Rightarrow> wait_env \<Rightarrow> attempt list \<Rightarrow> (cworld, go_error + nat) prog" where
  "served c pfx i n we as = AcquireUserSlotWithWait c pfx i n we False (\<lambda>r started.
     DecrementWaitCount (waitQueueKey i) (case r of Inl e \<Rightarrow> Return (Inl e)
       | Inr sl \<Rightarrow> account_attempts c pfx as started 0 (\<lambda>res. ReleaseFunc sl (Return res))))"

lemma served_alone:
  assumes "ready c pfx (request_tries we as) s" "0 < cc_slotTTLSeconds c"
  obtains res u where "exec (served c pfx i n we as) s = (res, u)" "same_slots (cc_slotTTLSeconds c) s u"
    "\<And>k. GET k u = (if k = waitQueueKey i
        then map_option (\<lambda>c. if 0 < ctr_value c then c\<lparr>ctr_value := ctr_value c - 1\<rparr> else c) (GET k s) else GET k s)"
    "\<And>a as'. n \<le> 0 \<or> int (card (live (cc_slotTTLSeconds c) (userSlotKey i) s)) < n \<Longrightarrow> as = a # as' \<Longrightarrow>
      \<not> at_again a \<Longrightarrow> at_maxConcurrency a \<le> 0 \<or>
        int (card (live (cc_slotTTLSeconds c) (accountSlotKey (at_account a)) s)) < at_maxConcurrency a \<Longrightarrow> res = Inr 1"
proof -
  let ?ttl = "cc_slotTTLSeconds c" and ?q = "waitQueueKey i"
  let ?b = "0 + sum_list (map (\<lambda>a. wait_tries (at_wait a)) as)"
  let ?k = "\<lambda>r started. DecrementWaitCount ?q (case r of Inl e \<Rightarrow> Return (Inl e)
       | Inr sl \<Rightarrow> account_attempts c pfx as started 0 (\<lambda>res. ReleaseFunc sl (Return res)))"
  have r: "ready c pfx (?b + wait_tries we) s" using assms(1) by (simp add: request_tries_def ac_simps)
  obtain res st' t where t: "exec (served c pfx i n we as) s = exec (?k res st') t" "ready c pfx ?b t"
    "same_queues s t" "takes_slot ?ttl (userSlotKey i) res s t"
    "n \<le> 0 \<or> int (card (live ?ttl (userSlotKey i) s)) < n \<longrightarrow> (\<exists>sl. res = Inr sl)"
    using try_then_wait [OF r assms(2) user_wait [of c pfx i n we False ?k]] unfolding served_def by blast
  define t1 where "t1 = snd (decrementWaitScript ?q t)"
  have t1: "ready c pfx ?b t1" "same_slots ?ttl t t1"
    using t(2) ready_same [OF t(2), of t1] same_slotsI [of t1 t] by (simp_all add: t1_def ready_def)
  have q1: "GET k t1 = (if k = ?q then map_option (\<lambda>c. if 0 < ctr_value c then c\<lparr>ctr_value := ctr_value c - 1\<rparr> else c)
      (GET k s) else GET k s)" for k
    using t(3) by (simp add: t1_def GET_decrement same_queues_def)
  have e1: "exec (served c pfx i n we as) s = exec (case res of Inl e \<Rightarrow> Return (Inl e)
       | Inr sl \<Rightarrow> account_attempts c pfx as st' 0 (\<lambda>res. ReleaseFunc sl (Return res))) t1"
    using t(1,2) by (simp add: DecrementWaitCount_def cache_DecrementWaitCount_def t1_def ready_def)
  show thesis
  proof (cases res)
    case (Inl e)
    show thesis
      by (rule that [OF _ _ q1, of "Inl e"])
        (use e1 t(4,5) t1(2) in \<open>auto simp: Inl takes_slot_def intro: same_trans\<close>)
  next
    case (Inr sl)
    obtain res' u where u: "exec (account_attempts c pfx as st' 0 (\<lambda>res. ReleaseFunc sl (Return res))) t1 =
        exec (ReleaseFunc sl (Return res')) u" "ready c pfx 0 u" "same_queues t1 u" "same_slots ?ttl t1 u"
      "\<forall>a as'. as = a # as' \<and> \<not> at_again a \<and> (at_maxConcurrency a \<le> 0 \<or>
        int (card (live ?ttl (accountSlotKey (at_account a)) t1)) < at_maxConcurrency a) \<longrightarrow> res' = Inr (0 + 1)"
      using attempts_alone [OF t1(1) assms(2), of st' 0 "\<lambda>res. ReleaseFunc sl (Return res)"] by blast
    have h1: "holds_slot ?ttl (userSlotKey i) sl s t1" using t(4) t1(2) by (auto simp: Inr takes_slot_def intro: same_trans)
    have h: "holds_slot ?ttl (userSlotKey i) sl s u" using h1 u(4) by (rule same_trans)
    obtain v where v: "exec (ReleaseFunc sl (Return res')) u = exec (Return res') v" "same_queues u v" "same_slots ?ttl s v"
      using release_alone [OF u(2) h] by blast
    have "GET k v = GET k t1" for k using u(3) v(2) by (simp add: same_queues_def)
    then show thesis
      using that [of res' v] e1 u(1,5) v(1,3) q1 live_account [OF h1] by (auto simp: Inr)
  qed
qed

section \<open>What a request leaves behind\<close>

lemma chat_served:
  "ChatCompletions_slots c pfx i n we as = IncrementWaitCount c (waitQueueKey i) (CalculateMaxWait n)
     (\<lambda>canWait. if \<not> canWait then Return (Inl tooManyPending) else served c pfx i n we as)"
  unfolding ChatCompletions_slots_def served_def by (rule refl)

text \<open>
  (C15) A request leaves nothing behind. When it runs alone and Redis answers, then however it ends (its
  queue is full, it waits in vain, the client is gone, or it is served after any number of accounts),
  every key has the slots and every queue the length it had before.
\<close>

theorem request_leaves_no_trace:
  assumes "ready c pfx (request_tries we as) s" "0 < cc_slotTTLSeconds c" "0 < cc_waitQueueTTLSeconds c"
    "0 \<le> count_at (waitQueueKey i) s"
  shows "same_slots (cc_slotTTLSeconds c) s (snd (exec (ChatCompletions_slots c pfx i n we as) s)) \<and>
    count_at k (snd (exec (ChatCompletions_slots c pfx i n we as) s)) = count_at k s"
proof -
  let ?q = "waitQueueKey i" and ?ttl = "cc_slotTTLSeconds c"
  define s1 where "s1 = snd (incrementWaitScript ?q (CalculateMaxWait n) (cc_waitQueueTTLSeconds c) s)"
  define ok where "ok = fst (incrementWaitScript ?q (CalculateMaxWait n) (cc_waitQueueTTLSeconds c) s)"
  have ok: "ok = (count_at ?q s < CalculateMaxWait n)" by (simp add: ok_def incrementWaitScript_def)
  have e: "exec (ChatCompletions_slots c pfx i n we as) s =
      exec (if \<not> ok then Return (Inl tooManyPending) else served c pfx i n we as) s1"
    using assms(1) by (simp add: chat_served IncrementWaitCount_def cache_IncrementWaitCount_def s1_def ok_def ready_def)
  have q1: "GET k s1 = (if ok \<and> k = ?q then Some \<lparr>ctr_value = count_at ?q s + 1,
      ctr_deadline = Some (cw_now s + cc_waitQueueTTLSeconds c * 1000)\<rparr> else GET k s)" for k
    using assms(3) by (simp add: s1_def GET_increment ok)
  have s1: "same_slots ?ttl s s1" "ready c pfx (request_tries we as) s1"
    using ready_same [OF assms(1), of s1] assms(1) by (simp_all add: s1_def same_slotsI ready_def)
  show ?thesis
  proof (cases ok)
    case True
    obtain res u where u: "exec (served c pfx i n we as) s1 = (res, u)" "same_slots ?ttl s1 u"
      "\<And>k. GET k u = (if k = ?q
        then map_option (\<lambda>c. if 0 < ctr_value c then c\<lparr>ctr_value := ctr_value c - 1\<rparr> else c) (GET k s1) else GET k s1)"
      by (rule served_alone [OF s1(2) assms(2), of i n]) blast
    have "count_at k u = count_at k s"
      using assms(4) True u(3) [of k] q1 [of k] by (simp add: count_at_def split: if_splits)
    then show ?thesis using e True u(1,2) s1(1) by (auto intro: same_trans)
  next
    case False
    then show ?thesis using e s1(1) q1 [of k] by (simp add: count_at_def)
  qed
qed

text \<open>
  (C37) Room means service: when the queue of the user is not full, the user has a slot free and so has
  the first account, the request is forwarded to that account without waiting.
\<close>

theorem request_served_when_free:
  assumes "ready c pfx (request_tries we (a # as)) s" "0 < cc_slotTTLSeconds c"
    "count_at (waitQueueKey i) s < CalculateMaxWait n"
    "n \<le> 0 \<or> int (card (live (cc_slotTTLSeconds c) (userSlotKey i) s)) < n"
    "at_maxConcurrency a \<le> 0 \<or>
      int (card (live (cc_slotTTLSeconds c) (accountSlotKey (at_account a)) s)) < at_maxConcurrency a"
    "\<not> at_again a"
  shows "fst (exec (ChatCompletions_slots c pfx i n we (a # as)) s) = Inr 1"
proof -
  define s1 where "s1 = snd (incrementWaitScript (waitQueueKey i) (CalculateMaxWait n) (cc_waitQueueTTLSeconds c) s)"
  have e: "exec (ChatCompletions_slots c pfx i n we (a # as)) s = exec (served c pfx i n we (a # as)) s1"
    using assms(1,3) by (simp add: chat_served IncrementWaitCount_def cache_IncrementWaitCount_def s1_def ready_def)
      (simp add: incrementWaitScript_def)
  have s1: "same_slots (cc_slotTTLSeconds c) s s1" "ready c pfx (request_tries we (a # as)) s1"
    using ready_same [OF assms(1), of s1] assms(1) by (simp_all add: s1_def same_slotsI ready_def)
  obtain res u where "exec (served c pfx i n we (a # as)) s1 = (res, u)" "res = Inr 1"
    by (rule served_alone [OF s1(2) assms(2), of i n]) (use s1(1) assms(4-6) in \<open>auto simp: same_slots_def\<close>)
  then show ?thesis using e by simp
qed

text \<open>
  A place in the queue that was never taken is given back all the same: when the increment fails,
  the request is let in, and its decrement takes away the place of another request.
\<close>

theorem failed_increment_takes_anothers_place:
  assumes "ready c pfx (request_tries we as) (s\<lparr>cw_faults := []\<rparr>)" "0 < cc_slotTTLSeconds c"
    "cw_faults s = [Fails]" "0 < count_at (waitQueueKey i) s"
  shows "count_at (waitQueueKey i) (snd (exec (ChatCompletions_slots c pfx i n we as) s)) =
    count_at (waitQueueKey i) s - 1"
proof -
  let ?q = "waitQueueKey i"
  define s1 where "s1 = s\<lparr>cw_faults := []\<rparr>"
  have e: "exec (ChatCompletions_slots c pfx i n we as) s = exec (served c pfx i n we as) s1"
    using assms(3) by (simp add: chat_served IncrementWaitCount_def cache_IncrementWaitCount_def call_def send_def
        next_fault_def s1_def)
  obtain res u where u: "exec (served c pfx i n we as) s1 = (res, u)"
    "\<And>k. GET k u = (if k = ?q
        then map_option (\<lambda>c. if 0 < ctr_value c then c\<lparr>ctr_value := ctr_value c - 1\<rparr> else c) (GET k s1) else GET k s1)"
    by (rule served_alone [OF assms(1) [folded s1_def] assms(2), of i n]) blast
  have "GET ?q s1 = GET ?q s" by (rule count_at_cong) (simp_all add: s1_def)
  then show ?thesis using assms(4) u e by (auto simp: count_at_def split: option.splits)
qed

section \<open>Starting a process\<close>

lemma slots_of_others_removed:
  assumes "0 < ttl"
  shows "live ttl k (snd (startupCleanupScript ks p ttl s)) =
    (if k \<in> set ks then {r \<in> live ttl k s. has_prefix p r} else live ttl k s)"
proof -
  have cl: "live ttl k' (cleanup_key p ttl k s) = (if k' = k then {r \<in> live ttl k s. has_prefix p r} else live ttl k' s)" for k k' s
    using assms by (cases "k' = k", simp_all add: live_cleanup_key) (simp add: cleanup_key_def Let_def)
  show ?thesis
    unfolding startupCleanupScript_def by (induction ks arbitrary: s) (auto simp: cl)
qed

section \<open>Waiting\<close>

text \<open>
  A request in the queue asks for its slot at most every 100 ms and at least every 2 s, whatever
  the random numbers are.
\<close>

theorem backoff_bounded: "initialBackoff \<le> nextBackoff rnd d \<and> nextBackoff rnd d \<le> maxBackoff"
  by (simp add: nextBackoff_def Let_def initialBackoff_def maxBackoff_def time_Millisecond_def time_Second_def)

lemma concat_batches: "0 < n \<Longrightarrow> concat (batches n xs) = xs"
  by (induction n xs rule: batches.induct) (subst batches.simps, simp)

lemma exec_for_batches:
  assumes "\<And>b s. cw_faults (snd (f b s)) = cw_faults s" "cw_faults s = []"
  shows "exec (for_batches scan f) s = (Inr (), fold (\<lambda>b s. snd (f b s)) (batches scanCount (scan s)) s)"
proof -
  have "exec (foreach bs (\<lambda>b r. case r of Inl e \<Rightarrow> Return (Inl e) | Inr _ \<Rightarrow> call (f b) Return) (Inr ())) s =
      (Inr (), fold (\<lambda>b s. snd (f b s)) bs s)" if "cw_faults s = []" for bs s
    using that by (induction bs arbitrary: s) (simp_all add: assms(1))
  then show ?thesis using assms(2) by (simp add: for_batches_def only_value_def)
qed

lemma fold_batches: "0 < n \<Longrightarrow> fold (\<lambda>b. fold g b) (batches n xs) s = fold g xs s"
  by (induction n xs arbitrary: s rule: batches.induct)
    (subst batches.simps, auto, metis append_take_drop_id fold_append comp_apply)

lemma exec_cleanupSlots:
  assumes "cw_faults s = []"
  shows "exec (cleanupSlotsByPattern c q p) s =
    (Inr (), snd (startupCleanupScript (slot_keys q s) p (cc_slotTTLSeconds c) s))"
proof -
  have f: "cw_faults (fold (cleanup_key p ttl) ks s) = cw_faults s" for ttl ks s
    by (induction ks arbitrary: s) (simp_all add: cleanup_key_def Let_def)
  show ?thesis
    unfolding cleanupSlotsByPattern_def
    by (subst exec_for_batches) (simp_all add: startupCleanupScript_def f assms fold_batches scanCount_def)
qed

lemma del_keeps: "cw_faults (DEL_counts ks s) = cw_faults s"
  by (simp add: DEL_counts_def)

lemma exec_deleteKeys:
  assumes "cw_faults s = []"
  shows "\<exists>t. exec (deleteKeysByPattern q) s = (Inr (), t) \<and> cw_faults t = [] \<and> cw_zsets t = cw_zsets s \<and>
    cw_now t = cw_now s \<and> (\<forall>k. GET k t = (if k \<in> set (wait_keys q s) then None else GET k s))"
proof -
  have *: "cw_faults (fold DEL_counts bs s) = cw_faults s \<and> cw_zsets (fold DEL_counts bs s) = cw_zsets s \<and>
      cw_now (fold DEL_counts bs s) = cw_now s \<and>
      GET k (fold DEL_counts bs s) = (if k \<in> set (concat bs) then None else GET k s)" for bs k s
  proof (induction bs arbitrary: s)
    case (Cons b bs)
    then show ?case by (simp add: GET_delete del_keeps)
  qed simp
  have "exec (deleteKeysByPattern q) s = (Inr (), fold DEL_counts (batches scanCount (wait_keys q s)) s)"
    unfolding deleteKeysByPattern_def
    by (subst exec_for_batches) (simp_all add: only_effect_def del_keeps assms)
  moreover have "set (concat (batches scanCount (wait_keys q s))) = set (wait_keys q s)"
    by (subst concat_batches) (simp_all add: scanCount_def)
  ultimately show ?thesis using * [of "batches scanCount (wait_keys q s)" s] assms by (auto simp del: set_concat)
qed

lemma live_without_key: "k \<notin> set (map fst (cw_zsets s)) \<Longrightarrow> live ttl k s = {}"
  by (simp add: live_def zset_of_def map_of_eq_None_iff [THEN iffD2])

lemma GET_without_key: "k \<notin> set (map fst (cw_counts s)) \<Longrightarrow> GET k s = None"
  by (simp add: GET_def map_of_eq_None_iff [THEN iffD2])

lemma live_cleanupSlots:
  assumes "0 < ttl"
  shows "live ttl k (snd (startupCleanupScript (slot_keys q s) p ttl s)) =
    (if has_prefix q k then {r \<in> live ttl k s. has_prefix p r} else live ttl k s)"
  using live_without_key [of k s ttl] by (auto simp: slots_of_others_removed [OF assms] slot_keys_def)

lemma startup_keeps [simp]:
  "cw_faults (snd (startupCleanupScript ks p ttl s)) = cw_faults s"
  "cw_counts (snd (startupCleanupScript ks p ttl s)) = cw_counts s"
  "cw_now (snd (startupCleanupScript ks p ttl s)) = cw_now s"
proof -
  have "cw_faults (fold (cleanup_key p ttl) ks s) = cw_faults s \<and> cw_counts (fold (cleanup_key p ttl) ks s) = cw_counts s
      \<and> cw_now (fold (cleanup_key p ttl) ks s) = cw_now s"
    by (induction ks arbitrary: s) (simp_all add: cleanup_key_def Let_def)
  then show "cw_faults (snd (startupCleanupScript ks p ttl s)) = cw_faults s"
    "cw_counts (snd (startupCleanupScript ks p ttl s)) = cw_counts s"
    "cw_now (snd (startupCleanupScript ks p ttl s)) = cw_now s" by (simp_all add: startupCleanupScript_def)
qed

text \<open>
  A starting process takes the slots of all the others, not only of dead ones: afterwards every
  account and user has exactly those live slots whose id begins with the prefix of the new process,
  and all queues are empty.
\<close>

theorem startup_evicts_every_other_process:
  assumes "cw_faults s = []" "0 < cc_slotTTLSeconds c" "p \<noteq> []"
    "t = snd (exec (CleanupStaleProcessSlots c p) s)"
    "k \<in> {accountSlotKey i, userSlotKey i}" "q \<in> {waitQueueKey i, accountWaitKey i}"
  shows "live (cc_slotTTLSeconds c) k t = {r \<in> live (cc_slotTTLSeconds c) k s. has_prefix p r} \<and> count_at q t = 0"
proof -
  let ?ttl = "cc_slotTTLSeconds c"
  define s1 where "s1 = snd (startupCleanupScript (slot_keys accountSlotKeyPrefix s) p ?ttl s)"
  define s2 where "s2 = snd (startupCleanupScript (slot_keys userSlotKeyPrefix s1) p ?ttl s1)"
  have f2: "cw_faults s2 = []" using assms(1) by (simp add: s1_def s2_def)
  obtain s3 where s3: "exec (deleteKeysByPattern accountWaitKeyPrefix) s2 = (Inr (), s3)" "cw_faults s3 = []"
    "cw_zsets s3 = cw_zsets s2" "cw_now s3 = cw_now s2"
    "\<And>k. GET k s3 = (if k \<in> set (wait_keys accountWaitKeyPrefix s2) then None else GET k s2)"
    using exec_deleteKeys [OF f2] by blast
  obtain s4 where s4: "exec (deleteKeysByPattern waitQueueKeyPrefix) s3 = (Inr (), s4)"
    "cw_zsets s4 = cw_zsets s3" "cw_now s4 = cw_now s3"
    "\<And>k. GET k s4 = (if k \<in> set (wait_keys waitQueueKeyPrefix s3) then None else GET k s3)"
    using exec_deleteKeys [OF s3(2)] by blast
  have f1: "cw_faults s1 = []" using assms(1) by (simp add: s1_def)
  have t: "t = s4"
    unfolding assms(4) CleanupStaleProcessSlots_def on_ok_def
    using assms(1,3) f1 s3(1) s4(1) by (simp add: exec_cleanupSlots s1_def [symmetric] s2_def [symmetric])
  have "live ?ttl k t = live ?ttl k s2"
    using slots_same(1) [of s4 s2 ?ttl k] s3(3,4) s4(2,3) by (simp add: t)
  also have "\<dots> = {r \<in> live ?ttl k s. has_prefix p r}"
    using assms(5) by (auto simp: s2_def s1_def live_cleanupSlots [OF assms(2)])
  finally have l: "live ?ttl k t = {r \<in> live ?ttl k s. has_prefix p r}" .
  have "GET q s4 = None"
    using assms(6) s3(5) [of q] s4(4) [of q] GET_without_key [of q s2] GET_without_key [of q s3]
    by (auto simp: wait_keys_def split: if_splits)
  then show ?thesis using l by (simp add: t count_at_def)
qed

section \<open>Load\<close>

text \<open>
  The load of a batch of accounts is what their slots and queues hold: the number of live slots,
  the number of waiting requests and their share of the limit in percent, in the order asked for.
\<close>

theorem load_batch_counts_slots:
  assumes "ready c pfx 0 s" "0 < cc_slotTTLSeconds c"
  shows "fst (exec (GetAccountsLoadBatch c xs) s) = Inr (map (\<lambda>a. load_info a
      (int (card (live (cc_slotTTLSeconds c) (accountSlotKey (fst a)) s))) (count_at (accountWaitKey (fst a)) s)) xs)"
proof -
  let ?ttl = "cc_slotTTLSeconds c"
  let ?body = "\<lambda>a infos. pipe_read (accountSlotKey (fst a)) (accountWaitKey (fst a)) (TIME s - ?ttl)
    (\<lambda>n w. Return (infos @ [load_info a n w]))"
  have loop: "fst (exec (foreach xs ?body infos) t) = infos @ map (\<lambda>a. load_info a
      (int (card (live ?ttl (accountSlotKey (fst a)) s))) (count_at (accountWaitKey (fst a)) s)) xs"
    if "\<forall>k. slots_wf ?ttl k t" "same_slots ?ttl s t" "same_queues s t" "TIME t = TIME s" for xs infos t
    using that
  proof (induction xs arbitrary: infos t)
    case (Cons a xs)
    let ?u = "ZREMRANGEBYSCORE (accountSlotKey (fst a)) (TIME t - ?ttl) t"
    have u: "\<forall>k. slots_wf ?ttl k ?u" "same_slots ?ttl s ?u" "same_queues s ?u" "TIME ?u = TIME s"
    proof -
      show "\<forall>k. slots_wf ?ttl k ?u" using Cons.prems(1) by (simp add: slots_wf_trim)
      show "same_slots ?ttl s ?u" using Cons.prems(2) by (simp add: same_slots_def)
      have "same_queues t ?u" by (rule same_queuesI) (simp_all add: ZREMRANGEBYSCORE_def)
      then show "same_queues s ?u" by (rule same_trans(2) [OF Cons.prems(3)])
      show "TIME ?u = TIME s" using Cons.prems(4) by (simp add: ZREMRANGEBYSCORE_def)
    qed
    have "ZCARD (accountSlotKey (fst a)) ?u = int (card (live ?ttl (accountSlotKey (fst a)) s))"
      "count_at (accountWaitKey (fst a)) ?u = count_at (accountWaitKey (fst a)) s"
      using Cons.prems trimmed(1) [of ?ttl "accountSlotKey (fst a)" t] u(3)
      by (simp_all add: same_slots_def same_queues_def count_at_def)
    then show ?case
      using Cons.IH [OF u] Cons.prems(4) by (simp add: pipe_read_def only_effect_def only_value_def case_prod_unfold)
  qed simp
  show ?thesis
    using assms loop [of s xs "[]"] unfolding GetAccountsLoadBatch_def GetLoadBatch_def
    by (auto simp: ready_def only_value_def case_prod_unfold)
qed

section \<open>Examples\<close>

lemma demo_ready:
  assumes "b < 1000"
  shows "ready demo_cache pfx b (demo_redis [] cs)"
  using assms by (simp add: ready_def demo_live) (simp add: demo_redis_def)

lemma demo_tries: "request_tries demo_wait [demo_attempt] < 1000"
  by (simp add: request_tries_def wait_tries_def demo_attempt_def demo_wait_def)

theorem request_leaves_no_trace_witness:
  "same_slots (cc_slotTTLSeconds demo_cache) (demo_redis [] queue_of_two)
      (snd (exec (ChatCompletions_slots demo_cache ''ra'' 7 1 demo_wait [demo_attempt]) (demo_redis [] queue_of_two))) \<and>
    count_at (waitQueueKey 7)
      (snd (exec (ChatCompletions_slots demo_cache ''ra'' 7 1 demo_wait [demo_attempt]) (demo_redis [] queue_of_two))) = 2"
  using request_leaves_no_trace [OF demo_ready [OF demo_tries] demo_ttl, of 7 queue_of_two "''ra''" 1 "waitQueueKey 7"]
  by (simp add: demo_counts)

theorem request_served_when_free_witness:
  "fst (exec (ChatCompletions_slots demo_cache ''ra'' 7 1 demo_wait [demo_attempt]) (demo_redis [] queue_of_two)) = Inr 1"
  by (rule request_served_when_free [OF demo_ready [OF demo_tries] demo_ttl(1)])
    (simp_all add: demo_live demo_counts CalculateMaxWait_1 demo_attempt_def)

theorem failed_increment_takes_anothers_place_witness:
  "count_at (waitQueueKey 7)
     (snd (exec (ChatCompletions_slots demo_cache ''ra'' 7 1 demo_wait [demo_attempt]) (demo_redis [Fails] queue_of_two))) = 1"
proof -
  have f: "(demo_redis [Fails] queue_of_two)\<lparr>cw_faults := []\<rparr> = demo_redis [] queue_of_two"
    "cw_faults (demo_redis [Fails] queue_of_two) = [Fails]" by (simp_all add: demo_redis_def)
  show ?thesis
    using failed_increment_takes_anothers_place [of demo_cache "''ra''" demo_wait "[demo_attempt]"
        "demo_redis [Fails] queue_of_two" 7 1] demo_ready [OF demo_tries] demo_ttl(1)
    by (simp add: f demo_counts)
qed

text \<open>The slot that process \<open>ra\<close> holds for user 7 is gone when process \<open>rb\<close> starts.\<close>

definition busy_redis :: cworld where
  "busy_redis = (demo_redis [] [])\<lparr>cw_zsets := [(userSlotKey 7,
     \<lparr>zs_members = [(''ra-1'', 1699999999), (''rb-1'', 1699999998)], zs_deadline = None\<rparr>)]\<rparr>"

theorem startup_evicts_every_other_process_witness:
  "live 900 (userSlotKey 7) busy_redis = {''ra-1'', ''rb-1''} \<and>
   live 900 (userSlotKey 7) (snd (exec (CleanupStaleProcessSlots demo_cache ''rb'') busy_redis)) = {''rb-1''}"
proof -
  have l: "live 900 (userSlotKey 7) busy_redis = {''ra-1'', ''rb-1''}"
    by (force simp: live_def zset_of_def busy_redis_def demo_redis_def TIME_def)
  have f: "cw_faults busy_redis = []" by (simp add: busy_redis_def demo_redis_def)
  have ttl: "cc_slotTTLSeconds demo_cache = 900"
    by (simp add: demo_cache_def NewConcurrencyCache_def defaultSlotTTLMinutes_def Let_def)
  have "{r \<in> {''ra-1'', ''rb-1''}. has_prefix ''rb'' r} = {''rb-1''}" by (auto simp: has_prefix_def)
  then show ?thesis
    using startup_evicts_every_other_process [OF f demo_ttl(1) _ refl, of "''rb''" "userSlotKey 7" 7 "waitQueueKey 7"] l
    by (simp add: ttl)
qed

theorem load_batch_counts_slots_witness:
  "fst (exec (GetAccountsLoadBatch demo_cache [(3, 2)]) (demo_redis [] [])) =
    Inr [\<lparr>li_ID = 3, li_CurrentConcurrency = 0, li_WaitingCount = 0, li_LoadRate = 0\<rparr>]"
  using load_batch_counts_slots [OF demo_ready [of 0] demo_ttl(1), where xs = "[(3, 2)]"]
  by (simp add: demo_live demo_counts load_info_def count_at_def go_div_def)

end
