(* ===== verification/Channels.thy ===== *)
theory Channels
  imports AppErrors Complex_Main
begin

text \<open>
  Channels: \<open>backend/internal/service/channel.go\<close> and \<open>channel_service.go\<close>.

  A channel gives its groups prices and model names of their own. The configuration is validated when
  it is written, expanded into a snapshot with hash maps when it is read, and the snapshot answers the
  lookups of every request. A Go map is a function where only its lookups matter and a list of pairs
  where it is iterated; the list then is the order of one iteration.
\<close>

section \<open>Data\<close>

definition BillingModeToken :: string where "BillingModeToken = ''token''"
definition BillingModePerRequest :: string where "BillingModePerRequest = ''per_request''"
definition BillingModeImage :: string where "BillingModeImage = ''image''"

lemmas billing_mode_defs = BillingModeToken_def BillingModePerRequest_def BillingModeImage_def

definition BillingMode_IsValid :: "string \<Rightarrow> bool" where
  "BillingMode_IsValid m \<longleftrightarrow> m \<in> {BillingModeToken, BillingModePerRequest, BillingModeImage, ''''}"

definition BillingModelSourceRequested :: string where "BillingModelSourceRequested = ''requested''"
definition BillingModelSourceUpstream :: string where "BillingModelSourceUpstream = ''upstream''"
definition BillingModelSourceChannelMapped :: string where "BillingModelSourceChannelMapped = ''channel_mapped''"

record PricingInterval =
  iv_MinTokens :: int
  iv_MaxTokens :: "int option"
  iv_TierLabel :: string
  iv_InputPrice :: "rat option"
  iv_OutputPrice :: "rat option"
  iv_CacheWritePrice :: "rat option"
  iv_CacheReadPrice :: "rat option"
  iv_PerRequestPrice :: "rat option"
  iv_SortOrder :: int

record ChannelModelPricing =
  cp_Platform :: string
  cp_Models :: "string list"
  cp_BillingMode :: string
  cp_InputPrice :: "rat option"
  cp_OutputPrice :: "rat option"
  cp_CacheWritePrice :: "rat option"
  cp_CacheReadPrice :: "rat option"
  cp_ImageOutputPrice :: "rat option"
  cp_PerRequestPrice :: "rat option"
  cp_Intervals :: "PricingInterval list"

record AccountStatsPricingRule =
  asr_GroupIDs :: "int list"
  asr_AccountIDs :: "int list"
  asr_SortOrder :: int
  asr_Pricing :: "ChannelModelPricing list"

type_synonym model_mapping = "(string \<times> (string \<times> string) list) list"

record Channel =
  ch_ID :: int
  ch_Name :: string
  ch_Status :: string
  ch_BillingModelSource :: string
  ch_RestrictModels :: bool
  ch_GroupIDs :: "int list"
  ch_ModelPricing :: "ChannelModelPricing list"
  ch_ModelMapping :: model_mapping
  ch_ApplyPricingToAccountStats :: bool
  ch_AccountStatsPricingRules :: "AccountStatsPricingRule list"

definition channel_IsActive :: "Channel \<Rightarrow> bool" where
  "channel_IsActive c \<longleftrightarrow> ch_Status c = ''active''"

definition channel_GetModelPricing :: "Channel \<Rightarrow> string \<Rightarrow> ChannelModelPricing option" where
  "channel_GetModelPricing c model =
     find (\<lambda>p. list_ex (\<lambda>m. ToLower m = ToLower model) (cp_Models p)) (ch_ModelPricing c)"

section \<open>Intervals\<close>

definition interval_matches :: "int \<Rightarrow> PricingInterval \<Rightarrow> bool" where
  "interval_matches totalTokens iv \<longleftrightarrow> iv_MinTokens iv < totalTokens \<and>
     (case iv_MaxTokens iv of None \<Rightarrow> True | Some m \<Rightarrow> totalTokens \<le> m)"

definition FindMatchingInterval :: "PricingInterval list \<Rightarrow> int \<Rightarrow> PricingInterval option" where
  "FindMatchingInterval intervals totalTokens = find (interval_matches totalTokens) intervals"

definition GetTierByLabel :: "ChannelModelPricing \<Rightarrow> string \<Rightarrow> PricingInterval option" where
  "GetTierByLabel p label = find (\<lambda>iv. ToLower (iv_TierLabel iv) = ToLower label) (cp_Intervals p)"

definition negative :: "rat option \<Rightarrow> bool" where
  "negative p = (case p of None \<Rightarrow> False | Some x \<Rightarrow> x < 0)"

definition interval_error :: "nat \<Rightarrow> string \<Rightarrow> go_error" where
  "interval_error idx what = PlainErr (''interval #'' @ itoa (int idx + 1) @ '': '' @ what)"

definition validateIntervalPrices :: "PricingInterval \<Rightarrow> nat \<Rightarrow> go_error option" where
  "validateIntervalPrices iv idx =
     (case find (\<lambda>p. negative (snd p))
        [(''input_price'', iv_InputPrice iv), (''output_price'', iv_OutputPrice iv),
         (''cache_write_price'', iv_CacheWritePrice iv), (''cache_read_price'', iv_CacheReadPrice iv),
         (''per_request_price'', iv_PerRequestPrice iv)] of
        Some p \<Rightarrow> Some (interval_error idx (fst p @ '' must be >= 0''))
      | None \<Rightarrow> None)"

definition validateSingleInterval :: "PricingInterval \<Rightarrow> nat \<Rightarrow> go_error option" where
  "validateSingleInterval iv idx =
     (if iv_MinTokens iv < 0
      then Some (interval_error idx (''min_tokens ('' @ itoa (iv_MinTokens iv) @ '') must be >= 0''))
      else (case iv_MaxTokens iv of
          Some m \<Rightarrow>
            if m \<le> 0 then Some (interval_error idx (''max_tokens ('' @ itoa m @ '') must be > 0''))
            else if m \<le> iv_MinTokens iv
            then Some (interval_error idx (''max_tokens ('' @ itoa m @ '') must be > min_tokens ('' @ itoa (iv_MinTokens iv) @ '')''))
            else validateIntervalPrices iv idx
        | None \<Rightarrow> validateIntervalPrices iv idx))"

fun first_error :: "nat \<Rightarrow> ('a \<Rightarrow> nat \<Rightarrow> go_error option) \<Rightarrow> 'a list \<Rightarrow> go_error option" where
  "first_error i f [] = None"
| "first_error i f (x # xs) = (case f x i of Some e \<Rightarrow> Some e | None \<Rightarrow> first_error (Suc i) f xs)"

definition formatMaxTokensLabel :: "int option \<Rightarrow> string" where
  "formatMaxTokensLabel m = (case m of None \<Rightarrow> [CHR 0xE2, CHR 0x88, CHR 0x9E] | Some n \<Rightarrow> itoa n)"

text \<open>The first argument is the interval before, if there is one.\<close>

fun validateIntervalOverlap :: "PricingInterval option \<Rightarrow> nat \<Rightarrow> PricingInterval list \<Rightarrow> go_error option" where
  "validateIntervalOverlap prev i [] = None"
| "validateIntervalOverlap prev i (iv # ivs) =
     (if iv_MaxTokens iv = None \<and> ivs \<noteq> []
      then Some (interval_error i ''unbounded interval (max_tokens=null) must be the last one'')
      else (case prev of
          None \<Rightarrow> validateIntervalOverlap (Some iv) (Suc i) ivs
        | Some p \<Rightarrow>
            if (case iv_MaxTokens p of None \<Rightarrow> True | Some m \<Rightarrow> iv_MinTokens iv < m)
            then Some (PlainErr (''interval #'' @ itoa (int i) @ '' and #'' @ itoa (int i + 1) @ '' overlap: prev max='' @
              formatMaxTokensLabel (iv_MaxTokens p) @ '' > cur min='' @ itoa (iv_MinTokens iv)))
            else validateIntervalOverlap (Some iv) (Suc i) ivs))"

text \<open>Intervals with the same lower bound are rejected in either order, so a stable sort will do.\<close>

definition ValidateIntervals :: "PricingInterval list \<Rightarrow> go_error option" where
  "ValidateIntervals intervals =
     (let sorted = sort_key iv_MinTokens intervals in
      case first_error 0 validateSingleInterval sorted of
        Some e \<Rightarrow> Some e | None \<Rightarrow> validateIntervalOverlap None 0 sorted)"

section \<open>Model patterns\<close>

record modelEntry =
  me_pattern :: string
  me_prefix :: string
  me_wildcard :: bool

definition star :: char where "star = CHR 0x2A"

definition ends_with_star :: "string \<Rightarrow> bool" where
  "ends_with_star s \<longleftrightarrow> s \<noteq> [] \<and> last s = star"

definition trim_star :: "string \<Rightarrow> string" where
  "trim_star s = (if ends_with_star s then butlast s else s)"

definition toModelEntry :: "string \<Rightarrow> modelEntry" where
  "toModelEntry pattern =
     (let lower = ToLower pattern; isWild = ends_with_star lower
      in \<lparr>me_pattern = pattern, me_prefix = (if isWild then trim_star lower else lower), me_wildcard = isWild\<rparr>)"

definition conflictsBetween :: "modelEntry \<Rightarrow> modelEntry \<Rightarrow> bool" where
  "conflictsBetween a b \<longleftrightarrow>
     (if \<not> me_wildcard a \<and> \<not> me_wildcard b then me_prefix a = me_prefix b
      else if me_wildcard a \<and> \<not> me_wildcard b then HasPrefix (me_prefix b) (me_prefix a)
      else if \<not> me_wildcard a \<and> me_wildcard b then HasPrefix (me_prefix a) (me_prefix b)
      else HasPrefix (me_prefix a) (me_prefix b) \<or> HasPrefix (me_prefix b) (me_prefix a))"

definition quoted :: "string \<Rightarrow> string" where
  "quoted s = CHR 0x27 # s @ [CHR 0x27]"

fun detectConflicts :: "string \<Rightarrow> string \<Rightarrow> string \<Rightarrow> modelEntry list \<Rightarrow> go_error option" where
  "detectConflicts platform errCode label [] = None"
| "detectConflicts platform errCode label (e # es) =
     (case find (conflictsBetween e) es of
        Some e' \<Rightarrow> Some (AppErr (BadRequest errCode
          (label @ '' '' @ quoted (me_pattern e) @ '' and '' @ quoted (me_pattern e') @ '' conflict in platform '' @
           quoted platform @ '': overlapping match range'')))
      | None \<Rightarrow> detectConflicts platform errCode label es)"

text \<open>The platforms are visited in some order; which conflict is reported depends on it.\<close>

definition entries_of :: "ChannelModelPricing list \<Rightarrow> string \<Rightarrow> modelEntry list" where
  "entries_of ps platform = map toModelEntry (concat (map cp_Models (filter (\<lambda>p. cp_Platform p = platform) ps)))"

definition validateNoConflictingModels :: "ChannelModelPricing list \<Rightarrow> go_error option" where
  "validateNoConflictingModels ps =
     first_error 0 (\<lambda>platform _. detectConflicts platform ''MODEL_PATTERN_CONFLICT'' ''model patterns'' (entries_of ps platform))
       (remdups (map cp_Platform ps))"

definition validateNoConflictingMappings :: "model_mapping \<Rightarrow> go_error option" where
  "validateNoConflictingMappings mapping =
     first_error 0 (\<lambda>m _. detectConflicts (fst m) ''MAPPING_PATTERN_CONFLICT'' ''mapping source patterns''
       (map (\<lambda>sd. toModelEntry (fst sd)) (snd m))) mapping"

section \<open>Validation\<close>

definition no_price :: "PricingInterval \<Rightarrow> bool" where
  "no_price iv \<longleftrightarrow> iv_InputPrice iv = None \<and> iv_OutputPrice iv = None \<and> iv_CacheWritePrice iv = None \<and>
     iv_CacheReadPrice iv = None \<and> iv_PerRequestPrice iv = None"

definition validatePricingIntervals :: "ChannelModelPricing list \<Rightarrow> go_error option" where
  "validatePricingIntervals ps =
     first_error 0 (\<lambda>p _. map_option (\<lambda>_. AppErr (BadRequest ''INVALID_PRICING_INTERVALS''
       (''invalid pricing intervals for platform '' @ cp_Platform p))) (ValidateIntervals (cp_Intervals p))) ps"

definition checkBillingModeRequirements :: "ChannelModelPricing \<Rightarrow> go_error option" where
  "checkBillingModeRequirements p =
     (if cp_BillingMode p \<in> {BillingModePerRequest, BillingModeImage} \<and> cp_PerRequestPrice p = None \<and> cp_Intervals p = []
      then Some (AppErr (BadRequest ''BILLING_MODE_MISSING_PRICE''
        ''per-request price or intervals required for per_request/image billing mode''))
      else None)"

definition checkPricesNotNegative :: "ChannelModelPricing \<Rightarrow> go_error option" where
  "checkPricesNotNegative p =
     (case find (\<lambda>c. negative (snd c))
        [(''input_price'', cp_InputPrice p), (''output_price'', cp_OutputPrice p),
         (''cache_write_price'', cp_CacheWritePrice p), (''cache_read_price'', cp_CacheReadPrice p),
         (''image_output_price'', cp_ImageOutputPrice p), (''per_request_price'', cp_PerRequestPrice p)] of
        Some c \<Rightarrow> Some (AppErr (BadRequest ''NEGATIVE_PRICE'' (fst c @ '' must be >= 0'')))
      | None \<Rightarrow> None)"

definition checkIntervalsHavePrices :: "ChannelModelPricing \<Rightarrow> go_error option" where
  "checkIntervalsHavePrices p =
     (if list_ex no_price (cp_Intervals p)
      then Some (AppErr (BadRequest ''INTERVAL_MISSING_PRICE'' ''interval has no price fields set''))
      else None)"

definition or_error :: "go_error option \<Rightarrow> go_error option \<Rightarrow> go_error option" where
  "or_error a b = (case a of Some e \<Rightarrow> Some e | None \<Rightarrow> b)"

definition validatePricingBillingMode :: "ChannelModelPricing list \<Rightarrow> go_error option" where
  "validatePricingBillingMode ps =
     first_error 0 (\<lambda>p _. or_error (checkBillingModeRequirements p)
       (or_error (checkPricesNotNegative p) (checkIntervalsHavePrices p))) ps"

definition validatePricingEntries :: "ChannelModelPricing list \<Rightarrow> go_error option" where
  "validatePricingEntries ps =
     or_error (validateNoConflictingModels ps) (or_error (validatePricingIntervals ps) (validatePricingBillingMode ps))"

definition validateChannelConfig :: "ChannelModelPricing list \<Rightarrow> model_mapping \<Rightarrow> go_error option" where
  "validateChannelConfig ps mapping = or_error (validatePricingEntries ps) (validateNoConflictingMappings mapping)"

end
