(* ===== verification/ChannelService.thy ===== *)
theory ChannelService
  imports Channels BusinessDb
begin

text \<open>
  The channel service: \<open>service/channel_service.go\<close> with the statements of
  \<open>repository/channel_repo.go\<close> and \<open>channel_repo_pricing.go\<close>.

  The service keeps one snapshot of all channels in memory for ten minutes and builds it anew after
  every change. Writing and reading interleave (\<open>Prog\<close>): a write is one transaction, a snapshot takes
  several reads. Requests that build a snapshot at the same time share one build in the code
  (\<open>singleflight\<close>); here each builds its own, which only adds interleavings.
\<close>

section \<open>The snapshot\<close>

record channelCache =
  kc_pricing :: "int \<times> string \<times> string \<Rightarrow> ChannelModelPricing option"
  kc_wildcards :: "int \<times> string \<Rightarrow> (string \<times> ChannelModelPricing) list"
  kc_mapping :: "int \<times> string \<times> string \<Rightarrow> string option"
  kc_wildcardMapping :: "int \<times> string \<Rightarrow> (string \<times> string) list"
  kc_channelByGroup :: "int \<Rightarrow> Channel option"
  kc_groupPlatform :: "int \<Rightarrow> string"
  kc_loadedAt :: gotime

definition newEmptyChannelCache :: "gotime \<Rightarrow> channelCache" where
  "newEmptyChannelCache t =
     \<lparr>kc_pricing = \<lambda>_. None, kc_wildcards = \<lambda>_. [], kc_mapping = \<lambda>_. None, kc_wildcardMapping = \<lambda>_. [],
      kc_channelByGroup = \<lambda>_. None, kc_groupPlatform = \<lambda>_. '''', kc_loadedAt = t\<rparr>"

definition isPlatformPricingMatch :: "string \<Rightarrow> string \<Rightarrow> bool" where
  "isPlatformPricingMatch groupPlatform pricingPlatform \<longleftrightarrow> groupPlatform = pricingPlatform"

definition matchingPlatforms :: "string \<Rightarrow> string list" where
  "matchingPlatforms groupPlatform = [groupPlatform]"

definition add_price :: "int \<Rightarrow> ChannelModelPricing \<Rightarrow> string \<Rightarrow> channelCache \<Rightarrow> channelCache" where
  "add_price gid p model c =
     (if ends_with_star model
      then c\<lparr>kc_wildcards := (kc_wildcards c)((gid, cp_Platform p) :=
              kc_wildcards c (gid, cp_Platform p) @ [(ToLower (trim_star model), p)])\<rparr>
      else c\<lparr>kc_pricing := (kc_pricing c)((gid, cp_Platform p, ToLower model) := Some p)\<rparr>)"

definition expandPricingToCache :: "Channel \<Rightarrow> int \<Rightarrow> string \<Rightarrow> channelCache \<Rightarrow> channelCache" where
  "expandPricingToCache ch gid platform =
     fold (\<lambda>p c. if isPlatformPricingMatch platform (cp_Platform p) then fold (add_price gid p) (cp_Models p) c else c)
       (ch_ModelPricing ch)"

definition add_mapping :: "int \<Rightarrow> string \<Rightarrow> string \<times> string \<Rightarrow> channelCache \<Rightarrow> channelCache" where
  "add_mapping gid platform sd c =
     (if ends_with_star (fst sd)
      then c\<lparr>kc_wildcardMapping := (kc_wildcardMapping c)((gid, platform) :=
              kc_wildcardMapping c (gid, platform) @ [(ToLower (trim_star (fst sd)), snd sd)])\<rparr>
      else c\<lparr>kc_mapping := (kc_mapping c)((gid, platform, ToLower (fst sd)) := Some (snd sd))\<rparr>)"

definition expandMappingToCache :: "Channel \<Rightarrow> int \<Rightarrow> string \<Rightarrow> channelCache \<Rightarrow> channelCache" where
  "expandMappingToCache ch gid platform =
     fold (\<lambda>mp c. case map_of (ch_ModelMapping ch) mp of
         None \<Rightarrow> c | Some m \<Rightarrow> fold (add_mapping gid mp) m c) (matchingPlatforms platform)"

definition add_group :: "(int \<Rightarrow> string) \<Rightarrow> Channel \<Rightarrow> int \<Rightarrow> channelCache \<Rightarrow> channelCache" where
  "add_group groupPlatforms ch gid c =
     expandMappingToCache ch gid (groupPlatforms gid)
       (expandPricingToCache ch gid (groupPlatforms gid)
         (c\<lparr>kc_channelByGroup := (kc_channelByGroup c)(gid := Some ch)\<rparr>))"

definition populateChannelCache :: "Channel list \<Rightarrow> (int \<Rightarrow> string) \<Rightarrow> gotime \<Rightarrow> channelCache" where
  "populateChannelCache channels groupPlatforms now =
     fold (\<lambda>ch. fold (add_group groupPlatforms ch) (ch_GroupIDs ch)) channels
       ((newEmptyChannelCache now)\<lparr>kc_groupPlatform := groupPlatforms\<rparr>)"

text \<open>Lookups: the exact name first, then the wildcards in their order.\<close>

definition matchWildcard :: "channelCache \<Rightarrow> int \<Rightarrow> string \<Rightarrow> string \<Rightarrow> ChannelModelPricing option" where
  "matchWildcard c gid platform modelLower =
     map_option snd (find (\<lambda>w. HasPrefix modelLower (fst w)) (kc_wildcards c (gid, platform)))"

definition matchWildcardMapping :: "channelCache \<Rightarrow> int \<Rightarrow> string \<Rightarrow> string \<Rightarrow> string" where
  "matchWildcardMapping c gid platform modelLower =
     (case find (\<lambda>w. HasPrefix modelLower (fst w)) (kc_wildcardMapping c (gid, platform)) of
        Some w \<Rightarrow> snd w | None \<Rightarrow> '''')"

fun first_some :: "('a \<Rightarrow> 'b option) \<Rightarrow> 'a list \<Rightarrow> 'b option" where
  "first_some f [] = None"
| "first_some f (x # xs) = (case f x of Some y \<Rightarrow> Some y | None \<Rightarrow> first_some f xs)"

definition lookupPricingAcrossPlatforms :: "channelCache \<Rightarrow> int \<Rightarrow> string \<Rightarrow> string \<Rightarrow> ChannelModelPricing option" where
  "lookupPricingAcrossPlatforms c gid groupPlatform modelLower =
     (case first_some (\<lambda>p. kc_pricing c (gid, p, modelLower)) (matchingPlatforms groupPlatform) of
        Some p \<Rightarrow> Some p
      | None \<Rightarrow> first_some (\<lambda>p. matchWildcard c gid p modelLower) (matchingPlatforms groupPlatform))"

definition lookupMappingAcrossPlatforms :: "channelCache \<Rightarrow> int \<Rightarrow> string \<Rightarrow> string \<Rightarrow> string" where
  "lookupMappingAcrossPlatforms c gid groupPlatform modelLower =
     (case first_some (\<lambda>p. kc_mapping c (gid, p, modelLower)) (matchingPlatforms groupPlatform) of
        Some m \<Rightarrow> m
      | None \<Rightarrow> (case first_some (\<lambda>p. let m = matchWildcardMapping c gid p modelLower in if m \<noteq> [] then Some m else None)
            (matchingPlatforms groupPlatform) of Some m \<Rightarrow> m | None \<Rightarrow> ''''))"

record ChannelMappingResult =
  mr_MappedModel :: string
  mr_ChannelID :: int
  mr_Mapped :: bool
  mr_BillingModelSource :: string

definition unmapped :: "string \<Rightarrow> ChannelMappingResult" where
  "unmapped model = \<lparr>mr_MappedModel = model, mr_ChannelID = 0, mr_Mapped = False, mr_BillingModelSource = ''''\<rparr>"

definition lookupGroupChannel :: "channelCache \<Rightarrow> int \<Rightarrow> Channel option" where
  "lookupGroupChannel c gid =
     (case kc_channelByGroup c gid of Some ch \<Rightarrow> if channel_IsActive ch then Some ch else None | None \<Rightarrow> None)"

definition lookup_price :: "channelCache \<Rightarrow> int \<Rightarrow> string \<Rightarrow> ChannelModelPricing option" where
  "lookup_price c gid model =
     (case lookupGroupChannel c gid of None \<Rightarrow> None
      | Some ch \<Rightarrow> lookupPricingAcrossPlatforms c gid (kc_groupPlatform c gid) (ToLower model))"

definition resolveMapping :: "channelCache \<Rightarrow> Channel \<Rightarrow> int \<Rightarrow> string \<Rightarrow> ChannelMappingResult" where
  "resolveMapping c ch gid model =
     (let r = \<lparr>mr_MappedModel = model, mr_ChannelID = ch_ID ch, mr_Mapped = False,
            mr_BillingModelSource = (if ch_BillingModelSource ch = [] then BillingModelSourceChannelMapped
              else ch_BillingModelSource ch)\<rparr>;
          mapped = lookupMappingAcrossPlatforms c gid (kc_groupPlatform c gid) (ToLower model)
      in if mapped \<noteq> [] then r\<lparr>mr_MappedModel := mapped, mr_Mapped := True\<rparr> else r)"

definition checkRestricted :: "channelCache \<Rightarrow> Channel \<Rightarrow> int \<Rightarrow> string \<Rightarrow> bool" where
  "checkRestricted c ch gid model \<longleftrightarrow> ch_RestrictModels ch \<and>
     lookupPricingAcrossPlatforms c gid (kc_groupPlatform c gid) (ToLower model) = None"

definition arrow :: string where "arrow = [CHR 0xE2, CHR 0x86, CHR 0x92]"

definition BuildModelMappingChain :: "ChannelMappingResult \<Rightarrow> string \<Rightarrow> string \<Rightarrow> string" where
  "BuildModelMappingChain r reqModel upstreamModel =
     (if \<not> mr_Mapped r
      then if upstreamModel \<noteq> [] \<and> upstreamModel \<noteq> reqModel then reqModel @ arrow @ upstreamModel else ''''
      else if upstreamModel \<noteq> [] \<and> upstreamModel \<noteq> mr_MappedModel r
      then reqModel @ arrow @ mr_MappedModel r @ arrow @ upstreamModel
      else reqModel @ arrow @ mr_MappedModel r)"

record ChannelUsageFields =
  uf_ChannelID :: int
  uf_OriginalModel :: string
  uf_ChannelMappedModel :: string
  uf_BillingModelSource :: string
  uf_ModelMappingChain :: string

definition ToUsageFields :: "ChannelMappingResult \<Rightarrow> string \<Rightarrow> string \<Rightarrow> ChannelUsageFields" where
  "ToUsageFields r reqModel upstreamModel =
     \<lparr>uf_ChannelID = mr_ChannelID r, uf_OriginalModel = reqModel,
      uf_ChannelMappedModel = (if mr_Mapped r then mr_MappedModel r else reqModel),
      uf_BillingModelSource = mr_BillingModelSource r,
      uf_ModelMappingChain = BuildModelMappingChain r reqModel upstreamModel\<rparr>"

section \<open>The tables\<close>

record channel_world =
  kw_channels :: "Channel list"
  kw_platforms :: "(int \<times> string) list"
  kw_next :: int
  kw_now :: gotime
  kw_cache :: "channelCache option"
  kw_faults :: "outcome list"

type_synonym 'a kprog = "(channel_world, 'a) prog"

definition ErrChannelNotFound :: go_error where
  "ErrChannelNotFound = AppErr (NotFound ''CHANNEL_NOT_FOUND'' ''channel not found'')"
definition ErrChannelExists :: go_error where
  "ErrChannelExists = AppErr (Conflict ''CHANNEL_EXISTS'' ''channel name already exists'')"
definition ErrGroupAlreadyInChannel :: go_error where
  "ErrGroupAlreadyInChannel = AppErr (Conflict ''GROUP_ALREADY_IN_CHANNEL''
     ''one or more groups already belong to another channel'')"

text \<open>A statement or transaction on the tables, and a query.\<close>

definition channel_stmt :: "(channel_world \<Rightarrow> (go_error + 'r) \<times> channel_world) \<Rightarrow>
    (go_error + 'r \<Rightarrow> 'a kprog) \<Rightarrow> 'a kprog" where
  "channel_stmt f k = atomically (\<lambda>w.
     case kw_faults w of
       [] \<Rightarrow> f w
     | oc # ocs \<Rightarrow> let w1 = w\<lparr>kw_faults := ocs\<rparr> in
         (case oc of
            Works \<Rightarrow> f w1
          | Fails \<Rightarrow> (Inl ErrDatabase, w1)
          | Unacked \<Rightarrow> (Inl ErrDatabase, snd (f w1)))) k"

definition channel_query :: "(channel_world \<Rightarrow> 'r) \<Rightarrow> (go_error + 'r \<Rightarrow> 'a kprog) \<Rightarrow> 'a kprog" where
  "channel_query f k = channel_stmt (\<lambda>w. (Inr (f w), w)) k"

definition groups_of :: "channel_world \<Rightarrow> int \<Rightarrow> int list" where
  "groups_of w i = (case find (\<lambda>c. ch_ID c = i) (kw_channels w) of Some c \<Rightarrow> ch_GroupIDs c | None \<Rightarrow> [])"

definition pricing_of :: "channel_world \<Rightarrow> int \<Rightarrow> ChannelModelPricing list" where
  "pricing_of w i = (case find (\<lambda>c. ch_ID c = i) (kw_channels w) of Some c \<Rightarrow> ch_ModelPricing c | None \<Rightarrow> [])"

definition rules_of :: "channel_world \<Rightarrow> int \<Rightarrow> AccountStatsPricingRule list" where
  "rules_of w i = (case find (\<lambda>c. ch_ID c = i) (kw_channels w) of Some c \<Rightarrow> ch_AccountStatsPricingRules c | None \<Rightarrow> [])"

text \<open>
  What is stored, as it is read again: platform and billing mode have defaults, groups, intervals and
  rules come back in their order. (Only the prices of a channel have a default platform.)
\<close>

definition stored_pricing :: "ChannelModelPricing \<Rightarrow> ChannelModelPricing" where
  "stored_pricing p = p\<lparr>cp_Platform := (if cp_Platform p = [] then ''anthropic'' else cp_Platform p),
     cp_BillingMode := (if cp_BillingMode p = [] then BillingModeToken else cp_BillingMode p),
     cp_Intervals := sort_key iv_SortOrder (cp_Intervals p)\<rparr>"

definition stored_rule_pricing :: "ChannelModelPricing \<Rightarrow> ChannelModelPricing" where
  "stored_rule_pricing p = p\<lparr>
     cp_BillingMode := (if cp_BillingMode p = [] then BillingModeToken else cp_BillingMode p),
     cp_Intervals := sort_key iv_SortOrder (cp_Intervals p)\<rparr>"

definition stored_rules :: "AccountStatsPricingRule list \<Rightarrow> AccountStatsPricingRule list" where
  "stored_rules rules = sort_key asr_SortOrder
     (map (\<lambda>r. r\<lparr>asr_Pricing := map stored_rule_pricing (asr_Pricing r)\<rparr>) rules)"

definition groups_free :: "channel_world \<Rightarrow> int \<Rightarrow> int list \<Rightarrow> bool" where
  "groups_free w i gids \<longleftrightarrow> distinct gids \<and> set gids \<subseteq> fst ` set (kw_platforms w) \<and>
     (\<forall>c \<in> set (kw_channels w). ch_ID c \<noteq> i \<longrightarrow> set gids \<inter> set (ch_GroupIDs c) = {})"

definition ErrGroupAssociations :: go_error where
  "ErrGroupAssociations = WrapErr ''insert group associations'' ErrUnique"

definition repo_Create :: "Channel \<Rightarrow> channel_world \<Rightarrow> (go_error + int) \<times> channel_world" where
  "repo_Create ch w =
     (if list_ex (\<lambda>c. ch_Name c = ch_Name ch) (kw_channels w) then (Inl ErrChannelExists, w)
      else if \<not> groups_free w (kw_next w) (ch_GroupIDs ch) then (Inl ErrGroupAssociations, w)
      else (Inr (kw_next w), w\<lparr>kw_next := kw_next w + 1,
             kw_channels := kw_channels w @ [ch\<lparr>ch_ID := kw_next w, ch_GroupIDs := sort (ch_GroupIDs ch),
               ch_ModelPricing := map stored_pricing (ch_ModelPricing ch),
               ch_AccountStatsPricingRules := stored_rules (ch_AccountStatsPricingRules ch)\<rparr>]\<rparr>))"

text \<open>Lists that were empty when the channel was read and are not given anew are \<open>nil\<close>: they are kept.\<close>

definition repo_Update :: "Channel \<Rightarrow> bool \<Rightarrow> bool \<Rightarrow> bool \<Rightarrow> channel_world \<Rightarrow> (go_error + unit) \<times> channel_world" where
  "repo_Update ch set_groups set_pricing set_rules w =
     (if \<not> list_ex (\<lambda>c. ch_ID c = ch_ID ch) (kw_channels w) then (Inl ErrChannelNotFound, w)
      else if list_ex (\<lambda>c. ch_ID c \<noteq> ch_ID ch \<and> ch_Name c = ch_Name ch) (kw_channels w) then (Inl ErrChannelExists, w)
      else if set_groups \<and> \<not> groups_free w (ch_ID ch) (ch_GroupIDs ch) then (Inl ErrGroupAssociations, w)
      else (Inr (), w\<lparr>kw_channels := map (\<lambda>c. if ch_ID c = ch_ID ch
          then ch\<lparr>ch_GroupIDs := (if set_groups then sort (ch_GroupIDs ch) else ch_GroupIDs c),
              ch_ModelPricing := (if set_pricing then map stored_pricing (ch_ModelPricing ch) else ch_ModelPricing c),
              ch_AccountStatsPricingRules := (if set_rules then stored_rules (ch_AccountStatsPricingRules ch)
                else ch_AccountStatsPricingRules c)\<rparr>
          else c) (kw_channels w)\<rparr>))"

definition repo_Delete :: "int \<Rightarrow> channel_world \<Rightarrow> (go_error + unit) \<times> channel_world" where
  "repo_Delete i w =
     (if list_ex (\<lambda>c. ch_ID c = i) (kw_channels w)
      then (Inr (), w\<lparr>kw_channels := filter (\<lambda>c. ch_ID c \<noteq> i) (kw_channels w)\<rparr>)
      else (Inl ErrChannelNotFound, w))"

definition repo_GetByID :: "int \<Rightarrow> (go_error + Channel \<Rightarrow> 'a kprog) \<Rightarrow> 'a kprog" where
  "repo_GetByID i k =
     channel_query (\<lambda>w. find (\<lambda>c. ch_ID c = i) (kw_channels w)) (\<lambda>r. case r of
         Inl e \<Rightarrow> k (Inl (WrapErr ''get channel'' e))
       | Inr None \<Rightarrow> k (Inl ErrChannelNotFound)
       | Inr (Some ch) \<Rightarrow> channel_query (\<lambda>w. groups_of w i) (\<lambda>r. case r of
           Inl e \<Rightarrow> k (Inl (WrapErr ''get group ids'' e))
         | Inr gids \<Rightarrow> channel_query (\<lambda>w. pricing_of w i) (\<lambda>r. case r of
             Inl e \<Rightarrow> k (Inl (WrapErr ''list model pricing'' e))
           | Inr ps \<Rightarrow> channel_query (\<lambda>w. rules_of w i) (\<lambda>r. case r of
               Inl e \<Rightarrow> k (Inl (WrapErr ''batch load account stats pricing rules'' e))
             | Inr rules \<Rightarrow> k (Inr (ch\<lparr>ch_GroupIDs := gids, ch_ModelPricing := ps, ch_AccountStatsPricingRules := rules\<rparr>))))))"

definition repo_ListAll :: "(go_error + Channel list \<Rightarrow> 'a kprog) \<Rightarrow> 'a kprog" where
  "repo_ListAll k =
     channel_query kw_channels (\<lambda>r. case r of
         Inl e \<Rightarrow> k (Inl (WrapErr ''query all channels'' e))
       | Inr chs \<Rightarrow>
           if chs = [] then k (Inr [])
           else channel_query groups_of (\<lambda>r. case r of
             Inl e \<Rightarrow> k (Inl (WrapErr ''batch load group ids'' e))
           | Inr gs \<Rightarrow> channel_query pricing_of (\<lambda>r. case r of
               Inl e \<Rightarrow> k (Inl (WrapErr ''batch load model pricing'' e))
             | Inr ps \<Rightarrow> channel_query rules_of (\<lambda>r. case r of
                 Inl e \<Rightarrow> k (Inl (WrapErr ''batch load account stats pricing rules'' e))
               | Inr rs \<Rightarrow> k (Inr (map (\<lambda>c. c\<lparr>ch_GroupIDs := gs (ch_ID c), ch_ModelPricing := ps (ch_ID c),
                     ch_AccountStatsPricingRules := rs (ch_ID c)\<rparr>) chs))))))"

definition platform_of :: "(int \<times> string) list \<Rightarrow> int \<Rightarrow> string" where
  "platform_of ps gid = (case map_of ps gid of Some p \<Rightarrow> p | None \<Rightarrow> '''')"

section \<open>Loading the snapshot\<close>

definition channelCacheTTL :: duration where "channelCacheTTL = 10 * time_Minute"
definition channelErrorTTL :: duration where "channelErrorTTL = 5 * time_Second"

definition store_cache :: "(gotime \<Rightarrow> channelCache) \<Rightarrow> (channelCache \<Rightarrow> 'a kprog) \<Rightarrow> 'a kprog" where
  "store_cache mk k = atomically (\<lambda>w. (mk (kw_now w), w\<lparr>kw_cache := Some (mk (kw_now w))\<rparr>)) k"

definition storeErrorCache :: "'a kprog \<Rightarrow> 'a kprog" where
  "storeErrorCache k = store_cache (\<lambda>now. newEmptyChannelCache (now - (channelCacheTTL - channelErrorTTL))) (\<lambda>_. k)"

definition fetchChannelData :: "(go_error + Channel list \<times> (int \<Rightarrow> string) \<Rightarrow> 'a kprog) \<Rightarrow> 'a kprog" where
  "fetchChannelData k =
     repo_ListAll (\<lambda>r. case r of
         Inl e \<Rightarrow> storeErrorCache (k (Inl (WrapErr ''list all channels'' e)))
       | Inr chs \<Rightarrow>
           if concat (map ch_GroupIDs chs) = [] then k (Inr (chs, \<lambda>_. ''''))
           else channel_query (\<lambda>w. platform_of (kw_platforms w)) (\<lambda>r. case r of
               Inl e \<Rightarrow> storeErrorCache (k (Inl (WrapErr ''get group platforms'' e)))
             | Inr ps \<Rightarrow> k (Inr (chs, \<lambda>g. if g \<in> set (concat (map ch_GroupIDs chs)) then ps g else ''''))))"

definition buildCache :: "(go_error + channelCache \<Rightarrow> 'a kprog) \<Rightarrow> 'a kprog" where
  "buildCache k =
     fetchChannelData (\<lambda>r. case r of
         Inl e \<Rightarrow> k (Inl e)
       | Inr (chs, ps) \<Rightarrow> store_cache (populateChannelCache chs ps) (\<lambda>c. k (Inr c)))"

definition fresh_cache :: "channel_world \<Rightarrow> channelCache option" where
  "fresh_cache w = (case kw_cache w of
     Some c \<Rightarrow> if kw_now w - kc_loadedAt c < channelCacheTTL then Some c else None | None \<Rightarrow> None)"

definition loadCache :: "(go_error + channelCache \<Rightarrow> 'a kprog) \<Rightarrow> 'a kprog" where
  "loadCache k =
     reading fresh_cache (\<lambda>c. case c of
         Some c \<Rightarrow> k (Inr c)
       | None \<Rightarrow> reading fresh_cache (\<lambda>c. case c of Some c \<Rightarrow> k (Inr c) | None \<Rightarrow> buildCache k))"

definition invalidateCache :: "'a kprog \<Rightarrow> 'a kprog" where
  "invalidateCache k = atomically (\<lambda>w. ((), w\<lparr>kw_cache := None\<rparr>)) (\<lambda>_. buildCache (\<lambda>_. k))"

section \<open>Requests\<close>

definition GetChannelForGroup :: "int \<Rightarrow> (go_error + Channel option \<Rightarrow> 'a kprog) \<Rightarrow> 'a kprog" where
  "GetChannelForGroup gid k =
     loadCache (\<lambda>r. case r of Inl e \<Rightarrow> k (Inl e) | Inr c \<Rightarrow> k (Inr (lookupGroupChannel c gid)))"

definition GetGroupPlatform :: "int \<Rightarrow> (string \<Rightarrow> 'a kprog) \<Rightarrow> 'a kprog" where
  "GetGroupPlatform gid k = loadCache (\<lambda>r. case r of Inl _ \<Rightarrow> k '''' | Inr c \<Rightarrow> k (kc_groupPlatform c gid))"

definition GetChannelModelPricing :: "int \<Rightarrow> string \<Rightarrow> (ChannelModelPricing option \<Rightarrow> 'a kprog) \<Rightarrow> 'a kprog" where
  "GetChannelModelPricing gid model k =
     loadCache (\<lambda>r. case r of Inl _ \<Rightarrow> k None | Inr c \<Rightarrow> k (lookup_price c gid model))"

definition ResolveChannelMapping :: "int \<Rightarrow> string \<Rightarrow> (ChannelMappingResult \<Rightarrow> 'a kprog) \<Rightarrow> 'a kprog" where
  "ResolveChannelMapping gid model k =
     loadCache (\<lambda>r. case r of
         Inl _ \<Rightarrow> k (unmapped model)
       | Inr c \<Rightarrow> k (case lookupGroupChannel c gid of None \<Rightarrow> unmapped model | Some ch \<Rightarrow> resolveMapping c ch gid model))"

definition IsModelRestricted :: "int \<Rightarrow> string \<Rightarrow> (bool \<Rightarrow> 'a kprog) \<Rightarrow> 'a kprog" where
  "IsModelRestricted gid model k =
     loadCache (\<lambda>r. case r of
         Inl _ \<Rightarrow> k False
       | Inr c \<Rightarrow> k (case lookupGroupChannel c gid of None \<Rightarrow> False | Some ch \<Rightarrow> checkRestricted c ch gid model))"

section \<open>Changing channels\<close>

definition rules_error :: "AccountStatsPricingRule list \<Rightarrow> go_error option" where
  "rules_error rules = first_error 0 (\<lambda>r i. map_option
     (WrapErr (''account stats pricing rule #'' @ itoa (int i + 1))) (validatePricingEntries (asr_Pricing r))) rules"

definition config_error :: "Channel \<Rightarrow> go_error option" where
  "config_error ch = or_error (validateChannelConfig (ch_ModelPricing ch) (ch_ModelMapping ch))
     (rules_error (ch_AccountStatsPricingRules ch))"

definition checkGroupConflicts :: "int \<Rightarrow> int list \<Rightarrow> (go_error option \<Rightarrow> 'a kprog) \<Rightarrow> 'a kprog" where
  "checkGroupConflicts i gids k =
     (if gids = [] then k None
      else channel_query (\<lambda>w. \<exists>c \<in> set (kw_channels w). ch_ID c \<noteq> i \<and> set gids \<inter> set (ch_GroupIDs c) \<noteq> {}) (\<lambda>r. case r of
          Inl e \<Rightarrow> k (Some (WrapErr ''check group conflicts'' e))
        | Inr conflict \<Rightarrow> k (if conflict then Some ErrGroupAlreadyInChannel else None)))"

definition channel_Create :: "Channel \<Rightarrow> (channel_world, go_error + Channel) prog" where
  "channel_Create input =
     channel_query (\<lambda>w. list_ex (\<lambda>c. ch_Name c = ch_Name input) (kw_channels w)) (\<lambda>r. case r of
         Inl e \<Rightarrow> Return (Inl (WrapErr ''check channel exists'' e))
       | Inr True \<Rightarrow> Return (Inl ErrChannelExists)
       | Inr False \<Rightarrow> checkGroupConflicts 0 (ch_GroupIDs input) (\<lambda>r. case r of
           Some e \<Rightarrow> Return (Inl e)
         | None \<Rightarrow>
             let channel = input\<lparr>ch_Status := ''active'', ch_BillingModelSource :=
                   (if ch_BillingModelSource input = [] then BillingModelSourceChannelMapped else ch_BillingModelSource input)\<rparr>
             in (case config_error channel of
                 Some e \<Rightarrow> Return (Inl e)
               | None \<Rightarrow> channel_stmt (repo_Create channel) (\<lambda>r. case r of
                     Inl e \<Rightarrow> Return (Inl (WrapErr ''create channel'' e))
                   | Inr i \<Rightarrow> invalidateCache (repo_GetByID i Return)))))"

record UpdateChannelInput =
  uc_Name :: string
  uc_Status :: string
  uc_GroupIDs :: "int list option"
  uc_ModelPricing :: "ChannelModelPricing list option"
  uc_ModelMapping :: "model_mapping option"
  uc_BillingModelSource :: string
  uc_RestrictModels :: "bool option"
  uc_ApplyPricingToAccountStats :: "bool option"
  uc_AccountStatsPricingRules :: "AccountStatsPricingRule list option"

definition given :: "'a option \<Rightarrow> 'a \<Rightarrow> 'a" where
  "given x y = (case x of Some z \<Rightarrow> z | None \<Rightarrow> y)"

definition given_text :: "string \<Rightarrow> string \<Rightarrow> string" where
  "given_text x y = (if x \<noteq> [] then x else y)"

definition updated_channel :: "UpdateChannelInput \<Rightarrow> Channel \<Rightarrow> Channel" where
  "updated_channel input ch = ch\<lparr>
     ch_Name := given_text (uc_Name input) (ch_Name ch),
     ch_Status := given_text (uc_Status input) (ch_Status ch),
     ch_RestrictModels := given (uc_RestrictModels input) (ch_RestrictModels ch),
     ch_GroupIDs := given (uc_GroupIDs input) (ch_GroupIDs ch),
     ch_ModelPricing := given (uc_ModelPricing input) (ch_ModelPricing ch),
     ch_ModelMapping := given (uc_ModelMapping input) (ch_ModelMapping ch),
     ch_BillingModelSource := given_text (uc_BillingModelSource input) (ch_BillingModelSource ch),
     ch_ApplyPricingToAccountStats := given (uc_ApplyPricingToAccountStats input) (ch_ApplyPricingToAccountStats ch),
     ch_AccountStatsPricingRules := given (uc_AccountStatsPricingRules input) (ch_AccountStatsPricingRules ch)\<rparr>"

definition applyUpdateInput :: "UpdateChannelInput \<Rightarrow> Channel \<Rightarrow> (go_error + Channel \<Rightarrow> 'a kprog) \<Rightarrow> 'a kprog" where
  "applyUpdateInput input ch k =
     (let groups = (case uc_GroupIDs input of
            None \<Rightarrow> k (Inr (updated_channel input ch))
          | Some gids \<Rightarrow> checkGroupConflicts (ch_ID ch) gids (\<lambda>r. case r of
                Some e \<Rightarrow> k (Inl e) | None \<Rightarrow> k (Inr (updated_channel input ch))))
      in if uc_Name input \<noteq> [] \<and> uc_Name input \<noteq> ch_Name ch
         then channel_query (\<lambda>w. list_ex (\<lambda>c. ch_Name c = uc_Name input \<and> ch_ID c \<noteq> ch_ID ch) (kw_channels w)) (\<lambda>r. case r of
             Inl e \<Rightarrow> k (Inl (WrapErr ''check channel exists'' e))
           | Inr True \<Rightarrow> k (Inl ErrChannelExists)
           | Inr False \<Rightarrow> groups)
         else groups)"

definition channel_Update :: "int \<Rightarrow> UpdateChannelInput \<Rightarrow> (channel_world, go_error + Channel) prog" where
  "channel_Update i input =
     repo_GetByID i (\<lambda>r. case r of
         Inl e \<Rightarrow> Return (Inl (WrapErr ''get channel'' e))
       | Inr old \<Rightarrow> applyUpdateInput input old (\<lambda>r. case r of
           Inl e \<Rightarrow> Return (Inl e)
         | Inr ch \<Rightarrow> (case config_error ch of
               Some e \<Rightarrow> Return (Inl e)
             | None \<Rightarrow> channel_query (\<lambda>w. groups_of w i) (\<lambda>_. channel_stmt (repo_Update ch
                   (uc_GroupIDs input \<noteq> None \<or> ch_GroupIDs old \<noteq> [])
                   (uc_ModelPricing input \<noteq> None \<or> ch_ModelPricing old \<noteq> [])
                   (uc_AccountStatsPricingRules input \<noteq> None \<or> ch_AccountStatsPricingRules old \<noteq> [])) (\<lambda>r. case r of
                   Inl e \<Rightarrow> Return (Inl (WrapErr ''update channel'' e))
                 | Inr _ \<Rightarrow> invalidateCache (repo_GetByID i Return))))))"

definition channel_Delete :: "int \<Rightarrow> (channel_world, go_error + unit) prog" where
  "channel_Delete i =
     channel_query (\<lambda>w. groups_of w i) (\<lambda>_. channel_stmt (repo_Delete i) (\<lambda>r. case r of
         Inl e \<Rightarrow> Return (Inl (WrapErr ''delete channel'' e))
       | Inr _ \<Rightarrow> invalidateCache (Return (Inr ()))))"

end
