(* ===== verification/ChannelProps.thy ===== *)
theory ChannelProps
  imports ChannelService "HOL-Library.Multiset"
begin

text \<open>
  What holds of channels (\<open>Channels\<close>, \<open>ChannelService\<close>): the validation is exact, the hash maps of the
  snapshot answer like a search through the configuration, every interleaving of requests and changes
  keeps the tables valid, and what a database error or an unlucky reader does to the snapshot.
\<close>

section \<open>Patterns\<close>

definition pattern_matches :: "modelEntry \<Rightarrow> string \<Rightarrow> bool" where
  "pattern_matches e m \<longleftrightarrow> (if me_wildcard e then HasPrefix m (me_prefix e) else m = me_prefix e)"

text \<open>
  The conflict check is exact: two patterns conflict if and only if some model matches both.
\<close>

theorem conflict_iff_overlap:
  "conflictsBetween a b \<longleftrightarrow> (\<exists>m. pattern_matches a m \<and> pattern_matches b m)"
  unfolding conflictsBetween_def pattern_matches_def HasPrefix_def
  by (cases "me_wildcard a"; cases "me_wildcard b")
    (auto dest: prefix_same_cases intro: exI [of _ "me_prefix a"] exI [of _ "me_prefix b"])

lemma detectConflicts_None:
  "detectConflicts pl c l es = None \<longleftrightarrow> sorted_wrt (\<lambda>a b. \<not> conflictsBetween a b) es"
  by (induction es) (auto simp: find_None_iff find_Some_iff split: option.splits)

lemma first_error_None: "first_error i f xs = None \<longleftrightarrow> (\<forall>j < length xs. f (xs ! j) (i + j) = None)"
proof (induction xs arbitrary: i)
  case (Cons x xs)
  show ?case by (auto simp: Cons All_less_Suc2 split: option.splits)
qed simp

lemma first_error_all: "first_error i (\<lambda>x _. f x) xs = None \<longleftrightarrow> (\<forall>x \<in> set xs. f x = None)"
  by (simp add: first_error_None all_set_conv_all_nth)

lemma no_conflicting_models:
  assumes "validateNoConflictingModels ps = None"
  shows "sorted_wrt (\<lambda>a b. \<not> conflictsBetween a b) (entries_of ps platform)"
proof (cases "platform \<in> set (map cp_Platform ps)")
  case True
  then show ?thesis
    using assms by (auto simp: validateNoConflictingModels_def first_error_all detectConflicts_None)
next
  case False
  then have "filter (\<lambda>p. cp_Platform p = platform) ps = []" by (auto simp: filter_empty_conv)
  then show ?thesis by (simp add: entries_of_def)
qed

section \<open>Intervals\<close>

definition disjoint_intervals :: "PricingInterval \<Rightarrow> PricingInterval \<Rightarrow> bool" where
  "disjoint_intervals a b \<longleftrightarrow> (\<forall>n. \<not> (interval_matches n a \<and> interval_matches n b))"

definition upper_le :: "PricingInterval \<Rightarrow> PricingInterval \<Rightarrow> bool" where
  "upper_le a b \<longleftrightarrow> (case iv_MaxTokens a of None \<Rightarrow> False | Some m \<Rightarrow> m \<le> iv_MinTokens b)"

lemma upper_le_disjoint: "upper_le a b \<Longrightarrow> disjoint_intervals a b"
  by (auto simp: upper_le_def disjoint_intervals_def interval_matches_def split: option.splits)

lemma overlap_None:
  "validateIntervalOverlap p i ivs = None \<Longrightarrow> sorted_wrt (\<lambda>a b. iv_MinTokens a \<le> iv_MinTokens b) (case_option [] (\<lambda>x. [x]) p @ ivs) \<Longrightarrow>
    sorted_wrt upper_le (case_option [] (\<lambda>x. [x]) p @ ivs)"
proof (induction p i ivs rule: validateIntervalOverlap.induct)
  case (2 prev i iv ivs)
  show ?case
  proof (cases prev)
    case None
    then show ?thesis using 2 by (auto split: if_splits)
  next
    case (Some p)
    have "validateIntervalOverlap (Some iv) (Suc i) ivs = None" "upper_le p iv"
      using 2(3) Some by (auto simp: upper_le_def split: if_splits option.splits)
    then have "sorted_wrt upper_le (iv # ivs)" "upper_le p iv"
      using 2(2,4) 2(3) Some by (auto split: if_splits option.splits)
    moreover have "upper_le p x" if "x \<in> set ivs" for x
      using \<open>upper_le p iv\<close> that 2(4) Some by (auto simp: upper_le_def split: option.splits)
    ultimately show ?thesis using Some by simp
  qed
qed (auto split: option.splits)

lemma sorted_key_wrt: "sorted (map f xs) \<Longrightarrow> sorted_wrt (\<lambda>a b. f a \<le> f b) xs"
  by (simp add: sorted_wrt_map)

lemma validated_sorted:
  assumes "ValidateIntervals ivs = None"
  shows "sorted_wrt disjoint_intervals (sort_key iv_MinTokens ivs)"
proof -
  have "validateIntervalOverlap None 0 (sort_key iv_MinTokens ivs) = None"
    using assms by (auto simp: ValidateIntervals_def Let_def split: option.splits)
  then have "sorted_wrt upper_le (sort_key iv_MinTokens ivs)"
    using overlap_None [of None 0 "sort_key iv_MinTokens ivs"] sorted_key_wrt [of iv_MinTokens "sort_key iv_MinTokens ivs"]
    by simp
  then show ?thesis by (rule sorted_wrt_mono_rel [rotated]) (simp add: upper_le_disjoint)
qed

lemma pairwise_filter:
  assumes "sorted_wrt (\<lambda>a b. \<not> (P a \<and> P b)) xs"
  shows "length (filter P xs) \<le> 1"
  using assms
proof (induction xs)
  case (Cons x xs)
  then have "P x \<Longrightarrow> filter P xs = []" by (auto simp: filter_empty_conv)
  then show ?case using Cons by (cases "P x") auto
qed simp

lemma find_filter: "find P xs = (case filter P xs of [] \<Rightarrow> None | x # _ \<Rightarrow> Some x)"
  by (induction xs) auto

lemma find_perm:
  assumes "mset xs = mset ys" "length (filter P xs) \<le> 1"
  shows "find P xs = find P ys"
proof -
  have m: "mset (filter P ys) = mset (filter P xs)" using assms(1) by simp
  have "filter P ys = filter P xs"
  proof (cases "filter P xs")
    case Nil
    then show ?thesis using m by (simp only: mset_zero_iff mset.simps)
  next
    case (Cons a as)
    then have c: "filter P xs = [a]" using assms(2) by (cases as) simp_all
    then have "mset (filter P ys) = {#a#}" using m by simp
    then show ?thesis unfolding c by (simp only: mset_single_iff)
  qed
  then show ?thesis by (simp add: find_filter)
qed

text \<open>
  Accepted intervals do not overlap: at most one of them matches a number of tokens, so the price
  does not depend on the order in which they are stored or read back.
\<close>

theorem accepted_intervals_any_order:
  assumes "ValidateIntervals ivs = None" "mset ivs = mset ivs'"
  shows "FindMatchingInterval ivs' n = FindMatchingInterval ivs n \<and> length (filter (interval_matches n) ivs) \<le> 1"
proof -
  have "sorted_wrt (\<lambda>a b. \<not> (interval_matches n a \<and> interval_matches n b)) (sort_key iv_MinTokens ivs)"
    using validated_sorted [OF assms(1)] by (rule sorted_wrt_mono_rel [rotated]) (simp add: disjoint_intervals_def)
  then have s: "length (filter (interval_matches n) (sort_key iv_MinTokens ivs)) \<le> 1" by (rule pairwise_filter)
  have "mset (filter (interval_matches n) (sort_key iv_MinTokens ivs)) = mset (filter (interval_matches n) ivs)"
    by (simp add: mset_filter)
  then have one: "length (filter (interval_matches n) ivs) \<le> 1" using s by (metis mset_eq_length)
  have "find (interval_matches n) ivs = find (interval_matches n) ivs'" by (rule find_perm [OF assms(2) one])
  then show ?thesis using one by (simp add: FindMatchingInterval_def)
qed

section \<open>The snapshot\<close>

lemma ascii_lower_star [simp]: "ascii_lower c = star \<longleftrightarrow> c = star"
proof -
  have s: "c = star \<longleftrightarrow> of_char c = (42 :: nat)" for c
    unfolding of_char_eq_iff [where 'a = nat, symmetric] star_def by simp
  show ?thesis unfolding s by (auto simp: ascii_lower_def Let_def split: if_splits)
qed

lemma ends_with_star_lower [simp]: "ends_with_star (ToLower s) = ends_with_star s"
  by (cases "s = []") (simp_all add: ends_with_star_def ToLower_def last_map)

lemma trim_star_lower: "trim_star (ToLower s) = ToLower (trim_star s)"
  by (simp add: trim_star_def map_butlast) (simp add: ToLower_def map_butlast)

lemma entry_simps:
  "me_wildcard (toModelEntry s) = ends_with_star s"
  "me_prefix (toModelEntry s) = (if ends_with_star s then ToLower (trim_star s) else ToLower s)"
  by (simp_all add: toModelEntry_def Let_def trim_star_lower)

text \<open>All names and patterns of a platform with their entries, in the order of the configuration.\<close>

definition price_list :: "string \<Rightarrow> ChannelModelPricing list \<Rightarrow> (string \<times> ChannelModelPricing) list" where
  "price_list platform ps =
     concat (map (\<lambda>p. map (\<lambda>m. (m, p)) (cp_Models p)) (filter (\<lambda>p. cp_Platform p = platform) ps))"

definition exact_of :: "(string \<times> 'a) list \<Rightarrow> (string \<times> 'a) list" where
  "exact_of xs = map (\<lambda>(m, p). (ToLower m, p)) (filter (\<lambda>x. \<not> ends_with_star (fst x)) xs)"

definition wild_of :: "(string \<times> 'a) list \<Rightarrow> (string \<times> 'a) list" where
  "wild_of xs = map (\<lambda>(m, p). (ToLower (trim_star m), p)) (filter (\<lambda>x. ends_with_star (fst x)) xs)"

text \<open>What the loops put under one group and platform.\<close>

lemma add_price_cache:
  "kc_channelByGroup (add_price gid p m c) = kc_channelByGroup c"
  "kc_groupPlatform (add_price gid p m c) = kc_groupPlatform c"
  "kc_mapping (add_price gid p m c) = kc_mapping c"
  "kc_wildcardMapping (add_price gid p m c) = kc_wildcardMapping c"
  "kc_wildcards (add_price gid p m c) (g, pl) =
     kc_wildcards c (g, pl) @ (if g = gid \<and> pl = cp_Platform p then wild_of [(m, p)] else [])"
  "kc_pricing (add_price gid p m c) (g, pl, n) =
     (if g = gid \<and> pl = cp_Platform p then (case map_of (exact_of [(m, p)]) n of Some q \<Rightarrow> Some q | None \<Rightarrow> kc_pricing c (g, pl, n))
      else kc_pricing c (g, pl, n))"
  by (auto simp: add_price_def exact_of_def wild_of_def)

lemma exact_of_append [simp]: "exact_of (xs @ ys) = exact_of xs @ exact_of ys"
  by (simp add: exact_of_def)

lemma wild_of_append [simp]: "wild_of (xs @ ys) = wild_of xs @ wild_of ys"
  by (simp add: wild_of_def)

lemma of_Nil [simp]: "exact_of [] = []" "wild_of [] = []"
  by (simp_all add: exact_of_def wild_of_def)

text \<open>One group and platform of two snapshots, before and after \<open>xs\<close> has been added.\<close>

definition extends :: "int \<Rightarrow> string \<Rightarrow> (string \<times> ChannelModelPricing) list \<Rightarrow> channelCache \<Rightarrow> channelCache \<Rightarrow> bool" where
  "extends g pl xs c d \<longleftrightarrow> kc_wildcards d (g, pl) = kc_wildcards c (g, pl) @ wild_of xs \<and>
     (\<forall>n. kc_pricing d (g, pl, n) = (case map_of (rev (exact_of xs)) n of Some q \<Rightarrow> Some q | None \<Rightarrow> kc_pricing c (g, pl, n)))"

lemma extends_Nil [simp]: "extends g pl [] c c"
  by (simp add: extends_def)

lemma extends_trans: "extends g pl xs c d \<Longrightarrow> extends g pl ys d e \<Longrightarrow> extends g pl (xs @ ys) c e"
  by (auto simp: extends_def map_add_def split: option.splits)

lemma extends_add_price:
  "extends g pl (if g = gid \<and> pl = cp_Platform p then [(m, p)] else []) c (add_price gid p m c)"
  by (auto simp: extends_def add_price_cache exact_of_def split: option.split)

lemma extends_models:
  "extends g pl (if g = gid \<and> pl = cp_Platform p then map (\<lambda>m. (m, p)) ms else []) c (fold (add_price gid p) ms c)"
proof (induction ms arbitrary: c)
  case (Cons m ms)
  show ?case
    using extends_trans [OF extends_add_price [where g = g and gid = gid and pl = pl and p = p and m = m and c = c] Cons.IH [of "add_price gid p m c"]]
    by (cases "g = gid \<and> pl = cp_Platform p") auto
qed simp

lemma extends_pricing:
  "extends g pl (if g = gid \<and> pl = platform then price_list platform (ch_ModelPricing ch) else []) c
     (expandPricingToCache ch gid platform c)"
proof -
  let ?step = "\<lambda>p c. if isPlatformPricingMatch platform (cp_Platform p) then fold (add_price gid p) (cp_Models p) c else c"
  have "extends g pl (if g = gid \<and> pl = platform then price_list platform ps else []) c (fold ?step ps c)" for ps
  proof (induction ps arbitrary: c)
    case (Cons p ps)
    have "extends g pl (if g = gid \<and> pl = platform \<and> cp_Platform p = platform then map (\<lambda>m. (m, p)) (cp_Models p) else [])
        c (?step p c)"
      using extends_models [where g = g and gid = gid and pl = pl and p = p and ms = "cp_Models p" and c = c] by (auto simp: isPlatformPricingMatch_def)
    from extends_trans [OF this Cons.IH [of "?step p c"]] show ?case
      by (auto simp: price_list_def split: if_splits)
  qed (simp add: price_list_def)
  then show ?thesis by (simp add: expandPricingToCache_def)
qed


lemma add_mapping_cache [simp]:
  "kc_channelByGroup (add_mapping gid pl sd c) = kc_channelByGroup c"
  "kc_groupPlatform (add_mapping gid pl sd c) = kc_groupPlatform c"
  "kc_pricing (add_mapping gid pl sd c) = kc_pricing c"
  "kc_wildcards (add_mapping gid pl sd c) = kc_wildcards c"
  by (simp_all add: add_mapping_def)

lemma fold_field: "(\<And>x c. h (f x c) = h c) \<Longrightarrow> h (fold f xs c) = h c"
  by (induction xs arbitrary: c) simp_all

lemma expandMapping_cache [simp]:
  "kc_channelByGroup (expandMappingToCache ch gid pl c) = kc_channelByGroup c"
  "kc_groupPlatform (expandMappingToCache ch gid pl c) = kc_groupPlatform c"
  "kc_pricing (expandMappingToCache ch gid pl c) = kc_pricing c"
  "kc_wildcards (expandMappingToCache ch gid pl c) = kc_wildcards c"
  by (simp_all add: expandMappingToCache_def matchingPlatforms_def fold_field split: option.split)

lemma expandPricing_cache [simp]:
  "kc_channelByGroup (expandPricingToCache ch gid pl c) = kc_channelByGroup c"
  "kc_groupPlatform (expandPricingToCache ch gid pl c) = kc_groupPlatform c"
  "kc_mapping (expandPricingToCache ch gid pl c) = kc_mapping c"
  "kc_wildcardMapping (expandPricingToCache ch gid pl c) = kc_wildcardMapping c"
  by (simp_all add: expandPricingToCache_def fold_field add_price_cache)

lemma extends_cong:
  "extends g pl xs c d \<Longrightarrow> kc_pricing c' = kc_pricing c \<Longrightarrow> kc_wildcards c' = kc_wildcards c \<Longrightarrow>
    kc_pricing d' = kc_pricing d \<Longrightarrow> kc_wildcards d' = kc_wildcards d \<Longrightarrow> extends g pl xs c' d'"
  by (simp only: extends_def simp_thms)

lemma extends_group:
  "extends g (gp g) (if g = gid then price_list (gp g) (ch_ModelPricing ch) else []) c (add_group gp ch gid c)"
proof -
  have "extends g (gp g) (if g = gid \<and> gp g = gp gid then price_list (gp gid) (ch_ModelPricing ch) else [])
      (c\<lparr>kc_channelByGroup := (kc_channelByGroup c)(gid := Some ch)\<rparr>)
      (expandPricingToCache ch gid (gp gid) (c\<lparr>kc_channelByGroup := (kc_channelByGroup c)(gid := Some ch)\<rparr>))"
    by (rule extends_pricing)
  then show ?thesis
    by (cases "g = gid") (auto simp: add_group_def intro: extends_cong)
qed

lemma extends_groups:
  "distinct gids \<Longrightarrow> extends g (gp g) (if g \<in> set gids then price_list (gp g) (ch_ModelPricing ch) else []) c
     (fold (add_group gp ch) gids c)"
proof (induction gids arbitrary: c)
  case (Cons gid gids)
  have "extends g (gp g) ((if g = gid then price_list (gp g) (ch_ModelPricing ch) else []) @
      (if g \<in> set gids then price_list (gp g) (ch_ModelPricing ch) else [])) c (fold (add_group gp ch) gids (add_group gp ch gid c))"
    by (rule extends_trans [OF extends_group [where g = g and gp = gp and gid = gid and ch = ch and c = c]
          Cons.IH [of "add_group gp ch gid c"]]) (use Cons.prems in simp)
  then show ?case using Cons.prems by (cases "g = gid") auto
qed simp

lemma group_fields:
  "kc_channelByGroup (fold (add_group gp ch) gids c) g = (if g \<in> set gids then Some ch else kc_channelByGroup c g)"
  "kc_groupPlatform (fold (add_group gp ch) gids c) = kc_groupPlatform c"
  by (induction gids arbitrary: c) (auto simp: add_group_def)

lemma populate_channels:
  assumes "distinct (concat (map ch_GroupIDs chs))" "ch \<in> set chs" "g \<in> set (ch_GroupIDs ch)"
  shows "kc_channelByGroup (fold (\<lambda>ch. fold (add_group gp ch) (ch_GroupIDs ch)) chs c) g = Some ch \<and>
    extends g (gp g) (price_list (gp g) (ch_ModelPricing ch)) c (fold (\<lambda>ch. fold (add_group gp ch) (ch_GroupIDs ch)) chs c)"
  using assms
proof (induction chs arbitrary: c)
  case (Cons x chs)
  let ?d = "fold (add_group gp x) (ch_GroupIDs x) c"
  have x: "extends g (gp g) (if g \<in> set (ch_GroupIDs x) then price_list (gp g) (ch_ModelPricing x) else []) c ?d"
    by (rule extends_groups) (use Cons.prems in simp)
  show ?case
  proof (cases "g \<in> set (ch_GroupIDs x)")
    case True
    have others: "g \<notin> set (ch_GroupIDs y)" if "y \<in> set chs" for y using Cons.prems(1) True that by auto
    then have "x = ch" using Cons.prems(2,3) by auto
    have "kc_channelByGroup (fold (\<lambda>ch. fold (add_group gp ch) (ch_GroupIDs ch)) ys d) g = kc_channelByGroup d g \<and>
        extends g (gp g) [] d (fold (\<lambda>ch. fold (add_group gp ch) (ch_GroupIDs ch)) ys d)"
      if "distinct (concat (map ch_GroupIDs ys))" "\<And>y. y \<in> set ys \<Longrightarrow> g \<notin> set (ch_GroupIDs y)" for ys d
      using that
    proof (induction ys arbitrary: d)
      case (Cons y ys)
      have y: "extends g (gp g) [] d (fold (add_group gp y) (ch_GroupIDs y) d)"
        using extends_groups [of "ch_GroupIDs y" g gp y d] Cons.prems by simp
      show ?case using Cons.IH [of "fold (add_group gp y) (ch_GroupIDs y) d"] Cons.prems extends_trans [OF y, of "[]"]
        by (simp add: group_fields)
    qed simp
    from this [of chs ?d] show ?thesis
      using Cons.prems(1) others x True \<open>x = ch\<close> extends_trans [OF x, of "[]"] by (simp add: group_fields)
  next
    case False
    then show ?thesis
      using Cons.IH [of ?d] Cons.prems x extends_trans [OF x] by (auto simp: group_fields)
  qed
qed simp

lemma populate_platform [simp]: "kc_groupPlatform (populateChannelCache chs gp now) = gp"
proof -
  have "kc_groupPlatform (fold (\<lambda>ch. fold (add_group gp ch) (ch_GroupIDs ch)) chs c) = kc_groupPlatform c" for c
    by (induction chs arbitrary: c) (simp_all add: group_fields)
  then show ?thesis by (simp add: populateChannelCache_def)
qed

lemma populate_no_channel:
  "(\<And>ch. ch \<in> set chs \<Longrightarrow> g \<notin> set (ch_GroupIDs ch)) \<Longrightarrow> kc_channelByGroup (populateChannelCache chs gp now) g = None"
proof -
  assume a: "\<And>ch. ch \<in> set chs \<Longrightarrow> g \<notin> set (ch_GroupIDs ch)"
  have "kc_channelByGroup (fold (\<lambda>ch. fold (add_group gp ch) (ch_GroupIDs ch)) chs c) g = kc_channelByGroup c g" for c
    using a by (induction chs arbitrary: c) (simp_all add: group_fields)
  then show ?thesis by (simp add: populateChannelCache_def newEmptyChannelCache_def)
qed

section \<open>Finding a price\<close>

lemma entries_price_list: "entries_of ps platform = map (\<lambda>x. toModelEntry (fst x)) (price_list platform ps)"
  by (simp add: entries_of_def price_list_def map_concat comp_def)

lemma hash_lookup:
  assumes "sorted_wrt (\<lambda>a b. \<not> conflictsBetween a b) (map (\<lambda>x. toModelEntry (fst x)) xs)"
  shows "(case map_of (rev (exact_of xs)) n of Some q \<Rightarrow> Some q
      | None \<Rightarrow> map_option snd (find (\<lambda>w. HasPrefix n (fst w)) (wild_of xs))) = Some p
    \<longleftrightarrow> (\<exists>pat. (pat, p) \<in> set xs \<and> pattern_matches (toModelEntry pat) n)" (is "?look = Some p \<longleftrightarrow> ?found p")
proof -
  let ?P = "\<lambda>x. pattern_matches (toModelEntry (fst x)) n"
  have "sorted_wrt (\<lambda>a b. \<not> (?P a \<and> ?P b)) xs"
    using assms unfolding sorted_wrt_map by (rule sorted_wrt_mono_rel [rotated]) (auto simp: conflict_iff_overlap)
  then have one: "length (filter ?P xs) \<le> 1" by (rule pairwise_filter)
  have unique: "x = y" if "x \<in> set xs" "y \<in> set xs" "?P x" "?P y" for x y
  proof -
    have "x \<in> set (filter ?P xs)" "y \<in> set (filter ?P xs)" using that by simp_all
    then show ?thesis using one by (cases "filter ?P xs") auto
  qed
  have sound: "?found q" if "?look = Some q" for q
  proof (cases "map_of (rev (exact_of xs)) n")
    case None
    then have "map_option snd (find (\<lambda>w. HasPrefix n (fst w)) (wild_of xs)) = Some q" using that by simp
    then obtain w where "find (\<lambda>w. HasPrefix n (fst w)) (wild_of xs) = Some w" "snd w = q" by auto
    then have "w \<in> set (wild_of xs)" "HasPrefix n (fst w)" by (auto simp: find_Some_iff)
    then show ?thesis using \<open>snd w = q\<close> by (force simp: wild_of_def pattern_matches_def entry_simps)
  next
    case (Some q')
    then have "(n, q) \<in> set (exact_of xs)" using that by (auto dest: map_of_SomeD)
    then show ?thesis by (force simp: exact_of_def pattern_matches_def entry_simps)
  qed
  have complete: "?look \<noteq> None" if "?found q" for q
  proof -
    from that obtain pat where pat: "(pat, q) \<in> set xs" "pattern_matches (toModelEntry pat) n" by blast
    show ?thesis
    proof (cases "ends_with_star pat")
      case True
      then have "(ToLower (trim_star pat), q) \<in> set (wild_of xs)" "HasPrefix n (ToLower (trim_star pat))"
        using pat by (force simp: wild_of_def) (use True pat in \<open>simp add: pattern_matches_def entry_simps\<close>)
      then have "find (\<lambda>w. HasPrefix n (fst w)) (wild_of xs) \<noteq> None" by (auto simp: find_None_iff)
      then show ?thesis by (auto split: option.split)
    next
      case False
      then have "(n, q) \<in> set (exact_of xs)" using pat by (force simp: exact_of_def pattern_matches_def entry_simps)
      then have "map_of (rev (exact_of xs)) n \<noteq> None" using weak_map_of_SomeI [of n q "rev (exact_of xs)"] by auto
      then show ?thesis by auto
    qed
  qed
  show ?thesis
  proof
    assume "?found p"
    then obtain q where q: "?look = Some q" using complete by blast
    then have "p = q" using sound [OF q] \<open>?found p\<close> unique by fastforce
    then show "?look = Some p" using q by simp
  qed (rule sound)
qed

lemma only_channel:
  "distinct (concat (map ch_GroupIDs chs)) \<Longrightarrow> a \<in> set chs \<Longrightarrow> b \<in> set chs \<Longrightarrow>
    g \<in> set (ch_GroupIDs a) \<Longrightarrow> g \<in> set (ch_GroupIDs b) \<Longrightarrow> a = b"
proof (induction chs)
  case (Cons x chs)
  then show ?case by (cases "a = x"; cases "b = x") auto
qed simp

text \<open>
  (C20) The snapshot answers what a search through the configuration answers: a group has the price \<open>p\<close>
  for a model if and only if its active channel has an entry \<open>p\<close> for the platform of the group with a
  name or pattern that matches the model, ignoring case. There is never more than one.
\<close>

theorem snapshot_lookup_is_search:
  assumes "distinct (concat (map ch_GroupIDs chs))"
    "\<And>ch. ch \<in> set chs \<Longrightarrow> validateNoConflictingModels (ch_ModelPricing ch) = None"
  shows "lookup_price (populateChannelCache chs gp now) gid model = Some p \<longleftrightarrow>
    (\<exists>ch \<in> set chs. gid \<in> set (ch_GroupIDs ch) \<and> channel_IsActive ch \<and> p \<in> set (ch_ModelPricing ch) \<and>
      cp_Platform p = gp gid \<and> (\<exists>pat \<in> set (cp_Models p). pattern_matches (toModelEntry pat) (ToLower model)))"
proof (cases "\<exists>ch \<in> set chs. gid \<in> set (ch_GroupIDs ch)")
  case False
  then have "kc_channelByGroup (populateChannelCache chs gp now) gid = None" by (intro populate_no_channel) auto
  then show ?thesis using False by (auto simp: lookup_price_def lookupGroupChannel_def)
next
  case True
  then obtain ch where ch: "ch \<in> set chs" "gid \<in> set (ch_GroupIDs ch)" by blast
  note only = only_channel [OF assms(1) _ ch(1) _ ch(2)]
  let ?xs = "price_list (gp gid) (ch_ModelPricing ch)"
  let ?c = "populateChannelCache chs gp now"
  have c: "kc_channelByGroup ?c gid = Some ch" "extends gid (gp gid) ?xs ((newEmptyChannelCache now)\<lparr>kc_groupPlatform := gp\<rparr>) ?c"
    using populate_channels [OF assms(1) ch, of gp] by (simp_all add: populateChannelCache_def)
  have "sorted_wrt (\<lambda>a b. \<not> conflictsBetween a b) (map (\<lambda>x. toModelEntry (fst x)) ?xs)"
    using no_conflicting_models [OF assms(2) [OF ch(1)], of "gp gid"] by (simp add: entries_price_list)
  note hash = hash_lookup [OF this, of "ToLower model" p]
  have pr: "kc_pricing ?c (gid, gp gid, n) = map_of (rev (exact_of ?xs)) n" for n
    using c(2) by (cases "map_of (rev (exact_of ?xs)) n") (simp_all add: extends_def newEmptyChannelCache_def)
  have wi: "kc_wildcards ?c (gid, gp gid) = wild_of ?xs" using c(2) by (simp add: extends_def newEmptyChannelCache_def)
  have "lookupPricingAcrossPlatforms ?c gid (gp gid) n = (case map_of (rev (exact_of ?xs)) n of Some q \<Rightarrow> Some q
      | None \<Rightarrow> map_option snd (find (\<lambda>w. HasPrefix n (fst w)) (wild_of ?xs)))" for n
    unfolding lookupPricingAcrossPlatforms_def matchingPlatforms_def first_some.simps matchWildcard_def pr wi
    by (simp split: option.split)
  then have "lookupPricingAcrossPlatforms ?c gid (gp gid) (ToLower model) = Some p \<longleftrightarrow>
      (\<exists>pat. (pat, p) \<in> set ?xs \<and> pattern_matches (toModelEntry pat) (ToLower model))"
    using hash by simp
  also have "\<dots> \<longleftrightarrow> p \<in> set (ch_ModelPricing ch) \<and> cp_Platform p = gp gid \<and>
      (\<exists>pat \<in> set (cp_Models p). pattern_matches (toModelEntry pat) (ToLower model))"
    by (auto simp: price_list_def)
  finally have look: "lookupPricingAcrossPlatforms ?c gid (gp gid) (ToLower model) = Some p \<longleftrightarrow>
      p \<in> set (ch_ModelPricing ch) \<and> cp_Platform p = gp gid \<and>
      (\<exists>pat \<in> set (cp_Models p). pattern_matches (toModelEntry pat) (ToLower model))" .
  have "lookup_price ?c gid model = Some p \<longleftrightarrow>
      channel_IsActive ch \<and> lookupPricingAcrossPlatforms ?c gid (gp gid) (ToLower model) = Some p"
    by (simp add: lookup_price_def lookupGroupChannel_def c(1))
  then show ?thesis unfolding look using ch only by blast
qed

section \<open>What is stored stays valid\<close>

definition named_platforms :: "ChannelModelPricing list \<Rightarrow> bool" where
  "named_platforms ps \<longleftrightarrow> (\<forall>p \<in> set ps. cp_Platform p \<noteq> [])"

lemma or_error_None [simp]: "or_error a b = None \<longleftrightarrow> a = None \<and> b = None"
  by (cases a) (simp_all add: or_error_def)

lemma validate_any_order:
  assumes "ValidateIntervals xs = None" "mset ys = mset xs"
  shows "ValidateIntervals ys = None"
proof -
  let ?s = "sort_key iv_MinTokens xs"
  have single: "first_error 0 validateSingleInterval ?s = None" and up: "sorted_wrt upper_le ?s"
    using assms(1) overlap_None [of None 0 ?s] sorted_key_wrt [of iv_MinTokens ?s]
    by (auto simp: ValidateIntervals_def Let_def split: option.splits)
  have pos: "\<forall>m. iv_MaxTokens x = Some m \<longrightarrow> iv_MinTokens x < m" if "x \<in> set ?s" for x
  proof -
    from that obtain j where "j < length ?s" "x = ?s ! j" by (metis in_set_conv_nth)
    then have "validateSingleInterval x j = None" using single by (simp add: first_error_None)
    then show ?thesis by (auto simp: validateSingleInterval_def split: if_splits option.splits)
  qed
  have "sorted_wrt (\<lambda>a b. iv_MinTokens a < iv_MinTokens b) ?s"
    by (rule sorted_wrt_mono_rel [OF _ up]) (use pos in \<open>force simp: upper_le_def split: option.splits\<close>)
  then have "sorted_wrt (<) (map iv_MinTokens ?s)" by (simp add: sorted_wrt_map)
  then have d: "distinct (map iv_MinTokens ?s)" by (simp only: strict_sorted_iff)
  have "mset (map iv_MinTokens ys) = mset (map iv_MinTokens ?s)" using assms(2) by simp
  then have "distinct (map iv_MinTokens ys)" using d by (metis distinct_count_atmost_1 mset_eq_imp_distinct_iff)
  then have d2: "distinct (map iv_MinTokens (sort_key iv_MinTokens ys))"
    by (metis mset_eq_imp_distinct_iff mset_map mset_sort)
  have "sort_key iv_MinTokens ys = ?s"
  proof (rule map_sorted_distinct_set_unique [where f = iv_MinTokens])
    have s: "set ?s = set (sort_key iv_MinTokens ys)" using mset_eq_setD [OF assms(2)] by simp
    then show "set (sort_key iv_MinTokens ys) = set ?s" by simp
    show "inj_on iv_MinTokens (set (sort_key iv_MinTokens ys) \<union> set ?s)"
      unfolding s using d2 by (simp add: distinct_map)
  qed (use d d2 in simp_all)
  then show ?thesis using assms(1) by (simp add: ValidateIntervals_def)
qed

text \<open>An entry that differs only in what storing it changes.\<close>

definition same_entry :: "ChannelModelPricing \<Rightarrow> ChannelModelPricing \<Rightarrow> bool" where
  "same_entry p q \<longleftrightarrow> (\<exists>pl m ivs. q = p\<lparr>cp_Platform := pl, cp_BillingMode := m, cp_Intervals := ivs\<rparr> \<and>
     (cp_Platform p \<noteq> [] \<longrightarrow> pl = cp_Platform p) \<and> (cp_BillingMode p \<noteq> [] \<longrightarrow> m = cp_BillingMode p) \<and>
     (cp_BillingMode p = [] \<longrightarrow> m = BillingModeToken) \<and> mset ivs = mset (cp_Intervals p))"

lemma same_stored: "same_entry p (stored_pricing p)" "same_entry p (stored_rule_pricing p)"
  by (cases p; auto simp: same_entry_def stored_pricing_def stored_rule_pricing_def)+

lemma same_fields:
  assumes "same_entry p q"
  shows "cp_Models q = cp_Models p" "cp_Platform p \<noteq> [] \<Longrightarrow> cp_Platform q = cp_Platform p"
    "ValidateIntervals (cp_Intervals p) = None \<Longrightarrow> ValidateIntervals (cp_Intervals q) = None"
    "checkBillingModeRequirements p = None \<Longrightarrow> checkBillingModeRequirements q = None"
    "checkPricesNotNegative p = None \<Longrightarrow> checkPricesNotNegative q = None"
    "checkIntervalsHavePrices p = None \<Longrightarrow> checkIntervalsHavePrices q = None"
proof -
  from assms obtain pl m ivs where q: "q = p\<lparr>cp_Platform := pl, cp_BillingMode := m, cp_Intervals := ivs\<rparr>"
    and pl: "cp_Platform p \<noteq> [] \<longrightarrow> pl = cp_Platform p" and m: "cp_BillingMode p \<noteq> [] \<longrightarrow> m = cp_BillingMode p"
      "cp_BillingMode p = [] \<longrightarrow> m = BillingModeToken" and ivs: "mset ivs = mset (cp_Intervals p)"
    unfolding same_entry_def by blast
  show "cp_Models q = cp_Models p" "cp_Platform p \<noteq> [] \<Longrightarrow> cp_Platform q = cp_Platform p"
    using pl by (simp_all add: q)
  show "ValidateIntervals (cp_Intervals p) = None \<Longrightarrow> ValidateIntervals (cp_Intervals q) = None"
    using validate_any_order ivs by (simp add: q)
  have e: "ivs = [] \<longleftrightarrow> cp_Intervals p = []" using ivs by (metis mset_zero_iff)
  show "checkBillingModeRequirements p = None \<Longrightarrow> checkBillingModeRequirements q = None"
    using m e by (auto simp: checkBillingModeRequirements_def q billing_mode_defs split: if_splits)
  show "checkPricesNotNegative p = None \<Longrightarrow> checkPricesNotNegative q = None" by (simp add: checkPricesNotNegative_def q)
  show "checkIntervalsHavePrices p = None \<Longrightarrow> checkIntervalsHavePrices q = None"
    using mset_eq_setD [OF ivs] by (auto simp: checkIntervalsHavePrices_def q list_ex_iff split: if_splits)
qed

lemma same_valid:
  assumes "\<And>p. p \<in> set ps \<Longrightarrow> same_entry p (f p) \<and> cp_Platform (f p) = cp_Platform p" "validatePricingEntries ps = None"
  shows "validatePricingEntries (map f ps) = None"
proof -
  have same: "same_entry p (f p)" if "p \<in> set ps" for p using assms(1) that by blast
  have pl: "map cp_Platform (map f ps) = map cp_Platform ps" using assms(1) by simp
  have e: "entries_of (map f ps) platform = entries_of ps platform" for platform
  proof -
    have "cp_Models (f p) = cp_Models p" if "p \<in> set ps" for p using same [OF that] by (rule same_fields(1))
    then show ?thesis using assms(1) by (induction ps) (auto simp: entries_of_def)
  qed
  have "validateNoConflictingModels (map f ps) = None"
    using assms(2) unfolding validateNoConflictingModels_def pl e
    by (simp add: validatePricingEntries_def validateNoConflictingModels_def)
  moreover have "validatePricingIntervals (map f ps) = None" "validatePricingBillingMode (map f ps) = None"
    using assms(2) same
    by (auto simp: validatePricingEntries_def validatePricingIntervals_def validatePricingBillingMode_def first_error_all
        intro: same_fields(3-6))
  ultimately show ?thesis by (simp add: validatePricingEntries_def)
qed

lemma stored_platform [simp]:
  "cp_Platform (stored_pricing p) \<noteq> []" "cp_Platform p \<noteq> [] \<Longrightarrow> cp_Platform (stored_pricing p) = cp_Platform p"
  "cp_Platform (stored_rule_pricing p) = cp_Platform p"
  by (simp_all add: stored_pricing_def stored_rule_pricing_def)

lemma stored_valid:
  "named_platforms ps \<Longrightarrow> validatePricingEntries ps = None \<Longrightarrow> validatePricingEntries (map stored_pricing ps) = None"
  by (rule same_valid) (auto simp: named_platforms_def same_stored)

lemma rules_error_None: "rules_error rules = None \<longleftrightarrow> (\<forall>r \<in> set rules. validatePricingEntries (asr_Pricing r) = None)"
  by (auto simp: rules_error_def first_error_None all_set_conv_all_nth)

lemma stored_rules_valid: "rules_error rules = None \<Longrightarrow> rules_error (stored_rules rules) = None"
  by (auto simp: rules_error_None stored_rules_def same_stored intro!: same_valid)

definition channel_ok :: "Channel \<Rightarrow> bool" where
  "channel_ok ch \<longleftrightarrow> validatePricingEntries (ch_ModelPricing ch) = None \<and> named_platforms (ch_ModelPricing ch) \<and>
     validateNoConflictingMappings (ch_ModelMapping ch) = None \<and> rules_error (ch_AccountStatsPricingRules ch) = None"

lemma channel_okD: "channel_ok ch \<Longrightarrow> config_error ch = None"
  by (simp add: channel_ok_def config_error_def validateChannelConfig_def)

definition table_ok :: "int \<Rightarrow> Channel list \<Rightarrow> bool" where
  "table_ok next chs \<longleftrightarrow> distinct (map ch_ID chs) \<and> distinct (map ch_Name chs) \<and> distinct (concat (map ch_GroupIDs chs)) \<and>
     (\<forall>c \<in> set chs. ch_ID c < next \<and> channel_ok c)"

definition snapshot_ok :: "channelCache \<Rightarrow> bool" where
  "snapshot_ok c \<longleftrightarrow> (\<exists>chs gp now. c = populateChannelCache chs gp now \<and> distinct (concat (map ch_GroupIDs chs)) \<and>
     (\<forall>ch \<in> set chs. validateNoConflictingModels (ch_ModelPricing ch) = None))"

definition channels_ok :: "channel_world \<Rightarrow> bool" where
  "channels_ok w \<longleftrightarrow> table_ok (kw_next w) (kw_channels w) \<and> (\<forall>c. kw_cache w = Some c \<longrightarrow> snapshot_ok c)"

lemma table_ok_append:
  assumes "table_ok i chs" "ch_ID ch = i" "ch_Name ch \<notin> ch_Name ` set chs" "distinct (ch_GroupIDs ch)"
    "\<And>c. c \<in> set chs \<Longrightarrow> set (ch_GroupIDs ch) \<inter> set (ch_GroupIDs c) = {}" "channel_ok ch"
  shows "table_ok (i + 1) (chs @ [ch])"
  using assms by (auto simp: table_ok_def)

lemma distinct_groups_map:
  assumes "distinct (map ch_ID chs)" "distinct (concat (map ch_GroupIDs chs))"
    "\<And>c. c \<in> set chs \<Longrightarrow> ch_ID (f c) = ch_ID c" "\<And>c. c \<in> set chs \<Longrightarrow> ch_ID c \<noteq> i \<Longrightarrow> f c = c"
    "\<And>c. c \<in> set chs \<Longrightarrow> ch_ID c = i \<Longrightarrow> distinct (ch_GroupIDs (f c)) \<and>
      (\<forall>d \<in> set chs. ch_ID d \<noteq> i \<longrightarrow> set (ch_GroupIDs (f c)) \<inter> set (ch_GroupIDs d) = {})"
  shows "distinct (concat (map ch_GroupIDs (map f chs)))"
  using assms
proof (induction chs)
  case (Cons c chs)
  have IH: "distinct (concat (map ch_GroupIDs (map f chs)))"
    by (rule Cons.IH) (use Cons.prems in auto)
  have d: "distinct (ch_GroupIDs (f c))"
    using Cons.prems(2,4,5) by (cases "ch_ID c = i") auto
  have "set (ch_GroupIDs (f c)) \<inter> set (ch_GroupIDs (f x)) = {}" if x: "x \<in> set chs" for x
  proof -
    have ne: "ch_ID x \<noteq> ch_ID c" using Cons.prems(1) x by (auto simp: image_iff)
    show ?thesis
    proof (cases "ch_ID c = i")
      case True
      then have "f x = x" "set (ch_GroupIDs (f c)) \<inter> set (ch_GroupIDs x) = {}" using Cons.prems(4,5) x ne by auto
      then show ?thesis by simp
    next
      case False
      then have c: "f c = c" using Cons.prems(4) by simp
      show ?thesis
      proof (cases "ch_ID x = i")
        case True
        then show ?thesis using Cons.prems(5) [of x] x False c by (auto simp: Int_commute)
      next
        case False
        then have "f x = x" using Cons.prems(4) x by simp
        then show ?thesis using Cons.prems(2) x c by auto
      qed
    qed
  qed
  then show ?case using IH d by auto
qed simp

lemma distinct_names_map:
  assumes "distinct (map ch_ID chs)" "distinct (map ch_Name chs)" "\<And>c. c \<in> set chs \<Longrightarrow> ch_ID c \<noteq> i \<Longrightarrow> f c = c"
    "\<And>c d. c \<in> set chs \<Longrightarrow> ch_ID c = i \<Longrightarrow> d \<in> set chs \<Longrightarrow> ch_ID d \<noteq> i \<Longrightarrow> ch_Name (f c) \<noteq> ch_Name d"
  shows "distinct (map ch_Name (map f chs))"
  using assms
proof (induction chs)
  case (Cons c chs)
  have IH: "distinct (map ch_Name (map f chs))" by (rule Cons.IH) (use Cons.prems in auto)
  have "ch_Name (f x) \<noteq> ch_Name (f c)" if x: "x \<in> set chs" for x
  proof -
    have ne: "ch_ID x \<noteq> ch_ID c" "ch_Name x \<noteq> ch_Name c" using Cons.prems(1,2) x by (auto simp: image_iff)
    show ?thesis
      using Cons.prems(3) [of c] Cons.prems(3) [of x] Cons.prems(4) [of c x] Cons.prems(4) [of x c] x ne
      by (cases "ch_ID c = i"; cases "ch_ID x = i") auto
  qed
  then have "ch_Name (f c) \<notin> set (map ch_Name (map f chs))" by (fastforce simp: image_iff)
  then show ?case using IH by simp
qed simp



section \<open>Every statement keeps the tables valid\<close>

lemma concat_filter_distinct: "distinct (concat (map g xs)) \<Longrightarrow> distinct (concat (map g (filter P xs)))"
  by (induction xs) auto

lemma concat_member_distinct: "distinct (concat (map g xs)) \<Longrightarrow> x \<in> set xs \<Longrightarrow> distinct (g x)"
  by (induction xs) auto

lemma repo_Create_ok:
  assumes "channels_ok w" "config_error ch = None" "named_platforms (ch_ModelPricing ch)"
  shows "channels_ok (snd (repo_Create ch w))"
proof (cases "list_ex (\<lambda>c. ch_Name c = ch_Name ch) (kw_channels w) \<or> \<not> groups_free w (kw_next w) (ch_GroupIDs ch)")
  case False
  let ?ch = "ch\<lparr>ch_ID := kw_next w, ch_GroupIDs := sort (ch_GroupIDs ch), ch_ModelPricing := map stored_pricing (ch_ModelPricing ch),
    ch_AccountStatsPricingRules := stored_rules (ch_AccountStatsPricingRules ch)\<rparr>"
  have t: "table_ok (kw_next w) (kw_channels w)" using assms(1) by (simp add: channels_ok_def)
  have "table_ok (kw_next w + 1) (kw_channels w @ [?ch])"
  proof (rule table_ok_append [OF t])
    show "channel_ok ?ch"
      using assms(2,3) stored_valid [OF assms(3)] stored_rules_valid
      by (auto simp: channel_ok_def config_error_def validateChannelConfig_def named_platforms_def)
    show "set (ch_GroupIDs ?ch) \<inter> set (ch_GroupIDs c) = {}" if "c \<in> set (kw_channels w)" for c
      using False that t by (fastforce simp: groups_free_def table_ok_def)
  qed (use False in \<open>auto simp: groups_free_def list_ex_iff\<close>)
  then show ?thesis using assms(1) False by (simp add: repo_Create_def channels_ok_def)
qed (use assms(1) in \<open>auto simp: repo_Create_def\<close>)

lemma repo_Delete_ok: "channels_ok w \<Longrightarrow> channels_ok (snd (repo_Delete i w))"
  by (auto simp: repo_Delete_def channels_ok_def table_ok_def distinct_map_filter concat_filter_distinct)

lemma repo_Update_ok:
  assumes "channels_ok w" "config_error ch = None" "sp \<Longrightarrow> named_platforms (ch_ModelPricing ch)"
  shows "channels_ok (snd (repo_Update ch sg sp sr w))"
proof (cases "list_ex (\<lambda>c. ch_ID c = ch_ID ch) (kw_channels w) \<and>
    \<not> list_ex (\<lambda>c. ch_ID c \<noteq> ch_ID ch \<and> ch_Name c = ch_Name ch) (kw_channels w) \<and>
    (sg \<longrightarrow> groups_free w (ch_ID ch) (ch_GroupIDs ch))")
  case True
  define f where "f c = (if ch_ID c = ch_ID ch then ch\<lparr>ch_GroupIDs := (if sg then sort (ch_GroupIDs ch) else ch_GroupIDs c),
      ch_ModelPricing := (if sp then map stored_pricing (ch_ModelPricing ch) else ch_ModelPricing c),
      ch_AccountStatsPricingRules := (if sr then stored_rules (ch_AccountStatsPricingRules ch) else ch_AccountStatsPricingRules c)\<rparr>
    else c)" for c
  let ?chs = "kw_channels w"
  have t: "table_ok (kw_next w) ?chs" using assms(1) by (simp add: channels_ok_def)
  then have ids: "distinct (map ch_ID ?chs)" and names: "distinct (map ch_Name ?chs)"
    and groups: "distinct (concat (map ch_GroupIDs ?chs))" and each: "c \<in> set ?chs \<Longrightarrow> ch_ID c < kw_next w \<and> channel_ok c" for c
    by (auto simp: table_ok_def)
  have id: "ch_ID (f c) = ch_ID c" for c by (simp add: f_def)
  have "map ch_ID (map f ?chs) = map ch_ID ?chs" by (simp add: id)
  then have "distinct (map ch_ID (map f ?chs))" using ids by (simp del: map_map)
  moreover have "distinct (map ch_Name (map f ?chs))"
  proof (rule distinct_names_map [where i = "ch_ID ch", OF ids names])
    show "f c = c" if "ch_ID c \<noteq> ch_ID ch" for c using that by (simp add: f_def)
    show "ch_Name (f c) \<noteq> ch_Name d" if "ch_ID c = ch_ID ch" "d \<in> set ?chs" "ch_ID d \<noteq> ch_ID ch" for c d
      using True that by (force simp: f_def list_ex_iff)
  qed
  moreover have "distinct (concat (map ch_GroupIDs (map f ?chs)))"
  proof (rule distinct_groups_map [where i = "ch_ID ch", OF ids groups id])
    show "f c = c" if "ch_ID c \<noteq> ch_ID ch" for c using that by (simp add: f_def)
    show "distinct (ch_GroupIDs (f c)) \<and> (\<forall>d \<in> set ?chs. ch_ID d \<noteq> ch_ID ch \<longrightarrow> set (ch_GroupIDs (f c)) \<inter> set (ch_GroupIDs d) = {})"
      if c: "c \<in> set ?chs" "ch_ID c = ch_ID ch" for c
    proof (cases sg)
      case True
      then show ?thesis using \<open>_ \<and> _\<close> c by (auto simp: f_def groups_free_def)
    next
      case False
      have "set (ch_GroupIDs c) \<inter> set (ch_GroupIDs d) = {}" if "d \<in> set ?chs" "ch_ID d \<noteq> ch_ID ch" for d
        using only_channel [OF groups c(1) that(1)] that(2) c(2) by auto
      then show ?thesis using False c concat_member_distinct [OF groups c(1)] by (simp add: f_def)
    qed
  qed
  moreover have "ch_ID (f c) < kw_next w \<and> channel_ok (f c)" if "c \<in> set ?chs" for c
  proof -
    have "named_platforms (map stored_pricing (ch_ModelPricing ch))" by (simp add: named_platforms_def)
    moreover have "sp \<Longrightarrow> validatePricingEntries (map stored_pricing (ch_ModelPricing ch)) = None"
      using assms(2,3) by (intro stored_valid) (auto simp: config_error_def validateChannelConfig_def)
    ultimately show ?thesis
      using each [OF that] assms(2) stored_rules_valid by (auto simp: f_def channel_ok_def config_error_def validateChannelConfig_def)
  qed
  ultimately have "table_ok (kw_next w) (map f ?chs)" by (auto simp: table_ok_def)
  then show ?thesis
    using assms(1) True by (simp add: repo_Update_def channels_ok_def f_def [abs_def])
qed (use assms(1) in \<open>auto simp: repo_Update_def\<close>)

section \<open>Every interleaving keeps the tables valid\<close>

interpretation channels: state_invariant channels_ok .

lemma channels_ok_faults: "channels_ok w \<Longrightarrow> channels_ok (w\<lparr>kw_faults := fs\<rparr>)"
  by (simp add: channels_ok_def)

lemma kept_stmt:
  assumes "\<And>w. channels_ok w \<Longrightarrow> channels_ok (snd (f w)) \<and> channels.kept (k (fst (f w)))"
    and "channels.kept (k (Inl ErrDatabase))"
  shows "channels.kept (channel_stmt f k)"
  unfolding channel_stmt_def
  by (rule channels.kept_atomically_when)
    (auto simp: assms channels_ok_faults Let_def split: list.split outcome.split)

lemma kept_query:
  assumes "\<And>w. channels_ok w \<Longrightarrow> channels.kept (k (Inr (f w)))" and "channels.kept (k (Inl ErrDatabase))"
  shows "channels.kept (channel_query f k)"
  unfolding channel_query_def by (rule kept_stmt) (simp_all add: assms)

lemma kept_store:
  assumes "\<And>now. snapshot_ok (mk now)" "\<And>c. channels.kept (k c)"
  shows "channels.kept (store_cache mk k)"
  unfolding store_cache_def
  by (rule channels.kept_atomically_when) (use assms in \<open>auto simp: channels_ok_def\<close>)

lemma snapshot_ok_empty: "snapshot_ok (newEmptyChannelCache t)"
  unfolding snapshot_ok_def
  by (rule exI [of _ "[]"], rule exI [of _ "\<lambda>_. ''''"], rule exI [of _ t])
    (simp add: populateChannelCache_def newEmptyChannelCache_def)

lemma kept_storeErrorCache: "channels.kept k \<Longrightarrow> channels.kept (storeErrorCache k)"
  unfolding storeErrorCache_def by (rule kept_store) (simp_all add: snapshot_ok_empty)

text \<open>A list of channels, put together from three reads of valid tables, makes a valid snapshot.\<close>

definition list_ok :: "Channel list \<Rightarrow> bool" where
  "list_ok chs \<longleftrightarrow> distinct (concat (map ch_GroupIDs chs)) \<and>
     (\<forall>ch \<in> set chs. validateNoConflictingModels (ch_ModelPricing ch) = None)"

lemma list_ok_snapshot: "list_ok chs \<Longrightarrow> snapshot_ok (populateChannelCache chs gp now)"
  by (auto simp: list_ok_def snapshot_ok_def)

lemma row_of: "find (\<lambda>c. ch_ID c = i) chs = Some c \<Longrightarrow> c \<in> set chs \<and> ch_ID c = i"
  by (auto simp: find_Some_iff)

lemma pricing_of_ok:
  assumes "channels_ok w"
  shows "validateNoConflictingModels (pricing_of w i) = None \<and> named_platforms (pricing_of w i)"
proof (cases "find (\<lambda>c. ch_ID c = i) (kw_channels w)")
  case None
  then show ?thesis by (simp add: pricing_of_def named_platforms_def validateNoConflictingModels_def)
next
  case (Some c)
  then show ?thesis
    using assms row_of [OF Some] by (auto simp: pricing_of_def channels_ok_def table_ok_def channel_ok_def validatePricingEntries_def)
qed

lemma groups_of_row: "x \<in> set (groups_of w i) \<Longrightarrow> \<exists>c \<in> set (kw_channels w). ch_ID c = i \<and> x \<in> set (ch_GroupIDs c)"
  by (cases "find (\<lambda>c. ch_ID c = i) (kw_channels w)") (auto simp: groups_of_def dest!: row_of)

lemma groups_of_ok:
  assumes "channels_ok w"
  shows "distinct (groups_of w i)" "i \<noteq> j \<Longrightarrow> set (groups_of w i) \<inter> set (groups_of w j) = {}"
proof -
  have g: "distinct (concat (map ch_GroupIDs (kw_channels w)))" using assms by (simp add: channels_ok_def table_ok_def)
  show "distinct (groups_of w i)"
    by (auto simp: groups_of_def dest!: row_of intro: concat_member_distinct [OF g] split: option.split)
  assume ne: "i \<noteq> j"
  show "set (groups_of w i) \<inter> set (groups_of w j) = {}"
    using groups_of_row only_channel [OF g] ne by blast
qed

lemma list_ok_read:
  assumes "distinct (map ch_ID chs)" "channels_ok wg" "channels_ok wp"
  shows "list_ok (map (\<lambda>c. c\<lparr>ch_GroupIDs := groups_of wg (ch_ID c), ch_ModelPricing := pricing_of wp (ch_ID c),
    ch_AccountStatsPricingRules := rs (ch_ID c)\<rparr>) chs)"
proof -
  have "distinct (concat (map (\<lambda>c. groups_of wg (ch_ID c)) chs))"
    using assms(1)
  proof (induction chs)
    case (Cons c chs)
    have "set (groups_of wg (ch_ID c)) \<inter> set (groups_of wg (ch_ID d)) = {}" if "d \<in> set chs" for d
      by (rule groups_of_ok(2) [OF assms(2)]) (use Cons.prems that in \<open>auto simp: image_iff\<close>)
    then show ?case using Cons groups_of_ok(1) [OF assms(2)] by auto
  qed simp
  then show ?thesis using pricing_of_ok [OF assms(3)] by (simp add: list_ok_def comp_def)
qed

lemma kept_ListAll:
  assumes "\<And>chs. list_ok chs \<Longrightarrow> channels.kept (k (Inr chs))" "\<And>e. channels.kept (k (Inl e))"
  shows "channels.kept (repo_ListAll k)"
  unfolding repo_ListAll_def
proof (rule kept_query)
  fix w assume w: "channels_ok w"
  have ids: "distinct (map ch_ID (kw_channels w))" using w by (simp add: channels_ok_def table_ok_def)
  have "channels.kept (k (Inr []))" by (rule assms(1)) (simp add: list_ok_def)
  then show "channels.kept (case Inr (kw_channels w) of Inl e \<Rightarrow> k (Inl (WrapErr ''query all channels'' e)) | Inr chs \<Rightarrow> if chs = [] then k (Inr [])
      else channel_query groups_of (\<lambda>r. case r of Inl e \<Rightarrow> k (Inl (WrapErr ''batch load group ids'' e))
        | Inr gs \<Rightarrow> channel_query pricing_of (\<lambda>r. case r of Inl e \<Rightarrow> k (Inl (WrapErr ''batch load model pricing'' e))
          | Inr ps \<Rightarrow> channel_query rules_of (\<lambda>r. case r of Inl e \<Rightarrow> k (Inl (WrapErr ''batch load account stats pricing rules'' e))
            | Inr rs \<Rightarrow> k (Inr (map (\<lambda>c. c\<lparr>ch_GroupIDs := gs (ch_ID c), ch_ModelPricing := ps (ch_ID c),
                ch_AccountStatsPricingRules := rs (ch_ID c)\<rparr>) chs))))))"
    using assms(2) list_ok_read [OF ids] assms(1) by (auto intro!: kept_query)
qed (simp add: assms(2))

lemma kept_fetch:
  assumes "\<And>chs ps. list_ok chs \<Longrightarrow> channels.kept (k (Inr (chs, ps)))" "\<And>e. channels.kept (k (Inl e))"
  shows "channels.kept (fetchChannelData k)"
  unfolding fetchChannelData_def
  by (rule kept_ListAll) (auto intro!: kept_query kept_storeErrorCache assms)

lemma kept_buildCache: "(\<And>r. channels.kept (k r)) \<Longrightarrow> channels.kept (buildCache k)"
  unfolding buildCache_def by (rule kept_fetch) (auto intro!: kept_store list_ok_snapshot)

lemma kept_loadCache: "(\<And>r. channels.kept (k r)) \<Longrightarrow> channels.kept (loadCache k)"
  unfolding loadCache_def by (intro channels.kept_reading channels.kept_case_option kept_buildCache) auto

lemma kept_invalidateCache: "channels.kept k \<Longrightarrow> channels.kept (invalidateCache k)"
  unfolding invalidateCache_def
  by (rule channels.kept_atomically_when) (simp_all add: channels_ok_def kept_buildCache)

lemma kept_GetByID:
  assumes "\<And>r. (\<forall>ch. r = Inr ch \<longrightarrow> named_platforms (ch_ModelPricing ch)) \<Longrightarrow> channels.kept (k r)"
  shows "channels.kept (repo_GetByID i k)"
  unfolding repo_GetByID_def
  by (intro kept_query channels.kept_case_option) (auto intro!: kept_query assms simp: pricing_of_ok split: option.split)

lemma kept_checkGroups: "(\<And>r. channels.kept (k r)) \<Longrightarrow> channels.kept (checkGroupConflicts i gids k)"
  unfolding checkGroupConflicts_def by (auto intro!: kept_query)

lemma kept_Create: "named_platforms (ch_ModelPricing ch) \<Longrightarrow> channels.kept (channel_Create ch)"
  unfolding channel_Create_def
  by (intro kept_query)
    (auto intro!: kept_checkGroups channels.kept_case_option kept_stmt repo_Create_ok kept_invalidateCache kept_GetByID
      simp: Let_def split: option.split sum.split bool.split)

lemma kept_Delete: "channels.kept (channel_Delete i)"
  unfolding channel_Delete_def
  by (intro kept_query kept_stmt) (auto intro: repo_Delete_ok kept_invalidateCache split: sum.split)

definition named_update :: "UpdateChannelInput \<Rightarrow> bool" where
  "named_update input \<longleftrightarrow> (case uc_ModelPricing input of None \<Rightarrow> True | Some ps \<Rightarrow> named_platforms ps)"

lemma kept_applyUpdate:
  assumes "\<And>e. channels.kept (k (Inl e))" "channels.kept (k (Inr (updated_channel input ch)))"
  shows "channels.kept (applyUpdateInput input ch k)"
  unfolding applyUpdateInput_def Let_def
  by (auto intro!: channels.kept_if kept_query kept_checkGroups channels.kept_case_option assms split: option.split bool.split)

lemma kept_Update: "named_update input \<Longrightarrow> channels.kept (channel_Update i input)"
  unfolding channel_Update_def
  by (intro kept_GetByID)
    (auto intro!: kept_applyUpdate channels.kept_case_option kept_query kept_stmt repo_Update_ok kept_invalidateCache kept_GetByID
      simp: updated_channel_def given_def named_update_def split: option.splits sum.split)

section \<open>The running service\<close>

datatype channel_call =
    CallPrice int string
  | CallMapping int string
  | CallRestricted int string
  | CallChannel int
  | CallPlatform int
  | CallCreateChannel Channel
  | CallUpdateChannel int UpdateChannelInput
  | CallDeleteChannel int

definition drop_result :: "('s, 'a) prog \<Rightarrow> ('s, unit) prog" where
  "drop_result p = bind p (\<lambda>_. Return ())"

primrec serve_channel :: "channel_call \<Rightarrow> (channel_world, unit) prog" where
  "serve_channel (CallPrice gid m) = GetChannelModelPricing gid m (\<lambda>_. Return ())"
| "serve_channel (CallMapping gid m) = ResolveChannelMapping gid m (\<lambda>_. Return ())"
| "serve_channel (CallRestricted gid m) = IsModelRestricted gid m (\<lambda>_. Return ())"
| "serve_channel (CallChannel gid) = GetChannelForGroup gid (\<lambda>_. Return ())"
| "serve_channel (CallPlatform gid) = GetGroupPlatform gid (\<lambda>_. Return ())"
| "serve_channel (CallCreateChannel ch) = drop_result (channel_Create ch)"
| "serve_channel (CallUpdateChannel i input) = drop_result (channel_Update i input)"
| "serve_channel (CallDeleteChannel i) = drop_result (channel_Delete i)"

text \<open>The handlers of the administration give every entry a platform.\<close>

definition named_call :: "channel_call \<Rightarrow> bool" where
  "named_call cl = (case cl of CallCreateChannel ch \<Rightarrow> named_platforms (ch_ModelPricing ch)
     | CallUpdateChannel i input \<Rightarrow> named_update input | _ \<Rightarrow> True)"

definition channel_programs :: "(channel_world, unit) prog set" where
  "channel_programs = {serve_channel cl | cl. named_call cl}"

text \<open>Time passes, groups change, the database may begin to fail, the process may start anew.\<close>

definition channel_env :: "channel_world \<Rightarrow> channel_world \<Rightarrow> bool" where
  "channel_env v w \<longleftrightarrow> kw_channels w = kw_channels v \<and> kw_next w = kw_next v \<and> kw_now v \<le> kw_now w \<and>
     kw_cache w \<in> {kw_cache v, None}"

lemma kept_drop: "channels.kept p \<Longrightarrow> channels.kept (drop_result p)"
  unfolding drop_result_def by (rule channels.kept_bind) simp_all

lemma kept_serve_channel: "named_call cl \<Longrightarrow> channels.kept (serve_channel cl)"
  by (cases cl) (auto simp: named_call_def GetChannelModelPricing_def ResolveChannelMapping_def IsModelRestricted_def
      GetChannelForGroup_def GetGroupPlatform_def intro!: kept_drop kept_loadCache kept_Create kept_Update kept_Delete split: sum.split)

text \<open>
  (C21) However requests and changes of channels interleave, and whichever reads and writes fail: in the
  table, names and ids are unique, no group belongs to two channels and every configuration passes the
  validation; the snapshot in memory, if there is one, is made of channels with groups of their own and
  patterns that do not overlap, so its lookups agree with a search.
\<close>

theorem channels_stay_valid:
  assumes "reachable channel_env channel_programs w d" "channels_ok w"
  shows "channels_ok (snd d)"
proof (rule channels.reachable_keeps [OF assms])
  show "channels_ok u" if "channel_env v u" "channels_ok v" for v u
    using that by (auto simp: channel_env_def channels_ok_def)
  show "channels.kept p" if "p \<in> channel_programs" for p
    using that kept_serve_channel by (auto simp: channel_programs_def)
qed

section \<open>When the database fails\<close>

text \<open>
  An error of the database opens all channels: the request that meets the error finds its model
  unrestricted and without a price of its channel, and so does every request of the next five seconds.
\<close>

theorem channel_error_lifts_restrictions:
  assumes "fresh_cache w = None" "kw_faults w = Fails # fs"
    and "v = snd (exec (IsModelRestricted gid model Return) w)"
    and "0 \<le> dt" "dt < channelErrorTTL"
  shows "fst (exec (IsModelRestricted gid model Return) w) = False \<and>
    fst (exec (IsModelRestricted gid' model' Return) (v\<lparr>kw_now := kw_now v + dt\<rparr>)) = False \<and>
    fst (exec (GetChannelModelPricing gid' model' Return) (v\<lparr>kw_now := kw_now v + dt\<rparr>)) = None"
proof -
  let ?e = "newEmptyChannelCache (kw_now w - (channelCacheTTL - channelErrorTTL))"
  have x: "exec (IsModelRestricted gid model Return) w = (False, w\<lparr>kw_faults := fs, kw_cache := Some ?e\<rparr>)"
    using assms(1,2)
    by (simp add: IsModelRestricted_def loadCache_def buildCache_def fetchChannelData_def repo_ListAll_def channel_query_def
        channel_stmt_def storeErrorCache_def store_cache_def Let_def)
  then have v: "v = w\<lparr>kw_faults := fs, kw_cache := Some ?e\<rparr>" using assms(3) by simp
  have "fresh_cache (v\<lparr>kw_now := kw_now v + dt\<rparr>) = Some ?e"
    using assms(5) by (simp add: v fresh_cache_def newEmptyChannelCache_def)
  then have "fst (exec (IsModelRestricted gid' model' Return) (v\<lparr>kw_now := kw_now v + dt\<rparr>)) = False"
    "fst (exec (GetChannelModelPricing gid' model' Return) (v\<lparr>kw_now := kw_now v + dt\<rparr>)) = None"
    by (simp_all add: IsModelRestricted_def GetChannelModelPricing_def loadCache_def lookupGroupChannel_def lookup_price_def
        newEmptyChannelCache_def)
  then show ?thesis using x by simp
qed

section \<open>A stale snapshot\<close>

lemma read_back:
  assumes "distinct (map ch_ID chs)" "kw_channels w = chs"
  shows "map (\<lambda>c. c\<lparr>ch_GroupIDs := groups_of w (ch_ID c), ch_ModelPricing := pricing_of w (ch_ID c),
    ch_AccountStatsPricingRules := rules_of w (ch_ID c)\<rparr>) chs = chs"
proof (rule map_idI)
  fix c assume c: "c \<in> set chs"
  have "find (\<lambda>d. ch_ID d = ch_ID c) chs = Some c"
    using assms(1) c by (induction chs) auto
  then show "c\<lparr>ch_GroupIDs := groups_of w (ch_ID c), ch_ModelPricing := pricing_of w (ch_ID c),
      ch_AccountStatsPricingRules := rules_of w (ch_ID c)\<rparr> = c"
    by (simp add: groups_of_def pricing_of_def rules_of_def assms(2))
qed

definition known_platforms :: "channel_world \<Rightarrow> int \<Rightarrow> string" where
  "known_platforms w g = (if g \<in> set (concat (map ch_GroupIDs (kw_channels w))) then platform_of (kw_platforms w) g else '''')"

definition about_to_store :: "channel_world \<Rightarrow> int \<Rightarrow> string \<Rightarrow> (channel_world, unit) prog" where
  "about_to_store w gid model = store_cache (populateChannelCache (kw_channels w) (known_platforms w))
     (\<lambda>c. case (Inr c :: go_error + channelCache) of Inl _ \<Rightarrow> Return () | Inr c \<Rightarrow> Return ())"

lemma reader_reads:
  assumes "fresh_cache w = None" "kw_faults w = []" "distinct (map ch_ID (kw_channels w))"
    "concat (map ch_GroupIDs (kw_channels w)) \<noteq> []"
  shows "interleave [0, 0, 0, 0, 0, 0, 0] ([serve_channel (CallPrice gid m)], w) = ([about_to_store w gid m], w)"
proof -
  have ne: "kw_channels w \<noteq> []" using assms(4) by auto
  note rb = read_back [OF assms(3) refl]
  show ?thesis
    using assms(1,2) ne assms(4)
    by (simp add: interleave_def GetChannelModelPricing_def loadCache_def buildCache_def fetchChannelData_def
        repo_ListAll_def channel_query_def channel_stmt_def rb about_to_store_def known_platforms_def [abs_def] del: set_concat concat_eq_Nil_conv map_map)
qed

text \<open>
  A snapshot can outlive a change: when a request has read the table and an administrator changes a
  channel before the request stores its snapshot, the old configuration replaces the new one, with a
  new time stamp, so prices and restrictions stay as they were before the change for ten minutes.
\<close>

theorem stale_snapshot_survives_change:
  assumes "fresh_cache w = None" "kw_faults w = []" "channels_ok w"
    "concat (map ch_GroupIDs (kw_channels w)) \<noteq> []" "named_call cl"
    "v = snd (exec (serve_channel cl) w)"
  shows "\<exists>d. reachable channel_env channel_programs w d \<and> kw_channels (snd d) = kw_channels v \<and>
    kw_cache (snd d) = Some (populateChannelCache (kw_channels w) (known_platforms w) (kw_now v))"
proof -
  let ?H = channel_programs and ?reader = "serve_channel (CallPrice 0 '''')"
  have ids: "distinct (map ch_ID (kw_channels w))" using assms(3) by (simp add: channels_ok_def table_ok_def)
  have r: "?reader \<in> ?H" unfolding channel_programs_def by (rule CollectI, rule exI [of _ "CallPrice 0 ''''"]) (simp add: named_call_def)
  have p: "serve_channel cl \<in> ?H" using assms(5) by (auto simp: channel_programs_def)
  let ?p1 = "about_to_store w 0 ''''" and ?done = "Return (fst (exec (serve_channel cl) w))"
  have "(sched channel_env ?H)\<^sup>*\<^sup>* ([], w) ([?p1], w)"
    using reachable_interleave [of "[?reader]" ?H channel_env w "[0, 0, 0, 0, 0, 0, 0]"] r reader_reads [OF assms(1,2) ids assms(4)]
    by (simp add: reachable_def)
  also have "(sched channel_env ?H)\<^sup>*\<^sup>* ([?p1], w) ([?p1] @ [serve_channel cl], w)" using sched_start [OF p] by blast
  also have "(sched channel_env ?H)\<^sup>*\<^sup>* ([?p1] @ [serve_channel cl], w) ([?p1] @ [?done], v)"
    using sched_exec_in [of channel_env ?H "[?p1]" "serve_channel cl" "[]" w] assms(6) by simp
  also have "(sched channel_env ?H)\<^sup>*\<^sup>* ([?p1] @ [?done], v) (advance 0 ([?p1, ?done], v))"
    using sched_advance [of channel_env ?H "([?p1, ?done], v)" 0] by simp
  finally have "reachable channel_env ?H w (advance 0 ([?p1, ?done], v))" by (simp add: reachable_def)
  then show ?thesis
    by (rule_tac exI [of _ "advance 0 ([?p1, ?done], v)"]) (simp add: about_to_store_def store_cache_def)
qed

section \<open>Examples\<close>

definition demo_interval :: "int \<Rightarrow> int option \<Rightarrow> rat \<Rightarrow> PricingInterval" where
  "demo_interval lo hi x = \<lparr>iv_MinTokens = lo, iv_MaxTokens = hi, iv_TierLabel = '''', iv_InputPrice = Some x,
     iv_OutputPrice = None, iv_CacheWritePrice = None, iv_CacheReadPrice = None, iv_PerRequestPrice = None, iv_SortOrder = 0\<rparr>"

definition demo_price :: "string list \<Rightarrow> rat \<Rightarrow> ChannelModelPricing" where
  "demo_price models x = \<lparr>cp_Platform = ''openai'', cp_Models = models, cp_BillingMode = ''token'', cp_InputPrice = Some x,
     cp_OutputPrice = None, cp_CacheWritePrice = None, cp_CacheReadPrice = None, cp_ImageOutputPrice = None,
     cp_PerRequestPrice = None, cp_Intervals = []\<rparr>"

definition demo_channel :: "rat \<Rightarrow> Channel" where
  "demo_channel x = \<lparr>ch_ID = 1, ch_Name = ''c'', ch_Status = ''active'', ch_BillingModelSource = '''', ch_RestrictModels = True,
     ch_GroupIDs = [10], ch_ModelPricing = [demo_price [''gpt-*''] x], ch_ModelMapping = [], ch_ApplyPricingToAccountStats = False,
     ch_AccountStatsPricingRules = []\<rparr>"

definition demo_channels :: "outcome list \<Rightarrow> channel_world" where
  "demo_channels fs = \<lparr>kw_channels = [demo_channel 1], kw_platforms = [(10, ''openai'')], kw_next = 2, kw_now = 0,
     kw_cache = None, kw_faults = fs\<rparr>"

definition demo_update :: UpdateChannelInput where
  "demo_update = \<lparr>uc_Name = '''', uc_Status = '''', uc_GroupIDs = None, uc_ModelPricing = Some [demo_price [''gpt-*''] 2],
     uc_ModelMapping = None, uc_BillingModelSource = '''', uc_RestrictModels = None, uc_ApplyPricingToAccountStats = None,
     uc_AccountStatsPricingRules = None\<rparr>"

lemma demo_channel_ok: "0 \<le> x \<Longrightarrow> channel_ok (demo_channel x)"
  by (simp add: channel_ok_def demo_channel_def demo_price_def named_platforms_def validatePricingEntries_def
      validateNoConflictingModels_def validateNoConflictingMappings_def validatePricingIntervals_def
      validatePricingBillingMode_def ValidateIntervals_def entries_of_def checkBillingModeRequirements_def
      checkPricesNotNegative_def checkIntervalsHavePrices_def negative_def or_error_def rules_error_def billing_mode_defs)

lemma demo_channels_ok: "channels_ok (demo_channels fs)"
  using demo_channel_ok [of 1]
  by (simp add: channels_ok_def table_ok_def demo_channels_def) (simp add: demo_channel_def)

lemma demo_fresh: "fresh_cache (demo_channels fs) = None"
  by (simp add: fresh_cache_def demo_channels_def)

theorem accepted_intervals_any_order_witness:
  "FindMatchingInterval [demo_interval 100 None 2, demo_interval 0 (Some 100) 1] 100 = Some (demo_interval 0 (Some 100) 1)"
proof -
  let ?ivs = "[demo_interval 0 (Some 100) 1, demo_interval 100 None 2]"
  have v: "ValidateIntervals ?ivs = None"
    by (simp add: ValidateIntervals_def Let_def demo_interval_def validateSingleInterval_def validateIntervalPrices_def negative_def)
  have m: "mset ?ivs = mset [demo_interval 100 None 2, demo_interval 0 (Some 100) 1]" by simp
  have "FindMatchingInterval ?ivs 100 = Some (demo_interval 0 (Some 100) 1)"
    by (simp add: FindMatchingInterval_def interval_matches_def demo_interval_def)
  then show ?thesis using accepted_intervals_any_order [OF v m, of 100] by simp
qed

theorem snapshot_lookup_is_search_witness:
  "lookup_price (populateChannelCache [demo_channel 1] (\<lambda>_. ''openai'') 0) 10 ''GPT-5'' = Some (demo_price [''gpt-*''] 1)"
proof -
  have c: "distinct (concat (map ch_GroupIDs [demo_channel 1]))" by (simp add: demo_channel_def)
  have v: "validateNoConflictingModels (ch_ModelPricing ch) = None" if "ch \<in> set [demo_channel 1]" for ch
    using demo_channel_ok [of 1] that by (simp add: channel_ok_def validatePricingEntries_def)
  have l: "ToLower ''GPT-5'' = ''gpt-5''" "ToLower ''gpt-'' = ''gpt-''" by code_simp+
  show ?thesis
    by (rule snapshot_lookup_is_search [OF c v, THEN iffD2])
      (simp_all add: demo_channel_def demo_price_def channel_IsActive_def pattern_matches_def entry_simps HasPrefix_def
        ends_with_star_def trim_star_def star_def l)
qed

theorem channels_stay_valid_witness:
  "channels_ok (snd (exec (serve_channel (CallUpdateChannel 1 demo_update)) (demo_channels [])))"
proof -
  have "named_call (CallUpdateChannel 1 demo_update)"
    by (simp add: named_call_def named_update_def demo_update_def named_platforms_def demo_price_def)
  then have "serve_channel (CallUpdateChannel 1 demo_update) \<in> channel_programs" unfolding channel_programs_def by blast
  from channels_stay_valid [OF reachable_exec [OF this] demo_channels_ok] show ?thesis by simp
qed

theorem channel_error_lifts_restrictions_witness:
  "fst (exec (IsModelRestricted 10 ''claude'' Return) (demo_channels [Fails])) = False \<and>
   fst (exec (IsModelRestricted 10 ''claude'' Return) (demo_channels [])) = True"
proof -
  have "fst (exec (IsModelRestricted 10 ''claude'' Return) (demo_channels [Fails])) = False"
    using channel_error_lifts_restrictions [OF demo_fresh, of "[Fails]" "[]" _ 10 "''claude''" 0 10 "''claude''"]
    by (simp add: demo_channels_def channelErrorTTL_def time_Second_def)
  moreover have "fst (exec (IsModelRestricted 10 ''claude'' Return) (demo_channels [])) = True"
    by (simp add: IsModelRestricted_def loadCache_def demo_fresh)
      (simp add: buildCache_def fetchChannelData_def repo_ListAll_def channel_query_def channel_stmt_def demo_channels_def
        groups_of_def pricing_of_def rules_of_def demo_channel_def store_cache_def populateChannelCache_def platform_of_def
        add_group_def expandPricingToCache_def expandMappingToCache_def matchingPlatforms_def isPlatformPricingMatch_def
        demo_price_def add_price_def ends_with_star_def star_def newEmptyChannelCache_def lookupGroupChannel_def
        channel_IsActive_def checkRestricted_def lookupPricingAcrossPlatforms_def matchWildcard_def HasPrefix_def ToLower_def
        ascii_lower_def trim_star_def Let_def)
  ultimately show ?thesis by blast
qed

theorem stale_snapshot_survives_change_witness:
  "\<exists>d. reachable channel_env channel_programs (demo_channels []) d \<and>
    kw_channels (snd d) = kw_channels (snd (exec (serve_channel (CallUpdateChannel 1 demo_update)) (demo_channels []))) \<and>
    kw_cache (snd d) = Some (populateChannelCache (kw_channels (demo_channels [])) (known_platforms (demo_channels []))
      (kw_now (snd (exec (serve_channel (CallUpdateChannel 1 demo_update)) (demo_channels [])))))"
proof (rule stale_snapshot_survives_change [OF demo_fresh _ demo_channels_ok _ _ refl])
  show "named_call (CallUpdateChannel 1 demo_update)"
    by (simp add: named_call_def named_update_def demo_update_def named_platforms_def demo_price_def)
qed (simp_all add: demo_channels_def demo_channel_def)

end
