(* ===== verification/PriceData.thy ===== *)
theory PriceData
  imports GoBase Complex_Main
begin

text \<open>
  The price list: \<open>backend/internal/service/pricing_service.go\<close>, the tables of
  \<open>billing_service.go\<close> and the model names of \<open>openai_codex_transform.go\<close>.

  A price list is a Go map from model names to prices, here a list of pairs: a lookup takes the entry of
  a name, and the order of the list is the order in which a loop over the map meets the entries.
  Prices are rationals per token, where the code has \<open>float64\<close>. Decoding the downloaded file is a
  parameter; its entries are given decoded.
\<close>

section \<open>Strings\<close>

fun Contains :: "string \<Rightarrow> string \<Rightarrow> bool" where
  "Contains [] p \<longleftrightarrow> p = []"
| "Contains (c # s) p \<longleftrightarrow> prefix p (c # s) \<or> Contains s p"

lemma Contains_iff: "Contains s p \<longleftrightarrow> (\<exists>a b. s = a @ p @ b)"
proof (induction s)
  case (Cons c s)
  have "Contains (c # s) p \<longleftrightarrow> prefix p (c # s) \<or> (\<exists>a b. s = a @ p @ b)" by (simp add: Cons)
  also have "\<dots> \<longleftrightarrow> (\<exists>a b. c # s = a @ p @ b)" by (auto simp: prefix_def Cons_eq_append_conv)
  finally show ?case .
qed simp

text \<open>What follows the last occurrence of a non-empty text: \<open>strings.LastIndex\<close> and the slice after it.\<close>

fun after_last :: "string \<Rightarrow> string \<Rightarrow> string option" where
  "after_last p [] = None"
| "after_last p (c # s) = (case after_last p s of Some r \<Rightarrow> Some r
     | None \<Rightarrow> if prefix p (c # s) then Some (drop (length p) (c # s)) else None)"

text \<open>\<open>strings.ReplaceAll\<close> of a non-empty text.\<close>

function ReplaceAll :: "string \<Rightarrow> string \<Rightarrow> string \<Rightarrow> string" where
  "ReplaceAll old new [] = []"
| "ReplaceAll old new (c # s) =
     (if old \<noteq> [] \<and> prefix old (c # s) then new @ ReplaceAll old new (drop (length old) (c # s))
      else c # ReplaceAll old new s)"
  by pat_completeness auto
termination by (relation "measure (\<lambda>(old, new, s). length s)") auto

definition TrimPrefix :: "string \<Rightarrow> string \<Rightarrow> string" where
  "TrimPrefix s p = (case CutPrefix s p of Some r \<Rightarrow> r | None \<Rightarrow> s)"

definition slash :: char where "slash = CHR 0x2F"

section \<open>Entries\<close>

record LiteLLMModelPricing =
  ll_InputCostPerToken :: rat
  ll_InputCostPerTokenPriority :: rat
  ll_OutputCostPerToken :: rat
  ll_OutputCostPerTokenPriority :: rat
  ll_CacheCreationInputTokenCost :: rat
  ll_CacheCreationInputTokenCostAbove1hr :: rat
  ll_CacheReadInputTokenCost :: rat
  ll_CacheReadInputTokenCostPriority :: rat
  ll_LongContextInputTokenThreshold :: int
  ll_LongContextInputCostMultiplier :: rat
  ll_LongContextOutputCostMultiplier :: rat
  ll_SupportsServiceTier :: bool
  ll_LiteLLMProvider :: string
  ll_Mode :: string
  ll_SupportsPromptCaching :: bool
  ll_OutputCostPerImage :: rat
  ll_OutputCostPerImageToken :: rat

definition zero_litellm :: LiteLLMModelPricing where
  "zero_litellm = \<lparr>ll_InputCostPerToken = 0, ll_InputCostPerTokenPriority = 0, ll_OutputCostPerToken = 0,
     ll_OutputCostPerTokenPriority = 0, ll_CacheCreationInputTokenCost = 0,
     ll_CacheCreationInputTokenCostAbove1hr = 0, ll_CacheReadInputTokenCost = 0,
     ll_CacheReadInputTokenCostPriority = 0, ll_LongContextInputTokenThreshold = 0,
     ll_LongContextInputCostMultiplier = 0, ll_LongContextOutputCostMultiplier = 0,
     ll_SupportsServiceTier = False, ll_LiteLLMProvider = '''', ll_Mode = '''',
     ll_SupportsPromptCaching = False, ll_OutputCostPerImage = 0, ll_OutputCostPerImageToken = 0\<rparr>"

record LiteLLMRawEntry =
  raw_InputCostPerToken :: "rat option"
  raw_InputCostPerTokenPriority :: "rat option"
  raw_OutputCostPerToken :: "rat option"
  raw_OutputCostPerTokenPriority :: "rat option"
  raw_CacheCreationInputTokenCost :: "rat option"
  raw_CacheCreationInputTokenCostAbove1hr :: "rat option"
  raw_CacheReadInputTokenCost :: "rat option"
  raw_CacheReadInputTokenCostPriority :: "rat option"
  raw_SupportsServiceTier :: bool
  raw_LiteLLMProvider :: string
  raw_Mode :: string
  raw_SupportsPromptCaching :: bool
  raw_OutputCostPerImage :: "rat option"
  raw_OutputCostPerImageToken :: "rat option"

type_synonym price_data = "(string \<times> LiteLLMModelPricing) list"

definition price_or_zero :: "rat option \<Rightarrow> rat" where
  "price_or_zero p = (case p of Some x \<Rightarrow> x | None \<Rightarrow> 0)"

definition parsed_entry :: "LiteLLMRawEntry \<Rightarrow> LiteLLMModelPricing" where
  "parsed_entry e = zero_litellm\<lparr>
     ll_LiteLLMProvider := raw_LiteLLMProvider e, ll_Mode := raw_Mode e,
     ll_SupportsPromptCaching := raw_SupportsPromptCaching e, ll_SupportsServiceTier := raw_SupportsServiceTier e,
     ll_InputCostPerToken := price_or_zero (raw_InputCostPerToken e),
     ll_InputCostPerTokenPriority := price_or_zero (raw_InputCostPerTokenPriority e),
     ll_OutputCostPerToken := price_or_zero (raw_OutputCostPerToken e),
     ll_OutputCostPerTokenPriority := price_or_zero (raw_OutputCostPerTokenPriority e),
     ll_CacheCreationInputTokenCost := price_or_zero (raw_CacheCreationInputTokenCost e),
     ll_CacheCreationInputTokenCostAbove1hr := price_or_zero (raw_CacheCreationInputTokenCostAbove1hr e),
     ll_CacheReadInputTokenCost := price_or_zero (raw_CacheReadInputTokenCost e),
     ll_CacheReadInputTokenCostPriority := price_or_zero (raw_CacheReadInputTokenCostPriority e),
     ll_OutputCostPerImage := price_or_zero (raw_OutputCostPerImage e),
     ll_OutputCostPerImageToken := price_or_zero (raw_OutputCostPerImageToken e)\<rparr>"

text \<open>An entry that does not decode is \<open>None\<close>. No entry at all is an error.\<close>

definition parsePricingData :: "(string \<times> LiteLLMRawEntry option) list \<Rightarrow> price_data option" where
  "parsePricingData rawData =
     (let result = List.map_filter (\<lambda>(modelName, r).
            if modelName = ''sample_spec'' then None
            else (case r of None \<Rightarrow> None
              | Some e \<Rightarrow> if raw_InputCostPerToken e = None \<and> raw_OutputCostPerToken e = None then None
                  else Some (modelName, parsed_entry e))) rawData
      in if result = [] then None else Some result)"

definition openAIGPT54FallbackPricing :: LiteLLMModelPricing where
  "openAIGPT54FallbackPricing = zero_litellm\<lparr>
     ll_InputCostPerToken := 2.5 / 10 ^ 6, ll_OutputCostPerToken := 15 / 10 ^ 6, ll_CacheReadInputTokenCost := 0.25 / 10 ^ 6,
     ll_LongContextInputTokenThreshold := 272000, ll_LongContextInputCostMultiplier := 2,
     ll_LongContextOutputCostMultiplier := 1.5,
     ll_LiteLLMProvider := ''openai'', ll_Mode := ''chat'', ll_SupportsPromptCaching := True\<rparr>"

definition openAIGPT54MiniFallbackPricing :: LiteLLMModelPricing where
  "openAIGPT54MiniFallbackPricing = zero_litellm\<lparr>
     ll_InputCostPerToken := 0.75 / 10 ^ 6, ll_OutputCostPerToken := 4.5 / 10 ^ 6, ll_CacheReadInputTokenCost := 0.075 / 10 ^ 6,
     ll_LiteLLMProvider := ''openai'', ll_Mode := ''chat'', ll_SupportsPromptCaching := True\<rparr>"

definition openAIGPT54NanoFallbackPricing :: LiteLLMModelPricing where
  "openAIGPT54NanoFallbackPricing = zero_litellm\<lparr>
     ll_InputCostPerToken := 0.2 / 10 ^ 6, ll_OutputCostPerToken := 1.25 / 10 ^ 6, ll_CacheReadInputTokenCost := 0.02 / 10 ^ 6,
     ll_LiteLLMProvider := ''openai'', ll_Mode := ''chat'', ll_SupportsPromptCaching := True\<rparr>"

section \<open>Names of models\<close>

definition lastSegment :: "string \<Rightarrow> string" where
  "lastSegment model = (case after_last [slash] model of Some r \<Rightarrow> r | None \<Rightarrow> model)"

definition cut_after :: "string \<Rightarrow> string \<Rightarrow> string" where
  "cut_after p s = (case after_last p s of Some r \<Rightarrow> r | None \<Rightarrow> s)"

definition trim_slashes :: "string \<Rightarrow> string" where
  "trim_slashes s = dropWhile (\<lambda>c. c = slash) s"

definition normalizeModelNameForPricing :: "string \<Rightarrow> string" where
  "normalizeModelNameForPricing model =
     (let m = trim_slashes (TrimSpace model);
          m = TrimPrefix m ''models/'';
          m = TrimPrefix m ''publishers/google/models/'';
          m = cut_after ''/publishers/google/models/'' m;
          m = cut_after ''/models/'' m
      in trim_slashes m)"

text \<open>The first occurrence of each name is kept.\<close>

definition buildModelLookupCandidates :: "string \<Rightarrow> string list" where
  "buildModelLookupCandidates modelLower =
     (let candidates = [normalizeModelNameForPricing modelLower, modelLower, TrimPrefix modelLower ''models/'',
            lastSegment modelLower, lastSegment (TrimPrefix modelLower ''models/'')];
          out = rev (remdups (rev (filter (\<lambda>c. c \<noteq> []) (map TrimSpace candidates))))
      in if out = [] then [modelLower] else out)"

definition isNumeric :: "string \<Rightarrow> bool" where
  "isNumeric s \<longleftrightarrow> list_all is_digit s"

definition extractBaseName :: "string \<Rightarrow> string" where
  "extractBaseName model = join ''-'' (filter (\<lambda>part.
     \<not> (length part = 8 \<and> isNumeric part) \<and> \<not> Contains part '':'') (Split (CHR ''-'') model))"

definition codexModelMap :: "(string \<times> string) list" where
  "codexModelMap =
    [(''gpt-5.4'', ''gpt-5.4''), (''gpt-5.4-mini'', ''gpt-5.4-mini''), (''gpt-5.4-nano'', ''gpt-5.4-nano''),
     (''gpt-5.4-none'', ''gpt-5.4''), (''gpt-5.4-low'', ''gpt-5.4''), (''gpt-5.4-medium'', ''gpt-5.4''),
     (''gpt-5.4-high'', ''gpt-5.4''), (''gpt-5.4-xhigh'', ''gpt-5.4''), (''gpt-5.4-chat-latest'', ''gpt-5.4''),
     (''gpt-5.3'', ''gpt-5.3-codex''), (''gpt-5.3-none'', ''gpt-5.3-codex''), (''gpt-5.3-low'', ''gpt-5.3-codex''),
     (''gpt-5.3-medium'', ''gpt-5.3-codex''), (''gpt-5.3-high'', ''gpt-5.3-codex''),
     (''gpt-5.3-xhigh'', ''gpt-5.3-codex''), (''gpt-5.3-codex'', ''gpt-5.3-codex''),
     (''gpt-5.3-codex-spark'', ''gpt-5.3-codex''), (''gpt-5.3-codex-spark-low'', ''gpt-5.3-codex''),
     (''gpt-5.3-codex-spark-medium'', ''gpt-5.3-codex''), (''gpt-5.3-codex-spark-high'', ''gpt-5.3-codex''),
     (''gpt-5.3-codex-spark-xhigh'', ''gpt-5.3-codex''), (''gpt-5.3-codex-low'', ''gpt-5.3-codex''),
     (''gpt-5.3-codex-medium'', ''gpt-5.3-codex''), (''gpt-5.3-codex-high'', ''gpt-5.3-codex''),
     (''gpt-5.3-codex-xhigh'', ''gpt-5.3-codex''), (''gpt-5.1-codex'', ''gpt-5.1-codex''),
     (''gpt-5.1-codex-low'', ''gpt-5.1-codex''), (''gpt-5.1-codex-medium'', ''gpt-5.1-codex''),
     (''gpt-5.1-codex-high'', ''gpt-5.1-codex''), (''gpt-5.1-codex-max'', ''gpt-5.1-codex-max''),
     (''gpt-5.1-codex-max-low'', ''gpt-5.1-codex-max''), (''gpt-5.1-codex-max-medium'', ''gpt-5.1-codex-max''),
     (''gpt-5.1-codex-max-high'', ''gpt-5.1-codex-max''), (''gpt-5.1-codex-max-xhigh'', ''gpt-5.1-codex-max''),
     (''gpt-5.2'', ''gpt-5.2''), (''gpt-5.2-none'', ''gpt-5.2''), (''gpt-5.2-low'', ''gpt-5.2''),
     (''gpt-5.2-medium'', ''gpt-5.2''), (''gpt-5.2-high'', ''gpt-5.2''), (''gpt-5.2-xhigh'', ''gpt-5.2''),
     (''gpt-5.2-codex'', ''gpt-5.2-codex''), (''gpt-5.2-codex-low'', ''gpt-5.2-codex''),
     (''gpt-5.2-codex-medium'', ''gpt-5.2-codex''), (''gpt-5.2-codex-high'', ''gpt-5.2-codex''),
     (''gpt-5.2-codex-xhigh'', ''gpt-5.2-codex''), (''gpt-5.1-codex-mini'', ''gpt-5.1-codex-mini''),
     (''gpt-5.1-codex-mini-medium'', ''gpt-5.1-codex-mini''), (''gpt-5.1-codex-mini-high'', ''gpt-5.1-codex-mini''),
     (''gpt-5.1'', ''gpt-5.1''), (''gpt-5.1-none'', ''gpt-5.1''), (''gpt-5.1-low'', ''gpt-5.1''),
     (''gpt-5.1-medium'', ''gpt-5.1''), (''gpt-5.1-high'', ''gpt-5.1''), (''gpt-5.1-chat-latest'', ''gpt-5.1''),
     (''gpt-5-codex'', ''gpt-5.1-codex''), (''codex-mini-latest'', ''gpt-5.1-codex-mini''),
     (''gpt-5-codex-mini'', ''gpt-5.1-codex-mini''), (''gpt-5-codex-mini-medium'', ''gpt-5.1-codex-mini''),
     (''gpt-5-codex-mini-high'', ''gpt-5.1-codex-mini''), (''gpt-5'', ''gpt-5.1''), (''gpt-5-mini'', ''gpt-5.1''),
     (''gpt-5-nano'', ''gpt-5.1'')]"

text \<open>The keys are distinct lower-case names, so the loop over the map finds at most one.\<close>

definition getNormalizedCodexModel :: "string \<Rightarrow> string" where
  "getNormalizedCodexModel modelID =
     (if modelID = [] then '''' else (case map_of codexModelMap modelID of
        Some m \<Rightarrow> m
      | None \<Rightarrow> (case find (\<lambda>kv. ToLower (fst kv) = ToLower modelID) codexModelMap of
          Some kv \<Rightarrow> snd kv | None \<Rightarrow> '''')))"

definition codex_families :: "(string list \<times> string) list" where
  "codex_families =
    [([''gpt-5.4-mini'', ''gpt 5.4 mini''], ''gpt-5.4-mini''),
     ([''gpt-5.4-nano'', ''gpt 5.4 nano''], ''gpt-5.4-nano''),
     ([''gpt-5.4'', ''gpt 5.4''], ''gpt-5.4''),
     ([''gpt-5.2-codex'', ''gpt 5.2 codex''], ''gpt-5.2-codex''),
     ([''gpt-5.2'', ''gpt 5.2''], ''gpt-5.2''),
     ([''gpt-5.3-codex'', ''gpt 5.3 codex''], ''gpt-5.3-codex''),
     ([''gpt-5.3'', ''gpt 5.3''], ''gpt-5.3-codex''),
     ([''gpt-5.1-codex-max'', ''gpt 5.1 codex max''], ''gpt-5.1-codex-max''),
     ([''gpt-5.1-codex-mini'', ''gpt 5.1 codex mini''], ''gpt-5.1-codex-mini''),
     ([''codex-mini-latest'', ''gpt-5-codex-mini'', ''gpt 5 codex mini''], ''codex-mini-latest''),
     ([''gpt-5.1-codex'', ''gpt 5.1 codex''], ''gpt-5.1-codex''),
     ([''gpt-5.1'', ''gpt 5.1''], ''gpt-5.1''),
     ([''codex''], ''gpt-5.1-codex''),
     ([''gpt-5'', ''gpt 5''], ''gpt-5.1'')]"

definition normalizeCodexModel :: "string \<Rightarrow> string" where
  "normalizeCodexModel model =
     (if model = [] then ''gpt-5.1''
      else let modelID = (if Contains model [slash] then last (Split slash model) else model);
               mapped = getNormalizedCodexModel modelID;
               normalized = ToLower modelID
           in if mapped \<noteq> [] then mapped
              else (case find (\<lambda>f. list_ex (Contains normalized) (fst f)) codex_families of
                  Some f \<Rightarrow> snd f | None \<Rightarrow> ''gpt-5.1''))"

section \<open>Finding a price\<close>

definition familyPatterns :: "(string \<times> string list) list" where
  "familyPatterns =
    [(''opus-4.6'', [''claude-opus-4.6'', ''claude-opus-4-6'']),
     (''opus-4.5'', [''claude-opus-4.5'', ''claude-opus-4-5'']),
     (''opus-4'', [''claude-opus-4'', ''claude-3-opus'']),
     (''sonnet-4.5'', [''claude-sonnet-4.5'', ''claude-sonnet-4-5'']),
     (''sonnet-4'', [''claude-sonnet-4'', ''claude-3-5-sonnet'']),
     (''sonnet-3.5'', [''claude-3-5-sonnet'', ''claude-3.5-sonnet'']),
     (''sonnet-3'', [''claude-3-sonnet'']),
     (''haiku-3.5'', [''claude-3-5-haiku'', ''claude-3.5-haiku'']),
     (''haiku-3'', [''claude-3-haiku''])]"

definition in_family :: "string \<Rightarrow> string list \<Rightarrow> bool" where
  "in_family model patterns \<longleftrightarrow> list_ex (\<lambda>p. Contains model p \<or> Contains model (ReplaceAll ''-'' [] p)) patterns"

definition simple_family :: "string \<Rightarrow> string option" where
  "simple_family model =
     (let v45 = Contains model ''4.5'' \<or> Contains model ''4-5''; v35 = Contains model ''3-5'' \<or> Contains model ''3.5''
      in if Contains model ''opus'' then Some (if v45 then ''opus-4.5'' else ''opus-4'')
         else if Contains model ''sonnet'' then Some (if v45 then ''sonnet-4.5'' else if v35 then ''sonnet-3.5'' else ''sonnet-4'')
         else if Contains model ''haiku'' then Some (if v35 then ''haiku-3.5'' else ''haiku-3'')
         else None)"

fun first_hit :: "('a \<Rightarrow> 'b option) \<Rightarrow> 'a list \<Rightarrow> 'b option" where
  "first_hit f [] = None"
| "first_hit f (x # xs) = (case f x of Some y \<Rightarrow> Some y | None \<Rightarrow> first_hit f xs)"

text \<open>The families are visited in the order of the argument, a permutation of \<open>familyPatterns\<close>.\<close>

definition matched_family :: "(string \<times> string list) list \<Rightarrow> string \<Rightarrow> string option" where
  "matched_family families model =
     (case find (\<lambda>f. in_family model (snd f)) families of Some f \<Rightarrow> Some (fst f) | None \<Rightarrow> simple_family model)"

definition matchByModelFamily :: "(string \<times> string list) list \<Rightarrow> price_data \<Rightarrow> string \<Rightarrow> LiteLLMModelPricing option" where
  "matchByModelFamily families data model =
     (case matched_family families model of
        None \<Rightarrow> None
      | Some fam \<Rightarrow> first_hit (\<lambda>pattern. map_option snd (find (\<lambda>kp. Contains (ToLower (fst kp)) pattern) data))
          (case map_of families fam of Some ps \<Rightarrow> ps | None \<Rightarrow> []))"

text \<open>The regular expressions: a date at the end, and the version in front.\<close>

definition without_date :: "string \<Rightarrow> string" where
  "without_date model =
     (let n = length model - 9; d = drop n model
      in if length d = 9 \<and> hd d = CHR ''-'' \<and> list_all is_digit (tl d) then take n model else model)"

definition base_version :: "string \<Rightarrow> string option" where
  "base_version model =
     (case CutPrefix model ''gpt-'' of
        None \<Rightarrow> None
      | Some r \<Rightarrow>
          let d = takeWhile is_digit r; r1 = dropWhile is_digit r
          in if d = [] then None
             else (case r1 of
                 [] \<Rightarrow> Some (''gpt-'' @ d)
               | c # r2 \<Rightarrow>
                   if c = CHR ''-'' then Some (''gpt-'' @ d)
                   else if c = CHR ''.'' then
                     let e = takeWhile is_digit r2; r3 = dropWhile is_digit r2
                     in if e \<noteq> [] \<and> (r3 = [] \<or> hd r3 = CHR ''-'') then Some (''gpt-'' @ d @ ''.'' @ e) else None
                   else None))"

definition generateOpenAIModelVariants :: "string \<Rightarrow> string list" where
  "generateOpenAIModelVariants model =
     (let withoutDate = without_date model;
          base = (\<lambda>m. case base_version m of Some b \<Rightarrow> [b] | None \<Rightarrow> []);
          vs = (if withoutDate \<noteq> model then [withoutDate] else []) @ base model @
               (if withoutDate \<noteq> model then base withoutDate else [])
      in rev (remdups (rev (filter (\<lambda>v. v \<noteq> model) vs))))"

definition DefaultTestModel :: string where "DefaultTestModel = ''gpt-5.1-codex''"

definition matchOpenAIModel :: "price_data \<Rightarrow> string \<Rightarrow> LiteLLMModelPricing option" where
  "matchOpenAIModel data model =
     (let or_else = (\<lambda>a b. case a of Some p \<Rightarrow> Some p | None \<Rightarrow> b)
      in or_else (if HasPrefix model ''gpt-5.3-codex-spark'' then map_of data ''gpt-5.1-codex'' else None)
        (or_else (first_hit (map_of data) (generateOpenAIModelVariants model))
        (or_else (if HasPrefix model ''gpt-5.3-codex'' then map_of data ''gpt-5.2-codex'' else None)
        (if HasPrefix model ''gpt-5.4-mini'' then Some openAIGPT54MiniFallbackPricing
         else if HasPrefix model ''gpt-5.4-nano'' then Some openAIGPT54NanoFallbackPricing
         else if HasPrefix model ''gpt-5.4'' then Some openAIGPT54FallbackPricing
         else map_of data (ToLower DefaultTestModel)))))"

definition litellm_GetModelPricing ::
    "(string \<times> string list) list \<Rightarrow> price_data \<Rightarrow> string \<Rightarrow> LiteLLMModelPricing option" where
  "litellm_GetModelPricing families data modelName =
     (if modelName = [] then None
      else let lookupCandidates = buildModelLookupCandidates (ToLower (TrimSpace modelName));
               or_else = (\<lambda>a b. case a of Some p \<Rightarrow> Some p | None \<Rightarrow> b)
           in or_else (first_hit (\<lambda>c. if c = [] then None else map_of data c) lookupCandidates)
             (or_else (first_hit (\<lambda>c. map_of data (ReplaceAll ''-4-5-'' ''-4.5-'' c)) lookupCandidates)
             (or_else (map_option snd (find (\<lambda>kp. extractBaseName (ToLower (fst kp)) =
                  extractBaseName (hd lookupCandidates)) data))
             (or_else (matchByModelFamily families data (hd lookupCandidates))
             (if HasPrefix (hd lookupCandidates) ''gpt-'' then matchOpenAIModel data (hd lookupCandidates) else None)))))"

end
