(* ===== verification/Pricing.thy ===== *)
theory Pricing
  imports PriceData Channels
begin

text \<open>
  What a request costs: \<open>backend/internal/service/billing_service.go\<close> and \<open>model_pricing_resolver.go\<close>.

  Prices are objects that the code passes by pointer and updates in place, so they live in a heap, a
  list of objects with their addresses. The fallback prices are made once when the service starts
  and are shared by all requests; what comes from the price list is a new object each time. A
  function that may allocate or update takes the heap and returns it. Channel prices are what the
  channel service answers for a group and a model (\<open>ChannelService\<close>).
\<close>

section \<open>Prices\<close>

record ModelPricing =
  mp_InputPricePerToken :: rat
  mp_InputPricePerTokenPriority :: rat
  mp_OutputPricePerToken :: rat
  mp_OutputPricePerTokenPriority :: rat
  mp_CacheCreationPricePerToken :: rat
  mp_CacheReadPricePerToken :: rat
  mp_CacheReadPricePerTokenPriority :: rat
  mp_CacheCreation5mPrice :: rat
  mp_CacheCreation1hPrice :: rat
  mp_SupportsCacheBreakdown :: bool
  mp_LongContextInputThreshold :: int
  mp_LongContextInputMultiplier :: rat
  mp_LongContextOutputMultiplier :: rat
  mp_ImageOutputPricePerToken :: rat

definition zero_pricing :: ModelPricing where
  "zero_pricing = \<lparr>mp_InputPricePerToken = 0, mp_InputPricePerTokenPriority = 0, mp_OutputPricePerToken = 0,
     mp_OutputPricePerTokenPriority = 0, mp_CacheCreationPricePerToken = 0, mp_CacheReadPricePerToken = 0,
     mp_CacheReadPricePerTokenPriority = 0, mp_CacheCreation5mPrice = 0, mp_CacheCreation1hPrice = 0,
     mp_SupportsCacheBreakdown = False, mp_LongContextInputThreshold = 0, mp_LongContextInputMultiplier = 0,
     mp_LongContextOutputMultiplier = 0, mp_ImageOutputPricePerToken = 0\<rparr>"

definition openAIGPT54LongContextInputThreshold :: int where "openAIGPT54LongContextInputThreshold = 272000"
definition openAIGPT54LongContextInputMultiplier :: rat where "openAIGPT54LongContextInputMultiplier = 2"
definition openAIGPT54LongContextOutputMultiplier :: rat where "openAIGPT54LongContextOutputMultiplier = 1.5"

lemmas gpt54_defs = openAIGPT54LongContextInputThreshold_def openAIGPT54LongContextInputMultiplier_def
  openAIGPT54LongContextOutputMultiplier_def

definition normalizeBillingServiceTier :: "string \<Rightarrow> string" where
  "normalizeBillingServiceTier serviceTier = ToLower (TrimSpace serviceTier)"

definition usePriorityServiceTierPricing :: "string \<Rightarrow> ModelPricing \<Rightarrow> bool" where
  "usePriorityServiceTierPricing serviceTier pricing \<longleftrightarrow> normalizeBillingServiceTier serviceTier = ''priority'' \<and>
     (mp_InputPricePerTokenPriority pricing > 0 \<or> mp_OutputPricePerTokenPriority pricing > 0 \<or>
      mp_CacheReadPricePerTokenPriority pricing > 0)"

definition serviceTierCostMultiplier :: "string \<Rightarrow> rat" where
  "serviceTierCostMultiplier serviceTier =
     (let t = normalizeBillingServiceTier serviceTier
      in if t = ''priority'' then 2 else if t = ''flex'' then 1 / 2 else 1)"

record UsageTokens =
  ut_InputTokens :: int
  ut_OutputTokens :: int
  ut_CacheCreationTokens :: int
  ut_CacheReadTokens :: int
  ut_CacheCreation5mTokens :: int
  ut_CacheCreation1hTokens :: int
  ut_ImageOutputTokens :: int

record CostBreakdown =
  cb_InputCost :: rat
  cb_OutputCost :: rat
  cb_ImageOutputCost :: rat
  cb_CacheCreationCost :: rat
  cb_CacheReadCost :: rat
  cb_TotalCost :: rat
  cb_ActualCost :: rat
  cb_BillingMode :: string

definition zero_cost :: CostBreakdown where
  "zero_cost = \<lparr>cb_InputCost = 0, cb_OutputCost = 0, cb_ImageOutputCost = 0, cb_CacheCreationCost = 0,
     cb_CacheReadCost = 0, cb_TotalCost = 0, cb_ActualCost = 0, cb_BillingMode = ''''\<rparr>"

section \<open>The heap of prices\<close>

type_synonym price_heap = "ModelPricing list"

definition alloc :: "ModelPricing \<Rightarrow> price_heap \<Rightarrow> nat \<times> price_heap" where
  "alloc p h = (length h, h @ [p])"

definition modify :: "nat \<Rightarrow> (ModelPricing \<Rightarrow> ModelPricing) \<Rightarrow> price_heap \<Rightarrow> price_heap" where
  "modify a f h = h[a := f (h ! a)]"

lemma heap_simps [simp]:
  "length (modify a f h) = length h" "a \<noteq> b \<Longrightarrow> modify a f h ! b = h ! b"
  "a < length h \<Longrightarrow> modify a f h ! a = f (h ! a)"
  by (simp_all add: modify_def)

section \<open>Fallback prices\<close>

text \<open>Dollars per million tokens: input, output, writing and reading the cache.\<close>

definition fallback_price :: "rat \<Rightarrow> rat \<Rightarrow> rat \<Rightarrow> rat \<Rightarrow> ModelPricing" where
  "fallback_price i out cw cr = zero_pricing\<lparr>mp_InputPricePerToken := i / 10 ^ 6, mp_OutputPricePerToken := out / 10 ^ 6,
     mp_CacheCreationPricePerToken := cw / 10 ^ 6, mp_CacheReadPricePerToken := cr / 10 ^ 6\<rparr>"

definition priority_price :: "rat \<Rightarrow> rat \<Rightarrow> rat \<Rightarrow> ModelPricing \<Rightarrow> ModelPricing" where
  "priority_price i out cr p = p\<lparr>mp_InputPricePerTokenPriority := i / 10 ^ 6,
     mp_OutputPricePerTokenPriority := out / 10 ^ 6, mp_CacheReadPricePerTokenPriority := cr / 10 ^ 6\<rparr>"

definition initFallbackPricing :: price_heap where
  "initFallbackPricing =
    [fallback_price 5 25 6.25 0.5,
     fallback_price 3 15 3.75 0.3,
     fallback_price 3 15 3.75 0.3,
     fallback_price 1 5 1.25 0.1,
     fallback_price 15 75 18.75 1.5,
     fallback_price 0.25 1.25 0.3 0.03,
     fallback_price 2 12 2 0.2,
     priority_price 2.5 20 0.25 (fallback_price 1.25 10 1.25 0.125),
     (priority_price 5 30 0.5 (fallback_price 2.5 15 2.5 0.25))
       \<lparr>mp_LongContextInputThreshold := openAIGPT54LongContextInputThreshold,
        mp_LongContextInputMultiplier := openAIGPT54LongContextInputMultiplier,
        mp_LongContextOutputMultiplier := openAIGPT54LongContextOutputMultiplier\<rparr>,
     fallback_price 0.75 4.5 0 0.075,
     fallback_price 0.2 1.25 0 0.02,
     priority_price 3.5 28 0.35 (fallback_price 1.75 14 1.75 0.175),
     priority_price 3 24 0.3 (fallback_price 1.5 12 1.5 0.15),
     priority_price 3.5 28 0.35 (fallback_price 1.75 14 1.75 0.175)]"

text \<open>The map \<open>fallbackPrices\<close>: which object a name points to. Two names are aliases.\<close>

definition fallbackPrices :: "(string \<times> nat) list" where
  "fallbackPrices =
    [(''claude-opus-4.5'', 0), (''claude-sonnet-4'', 1), (''claude-3-5-sonnet'', 2), (''claude-3-5-haiku'', 3),
     (''claude-3-opus'', 4), (''claude-3-haiku'', 5), (''claude-opus-4.6'', 0), (''gemini-3.1-pro'', 6),
     (''gpt-5.1'', 7), (''gpt-5.4'', 8), (''gpt-5.4-mini'', 9), (''gpt-5.4-nano'', 10), (''gpt-5.2'', 11),
     (''gpt-5.1-codex'', 12), (''gpt-5.2-codex'', 13), (''gpt-5.3-codex'', 12)]"

definition fallback_name :: "string \<Rightarrow> string option" where
  "fallback_name modelLower =
     (let has = Contains modelLower in
      if has ''opus'' then Some (if has ''4.6'' \<or> has ''4-6'' then ''claude-opus-4.6''
        else if has ''4.5'' \<or> has ''4-5'' then ''claude-opus-4.5'' else ''claude-3-opus'')
      else if has ''sonnet'' then Some (if has ''4'' \<and> \<not> has ''3'' then ''claude-sonnet-4'' else ''claude-3-5-sonnet'')
      else if has ''haiku'' then Some (if has ''3-5'' \<or> has ''3.5'' then ''claude-3-5-haiku'' else ''claude-3-haiku'')
      else if has ''claude'' then Some ''claude-sonnet-4''
      else if has ''gemini-3.1-pro'' \<or> has ''gemini-3-1-pro'' then Some ''gemini-3.1-pro''
      else if has ''gpt-5'' \<or> has ''codex'' then
        (let normalized = normalizeCodexModel modelLower in
         if normalized \<in> {''gpt-5.4-mini'', ''gpt-5.4-nano'', ''gpt-5.4'', ''gpt-5.2'', ''gpt-5.2-codex'', ''gpt-5.3-codex'', ''gpt-5.1''}
         then Some normalized
         else if normalized \<in> {''gpt-5.1-codex'', ''gpt-5.1-codex-max'', ''gpt-5.1-codex-mini'', ''codex-mini-latest''}
         then Some ''gpt-5.1-codex''
         else None)
      else None)"

definition getFallbackPricing :: "string \<Rightarrow> nat option" where
  "getFallbackPricing model = (case fallback_name (ToLower model) of None \<Rightarrow> None | Some n \<Rightarrow> map_of fallbackPrices n)"

definition isOpenAIGPT54Model :: "string \<Rightarrow> bool" where
  "isOpenAIGPT54Model model \<longleftrightarrow> normalizeCodexModel (TrimSpace (ToLower model)) = ''gpt-5.4''"

definition applyModelSpecificPricingPolicy :: "string \<Rightarrow> nat \<Rightarrow> price_heap \<Rightarrow> nat \<times> price_heap" where
  "applyModelSpecificPricingPolicy model a h =
     (let p = h ! a in
      if \<not> isOpenAIGPT54Model model then (a, h)
      else if mp_LongContextInputThreshold p > 0 \<and> mp_LongContextInputMultiplier p > 0 \<and> mp_LongContextOutputMultiplier p > 0
      then (a, h)
      else alloc (p\<lparr>
        mp_LongContextInputThreshold := (if mp_LongContextInputThreshold p \<le> 0 then openAIGPT54LongContextInputThreshold
          else mp_LongContextInputThreshold p),
        mp_LongContextInputMultiplier := (if mp_LongContextInputMultiplier p \<le> 0 then openAIGPT54LongContextInputMultiplier
          else mp_LongContextInputMultiplier p),
        mp_LongContextOutputMultiplier := (if mp_LongContextOutputMultiplier p \<le> 0 then openAIGPT54LongContextOutputMultiplier
          else mp_LongContextOutputMultiplier p)\<rparr>) h)"

section \<open>The price of a model\<close>

record pricing_service =
  ps_families :: "(string \<times> string list) list"
  ps_data :: price_data

definition pricing_lookup :: "pricing_service option \<Rightarrow> string \<Rightarrow> LiteLLMModelPricing option" where
  "pricing_lookup svc model =
     (case svc of None \<Rightarrow> None | Some s \<Rightarrow> litellm_GetModelPricing (ps_families s) (ps_data s) model)"

definition from_litellm :: "LiteLLMModelPricing \<Rightarrow> ModelPricing" where
  "from_litellm l =
     (let price5m = ll_CacheCreationInputTokenCost l; price1h = ll_CacheCreationInputTokenCostAbove1hr l
      in \<lparr>mp_InputPricePerToken = ll_InputCostPerToken l, mp_InputPricePerTokenPriority = ll_InputCostPerTokenPriority l,
          mp_OutputPricePerToken = ll_OutputCostPerToken l, mp_OutputPricePerTokenPriority = ll_OutputCostPerTokenPriority l,
          mp_CacheCreationPricePerToken = ll_CacheCreationInputTokenCost l,
          mp_CacheReadPricePerToken = ll_CacheReadInputTokenCost l,
          mp_CacheReadPricePerTokenPriority = ll_CacheReadInputTokenCostPriority l,
          mp_CacheCreation5mPrice = price5m, mp_CacheCreation1hPrice = price1h,
          mp_SupportsCacheBreakdown = (price1h > 0 \<and> price1h > price5m),
          mp_LongContextInputThreshold = ll_LongContextInputTokenThreshold l,
          mp_LongContextInputMultiplier = ll_LongContextInputCostMultiplier l,
          mp_LongContextOutputMultiplier = ll_LongContextOutputCostMultiplier l,
          mp_ImageOutputPricePerToken = ll_OutputCostPerImageToken l\<rparr>)"

definition GetModelPricing :: "pricing_service option \<Rightarrow> string \<Rightarrow> price_heap \<Rightarrow> (go_error + nat) \<times> price_heap" where
  "GetModelPricing svc model0 h =
     (let model = ToLower model0 in
      case pricing_lookup svc model of
        Some l \<Rightarrow> let (a, h1) = alloc (from_litellm l) h; (b, h2) = applyModelSpecificPricingPolicy model a h1 in (Inr b, h2)
      | None \<Rightarrow> (case getFallbackPricing model of
          Some a \<Rightarrow> let (b, h1) = applyModelSpecificPricingPolicy model a h in (Inr b, h1)
        | None \<Rightarrow> (Inl (PlainErr (''pricing not found for model: '' @ model)), h)))"

definition set_price :: "rat option \<Rightarrow> (rat \<Rightarrow> ModelPricing \<Rightarrow> ModelPricing) \<Rightarrow> ModelPricing \<Rightarrow> ModelPricing" where
  "set_price x f p = (case x of None \<Rightarrow> p | Some v \<Rightarrow> f v p)"

text \<open>The flat prices of a channel, written over a price object.\<close>

definition set_input :: "rat \<Rightarrow> ModelPricing \<Rightarrow> ModelPricing" where
  "set_input v p = p\<lparr>mp_InputPricePerToken := v, mp_InputPricePerTokenPriority := v\<rparr>"
definition set_output :: "rat \<Rightarrow> ModelPricing \<Rightarrow> ModelPricing" where
  "set_output v p = p\<lparr>mp_OutputPricePerToken := v, mp_OutputPricePerTokenPriority := v\<rparr>"
definition set_cache_write :: "rat \<Rightarrow> ModelPricing \<Rightarrow> ModelPricing" where
  "set_cache_write v p = p\<lparr>mp_CacheCreationPricePerToken := v, mp_CacheCreation5mPrice := v, mp_CacheCreation1hPrice := v\<rparr>"
definition set_cache_read :: "rat \<Rightarrow> ModelPricing \<Rightarrow> ModelPricing" where
  "set_cache_read v p = p\<lparr>mp_CacheReadPricePerToken := v, mp_CacheReadPricePerTokenPriority := v\<rparr>"
definition set_image :: "rat \<Rightarrow> ModelPricing \<Rightarrow> ModelPricing" where
  "set_image v p = p\<lparr>mp_ImageOutputPricePerToken := v\<rparr>"

lemmas set_price_defs = set_price_def set_input_def set_output_def set_cache_write_def set_cache_read_def set_image_def

definition overridden :: "ChannelModelPricing \<Rightarrow> ModelPricing \<Rightarrow> ModelPricing" where
  "overridden ch p =
     set_price (cp_ImageOutputPrice ch) set_image (set_price (cp_CacheReadPrice ch) set_cache_read
       (set_price (cp_CacheWritePrice ch) set_cache_write (set_price (cp_OutputPrice ch) set_output
         (set_price (cp_InputPrice ch) set_input p))))"

definition GetModelPricingWithChannel ::
    "pricing_service option \<Rightarrow> string \<Rightarrow> ChannelModelPricing option \<Rightarrow> price_heap \<Rightarrow> (go_error + nat) \<times> price_heap" where
  "GetModelPricingWithChannel svc model channelPricing h =
     (case GetModelPricing svc model h of
        (Inl e, h1) \<Rightarrow> (Inl e, h1)
      | (Inr a, h1) \<Rightarrow> (case channelPricing of
            None \<Rightarrow> (Inr a, h1) | Some ch \<Rightarrow> (Inr a, modify a (overridden ch) h1)))"

section \<open>The resolver\<close>

definition PricingSourceChannel :: string where "PricingSourceChannel = ''channel''"
definition PricingSourceLiteLLM :: string where "PricingSourceLiteLLM = ''litellm''"
definition PricingSourceFallback :: string where "PricingSourceFallback = ''fallback''"

lemmas source_defs = PricingSourceChannel_def PricingSourceLiteLLM_def PricingSourceFallback_def

record ResolvedPricing =
  rp_Mode :: string
  rp_BasePricing :: "nat option"
  rp_Intervals :: "PricingInterval list"
  rp_RequestTiers :: "PricingInterval list"
  rp_DefaultPerRequestPrice :: rat
  rp_Source :: string
  rp_SupportsCacheBreakdown :: bool

type_synonym channel_prices = "int \<Rightarrow> string \<Rightarrow> ChannelModelPricing option"

definition filterValidIntervals :: "PricingInterval list \<Rightarrow> PricingInterval list" where
  "filterValidIntervals ivs = filter (\<lambda>iv. \<not> no_price iv) ivs"

definition resolveBasePricing :: "pricing_service option \<Rightarrow> string \<Rightarrow> price_heap \<Rightarrow> (nat option \<times> string) \<times> price_heap" where
  "resolveBasePricing svc model h =
     (case GetModelPricing svc model h of
        (Inl _, h1) \<Rightarrow> ((None, PricingSourceFallback), h1)
      | (Inr a, h1) \<Rightarrow> ((Some a, PricingSourceLiteLLM), h1))"

definition applyTokenOverrides :: "ChannelModelPricing \<Rightarrow> ResolvedPricing \<Rightarrow> price_heap \<Rightarrow> ResolvedPricing \<times> price_heap" where
  "applyTokenOverrides chPricing r h =
     (let validIntervals = filterValidIntervals (cp_Intervals chPricing) in
      if validIntervals \<noteq> [] then (r\<lparr>rp_Intervals := validIntervals\<rparr>, h)
      else let (a, h1) = (case rp_BasePricing r of Some a \<Rightarrow> (a, h) | None \<Rightarrow> alloc zero_pricing h)
           in (r\<lparr>rp_BasePricing := Some a\<rparr>, modify a (overridden chPricing) h1))"

definition applyRequestTierOverrides :: "ChannelModelPricing \<Rightarrow> ResolvedPricing \<Rightarrow> ResolvedPricing" where
  "applyRequestTierOverrides chPricing r =
     r\<lparr>rp_RequestTiers := filterValidIntervals (cp_Intervals chPricing),
       rp_DefaultPerRequestPrice := (case cp_PerRequestPrice chPricing of Some x \<Rightarrow> x
         | None \<Rightarrow> rp_DefaultPerRequestPrice r)\<rparr>"

definition applyChannelOverrides ::
    "channel_prices \<Rightarrow> int \<Rightarrow> string \<Rightarrow> ResolvedPricing \<Rightarrow> price_heap \<Rightarrow> ResolvedPricing \<times> price_heap" where
  "applyChannelOverrides chan groupID model r h =
     (case chan groupID model of
        None \<Rightarrow> (r, h)
      | Some ch \<Rightarrow>
          let mode = (if cp_BillingMode ch = [] then BillingModeToken else cp_BillingMode ch);
              r1 = r\<lparr>rp_Source := PricingSourceChannel, rp_Mode := mode\<rparr>
          in if mode = BillingModeToken then applyTokenOverrides ch r1 h
             else if mode \<in> {BillingModePerRequest, BillingModeImage} then (applyRequestTierOverrides ch r1, h)
             else (r1, h))"

definition base_resolved :: "nat option \<times> string \<Rightarrow> price_heap \<Rightarrow> ResolvedPricing" where
  "base_resolved bs h =
     \<lparr>rp_Mode = BillingModeToken, rp_BasePricing = fst bs, rp_Intervals = [], rp_RequestTiers = [],
      rp_DefaultPerRequestPrice = 0, rp_Source = snd bs,
      rp_SupportsCacheBreakdown = (case fst bs of None \<Rightarrow> False | Some a \<Rightarrow> mp_SupportsCacheBreakdown (h ! a))\<rparr>"

definition Resolve ::
    "pricing_service option \<Rightarrow> channel_prices \<Rightarrow> string \<Rightarrow> int option \<Rightarrow> price_heap \<Rightarrow> ResolvedPricing \<times> price_heap" where
  "Resolve svc chan model groupID h =
     (let (bs, h1) = resolveBasePricing svc model h; r = base_resolved bs h1
      in case groupID of None \<Rightarrow> (r, h1) | Some g \<Rightarrow> applyChannelOverrides chan g model r h1)"

definition intervalToModelPricing :: "PricingInterval \<Rightarrow> bool \<Rightarrow> ModelPricing" where
  "intervalToModelPricing iv breakdown =
     set_price (iv_CacheReadPrice iv) set_cache_read (set_price (iv_CacheWritePrice iv) set_cache_write
       (set_price (iv_OutputPrice iv) set_output (set_price (iv_InputPrice iv) set_input
         (zero_pricing\<lparr>mp_SupportsCacheBreakdown := breakdown\<rparr>))))"

definition GetIntervalPricing :: "ResolvedPricing \<Rightarrow> int \<Rightarrow> price_heap \<Rightarrow> nat option \<times> price_heap" where
  "GetIntervalPricing r totalContextTokens h =
     (if rp_Intervals r = [] then (rp_BasePricing r, h)
      else case FindMatchingInterval (rp_Intervals r) totalContextTokens of
        None \<Rightarrow> (rp_BasePricing r, h)
      | Some iv \<Rightarrow> let (a, h1) = alloc (intervalToModelPricing iv (rp_SupportsCacheBreakdown r)) h in (Some a, h1))"

definition GetRequestTierPrice :: "ResolvedPricing \<Rightarrow> string \<Rightarrow> rat" where
  "GetRequestTierPrice r tierLabel =
     (case find (\<lambda>t. iv_TierLabel t = tierLabel \<and> iv_PerRequestPrice t \<noteq> None) (rp_RequestTiers r) of
        Some t \<Rightarrow> price_or_zero (iv_PerRequestPrice t) | None \<Rightarrow> 0)"

definition GetRequestTierPriceByContext :: "ResolvedPricing \<Rightarrow> int \<Rightarrow> rat" where
  "GetRequestTierPriceByContext r totalContextTokens =
     (case FindMatchingInterval (rp_RequestTiers r) totalContextTokens of
        Some t \<Rightarrow> price_or_zero (iv_PerRequestPrice t) | None \<Rightarrow> 0)"

section \<open>Costs\<close>

definition shouldApplySessionLongContextPricing :: "UsageTokens \<Rightarrow> ModelPricing \<Rightarrow> bool" where
  "shouldApplySessionLongContextPricing t p \<longleftrightarrow>
     mp_LongContextInputThreshold p > 0 \<and>
     \<not> (mp_LongContextInputMultiplier p \<le> 1 \<and> mp_LongContextOutputMultiplier p \<le> 1) \<and>
     ut_InputTokens t + ut_CacheReadTokens t > mp_LongContextInputThreshold p"

definition computeCacheCreationCost :: "ModelPricing \<Rightarrow> UsageTokens \<Rightarrow> rat" where
  "computeCacheCreationCost p t =
     (if mp_SupportsCacheBreakdown p \<and> (mp_CacheCreation5mPrice p > 0 \<or> mp_CacheCreation1hPrice p > 0)
      then if ut_CacheCreation5mTokens t = 0 \<and> ut_CacheCreation1hTokens t = 0 \<and> ut_CacheCreationTokens t > 0
           then of_int (ut_CacheCreationTokens t) * mp_CacheCreation5mPrice p
           else of_int (ut_CacheCreation5mTokens t) * mp_CacheCreation5mPrice p +
                of_int (ut_CacheCreation1hTokens t) * mp_CacheCreation1hPrice p
      else of_int (ut_CacheCreationTokens t) * mp_CacheCreationPricePerToken p)"

definition positive_or_one :: "rat \<Rightarrow> rat" where
  "positive_or_one x = (if x \<le> 0 then 1 else x)"

text \<open>The prices of a token of input, of output and of cached input, and the factor of the service tier.\<close>

definition tier_prices :: "ModelPricing \<Rightarrow> string \<Rightarrow> rat \<times> rat \<times> rat \<times> rat" where
  "tier_prices p tier =
     (let prefer = (\<lambda>x y. if x > 0 then x else y) in
      if usePriorityServiceTierPricing tier p
      then (prefer (mp_InputPricePerTokenPriority p) (mp_InputPricePerToken p),
            prefer (mp_OutputPricePerTokenPriority p) (mp_OutputPricePerToken p),
            prefer (mp_CacheReadPricePerTokenPriority p) (mp_CacheReadPricePerToken p), 1)
      else (mp_InputPricePerToken p, mp_OutputPricePerToken p, mp_CacheReadPricePerToken p, serviceTierCostMultiplier tier))"

definition computeTokenBreakdown :: "ModelPricing \<Rightarrow> UsageTokens \<Rightarrow> rat \<Rightarrow> string \<Rightarrow> bool \<Rightarrow> CostBreakdown" where
  "computeTokenBreakdown p t rateMultiplier tier applyLongCtx =
     (let (inputPrice0, outputPrice0, cacheReadPrice, m) = tier_prices p tier;
          long = (applyLongCtx \<and> shouldApplySessionLongContextPricing t p);
          inputPrice = (if long then inputPrice0 * mp_LongContextInputMultiplier p else inputPrice0);
          outputPrice = (if long then outputPrice0 * mp_LongContextOutputMultiplier p else outputPrice0);
          imgPrice = (if mp_ImageOutputPricePerToken p = 0 then outputPrice else mp_ImageOutputPricePerToken p);
          inp = of_int (ut_InputTokens t) * inputPrice * m;
          out = of_int (max 0 (ut_OutputTokens t - ut_ImageOutputTokens t)) * outputPrice * m;
          img = (if ut_ImageOutputTokens t > 0 then of_int (ut_ImageOutputTokens t) * imgPrice * m else 0);
          cc = computeCacheCreationCost p t * m;
          cr = of_int (ut_CacheReadTokens t) * cacheReadPrice * m;
          total = inp + out + img + cc + cr
      in \<lparr>cb_InputCost = inp, cb_OutputCost = out, cb_ImageOutputCost = img, cb_CacheCreationCost = cc,
          cb_CacheReadCost = cr, cb_TotalCost = total, cb_ActualCost = total * positive_or_one rateMultiplier,
          cb_BillingMode = ''''\<rparr>)"

type_synonym cost_result = "(go_error + CostBreakdown) \<times> price_heap"

definition calculateCostInternal ::
    "pricing_service option \<Rightarrow> string \<Rightarrow> UsageTokens \<Rightarrow> rat \<Rightarrow> string \<Rightarrow> ChannelModelPricing option \<Rightarrow> price_heap \<Rightarrow> cost_result" where
  "calculateCostInternal svc model tokens rateMultiplier tier channelPricing h =
     (case GetModelPricingWithChannel svc model channelPricing h of
        (Inl e, h1) \<Rightarrow> (Inl e, h1)
      | (Inr a, h1) \<Rightarrow> (Inr (computeTokenBreakdown (h1 ! a) tokens rateMultiplier tier True), h1))"

definition CalculateCost :: "pricing_service option \<Rightarrow> string \<Rightarrow> UsageTokens \<Rightarrow> rat \<Rightarrow> price_heap \<Rightarrow> cost_result" where
  "CalculateCost svc model tokens rateMultiplier h = calculateCostInternal svc model tokens rateMultiplier '''' None h"

definition CalculateCostWithServiceTier ::
    "pricing_service option \<Rightarrow> string \<Rightarrow> UsageTokens \<Rightarrow> rat \<Rightarrow> string \<Rightarrow> price_heap \<Rightarrow> cost_result" where
  "CalculateCostWithServiceTier svc model tokens rateMultiplier tier h =
     calculateCostInternal svc model tokens rateMultiplier tier None h"

definition CalculateCostWithConfig :: "rat \<Rightarrow> pricing_service option \<Rightarrow> string \<Rightarrow> UsageTokens \<Rightarrow> price_heap \<Rightarrow> cost_result" where
  "CalculateCostWithConfig configRate svc model tokens h =
     CalculateCost svc model tokens (positive_or_one configRate) h"

definition no_tokens :: UsageTokens where
  "no_tokens = \<lparr>ut_InputTokens = 0, ut_OutputTokens = 0, ut_CacheCreationTokens = 0, ut_CacheReadTokens = 0,
     ut_CacheCreation5mTokens = 0, ut_CacheCreation1hTokens = 0, ut_ImageOutputTokens = 0\<rparr>"

definition GetEstimatedCost :: "rat \<Rightarrow> pricing_service option \<Rightarrow> string \<Rightarrow> int \<Rightarrow> int \<Rightarrow> price_heap \<Rightarrow> (go_error + rat) \<times> price_heap" where
  "GetEstimatedCost configRate svc model inputTokens outputTokens h =
     (case CalculateCostWithConfig configRate svc model
         (no_tokens\<lparr>ut_InputTokens := inputTokens, ut_OutputTokens := outputTokens\<rparr>) h of
        (Inl e, h1) \<Rightarrow> (Inl e, h1)
      | (Inr c, h1) \<Rightarrow> (Inr (cb_ActualCost c), h1))"

text \<open>Tokens within and above a threshold: cached input fills the threshold first.\<close>

definition split_tokens :: "UsageTokens \<Rightarrow> int \<Rightarrow> UsageTokens \<times> UsageTokens" where
  "split_tokens t threshold =
     (let (inCache, inInput, outCache, outInput) =
          (if ut_CacheReadTokens t \<ge> threshold
           then (threshold, 0, ut_CacheReadTokens t - threshold, ut_InputTokens t)
           else (ut_CacheReadTokens t, threshold - ut_CacheReadTokens t, 0,
                 ut_InputTokens t - (threshold - ut_CacheReadTokens t)))
      in (t\<lparr>ut_InputTokens := inInput, ut_CacheReadTokens := inCache\<rparr>,
          no_tokens\<lparr>ut_InputTokens := outInput, ut_CacheReadTokens := outCache\<rparr>))"

definition CalculateCostWithLongContext ::
    "pricing_service option \<Rightarrow> string \<Rightarrow> UsageTokens \<Rightarrow> rat \<Rightarrow> int \<Rightarrow> rat \<Rightarrow> price_heap \<Rightarrow> cost_result" where
  "CalculateCostWithLongContext svc model tokens rateMultiplier threshold extraMultiplier h =
     (if threshold \<le> 0 \<or> extraMultiplier \<le> 1 then CalculateCost svc model tokens rateMultiplier h
      else if ut_CacheReadTokens tokens + ut_InputTokens tokens \<le> threshold
      then CalculateCost svc model tokens rateMultiplier h
      else let (inRange, outRange) = split_tokens tokens threshold in
        (case CalculateCost svc model inRange rateMultiplier h of
           (Inl e, h1) \<Rightarrow> (Inl e, h1)
         | (Inr c, h1) \<Rightarrow> (case CalculateCost svc model outRange (rateMultiplier * extraMultiplier) h1 of
             (Inl e, h2) \<Rightarrow> (Inl (WrapErr ''out-range cost'' e), h2)
           | (Inr d, h2) \<Rightarrow> (Inr \<lparr>cb_InputCost = cb_InputCost c + cb_InputCost d, cb_OutputCost = cb_OutputCost c,
               cb_ImageOutputCost = cb_ImageOutputCost c, cb_CacheCreationCost = cb_CacheCreationCost c,
               cb_CacheReadCost = cb_CacheReadCost c + cb_CacheReadCost d,
               cb_TotalCost = cb_TotalCost c + cb_TotalCost d, cb_ActualCost = cb_ActualCost c + cb_ActualCost d,
               cb_BillingMode = ''''\<rparr>, h2))))"

record CostInput =
  ci_Model :: string
  ci_GroupID :: "int option"
  ci_Tokens :: UsageTokens
  ci_RequestCount :: int
  ci_SizeTier :: string
  ci_RateMultiplier :: rat
  ci_ServiceTier :: string

definition billing_calculateTokenCost :: "ResolvedPricing \<Rightarrow> CostInput \<Rightarrow> price_heap \<Rightarrow> cost_result" where
  "billing_calculateTokenCost r input h =
     (let totalContext = ut_InputTokens (ci_Tokens input) + ut_CacheReadTokens (ci_Tokens input) in
      case GetIntervalPricing r totalContext h of
        (None, h1) \<Rightarrow> (Inl (PlainErr (''no pricing available for model: '' @ ci_Model input)), h1)
      | (Some a, h1) \<Rightarrow>
          let (b, h2) = applyModelSpecificPricingPolicy (ci_Model input) a h1
          in (Inr (computeTokenBreakdown (h2 ! b) (ci_Tokens input) (ci_RateMultiplier input) (ci_ServiceTier input)
                (rp_Intervals r = [])), h2))"

definition calculatePerRequestCost :: "ResolvedPricing \<Rightarrow> CostInput \<Rightarrow> CostBreakdown" where
  "calculatePerRequestCost r input =
     (let count = (if ci_RequestCount input \<le> 0 then 1 else ci_RequestCount input);
          or_else = (\<lambda>x y. if x = 0 then y else x);
          unitPrice = or_else (if ci_SizeTier input \<noteq> [] then GetRequestTierPrice r (ci_SizeTier input) else 0)
            (or_else (GetRequestTierPriceByContext r (ut_InputTokens (ci_Tokens input) + ut_CacheReadTokens (ci_Tokens input)))
              (rp_DefaultPerRequestPrice r));
          totalCost = unitPrice * of_int count
      in zero_cost\<lparr>cb_TotalCost := totalCost, cb_ActualCost := totalCost * ci_RateMultiplier input\<rparr>)"

definition with_mode :: "string \<Rightarrow> cost_result \<Rightarrow> cost_result" where
  "with_mode mode res =
     (case res of
        (Inl e, h) \<Rightarrow> (Inl e, h)
      | (Inr c, h) \<Rightarrow> (Inr (c\<lparr>cb_BillingMode := (if mode = [] then BillingModeToken else mode)\<rparr>), h))"

definition CalculateCostUnified ::
    "pricing_service option \<Rightarrow> channel_prices option \<Rightarrow> ResolvedPricing option \<Rightarrow> CostInput \<Rightarrow> price_heap \<Rightarrow> cost_result" where
  "CalculateCostUnified svc resolver preresolved input h =
     (case resolver of
        None \<Rightarrow> calculateCostInternal svc (ci_Model input) (ci_Tokens input) (ci_RateMultiplier input) (ci_ServiceTier input) None h
      | Some chan \<Rightarrow>
          let (r, h1) = (case preresolved of Some r \<Rightarrow> (r, h) | None \<Rightarrow> Resolve svc chan (ci_Model input) (ci_GroupID input) h);
              inp = input\<lparr>ci_RateMultiplier := positive_or_one (ci_RateMultiplier input)\<rparr>
          in with_mode (rp_Mode r)
               (if rp_Mode r \<in> {BillingModePerRequest, BillingModeImage} then (Inr (calculatePerRequestCost r inp), h1)
                else billing_calculateTokenCost r inp h1))"

section \<open>Images\<close>

record ImagePriceConfig =
  ip_Price1K :: "rat option"
  ip_Price2K :: "rat option"
  ip_Price4K :: "rat option"

definition getDefaultImagePrice :: "pricing_service option \<Rightarrow> string \<Rightarrow> string \<Rightarrow> rat" where
  "getDefaultImagePrice svc model imageSize =
     (let base0 = (case pricing_lookup svc model of
            Some l \<Rightarrow> if ll_OutputCostPerImage l > 0 then ll_OutputCostPerImage l else 0 | None \<Rightarrow> 0);
          basePrice = (if base0 \<le> 0 then 0.134 else base0)
      in if imageSize = ''2K'' then basePrice * 1.5 else if imageSize = ''4K'' then basePrice * 2 else basePrice)"

definition getImageUnitPrice :: "pricing_service option \<Rightarrow> string \<Rightarrow> string \<Rightarrow> ImagePriceConfig option \<Rightarrow> rat" where
  "getImageUnitPrice svc model imageSize groupConfig =
     (let configured = (case groupConfig of
            None \<Rightarrow> None
          | Some c \<Rightarrow> if imageSize = ''1K'' then ip_Price1K c else if imageSize = ''2K'' then ip_Price2K c
                      else if imageSize = ''4K'' then ip_Price4K c else None)
      in case configured of Some x \<Rightarrow> x | None \<Rightarrow> getDefaultImagePrice svc model imageSize)"

definition CalculateImageCost ::
    "pricing_service option \<Rightarrow> string \<Rightarrow> string \<Rightarrow> int \<Rightarrow> ImagePriceConfig option \<Rightarrow> rat \<Rightarrow> CostBreakdown" where
  "CalculateImageCost svc model imageSize imageCount groupConfig rateMultiplier =
     (if imageCount \<le> 0 then zero_cost
      else let totalCost = getImageUnitPrice svc model imageSize groupConfig * of_int imageCount
           in zero_cost\<lparr>cb_TotalCost := totalCost, cb_ActualCost := totalCost * positive_or_one rateMultiplier,
                cb_BillingMode := BillingModeImage\<rparr>)"

text \<open>The models a client may ask about.\<close>

definition ListSupportedModels :: "string list" where
  "ListSupportedModels = map fst fallbackPrices"

definition IsModelSupported :: "string \<Rightarrow> bool" where
  "IsModelSupported model \<longleftrightarrow> list_ex (Contains (ToLower model)) [''claude'', ''opus'', ''sonnet'', ''haiku'']"

end
