(* ===== verification/UsageCost.thy ===== *)
theory UsageCost
  imports Domain Pricing ChannelService UsageBilling
begin

text \<open>
  From a finished request to its charge: the cost of a request and \<open>recordUsageCore\<close> in
  \<open>backend/internal/service/gateway_service.go\<close>, the cost booked on the account in
  \<open>account_stats_pricing.go\<close>, the rate of a user in \<open>user_group_rate_resolver.go\<close>, and the command for
  the transaction of \<open>UsageBilling\<close>, and the log, which is written best effort
  (\<open>repository/usage_log_repo.go\<close>).

  The records hold the fields that the cost and the charge depend on. Each lookup of a channel reads
  the snapshot that is current at that moment, so there is one snapshot per lookup, or none when it
  cannot be loaded. Channel service, price resolver and billing repository are wired, as they are in the
  running program.
\<close>

section \<open>Requests\<close>

record ClaudeUsage =
  cu_InputTokens :: int
  cu_OutputTokens :: int
  cu_CacheCreationInputTokens :: int
  cu_CacheReadInputTokens :: int
  cu_CacheCreation5mTokens :: int
  cu_CacheCreation1hTokens :: int
  cu_ImageOutputTokens :: int
  cu_OriginalCacheCreationInputTokens :: int

record ForwardResult =
  fr_RequestID :: string
  fr_Usage :: ClaudeUsage
  fr_Model :: string
  fr_UpstreamModel :: string
  fr_ReasoningEffort :: "string option"
  fr_ImageCount :: int
  fr_ImageSize :: string

record usage_group =
  ug_ID :: int
  ug_RateMultiplier :: rat
  ug_ImagePrice1K :: "rat option"
  ug_ImagePrice2K :: "rat option"
  ug_ImagePrice4K :: "rat option"
  ug_SubscriptionType :: bool

record usage_key =
  uk_ID :: int
  uk_GroupID :: "int option"
  uk_Group :: "usage_group option"
  uk_Quota :: rat
  uk_RateLimit5h :: rat
  uk_RateLimit1d :: rat
  uk_RateLimit7d :: rat

text \<open>Of an account, its type and the fields of its JSON column that are read here.\<close>

record usage_account =
  ua_ID :: int
  ua_Platform :: string
  ua_Type :: string
  ua_RateMultiplier :: "rat option"
  ua_CacheTTLOverrideEnabled :: "bool option"
  ua_CacheTTLOverrideTarget :: "string option"
  ua_QuotaLimit :: rat
  ua_QuotaDailyLimit :: rat
  ua_QuotaWeeklyLimit :: rat


definition IsAnthropicOAuthOrSetupToken :: "usage_account \<Rightarrow> bool" where
  "IsAnthropicOAuthOrSetupToken a \<longleftrightarrow>
     ua_Platform a = PlatformAnthropic \<and> (ua_Type a = AccountTypeOAuth \<or> ua_Type a = AccountTypeSetupToken)"

definition IsAPIKeyOrBedrock :: "usage_account \<Rightarrow> bool" where
  "IsAPIKeyOrBedrock a \<longleftrightarrow> ua_Type a = AccountTypeAPIKey \<or> ua_Type a = AccountTypeBedrock"

definition HasAnyQuotaLimit :: "usage_account \<Rightarrow> bool" where
  "HasAnyQuotaLimit a \<longleftrightarrow> ua_QuotaLimit a > 0 \<or> ua_QuotaDailyLimit a > 0 \<or> ua_QuotaWeeklyLimit a > 0"

definition BillingRateMultiplier :: "usage_account \<Rightarrow> rat" where
  "BillingRateMultiplier a = (case ua_RateMultiplier a of None \<Rightarrow> 1 | Some r \<Rightarrow> if r < 0 then 1 else r)"

definition IsCacheTTLOverrideEnabled :: "usage_account \<Rightarrow> bool" where
  "IsCacheTTLOverrideEnabled a \<longleftrightarrow> IsAnthropicOAuthOrSetupToken a \<and> ua_CacheTTLOverrideEnabled a = Some True"

definition GetCacheTTLOverrideTarget :: "usage_account \<Rightarrow> string" where
  "GetCacheTTLOverrideTarget a =
     (case ua_CacheTTLOverrideTarget a of Some t \<Rightarrow> if t \<in> {''5m'', ''1h''} then t else ''5m'' | None \<Rightarrow> ''5m'')"

definition HasRateLimits :: "usage_key \<Rightarrow> bool" where
  "HasRateLimits k \<longleftrightarrow> uk_RateLimit5h k > 0 \<or> uk_RateLimit1d k > 0 \<or> uk_RateLimit7d k > 0"

text \<open>All tokens written to the cache are booked under one lifetime.\<close>

definition applyCacheTTLOverride :: "ClaudeUsage \<Rightarrow> string \<Rightarrow> ClaudeUsage" where
  "applyCacheTTLOverride u0 target =
     (let u = (if cu_CacheCreation5mTokens u0 = 0 \<and> cu_CacheCreation1hTokens u0 = 0 \<and> cu_CacheCreationInputTokens u0 > 0
            then u0\<lparr>cu_CacheCreation5mTokens := cu_CacheCreationInputTokens u0\<rparr> else u0);
          total = cu_CacheCreation5mTokens u + cu_CacheCreation1hTokens u
      in if total = 0 then u
         else if target = ''1h'' then u\<lparr>cu_CacheCreation1hTokens := total, cu_CacheCreation5mTokens := 0\<rparr>
         else u\<lparr>cu_CacheCreation5mTokens := total, cu_CacheCreation1hTokens := 0\<rparr>)"

text \<open>
  The rate of a user in a group: what the cache has, otherwise the row of the user, otherwise the
  default. The second component is what is put into the cache.
\<close>

definition rate_Resolve :: "int \<Rightarrow> int \<Rightarrow> rat option \<Rightarrow> (go_error + rat option) \<Rightarrow> rat \<Rightarrow> rat \<times> rat option" where
  "rate_Resolve userID groupID cached row groupDefault =
     (if userID \<le> 0 \<or> groupID \<le> 0 then (groupDefault, None)
      else case cached of Some m \<Rightarrow> (m, None)
      | None \<Rightarrow> (case row of
          Inl _ \<Rightarrow> (groupDefault, None)
        | Inr r \<Rightarrow> let m = (case r of Some x \<Rightarrow> x | None \<Rightarrow> groupDefault) in (m, Some m)))"

section \<open>The cost of a request\<close>

definition tokens_of :: "ClaudeUsage \<Rightarrow> UsageTokens" where
  "tokens_of u = \<lparr>ut_InputTokens = cu_InputTokens u, ut_OutputTokens = cu_OutputTokens u,
     ut_CacheCreationTokens = cu_CacheCreationInputTokens u, ut_CacheReadTokens = cu_CacheReadInputTokens u,
     ut_CacheCreation5mTokens = cu_CacheCreation5mTokens u, ut_CacheCreation1hTokens = cu_CacheCreation1hTokens u,
     ut_ImageOutputTokens = cu_ImageOutputTokens u\<rparr>"

definition channel_prices_of :: "channelCache option \<Rightarrow> channel_prices" where
  "channel_prices_of c gid model = (case c of None \<Rightarrow> None | Some c \<Rightarrow> lookup_price c gid model)"

definition resolveChannelPricing ::
    "pricing_service option \<Rightarrow> channel_prices \<Rightarrow> string \<Rightarrow> usage_key \<Rightarrow> price_heap \<Rightarrow> ResolvedPricing option \<times> price_heap" where
  "resolveChannelPricing svc chan billingModel apiKey h =
     (case uk_Group apiKey of
        None \<Rightarrow> (None, h)
      | Some g \<Rightarrow> let (r, h1) = Resolve svc chan billingModel (Some (ug_ID g)) h
          in (if rp_Source r = PricingSourceChannel then Some r else None, h1))"

definition unified_input :: "string \<Rightarrow> usage_key \<Rightarrow> UsageTokens \<Rightarrow> rat \<Rightarrow> CostInput" where
  "unified_input billingModel apiKey tokens multiplier =
     \<lparr>ci_Model = billingModel, ci_GroupID = map_option ug_ID (uk_Group apiKey), ci_Tokens = tokens, ci_RequestCount = 1,
      ci_SizeTier = '''', ci_RateMultiplier = multiplier, ci_ServiceTier = ''''\<rparr>"

definition cost_or_zero :: "cost_result \<Rightarrow> CostBreakdown \<times> price_heap" where
  "cost_or_zero r = (case r of (Inl _, h) \<Rightarrow> (zero_cost, h) | (Inr c, h) \<Rightarrow> (c, h))"

definition group_images :: "usage_group \<Rightarrow> ImagePriceConfig" where
  "group_images g = \<lparr>ip_Price1K = ug_ImagePrice1K g, ip_Price2K = ug_ImagePrice2K g, ip_Price4K = ug_ImagePrice4K g\<rparr>"

definition gateway_calculateImageCost ::
    "pricing_service option \<Rightarrow> channel_prices \<Rightarrow> ForwardResult \<Rightarrow> usage_key \<Rightarrow> string \<Rightarrow> rat \<Rightarrow> price_heap \<Rightarrow> CostBreakdown \<times> price_heap" where
  "gateway_calculateImageCost svc chan result apiKey billingModel multiplier h =
     (case resolveChannelPricing svc chan billingModel apiKey h of
        (Some r, h1) \<Rightarrow>
          let tokens = no_tokens\<lparr>ut_InputTokens := cu_InputTokens (fr_Usage result),
                ut_OutputTokens := cu_OutputTokens (fr_Usage result),
                ut_ImageOutputTokens := cu_ImageOutputTokens (fr_Usage result)\<rparr>
          in cost_or_zero (CalculateCostUnified svc (Some chan) (Some r) (unified_input billingModel apiKey tokens multiplier) h1)
      | (None, h1) \<Rightarrow>
          (CalculateImageCost svc billingModel (fr_ImageSize result) (fr_ImageCount result)
             (map_option group_images (uk_Group apiKey)) multiplier, h1))"

record recordUsageOpts =
  ro_LongContextThreshold :: int
  ro_LongContextMultiplier :: rat

definition gateway_calculateTokenCost ::
    "pricing_service option \<Rightarrow> channel_prices \<Rightarrow> ForwardResult \<Rightarrow> usage_key \<Rightarrow> string \<Rightarrow> rat \<Rightarrow> recordUsageOpts \<Rightarrow> price_heap \<Rightarrow>
     CostBreakdown \<times> price_heap" where
  "gateway_calculateTokenCost svc chan result apiKey billingModel multiplier opts h =
     (let tokens = tokens_of (fr_Usage result) in
      cost_or_zero (case resolveChannelPricing svc chan billingModel apiKey h of
          (Some r, h1) \<Rightarrow>
            CalculateCostUnified svc (Some chan) (Some r) (unified_input billingModel apiKey tokens multiplier) h1
        | (None, h1) \<Rightarrow>
            if ro_LongContextThreshold opts > 0
            then CalculateCostWithLongContext svc billingModel tokens multiplier (ro_LongContextThreshold opts)
                   (ro_LongContextMultiplier opts) h1
            else CalculateCost svc billingModel tokens multiplier h1))"

definition calculateRecordUsageCost ::
    "pricing_service option \<Rightarrow> channel_prices \<Rightarrow> ForwardResult \<Rightarrow> usage_key \<Rightarrow> string \<Rightarrow> rat \<Rightarrow> recordUsageOpts \<Rightarrow> price_heap \<Rightarrow>
     CostBreakdown \<times> price_heap" where
  "calculateRecordUsageCost svc chan result apiKey billingModel multiplier opts h =
     (if fr_ImageCount result > 0
      then gateway_calculateImageCost svc chan result apiKey billingModel multiplier h
      else gateway_calculateTokenCost svc chan result apiKey billingModel multiplier opts h)"

section \<open>The cost booked on the account\<close>

definition matchAccountStatsRule :: "AccountStatsPricingRule \<Rightarrow> int \<Rightarrow> int \<Rightarrow> bool" where
  "matchAccountStatsRule rule accountID groupID \<longleftrightarrow> accountID \<in> set (asr_AccountIDs rule) \<or> groupID \<in> set (asr_GroupIDs rule)"

definition isPlatformMatch :: "string \<Rightarrow> string \<Rightarrow> bool" where
  "isPlatformMatch queryPlatform pricingPlatform \<longleftrightarrow>
     queryPlatform = [] \<or> pricingPlatform = [] \<or> queryPlatform = pricingPlatform"

definition findPricingForModel :: "ChannelModelPricing list \<Rightarrow> string \<Rightarrow> string \<Rightarrow> ChannelModelPricing option" where
  "findPricingForModel ps platform modelLower =
     (case find (\<lambda>p. isPlatformMatch platform (cp_Platform p) \<and> list_ex (\<lambda>m. ToLower m = modelLower) (cp_Models p)) ps of
        Some p \<Rightarrow> Some p
      | None \<Rightarrow> find (\<lambda>p. isPlatformMatch platform (cp_Platform p) \<and>
          list_ex (\<lambda>m. ends_with_star (ToLower m) \<and> HasPrefix modelLower (trim_star (ToLower m))) (cp_Models p)) ps)"

definition positive_cost :: "rat \<Rightarrow> rat option" where
  "positive_cost c = (if c \<le> 0 then None else Some c)"

definition calculatePerRequestStatsCost :: "ChannelModelPricing \<Rightarrow> int \<Rightarrow> rat option" where
  "calculatePerRequestStatsCost p requestCount =
     (case cp_PerRequestPrice p of None \<Rightarrow> None | Some x \<Rightarrow> if x \<le> 0 then None else Some (x * of_int requestCount))"

definition calculateTokenStatsCost :: "ChannelModelPricing \<Rightarrow> UsageTokens \<Rightarrow> rat option" where
  "calculateTokenStatsCost pricing t =
     (let flat = (cp_InputPrice pricing, cp_OutputPrice pricing, cp_CacheWritePrice pricing, cp_CacheReadPrice pricing,
            cp_ImageOutputPrice pricing);
          (i, out, cw, cr, img) =
            (case FindMatchingInterval (cp_Intervals pricing)
                (ut_InputTokens t + ut_OutputTokens t + ut_CacheCreationTokens t + ut_CacheReadTokens t) of
               None \<Rightarrow> flat
             | Some iv \<Rightarrow> (iv_InputPrice iv, iv_OutputPrice iv, iv_CacheWritePrice iv, iv_CacheReadPrice iv, None))
      in positive_cost (of_int (ut_InputTokens t) * price_or_zero i + of_int (ut_OutputTokens t) * price_or_zero out +
           of_int (ut_CacheCreationTokens t) * price_or_zero cw + of_int (ut_CacheReadTokens t) * price_or_zero cr +
           of_int (ut_ImageOutputTokens t) * price_or_zero img))"

definition calculateStatsCost :: "ChannelModelPricing \<Rightarrow> UsageTokens \<Rightarrow> int \<Rightarrow> rat option" where
  "calculateStatsCost pricing tokens requestCount =
     (if cp_BillingMode pricing \<in> {BillingModePerRequest, BillingModeImage}
      then calculatePerRequestStatsCost pricing requestCount else calculateTokenStatsCost pricing tokens)"

fun tryCustomRules ::
    "AccountStatsPricingRule list \<Rightarrow> int \<Rightarrow> int \<Rightarrow> string \<Rightarrow> string \<Rightarrow> UsageTokens \<Rightarrow> int \<Rightarrow> rat option" where
  "tryCustomRules [] accountID groupID platform model tokens requestCount = None"
| "tryCustomRules (rule # rules) accountID groupID platform model tokens requestCount =
     (if matchAccountStatsRule rule accountID groupID
      then (case findPricingForModel (asr_Pricing rule) platform (ToLower model) of
              Some p \<Rightarrow> calculateStatsCost p tokens requestCount
            | None \<Rightarrow> tryCustomRules rules accountID groupID platform model tokens requestCount)
      else tryCustomRules rules accountID groupID platform model tokens requestCount)"

definition tryModelFilePricing ::
    "pricing_service option \<Rightarrow> string \<Rightarrow> UsageTokens \<Rightarrow> price_heap \<Rightarrow> rat option \<times> price_heap" where
  "tryModelFilePricing svc model t h =
     (case GetModelPricing svc model h of
        (Inl _, h1) \<Rightarrow> (None, h1)
      | (Inr a, h1) \<Rightarrow>
          let p = h1 ! a in
          (positive_cost (of_int (ut_InputTokens t) * mp_InputPricePerToken p +
             of_int (ut_OutputTokens t) * mp_OutputPricePerToken p +
             of_int (ut_CacheCreationTokens t) * mp_CacheCreationPricePerToken p +
             of_int (ut_CacheReadTokens t) * mp_CacheReadPricePerToken p +
             of_int (ut_ImageOutputTokens t) * mp_ImageOutputPricePerToken p), h1))"

text \<open>The snapshots that the three lookups meet.\<close>

record snapshots =
  sn_price :: "channelCache option"
  sn_channel :: "channelCache option"
  sn_platform :: "channelCache option"

definition resolveAccountStatsCost ::
    "pricing_service option \<Rightarrow> snapshots \<Rightarrow> int \<Rightarrow> int \<Rightarrow> string \<Rightarrow> UsageTokens \<Rightarrow> int \<Rightarrow> rat \<Rightarrow> price_heap \<Rightarrow> rat option \<times> price_heap" where
  "resolveAccountStatsCost svc sn accountID groupID upstreamModel tokens requestCount totalCost h =
     (if upstreamModel = [] then (None, h)
      else case (case sn_channel sn of None \<Rightarrow> None | Some c \<Rightarrow> lookupGroupChannel c groupID) of
        None \<Rightarrow> (None, h)
      | Some channel \<Rightarrow>
          let platform = (case sn_platform sn of None \<Rightarrow> '''' | Some c \<Rightarrow> kc_groupPlatform c groupID) in
          (case tryCustomRules (ch_AccountStatsPricingRules channel) accountID groupID platform upstreamModel tokens requestCount of
             Some cost \<Rightarrow> (Some cost, h)
           | None \<Rightarrow>
               if ch_ApplyPricingToAccountStats channel then (positive_cost totalCost, h)
               else tryModelFilePricing svc upstreamModel tokens h))"

definition applyAccountStatsCost ::
    "pricing_service option \<Rightarrow> snapshots \<Rightarrow> int \<Rightarrow> int \<Rightarrow> string \<Rightarrow> string \<Rightarrow> UsageTokens \<Rightarrow> rat \<Rightarrow> price_heap \<Rightarrow> rat option \<times> price_heap" where
  "applyAccountStatsCost svc sn accountID groupID upstreamModel requestedModel tokens totalCost h =
     resolveAccountStatsCost svc sn accountID groupID (if upstreamModel = [] then requestedModel else upstreamModel)
       tokens 1 totalCost h"

section \<open>The charge\<close>

definition BillingTypeBalance :: int where "BillingTypeBalance = 0"
definition BillingTypeSubscription :: int where "BillingTypeSubscription = 1"

record UsageLog =
  ul_UserID :: int
  ul_APIKeyID :: int
  ul_AccountID :: int
  ul_RequestID :: string
  ul_Model :: string
  ul_RequestedModel :: string
  ul_UpstreamModel :: "string option"
  ul_ReasoningEffort :: "string option"
  ul_InputTokens :: int
  ul_OutputTokens :: int
  ul_CacheCreationTokens :: int
  ul_CacheReadTokens :: int
  ul_CacheCreation5mTokens :: int
  ul_CacheCreation1hTokens :: int
  ul_OriginalCacheCreationTokens :: int
  ul_ImageOutputTokens :: int
  ul_InputCost :: rat
  ul_OutputCost :: rat
  ul_ImageOutputCost :: rat
  ul_CacheCreationCost :: rat
  ul_CacheReadCost :: rat
  ul_TotalCost :: rat
  ul_ActualCost :: rat
  ul_AccountStatsCost :: "rat option"
  ul_RateMultiplier :: rat
  ul_AccountRateMultiplier :: rat
  ul_BillingType :: int
  ul_BillingMode :: string
  ul_ImageCount :: int
  ul_ImageSize :: "string option"
  ul_CacheTTLOverridden :: bool
  ul_ChannelID :: "int option"
  ul_ModelMappingChain :: "string option"
  ul_GroupID :: "int option"
  ul_SubscriptionID :: "int option"

definition optionalTrimmedStringPtr :: "string \<Rightarrow> string option" where
  "optionalTrimmedStringPtr raw = (let t = TrimSpace raw in if t = [] then None else Some t)"

definition optionalNonEqualStringPtr :: "string \<Rightarrow> string \<Rightarrow> string option" where
  "optionalNonEqualStringPtr v compare = (if v = [] \<or> v = compare then None else Some v)"

definition optionalInt64Ptr :: "int \<Rightarrow> int option" where
  "optionalInt64Ptr v = (if v = 0 then None else Some v)"

definition forwardResultBillingModel :: "string \<Rightarrow> string \<Rightarrow> string" where
  "forwardResultBillingModel requestedModel upstreamModel =
     (let t = TrimSpace requestedModel in if t \<noteq> [] then t else TrimSpace upstreamModel)"

text \<open>The ids of the context, and an id made up when there is none.\<close>

record request_ctx =
  rx_ClientRequestID :: string
  rx_RequestID :: string
  rx_generated :: string

definition context_id :: "request_ctx \<Rightarrow> string option" where
  "context_id ctx =
     (if TrimSpace (rx_ClientRequestID ctx) \<noteq> [] then Some (''client:'' @ TrimSpace (rx_ClientRequestID ctx))
      else if TrimSpace (rx_RequestID ctx) \<noteq> [] then Some (''local:'' @ TrimSpace (rx_RequestID ctx)) else None)"

definition resolveUsageBillingRequestID :: "request_ctx \<Rightarrow> string \<Rightarrow> string" where
  "resolveUsageBillingRequestID ctx upstreamRequestID =
     (case context_id ctx of Some i \<Rightarrow> i
      | None \<Rightarrow> if TrimSpace upstreamRequestID \<noteq> [] then TrimSpace upstreamRequestID else ''generated:'' @ rx_generated ctx)"

definition resolveUsageBillingPayloadFingerprint :: "request_ctx \<Rightarrow> string \<Rightarrow> string" where
  "resolveUsageBillingPayloadFingerprint ctx requestPayloadHash =
     (if TrimSpace requestPayloadHash \<noteq> [] then TrimSpace requestPayloadHash
      else case context_id ctx of Some i \<Rightarrow> i | None \<Rightarrow> '''')"

definition resolveBillingMode :: "ForwardResult \<Rightarrow> CostBreakdown \<Rightarrow> string" where
  "resolveBillingMode result cost =
     (if cb_BillingMode cost \<noteq> [] then cb_BillingMode cost
      else if fr_ImageCount result > 0 then BillingModeImage else BillingModeToken)"

record recordUsageCoreInput =
  ri_Result :: ForwardResult
  ri_APIKey :: usage_key
  ri_UserID :: int
  ri_Account :: usage_account
  ri_Subscription :: "int option"
  ri_RequestPayloadHash :: string
  ri_ForceCacheBilling :: bool
  ri_APIKeyService :: bool
  ri_ChannelFields :: ChannelUsageFields

definition buildRecordUsageLog ::
    "request_ctx \<Rightarrow> recordUsageCoreInput \<Rightarrow> ForwardResult \<Rightarrow> string \<Rightarrow> rat \<Rightarrow> int \<Rightarrow> bool \<Rightarrow> CostBreakdown \<Rightarrow> UsageLog" where
  "buildRecordUsageLog ctx input result requestedModel multiplier billingType cacheTTLOverridden cost =
     (let u = fr_Usage result in
      \<lparr>ul_UserID = ri_UserID input, ul_APIKeyID = uk_ID (ri_APIKey input), ul_AccountID = ua_ID (ri_Account input),
       ul_RequestID = resolveUsageBillingRequestID ctx (fr_RequestID result),
       ul_Model = fr_Model result, ul_RequestedModel = requestedModel,
       ul_UpstreamModel = optionalNonEqualStringPtr (fr_UpstreamModel result) (fr_Model result),
       ul_ReasoningEffort = fr_ReasoningEffort result,
       ul_InputTokens = cu_InputTokens u, ul_OutputTokens = cu_OutputTokens u,
       ul_CacheCreationTokens = cu_CacheCreationInputTokens u, ul_CacheReadTokens = cu_CacheReadInputTokens u,
       ul_CacheCreation5mTokens = cu_CacheCreation5mTokens u, ul_CacheCreation1hTokens = cu_CacheCreation1hTokens u,
       ul_OriginalCacheCreationTokens = cu_OriginalCacheCreationInputTokens u,
       ul_ImageOutputTokens = cu_ImageOutputTokens u,
       ul_InputCost = cb_InputCost cost, ul_OutputCost = cb_OutputCost cost, ul_ImageOutputCost = cb_ImageOutputCost cost,
       ul_CacheCreationCost = cb_CacheCreationCost cost, ul_CacheReadCost = cb_CacheReadCost cost,
       ul_TotalCost = cb_TotalCost cost, ul_ActualCost = cb_ActualCost cost, ul_AccountStatsCost = None,
       ul_RateMultiplier = multiplier, ul_AccountRateMultiplier = BillingRateMultiplier (ri_Account input),
       ul_BillingType = billingType, ul_BillingMode = resolveBillingMode result cost,
       ul_ImageCount = fr_ImageCount result, ul_ImageSize = optionalTrimmedStringPtr (fr_ImageSize result),
       ul_CacheTTLOverridden = cacheTTLOverridden, ul_ChannelID = optionalInt64Ptr (uf_ChannelID (ri_ChannelFields input)),
       ul_ModelMappingChain = optionalTrimmedStringPtr (uf_ModelMappingChain (ri_ChannelFields input)),
       ul_GroupID = uk_GroupID (ri_APIKey input), ul_SubscriptionID = ri_Subscription input\<rparr>)"

record postUsageBillingParams =
  pb_Cost :: CostBreakdown
  pb_APIKey :: usage_key
  pb_UserID :: int
  pb_Account :: usage_account
  pb_Subscription :: "int option"
  pb_RequestPayloadHash :: string
  pb_IsSubscriptionBill :: bool
  pb_AccountRateMultiplier :: rat
  pb_APIKeyService :: bool

definition shouldDeductAPIKeyQuota :: "postUsageBillingParams \<Rightarrow> bool" where
  "shouldDeductAPIKeyQuota p \<longleftrightarrow> cb_ActualCost (pb_Cost p) > 0 \<and> uk_Quota (pb_APIKey p) > 0 \<and> pb_APIKeyService p"

definition shouldUpdateRateLimits :: "postUsageBillingParams \<Rightarrow> bool" where
  "shouldUpdateRateLimits p \<longleftrightarrow> cb_ActualCost (pb_Cost p) > 0 \<and> HasRateLimits (pb_APIKey p) \<and> pb_APIKeyService p"

definition shouldUpdateAccountQuota :: "postUsageBillingParams \<Rightarrow> bool" where
  "shouldUpdateAccountQuota p \<longleftrightarrow>
     cb_TotalCost (pb_Cost p) > 0 \<and> IsAPIKeyOrBedrock (pb_Account p) \<and> HasAnyQuotaLimit (pb_Account p)"

definition buildUsageBillingCommand :: "(string \<Rightarrow> string) \<Rightarrow> string \<Rightarrow> UsageLog \<Rightarrow> postUsageBillingParams \<Rightarrow> UsageBillingCommand" where
  "buildUsageBillingCommand sha requestID usageLog p =
     (let cost = pb_Cost p;
          sub = (pb_IsSubscriptionBill p \<and> pb_Subscription p \<noteq> None \<and> cb_TotalCost cost > 0)
      in Normalize sha
      \<lparr>c_RequestID = requestID, c_APIKeyID = uk_ID (pb_APIKey p), c_RequestFingerprint = '''',
       c_RequestPayloadHash = TrimSpace (pb_RequestPayloadHash p), c_UserID = pb_UserID p, c_AccountID = ua_ID (pb_Account p),
       c_SubscriptionID = (if sub then pb_Subscription p else ul_SubscriptionID usageLog),
       c_AccountType = ua_Type (pb_Account p), c_Model = ul_Model usageLog, c_ServiceTier = '''',
       c_ReasoningEffort = (case ul_ReasoningEffort usageLog of Some e \<Rightarrow> e | None \<Rightarrow> ''''),
       c_BillingType = ul_BillingType usageLog, c_InputTokens = ul_InputTokens usageLog,
       c_OutputTokens = ul_OutputTokens usageLog, c_CacheCreationTokens = ul_CacheCreationTokens usageLog,
       c_CacheReadTokens = ul_CacheReadTokens usageLog, c_ImageCount = ul_ImageCount usageLog, c_MediaType = '''',
       c_BalanceCost = (if sub then 0 else if cb_ActualCost cost > 0 then cb_ActualCost cost else 0),
       c_SubscriptionCost = (if sub then cb_TotalCost cost else 0),
       c_APIKeyQuotaCost = (if shouldDeductAPIKeyQuota p then cb_ActualCost cost else 0),
       c_APIKeyRateLimitCost = (if shouldUpdateRateLimits p then cb_ActualCost cost else 0),
       c_AccountQuotaCost = (if shouldUpdateAccountQuota p then cb_TotalCost cost * pb_AccountRateMultiplier p else 0)\<rparr>)"

text \<open>What a request finds: configuration, price list, snapshots, the rate of its user, its context.\<close>

record usage_env =
  ue_svc :: "pricing_service option"
  ue_snapshots :: snapshots
  ue_defaultRate :: rat
  ue_simpleMode :: bool
  ue_cachedRate :: "rat option"
  ue_rateRow :: "go_error + rat option"
  ue_ctx :: request_ctx
  ue_usageLogRepo :: bool

text \<open>
  What becomes of a write to the log: it is written, it fails, its answer is lost, or it is dropped,
  because the queue is full or because nobody waited long enough for it (and then it may still be written).
\<close>

datatype log_write = Written | Failed | WrittenUnseen | Dropped | DroppedLate

datatype usage_log_error = CreateFailed | CreateDropped

record usage_world =
  uw_heap :: price_heap
  uw_db :: billing_db
  uw_logs :: "UsageLog list"
  uw_log_writes :: "log_write list"

text \<open>\<open>INSERT ... ON CONFLICT (request_id, api_key_id) DO NOTHING\<close>; a blank id is stored as NULL.\<close>

definition stored_log :: "UsageLog \<Rightarrow> UsageLog" where
  "stored_log l = l\<lparr>ul_RequestID := TrimSpace (ul_RequestID l)\<rparr>"

definition logged :: "string \<Rightarrow> int \<Rightarrow> UsageLog list \<Rightarrow> bool" where
  "logged rid kid logs \<longleftrightarrow> rid \<noteq> [] \<and> list_ex (\<lambda>l. ul_RequestID l = rid \<and> ul_APIKeyID l = kid) logs"

definition insert_usage_log :: "UsageLog \<Rightarrow> UsageLog list \<Rightarrow> UsageLog list" where
  "insert_usage_log l logs =
     (if logged (TrimSpace (ul_RequestID l)) (ul_APIKeyID l) logs then logs else logs @ [stored_log l])"

definition next_write :: "usage_world \<Rightarrow> log_write \<times> usage_world" where
  "next_write w = (case uw_log_writes w of [] \<Rightarrow> (Written, w) | o1 # os \<Rightarrow> (o1, w\<lparr>uw_log_writes := os\<rparr>))"

text \<open>\<open>CreateBestEffort\<close> and \<open>Create\<close>, which differ in that only the first drops a log.\<close>

definition CreateBestEffort :: "UsageLog \<Rightarrow> usage_world \<Rightarrow> usage_log_error option \<times> usage_world" where
  "CreateBestEffort l w =
     (case next_write w of (oc, w1) \<Rightarrow>
        let w2 = w1\<lparr>uw_logs := insert_usage_log l (uw_logs w1)\<rparr>
        in case oc of
             Written \<Rightarrow> (None, w2) | Failed \<Rightarrow> (Some CreateFailed, w1) | WrittenUnseen \<Rightarrow> (Some CreateFailed, w2)
           | Dropped \<Rightarrow> (Some CreateDropped, w1) | DroppedLate \<Rightarrow> (Some CreateDropped, w2))"

definition log_Create :: "UsageLog \<Rightarrow> usage_world \<Rightarrow> usage_log_error option \<times> usage_world" where
  "log_Create l w =
     (case next_write w of (oc, w1) \<Rightarrow>
        let w2 = w1\<lparr>uw_logs := insert_usage_log l (uw_logs w1)\<rparr>
        in case oc of
             Written \<Rightarrow> (None, w2) | WrittenUnseen \<Rightarrow> (Some CreateFailed, w2) | DroppedLate \<Rightarrow> (Some CreateFailed, w2)
           | _ \<Rightarrow> (Some CreateFailed, w1))"

text \<open>Errors are only printed.\<close>

definition writeUsageLogBestEffort :: "usage_env \<Rightarrow> UsageLog \<Rightarrow> usage_world \<Rightarrow> usage_world" where
  "writeUsageLogBestEffort env l w =
     (if \<not> ue_usageLogRepo env then w
      else case CreateBestEffort l w of
             (None, w1) \<Rightarrow> w1
           | (Some CreateDropped, w1) \<Rightarrow> w1
           | (Some CreateFailed, w1) \<Rightarrow> snd (log_Create l w1))"

definition usage_multiplier :: "usage_env \<Rightarrow> recordUsageCoreInput \<Rightarrow> rat" where
  "usage_multiplier env input =
     (case (uk_GroupID (ri_APIKey input), uk_Group (ri_APIKey input)) of
        (Some gid, Some g) \<Rightarrow>
          fst (rate_Resolve (ri_UserID input) gid (ue_cachedRate env) (ue_rateRow env) (ug_RateMultiplier g))
      | _ \<Rightarrow> ue_defaultRate env)"

definition usage_billing_model :: "ForwardResult \<Rightarrow> ChannelUsageFields \<Rightarrow> string" where
  "usage_billing_model result f =
     (let m0 = forwardResultBillingModel (fr_Model result) (fr_UpstreamModel result);
          m1 = (if uf_BillingModelSource f = BillingModelSourceChannelMapped \<and> uf_ChannelMappedModel f \<noteq> []
                then uf_ChannelMappedModel f else m0)
      in if uf_BillingModelSource f = BillingModelSourceRequested \<and> uf_OriginalModel f \<noteq> [] then uf_OriginalModel f else m1)"

definition billed_usage :: "recordUsageCoreInput \<Rightarrow> ClaudeUsage" where
  "billed_usage input =
     (let u0 = fr_Usage (ri_Result input);
          u1 = (if ri_ForceCacheBilling input \<and> cu_InputTokens u0 > 0
                then u0\<lparr>cu_CacheReadInputTokens := cu_CacheReadInputTokens u0 + cu_InputTokens u0, cu_InputTokens := 0\<rparr> else u0)
      in if IsCacheTTLOverrideEnabled (ri_Account input)
         then applyCacheTTLOverride u1 (GetCacheTTLOverrideTarget (ri_Account input)) else u1)"

definition is_subscription_billing :: "recordUsageCoreInput \<Rightarrow> bool" where
  "is_subscription_billing input \<longleftrightarrow> ri_Subscription input \<noteq> None \<and>
     (case uk_Group (ri_APIKey input) of Some g \<Rightarrow> ug_SubscriptionType g | None \<Rightarrow> False)"

text \<open>The cost of a request and its log, before anything is charged.\<close>

definition prepare_usage ::
    "usage_env \<Rightarrow> recordUsageCoreInput \<Rightarrow> recordUsageOpts \<Rightarrow> price_heap \<Rightarrow> CostBreakdown \<times> UsageLog \<times> price_heap" where
  "prepare_usage env input opts h =
     (let usage = billed_usage input;
          result = (ri_Result input)\<lparr>fr_Usage := usage\<rparr>;
          apiKey = ri_APIKey input;
          account = ri_Account input;
          f = ri_ChannelFields input;
          cacheTTLOverridden = (IsCacheTTLOverrideEnabled account \<and> cu_CacheCreation5mTokens usage + cu_CacheCreation1hTokens usage > 0);
          multiplier = usage_multiplier env input;
          requestedModel = (if uf_OriginalModel f \<noteq> [] then uf_OriginalModel f else fr_Model result);
          (cost, h1) = calculateRecordUsageCost (ue_svc env) (channel_prices_of (sn_price (ue_snapshots env))) result apiKey
            (usage_billing_model result f) multiplier opts h;
          log0 = buildRecordUsageLog (ue_ctx env) input result requestedModel multiplier
            (if is_subscription_billing input then BillingTypeSubscription else BillingTypeBalance) cacheTTLOverridden cost;
          (stats, h2) = (case uk_GroupID apiKey of
              None \<Rightarrow> (None, h1)
            | Some gid \<Rightarrow> applyAccountStatsCost (ue_svc env) (ue_snapshots env) (ua_ID account) gid
                (fr_UpstreamModel result) (fr_Model result)
                ((tokens_of usage)\<lparr>ut_CacheCreation5mTokens := 0, ut_CacheCreation1hTokens := 0\<rparr>) (cb_TotalCost cost) h1)
      in (cost, log0\<lparr>ul_AccountStatsCost := stats\<rparr>, h2))"

definition usage_params :: "usage_env \<Rightarrow> recordUsageCoreInput \<Rightarrow> CostBreakdown \<Rightarrow> postUsageBillingParams" where
  "usage_params env input cost =
     \<lparr>pb_Cost = cost, pb_APIKey = ri_APIKey input, pb_UserID = ri_UserID input, pb_Account = ri_Account input,
      pb_Subscription = ri_Subscription input,
      pb_RequestPayloadHash = resolveUsageBillingPayloadFingerprint (ue_ctx env) (ri_RequestPayloadHash input),
      pb_IsSubscriptionBill = is_subscription_billing input,
      pb_AccountRateMultiplier = BillingRateMultiplier (ri_Account input), pb_APIKeyService = ri_APIKeyService input\<rparr>"

text \<open>The charge: whether it was applied now. The command always has a request id (\<open>UsageProps\<close>).\<close>

definition applyUsageBilling ::
    "pg_time \<Rightarrow> (string \<Rightarrow> string) \<Rightarrow> string \<Rightarrow> UsageLog \<Rightarrow> postUsageBillingParams \<Rightarrow> bool stmt" where
  "applyUsageBilling tz sha requestID usageLog p db =
     (case Apply tz sha (Some (buildUsageBillingCommand sha requestID usageLog p)) db of
        (Inl err, db1) \<Rightarrow> (Inl err, db1)
      | (Inr result, db1) \<Rightarrow> (Inr (ar_Applied result), db1))"

definition recordUsageCore ::
    "pg_time \<Rightarrow> (string \<Rightarrow> string) \<Rightarrow> usage_env \<Rightarrow> recordUsageCoreInput \<Rightarrow> recordUsageOpts \<Rightarrow> usage_world \<Rightarrow>
     go_error option \<times> usage_world" where
  "recordUsageCore tz sha env input opts w =
     (let (cost, usageLog, h) = prepare_usage env input opts (uw_heap w);
          w1 = w\<lparr>uw_heap := h\<rparr>
      in if ue_simpleMode env then (None, writeUsageLogBestEffort env usageLog w1)
         else case applyUsageBilling tz sha (ul_RequestID usageLog) usageLog (usage_params env input cost) (uw_db w) of
             (Inl e, db) \<Rightarrow> (Some e, w1\<lparr>uw_db := db\<rparr>)
           | (Inr _, db) \<Rightarrow> (None, writeUsageLogBestEffort env usageLog (w1\<lparr>uw_db := db\<rparr>)))"

end
