(* ===== verification/PricingProps.thy ===== *)
theory PricingProps
  imports UsageCost
begin

text \<open>
  What the costs of requests guarantee: bounds and monotony of one calculation, which prices outlive a
  request, and what reaches the charging transaction.
\<close>

section \<open>One calculation\<close>

definition prices_ok :: "ModelPricing \<Rightarrow> bool" where
  "prices_ok p \<longleftrightarrow> 0 \<le> mp_InputPricePerToken p \<and> 0 \<le> mp_InputPricePerTokenPriority p \<and>
     0 \<le> mp_OutputPricePerToken p \<and> 0 \<le> mp_OutputPricePerTokenPriority p \<and>
     0 \<le> mp_CacheCreationPricePerToken p \<and> 0 \<le> mp_CacheReadPricePerToken p \<and>
     0 \<le> mp_CacheReadPricePerTokenPriority p \<and> 0 \<le> mp_CacheCreation5mPrice p \<and> 0 \<le> mp_CacheCreation1hPrice p \<and>
     0 \<le> mp_ImageOutputPricePerToken p \<and>
     (mp_LongContextInputThreshold p > 0 \<longrightarrow> 1 \<le> mp_LongContextInputMultiplier p \<and> 1 \<le> mp_LongContextOutputMultiplier p)"

definition tokens_ok :: "UsageTokens \<Rightarrow> bool" where
  "tokens_ok t \<longleftrightarrow> 0 \<le> ut_InputTokens t \<and> 0 \<le> ut_OutputTokens t \<and> 0 \<le> ut_CacheCreationTokens t \<and>
     0 \<le> ut_CacheReadTokens t \<and> 0 \<le> ut_CacheCreation5mTokens t \<and> 0 \<le> ut_CacheCreation1hTokens t \<and>
     0 \<le> ut_ImageOutputTokens t"

definition parts_cost :: "CostBreakdown \<Rightarrow> rat" where
  "parts_cost c = cb_InputCost c + cb_OutputCost c + cb_ImageOutputCost c + cb_CacheCreationCost c + cb_CacheReadCost c"

lemma tier_prices_ok:
  assumes "prices_ok p" "tier_prices p tier = (i, out, cr, m)"
  shows "0 \<le> i" "0 \<le> out" "0 \<le> cr" "0 < m"
  using assms by (auto simp: tier_prices_def prices_ok_def Let_def serviceTierCostMultiplier_def split: if_splits)

lemma cache_creation_ok: "prices_ok p \<Longrightarrow> tokens_ok t \<Longrightarrow> 0 \<le> computeCacheCreationCost p t"
  by (auto simp: computeCacheCreationCost_def prices_ok_def tokens_ok_def)

lemma positive_or_one_pos [simp]: "0 < positive_or_one x"
  by (simp add: positive_or_one_def)

lemma breakdown_fields:
  assumes "tier_prices p tier = (i, out, cr, m)"
  shows "cb_InputCost (computeTokenBreakdown p t rate tier lc) = of_int (ut_InputTokens t) *
      (if lc \<and> shouldApplySessionLongContextPricing t p then i * mp_LongContextInputMultiplier p else i) * m"
    "cb_CacheReadCost (computeTokenBreakdown p t rate tier lc) = of_int (ut_CacheReadTokens t) * cr * m"
    "cb_CacheCreationCost (computeTokenBreakdown p t rate tier lc) = computeCacheCreationCost p t * m"
    "cb_OutputCost (computeTokenBreakdown p t rate tier lc) = of_int (max 0 (ut_OutputTokens t - ut_ImageOutputTokens t)) *
      (if lc \<and> shouldApplySessionLongContextPricing t p then out * mp_LongContextOutputMultiplier p else out) * m"
    "cb_ImageOutputCost (computeTokenBreakdown p t rate tier lc) = (if ut_ImageOutputTokens t > 0
      then of_int (ut_ImageOutputTokens t) * (if mp_ImageOutputPricePerToken p = 0
        then (if lc \<and> shouldApplySessionLongContextPricing t p then out * mp_LongContextOutputMultiplier p else out)
        else mp_ImageOutputPricePerToken p) * m else 0)"
  by (simp_all add: computeTokenBreakdown_def assms Let_def)

lemma breakdown_total:
  "cb_TotalCost (computeTokenBreakdown p t rate tier lc) = parts_cost (computeTokenBreakdown p t rate tier lc)"
  "cb_ActualCost (computeTokenBreakdown p t rate tier lc) =
     cb_TotalCost (computeTokenBreakdown p t rate tier lc) * positive_or_one rate"
  by (cases "tier_prices p tier"; simp add: computeTokenBreakdown_def parts_cost_def Let_def)+

lemma long_multipliers:
  assumes "prices_ok p" "shouldApplySessionLongContextPricing t p"
  shows "1 \<le> mp_LongContextInputMultiplier p" "1 \<le> mp_LongContextOutputMultiplier p"
  using assms by (auto simp: prices_ok_def shouldApplySessionLongContextPricing_def)

lemma scaled_price: "0 \<le> (x::rat) \<Longrightarrow> (b \<Longrightarrow> 1 \<le> k) \<Longrightarrow> 0 \<le> (if b then x * k else x)"
  by (cases b) (auto intro!: mult_nonneg_nonneg)

text \<open>
  (C29) With prices and token counts that are not negative, no part of a cost is negative, the total is
  the sum of the parts, and the charge is the total times the rate, where a rate that is zero or
  negative counts as one: a group with the rate zero pays the full price.
\<close>

theorem token_cost_bounds:
  assumes "prices_ok p" "tokens_ok t" "c = computeTokenBreakdown p t rate tier lc"
  shows "0 \<le> cb_InputCost c \<and> 0 \<le> cb_OutputCost c \<and> 0 \<le> cb_ImageOutputCost c \<and> 0 \<le> cb_CacheCreationCost c \<and>
    0 \<le> cb_CacheReadCost c \<and> cb_TotalCost c = parts_cost c \<and>
    cb_ActualCost c = cb_TotalCost c * (if rate \<le> 0 then 1 else rate) \<and> 0 \<le> cb_ActualCost c"
proof -
  obtain i out cr m where tp: "tier_prices p tier = (i, out, cr, m)" by (metis prod_cases4)
  note pr = tier_prices_ok [OF assms(1) tp] and long = long_multipliers [OF assms(1), of t]
  have t: "0 \<le> ut_InputTokens t" "0 \<le> ut_CacheReadTokens t" "0 \<le> mp_ImageOutputPricePerToken p"
    using assms(1,2) by (auto simp: tokens_ok_def prices_ok_def)
  let ?b = "lc \<and> shouldApplySessionLongContextPricing t p"
  have i: "0 \<le> (if ?b then i * mp_LongContextInputMultiplier p else i)"
    and out: "0 \<le> (if ?b then out * mp_LongContextOutputMultiplier p else out)"
    using pr long by (intro scaled_price; simp)+
  have parts: "0 \<le> cb_InputCost c" "0 \<le> cb_OutputCost c" "0 \<le> cb_ImageOutputCost c" "0 \<le> cb_CacheCreationCost c"
    "0 \<le> cb_CacheReadCost c"
    unfolding assms(3) breakdown_fields [OF tp] using i out pr t cache_creation_ok [OF assms(1,2)]
    by (auto intro!: mult_nonneg_nonneg)
  have total: "cb_TotalCost c = parts_cost c" by (simp add: assms(3) breakdown_total)
  have actual: "cb_ActualCost c = cb_TotalCost c * (if rate \<le> 0 then 1 else rate)"
    by (simp add: assms(3) breakdown_total positive_or_one_def)
  have "0 \<le> cb_ActualCost c" using parts by (simp add: actual total parts_cost_def)
  then show ?thesis using parts total actual by blast
qed

text \<open>
  More input, output or cached input never costs less, also where it passes the threshold of the
  long-context price.
\<close>

theorem more_tokens_cost_more:
  assumes "prices_ok p" "tokens_ok t" "ut_InputTokens t \<le> ut_InputTokens t'" "ut_OutputTokens t \<le> ut_OutputTokens t'"
    "ut_CacheReadTokens t \<le> ut_CacheReadTokens t'" "ut_CacheCreationTokens t' = ut_CacheCreationTokens t"
    "ut_CacheCreation5mTokens t' = ut_CacheCreation5mTokens t" "ut_CacheCreation1hTokens t' = ut_CacheCreation1hTokens t"
    "ut_ImageOutputTokens t' = ut_ImageOutputTokens t"
  shows "cb_ActualCost (computeTokenBreakdown p t rate tier lc) \<le> cb_ActualCost (computeTokenBreakdown p t' rate tier lc)"
proof -
  obtain i out cr m where tp: "tier_prices p tier = (i, out, cr, m)" by (metis prod_cases4)
  note pr = tier_prices_ok [OF assms(1) tp]
  define b where "b t \<longleftrightarrow> lc \<and> shouldApplySessionLongContextPricing t p" for t
  let ?f = "\<lambda>t x k. if b t then x * k else (x::rat)"
  have bb: "b t \<Longrightarrow> b t'" using assms(3,5) by (auto simp: b_def shouldApplySessionLongContextPricing_def)
  have scale: "0 \<le> x \<Longrightarrow> (b t' \<Longrightarrow> 1 \<le> k) \<Longrightarrow> 0 \<le> ?f t x k \<and> ?f t x k \<le> ?f t' x k" for x k :: rat
    using bb mult_left_mono [of 1 k x] by (auto intro: mult_nonneg_nonneg order_trans)
  have i: "0 \<le> ?f t i (mp_LongContextInputMultiplier p) \<and> ?f t i (mp_LongContextInputMultiplier p) \<le> ?f t' i (mp_LongContextInputMultiplier p)"
    and out: "0 \<le> ?f t out (mp_LongContextOutputMultiplier p) \<and> ?f t out (mp_LongContextOutputMultiplier p) \<le> ?f t' out (mp_LongContextOutputMultiplier p)"
    using pr(1,2) long_multipliers [OF assms(1), of t'] by (intro scale; simp add: b_def)+
  have prod: "0 \<le> x \<Longrightarrow> x \<le> x' \<Longrightarrow> 0 \<le> n \<Longrightarrow> n \<le> n' \<Longrightarrow> of_int n * x * m \<le> of_int n' * x' * m" for x x' :: rat and n n' :: int
    using pr(4) by (intro mult_right_mono mult_mono) auto
  have "parts_cost (computeTokenBreakdown p t rate tier lc) \<le> parts_cost (computeTokenBreakdown p t' rate tier lc)"
    unfolding parts_cost_def
  proof (intro add_mono)
    show "cb_InputCost (computeTokenBreakdown p t rate tier lc) \<le> cb_InputCost (computeTokenBreakdown p t' rate tier lc)"
      unfolding breakdown_fields [OF tp] b_def [symmetric] using i assms(2,3) by (intro prod) (auto simp: tokens_ok_def)
    show "cb_OutputCost (computeTokenBreakdown p t rate tier lc) \<le> cb_OutputCost (computeTokenBreakdown p t' rate tier lc)"
      unfolding breakdown_fields [OF tp] b_def [symmetric] using out assms(4,9) by (intro prod) auto
    show "cb_ImageOutputCost (computeTokenBreakdown p t rate tier lc) \<le> cb_ImageOutputCost (computeTokenBreakdown p t' rate tier lc)"
    proof -
      define img where "img t = (if mp_ImageOutputPricePerToken p = 0 then ?f t out (mp_LongContextOutputMultiplier p)
        else mp_ImageOutputPricePerToken p)" for t
      have "0 \<le> img t" "img t \<le> img t'" using out assms(1) by (simp_all add: img_def prices_ok_def)
      then show ?thesis
        unfolding breakdown_fields [OF tp] b_def [symmetric] assms(9) img_def [symmetric]
        using prod [of "img t" "img t'" "ut_ImageOutputTokens t" "ut_ImageOutputTokens t"] by simp
    qed
    show "cb_CacheCreationCost (computeTokenBreakdown p t rate tier lc) \<le> cb_CacheCreationCost (computeTokenBreakdown p t' rate tier lc)"
    proof -
      have "computeCacheCreationCost p t = computeCacheCreationCost p t'" by (simp only: computeCacheCreationCost_def assms(6-8))
      then show ?thesis by (simp add: breakdown_fields [OF tp])
    qed
    show "cb_CacheReadCost (computeTokenBreakdown p t rate tier lc) \<le> cb_CacheReadCost (computeTokenBreakdown p t' rate tier lc)"
      unfolding breakdown_fields [OF tp] using pr(3) assms(2,5) by (intro prod) (auto simp: tokens_ok_def)
  qed
  then show ?thesis by (simp add: breakdown_total less_imp_le mult_right_mono)
qed

section \<open>Prices that outlive a request\<close>

abbreviation shared :: nat where "shared \<equiv> length initFallbackPricing"

text \<open>
  Two heaps with the same fallback prices, and in each an address with the same price: the addresses
  are the same when they are shared, and may differ when the objects are new.
\<close>

definition same_fallback :: "price_heap \<Rightarrow> price_heap \<Rightarrow> bool" where
  "same_fallback h k \<longleftrightarrow> shared \<le> length h \<and> shared \<le> length k \<and> take shared h = take shared k"

definition same_price :: "nat \<times> price_heap \<Rightarrow> nat \<times> price_heap \<Rightarrow> bool" where
  "same_price ah bk \<longleftrightarrow> same_fallback (snd ah) (snd bk) \<and> fst ah < length (snd ah) \<and> fst bk < length (snd bk) \<and>
     snd ah ! fst ah = snd bk ! fst bk \<and> (fst ah < shared \<or> fst bk < shared \<longrightarrow> fst ah = fst bk)"

lemma same_fallback_nth: "same_fallback h k \<Longrightarrow> a < shared \<Longrightarrow> h ! a = k ! a"
  unfolding same_fallback_def by (metis nth_take)

lemma same_priceD: "same_price (a, h) (b, k) \<Longrightarrow> same_fallback h k \<and> h ! a = k ! b"
  by (simp add: same_price_def)

lemma same_fallback_alloc: "same_fallback h k \<Longrightarrow> same_fallback (snd (alloc p h)) (snd (alloc q k))"
  by (simp add: same_fallback_def alloc_def)

lemma same_price_alloc: "same_fallback h k \<Longrightarrow> same_price (alloc p h) (alloc p k)"
  by (auto simp: same_price_def same_fallback_def alloc_def)

lemma same_price_shared: "same_fallback h k \<Longrightarrow> a < shared \<Longrightarrow> same_price (a, h) (a, k)"
  using same_fallback_nth [of h k a] by (auto simp: same_price_def same_fallback_def)

lemma take_modify: "take n (modify a f h) = (if a < n then modify a f (take n h) else take n h)"
  by (cases "a < n") (simp_all add: modify_def take_update_swap list_update_beyond)

lemma same_price_modify:
  assumes "same_price (a, h) (b, k)"
  shows "same_price (a, modify a f h) (b, modify b f k)"
proof -
  from assms have f: "take shared h = take shared k" "h ! a = k ! b" and
    l: "a < length h" "b < length k" "shared \<le> length h" "shared \<le> length k" and
    s: "a < shared \<or> b < shared \<Longrightarrow> a = b"
    by (simp_all add: same_price_def same_fallback_def)
  have "take shared (modify a f h) = take shared (modify b f k)"
  proof (cases "a < shared \<or> b < shared")
    case True
    then show ?thesis using f s by (auto simp: modify_def take_update_swap)
  next
    case False
    then show ?thesis using f by (simp add: take_modify)
  qed
  then show ?thesis using f l s by (simp add: same_price_def same_fallback_def)
qed

lemma policy_cases:
  obtains (same) "applyModelSpecificPricingPolicy m a h = (a, h)"
  | (new) p where "applyModelSpecificPricingPolicy m a h = alloc p h"
  unfolding applyModelSpecificPricingPolicy_def Let_def by (metis (full_types))

lemma same_price_policy:
  assumes "same_price ah bk"
  shows "same_price (applyModelSpecificPricingPolicy m (fst ah) (snd ah)) (applyModelSpecificPricingPolicy m (fst bk) (snd bk))"
proof -
  have e: "snd ah ! fst ah = snd bk ! fst bk" "same_fallback (snd ah) (snd bk)" using assms by (simp_all add: same_price_def)
  show ?thesis
    unfolding applyModelSpecificPricingPolicy_def Let_def e(1)
    using assms same_price_alloc [OF e(2)] by (simp split: if_split)
qed

text \<open>What a function that may fail returns from two such heaps.\<close>

definition same_result :: "(go_error + nat) \<times> price_heap \<Rightarrow> (go_error + nat) \<times> price_heap \<Rightarrow> bool" where
  "same_result r s \<longleftrightarrow> (case (fst r, fst s) of
      (Inl e, Inl e') \<Rightarrow> e = e' \<and> same_fallback (snd r) (snd s)
    | (Inr a, Inr b) \<Rightarrow> same_price (a, snd r) (b, snd s)
    | _ \<Rightarrow> False)"

lemma fallback_shared: "getFallbackPricing m = Some a \<Longrightarrow> a < shared"
  by (auto simp: getFallbackPricing_def fallbackPrices_def initFallbackPricing_def split: option.splits if_splits dest!: map_of_SomeD)

lemma GetModelPricing_alt:
  "GetModelPricing svc m h = (case pricing_lookup svc (ToLower m) of
      Some l \<Rightarrow> apfst Inr (applyModelSpecificPricingPolicy (ToLower m) (fst (alloc (from_litellm l) h)) (snd (alloc (from_litellm l) h)))
    | None \<Rightarrow> (case getFallbackPricing (ToLower m) of
        Some a \<Rightarrow> apfst Inr (applyModelSpecificPricingPolicy (ToLower m) a h)
      | None \<Rightarrow> (Inl (PlainErr (''pricing not found for model: '' @ ToLower m)), h)))"
  by (auto simp: GetModelPricing_def Let_def split: option.split prod.split)

lemma same_result_Inr [simp]: "same_result (apfst Inr x) (apfst Inr y) \<longleftrightarrow> same_price x y"
  by (cases x; cases y) (simp add: same_result_def)

lemma GetModelPricing_same:
  assumes "same_fallback h k"
  shows "same_result (GetModelPricing svc m h) (GetModelPricing svc m k)"
proof (cases "pricing_lookup svc (ToLower m)")
  case None
  show ?thesis
  proof (cases "getFallbackPricing (ToLower m)")
    case (Some a)
    then show ?thesis
      using same_price_policy [OF same_price_shared [OF assms fallback_shared [OF Some]]] None
      by (simp add: GetModelPricing_alt)
  qed (use None assms in \<open>simp add: GetModelPricing_alt same_result_def\<close>)
next
  case (Some l)
  then show ?thesis using same_price_policy [OF same_price_alloc [OF assms]] by (simp add: GetModelPricing_alt)
qed

definition keeps_fallback :: "price_heap \<Rightarrow> price_heap \<Rightarrow> bool" where
  "keeps_fallback h h' \<longleftrightarrow> same_fallback h h' \<and> length h \<le> length h'"

lemma keeps_refl: "shared \<le> length h \<Longrightarrow> keeps_fallback h h"
  by (simp add: keeps_fallback_def same_fallback_def)

lemma keeps_trans: "keeps_fallback h h1 \<Longrightarrow> keeps_fallback h1 h2 \<Longrightarrow> keeps_fallback h h2"
  by (auto simp: keeps_fallback_def same_fallback_def)

lemma keeps_alloc: "shared \<le> length h \<Longrightarrow> keeps_fallback h (snd (alloc p h))"
  by (simp add: keeps_fallback_def same_fallback_def alloc_def)

lemma keeps_policy: "shared \<le> length h \<Longrightarrow> keeps_fallback h (snd (applyModelSpecificPricingPolicy m a h))"
  by (cases m a h rule: policy_cases) (simp_all add: keeps_refl keeps_alloc)

text \<open>A price comes from the shared ones or is a new object behind them.\<close>

lemma GetModelPricing_keeps:
  assumes "shared \<le> length h" "GetModelPricing svc m h = (r, h')"
  shows "keeps_fallback h h' \<and> (\<forall>a. r = Inr a \<longrightarrow> a < length h' \<and>
    (a < shared \<longrightarrow> pricing_lookup svc (ToLower m) = None \<and> getFallbackPricing (ToLower m) = Some a))"
proof (cases "pricing_lookup svc (ToLower m)")
  case None
  show ?thesis
  proof (cases "getFallbackPricing (ToLower m)")
    case (Some a)
    show ?thesis
    proof (cases "ToLower m" a h rule: policy_cases)
      case same
      then show ?thesis
        using assms None Some fallback_shared [OF Some] by (auto simp: GetModelPricing_def Let_def intro: keeps_refl)
    next
      case (new p)
      then show ?thesis
        using assms None Some keeps_alloc [OF assms(1), of p] by (auto simp: GetModelPricing_def Let_def alloc_def)
    qed
  qed (use assms None keeps_refl in \<open>auto simp: GetModelPricing_def\<close>)
next
  case (Some l)
  let ?h1 = "h @ [from_litellm l]"
  have k1: "keeps_fallback h ?h1" and s1: "shared \<le> length ?h1" using keeps_alloc [OF assms(1)] assms(1) by (simp_all add: alloc_def)
  show ?thesis
  proof (cases "ToLower m" "length h" ?h1 rule: policy_cases)
    case same
    then show ?thesis using assms Some k1 by (auto simp: GetModelPricing_def Let_def alloc_def)
  next
    case (new p)
    then show ?thesis
      using assms Some keeps_trans [OF k1 keeps_alloc [OF s1, of p]] by (auto simp: GetModelPricing_def Let_def alloc_def)
  qed
qed

definition same_resolved :: "ResolvedPricing \<times> price_heap \<Rightarrow> ResolvedPricing \<times> price_heap \<Rightarrow> bool" where
  "same_resolved x y \<longleftrightarrow> (fst x)\<lparr>rp_BasePricing := None\<rparr> = (fst y)\<lparr>rp_BasePricing := None\<rparr> \<and>
     same_fallback (snd x) (snd y) \<and>
     rel_option (\<lambda>a b. same_price (a, snd x) (b, snd y)) (rp_BasePricing (fst x)) (rp_BasePricing (fst y))"

lemma same_resolvedD:
  assumes "same_resolved (r, h) (s, k)"
  shows "r\<lparr>rp_BasePricing := None\<rparr> = s\<lparr>rp_BasePricing := None\<rparr>" "same_fallback h k"
    "rel_option (\<lambda>a b. same_price (a, h) (b, k)) (rp_BasePricing r) (rp_BasePricing s)"
  using assms by (simp_all add: same_resolved_def)

lemma same_resolved_fields:
  assumes "same_resolved x y"
  shows "rp_Mode (fst y) = rp_Mode (fst x)" "rp_Intervals (fst y) = rp_Intervals (fst x)"
    "rp_RequestTiers (fst y) = rp_RequestTiers (fst x)" "rp_DefaultPerRequestPrice (fst y) = rp_DefaultPerRequestPrice (fst x)"
    "rp_Source (fst y) = rp_Source (fst x)" "rp_SupportsCacheBreakdown (fst y) = rp_SupportsCacheBreakdown (fst x)"
  using assms by (simp_all add: same_resolved_def) (cases "fst x"; cases "fst y"; simp)+

lemma same_resolved_base:
  assumes "same_fallback h k" "resolveBasePricing svc m h = (bs, h1)" "resolveBasePricing svc m k = (bt, k1)"
  shows "same_resolved (base_resolved bs h1, h1) (base_resolved bt k1, k1)"
proof -
  obtain x y where g: "GetModelPricing svc m h = (x, h1)" "GetModelPricing svc m k = (y, k1)"
    using assms(2,3) by (auto simp: resolveBasePricing_def split: prod.splits sum.splits)
  have r: "same_result (x, h1) (y, k1)" using GetModelPricing_same [OF assms(1), of svc m] by (simp add: g)
  show ?thesis
  proof (cases x)
    case (Inl e)
    with r obtain e' where "y = Inl e'" "same_fallback h1 k1" by (cases y) (auto simp: same_result_def)
    then show ?thesis using assms(2,3) g Inl by (auto simp: resolveBasePricing_def base_resolved_def same_resolved_def)
  next
    case (Inr a)
    with r obtain b where b: "y = Inr b" "same_price (a, h1) (b, k1)" by (cases y) (auto simp: same_result_def)
    then have "bs = (Some a, PricingSourceLiteLLM)" "bt = (Some b, PricingSourceLiteLLM)"
      using assms(2,3) g Inr by (auto simp: resolveBasePricing_def)
    then show ?thesis using b(2) same_priceD [OF b(2)] by (simp add: base_resolved_def same_resolved_def)
  qed
qed

lemma same_resolved_update:
  assumes "same_resolved (r, h) (s, k)" "\<And>r. rp_BasePricing (f r) = rp_BasePricing r"
    "\<And>r x. f r\<lparr>rp_BasePricing := x\<rparr> = f (r\<lparr>rp_BasePricing := x\<rparr>)"
  shows "same_resolved (f r, h) (f s, k)"
  unfolding same_resolved_def fst_conv snd_conv assms(2,3) using same_resolvedD [OF assms(1)] by simp

lemma same_resolved_price:
  assumes "same_resolved (r, h) (s, k)" "same_price (a, h') (b, k')"
  shows "same_resolved (r\<lparr>rp_BasePricing := Some a\<rparr>, h') (s\<lparr>rp_BasePricing := Some b\<rparr>, k')"
proof -
  have e: "r\<lparr>rp_BasePricing := Some a\<rparr>\<lparr>rp_BasePricing := None\<rparr> = s\<lparr>rp_BasePricing := Some b\<rparr>\<lparr>rp_BasePricing := None\<rparr>"
    using same_resolvedD(1) [OF assms(1)] by simp
  show ?thesis unfolding same_resolved_def fst_conv snd_conv
    using e assms(2) conjunct1 [OF same_priceD [OF assms(2)]] by simp
qed

text \<open>The price object that a flat override writes to.\<close>

definition written_price :: "ResolvedPricing \<Rightarrow> price_heap \<Rightarrow> nat \<times> price_heap" where
  "written_price r h = (case rp_BasePricing r of Some a \<Rightarrow> (a, h) | None \<Rightarrow> alloc zero_pricing h)"

lemma override_flat:
  assumes "filterValidIntervals (cp_Intervals ch) = []"
  shows "applyTokenOverrides ch r h = (r\<lparr>rp_BasePricing := Some (fst (written_price r h))\<rparr>,
    modify (fst (written_price r h)) (overridden ch) (snd (written_price r h)))"
  using assms by (auto simp: applyTokenOverrides_def written_price_def Let_def split: prod.split)

lemma same_resolved_override:
  assumes "same_resolved (r, h) (s, k)"
  shows "same_resolved (applyTokenOverrides ch r h) (applyTokenOverrides ch s k)"
proof (cases "filterValidIntervals (cp_Intervals ch) = []")
  case False
  have "same_resolved (r\<lparr>rp_Intervals := x\<rparr>, h) (s\<lparr>rp_Intervals := x\<rparr>, k)" for x
    by (rule same_resolved_update [OF assms]) simp_all
  then show ?thesis using False by (simp add: applyTokenOverrides_def)
next
  case True
  have "same_fallback h k" using assms by (simp add: same_resolved_def)
  then have "same_price (written_price r h) (written_price s k)"
    using assms same_price_alloc [of h k zero_pricing]
    by (cases "rp_BasePricing r"; cases "rp_BasePricing s") (auto simp: same_resolved_def written_price_def)
  then have "same_price (fst (written_price r h), snd (written_price r h)) (fst (written_price s k), snd (written_price s k))"
    by simp
  from same_resolved_price [OF assms same_price_modify [OF this]] show ?thesis
    by (simp only: override_flat [OF True])
qed

lemma same_resolved_channel:
  assumes "same_resolved (r, h) (s, k)"
  shows "same_resolved (applyChannelOverrides chan g m r h) (applyChannelOverrides chan g m s k)"
proof (cases "chan g m")
  case (Some ch)
  have x: "same_resolved (r\<lparr>rp_Source := x, rp_Mode := y\<rparr>, h) (s\<lparr>rp_Source := x, rp_Mode := y\<rparr>, k)" for x y
    by (rule same_resolved_update [OF assms]) simp_all
  have y: "same_resolved (applyRequestTierOverrides ch r', h) (applyRequestTierOverrides ch s', k)"
    if "same_resolved (r', h) (s', k)" for r' s'
    by (rule same_resolved_update [OF that]) (simp_all add: applyRequestTierOverrides_def split: option.split)
  show ?thesis
    unfolding applyChannelOverrides_def Let_def Some option.case
    using same_resolved_override [OF x] y [OF x] x by (simp split: if_split)
qed (use assms in \<open>simp add: applyChannelOverrides_def\<close>)

lemma Resolve_same:
  assumes "same_fallback h k"
  shows "same_resolved (Resolve svc chan m gid h) (Resolve svc chan m gid k)"
  using same_resolved_base [OF assms, of svc m] same_resolved_channel
  by (cases "resolveBasePricing svc m h"; cases "resolveBasePricing svc m k"; cases gid) (simp_all add: Resolve_def)

text \<open>Costs from two such heaps are equal.\<close>

definition same_cost :: "'a \<times> price_heap \<Rightarrow> 'a \<times> price_heap \<Rightarrow> bool" where
  "same_cost x y \<longleftrightarrow> fst x = fst y \<and> same_fallback (snd x) (snd y)"

lemma calculateCostInternal_same:
  assumes "same_fallback h k"
  shows "same_cost (calculateCostInternal svc m t rate tier ch h) (calculateCostInternal svc m t rate tier ch k)"
proof -
  obtain x h1 y k1 where g: "GetModelPricing svc m h = (x, h1)" "GetModelPricing svc m k = (y, k1)" by fastforce
  have r: "same_result (x, h1) (y, k1)" using GetModelPricing_same [OF assms, of svc m] by (simp add: g)
  show ?thesis
  proof (cases x)
    case (Inl e)
    with r g show ?thesis
      by (cases y) (auto simp: calculateCostInternal_def GetModelPricingWithChannel_def same_cost_def same_result_def)
  next
    case (Inr a)
    with r obtain b where b: "y = Inr b" "same_price (a, h1) (b, k1)" by (cases y) (auto simp: same_result_def)
    show ?thesis
      using same_priceD [OF same_price_modify [OF b(2)]] same_priceD [OF b(2)] g Inr b(1)
      by (cases ch) (simp_all add: calculateCostInternal_def GetModelPricingWithChannel_def same_cost_def)
  qed
qed

lemma CalculateCost_same: "same_fallback h k \<Longrightarrow> same_cost (CalculateCost svc m t rate h) (CalculateCost svc m t rate k)"
  unfolding CalculateCost_def by (rule calculateCostInternal_same)

lemma LongContext_same:
  assumes "same_fallback h k"
  shows "same_cost (CalculateCostWithLongContext svc m t rate threshold extra h)
    (CalculateCostWithLongContext svc m t rate threshold extra k)"
proof (cases "threshold \<le> 0 \<or> extra \<le> 1 \<or> ut_CacheReadTokens t + ut_InputTokens t \<le> threshold")
  case True
  then show ?thesis using CalculateCost_same [OF assms] by (auto simp: CalculateCostWithLongContext_def)
next
  case False
  obtain i u where tt: "split_tokens t threshold = (i, u)" by fastforce
  obtain x h1 y k1 where a: "CalculateCost svc m i rate h = (x, h1)" "CalculateCost svc m i rate k = (y, k1)" by fastforce
  then have xy: "y = x" "same_fallback h1 k1" using CalculateCost_same [OF assms, of svc m i rate] by (simp_all add: same_cost_def)
  obtain x' h2 y' k2 where b: "CalculateCost svc m u (rate * extra) h1 = (x', h2)" "CalculateCost svc m u (rate * extra) k1 = (y', k2)"
    by fastforce
  then have xy': "y' = x'" "same_fallback h2 k2" using CalculateCost_same [OF xy(2), of svc m u "rate * extra"] by (simp_all add: same_cost_def)
  show ?thesis
    using False a b xy xy' by (auto simp: CalculateCostWithLongContext_def tt same_cost_def split: sum.split)
qed

lemma interval_same:
  assumes "same_resolved (r, h) (s, k)"
  shows "same_cost (billing_calculateTokenCost r input h) (billing_calculateTokenCost s input k)"
proof -
  have f: "same_fallback h k" using assms by (simp add: same_resolved_def)
  have ivs: "rp_Intervals s = rp_Intervals r" and sb: "rp_SupportsCacheBreakdown s = rp_SupportsCacheBreakdown r"
    using same_resolved_fields [OF assms] by simp_all
  let ?n = "ut_InputTokens (ci_Tokens input) + ut_CacheReadTokens (ci_Tokens input)"
  let ?x = "GetIntervalPricing r ?n h" and ?y = "GetIntervalPricing s ?n k"
  have "(fst ?x = None \<and> fst ?y = None \<and> same_fallback (snd ?x) (snd ?y)) \<or>
    (\<exists>a b. fst ?x = Some a \<and> fst ?y = Some b \<and> same_price (a, snd ?x) (b, snd ?y))"
    using assms same_price_alloc [OF f]
    by (cases "rp_BasePricing r"; cases "rp_BasePricing s")
      (auto simp: GetIntervalPricing_def ivs sb same_resolved_def alloc_def split: option.splits)
  then show ?thesis
  proof (elim disjE exE conjE)
    fix a b assume ab: "fst ?x = Some a" "fst ?y = Some b" "same_price (a, snd ?x) (b, snd ?y)"
    let ?pol = "applyModelSpecificPricingPolicy (ci_Model input)"
    have "same_price (?pol a (snd ?x)) (?pol b (snd ?y))" using same_price_policy [OF ab(3)] by simp
    then show ?thesis
      using ab by (simp add: billing_calculateTokenCost_def Let_def case_prod_beta same_cost_def ivs same_price_def)
  qed (simp add: billing_calculateTokenCost_def Let_def case_prod_beta same_cost_def)
qed

lemma unified_same:
  assumes "same_resolved (r, h) (s, k)"
  shows "same_cost (CalculateCostUnified svc (Some chan) (Some r) input h) (CalculateCostUnified svc (Some chan) (Some s) input k)"
proof -
  note fields = same_resolved_fields [OF assms, simplified]
  have f: "same_fallback h k" using assms by (simp add: same_resolved_def)
  have "calculatePerRequestCost s inp = calculatePerRequestCost r inp" for inp
    by (simp add: calculatePerRequestCost_def GetRequestTierPrice_def GetRequestTierPriceByContext_def fields)
  moreover have "same_cost (with_mode md x) (with_mode md y)" if "same_cost x y" for md x y
    using that by (cases x; cases y) (auto simp: same_cost_def with_mode_def split: sum.split)
  ultimately show ?thesis
    using interval_same [OF assms] f by (auto simp: CalculateCostUnified_def Let_def fields same_cost_def)
qed

lemma cost_or_zero_same: "same_cost x y \<Longrightarrow> same_cost (cost_or_zero x) (cost_or_zero y)"
  by (cases x; cases y) (auto simp: same_cost_def cost_or_zero_def split: sum.split)

lemma resolveChannel_same:
  assumes "same_fallback h k"
  obtains h1 k1 where "resolveChannelPricing svc chan m key h = (None, h1)" "resolveChannelPricing svc chan m key k = (None, k1)"
      "same_fallback h1 k1"
  | r s h1 k1 where "resolveChannelPricing svc chan m key h = (Some r, h1)" "resolveChannelPricing svc chan m key k = (Some s, k1)"
      "same_resolved (r, h1) (s, k1)"
proof (cases "uk_Group key")
  case None
  then show ?thesis using that(1) assms by (simp add: resolveChannelPricing_def)
next
  case (Some g)
  obtain r h1 s k1 where a: "Resolve svc chan m (Some (ug_ID g)) h = (r, h1)" "Resolve svc chan m (Some (ug_ID g)) k = (s, k1)"
    by fastforce
  then have b: "same_resolved (r, h1) (s, k1)" using Resolve_same [OF assms, of svc chan m "Some (ug_ID g)"] by simp
  then have "rp_Source s = rp_Source r" "same_fallback h1 k1" using same_resolved_fields(5) [OF b] by (simp_all add: same_resolved_def)
  then show ?thesis using that a b Some by (cases "rp_Source r = PricingSourceChannel") (auto simp: resolveChannelPricing_def)
qed

lemma request_cost_same:
  assumes "same_fallback h k"
  shows "same_cost (calculateRecordUsageCost svc chan result key m rate opts h) (calculateRecordUsageCost svc chan result key m rate opts k)"
  using assms
proof (cases rule: resolveChannel_same [where svc = svc and chan = chan and m = m and key = key])
  case (1 h1 k1)
  then show ?thesis
    using CalculateCost_same [OF 1(3)] LongContext_same [OF 1(3)]
    by (auto simp: calculateRecordUsageCost_def gateway_calculateImageCost_def gateway_calculateTokenCost_def Let_def
        intro: cost_or_zero_same) (simp_all add: same_cost_def)
next
  case (2 r s h1 k1)
  then show ?thesis
    using unified_same [OF 2(3)]
    by (auto simp: calculateRecordUsageCost_def gateway_calculateImageCost_def gateway_calculateTokenCost_def Let_def
        intro: cost_or_zero_same)
qed

text \<open>
  A request can write to a shared price only where a flat channel price meets a model that the price
  list does not have.
\<close>

definition leak_free :: "pricing_service option \<Rightarrow> channel_prices \<Rightarrow> int \<Rightarrow> string \<Rightarrow> bool" where
  "leak_free svc chan g m \<longleftrightarrow> pricing_lookup svc (ToLower m) \<noteq> None \<or> getFallbackPricing (ToLower m) = None \<or>
     (case chan g m of None \<Rightarrow> True
      | Some ch \<Rightarrow> cp_BillingMode ch \<notin> {[], BillingModeToken} \<or> filterValidIntervals (cp_Intervals ch) \<noteq> [])"

lemma keeps_modify: "shared \<le> length h \<Longrightarrow> shared \<le> a \<Longrightarrow> keeps_fallback h (modify a f h)"
  by (simp add: keeps_fallback_def same_fallback_def take_modify)

lemma keeps_length: "keeps_fallback h h' \<Longrightarrow> shared \<le> length h'"
  by (simp add: keeps_fallback_def same_fallback_def)

lemma keeps_written:
  assumes "shared \<le> length h" "\<And>a. rp_BasePricing r = Some a \<Longrightarrow> shared \<le> a"
  shows "keeps_fallback h (snd (applyTokenOverrides ch r h))"
proof (cases "filterValidIntervals (cp_Intervals ch) = []")
  case True
  obtain a h1 where w: "written_price r h = (a, h1)" by fastforce
  then have k: "keeps_fallback h h1" "shared \<le> a"
    using assms keeps_alloc [OF assms(1), of zero_pricing] keeps_refl [OF assms(1)]
    by (auto simp: written_price_def alloc_def split: option.splits)
  show ?thesis
    using keeps_trans [OF k(1) keeps_modify [OF keeps_length [OF k(1)] k(2)]] by (simp add: override_flat [OF True] w)
qed (use keeps_refl [OF assms(1)] in \<open>simp add: applyTokenOverrides_def\<close>)

lemma Resolve_keeps:
  assumes "shared \<le> length h" "leak_free svc chan g m"
  shows "keeps_fallback h (snd (Resolve svc chan m (Some g) h))"
proof -
  obtain x h1 where g: "GetModelPricing svc m h = (x, h1)" by fastforce
  note k = GetModelPricing_keeps [OF assms(1) g]
  have len: "shared \<le> length h1" using k keeps_length by blast
  obtain bs where b: "resolveBasePricing svc m h = (bs, h1)" by (cases x) (simp_all add: resolveBasePricing_def g)
  have base: "fst bs = Some a \<Longrightarrow> x = Inr a" for a
    using b by (cases x) (auto simp: resolveBasePricing_def g)
  show ?thesis
  proof (cases "chan g m")
    case None
    then show ?thesis using k b by (simp add: Resolve_def applyChannelOverrides_def)
  next
    case (Some ch)
    have new: "keeps_fallback h1 (snd (applyTokenOverrides ch
        (base_resolved bs h1\<lparr>rp_Source := PricingSourceChannel, rp_Mode := mode\<rparr>) h1))"
      if "cp_BillingMode ch \<in> {[], BillingModeToken}" for mode
    proof (cases "filterValidIntervals (cp_Intervals ch) = []")
      case True
      then have "a < shared \<Longrightarrow> x \<noteq> Inr a" for a using assms(2) Some that k by (auto simp: leak_free_def)
      then show ?thesis using base by (intro keeps_written [OF len]) (auto simp: base_resolved_def not_less [symmetric])
    qed (simp add: applyTokenOverrides_def keeps_refl [OF len])
    show ?thesis
      using b k keeps_trans [OF conjunct1 [OF k] new] Some
      by (auto simp: Resolve_def applyChannelOverrides_def Let_def)
  qed
qed

lemma CalculateCost_keeps: "shared \<le> length h \<Longrightarrow> keeps_fallback h (snd (CalculateCost svc m t rate h))"
  using GetModelPricing_keeps [of h svc m]
  by (auto simp: CalculateCost_def calculateCostInternal_def GetModelPricingWithChannel_def split: prod.splits sum.splits)

lemma LongContext_keeps:
  assumes "shared \<le> length h"
  shows "keeps_fallback h (snd (CalculateCostWithLongContext svc m t rate threshold extra h))"
proof -
  obtain i u where tt: "split_tokens t threshold = (i, u)" by fastforce
  obtain x h1 where a: "CalculateCost svc m i rate h = (x, h1)" by fastforce
  then have k: "keeps_fallback h h1" using CalculateCost_keeps [OF assms, of svc m i rate] by simp
  have "keeps_fallback h (snd (CalculateCost svc m u r h1))" for r
    using keeps_trans [OF k CalculateCost_keeps [OF keeps_length [OF k]]] .
  then show ?thesis
    using CalculateCost_keeps [OF assms] k
    by (auto simp: CalculateCostWithLongContext_def tt a Let_def split: sum.split prod.split) (metis snd_conv)+
qed

lemma with_mode_heap [simp]: "snd (with_mode md x) = snd x"
  by (cases x) (simp add: with_mode_def split: sum.split)

lemma cost_or_zero_heap [simp]: "snd (cost_or_zero x) = snd x"
  by (cases x) (simp add: cost_or_zero_def split: sum.split)

lemma unified_keeps:
  assumes "shared \<le> length h"
  shows "keeps_fallback h (snd (CalculateCostUnified svc (Some chan) (Some r) input h))"
proof -
  have "keeps_fallback h (snd (billing_calculateTokenCost r inp h))" for inp
  proof -
    let ?n = "ut_InputTokens (ci_Tokens inp) + ut_CacheReadTokens (ci_Tokens inp)"
    obtain x h1 where g: "GetIntervalPricing r ?n h = (x, h1)" by fastforce
    then have k: "keeps_fallback h h1" using keeps_refl [OF assms] keeps_alloc [OF assms]
      by (auto simp: GetIntervalPricing_def split: if_splits option.splits prod.splits) (metis snd_conv)
    show ?thesis
      using k keeps_trans [OF k keeps_policy [OF keeps_length [OF k]]]
      by (auto simp: billing_calculateTokenCost_def g Let_def split: option.split prod.split) (metis snd_conv)
  qed
  then show ?thesis using keeps_refl [OF assms] by (simp add: CalculateCostUnified_def Let_def)
qed

definition group_leak_free :: "pricing_service option \<Rightarrow> channel_prices \<Rightarrow> usage_key \<Rightarrow> string \<Rightarrow> bool" where
  "group_leak_free svc chan key m \<longleftrightarrow> (case uk_Group key of None \<Rightarrow> True | Some g \<Rightarrow> leak_free svc chan (ug_ID g) m)"

lemma request_cost_keeps:
  assumes "shared \<le> length h" "group_leak_free svc chan key m"
  shows "keeps_fallback h (snd (calculateRecordUsageCost svc chan result key m rate opts h))"
proof -
  obtain x h1 where r: "resolveChannelPricing svc chan m key h = (x, h1)" by fastforce
  have k: "keeps_fallback h h1"
  proof (cases "uk_Group key")
    case (Some g)
    then show ?thesis
      using r Resolve_keeps [OF assms(1), of svc chan "ug_ID g" m] assms(2)
      by (auto simp: resolveChannelPricing_def group_leak_free_def split: prod.splits)
  qed (use r keeps_refl [OF assms(1)] in \<open>simp add: resolveChannelPricing_def\<close>)
  note len = keeps_length [OF k]
  show ?thesis
    using keeps_trans [OF k unified_keeps [OF len]] keeps_trans [OF k LongContext_keeps [OF len]]
      keeps_trans [OF k CalculateCost_keeps [OF len]] k
    by (cases x) (simp_all add: calculateRecordUsageCost_def gateway_calculateImageCost_def gateway_calculateTokenCost_def
      r Let_def)
qed

text \<open>Requests one after another on the heap of the running service.\<close>

record priced_request =
  pq_svc :: "pricing_service option"
  pq_chan :: channel_prices
  pq_result :: ForwardResult
  pq_key :: usage_key
  pq_model :: string
  pq_rate :: rat
  pq_opts :: recordUsageOpts

definition priced :: "priced_request \<Rightarrow> price_heap \<Rightarrow> CostBreakdown \<times> price_heap" where
  "priced q h = calculateRecordUsageCost (pq_svc q) (pq_chan q) (pq_result q) (pq_key q) (pq_model q) (pq_rate q) (pq_opts q) h"

definition heap_after :: "priced_request list \<Rightarrow> price_heap \<Rightarrow> price_heap" where
  "heap_after qs h = fold (\<lambda>q h. snd (priced q h)) qs h"

lemma heap_after_keeps:
  assumes "\<forall>q \<in> set qs. group_leak_free (pq_svc q) (pq_chan q) (pq_key q) (pq_model q)" "shared \<le> length h"
  shows "keeps_fallback h (heap_after qs h)"
  using assms
proof (induction qs arbitrary: h)
  case (Cons q qs)
  have k: "keeps_fallback h (snd (priced q h))" unfolding priced_def using Cons.prems by (intro request_cost_keeps) simp_all
  show ?case using keeps_trans [OF k Cons.IH [OF _ keeps_length [OF k]]] Cons.prems by (simp add: heap_after_def)
qed (simp add: heap_after_def keeps_refl)

text \<open>
  (C8) What a request costs does not depend on the requests before it, as long as none of them meets a
  flat channel price for a model that is priced by the fallback table.
\<close>

theorem cost_independent_of_history:
  assumes "\<forall>q \<in> set qs. group_leak_free (pq_svc q) (pq_chan q) (pq_key q) (pq_model q)"
  shows "fst (priced q (heap_after qs initFallbackPricing)) = fst (priced q initFallbackPricing)"
proof -
  have "same_fallback initFallbackPricing (heap_after qs initFallbackPricing)"
    using heap_after_keeps [OF assms, of initFallbackPricing] by (simp add: keeps_fallback_def)
  then show ?thesis using request_cost_same by (simp add: priced_def same_cost_def)
qed

section \<open>Flat channel prices and the fallback table\<close>




section \<open>Long contexts, intervals and images\<close>

lemma breakdown_rate_total:
  "cb_TotalCost (computeTokenBreakdown p t rate tier lc) = cb_TotalCost (computeTokenBreakdown p t 1 tier lc)"
  by (cases "tier_prices p tier") (simp add: computeTokenBreakdown_def Let_def)

lemma breakdown_rate:
  "cb_InputCost (computeTokenBreakdown p t rate tier lc) = cb_InputCost (computeTokenBreakdown p t 1 tier lc)"
  "cb_OutputCost (computeTokenBreakdown p t rate tier lc) = cb_OutputCost (computeTokenBreakdown p t 1 tier lc)"
  "cb_ImageOutputCost (computeTokenBreakdown p t rate tier lc) = cb_ImageOutputCost (computeTokenBreakdown p t 1 tier lc)"
  "cb_CacheCreationCost (computeTokenBreakdown p t rate tier lc) = cb_CacheCreationCost (computeTokenBreakdown p t 1 tier lc)"
  "cb_CacheReadCost (computeTokenBreakdown p t rate tier lc) = cb_CacheReadCost (computeTokenBreakdown p t 1 tier lc)"
  by (cases "tier_prices p tier"; simp add: computeTokenBreakdown_def Let_def)+

text \<open>
  (C30) Above the threshold a request is split. The first part keeps every token but those above the
  threshold: cached input fills the threshold first, then fresh input; output, image output and cache
  creation are counted there, once. The second part is the cached and the fresh input that is left, and
  nothing else. Each cost is the sum of what the two parts cost by themselves, and the second part is
  charged with the extra factor; but with a rate of zero or less the whole request is charged at one
  times its total, without the surcharge.
\<close>

theorem long_context_surcharge:
  assumes "shared \<le> length h" "GetModelPricing svc m h = (Inr a, h1)" "0 < threshold" "1 < extra"
    "threshold < ut_CacheReadTokens t + ut_InputTokens t"
  shows "\<exists>c h'. CalculateCostWithLongContext svc m t rate threshold extra h = (Inr c, h') \<and>
    (let cached = min (ut_CacheReadTokens t) threshold;
         one = (\<lambda>x. computeTokenBreakdown (h1 ! a) x 1 '''' True);
         below = one (t\<lparr>ut_CacheReadTokens := cached, ut_InputTokens := threshold - cached\<rparr>);
         above = one \<lparr>ut_InputTokens = ut_InputTokens t - (threshold - cached), ut_OutputTokens = 0, ut_CacheCreationTokens = 0,
           ut_CacheReadTokens = ut_CacheReadTokens t - cached, ut_CacheCreation5mTokens = 0, ut_CacheCreation1hTokens = 0,
           ut_ImageOutputTokens = 0\<rparr>
     in cb_InputCost c = cb_InputCost below + cb_InputCost above \<and> cb_OutputCost c = cb_OutputCost below \<and>
       cb_ImageOutputCost c = cb_ImageOutputCost below \<and> cb_CacheCreationCost c = cb_CacheCreationCost below \<and>
       cb_CacheReadCost c = cb_CacheReadCost below + cb_CacheReadCost above \<and>
       cb_TotalCost c = cb_TotalCost below + cb_TotalCost above \<and>
       cb_ActualCost c = (if 0 < rate then rate * (cb_TotalCost below + extra * cb_TotalCost above)
         else cb_TotalCost below + cb_TotalCost above))"
proof -
  have k: "keeps_fallback h h1" using GetModelPricing_keeps [OF assms(1,2)] by simp
  then have "same_result (GetModelPricing svc m h) (GetModelPricing svc m h1)"
    using GetModelPricing_same [of h h1 svc m] by (simp add: keeps_fallback_def)
  then obtain b h2 where b: "GetModelPricing svc m h1 = (Inr b, h2)" "h2 ! b = h1 ! a"
    using assms(2) by (cases "GetModelPricing svc m h1"; cases "fst (GetModelPricing svc m h1)")
      (auto simp: same_result_def same_price_def)
  let ?c = "\<lambda>x r. computeTokenBreakdown (h1 ! a) x r '''' True" and ?m = "min (ut_CacheReadTokens t) threshold"
  define i u where "i = t\<lparr>ut_CacheReadTokens := ?m, ut_InputTokens := threshold - ?m\<rparr>"
    and "u = \<lparr>ut_InputTokens = ut_InputTokens t - (threshold - ?m), ut_OutputTokens = 0, ut_CacheCreationTokens = 0,
      ut_CacheReadTokens = ut_CacheReadTokens t - ?m, ut_CacheCreation5mTokens = 0, ut_CacheCreation1hTokens = 0,
      ut_ImageOutputTokens = 0\<rparr>"
  have split: "split_tokens t threshold = (i, u)"
    by (auto simp: split_tokens_def no_tokens_def i_def u_def)
  have c: "CalculateCost svc m i rate h = (Inr (?c i rate), h1)"
    "CalculateCost svc m u (rate * extra) h1 = (Inr (?c u (rate * extra)), h2)"
    using assms(2) b by (simp_all add: CalculateCost_def calculateCostInternal_def GetModelPricingWithChannel_def)
  have sign: "rate * extra \<le> 0 \<longleftrightarrow> rate \<le> 0" using assms(4) by (simp add: mult_le_0_iff)
  define ci cu where "ci = ?c i 1" and "cu = ?c u 1"
  note parts = breakdown_rate [of "h1 ! a" i rate "''''" True, folded ci_def]
    breakdown_rate [of "h1 ! a" u "rate * extra" "''''" True, folded cu_def]
  have total: "cb_TotalCost (?c i rate) = cb_TotalCost ci" "cb_TotalCost (?c u (rate * extra)) = cb_TotalCost cu"
    unfolding ci_def cu_def by (rule breakdown_rate_total)+
  have actual: "cb_ActualCost (?c i rate) + cb_ActualCost (?c u (rate * extra)) =
      (if 0 < rate then rate * (cb_TotalCost ci + extra * cb_TotalCost cu) else cb_TotalCost ci + cb_TotalCost cu)"
    unfolding breakdown_total(2) total positive_or_one_def sign by (simp add: algebra_simps)
  show ?thesis
    unfolding CalculateCostWithLongContext_def split Let_def i_def [symmetric] u_def [symmetric] ci_def [symmetric] cu_def [symmetric]
    using assms(3-5) by (simp add: c parts total actual)
qed

lemma standard_tier: "tier_prices p '''' = (mp_InputPricePerToken p, mp_OutputPricePerToken p, mp_CacheReadPricePerToken p, 1)"
proof -
  have "normalizeBillingServiceTier '''' = ''''" by code_simp
  then show ?thesis by (simp add: tier_prices_def usePriorityServiceTierPricing_def serviceTierCostMultiplier_def)
qed

lemma policy_prices:
  assumes "applyModelSpecificPricingPolicy m a h = (b, h')" "a < length h"
  shows "mp_InputPricePerToken (h' ! b) = mp_InputPricePerToken (h ! a) \<and>
    mp_OutputPricePerToken (h' ! b) = mp_OutputPricePerToken (h ! a) \<and>
    mp_CacheReadPricePerToken (h' ! b) = mp_CacheReadPricePerToken (h ! a) \<and>
    mp_ImageOutputPricePerToken (h' ! b) = mp_ImageOutputPricePerToken (h ! a)"
  using assms by (auto simp: applyModelSpecificPricingPolicy_def Let_def alloc_def split: if_splits)

text \<open>
  A channel with intervals charges a request by the one it falls into alone: a price that the interval
  leaves out counts as zero, so output of an interval without an output price is free, image output
  too, whatever the base price of the model and the flat price of the channel are.
\<close>

theorem interval_charges_alone:
  assumes "rp_Intervals r \<noteq> []" "ci_ServiceTier input = ''''" "t = ci_Tokens input"
    "FindMatchingInterval (rp_Intervals r) (ut_InputTokens t + ut_CacheReadTokens t) = Some iv"
  shows "\<exists>c h'. billing_calculateTokenCost r input h = (Inr c, h') \<and>
    cb_InputCost c = of_int (ut_InputTokens t) * price_or_zero (iv_InputPrice iv) \<and>
    cb_OutputCost c = of_int (max 0 (ut_OutputTokens t - ut_ImageOutputTokens t)) * price_or_zero (iv_OutputPrice iv) \<and>
    cb_ImageOutputCost c = of_int (max 0 (ut_ImageOutputTokens t)) * price_or_zero (iv_OutputPrice iv) \<and>
    cb_CacheReadCost c = of_int (ut_CacheReadTokens t) * price_or_zero (iv_CacheReadPrice iv)"
proof -
  let ?p = "intervalToModelPricing iv (rp_SupportsCacheBreakdown r)"
  obtain b h2 where pol: "applyModelSpecificPricingPolicy (ci_Model input) (length h) (h @ [?p]) = (b, h2)" by fastforce
  have p: "mp_InputPricePerToken ?p = price_or_zero (iv_InputPrice iv)" "mp_OutputPricePerToken ?p = price_or_zero (iv_OutputPrice iv)"
    "mp_CacheReadPricePerToken ?p = price_or_zero (iv_CacheReadPrice iv)" "mp_ImageOutputPricePerToken ?p = 0"
    by (simp_all add: intervalToModelPricing_def set_price_defs zero_pricing_def price_or_zero_def split: option.split)
  have q: "mp_InputPricePerToken (h2 ! b) = price_or_zero (iv_InputPrice iv)" "mp_OutputPricePerToken (h2 ! b) = price_or_zero (iv_OutputPrice iv)"
    "mp_CacheReadPricePerToken (h2 ! b) = price_or_zero (iv_CacheReadPrice iv)" "mp_ImageOutputPricePerToken (h2 ! b) = 0"
    using policy_prices [OF pol] p by simp_all
  have "billing_calculateTokenCost r input h =
      (Inr (computeTokenBreakdown (h2 ! b) t (ci_RateMultiplier input) '''' False), h2)"
    using assms pol by (simp add: billing_calculateTokenCost_def GetIntervalPricing_def alloc_def)
  then show ?thesis using q by (simp add: breakdown_fields [OF standard_tier])
qed

text \<open>
  With a channel price per request or per image and no tiers, a request for images is charged the
  price once, whatever the number and the size of its images.
\<close>

theorem channel_images_charged_once:
  assumes "uk_Group key = Some g" "chan (ug_ID g) m = Some ch" "cp_BillingMode ch \<in> {BillingModePerRequest, BillingModeImage}"
    "filterValidIntervals (cp_Intervals ch) = []" "cp_PerRequestPrice ch = Some x" "0 < fr_ImageCount result"
  shows "fst (calculateRecordUsageCost svc chan result key m rate opts h) =
    zero_cost\<lparr>cb_TotalCost := x, cb_ActualCost := x * positive_or_one rate, cb_BillingMode := cp_BillingMode ch\<rparr>"
proof -
  obtain bs h1 where b: "resolveBasePricing svc m h = (bs, h1)" by fastforce
  have mode: "cp_BillingMode ch \<noteq> []" "cp_BillingMode ch \<noteq> BillingModeToken"
    using assms(3) by (auto simp: BillingModePerRequest_def BillingModeImage_def BillingModeToken_def)
  obtain r where r: "Resolve svc chan m (Some (ug_ID g)) h = (r, h1)" "rp_Source r = PricingSourceChannel"
    "rp_Mode r = cp_BillingMode ch" "rp_RequestTiers r = []" "rp_DefaultPerRequestPrice r = x"
    using assms(2,3,4,5) mode b
    by (simp add: Resolve_def applyChannelOverrides_def Let_def applyRequestTierOverrides_def)
  have cost: "calculatePerRequestCost r (unified_input m key tk q) = zero_cost\<lparr>cb_TotalCost := x, cb_ActualCost := x * q\<rparr>"
    for tk q
    using r(4,5) by (simp add: calculatePerRequestCost_def unified_input_def GetRequestTierPriceByContext_def FindMatchingInterval_def)
  have inp: "(unified_input m key tk rate)\<lparr>ci_RateMultiplier := q\<rparr> = unified_input m key tk q" for tk q
    by (simp add: unified_input_def)
  have rate: "ci_RateMultiplier (unified_input m key tk rate) = rate" for tk by (simp add: unified_input_def)
  have uni: "CalculateCostUnified svc (Some chan) (Some r) (unified_input m key tk rate) h1 =
      (Inr (zero_cost\<lparr>cb_TotalCost := x, cb_ActualCost := x * positive_or_one rate, cb_BillingMode := cp_BillingMode ch\<rparr>), h1)" for tk
    using assms(3) mode r(3) by (simp add: CalculateCostUnified_def Let_def inp rate cost with_mode_def)
  show ?thesis
    using assms(1,6) r(1,2)
    by (simp add: calculateRecordUsageCost_def gateway_calculateImageCost_def resolveChannelPricing_def uni cost_or_zero_def Let_def)
qed

text \<open>
  The families of the price list overlap, and a Go map is visited in any order: the same model has two
  prices.
\<close>

lemma price_depends_on_map_order:
  "\<exists>families. distinct families \<and> set families = set familyPatterns \<and>
     litellm_GetModelPricing families [(''claude-opus-4-1'', zero_litellm), (''claude-opus-4-5'', zero_litellm\<lparr>ll_InputCostPerToken := 1\<rparr>)] ''claude-opus-4-5-preview'' \<noteq>
     litellm_GetModelPricing familyPatterns [(''claude-opus-4-1'', zero_litellm), (''claude-opus-4-5'', zero_litellm\<lparr>ll_InputCostPerToken := 1\<rparr>)] ''claude-opus-4-5-preview''"
proof (intro exI conjI)
  let ?f = "familyPatterns ! 2 # familyPatterns ! 0 # familyPatterns ! 1 # drop 3 familyPatterns"
  show "distinct ?f" "set ?f = set familyPatterns" by (simp_all add: familyPatterns_def insert_commute)
  show "litellm_GetModelPricing ?f [(''claude-opus-4-1'', zero_litellm), (''claude-opus-4-5'', zero_litellm\<lparr>ll_InputCostPerToken := 1\<rparr>)] ''claude-opus-4-5-preview'' \<noteq>
     litellm_GetModelPricing familyPatterns [(''claude-opus-4-1'', zero_litellm), (''claude-opus-4-5'', zero_litellm\<lparr>ll_InputCostPerToken := 1\<rparr>)] ''claude-opus-4-5-preview''"
    by code_simp
qed

section \<open>A concrete instance\<close>

definition bill_tokens :: UsageTokens where
  "bill_tokens = no_tokens\<lparr>ut_InputTokens := 1000, ut_OutputTokens := 100\<rparr>"

definition opus_price :: ModelPricing where "opus_price = fallback_price 5 25 6.25 0.5"

lemma bill_ok: "prices_ok opus_price" "tokens_ok bill_tokens"
  by (simp_all add: prices_ok_def opus_price_def fallback_price_def zero_pricing_def tokens_ok_def bill_tokens_def no_tokens_def)

definition bill_usage :: "int \<Rightarrow> ClaudeUsage" where
  "bill_usage i = \<lparr>cu_InputTokens = i, cu_OutputTokens = 100, cu_CacheCreationInputTokens = 0, cu_CacheReadInputTokens = 0,
     cu_CacheCreation5mTokens = 0, cu_CacheCreation1hTokens = 0, cu_ImageOutputTokens = 0,
     cu_OriginalCacheCreationInputTokens = 0\<rparr>"

definition bill_result :: "string \<Rightarrow> int \<Rightarrow> ForwardResult" where
  "bill_result m images = \<lparr>fr_RequestID = ''up'', fr_Usage = bill_usage 1000, fr_Model = m, fr_UpstreamModel = m,
     fr_ReasoningEffort = None, fr_ImageCount = images, fr_ImageSize = ''4K''\<rparr>"

definition bill_group :: usage_group where
  "bill_group = \<lparr>ug_ID = 7, ug_RateMultiplier = 1, ug_ImagePrice1K = None, ug_ImagePrice2K = None, ug_ImagePrice4K = None,
     ug_SubscriptionType = False\<rparr>"

definition bill_key :: "usage_group option \<Rightarrow> usage_key" where
  "bill_key g = \<lparr>uk_ID = 2, uk_GroupID = map_option ug_ID g, uk_Group = g, uk_Quota = 0, uk_RateLimit5h = 0,
     uk_RateLimit1d = 0, uk_RateLimit7d = 0\<rparr>"

definition bill_opts :: recordUsageOpts where "bill_opts = \<lparr>ro_LongContextThreshold = 0, ro_LongContextMultiplier = 1\<rparr>"

text \<open>A channel that gives input and output away, or charges three per request.\<close>

definition bill_channel :: "string \<Rightarrow> ChannelModelPricing" where
  "bill_channel mode = \<lparr>cp_Platform = ''anthropic'', cp_Models = [''claude-opus-4-5''], cp_BillingMode = mode,
     cp_InputPrice = Some 0, cp_OutputPrice = Some 0, cp_CacheWritePrice = None, cp_CacheReadPrice = None,
     cp_ImageOutputPrice = None, cp_PerRequestPrice = Some 3, cp_Intervals = []\<rparr>"

definition bill_list :: "pricing_service option" where
  "bill_list = Some \<lparr>ps_families = familyPatterns, ps_data = [(''claude-opus-4-5'', zero_litellm\<lparr>ll_InputCostPerToken := 1\<rparr>)]\<rparr>"

definition bill_interval :: PricingInterval where
  "bill_interval = \<lparr>iv_MinTokens = 0, iv_MaxTokens = None, iv_TierLabel = '''', iv_InputPrice = Some (1 / 1000),
     iv_OutputPrice = None, iv_CacheWritePrice = None, iv_CacheReadPrice = None, iv_PerRequestPrice = None, iv_SortOrder = 0\<rparr>"

lemma opus_actual: "cb_ActualCost (computeTokenBreakdown opus_price bill_tokens rate '''' lc) = 3 / 400 * positive_or_one rate"
  unfolding breakdown_total parts_cost_def breakdown_fields [OF standard_tier]
  by (simp add: opus_price_def fallback_price_def zero_pricing_def bill_tokens_def no_tokens_def
      shouldApplySessionLongContextPricing_def computeCacheCreationCost_def)

theorem token_cost_bounds_witness:
  "cb_ActualCost (computeTokenBreakdown opus_price bill_tokens 0 '''' True) = 3 / 400 \<and>
   cb_TotalCost (computeTokenBreakdown opus_price bill_tokens 0 '''' True) = 3 / 400"
  using token_cost_bounds [OF bill_ok refl, of 0 "''''" True] opus_actual [of 0 True] by (simp add: positive_or_one_def)

theorem more_tokens_cost_more_witness:
  "3 / 400 \<le> cb_ActualCost (computeTokenBreakdown opus_price (bill_tokens\<lparr>ut_InputTokens := 2000\<rparr>) 1 '''' True)"
proof -
  have "cb_ActualCost (computeTokenBreakdown opus_price bill_tokens 1 '''' True) \<le>
      cb_ActualCost (computeTokenBreakdown opus_price (bill_tokens\<lparr>ut_InputTokens := 2000\<rparr>) 1 '''' True)"
    by (rule more_tokens_cost_more [OF bill_ok]) (simp_all add: bill_tokens_def)
  then show ?thesis by (simp add: opus_actual positive_or_one_def)
qed

definition bill_listed :: priced_request where
  "bill_listed = \<lparr>pq_svc = bill_list, pq_chan = (\<lambda>_ _. Some (bill_channel '''')), pq_result = bill_result ''claude-opus-4-5'' 0,
     pq_key = bill_key (Some bill_group), pq_model = ''claude-opus-4-5'', pq_rate = 1, pq_opts = bill_opts\<rparr>"

definition bill_unlisted :: priced_request where
  "bill_unlisted = bill_listed\<lparr>pq_svc := None, pq_key := bill_key None\<rparr>"

lemma bill_listed_found: "pricing_lookup bill_list (ToLower ''claude-opus-4-5'') = Some (zero_litellm\<lparr>ll_InputCostPerToken := 1\<rparr>)"
  by code_simp

theorem cost_independent_of_history_witness:
  "fst (priced bill_unlisted (heap_after [bill_listed] initFallbackPricing)) = fst (priced bill_unlisted initFallbackPricing)"
  by (rule cost_independent_of_history) (simp add: bill_listed_def group_leak_free_def leak_free_def bill_listed_found split: option.split)

lemma opus_names:
  "getFallbackPricing (ToLower ''claude-opus-4-5'') = Some 0" "\<not> isOpenAIGPT54Model (ToLower ''claude-opus-4-5'')"
  "getFallbackPricing (ToLower ''claude-opus-4-6'') = Some 0" "\<not> isOpenAIGPT54Model (ToLower ''claude-opus-4-6'')"
  by code_simp+

lemma opus_first: "initFallbackPricing ! 0 = opus_price"
  by (simp add: initFallbackPricing_def opus_price_def)


theorem long_context_surcharge_witness:
  "\<exists>c h'. CalculateCostWithLongContext None ''claude-opus-4-5'' bill_tokens 1 400 2 initFallbackPricing = (Inr c, h') \<and>
     cb_ActualCost c = 3 / 400 + 3 / 1000"
proof -
  have g: "GetModelPricing None ''claude-opus-4-5'' initFallbackPricing = (Inr 0, initFallbackPricing)"
    using opus_names by (simp add: GetModelPricing_def pricing_lookup_def applyModelSpecificPricingPolicy_def)
  have c: "cb_TotalCost (computeTokenBreakdown opus_price (bill_tokens\<lparr>ut_InputTokens := 400\<rparr>) 1 '''' True) = 9 / 2000"
    "cb_TotalCost (computeTokenBreakdown opus_price (no_tokens\<lparr>ut_InputTokens := 600\<rparr>) 1 '''' True) = 3 / 1000"
    unfolding breakdown_total parts_cost_def breakdown_fields [OF standard_tier]
    by (simp_all add: opus_price_def fallback_price_def zero_pricing_def bill_tokens_def no_tokens_def
        shouldApplySessionLongContextPricing_def computeCacheCreationCost_def)
  have t: "bill_tokens\<lparr>ut_CacheReadTokens := 0, ut_InputTokens := 400\<rparr> = bill_tokens\<lparr>ut_InputTokens := 400\<rparr>"
    "min (ut_CacheReadTokens bill_tokens) 400 = 0" "ut_InputTokens bill_tokens = 1000" "ut_CacheReadTokens bill_tokens = 0"
    "\<lparr>ut_InputTokens = 600, ut_OutputTokens = 0, ut_CacheCreationTokens = 0, ut_CacheReadTokens = 0,
       ut_CacheCreation5mTokens = 0, ut_CacheCreation1hTokens = 0, ut_ImageOutputTokens = 0\<rparr> = no_tokens\<lparr>ut_InputTokens := 600\<rparr>"
    by (simp_all add: bill_tokens_def no_tokens_def)
  have "shared \<le> length initFallbackPricing" by simp
  from long_context_surcharge [OF this g, of 400 2 bill_tokens 1] show ?thesis
    unfolding opus_first t Let_def by (simp add: t c) blast
qed

definition bill_resolved :: ResolvedPricing where
  "bill_resolved = \<lparr>rp_Mode = BillingModeToken, rp_BasePricing = Some 0, rp_Intervals = [bill_interval], rp_RequestTiers = [],
     rp_DefaultPerRequestPrice = 0, rp_Source = PricingSourceChannel, rp_SupportsCacheBreakdown = False\<rparr>"

theorem interval_charges_alone_witness:
  "\<exists>c h'. billing_calculateTokenCost bill_resolved (unified_input ''claude-opus-4-5'' (bill_key None) bill_tokens 1) initFallbackPricing = (Inr c, h') \<and>
     cb_InputCost c = 1 \<and> cb_OutputCost c = 0"
proof -
  have "FindMatchingInterval (rp_Intervals bill_resolved) (ut_InputTokens bill_tokens + ut_CacheReadTokens bill_tokens) = Some bill_interval"
    by code_simp
  from interval_charges_alone [OF _ _ _ this, of "unified_input ''claude-opus-4-5'' (bill_key None) bill_tokens 1" initFallbackPricing]
  show ?thesis
    by (fastforce simp: bill_resolved_def unified_input_def bill_interval_def price_or_zero_def bill_tokens_def no_tokens_def)
qed

theorem channel_images_charged_once_witness:
  "cb_TotalCost (fst (calculateRecordUsageCost None (\<lambda>_ _. Some (bill_channel BillingModeImage)) (bill_result ''m'' 9)
     (bill_key (Some bill_group)) ''m'' 1 bill_opts initFallbackPricing)) = 3"
proof -
  have "fst (calculateRecordUsageCost None (\<lambda>_ _. Some (bill_channel BillingModeImage)) (bill_result ''m'' 9)
      (bill_key (Some bill_group)) ''m'' 1 bill_opts initFallbackPricing) =
    zero_cost\<lparr>cb_TotalCost := 3, cb_ActualCost := 3 * positive_or_one 1, cb_BillingMode := cp_BillingMode (bill_channel BillingModeImage)\<rparr>"
    by (rule channel_images_charged_once) (simp_all add: bill_key_def bill_channel_def bill_result_def filterValidIntervals_def)
  then show ?thesis by simp
qed

end
