(* ===== verification/UsageProps.thy ===== *)
theory UsageProps
  imports PricingProps
begin

text \<open>
  Recording the usage of a request, composed with the transaction that charges it: what is logged is
  what is charged, and a request that is recorded twice is charged once.
\<close>

lemma normalize_costs [simp]:
  "c_UserID (Normalize sha c) = c_UserID c" "c_SubscriptionID (Normalize sha c) = c_SubscriptionID c"
  "c_BalanceCost (Normalize sha c) = c_BalanceCost c" "c_SubscriptionCost (Normalize sha c) = c_SubscriptionCost c"
  by (simp_all add: Normalize_def Let_def)

text \<open>What the log says that a user and a subscription have been charged.\<close>

definition logged_as_subscription :: "UsageLog \<Rightarrow> bool" where
  "logged_as_subscription l \<longleftrightarrow> ul_BillingType l = BillingTypeSubscription \<and> 0 < ul_TotalCost l"

definition logged_user :: "UsageLog \<Rightarrow> user_row \<Rightarrow> user_row" where
  "logged_user l u =
     (if \<not> logged_as_subscription l \<and> 0 < ul_ActualCost l \<and> u_id u = ul_UserID l \<and> \<not> u_deleted u
      then u\<lparr>u_balance := u_balance u - ul_ActualCost l\<rparr> else u)"

definition logged_sub :: "UsageLog \<Rightarrow> group_row list \<Rightarrow> sub_row \<Rightarrow> sub_row" where
  "logged_sub l groups us =
     (if logged_as_subscription l \<and> ul_SubscriptionID l = Some (s_id us) \<and> \<not> s_deleted us \<and>
         list_ex (\<lambda>g. g_id g = s_group_id us \<and> \<not> g_deleted g) groups
      then us\<lparr>s_daily_usage := s_daily_usage us + ul_TotalCost l,
              s_weekly_usage := s_weekly_usage us + ul_TotalCost l,
              s_monthly_usage := s_monthly_usage us + ul_TotalCost l\<rparr>
      else us)"

text \<open>The log of a request and its parameters for the charge agree.\<close>

definition agree :: "recordUsageCoreInput \<Rightarrow> UsageLog \<Rightarrow> postUsageBillingParams \<Rightarrow> bool" where
  "agree input l p \<longleftrightarrow> cb_TotalCost (pb_Cost p) = ul_TotalCost l \<and> cb_ActualCost (pb_Cost p) = ul_ActualCost l \<and>
     pb_UserID p = ul_UserID l \<and> ul_UserID l = ri_UserID input \<and> uk_ID (pb_APIKey p) = uk_ID (ri_APIKey input) \<and>
     pb_Subscription p = ul_SubscriptionID l \<and> ul_SubscriptionID l = ri_Subscription input \<and>
     ul_BillingType l = (if pb_IsSubscriptionBill p then BillingTypeSubscription else BillingTypeBalance) \<and>
     (pb_IsSubscriptionBill p \<longrightarrow> pb_Subscription p \<noteq> None)"

lemma prepared_agree:
  assumes "prepare_usage env input opts h = (cost, l, h')"
  shows "agree input l (usage_params env input cost)"
    "ul_RequestID l = resolveUsageBillingRequestID (ue_ctx env) (fr_RequestID (ri_Result input))"
  using assms
  by (auto simp: prepare_usage_def agree_def usage_params_def buildRecordUsageLog_def is_subscription_billing_def Let_def
      split: prod.splits)

text \<open>Every request has an id, whatever the client and the upstream send.\<close>

lemma prefix_not_blank: "TrimSpace (''generated:'' @ x) \<noteq> []" "TrimSpace (''local:'' @ x) \<noteq> []" "TrimSpace (''client:'' @ x) \<noteq> []"
  by (rule TrimSpace_keeps_graphic [of "CHR ''e''"] TrimSpace_keeps_graphic [of "CHR ''l''"]; simp add: graphic_def)+

lemma request_id_never_blank: "TrimSpace (resolveUsageBillingRequestID ctx upstream) \<noteq> []"
  using prefix_not_blank by (simp add: resolveUsageBillingRequestID_def context_id_def)

text \<open>What the best effort leaves: a log per id and key, and the other parts of the world as they were.\<close>

lemma insert_log_idem: "TrimSpace (ul_RequestID l) \<noteq> [] \<Longrightarrow> insert_usage_log l (insert_usage_log l logs) = insert_usage_log l logs"
  by (auto simp: insert_usage_log_def logged_def stored_log_def)

lemma next_write_sel [simp]:
  "uw_db (snd (next_write w)) = uw_db w" "uw_logs (snd (next_write w)) = uw_logs w"
  by (simp_all add: next_write_def split: list.split)

lemma write_log:
  assumes "TrimSpace (ul_RequestID l) \<noteq> []"
  shows "uw_db (writeUsageLogBestEffort env l w) = uw_db w"
    "uw_logs (writeUsageLogBestEffort env l w) \<in> {uw_logs w, insert_usage_log l (uw_logs w)}"
    "ue_usageLogRepo env \<Longrightarrow> uw_log_writes w = [] \<Longrightarrow>
      uw_logs (writeUsageLogBestEffort env l w) = insert_usage_log l (uw_logs w)"
proof -
  have d: "uw_db (snd (log_Create l v)) = uw_db v" "uw_logs (snd (log_Create l v)) \<in> {uw_logs v, insert_usage_log l (uw_logs v)}" for v
    using next_write_sel [of v]
    by (auto simp: log_Create_def Let_def simp del: next_write_sel split: prod.split log_write.split)
  obtain oc v where v: "next_write w = (oc, v)" "uw_db v = uw_db w" "uw_logs v = uw_logs w"
    using next_write_sel [of w] by (cases "next_write w") simp
  show "uw_db (writeUsageLogBestEffort env l w) = uw_db w"
    using v d(1) by (auto simp: writeUsageLogBestEffort_def CreateBestEffort_def Let_def split: log_write.split)
  show "uw_logs (writeUsageLogBestEffort env l w) \<in> {uw_logs w, insert_usage_log l (uw_logs w)}"
    using v d(2) [of v] d(2) [of "v\<lparr>uw_logs := insert_usage_log l (uw_logs v)\<rparr>"] insert_log_idem [OF assms]
    by (auto simp: writeUsageLogBestEffort_def CreateBestEffort_def Let_def split: log_write.split)
  show "ue_usageLogRepo env \<Longrightarrow> uw_log_writes w = [] \<Longrightarrow>
      uw_logs (writeUsageLogBestEffort env l w) = insert_usage_log l (uw_logs w)"
    by (simp add: writeUsageLogBestEffort_def CreateBestEffort_def next_write_def Let_def)
qed

text \<open>How the logs may have changed: not, or by this log, which is new.\<close>

definition logs_step :: "usage_env \<Rightarrow> UsageLog \<Rightarrow> usage_world \<Rightarrow> usage_world \<Rightarrow> bool" where
  "logs_step env l w w' \<longleftrightarrow> uw_logs w' \<in> {uw_logs w, insert_usage_log l (uw_logs w)} \<and>
     (ue_usageLogRepo env \<and> uw_log_writes w = [] \<longrightarrow> uw_logs w' = insert_usage_log l (uw_logs w))"

lemma recordUsage_cases:
  assumes "recordUsageCore tz sha env input opts w = (err, w')"
  obtains (simple) l p where "ue_simpleMode env" "err = None" "uw_db w' = uw_db w" "logs_step env l w w'"
      "l = fst (snd (prepare_usage env input opts (uw_heap w)))" "agree input l p"
  | (billed) l p res where "\<not> ue_simpleMode env" "agree input l p"
      "ul_RequestID l = resolveUsageBillingRequestID (ue_ctx env) (fr_RequestID (ri_Result input))"
      "Apply tz sha (Some (buildUsageBillingCommand sha (ul_RequestID l) l p)) (uw_db w) = (res, uw_db w')"
      "case res of Inl e \<Rightarrow> err = Some e \<and> uw_logs w' = uw_logs w | Inr _ \<Rightarrow> err = None \<and> logs_step env l w w'"
      "l = fst (snd (prepare_usage env input opts (uw_heap w)))"
proof -
  obtain cost l h where p: "prepare_usage env input opts (uw_heap w) = (cost, l, h)" by (metis prod_cases3)
  have l: "l = fst (snd (prepare_usage env input opts (uw_heap w)))" by (simp add: p)
  have id: "TrimSpace (ul_RequestID l) \<noteq> []" by (simp add: prepared_agree(2) [OF p] request_id_never_blank)
  have ls: "logs_step env l w (writeUsageLogBestEffort env l (w\<lparr>uw_heap := h, uw_db := db\<rparr>))" for db
    using write_log [OF id, where env = env and w = "w\<lparr>uw_heap := h, uw_db := db\<rparr>"] by (simp add: logs_step_def)
  obtain res db where a: "Apply tz sha (Some (buildUsageBillingCommand sha (ul_RequestID l) l (usage_params env input cost)))
      (uw_db w) = (res, db)" by fastforce
  show ?thesis
  proof (cases "ue_simpleMode env")
    case True
    with assms p have "err = None" "w' = writeUsageLogBestEffort env l (w\<lparr>uw_heap := h\<rparr>)"
      by (auto simp: recordUsageCore_def)
    with ls [of "uw_db w"] write_log(1) [OF id] show ?thesis
      by (intro simple [OF True _ _ _ l prepared_agree(1) [OF p]]) simp_all
  next
    case False
    have "uw_db w' = db \<and> (case res of Inl e \<Rightarrow> err = Some e \<and> uw_logs w' = uw_logs w
        | Inr _ \<Rightarrow> err = None \<and> logs_step env l w w')"
      using assms p a False ls write_log(1) [OF id] by (cases res) (auto simp: recordUsageCore_def applyUsageBilling_def)
    then show ?thesis using billed [OF False prepared_agree [OF p] _ _ l] a by blast
  qed
qed

lemma command_costs:
  assumes "agree input l p" "c = buildUsageBillingCommand sha rid l p"
  shows "c_UserID c = ul_UserID l" "c_APIKeyID c = uk_ID (ri_APIKey input)" "c_RequestID c = TrimSpace rid"
    "c_BalanceCost c = (if logged_as_subscription l then 0 else if ul_ActualCost l > 0 then ul_ActualCost l else 0)"
    "c_SubscriptionCost c = (if logged_as_subscription l then ul_TotalCost l else 0)"
    "c_SubscriptionID c = ul_SubscriptionID l"
  using assms(1) unfolding assms(2)
  by (auto simp: buildUsageBillingCommand_def Let_def agree_def logged_as_subscription_def
      BillingTypeSubscription_def BillingTypeBalance_def)

lemma charged_as_logged:
  assumes "tables db' = charged_tables tz (Normalize sha (buildUsageBillingCommand sha rid l p)) db" "agree input l p"
  shows "b_users db' = map (logged_user l) (b_users db) \<and> b_subs db' = map (logged_sub l (b_groups db)) (b_subs db)"
proof -
  let ?c = "Normalize sha (buildUsageBillingCommand sha rid l p)"
  have "user_charge ?c = logged_user l"
    by (rule ext) (simp add: user_charge_def logged_user_def command_costs [OF assms(2) refl])
  moreover have "sub_charge ?c gs = logged_sub l gs" for gs
    by (rule ext) (simp add: sub_charge_def logged_sub_def command_costs [OF assms(2) refl] logged_as_subscription_def)
  ultimately show ?thesis using assms(1) by (simp add: tables_def charged_tables_def)
qed

lemma agree_log: "agree input l p \<Longrightarrow> ul_UserID l = ri_UserID input" "agree input l p \<Longrightarrow> ul_SubscriptionID l = ri_Subscription input"
  by (simp_all add: agree_def)

text \<open>
  (C7) What is logged is what is charged. From the request one log is made, for its user and its
  subscription. Recording charges what this log says and nothing else: the user's balance is reduced by
  exactly its actual cost, or, when the log says so, the usage of the subscription is increased by its
  total, and no other user and no other subscription changes; or it charges nothing. When it reports
  success for a request that was not charged before, then it has charged (unless the mode is simple);
  when it reports an error and has charged, the answer of the database was lost. The log itself is written
  best effort: at most this log is added, only after a success and only if there is none with its id and
  key, and with a working log it is there.
\<close>

theorem usage_charged_as_logged:
  assumes "recordUsageCore tz sha env input opts w = (err, w')"
  shows "let l = fst (snd (prepare_usage env input opts (uw_heap w)));
      rid = TrimSpace (resolveUsageBillingRequestID (ue_ctx env) (fr_RequestID (ri_Result input)));
      charged = (b_users (uw_db w') = map (logged_user l) (b_users (uw_db w)) \<and>
        b_subs (uw_db w') = map (logged_sub l (b_groups (uw_db w))) (b_subs (uw_db w)))
    in ul_UserID l = ri_UserID input \<and> ul_SubscriptionID l = ri_Subscription input \<and>
      (tables (uw_db w') = tables (uw_db w) \<or> \<not> ue_simpleMode env \<and> charged) \<and>
      (case err of
         Some e \<Rightarrow> uw_logs w' = uw_logs w \<and>
           (tables (uw_db w') = tables (uw_db w) \<or> Some (Unanswered e) \<in> set (b_faults (uw_db w)))
       | None \<Rightarrow> logs_step env l w w' \<and>
           (\<not> ue_simpleMode env \<and> \<not> claimed rid (uk_ID (ri_APIKey input)) (uw_db w) \<longrightarrow> charged))"
  using assms
proof (cases rule: recordUsage_cases)
  case (billed l p res)
  let ?cmd = "buildUsageBillingCommand sha (ul_RequestID l) l p"
  have key: "TrimSpace (c_RequestID ?cmd) = TrimSpace (resolveUsageBillingRequestID (ue_ctx env) (fr_RequestID (ri_Result input)))"
    "c_APIKeyID ?cmd = uk_ID (ri_APIKey input)"
    by (simp_all add: command_costs [OF billed(2) refl] billed(3))
  from billed(4) show ?thesis
  proof (cases rule: apply_effect)
    case kept
    then have "tables (uw_db w') = tables (uw_db w)" by (metis tables_faults)
    moreover have "res = Inr zero_apply_result \<Longrightarrow>
        claimed (TrimSpace (c_RequestID ?cmd)) (c_APIKeyID ?cmd) (uw_db w)"
      using billed(4) apply_unclaimed by (fastforce simp: zero_apply_result_def)
    ultimately show ?thesis using kept(2) billed(5) agree_log [OF billed(2)] key unfolding billed(6) [symmetric]
      by (auto simp: Let_def)
  next
    case charge
    show ?thesis using charged_as_logged [OF charge(1) billed(2)] charge(3) billed(1,5) agree_log [OF billed(2)]
      unfolding billed(6) [symmetric] by (auto simp: Let_def)
  qed
next
  case (simple l p)
  show ?thesis using simple(1-4) agree_log [OF simple(6)] unfolding simple(5) [symmetric] by (simp add: Let_def)
qed

text \<open>
  (C10) A request that has been charged is not charged again when it is recorded once more with the same
  id and key, whatever the second record says it cost, also when its claim has been archived in
  between.
\<close>

theorem recorded_twice_charged_once:
  assumes "recordUsageCore tz sha env input opts w = (err, w1)" "tables (uw_db w1) \<noteq> tables (uw_db w)"
    "uw_db w2 = fold (billing_step tz sha) ops (uw_db w1)" "recordUsageCore tz sha env' input' opts' w2 = (err', w3)"
    "resolveUsageBillingRequestID (ue_ctx env') (fr_RequestID (ri_Result input')) =
      resolveUsageBillingRequestID (ue_ctx env) (fr_RequestID (ri_Result input))"
    "uk_ID (ri_APIKey input') = uk_ID (ri_APIKey input)"
  shows "tables (uw_db w3) = tables (uw_db w2)"
proof -
  let ?rid = "TrimSpace (resolveUsageBillingRequestID (ue_ctx env) (fr_RequestID (ri_Result input)))"
  let ?kid = "uk_ID (ri_APIKey input)"
  from assms(1) have "claimed ?rid ?kid (uw_db w1)"
  proof (cases rule: recordUsage_cases)
    case (billed l p res)
    from billed(4) have "claimed (TrimSpace (c_RequestID (buildUsageBillingCommand sha (ul_RequestID l) l p)))
        (c_APIKeyID (buildUsageBillingCommand sha (ul_RequestID l) l p)) (uw_db w1)"
    proof (cases rule: apply_effect)
      case kept
      then have "tables (uw_db w1) = tables (uw_db w)" by (metis tables_faults)
      with assms(2) show ?thesis by simp
    qed simp
    then show ?thesis by (simp only: command_costs [OF billed(2) refl] TrimSpace_idem billed(3))
  qed (use assms(2) in simp)
  then have c: "claimed ?rid ?kid (uw_db w2)" unfolding assms(3)
    by (induction ops rule: rev_induct) (simp_all add: billing_step_monotone)
  from assms(4) show ?thesis
  proof (cases rule: recordUsage_cases)
    case (billed l p res)
    have "claimed (TrimSpace (c_RequestID (buildUsageBillingCommand sha (ul_RequestID l) l p)))
        (c_APIKeyID (buildUsageBillingCommand sha (ul_RequestID l) l p)) (uw_db w2)"
      using c by (simp only: command_costs [OF billed(2) refl] TrimSpace_idem billed(3) assms(5,6))
    from apply_duplicate [OF billed(4) this] show ?thesis by (metis tables_faults)
  qed simp
qed

section \<open>A concrete instance\<close>

definition bill_account :: usage_account where
  "bill_account = \<lparr>ua_ID = 3, ua_Platform = ''anthropic'', ua_Type = ''oauth'', ua_RateMultiplier = None,
     ua_CacheTTLOverrideEnabled = None, ua_CacheTTLOverrideTarget = None, ua_QuotaLimit = 0, ua_QuotaDailyLimit = 0,
     ua_QuotaWeeklyLimit = 0\<rparr>"

definition bill_input :: recordUsageCoreInput where
  "bill_input = \<lparr>ri_Result = bill_result ''claude-opus-4-5'' 0, ri_APIKey = bill_key None, ri_UserID = 1,
     ri_Account = bill_account, ri_Subscription = None, ri_RequestPayloadHash = '''', ri_ForceCacheBilling = False,
     ri_APIKeyService = True, ri_ChannelFields = \<lparr>uf_ChannelID = 0, uf_OriginalModel = '''', uf_ChannelMappedModel = '''',
       uf_BillingModelSource = '''', uf_ModelMappingChain = ''''\<rparr>\<rparr>"

definition bill_env :: usage_env where
  "bill_env = \<lparr>ue_svc = None, ue_snapshots = \<lparr>sn_price = None, sn_channel = None, sn_platform = None\<rparr>, ue_defaultRate = 1,
     ue_simpleMode = False, ue_cachedRate = None, ue_rateRow = Inr None,
     ue_ctx = \<lparr>rx_ClientRequestID = '''', rx_RequestID = ''r'', rx_generated = ''x''\<rparr>, ue_usageLogRepo = True\<rparr>"

definition bill_world :: usage_world where
  "bill_world = \<lparr>uw_heap = initFallbackPricing, uw_db = demo_billing, uw_logs = [], uw_log_writes = []\<rparr>"

lemma bill_model: "TrimSpace ''claude-opus-4-5'' = ''claude-opus-4-5''" "TrimSpace ''local:r'' = ''local:r''"
  by (rule TrimSpace_graphic; simp add: graphic_def)+

lemma bill_cost:
  "calculateRecordUsageCost None chan (bill_result ''claude-opus-4-5'' 0) (bill_key None) ''claude-opus-4-5'' 1 bill_opts initFallbackPricing =
     (computeTokenBreakdown opus_price bill_tokens 1 '''' True, initFallbackPricing)"
proof -
  have "tokens_of (bill_usage 1000) = bill_tokens" by (simp add: tokens_of_def bill_usage_def bill_tokens_def no_tokens_def)
  then show ?thesis
    using opus_names opus_first
    by (simp add: calculateRecordUsageCost_def gateway_calculateTokenCost_def resolveChannelPricing_def bill_result_def bill_key_def
        bill_opts_def CalculateCost_def calculateCostInternal_def GetModelPricingWithChannel_def GetModelPricing_def
        pricing_lookup_def applyModelSpecificPricingPolicy_def cost_or_zero_def)
qed

lemma bill_prepared:
  obtains l where "prepare_usage bill_env bill_input bill_opts initFallbackPricing =
      (computeTokenBreakdown opus_price bill_tokens 1 '''' True, l, initFallbackPricing)"
    "ul_RequestID l = ''local:r''" "ul_SubscriptionID l = None"
proof -
  have u: "billed_usage bill_input = bill_usage 1000" "bill_result ''claude-opus-4-5'' 0\<lparr>fr_Usage := bill_usage 1000\<rparr> = bill_result ''claude-opus-4-5'' 0"
    by (simp_all add: billed_usage_def bill_input_def bill_result_def IsCacheTTLOverrideEnabled_def bill_account_def)
  have m: "usage_billing_model (bill_result ''claude-opus-4-5'' 0) (ri_ChannelFields bill_input) = ''claude-opus-4-5''"
    by (simp add: usage_billing_model_def forwardResultBillingModel_def bill_result_def bill_input_def bill_model)
  have r: "usage_multiplier bill_env bill_input = 1"
    by (simp add: usage_multiplier_def bill_env_def bill_input_def bill_key_def)
  have i: "ri_Result bill_input = bill_result ''claude-opus-4-5'' 0" "ri_APIKey bill_input = bill_key None" "ue_svc bill_env = None"
    "uk_GroupID (bill_key None) = None" "ri_Subscription bill_input = None"
    by (simp_all add: bill_input_def bill_env_def bill_key_def)
  have id: "resolveUsageBillingRequestID (ue_ctx bill_env) x = ''local:r''" for x
    by (simp add: resolveUsageBillingRequestID_def context_id_def bill_env_def demo_normal)
  obtain l where l: "prepare_usage bill_env bill_input bill_opts initFallbackPricing =
      (computeTokenBreakdown opus_price bill_tokens 1 '''' True, l, initFallbackPricing)"
    by (simp add: prepare_usage_def Let_def u i m r bill_cost)
  from that [OF l] prepared_agree [OF l] id i show ?thesis by (simp add: agree_def)
qed

lemma bill_run:
  "\<exists>w'. recordUsageCore demo_tz (\<lambda>_. ''f'') bill_env bill_input bill_opts bill_world = (None, w') \<and>
     b_users (uw_db w') = [\<lparr>u_id = 1, u_balance = 20 - 3 / 400, u_deleted = False\<rparr>]"
proof -
  obtain l where l: "prepare_usage bill_env bill_input bill_opts initFallbackPricing =
      (computeTokenBreakdown opus_price bill_tokens 1 '''' True, l, initFallbackPricing)"
    "ul_RequestID l = ''local:r''" "ul_SubscriptionID l = None"
    by (rule bill_prepared)
  let ?p = "usage_params bill_env bill_input (computeTokenBreakdown opus_price bill_tokens 1 '''' True)"
  let ?c = "buildUsageBillingCommand (\<lambda>_. ''f'') ''local:r'' l ?p"
  have one: "positive_or_one 1 = 1" by (simp add: positive_or_one_def)
  have f: "c_RequestID ?c = ''local:r''" "c_SubscriptionID ?c = None" "c_BalanceCost ?c = 3 / 400" "c_UserID ?c = 1"
    "c_APIKeyQuotaCost ?c = 0" "c_APIKeyRateLimitCost ?c = 0" "c_AccountQuotaCost ?c = 0" "c_APIKeyID ?c = 2"
    by (simp_all add: buildUsageBillingCommand_def Normalize_def Let_def usage_params_def is_subscription_billing_def bill_input_def
        l bill_model opus_actual one shouldDeductAPIKeyQuota_def shouldUpdateRateLimits_def shouldUpdateAccountQuota_def
        HasRateLimits_def HasAnyQuotaLimit_def bill_key_def bill_account_def)
  have n: "c_RequestID (Normalize (\<lambda>_. ''f'') ?c) = ''local:r''" "c_APIKeyQuotaCost (Normalize (\<lambda>_. ''f'') ?c) = 0"
     "c_APIKeyRateLimitCost (Normalize (\<lambda>_. ''f'') ?c) = 0" "c_AccountQuotaCost (Normalize (\<lambda>_. ''f'') ?c) = 0"
    using f bill_model by (simp_all add: Normalize_def Let_def)
  obtain r db where a: "Apply demo_tz (\<lambda>_. ''f'') (Some ?c) demo_billing = (Inr r, db)"
    "b_users db = [\<lparr>u_id = 1, u_balance = 20 - 3 / 400, u_deleted = False\<rparr>]"
    using f n
    by (simp add: Apply_def stmt_fault_def tx_return_def claimUsageBillingKey_def tx_bind_def insert_dedup_def select_archive_def
        applyUsageBillingEffects_def tx_when_def deductUsageBillingBalance_def demo_billing_def Let_def Commit_def)
  have w: "uw_heap bill_world = initFallbackPricing" "uw_db bill_world = demo_billing" "\<not> ue_simpleMode bill_env"
    by (simp_all add: bill_world_def bill_env_def)
  show ?thesis
    using a write_log(1) [of l bill_env] by (simp add: recordUsageCore_def w l applyUsageBilling_def Let_def bill_model)
qed

theorem usage_charged_as_logged_witness:
  "\<exists>w' l. recordUsageCore demo_tz (\<lambda>_. ''f'') bill_env bill_input bill_opts bill_world = (None, w') \<and>
     uw_logs w' = [stored_log l] \<and> b_users (uw_db w') = map (logged_user l) [\<lparr>u_id = 1, u_balance = 20, u_deleted = False\<rparr>] \<and>
     b_users (uw_db w') = [\<lparr>u_id = 1, u_balance = 20 - 3 / 400, u_deleted = False\<rparr>]"
proof -
  obtain w' where w: "recordUsageCore demo_tz (\<lambda>_. ''f'') bill_env bill_input bill_opts bill_world = (None, w')"
    "b_users (uw_db w') = [\<lparr>u_id = 1, u_balance = 20 - 3 / 400, u_deleted = False\<rparr>]"
    using bill_run by blast
  have start: "b_users (uw_db bill_world) = [\<lparr>u_id = 1, u_balance = 20, u_deleted = False\<rparr>]" "uw_logs bill_world = []"
    by (simp_all add: bill_world_def demo_billing_def)
  then have "tables (uw_db w') \<noteq> tables (uw_db bill_world)" using w(2) by (simp add: tables_def)
  moreover have "ue_usageLogRepo bill_env" "uw_log_writes bill_world = []" by (simp_all add: bill_env_def bill_world_def)
  ultimately show ?thesis
    using usage_charged_as_logged [OF w(1)] w start
    by (auto simp: Let_def logs_step_def insert_usage_log_def logged_def)
qed

theorem recorded_twice_charged_once_witness:
  "\<exists>w' err w3. recordUsageCore demo_tz (\<lambda>_. ''f'') bill_env bill_input bill_opts bill_world = (None, w') \<and>
     recordUsageCore demo_tz (\<lambda>_. ''f'') bill_env bill_input bill_opts w' = (err, w3) \<and>
     b_users (uw_db w3) = [\<lparr>u_id = 1, u_balance = 20 - 3 / 400, u_deleted = False\<rparr>]"
proof -
  obtain w' where w: "recordUsageCore demo_tz (\<lambda>_. ''f'') bill_env bill_input bill_opts bill_world = (None, w')"
    "b_users (uw_db w') = [\<lparr>u_id = 1, u_balance = 20 - 3 / 400, u_deleted = False\<rparr>]"
    using bill_run by blast
  then have t: "tables (uw_db w') \<noteq> tables (uw_db bill_world)" by (simp add: tables_def bill_world_def demo_billing_def)
  obtain err w3 where r: "recordUsageCore demo_tz (\<lambda>_. ''f'') bill_env bill_input bill_opts w' = (err, w3)" by fastforce
  have "uw_db w' = fold (billing_step demo_tz (\<lambda>_. ''f'')) [] (uw_db w')" by simp
  from recorded_twice_charged_once [OF w(1) t this r refl refl] have "b_users (uw_db w3) = b_users (uw_db w')"
    by (simp add: tables_def)
  then show ?thesis using w r by metis
qed

end
