(* ===== verification/SchedAccounts.thy ===== *)
theory SchedAccounts
  imports Domain Channels
begin

text \<open>
  Accounts of upstreams as the scheduler sees them: \<open>backend/internal/service/account.go\<close>,
  \<open>model_rate_limit.go\<close>, \<open>shouldClearStickySession\<close> of \<open>gateway_service.go\<close>, and the choice of the
  upstream transport in \<open>openai_ws_protocol_resolver.go\<close>.

  The record holds the columns and the fields of the JSON columns \<open>credentials\<close> and \<open>extra\<close> that are
  read here; a JSON field that is absent or of another type is \<open>None\<close>. The model mapping is a Go map
  from patterns to models, here a list with distinct keys; its default for Antigravity is left out,
  the accounts scheduled here are OpenAI ones. The time is an argument.
\<close>

section \<open>Accounts\<close>

record Account =
  ac_ID :: int
  ac_Platform :: string
  ac_Type :: string
  ac_Concurrency :: int
  ac_Priority :: int
  ac_LoadFactor :: "int option"
  ac_Status :: string
  ac_LastUsedAt :: "gotime option"
  ac_ExpiresAt :: "gotime option"
  ac_AutoPauseOnExpired :: bool
  ac_Schedulable :: bool
  ac_RateLimitResetAt :: "gotime option"
  ac_OverloadUntil :: "gotime option"
  ac_TempUnschedulableUntil :: "gotime option"
  ac_ModelMapping :: "(string \<times> string) list"
  ac_ModelLimits :: "(string \<times> gotime) list"
  ac_PrivacyMode :: "string option"
  ac_WSForceHTTP :: "bool option"
  ac_OAuthWSMode :: "string option"
  ac_APIKeyWSMode :: "string option"
  ac_OAuthWSEnabled :: "bool option"
  ac_APIKeyWSEnabled :: "bool option"
  ac_ResponsesWSEnabled :: "bool option"
  ac_OpenAIWSEnabled :: "bool option"

definition account_IsActive :: "Account \<Rightarrow> bool" where
  "account_IsActive a \<longleftrightarrow> ac_Status a = StatusActive"

definition EffectiveLoadFactor :: "Account \<Rightarrow> int" where
  "EffectiveLoadFactor a =
     (case ac_LoadFactor a of
        Some f \<Rightarrow> if f > 0 then f else if ac_Concurrency a > 0 then ac_Concurrency a else 1
      | None \<Rightarrow> if ac_Concurrency a > 0 then ac_Concurrency a else 1)"

text \<open>\<open>now.Before(*t)\<close> for a time that may be missing.\<close>

definition before_opt :: "gotime \<Rightarrow> gotime option \<Rightarrow> bool" where
  "before_opt now t \<longleftrightarrow> (case t of None \<Rightarrow> False | Some x \<Rightarrow> now < x)"

definition IsSchedulable :: "gotime \<Rightarrow> Account \<Rightarrow> bool" where
  "IsSchedulable now a \<longleftrightarrow>
     account_IsActive a \<and> ac_Schedulable a \<and>
     \<not> (ac_AutoPauseOnExpired a \<and> ac_ExpiresAt a \<noteq> None \<and> \<not> before_opt now (ac_ExpiresAt a)) \<and>
     \<not> before_opt now (ac_OverloadUntil a) \<and> \<not> before_opt now (ac_RateLimitResetAt a) \<and>
     \<not> before_opt now (ac_TempUnschedulableUntil a)"

definition PrivacyModeTrainingOff :: string where "PrivacyModeTrainingOff = ''training_off''"
definition AntigravityPrivacySet :: string where "AntigravityPrivacySet = ''privacy_set''"

definition IsPrivacySet :: "Account \<Rightarrow> bool" where
  "IsPrivacySet a \<longleftrightarrow>
     (if ac_Platform a = PlatformOpenAI then ac_PrivacyMode a = Some PrivacyModeTrainingOff
      else if ac_Platform a = PlatformAntigravity then ac_PrivacyMode a = Some AntigravityPrivacySet
      else True)"

definition IsOpenAI :: "Account \<Rightarrow> bool" where
  "IsOpenAI a \<longleftrightarrow> ac_Platform a = PlatformOpenAI"

definition IsOpenAIOAuth :: "Account \<Rightarrow> bool" where
  "IsOpenAIOAuth a \<longleftrightarrow> IsOpenAI a \<and> ac_Type a = AccountTypeOAuth"

definition IsOpenAIApiKey :: "Account \<Rightarrow> bool" where
  "IsOpenAIApiKey a \<longleftrightarrow> IsOpenAI a \<and> ac_Type a = AccountTypeAPIKey"

section \<open>Models of an account\<close>

definition matchAntigravityWildcard :: "string \<Rightarrow> string \<Rightarrow> bool" where
  "matchAntigravityWildcard pattern str \<longleftrightarrow>
     (if ends_with_star pattern then HasPrefix str (butlast pattern) else pattern = str)"

definition normalizeRequestedModelForLookup :: "string \<Rightarrow> string \<Rightarrow> string" where
  "normalizeRequestedModelForLookup platform requestedModel =
     (let trimmed = TrimSpace requestedModel in
      if trimmed = [] then [] else if platform \<noteq> PlatformGemini \<and> platform \<noteq> PlatformAntigravity then trimmed
      else if trimmed = ''gemini-3.1-pro-preview-customtools'' then ''gemini-3.1-pro-preview'' else trimmed)"

definition mappingSupportsRequestedModel :: "(string \<times> string) list \<Rightarrow> string \<Rightarrow> bool" where
  "mappingSupportsRequestedModel mapping requestedModel \<longleftrightarrow> requestedModel \<noteq> [] \<and>
     (map_of mapping requestedModel \<noteq> None \<or> list_ex (\<lambda>p. matchAntigravityWildcard (fst p) requestedModel) mapping)"

definition account_IsModelSupported :: "Account \<Rightarrow> string \<Rightarrow> bool" where
  "account_IsModelSupported a requestedModel \<longleftrightarrow>
     (let mapping = ac_ModelMapping a; normalized = normalizeRequestedModelForLookup (ac_Platform a) requestedModel
      in mapping = [] \<or> mappingSupportsRequestedModel mapping requestedModel \<or>
         normalized \<noteq> requestedModel \<and> mappingSupportsRequestedModel mapping normalized)"

text \<open>
  The longest pattern wins. Two patterns of the same length that match the same model are the same
  text, so the lexicographic comparison of the code never decides.
\<close>

definition matchWildcardMappingResult :: "(string \<times> string) list \<Rightarrow> string \<Rightarrow> string option" where
  "matchWildcardMappingResult mapping requestedModel =
     (case sort_key (\<lambda>m. - int (length (fst m))) (filter (\<lambda>m. matchAntigravityWildcard (fst m) requestedModel) mapping) of
        [] \<Rightarrow> None | m # _ \<Rightarrow> Some (snd m))"

definition resolveRequestedModelInMapping :: "(string \<times> string) list \<Rightarrow> string \<Rightarrow> string option" where
  "resolveRequestedModelInMapping mapping requestedModel =
     (if requestedModel = [] then None
      else case map_of mapping requestedModel of Some m \<Rightarrow> Some m | None \<Rightarrow> matchWildcardMappingResult mapping requestedModel)"

definition ResolveMappedModel :: "Account \<Rightarrow> string \<Rightarrow> string \<times> bool" where
  "ResolveMappedModel a requestedModel =
     (if ac_ModelMapping a = [] then (requestedModel, False)
      else case resolveRequestedModelInMapping (ac_ModelMapping a) requestedModel of
        Some m \<Rightarrow> (m, True)
      | None \<Rightarrow>
          let normalized = normalizeRequestedModelForLookup (ac_Platform a) requestedModel in
          if normalized \<noteq> requestedModel
          then (case resolveRequestedModelInMapping (ac_ModelMapping a) normalized of
              Some m \<Rightarrow> (m, True) | None \<Rightarrow> (requestedModel, False))
          else (requestedModel, False))"

definition GetMappedModel :: "Account \<Rightarrow> string \<Rightarrow> string" where
  "GetMappedModel a requestedModel = fst (ResolveMappedModel a requestedModel)"

definition getRateLimitRemainingForKey :: "gotime \<Rightarrow> Account \<Rightarrow> string \<Rightarrow> duration" where
  "getRateLimitRemainingForKey now a key =
     (case map_of (ac_ModelLimits a) key of None \<Rightarrow> 0 | Some resetAt \<Rightarrow> if resetAt - now > 0 then resetAt - now else 0)"

text \<open>Other platforms than Antigravity.\<close>

definition GetModelRateLimitRemainingTimeWithContext :: "gotime \<Rightarrow> Account \<Rightarrow> string \<Rightarrow> duration" where
  "GetModelRateLimitRemainingTimeWithContext now a requestedModel =
     (let modelKey = TrimSpace (GetMappedModel a requestedModel)
      in if modelKey = [] then 0 else getRateLimitRemainingForKey now a modelKey)"

definition shouldClearStickySession :: "gotime \<Rightarrow> Account \<Rightarrow> string \<Rightarrow> bool" where
  "shouldClearStickySession now a requestedModel \<longleftrightarrow>
     ac_Status a = StatusError \<or> ac_Status a = StatusDisabled \<or> \<not> ac_Schedulable a \<or>
     before_opt now (ac_TempUnschedulableUntil a) \<or>
     GetModelRateLimitRemainingTimeWithContext now a requestedModel > 0"

section \<open>The transport to the upstream\<close>

definition OpenAIUpstreamTransportAny :: string where "OpenAIUpstreamTransportAny = ''''"
definition OpenAIUpstreamTransportHTTPSSE :: string where "OpenAIUpstreamTransportHTTPSSE = ''http_sse''"
definition OpenAIUpstreamTransportResponsesWebsocket :: string where
  "OpenAIUpstreamTransportResponsesWebsocket = ''responses_websockets''"
definition OpenAIUpstreamTransportResponsesWebsocketV2 :: string where
  "OpenAIUpstreamTransportResponsesWebsocketV2 = ''responses_websockets_v2''"

lemmas transport_defs = OpenAIUpstreamTransportAny_def OpenAIUpstreamTransportHTTPSSE_def
  OpenAIUpstreamTransportResponsesWebsocket_def OpenAIUpstreamTransportResponsesWebsocketV2_def

definition OpenAIWSIngressModeOff :: string where "OpenAIWSIngressModeOff = ''off''"
definition OpenAIWSIngressModeShared :: string where "OpenAIWSIngressModeShared = ''shared''"
definition OpenAIWSIngressModeDedicated :: string where "OpenAIWSIngressModeDedicated = ''dedicated''"
definition OpenAIWSIngressModeCtxPool :: string where "OpenAIWSIngressModeCtxPool = ''ctx_pool''"
definition OpenAIWSIngressModePassthrough :: string where "OpenAIWSIngressModePassthrough = ''passthrough''"

lemmas mode_defs = OpenAIWSIngressModeOff_def OpenAIWSIngressModeShared_def OpenAIWSIngressModeDedicated_def
  OpenAIWSIngressModeCtxPool_def OpenAIWSIngressModePassthrough_def

definition normalizeOpenAIWSIngressMode :: "string \<Rightarrow> string" where
  "normalizeOpenAIWSIngressMode mode =
     (let m = ToLower (TrimSpace mode)
      in if m \<in> {OpenAIWSIngressModeOff, OpenAIWSIngressModeCtxPool, OpenAIWSIngressModePassthrough,
             OpenAIWSIngressModeShared, OpenAIWSIngressModeDedicated} then m else [])"

definition normalizeOpenAIWSIngressDefaultMode :: "string \<Rightarrow> string" where
  "normalizeOpenAIWSIngressDefaultMode mode =
     (let normalized = normalizeOpenAIWSIngressMode mode
      in if normalized = [] \<or> normalized = OpenAIWSIngressModeShared \<or> normalized = OpenAIWSIngressModeDedicated
         then OpenAIWSIngressModeCtxPool else normalized)"

text \<open>The first field that is present decides.\<close>

fun first_present :: "'a option list \<Rightarrow> 'a \<Rightarrow> 'a" where
  "first_present [] d = d"
| "first_present (None # xs) d = first_present xs d"
| "first_present (Some x # xs) d = x"

definition mode_string :: "string option \<Rightarrow> string option" where
  "mode_string raw = (case raw of None \<Rightarrow> None
     | Some m \<Rightarrow> let n = normalizeOpenAIWSIngressMode m in if n = [] then None else Some n)"

definition bool_mode :: "bool option \<Rightarrow> string option" where
  "bool_mode raw = map_option (\<lambda>b. if b then OpenAIWSIngressModeCtxPool else OpenAIWSIngressModeOff) raw"

definition ResolveOpenAIResponsesWebSocketV2Mode :: "Account \<Rightarrow> string \<Rightarrow> string" where
  "ResolveOpenAIResponsesWebSocketV2Mode a defaultMode =
     (if \<not> IsOpenAI a then OpenAIWSIngressModeOff
      else first_present
        ((if IsOpenAIOAuth a then [mode_string (ac_OAuthWSMode a), bool_mode (ac_OAuthWSEnabled a)] else []) @
         (if IsOpenAIApiKey a then [mode_string (ac_APIKeyWSMode a), bool_mode (ac_APIKeyWSEnabled a)] else []) @
         [bool_mode (ac_ResponsesWSEnabled a), bool_mode (ac_OpenAIWSEnabled a)])
        (normalizeOpenAIWSIngressDefaultMode defaultMode))"

definition IsOpenAIResponsesWebSocketV2Enabled :: "Account \<Rightarrow> bool" where
  "IsOpenAIResponsesWebSocketV2Enabled a \<longleftrightarrow> IsOpenAI a \<and>
     first_present
       ((if IsOpenAIOAuth a then [ac_OAuthWSEnabled a] else []) @ (if IsOpenAIApiKey a then [ac_APIKeyWSEnabled a] else []) @
        [ac_ResponsesWSEnabled a, ac_OpenAIWSEnabled a]) False"

definition IsOpenAIWSForceHTTPEnabled :: "Account \<Rightarrow> bool" where
  "IsOpenAIWSForceHTTPEnabled a \<longleftrightarrow> IsOpenAI a \<and> ac_WSForceHTTP a = Some True"

record ws_config =
  wc_ForceHTTP :: bool
  wc_Enabled :: bool
  wc_OAuthEnabled :: bool
  wc_APIKeyEnabled :: bool
  wc_ModeRouterV2Enabled :: bool
  wc_IngressModeDefault :: string
  wc_ResponsesWebsockets :: bool
  wc_ResponsesWebsocketsV2 :: bool

record OpenAIWSProtocolDecision =
  pd_Transport :: string
  pd_Reason :: string

definition openAIWSHTTPDecision :: "string \<Rightarrow> OpenAIWSProtocolDecision" where
  "openAIWSHTTPDecision reason = \<lparr>pd_Transport = OpenAIUpstreamTransportHTTPSSE, pd_Reason = reason\<rparr>"

definition ws_decision :: "ws_config \<Rightarrow> string \<Rightarrow> string \<Rightarrow> OpenAIWSProtocolDecision" where
  "ws_decision cfg v2 v1 =
     (if wc_ResponsesWebsocketsV2 cfg
      then \<lparr>pd_Transport = OpenAIUpstreamTransportResponsesWebsocketV2, pd_Reason = v2\<rparr>
      else if wc_ResponsesWebsockets cfg
      then \<lparr>pd_Transport = OpenAIUpstreamTransportResponsesWebsocket, pd_Reason = v1\<rparr>
      else openAIWSHTTPDecision ''feature_disabled'')"

definition ws_Resolve :: "ws_config option \<Rightarrow> Account \<Rightarrow> OpenAIWSProtocolDecision" where
  "ws_Resolve config a =
     (if \<not> IsOpenAI a then openAIWSHTTPDecision ''platform_not_openai''
      else if IsOpenAIWSForceHTTPEnabled a then openAIWSHTTPDecision ''account_force_http''
      else case config of
        None \<Rightarrow> openAIWSHTTPDecision ''config_missing''
      | Some cfg \<Rightarrow>
          if wc_ForceHTTP cfg then openAIWSHTTPDecision ''global_force_http''
          else if \<not> wc_Enabled cfg then openAIWSHTTPDecision ''global_disabled''
          else if IsOpenAIOAuth a \<and> \<not> wc_OAuthEnabled cfg then openAIWSHTTPDecision ''oauth_disabled''
          else if \<not> IsOpenAIOAuth a \<and> IsOpenAIApiKey a \<and> \<not> wc_APIKeyEnabled cfg then openAIWSHTTPDecision ''apikey_disabled''
          else if \<not> IsOpenAIOAuth a \<and> \<not> IsOpenAIApiKey a then openAIWSHTTPDecision ''unknown_auth_type''
          else if wc_ModeRouterV2Enabled cfg then
            let m0 = ResolveOpenAIResponsesWebSocketV2Mode a (wc_IngressModeDefault cfg);
                mode = (if m0 \<in> {OpenAIWSIngressModeShared, OpenAIWSIngressModeDedicated} then OpenAIWSIngressModeCtxPool else m0)
            in if mode \<notin> {OpenAIWSIngressModeCtxPool, OpenAIWSIngressModePassthrough}
               then openAIWSHTTPDecision ''account_mode_off''
               else if ac_Concurrency a \<le> 0 then openAIWSHTTPDecision ''account_concurrency_invalid''
               else ws_decision cfg (''ws_v2_mode_'' @ mode) (''ws_v1_mode_'' @ mode)
          else if \<not> IsOpenAIResponsesWebSocketV2Enabled a then openAIWSHTTPDecision ''account_disabled''
          else ws_decision cfg ''ws_v2_enabled'' ''ws_v1_enabled'')"

end
