(* ===== verification/SchedRank.thy ===== *)
theory SchedRank
  imports SchedAccounts Concurrency "HOL-Library.Word" "HOL-Library.Product_Lexorder" "HOL-Library.Multiset"
begin

unbundle bit_operations_syntax

text \<open>
  How candidates are ranked: \<open>backend/internal/service/openai_account_scheduler.go\<close>, the running averages of
  accounts, the score, the selection of the best \<open>k\<close> with Go's \<open>container/heap\<close>, and the weighted
  order in which they are tried, with its random numbers.

  Scores and averages are rationals, where the code has \<open>float64\<close>. A heap is a list, as in the code:
  the children of position \<open>i\<close> are at \<open>2i + 1\<close> and \<open>2i + 2\<close>. Random numbers are 64-bit words. The time,
  read for the seed, is an argument.
\<close>

section \<open>Running averages\<close>

record openAIAccountRuntimeStat =
  rs_errorRate :: rat
  rs_ttft :: "rat option"

type_synonym runtime_stats = "(int \<times> openAIAccountRuntimeStat) list"

definition clamp01 :: "rat \<Rightarrow> rat" where
  "clamp01 value = (if value < 0 then 0 else if value > 1 then 1 else value)"

definition updateEWMA :: "rat \<Rightarrow> rat \<Rightarrow> rat \<Rightarrow> rat" where
  "updateEWMA oldValue sample alpha = alpha * sample + (1 - alpha) * oldValue"

definition ewma_alpha :: rat where "ewma_alpha = 2 / 10"

definition loadOrCreate :: "int \<Rightarrow> runtime_stats \<Rightarrow> openAIAccountRuntimeStat" where
  "loadOrCreate accountID s = (case map_of s accountID of Some st \<Rightarrow> st | None \<Rightarrow> \<lparr>rs_errorRate = 0, rs_ttft = None\<rparr>)"

definition report :: "int \<Rightarrow> bool \<Rightarrow> int option \<Rightarrow> runtime_stats \<Rightarrow> runtime_stats" where
  "report accountID success firstTokenMs s =
     (if accountID \<le> 0 then s
      else let stat = loadOrCreate accountID s;
               stat1 = stat\<lparr>rs_errorRate := updateEWMA (rs_errorRate stat) (if success then 0 else 1) ewma_alpha\<rparr>;
               stat2 = (case firstTokenMs of
                   None \<Rightarrow> stat1
                 | Some ms \<Rightarrow> if ms > 0 then stat1\<lparr>rs_ttft := Some (case rs_ttft stat1 of
                       None \<Rightarrow> of_int ms | Some old \<Rightarrow> updateEWMA old (of_int ms) ewma_alpha)\<rparr> else stat1)
           in AList.update accountID stat2 s)"

definition stat_snapshot :: "runtime_stats \<Rightarrow> int \<Rightarrow> rat \<times> rat option" where
  "stat_snapshot s accountID =
     (if accountID \<le> 0 then (0, None)
      else case map_of s accountID of None \<Rightarrow> (0, None) | Some st \<Rightarrow> (clamp01 (rs_errorRate st), rs_ttft st))"

section \<open>Candidates\<close>

record candidate =
  cs_account :: Account
  cs_loadInfo :: LoadInfo
  cs_score :: rat
  cs_errorRate :: rat
  cs_ttft :: "rat option"

definition isOpenAIAccountCandidateBetter :: "candidate \<Rightarrow> candidate \<Rightarrow> bool" where
  "isOpenAIAccountCandidateBetter left right =
     (if cs_score left \<noteq> cs_score right then cs_score left > cs_score right
      else if ac_Priority (cs_account left) \<noteq> ac_Priority (cs_account right)
      then ac_Priority (cs_account left) < ac_Priority (cs_account right)
      else if li_LoadRate (cs_loadInfo left) \<noteq> li_LoadRate (cs_loadInfo right)
      then li_LoadRate (cs_loadInfo left) < li_LoadRate (cs_loadInfo right)
      else if li_WaitingCount (cs_loadInfo left) \<noteq> li_WaitingCount (cs_loadInfo right)
      then li_WaitingCount (cs_loadInfo left) < li_WaitingCount (cs_loadInfo right)
      else ac_ID (cs_account left) < ac_ID (cs_account right))"

text \<open>The same order as a key: the better candidate has the smaller one.\<close>

definition candidate_key :: "candidate \<Rightarrow> rat \<times> int \<times> int \<times> int \<times> int" where
  "candidate_key c = (- cs_score c, ac_Priority (cs_account c), li_LoadRate (cs_loadInfo c),
     li_WaitingCount (cs_loadInfo c), ac_ID (cs_account c))"

section \<open>Heaps\<close>

text \<open>\<open>container/heap\<close>: \<open>up\<close>, \<open>down\<close>, \<open>Push\<close> and \<open>Fix\<close>, for a given \<open>Less\<close>.\<close>

definition heap_swap :: "nat \<Rightarrow> nat \<Rightarrow> 'a list \<Rightarrow> 'a list" where
  "heap_swap i j h = h[i := h ! j, j := h ! i]"

function heap_up :: "('a \<Rightarrow> 'a \<Rightarrow> bool) \<Rightarrow> 'a list \<Rightarrow> nat \<Rightarrow> 'a list" where
  "heap_up lt h j =
     (let i = (j - 1) div 2
      in if j = 0 \<or> \<not> lt (h ! j) (h ! i) then h else heap_up lt (heap_swap i j h) i)"
  by auto
termination by (relation "measure (\<lambda>(lt, h, j). j)") auto

declare heap_up.simps [simp del]

definition smaller_child :: "('a \<Rightarrow> 'a \<Rightarrow> bool) \<Rightarrow> 'a list \<Rightarrow> nat \<Rightarrow> nat" where
  "smaller_child lt h i =
     (if 2 * i + 2 < length h \<and> lt (h ! (2 * i + 2)) (h ! (2 * i + 1)) then 2 * i + 2 else 2 * i + 1)"

lemma smaller_child_bounds: "2 * i + 1 < length h \<Longrightarrow> i < smaller_child lt h i \<and> smaller_child lt h i < length h"
  by (simp add: smaller_child_def)

function heap_down :: "('a \<Rightarrow> 'a \<Rightarrow> bool) \<Rightarrow> 'a list \<Rightarrow> nat \<Rightarrow> 'a list \<times> nat" where
  "heap_down lt h i =
     (let j = smaller_child lt h i
      in if length h \<le> 2 * i + 1 \<or> \<not> lt (h ! j) (h ! i) then (h, i) else heap_down lt (heap_swap i j h) j)"
  by auto
termination
proof (relation "measure (\<lambda>(lt, h, i). length h - i)", goal_cases)
  case (2 lt h i j)
  then show ?case using smaller_child_bounds [of i h lt] by (auto simp: heap_swap_def)
qed simp

declare heap_down.simps [simp del]

definition heap_Push :: "('a \<Rightarrow> 'a \<Rightarrow> bool) \<Rightarrow> 'a list \<Rightarrow> 'a \<Rightarrow> 'a list" where
  "heap_Push lt h x = heap_up lt (h @ [x]) (length h)"

definition heap_Fix :: "('a \<Rightarrow> 'a \<Rightarrow> bool) \<Rightarrow> 'a list \<Rightarrow> nat \<Rightarrow> 'a list" where
  "heap_Fix lt h i = (case heap_down lt h i of (h1, j) \<Rightarrow> if i < j then h1 else heap_up lt h1 i)"

section \<open>The best candidates\<close>

definition heap_Less :: "candidate \<Rightarrow> candidate \<Rightarrow> bool" where
  "heap_Less x y = isOpenAIAccountCandidateBetter y x"

definition topk_step :: "nat \<Rightarrow> candidate \<Rightarrow> candidate list \<Rightarrow> candidate list" where
  "topk_step topK c best =
     (if length best < topK then heap_Push heap_Less best c
      else if isOpenAIAccountCandidateBetter c (best ! 0) then heap_Fix heap_Less (best[0 := c]) 0
      else best)"

text \<open>\<open>sort.Slice\<close> by \<open>isOpenAIAccountCandidateBetter\<close>: candidates with different ids are never equal.\<close>

definition selectTopKOpenAICandidates :: "candidate list \<Rightarrow> int \<Rightarrow> candidate list" where
  "selectTopKOpenAICandidates candidates topK0 =
     (if candidates = [] then []
      else let topK = nat (if topK0 \<le> 0 then 1 else topK0)
           in if length candidates \<le> topK then sort_key candidate_key candidates
              else sort_key candidate_key (fold (topk_step topK) candidates []))"

section \<open>Random numbers\<close>

definition newOpenAISelectionRNG :: "64 word \<Rightarrow> 64 word" where
  "newOpenAISelectionRNG seed = (if seed = 0 then 0x9e3779b97f4a7c15 else seed)"

definition xorshift :: "64 word \<Rightarrow> 64 word" where
  "xorshift s =
     (let x = s XOR drop_bit 12 s; x = x XOR push_bit 25 x in x XOR drop_bit 27 x)"

definition nextUint64 :: "64 word \<Rightarrow> 64 word \<times> 64 word" where
  "nextUint64 s = (xorshift s * 2685821657736338717, xorshift s)"

definition nextFloat64 :: "64 word \<Rightarrow> rat \<times> 64 word" where
  "nextFloat64 s = (case nextUint64 s of (v, s1) \<Rightarrow> (of_nat (unat (drop_bit 11 v)) / 2 ^ 53, s1))"

text \<open>FNV-1a over the bytes of a text.\<close>

definition fnv1a :: "64 word \<Rightarrow> nat list \<Rightarrow> 64 word" where
  "fnv1a h bs = fold (\<lambda>b h. (h XOR of_nat b) * 1099511628211) bs h"

definition fnv_offset :: "64 word" where "fnv_offset = 14695981039346656037"

definition write_value :: "string \<Rightarrow> 64 word \<Rightarrow> 64 word" where
  "write_value v h =
     (let trimmed = TrimSpace v in if trimmed = [] then h else fnv1a h (map of_char trimmed @ [0]))"

record OpenAIAccountScheduleRequest =
  rq_GroupID :: "int option"
  rq_SessionHash :: string
  rq_StickyAccountID :: int
  rq_PreviousResponseID :: string
  rq_RequestedModel :: string
  rq_RequiredTransport :: string
  rq_ExcludedIDs :: "int list"

definition deriveOpenAISelectionSeed :: "64 word \<Rightarrow> OpenAIAccountScheduleRequest \<Rightarrow> 64 word" where
  "deriveOpenAISelectionSeed nano req =
     (let h = write_value (rq_RequestedModel req)
                (write_value (rq_PreviousResponseID req) (write_value (rq_SessionHash req) fnv_offset));
          h = (case rq_GroupID req of None \<Rightarrow> h | Some g \<Rightarrow> fnv1a h (map of_char (itoa g)));
          seed = (if TrimSpace (rq_SessionHash req) = [] \<and> TrimSpace (rq_PreviousResponseID req) = [] then h XOR nano else h)
      in if seed = 0 then nano XOR 0x9e3779b97f4a7c15 else seed)"

section \<open>The order of trying\<close>

fun pick_index :: "rat \<Rightarrow> rat \<Rightarrow> nat \<Rightarrow> rat list \<Rightarrow> nat" where
  "pick_index r acc i [] = 0"
| "pick_index r acc i (w # ws) = (if r \<le> acc + w then i else pick_index r (acc + w) (Suc i) ws)"

definition select_index :: "rat list \<Rightarrow> 64 word \<Rightarrow> nat \<times> 64 word" where
  "select_index weights rng =
     (let total = sum_list weights
      in if total > 0 then (case nextFloat64 rng of (x, rng1) \<Rightarrow> (pick_index (x * total) 0 0 weights, rng1))
         else (case nextUint64 rng of (v, rng1) \<Rightarrow> (unat (v mod of_nat (length weights)), rng1)))"

definition remove_at :: "nat \<Rightarrow> 'a list \<Rightarrow> 'a list" where
  "remove_at i xs = take i xs @ drop (Suc i) xs"

fun draw_order :: "nat \<Rightarrow> (candidate \<times> rat) list \<Rightarrow> 64 word \<Rightarrow> candidate list" where
  "draw_order 0 pool rng = []"
| "draw_order (Suc n) pool rng =
     (case select_index (map snd pool) rng of (i, rng1) \<Rightarrow> fst (pool ! i) # draw_order n (remove_at i pool) rng1)"

definition min_score :: "candidate list \<Rightarrow> rat" where
  "min_score cs = fold (\<lambda>c m. if cs_score c < m then cs_score c else m) (tl cs) (cs_score (hd cs))"

definition candidate_weight :: "rat \<Rightarrow> candidate \<Rightarrow> rat" where
  "candidate_weight m c = (let w = (cs_score c - m) + 1 in if w \<le> 0 then 1 else w)"

text \<open>The loop runs until the pool is empty, once for each candidate.\<close>

definition buildOpenAIWeightedSelectionOrder :: "64 word \<Rightarrow> candidate list \<Rightarrow> OpenAIAccountScheduleRequest \<Rightarrow> candidate list" where
  "buildOpenAIWeightedSelectionOrder nano candidates req =
     (if length candidates \<le> 1 then candidates
      else draw_order (length candidates) (map (\<lambda>c. (c, candidate_weight (min_score candidates) c)) candidates)
        (newOpenAISelectionRNG (deriveOpenAISelectionSeed nano req)))"

section \<open>Scores\<close>

record score_weights =
  sw_Priority :: rat
  sw_Load :: rat
  sw_Queue :: rat
  sw_ErrorRate :: rat
  sw_TTFT :: rat

definition default_weights :: score_weights where
  "default_weights = \<lparr>sw_Priority = 1, sw_Load = 1, sw_Queue = 7 / 10, sw_ErrorRate = 8 / 10, sw_TTFT = 5 / 10\<rparr>"

definition load_of :: "(int \<times> LoadInfo) list \<Rightarrow> Account \<Rightarrow> LoadInfo" where
  "load_of loads a = (case map_of loads (ac_ID a) of Some i \<Rightarrow> i
     | None \<Rightarrow> \<lparr>li_ID = ac_ID a, li_CurrentConcurrency = 0, li_WaitingCount = 0, li_LoadRate = 0\<rparr>)"

definition unscored :: "(int \<times> LoadInfo) list \<Rightarrow> runtime_stats \<Rightarrow> Account \<Rightarrow> candidate" where
  "unscored loads stats a =
     (case stat_snapshot stats (ac_ID a) of (e, t) \<Rightarrow>
        \<lparr>cs_account = a, cs_loadInfo = load_of loads a, cs_score = 0, cs_errorRate = e, cs_ttft = t\<rparr>)"

text \<open>The extremes over all candidates, against which each is measured.\<close>

record extremes =
  ex_minPriority :: int
  ex_maxPriority :: int
  ex_maxWaiting :: int
  ex_ttfts :: "rat list"

definition positive_ttfts :: "candidate list \<Rightarrow> rat list" where
  "positive_ttfts cs = filter (\<lambda>t. t > 0) (List.map_filter cs_ttft cs)"

definition extremes_of :: "candidate list \<Rightarrow> extremes" where
  "extremes_of cs =
     (let ps = map (\<lambda>c. ac_Priority (cs_account c)) cs
      in \<lparr>ex_minPriority = fold min (tl ps) (hd ps), ex_maxPriority = fold max (tl ps) (hd ps),
          ex_maxWaiting = fold (\<lambda>c m. max m (li_WaitingCount (cs_loadInfo c))) cs 1, ex_ttfts = positive_ttfts cs\<rparr>)"

definition ttft_factor :: "rat list \<Rightarrow> rat option \<Rightarrow> rat" where
  "ttft_factor samples ttft =
     (case (ttft, samples) of
        (Some t, x # xs) \<Rightarrow>
          let lo = fold min xs x; hi = fold max xs x
          in if lo < hi then 1 - clamp01 ((t - lo) / (hi - lo)) else 5 / 10
      | _ \<Rightarrow> 5 / 10)"

definition score_of :: "score_weights \<Rightarrow> extremes \<Rightarrow> candidate \<Rightarrow> rat" where
  "score_of w e c =
     (let priorityFactor = (if ex_maxPriority e > ex_minPriority e
            then 1 - of_int (ac_Priority (cs_account c) - ex_minPriority e) / of_int (ex_maxPriority e - ex_minPriority e) else 1);
          loadFactor = 1 - clamp01 (of_int (li_LoadRate (cs_loadInfo c)) / 100);
          queueFactor = 1 - clamp01 (of_int (li_WaitingCount (cs_loadInfo c)) / of_int (ex_maxWaiting e));
          errorFactor = 1 - clamp01 (cs_errorRate c)
      in sw_Priority w * priorityFactor + sw_Load w * loadFactor + sw_Queue w * queueFactor +
         sw_ErrorRate w * errorFactor + sw_TTFT w * ttft_factor (ex_ttfts e) (cs_ttft c))"

definition scored :: "score_weights \<Rightarrow> (int \<times> LoadInfo) list \<Rightarrow> runtime_stats \<Rightarrow> Account list \<Rightarrow> candidate list" where
  "scored w loads stats filtered =
     (let cs = map (unscored loads stats) filtered in map (\<lambda>c. c\<lparr>cs_score := score_of w (extremes_of cs) c\<rparr>) cs)"

end
