(* ===== verification/StickySessions.thy ===== *)
theory StickySessions
  imports WsStateStore BusinessDb
begin

text \<open>
  Which account a session sticks to: \<open>backend/internal/repository/gateway_cache.go\<close>, the session cache on
  Redis, and \<open>service/openai_sticky_compat.go\<close>, the keys of OpenAI sessions and the second key of
  sessions from before their hash was changed.

  The state is Redis: a text key has an account and the time at which it is forgotten. A call may fail, or
  be executed although an error is reported. The hash functions are parameters.
\<close>

section \<open>The session cache\<close>

record session_redis =
  sn_now :: gotime
  sn_accounts :: "(string \<times> int \<times> gotime) list"
  sn_faults :: "outcome list"

definition ErrSessionRedis :: go_error where "ErrSessionRedis = PlainErr ''redis error''"
definition RedisNil :: go_error where "RedisNil = PlainErr ''redis: nil''"

definition session_send :: "(session_redis \<Rightarrow> (go_error + 'r) \<times> session_redis) \<Rightarrow> session_redis \<Rightarrow>
    (go_error + 'r) \<times> session_redis" where
  "session_send f s =
     (case sn_faults s of
        [] \<Rightarrow> f s
      | oc # ocs \<Rightarrow> let s1 = s\<lparr>sn_faults := ocs\<rparr> in
          (case oc of Works \<Rightarrow> f s1 | Fails \<Rightarrow> (Inl ErrSessionRedis, s1) | Unacked \<Rightarrow> (Inl ErrSessionRedis, snd (f s1))))"

definition session_of :: "string \<Rightarrow> session_redis \<Rightarrow> int option" where
  "session_of key s =
     (case map_of (sn_accounts s) key of None \<Rightarrow> None | Some (a, t) \<Rightarrow> if sn_now s < t then Some a else None)"

definition stickySessionPrefix :: string where "stickySessionPrefix = ''sticky_session:''"

definition buildSessionKey :: "int \<Rightarrow> string \<Rightarrow> string" where
  "buildSessionKey groupID sessionHash = stickySessionPrefix @ itoa groupID @ '':'' @ sessionHash"

definition cache_GetSessionAccountID :: "int \<Rightarrow> string \<Rightarrow> session_redis \<Rightarrow> (go_error + int) \<times> session_redis" where
  "cache_GetSessionAccountID groupID sessionHash =
     session_send (\<lambda>s. (case session_of (buildSessionKey groupID sessionHash) s of None \<Rightarrow> Inl RedisNil | Some a \<Rightarrow> Inr a, s))"

text \<open>Every lifetime that is given is positive.\<close>

definition cache_SetSessionAccountID :: "int \<Rightarrow> string \<Rightarrow> int \<Rightarrow> duration \<Rightarrow> session_redis \<Rightarrow>
    (go_error + unit) \<times> session_redis" where
  "cache_SetSessionAccountID groupID sessionHash accountID ttl =
     session_send (\<lambda>s. (Inr (), s\<lparr>sn_accounts := AList.update (buildSessionKey groupID sessionHash)
       (accountID, sn_now s + ttl) (sn_accounts s)\<rparr>))"

definition cache_RefreshSessionTTL :: "int \<Rightarrow> string \<Rightarrow> duration \<Rightarrow> session_redis \<Rightarrow>
    (go_error + unit) \<times> session_redis" where
  "cache_RefreshSessionTTL groupID sessionHash ttl =
     session_send (\<lambda>s. (Inr (), (case session_of (buildSessionKey groupID sessionHash) s of
         None \<Rightarrow> s
       | Some a \<Rightarrow> s\<lparr>sn_accounts := AList.update (buildSessionKey groupID sessionHash)
           (a, sn_now s + ttl) (sn_accounts s)\<rparr>)))"

definition cache_DeleteSessionAccountID :: "int \<Rightarrow> string \<Rightarrow> session_redis \<Rightarrow> (go_error + unit) \<times> session_redis" where
  "cache_DeleteSessionAccountID groupID sessionHash =
     session_send (\<lambda>s. (Inr (), s\<lparr>sn_accounts := AList.delete (buildSessionKey groupID sessionHash) (sn_accounts s)\<rparr>))"

definition NewGatewayCache :: "session_redis GatewayCache" where
  "NewGatewayCache = \<lparr>GetSessionAccountID = cache_GetSessionAccountID, SetSessionAccountID = cache_SetSessionAccountID,
     DeleteSessionAccountID = cache_DeleteSessionAccountID\<rparr>"

section \<open>Keys of OpenAI sessions\<close>

definition deriveOpenAISessionHashes :: "(string \<Rightarrow> string) \<Rightarrow> (string \<Rightarrow> string) \<Rightarrow> string \<Rightarrow> string \<times> string" where
  "deriveOpenAISessionHashes xxhash_hex sha256_hex sessionID =
     (let normalized = TrimSpace sessionID in
      if normalized = [] then ([], []) else (xxhash_hex normalized, sha256_hex normalized))"

text \<open>What the service has for sticky sessions: the cache, unless it is nil, and the flags of the configuration.\<close>

record sticky_config =
  sk_cache :: bool
  sk_readOld :: bool
  sk_dualWrite :: bool
  sk_ttlSeconds :: int

definition openaiStickySessionTTL :: duration where "openaiStickySessionTTL = 3600 * time_Second"

definition openAIWSSessionStickyTTL :: "sticky_config \<Rightarrow> duration" where
  "openAIWSSessionStickyTTL k = (if sk_ttlSeconds k > 0 then sk_ttlSeconds k * time_Second else openaiStickySessionTTL)"

definition openAISessionCacheKey :: "string \<Rightarrow> string" where
  "openAISessionCacheKey sessionHash =
     (let normalized = TrimSpace sessionHash in if normalized = [] then [] else ''openai:'' @ normalized)"

text \<open>\<open>legacy\<close>: the hash in the context of the request, trimmed, empty when there is none.\<close>

definition openAILegacySessionCacheKey :: "string \<Rightarrow> string \<Rightarrow> string" where
  "openAILegacySessionCacheKey legacy sessionHash =
     (if legacy = [] then []
      else let legacyKey = ''openai:'' @ legacy
           in if legacyKey = openAISessionCacheKey sessionHash then [] else legacyKey)"

definition openAIStickyLegacyTTL :: "duration \<Rightarrow> duration" where
  "openAIStickyLegacyTTL ttl =
     (let legacyTTL = (if ttl \<le> 0 then openaiStickySessionTTL else ttl)
      in if legacyTTL > 10 * time_Minute then 10 * time_Minute else legacyTTL)"

definition derefGroupID :: "int option \<Rightarrow> int" where
  "derefGroupID groupID = (case groupID of None \<Rightarrow> 0 | Some g \<Rightarrow> g)"

definition session_found :: "go_error + int \<Rightarrow> bool" where
  "session_found r = (case r of Inl _ \<Rightarrow> False | Inr accountID \<Rightarrow> accountID > 0)"

section \<open>Reading, writing, extending and dropping a binding\<close>

definition getStickySessionAccountID :: "sticky_config \<Rightarrow> string \<Rightarrow> int option \<Rightarrow> string \<Rightarrow> session_redis \<Rightarrow>
    (go_error + int) \<times> session_redis" where
  "getStickySessionAccountID k legacy groupID sessionHash s =
     (let primaryKey = openAISessionCacheKey sessionHash; legacyKey = openAILegacySessionCacheKey legacy sessionHash in
      if \<not> sk_cache k \<or> primaryKey = [] then (Inr 0, s)
      else case cache_GetSessionAccountID (derefGroupID groupID) primaryKey s of (r, s1) \<Rightarrow>
        if session_found r \<or> \<not> sk_readOld k \<or> legacyKey = [] then (r, s1)
        else case cache_GetSessionAccountID (derefGroupID groupID) legacyKey s1 of (r2, s2) \<Rightarrow>
          (if session_found r2 then r2 else r, s2))"

definition setStickySessionAccountID :: "sticky_config \<Rightarrow> string \<Rightarrow> int option \<Rightarrow> string \<Rightarrow> int \<Rightarrow> duration \<Rightarrow> session_redis \<Rightarrow>
    (go_error + unit) \<times> session_redis" where
  "setStickySessionAccountID k legacy groupID sessionHash accountID ttl s =
     (let primaryKey = openAISessionCacheKey sessionHash; legacyKey = openAILegacySessionCacheKey legacy sessionHash in
      if \<not> sk_cache k \<or> accountID \<le> 0 \<or> primaryKey = [] then (Inr (), s)
      else case cache_SetSessionAccountID (derefGroupID groupID) primaryKey accountID ttl s of
        (Inl e, s1) \<Rightarrow> (Inl e, s1)
      | (Inr _, s1) \<Rightarrow>
          if \<not> sk_dualWrite k \<or> legacyKey = [] then (Inr (), s1)
          else cache_SetSessionAccountID (derefGroupID groupID) legacyKey accountID (openAIStickyLegacyTTL ttl) s1)"

definition refreshStickySessionTTL :: "sticky_config \<Rightarrow> string \<Rightarrow> int option \<Rightarrow> string \<Rightarrow> duration \<Rightarrow> session_redis \<Rightarrow>
    (go_error + unit) \<times> session_redis" where
  "refreshStickySessionTTL k legacy groupID sessionHash ttl s =
     (let primaryKey = openAISessionCacheKey sessionHash; legacyKey = openAILegacySessionCacheKey legacy sessionHash in
      if \<not> sk_cache k \<or> primaryKey = [] then (Inr (), s)
      else case cache_RefreshSessionTTL (derefGroupID groupID) primaryKey ttl s of (r, s1) \<Rightarrow>
        if \<not> sk_readOld k \<and> \<not> sk_dualWrite k \<or> legacyKey = [] then (r, s1)
        else (r, snd (cache_RefreshSessionTTL (derefGroupID groupID) legacyKey (openAIStickyLegacyTTL ttl) s1)))"

definition deleteStickySessionAccountID :: "sticky_config \<Rightarrow> string \<Rightarrow> int option \<Rightarrow> string \<Rightarrow> session_redis \<Rightarrow>
    (go_error + unit) \<times> session_redis" where
  "deleteStickySessionAccountID k legacy groupID sessionHash s =
     (let primaryKey = openAISessionCacheKey sessionHash; legacyKey = openAILegacySessionCacheKey legacy sessionHash in
      if \<not> sk_cache k \<or> primaryKey = [] then (Inr (), s)
      else case cache_DeleteSessionAccountID (derefGroupID groupID) primaryKey s of (r, s1) \<Rightarrow>
        if \<not> sk_readOld k \<and> \<not> sk_dualWrite k \<or> legacyKey = [] then (r, s1)
        else (r, snd (cache_DeleteSessionAccountID (derefGroupID groupID) legacyKey s1)))"

definition BindStickySession :: "sticky_config \<Rightarrow> string \<Rightarrow> int option \<Rightarrow> string \<Rightarrow> int \<Rightarrow> session_redis \<Rightarrow>
    (go_error + unit) \<times> session_redis" where
  "BindStickySession k legacy groupID sessionHash accountID s =
     (if sessionHash = [] \<or> accountID \<le> 0 then (Inr (), s)
      else setStickySessionAccountID k legacy groupID sessionHash accountID (openAIWSSessionStickyTTL k) s)"

end
