(* ===== verification/Scheduler.thy ===== *)
theory Scheduler
  imports SchedRank StickySessions
begin

text \<open>
  How a request gets its OpenAI account: \<open>Select\<close> with its three layers and \<open>SelectAccountWithScheduler\<close>
  of \<open>backend/internal/service/openai_account_scheduler.go\<close>, with what they use of
  \<open>openai_gateway_service.go\<close> (fresh reads of accounts, slots) and
  \<open>SelectAccountByPreviousResponseID\<close> of \<open>openai_ws_forwarder.go\<close>.

  A selection is a program (\<open>Prog\<close>) over the state of the process and of what it talks to: the slots in
  Redis (\<open>Concurrency\<close>), the sticky sessions (\<open>StickySessions\<close>), the accounts of responses (\<open>WsStateStore\<close>),
  the accounts in the database and in the scheduler's snapshot, which need not agree, and the running
  averages and counters. The answers of the snapshot and of the database to a list, an account or a group
  are part of the state; a nil service is a field of the configuration. Left out are the measured
  latency and the spread of the loads, which are only reported.
\<close>

section \<open>The state\<close>

record sched_group =
  gr_Name :: string
  gr_RequirePrivacySet :: bool

record scheduler_metrics =
  sm_selectTotal :: int
  sm_stickyPreviousHitTotal :: int
  sm_stickySessionHitTotal :: int
  sm_loadBalanceSelectTotal :: int
  sm_accountSwitchTotal :: int

record gateway =
  gw_now :: gotime
  gw_slots :: cworld
  gw_responses :: ws_store
  gw_sessions :: session_redis
  gw_listed :: "int option \<Rightarrow> go_error + Account list"
  gw_snapshot :: "int \<Rightarrow> go_error + Account option"
  gw_accounts :: "int \<Rightarrow> go_error + Account option"
  gw_groups :: "int \<Rightarrow> sched_group option"
  gw_faults :: "outcome list"
  gw_stats :: runtime_stats
  gw_metrics :: scheduler_metrics

type_synonym 'a gprog = "(gateway, 'a) prog"

text \<open>
  The service: whether it has a snapshot, its concurrency service with the prefix of the process, the
  sticky sessions, the configuration, the hash of response ids and the order of \<open>range\<close>.
\<close>

record service_config =
  sv_snapshot :: bool
  sv_concurrency :: "(concurrencyCache \<times> string) option"
  sv_sticky :: sticky_config
  sv_ws :: "ws_config option"
  sv_responseTTLSeconds :: int
  sv_LBTopK :: int
  sv_weights :: score_weights
  sv_StickySessionWaitTimeout :: duration
  sv_StickySessionMaxWaiting :: int
  sv_FallbackWaitTimeout :: duration
  sv_FallbackMaxWaiting :: int
  sv_sha256 :: "string \<Rightarrow> string"
  sv_range :: "string list \<Rightarrow> string list"

record AccountWaitPlan =
  wp_AccountID :: int
  wp_MaxConcurrency :: int
  wp_Timeout :: duration
  wp_MaxWaiting :: int

text \<open>The slot is what \<open>ReleaseFunc\<close> gives back; a result with a plan has none.\<close>

record AccountSelectionResult =
  sr_Account :: Account
  sr_Slot :: "slot option"
  sr_WaitPlan :: "AccountWaitPlan option"

definition sr_Acquired :: "AccountSelectionResult \<Rightarrow> bool" where
  "sr_Acquired r \<longleftrightarrow> sr_Slot r \<noteq> None"

definition acquired_result :: "Account \<Rightarrow> slot \<Rightarrow> AccountSelectionResult" where
  "acquired_result a sl = \<lparr>sr_Account = a, sr_Slot = Some sl, sr_WaitPlan = None\<rparr>"

definition waiting_result :: "Account \<Rightarrow> int \<Rightarrow> duration \<Rightarrow> int \<Rightarrow> AccountSelectionResult" where
  "waiting_result a accountID timeout maxWaiting = \<lparr>sr_Account = a, sr_Slot = None, sr_WaitPlan = Some
     \<lparr>wp_AccountID = accountID, wp_MaxConcurrency = ac_Concurrency a, wp_Timeout = timeout, wp_MaxWaiting = maxWaiting\<rparr>\<rparr>"

record OpenAIAccountScheduleDecision =
  sd_Layer :: string
  sd_StickyPreviousHit :: bool
  sd_StickySessionHit :: bool
  sd_CandidateCount :: int
  sd_TopK :: int
  sd_SelectedAccountID :: int
  sd_SelectedAccountType :: string

section \<open>Parts of the state\<close>

text \<open>A program over the slots is one over the whole; the other parts are changed in one step.\<close>

primrec on_slots :: "(cworld, 'a) prog \<Rightarrow> 'a gprog" where
  "on_slots (Return a) = Return a"
| "on_slots (Step f) = Step (\<lambda>w. map_prod on_slots (\<lambda>s. w\<lparr>gw_slots := s\<rparr>) (f (gw_slots w)))"

definition on_sessions :: "(session_redis \<Rightarrow> 'r \<times> session_redis) \<Rightarrow> ('r \<Rightarrow> 'a gprog) \<Rightarrow> 'a gprog" where
  "on_sessions f = atomically (\<lambda>w. map_prod (\<lambda>r. r) (\<lambda>s. w\<lparr>gw_sessions := s\<rparr>) (f (gw_sessions w)))"

text \<open>The store of responses keeps a copy of its accounts in the session cache, unless that is nil.\<close>

definition response_cache :: "service_config \<Rightarrow> session_redis GatewayCache option" where
  "response_cache v = (if sk_cache (sv_sticky v) then Some NewGatewayCache else None)"

definition on_responses :: "service_config \<Rightarrow> (env \<Rightarrow> ws_store \<Rightarrow> session_redis \<Rightarrow> 'r \<times> ws_store \<times> session_redis) \<Rightarrow>
    ('r \<Rightarrow> 'a gprog) \<Rightarrow> 'a gprog" where
  "on_responses v f = atomically (\<lambda>w.
     case f \<lparr>e_range = sv_range v, e_cleanup = gw_now w, e_now = gw_now w\<rparr> (gw_responses w) (gw_sessions w) of
       (r, st, c) \<Rightarrow> (r, w\<lparr>gw_responses := st, gw_sessions := c\<rparr>))"

section \<open>Reading accounts and taking slots\<close>

definition found :: "go_error + 'a option \<Rightarrow> 'a option" where
  "found r = (case r of Inl _ \<Rightarrow> None | Inr a \<Rightarrow> a)"

text \<open>Every caller treats an error and no account alike.\<close>

definition getSchedulableAccount :: "service_config \<Rightarrow> int \<Rightarrow> (Account option \<Rightarrow> 'a gprog) \<Rightarrow> 'a gprog" where
  "getSchedulableAccount v accountID =
     reading (\<lambda>w. found (if sv_snapshot v then gw_snapshot w accountID else gw_accounts w accountID))"

definition account_usable :: "gotime \<Rightarrow> string \<Rightarrow> Account \<Rightarrow> bool" where
  "account_usable now requestedModel a \<longleftrightarrow>
     IsSchedulable now a \<and> IsOpenAI a \<and> (requestedModel \<noteq> [] \<longrightarrow> account_IsModelSupported a requestedModel)"

definition if_usable :: "string \<Rightarrow> Account option \<Rightarrow> (Account option \<Rightarrow> 'a gprog) \<Rightarrow> 'a gprog" where
  "if_usable requestedModel r k =
     (case r of None \<Rightarrow> k None
      | Some a \<Rightarrow> reading gw_now (\<lambda>now. k (if account_usable now requestedModel a then Some a else None)))"

definition resolveFreshSchedulableOpenAIAccount :: "service_config \<Rightarrow> Account \<Rightarrow> string \<Rightarrow> (Account option \<Rightarrow> 'a gprog) \<Rightarrow> 'a gprog" where
  "resolveFreshSchedulableOpenAIAccount v a requestedModel k =
     (if sv_snapshot v then getSchedulableAccount v (ac_ID a) (\<lambda>current. if_usable requestedModel current k)
      else if_usable requestedModel (Some a) k)"

definition recheckSelectedOpenAIAccountFromDB :: "service_config \<Rightarrow> Account \<Rightarrow> string \<Rightarrow> (Account option \<Rightarrow> 'a gprog) \<Rightarrow> 'a gprog" where
  "recheckSelectedOpenAIAccountFromDB v a requestedModel k =
     (if \<not> sv_snapshot v then k (Some a)
      else reading (\<lambda>w. found (gw_accounts w (ac_ID a))) (\<lambda>latest. if_usable requestedModel latest k))"

definition listSchedulableAccounts :: "int option \<Rightarrow> (go_error + Account list \<Rightarrow> 'a gprog) \<Rightarrow> 'a gprog" where
  "listSchedulableAccounts groupID = reading (\<lambda>w. gw_listed w groupID)"

definition tryAcquireAccountSlot :: "service_config \<Rightarrow> int \<Rightarrow> int \<Rightarrow> (go_error + slot option \<Rightarrow> 'a gprog) \<Rightarrow> 'a gprog" where
  "tryAcquireAccountSlot v accountID maxConcurrency k =
     (case sv_concurrency v of
        None \<Rightarrow> k (Inr (Some NoSlot))
      | Some (c, pfx) \<Rightarrow> bind (on_slots (AcquireAccountSlot c pfx accountID maxConcurrency Return)) k)"

definition isAccountTransportCompatible :: "service_config \<Rightarrow> Account \<Rightarrow> string \<Rightarrow> bool" where
  "isAccountTransportCompatible v a requiredTransport \<longleftrightarrow>
     requiredTransport = OpenAIUpstreamTransportAny \<or> requiredTransport = OpenAIUpstreamTransportHTTPSSE \<or>
     pd_Transport (ws_Resolve (sv_ws v) a) = requiredTransport"

text \<open>An account is marked in the database, and the snapshot of it is renewed.\<close>

definition put_account :: "int \<Rightarrow> Account option \<Rightarrow> (int \<Rightarrow> go_error + Account option) \<Rightarrow> int \<Rightarrow> go_error + Account option" where
  "put_account i a f = f(i := Inr a)"

definition mark_error :: "int \<Rightarrow> bool \<Rightarrow> gateway \<Rightarrow> gateway" where
  "mark_error i synced w =
     (case gw_accounts w i of
        Inr (Some a) \<Rightarrow>
          let b = a\<lparr>ac_Status := StatusError\<rparr>; w1 = w\<lparr>gw_accounts := put_account i (Some b) (gw_accounts w)\<rparr>
          in if synced then w1\<lparr>gw_snapshot := put_account i (Some b) (gw_snapshot w)\<rparr> else w1
      | _ \<Rightarrow> w)"

definition account_SetError :: "int \<Rightarrow> gateway \<Rightarrow> unit \<times> gateway" where
  "account_SetError i w = ((),
     (case gw_faults w of
        [] \<Rightarrow> mark_error i True w
      | oc # ocs \<Rightarrow> let w1 = w\<lparr>gw_faults := ocs\<rparr> in
          (case oc of Works \<Rightarrow> mark_error i True w1 | Fails \<Rightarrow> w1 | Unacked \<Rightarrow> mark_error i False w1)))"

section \<open>The account of a previous response\<close>

definition openAIWSResponseStickyTTL :: "service_config \<Rightarrow> duration" where
  "openAIWSResponseStickyTTL v = (if sv_responseTTLSeconds v > 0 then sv_responseTTLSeconds v * time_Second else time_Hour)"

definition drop_response :: "service_config \<Rightarrow> int option \<Rightarrow> string \<Rightarrow> 'a \<Rightarrow> 'a gprog" where
  "drop_response v groupID responseID x =
     on_responses v (\<lambda>e. DeleteResponseAccount (sv_sha256 v) (response_cache v) (derefGroupID groupID) responseID) (\<lambda>_. Return x)"

text \<open>The end of the two sticky layers: a slot of the account or, when there is none, a plan to wait for one.\<close>

definition sticky_slot :: "service_config \<Rightarrow> int \<Rightarrow> Account \<Rightarrow> 'b gprog \<Rightarrow> AccountSelectionResult option gprog" where
  "sticky_slot v accountID a on_acquired =
     tryAcquireAccountSlot v accountID (ac_Concurrency a) (\<lambda>r. case r of
         Inr (Some sl) \<Rightarrow> bind on_acquired (\<lambda>_. Return (Some (acquired_result a sl)))
       | _ \<Rightarrow> Return (if sv_concurrency v \<noteq> None
           then Some (waiting_result a accountID (sv_StickySessionWaitTimeout v) (sv_StickySessionMaxWaiting v)) else None))"

definition SelectAccountByPreviousResponseID :: "service_config \<Rightarrow> int option \<Rightarrow> string \<Rightarrow> string \<Rightarrow> int list \<Rightarrow>
    AccountSelectionResult option gprog" where
  "SelectAccountByPreviousResponseID v groupID previousResponseID requestedModel excludedIDs =
     (let responseID = TrimSpace previousResponseID in
      if responseID = [] then Return None
      else on_responses v (\<lambda>e. GetResponseAccount (sv_sha256 v) (response_cache v) e (derefGroupID groupID) responseID) (\<lambda>accountID.
        if accountID \<le> 0 \<or> accountID \<in> set excludedIDs then Return None
        else getSchedulableAccount v accountID (\<lambda>r. case r of
            None \<Rightarrow> drop_response v groupID responseID None
          | Some a \<Rightarrow>
              if pd_Transport (ws_Resolve (sv_ws v) a) \<noteq> OpenAIUpstreamTransportResponsesWebsocketV2 then Return None
              else reading gw_now (\<lambda>now.
                if shouldClearStickySession now a requestedModel \<or> \<not> IsOpenAI a \<or> \<not> IsSchedulable now a
                then drop_response v groupID responseID None
                else if requestedModel \<noteq> [] \<and> \<not> account_IsModelSupported a requestedModel then Return None
                else recheckSelectedOpenAIAccountFromDB v a requestedModel (\<lambda>latest. case latest of
                    None \<Rightarrow> drop_response v groupID responseID None
                  | Some b \<Rightarrow> sticky_slot v accountID b
                      (on_responses v (\<lambda>e. BindResponseAccount (sv_sha256 v) (response_cache v) e (derefGroupID groupID)
                         responseID accountID (openAIWSResponseStickyTTL v)) Return))))))"

section \<open>The account of a session\<close>

definition delete_session :: "service_config \<Rightarrow> string \<Rightarrow> int option \<Rightarrow> string \<Rightarrow> 'a \<Rightarrow> 'a gprog" where
  "delete_session v legacy groupID sessionHash x =
     on_sessions (deleteStickySessionAccountID (sv_sticky v) legacy groupID sessionHash) (\<lambda>_. Return x)"

text \<open>The rest of \<open>selectBySessionHash\<close>, once the account is known.\<close>

definition session_account :: "service_config \<Rightarrow> string \<Rightarrow> OpenAIAccountScheduleRequest \<Rightarrow> int \<Rightarrow>
    AccountSelectionResult option gprog" where
  "session_account v legacy req accountID =
     (let sessionHash = TrimSpace (rq_SessionHash req); groupID = rq_GroupID req; model = rq_RequestedModel req;
          forget = delete_session v legacy groupID sessionHash None in
      if accountID \<le> 0 \<or> accountID \<in> set (rq_ExcludedIDs req) then Return None
      else getSchedulableAccount v accountID (\<lambda>r. case r of
          None \<Rightarrow> forget
        | Some a \<Rightarrow> reading gw_now (\<lambda>now.
            if shouldClearStickySession now a model \<or> \<not> IsOpenAI a \<or> \<not> IsSchedulable now a then forget
            else if model \<noteq> [] \<and> \<not> account_IsModelSupported a model then Return None
            else if \<not> isAccountTransportCompatible v a (rq_RequiredTransport req) then forget
            else recheckSelectedOpenAIAccountFromDB v a model (\<lambda>latest. case latest of
                None \<Rightarrow> forget
              | Some b \<Rightarrow> sticky_slot v accountID b
                  (on_sessions (refreshStickySessionTTL (sv_sticky v) legacy groupID sessionHash
                     (openAIWSSessionStickyTTL (sv_sticky v))) Return)))))"

definition selectBySessionHash :: "service_config \<Rightarrow> string \<Rightarrow> OpenAIAccountScheduleRequest \<Rightarrow> AccountSelectionResult option gprog" where
  "selectBySessionHash v legacy req =
     (let sessionHash = TrimSpace (rq_SessionHash req) in
      if sessionHash = [] \<or> \<not> sk_cache (sv_sticky v) then Return None
      else if rq_StickyAccountID req > 0 then session_account v legacy req (rq_StickyAccountID req)
      else on_sessions (getStickySessionAccountID (sv_sticky v) legacy (rq_GroupID req) sessionHash) (\<lambda>r. case r of
          Inl _ \<Rightarrow> Return None
        | Inr accountID \<Rightarrow> session_account v legacy req accountID))"

section \<open>The account with the least load\<close>

definition privacy_ok :: "sched_group option \<Rightarrow> Account \<Rightarrow> bool" where
  "privacy_ok schedGroup a \<longleftrightarrow> (case schedGroup of None \<Rightarrow> True | Some g \<Rightarrow> gr_RequirePrivacySet g \<longrightarrow> IsPrivacySet a)"

definition filter_account :: "service_config \<Rightarrow> sched_group option \<Rightarrow> OpenAIAccountScheduleRequest \<Rightarrow> Account \<Rightarrow> Account list \<Rightarrow>
    Account list gprog" where
  "filter_account v schedGroup req a filtered =
     (if ac_ID a \<in> set (rq_ExcludedIDs req) then Return filtered
      else reading gw_now (\<lambda>now.
        if \<not> IsSchedulable now a \<or> \<not> IsOpenAI a then Return filtered
        else if \<not> privacy_ok schedGroup a then atomically (account_SetError (ac_ID a)) (\<lambda>_. Return filtered)
        else if rq_RequestedModel req \<noteq> [] \<and> \<not> account_IsModelSupported a (rq_RequestedModel req) then Return filtered
        else if \<not> isAccountTransportCompatible v a (rq_RequiredTransport req) then Return filtered
        else Return (filtered @ [a])))"

definition account_loads :: "service_config \<Rightarrow> Account list \<Rightarrow> (int \<times> LoadInfo) list gprog" where
  "account_loads v filtered =
     (case sv_concurrency v of
        None \<Rightarrow> Return []
      | Some (c, pfx) \<Rightarrow> bind (on_slots (GetAccountsLoadBatch c (map (\<lambda>a. (ac_ID a, EffectiveLoadFactor a)) filtered)))
          (\<lambda>r. Return (case r of Inl _ \<Rightarrow> [] | Inr infos \<Rightarrow> map (\<lambda>i. (li_ID i, i)) infos)))"

primrec try_candidates :: "service_config \<Rightarrow> string \<Rightarrow> OpenAIAccountScheduleRequest \<Rightarrow> candidate list \<Rightarrow>
    (go_error + AccountSelectionResult) option gprog" where
  "try_candidates v legacy req [] = Return None"
| "try_candidates v legacy req (cand # cands) =
     resolveFreshSchedulableOpenAIAccount v (cs_account cand) (rq_RequestedModel req) (\<lambda>r. case r of
         None \<Rightarrow> try_candidates v legacy req cands
       | Some fresh \<Rightarrow>
           if \<not> isAccountTransportCompatible v fresh (rq_RequiredTransport req) then try_candidates v legacy req cands
           else recheckSelectedOpenAIAccountFromDB v fresh (rq_RequestedModel req) (\<lambda>latest. case latest of
               None \<Rightarrow> try_candidates v legacy req cands
             | Some b \<Rightarrow>
                 if \<not> isAccountTransportCompatible v b (rq_RequiredTransport req) then try_candidates v legacy req cands
                 else tryAcquireAccountSlot v (ac_ID b) (ac_Concurrency b) (\<lambda>res. case res of
                     Inl e \<Rightarrow> Return (Some (Inl e))
                   | Inr None \<Rightarrow> try_candidates v legacy req cands
                   | Inr (Some sl) \<Rightarrow>
                       if rq_SessionHash req \<noteq> []
                       then on_sessions (BindStickySession (sv_sticky v) legacy (rq_GroupID req) (rq_SessionHash req) (ac_ID b))
                         (\<lambda>_. Return (Some (Inr (acquired_result b sl))))
                       else Return (Some (Inr (acquired_result b sl))))))"

primrec wait_candidate :: "service_config \<Rightarrow> OpenAIAccountScheduleRequest \<Rightarrow> candidate list \<Rightarrow>
    AccountSelectionResult option gprog" where
  "wait_candidate v req [] = Return None"
| "wait_candidate v req (cand # cands) =
     resolveFreshSchedulableOpenAIAccount v (cs_account cand) (rq_RequestedModel req) (\<lambda>r. case r of
         None \<Rightarrow> wait_candidate v req cands
       | Some fresh \<Rightarrow>
           if \<not> isAccountTransportCompatible v fresh (rq_RequiredTransport req) then wait_candidate v req cands
           else Return (Some (waiting_result fresh (ac_ID fresh) (sv_FallbackWaitTimeout v) (sv_FallbackMaxWaiting v))))"

definition noOpenAIAccounts :: go_error where "noOpenAIAccounts = PlainErr ''no available OpenAI accounts''"
definition ErrNoAvailableAccounts :: go_error where "ErrNoAvailableAccounts = PlainErr ''no available accounts''"

definition openAIWSLBTopK :: "service_config \<Rightarrow> int" where
  "openAIWSLBTopK v = (if sv_LBTopK v > 0 then sv_LBTopK v else 7)"

definition selectByLoadBalance :: "service_config \<Rightarrow> string \<Rightarrow> OpenAIAccountScheduleRequest \<Rightarrow>
    ((go_error + AccountSelectionResult) \<times> int \<times> int) gprog" where
  "selectByLoadBalance v legacy req =
     listSchedulableAccounts (rq_GroupID req) (\<lambda>r. case r of
         Inl e \<Rightarrow> Return (Inl e, 0, 0)
       | Inr accounts \<Rightarrow>
           if accounts = [] then Return (Inl noOpenAIAccounts, 0, 0)
           else reading (\<lambda>w. case rq_GroupID req of None \<Rightarrow> None | Some g \<Rightarrow> if sv_snapshot v then gw_groups w g else None) (\<lambda>schedGroup.
             bind (foreach accounts (filter_account v schedGroup req) []) (\<lambda>filtered.
               if filtered = [] then Return (Inl noOpenAIAccounts, 0, 0)
               else bind (account_loads v filtered) (\<lambda>loads.
                 reading gw_stats (\<lambda>stats.
                   let candidates = scored (sv_weights v) loads stats filtered;
                       topK = min (openAIWSLBTopK v) (int (length candidates))
                   in reading gw_now (\<lambda>nano.
                     let order = buildOpenAIWeightedSelectionOrder (of_int nano) (selectTopKOpenAICandidates candidates topK) req
                     in bind (try_candidates v legacy req order) (\<lambda>r. case r of
                         Some res \<Rightarrow> Return (res, int (length candidates), topK)
                       | None \<Rightarrow> bind (wait_candidate v req order) (\<lambda>w.
                           Return (case w of None \<Rightarrow> Inl ErrNoAvailableAccounts | Some sel \<Rightarrow> Inr sel,
                             int (length candidates), topK)))))))))"

section \<open>Selecting\<close>

definition LayerPreviousResponse :: string where "LayerPreviousResponse = ''previous_response_id''"
definition LayerSessionSticky :: string where "LayerSessionSticky = ''session_hash''"
definition LayerLoadBalance :: string where "LayerLoadBalance = ''load_balance''"

definition no_decision :: OpenAIAccountScheduleDecision where
  "no_decision = \<lparr>sd_Layer = [], sd_StickyPreviousHit = False, sd_StickySessionHit = False, sd_CandidateCount = 0,
     sd_TopK = 0, sd_SelectedAccountID = 0, sd_SelectedAccountType = []\<rparr>"

definition decide_account :: "Account \<Rightarrow> OpenAIAccountScheduleDecision \<Rightarrow> OpenAIAccountScheduleDecision" where
  "decide_account a d = d\<lparr>sd_SelectedAccountID := ac_ID a, sd_SelectedAccountType := ac_Type a\<rparr>"

definition recordSelect :: "OpenAIAccountScheduleDecision \<Rightarrow> scheduler_metrics \<Rightarrow> scheduler_metrics" where
  "recordSelect d m =
     m\<lparr>sm_selectTotal := sm_selectTotal m + 1,
       sm_stickyPreviousHitTotal := sm_stickyPreviousHitTotal m + (if sd_StickyPreviousHit d then 1 else 0),
       sm_stickySessionHitTotal := sm_stickySessionHitTotal m + (if sd_StickySessionHit d then 1 else 0),
       sm_loadBalanceSelectTotal := sm_loadBalanceSelectTotal m + (if sd_Layer d = LayerLoadBalance then 1 else 0)\<rparr>"

text \<open>What follows the first layer.\<close>

definition select_rest :: "service_config \<Rightarrow> string \<Rightarrow> OpenAIAccountScheduleRequest \<Rightarrow>
    ((go_error + AccountSelectionResult) \<times> OpenAIAccountScheduleDecision) gprog" where
  "select_rest v legacy req =
     bind (selectBySessionHash v legacy req) (\<lambda>s. case s of
         Some sel \<Rightarrow> Return (Inr sel, decide_account (sr_Account sel)
           (no_decision\<lparr>sd_Layer := LayerSessionSticky, sd_StickySessionHit := True\<rparr>))
       | None \<Rightarrow> bind (selectByLoadBalance v legacy req) (\<lambda>(r, count, topK).
           let d = no_decision\<lparr>sd_Layer := LayerLoadBalance, sd_CandidateCount := count, sd_TopK := topK\<rparr>
           in Return (r, case r of Inl _ \<Rightarrow> d | Inr sel \<Rightarrow> decide_account (sr_Account sel) d)))"

definition select_layers :: "service_config \<Rightarrow> string \<Rightarrow> OpenAIAccountScheduleRequest \<Rightarrow>
    ((go_error + AccountSelectionResult) \<times> OpenAIAccountScheduleDecision) gprog" where
  "select_layers v legacy req =
     (let previousResponseID = TrimSpace (rq_PreviousResponseID req) in
      if previousResponseID = [] then select_rest v legacy req
      else bind (SelectAccountByPreviousResponseID v (rq_GroupID req) previousResponseID (rq_RequestedModel req) (rq_ExcludedIDs req))
        (\<lambda>s. case s of
            Some sel \<Rightarrow>
              if isAccountTransportCompatible v (sr_Account sel) (rq_RequiredTransport req)
              then (let result = Return (Inr sel, decide_account (sr_Account sel)
                      (no_decision\<lparr>sd_Layer := LayerPreviousResponse, sd_StickyPreviousHit := True\<rparr>))
                    in if rq_SessionHash req \<noteq> []
                       then on_sessions (BindStickySession (sv_sticky v) legacy (rq_GroupID req) (rq_SessionHash req)
                         (ac_ID (sr_Account sel))) (\<lambda>_. result)
                       else result)
              else select_rest v legacy req
          | None \<Rightarrow> select_rest v legacy req))"

definition scheduler_Select :: "service_config \<Rightarrow> string \<Rightarrow> OpenAIAccountScheduleRequest \<Rightarrow>
    ((go_error + AccountSelectionResult) \<times> OpenAIAccountScheduleDecision) gprog" where
  "scheduler_Select v legacy req =
     bind (select_layers v legacy req) (\<lambda>(r, d).
       atomically (\<lambda>w. ((), w\<lparr>gw_metrics := recordSelect d (gw_metrics w)\<rparr>)) (\<lambda>_. Return (r, d)))"

definition SelectAccountWithScheduler :: "service_config \<Rightarrow> string \<Rightarrow> int option \<Rightarrow> string \<Rightarrow> string \<Rightarrow> string \<Rightarrow> int list \<Rightarrow> string \<Rightarrow>
    ((go_error + AccountSelectionResult) \<times> OpenAIAccountScheduleDecision) gprog" where
  "SelectAccountWithScheduler v legacy groupID previousResponseID sessionHash requestedModel excludedIDs requiredTransport =
     (let select = (\<lambda>stickyAccountID. scheduler_Select v legacy
            \<lparr>rq_GroupID = groupID, rq_SessionHash = sessionHash, rq_StickyAccountID = stickyAccountID,
             rq_PreviousResponseID = previousResponseID, rq_RequestedModel = requestedModel,
             rq_RequiredTransport = requiredTransport, rq_ExcludedIDs = excludedIDs\<rparr>)
      in if sessionHash \<noteq> [] \<and> sk_cache (sv_sticky v)
         then on_sessions (getStickySessionAccountID (sv_sticky v) legacy groupID sessionHash) (\<lambda>r. case r of
             Inl _ \<Rightarrow> select 0
           | Inr accountID \<Rightarrow> select (if accountID > 0 then accountID else 0))
         else select 0)"

definition ReportResult :: "int \<Rightarrow> bool \<Rightarrow> int option \<Rightarrow> gateway \<Rightarrow> gateway" where
  "ReportResult accountID success firstTokenMs w = w\<lparr>gw_stats := report accountID success firstTokenMs (gw_stats w)\<rparr>"

definition ReportSwitch :: "gateway \<Rightarrow> gateway" where
  "ReportSwitch w = w\<lparr>gw_metrics := (gw_metrics w)\<lparr>sm_accountSwitchTotal := sm_accountSwitchTotal (gw_metrics w) + 1\<rparr>\<rparr>"

text \<open>The ratios of \<open>SnapshotMetrics\<close>: hits of the sticky layers and switches of accounts, per selection.\<close>

definition SnapshotMetrics_ratios :: "gateway \<Rightarrow> rat \<times> rat" where
  "SnapshotMetrics_ratios w =
     (let m = gw_metrics w in
      if sm_selectTotal m > 0
      then (of_int (sm_stickyPreviousHitTotal m + sm_stickySessionHitTotal m) / of_int (sm_selectTotal m),
            of_int (sm_accountSwitchTotal m) / of_int (sm_selectTotal m))
      else (0, 0))"

end
