(* ===== verification/SchedRankProps.thy ===== *)
theory SchedRankProps
  imports SchedRank
begin

text \<open>
  What the ranking guarantees: the heap keeps its order and its elements, the selection is the sorted
  prefix, the order of trying is a permutation, random numbers and scores stay in their ranges.
\<close>

section \<open>Heaps\<close>

text \<open>
  \<open>Less\<close> is a strict weak order: not smaller is a total preorder. The root of a heap is a least
  element, and every operation keeps the elements.
\<close>

lemma heap_swap_props [simp]:
  "length (heap_swap i j h) = length h"
  "i < length h \<Longrightarrow> j < length h \<Longrightarrow> mset (heap_swap i j h) = mset h"
  by (simp_all add: heap_swap_def mset_swap)

lemma heap_swap_nth:
  "i < length h \<Longrightarrow> j < length h \<Longrightarrow> k < length h \<Longrightarrow>
    heap_swap i j h ! k = (if k = j then h ! i else if k = i then h ! j else h ! k)"
  by (simp add: heap_swap_def nth_list_update)

lemma parent_less: "0 < i \<Longrightarrow> (i - 1) div 2 < (i::nat)"
  by auto

locale weak_order =
  fixes lt :: "'a \<Rightarrow> 'a \<Rightarrow> bool"
  assumes lt_asym: "lt x y \<Longrightarrow> \<not> lt y x"
    and not_lt_trans: "\<not> lt y x \<Longrightarrow> \<not> lt z y \<Longrightarrow> \<not> lt z x"
begin

definition ordered_at :: "'a list \<Rightarrow> nat \<Rightarrow> bool" where
  "ordered_at h j \<longleftrightarrow> \<not> lt (h ! j) (h ! ((j - 1) div 2))"

definition is_heap :: "'a list \<Rightarrow> bool" where
  "is_heap h \<longleftrightarrow> (\<forall>j. 0 < j \<and> j < length h \<longrightarrow> ordered_at h j)"

lemma lt_irrefl: "\<not> lt x x" using lt_asym by blast

lemma root_least:
  assumes "is_heap h" "j < length h"
  shows "\<not> lt (h ! j) (h ! 0)"
  using assms(2)
proof (induction j rule: less_induct)
  case (less j)
  show ?case
  proof (cases "j = 0")
    case False
    then have "\<not> lt (h ! ((j - 1) div 2)) (h ! 0)" "\<not> lt (h ! j) (h ! ((j - 1) div 2))"
      using less assms(1) by (auto simp: is_heap_def ordered_at_def)
    then show ?thesis by (rule not_lt_trans)
  qed (simp add: lt_irrefl)
qed

text \<open>A heap but for position \<open>j\<close>, whose children are in order with its parent.\<close>

definition heap_but :: "nat \<Rightarrow> 'a list \<Rightarrow> bool" where
  "heap_but j h \<longleftrightarrow> (\<forall>k. 0 < k \<and> k < length h \<and> k \<noteq> j \<longrightarrow> ordered_at h k) \<and>
     (\<forall>k. 0 < k \<and> k < length h \<and> 0 < j \<and> (k - 1) div 2 = j \<longrightarrow> \<not> lt (h ! k) (h ! ((j - 1) div 2)))"

lemma heap_up_correct:
  assumes "heap_but j h" "j < length h"
  shows "is_heap (heap_up lt h j) \<and> mset (heap_up lt h j) = mset h"
  using assms
proof (induction j arbitrary: h rule: less_induct)
  case (less j)
  let ?i = "(j - 1) div 2"
  show ?case
  proof (cases "j = 0 \<or> \<not> lt (h ! j) (h ! ?i)")
    case True
    then have "is_heap h" using less.prems by (auto simp: is_heap_def heap_but_def ordered_at_def)
    then show ?thesis using True by (subst (1 2) heap_up.simps) (simp add: Let_def)
  next
    case False
    then have j: "0 < j" "?i < j" "?i < length h" and l: "lt (h ! j) (h ! ?i)" using less.prems by auto
    let ?g = "heap_swap ?i j h"
    note nth = heap_swap_nth [OF j(3) less.prems(2)]
    have child: "\<not> lt (h ! k) (h ! ?i)" if "0 < k" "k < length h" "(k - 1) div 2 = j" for k
      using less.prems(1) that j by (auto simp: heap_but_def)
    have sibling: "\<not> lt (h ! k) (h ! ?i)" if "0 < k" "k < length h" "(k - 1) div 2 = ?i" "k \<noteq> j" for k
      using less.prems(1) that by (auto simp: heap_but_def ordered_at_def)
    have sib: "\<not> lt (h ! k) (h ! j)" if "0 < k" "k < length h" "(k - 1) div 2 = ?i" "k \<noteq> j" for k
      using not_lt_trans [OF lt_asym [OF l] sibling [OF that]] .
    have ord: "ordered_at ?g k" if k: "0 < k" "k < length h" "k \<noteq> ?i" for k
    proof -
      have p: "(k - 1) div 2 < length h" using k by simp
      consider "k = j" | "k \<noteq> j" "(k - 1) div 2 = j" | "k \<noteq> j" "(k - 1) div 2 = ?i" | "k \<noteq> j" "(k - 1) div 2 \<noteq> j" "(k - 1) div 2 \<noteq> ?i"
        by blast
      then show ?thesis
      proof cases
        case 1
        then show ?thesis using nth [OF k(2)] nth [OF p] j lt_asym [OF l] by (simp add: ordered_at_def)
      next
        case 2
        then show ?thesis using nth [OF k(2)] nth [OF p] child [OF k(1,2)] k by (simp add: ordered_at_def)
      next
        case 3
        then show ?thesis using nth [OF k(2)] nth [OF p] sib [OF k(1,2)] k j by (simp add: ordered_at_def)
      next
        case 4
        then show ?thesis using nth [OF k(2)] nth [OF p] less.prems(1) k by (simp add: ordered_at_def heap_but_def)
      qed
    qed
    have "heap_but ?i ?g"
      unfolding heap_but_def
    proof (intro conjI allI impI)
      fix k assume "0 < k \<and> k < length ?g \<and> k \<noteq> ?i"
      then show "ordered_at ?g k" using ord by simp
    next
      fix k assume k: "0 < k \<and> k < length ?g \<and> 0 < ?i \<and> (k - 1) div 2 = ?i"
      let ?p = "(?i - 1) div 2"
      have "?p < ?i" "?i < k" using parent_less [of ?i] parent_less [of k] k by simp_all
      then have p: "?p < length h" "?p \<noteq> ?i" "?p \<noteq> j" and ki: "k \<noteq> ?i" using j by simp_all
      have pi: "\<not> lt (h ! ?i) (h ! ?p)"
        using less.prems(1) k j by (auto simp: heap_but_def ordered_at_def)
      have gp: "?g ! ?p = h ! ?p" and gi: "?g ! j = h ! ?i" using nth [OF p(1)] nth [OF less.prems(2)] p by simp_all
      show "\<not> lt (?g ! k) (?g ! ?p)"
      proof (cases "k = j")
        case True
        then show ?thesis using gp gi pi by simp
      next
        case kj: False
        then have "?g ! k = h ! k" using nth [of k] k ki by simp
        then show ?thesis using gp not_lt_trans [OF pi] sibling [of k] kj k by simp
      qed
    qed
    then have "is_heap (heap_up lt ?g ?i) \<and> mset (heap_up lt ?g ?i) = mset ?g"
      using less.IH [OF j(2)] j by simp
    then show ?thesis using False j less.prems(2) by (subst (1 2) heap_up.simps) (simp add: Let_def)
  qed
qed

lemma heap_Push_correct:
  assumes "is_heap h"
  shows "is_heap (heap_Push lt h x) \<and> mset (heap_Push lt h x) = mset h + {#x#}"
proof -
  have "heap_but (length h) (h @ [x])"
    unfolding heap_but_def
  proof (intro conjI allI impI)
    fix k assume "0 < k \<and> k < length (h @ [x]) \<and> k \<noteq> length h"
    then show "ordered_at (h @ [x]) k" using assms by (auto simp: is_heap_def ordered_at_def nth_append)
  next
    fix k assume "0 < k \<and> k < length (h @ [x]) \<and> 0 < length h \<and> (k - 1) div 2 = length h"
    then have False by auto
    then show "\<not> lt ((h @ [x]) ! k) ((h @ [x]) ! ((length h - 1) div 2))" ..
  qed
  from heap_up_correct [OF this] show ?thesis by (simp add: heap_Push_def)
qed

text \<open>A heap but for the children of \<open>i\<close>, which are in order with the parent of \<open>i\<close>.\<close>

definition heap_above :: "nat \<Rightarrow> 'a list \<Rightarrow> bool" where
  "heap_above i h \<longleftrightarrow> (\<forall>k. 0 < k \<and> k < length h \<and> (k - 1) div 2 \<noteq> i \<longrightarrow> ordered_at h k) \<and>
     (\<forall>k. 0 < k \<and> k < length h \<and> 0 < i \<and> (k - 1) div 2 = i \<longrightarrow> \<not> lt (h ! k) (h ! ((i - 1) div 2)))"

lemma child_cases: "0 < k \<Longrightarrow> (k - 1) div 2 = i \<longleftrightarrow> k = 2 * i + 1 \<or> k = 2 * i + 2" for k i :: nat
  by auto

lemma smaller_child_least:
  assumes "0 < k" "k < length h" "(k - 1) div 2 = i"
  shows "\<not> lt (h ! k) (h ! smaller_child lt h i)"
  using assms(2) assms(1,3) lt_irrefl lt_asym unfolding smaller_child_def child_cases [OF assms(1)]
  by auto

lemma heap_down_correct:
  assumes "heap_above i h" "i < length h" "heap_down lt h i = (g, j)"
  shows "is_heap g \<and> mset g = mset h \<and> i \<le> j"
  using assms
proof (induction "length h - i" arbitrary: h i rule: less_induct)
  case less
  let ?c = "smaller_child lt h i"
  show ?case
  proof (cases "length h \<le> 2 * i + 1 \<or> \<not> lt (h ! ?c) (h ! i)")
    case True
    have "ordered_at h k" if "0 < k" "k < length h" for k
    proof (cases "(k - 1) div 2 = i")
      case i: True
      then have "2 * i + 1 < length h" using that by (auto simp: child_cases [OF that(1)])
      then have "\<not> lt (h ! ?c) (h ! i)" using True by simp
      from not_lt_trans [OF this smaller_child_least [OF that i]] show ?thesis using i by (simp add: ordered_at_def)
    qed (use less.prems(1) that in \<open>simp add: heap_above_def\<close>)
    then show ?thesis using less.prems(3) True by (subst (asm) heap_down.simps) (simp add: Let_def is_heap_def)
  next
    case False
    then have c: "i < ?c" "?c < length h" and l: "lt (h ! ?c) (h ! i)" using smaller_child_bounds [of i h lt] by auto
    have par: "(?c - 1) div 2 = i" by (simp add: smaller_child_def)
    let ?g = "heap_swap i ?c h"
    note nth = heap_swap_nth [OF less.prems(2) c(2)]
    have "heap_above ?c ?g"
      unfolding heap_above_def
    proof (intro conjI allI impI)
      fix k assume k: "0 < k \<and> k < length ?g \<and> (k - 1) div 2 \<noteq> ?c"
      then have kl: "k < length h" "(k - 1) div 2 < length h" by auto
      consider "(k - 1) div 2 = i" | "(k - 1) div 2 \<noteq> i" "k = i" | "(k - 1) div 2 \<noteq> i" "k \<noteq> i" by blast
      then show "ordered_at ?g k"
      proof cases
        case 1
        then have ki: "k \<noteq> i" using k by auto
        show ?thesis
          using nth [OF kl(1)] nth [OF kl(2)] 1 ki c k lt_asym [OF l] smaller_child_least [of k h i]
          by (auto simp: ordered_at_def)
      next
        case 2
        then have "\<not> lt (h ! ?c) (h ! ((i - 1) div 2))"
          using less.prems(1) k c(2) par unfolding heap_above_def by (metis c(1) gr0I less_nat_zero_code)
        then show ?thesis using nth [OF kl(1)] nth [OF kl(2)] 2 k c by (auto simp: ordered_at_def)
      next
        case 3
        then have "k \<noteq> ?c" using par by auto
        then show ?thesis using nth [OF kl(1)] nth [OF kl(2)] 3 k less.prems(1) by (simp add: ordered_at_def heap_above_def)
      qed
    next
      fix k assume k: "0 < k \<and> k < length ?g \<and> 0 < ?c \<and> (k - 1) div 2 = ?c"
      then have "ordered_at h k" "k \<noteq> ?c" "k \<noteq> i" using less.prems(1) c by (auto simp: heap_above_def)
      then show "\<not> lt (?g ! k) (?g ! ((?c - 1) div 2))"
        using nth [of k] nth [OF less.prems(2)] k c par by (auto simp: ordered_at_def)
    qed
    moreover have "heap_down lt ?g ?c = (g, j)"
      using less.prems(3) False by (subst (asm) heap_down.simps) (simp add: Let_def)
    ultimately have "is_heap g \<and> mset g = mset ?g \<and> ?c \<le> j" using less.hyps [of ?g ?c] c by simp
    then show ?thesis using c less.prems(2) by auto
  qed
qed

text \<open>Replacing the root.\<close>

lemma heap_Fix_root:
  assumes "is_heap h" "h \<noteq> []"
  shows "is_heap (heap_Fix lt (h[0 := x]) 0) \<and> mset (heap_Fix lt (h[0 := x]) 0) = mset h - {#h ! 0#} + {#x#}"
proof -
  have "ordered_at (h[0 := x]) k" if "0 < k" "k < length h" "(k - 1) div 2 \<noteq> 0" for k
    using assms(1) that by (auto simp: is_heap_def ordered_at_def)
  then have above: "heap_above 0 (h[0 := x])" by (simp add: heap_above_def)
  obtain g j where g: "heap_down lt (h[0 := x]) 0 = (g, j)" by fastforce
  have "is_heap g \<and> mset g = mset (h[0 := x])" using heap_down_correct [OF above _ g] assms(2) by simp
  moreover have "heap_up lt g 0 = g" by (subst heap_up.simps) (simp add: Let_def)
  moreover have "mset (h[0 := x]) = mset h - {#h ! 0#} + {#x#}" using assms(2) by (simp add: mset_update)
  ultimately show ?thesis by (simp add: heap_Fix_def g)
qed

end

section \<open>The best candidates\<close>

lemma better_key: "isOpenAIAccountCandidateBetter x y \<longleftrightarrow> candidate_key x < candidate_key y"
  by (auto simp: isOpenAIAccountCandidateBetter_def candidate_key_def)

lemma heap_Less_key: "heap_Less x y \<longleftrightarrow> candidate_key y < candidate_key x"
  by (simp add: heap_Less_def better_key)

interpretation best_heap: weak_order heap_Less
  by unfold_locales (auto simp: heap_Less_key)

text \<open>After some candidates: the heap holds the best of them, and everything else is not better.\<close>

definition topk_inv :: "nat \<Rightarrow> candidate list \<Rightarrow> candidate list \<Rightarrow> bool" where
  "topk_inv k seen best \<longleftrightarrow> best_heap.is_heap best \<and> length best = min k (length seen) \<and>
     (\<exists>rest. mset seen = mset best + rest \<and>
        (\<forall>x \<in> set best. \<forall>y \<in># rest. candidate_key x \<le> candidate_key y))"

lemma root_worst:
  assumes "best_heap.is_heap best" "x \<in> set best"
  shows "candidate_key x \<le> candidate_key (best ! 0)"
proof -
  obtain j where "j < length best" "best ! j = x" using assms(2) by (auto simp: in_set_conv_nth)
  then show ?thesis using best_heap.root_least [OF assms(1)] by (fastforce simp: heap_Less_key)
qed

lemma topk_inv_intro:
  assumes "best_heap.is_heap best" "length best = min k (length seen)" "mset seen = mset best + rest"
    "\<And>x y. x \<in> set best \<Longrightarrow> y \<in># rest \<Longrightarrow> candidate_key x \<le> candidate_key y"
  shows "topk_inv k seen best"
  unfolding topk_inv_def using assms by blast

lemma mset_replace: "x \<in># A \<Longrightarrow> add_mset c (A + R) = (A - {#x#} + {#c#}) + add_mset x R"
  by (drule multi_member_split) auto

lemma topk_replace:
  assumes h: "best_heap.is_heap best" and ne: "best \<noteq> []" and rest: "mset seen = mset best + rest"
    and le: "\<And>x y. x \<in> set best \<Longrightarrow> y \<in># rest \<Longrightarrow> candidate_key x \<le> candidate_key y"
    and better: "isOpenAIAccountCandidateBetter c (best ! 0)" and len: "length best = min k (Suc (length seen))"
  shows "topk_inv k (seen @ [c]) (heap_Fix heap_Less (best[0 := c]) 0)" (is "topk_inv _ _ ?b")
proof -
  let ?w = "best ! 0"
  have w: "?w \<in># mset best" using ne by simp
  have hfix: "best_heap.is_heap ?b" "mset ?b = mset best - {#?w#} + {#c#}"
    using best_heap.heap_Fix_root [OF h ne, of c] by auto
  have "mset (seen @ [c]) = mset ?b + add_mset ?w rest"
    unfolding hfix(2) using mset_replace [OF w, of c rest] rest by simp
  moreover have "candidate_key x \<le> candidate_key y" if x: "x \<in> set ?b" and y: "y \<in># add_mset ?w rest" for x y
  proof -
    have "x \<in># mset best - {#?w#} + {#c#}" using x unfolding hfix(2) [symmetric] by simp
    then have "x \<in> set best \<or> x = c" by (auto dest: in_diffD)
    then have "candidate_key x \<le> candidate_key ?w"
      using root_worst [OF h] better by (auto simp: better_key)
    moreover have "candidate_key ?w \<le> candidate_key y" using y le [of ?w] w by auto
    ultimately show ?thesis by (rule order_trans)
  qed
  moreover have "length ?b = length best"
  proof -
    have "size (mset ?b) = Suc (length best - 1)" unfolding hfix(2) using w by (simp add: size_Diff_singleton)
    then show ?thesis using ne by simp
  qed
  moreover have "length ?b = min k (length (seen @ [c]))" using len calculation(3) by simp
  ultimately show ?thesis using hfix(1) by (intro topk_inv_intro [where rest = "add_mset ?w rest"])
qed

lemma topk_step_inv:
  assumes "topk_inv k seen best" "0 < k"
  shows "topk_inv k (seen @ [c]) (topk_step k c best)"
proof -
  obtain rest where h: "best_heap.is_heap best" "length best = min k (length seen)" and rest: "mset seen = mset best + rest"
    and le: "\<And>x y. x \<in> set best \<Longrightarrow> y \<in># rest \<Longrightarrow> candidate_key x \<le> candidate_key y"
    using assms(1) unfolding topk_inv_def by blast
  have "size (mset seen) = size (mset best) + size rest" unfolding rest by simp
  then have size: "length seen = length best + size rest" by simp
  show ?thesis
  proof (cases "length best < k")
    case True
    then have "size rest = 0" using h(2) size by linarith
    then have no: "rest = {#}" by simp
    let ?b = "heap_Push heap_Less best c"
    have push: "best_heap.is_heap ?b" "mset ?b = mset best + {#c#}"
      using best_heap.heap_Push_correct [OF h(1)] by auto
    then have "size (mset ?b) = Suc (length best)" by simp
    then have "length ?b = Suc (length best)" by simp
    then have "topk_inv k (seen @ [c]) ?b"
      using push True size rest no by (intro topk_inv_intro [where rest = "{#}"]) auto
    then show ?thesis using True by (simp add: topk_step_def)
  next
    case False
    then have len: "length best = k" "best \<noteq> []" "k \<le> length seen" using h(2) assms(2) by auto
    show ?thesis
    proof (cases "isOpenAIAccountCandidateBetter c (best ! 0)")
      case True
      then have "topk_inv k (seen @ [c]) (heap_Fix heap_Less (best[0 := c]) 0)"
        using len h(1) rest le by (intro topk_replace) auto
      then show ?thesis using False True by (simp add: topk_step_def)
    next
      case no: False
      have "candidate_key x \<le> candidate_key c" if "x \<in> set best" for x
        using root_worst [OF h(1) that] no by (simp add: better_key)
      then have "topk_inv k (seen @ [c]) best"
        using rest le h(1) len by (intro topk_inv_intro [where rest = "add_mset c rest"]) auto
      then show ?thesis using False no by (simp add: topk_step_def)
    qed
  qed
qed

lemma topk_fold_inv: "0 < k \<Longrightarrow> topk_inv k cs (fold (topk_step k) cs [])"
proof (induction cs rule: rev_induct)
  case Nil
  have "best_heap.is_heap []" by (simp add: best_heap.is_heap_def)
  then show ?case by (simp add: topk_inv_def)
next
  case (snoc c cs)
  then show ?case using topk_step_inv by simp
qed

lemma sort_key_split:
  fixes f :: "'a \<Rightarrow> 'b::linorder"
  assumes "mset cs = mset best + mset rest" "distinct (map f cs)" "\<forall>x \<in> set best. \<forall>y \<in> set rest. f x \<le> f y"
  shows "sort_key f cs = sort_key f best @ sort_key f rest"
proof -
  let ?s = "sort_key f best @ sort_key f rest"
  have m: "mset cs = mset (best @ rest)" using assms(1) by simp
  have "mset (map f cs) = mset (map f (best @ rest))" using m by (metis mset_map)
  then have d: "distinct (map f (best @ rest))" using assms(2) mset_eq_imp_distinct_iff by blast
  have set: "set cs = set (best @ rest)" using m by (rule mset_eq_setD)
  have dd: "distinct (map f ?s)"
  proof -
    have "mset (map f ?s) = mset (map f (best @ rest))" by simp
    then show ?thesis using d mset_eq_imp_distinct_iff by blast
  qed
  have "sorted (map f ?s)" using assms(3) by (auto simp: sorted_append)
  moreover have "distinct (map f (sort_key f cs))"
  proof -
    have "mset (map f (sort_key f cs)) = mset (map f cs)" by simp
    then show ?thesis using assms(2) mset_eq_imp_distinct_iff by blast
  qed
  moreover have "inj_on f (set (sort_key f cs) \<union> set ?s)" using assms(2) set by (simp add: distinct_map)
  ultimately show ?thesis using dd set by (intro map_sorted_distinct_set_unique [of f]) simp_all
qed

lemma topk_sorted:
  assumes "distinct (map (\<lambda>c. ac_ID (cs_account c)) cs)"
  shows "selectTopKOpenAICandidates cs k = take (nat (if k \<le> 0 then 1 else k)) (sort_key candidate_key cs)"
proof (cases "cs = [] \<or> length cs \<le> nat (if k \<le> 0 then 1 else k)")
  case False
  let ?k = "nat (if k \<le> 0 then 1 else k)"
  let ?best = "fold (topk_step ?k) cs []"
  have k: "0 < ?k" "?k < length cs" using False by auto
  obtain rest where i: "length ?best = ?k" "mset cs = mset ?best + rest"
    "\<forall>x \<in> set ?best. \<forall>y \<in># rest. candidate_key x \<le> candidate_key y"
    using topk_fold_inv [OF k(1), of cs] k by (auto simp: topk_inv_def)
  obtain rs where rs: "mset rs = rest" using ex_mset by blast
  have "distinct (map candidate_key cs)"
    using assms by (auto simp: distinct_map inj_on_def candidate_key_def)
  then have "sort_key candidate_key cs = sort_key candidate_key ?best @ sort_key candidate_key rs"
    using i rs by (intro sort_key_split) auto
  then show ?thesis using False i(1) by (simp add: selectTopKOpenAICandidates_def Let_def)
qed (auto simp: selectTopKOpenAICandidates_def Let_def)

text \<open>
  (C25) Selecting the best with a bounded heap gives the same as sorting all candidates and taking the first.
\<close>

theorem topk_is_sorted_prefix:
  assumes "distinct (map (\<lambda>c. ac_ID (cs_account c)) cs)"
  shows "selectTopKOpenAICandidates cs k = take (nat (if k \<le> 0 then 1 else k)) (sort_key candidate_key cs)"
  using assms by (rule topk_sorted)

lemma topk_subset: "set (selectTopKOpenAICandidates cs k) \<subseteq> set cs"
proof (cases "length cs \<le> nat (if k \<le> 0 then 1 else k)")
  case False
  let ?k = "nat (if k \<le> 0 then 1 else k)"
  have "0 < ?k" by simp
  then have "topk_inv ?k cs (fold (topk_step ?k) cs [])" by (rule topk_fold_inv)
  then obtain rest where "mset cs = mset (fold (topk_step ?k) cs []) + rest" by (auto simp: topk_inv_def)
  then have "set cs = set (fold (topk_step ?k) cs []) \<union> set_mset rest" by (metis set_mset_mset set_mset_union)
  then show ?thesis using False by (auto simp: selectTopKOpenAICandidates_def Let_def)
qed (auto simp: selectTopKOpenAICandidates_def Let_def)

lemma topk_length: "length (selectTopKOpenAICandidates cs k) \<le> length cs"
proof (cases "length cs \<le> nat (if k \<le> 0 then 1 else k)")
  case False
  let ?k = "nat (if k \<le> 0 then 1 else k)"
  have "0 < ?k" by simp
  then have "topk_inv ?k cs (fold (topk_step ?k) cs [])" by (rule topk_fold_inv)
  then have "length (fold (topk_step ?k) cs []) = min ?k (length cs)" unfolding topk_inv_def by blast
  then show ?thesis using False by (auto simp: selectTopKOpenAICandidates_def Let_def)
qed (simp add: selectTopKOpenAICandidates_def Let_def)

lemma sort_key_empty [simp]: "sort_key f xs = [] \<longleftrightarrow> xs = []"
  by (metis length_0_conv length_sort)

lemma topk_nonempty:
  assumes "cs \<noteq> []"
  shows "selectTopKOpenAICandidates cs k \<noteq> []"
proof (cases "length cs \<le> nat (if k \<le> 0 then 1 else k)")
  case True
  then show ?thesis using assms by (simp add: selectTopKOpenAICandidates_def Let_def)
next
  case False
  let ?k = "nat (if k \<le> 0 then 1 else k)"
  have pos: "0 < ?k" by simp
  then have "topk_inv ?k cs (fold (topk_step ?k) cs [])" by (rule topk_fold_inv)
  then have "length (fold (topk_step ?k) cs []) = min ?k (length cs)" unfolding topk_inv_def by blast
  then have "0 < length (fold (topk_step ?k) cs [])" using pos False by linarith
  then have "fold (topk_step ?k) cs [] \<noteq> []" by (rule length_greater_0_conv [THEN iffD1])
  then show ?thesis using False assms unfolding selectTopKOpenAICandidates_def Let_def by (simp only: sort_key_empty if_False not_False_eq_True)
qed

section \<open>The order of trying\<close>

lemma pick_index_bound: "pick_index r acc i ws = 0 \<or> pick_index r acc i ws < i + length ws"
proof (induction ws arbitrary: acc i)
  case (Cons w ws)
  show ?case using Cons [of "acc + w" "Suc i"] by auto
qed simp

lemma select_index_bound: "0 < sum_list ws \<Longrightarrow> fst (select_index ws rng) < length ws"
proof -
  assume pos: "0 < sum_list ws"
  then have "0 < length ws" by (cases ws) auto
  then have "pick_index r 0 0 ws < length ws" for r using pick_index_bound [of r 0 0 ws] by linarith
  then show ?thesis using pos by (simp add: select_index_def Let_def split_beta)
qed

lemma mset_remove_at: "i < length xs \<Longrightarrow> add_mset (xs ! i) (mset (remove_at i xs)) = mset xs"
proof -
  assume i: "i < length xs"
  have "mset xs = mset (take i xs @ xs ! i # drop (Suc i) xs)" using id_take_nth_drop [OF i] by simp
  then show ?thesis by (simp add: remove_at_def)
qed

lemma length_remove_at [simp]: "i < length xs \<Longrightarrow> length (remove_at i xs) = length xs - 1"
  by (simp add: remove_at_def)

lemma set_remove_at: "set (remove_at i xs) \<subseteq> set xs"
  by (auto simp: remove_at_def dest: in_set_takeD in_set_dropD)

lemma sum_list_positive:
  fixes ws :: "rat list"
  shows "ws \<noteq> [] \<Longrightarrow> \<forall>w \<in> set ws. 0 < w \<Longrightarrow> 0 < sum_list ws"
proof (induction ws)
  case (Cons w ws)
  then show ?case by (cases "ws = []") (auto intro: add_pos_pos)
qed simp

lemma draw_order_permutes:
  "length pool = n \<Longrightarrow> \<forall>x \<in> set pool. 0 < snd x \<Longrightarrow> mset (draw_order n pool rng) = mset (map fst pool)"
proof (induction n arbitrary: pool rng)
  case (Suc n)
  obtain i rng1 where sel: "select_index (map snd pool) rng = (i, rng1)" by fastforce
  have "0 < sum_list (map snd pool)" using Suc.prems by (intro sum_list_positive) auto
  then have i: "i < length pool" using select_index_bound [of "map snd pool" rng] sel by simp
  have "mset (draw_order n (remove_at i pool) rng1) = mset (map fst (remove_at i pool))"
    using Suc.prems i set_remove_at [of i pool] by (intro Suc.IH) auto
  moreover have "mset (map fst pool) = add_mset (fst (pool ! i)) (mset (map fst (remove_at i pool)))"
    by (simp add: mset_remove_at [OF i, symmetric])
  ultimately show ?case by (simp add: sel)
qed simp

lemma weighted_order_mset:
  "mset (buildOpenAIWeightedSelectionOrder nano cs req) = mset cs"
proof (cases "length cs \<le> 1")
  case False
  have "0 < candidate_weight m c" for m c by (simp add: candidate_weight_def Let_def)
  then show ?thesis using False
    by (simp add: buildOpenAIWeightedSelectionOrder_def draw_order_permutes o_def)
qed (simp add: buildOpenAIWeightedSelectionOrder_def)

text \<open>
  The order in which the best candidates are tried has each of them exactly once, whatever the random
  numbers, the time and the scores are.
\<close>

theorem weighted_order_permutes:
  "mset (buildOpenAIWeightedSelectionOrder nano cs req) = mset cs"
  by (rule weighted_order_mset)

section \<open>Random numbers\<close>

lemma xor_zero: "x XOR y = 0 \<Longrightarrow> x = y" for x y :: "64 word"
  by (auto simp: bit_eq_iff bit_simps)

lemma xor_drop_zero:
  fixes x :: "64 word"
  assumes "0 < k" "x XOR drop_bit k x = 0"
  shows "x = 0"
proof -
  have "x = drop_bit k x" using assms(2) by (rule xor_zero)
  then have e: "unat x = unat x div 2 ^ k" by (metis unat_drop_bit_eq drop_bit_eq_div)
  have "unat x = 0"
  proof (rule ccontr)
    assume "unat x \<noteq> 0"
    moreover have "(1::nat) < 2 ^ k" using assms(1) by (intro one_less_power) auto
    ultimately have "unat x div 2 ^ k < unat x" by (intro div_less_dividend) auto
    then show False using e by simp
  qed
  then show ?thesis by (simp add: unat_eq_zero)
qed

lemma xor_push_zero:
  fixes x :: "64 word"
  assumes "0 < k" "x XOR push_bit k x = 0"
  shows "x = 0"
proof -
  have e: "x = push_bit k x" using assms(2) by (rule xor_zero)
  have "\<not> bit x n" for n
  proof (induction n rule: less_induct)
    case (less n)
    have "bit x n \<longleftrightarrow> bit (push_bit k x) n" using e by simp
    then show ?case using less [of "n - k"] assms(1) by (auto simp: bit_push_bit_iff)
  qed
  then show ?thesis by (intro bit_eqI) simp
qed

lemma xorshift_nonzero: "s \<noteq> 0 \<Longrightarrow> xorshift s \<noteq> 0"
  using xor_drop_zero [of 12 s] xor_push_zero [of 25 "s XOR drop_bit 12 s"]
    xor_drop_zero [of 27 "(s XOR drop_bit 12 s) XOR push_bit 25 (s XOR drop_bit 12 s)"]
  by (auto simp: xorshift_def Let_def)

lemma drop_bit_53: "unat (drop_bit 11 (v :: 64 word)) < 2 ^ 53"
proof -
  have "unat v < 2 ^ 64" using unsigned_less [of v] by simp
  then have "unat v div 2 ^ 11 < 2 ^ 53" by (simp add: div_less_iff_less_mult)
  then show ?thesis by (simp only: unat_drop_bit_eq drop_bit_eq_div [where 'a = nat])
qed

text \<open>
  However many numbers are drawn, from whatever seed, the state of the generator is not zero, where it would
  stay forever, and each number is at least 0 and less than 1.
\<close>

theorem random_numbers_in_range:
  "(xorshift ^^ n) (newOpenAISelectionRNG seed) \<noteq> 0 \<and>
    0 \<le> fst (nextFloat64 ((xorshift ^^ n) (newOpenAISelectionRNG seed))) \<and>
    fst (nextFloat64 ((xorshift ^^ n) (newOpenAISelectionRNG seed))) < 1"
proof -
  have "(xorshift ^^ n) (newOpenAISelectionRNG seed) \<noteq> 0"
    by (induction n) (auto simp: newOpenAISelectionRNG_def xorshift_nonzero)
  moreover have "0 \<le> fst (nextFloat64 x) \<and> fst (nextFloat64 x) < 1" for x
  proof -
    have "of_nat (unat (drop_bit 11 v)) < (2 ^ 53 :: rat)" for v :: "64 word"
      using drop_bit_53 [of v] by (metis of_nat_less_iff of_nat_numeral of_nat_power)
    moreover have "fst (nextFloat64 x) = of_nat (unat (drop_bit 11 (fst (nextUint64 x)))) / 2 ^ 53"
      by (simp add: nextFloat64_def nextUint64_def)
    ultimately show ?thesis by (simp only: divide_nonneg_pos of_nat_0_le_iff divide_less_eq_1_pos zero_less_power zero_less_numeral)
  qed
  ultimately show ?thesis by blast
qed

section \<open>Averages and scores\<close>

lemma updateEWMA_range:
  assumes "0 \<le> old" "old \<le> 1" "0 \<le> x" "x \<le> 1"
  shows "0 \<le> updateEWMA old x ewma_alpha \<and> updateEWMA old x ewma_alpha \<le> 1"
  unfolding updateEWMA_def ewma_alpha_def
  using assms by (intro conjI convex_bound_le add_nonneg_nonneg mult_nonneg_nonneg) simp_all

lemma clamp01_range [simp]: "0 \<le> clamp01 x" "clamp01 x \<le> 1"
  by (auto simp: clamp01_def)

lemma fold_min_bounds:
  fixes x :: "'a::linorder"
  shows "fold min xs x \<le> x" "y \<in> set xs \<Longrightarrow> fold min xs x \<le> y"
proof -
  have le: "fold min xs x \<le> x" for xs and x :: 'a
  proof (induction xs arbitrary: x)
    case (Cons z xs)
    have "fold min xs (min z x) \<le> min z x" by (rule Cons)
    also have "min z x \<le> x" by (rule min.cobounded2)
    finally show ?case by simp
  qed simp
  then show "fold min xs x \<le> x" .
  show "y \<in> set xs \<Longrightarrow> fold min xs x \<le> y"
  proof (induction xs arbitrary: x)
    case (Cons z xs)
    have "fold min xs (min z x) \<le> z" using order_trans [OF le min.cobounded1] .
    then show ?case using Cons by auto
  qed simp
qed

lemma fold_max_bounds:
  fixes x :: "'a::linorder"
  shows "x \<le> fold max xs x" "y \<in> set xs \<Longrightarrow> y \<le> fold max xs x"
proof -
  have le: "x \<le> fold max xs x" for xs and x :: 'a
  proof (induction xs arbitrary: x)
    case (Cons z xs)
    have "x \<le> max z x" by (rule max.cobounded2)
    also have "\<dots> \<le> fold max xs (max z x)" by (rule Cons)
    finally show ?case by simp
  qed simp
  then show "x \<le> fold max xs x" .
  show "y \<in> set xs \<Longrightarrow> y \<le> fold max xs x"
  proof (induction xs arbitrary: x)
    case (Cons z xs)
    have "z \<le> fold max xs (max z x)" using order_trans [OF max.cobounded1 le] .
    then show ?case using Cons by auto
  qed simp
qed

lemma priority_factor_range:
  fixes p lo hi :: int
  assumes "lo \<le> p" "p \<le> hi" "lo < hi"
  shows "0 \<le> 1 - of_int (p - lo) / (of_int (hi - lo) :: rat) \<and> 1 - of_int (p - lo) / (of_int (hi - lo) :: rat) \<le> 1"
proof -
  have "0 < (of_int (hi - lo) :: rat)" "0 \<le> (of_int (p - lo) :: rat)" "of_int (p - lo) \<le> (of_int (hi - lo) :: rat)"
    using assms by auto
  then show ?thesis by (simp add: divide_le_eq_1_pos del: of_int_diff)
qed

lemma extremes_priority:
  assumes "c \<in> set cs"
  shows "ex_minPriority (extremes_of cs) \<le> ac_Priority (cs_account c) \<and> ac_Priority (cs_account c) \<le> ex_maxPriority (extremes_of cs)"
  using assms by (cases cs) (auto simp: extremes_of_def Let_def fold_min_bounds fold_max_bounds)

lemma ttft_factor_range: "0 \<le> ttft_factor ts t \<and> ttft_factor ts t \<le> 1"
  by (auto simp: ttft_factor_def Let_def split: option.split list.split)

lemma weighted_sum_range:
  fixes w :: rat
  assumes "0 \<le> w" "0 \<le> x \<and> x \<le> 1"
  shows "0 \<le> w * x \<and> w * x \<le> w"
  using assms by (simp add: mult_left_le)

lemma score_range:
  assumes "c \<in> set cs" "0 \<le> sw_Priority w" "0 \<le> sw_Load w" "0 \<le> sw_Queue w" "0 \<le> sw_ErrorRate w" "0 \<le> sw_TTFT w"
  shows "0 \<le> score_of w (extremes_of cs) c \<and>
    score_of w (extremes_of cs) c \<le> sw_Priority w + sw_Load w + sw_Queue w + sw_ErrorRate w + sw_TTFT w"
proof -
  have one: "0 \<le> 1 - clamp01 x \<and> 1 - clamp01 x \<le> 1" for x by simp
  let ?e = "extremes_of cs"
  let ?p = "if ex_maxPriority ?e > ex_minPriority ?e
    then 1 - of_int (ac_Priority (cs_account c) - ex_minPriority ?e) / of_int (ex_maxPriority ?e - ex_minPriority ?e) else (1 :: rat)"
  have "0 \<le> ?p \<and> ?p \<le> 1"
    using priority_factor_range extremes_priority [OF assms(1)] by (simp del: of_int_diff)
  note weighted_sum_range [OF assms(2) this] weighted_sum_range [OF assms(3) one]
    weighted_sum_range [OF assms(4) one] weighted_sum_range [OF assms(5) one] weighted_sum_range [OF assms(6) ttft_factor_range]
  from this [THEN conjunct1] this [THEN conjunct2] show ?thesis
    unfolding score_of_def Let_def by (intro conjI add_nonneg_nonneg add_mono) simp_all
qed

lemma report_range:
  assumes "\<forall>(i, st) \<in> set s. 0 \<le> rs_errorRate st \<and> rs_errorRate st \<le> 1"
  shows "\<forall>(i, st) \<in> set (report a ok ms s). 0 \<le> rs_errorRate st \<and> rs_errorRate st \<le> 1"
proof (cases "a \<le> 0")
  case False
  have l: "0 \<le> rs_errorRate (loadOrCreate a s) \<and> rs_errorRate (loadOrCreate a s) \<le> 1"
    using assms by (force simp: loadOrCreate_def dest: map_of_SomeD split: option.split)
  have "0 \<le> updateEWMA (rs_errorRate (loadOrCreate a s)) (if ok then 0 else 1) ewma_alpha \<and>
    updateEWMA (rs_errorRate (loadOrCreate a s)) (if ok then 0 else 1) ewma_alpha \<le> 1"
    using l by (intro updateEWMA_range) auto
  moreover have "(i, st) \<in> set (AList.update a v s) \<Longrightarrow> (i, st) = (a, v) \<or> (i, st) \<in> set s" for i st v
    by (induction s) (auto split: if_splits)
  ultimately show ?thesis using assms False
    by (fastforce simp: report_def Let_def split: option.splits if_splits)
qed (use assms in \<open>simp add: report_def\<close>)

definition stats_of :: "(int \<times> bool \<times> int option) list \<Rightarrow> runtime_stats" where
  "stats_of history = fold (\<lambda>(a, ok, ms). report a ok ms) history []"

lemma stats_of_range: "\<forall>(i, st) \<in> set (stats_of history). 0 \<le> rs_errorRate st \<and> rs_errorRate st \<le> 1"
proof (induction history rule: rev_induct)
  case (snoc x history)
  obtain a ok ms where x: "x = (a, ok, ms)" by (cases x)
  show ?case using report_range [OF snoc, of a ok ms] by (simp add: stats_of_def x)
qed (simp add: stats_of_def)

text \<open>
  After any reports, the error rate of an account lies between 0 and 1, so that cutting it to this range
  changes nothing, and with weights that are not negative, as the configuration requires, every score lies
  between 0 and the sum of the weights, whatever the loads are.
\<close>

theorem scores_in_range:
  assumes "0 \<le> sw_Priority w" "0 \<le> sw_Load w" "0 \<le> sw_Queue w" "0 \<le> sw_ErrorRate w" "0 \<le> sw_TTFT w"
    and "c \<in> set (scored w loads (stats_of history) accounts)"
  shows "(cs_errorRate c = rs_errorRate (loadOrCreate (ac_ID (cs_account c)) (stats_of history)) \<or> ac_ID (cs_account c) \<le> 0) \<and>
    0 \<le> cs_score c \<and> cs_score c \<le> sw_Priority w + sw_Load w + sw_Queue w + sw_ErrorRate w + sw_TTFT w"
proof -
  let ?cs = "map (unscored loads (stats_of history)) accounts"
  obtain a where a: "a \<in> set accounts"
    and c: "c = (unscored loads (stats_of history) a)\<lparr>cs_score := score_of w (extremes_of ?cs) (unscored loads (stats_of history) a)\<rparr>"
    using assms(6) by (auto simp: scored_def Let_def)
  have "0 \<le> cs_score c \<and> cs_score c \<le> sw_Priority w + sw_Load w + sw_Queue w + sw_ErrorRate w + sw_TTFT w"
    using score_range [of "unscored loads (stats_of history) a" ?cs w] assms a by (simp add: c)
  moreover have "cs_errorRate c = rs_errorRate (loadOrCreate (ac_ID (cs_account c)) (stats_of history)) \<or> ac_ID (cs_account c) \<le> 0"
    using stats_of_range [of history]
    by (fastforce simp: c unscored_def stat_snapshot_def loadOrCreate_def clamp01_def dest: map_of_SomeD split: option.splits prod.splits)
  ultimately show ?thesis by blast
qed

section \<open>An example\<close>

definition demo_account :: "int \<Rightarrow> int \<Rightarrow> bool \<Rightarrow> string \<Rightarrow> Account" where
  "demo_account i n ws status = \<lparr>ac_ID = i, ac_Platform = PlatformOpenAI, ac_Type = AccountTypeAPIKey, ac_Concurrency = n,
     ac_Priority = i, ac_LoadFactor = None, ac_Status = status, ac_LastUsedAt = None, ac_ExpiresAt = None,
     ac_AutoPauseOnExpired = False, ac_Schedulable = True, ac_RateLimitResetAt = None, ac_OverloadUntil = None,
     ac_TempUnschedulableUntil = None, ac_ModelMapping = [], ac_ModelLimits = [], ac_PrivacyMode = None,
     ac_WSForceHTTP = None, ac_OAuthWSMode = None, ac_APIKeyWSMode = None, ac_OAuthWSEnabled = None,
     ac_APIKeyWSEnabled = Some ws, ac_ResponsesWSEnabled = None, ac_OpenAIWSEnabled = None\<rparr>"

definition demo_candidate :: "int \<Rightarrow> rat \<Rightarrow> candidate" where
  "demo_candidate i s = \<lparr>cs_account = demo_account i 1 False StatusActive,
     cs_loadInfo = \<lparr>li_ID = i, li_CurrentConcurrency = 0, li_WaitingCount = 0, li_LoadRate = 0\<rparr>,
     cs_score = s, cs_errorRate = 0, cs_ttft = None\<rparr>"

theorem topk_is_sorted_prefix_witness:
  "selectTopKOpenAICandidates [demo_candidate 3 1, demo_candidate 1 2, demo_candidate 2 4, demo_candidate 4 2] 2 =
    [demo_candidate 2 4, demo_candidate 1 2]"
proof -
  have "selectTopKOpenAICandidates [demo_candidate 3 1, demo_candidate 1 2, demo_candidate 2 4, demo_candidate 4 2] 2 =
      take 2 (sort_key candidate_key [demo_candidate 3 1, demo_candidate 1 2, demo_candidate 2 4, demo_candidate 4 2])"
    using topk_is_sorted_prefix [of "[demo_candidate 3 1, demo_candidate 1 2, demo_candidate 2 4, demo_candidate 4 2]" 2]
    by (simp add: demo_candidate_def demo_account_def)
  then show ?thesis by (simp add: candidate_key_def demo_candidate_def demo_account_def)
qed

end
