(* ===== verification/SchedulerProps.thy ===== *)
theory SchedulerProps
  imports Scheduler SchedRankProps ConcurrencyRequests
begin

text \<open>
  What the selection of an account guarantees: the account is one that the request may use, the slot that
  is taken is the one that is returned, sessions stick to their account, and room is used.

  A run is described layer by layer with \<open>exec\<close>: each lemma says what a part answers and which parts of
  the state it leaves alone.
\<close>

section \<open>Runs\<close>

lemma exec_on_slots [simp]:
  "exec (on_slots p) w = (fst (exec p (gw_slots w)), w\<lparr>gw_slots := snd (exec p (gw_slots w))\<rparr>)"
proof (induction p arbitrary: w rule: prog_induct)
  case (Step f)
  obtain p s where f: "f (gw_slots w) = (p, s)" by fastforce
  show ?case using Step [of "gw_slots w" "w\<lparr>gw_slots := s\<rparr>"] by (simp add: f)
qed simp

lemma exec_on_sessions [simp]:
  "exec (on_sessions f k) w = exec (k (fst (f (gw_sessions w)))) (w\<lparr>gw_sessions := snd (f (gw_sessions w))\<rparr>)"
  by (simp add: on_sessions_def map_prod_def split_beta)

text \<open>What the reads of an account answer.\<close>

definition snapshot_of :: "service_config \<Rightarrow> gateway \<Rightarrow> int \<Rightarrow> Account option" where
  "snapshot_of v w i = found (if sv_snapshot v then gw_snapshot w i else gw_accounts w i)"

definition usable_of :: "gateway \<Rightarrow> string \<Rightarrow> Account option \<Rightarrow> Account option" where
  "usable_of w model r = (case r of None \<Rightarrow> None | Some a \<Rightarrow> if account_usable (gw_now w) model a then Some a else None)"

definition fresh_of :: "service_config \<Rightarrow> gateway \<Rightarrow> string \<Rightarrow> Account \<Rightarrow> Account option" where
  "fresh_of v w model a = usable_of w model (if sv_snapshot v then snapshot_of v w (ac_ID a) else Some a)"

definition latest_of :: "service_config \<Rightarrow> gateway \<Rightarrow> string \<Rightarrow> Account \<Rightarrow> Account option" where
  "latest_of v w model a = (if sv_snapshot v then usable_of w model (found (gw_accounts w (ac_ID a))) else Some a)"

lemma exec_read_account [simp]:
  "exec (getSchedulableAccount v i k) w = exec (k (snapshot_of v w i)) w"
  "exec (listSchedulableAccounts g h) w = exec (h (gw_listed w g)) w"
  by (simp_all add: getSchedulableAccount_def snapshot_of_def listSchedulableAccounts_def)

lemma exec_if_usable [simp]: "exec (if_usable model r k) w = exec (k (usable_of w model r)) w"
  by (simp add: if_usable_def usable_of_def split: option.split)

lemma exec_reads [simp]:
  "exec (resolveFreshSchedulableOpenAIAccount v a model k) w = exec (k (fresh_of v w model a)) w"
  "exec (recheckSelectedOpenAIAccountFromDB v a model k) w = exec (k (latest_of v w model a)) w"
  by (simp_all add: resolveFreshSchedulableOpenAIAccount_def fresh_of_def recheckSelectedOpenAIAccountFromDB_def latest_of_def)

lemma usable_of_Some: "usable_of w model r = Some b \<longleftrightarrow> r = Some b \<and> account_usable (gw_now w) model b"
  by (auto simp: usable_of_def split: option.splits)

text \<open>An attempt to take a slot changes the slots alone.\<close>

definition slot_run :: "service_config \<Rightarrow> int \<Rightarrow> int \<Rightarrow> cworld \<Rightarrow> (go_error + slot option) \<times> cworld" where
  "slot_run v i n s = (case sv_concurrency v of None \<Rightarrow> (Inr (Some NoSlot), s)
     | Some (c, pfx) \<Rightarrow> exec (AcquireAccountSlot c pfx i n Return) s)"

lemma exec_tryAcquire [simp]:
  "exec (tryAcquireAccountSlot v i n k) w =
     exec (k (fst (slot_run v i n (gw_slots w)))) (w\<lparr>gw_slots := snd (slot_run v i n (gw_slots w))\<rparr>)"
  by (auto simp: tryAcquireAccountSlot_def slot_run_def split: option.split)

text \<open>The parts that no layer but the marking of accounts changes.\<close>

definition same_accounts :: "gateway \<Rightarrow> gateway \<Rightarrow> bool" where
  "same_accounts w t \<longleftrightarrow> gw_now t = gw_now w \<and> gw_accounts t = gw_accounts w \<and> gw_snapshot t = gw_snapshot w \<and>
     gw_listed t = gw_listed w \<and> gw_groups t = gw_groups w \<and> gw_faults t = gw_faults w \<and> gw_stats t = gw_stats w"

lemma same_accounts_simps [simp]:
  "same_accounts w w" "same_accounts w (t\<lparr>gw_slots := s\<rparr>) = same_accounts w t"
  "same_accounts w (t\<lparr>gw_sessions := c\<rparr>) = same_accounts w t" "same_accounts w (t\<lparr>gw_responses := r\<rparr>) = same_accounts w t"
  "same_accounts w (t\<lparr>gw_metrics := m\<rparr>) = same_accounts w t"
  by (simp_all add: same_accounts_def)

lemma same_accounts_reads:
  assumes "same_accounts w t"
  shows "snapshot_of v t i = snapshot_of v w i" "fresh_of v t model a = fresh_of v w model a"
    "latest_of v t model a = latest_of v w model a" "gw_now t = gw_now w"
  using assms by (simp_all add: same_accounts_def snapshot_of_def fresh_of_def latest_of_def usable_of_def split: option.split)

lemma same_accounts_trans: "same_accounts w t \<Longrightarrow> same_accounts t u \<Longrightarrow> same_accounts w u"
  by (simp add: same_accounts_def)

section \<open>The sticky layers\<close>

text \<open>Both end in \<open>sticky_slot\<close>, with an account that the database has just confirmed.\<close>

definition confirmed :: "service_config \<Rightarrow> gateway \<Rightarrow> string \<Rightarrow> int \<Rightarrow> Account \<Rightarrow> bool" where
  "confirmed v w model i b \<longleftrightarrow> account_usable (gw_now w) model b \<and>
     (\<exists>a. snapshot_of v w i = Some a \<and> account_usable (gw_now w) model a \<and> latest_of v w model a = Some b)"

definition sticky_answer :: "service_config \<Rightarrow> int \<Rightarrow> Account \<Rightarrow> cworld \<Rightarrow> AccountSelectionResult option" where
  "sticky_answer v i b s = (case fst (slot_run v i (ac_Concurrency b) s) of
       Inr (Some sl) \<Rightarrow> Some (acquired_result b sl)
     | _ \<Rightarrow> if sv_concurrency v \<noteq> None
            then Some (waiting_result b i (sv_StickySessionWaitTimeout v) (sv_StickySessionMaxWaiting v)) else None)"

text \<open>
  What a sticky layer may answer: nothing, with the slots as they were, or the answer for a confirmed
  account that is not excluded, with the slots after the attempt.
\<close>

definition sticky_outcome :: "service_config \<Rightarrow> gateway \<Rightarrow> string \<Rightarrow> int list \<Rightarrow> AccountSelectionResult option \<Rightarrow> gateway \<Rightarrow> bool" where
  "sticky_outcome v w model excluded r t \<longleftrightarrow> same_accounts w t \<and>
     (r = None \<and> gw_slots t = gw_slots w \<or>
      (\<exists>i b. i \<notin> set excluded \<and> confirmed v w model i b \<and> r = sticky_answer v i b (gw_slots w) \<and>
         gw_slots t = snd (slot_run v i (ac_Concurrency b) (gw_slots w))))"

lemma exec_on_responses:
  "\<exists>st c. exec (on_responses v f k) w = exec (k (fst (f \<lparr>e_range = sv_range v, e_cleanup = gw_now w, e_now = gw_now w\<rparr>
      (gw_responses w) (gw_sessions w)))) (w\<lparr>gw_responses := st, gw_sessions := c\<rparr>)"
  by (auto simp: on_responses_def split: prod.split)

lemma sticky_slot_outcome:
  assumes "\<And>w. \<exists>x t. exec on_acquired w = (x, t) \<and> same_accounts w t \<and> gw_slots t = gw_slots w"
  obtains t where "exec (sticky_slot v i b on_acquired) w = (sticky_answer v i b (gw_slots w), t)"
    "same_accounts w t" "gw_slots t = snd (slot_run v i (ac_Concurrency b) (gw_slots w))"
proof -
  let ?r = "fst (slot_run v i (ac_Concurrency b) (gw_slots w))"
  let ?w = "w\<lparr>gw_slots := snd (slot_run v i (ac_Concurrency b) (gw_slots w))\<rparr>"
  obtain x t where t: "exec on_acquired ?w = (x, t)" "same_accounts ?w t" "gw_slots t = gw_slots ?w" using assms by blast
  have "same_accounts w t" using t(2) by (simp add: same_accounts_def)
  show thesis
  proof (cases "\<exists>sl. ?r = Inr (Some sl)")
    case True
    then show thesis using t \<open>same_accounts w t\<close> by (intro that [of t]) (auto simp: sticky_slot_def sticky_answer_def)
  next
    case False
    then show thesis
      by (intro that [of ?w]) (auto simp: sticky_slot_def sticky_answer_def split: sum.split option.split)
  qed
qed

text \<open>Forgetting a binding, or writing one, leaves accounts and slots alone.\<close>

lemma responses_outcome:
  "\<exists>x t. exec (on_responses v f Return) w = (x, t) \<and> same_accounts w t \<and> gw_slots t = gw_slots w"
  using exec_on_responses [of v f Return w] by (elim exE) simp

lemma drop_outcome:
  "\<exists>t. exec (drop_response v g i x) w = (x, t) \<and> same_accounts w t \<and> gw_slots t = gw_slots w"
  "\<exists>t. exec (delete_session v l g i x) w = (x, t) \<and> same_accounts w t \<and> gw_slots t = gw_slots w"
  using exec_on_responses [of v "\<lambda>e. DeleteResponseAccount (sv_sha256 v) (response_cache v) (derefGroupID g) i" "\<lambda>_. Return x" w]
  by (auto simp: drop_response_def delete_session_def)

lemma sticky_usable:
  "\<not> shouldClearStickySession now a model \<Longrightarrow> IsOpenAI a \<Longrightarrow> IsSchedulable now a \<Longrightarrow>
    (model \<noteq> [] \<longrightarrow> account_IsModelSupported a model) \<Longrightarrow> account_usable now model a"
  by (simp add: account_usable_def)

lemma latest_usable:
  "latest_of v w model a = Some b \<Longrightarrow> account_usable (gw_now w) model a \<Longrightarrow> account_usable (gw_now w) model b"
  by (auto simp: latest_of_def usable_of_Some split: if_splits)

lemma sticky_rest_outcome:
  assumes "i \<notin> set excluded" "snapshot_of v w i = Some a" "account_usable (gw_now w) model a" "latest_of v w model a = Some b"
    and "same_accounts w u" "gw_slots u = gw_slots w"
    and "\<And>w. \<exists>x t. exec on_acquired w = (x, t) \<and> same_accounts w t \<and> gw_slots t = gw_slots w"
  shows "\<exists>r t. exec (sticky_slot v i b on_acquired) u = (r, t) \<and> sticky_outcome v w model excluded r t"
proof -
  obtain t where "exec (sticky_slot v i b on_acquired) u = (sticky_answer v i b (gw_slots u), t)"
    "same_accounts u t" "gw_slots t = snd (slot_run v i (ac_Concurrency b) (gw_slots u))"
    using sticky_slot_outcome [OF assms(7)] by metis
  moreover have "confirmed v w model i b"
    using assms(2-4) latest_usable by (auto simp: confirmed_def)
  ultimately show ?thesis using assms(1,5,6) same_accounts_trans unfolding sticky_outcome_def by metis
qed

lemma sticky_none: "same_accounts w t \<Longrightarrow> gw_slots t = gw_slots w \<Longrightarrow> sticky_outcome v w model excluded None t"
  by (simp add: sticky_outcome_def)

lemma sticky_none_run:
  assumes "\<exists>t. exec p u = (None, t) \<and> same_accounts u t \<and> gw_slots t = gw_slots u" "same_accounts w u" "gw_slots u = gw_slots w"
  shows "\<exists>r t. exec p u = (r, t) \<and> sticky_outcome v w model excluded r t"
  using assms same_accounts_trans sticky_none by metis

lemma previous_outcome:
  "\<exists>r t. exec (SelectAccountByPreviousResponseID v g pid model excluded) w = (r, t) \<and> sticky_outcome v w model excluded r t"
proof (cases "TrimSpace pid = []")
  case True
  then show ?thesis by (auto simp: SelectAccountByPreviousResponseID_def Let_def intro: sticky_none)
next
  case False
  let ?i = "TrimSpace pid"
  let ?get = "\<lambda>e. GetResponseAccount (sv_sha256 v) (response_cache v) e (derefGroupID g) ?i"
  let ?bound = "\<lambda>i. on_responses v (\<lambda>e. BindResponseAccount (sv_sha256 v) (response_cache v) e (derefGroupID g) ?i i
    (openAIWSResponseStickyTTL v)) Return :: (go_error + unit) gprog"
  define k where "k = (\<lambda>accountID.
        if accountID \<le> 0 \<or> accountID \<in> set excluded then Return None
        else getSchedulableAccount v accountID (\<lambda>r. case r of
            None \<Rightarrow> drop_response v g ?i None
          | Some a \<Rightarrow>
              if pd_Transport (ws_Resolve (sv_ws v) a) \<noteq> OpenAIUpstreamTransportResponsesWebsocketV2 then Return None
              else reading gw_now (\<lambda>now.
                if shouldClearStickySession now a model \<or> \<not> IsOpenAI a \<or> \<not> IsSchedulable now a
                then drop_response v g ?i None
                else if model \<noteq> [] \<and> \<not> account_IsModelSupported a model then Return None
                else recheckSelectedOpenAIAccountFromDB v a model (\<lambda>latest. case latest of
                    None \<Rightarrow> drop_response v g ?i None
                  | Some b \<Rightarrow> sticky_slot v accountID b (?bound accountID)))))"
  have run: "SelectAccountByPreviousResponseID v g pid model excluded = on_responses v ?get k"
    using False by (simp add: SelectAccountByPreviousResponseID_def Let_def k_def)
  have "\<exists>r t. exec (k i) u = (r, t) \<and> sticky_outcome v w model excluded r t"
    if u: "same_accounts w u" "gw_slots u = gw_slots w" for i u
  proof (cases "i \<le> 0 \<or> i \<in> set excluded")
    case False
    note reads [simp] = same_accounts_reads [OF u(1)]
    note none = sticky_none_run [OF drop_outcome(1) u]
    have bound: "\<exists>x t. exec (?bound i) w = (x, t) \<and> same_accounts w t \<and> gw_slots t = gw_slots w" for w
      by (rule responses_outcome)
    show ?thesis
    proof (cases "snapshot_of v w i")
      case (Some a)
      show ?thesis
      proof (cases "account_usable (gw_now w) model a \<and> (\<exists>b. latest_of v w model a = Some b)")
        case True
        then obtain b where "latest_of v w model a = Some b" "account_usable (gw_now w) model a" by blast
        then show ?thesis
          using False Some none sticky_none [OF u] sticky_rest_outcome [OF _ Some _ _ u bound, of excluded model b]
          by (cases "model = []") (simp_all add: k_def)
      next
        case no: False
        then show ?thesis
          using False Some none sticky_none [OF u] sticky_usable [of "gw_now w" a model]
          by (cases "latest_of v w model a") (auto simp: k_def)
      qed
    qed (use False none in \<open>simp add: k_def\<close>)
  qed (use sticky_none [OF u] in \<open>simp add: k_def\<close>)
  then show ?thesis using exec_on_responses [of v ?get k w] run by fastforce
qed

lemma session_outcome:
  "\<exists>r t. exec (session_account v l req i) w = (r, t) \<and> sticky_outcome v w (rq_RequestedModel req) (rq_ExcludedIDs req) r t"
proof (cases "i \<le> 0 \<or> i \<in> set (rq_ExcludedIDs req)")
  case False
  let ?model = "rq_RequestedModel req"
  have u: "same_accounts w w" "gw_slots w = gw_slots w" by simp_all
  note none = sticky_none_run [OF drop_outcome(2) u]
  have bound: "\<exists>x t. exec (on_sessions f Return) w = (x, t) \<and> same_accounts w t \<and> gw_slots t = gw_slots w"
    for f :: "session_redis \<Rightarrow> (go_error + unit) \<times> session_redis" and w by simp
  show ?thesis
  proof (cases "snapshot_of v w i")
    case (Some a)
    show ?thesis
    proof (cases "account_usable (gw_now w) ?model a \<and> (\<exists>b. latest_of v w ?model a = Some b)")
      case True
      then obtain b where "latest_of v w ?model a = Some b" "account_usable (gw_now w) ?model a" by blast
      then show ?thesis
        using False Some none sticky_none [OF u] sticky_rest_outcome [OF _ Some _ _ u bound, of "rq_ExcludedIDs req" ?model b]
        by (cases "?model = []") (simp_all add: session_account_def Let_def)
    next
      case no: False
      then show ?thesis
        using False Some none sticky_none [OF u] sticky_usable [of "gw_now w" a ?model]
        by (cases "latest_of v w ?model a") (auto simp: session_account_def Let_def)
    qed
  qed (use False none in \<open>simp add: session_account_def Let_def\<close>)
qed (auto simp: session_account_def Let_def intro: sticky_none)

lemma by_session_outcome:
  "\<exists>r t. exec (selectBySessionHash v l req) w = (r, t) \<and> sticky_outcome v w (rq_RequestedModel req) (rq_ExcludedIDs req) r t"
proof (cases "TrimSpace (rq_SessionHash req) = [] \<or> \<not> sk_cache (sv_sticky v) \<or> rq_StickyAccountID req > 0")
  case True
  then show ?thesis using session_outcome by (auto simp: selectBySessionHash_def Let_def intro: sticky_none)
next
  case False
  let ?g = "getStickySessionAccountID (sv_sticky v) l (rq_GroupID req) (TrimSpace (rq_SessionHash req)) (gw_sessions w)"
  let ?u = "w\<lparr>gw_sessions := snd ?g\<rparr>"
  show ?thesis
  proof (cases "fst ?g")
    case (Inr i)
    obtain r t where rt: "exec (session_account v l req i) ?u = (r, t)"
      "sticky_outcome v ?u (rq_RequestedModel req) (rq_ExcludedIDs req) r t" using session_outcome by metis
    have "same_accounts w ?u" by simp
    then have "sticky_outcome v w (rq_RequestedModel req) (rq_ExcludedIDs req) r t"
      using rt(2) same_accounts_trans [of w ?u t] same_accounts_reads [of w ?u]
      by (simp add: sticky_outcome_def confirmed_def)
    then show ?thesis using False Inr rt(1) by (auto simp: selectBySessionHash_def Let_def)
  qed (use False in \<open>auto simp: selectBySessionHash_def Let_def intro: sticky_none\<close>)
qed

section \<open>The layer of loads\<close>

definition eligible :: "service_config \<Rightarrow> sched_group option \<Rightarrow> OpenAIAccountScheduleRequest \<Rightarrow> gotime \<Rightarrow> Account \<Rightarrow> bool" where
  "eligible v g req now a \<longleftrightarrow> ac_ID a \<notin> set (rq_ExcludedIDs req) \<and> account_usable now (rq_RequestedModel req) a \<and>
     privacy_ok g a \<and> isAccountTransportCompatible v a (rq_RequiredTransport req)"

text \<open>Accounts may be marked on the way, those of \<open>M\<close> alone; they keep their ids.\<close>

definition keyed :: "(int \<Rightarrow> go_error + Account option) \<Rightarrow> bool" where
  "keyed f \<longleftrightarrow> (\<forall>i a. f i = Inr (Some a) \<longrightarrow> ac_ID a = i)"

definition marks :: "int set \<Rightarrow> gateway \<Rightarrow> gateway \<Rightarrow> bool" where
  "marks M w t \<longleftrightarrow> gw_now t = gw_now w \<and> gw_slots t = gw_slots w \<and> gw_sessions t = gw_sessions w \<and>
     gw_stats t = gw_stats w \<and> (\<forall>i. i \<notin> M \<longrightarrow> gw_accounts t i = gw_accounts w i \<and> gw_snapshot t i = gw_snapshot w i) \<and>
     (keyed (gw_accounts w) \<longrightarrow> keyed (gw_accounts t)) \<and>
     (keyed (gw_accounts w) \<and> keyed (gw_snapshot w) \<longrightarrow> keyed (gw_snapshot t))"

lemma marks_refl [simp]: "marks M w w" by (simp add: marks_def)

lemma marks_trans: "marks M w t \<Longrightarrow> marks M t u \<Longrightarrow> marks M w u" by (simp add: marks_def)

lemma marks_mono: "marks A w t \<Longrightarrow> A \<subseteq> M \<Longrightarrow> marks M w t"
  unfolding marks_def by (intro conjI) (simp_all, blast)

lemma mark_error_marks: "i \<in> M \<Longrightarrow> marks M w (mark_error i b w)"
  by (auto simp: mark_error_def marks_def put_account_def Let_def keyed_def split: sum.split option.split)

lemma SetError_marks: "i \<in> M \<Longrightarrow> marks M w (snd (account_SetError i w))"
proof -
  assume i: "i \<in> M"
  have "marks M w (w\<lparr>gw_faults := fs\<rparr>)" for fs by (simp add: marks_def)
  then show ?thesis using mark_error_marks [OF i] marks_trans
    by (auto simp: account_SetError_def Let_def split: list.split outcome.split) blast+
qed

lemma filter_step:
  "\<exists>t. exec (filter_account v g req a acc) w = (acc @ (if eligible v g req (gw_now w) a then [a] else []), t) \<and>
     (\<not> privacy_ok g a \<longrightarrow> marks {ac_ID a} w t) \<and> (privacy_ok g a \<longrightarrow> t = w)"
proof (cases "privacy_ok g a")
  case True
  then show ?thesis by (cases "rq_RequestedModel req = []") (auto simp: filter_account_def eligible_def account_usable_def)
next
  case False
  then show ?thesis using SetError_marks [of "ac_ID a" "{ac_ID a}" w]
    by (auto simp: filter_account_def eligible_def account_usable_def)
qed

lemma filter_run:
  assumes "\<forall>a \<in> set accounts. \<not> privacy_ok g a \<longrightarrow> ac_ID a \<in> M"
  shows "\<exists>t. exec (foreach accounts (filter_account v g req) acc) w =
     (acc @ filter (eligible v g req (gw_now w)) accounts, t) \<and> marks M w t"
  using assms
proof (induction accounts arbitrary: acc w)
  case (Cons a accounts)
  let ?acc = "acc @ (if eligible v g req (gw_now w) a then [a] else [])"
  obtain t where t: "exec (filter_account v g req a acc) w = (?acc, t)" "\<not> privacy_ok g a \<longrightarrow> marks {ac_ID a} w t"
    "privacy_ok g a \<longrightarrow> t = w" using filter_step by metis
  have "marks M w t" using t(2,3) Cons.prems marks_mono [of "{ac_ID a}" w t M] by (cases "privacy_ok g a") auto
  moreover from this have now: "gw_now t = gw_now w" by (simp add: marks_def)
  moreover obtain u where "exec (foreach accounts (filter_account v g req) ?acc) t =
      (?acc @ filter (eligible v g req (gw_now t)) accounts, u)" "marks M t u"
    using Cons by (metis list.set_intros(2))
  ultimately show ?case using t(1) by (auto intro: marks_trans simp: now)
qed simp

lemma loads_run:
  "\<exists>loads. exec (account_loads v filtered) w = (loads, w\<lparr>gw_slots := gw_slots (snd (exec (account_loads v filtered) w))\<rparr>)"
  by (auto simp: account_loads_def split: option.split prod.split)

text \<open>What the candidates are tried for.\<close>

definition tried :: "service_config \<Rightarrow> gateway \<Rightarrow> OpenAIAccountScheduleRequest \<Rightarrow> Account \<Rightarrow> Account \<Rightarrow> bool" where
  "tried v w req a b \<longleftrightarrow> (\<exists>fresh. fresh_of v w (rq_RequestedModel req) a = Some fresh \<and>
     isAccountTransportCompatible v fresh (rq_RequiredTransport req) \<and>
     latest_of v w (rq_RequestedModel req) fresh = Some b \<and> isAccountTransportCompatible v b (rq_RequiredTransport req))"

definition session_bound :: "service_config \<Rightarrow> string \<Rightarrow> OpenAIAccountScheduleRequest \<Rightarrow> int \<Rightarrow> session_redis \<Rightarrow> session_redis" where
  "session_bound v l req i c = (if rq_SessionHash req = [] then c
     else snd (BindStickySession (sv_sticky v) l (rq_GroupID req) (rq_SessionHash req) i c))"

lemma tried_cong: "same_accounts w t \<Longrightarrow> tried v t req a b = tried v w req a b"
  by (simp add: tried_def same_accounts_reads)

text \<open>One candidate: it is passed over, or a slot of its account is asked for.\<close>

lemma try_cases:
  obtains (pass) "\<nexists>b. tried v w req (cs_account cand) b"
      "exec (try_candidates v l req (cand # cands)) w = exec (try_candidates v l req cands) w"
    | (ask) b u where "tried v w req (cs_account cand) b" "u = w\<lparr>gw_slots := snd (slot_run v (ac_ID b) (ac_Concurrency b) (gw_slots w))\<rparr>"
      "exec (try_candidates v l req (cand # cands)) w =
        (case fst (slot_run v (ac_ID b) (ac_Concurrency b) (gw_slots w)) of
           Inl e \<Rightarrow> (Some (Inl e), u)
         | Inr None \<Rightarrow> exec (try_candidates v l req cands) u
         | Inr (Some sl) \<Rightarrow> (Some (Inr (acquired_result b sl)), u\<lparr>gw_sessions := session_bound v l req (ac_ID b) (gw_sessions w)\<rparr>))"
proof (cases "\<exists>b. tried v w req (cs_account cand) b")
  case True
  then obtain fresh b where "fresh_of v w (rq_RequestedModel req) (cs_account cand) = Some fresh"
     "isAccountTransportCompatible v fresh (rq_RequiredTransport req)"
     "latest_of v w (rq_RequestedModel req) fresh = Some b" "isAccountTransportCompatible v b (rq_RequiredTransport req)"
    by (auto simp: tried_def)
  then show thesis using True
    by (intro ask [of b]) (auto simp: tried_def session_bound_def split: sum.split option.split)
next
  case False
  then show thesis
    by (intro pass) (auto simp: tried_def split: option.split)
qed

lemma try_outcome:
  assumes "exec (try_candidates v l req cands) w = (r, t)"
  shows "same_accounts w t \<and> (case r of
      Some (Inr sel) \<Rightarrow> \<exists>cand \<in> set cands. \<exists>b sl. tried v w req (cs_account cand) b \<and> sel = acquired_result b sl \<and>
        gw_sessions t = session_bound v l req (ac_ID b) (gw_sessions w)
    | _ \<Rightarrow> gw_sessions t = gw_sessions w)"
  using assms
proof (induction cands arbitrary: w)
  case (Cons cand cands)
  show ?case
  proof (cases rule: try_cases [of v w req cand l cands])
    case pass
    then show ?thesis using Cons.IH [of w] Cons.prems by (fastforce split: option.splits sum.splits)
  next
    case (ask b u)
    have u: "same_accounts w u" "gw_sessions u = gw_sessions w" by (simp_all add: ask(2))
    show ?thesis
    proof (cases "fst (slot_run v (ac_ID b) (ac_Concurrency b) (gw_slots w)) = Inr None")
      case True
      then have "exec (try_candidates v l req cands) u = (r, t)" using ask(3) Cons.prems by simp
      from Cons.IH [OF this] show ?thesis
        using u same_accounts_trans [OF u(1)] by (fastforce simp: tried_cong split: option.splits sum.splits)
    next
      case False
      then show ?thesis using ask Cons.prems u by (auto split: sum.splits option.splits)
    qed
  qed
qed simp

lemma wait_outcome:
  "exec (wait_candidate v req cands) w = (r, t) \<Longrightarrow> t = w \<and> (case r of
      None \<Rightarrow> \<forall>cand \<in> set cands. \<forall>fresh. fresh_of v w (rq_RequestedModel req) (cs_account cand) = Some fresh \<longrightarrow>
        \<not> isAccountTransportCompatible v fresh (rq_RequiredTransport req)
    | Some sel \<Rightarrow> \<exists>cand \<in> set cands. \<exists>fresh. fresh_of v w (rq_RequestedModel req) (cs_account cand) = Some fresh \<and>
        isAccountTransportCompatible v fresh (rq_RequiredTransport req) \<and>
        sel = waiting_result fresh (ac_ID fresh) (sv_FallbackWaitTimeout v) (sv_FallbackMaxWaiting v))"
proof (induction cands)
  case (Cons cand cands)
  then show ?case by (fastforce split: option.splits if_splits)
qed simp

definition group_of :: "service_config \<Rightarrow> OpenAIAccountScheduleRequest \<Rightarrow> gateway \<Rightarrow> sched_group option" where
  "group_of v req w = (case rq_GroupID req of None \<Rightarrow> None | Some g \<Rightarrow> if sv_snapshot v then gw_groups w g else None)"

definition not_private :: "sched_group option \<Rightarrow> Account list \<Rightarrow> int set" where
  "not_private g accounts = ac_ID ` {a \<in> set accounts. \<not> privacy_ok g a}"

lemma scored_accounts: "map cs_account (scored ws loads stats filtered) = filtered"
  by (simp add: scored_def Let_def unscored_def o_def split_beta)

definition order_of :: "service_config \<Rightarrow> (int \<times> LoadInfo) list \<Rightarrow> Account list \<Rightarrow> OpenAIAccountScheduleRequest \<Rightarrow> gateway \<Rightarrow> candidate list" where
  "order_of v loads filtered req u =
     (let candidates = scored (sv_weights v) loads (gw_stats u) filtered
      in buildOpenAIWeightedSelectionOrder (of_int (gw_now u))
        (selectTopKOpenAICandidates candidates (min (openAIWSLBTopK v) (int (length candidates)))) req)"

lemma order_accounts:
  "cs_account ` set (order_of v loads filtered req u) \<subseteq> set filtered"
  "filtered \<noteq> [] \<Longrightarrow> order_of v loads filtered req u \<noteq> []"
proof -
  let ?cs = "scored (sv_weights v) loads (gw_stats u) filtered"
  have m: "set (order_of v loads filtered req u) = set (selectTopKOpenAICandidates ?cs (min (openAIWSLBTopK v) (int (length ?cs))))"
    unfolding order_of_def Let_def using weighted_order_mset by (metis set_mset_mset)
  have "cs_account ` set ?cs = set filtered" by (metis scored_accounts set_map)
  then show "cs_account ` set (order_of v loads filtered req u) \<subseteq> set filtered"
    unfolding m using topk_subset by blast
  assume "filtered \<noteq> []"
  then have "?cs \<noteq> []" by (metis scored_accounts list.map_disc_iff)
  then have "set (order_of v loads filtered req u) \<noteq> {}" unfolding m using topk_nonempty by simp
  then show "order_of v loads filtered req u \<noteq> []" by auto
qed

text \<open>The layer as a whole: nobody is eligible, or the candidates are tried and then asked to wait for.\<close>

lemma load_run:
  obtains (nobody) e t where "exec (selectByLoadBalance v l req) w = ((Inl e, 0, 0), t)" "gw_slots t = gw_slots w"
      "gw_sessions t = gw_sessions w"
      "\<forall>accounts. gw_listed w (rq_GroupID req) = Inr accounts \<longrightarrow>
         filter (eligible v (group_of v req w) req (gw_now w)) accounts = []"
    | (tries) accounts u loads n k where "gw_listed w (rq_GroupID req) = Inr accounts"
      "filter (eligible v (group_of v req w) req (gw_now w)) accounts \<noteq> []"
      "marks (not_private (group_of v req w) accounts) w u"
      "fst (exec (account_loads v (filter (eligible v (group_of v req w) req (gw_now w)) accounts)) u) = loads"
      "exec (selectByLoadBalance v l req) w =
         (let order = order_of v loads (filter (eligible v (group_of v req w) req (gw_now w)) accounts) req u;
              u1 = snd (exec (account_loads v (filter (eligible v (group_of v req w) req (gw_now w)) accounts)) u)
          in case exec (try_candidates v l req order) u1 of
               (Some res, t) \<Rightarrow> ((res, n, k), t)
             | (None, t) \<Rightarrow> (case exec (wait_candidate v req order) t of
                 (None, t2) \<Rightarrow> ((Inl ErrNoAvailableAccounts, n, k), t2) | (Some sel, t2) \<Rightarrow> ((Inr sel, n, k), t2)))"
proof (cases "gw_listed w (rq_GroupID req)")
  case (Inl e)
  then show thesis by (intro nobody) (simp_all add: selectByLoadBalance_def)
next
  case (Inr accounts)
  let ?g = "group_of v req w" and ?f = "filter (eligible v (group_of v req w) req (gw_now w)) accounts"
  obtain u where u: "exec (foreach accounts (filter_account v ?g req) []) w = (?f, u)" "marks (not_private ?g accounts) w u"
    using filter_run [of accounts ?g "not_private ?g accounts" v req "[]" w] by (auto simp: not_private_def)
  show thesis
  proof (cases "?f = []")
    case True
    then show thesis
      using Inr u by (intro nobody [of _ "if accounts = [] then w else u"])
        (auto simp: selectByLoadBalance_def group_of_def [symmetric] marks_def)
  next
    case False
    let ?l = "exec (account_loads v ?f) u" and ?cs = "\<lambda>loads. scored (sv_weights v) loads (gw_stats u) ?f"
    obtain s where s: "snd ?l = u\<lparr>gw_slots := s\<rparr>" using loads_run by (metis snd_conv)
    show thesis
    proof (rule tries [OF Inr False u(2) refl, of "int (length ?f)" "min (openAIWSLBTopK v) (int (length ?f))"])
      have len: "length (?cs loads) = length ?f" for loads using arg_cong [OF scored_accounts, of length] by simp
      have ne: "accounts \<noteq> []" using False by auto
      show "exec (selectByLoadBalance v l req) w =
         (let order = order_of v (fst ?l) ?f req u; u1 = snd ?l
          in case exec (try_candidates v l req order) u1 of
               (Some res, t) \<Rightarrow> ((res, int (length ?f), min (openAIWSLBTopK v) (int (length ?f))), t)
             | (None, t) \<Rightarrow> (case exec (wait_candidate v req order) t of
                 (None, t2) \<Rightarrow> ((Inl ErrNoAvailableAccounts, int (length ?f), min (openAIWSLBTopK v) (int (length ?f))), t2)
               | (Some sel, t2) \<Rightarrow> ((Inr sel, int (length ?f), min (openAIWSLBTopK v) (int (length ?f))), t2)))"
        using Inr False ne u(1) s len
        by (simp add: selectByLoadBalance_def group_of_def [symmetric] order_of_def Let_def split_beta split: option.split)
    qed
  qed
qed

section \<open>The layers together\<close>

text \<open>The state in which the second layer starts.\<close>

definition after_previous :: "service_config \<Rightarrow> OpenAIAccountScheduleRequest \<Rightarrow> gateway \<Rightarrow> gateway" where
  "after_previous v req w =
     (if TrimSpace (rq_PreviousResponseID req) = [] then w
      else snd (exec (SelectAccountByPreviousResponseID v (rq_GroupID req) (TrimSpace (rq_PreviousResponseID req))
        (rq_RequestedModel req) (rq_ExcludedIDs req)) w))"

definition counted :: "OpenAIAccountScheduleDecision \<Rightarrow> gateway \<Rightarrow> gateway" where
  "counted d w = w\<lparr>gw_metrics := recordSelect d (gw_metrics w)\<rparr>"

lemma counted_simps [simp]:
  "same_accounts w (counted d t) = same_accounts w t" "gw_slots (counted d t) = gw_slots t"
  "gw_sessions (counted d t) = gw_sessions t" "gw_accounts (counted d t) = gw_accounts t"
  "gw_snapshot (counted d t) = gw_snapshot t" "gw_now (counted d t) = gw_now t"
  by (simp_all add: counted_def)

lemma select_rest_run:
  "exec (select_rest v l req) w = (case exec (selectBySessionHash v l req) w of
       (Some sel, t) \<Rightarrow> ((Inr sel, decide_account (sr_Account sel)
         (no_decision\<lparr>sd_Layer := LayerSessionSticky, sd_StickySessionHit := True\<rparr>)), t)
     | (None, t) \<Rightarrow> (case exec (selectByLoadBalance v l req) t of ((r, n, k), t2) \<Rightarrow>
         ((r, let d = no_decision\<lparr>sd_Layer := LayerLoadBalance, sd_CandidateCount := n, sd_TopK := k\<rparr>
              in case r of Inl _ \<Rightarrow> d | Inr sel \<Rightarrow> decide_account (sr_Account sel) d), t2)))"
  by (simp add: select_rest_def Let_def split: prod.split option.split)

lemma select_run:
  assumes "exec (scheduler_Select v l req) w = ((r, d), t)"
  obtains (previous) sel u where "TrimSpace (rq_PreviousResponseID req) \<noteq> []"
      "exec (SelectAccountByPreviousResponseID v (rq_GroupID req) (TrimSpace (rq_PreviousResponseID req))
        (rq_RequestedModel req) (rq_ExcludedIDs req)) w = (Some sel, u)"
      "isAccountTransportCompatible v (sr_Account sel) (rq_RequiredTransport req)" "r = Inr sel"
      "sd_Layer d = LayerPreviousResponse" "same_accounts u t" "gw_slots t = gw_slots u"
      "d = decide_account (sr_Account sel) (no_decision\<lparr>sd_Layer := LayerPreviousResponse, sd_StickyPreviousHit := True\<rparr>)"
    | (session) sel u where "exec (selectBySessionHash v l req) (after_previous v req w) = (Some sel, u)" "r = Inr sel"
      "t = counted d u" "d = decide_account (sr_Account sel) (no_decision\<lparr>sd_Layer := LayerSessionSticky, sd_StickySessionHit := True\<rparr>)"
    | (load) u n k u1 where "exec (selectBySessionHash v l req) (after_previous v req w) = (None, u)"
      "exec (selectByLoadBalance v l req) u = ((r, n, k), u1)" "t = counted d u1"
      "d = (let d = no_decision\<lparr>sd_Layer := LayerLoadBalance, sd_CandidateCount := n, sd_TopK := k\<rparr>
        in case r of Inl _ \<Rightarrow> d | Inr sel \<Rightarrow> decide_account (sr_Account sel) d)"
proof -
  have sel: "exec (scheduler_Select v l req) w = (case exec (select_layers v l req) w of ((r, d), u) \<Rightarrow> ((r, d), counted d u))"
    by (simp add: scheduler_Select_def counted_def split: prod.split)
  have rest: thesis if "exec (select_rest v l req) (after_previous v req w) = ((r, d), u)" "t = counted d u" for u
    using that session load unfolding select_rest_run
    by (fastforce split: option.splits prod.splits)
  obtain u where u: "exec (select_layers v l req) w = ((r, d), u)" "t = counted d u"
    using assms unfolding sel by (auto split: prod.splits)
  show thesis
  proof (cases "TrimSpace (rq_PreviousResponseID req) = []")
    case True
    then show thesis using rest u by (simp add: select_layers_def after_previous_def)
  next
    case False
    obtain s u1 where p: "exec (SelectAccountByPreviousResponseID v (rq_GroupID req) (TrimSpace (rq_PreviousResponseID req))
        (rq_RequestedModel req) (rq_ExcludedIDs req)) w = (s, u1)" by fastforce
    show thesis
    proof (cases "\<exists>sel. s = Some sel \<and> isAccountTransportCompatible v (sr_Account sel) (rq_RequiredTransport req)")
      case True
      then obtain sel0 where s: "s = Some sel0" "isAccountTransportCompatible v (sr_Account sel0) (rq_RequiredTransport req)" by blast
      have "r = Inr sel0" "same_accounts u1 u" "gw_slots u = gw_slots u1"
        "d = decide_account (sr_Account sel0) (no_decision\<lparr>sd_Layer := LayerPreviousResponse, sd_StickyPreviousHit := True\<rparr>)"
        using u(1) False p s by (auto simp: select_layers_def Let_def split: if_splits)
      then show thesis using previous [of sel0 u1] False p s u(2) by (simp add: decide_account_def no_decision_def)
    next
      case no: False
      then have "exec (select_rest v l req) (after_previous v req w) = ((r, d), u)"
        using u(1) False p by (auto simp: select_layers_def after_previous_def Let_def split: option.splits)
      then show thesis using rest u(2) by blast
    qed
  qed
qed

text \<open>The state in which the scheduler is asked: only the sticky sessions may have been read.\<close>

lemma scheduler_entry:
  obtains i w1 where "exec (SelectAccountWithScheduler v l g pid hash model excluded transport) w =
      exec (scheduler_Select v l \<lparr>rq_GroupID = g, rq_SessionHash = hash, rq_StickyAccountID = i, rq_PreviousResponseID = pid,
        rq_RequestedModel = model, rq_RequiredTransport = transport, rq_ExcludedIDs = excluded\<rparr>) w1"
    "same_accounts w w1" "gw_slots w1 = gw_slots w" "0 \<le> i"
    "gw_sessions w1 = (if hash \<noteq> [] \<and> sk_cache (sv_sticky v)
       then snd (getStickySessionAccountID (sv_sticky v) l g hash (gw_sessions w)) else gw_sessions w)"
    "i = (if hash \<noteq> [] \<and> sk_cache (sv_sticky v)
       then (case fst (getStickySessionAccountID (sv_sticky v) l g hash (gw_sessions w)) of
         Inl _ \<Rightarrow> 0 | Inr a \<Rightarrow> if a > 0 then a else 0) else 0)"
proof (cases "hash \<noteq> [] \<and> sk_cache (sv_sticky v)")
  case True
  let ?s = "getStickySessionAccountID (sv_sticky v) l g hash (gw_sessions w)"
  show thesis
    by (rule that [of "case fst ?s of Inl _ \<Rightarrow> 0 | Inr a \<Rightarrow> if a > 0 then a else 0" "w\<lparr>gw_sessions := snd ?s\<rparr>"])
      (use True in \<open>auto simp: SelectAccountWithScheduler_def Let_def split: sum.split\<close>)
next
  case False
  show thesis
    by (rule that [of 0 w]) (use False in \<open>auto simp: SelectAccountWithScheduler_def Let_def\<close>)
qed

section \<open>The selected account\<close>

lemma found_Some [simp]: "found r = Some a \<longleftrightarrow> r = Inr (Some a)"
  by (auto simp: found_def split: sum.splits)

lemma fresh_keyed:
  "sv_snapshot v \<Longrightarrow> keyed (gw_snapshot w) \<Longrightarrow> fresh_of v w model a = Some b \<Longrightarrow> ac_ID b = ac_ID a"
  by (auto simp: fresh_of_def usable_of_Some snapshot_of_def keyed_def)

lemma latest_keyed:
  "sv_snapshot v \<Longrightarrow> keyed (gw_accounts w) \<Longrightarrow> latest_of v w model a = Some b \<Longrightarrow>
    ac_ID b = ac_ID a \<and> gw_accounts w (ac_ID b) = Inr (Some b) \<and> account_usable (gw_now w) model b"
  by (auto simp: latest_of_def usable_of_Some keyed_def)

lemma confirmed_keyed:
  assumes "sv_snapshot v" "keyed (gw_snapshot w)" "keyed (gw_accounts w)" "confirmed v w model i b"
  shows "ac_ID b = i" "gw_accounts w i = Inr (Some b)" "account_usable (gw_now w) model b"
proof -
  obtain a where a: "snapshot_of v w i = Some a" "latest_of v w model a = Some b" "account_usable (gw_now w) model b"
    using assms(4) by (auto simp: confirmed_def)
  have "ac_ID a = i" using a(1) assms(1,2) by (simp add: snapshot_of_def keyed_def)
  then show "ac_ID b = i" "gw_accounts w i = Inr (Some b)" "account_usable (gw_now w) model b"
    using latest_keyed [OF assms(1,3) a(2)] a(3) by auto
qed

lemma sticky_answer_account: "sticky_answer v i b s = Some sel \<Longrightarrow> sr_Account sel = b"
  by (auto simp: sticky_answer_def acquired_result_def waiting_result_def split: sum.splits option.splits if_splits)

lemma sticky_selected:
  assumes "sv_snapshot v" "keyed (gw_snapshot w)" "keyed (gw_accounts w)" "sticky_outcome v w model excluded (Some sel) t"
  shows "account_usable (gw_now w) model (sr_Account sel) \<and> ac_ID (sr_Account sel) \<notin> set excluded \<and>
    gw_accounts t (ac_ID (sr_Account sel)) = Inr (Some (sr_Account sel))"
proof -
  obtain i b where b: "i \<notin> set excluded" "confirmed v w model i b" "sticky_answer v i b (gw_slots w) = Some sel"
    using assms(4) by (auto simp: sticky_outcome_def)
  have "sr_Account sel = b" using sticky_answer_account [OF b(3)] .
  moreover have "gw_accounts t = gw_accounts w" using assms(4) by (simp add: sticky_outcome_def same_accounts_def)
  ultimately show ?thesis using confirmed_keyed [OF assms(1-3) b(2)] b(1) by simp
qed

lemma load_selected:
  assumes "sv_snapshot v" "keyed (gw_snapshot w)" "keyed (gw_accounts w)"
    and "exec (selectByLoadBalance v l req) w = ((Inr sel, n, k), t)"
  shows "account_usable (gw_now w) (rq_RequestedModel req) (sr_Account sel)"
    "ac_ID (sr_Account sel) \<notin> set (rq_ExcludedIDs req)"
    "isAccountTransportCompatible v (sr_Account sel) (rq_RequiredTransport req)"
    "sr_Slot sel \<noteq> None \<Longrightarrow> gw_accounts t (ac_ID (sr_Account sel)) = Inr (Some (sr_Account sel))"
proof -
  let ?m = "rq_RequestedModel req"
  have "account_usable (gw_now w) ?m (sr_Account sel) \<and> ac_ID (sr_Account sel) \<notin> set (rq_ExcludedIDs req) \<and>
    isAccountTransportCompatible v (sr_Account sel) (rq_RequiredTransport req) \<and>
    (sr_Slot sel \<noteq> None \<longrightarrow> gw_accounts t (ac_ID (sr_Account sel)) = Inr (Some (sr_Account sel)))"
  proof (cases rule: load_run [of v l req w])
    case nobody
    then show ?thesis using assms(4) by simp
  next
    case (tries accounts u loads n' k')
    let ?f = "filter (eligible v (group_of v req w) req (gw_now w)) accounts"
    let ?o = "order_of v loads ?f req u"
    define u1 where "u1 = snd (exec (account_loads v ?f) u)"
    have u1: "same_accounts u u1" using loads_run [of v ?f u] by (metis u1_def same_accounts_simps(1,2) snd_conv)
    have ku: "keyed (gw_accounts u)" "keyed (gw_snapshot u)" "gw_now u = gw_now w" using tries(3) assms(2,3) by (auto simp: marks_def)
    have el: "ac_ID (cs_account cand) \<notin> set (rq_ExcludedIDs req)" if "cand \<in> set ?o" for cand
      using order_accounts(1) [of v loads ?f req u] that by (auto simp: eligible_def)
    obtain r t1 where tried: "exec (try_candidates v l req ?o) u1 = (r, t1)" by fastforce
    note out = try_outcome [OF tried]
    have t1: "same_accounts u t1" using out same_accounts_trans [OF u1] by blast
    note reads = same_accounts_reads [OF t1]
    show ?thesis
    proof (cases r)
      case (Some res)
      then have res: "res = Inr sel" "t = t1" using tries(4,5) tried assms(4) by (simp_all add: u1_def Let_def)
      then obtain cand b sl where b: "cand \<in> set ?o" "tried v u1 req (cs_account cand) b" "sel = acquired_result b sl"
        using out Some by auto
      obtain fresh where f: "fresh_of v u ?m (cs_account cand) = Some fresh" "latest_of v u ?m fresh = Some b"
        "isAccountTransportCompatible v b (rq_RequiredTransport req)"
        using b(2) u1 by (auto simp: tried_def same_accounts_reads)
      have "gw_accounts t = gw_accounts u" using t1 res(2) by (simp add: same_accounts_def)
      then show ?thesis
        using fresh_keyed [OF assms(1) ku(2) f(1)] latest_keyed [OF assms(1) ku(1) f(2)] el [OF b(1)] f(3) b(3) ku(3)
        by (auto simp: acquired_result_def)
    next
      case None
      obtain r2 t2 where wait: "exec (wait_candidate v req ?o) t1 = (r2, t2)" by fastforce
      have "r2 = Some sel"
        using tries(4,5) tried wait None assms(4) by (auto simp: u1_def Let_def split: option.splits)
      then obtain cand fresh where f: "cand \<in> set ?o" "fresh_of v t1 ?m (cs_account cand) = Some fresh"
        "isAccountTransportCompatible v fresh (rq_RequiredTransport req)" "sr_Account sel = fresh" "sr_Slot sel = None"
        using wait_outcome [OF wait] by (auto simp: waiting_result_def)
      have fu: "fresh_of v u ?m (cs_account cand) = Some fresh" using f(2) reads(2) by simp
      have "account_usable (gw_now u) ?m fresh" using fu by (simp add: fresh_of_def usable_of_Some)
      then show ?thesis
        using fresh_keyed [OF assms(1) ku(2) fu] f el [OF f(1)] ku(3) by simp
    qed
  qed
  then show "account_usable (gw_now w) (rq_RequestedModel req) (sr_Account sel)"
    "ac_ID (sr_Account sel) \<notin> set (rq_ExcludedIDs req)"
    "isAccountTransportCompatible v (sr_Account sel) (rq_RequiredTransport req)"
    "sr_Slot sel \<noteq> None \<Longrightarrow> gw_accounts t (ac_ID (sr_Account sel)) = Inr (Some (sr_Account sel))"
    by blast+
qed

section \<open>The slot of a selection\<close>

text \<open>While Redis answers and the process has ids left, what a part takes is what it returns.\<close>

definition owns :: "int \<Rightarrow> AccountSelectionResult option \<Rightarrow> cworld \<Rightarrow> cworld \<Rightarrow> bool" where
  "owns ttl r s t \<longleftrightarrow> (case r of
       Some sel \<Rightarrow> (case sr_Slot sel of
           Some sl \<Rightarrow> holds_slot ttl (accountSlotKey (ac_ID (sr_Account sel))) sl s t
         | None \<Rightarrow> same_slots ttl s t)
     | None \<Rightarrow> same_slots ttl s t)"

lemma owns_trans: "same_slots ttl s t \<Longrightarrow> owns ttl r t u \<Longrightarrow> owns ttl r s u"
  by (auto simp: owns_def same_slots_def holds_slot_def split: option.splits slot.splits)

definition slotted :: "service_config \<Rightarrow> concurrencyCache \<Rightarrow> string \<Rightarrow> bool" where
  "slotted v c pfx \<longleftrightarrow> sv_concurrency v = Some (c, pfx) \<and> 0 < cc_slotTTLSeconds c"

lemma slot_run_ready:
  assumes "ready c pfx (Suc b) s" and S: "slotted v c pfx"
  obtains res t where "slot_run v i n s = (Inr res, t)" "ready c pfx b t"
    "case res of None \<Rightarrow> same_slots (cc_slotTTLSeconds c) s t \<and> 0 < n \<and>
        n \<le> int (card (live (cc_slotTTLSeconds c) (accountSlotKey i) s))
      | Some sl \<Rightarrow> holds_slot (cc_slotTTLSeconds c) (accountSlotKey i) sl s t"
proof (rule acquire_alone [of c pfx b s "accountSlotKey i" n Return], goal_cases)
  case (3 res t)
  then show thesis using S by (intro that) (simp_all add: slot_run_def slotted_def AcquireAccountSlot_def)
qed (use assms in \<open>simp_all add: slotted_def\<close>)

lemma sticky_ready:
  assumes "sv_snapshot v" "keyed (gw_snapshot w)" "keyed (gw_accounts w)" "sticky_outcome v w model excluded r t"
    and "ready c pfx (Suc b) (gw_slots w)" and S: "slotted v c pfx"
  shows "owns (cc_slotTTLSeconds c) r (gw_slots w) (gw_slots t) \<and> ready c pfx b (gw_slots t)"
proof (cases "r = None \<and> gw_slots t = gw_slots w")
  case True
  then show ?thesis using ready_less [OF assms(5), of b] by (simp add: owns_def)
next
  case False
  then obtain i b' where b': "confirmed v w model i b'" "r = sticky_answer v i b' (gw_slots w)"
    "gw_slots t = snd (slot_run v i (ac_Concurrency b') (gw_slots w))"
    using assms(4) by (auto simp: sticky_outcome_def)
  have i: "ac_ID b' = i" using confirmed_keyed(1) [OF assms(1-3) b'(1)] .
  obtain res s where s: "slot_run v i (ac_Concurrency b') (gw_slots w) = (Inr res, s)" "ready c pfx b s"
    "case res of None \<Rightarrow> same_slots (cc_slotTTLSeconds c) (gw_slots w) s \<and> 0 < ac_Concurrency b' \<and>
        ac_Concurrency b' \<le> int (card (live (cc_slotTTLSeconds c) (accountSlotKey i) (gw_slots w)))
      | Some sl \<Rightarrow> holds_slot (cc_slotTTLSeconds c) (accountSlotKey i) sl (gw_slots w) s"
    using slot_run_ready [OF assms(5) S] by metis
  then show ?thesis using b'(2,3) i S
    by (cases res) (auto simp: owns_def sticky_answer_def acquired_result_def waiting_result_def slotted_def)
qed

lemma try_ready:
  assumes "exec (try_candidates v l req cands) w = (r, t)" "ready c pfx (length cands + b) (gw_slots w)" and S: "slotted v c pfx"
  shows "ready c pfx b (gw_slots t) \<and> (case r of
      None \<Rightarrow> same_slots (cc_slotTTLSeconds c) (gw_slots w) (gw_slots t)
    | Some (Inl _) \<Rightarrow> False
    | Some (Inr sel) \<Rightarrow> owns (cc_slotTTLSeconds c) (Some sel) (gw_slots w) (gw_slots t))"
  using assms(1,2)
proof (induction cands arbitrary: w)
  case (Cons cand cands)
  show ?case
  proof (cases rule: try_cases [of v w req cand l cands])
    case pass
    then show ?thesis using Cons.IH [of w] Cons.prems ready_less by simp
  next
    case (ask b' u)
    obtain res s where s: "slot_run v (ac_ID b') (ac_Concurrency b') (gw_slots w) = (Inr res, s)"
      "ready c pfx (length cands + b) s"
      "case res of None \<Rightarrow> same_slots (cc_slotTTLSeconds c) (gw_slots w) s \<and> 0 < ac_Concurrency b' \<and>
          ac_Concurrency b' \<le> int (card (live (cc_slotTTLSeconds c) (accountSlotKey (ac_ID b')) (gw_slots w)))
        | Some sl \<Rightarrow> holds_slot (cc_slotTTLSeconds c) (accountSlotKey (ac_ID b')) sl (gw_slots w) s"
      using slot_run_ready [of c pfx "length cands + b" "gw_slots w" v, OF _ S] Cons.prems(2) by (metis add_Suc length_Cons)
    have u: "gw_slots u = s" by (simp add: ask(2) s(1))
    show ?thesis
    proof (cases res)
      case None
      then have "exec (try_candidates v l req cands) u = (r, t)" using ask(3) Cons.prems(1) s(1) by simp
      from Cons.IH [OF this] show ?thesis
        using u s(2,3) None same_trans(1) owns_trans by (fastforce split: option.splits sum.splits)
    next
      case (Some sl)
      then have "r = Some (Inr (acquired_result b' sl))" "gw_slots t = s" using ask(3) Cons.prems(1) s(1) u by auto
      then show ?thesis using s(2,3) Some ready_less [of c pfx "length cands + b" s b]
        by (simp add: owns_def acquired_result_def)
    qed
  qed
qed simp

lemma pipe_ready:
  assumes "ready c pfx b s"
  shows "\<exists>n w t. exec (pipe_read k1 k2 (TIME s - cc_slotTTLSeconds c) k) s = exec (k n w) t \<and> ready c pfx b t \<and>
    same_slots (cc_slotTTLSeconds c) s t \<and> TIME t = TIME s"
proof -
  let ?t = "ZREMRANGEBYSCORE k1 (TIME s - cc_slotTTLSeconds c) s"
  have "cw_faults ?t = cw_faults s" "cw_seq ?t = cw_seq s"
    by (simp_all add: ZREMRANGEBYSCORE_def change_members_def put_zset_def)
  then have "ready c pfx b ?t" using assms slots_wf_trim unfolding ready_def live_trim by metis
  moreover have "TIME ?t = TIME s" by (simp add: ZREMRANGEBYSCORE_def)
  ultimately show ?thesis
    by (intro exI [of _ "ZCARD k1 ?t"] exI [of _ "count_at k2 ?t"] exI [of _ ?t])
      (simp add: pipe_read_def only_effect_def only_value_def same_slots_def)
qed

lemma pipes_ready:
  assumes "ready c pfx b s" "now = TIME s"
  shows "\<exists>infos t. exec (foreach xs (\<lambda>a acc. pipe_read (f (fst a)) (g (fst a)) (now - cc_slotTTLSeconds c)
      (\<lambda>n w. Return (acc @ [load_info a n w]))) acc) s = (infos, t) \<and> ready c pfx b t \<and> same_slots (cc_slotTTLSeconds c) s t"
  using assms
proof (induction xs arbitrary: acc s)
  case (Cons a xs)
  obtain n w t where t: "exec (pipe_read (f (fst a)) (g (fst a)) (now - cc_slotTTLSeconds c)
      (\<lambda>n w. Return (acc @ [load_info a n w]) :: (cworld, LoadInfo list) prog)) s = (acc @ [load_info a n w], t)"
    "ready c pfx b t" "same_slots (cc_slotTTLSeconds c) s t" "TIME t = TIME s"
    using pipe_ready [OF Cons.prems(1), of "f (fst a)" "g (fst a)" "\<lambda>n w. Return (acc @ [load_info a n w])"] Cons.prems(2)
    by fastforce
  obtain infos u where u: "exec (foreach xs (\<lambda>a acc. pipe_read (f (fst a)) (g (fst a)) (now - cc_slotTTLSeconds c)
      (\<lambda>n w. Return (acc @ [load_info a n w]))) (acc @ [load_info a n w])) t = (infos, u)"
    "ready c pfx b u" "same_slots (cc_slotTTLSeconds c) t u"
    using Cons.IH [OF t(2), of "acc @ [load_info a n w]"] t(4) Cons.prems(2) by auto
  show ?case using t(1) u same_trans(1) [OF t(3) u(3)] by simp
qed auto

lemma loads_ready:
  assumes "ready c pfx b (gw_slots w)" "slotted v c pfx"
  shows "ready c pfx b (gw_slots (snd (exec (account_loads v filtered) w))) \<and>
    same_slots (cc_slotTTLSeconds c) (gw_slots w) (gw_slots (snd (exec (account_loads v filtered) w)))"
proof -
  have run: "\<exists>infos t. exec (GetLoadBatch c f g xs) s = (Inr infos, t) \<and> ready c pfx b t \<and> same_slots (cc_slotTTLSeconds c) s t"
    if s: "ready c pfx b s" for s f g xs
  proof -
    have nf: "cw_faults s = []" using s by (simp add: ready_def)
    obtain infos t where "exec (foreach xs (\<lambda>a acc. pipe_read (f (fst a)) (g (fst a)) (TIME s - cc_slotTTLSeconds c)
      (\<lambda>n w. Return (acc @ [load_info a n w]))) []) s = (infos, t)" "ready c pfx b t" "same_slots (cc_slotTTLSeconds c) s t"
      using pipes_ready [OF s refl, of xs f g "[]"] by blast
    then show ?thesis using s nf
      by (simp add: GetLoadBatch_def Concurrency.call_def send_def next_fault_def only_value_def)
  qed
  obtain infos t where "exec (GetLoadBatch c accountSlotKey accountWaitKey (map (\<lambda>a. (ac_ID a, EffectiveLoadFactor a)) filtered)) (gw_slots w) =
      (Inr infos, t)" "ready c pfx b t" "same_slots (cc_slotTTLSeconds c) (gw_slots w) t" using run [OF assms(1)] by blast
  then show ?thesis using assms(2) by (simp add: account_loads_def slotted_def GetAccountsLoadBatch_def)
qed

definition listed_count :: "gateway \<Rightarrow> int option \<Rightarrow> nat" where
  "listed_count w g = (case gw_listed w g of Inl _ \<Rightarrow> 0 | Inr accounts \<Rightarrow> length accounts)"

definition selection_of :: "go_error + AccountSelectionResult \<Rightarrow> AccountSelectionResult option" where
  "selection_of r = (case r of Inl _ \<Rightarrow> None | Inr sel \<Rightarrow> Some sel)"

lemma order_length: "length (order_of v loads filtered req u) \<le> length filtered"
proof -
  let ?cs = "scored (sv_weights v) loads (gw_stats u) filtered"
  let ?k = "min (openAIWSLBTopK v) (int (length ?cs))"
  have "length (order_of v loads filtered req u) = length (selectTopKOpenAICandidates ?cs ?k)"
    unfolding order_of_def Let_def using weighted_order_mset by (metis size_mset)
  also have "\<dots> \<le> length ?cs" by (rule topk_length)
  also have "\<dots> = length filtered" using arg_cong [OF scored_accounts, of length] by simp
  finally show ?thesis .
qed

lemma load_ready:
  assumes S: "slotted v c pfx" and "ready c pfx (listed_count w (rq_GroupID req)) (gw_slots w)"
    and run: "exec (selectByLoadBalance v l req) w = ((r, n, k), t)"
  shows "owns (cc_slotTTLSeconds c) (selection_of r) (gw_slots w) (gw_slots t)"
proof (cases rule: load_run [of v l req w])
  case nobody
  then show ?thesis using run by (simp add: owns_def selection_of_def)
next
  case (tries accounts u loads n' k')
  let ?f = "filter (eligible v (group_of v req w) req (gw_now w)) accounts"
  let ?o = "order_of v loads ?f req u"
  define u1 where "u1 = snd (exec (account_loads v ?f) u)"
  have su: "gw_slots u = gw_slots w" using tries(3) by (simp add: marks_def)
  have len: "length ?o \<le> listed_count w (rq_GroupID req)"
    using order.trans [OF order_length length_filter_le, of v loads "eligible v (group_of v req w) req (gw_now w)" accounts req u]
    by (simp only: listed_count_def tries(1) sum.case)
  have "ready c pfx (length ?o + 0) (gw_slots u)" using ready_less [OF assms(2) len] su by simp
  from loads_ready [OF this S, of ?f]
  have u1: "ready c pfx (length ?o + 0) (gw_slots u1)" "same_slots (cc_slotTTLSeconds c) (gw_slots w) (gw_slots u1)"
    by (simp_all add: u1_def su)
  obtain x t1 where tried: "exec (try_candidates v l req ?o) u1 = (x, t1)" by fastforce
  note out = try_ready [OF tried u1(1) S]
  show ?thesis
  proof (cases x)
    case (Some res)
    then have "res = r" "t = t1" using tries(4,5) tried run by (simp_all add: u1_def Let_def)
    then show ?thesis using out Some owns_trans [OF u1(2)] by (auto simp: selection_of_def split: sum.splits)
  next
    case None
    obtain r2 t2 where wait: "exec (wait_candidate v req ?o) t1 = (r2, t2)" by fastforce
    have "t2 = t1" "\<forall>sel. r2 = Some sel \<longrightarrow> sr_Slot sel = None"
      using wait_outcome [OF wait] by (auto simp: waiting_result_def)
    moreover have "t = t2" "selection_of r = r2"
      using tries(4,5) tried wait None run by (auto simp: u1_def Let_def selection_of_def split: option.splits)
    moreover have "same_slots (cc_slotTTLSeconds c) (gw_slots w) (gw_slots t1)" using out None same_trans(1) [OF u1(2)] by simp
    ultimately show ?thesis by (auto simp: owns_def split: option.split)
  qed
qed

text \<open>From the second layer on.\<close>

lemma rest_owns:
  assumes "sv_snapshot v" "keyed (gw_snapshot w)" "keyed (gw_accounts w)" "slotted v c pfx"
    and "ready c pfx (Suc (listed_count w (rq_GroupID req))) (gw_slots w)"
    and "exec (select_rest v l req) w = ((r, d), t)"
  shows "owns (cc_slotTTLSeconds c) (selection_of r) (gw_slots w) (gw_slots t)"
proof -
  obtain s u where s: "exec (selectBySessionHash v l req) w = (s, u)"
    "sticky_outcome v w (rq_RequestedModel req) (rq_ExcludedIDs req) s u"
    using by_session_outcome [of v l req w] by auto
  have sticky: "owns (cc_slotTTLSeconds c) s (gw_slots w) (gw_slots u) \<and> ready c pfx (listed_count w (rq_GroupID req)) (gw_slots u)"
    using sticky_ready [OF assms(1-3) s(2) assms(5,4)] by simp
  show ?thesis
  proof (cases s)
    case (Some sel)
    then show ?thesis using sticky s(1) assms(6) by (auto simp: select_rest_run selection_of_def)
  next
    case None
    obtain r' n k u1 where load: "exec (selectByLoadBalance v l req) u = ((r', n, k), u1)" by (metis prod.exhaust)
    have "listed_count u (rq_GroupID req) = listed_count w (rq_GroupID req)"
      using s(2) by (simp add: sticky_outcome_def same_accounts_def listed_count_def)
    then have "owns (cc_slotTTLSeconds c) (selection_of r') (gw_slots u) (gw_slots u1)"
      using load_ready [OF assms(4) _ load] sticky by simp
    moreover have "same_slots (cc_slotTTLSeconds c) (gw_slots w) (gw_slots u)" using sticky None by (simp add: owns_def)
    ultimately show ?thesis using assms(6) s(1) None load owns_trans by (auto simp: select_rest_run)
  qed
qed

lemma select_cases:
  assumes "exec (scheduler_Select v l req) w = ((r, d), t)"
  obtains (previous) sel u where "TrimSpace (rq_PreviousResponseID req) \<noteq> []"
      "exec (SelectAccountByPreviousResponseID v (rq_GroupID req) (TrimSpace (rq_PreviousResponseID req))
        (rq_RequestedModel req) (rq_ExcludedIDs req)) w = (Some sel, u)"
      "isAccountTransportCompatible v (sr_Account sel) (rq_RequiredTransport req)" "r = Inr sel"
    | (rest) u where "exec (select_rest v l req) (after_previous v req w) = ((r, d), u)" "t = counted d u"
  using assms
proof (cases rule: select_run)
  case (session sel u)
  then show thesis by (intro rest [of u]) (simp_all add: select_rest_run)
next
  case (load u n k u1)
  then show thesis by (intro rest [of u1]) (simp_all add: select_rest_run)
qed (use previous in blast)

end
