(* ===== verification/SchedulerGuarantees.thy ===== *)
theory SchedulerGuarantees
  imports SchedulerProps
begin

text \<open>
  The guarantees of the account scheduler, each with an example, and where it does not keep to its
  intention: a slot that is lost with a previous response, and a plan for an account that is gone.
\<close>

section \<open>An example\<close>

definition demo_service :: service_config where
  "demo_service = \<lparr>sv_snapshot = True, sv_concurrency = Some (demo_cache, ''r1''),
     sv_sticky = \<lparr>sk_cache = True, sk_readOld = False, sk_dualWrite = False, sk_ttlSeconds = 0\<rparr>,
     sv_ws = Some \<lparr>wc_ForceHTTP = False, wc_Enabled = True, wc_OAuthEnabled = True, wc_APIKeyEnabled = True,
       wc_ModeRouterV2Enabled = False, wc_IngressModeDefault = [], wc_ResponsesWebsockets = False, wc_ResponsesWebsocketsV2 = True\<rparr>,
     sv_responseTTLSeconds = 0, sv_LBTopK = 0, sv_weights = default_weights, sv_StickySessionWaitTimeout = 45 * time_Second,
     sv_StickySessionMaxWaiting = 3, sv_FallbackWaitTimeout = 30 * time_Second, sv_FallbackMaxWaiting = 100,
     sv_sha256 = id, sv_range = id\<rparr>"

definition find_account :: "Account list \<Rightarrow> int \<Rightarrow> go_error + Account option" where
  "find_account as i = Inr (find (\<lambda>a. ac_ID a = i) as)"

definition demo_gateway :: "Account list \<Rightarrow> Account list \<Rightarrow> Account list \<Rightarrow> gateway" where
  "demo_gateway listed snap db = \<lparr>gw_now = 0, gw_slots = demo_redis [] [], gw_responses = NewOpenAIWSStateStore 0,
     gw_sessions = \<lparr>sn_now = 0, sn_accounts = [], sn_faults = []\<rparr>, gw_listed = (\<lambda>_. Inr listed),
     gw_snapshot = find_account snap, gw_accounts = find_account db, gw_groups = (\<lambda>_. None), gw_faults = [], gw_stats = [],
     gw_metrics = \<lparr>sm_selectTotal = 0, sm_stickyPreviousHitTotal = 0, sm_stickySessionHitTotal = 0,
       sm_loadBalanceSelectTotal = 0, sm_accountSwitchTotal = 0\<rparr>\<rparr>"

lemma find_keyed [simp]: "keyed (find_account as)"
  by (auto simp: keyed_def find_account_def find_Some_iff)

section \<open>Who is selected\<close>

text \<open>
  (C11) Whoever is selected may serve the request: whichever layer answers, and whatever the snapshot, the
  database, the sticky bindings, the loads and Redis say, the account is active, can be scheduled, is an
  OpenAI account, supports the model, and is none of those that were tried before. If it comes with a
  slot, or from a sticky layer, the database itself says so at that moment. Its transport fits too, except
  for an account of a session, whose transport is not looked at again when the database answers.
\<close>

theorem selected_account_may_serve:
  assumes "sv_snapshot v" "keyed (gw_snapshot w)" "keyed (gw_accounts w)"
    and "exec (SelectAccountWithScheduler v l g pid hash model excluded transport) w = ((Inr sel, d), t)"
  shows "account_usable (gw_now w) model (sr_Account sel) \<and> ac_ID (sr_Account sel) \<notin> set excluded \<and>
    (sr_Slot sel \<noteq> None \<or> sd_Layer d \<noteq> LayerLoadBalance \<longrightarrow>
       gw_accounts t (ac_ID (sr_Account sel)) = Inr (Some (sr_Account sel))) \<and>
    (sd_Layer d \<noteq> LayerSessionSticky \<longrightarrow> isAccountTransportCompatible v (sr_Account sel) transport) \<and>
    sd_SelectedAccountID d = ac_ID (sr_Account sel)"
proof -
  obtain i w1 where entry: "exec (scheduler_Select v l \<lparr>rq_GroupID = g, rq_SessionHash = hash, rq_StickyAccountID = i,
      rq_PreviousResponseID = pid, rq_RequestedModel = model, rq_RequiredTransport = transport, rq_ExcludedIDs = excluded\<rparr>) w1 =
      ((Inr sel, d), t)" (is "exec (scheduler_Select v l ?req) w1 = _") and w1: "same_accounts w w1"
    using scheduler_entry [of v l g pid hash model excluded transport w] assms(4) by metis
  have k1: "keyed (gw_snapshot w1)" "keyed (gw_accounts w1)" "gw_now w1 = gw_now w"
    using w1 assms(2,3) by (simp_all add: same_accounts_def)
  have p: "same_accounts w1 (after_previous v ?req w1)"
    using previous_outcome [of v g "TrimSpace pid" model excluded w1] by (auto simp: after_previous_def sticky_outcome_def)
  then have k2: "keyed (gw_snapshot (after_previous v ?req w1))" "keyed (gw_accounts (after_previous v ?req w1))"
    "gw_now (after_previous v ?req w1) = gw_now w" using k1 by (simp_all add: same_accounts_def)
  from entry show ?thesis
  proof (cases rule: select_run)
    case (previous sel' u)
    have "sticky_outcome v w1 model excluded (Some sel') u"
      using previous_outcome [of v g "TrimSpace pid" model excluded w1] previous(2) by auto
    from sticky_selected [OF assms(1) k1(1,2) this] show ?thesis
      using previous k1(3) by (simp add: decide_account_def same_accounts_def)
  next
    case (session sel' u)
    have "sticky_outcome v (after_previous v ?req w1) model excluded (Some sel') u"
      using by_session_outcome [of v l ?req "after_previous v ?req w1"] session(1) by auto
    from sticky_selected [OF assms(1) k2(1,2) this] show ?thesis
      using session k2(3) by (simp add: decide_account_def)
  next
    case (load u n k u1)
    have "same_accounts (after_previous v ?req w1) u"
      using by_session_outcome [of v l ?req "after_previous v ?req w1"] load(1) by (auto simp: sticky_outcome_def)
    then have k3: "keyed (gw_snapshot u)" "keyed (gw_accounts u)" "gw_now u = gw_now w" using k2 by (simp_all add: same_accounts_def)
    show ?thesis
      using load_selected [OF assms(1) k3(1,2) load(2)] k3(3) load(3,4)
      by (auto simp: decide_account_def no_decision_def LayerLoadBalance_def Let_def)
  qed
qed

section \<open>Which slot is taken\<close>

text \<open>
  (C12) A selection takes the slot that it returns, and no other: when Redis answers and no previous response is
  named, then after a selection with a slot, exactly one live slot has been added, under a new id to the
  account that was selected, and after any other answer (a plan to wait, or an error) all slots are as
  before, whatever was tried on the way.
\<close>

theorem selection_takes_its_slot:
  assumes "sv_snapshot v" "keyed (gw_snapshot w)" "keyed (gw_accounts w)" "slotted v c pfx"
    and "ready c pfx (Suc (listed_count w g)) (gw_slots w)" "TrimSpace pid = []"
    and "exec (SelectAccountWithScheduler v l g pid hash model excluded transport) w = ((r, d), t)"
  shows "owns (cc_slotTTLSeconds c) (selection_of r) (gw_slots w) (gw_slots t)"
proof -
  obtain i w1 where entry: "exec (scheduler_Select v l \<lparr>rq_GroupID = g, rq_SessionHash = hash, rq_StickyAccountID = i,
      rq_PreviousResponseID = pid, rq_RequestedModel = model, rq_RequiredTransport = transport, rq_ExcludedIDs = excluded\<rparr>) w1 =
      ((r, d), t)" (is "exec (scheduler_Select v l ?req) w1 = _") and w1: "same_accounts w w1" "gw_slots w1 = gw_slots w"
    using scheduler_entry [of v l g pid hash model excluded transport w] assms(7) by metis
  have k1: "keyed (gw_snapshot w1)" "keyed (gw_accounts w1)" "listed_count w1 g = listed_count w g"
    using w1 assms(2,3) by (simp_all add: same_accounts_def listed_count_def)
  from entry show ?thesis
  proof (cases rule: select_cases)
    case (rest u)
    then show ?thesis
      using rest_owns [OF assms(1) k1(1,2) assms(4), of ?req l r d u] assms(5,6) k1(3) w1(2) by (simp add: after_previous_def)
  qed (use assms(6) in simp)
qed

lemma owns_grows:
  assumes "owns ttl r s t" "i \<in> live ttl k s"
  shows "i \<in> live ttl k t" "r = Some sel \<Longrightarrow> sr_Slot sel \<noteq> Some (Slot k i)"
  using assms by (auto simp: owns_def same_slots_def holds_slot_def split: option.splits slot.splits)

text \<open>
  (C39) The slot of a previous response can be lost: when the account of the previous response is given a slot,
  and the record of the database, read after the snapshot, no longer has the transport that is asked for,
  the selection goes on to the other layers. The slot stays live, and what is returned does not release
  it: it is lost until its time is up.
\<close>

theorem previous_response_slot_lost:
  assumes "sv_snapshot v" "keyed (gw_snapshot w)" "keyed (gw_accounts w)" "slotted v c pfx"
    and "ready c pfx (2 + listed_count w (rq_GroupID req)) (gw_slots w)" "TrimSpace (rq_PreviousResponseID req) \<noteq> []"
    and "exec (SelectAccountByPreviousResponseID v (rq_GroupID req) (TrimSpace (rq_PreviousResponseID req))
        (rq_RequestedModel req) (rq_ExcludedIDs req)) w = (Some sel0, u)" "sr_Slot sel0 = Some (Slot key i)"
    and "\<not> isAccountTransportCompatible v (sr_Account sel0) (rq_RequiredTransport req)"
    and "exec (scheduler_Select v l req) w = ((r, d), t)"
  shows "i \<in> live (cc_slotTTLSeconds c) key (gw_slots t) \<and> i \<notin> live (cc_slotTTLSeconds c) key (gw_slots w) \<and>
    (\<forall>sel. r = Inr sel \<longrightarrow> sr_Slot sel \<noteq> Some (Slot key i))"
proof -
  have out: "sticky_outcome v w (rq_RequestedModel req) (rq_ExcludedIDs req) (Some sel0) u"
    using previous_outcome [of v "rq_GroupID req" "TrimSpace (rq_PreviousResponseID req)" "rq_RequestedModel req"
      "rq_ExcludedIDs req" w] assms(7) by auto
  then have k: "keyed (gw_snapshot u)" "keyed (gw_accounts u)" "listed_count u (rq_GroupID req) = listed_count w (rq_GroupID req)"
    using assms(2,3) by (simp_all add: sticky_outcome_def same_accounts_def listed_count_def)
  have own: "owns (cc_slotTTLSeconds c) (Some sel0) (gw_slots w) (gw_slots u)"
    and rdy: "ready c pfx (Suc (listed_count w (rq_GroupID req))) (gw_slots u)"
    using sticky_ready [OF assms(1-3) out _ assms(4), of "Suc (listed_count w (rq_GroupID req))"] assms(5) by simp_all
  have live: "i \<in> live (cc_slotTTLSeconds c) key (gw_slots u)" "i \<notin> live (cc_slotTTLSeconds c) key (gw_slots w)"
    using own assms(8) by (auto simp: owns_def holds_slot_def)
  have ap: "after_previous v req w = u" using assms(6,7) by (simp add: after_previous_def)
  from assms(10) show ?thesis
  proof (cases rule: select_cases)
    case (previous sel u')
    then show ?thesis using assms(7,9) by simp
  next
    case (rest u2)
    have o: "owns (cc_slotTTLSeconds c) (selection_of r) (gw_slots u) (gw_slots u2)"
      using rest_owns [OF assms(1) k(1,2) assms(4) _ rest(1) [unfolded ap]] rdy k(3) by simp
    show ?thesis
      using owns_grows(1) [OF o live(1)] owns_grows(2) [OF o live(1)] live(2) rest(2) by (auto simp: selection_of_def)
  qed
qed

section \<open>Whether somebody is selected\<close>

text \<open>One of the best candidates is there and has room: it is taken.\<close>

definition has_room :: "concurrencyCache \<Rightarrow> cworld \<Rightarrow> Account \<Rightarrow> bool" where
  "has_room c s a \<longleftrightarrow> ac_Concurrency a \<le> 0 \<or>
     int (card (live (cc_slotTTLSeconds c) (accountSlotKey (ac_ID a)) s)) < ac_Concurrency a"

lemma try_room:
  assumes "tried v w req (cs_account cand) b" "has_room c (gw_slots w) b" "slotted v c pfx" "ready c pfx (Suc n) (gw_slots w)"
  obtains b' sl t where "exec (try_candidates v l req (cand # cands)) w = (Some (Inr (acquired_result b' sl)), t)"
proof (cases rule: try_cases [of v w req cand l cands])
  case pass
  then show thesis using assms(1) by blast
next
  case (ask b' u)
  have "b' = b" using ask(1) assms(1) by (auto simp: tried_def)
  obtain res s where "slot_run v (ac_ID b) (ac_Concurrency b) (gw_slots w) = (Inr res, s)"
    "case res of None \<Rightarrow> same_slots (cc_slotTTLSeconds c) (gw_slots w) s \<and> 0 < ac_Concurrency b \<and>
        ac_Concurrency b \<le> int (card (live (cc_slotTTLSeconds c) (accountSlotKey (ac_ID b)) (gw_slots w)))
      | Some sl \<Rightarrow> holds_slot (cc_slotTTLSeconds c) (accountSlotKey (ac_ID b)) sl (gw_slots w) s"
    using slot_run_ready [OF assms(4,3)] by metis
  then show thesis using ask(3) that assms(2) by (auto simp: \<open>b' = b\<close> has_room_def split: option.splits)
qed

text \<open>
  The list of the group, with the snapshot at one with it: what every eligible account of the list needs
  so that it is found again when it is tried.
\<close>

definition listing :: "service_config \<Rightarrow> OpenAIAccountScheduleRequest \<Rightarrow> gateway \<Rightarrow> Account list \<Rightarrow> bool" where
  "listing v req w accounts \<longleftrightarrow> gw_listed w (rq_GroupID req) = Inr accounts \<and> distinct (map ac_ID accounts) \<and>
     (\<forall>a \<in> set accounts. eligible v (group_of v req w) req (gw_now w) a \<longrightarrow> gw_snapshot w (ac_ID a) = Inr (Some a))"

lemma unmarked:
  assumes "distinct (map ac_ID accounts)" "a \<in> set accounts" "privacy_ok g a" "marks (not_private g accounts) w u"
  shows "gw_snapshot u (ac_ID a) = gw_snapshot w (ac_ID a)" "gw_accounts u (ac_ID a) = gw_accounts w (ac_ID a)"
proof -
  have "ac_ID a \<notin> not_private g accounts"
    using assms(1-3) by (auto simp: not_private_def distinct_map dest: inj_onD)
  then show "gw_snapshot u (ac_ID a) = gw_snapshot w (ac_ID a)" "gw_accounts u (ac_ID a) = gw_accounts w (ac_ID a)"
    using assms(4) by (simp_all add: marks_def)
qed

text \<open>The state in which the candidates of a listing are tried, and what becomes of them.\<close>

lemma listing_run:
  assumes v: "sv_snapshot v" "slotted v c pfx" and "ready c pfx (listed_count w (rq_GroupID req)) (gw_slots w)"
    and l: "listing v req w accounts" "a0 \<in> set accounts" "eligible v (group_of v req w) req (gw_now w) a0"
    and run: "exec (selectByLoadBalance v l req) w = ((r, n, k), t)"
  obtains u1 cand cands where
      "same_slots (cc_slotTTLSeconds c) (gw_slots w) (gw_slots u1)" "gw_now u1 = gw_now w"
      "ready c pfx (length (cand # cands)) (gw_slots u1)"
      "\<And>x. x \<in> set (cand # cands) \<Longrightarrow> cs_account x \<in> set accounts \<and>
         eligible v (group_of v req w) req (gw_now w) (cs_account x) \<and>
         fresh_of v u1 (rq_RequestedModel req) (cs_account x) = Some (cs_account x) \<and>
         gw_accounts u1 (ac_ID (cs_account x)) = gw_accounts w (ac_ID (cs_account x))"
      "(\<exists>res. exec (try_candidates v l req (cand # cands)) u1 = (Some res, t) \<and> r = res) \<or>
       (\<exists>sel x. exec (try_candidates v l req (cand # cands)) u1 = (None, t) \<and> x \<in> set (cand # cands) \<and>
          r = Inr sel \<and> sel = waiting_result (cs_account x) (ac_ID (cs_account x)) (sv_FallbackWaitTimeout v) (sv_FallbackMaxWaiting v))"
proof (cases rule: load_run [of v l req w])
  case nobody
  then have "filter (eligible v (group_of v req w) req (gw_now w)) accounts = []" using l(1) by (simp add: listing_def)
  then show thesis using l(2,3) by (auto simp: filter_empty_conv)
next
  case (tries accounts' u loads n' k')
  have acc: "accounts' = accounts" using tries(1) l(1) by (simp add: listing_def)
  let ?f = "filter (eligible v (group_of v req w) req (gw_now w)) accounts"
  let ?o = "order_of v loads ?f req u"
  define u1 where "u1 = snd (exec (account_loads v ?f) u)"
  obtain cand cands where o: "?o = cand # cands" using order_accounts(2) tries(2) acc by (metis list.exhaust)
  have same: "same_accounts u u1" using loads_run [of v ?f u] by (metis u1_def same_accounts_simps(1,2) snd_conv)
  have now: "gw_now u1 = gw_now w" using same tries(3) by (simp add: same_accounts_def marks_def)
  have len: "length ?o \<le> listed_count w (rq_GroupID req)"
    using order.trans [OF order_length length_filter_le, of v loads "eligible v (group_of v req w) req (gw_now w)" accounts req u]
    by (simp only: listed_count_def tries(1) acc sum.case)
  have su: "gw_slots u = gw_slots w" using tries(3) by (simp add: marks_def)
  have "ready c pfx (length ?o) (gw_slots u)" using ready_less [OF assms(3) len] su by simp
  note rdy = loads_ready [OF this v(2), of ?f, folded u1_def, unfolded su]
  have mem: "cs_account x \<in> set accounts \<and> eligible v (group_of v req w) req (gw_now w) (cs_account x) \<and>
      fresh_of v u1 (rq_RequestedModel req) (cs_account x) = Some (cs_account x) \<and>
      gw_accounts u1 (ac_ID (cs_account x)) = gw_accounts w (ac_ID (cs_account x))" if "x \<in> set ?o" for x
  proof -
    have x: "cs_account x \<in> set accounts" "eligible v (group_of v req w) req (gw_now w) (cs_account x)"
      using order_accounts(1) [of v loads ?f req u] that by auto
    then have p: "privacy_ok (group_of v req w) (cs_account x)" "account_usable (gw_now w) (rq_RequestedModel req) (cs_account x)"
      by (simp_all add: eligible_def)
    have d: "distinct (map ac_ID accounts)" using l(1) by (simp add: listing_def)
    note un = unmarked [OF d x(1) p(1) tries(3) [unfolded acc]]
    have "gw_snapshot u1 (ac_ID (cs_account x)) = Inr (Some (cs_account x))"
      using un(1) same l(1) x by (simp add: listing_def same_accounts_def)
    then show ?thesis
      using x un(2) same p(2) v(1) now by (simp add: fresh_of_def snapshot_of_def usable_of_Some same_accounts_def)
  qed
  obtain y t1 where y: "exec (try_candidates v l req ?o) u1 = (y, t1)" by fastforce
  note out = try_outcome [OF y]
  have fin: "(\<exists>res. exec (try_candidates v l req ?o) u1 = (Some res, t) \<and> r = res) \<or>
      (\<exists>sel x. exec (try_candidates v l req ?o) u1 = (None, t) \<and> x \<in> set ?o \<and> r = Inr sel \<and>
         sel = waiting_result (cs_account x) (ac_ID (cs_account x)) (sv_FallbackWaitTimeout v) (sv_FallbackMaxWaiting v))"
  proof (cases y)
    case (Some res)
    then show ?thesis using tries(4,5) y run by (simp add: acc u1_def [symmetric] Let_def)
  next
    case None
    obtain z t2 where z: "exec (wait_candidate v req ?o) t1 = (z, t2)" by fastforce
    have fresh: "fresh_of v t1 (rq_RequestedModel req) (cs_account x) = Some (cs_account x)" if "x \<in> set ?o" for x
      using mem [OF that] same_accounts_reads(2) [OF out [THEN conjunct1]] by simp
    have comp: "isAccountTransportCompatible v (cs_account x) (rq_RequiredTransport req)" if "x \<in> set ?o" for x
      using mem [OF that] by (simp add: eligible_def)
    have c0: "cand \<in> set ?o" by (simp add: o)
    note w = wait_outcome [OF z]
    have "z \<noteq> None"
    proof
      assume "z = None"
      then show False using w fresh [OF c0] comp [OF c0] c0 by simp
    qed
    then obtain sel x where "z = Some sel" "x \<in> set ?o" "sel = waiting_result (cs_account x) (ac_ID (cs_account x))
        (sv_FallbackWaitTimeout v) (sv_FallbackMaxWaiting v)" "t2 = t1"
      using w fresh by auto
    then show ?thesis using tries(4,5) y z None run by (auto simp: acc u1_def [symmetric] Let_def)
  qed
  show thesis
    by (rule that [of u1 cand cands]) (use rdy now mem fin o in auto)
qed

text \<open>With the layers before it: a request that names no previous response.\<close>

lemma select_no_previous:
  assumes "exec (SelectAccountWithScheduler v l g pid hash model excluded transport) w = ((r, d), t)" "TrimSpace pid = []"
  obtains i w1 u where "same_accounts w w1" "gw_slots w1 = gw_slots w"
    "exec (select_rest v l \<lparr>rq_GroupID = g, rq_SessionHash = hash, rq_StickyAccountID = i, rq_PreviousResponseID = pid,
        rq_RequestedModel = model, rq_RequiredTransport = transport, rq_ExcludedIDs = excluded\<rparr>) w1 = ((r, d), u)"
    "t = counted d u"
    "gw_sessions w1 = (if hash \<noteq> [] \<and> sk_cache (sv_sticky v)
       then snd (getStickySessionAccountID (sv_sticky v) l g hash (gw_sessions w)) else gw_sessions w)"
    "i = (if hash \<noteq> [] \<and> sk_cache (sv_sticky v)
       then (case fst (getStickySessionAccountID (sv_sticky v) l g hash (gw_sessions w)) of
         Inl _ \<Rightarrow> 0 | Inr a \<Rightarrow> if a > 0 then a else 0) else 0)"
proof (rule scheduler_entry [of v l g pid hash model excluded transport w])
  fix i w1
  assume e: "exec (SelectAccountWithScheduler v l g pid hash model excluded transport) w =
      exec (scheduler_Select v l \<lparr>rq_GroupID = g, rq_SessionHash = hash, rq_StickyAccountID = i, rq_PreviousResponseID = pid,
        rq_RequestedModel = model, rq_RequiredTransport = transport, rq_ExcludedIDs = excluded\<rparr>) w1"
    "same_accounts w w1" "gw_slots w1 = gw_slots w"
    "gw_sessions w1 = (if hash \<noteq> [] \<and> sk_cache (sv_sticky v)
       then snd (getStickySessionAccountID (sv_sticky v) l g hash (gw_sessions w)) else gw_sessions w)"
    "i = (if hash \<noteq> [] \<and> sk_cache (sv_sticky v)
       then (case fst (getStickySessionAccountID (sv_sticky v) l g hash (gw_sessions w)) of
         Inl _ \<Rightarrow> 0 | Inr a \<Rightarrow> if a > 0 then a else 0) else 0)"
  from assms(1) [unfolded e(1)] show thesis
  proof (cases rule: select_cases)
    case (rest u)
    show thesis
      by (rule that [OF e(2,3) _ rest(2) e(4,5)]) (use rest(1) assms(2) in \<open>simp add: after_previous_def\<close>)
  qed (use assms(2) in simp)
qed

lemma listing_cong:
  "same_accounts w t \<Longrightarrow> listing v req t accounts = listing v req w accounts"
  "same_accounts w t \<Longrightarrow> group_of v req t = group_of v req w"
  by (simp_all add: listing_def same_accounts_def group_of_def split: option.split)

definition request :: "int option \<Rightarrow> string \<Rightarrow> string \<Rightarrow> int list \<Rightarrow> OpenAIAccountScheduleRequest" where
  "request g model transport excluded = \<lparr>rq_GroupID = g, rq_SessionHash = [], rq_StickyAccountID = 0,
     rq_PreviousResponseID = [], rq_RequestedModel = model, rq_RequiredTransport = transport, rq_ExcludedIDs = excluded\<rparr>"

lemma request_cong:
  "listing v \<lparr>rq_GroupID = g, rq_SessionHash = h, rq_StickyAccountID = i, rq_PreviousResponseID = p, rq_RequestedModel = m,
     rq_RequiredTransport = tr, rq_ExcludedIDs = ex\<rparr> w accounts = listing v (request g m tr ex) w accounts"
  "eligible v q \<lparr>rq_GroupID = g, rq_SessionHash = h, rq_StickyAccountID = i, rq_PreviousResponseID = p, rq_RequestedModel = m,
     rq_RequiredTransport = tr, rq_ExcludedIDs = ex\<rparr> now a = eligible v q (request g m tr ex) now a"
  "group_of v \<lparr>rq_GroupID = g, rq_SessionHash = h, rq_StickyAccountID = i, rq_PreviousResponseID = p, rq_RequestedModel = m,
     rq_RequiredTransport = tr, rq_ExcludedIDs = ex\<rparr> w = group_of v (request g m tr ex) w"
  by (simp_all add: listing_def eligible_def group_of_def request_def)

text \<open>Such a request is answered by its session, or by the layer of loads in a state with the same listing and slots.\<close>

lemma listed_request:
  assumes v: "sv_snapshot v" "slotted v c pfx" "keyed (gw_snapshot w)" "keyed (gw_accounts w)"
    and "ready c pfx (Suc (listed_count w g)) (gw_slots w)"
    and l: "listing v (request g model transport excluded) w accounts" "a0 \<in> set accounts"
      "eligible v (group_of v (request g model transport excluded) w) (request g model transport excluded) (gw_now w) a0"
    and run: "TrimSpace pid = []" "exec (SelectAccountWithScheduler v leg g pid hash model excluded transport) w = ((r, d), t)"
  obtains (sticky) sel i b where "TrimSpace hash \<noteq> []" "r = Inr sel" "gw_accounts w i = Inr (Some b)" "ac_ID b = i"
      "sticky_answer v i b (gw_slots w) = Some sel"
    | (load) req u1 u3 cand cands where "rq_RequestedModel req = model" "rq_RequiredTransport req = transport"
      "same_slots (cc_slotTTLSeconds c) (gw_slots w) (gw_slots u1)" "gw_now u1 = gw_now w" "gw_accounts t = gw_accounts u3"
      "ready c pfx (length (cand # cands)) (gw_slots u1)"
      "\<And>x. x \<in> set (cand # cands) \<Longrightarrow> cs_account x \<in> set accounts \<and>
         eligible v (group_of v (request g model transport excluded) w) (request g model transport excluded) (gw_now w) (cs_account x) \<and>
         fresh_of v u1 model (cs_account x) = Some (cs_account x) \<and>
         gw_accounts u1 (ac_ID (cs_account x)) = gw_accounts w (ac_ID (cs_account x))"
      "(\<exists>res. exec (try_candidates v leg req (cand # cands)) u1 = (Some res, u3) \<and> r = res) \<or>
       (\<exists>sel x. exec (try_candidates v leg req (cand # cands)) u1 = (None, u3) \<and> x \<in> set (cand # cands) \<and>
          r = Inr sel \<and> sel = waiting_result (cs_account x) (ac_ID (cs_account x)) (sv_FallbackWaitTimeout v) (sv_FallbackMaxWaiting v))"
proof -
  obtain i w1 u where w1: "same_accounts w w1" "gw_slots w1 = gw_slots w" and
    run1: "exec (select_rest v leg \<lparr>rq_GroupID = g, rq_SessionHash = hash, rq_StickyAccountID = i, rq_PreviousResponseID = pid,
        rq_RequestedModel = model, rq_RequiredTransport = transport, rq_ExcludedIDs = excluded\<rparr>) w1 = ((r, d), u)"
      (is "exec (select_rest v leg ?req) w1 = _") and t: "t = counted d u"
    by (rule select_no_previous [OF run(2,1)])
  obtain s u2 where s: "exec (selectBySessionHash v leg ?req) w1 = (s, u2)" "sticky_outcome v w1 model excluded s u2"
    using by_session_outcome [of v leg ?req w1] by auto
  show thesis
  proof (cases s)
    case (Some sel)
    have hash: "TrimSpace hash \<noteq> []" using s(1) Some by (auto simp: selectBySessionHash_def Let_def split: if_splits)
    obtain i b where b: "confirmed v w1 model i b" "Some sel = sticky_answer v i b (gw_slots w1)"
      using s(2) Some by (auto simp: sticky_outcome_def)
    have k: "keyed (gw_snapshot w1)" "keyed (gw_accounts w1)" "gw_accounts w1 = gw_accounts w"
      using w1(1) v(3,4) by (simp_all add: same_accounts_def)
    have res: "r = Inr sel" using run1 s(1) Some by (auto simp: select_rest_run)
    note c = confirmed_keyed(1,2) [OF v(1) k(1,2) b(1)]
    show thesis
      by (rule sticky [OF hash res _ c(1)]) (use b(2) w1(2) k(3) c in simp_all)
  next
    case None
    obtain r' n k u3 where ld: "exec (selectByLoadBalance v leg ?req) u2 = ((r', n, k), u3)" by (metis prod.exhaust)
    have r': "r' = r" "u3 = u" using run1 s(1) None ld by (auto simp: select_rest_run)
    have k1: "keyed (gw_snapshot w1)" "keyed (gw_accounts w1)" using w1 v(3,4) by (simp_all add: same_accounts_def)
    have u2: "same_accounts w u2" using same_accounts_trans [OF w1(1)] s(2) by (simp add: sticky_outcome_def)
    have "ready c pfx (Suc (listed_count w g)) (gw_slots w1)" using assms(5) w1(2) by simp
    from sticky_ready [OF v(1) k1 s(2) this v(2)]
    have slots: "same_slots (cc_slotTTLSeconds c) (gw_slots w) (gw_slots u2)" "ready c pfx (listed_count u2 g) (gw_slots u2)"
      using None w1(2) u2 by (simp_all add: owns_def listed_count_def same_accounts_def)
    have l2: "listing v ?req u2 accounts" "eligible v (group_of v ?req u2) ?req (gw_now u2) a0"
      using l(1,3) u2 listing_cong [OF u2] by (simp_all add: request_cong same_accounts_def)
    have el: "eligible v (group_of v ?req u2) ?req (gw_now u2) a \<longleftrightarrow>
        eligible v (group_of v (request g model transport excluded) w) (request g model transport excluded) (gw_now w) a" for a
      using u2 listing_cong(2) [OF u2] by (simp add: request_cong same_accounts_def)
    have rd: "ready c pfx (listed_count u2 (rq_GroupID ?req)) (gw_slots u2)" using slots(2) by simp
    show thesis
      by (rule listing_run [OF v(1,2) rd l2(1) l(2) l2(2) ld], rule load [of ?req _ u3])
        (use slots(1) same_trans(1) el u2 t r' in \<open>auto simp: same_accounts_def\<close>)
  qed
qed

lemma try_confirmed:
  assumes "eligible v q (request g model transport excluded) now a" "fresh_of v u model a = Some a" "gw_now u = now"
    and "gw_accounts u (ac_ID a) = Inr (Some a)" "sv_snapshot v" "rq_RequestedModel req = model" "rq_RequiredTransport req = transport"
  shows "tried v u req a a"
  using assms by (simp add: tried_def eligible_def request_def latest_of_def usable_of_Some)

lemma sticky_room:
  assumes "slotted v c pfx" "ready c pfx (Suc n) s" "has_room c s b" "sticky_answer v i b s = Some sel" "ac_ID b = i"
  shows "sr_Slot sel \<noteq> None"
proof -
  obtain res t where "slot_run v (ac_ID b) (ac_Concurrency b) s = (Inr res, t)"
    "case res of None \<Rightarrow> same_slots (cc_slotTTLSeconds c) s t \<and> 0 < ac_Concurrency b \<and>
        ac_Concurrency b \<le> int (card (live (cc_slotTTLSeconds c) (accountSlotKey (ac_ID b)) s))
      | Some sl \<Rightarrow> holds_slot (cc_slotTTLSeconds c) (accountSlotKey (ac_ID b)) sl s t"
    using slot_run_ready [OF assms(2,1)] by metis
  then show ?thesis using assms(3,4)
    by (cases res) (auto simp: sticky_answer_def acquired_result_def has_room_def assms(5) [symmetric])
qed

lemma request_served:
  assumes v: "sv_snapshot v" "slotted v c pfx" "keyed (gw_snapshot w)" "keyed (gw_accounts w)"
    and "ready c pfx (Suc (listed_count w g)) (gw_slots w)"
    and l: "listing v (request g model transport excluded) w accounts" "a0 \<in> set accounts"
      "eligible v (group_of v (request g model transport excluded) w) (request g model transport excluded) (gw_now w) a0"
    and run: "TrimSpace pid = []" "exec (SelectAccountWithScheduler v leg g pid hash model excluded transport) w = ((r, d), t)"
  shows "\<exists>sel. r = Inr sel \<and>
    ((\<forall>a \<in> set accounts. eligible v (group_of v (request g model transport excluded) w)
        (request g model transport excluded) (gw_now w) a \<longrightarrow>
        gw_accounts w (ac_ID a) = Inr (Some a) \<and> has_room c (gw_slots w) a) \<and>
      (TrimSpace hash \<noteq> [] \<longrightarrow> (\<forall>i b. gw_accounts w i = Inr (Some b) \<longrightarrow> has_room c (gw_slots w) b)) \<longrightarrow>
      sr_Slot sel \<noteq> None)"
  using v assms(5) l run
proof (cases rule: listed_request)
  case (sticky sel i b)
  have "sr_Slot sel \<noteq> None" if "has_room c (gw_slots w) b"
    by (rule sticky_room [OF v(2) assms(5) that sticky(5,4)])
  then show ?thesis using sticky(1-3) by blast
next
  case (load req u1 u3 cand cands)
  let ?a = "cs_account cand"
  have out: "\<exists>sel. r = Inr sel"
    using load(6,8) try_ready [OF _ _ v(2), of leg req "cand # cands" u1 _ u3 0] by (fastforce split: sum.splits)
  have "sr_Slot sel \<noteq> None" if sel: "r = Inr sel" and
    all: "gw_accounts w (ac_ID ?a) = Inr (Some ?a) \<and> has_room c (gw_slots w) ?a" for sel
  proof -
    note m = load(7) [of cand, simplified]
    have a: "tried v u1 req ?a ?a"
      by (rule try_confirmed [OF m [THEN conjunct2, THEN conjunct1] _ load(4) _ v(1) load(1,2)]) (use m all in simp_all)
    have room: "has_room c (gw_slots u1) ?a" using all load(3) by (simp add: has_room_def same_slots_def)
    have "ready c pfx (Suc (length cands)) (gw_slots u1)" using load(6) by simp
    from try_room [OF a room v(2) this, of leg cands] obtain b sl t1 where
      "exec (try_candidates v leg req (cand # cands)) u1 = (Some (Inr (acquired_result b sl)), t1)" by blast
    then show ?thesis using load(8) sel by (auto simp: acquired_result_def)
  qed
  moreover have "?a \<in> set accounts" "eligible v (group_of v (request g model transport excluded) w)
      (request g model transport excluded) (gw_now w) ?a" using load(7) [of cand] by simp_all
  ultimately show ?thesis using out by blast
qed

text \<open>
  (C24) A request that names no previous response finds an account: when the list of its group has an eligible
  account, the snapshot is at one with the list, and Redis answers, then an account is selected. If every
  eligible account is confirmed by the database and has room, and for a request with a session every account
  has room, as any may be the one the session is bound to, it comes with a slot at once, and the request does
  not have to wait. (One that names a previous response may be told to wait for the account that answered it.)
\<close>

theorem eligible_request_is_served:
  assumes v: "sv_snapshot v" "slotted v c pfx" "keyed (gw_snapshot w)" "keyed (gw_accounts w)"
    and "ready c pfx (Suc (listed_count w g)) (gw_slots w)"
    and l: "listing v (request g model transport excluded) w accounts" "a0 \<in> set accounts"
      "eligible v (group_of v (request g model transport excluded) w) (request g model transport excluded) (gw_now w) a0"
    and run: "TrimSpace pid = []" "exec (SelectAccountWithScheduler v leg g pid hash model excluded transport) w = ((r, d), t)"
  shows "\<exists>sel. r = Inr sel \<and>
    ((\<forall>a \<in> set accounts. eligible v (group_of v (request g model transport excluded) w)
        (request g model transport excluded) (gw_now w) a \<longrightarrow>
        gw_accounts w (ac_ID a) = Inr (Some a) \<and> has_room c (gw_slots w) a) \<and>
      (TrimSpace hash \<noteq> [] \<longrightarrow> (\<forall>i b. gw_accounts w i = Inr (Some b) \<longrightarrow> has_room c (gw_slots w) b)) \<longrightarrow>
      sr_Slot sel \<noteq> None)"
  using v assms(5) l run by (rule request_served)

text \<open>
  (C40) A plan can send the request to an account that is gone: when the snapshot still has every eligible
  account but the database refuses them all, the first loop, which asks the database, takes none, and the
  second, which does not, tells the request to wait for one of them.
\<close>

theorem plan_for_refused_account:
  assumes v: "sv_snapshot v" "slotted v c pfx" "keyed (gw_snapshot w)" "keyed (gw_accounts w)"
    and "ready c pfx (Suc (listed_count w g)) (gw_slots w)"
    and l: "listing v (request g model transport excluded) w accounts" "a0 \<in> set accounts"
      "eligible v (group_of v (request g model transport excluded) w) (request g model transport excluded) (gw_now w) a0"
    and run: "TrimSpace pid = []" "exec (SelectAccountWithScheduler v leg g pid hash model excluded transport) w = ((r, d), t)"
    and "TrimSpace hash = []"
    and refused: "\<And>a. a \<in> set accounts \<Longrightarrow> usable_of w model (found (gw_accounts w (ac_ID a))) = None"
  shows "\<exists>sel. r = Inr sel \<and> sr_Slot sel = None \<and> sr_WaitPlan sel \<noteq> None \<and>
    usable_of w model (found (gw_accounts t (ac_ID (sr_Account sel)))) = None"
  using v assms(5) l run
proof (cases rule: listed_request)
  case (load req u1 u3 cand cands)
  have now: "usable_of u1 model q = usable_of w model q" for q by (simp add: usable_of_def load(4) split: option.split)
  have "\<not> tried v u1 req (cs_account x) b" if "x \<in> set (cand # cands)" for x b
    using load(7) [OF that] refused [of "cs_account x"] v(1) load(1)
    by (auto simp: tried_def latest_of_def now)
  then have none: "fst (exec (try_candidates v leg req (cand # cands)) u1) = None"
    using try_ready [OF _ _ v(2), of leg req "cand # cands" u1 _ _ 0] load(6)
      try_outcome [of v leg req "cand # cands" u1]
    by (cases "exec (try_candidates v leg req (cand # cands)) u1") (fastforce split: option.splits sum.splits)
  then obtain sel x where x: "exec (try_candidates v leg req (cand # cands)) u1 = (None, u3)" "x \<in> set (cand # cands)" "r = Inr sel"
    "sel = waiting_result (cs_account x) (ac_ID (cs_account x)) (sv_FallbackWaitTimeout v) (sv_FallbackMaxWaiting v)"
    using load(8) by fastforce
  have "gw_accounts t = gw_accounts u1" using try_outcome [OF x(1)] load(5) by (simp add: same_accounts_def)
  then show ?thesis
    using x load(7) [OF x(2)] refused [of "cs_account x"] by (simp add: waiting_result_def)
qed (use assms(11) in simp)

section \<open>Examples\<close>

definition account_one :: Account where
  "account_one = demo_account 1 1 True StatusActive"

lemma demo_slotted: "slotted demo_service demo_cache ''r1''"
  using demo_ttl(1) by (simp add: slotted_def demo_service_def)

lemma demo_ready_state: "ready demo_cache ''r1'' n (gw_slots (demo_gateway ls ss ds)) \<longleftrightarrow> ready demo_cache ''r1'' n (demo_redis [] [])"
  by (simp add: demo_gateway_def)

lemma demo_usable: "account_usable 0 [] (demo_account i n ws StatusActive)"
  by (simp add: account_usable_def IsSchedulable_def account_IsActive_def IsOpenAI_def before_opt_def demo_account_def)

lemma demo_transport: "isAccountTransportCompatible v a OpenAIUpstreamTransportAny"
  by (simp add: isAccountTransportCompatible_def)

lemma demo_keyed: "sv_snapshot demo_service" "keyed (gw_snapshot (demo_gateway ls ss ds))" "keyed (gw_accounts (demo_gateway ls ss ds))"
  by (simp_all add: demo_gateway_def demo_service_def)

lemma demo_eligible: "eligible v None (request g [] OpenAIUpstreamTransportAny []) 0 (demo_account i n ws StatusActive)"
  by (simp add: eligible_def request_def demo_usable demo_transport privacy_ok_def)

lemma demo_listing:
  "listing demo_service (request None [] OpenAIUpstreamTransportAny []) (demo_gateway [account_one] [account_one] ds) [account_one]"
  by (simp add: listing_def request_def demo_gateway_def find_account_def)

lemma demo_group: "group_of demo_service (request None m tr ex) w = None"
  by (simp add: group_of_def request_def)

lemma demo_now: "gw_now (demo_gateway ls ss ds) = 0" "listed_count (demo_gateway ls ss ds) g = length ls"
  "gw_slots (demo_gateway ls ss ds) = demo_redis [] []"
  by (simp_all add: demo_gateway_def listed_count_def)

lemma demo_room: "has_room c (demo_redis [] []) account_one"
  by (simp add: has_room_def demo_live account_one_def demo_account_def)

lemma demo_selected:
  "\<exists>sel d t. exec (SelectAccountWithScheduler demo_service [] None [] hash [] [] OpenAIUpstreamTransportAny)
      (demo_gateway [account_one] [account_one] [account_one]) = ((Inr sel, d), t) \<and> sr_Slot sel \<noteq> None"
proof -
  obtain r d t where run: "exec (SelectAccountWithScheduler demo_service [] None [] hash [] [] OpenAIUpstreamTransportAny)
      (demo_gateway [account_one] [account_one] [account_one]) = ((r, d), t)" by (metis prod.exhaust)
  have acc: "gw_accounts (demo_gateway ls ss [account_one]) i = Inr (Some b) \<longleftrightarrow> i = 1 \<and> b = account_one" for ls ss i b
    by (auto simp: demo_gateway_def find_account_def account_one_def demo_account_def)
  have "ready demo_cache ''r1'' (Suc (Suc 0)) (demo_redis [] [])" by (rule demo_ready) simp
  then have rdy: "ready demo_cache ''r1'' (Suc (listed_count (demo_gateway [account_one] [account_one] [account_one]) None))
      (gw_slots (demo_gateway [account_one] [account_one] [account_one]))" by (simp add: demo_now)
  have el: "account_one \<in> set [account_one]" "eligible demo_service (group_of demo_service
      (request None [] OpenAIUpstreamTransportAny []) (demo_gateway [account_one] [account_one] [account_one]))
      (request None [] OpenAIUpstreamTransportAny []) (gw_now (demo_gateway [account_one] [account_one] [account_one])) account_one"
    by (simp_all add: demo_group demo_now demo_eligible account_one_def)
  have one: "ac_ID account_one = 1" by (simp add: account_one_def demo_account_def)
  from request_served [OF demo_keyed(1) demo_slotted demo_keyed(2,3) rdy demo_listing el _ run]
  show ?thesis using run by (simp add: demo_now acc demo_room one)
qed

lemma demo_selected_one:
  assumes run: "exec (SelectAccountWithScheduler demo_service [] None [] hash [] [] OpenAIUpstreamTransportAny)
      (demo_gateway [account_one] [account_one] [account_one]) = ((Inr sel, d), t)"
  shows "sr_Account sel = account_one"
proof -
  let ?w = "demo_gateway [account_one] [account_one] [account_one]"
  have one: "ac_ID account_one = 1" by (simp add: account_one_def demo_account_def)
  have acc: "gw_accounts ?w i = Inr (Some b) \<longleftrightarrow> i = 1 \<and> b = account_one" for i b
    by (auto simp: demo_gateway_def find_account_def one)
  have rdy: "ready demo_cache ''r1'' (Suc (listed_count ?w None)) (gw_slots ?w)"
    using demo_ready [of "Suc (Suc 0)" "''r1''" "[]"] by (simp add: demo_now)
  have el: "account_one \<in> set [account_one]" "eligible demo_service (group_of demo_service
      (request None [] OpenAIUpstreamTransportAny []) ?w) (request None [] OpenAIUpstreamTransportAny []) (gw_now ?w) account_one"
    by (simp_all add: demo_group demo_now demo_eligible account_one_def)
  show ?thesis
    using demo_keyed(1) demo_slotted demo_keyed(2,3) rdy demo_listing el TrimSpace_Nil run
  proof (cases rule: listed_request)
    case (sticky sel' i b)
    then show ?thesis using acc sticky_answer_account by fastforce
  next
    case (load req u1 u3 cand cands)
    have mem: "cs_account x = account_one" "fresh_of demo_service u1 [] account_one = Some account_one"
      "gw_accounts u1 1 = Inr (Some account_one)" if "x \<in> set (cand # cands)" for x
      using load(7) [OF that] acc one by auto
    from load(8) show ?thesis
    proof (elim disjE exE conjE)
      fix res
      assume tried: "exec (try_candidates demo_service [] req (cand # cands)) u1 = (Some res, u3)" "Inr sel = res"
      then obtain x b sl where x: "x \<in> set (cand # cands)" "tried demo_service u1 req (cs_account x) b" "sel = acquired_result b sl"
        using try_outcome [OF tried(1)] by (auto split: sum.splits)
      then have "latest_of demo_service u1 [] account_one = Some b" using mem [OF x(1)] load(1) by (simp add: tried_def)
      then have "b = account_one" using mem(3) [OF x(1)] one demo_keyed(1) by (simp add: latest_of_def usable_of_Some)
      then show ?thesis using x(3) by (simp add: acquired_result_def)
    next
      fix sel' x
      assume x: "x \<in> set (cand # cands)" "Inr sel = (Inr sel' :: go_error + AccountSelectionResult)"
        "sel' = waiting_result (cs_account x) (ac_ID (cs_account x)) (sv_FallbackWaitTimeout demo_service) (sv_FallbackMaxWaiting demo_service)"
      have "sel = sel'" using x(2) by (rule Inr_inject)
      then show ?thesis unfolding x(3) waiting_result_def by (simp only: AccountSelectionResult.select_convs mem(1) [OF x(1)])
    qed
  qed
qed

theorem selected_account_may_serve_witness:
  "\<exists>sel d t. exec (SelectAccountWithScheduler demo_service [] None [] ''s'' [] [] OpenAIUpstreamTransportAny)
      (demo_gateway [account_one] [account_one] [account_one]) = ((Inr sel, d), t) \<and> account_usable 0 [] (sr_Account sel) \<and>
    gw_accounts t (ac_ID (sr_Account sel)) = Inr (Some (sr_Account sel)) \<and> sd_SelectedAccountID d = ac_ID (sr_Account sel)"
proof -
  obtain sel d t where run: "exec (SelectAccountWithScheduler demo_service [] None [] ''s'' [] [] OpenAIUpstreamTransportAny)
      (demo_gateway [account_one] [account_one] [account_one]) = ((Inr sel, d), t)" "sr_Slot sel \<noteq> None"
    using demo_selected by blast
  from selected_account_may_serve [OF demo_keyed run(1)] show ?thesis using run by (simp add: demo_now)
qed

theorem selection_takes_its_slot_witness:
  "\<exists>sel d t. exec (SelectAccountWithScheduler demo_service [] None [] ''s'' [] [] OpenAIUpstreamTransportAny)
      (demo_gateway [account_one] [account_one] [account_one]) = ((Inr sel, d), t) \<and> sr_Slot sel \<noteq> None \<and>
    owns (cc_slotTTLSeconds demo_cache) (Some sel) (demo_redis [] []) (gw_slots t)"
proof -
  obtain sel d t where run: "exec (SelectAccountWithScheduler demo_service [] None [] ''s'' [] [] OpenAIUpstreamTransportAny)
      (demo_gateway [account_one] [account_one] [account_one]) = ((Inr sel, d), t)" "sr_Slot sel \<noteq> None"
    using demo_selected by blast
  have "ready demo_cache ''r1'' (Suc (listed_count (demo_gateway [account_one] [account_one] [account_one]) None))
      (gw_slots (demo_gateway [account_one] [account_one] [account_one]))"
    using demo_ready [of "Suc (Suc 0)" "''r1''" "[]"] by (simp add: demo_now)
  from selection_takes_its_slot [OF demo_keyed demo_slotted this _ run(1)] show ?thesis
    using run by (simp add: demo_now selection_of_def)
qed

theorem eligible_request_is_served_witness:
  "\<exists>sel d t. exec (SelectAccountWithScheduler demo_service [] None [] [] [] [] OpenAIUpstreamTransportAny)
      (demo_gateway [account_one] [account_one] [account_one]) = ((Inr sel, d), t) \<and> sr_Slot sel \<noteq> None"
proof -
  let ?w = "demo_gateway [account_one] [account_one] [account_one]"
  obtain r d t where run: "exec (SelectAccountWithScheduler demo_service [] None [] [] [] [] OpenAIUpstreamTransportAny) ?w = ((r, d), t)"
    by (metis prod.exhaust)
  have rdy: "ready demo_cache ''r1'' (Suc (listed_count ?w None)) (gw_slots ?w)"
    using demo_ready [of "Suc (Suc 0)" "''r1''" "[]"] by (simp add: demo_now)
  have el: "account_one \<in> set [account_one]" "eligible demo_service (group_of demo_service
      (request None [] OpenAIUpstreamTransportAny []) ?w) (request None [] OpenAIUpstreamTransportAny []) (gw_now ?w) account_one"
    by (simp_all add: demo_group demo_now demo_eligible account_one_def)
  have acc: "gw_accounts ?w (ac_ID account_one) = Inr (Some account_one)"
    by (simp add: demo_gateway_def find_account_def)
  from eligible_request_is_served [OF demo_keyed(1) demo_slotted demo_keyed(2,3) rdy demo_listing el _ run]
  show ?thesis using run acc demo_room by (simp add: demo_now)
qed

text \<open>The database has disabled the account that the snapshot still offers.\<close>

theorem plan_for_refused_account_witness:
  "\<exists>sel d t. exec (SelectAccountWithScheduler demo_service [] None [] [] [] [] OpenAIUpstreamTransportAny)
      (demo_gateway [account_one] [account_one] [demo_account 1 1 True StatusDisabled]) = ((Inr sel, d), t) \<and>
    sr_Slot sel = None \<and> sr_WaitPlan sel \<noteq> None"
proof -
  let ?w = "demo_gateway [account_one] [account_one] [demo_account 1 1 True StatusDisabled]"
  obtain r d t where run: "exec (SelectAccountWithScheduler demo_service [] None [] [] [] [] OpenAIUpstreamTransportAny) ?w = ((r, d), t)"
    by (metis prod.exhaust)
  have rdy: "ready demo_cache ''r1'' (Suc (listed_count ?w None)) (gw_slots ?w)"
    using demo_ready [of "Suc (Suc 0)" "''r1''" "[]"] by (simp add: demo_now)
  have el: "account_one \<in> set [account_one]" "eligible demo_service (group_of demo_service
      (request None [] OpenAIUpstreamTransportAny []) ?w) (request None [] OpenAIUpstreamTransportAny []) (gw_now ?w) account_one"
    by (simp_all add: demo_group demo_now demo_eligible account_one_def)
  have refused: "usable_of ?w [] (found (gw_accounts ?w (ac_ID a))) = None" if "a \<in> set [account_one]" for a
    using that by (simp add: usable_of_def demo_gateway_def find_account_def account_one_def demo_account_def found_def
        account_usable_def IsSchedulable_def account_IsActive_def StatusActive_def StatusDisabled_def)
  from plan_for_refused_account [OF demo_keyed(1) demo_slotted demo_keyed(2,3) rdy demo_listing el _ run _ refused]
  show ?thesis using run by auto
qed

text \<open>The account of the previous response had WebSockets when the snapshot was taken.\<close>

definition demo_bound :: gateway where
  "demo_bound = (demo_gateway [account_one] [account_one] [demo_account 1 1 False StatusActive])
     \<lparr>gw_responses := (NewOpenAIWSStateStore 0)\<lparr>responseToAccount := [(''resp'', 1, 100)]\<rparr>\<rparr>"

definition demo_request :: OpenAIAccountScheduleRequest where
  "demo_request = (request None [] OpenAIUpstreamTransportResponsesWebsocketV2 [])\<lparr>rq_PreviousResponseID := ''resp''\<rparr>"

lemma demo_slot_run: "fst (slot_run demo_service 1 1 (demo_redis [] [])) = Inr (Some (Slot (accountSlotKey 1) (request_id ''r1'' 1)))"
  by (simp add: slot_run_def demo_service_def AcquireAccountSlot_def AcquireSlot_def generateRequestID_def cache_AcquireSlot_def
      Concurrency.call_def send_def next_fault_def acquireScript_def demo_redis_def ZSCORE_def ZCARD_def Let_def zset_of_def
      ZREMRANGEBYSCORE_def change_members_def put_zset_def)

lemma demo_previous:
  "\<exists>u. exec (SelectAccountByPreviousResponseID demo_service None ''resp'' [] []) demo_bound =
    (Some (acquired_result (demo_account 1 1 False StatusActive) (Slot (accountSlotKey 1) (request_id ''r1'' 1))), u)"
proof -
  let ?off = "demo_account 1 1 False StatusActive"
  let ?on = "on_responses demo_service (\<lambda>e. BindResponseAccount (sv_sha256 demo_service) (response_cache demo_service) e
      (derefGroupID None) ''resp'' 1 (openAIWSResponseStickyTTL demo_service)) Return :: (go_error + unit) gprog"
  have trim: "TrimSpace ''resp'' = ''resp''" by (rule TrimSpace_graphic) (simp add: graphic_def)
  have get: "GetResponseAccount (sv_sha256 demo_service) (response_cache demo_service)
      \<lparr>e_range = sv_range demo_service, e_cleanup = gw_now demo_bound, e_now = gw_now demo_bound\<rparr> (derefGroupID None) ''resp''
      (gw_responses demo_bound) (gw_sessions demo_bound) = (1, gw_responses demo_bound, gw_sessions demo_bound)"
    by (simp add: GetResponseAccount_def normalizeOpenAIWSResponseID_def trim maybeCleanup_def demo_bound_def demo_gateway_def
        NewOpenAIWSStateStore_def openAIWSStateStoreCleanupInterval_def time_Minute_def time_Second_def Let_def)
  have snap: "snapshot_of demo_service demo_bound 1 = Some account_one"
    by (simp add: snapshot_of_def demo_service_def demo_bound_def demo_gateway_def find_account_def account_one_def demo_account_def)
  have latest: "latest_of demo_service demo_bound [] account_one = Some ?off"
    by (simp add: latest_of_def usable_of_Some demo_usable demo_service_def demo_bound_def demo_gateway_def find_account_def)
      (simp add: account_one_def demo_account_def)
  have ws: "pd_Transport (ws_Resolve (sv_ws demo_service) account_one) = OpenAIUpstreamTransportResponsesWebsocketV2"
    by (simp add: ws_Resolve_def demo_service_def account_one_def demo_account_def IsOpenAI_def IsOpenAIWSForceHTTPEnabled_def
        IsOpenAIOAuth_def IsOpenAIApiKey_def IsOpenAIResponsesWebSocketV2Enabled_def ws_decision_def AccountTypeAPIKey_def AccountTypeOAuth_def)
  have keep: "\<not> shouldClearStickySession 0 account_one []" "IsOpenAI account_one" "IsSchedulable 0 account_one"
    using demo_usable [of 1 1 True]
    by (simp_all add: shouldClearStickySession_def account_usable_def account_one_def demo_account_def before_opt_def
        GetModelRateLimitRemainingTimeWithContext_def GetMappedModel_def ResolveMappedModel_def StatusActive_def StatusError_def
        StatusDisabled_def)
  have w: "demo_bound\<lparr>gw_responses := gw_responses demo_bound, gw_sessions := gw_sessions demo_bound\<rparr> = demo_bound" by simp
  have now: "gw_now demo_bound = 0" "gw_slots demo_bound = demo_redis [] []" by (simp_all add: demo_bound_def demo_gateway_def)
  have step: "exec (on_responses demo_service (\<lambda>e. GetResponseAccount (sv_sha256 demo_service) (response_cache demo_service) e
      (derefGroupID None) ''resp'') k) demo_bound = exec (k 1) demo_bound" for k :: "int \<Rightarrow> AccountSelectionResult option gprog"
    by (simp add: on_responses_def get [unfolded now] now w)
  have on: "\<exists>x t. exec ?on w = (x, t) \<and> same_accounts w t \<and> gw_slots t = gw_slots w" for w by (rule responses_outcome)
  obtain t where t: "exec (sticky_slot demo_service 1 ?off ?on) demo_bound = (sticky_answer demo_service 1 ?off (gw_slots demo_bound), t)"
    using sticky_slot_outcome [OF on] by metis
  have "exec (SelectAccountByPreviousResponseID demo_service None ''resp'' [] []) demo_bound = exec (sticky_slot demo_service 1 ?off ?on) demo_bound"
    by (simp add: SelectAccountByPreviousResponseID_def trim step snap latest ws keep now Let_def)
  moreover have "ac_Concurrency ?off = 1" by (simp add: demo_account_def)
  ultimately show ?thesis using t demo_slot_run by (simp add: sticky_answer_def now)
qed

theorem previous_response_slot_lost_witness:
  "\<exists>r d t. exec (scheduler_Select demo_service [] demo_request) demo_bound = ((r, d), t) \<and>
    request_id ''r1'' 1 \<in> live (cc_slotTTLSeconds demo_cache) (accountSlotKey 1) (gw_slots t) \<and>
    (\<forall>sel. r = Inr sel \<longrightarrow> sr_Slot sel \<noteq> Some (Slot (accountSlotKey 1) (request_id ''r1'' 1)))"
proof -
  let ?off = "demo_account 1 1 False StatusActive"
  obtain r d t where run: "exec (scheduler_Select demo_service [] demo_request) demo_bound = ((r, d), t)" by (metis prod.exhaust)
  have trim: "TrimSpace ''resp'' = ''resp''" by (rule TrimSpace_graphic) (simp add: graphic_def)
  have req: "rq_GroupID demo_request = None" "TrimSpace (rq_PreviousResponseID demo_request) = ''resp''"
    "rq_RequestedModel demo_request = []" "rq_ExcludedIDs demo_request = []"
    "rq_RequiredTransport demo_request = OpenAIUpstreamTransportResponsesWebsocketV2"
    by (simp_all add: demo_request_def request_def trim)
  obtain u where prev: "exec (SelectAccountByPreviousResponseID demo_service (rq_GroupID demo_request)
      (TrimSpace (rq_PreviousResponseID demo_request)) (rq_RequestedModel demo_request) (rq_ExcludedIDs demo_request)) demo_bound =
      (Some (acquired_result ?off (Slot (accountSlotKey 1) (request_id ''r1'' 1))), u)"
    unfolding req using demo_previous by blast
  have bound: "keyed (gw_snapshot demo_bound)" "keyed (gw_accounts demo_bound)" "listed_count demo_bound g = 1"
    "gw_slots demo_bound = demo_redis [] []" for g
    by (simp_all add: demo_bound_def demo_gateway_def listed_count_def)
  have rdy: "ready demo_cache ''r1'' (2 + listed_count demo_bound (rq_GroupID demo_request)) (gw_slots demo_bound)"
    using demo_ready [of 3 "''r1''" "[]"] by (simp add: bound)
  have bad: "\<not> isAccountTransportCompatible demo_service (sr_Account (acquired_result ?off sl)) (rq_RequiredTransport demo_request)" for sl
    by (simp add: isAccountTransportCompatible_def req acquired_result_def ws_Resolve_def demo_service_def demo_account_def IsOpenAI_def
        IsOpenAIWSForceHTTPEnabled_def IsOpenAIOAuth_def IsOpenAIApiKey_def IsOpenAIResponsesWebSocketV2Enabled_def
        AccountTypeAPIKey_def AccountTypeOAuth_def openAIWSHTTPDecision_def transport_defs)
  from previous_response_slot_lost [OF demo_keyed(1) bound(1,2) demo_slotted rdy _ prev _ bad run]
  show ?thesis using run by (simp add: req acquired_result_def)
qed

end
