(* ===== verification/SessionProps.thy ===== *)
theory SessionProps
  imports SchedulerGuarantees
begin

text \<open>
  Sessions stick to their account: the selection that gives a session its slot also writes or renews the
  binding, and as long as the binding lives, the next requests of the session get the same account.
\<close>

section \<open>Bindings without faults\<close>

definition session_key :: "int option \<Rightarrow> string \<Rightarrow> string" where
  "session_key g hash = buildSessionKey (derefGroupID g) (openAISessionCacheKey hash)"

lemma session_key_trim [simp]: "session_key g (TrimSpace hash) = session_key g hash"
  "openAISessionCacheKey (TrimSpace hash) = openAISessionCacheKey hash"
  by (simp_all add: session_key_def openAISessionCacheKey_def)


lemma legacy_key_trim [simp]: "openAILegacySessionCacheKey l (TrimSpace hash) = openAILegacySessionCacheKey l hash"
  by (simp add: openAILegacySessionCacheKey_def)

















section \<open>The layer of sessions, run\<close>










section \<open>Sessions stick\<close>








end
