(* ===== verification/Spec2Isabelle.thy ===== *)
theory Spec2Isabelle
  imports ResToAnthropic AnthToResponses ResToChat AnthToChat AppErrors IdempotencyRepo Idempotency
    SystemLock Failover WsStateStore UsageBilling SubscriptionProps RedeemProps PaymentGuarantees
    ConcurrencyRequests ChannelProps UsageProps PricingProps SessionProps
begin

text \<open>
  A model of the core of sub2api, a gateway that offers subscriptions of AI services as APIs
  (\<open>backend/internal\<close>, in Go).

  \<^bold>\<open>The program.\<close> A request for one of three protocols (Anthropic Messages, OpenAI Responses, OpenAI
  Chat Completions) is authenticated, an account of an upstream is selected, the request is
  forwarded, and the answer is translated back to the protocol of the client, either whole or event
  by event. When the upstream fails, the handler tries again on the same account or on another one.
  A finished request is charged: balance, subscription, API key and account counters move in one
  database transaction under the request's id. Administrative writes run under an idempotency key,
  and system operations under a lease in the same table. WebSocket sessions remember in memory which
  account and connection an earlier response belongs to. How many requests of a user and of an account
  run at the same time is limited by sorted sets in Redis, which all processes share. Which account
  serves a request to OpenAI is decided by the scheduler: the account of the previous response, else the
  account of the session, else the best ones by load, errors and latency, in a weighted order. What a request
  costs depends on a price list, a table of fallback prices, and the prices of the channel that an
  administrator has set up for the group of its key.

  \<^bold>\<open>Theories\<close>, in order of dependency; the paths are under \<open>backend/internal\<close>.

  \<^item> \<open>GoBase\<close>: what the code uses of Go's library (times and durations, truncating division,
    \<open>strings.TrimSpace\<close>, \<open>strconv\<close>, JSON strings), and the run of a stateful converter over a list
    of events with the locale \<open>stream_contract\<close>, the contract all stream converters are verified
    against. A state machine of the code is a function from an event and a state to outputs and a
    state; \<open>run_steps\<close> is the loop around it.
  \<^item> \<open>ApiTypes\<close>: the records of \<open>pkg/apicompat/types.go\<close>. A Go struct is a record, a pointer an
    option, a raw JSON message its text, an omitted field the zero value.
  \<^item> \<open>ResToAnthropic\<close>, \<open>AnthToResponses\<close>, \<open>ResToChat\<close>: the three answer converters of
    \<open>pkg/apicompat\<close>, one definition per handler with the name of the Go function.
  \<^item> \<open>AnthToChat\<close>: \<open>service/gateway_forward_as_chat_completions.go\<close>, the two handlers that answer
    a Chat Completions request from an Anthropic upstream. The streaming one composes the converters
    of \<open>AnthToResponses\<close> and \<open>ResToChat\<close>, and its theorems follow from theirs.
  \<^item> \<open>AppErrors\<close>: \<open>pkg/errors\<close>, the application errors with their causes; an error of the program
    is a value of \<open>go_error\<close>, a fallible function returns a sum.
  \<^item> \<open>IdempotencyRepo\<close>: the record store. \<open>idempotency_store\<close> is the contract its clients rely on;
    the SQL statements of \<open>repository/idempotency_repo.go\<close> on a table satisfy it.
  \<^item> \<open>Idempotency\<close>: the coordinator of \<open>service/idempotency.go\<close>, verified over any such store.
  \<^item> \<open>SystemLock\<close>: \<open>service/system_operation_lock_service.go\<close>, the second client of the store.
  \<^item> \<open>Failover\<close>: \<open>handler/failover_loop.go\<close> and the retry loop of the chat completions handler.
  \<^item> \<open>WsStateStore\<close>: \<open>service/openai_ws_state_store.go\<close>, four bounded maps with expiring entries.
  \<^item> \<open>UsageBilling\<close>: \<open>service/usage_billing.go\<close> and \<open>repository/usage_billing_repo.go\<close>, the
    charging transaction, with the archiving job of \<open>repository/dashboard_aggregation_repo.go\<close>.

  \<^item> \<open>Prog\<close>: programs of atomic actions, their interleavings, and the rely-guarantee locale
    \<open>interference\<close>. The services below are such programs: every SQL statement and every Redis call is
    one action, a transaction is one action, other calls may act in between, a process may be lost
    at any time.
  \<^item> \<open>BusinessDb\<close>: the tables of users, groups, subscriptions, codes, orders, audit entries and
    provider instances (\<open>ent/schema\<close>), statements with faults, transactions, and the locale
    \<open>db_rely\<close> for handlers that keep a relation on the tables.
  \<^item> \<open>Subscription\<close>, \<open>SubscriptionProps\<close>: \<open>service/subscription_service.go\<close>, \<open>user_subscription.go\<close> and
    \<open>repository/user_subscription_repo.go\<close>, and what they guarantee.
  \<^item> \<open>Redeem\<close>, \<open>RedeemProps\<close>: \<open>service/redeem_service.go\<close>, \<open>redeem_code.go\<close>,
    \<open>repository/redeem_code_repo.go\<close>, \<open>redeem_cache.go\<close>, the balance statements of \<open>user_repo.go\<close>.
  \<^item> \<open>PaymentProviders\<close>: \<open>payment/registry.go\<close>, \<open>load_balancer.go\<close>, \<open>service/payment_config_limits.go\<close>.
  \<^item> \<open>Payment\<close>, \<open>PaymentRefund\<close>, \<open>PaymentCreate\<close>: \<open>service/payment_fulfillment.go\<close>,
    \<open>payment_order_lifecycle.go\<close>, \<open>payment_refund.go\<close>, \<open>payment_order.go\<close> and their helpers.
  \<^item> \<open>PaymentProps\<close>, \<open>PaymentGuarantees\<close>: the relation that every payment handler maintains, and the
    properties of payments.
  \<^item> \<open>Concurrency\<close>: \<open>repository/concurrency_cache.go\<close> (the Lua scripts as actions on a model of Redis),
    \<open>service/concurrency_service.go\<close>, the waiting loop of \<open>handler/gateway_helper.go\<close> and the slots of a
    chat completion, again as programs.
  \<^item> \<open>ConcurrencyProps\<close>, \<open>ConcurrencyRequests\<close>: what slots and queues guarantee under interference, and
    what one request does to them.
  \<^item> \<open>Channels\<close>: \<open>service/channel.go\<close> and the pure part of \<open>channel_service.go\<close>: the channels with their
    prices and model mappings, their validation, the snapshot that requests read.
  \<^item> \<open>ChannelService\<close>: the operations of \<open>service/channel_service.go\<close> with \<open>repository/channel_repo.go\<close>
    and \<open>channel_repo_pricing.go\<close>, as programs; \<open>ChannelProps\<close>: what they guarantee.
  \<^item> \<open>PriceData\<close>: \<open>service/pricing_service.go\<close>, the price list and how a model is found in it, and the names
    of \<open>openai_codex_transform.go\<close>.
  \<^item> \<open>Pricing\<close>: \<open>service/billing_service.go\<close> and \<open>model_pricing_resolver.go\<close>. Prices are objects in a heap,
    because the code shares and updates them by pointer.
  \<^item> \<open>UsageCost\<close>: the recording of usage in \<open>service/gateway_service.go\<close> with \<open>account_stats_pricing.go\<close>,
    composed with the channels and with the transaction of \<open>UsageBilling\<close>.
  \<^item> \<open>PricingProps\<close>, \<open>UsageProps\<close>: what costs guarantee, and that what is logged is what is charged.

  \<^item> \<open>Domain\<close>: the constants of \<open>domain/constants.go\<close> that several theories name.
  \<^item> \<open>SchedAccounts\<close>: \<open>service/account.go\<close>, \<open>model_rate_limit.go\<close> and
    \<open>openai_ws_protocol_resolver.go\<close>: when an account can be scheduled, which models it supports, which
    transport it is given.
  \<^item> \<open>SchedRank\<close>: the ranking in \<open>service/openai_account_scheduler.go\<close>: running averages, the bounded heap of
    the best candidates, the random number generator and the weighted order; \<open>SchedRankProps\<close>: that the
    heap keeps the best ones.
  \<^item> \<open>StickySessions\<close>: \<open>repository/gateway_cache.go\<close> and \<open>service/openai_sticky_compat.go\<close>.
  \<^item> \<open>Scheduler\<close>: \<open>Select\<close> with its three layers, with the parts of \<open>openai_gateway_service.go\<close> and
    \<open>openai_ws_forwarder.go\<close> that it calls, as a program over slots, sessions, responses and accounts.
  \<^item> \<open>SchedulerProps\<close>, \<open>SchedulerGuarantees\<close>, \<open>SessionProps\<close>: what each step of a selection does, who is
    selected and with which slot, when somebody is, and that sessions stick.

  \<^bold>\<open>What the lemmas show.\<close> For every stream converter: the outputs follow the protocol of the client
  (blocks opened and closed in order, consecutive numbers, exactly one end), the text of the answer
  is preserved, and the streamed answer is the buffered one, which panics only on arguments that come for an
  earlier tool call. For the idempotency store: uniqueness
  of records and what each statement does to the abstract map of records; for the coordinator: an
  executor runs exactly when the record allows it, and a stored answer is replayed. For the lock: it
  is granted exactly when it is free, for one lease. For failover: after which failures another turn follows and
  which accounts it excludes, told from the answers of the upstreams, and an end. For
  the WebSocket store: refinement of a map with expiry and a bound on its size. For billing: a
  request is charged at most once across archiving, a charge that reports an error has left
  no trace, or only the answer of its commit was lost and it is complete, and a
  successful one moves every counter. For subscriptions: in every interleaving there is one live row
  for a user and a group; what a renewal, a shortening and the maintenance of windows do alone; the
  check of the hot path is the slow one. For codes: redeeming is all or nothing. For payments: in every interleaving with any faults, a
  balance moves only with a code, a completed order has had its code used, and orders follow their
  life cycle, which among the calls of users and providers are steps along given edges; a paid order that is
  retried is completed. (Refunds that an administrator carries out, the deletion of codes and the charges of usage are
  not among the interleaved calls.) For slots: a sorted
  set implements a set of holders, limits and queue lengths are kept in every interleaving with any
  faults, and a request gives back what it took. For channels: in every interleaving the stored ones
  stay valid, and for valid ones a lookup in the snapshot is the search through the configuration. For
  pricing: bounds and monotony of a cost; two runs on heaps with the same fallback prices cost the
  same, and a request leaves the fallback prices alone unless a flat channel price meets a model that
  only they price, in which case it is shown to overwrite them; the user is charged what the log
  says, once, while the log itself is written best effort. For the scheduler: the candidates kept by the heap are the first ones of the sorted list;
  whoever is selected may serve the request; exactly the slot that is returned has been taken; a request
  for which an account of the list is eligible is answered with an account; the next request of a session
  gets the same account as long as its binding, or that of its legacy hash, lives. Where the code does not do what it means to, a theorem states
  what it does instead.

  \<^bold>\<open>Interfaces.\<close> \<open>stream_contract\<close> (interpreted on every converter), \<open>idempotency_store\<close>
  (interpreted on the SQL statements as \<open>idem_sql\<close>; the coordinator and the lock are its clients),
  \<open>ttl_map\<close> (interpreted on each of the four maps of the WebSocket store), \<open>interference\<close> and its
  extension \<open>db_rely\<close> (interpreted as \<open>subs\<close> for the subscription table, \<open>frame\<close> for handlers that
  leave other tables alone, \<open>pay\<close> for the payment relation), \<open>state_invariant\<close> (interpreted as
  \<open>channels\<close>) and its extension \<open>cache_invariant\<close> (interpreted as \<open>slots\<close> and \<open>queue\<close>), \<open>weak_order\<close> with the
  lemmas on heaps (interpreted as \<open>best_heap\<close> on the order of the scheduler's candidates).

  \<^bold>\<open>Parameters.\<close> Code that is not in the repository is an argument: \<open>encoding/json\<close> (a decoder of
  stream events, a codec of stored answers), SHA-256, \<open>crypto/rand\<close> (a supply of identifiers), the
  clock, the iteration order of Go maps, PostgreSQL's time zones, the Redis cache, payment providers and the decryption of their
  configuration, the payment configuration and plans, \<open>shopspring/decimal\<close>. Faults of the
  database are a list of outcomes, one per statement, so that every statement may fail. Amounts of
  money are rationals, where the code has \<open>float64\<close> and the database \<open>numeric\<close>; so are the scores and
  averages of the scheduler. What the snapshot of accounts and the database answer is part of its state.

  \<^bold>\<open>Bounds.\<close> No definition needs fuel: streams, turns and statements are lists, and the archiving
  loop ends because a full batch shrinks the table. The retry loop of a chat completion reads the
  answers of its environment from a list; \<open>failover_loop_ends\<close> gives the number of turns after which
  it has ended, whatever the answers.

  \<^bold>\<open>Not modelled.\<close> HTTP, routing and middleware, logging and metrics, the generated database code,
  the web interface, request conversion, the selection of accounts for the other platforms and without a
  scheduler, the service that keeps the snapshot of accounts, the measured latency of a selection and the
  spread of loads it reports, the connection pool and the cooldowns
  derived from upstream errors; of
  subscriptions, codes, payments and channels the lists and statistics for administrators; the download of
  the price list, the caches and notifications after a charge, the batches in which usage logs are
  inserted (that a log is dropped, fails or is written unnoticed is modelled), and the charge without a billing repository. A transaction is
  one action, although READ COMMITTED lets others act between its statements: the checks of
  \<open>createOrderInTx\<close> that this matters for are single statements before it. Go code between two
  statements is not interleaved. A read of the channels takes the prices together with their intervals,
  and requests that wait for the same build of a snapshot build their own. Redis keeps its data, and its clock does not go back; the release of a
  slot by a cancelled context is the release at the end of the request.

  \<^bold>\<open>Open.\<close> The parts that would come next are the request converters, the account selection of
  the other platforms, the connection pool and the handling of upstream rate limits.
\<close>

end
